(* ===== verification/Prelude.thy ===== *)
theory Prelude
  imports Main "HOL-Library.Code_Target_Numeral"
begin

text \<open>
  Shared vocabulary of the development: Python text, results that are either an
  error or a value, folds that may stop with an error, duplicate checks, decimal
  rendering, and the two theorem collections the component theories fill.

  Python \<open>str\<close> is a sequence of code points, so it may hold a lone surrogate; it is
  modelled as a list of natural numbers and not as HOL's \<open>string\<close>, whose characters
  are bytes.  A source literal \<open>"abc"\<close> is written \<open>U ''abc''\<close>.
\<close>

named_theorems result_simps \<open>unfolding error/value results\<close>
named_theorems model_defs \<open>definitions that are plain transcriptions\<close>

section \<open>Python text\<close>

type_synonym pystr = "nat list"

definition U :: "string \<Rightarrow> pystr" where
  "U s = List.map of_char s"

lemma U_inject [simp]: "U s = U t \<longleftrightarrow> s = t"
  by (simp add: U_def inj_map_eq_map inj_on_def)

lemma length_U [simp]: "length (U s) = length s"
  by (simp add: U_def)

lemma U_Nil [simp]: "U s = [] \<longleftrightarrow> s = []"
  by (simp add: U_def)

text \<open>\<open>str.startswith\<close>\<close>

definition startswith :: "pystr \<Rightarrow> pystr \<Rightarrow> bool" where
  "startswith p s \<longleftrightarrow> take (length p) s = p"

section \<open>Results\<close>

text \<open>A call that may raise returns \<open>Inl\<close> of the error or \<open>Inr\<close> of the value.
  \<open>bind_r\<close> is sequencing: the first error wins and the rest is not run.\<close>

fun bind_r :: "'e + 'a \<Rightarrow> ('a \<Rightarrow> 'e + 'b) \<Rightarrow> 'e + 'b" where
  "bind_r (Inl e) f = Inl e"
| "bind_r (Inr x) f = f x"

definition check_r :: "bool \<Rightarrow> 'e \<Rightarrow> 'e + unit" where
  "check_r b e = (if b then Inr () else Inl e)"

definition lift_option :: "'e \<Rightarrow> 'a option \<Rightarrow> 'e + 'a" where
  "lift_option e x = (case x of None \<Rightarrow> Inl e | Some y \<Rightarrow> Inr y)"

lemma bind_r_Inr_iff [result_simps]:
  "bind_r m f = Inr y \<longleftrightarrow> (\<exists>x. m = Inr x \<and> f x = Inr y)"
  by (cases m) auto

lemma bind_r_Inl_iff [result_simps]:
  "bind_r m f = Inl e \<longleftrightarrow> m = Inl e \<or> (\<exists>x. m = Inr x \<and> f x = Inl e)"
  by (cases m) auto

lemma check_r_iff [result_simps]:
  "check_r b e = Inr u \<longleftrightarrow> b"
  "check_r b e = Inl e' \<longleftrightarrow> \<not> b \<and> e' = e"
  by (auto simp: check_r_def)

lemma lift_option_iff [result_simps]:
  "lift_option e x = Inr y \<longleftrightarrow> x = Some y"
  "lift_option e x = Inl e' \<longleftrightarrow> x = None \<and> e' = e"
  by (auto simp: lift_option_def split: option.splits)

lemma bind_r_assoc: "bind_r (bind_r m f) g = bind_r m (\<lambda>x. bind_r (f x) g)"
  by (cases m) auto

definition is_ok :: "'e + 'a \<Rightarrow> bool" where
  "is_ok m = (case m of Inl _ \<Rightarrow> False | Inr _ \<Rightarrow> True)"

lemma is_ok_iff [result_simps]: "is_ok m \<longleftrightarrow> (\<exists>x. m = Inr x)"
  by (cases m) (auto simp: is_ok_def)

lemma check_ok_simps [simp]:
  "is_ok (Inl e) = False" "is_ok (Inr x) = True"
  by (simp_all add: is_ok_def)

lemma is_ok_if [simp]: "is_ok (if b then Inl e else m) \<longleftrightarrow> \<not> b \<and> is_ok m"
  by simp

lemma is_ok_bind [simp]: "is_ok (bind_r m f) \<longleftrightarrow> (\<exists>x. m = Inr x \<and> is_ok (f x))"
  by (cases m) auto

lemma is_ok_unit: "is_ok (m :: 'e + unit) \<longleftrightarrow> m = Inr ()"
  by (cases m) auto

section \<open>Folds that may stop\<close>

text \<open>A Python \<open>for\<close> loop whose body may raise.\<close>

fun fold_r :: "('s \<Rightarrow> 'a \<Rightarrow> 'e + 's) \<Rightarrow> 's \<Rightarrow> 'a list \<Rightarrow> 'e + 's" where
  "fold_r f s [] = Inr s"
| "fold_r f s (x # xs) = bind_r (f s x) (\<lambda>s'. fold_r f s' xs)"

lemma fold_r_append:
  "fold_r f s (xs @ ys) = bind_r (fold_r f s xs) (\<lambda>s'. fold_r f s' ys)"
  by (induction xs arbitrary: s) (auto simp: bind_r_assoc)

lemma fold_r_snoc:
  fixes f :: "'s \<Rightarrow> 'a \<Rightarrow> 'e + 's"
  shows "fold_r f s (xs @ [x]) = bind_r (fold_r f s xs) (\<lambda>s'. f s' x)"
proof -
  have *: "bind_r m Inr = m" for m :: "'e + 's" by (cases m) auto
  show ?thesis by (simp add: fold_r_append *)
qed

lemma fold_r_invariant:
  assumes "fold_r f s xs = Inr t" "P s"
    and "\<And>s x t. x \<in> set xs \<Longrightarrow> P s \<Longrightarrow> f s x = Inr t \<Longrightarrow> P t"
  shows "P t"
  using assms by (induction xs arbitrary: s) (auto simp: result_simps)

text \<open>A list built by a loop whose body may raise.\<close>

fun map_r :: "('a \<Rightarrow> 'e + 'b) \<Rightarrow> 'a list \<Rightarrow> 'e + 'b list" where
  "map_r f [] = Inr []"
| "map_r f (x # xs) = bind_r (f x) (\<lambda>y. bind_r (map_r f xs) (\<lambda>ys. Inr (y # ys)))"

lemma map_r_Inr_iff: "map_r f xs = Inr ys \<longleftrightarrow> list_all2 (\<lambda>x y. f x = Inr y) xs ys"
  by (induction xs arbitrary: ys) (auto simp: result_simps list_all2_Cons1)

lemma map_r_cong [fundef_cong]:
  assumes "xs = ys" "\<And>x. x \<in> set ys \<Longrightarrow> f x = g x"
  shows "map_r f xs = map_r g ys"
proof -
  have "map_r f ys = map_r g ys" using assms(2) by (induction ys) (auto intro: arg_cong)
  with assms(1) show ?thesis by simp
qed

fun map_o :: "('a \<Rightarrow> 'b option) \<Rightarrow> 'a list \<Rightarrow> 'b list option" where
  "map_o f [] = Some []"
| "map_o f (x # xs) = (case f x of None \<Rightarrow> None
     | Some y \<Rightarrow> (case map_o f xs of None \<Rightarrow> None | Some ys \<Rightarrow> Some (y # ys)))"

lemma map_o_Some_iff: "map_o f xs = Some ys \<longleftrightarrow> list_all2 (\<lambda>x y. f x = Some y) xs ys"
proof (induction xs arbitrary: ys)
  case (Cons x xs)
  then show ?case
    by (cases "f x"; cases "map_o f xs") (auto simp: list_all2_Cons1)
qed auto

lemma map_o_map: "(\<And>x. x \<in> set xs \<Longrightarrow> f (g x) = Some x) \<Longrightarrow> map_o f (List.map g xs) = Some xs"
  by (induction xs) auto

section \<open>Lists\<close>

definition last_of :: "'a list \<Rightarrow> 'a option" where
  "last_of xs = (if xs = [] then None else Some (last xs))"

lemma last_eq_nth: "xs \<noteq> [] \<Longrightarrow> last xs = xs ! (length xs - 1)"
  by (simp add: last_conv_nth)

text \<open>\<open>len(xs) != len(set(xs))\<close> is the source's duplicate test.\<close>

lemma length_card_set_distinct: "length xs = card (set xs) \<longleftrightarrow> distinct xs"
  by (metis card_distinct distinct_card)

text \<open>First element that satisfies a test, as the \<open>for ... return\<close> loops find it.\<close>

fun find_first :: "('a \<Rightarrow> bool) \<Rightarrow> 'a list \<Rightarrow> 'a option" where
  "find_first p [] = None"
| "find_first p (x # xs) = (if p x then Some x else find_first p xs)"

lemma find_first_None [simp]: "find_first p xs = None \<longleftrightarrow> (\<forall>x\<in>set xs. \<not> p x)"
  by (induction xs) auto

lemma find_first_SomeD: "find_first p xs = Some x \<Longrightarrow> x \<in> set xs \<and> p x"
  by (induction xs) (auto split: if_splits)

lemma find_first_SomeE:
  assumes "find_first p xs = Some x"
  obtains ys zs where "xs = ys @ x # zs" "p x" "\<forall>y\<in>set ys. \<not> p y"
  using assms
proof (induction xs arbitrary: thesis)
  case (Cons a xs)
  show ?case
  proof (cases "p a")
    case True
    with Cons.prems show ?thesis by (auto intro: Cons.prems(1)[of "[]"])
  next
    case False
    with Cons.prems have "find_first p xs = Some x" by simp
    with Cons.IH obtain ys zs where "xs = ys @ x # zs" "p x" "\<forall>y\<in>set ys. \<not> p y" by blast
    with False Cons.prems(1)[of "a # ys" zs] show ?thesis by auto
  qed
qed simp

text \<open>Lets the evaluator decide constraints on optional fields.\<close>

lemma pred_option_code [code]: "pred_option p None = True" "pred_option p (Some x) = p x"
  by simp_all

section \<open>Decimal text\<close>

text \<open>\<open>str(n)\<close> for a natural number, and \<open>int(text)\<close> for text made of digits only
  (every call in the modelled code applies \<open>int\<close> to text a digit pattern accepted).\<close>

fun digits_of :: "nat \<Rightarrow> pystr" where
  "digits_of n = (if n < 10 then [48 + n] else digits_of (n div 10) @ [48 + n mod 10])"

declare digits_of.simps [simp del]

definition int_of_digits :: "pystr \<Rightarrow> nat" where
  "int_of_digits s = foldl (\<lambda>n c. n * 10 + (c - 48)) 0 s"

definition is_digit :: "nat \<Rightarrow> bool" where
  "is_digit c \<longleftrightarrow> 48 \<le> c \<and> c \<le> 57"

lemma int_of_digits_snoc [simp]:
  "int_of_digits (s @ [c]) = int_of_digits s * 10 + (c - 48)"
  by (simp add: int_of_digits_def)

lemma int_of_digits_digits_of [simp]: "int_of_digits (digits_of n) = n"
proof (induction n rule: digits_of.induct)
  case (1 n)
  show ?case
  proof (cases "n < 10")
    case True
    then show ?thesis by (simp add: digits_of.simps int_of_digits_def)
  next
    case False
    then have "digits_of n = digits_of (n div 10) @ [48 + n mod 10]"
      by (subst digits_of.simps) simp
    with 1 False show ?thesis by simp
  qed
qed

lemma digits_of_inject [simp]: "digits_of m = digits_of n \<longleftrightarrow> m = n"
  by (metis int_of_digits_digits_of)

lemma digits_of_digit: "list_all is_digit (digits_of n)"
proof (induction n rule: digits_of.induct)
  case (1 n)
  then show ?case
    by (cases "n < 10") (simp_all add: digits_of.simps[of n] is_digit_def)
qed

lemma digits_of_neq_Nil [simp]: "digits_of n \<noteq> []"
  by (subst digits_of.simps) simp

end
