(* ===== verification/Regex.thy ===== *)
theory Regex
  imports Prelude
begin

text \<open>
  Regular expressions as the sources use them: \<open>re.fullmatch\<close> and the anchored
  pydantic \<open>pattern\<close> constraints, so a pattern accepts or rejects the whole text.
  The patterns of the program are then transcribed literally and decided by
  derivatives.  \<open>fullmatch_iff\<close> says the matcher decides the usual language of an
  expression, and the lemmas after it compute the languages of bounded repetitions.
\<close>

datatype regex =
    RNone
  | REps
  | RCls bool "(nat \<times> nat) list"
  | RAlt regex regex
  | RSeq regex regex
  | RStar regex
  | rtimes nat regex
  | rupto nat regex

text \<open>\<open>RCls True rs\<close> is the class \<open>[...]\<close> with the ranges \<open>rs\<close>, \<open>RCls False rs\<close> is \<open>[^...]\<close>.\<close>

definition in_ranges :: "nat \<Rightarrow> (nat \<times> nat) list \<Rightarrow> bool" where
  "in_ranges c rs \<longleftrightarrow> list_ex (\<lambda>(a, b). a \<le> c \<and> c \<le> b) rs"

fun nullable :: "regex \<Rightarrow> bool" where
  "nullable RNone = False"
| "nullable REps = True"
| "nullable (RCls b rs) = False"
| "nullable (RAlt r s) = (nullable r \<or> nullable s)"
| "nullable (RSeq r s) = (nullable r \<and> nullable s)"
| "nullable (RStar r) = True"
| "nullable (rtimes n r) = (n = 0 \<or> nullable r)"
| "nullable (rupto n r) = True"

text \<open>Sequencing and choice that drop dead branches keep the derivatives small.\<close>

fun mk_seq :: "regex \<Rightarrow> regex \<Rightarrow> regex" where
  "mk_seq RNone s = RNone"
| "mk_seq REps s = s"
| "mk_seq r s = RSeq r s"

fun mk_alt :: "regex \<Rightarrow> regex \<Rightarrow> regex" where
  "mk_alt RNone s = s"
| "mk_alt r RNone = r"
| "mk_alt r s = RAlt r s"

fun deriv :: "nat \<Rightarrow> regex \<Rightarrow> regex" where
  "deriv c RNone = RNone"
| "deriv c REps = RNone"
| "deriv c (RCls b rs) = (if in_ranges c rs = b then REps else RNone)"
| "deriv c (RAlt r s) = mk_alt (deriv c r) (deriv c s)"
| "deriv c (RSeq r s) =
     (if nullable r then mk_alt (mk_seq (deriv c r) s) (deriv c s) else mk_seq (deriv c r) s)"
| "deriv c (RStar r) = mk_seq (deriv c r) (RStar r)"
| "deriv c (rtimes n r) = (if n = 0 then RNone else mk_seq (deriv c r) (rtimes (n - 1) r))"
| "deriv c (rupto n r) = (if n = 0 then RNone else mk_seq (deriv c r) (rupto (n - 1) r))"

fun fullmatch :: "regex \<Rightarrow> pystr \<Rightarrow> bool" where
  "fullmatch r [] = nullable r"
| "fullmatch r (c # s) = fullmatch (deriv c r) s"

section \<open>Derived forms\<close>

definition rchr :: "nat \<Rightarrow> regex" where "rchr c = RCls True [(c, c)]"
definition rcls :: "(nat \<times> nat) list \<Rightarrow> regex" where "rcls rs = RCls True rs"
definition rnot :: "(nat \<times> nat) list \<Rightarrow> regex" where "rnot rs = RCls False rs"
definition ropt :: "regex \<Rightarrow> regex" where "ropt r = RAlt r REps"
definition rplus :: "regex \<Rightarrow> regex" where "rplus r = RSeq r (RStar r)"

fun rlit :: "pystr \<Rightarrow> regex" where
  "rlit [] = REps"
| "rlit (c # s) = RSeq (rchr c) (rlit s)"

definition rbetween :: "nat \<Rightarrow> nat \<Rightarrow> regex \<Rightarrow> regex" where
  "rbetween m n r = RSeq (rtimes m r) (rupto (n - m) r)"

definition rseqs :: "regex list \<Rightarrow> regex" where "rseqs rs = foldr RSeq rs REps"
definition ralts :: "regex list \<Rightarrow> regex" where "ralts rs = foldr RAlt rs RNone"

lemmas regex_forms = rchr_def rcls_def rnot_def ropt_def rplus_def rbetween_def rseqs_def ralts_def

section \<open>The language of an expression\<close>

inductive_set star_of :: "pystr set \<Rightarrow> pystr set" for A :: "pystr set" where
  star_Nil: "[] \<in> star_of A"
| star_app: "u \<in> A \<Longrightarrow> v \<in> star_of A \<Longrightarrow> u @ v \<in> star_of A"

fun power_of :: "nat \<Rightarrow> pystr set \<Rightarrow> pystr set" where
  "power_of 0 A = {[]}"
| "power_of (Suc n) A = {w. \<exists>u v. w = u @ v \<and> u \<in> A \<and> v \<in> power_of n A}"

fun upto_of :: "nat \<Rightarrow> pystr set \<Rightarrow> pystr set" where
  "upto_of 0 A = {[]}"
| "upto_of (Suc n) A = insert [] {w. \<exists>u v. w = u @ v \<and> u \<in> A \<and> v \<in> upto_of n A}"

fun lang :: "regex \<Rightarrow> pystr set" where
  "lang RNone = {}"
| "lang REps = {[]}"
| "lang (RCls b rs) = {s. \<exists>c. s = [c] \<and> in_ranges c rs = b}"
| "lang (RAlt r s) = lang r \<union> lang s"
| "lang (RSeq r s) = {w. \<exists>u v. w = u @ v \<and> u \<in> lang r \<and> v \<in> lang s}"
| "lang (RStar r) = star_of (lang r)"
| "lang (rtimes n r) = power_of n (lang r)"
| "lang (rupto n r) = upto_of n (lang r)"

lemma lang_mk_seq [simp]: "lang (mk_seq r s) = lang (RSeq r s)"
  by (cases r) auto

lemma lang_mk_alt [simp]: "lang (mk_alt r s) = lang (RAlt r s)"
  by (cases r; cases s) auto

lemma power_of_Nil: "[] \<in> power_of n A \<longleftrightarrow> n = 0 \<or> [] \<in> A"
  by (induction n) auto

lemma upto_of_Nil: "[] \<in> upto_of n A"
  by (cases n) auto

lemma nullable_iff: "nullable r \<longleftrightarrow> [] \<in> lang r"
  by (induction r) (auto intro: star_Nil upto_of_Nil simp: power_of_Nil)

lemma star_of_Cons:
  "c # s \<in> star_of A \<longleftrightarrow> (\<exists>u v. s = u @ v \<and> c # u \<in> A \<and> v \<in> star_of A)"
proof
  have "w \<in> star_of A \<Longrightarrow> w = c # s \<Longrightarrow> \<exists>u v. s = u @ v \<and> c # u \<in> A \<and> v \<in> star_of A" for w
  proof (induction rule: star_of.induct)
    case (star_app u v)
    then show ?case by (cases u) auto
  qed simp
  then show "c # s \<in> star_of A \<Longrightarrow> \<exists>u v. s = u @ v \<and> c # u \<in> A \<and> v \<in> star_of A" by blast
qed (use star_app in force)

lemma power_of_mono: "[] \<in> A \<Longrightarrow> s \<in> power_of n A \<Longrightarrow> s \<in> power_of (Suc n) A"
  by (metis (mono_tags, lifting) append_Nil mem_Collect_eq power_of.simps(2))

lemma power_of_Cons:
  "c # s \<in> power_of (Suc n) A \<longleftrightarrow> (\<exists>u v. s = u @ v \<and> c # u \<in> A \<and> v \<in> power_of n A)"
proof (induction n)
  case 0
  then show ?case by (auto simp: append_eq_Cons_conv Cons_eq_append_conv)
next
  case (Suc n)
  have "c # s \<in> power_of (Suc (Suc n)) A \<longleftrightarrow>
      (\<exists>u v. s = u @ v \<and> c # u \<in> A \<and> v \<in> power_of (Suc n) A) \<or> [] \<in> A \<and> c # s \<in> power_of (Suc n) A"
    by (subst power_of.simps) (auto simp: Cons_eq_append_conv simp del: power_of.simps)
  then show ?case using Suc power_of_mono by blast
qed

lemma upto_of_mono: "s \<in> upto_of n A \<Longrightarrow> s \<in> upto_of (Suc n) A"
proof (induction n arbitrary: s)
  case (Suc n)
  from Suc.prems have "s = [] \<or> (\<exists>u v. s = u @ v \<and> u \<in> A \<and> v \<in> upto_of n A)" by simp
  with Suc.IH have "s = [] \<or> (\<exists>u v. s = u @ v \<and> u \<in> A \<and> v \<in> upto_of (Suc n) A)" by blast
  then show ?case unfolding upto_of.simps(2)[of "Suc n"] by blast
qed simp

lemma upto_of_Cons:
  "c # s \<in> upto_of (Suc n) A \<longleftrightarrow> (\<exists>u v. s = u @ v \<and> c # u \<in> A \<and> v \<in> upto_of n A)"
proof (induction n)
  case 0
  then show ?case by (auto simp: append_eq_Cons_conv Cons_eq_append_conv)
next
  case (Suc n)
  have "c # s \<in> upto_of (Suc (Suc n)) A \<longleftrightarrow>
      (\<exists>u v. s = u @ v \<and> c # u \<in> A \<and> v \<in> upto_of (Suc n) A) \<or> [] \<in> A \<and> c # s \<in> upto_of (Suc n) A"
    by (subst upto_of.simps) (auto simp: Cons_eq_append_conv simp del: upto_of.simps)
  then show ?case using Suc upto_of_mono by blast
qed

lemma deriv_iff: "s \<in> lang (deriv c r) \<longleftrightarrow> c # s \<in> lang r"
proof (induction r arbitrary: s)
  case (RSeq r1 r2)
  have "c # s \<in> lang (RSeq r1 r2) \<longleftrightarrow>
      (\<exists>u v. s = u @ v \<and> c # u \<in> lang r1 \<and> v \<in> lang r2) \<or> ([] \<in> lang r1 \<and> c # s \<in> lang r2)"
    by (auto simp: Cons_eq_append_conv)
  with RSeq show ?case by (auto simp: nullable_iff)
next
  case (RStar r)
  then show ?case by (auto simp: star_of_Cons)
next
  case (rtimes n r)
  then show ?case by (cases n) (auto simp: power_of_Cons simp del: power_of.simps(2))
next
  case (rupto n r)
  then show ?case by (cases n) (auto simp: upto_of_Cons simp del: upto_of.simps(2))
qed auto

theorem fullmatch_iff: "fullmatch r s \<longleftrightarrow> s \<in> lang r"
  by (induction r s rule: fullmatch.induct) (simp_all add: nullable_iff deriv_iff)

lemma lang_rchr [simp]: "lang (rchr c) = {[c]}"
  by (auto simp: rchr_def in_ranges_def)

lemma lang_rcls [simp]: "lang (rcls rs) = {s. \<exists>c. s = [c] \<and> in_ranges c rs}"
  by (simp add: rcls_def)

lemma lang_rnot [simp]: "lang (rnot rs) = {s. \<exists>c. s = [c] \<and> \<not> in_ranges c rs}"
  by (simp add: rnot_def)

lemma lang_rlit [simp]: "lang (rlit s) = {s}"
  by (induction s) auto

lemma lang_ropt [simp]: "lang (ropt r) = insert [] (lang r)"
  by (auto simp: ropt_def)

lemma lang_rseqs_Cons [simp]:
  "lang (rseqs (r # rs)) = {w. \<exists>u v. w = u @ v \<and> u \<in> lang r \<and> v \<in> lang (rseqs rs)}"
  by (simp add: rseqs_def)

lemma lang_rseqs_Nil [simp]: "lang (rseqs []) = {[]}"
  by (simp add: rseqs_def)

lemma lang_ralts_Cons [simp]: "lang (ralts (r # rs)) = lang r \<union> lang (ralts rs)"
  by (simp add: ralts_def)

lemma lang_ralts_Nil [simp]: "lang (ralts []) = {}"
  by (simp add: ralts_def)

text \<open>Repetitions of a class are length and membership conditions.\<close>

lemma lang_seq_cls: "lang (RSeq (rcls rs) r) = {s. \<exists>c t. s = c # t \<and> in_ranges c rs \<and> t \<in> lang r}"
  by (auto, metis append_Cons append_Nil)

lemma lang_rtimes_cls:
  "lang (rtimes n (rcls rs)) = {s. length s = n \<and> (\<forall>c\<in>set s. in_ranges c rs)}"
proof (induction n)
  case (Suc n)
  have "lang (rtimes (Suc n) (rcls rs)) = lang (RSeq (rcls rs) (rtimes n (rcls rs)))" by simp
  then show ?case
    unfolding lang_seq_cls Suc by (auto simp: length_Suc_conv)
qed auto

lemma lang_rupto_cls:
  "lang (rupto n (rcls rs)) = {s. length s \<le> n \<and> (\<forall>c\<in>set s. in_ranges c rs)}"
proof (induction n)
  case (Suc n)
  have *: "lang (rupto (Suc n) (rcls rs)) = insert [] (lang (RSeq (rcls rs) (rupto n (rcls rs))))" by simp
  show ?case
  proof (rule set_eqI)
    fix s
    show "s \<in> lang (rupto (Suc n) (rcls rs)) \<longleftrightarrow>
        s \<in> {s. length s \<le> Suc n \<and> (\<forall>c\<in>set s. in_ranges c rs)}"
      unfolding * lang_seq_cls Suc by (cases s) auto
  qed
qed auto

lemma lang_star_cls: "lang (RStar (rcls rs)) = {s. \<forall>c\<in>set s. in_ranges c rs}"
proof (intro set_eqI iffI)
  fix s assume "s \<in> lang (RStar (rcls rs))"
  then have "s \<in> star_of (lang (rcls rs))" by simp
  then show "s \<in> {s. \<forall>c\<in>set s. in_ranges c rs}" by (induction rule: star_of.induct) auto
next
  fix s assume "s \<in> {s. \<forall>c\<in>set s. in_ranges c rs}"
  then show "s \<in> lang (RStar (rcls rs))"
  proof (induction s)
    case (Cons c s)
    then have "[c] \<in> lang (rcls rs)" "s \<in> star_of (lang (rcls rs))" by auto
    then have "[c] @ s \<in> star_of (lang (rcls rs))" by (rule star_app)
    then show ?case by simp
  qed (simp add: star_Nil)
qed

lemmas cls_langs = lang_rtimes_cls lang_rupto_cls lang_star_cls

end
