(* ===== verification/Py_Value.thy ===== *)
theory Py_Value
  imports Regex "HOL-Library.Monad_Syntax"
begin

text \<open>
  Python values as the program's documents hold them, and the pieces every document
  class shares: field access, strict scalar checks and closed key sets.

  A document is a finite tree, so the source's checks for cyclic containers always
  pass here; sharing of sub-objects is not represented.  A float is kept as what
  Python prints for it (\<open>repr\<close>), a dict as the list of its items in insertion order.
  Values of any other Python type are \<open>PyOther\<close>, keys that are not text \<open>KOther\<close>.

  The document classes are pydantic models with \<open>strict=True\<close> and
  \<open>extra="forbid"\<close>.  Their decoders return \<open>None\<close> where pydantic raises
  \<open>ValidationError\<close>: a scalar of the wrong type (an \<open>int\<close> field does not take a bool),
  a string with a lone surrogate, a missing required field, an unknown key, or a
  failed constraint.  The engine itself is a library and is not modelled.
\<close>

datatype pykey = KStr pystr | KOther pystr

datatype pyfloat = FNaN | FInf bool | FFin pystr

datatype pyval =
    PyNone
  | PyBool bool
  | PyInt int
  | PyFloat pyfloat
  | PyStr pystr
  | PyList "pyval list"
  | PyDict "(pykey \<times> pyval) list"
  | PyOther pystr

type_synonym pydict = "(pykey \<times> pyval) list"

section \<open>Dictionaries\<close>

definition dict_get :: "pystr \<Rightarrow> pydict \<Rightarrow> pyval option" where
  "dict_get k d = map_of d (KStr k)"

text \<open>\<open>d[k] = v\<close> keeps the position of a key that is there and appends a new one.\<close>

fun dict_set :: "pystr \<Rightarrow> pyval \<Rightarrow> pydict \<Rightarrow> pydict" where
  "dict_set k v [] = [(KStr k, v)]"
| "dict_set k v ((k', v') # d) =
     (if k' = KStr k then (k', v) # d else (k', v') # dict_set k v d)"

definition dict_update :: "pydict \<Rightarrow> (pystr \<times> pyval) list \<Rightarrow> pydict" where
  "dict_update d kvs = foldl (\<lambda>d (k, v). dict_set k v d) d kvs"

definition dict_pop :: "pystr \<Rightarrow> pydict \<Rightarrow> pydict" where
  "dict_pop k d = List.filter (\<lambda>(k', _). k' \<noteq> KStr k) d"

definition dict_has :: "pystr \<Rightarrow> pydict \<Rightarrow> bool" where
  "dict_has k d \<longleftrightarrow> list_ex (\<lambda>(k', _). k' = KStr k) d"

lemma dict_get_Nil [simp]: "dict_get k [] = None"
  by (simp add: dict_get_def)

lemma dict_get_Cons [simp]:
  "dict_get k ((k', v) # d) = (if k' = KStr k then Some v else dict_get k d)"
  by (simp add: dict_get_def)

lemma dict_get_set [simp]:
  "dict_get k (dict_set k' v d) = (if k = k' then Some v else dict_get k d)"
  by (induction k' v d rule: dict_set.induct) auto

lemma dict_set_keys:
  "fst ` set (dict_set k v d) = insert (KStr k) (fst ` set d)"
  by (induction k v d rule: dict_set.induct) auto

lemma distinct_dict_set:
  "distinct (List.map fst d) \<Longrightarrow> distinct (List.map fst (dict_set k v d))"
proof (induction k v d rule: dict_set.induct)
  case (2 k v k' v' d)
  have "fst ` set (dict_set k v d) = insert (KStr k) (fst ` set d)" by (rule dict_set_keys)
  with 2 show ?case by (auto simp: image_iff)
qed auto

lemma dict_has_iff: "dict_has k d \<longleftrightarrow> dict_get k d \<noteq> None"
  by (induction d) (auto simp: dict_has_def)

section \<open>Scalars\<close>

definition is_surrogate :: "nat \<Rightarrow> bool" where
  "is_surrogate c \<longleftrightarrow> 0xD800 \<le> c \<and> c \<le> 0xDFFF"

text \<open>\<open>value.encode("utf-8")\<close> succeeds\<close>

definition utf8_ok :: "pystr \<Rightarrow> bool" where
  "utf8_ok s \<longleftrightarrow> list_all (\<lambda>c. \<not> is_surrogate c) s"

lemma utf8_ok_U [simp]: "utf8_ok (U s)"
proof -
  have "\<not> 0xD800 \<le> (of_char c :: nat)" for c :: char
    using nat_of_char_less_256[of c] by linarith
  then show ?thesis by (simp add: utf8_ok_def U_def is_surrogate_def list_all_iff)
qed

lemma utf8_ok_append [simp]: "utf8_ok (s @ t) \<longleftrightarrow> utf8_ok s \<and> utf8_ok t"
  by (simp add: utf8_ok_def)

fun as_str :: "pyval \<Rightarrow> pystr option" where
  "as_str (PyStr s) = (if utf8_ok s then Some s else None)"
| "as_str _ = None"

fun as_int :: "pyval \<Rightarrow> int option" where
  "as_int (PyInt i) = Some i"
| "as_int _ = None"

fun as_bool :: "pyval \<Rightarrow> bool option" where
  "as_bool (PyBool b) = Some b"
| "as_bool _ = None"

fun as_list :: "pyval \<Rightarrow> pyval list option" where
  "as_list (PyList vs) = Some vs"
| "as_list _ = None"

fun as_dict :: "pyval \<Rightarrow> pydict option" where
  "as_dict (PyDict d) = Some d"
| "as_dict _ = None"

section \<open>Fields\<close>

text \<open>\<open>T | None\<close>\<close>

definition nullable_of :: "(pyval \<Rightarrow> 'a option) \<Rightarrow> pyval \<Rightarrow> 'a option option" where
  "nullable_of dec v = (if v = PyNone then Some None else map_option Some (dec v))"

definition req_field :: "pydict \<Rightarrow> pystr \<Rightarrow> (pyval \<Rightarrow> 'a option) \<Rightarrow> 'a option" where
  "req_field d k dec = (case dict_get k d of None \<Rightarrow> None | Some v \<Rightarrow> dec v)"

definition opt_field :: "pydict \<Rightarrow> pystr \<Rightarrow> 'a \<Rightarrow> (pyval \<Rightarrow> 'a option) \<Rightarrow> 'a option" where
  "opt_field d k x dec = (case dict_get k d of None \<Rightarrow> Some x | Some v \<Rightarrow> dec v)"

text \<open>\<open>extra="forbid"\<close>\<close>

definition only_keys :: "pystr list \<Rightarrow> pydict \<Rightarrow> bool" where
  "only_keys ks d \<longleftrightarrow> list_all (\<lambda>(k, _). case k of KStr s \<Rightarrow> List.member ks s | KOther _ \<Rightarrow> False) d"

definition check_o :: "bool \<Rightarrow> unit option" where
  "check_o b = (if b then Some () else None)"

definition keep_o :: "('a \<Rightarrow> bool) \<Rightarrow> 'a \<Rightarrow> 'a option" where
  "keep_o p x = (if p x then Some x else None)"

lemma check_o_Some [simp]: "check_o b = Some u \<longleftrightarrow> b"
  by (simp add: check_o_def)

lemma keep_o_Some [simp]: "keep_o p x = Some y \<longleftrightarrow> p x \<and> y = x"
  by (auto simp: keep_o_def)

lemma req_field_Some: "req_field d k dec = Some x \<longleftrightarrow> (\<exists>v. dict_get k d = Some v \<and> dec v = Some x)"
  by (auto simp: req_field_def split: option.splits)

lemma nullable_of_Some_None [simp]: "nullable_of dec PyNone = Some None"
  by (simp add: nullable_of_def)

text \<open>The value of an optional field in a dumped document, \<open>null\<close> for \<open>None\<close>\<close>

definition dump_opt :: "('a \<Rightarrow> pyval) \<Rightarrow> 'a option \<Rightarrow> pyval" where
  "dump_opt f x = (case x of None \<Rightarrow> PyNone | Some y \<Rightarrow> f y)"

lemma nullable_dump_opt:
  "(\<And>y. x = Some y \<Longrightarrow> dec (f y) = Some y \<and> f y \<noteq> PyNone) \<Longrightarrow> nullable_of dec (dump_opt f x) = Some x"
  by (cases x) (auto simp: nullable_of_def dump_opt_def)

section \<open>Trees\<close>

text \<open>Python's \<open>json.dumps(value, allow_nan=False, ensure_ascii=False).encode("utf-8")\<close>
  succeeds on a tree whose keys are text: no other types, finite floats, no lone
  surrogate in any text.\<close>

fun json_dumpable :: "pyval \<Rightarrow> bool" where
  "json_dumpable PyNone = True"
| "json_dumpable (PyBool b) = True"
| "json_dumpable (PyInt i) = True"
| "json_dumpable (PyFloat f) = (case f of FFin _ \<Rightarrow> True | _ \<Rightarrow> False)"
| "json_dumpable (PyStr s) = utf8_ok s"
| "json_dumpable (PyList vs) = list_all json_dumpable vs"
| "json_dumpable (PyDict d) =
     list_all (\<lambda>(k, v). (case k of KStr s \<Rightarrow> utf8_ok s | KOther _ \<Rightarrow> False) \<and> json_dumpable v) d"
| "json_dumpable (PyOther t) = False"

text \<open>Well-formed dictionaries have each key once, all the way down.\<close>

fun keys_distinct :: "pyval \<Rightarrow> bool" where
  "keys_distinct (PyList vs) = list_all keys_distinct vs"
| "keys_distinct (PyDict d) = (distinct (List.map fst d) \<and> list_all (\<lambda>(_, v). keys_distinct v) d)"
| "keys_distinct _ = True"

end
