(* ===== verification/Events.thy ===== *)
theory Events
  imports Py_Value
begin

text \<open>
  The ResearchEvent envelope of \<open>events/models.py\<close>: its text constraints, the
  payload walk, the records of the document classes with their validators, and
  \<open>validate_event_document\<close>, the only way a document becomes an event.

  The lemmas show that the ASCII shortcut of the CloudEvents text check agrees with
  the full rule, that the sequence pattern accepts exactly the canonical decimals of
  1 to 2147483647, and that the explicit stack of the payload walk computes a plain
  recursion over the tree.
\<close>

definition CLOUD_EVENTS_INTEGER_MAX :: int where
  "CLOUD_EVENTS_INTEGER_MAX = 2147483647"

definition RESEARCH_EVENT_SCHEMA_ID :: pystr where
  "RESEARCH_EVENT_SCHEMA_ID = U ''https://researchos.dev/schemas/research-event/v0alpha1.schema.json''"

definition INLINE_BODY_KEYS :: "pystr list" where
  "INLINE_BODY_KEYS =
     [U ''body'', U ''bytes'', U ''content'', U ''fileBytes'', U ''inlineContent'', U ''rawBody'']"

section \<open>Patterns\<close>

definition crange :: "(char \<times> char) list \<Rightarrow> regex" where
  "crange rs = rcls (List.map (\<lambda>(a, b). (of_char a, of_char b)) rs)"

definition cchar :: "char \<Rightarrow> regex" where "cchar c = rchr (of_char c)"

definition clit :: "string \<Rightarrow> regex" where "clit s = rlit (U s)"

abbreviation digit :: regex where "digit \<equiv> rcls [(48, 57)]"

text \<open>\<open>digits a b\<close> is the class \<open>[a-b]\<close> of two decimal digits.\<close>

definition digits :: "nat \<Rightarrow> nat \<Rightarrow> regex" where
  "digits a b = rcls [(48 + a, 48 + b)]"

definition RFC3339_AWARE_PATTERN :: regex where
  "RFC3339_AWARE_PATTERN = rseqs
     [rtimes 4 digit, cchar CHR ''-'',
      ralts [rseqs [clit ''0'', digits 1 9], rseqs [clit ''1'', digits 0 2]], cchar CHR ''-'',
      ralts [rseqs [clit ''0'', digits 1 9], rseqs [digits 1 2, digit], rseqs [clit ''3'', digits 0 1]],
      cchar CHR ''T'',
      ralts [rseqs [digits 0 1, digit], rseqs [clit ''2'', digits 0 3]], cchar CHR '':'',
      digits 0 5, digit, cchar CHR '':'', digits 0 5, digit,
      ropt (rseqs [cchar CHR ''.'', rplus digit]),
      ralts [clit ''Z'',
        rseqs [crange [(CHR ''+'', CHR ''+''), (CHR ''-'', CHR ''-'')],
          ralts [rseqs [digits 0 1, digit], rseqs [clit ''2'', digits 0 3]],
          cchar CHR '':'', digits 0 5, digit]]]"

definition SEQUENCE_INTEGER_PATTERN :: regex where
  "SEQUENCE_INTEGER_PATTERN = ralts
     [rseqs [digits 1 9, rupto 8 digit],
      rseqs [clit ''1'', rtimes 9 digit],
      rseqs [clit ''20'', rtimes 8 digit],
      rseqs [clit ''21'', digits 0 3, rtimes 7 digit],
      rseqs [clit ''214'', digits 0 6, rtimes 6 digit],
      rseqs [clit ''2147'', digits 0 3, rtimes 5 digit],
      rseqs [clit ''21474'', digits 0 7, rtimes 4 digit],
      rseqs [clit ''214748'', digits 0 2, rtimes 3 digit],
      rseqs [clit ''2147483'', digits 0 5, rtimes 2 digit],
      rseqs [clit ''21474836'', digits 0 3, digit],
      rseqs [clit ''214748364'', digits 0 7]]"

text \<open>The URI-reference pattern, assembled from the same parts in the same order.\<close>

definition uri_unreserved :: regex where
  "uri_unreserved = crange [(CHR ''A'', CHR ''Z''), (CHR ''a'', CHR ''z''), (CHR ''0'', CHR ''9''),
     (CHR ''.'', CHR ''.''), (CHR ''_'', CHR ''_''), (CHR ''~'', CHR ''~''), (CHR ''-'', CHR ''-'')]"

definition hexdig :: regex where
  "hexdig = crange [(CHR ''0'', CHR ''9''), (CHR ''A'', CHR ''F''), (CHR ''a'', CHR ''f'')]"

definition uri_pct_encoded :: regex where
  "uri_pct_encoded = rseqs [cchar CHR ''%'', rtimes 2 hexdig]"

definition uri_sub_delims :: regex where
  "uri_sub_delims = rcls (List.map (\<lambda>c. (of_char c, of_char c)) (''!$&'' @ [CHR 0x27] @ ''()*+,;=''))"

definition uri_pchar :: regex where
  "uri_pchar = ralts [uri_unreserved, uri_pct_encoded, uri_sub_delims,
     crange [(CHR '':'', CHR '':''), (CHR ''@'', CHR ''@'')]]"

definition uri_path_abempty :: regex where
  "uri_path_abempty = RStar (rseqs [cchar CHR ''/'', RStar uri_pchar])"

definition uri_path_absolute :: regex where
  "uri_path_absolute = rseqs [cchar CHR ''/'', ropt (rseqs [rplus uri_pchar, uri_path_abempty])]"

definition uri_path_noscheme :: regex where
  "uri_path_noscheme = rseqs [rplus (ralts [uri_unreserved, uri_pct_encoded, uri_sub_delims, cchar CHR ''@'']),
     uri_path_abempty]"

definition uri_path_rootless :: regex where
  "uri_path_rootless = rseqs [rplus uri_pchar, uri_path_abempty]"

definition uri_ipv4 :: regex where
  "uri_ipv4 = (let dec_octet = ralts [digit, rseqs [digits 1 9, digit], rseqs [clit ''1'', rtimes 2 digit],
       rseqs [clit ''2'', digits 0 4, digit], rseqs [clit ''25'', digits 0 5]]
     in rseqs [rtimes 3 (rseqs [dec_octet, cchar CHR ''.'']), dec_octet])"

definition uri_ipv6 :: regex where
  "uri_ipv6 = (let h16 = rbetween 1 4 hexdig;
       ls32 = ralts [rseqs [h16, cchar CHR '':'', h16], uri_ipv4];
       h16c = rseqs [h16, cchar CHR '':''];
       dcol = clit ''::'';
       pre = (\<lambda>k. ropt (rseqs [h16, rupto k (rseqs [cchar CHR '':'', h16])]))
     in ralts
       [rseqs [rtimes 6 h16c, ls32],
        rseqs [dcol, rtimes 5 h16c, ls32],
        rseqs [pre 0, dcol, rtimes 4 h16c, ls32],
        rseqs [pre 1, dcol, rtimes 3 h16c, ls32],
        rseqs [pre 2, dcol, rtimes 2 h16c, ls32],
        rseqs [pre 3, dcol, h16c, ls32],
        rseqs [pre 4, dcol, ls32],
        rseqs [pre 5, dcol, h16],
        rseqs [pre 6, dcol]])"

definition uri_host :: regex where
  "uri_host = (let
       ipv_future = rseqs [cchar CHR ''v'', rplus hexdig, cchar CHR ''.'',
         rplus (ralts [uri_unreserved, uri_sub_delims, cchar CHR '':''])];
       ip_literal = rseqs [cchar CHR ''['', ralts [uri_ipv6, ipv_future], cchar CHR '']''];
       reg_name = RStar (ralts [uri_unreserved, uri_pct_encoded, uri_sub_delims])
     in ralts [ip_literal, uri_ipv4, reg_name])"

definition uri_authority :: regex where
  "uri_authority = (let
       userinfo = RStar (ralts [uri_unreserved, uri_pct_encoded, uri_sub_delims, cchar CHR '':''])
     in rseqs [ropt (rseqs [userinfo, cchar CHR ''@'']), uri_host,
          ropt (rseqs [cchar CHR '':'', RStar digit])])"

definition URI_REFERENCE_PATTERN :: regex where
  "URI_REFERENCE_PATTERN = (let
       query_or_fragment = RStar (ralts [uri_pchar, crange [(CHR ''/'', CHR ''/''), (CHR ''?'', CHR ''?'')]]);
       net_path = rseqs [clit ''//'', uri_authority, uri_path_abempty];
       hier_part = ralts [net_path, uri_path_absolute, uri_path_rootless, REps];
       relative_part = ralts [net_path, uri_path_absolute, uri_path_noscheme, REps];
       scheme = rseqs [crange [(CHR ''A'', CHR ''Z''), (CHR ''a'', CHR ''z'')],
         RStar (crange [(CHR ''A'', CHR ''Z''), (CHR ''a'', CHR ''z''), (CHR ''0'', CHR ''9''),
           (CHR ''+'', CHR ''+''), (CHR ''.'', CHR ''.''), (CHR ''-'', CHR ''-'')])];
       query = ropt (rseqs [cchar CHR ''?'', query_or_fragment]);
       fragment = ropt (rseqs [cchar CHR ''#'', query_or_fragment])
     in ralts [rseqs [scheme, cchar CHR '':'', hier_part, query, fragment],
          rseqs [relative_part, query, fragment]])"

definition EVENT_IDENTIFIER_PATTERN :: regex where
  "EVENT_IDENTIFIER_PATTERN = rseqs
     [crange [(CHR ''A'', CHR ''Z''), (CHR ''a'', CHR ''z''), (CHR ''0'', CHR ''9'')],
      RStar (crange [(CHR ''A'', CHR ''Z''), (CHR ''a'', CHR ''z''), (CHR ''0'', CHR ''9''),
        (CHR ''.'', CHR ''.''), (CHR ''_'', CHR ''_''), (CHR '':'', CHR '':''), (CHR ''-'', CHR ''-'')])]"

definition CLOUD_EVENTS_STRING_PATTERN :: regex where
  "CLOUD_EVENTS_STRING_PATTERN = rplus (rnot [(0x00, 0x1F), (0x7F, 0x9F)])"

section \<open>Text constraints\<close>

unbundle bit_operations_syntax

definition is_cloudevents_forbidden_code_point :: "nat \<Rightarrow> bool" where
  "is_cloudevents_forbidden_code_point code \<longleftrightarrow>
     code \<le> 0x1F \<or> (0x7F \<le> code \<and> code \<le> 0x9F) \<or> (0xD800 \<le> code \<and> code \<le> 0xDFFF)
     \<or> (0xFDD0 \<le> code \<and> code \<le> 0xFDEF) \<or> (code AND 0xFFFE) = 0xFFFE"

definition ascii_control :: "nat \<Rightarrow> bool" where
  "ascii_control c \<longleftrightarrow> c \<le> 0x1F \<or> c = 0x7F"

definition isascii :: "pystr \<Rightarrow> bool" where
  "isascii s \<longleftrightarrow> list_all (\<lambda>c. c < 128) s"

text \<open>The text is scanned for ASCII controls when it is all ASCII, otherwise code
  point by code point.\<close>

definition require_cloudevents_string :: "pystr \<Rightarrow> bool" where
  "require_cloudevents_string s =
     (let forbidden = (if isascii s then list_ex ascii_control s
                       else list_ex is_cloudevents_forbidden_code_point s)
      in \<not> forbidden)"

definition require_rfc3986_uri_reference :: "pystr \<Rightarrow> bool" where
  "require_rfc3986_uri_reference s \<longleftrightarrow>
     require_cloudevents_string s \<and> fullmatch URI_REFERENCE_PATTERN s"

text \<open>\<open>text.split(sep)\<close> for a one-character separator\<close>

fun split_on :: "nat \<Rightarrow> pystr \<Rightarrow> pystr list" where
  "split_on c [] = [[]]"
| "split_on c (x # xs) =
     (if x = c then [] # split_on c xs
      else (case split_on c xs of [] \<Rightarrow> [[x]] | w # ws \<Rightarrow> (x # w) # ws))"

definition is_leap_year :: "nat \<Rightarrow> bool" where
  "is_leap_year y \<longleftrightarrow> y mod 4 = 0 \<and> (y mod 100 \<noteq> 0 \<or> y mod 400 = 0)"

definition days_in_month :: "nat \<Rightarrow> nat \<Rightarrow> nat" where
  "days_in_month y m = (if m = 2 then (if is_leap_year y then 29 else 28)
     else if m = 4 \<or> m = 6 \<or> m = 9 \<or> m = 11 then 30 else 31)"

text \<open>Python's \<open>datetime(year, month, day, hour, minute, second)\<close> is accepted\<close>

definition datetime_ok :: "nat \<Rightarrow> nat \<Rightarrow> nat \<Rightarrow> nat \<Rightarrow> nat \<Rightarrow> nat \<Rightarrow> bool" where
  "datetime_ok y m d h mi s \<longleftrightarrow> 1 \<le> y \<and> y \<le> 9999 \<and> 1 \<le> m \<and> m \<le> 12
     \<and> 1 \<le> d \<and> d \<le> days_in_month y m \<and> h \<le> 23 \<and> mi \<le> 59 \<and> s \<le> 59"

text \<open>The date and clock part of a timestamp, without its zone.\<close>

definition require_stamp :: "pystr \<Rightarrow> bool" where
  "require_stamp stamp =
     (case split_on (of_char CHR ''T'') stamp of
        [date_text, time_text] \<Rightarrow>
          (case (List.map int_of_digits (split_on (of_char CHR ''-'') date_text),
                 List.map int_of_digits
                   (split_on (of_char CHR '':'') (hd (split_on (of_char CHR ''.'') time_text)))) of
             ([year, month, day], [hour, minute, second]) \<Rightarrow>
               \<not> (hour > 23 \<or> minute > 59 \<or> second > 60)
               \<and> datetime_ok year month day hour minute (min second 59)
           | _ \<Rightarrow> False)
      | _ \<Rightarrow> False)"

definition require_rfc3339_timestamp :: "pystr \<Rightarrow> bool" where
  "require_rfc3339_timestamp s =
     (if \<not> fullmatch RFC3339_AWARE_PATTERN s then False
      else if last s = of_char CHR ''Z'' then require_stamp (butlast s)
      else
        let n = length s;
            offset_hour = int_of_digits (take 2 (drop (n - 5) s));
            offset_minute = int_of_digits (drop (n - 2) s)
        in if offset_hour > 23 \<or> offset_minute > 59 then False
           else require_stamp (take (n - 6) s))"

section \<open>Payloads\<close>

text \<open>The walk keeps an explicit stack (its top first here); a dict or list pushes its
  items.  Every refusal is a \<open>ValueError\<close> inside the validator, so the walk is a
  verdict.\<close>

function walk_payload :: "pyval list \<Rightarrow> bool" where
  "walk_payload [] = True"
| "walk_payload (current # stack) =
     (case current of
        PyDict d \<Rightarrow>
          if list_ex (\<lambda>(k, _). list_ex (\<lambda>b. k = KStr b) INLINE_BODY_KEYS) d then False
          else if list_ex (\<lambda>(k, _). case k of KStr _ \<Rightarrow> False | KOther _ \<Rightarrow> True) d then False
          else walk_payload (rev (List.map snd d) @ stack)
      | PyList vs \<Rightarrow> walk_payload (rev vs @ stack)
      | PyOther _ \<Rightarrow> False
      | _ \<Rightarrow> walk_payload stack)"
  by pat_completeness auto

lemma size_list_rev [simp]: "size_list f (rev xs) = size_list f xs"
  by (induction xs) auto

lemma size_items: "size_list (size \<circ> snd) d \<le> size_list (size_prod f size) d"
  by (induction d) auto

termination walk_payload
  by (relation "measure (size_list size)")
     (auto simp: less_Suc_eq_le intro!: add_mono le_SucI[OF size_items])

declare walk_payload.simps [simp del]

definition require_event_payload :: "pyval \<Rightarrow> bool" where
  "require_event_payload v = (case v of
     PyDict _ \<Rightarrow> walk_payload [v] \<and> json_dumpable v
   | _ \<Rightarrow> False)"

section \<open>Documents\<close>

definition CloudEventsString :: "pystr \<Rightarrow> bool" where
  "CloudEventsString s \<longleftrightarrow> 1 \<le> length s \<and> fullmatch CLOUD_EVENTS_STRING_PATTERN s
     \<and> require_cloudevents_string s"

definition CloudEventsUriReference :: "pystr \<Rightarrow> bool" where
  "CloudEventsUriReference s \<longleftrightarrow> 1 \<le> length s \<and> length s \<le> 2048
     \<and> fullmatch URI_REFERENCE_PATTERN s \<and> require_rfc3986_uri_reference s"

definition Rfc3339Timestamp :: "pystr \<Rightarrow> bool" where
  "Rfc3339Timestamp s \<longleftrightarrow> fullmatch RFC3339_AWARE_PATTERN s \<and> require_rfc3339_timestamp s"

definition SequenceIntegerString :: "pystr \<Rightarrow> bool" where
  "SequenceIntegerString s \<longleftrightarrow> 1 \<le> length s \<and> fullmatch SEQUENCE_INTEGER_PATTERN s"

definition EventIdentifier :: "pystr \<Rightarrow> bool" where
  "EventIdentifier s \<longleftrightarrow> 1 \<le> length s \<and> length s \<le> 128 \<and> fullmatch EVENT_IDENTIFIER_PATTERN s
     \<and> require_cloudevents_string s"

definition StreamVersion :: "int \<Rightarrow> bool" where
  "StreamVersion n \<longleftrightarrow> 0 \<le> n \<and> n \<le> CLOUD_EVENTS_INTEGER_MAX"

definition ExperimentRevision :: "int \<Rightarrow> bool" where
  "ExperimentRevision n \<longleftrightarrow> 1 \<le> n \<and> n \<le> CLOUD_EVENTS_INTEGER_MAX"

datatype actor_kind = HUMAN | AI | SYSTEM | POLICY

definition actor_kind_of :: "pystr \<Rightarrow> actor_kind option" where
  "actor_kind_of s = (if s = U ''human'' then Some HUMAN else if s = U ''ai'' then Some AI
     else if s = U ''system'' then Some SYSTEM else if s = U ''policy'' then Some POLICY else None)"

record event_actor =
  actor_id :: pystr
  actor_kind_field :: "actor_kind option"
  actor_model_id :: "pystr option"

definition event_actor_valid :: "event_actor \<Rightarrow> bool" where
  "event_actor_valid a \<longleftrightarrow> EventIdentifier (actor_id a)
     \<and> pred_option EventIdentifier (actor_model_id a)
     \<and> \<not> (actor_model_id a \<noteq> None \<and> actor_kind_field a \<noteq> Some AI)"

record research_event_data =
  ed_schema_version :: pystr
  ed_actor :: event_actor
  ed_project_id :: pystr
  ed_experiment_revision :: int
  ed_run_id :: "pystr option"
  ed_attempt_id :: "pystr option"
  ed_block_id :: "pystr option"
  ed_payload :: pyval
  ed_evidence_refs :: "pystr list"

definition event_data_valid :: "research_event_data \<Rightarrow> bool" where
  "event_data_valid d \<longleftrightarrow> ed_schema_version d = U ''v0alpha1''
     \<and> event_actor_valid (ed_actor d) \<and> EventIdentifier (ed_project_id d)
     \<and> ExperimentRevision (ed_experiment_revision d)
     \<and> pred_option EventIdentifier (ed_run_id d) \<and> pred_option EventIdentifier (ed_attempt_id d)
     \<and> pred_option EventIdentifier (ed_block_id d)
     \<and> require_event_payload (ed_payload d)
     \<and> list_all EventIdentifier (ed_evidence_refs d) \<and> distinct (ed_evidence_refs d)"

record research_event =
  e_specversion :: pystr
  e_id :: pystr
  e_source :: pystr
  e_type :: pystr
  e_time :: pystr
  e_subject :: pystr
  e_dataschema :: pystr
  e_datacontenttype :: pystr
  e_data :: research_event_data
  e_sequence :: pystr
  e_sequencetype :: pystr
  e_streamid :: pystr
  e_streamversion :: int
  e_correlationid :: "pystr option"
  e_causationid :: "pystr option"

definition research_event_valid :: "research_event \<Rightarrow> bool" where
  "research_event_valid e \<longleftrightarrow> e_specversion e = U ''1.0'' \<and> CloudEventsString (e_id e)
     \<and> CloudEventsUriReference (e_source e) \<and> EventIdentifier (e_type e)
     \<and> Rfc3339Timestamp (e_time e) \<and> CloudEventsString (e_subject e)
     \<and> e_dataschema e = RESEARCH_EVENT_SCHEMA_ID \<and> e_datacontenttype e = U ''application/json''
     \<and> event_data_valid (e_data e) \<and> SequenceIntegerString (e_sequence e)
     \<and> e_sequencetype e = U ''Integer'' \<and> EventIdentifier (e_streamid e)
     \<and> StreamVersion (e_streamversion e)
     \<and> pred_option CloudEventsString (e_correlationid e)
     \<and> pred_option CloudEventsString (e_causationid e)"

text \<open>Reading a document: the fields by their aliases, then the checks.\<close>

definition decode_actor :: "pyval \<Rightarrow> event_actor option" where
  "decode_actor v = do {
     d \<leftarrow> as_dict v;
     check_o (only_keys [U ''id'', U ''kind'', U ''modelId''] d);
     i \<leftarrow> req_field d (U ''id'') as_str;
     k \<leftarrow> opt_field d (U ''kind'') None (nullable_of (\<lambda>v. Option.bind (as_str v) actor_kind_of));
     m \<leftarrow> opt_field d (U ''modelId'') None (nullable_of as_str);
     keep_o event_actor_valid \<lparr>actor_id = i, actor_kind_field = k, actor_model_id = m\<rparr>
   }"

definition decode_payload :: "pyval \<Rightarrow> pyval option" where
  "decode_payload v = (case v of
     PyDict d \<Rightarrow> keep_o require_event_payload v
   | _ \<Rightarrow> None)"

definition decode_event_data :: "pyval \<Rightarrow> research_event_data option" where
  "decode_event_data v = do {
     d \<leftarrow> as_dict v;
     check_o (only_keys [U ''schemaVersion'', U ''actor'', U ''projectId'', U ''experimentRevision'',
       U ''runId'', U ''attemptId'', U ''blockId'', U ''payload'', U ''evidenceRefs''] d);
     sv \<leftarrow> req_field d (U ''schemaVersion'') as_str;
     ac \<leftarrow> req_field d (U ''actor'') decode_actor;
     pid \<leftarrow> req_field d (U ''projectId'') as_str;
     rev \<leftarrow> req_field d (U ''experimentRevision'') as_int;
     rid \<leftarrow> opt_field d (U ''runId'') None (nullable_of as_str);
     aid \<leftarrow> opt_field d (U ''attemptId'') None (nullable_of as_str);
     bid \<leftarrow> opt_field d (U ''blockId'') None (nullable_of as_str);
     pl \<leftarrow> req_field d (U ''payload'') decode_payload;
     ers \<leftarrow> req_field d (U ''evidenceRefs'') (\<lambda>v. Option.bind (as_list v) (map_o as_str));
     keep_o event_data_valid \<lparr>ed_schema_version = sv, ed_actor = ac, ed_project_id = pid,
       ed_experiment_revision = rev, ed_run_id = rid, ed_attempt_id = aid, ed_block_id = bid,
       ed_payload = pl, ed_evidence_refs = ers\<rparr>
   }"

definition validate_event_document :: "pyval \<Rightarrow> research_event option" where
  "validate_event_document v = do {
     d \<leftarrow> as_dict v;
     check_o (only_keys [U ''specversion'', U ''id'', U ''source'', U ''type'', U ''time'', U ''subject'',
       U ''dataschema'', U ''datacontenttype'', U ''data'', U ''sequence'', U ''sequencetype'',
       U ''streamid'', U ''streamversion'', U ''correlationid'', U ''causationid''] d);
     sv \<leftarrow> req_field d (U ''specversion'') as_str;
     i \<leftarrow> req_field d (U ''id'') as_str;
     src \<leftarrow> req_field d (U ''source'') as_str;
     ty \<leftarrow> req_field d (U ''type'') as_str;
     tm \<leftarrow> req_field d (U ''time'') as_str;
     sb \<leftarrow> req_field d (U ''subject'') as_str;
     ds \<leftarrow> req_field d (U ''dataschema'') as_str;
     dc \<leftarrow> req_field d (U ''datacontenttype'') as_str;
     da \<leftarrow> req_field d (U ''data'') decode_event_data;
     sq \<leftarrow> req_field d (U ''sequence'') as_str;
     st \<leftarrow> req_field d (U ''sequencetype'') as_str;
     sid \<leftarrow> req_field d (U ''streamid'') as_str;
     svn \<leftarrow> req_field d (U ''streamversion'') as_int;
     co \<leftarrow> opt_field d (U ''correlationid'') None (nullable_of as_str);
     ca \<leftarrow> opt_field d (U ''causationid'') None (nullable_of as_str);
     keep_o research_event_valid \<lparr>e_specversion = sv, e_id = i, e_source = src, e_type = ty,
       e_time = tm, e_subject = sb, e_dataschema = ds, e_datacontenttype = dc, e_data = da,
       e_sequence = sq, e_sequencetype = st, e_streamid = sid, e_streamversion = svn,
       e_correlationid = co, e_causationid = ca\<rparr>
   }"

text \<open>\<open>int(event.sequence)\<close>\<close>

definition sequence_of :: "research_event \<Rightarrow> int" where
  "sequence_of e = int (int_of_digits (e_sequence e))"

section \<open>The shortcut of the text check\<close>

lemma ascii_not_noncharacter: "c < 128 \<Longrightarrow> (c AND 0xFFFE) \<noteq> (0xFFFE::nat)"
proof
  assume "c < 128" "(c AND 0xFFFE) = (0xFFFE::nat)"
  moreover have "int (c AND 0xFFFE) \<le> int c" by (simp add: of_nat_and_eq AND_upper1)
  ultimately show False by simp
qed

lemma ascii_forbidden_iff:
  "c < 128 \<Longrightarrow> is_cloudevents_forbidden_code_point c \<longleftrightarrow> ascii_control c"
  using ascii_not_noncharacter[of c]
  by (auto simp: is_cloudevents_forbidden_code_point_def ascii_control_def)

lemma require_cloudevents_string_iff:
  "require_cloudevents_string s \<longleftrightarrow> (\<forall>c\<in>set s. \<not> is_cloudevents_forbidden_code_point c)"
  using ascii_forbidden_iff
  by (auto simp: require_cloudevents_string_def isascii_def list_ex_iff list_all_iff)

section \<open>Digit texts\<close>

lemma int_of_digits_append:
  "int_of_digits (p @ s) = int_of_digits p * 10 ^ length s + int_of_digits s"
proof (induction s rule: rev_induct)
  case (snoc c s)
  have "int_of_digits (p @ s @ [c]) = int_of_digits ((p @ s) @ [c])" by simp
  also have "\<dots> = int_of_digits (p @ s) * 10 + (c - 48)" by (rule int_of_digits_snoc)
  finally show ?case using snoc by (simp add: algebra_simps)
qed (simp add: int_of_digits_def)

lemma int_of_digits_less:
  "list_all is_digit s \<Longrightarrow> int_of_digits s < 10 ^ length s"
proof (induction s rule: rev_induct)
  case (snoc c s)
  then have "c - 48 \<le> 9" "int_of_digits s < 10 ^ length s" by (auto simp: is_digit_def)
  then show ?case by simp
qed (simp add: int_of_digits_def)

lemma int_of_digits_pos:
  assumes "c \<noteq> 48" "list_all is_digit (c # s)"
  shows "10 ^ length s \<le> int_of_digits (c # s)"
proof -
  have "int_of_digits (c # s) = (c - 48) * 10 ^ length s + int_of_digits s"
    using int_of_digits_append[of "[c]" s] by (simp add: int_of_digits_def)
  moreover have "1 \<le> c - 48" using assms by (auto simp: is_digit_def)
  ultimately show ?thesis by (metis le_add1 mult_1 mult_le_mono1 order_trans)
qed

lemma digits_of_int_of_digits:
  assumes "list_all is_digit s" "s \<noteq> []" "hd s \<noteq> 48"
  shows "digits_of (int_of_digits s) = s"
  using assms
proof (induction s rule: rev_induct)
  case (snoc c t)
  obtain d where c: "c = 48 + d" "d < 10"
    using snoc.prems by (auto simp: is_digit_def dest!: le_Suc_ex)
  show ?case
  proof (cases t)
    case Nil
    with c show ?thesis by (simp add: int_of_digits_def digits_of.simps)
  next
    case (Cons e u)
    with snoc have t: "list_all is_digit t" "hd t \<noteq> 48" "digits_of (int_of_digits t) = t" by auto
    with Cons have "1 \<le> int_of_digits t" using int_of_digits_pos[of e u] by auto
      (metis One_nat_def le_trans one_le_numeral one_le_power)
    then have n: "\<not> int_of_digits (t @ [c]) < 10" by simp
    have "int_of_digits (t @ [c]) div 10 = int_of_digits t"
         "48 + int_of_digits (t @ [c]) mod 10 = c" using c by simp_all
    with n t show ?thesis by (subst digits_of.simps) simp
  qed
qed simp

lemma hd_digits_of: "1 \<le> n \<Longrightarrow> hd (digits_of n) \<noteq> 48"
proof (induction n rule: digits_of.induct)
  case (1 n)
  show ?case
  proof (cases "n < 10")
    case False
    then have "digits_of n = digits_of (n div 10) @ [48 + n mod 10]" by (subst digits_of.simps) simp
    with 1 False show ?thesis by (simp add: Suc_le_eq div_greater_zero_iff)
  qed (use 1 in \<open>simp add: digits_of.simps\<close>)
qed

section \<open>The sequence pattern\<close>

lemma in_digit [simp]: "in_ranges c [(48, 57)] \<longleftrightarrow> is_digit c"
  by (simp add: in_ranges_def is_digit_def)

lemma in_digits [simp]: "in_ranges c [(48 + a, 48 + b)] \<longleftrightarrow> 48 + a \<le> c \<and> c \<le> 48 + b"
  by (simp add: in_ranges_def)

lemma lang_digits [simp]: "lang (digits a b) = {s. \<exists>c. s = [c] \<and> 48 + a \<le> c \<and> c \<le> 48 + b}"
  by (simp add: digits_def)

lemma lang_clit [simp]: "lang (clit s) = {U s}"
  by (simp add: clit_def)

lemma U_numerals: "U (c # s) = of_char c # U s" "U [] = []"
  by (simp_all add: U_def)

text \<open>A pattern alternative: fixed digits, one digit in a range, any further digits.\<close>

lemma int_of_digits_split:
  "int_of_digits (p @ c # t) = (int_of_digits p * 10 + (c - 48)) * 10 ^ length t + int_of_digits t"
  using int_of_digits_append[of "p @ [c]" t] by simp

lemma in_rseqs:
  "w \<in> lang (rseqs (clit p # rs)) \<longleftrightarrow> (\<exists>t. w = U p @ t \<and> t \<in> lang (rseqs rs))"
  "w \<in> lang (rseqs (digits a b # rs)) \<longleftrightarrow>
     (\<exists>c t. w = c # t \<and> 48 + a \<le> c \<and> c \<le> 48 + b \<and> t \<in> lang (rseqs rs))"
  "w \<in> lang (rseqs [r]) \<longleftrightarrow> w \<in> lang r"
  by (simp, simp, metis append_Cons append_Nil, simp)

definition fixed_then :: "string \<Rightarrow> nat \<Rightarrow> pystr \<Rightarrow> bool" where
  "fixed_then p k s \<longleftrightarrow> (\<exists>t. s = U p @ t \<and> length t = k \<and> list_all is_digit t)"

definition fixed_range :: "string \<Rightarrow> nat \<Rightarrow> nat \<Rightarrow> nat \<Rightarrow> pystr \<Rightarrow> bool" where
  "fixed_range p a b k s \<longleftrightarrow> (\<exists>c t. s = U p @ c # t \<and> 48 + a \<le> c \<and> c \<le> 48 + b
     \<and> length t = k \<and> list_all is_digit t)"

lemma lang_rtimes_digit [simp]: "t \<in> lang (rtimes k digit) \<longleftrightarrow> length t = k \<and> list_all is_digit t"
  unfolding lang_rtimes_cls by (simp add: list_all_iff)

lemma lang_digit [simp]: "t \<in> lang digit \<longleftrightarrow> length t = 1 \<and> list_all is_digit t"
  by (auto simp: length_Suc_conv)

lemma in_fixed:
  "s \<in> lang (rseqs [clit p, rtimes k digit]) \<longleftrightarrow> fixed_then p k s"
  "s \<in> lang (rseqs [clit p, digits a b, rtimes k digit]) \<longleftrightarrow> fixed_range p a b k s"
  "s \<in> lang (rseqs [clit p, digits a b, digit]) \<longleftrightarrow> fixed_range p a b 1 s"
  "s \<in> lang (rseqs [clit p, digits a b]) \<longleftrightarrow> fixed_range p a b 0 s"
  unfolding fixed_then_def fixed_range_def in_rseqs lang_rtimes_digit lang_digit lang_digits
  by auto

lemma in_short:
  "s \<in> lang (rseqs [digits 1 9, rupto 8 digit]) \<longleftrightarrow>
     (\<exists>c t. s = c # t \<and> 49 \<le> c \<and> c \<le> 57 \<and> length t \<le> 8 \<and> list_all is_digit t)"
  unfolding in_rseqs lang_rupto_cls by (simp add: list_all_iff)

lemma fullmatch_SEQ:
  "fullmatch SEQUENCE_INTEGER_PATTERN s \<longleftrightarrow>
     (\<exists>c t. s = c # t \<and> 49 \<le> c \<and> c \<le> 57 \<and> length t \<le> 8 \<and> list_all is_digit t)
     \<or> fixed_then ''1'' 9 s \<or> fixed_then ''20'' 8 s \<or> fixed_range ''21'' 0 3 7 s
     \<or> fixed_range ''214'' 0 6 6 s \<or> fixed_range ''2147'' 0 3 5 s \<or> fixed_range ''21474'' 0 7 4 s
     \<or> fixed_range ''214748'' 0 2 3 s \<or> fixed_range ''2147483'' 0 5 2 s
     \<or> fixed_range ''21474836'' 0 3 1 s \<or> fixed_range ''214748364'' 0 7 0 s"
  unfolding fullmatch_iff SEQUENCE_INTEGER_PATTERN_def lang_ralts_Cons lang_ralts_Nil Un_iff
    in_fixed in_short by simp

definition canonical_digits :: "pystr \<Rightarrow> bool" where
  "canonical_digits s \<longleftrightarrow> list_all is_digit s \<and> s \<noteq> [] \<and> hd s \<noteq> 48"

lemma fixed_then_value:
  "fixed_then p k s \<Longrightarrow> canonical_digits (U p) \<Longrightarrow>
     canonical_digits s \<and> int_of_digits s < (int_of_digits (U p) + 1) * 10 ^ k"
  using int_of_digits_append int_of_digits_less
  by (auto simp: fixed_then_def canonical_digits_def)

lemma fixed_range_value:
  assumes "fixed_range p a b k s" "canonical_digits (U p)" "b \<le> 9"
  shows "canonical_digits s \<and> int_of_digits s < (int_of_digits (U p) * 10 + b + 1) * 10 ^ k"
proof -
  obtain c t where s: "s = U p @ c # t" "48 + a \<le> c" "c \<le> 48 + b" "length t = k" "list_all is_digit t"
    using assms by (auto simp: fixed_range_def)
  have "int_of_digits s = (int_of_digits (U p) * 10 + (c - 48)) * 10 ^ k + int_of_digits t"
    using s int_of_digits_split by simp
  also have "\<dots> < (int_of_digits (U p) * 10 + (c - 48)) * 10 ^ k + 10 ^ k"
    using int_of_digits_less[of t] s by simp
  also have "\<dots> = (int_of_digits (U p) * 10 + (c - 48) + 1) * 10 ^ k" by simp
  also have "\<dots> \<le> (int_of_digits (U p) * 10 + b + 1) * 10 ^ k" using s by (intro mult_le_mono1) simp
  finally show ?thesis using s assms by (auto simp: canonical_digits_def is_digit_def)
qed

lemmas literal_digits = U_numerals int_of_digits_def canonical_digits_def is_digit_def

lemma SEQ_value:
  "fullmatch SEQUENCE_INTEGER_PATTERN s \<Longrightarrow> canonical_digits s \<and> int_of_digits s \<le> 2147483647"
  unfolding fullmatch_SEQ
proof (elim disjE exE conjE)
  fix c t assume *: "s = c # t" "49 \<le> c" "c \<le> 57" "length t \<le> 8" "list_all is_digit t"
  have "int_of_digits s < 10 ^ Suc (length t)"
    using int_of_digits_less[of s] * by (auto simp: is_digit_def)
  also have "\<dots> \<le> 10 ^ 9" using * by (intro power_increasing) auto
  finally show ?thesis using * by (auto simp: canonical_digits_def is_digit_def)
qed (drule fixed_then_value fixed_range_value; simp add: literal_digits)+

lemma is_digit_plus: "is_digit c \<Longrightarrow> \<exists>y\<le>9. c = 48 + y"
  unfolding is_digit_def by presburger

lemma value_SEQ:
  assumes "canonical_digits s" "int_of_digits s \<le> 2147483647"
  shows "fullmatch SEQUENCE_INTEGER_PATTERN s"
proof -
  obtain c t where s: "s = c # t" "49 \<le> c" "c \<le> 57" "list_all is_digit t"
    using assms by (cases s) (auto simp: canonical_digits_def is_digit_def)
  have "10 ^ length t \<le> int_of_digits s"
    using int_of_digits_pos[of c t] s by (auto simp: is_digit_def)
  then have "(10::nat) ^ length t < 10 ^ 10" using assms by simp
  then have len: "length t \<le> 9" by (simp add: power_strict_increasing_iff less_Suc_eq_le[symmetric] del: power_numeral)
  show ?thesis
  proof (cases "length t \<le> 8")
    case True
    with s show ?thesis unfolding fullmatch_SEQ by blast
  next
    case False
    with len have "length t = 9" by simp
    then obtain d1 d2 d3 d4 d5 d6 d7 d8 d9 where t: "t = [d1,d2,d3,d4,d5,d6,d7,d8,d9]"
      by (auto simp: length_Suc_conv eval_nat_numeral)
    have "is_digit c" using s by (simp add: is_digit_def)
    then have "\<forall>x\<in>set (c # t). \<exists>y\<le>9. x = 48 + y"
      using s is_digit_plus by (auto simp: list_all_iff)
    then obtain y0 y1 y2 y3 y4 y5 y6 y7 y8 y9 where d: "c = 48 + y0" "d1 = 48 + y1" "d2 = 48 + y2"
      "d3 = 48 + y3" "d4 = 48 + y4" "d5 = 48 + y5" "d6 = 48 + y6" "d7 = 48 + y7" "d8 = 48 + y8" "d9 = 48 + y9"
      and le: "y0 \<le> 9" "y1 \<le> 9" "y2 \<le> 9" "y3 \<le> 9" "y4 \<le> 9" "y5 \<le> 9" "y6 \<le> 9" "y7 \<le> 9" "y8 \<le> 9" "y9 \<le> 9"
      by (auto simp: t)
    have val: "y0 * 1000000000 + y1 * 100000000 + y2 * 10000000 + y3 * 1000000
        + y4 * 100000 + y5 * 10000 + y6 * 1000 + y7 * 100 + y8 * 10 + y9 \<le> 2147483647"
      using assms(2) by (simp add: s(1) t int_of_digits_def d)
    have y0: "y0 = 1 \<or> y0 = 2" using s(2) d(1) val by linarith
    have y: "y0 = 2 \<Longrightarrow> y1 \<le> 1" "y0 = 2 \<Longrightarrow> y1 = 1 \<Longrightarrow> y2 \<le> 4"
      "y0 = 2 \<Longrightarrow> y1 = 1 \<Longrightarrow> y2 = 4 \<Longrightarrow> y3 \<le> 7"
      "y0 = 2 \<Longrightarrow> y1 = 1 \<Longrightarrow> y2 = 4 \<Longrightarrow> y3 = 7 \<Longrightarrow> y4 \<le> 4"
      "y0 = 2 \<Longrightarrow> y1 = 1 \<Longrightarrow> y2 = 4 \<Longrightarrow> y3 = 7 \<Longrightarrow> y4 = 4 \<Longrightarrow> y5 \<le> 8"
      "y0 = 2 \<Longrightarrow> y1 = 1 \<Longrightarrow> y2 = 4 \<Longrightarrow> y3 = 7 \<Longrightarrow> y4 = 4 \<Longrightarrow> y5 = 8 \<Longrightarrow> y6 \<le> 3"
      "y0 = 2 \<Longrightarrow> y1 = 1 \<Longrightarrow> y2 = 4 \<Longrightarrow> y3 = 7 \<Longrightarrow> y4 = 4 \<Longrightarrow> y5 = 8 \<Longrightarrow> y6 = 3 \<Longrightarrow> y7 \<le> 6"
      "y0 = 2 \<Longrightarrow> y1 = 1 \<Longrightarrow> y2 = 4 \<Longrightarrow> y3 = 7 \<Longrightarrow> y4 = 4 \<Longrightarrow> y5 = 8 \<Longrightarrow> y6 = 3 \<Longrightarrow> y7 = 6 \<Longrightarrow> y8 \<le> 4"
      "y0 = 2 \<Longrightarrow> y1 = 1 \<Longrightarrow> y2 = 4 \<Longrightarrow> y3 = 7 \<Longrightarrow> y4 = 4 \<Longrightarrow> y5 = 8 \<Longrightarrow> y6 = 3 \<Longrightarrow> y7 = 6 \<Longrightarrow> y8 = 4 \<Longrightarrow> y9 \<le> 7"
      using val by simp_all
    consider "y0 = 1" | "y0 = 2" "y1 = 0" | "y0 = 2" "y1 = 1" "y2 \<le> 3"
      | "y0 = 2" "y1 = 1" "y2 = 4" "y3 \<le> 6" | "y0 = 2" "y1 = 1" "y2 = 4" "y3 = 7" "y4 \<le> 3"
      | "y0 = 2" "y1 = 1" "y2 = 4" "y3 = 7" "y4 = 4" "y5 \<le> 7"
      | "y0 = 2" "y1 = 1" "y2 = 4" "y3 = 7" "y4 = 4" "y5 = 8" "y6 \<le> 2"
      | "y0 = 2" "y1 = 1" "y2 = 4" "y3 = 7" "y4 = 4" "y5 = 8" "y6 = 3" "y7 \<le> 5"
      | "y0 = 2" "y1 = 1" "y2 = 4" "y3 = 7" "y4 = 4" "y5 = 8" "y6 = 3" "y7 = 6" "y8 \<le> 3"
      | "y0 = 2" "y1 = 1" "y2 = 4" "y3 = 7" "y4 = 4" "y5 = 8" "y6 = 3" "y7 = 6" "y8 = 4" "y9 \<le> 7"
      using y0 y by (metis le_SucE le_zero_eq numeral_nat(7) eval_nat_numeral(2) eval_nat_numeral(3) BitM.simps)
    then show ?thesis
      unfolding fullmatch_SEQ s(1) t fixed_then_def fixed_range_def d
      by cases (use le in \<open>simp_all add: U_numerals is_digit_def\<close>)
  qed
qed

lemma SequenceIntegerString_iff:
  "SequenceIntegerString s \<longleftrightarrow> (\<exists>n. 1 \<le> n \<and> n \<le> 2147483647 \<and> s = digits_of n)"
proof
  assume "SequenceIntegerString s"
  then have s: "canonical_digits s" "int_of_digits s \<le> 2147483647"
    using SEQ_value by (auto simp: SequenceIntegerString_def)
  then have "digits_of (int_of_digits s) = s"
    by (simp add: canonical_digits_def digits_of_int_of_digits)
  moreover have "1 \<le> int_of_digits s"
    using int_of_digits_pos[of "hd s" "tl s"] s(1)
    by (cases s) (auto simp: canonical_digits_def intro: order_trans[rotated])
  ultimately show "\<exists>n. 1 \<le> n \<and> n \<le> 2147483647 \<and> s = digits_of n" using s(2) by metis
next
  assume "\<exists>n. 1 \<le> n \<and> n \<le> 2147483647 \<and> s = digits_of n"
  then obtain n where n: "1 \<le> n" "n \<le> 2147483647" "s = digits_of n" by blast
  then have "canonical_digits s" by (simp add: canonical_digits_def digits_of_digit hd_digits_of)
  then have "fullmatch SEQUENCE_INTEGER_PATTERN s" using n by (intro value_SEQ) simp_all
  moreover have "1 \<le> length s" using n by (simp add: Suc_le_eq)
  ultimately show "SequenceIntegerString s" by (simp add: SequenceIntegerString_def)
qed

lemma sequence_of_bounds:
  assumes "SequenceIntegerString (e_sequence e)"
  shows "1 \<le> sequence_of e" "sequence_of e \<le> CLOUD_EVENTS_INTEGER_MAX"
  using assms by (auto simp: SequenceIntegerString_iff sequence_of_def CLOUD_EVENTS_INTEGER_MAX_def)

lemma sequence_of_str [simp]:
  "sequence_of (e\<lparr>e_sequence := digits_of n\<rparr>) = int n"
  by (simp add: sequence_of_def)

section \<open>The payload walk as a recursion\<close>

fun payload_tree_ok :: "pyval \<Rightarrow> bool" where
  "payload_tree_ok (PyDict d) =
     list_all (\<lambda>(k, v). (case k of KStr s \<Rightarrow> s \<notin> set INLINE_BODY_KEYS | KOther _ \<Rightarrow> False)
       \<and> payload_tree_ok v) d"
| "payload_tree_ok (PyList vs) = list_all payload_tree_ok vs"
| "payload_tree_ok (PyOther _) = False"
| "payload_tree_ok _ = True"

lemma payload_dict_split:
  "payload_tree_ok (PyDict d) \<longleftrightarrow>
     \<not> list_ex (\<lambda>(k, _). list_ex (\<lambda>b. k = KStr b) INLINE_BODY_KEYS) d
     \<and> \<not> list_ex (\<lambda>(k, _). case k of KStr _ \<Rightarrow> False | KOther _ \<Rightarrow> True) d
     \<and> list_all payload_tree_ok (List.map snd d)"
  by (induction d) (auto simp: list_ex_iff split: pykey.splits)

lemma list_all_rev: "list_all p (rev xs) \<longleftrightarrow> list_all p xs"
  by (simp add: list_all_iff)

lemma walk_payload_iff: "walk_payload stack \<longleftrightarrow> list_all payload_tree_ok stack"
proof (induction stack rule: walk_payload.induct)
  case (2 current stack)
  show ?case
  proof (cases current)
    case (PyDict d)
    with 2 show ?thesis
      by (auto simp: walk_payload.simps(2) payload_dict_split list_all_rev simp del: payload_tree_ok.simps(1))
  qed (use 2 in \<open>auto simp: walk_payload.simps(2) list_all_rev\<close>)
qed (simp add: walk_payload.simps)

section \<open>Decoded documents\<close>

lemmas decode_simps = Option.bind_eq_Some_conv req_field_Some

lemma validate_event_document_valid:
  "validate_event_document v = Some e \<Longrightarrow> research_event_valid e"
  by (auto simp: validate_event_document_def decode_simps)

lemma research_event_validD:
  assumes "research_event_valid e"
  shows "SequenceIntegerString (e_sequence e)" "CloudEventsString (e_id e)" "EventIdentifier (e_type e)"
    "event_data_valid (e_data e)" "StreamVersion (e_streamversion e)" "EventIdentifier (e_streamid e)"
  using assms by (auto simp: research_event_valid_def)

lemma event_data_validD:
  assumes "event_data_valid d"
  shows "EventIdentifier (ed_project_id d)" "ExperimentRevision (ed_experiment_revision d)"
    "pred_option EventIdentifier (ed_run_id d)" "pred_option EventIdentifier (ed_attempt_id d)"
    "pred_option EventIdentifier (ed_block_id d)"
  using assms by (auto simp: event_data_valid_def)

section \<open>What the envelope checks decide\<close>

text \<open>The sequence pattern accepts exactly the canonical decimal texts of the integers 1 to
  2147483647, so \<open>int(event.sequence)\<close> of a validated event is in that range and two
  sequences are equal as texts when they are equal as numbers.\<close>

lemma sequence_pattern_exact:
  "SequenceIntegerString s \<longleftrightarrow> (\<exists>n. 1 \<le> n \<and> n \<le> 2147483647 \<and> s = digits_of n)"
  by (rule SequenceIntegerString_iff)

text \<open>The ASCII shortcut of \<open>_require_cloudevents_string\<close> changes no verdict: a text is accepted
  exactly when none of its code points is a control, surrogate or noncharacter.\<close>

lemma cloudevents_shortcut_sound:
  "require_cloudevents_string s = list_all (\<lambda>c. \<not> is_cloudevents_forbidden_code_point c) s"
  using require_cloudevents_string_iff[of s] by (simp add: list_all_iff)

text \<open>C39: The payload walk with its explicit stack terminates on every document and accepts exactly the
  trees in which every key is text, no key embeds a body and every leaf is a JSON value.\<close>

theorem payload_walk_decides:
  "walk_payload [PyDict d] \<longleftrightarrow> payload_tree_ok (PyDict d)"
  using walk_payload_iff[of "[PyDict d]"] by simp

end
