(* ===== verification/Canonical.thy ===== *)
theory Canonical
  imports Events "HOL-Library.List_Lexorder"
begin

text \<open>
  Canonical JSON of \<open>canonical.py\<close>.  \<open>legacy_canonical_json\<close> is
  \<open>json.dumps(sort_keys=True, ensure_ascii=False, separators=(",", ":"))\<close>, the form the
  event store writes and digests; \<open>canonical_json\<close> is RFC 8785.  \<open>json_loads\<close> is Python's
  \<open>json.loads\<close>, which the store uses to read a row back.  The main lemma is that
  reading what \<open>legacy_canonical_json\<close> wrote gives the document with its keys sorted.

  A float is its \<open>repr\<close> text; \<open>float()\<close> of a number text is the parameter \<open>pf\<close>, about
  which the lemmas use only \<open>float(repr(x)) = x\<close>.  SHA-256 is the parameter \<open>sha\<close>, from
  the encoded text to its hex digest.  Text is encoded without being changed, so the UTF-8
  step is only a check.
\<close>

section \<open>Ordering of keys\<close>

instantiation pykey :: linorder
begin

fun less_eq_pykey :: "pykey \<Rightarrow> pykey \<Rightarrow> bool" where
  "less_eq_pykey (KStr s) (KStr t) = (s \<le> t)"
| "less_eq_pykey (KStr s) (KOther t) = True"
| "less_eq_pykey (KOther s) (KStr t) = False"
| "less_eq_pykey (KOther s) (KOther t) = (s \<le> t)"

definition less_pykey :: "pykey \<Rightarrow> pykey \<Rightarrow> bool" where
  "less_pykey a b = (a \<le> b \<and> \<not> b \<le> (a :: pykey))"

instance
proof
  fix a b c :: pykey
  show "a < b \<longleftrightarrow> a \<le> b \<and> \<not> b \<le> a" by (rule less_pykey_def)
  show "a \<le> a" by (cases a) auto
  show "a \<le> b \<Longrightarrow> b \<le> c \<Longrightarrow> a \<le> c" by (cases a; cases b; cases c) auto
  show "a \<le> b \<Longrightarrow> b \<le> a \<Longrightarrow> a = b" by (cases a; cases b) auto
  show "a \<le> b \<or> b \<le> a" by (cases a; cases b) auto
qed

end

section \<open>Writing\<close>

definition hex_digit :: "nat \<Rightarrow> nat" where
  "hex_digit n = (if n < 10 then 48 + n else 87 + n)"

definition STRING_ESCAPES :: "(nat \<times> pystr) list" where
  "STRING_ESCAPES = [(8, [92, 98]), (9, [92, 116]), (10, [92, 110]), (12, [92, 102]), (13, [92, 114]),
     (34, [92, 34]), (92, [92, 92])]"

definition quote_char :: "nat \<Rightarrow> pystr" where
  "quote_char c = (case map_of STRING_ESCAPES c of
     Some e \<Rightarrow> e
   | None \<Rightarrow> if c < 0x20 then [92, 117, 48, 48, hex_digit (c div 16), hex_digit (c mod 16)] else [c])"

definition quote_text :: "pystr \<Rightarrow> pystr" where
  "quote_text s = 34 # concat (List.map quote_char s) @ [34]"

definition int_text :: "int \<Rightarrow> pystr" where
  "int_text i = (if i < 0 then 45 # digits_of (nat (- i)) else digits_of (nat i))"

text \<open>\<open>",".join(parts)\<close>\<close>

fun join_commas :: "pystr list \<Rightarrow> pystr" where
  "join_commas [] = []"
| "join_commas [x] = x"
| "join_commas (x # xs) = x @ 44 # join_commas xs"

lemma map_o_cong [fundef_cong]:
  assumes "xs = ys" "\<And>x. x \<in> set ys \<Longrightarrow> f x = g x"
  shows "map_o f xs = map_o g ys"
proof -
  have "map_o f ys = map_o g ys" using assms(2)
    by (induction ys) (auto split: option.split)
  with assms(1) show ?thesis by simp
qed

definition join_members :: "(pykey \<times> pystr) list \<Rightarrow> pystr" where
  "join_members ms = join_commas (List.map (\<lambda>(k, t). (case k of KStr s \<Rightarrow> quote_text s | KOther s \<Rightarrow> s) @ 58 # t)
     (sort_key fst ms))"

text \<open>\<open>json.dumps\<close>: \<open>None\<close> where it raises.  Every caller has checked that keys are text.\<close>

function render :: "pyval \<Rightarrow> pystr option" where
  "render PyNone = Some (U ''null'')"
| "render (PyBool b) = Some (if b then U ''true'' else U ''false'')"
| "render (PyInt i) = Some (int_text i)"
| "render (PyFloat f) = (case f of FFin t \<Rightarrow> Some t | _ \<Rightarrow> None)"
| "render (PyStr s) = Some (quote_text s)"
| "render (PyList vs) =
     (case map_o render vs of None \<Rightarrow> None | Some ts \<Rightarrow> Some (91 # join_commas ts @ [93]))"
| "render (PyDict d) =
     (case map_o (\<lambda>kv. case fst kv of KOther _ \<Rightarrow> None
         | KStr s \<Rightarrow> (case render (snd kv) of None \<Rightarrow> None | Some t \<Rightarrow> Some (KStr s, t))) d of
        None \<Rightarrow> None
      | Some ms \<Rightarrow> Some (123 # join_members ms @ [125]))"
| "render (PyOther t) = None"
  by pat_completeness auto

lemma size_snd_less: "kv \<in> set d \<Longrightarrow> size (snd kv) < Suc (size_list (size_prod f size) d)"
  by (induction d) auto

termination render
  by (relation "measure size") (auto simp: less_Suc_eq_le size_list_estimation' dest: size_snd_less)

definition legacy_canonical_json :: "pyval \<Rightarrow> pystr option" where
  "legacy_canonical_json v = Option.bind (render v) (keep_o utf8_ok)"

definition LEGACY_SHA256_PREFIX :: pystr where "LEGACY_SHA256_PREFIX = U ''sha256:''"
definition JCS_SHA256_PREFIX :: pystr where "JCS_SHA256_PREFIX = U ''jcs-sha256:''"

definition legacy_content_digest :: "(pystr \<Rightarrow> pystr) \<Rightarrow> pyval \<Rightarrow> pystr option" where
  "legacy_content_digest sha v =
     map_option (\<lambda>t. LEGACY_SHA256_PREFIX @ sha t) (legacy_canonical_json v)"


text \<open>The form of a content digest, with either prefix.\<close>

definition SEMANTIC_DIGEST_PATTERN :: regex where
  "SEMANTIC_DIGEST_PATTERN = rseqs [ralts [clit ''jcs-sha256'', clit ''sha256''], cchar CHR '':'',
     rtimes 64 (crange [(CHR ''0'', CHR ''9''), (CHR ''a'', CHR ''f'')])]"

section \<open>Reading\<close>

text \<open>Python's \<open>json.loads\<close>.  \<open>pf\<close> is \<open>float()\<close> on a number text; it always succeeds there
  (an overflow gives an infinity).\<close>

definition is_ws :: "nat \<Rightarrow> bool" where
  "is_ws c \<longleftrightarrow> c = 32 \<or> c = 9 \<or> c = 10 \<or> c = 13"

definition skip_ws :: "pystr \<Rightarrow> pystr" where
  "skip_ws s = dropWhile is_ws s"

definition hex_value :: "nat \<Rightarrow> nat option" where
  "hex_value c = (if 48 \<le> c \<and> c \<le> 57 then Some (c - 48)
     else if 97 \<le> c \<and> c \<le> 102 then Some (c - 87)
     else if 65 \<le> c \<and> c \<le> 70 then Some (c - 55) else None)"

fun hex4 :: "pystr \<Rightarrow> (nat \<times> pystr) option" where
  "hex4 (a # b # c # d # r) =
     (case (hex_value a, hex_value b, hex_value c, hex_value d) of
        (Some a, Some b, Some c, Some d) \<Rightarrow> Some (4096 * a + 256 * b + 16 * c + d, r)
      | _ \<Rightarrow> None)"
| "hex4 _ = None"

definition is_high_surrogate :: "nat \<Rightarrow> bool" where
  "is_high_surrogate c \<longleftrightarrow> 0xD800 \<le> c \<and> c \<le> 0xDBFF"

definition is_low_surrogate :: "nat \<Rightarrow> bool" where
  "is_low_surrogate c \<longleftrightarrow> 0xDC00 \<le> c \<and> c \<le> 0xDFFF"

definition simple_escape :: "nat \<Rightarrow> nat option" where
  "simple_escape c = map_of [(34, 34), (92, 92), (47, 47), (98, 8), (102, 12), (110, 10), (114, 13), (116, 9)] c"

text \<open>One character of a string, after the test for the closing quote: the character and
  what is left.  A high surrogate takes a following \<open>\u\<close> escape of a low one with it.\<close>

definition unicode_escape :: "pystr \<Rightarrow> (nat \<times> pystr) option" where
  "unicode_escape s = (case hex4 s of
     None \<Rightarrow> None
   | Some (u, r) \<Rightarrow>
       if is_high_surrogate u \<and> take 2 r = [92, 117]
       then (case hex4 (drop 2 r) of
               None \<Rightarrow> None
             | Some (u2, r2) \<Rightarrow>
                 if is_low_surrogate u2 then Some (0x10000 + (u - 0xD800) * 1024 + (u2 - 0xDC00), r2)
                 else Some (u, r))
       else Some (u, r))"

fun scan_char :: "pystr \<Rightarrow> (nat \<times> pystr) option" where
  "scan_char [] = None"
| "scan_char (c # r) =
     (if c = 92 then (case r of [] \<Rightarrow> None
        | e # r' \<Rightarrow> if e = 117 then unicode_escape r'
            else (case simple_escape e of None \<Rightarrow> None | Some x \<Rightarrow> Some (x, r')))
      else if c < 0x20 then None else Some (c, r))"

lemma hex4_shorter: "hex4 s = Some (u, r) \<Longrightarrow> length s = length r + 4"
  by (cases s rule: hex4.cases) (auto split: option.splits)

lemma unicode_escape_shorter: "unicode_escape s = Some (u, r) \<Longrightarrow> length r < length s"
  by (auto simp: unicode_escape_def dest!: hex4_shorter split: option.splits if_splits)

lemma scan_char_shorter: "scan_char s = Some (c, r) \<Longrightarrow> length r < length s"
  by (cases s) (auto dest: unicode_escape_shorter split: if_splits list.splits option.splits)

function scan_string :: "pystr \<Rightarrow> (pystr \<times> pystr) option" where
  "scan_string s = (case s of [] \<Rightarrow> None
     | c # r \<Rightarrow> if c = 34 then Some ([], r)
         else (case scan_char s of None \<Rightarrow> None
           | Some (x, r') \<Rightarrow> (case scan_string r' of None \<Rightarrow> None | Some (t, r'') \<Rightarrow> Some (x # t, r''))))"
  by pat_completeness auto

termination scan_string
  by (relation "measure length") (auto simp del: scan_char.simps dest: scan_char_shorter)

declare scan_string.simps [simp del]

text \<open>\<open>(-?(?:0|[1-9][0-9]*))(\.[0-9]+)?([eE][-+]?[0-9]+)?\<close>: the three groups and the rest.\<close>

definition scan_int :: "pystr \<Rightarrow> (pystr \<times> pystr) option" where
  "scan_int s = (case s of [] \<Rightarrow> None
     | c # r \<Rightarrow> if c = 48 then Some ([48], r)
         else if is_digit c then Some (takeWhile is_digit s, dropWhile is_digit s) else None)"

definition scan_signed :: "pystr \<Rightarrow> (pystr \<times> pystr) option" where
  "scan_signed s = (if take 1 s = [45] then map_option (\<lambda>(d, r). (45 # d, r)) (scan_int (tl s)) else scan_int s)"

definition scan_frac :: "pystr \<Rightarrow> pystr \<times> pystr" where
  "scan_frac s = (if take 1 s = [46] \<and> takeWhile is_digit (tl s) \<noteq> []
     then (46 # takeWhile is_digit (tl s), dropWhile is_digit (tl s)) else ([], s))"

definition exp_sign :: "pystr \<Rightarrow> pystr" where
  "exp_sign r = (if take 1 r = [43] \<or> take 1 r = [45] then take 1 r else [])"

definition scan_exp :: "pystr \<Rightarrow> pystr \<times> pystr" where
  "scan_exp s = (case s of [] \<Rightarrow> ([], s)
     | c # r \<Rightarrow> if c = 101 \<or> c = 69 then
         (let d = drop (length (exp_sign r)) r
          in if takeWhile is_digit d \<noteq> [] then (c # exp_sign r @ takeWhile is_digit d, dropWhile is_digit d) else ([], s))
       else ([], s))"

definition scan_number :: "pystr \<Rightarrow> ((pystr \<times> pystr) \<times> pystr) option" where
  "scan_number s = (case scan_signed s of None \<Rightarrow> None
     | Some (i, r) \<Rightarrow> (case scan_frac r of (f, r') \<Rightarrow> (case scan_exp r' of (e, r'') \<Rightarrow> Some ((i, f @ e), r''))))"

definition text_int :: "pystr \<Rightarrow> int" where
  "text_int s = (if take 1 s = [45] then - int (int_of_digits (tl s)) else int (int_of_digits s))"

definition number_value :: "(pystr \<Rightarrow> pyfloat) \<Rightarrow> pystr \<times> pystr \<Rightarrow> pyval" where
  "number_value pf p = (if snd p = [] then PyInt (text_int (fst p)) else PyFloat (pf (fst p @ snd p)))"

text \<open>A dict built from pairs: a repeated key keeps its first place and its last value.\<close>

definition dict_of_pairs :: "(pystr \<times> pyval) list \<Rightarrow> pydict" where
  "dict_of_pairs ps = dict_update [] ps"

text \<open>Fuel bounds the recursion: each call uses at most two units per character read.\<close>

fun parse_value :: "(pystr \<Rightarrow> pyfloat) \<Rightarrow> nat \<Rightarrow> pystr \<Rightarrow> (pyval \<times> pystr) option"
and parse_elems :: "(pystr \<Rightarrow> pyfloat) \<Rightarrow> nat \<Rightarrow> pystr \<Rightarrow> (pyval list \<times> pystr) option"
and parse_members :: "(pystr \<Rightarrow> pyfloat) \<Rightarrow> nat \<Rightarrow> pystr \<Rightarrow> ((pystr \<times> pyval) list \<times> pystr) option" where
  "parse_value pf 0 s = None"
| "parse_value pf (Suc n) s =
     (if take 1 s = [34] then map_option (\<lambda>(t, r). (PyStr t, r)) (scan_string (tl s))
      else if take 1 s = [123] then
        (if take 1 (skip_ws (tl s)) = [125] then Some (PyDict [], tl (skip_ws (tl s)))
         else map_option (\<lambda>(ms, r). (PyDict (dict_of_pairs ms), r)) (parse_members pf n (skip_ws (tl s))))
      else if take 1 s = [91] then
        (if take 1 (skip_ws (tl s)) = [93] then Some (PyList [], tl (skip_ws (tl s)))
         else map_option (\<lambda>(vs, r). (PyList vs, r)) (parse_elems pf n (skip_ws (tl s))))
      else if startswith (U ''null'') s then Some (PyNone, drop 4 s)
      else if startswith (U ''true'') s then Some (PyBool True, drop 4 s)
      else if startswith (U ''false'') s then Some (PyBool False, drop 5 s)
      else (case scan_number s of
              Some (p, r) \<Rightarrow> Some (number_value pf p, r)
            | None \<Rightarrow>
                if startswith (U ''NaN'') s then Some (PyFloat FNaN, drop 3 s)
                else if startswith (U ''Infinity'') s then Some (PyFloat (FInf False), drop 8 s)
                else if startswith (U ''-Infinity'') s then Some (PyFloat (FInf True), drop 9 s)
                else None))"
| "parse_elems pf 0 s = None"
| "parse_elems pf (Suc n) s =
     (case parse_value pf n s of None \<Rightarrow> None
      | Some (v, r) \<Rightarrow>
          if take 1 (skip_ws r) = [93] then Some ([v], tl (skip_ws r))
          else if take 1 (skip_ws r) = [44] then
            map_option (\<lambda>(vs, r'). (v # vs, r')) (parse_elems pf n (skip_ws (tl (skip_ws r))))
          else None)"
| "parse_members pf 0 s = None"
| "parse_members pf (Suc n) s =
     (if take 1 s \<noteq> [34] then None
      else (case scan_string (tl s) of None \<Rightarrow> None
        | Some (k, r) \<Rightarrow>
            if take 1 (skip_ws r) \<noteq> [58] then None
            else (case parse_value pf n (skip_ws (tl (skip_ws r))) of None \<Rightarrow> None
              | Some (v, r) \<Rightarrow>
                  if take 1 (skip_ws r) = [125] then Some ([(k, v)], tl (skip_ws r))
                  else if take 1 (skip_ws r) = [44] then
                    map_option (\<lambda>(ms, r'). ((k, v) # ms, r')) (parse_members pf n (skip_ws (tl (skip_ws r))))
                  else None)))"

definition json_loads :: "(pystr \<Rightarrow> pyfloat) \<Rightarrow> pystr \<Rightarrow> pyval option" where
  "json_loads pf s =
     (case parse_value pf (2 * length s + 2) (skip_ws s) of
        None \<Rightarrow> None
      | Some (v, r) \<Rightarrow> if skip_ws r = [] then Some v else None)"


section \<open>Reading back what was written\<close>

lemma hex_value_digit: "n < 16 \<Longrightarrow> hex_value (hex_digit n) = Some n"
  by (auto simp: hex_value_def hex_digit_def)

lemma quote_char_cases:
  obtains (short) e where "quote_char c = [92, e]" "e \<noteq> 117" "simple_escape e = Some c"
  | (control) "c < 0x20" "quote_char c = [92, 117, 48, 48, hex_digit (c div 16), hex_digit (c mod 16)]"
  | (plain) "quote_char c = [c]" "c \<noteq> 92" "c \<noteq> 34" "\<not> c < 0x20"
proof -
  have e: "\<exists>e. quote_char c = [92, e] \<and> e \<noteq> 117 \<and> simple_escape e = Some c" if "c \<in> {8, 9, 10, 12, 13, 34, 92}"
    using that by (auto simp: quote_char_def STRING_ESCAPES_def simple_escape_def)
  show ?thesis
  proof (cases "c \<in> {8, 9, 10, 12, 13, 34, 92}")
    case True
    with e short show ?thesis by blast
  next
    case False
    then have "quote_char c = (if c < 0x20 then [92, 117, 48, 48, hex_digit (c div 16), hex_digit (c mod 16)] else [c])"
      by (simp add: quote_char_def STRING_ESCAPES_def)
    with False control plain show ?thesis by (cases "c < 0x20") auto
  qed
qed

lemma scan_char_quote: "scan_char (quote_char c @ r) = Some (c, r)"
proof (cases c rule: quote_char_cases)
  case control
  have "hex4 (48 # 48 # hex_digit (c div 16) # hex_digit (c mod 16) # r) = Some (c, r)"
    using control(1) by (simp add: hex_value_digit) (simp add: hex_value_def)
  with control show ?thesis
    by (simp add: unicode_escape_def is_high_surrogate_def del: hex4.simps)
qed auto

lemma scan_quoted: "scan_string (concat (List.map quote_char s) @ 34 # r) = Some (s, r)"
proof (induction s)
  case (Cons c s)
  obtain a b where ab: "quote_char c = a # b" "a \<noteq> 34" by (cases c rule: quote_char_cases) auto
  have "scan_char (quote_char c @ concat (List.map quote_char s) @ 34 # r)
      = Some (c, concat (List.map quote_char s) @ 34 # r)" by (rule scan_char_quote)
  with ab Cons show ?case by (subst scan_string.simps) (simp del: scan_char.simps)
qed (simp add: scan_string.simps)

text \<open>What may follow a value: the end, a comma or a closing bracket.\<close>

definition delimited :: "pystr \<Rightarrow> bool" where
  "delimited r \<longleftrightarrow> (case r of [] \<Rightarrow> True | c # _ \<Rightarrow> c = 44 \<or> c = 93 \<or> c = 125)"

lemma delimited_cases: "delimited r \<Longrightarrow> r = [] \<or> (\<exists>c r'. r = c # r' \<and> (c = 44 \<or> c = 93 \<or> c = 125))"
  by (auto simp: delimited_def split: list.splits)

lemma takeWhile_digit_delimited [simp]:
  assumes "delimited r"
  shows "takeWhile is_digit (s @ r) = takeWhile is_digit s"
    and "dropWhile is_digit (s @ r) = dropWhile is_digit s @ r"
  using delimited_cases[OF assms] by (induction s) (auto simp: is_digit_def)

lemma take_1: "take 1 s = [c] \<longleftrightarrow> s \<noteq> [] \<and> hd s = c"
  by (cases s) auto

lemma scan_int_append:
  assumes "scan_int s = Some (i, q)" "delimited r"
  shows "scan_int (s @ r) = Some (i, q @ r)"
proof (cases s)
  case (Cons c cs)
  then show ?thesis using assms takeWhile_digit_delimited[OF assms(2), of s]
    by (auto simp: scan_int_def split: if_splits)
qed (use assms in \<open>simp add: scan_int_def\<close>)

lemma scan_signed_append:
  assumes "scan_signed s = Some (i, q)" "delimited r"
  shows "scan_signed (s @ r) = Some (i, q @ r)"
proof (cases "take 1 s = [45]")
  case True
  then obtain cs where s: "s = 45 # cs" by (cases s) auto
  with assms obtain i' where i: "scan_int cs = Some (i', q)" "i = 45 # i'" by (auto simp: scan_signed_def)
  have "scan_int (cs @ r) = Some (i', q @ r)" by (rule scan_int_append) (use i assms in auto)
  with s i show ?thesis by (simp add: scan_signed_def)
next
  case False
  then have i: "scan_int s = Some (i, q)" using assms(1) by (simp add: scan_signed_def)
  then have "s \<noteq> []" by (auto simp: scan_int_def)
  with False have "take 1 (s @ r) \<noteq> [45]" by (cases s) auto
  then show ?thesis using scan_int_append[OF i assms(2)] by (simp add: scan_signed_def)
qed

lemma scan_frac_append:
  assumes "scan_frac s = (f, q)" "delimited r"
  shows "scan_frac (s @ r) = (f, q @ r)"
  using assms delimited_cases[OF assms(2)]
  by (cases s) (auto simp: scan_frac_def split: if_splits)

lemma exp_sign_append:
  assumes "delimited r"
  shows "exp_sign (s @ r) = exp_sign s"
  using delimited_cases[OF assms] by (cases s; auto simp: exp_sign_def)

lemma exp_sign_le: "length (exp_sign s) - length s = 0"
  by (cases s) (auto simp: exp_sign_def)

lemma scan_exp_append:
  assumes "scan_exp s = (f, q)" "delimited r"
  shows "scan_exp (s @ r) = (f, q @ r)"
proof (cases s)
  case Nil
  then show ?thesis using assms delimited_cases[OF assms(2)] by (auto simp: scan_exp_def)
next
  case (Cons c cs)
  with assms show ?thesis
    by (auto simp: scan_exp_def exp_sign_append exp_sign_le Let_def split: if_splits)
qed

lemma scan_number_append:
  assumes "scan_number s = Some (p, q)" "delimited r"
  shows "scan_number (s @ r) = Some (p, q @ r)"
proof -
  obtain i s1 where 1: "scan_signed s = Some (i, s1)" using assms(1) by (auto simp: scan_number_def split: option.splits)
  obtain f s2 where 2: "scan_frac s1 = (f, s2)" by fastforce
  obtain e s3 where 3: "scan_exp s2 = (e, s3)" by fastforce
  from 1 2 3 assms show ?thesis
    by (simp add: scan_number_def scan_signed_append scan_frac_append scan_exp_append)
qed


text \<open>A float's text is one the number scanner takes whole, with a fraction or an exponent,
  and \<open>float()\<close> of it is the float: what Python documents of \<open>repr\<close>.\<close>

definition float_text :: "(pystr \<Rightarrow> pyfloat) \<Rightarrow> pystr \<Rightarrow> bool" where
  "float_text pf t \<longleftrightarrow> (case scan_number t of
     Some (p, []) \<Rightarrow> snd p \<noteq> [] \<and> fst p @ snd p = t \<and> pf t = FFin t
   | _ \<Rightarrow> False)"

fun floats_ok :: "(pystr \<Rightarrow> pyfloat) \<Rightarrow> pyval \<Rightarrow> bool" where
  "floats_ok pf (PyFloat f) = (case f of FFin t \<Rightarrow> float_text pf t | _ \<Rightarrow> True)"
| "floats_ok pf (PyList vs) = list_all (floats_ok pf) vs"
| "floats_ok pf (PyDict d) = list_all (\<lambda>(_, v). floats_ok pf v) d"
| "floats_ok pf _ = True"

text \<open>A document with its keys sorted all the way down.\<close>

fun norm :: "pyval \<Rightarrow> pyval" where
  "norm (PyList vs) = PyList (List.map norm vs)"
| "norm (PyDict d) = PyDict (sort_key fst (List.map (\<lambda>(k, v). (k, norm v)) d))"
| "norm v = v"

fun normal :: "pyval \<Rightarrow> bool" where
  "normal (PyList vs) = list_all normal vs"
| "normal (PyDict d) = (sorted (List.map fst d) \<and> distinct (List.map fst d) \<and> list_all (\<lambda>(_, v). normal v) d)"
| "normal v = True"

lemma scan_digits:
  assumes "delimited r"
  shows "scan_int (digits_of n @ r) = Some (digits_of n, r)"
proof -
  have tw: "takeWhile is_digit (digits_of n) = digits_of n" "dropWhile is_digit (digits_of n) = []"
    using digits_of_digit[of n] by (auto simp: list_all_iff)
  have z: "digits_of n = 48 # ds \<Longrightarrow> ds = []" for ds
  proof (induction n arbitrary: ds rule: digits_of.induct)
    case (1 n)
    show ?case
    proof (cases "n < 10")
      case True
      with 1(2) show ?thesis by (simp add: digits_of.simps)
    next
      case False
      then have e: "digits_of n = digits_of (n div 10) @ [48 + n mod 10]" by (subst digits_of.simps) simp
      then obtain ds' where d: "digits_of (n div 10) = 48 # ds'" using 1(2) by (cases "digits_of (n div 10)") auto
      from 1(1)[OF False d] d have "n div 10 = int_of_digits [48]"
        by (metis int_of_digits_digits_of)
      with False show ?thesis by (simp add: int_of_digits_def)
    qed
  qed
  obtain c ds where c: "digits_of n = c # ds" by (cases "digits_of n") auto
  with digits_of_digit[of n] have "is_digit c" by simp
  with c z tw takeWhile_digit_delimited[OF assms, of "digits_of n"] show ?thesis
    by (auto simp: scan_int_def)
qed

lemma digits_head: "take 1 (digits_of n @ r) \<noteq> [c]" if "\<not> is_digit c"
  using digits_of_digit[of n] that by (cases "digits_of n") auto

lemma scan_int_text:
  assumes "delimited r"
  shows "scan_number (int_text i @ r) = Some ((int_text i, []), r)" "text_int (int_text i) = i"
proof -
  have "scan_frac r = ([], r)" "scan_exp r = ([], r)"
    using delimited_cases[OF assms] by (auto simp: scan_frac_def scan_exp_def)
  moreover have "scan_signed (int_text i @ r) = Some (int_text i, r)"
    using scan_digits[OF assms] digits_head[of 45]
    by (auto simp: scan_signed_def int_text_def is_digit_def)
  ultimately show "scan_number (int_text i @ r) = Some ((int_text i, []), r)" by (simp add: scan_number_def)
  show "text_int (int_text i) = i"
    using digits_head[of 45 "nat i" "[]"] by (auto simp: text_int_def int_text_def is_digit_def)
qed

lemma insort_key_map: "insort_key g (f x) (List.map f xs) = List.map f (insort_key (\<lambda>x. g (f x)) x xs)"
  by (induction xs) auto

lemma sort_key_map: "sort_key g (List.map f xs) = List.map f (sort_key (\<lambda>x. g (f x)) xs)"
  by (induction xs) (simp_all add: insort_key_map)

lemma float_textD:
  assumes "float_text pf t"
  obtains p where "scan_number t = Some (p, [])" "snd p \<noteq> []" "fst p @ snd p = t" "pf t = FFin t"
proof (cases "scan_number t")
  case (Some pr)
  then obtain p r where "scan_number t = Some (p, r)" by (cases pr) auto
  with assms that show ?thesis by (cases r) (auto simp: float_text_def)
qed (use assms in \<open>simp add: float_text_def\<close>)

text \<open>A value is written on one line with no spaces, and the first character tells what it is.\<close>

lemma render_head:
  assumes "render v = Some t" "floats_ok pf v"
  shows "t \<noteq> [] \<and> \<not> is_ws (hd t) \<and> hd t \<noteq> 93 \<and> hd t \<noteq> 125"
proof (cases v)
  case (PyInt i)
  have "digits_of n \<noteq> [] \<and> is_digit (hd (digits_of n))" for n
    using digits_of_digit[of n] by (cases "digits_of n") auto
  from this[of "nat i"] PyInt assms show ?thesis
    by (cases "i < 0") (auto simp: int_text_def is_digit_def is_ws_def)
next
  case (PyFloat f)
  with assms obtain p where f: "f = FFin t" "scan_number t = Some (p, [])"
    by (auto elim: float_textD split: pyfloat.splits)
  then obtain i q where "scan_signed t = Some (i, q)" by (auto simp: scan_number_def split: option.splits)
  then have "t \<noteq> [] \<and> (hd t = 45 \<or> is_digit (hd t))"
    by (cases t) (auto simp: scan_signed_def scan_int_def is_digit_def split: if_splits)
  then show ?thesis by (auto simp: is_digit_def is_ws_def)
qed (use assms in \<open>auto simp: U_def is_ws_def quote_text_def split: option.splits if_splits\<close>)

lemma scan_number_dispatch:
  assumes "scan_number s = Some (p, r)"
  shows "parse_value pf (Suc n) s = Some (number_value pf p, r)"
proof -
  obtain i q where "scan_signed s = Some (i, q)" using assms by (auto simp: scan_number_def split: option.splits)
  then have "s \<noteq> [] \<and> (hd s = 45 \<or> is_digit (hd s))"
    by (cases s) (auto simp: scan_signed_def scan_int_def is_digit_def split: if_splits)
  then have "take 1 s \<noteq> [34]" "take 1 s \<noteq> [123]" "take 1 s \<noteq> [91]"
    "\<not> startswith (U ''null'') s" "\<not> startswith (U ''true'') s" "\<not> startswith (U ''false'') s"
    by (cases s; auto simp: is_digit_def startswith_def U_def)+
  with assms show ?thesis by simp
qed

lemma skip_ws_head: "s \<noteq> [] \<Longrightarrow> \<not> is_ws (hd s) \<Longrightarrow> skip_ws s = s"
  by (cases s) (auto simp: skip_ws_def)

lemma skip_ws_Cons: "\<not> is_ws c \<Longrightarrow> skip_ws (c # s) = c # s"
  by (simp add: skip_ws_def)

lemma skip_ws_text: "t \<noteq> [] \<Longrightarrow> \<not> is_ws (hd t) \<Longrightarrow> skip_ws (t @ r) = t @ r"
  by (cases t) (auto simp: skip_ws_def)

text \<open>A text that is read back as a value, wherever it stands and whatever may follow it.\<close>

definition reads :: "(pystr \<Rightarrow> pyfloat) \<Rightarrow> pystr \<Rightarrow> pyval \<Rightarrow> bool" where
  "reads pf t v \<longleftrightarrow> (t \<noteq> [] \<and> \<not> is_ws (hd t) \<and> hd t \<noteq> 93 \<and> hd t \<noteq> 125)
     \<and> (\<forall>n r. delimited r \<longrightarrow> 2 * length t + 1 \<le> n \<longrightarrow> parse_value pf n (t @ r) = Some (v, r))"

lemma reads_head: "reads pf t v \<Longrightarrow> t \<noteq> [] \<and> \<not> is_ws (hd t) \<and> hd t \<noteq> 93 \<and> hd t \<noteq> 125"
  by (simp add: reads_def)

lemma reads_parse:
  "reads pf t v \<Longrightarrow> delimited r \<Longrightarrow> 2 * length t + 1 \<le> n \<Longrightarrow> parse_value pf n (t @ r) = Some (v, r)"
  by (simp add: reads_def)

lemma readsI:
  assumes "t \<noteq> []" "\<not> is_ws (hd t)" "hd t \<noteq> 93" "hd t \<noteq> 125"
    and "\<And>n r. delimited r \<Longrightarrow> 2 * length t \<le> n \<Longrightarrow> parse_value pf (Suc n) (t @ r) = Some (v, r)"
  shows "reads pf t v"
proof -
  have "parse_value pf n (t @ r) = Some (v, r)" if "delimited r" "2 * length t + 1 \<le> n" for n r
    using assms(5)[of r "n - 1"] that by (cases n) auto
  with assms(1-4) show ?thesis by (simp add: reads_def)
qed

lemma scan_number_head:
  assumes "scan_number s = Some (p, r)"
  shows "s \<noteq> [] \<and> (hd s = 45 \<or> is_digit (hd s))"
proof -
  obtain i q where "scan_signed s = Some (i, q)" using assms by (auto simp: scan_number_def split: option.splits)
  then show ?thesis by (cases s) (auto simp: scan_signed_def scan_int_def is_digit_def split: if_splits)
qed

lemma reads_constant [simp]:
  "reads pf (U ''null'') PyNone" "reads pf (U ''true'') (PyBool True)" "reads pf (U ''false'') (PyBool False)"
  by (rule readsI; simp add: U_def startswith_def is_ws_def)+

lemma reads_quoted [simp]: "reads pf (quote_text s) (PyStr s)"
  by (rule readsI) (auto simp: quote_text_def scan_quoted is_ws_def)

lemma reads_number:
  assumes "scan_number t = Some (p, [])"
  shows "reads pf t (number_value pf p)"
proof (rule readsI)
  show "parse_value pf (Suc n) (t @ r) = Some (number_value pf p, r)" if "delimited r" for n r
    by (rule scan_number_dispatch) (use scan_number_append[OF assms that] in simp)
qed (use scan_number_head[OF assms] in \<open>auto simp: is_digit_def is_ws_def\<close>)

lemma reads_int [simp]: "reads pf (int_text i) (PyInt i)"
  using reads_number[of "int_text i" "(int_text i, [])" pf] scan_int_text[of "[]" i]
  by (simp add: number_value_def delimited_def)

lemma parse_elems_reads:
  assumes "ts \<noteq> []" "list_all2 (reads pf) ts vs" "2 * length (join_commas ts) + 2 \<le> n"
  shows "parse_elems pf n (join_commas ts @ 93 # r) = Some (vs, r)"
  using assms
proof (induction ts arbitrary: vs n)
  case (Cons t ts)
  then obtain v vs' where vs: "vs = v # vs'" "reads pf t v" "list_all2 (reads pf) ts vs'"
    by (auto simp: list_all2_Cons1)
  obtain m where n: "n = Suc m" using Cons.prems by (cases n) auto
  show ?case
  proof (cases ts)
    case Nil
    have "parse_value pf m (t @ 93 # r) = Some (v, 93 # r)"
      by (rule reads_parse[OF vs(2)]) (use Nil Cons.prems n in \<open>auto simp: delimited_def\<close>)
    with n vs Nil show ?thesis by (simp add: skip_ws_Cons is_ws_def)
  next
    case (Cons t' ts')
    then have j: "join_commas (t # ts) @ 93 # r = t @ 44 # join_commas ts @ 93 # r" by simp
    obtain v' where "reads pf t' v'" using Cons vs(3) by (auto simp: list_all2_Cons1)
    then have sw: "skip_ws (join_commas ts @ 93 # r) = join_commas ts @ 93 # r"
      using reads_head[of pf t' v'] Cons by (cases ts') (auto simp: skip_ws_text)
    have "parse_value pf m (t @ 44 # join_commas ts @ 93 # r) = Some (v, 44 # join_commas ts @ 93 # r)"
      by (rule reads_parse[OF vs(2)]) (use Cons Cons.prems n in \<open>auto simp: delimited_def\<close>)
    moreover have "parse_elems pf m (join_commas ts @ 93 # r) = Some (vs', r)"
      by (rule Cons.IH) (use Cons Cons.prems n vs in auto)
    ultimately show ?thesis using n j vs(1) sw by (simp add: skip_ws_Cons is_ws_def)
  qed
qed simp

lemma reads_list:
  assumes "list_all2 (reads pf) ts vs"
  shows "reads pf (91 # join_commas ts @ [93]) (PyList vs)"
proof (rule readsI)
  show "parse_value pf (Suc n) ((91 # join_commas ts @ [93]) @ r) = Some (PyList vs, r)"
    if "delimited r" "2 * length (91 # join_commas ts @ [93]) \<le> n" for n r
  proof (cases ts)
    case Nil
    with assms show ?thesis by (simp add: skip_ws_Cons is_ws_def)
  next
    case (Cons t ts')
    with assms obtain v where v: "reads pf t v" by (auto simp: list_all2_Cons1)
    obtain x xs where x: "join_commas ts @ 93 # r = x # xs" "\<not> is_ws x" "x \<noteq> 93"
      using reads_head[OF v] Cons by (cases t; cases ts') auto
    have "parse_elems pf n (join_commas ts @ 93 # r) = Some (vs, r)"
      by (rule parse_elems_reads[OF _ assms]) (use Cons that in auto)
    with x show ?thesis by (simp add: skip_ws_Cons)
  qed
qed (simp_all add: is_ws_def)

text \<open>One member as it is written, and reading a list of members.\<close>

definition member_text :: "pykey \<times> pystr \<Rightarrow> pystr" where
  "member_text kt = (case fst kt of KStr s \<Rightarrow> quote_text s | KOther s \<Rightarrow> s) @ 58 # snd kt"

lemma join_members_alt: "join_members ms = join_commas (List.map member_text (sort_key fst ms))"
proof -
  have "member_text = (\<lambda>(k, t). (case k of KStr s \<Rightarrow> quote_text s | KOther s \<Rightarrow> s) @ 58 # t)"
    by (auto simp: member_text_def fun_eq_iff)
  then show ?thesis by (simp only: join_members_def)
qed

definition key_text :: "pykey \<Rightarrow> pystr" where
  "key_text k = (case k of KStr s \<Rightarrow> s | KOther s \<Rightarrow> s)"

lemma parse_members_reads:
  assumes "ms \<noteq> []" "list_all2 (\<lambda>kt kv. fst kt = KStr (fst kv) \<and> reads pf (snd kt) (snd kv)) ms ps"
    and "2 * length (join_commas (List.map member_text ms)) + 2 \<le> n"
  shows "parse_members pf n (join_commas (List.map member_text ms) @ 125 # r) = Some (ps, r)"
  using assms
proof (induction ms arbitrary: ps n)
  case (Cons kt ms)
  obtain s t v ps' where kt: "kt = (KStr s, t)" "ps = (s, v) # ps'" "reads pf t v"
     "list_all2 (\<lambda>kt kv. fst kt = KStr (fst kv) \<and> reads pf (snd kt) (snd kv)) ms ps'"
    using Cons.prems(2) by (cases kt) (auto simp: list_all2_Cons1)
  obtain m where n: "n = Suc m" using Cons.prems by (cases n) auto
  have mt: "member_text (KStr s, t) = 34 # concat (List.map quote_char s) @ 34 # 58 # t"
    by (simp add: member_text_def quote_text_def)
  have sw: "skip_ws (t @ x) = t @ x" for x using reads_head[OF kt(3)] by (auto simp: skip_ws_text)
  have scan: "scan_string (concat (List.map quote_char s) @ 34 # x) = Some (s, x)" for x by (rule scan_quoted)
  show ?case
  proof (cases ms)
    case Nil
    have "parse_value pf m (t @ 125 # r) = Some (v, 125 # r)"
      by (rule reads_parse[OF kt(3)]) (use Cons.prems(3) n kt mt Nil in \<open>auto simp: delimited_def\<close>)
    with n Nil kt mt scan sw show ?thesis by (simp add: skip_ws_Cons is_ws_def)
  next
    case (Cons kt' ms')
    obtain y where y: "join_commas (List.map member_text ms) = 34 # y"
      using kt(4) Cons by (cases ms'; cases kt') (auto simp: member_text_def quote_text_def list_all2_Cons1)
    have j: "join_commas (List.map member_text (kt # ms)) =
        member_text (KStr s, t) @ 44 # join_commas (List.map member_text ms)"
      using kt Cons by simp
    have "parse_value pf m (t @ 44 # 34 # y @ 125 # r) = Some (v, 44 # 34 # y @ 125 # r)"
      by (rule reads_parse[OF kt(3)]) (use Cons.prems(3) n kt mt j in \<open>auto simp: delimited_def\<close>)
    moreover have "parse_members pf m (join_commas (List.map member_text ms) @ 125 # r) = Some (ps', r)"
      by (rule Cons.IH) (use Cons Cons.prems(3) n kt j in auto)
    ultimately show ?thesis using n j kt mt scan sw y by (simp add: skip_ws_Cons is_ws_def)
  qed
qed simp

lemma reads_object:
  assumes "list_all2 (\<lambda>kt kv. fst kt = KStr (fst kv) \<and> reads pf (snd kt) (snd kv)) ms ps"
  shows "reads pf (123 # join_commas (List.map member_text ms) @ [125]) (PyDict (dict_of_pairs ps))"
proof (rule readsI)
  let ?t = "123 # join_commas (List.map member_text ms) @ [125]"
  show "parse_value pf (Suc n) (?t @ r) = Some (PyDict (dict_of_pairs ps), r)"
    if "delimited r" "2 * length ?t \<le> n" for n r
  proof (cases ms)
    case Nil
    with assms show ?thesis by (simp add: skip_ws_Cons is_ws_def dict_of_pairs_def dict_update_def)
  next
    case (Cons kt ms')
    with assms obtain xs where x: "join_commas (List.map member_text ms) @ 125 # r = 34 # xs"
      by (cases ms'; cases kt) (auto simp: member_text_def quote_text_def list_all2_Cons1)
    have "parse_members pf n (join_commas (List.map member_text ms) @ 125 # r) = Some (ps, r)"
      by (rule parse_members_reads[OF _ assms]) (use Cons that in auto)
    with x show ?thesis by (simp add: skip_ws_Cons is_ws_def)
  qed
qed (simp_all add: is_ws_def)

text \<open>The whole text of a document.\<close>

lemma json_loads_reads: "reads pf t v \<Longrightarrow> json_loads pf t = Some v"
  using reads_head[of pf t v] reads_parse[of pf t v "[]" "2 * length t + 2"]
  by (simp add: json_loads_def skip_ws_head delimited_def) (simp add: skip_ws_def)

lemma dict_update_distinct:
  assumes "distinct (List.map fst d @ List.map (\<lambda>(k, v). KStr k) ps)"
  shows "dict_update d ps = d @ List.map (\<lambda>(k, v). (KStr k, v)) ps"
  using assms
proof (induction ps arbitrary: d)
  case (Cons p ps)
  obtain k v where p: "p = (k, v)" by (cases p)
  have "dict_set k v d = d @ [(KStr k, v)]" if "KStr k \<notin> fst ` set d" for d
    using that by (induction d) auto
  with Cons p have "dict_set k v d = d @ [(KStr k, v)]" by simp
  with Cons p show ?case by (auto simp: dict_update_def)
qed (simp add: dict_update_def)


definition member_render :: "pykey \<times> pyval \<Rightarrow> (pykey \<times> pystr) option" where
  "member_render kv = (case fst kv of KOther _ \<Rightarrow> None
     | KStr s \<Rightarrow> (case render (snd kv) of None \<Rightarrow> None | Some t \<Rightarrow> Some (KStr s, t)))"

lemma render_PyDict:
  "render (PyDict d) = (case map_o member_render d of
     None \<Rightarrow> None | Some ms \<Rightarrow> Some (123 # join_members ms @ [125]))"
proof -
  have "member_render = (\<lambda>kv. case fst kv of KOther _ \<Rightarrow> None
     | KStr s \<Rightarrow> (case render (snd kv) of None \<Rightarrow> None | Some t \<Rightarrow> Some (KStr s, t)))"
    by (simp add: member_render_def fun_eq_iff)
  then show ?thesis by simp
qed

lemma member_render_Some:
  "member_render kv = Some kt \<longleftrightarrow>
   fst kt = fst kv \<and> (\<exists>s. fst kv = KStr s) \<and> render (snd kv) = Some (snd kt)"
  by (cases kt) (auto simp: member_render_def split: pykey.splits option.splits)

lemma render_PyDict_Some:
  "render (PyDict d) = Some t \<longleftrightarrow>
   (\<exists>ms. list_all2 (\<lambda>kv kt. fst kt = fst kv \<and> (\<exists>s. fst kv = KStr s) \<and> render (snd kv) = Some (snd kt)) d ms
      \<and> t = 123 # join_members ms @ [125])"
  by (auto simp: render_PyDict map_o_Some_iff[symmetric] member_render_Some[symmetric, abs_def]
      simp del: render.simps split: option.splits)

lemma member_keys:
  "list_all2 (\<lambda>kv kt. fst kt = fst kv \<and> P kv kt) d ms \<Longrightarrow> List.map fst ms = List.map fst d"
  by (induction d ms rule: list_all2_induct) auto

declare render.simps(7) [simp del]

lemma dict_of_key_texts:
  assumes "distinct (List.map fst d)" "\<forall>kv\<in>set d. \<exists>s. fst kv = KStr s"
  shows "dict_of_pairs (List.map (\<lambda>(k, v). (key_text k, v)) d) = d"
proof -
  have a: "List.map (\<lambda>(k, v). (KStr k, v)) (List.map (\<lambda>(k, v). (key_text k, v)) d) = d"
    using assms(2) by (auto simp: key_text_def intro!: map_idI)
  have b: "List.map (\<lambda>(k, v). KStr k) (List.map (\<lambda>(k, v). (key_text k, v)) d) = List.map fst d"
    using assms(2) by (auto simp: key_text_def)
  show ?thesis unfolding dict_of_pairs_def
    using assms(1) a b by (subst dict_update_distinct) (simp_all only: list.map append.simps)
qed

lemma reads_render:
  assumes "render v = Some t" "normal v" "floats_ok pf v"
  shows "reads pf t v"
  using assms
proof (induction v arbitrary: t)
  case (PyFloat f)
  then have f: "f = FFin t" "float_text pf t" by (auto split: pyfloat.splits)
  from f(2) show ?case
  proof (rule float_textD)
    fix p assume "scan_number t = Some (p, [])" "snd p \<noteq> []" "fst p @ snd p = t" "pf t = FFin t"
    then show ?thesis using reads_number[of t p pf] f by (simp add: number_value_def)
  qed
next
  case (PyList vs)
  from PyList.prems obtain ts where ts: "list_all2 (\<lambda>v t. render v = Some t) vs ts" "t = 91 # join_commas ts @ [93]"
    by (auto simp: map_o_Some_iff[symmetric] split: option.splits)
  have "list_all2 (\<lambda>v t. reads pf t v) vs ts"
    using ts(1) PyList.IH PyList.prems(2,3) by (auto simp: list_all2_conv_all_nth list_all_iff)
  then have "list_all2 (reads pf) ts vs" by (simp add: list_all2_conv_all_nth)
  from reads_list[OF this] ts(2) show ?case by simp
next
  case (PyDict d)
  from PyDict.prems obtain ms where
    ms: "list_all2 (\<lambda>kv kt. fst kt = fst kv \<and> (\<exists>s. fst kv = KStr s) \<and> render (snd kv) = Some (snd kt)) d ms"
    and t: "t = 123 # join_members ms @ [125]"
    by (auto simp: render_PyDict_Some)
  have "sort_key fst ms = ms"
    using member_keys[OF ms] PyDict.prems(2) by (simp add: sort_key_id_if_sorted)
  then have t: "t = 123 # join_commas (List.map member_text ms) @ [125]" by (simp add: t join_members_alt)
  have ks: "\<forall>kv\<in>set d. \<exists>s. fst kv = KStr s" using ms
    by (induction d ms rule: list_all2_induct) auto
  have member: "fst kt = KStr (fst kv) \<and> reads pf (snd kt) (snd kv)"
    if "(k, v) \<in> set d" "fst kt = k" "\<exists>s. k = KStr s" "render v = Some (snd kt)" "kv = (key_text k, v)" for k v kt kv
    using PyDict.IH[of "(k, v)" v "snd kt"] that PyDict.prems by (auto simp: list_all_iff key_text_def)
  have "list_all2 (\<lambda>kt kv. fst kt = KStr (fst kv) \<and> reads pf (snd kt) (snd kv)) ms
      (List.map (\<lambda>(k, v). (key_text k, v)) d)"
  proof (rule list_all2_all_nthI)
    show "length ms = length (List.map (\<lambda>(k, v). (key_text k, v)) d)" using list_all2_lengthD[OF ms] by simp
    fix i assume "i < length ms"
    with ms have i: "i < length d" "fst (ms ! i) = fst (d ! i)" "\<exists>s. fst (d ! i) = KStr s"
      "render (snd (d ! i)) = Some (snd (ms ! i))" by (auto simp: list_all2_conv_all_nth)
    have e: "List.map (\<lambda>(k, v). (key_text k, v)) d ! i = (key_text (fst (d ! i)), snd (d ! i))"
      using i(1) by (simp add: case_prod_beta)
    have m: "(fst (d ! i), snd (d ! i)) \<in> set d" using nth_mem[OF i(1)] by simp
    show "fst (ms ! i) = KStr (fst (List.map (\<lambda>(k, v). (key_text k, v)) d ! i)) \<and>
        reads pf (snd (ms ! i)) (snd (List.map (\<lambda>(k, v). (key_text k, v)) d ! i))"
      by (rule member[OF m i(2,3,4) e])
  qed
  from reads_object[OF this] show ?case
    using dict_of_key_texts[OF _ ks] PyDict.prems(2) t by simp
qed (auto split: if_splits)


lemma fst_norm_members: "List.map fst (List.map (\<lambda>(k, v). (k, norm v)) d) = List.map fst d"
  by (auto simp: case_prod_beta)

lemma normal_norm: "keys_distinct v \<Longrightarrow> normal (norm v)"
proof (induction v)
  case (PyDict d)
  have "distinct (List.map fst (sort_key fst (List.map (\<lambda>(k, v). (k, norm v)) d)))"
    using PyDict.prems by (simp add: distinct_map case_prod_beta comp_def inj_on_def) (metis prod.collapse)
  moreover have "normal (norm (snd kv))" if "kv \<in> set d" for kv
    using that PyDict.IH[of kv "snd kv"] PyDict.prems by (cases kv) (auto simp: list_all_iff)
  ultimately show ?case by (auto simp: list_all_iff case_prod_beta)
qed (auto simp: list_all_iff)

lemma normal_norm_id: "normal v \<Longrightarrow> norm v = v"
proof (induction v)
  case (PyDict d)
  have "List.map (\<lambda>(k, v). (k, norm v)) d = d"
    using PyDict by (auto simp: list_all_iff intro!: map_idI)
  with PyDict show ?case by (simp add: sort_key_id_if_sorted)
qed (auto simp: list_all_iff intro!: map_idI)

lemma norm_norm: "keys_distinct v \<Longrightarrow> norm (norm v) = norm v"
  by (rule normal_norm_id) (rule normal_norm)

lemma floats_ok_norm: "floats_ok pf v \<Longrightarrow> floats_ok pf (norm v)"
  by (induction v) (auto simp: list_all_iff)

lemma map_o_list_map: "map_o f (List.map g xs) = map_o (\<lambda>x. f (g x)) xs"
  by (induction xs) (auto split: option.splits)

lemma insort_key_list_all2:
  assumes "R x y" "list_all2 R xs ys" "\<And>x y. R x y \<Longrightarrow> f x = g y"
  shows "list_all2 R (insort_key f x xs) (insort_key g y ys)"
  using assms(2,1,3)
proof (induction xs ys rule: list_all2_induct)
  case (Cons a as b bs)
  then have "f x \<le> f a \<longleftrightarrow> g y \<le> g b" by simp
  with Cons show ?case by simp
qed simp

lemma sort_key_list_all2:
  assumes "list_all2 R xs ys" "\<And>x y. R x y \<Longrightarrow> f x = g y"
  shows "list_all2 R (sort_key f xs) (sort_key g ys)"
  using assms(1)
proof (induction xs ys rule: list_all2_induct)
  case (Cons x xs y ys)
  then show ?case using insort_key_list_all2[of R x y "sort_key f xs" "sort_key g ys" f g] assms(2) by simp
qed simp

lemma member_texts_sorted:
  assumes "list_all2 (\<lambda>kv kt. fst kt = fst kv \<and> P kv kt) d ms"
  shows "list_all2 (\<lambda>kv kt. fst kt = fst kv \<and> P kv kt) (sort_key fst d) (sort_key fst ms)"
  by (rule sort_key_list_all2[OF assms]) simp

lemma render_norm: "render v = Some t \<Longrightarrow> render (norm v) = Some t"
proof (induction v arbitrary: t)
  case (PyList vs)
  then obtain ts where ts: "list_all2 (\<lambda>v t. render v = Some t) vs ts" "t = 91 # join_commas ts @ [93]"
    by (auto simp: map_o_Some_iff[symmetric] split: option.splits)
  from ts(1) PyList.IH have "list_all2 (\<lambda>v t. render (norm v) = Some t) vs ts"
    by (auto simp: list_all2_conv_all_nth)
  then have "map_o render (List.map norm vs) = Some ts" by (simp add: map_o_Some_iff list_all2_map1)
  with ts(2) show ?case by simp
next
  case (PyDict d)
  from PyDict.prems obtain ms where
    ms: "list_all2 (\<lambda>kv kt. fst kt = fst kv \<and> (\<exists>s. fst kv = KStr s) \<and> render (snd kv) = Some (snd kt)) d ms"
    and t0: "t = 123 # join_members ms @ [125]"
    by (auto simp: render_PyDict_Some)
  have ih: "render (norm (snd kv)) = Some t" if "kv \<in> set d" "render (snd kv) = Some t" for kv t
    using PyDict.IH[of kv "snd kv"] that by (cases kv) auto
  have "list_all2 (\<lambda>kv kt. fst kt = fst kv \<and> (\<exists>s. fst kv = KStr s) \<and> render (snd kv) = Some (snd kt))
      (List.map (\<lambda>(k, v). (k, norm v)) d) ms"
    using ms ih by (auto simp: list_all2_map1 list_all2_conv_all_nth case_prod_beta)
  from member_texts_sorted[OF this] have "render (norm (PyDict d)) = Some (123 # join_members (sort_key fst ms) @ [125])"
    by (auto simp: render_PyDict_Some)
  with t0 show ?case by (simp add: join_members_def sort_key_id_if_sorted)
qed auto

lemma json_loads_render:
  assumes "render v = Some t" "keys_distinct v" "floats_ok pf v"
  shows "json_loads pf t = Some (norm v)"
  by (rule json_loads_reads[OF reads_render[of "norm v"]])
    (use assms in \<open>simp_all add: render_norm floats_ok_norm normal_norm\<close>)

end
