(* ===== verification/Store_Schema.thy ===== *)
theory Store_Schema
  imports Canonical
begin

text \<open>
  The versioned SQLite schema of \<open>storage/schema.py\<close>: the statements of the two
  migrations, whitespace normalisation, the object keys and definitions an opened database
  is compared with, and the migration history.  The statements are written line by line
  without their indentation, which \<open>normalize_schema_sql\<close> drops.  What the constraints of
  these tables mean is in \<open>Event_Store\<close>.
\<close>

section \<open>Whitespace\<close>

definition is_space :: "nat \<Rightarrow> bool" where
  "is_space c \<longleftrightarrow> (9 \<le> c \<and> c \<le> 13) \<or> (28 \<le> c \<and> c \<le> 32) \<or> c = 0x85 \<or> c = 0xA0 \<or> c = 0x1680
     \<or> (0x2000 \<le> c \<and> c \<le> 0x200A) \<or> c = 0x2028 \<or> c = 0x2029 \<or> c = 0x202F \<or> c = 0x205F \<or> c = 0x3000"

text \<open>\<open>str.split()\<close>\<close>

fun split_words :: "pystr \<Rightarrow> pystr \<Rightarrow> pystr list" where
  "split_words w [] = (if w = [] then [] else [rev w])"
| "split_words w (c # s) =
     (if is_space c then (if w = [] then split_words [] s else rev w # split_words [] s)
      else split_words (c # w) s)"

text \<open>\<open>" ".join(words)\<close>\<close>

fun join_words :: "pystr list \<Rightarrow> pystr" where
  "join_words [] = []"
| "join_words [w] = w"
| "join_words (w # ws) = w @ 32 # join_words ws"

definition normalize_schema_sql :: "pystr \<Rightarrow> pystr" where
  "normalize_schema_sql value = join_words (split_words [] value)"

section \<open>Statements\<close>

definition sql_text :: "string list \<Rightarrow> pystr" where
  "sql_text ls = concat (List.map (\<lambda>l. U l @ [10]) ls)"

definition APPLICATION_ID :: int where "APPLICATION_ID = 0x4C524F53"
definition SCHEMA_VERSION :: int where "SCHEMA_VERSION = 2"

record schema_migration =
  mg_version :: int
  mg_name :: pystr
  mg_statements :: "pystr list"

definition SQL_schema_migrations :: pystr where
  "SQL_schema_migrations = sql_text [
     ''CREATE TABLE schema_migrations ('',
     ''version INTEGER PRIMARY KEY,'',
     ''name TEXT NOT NULL UNIQUE,'',
     ''applied_at TEXT NOT NULL,'',
     ''schema_digest TEXT NOT NULL'',
     '') STRICT'']"

definition SQL_events :: pystr where
  "SQL_events = sql_text [
     ''CREATE TABLE events ('',
     ''sequence INTEGER PRIMARY KEY'',
     ''CHECK (sequence BETWEEN 1 AND 2147483647),'',
     ''event_id TEXT NOT NULL UNIQUE,'',
     ''stream_id TEXT NOT NULL,'',
     ''stream_version INTEGER NOT NULL'',
     ''CHECK (stream_version BETWEEN 0 AND 2147483647),'',
     ''event_type TEXT NOT NULL,'',
     ''occurred_at TEXT NOT NULL,'',
     ''recorded_at TEXT NOT NULL,'',
     ''project_id TEXT NOT NULL,'',
     ''run_id TEXT,'',
     ''attempt_id TEXT,'',
     ''correlation_id TEXT,'',
     ''causation_id TEXT,'',
     ''schema_version TEXT NOT NULL,'',
     ''event_json TEXT NOT NULL CHECK (json_valid(event_json)),'',
     ''event_digest TEXT NOT NULL CHECK ('',
     ''length(event_digest) = 71'',
     ''AND substr(event_digest, 1, 7) = 'sha256:'' @ [CHR 0x27],
     ''AND substr(event_digest, 8) NOT GLOB '*[^0-9a-f]*'' @ [CHR 0x27],
     ''),'',
     ''UNIQUE (stream_id, stream_version)'',
     '') STRICT'']"

definition SQL_events_stream_sequence_idx :: pystr where
  "SQL_events_stream_sequence_idx = sql_text [
     ''CREATE INDEX events_stream_sequence_idx ON events (stream_id, sequence)'']"

definition SQL_events_type_sequence_idx :: pystr where
  "SQL_events_type_sequence_idx = sql_text [
     ''CREATE INDEX events_type_sequence_idx ON events (event_type, sequence)'']"

definition SQL_events_project_sequence_idx :: pystr where
  "SQL_events_project_sequence_idx = sql_text [
     ''CREATE INDEX events_project_sequence_idx ON events (project_id, sequence)'']"

definition SQL_events_reject_update :: pystr where
  "SQL_events_reject_update = sql_text [
     ''CREATE TRIGGER events_reject_update'',
     ''BEFORE UPDATE ON events'',
     ''BEGIN'',
     ''SELECT RAISE(ABORT, 'events are append-only and cannot be updated');'',
     ''END'']"

definition SQL_events_reject_delete :: pystr where
  "SQL_events_reject_delete = sql_text [
     ''CREATE TRIGGER events_reject_delete'',
     ''BEFORE DELETE ON events'',
     ''BEGIN'',
     ''SELECT RAISE(ABORT, 'events are append-only and cannot be deleted');'',
     ''END'']"

definition SQL_events_reject_replacement :: pystr where
  "SQL_events_reject_replacement = sql_text [
     ''CREATE TRIGGER events_reject_replacement'',
     ''BEFORE INSERT ON events'',
     ''WHEN EXISTS ('',
     ''SELECT 1'',
     ''FROM events'',
     ''WHERE sequence = NEW.sequence'',
     ''OR event_id = NEW.event_id'',
     ''OR (stream_id = NEW.stream_id AND stream_version = NEW.stream_version)'',
     '')'',
     ''BEGIN'',
     ''SELECT RAISE(ABORT, 'events are append-only and cannot be replaced');'',
     ''END'']"

definition SQL_schema_migrations_reject_update :: pystr where
  "SQL_schema_migrations_reject_update = sql_text [
     ''CREATE TRIGGER schema_migrations_reject_update'',
     ''BEFORE UPDATE ON schema_migrations'',
     ''BEGIN'',
     ''SELECT RAISE(ABORT, 'schema migration history cannot be updated');'',
     ''END'']"

definition SQL_schema_migrations_reject_delete :: pystr where
  "SQL_schema_migrations_reject_delete = sql_text [
     ''CREATE TRIGGER schema_migrations_reject_delete'',
     ''BEFORE DELETE ON schema_migrations'',
     ''BEGIN'',
     ''SELECT RAISE(ABORT, 'schema migration history cannot be deleted');'',
     ''END'']"

definition SQL_integrity_checkpoint :: pystr where
  "SQL_integrity_checkpoint = sql_text [
     ''CREATE TABLE integrity_checkpoint ('',
     ''slot INTEGER PRIMARY KEY CHECK (slot = 1),'',
     ''high_water INTEGER NOT NULL'',
     ''CHECK (high_water BETWEEN 0 AND 2147483647),'',
     ''last_event_digest TEXT,'',
     ''schema_digest TEXT NOT NULL CHECK ('',
     ''length(schema_digest) = 71'',
     ''AND substr(schema_digest, 1, 7) = 'sha256:'' @ [CHR 0x27],
     ''AND substr(schema_digest, 8) NOT GLOB '*[^0-9a-f]*'' @ [CHR 0x27],
     ''),'',
     ''verified_event_count INTEGER NOT NULL'',
     ''CHECK (verified_event_count BETWEEN 0 AND 2147483647),'',
     ''recorded_at TEXT NOT NULL,'',
     ''CHECK ('',
     ''('',
     ''high_water = 0'',
     ''AND last_event_digest IS NULL'',
     ''AND verified_event_count = 0'',
     '')'',
     ''OR ('',
     ''high_water > 0'',
     ''AND verified_event_count = high_water'',
     ''AND last_event_digest IS NOT NULL'',
     ''AND length(last_event_digest) = 71'',
     ''AND substr(last_event_digest, 1, 7) = 'sha256:'' @ [CHR 0x27],
     ''AND substr(last_event_digest, 8) NOT GLOB '*[^0-9a-f]*'' @ [CHR 0x27],
     '')'',
     '')'',
     '') STRICT'']"

definition SQL_run_projections :: pystr where
  "SQL_run_projections = sql_text [
     ''CREATE TABLE run_projections ('',
     ''project_id TEXT NOT NULL,'',
     ''run_id TEXT NOT NULL,'',
     ''last_sequence INTEGER NOT NULL'',
     ''CHECK (last_sequence BETWEEN 1 AND 2147483647),'',
     ''snapshot_json TEXT CHECK ('',
     ''snapshot_json IS NULL OR json_valid(snapshot_json)'',
     ''),'',
     ''snapshot_digest TEXT CHECK ('',
     ''snapshot_digest IS NULL OR ('',
     ''length(snapshot_digest) = 71'',
     ''AND substr(snapshot_digest, 1, 7) = 'sha256:'' @ [CHR 0x27],
     ''AND substr(snapshot_digest, 8) NOT GLOB '*[^0-9a-f]*'' @ [CHR 0x27],
     '')'',
     ''),'',
     ''PRIMARY KEY (project_id, run_id),'',
     ''CHECK ('',
     ''(snapshot_json IS NULL AND snapshot_digest IS NULL)'',
     ''OR (snapshot_json IS NOT NULL AND snapshot_digest IS NOT NULL)'',
     '')'',
     '') STRICT'']"

definition SQL_spec_revisions :: pystr where
  "SQL_spec_revisions = sql_text [
     ''CREATE TABLE spec_revisions ('',
     ''project_id TEXT NOT NULL,'',
     ''revision INTEGER NOT NULL'',
     ''CHECK (revision BETWEEN 1 AND 2147483647),'',
     ''spec_digest TEXT NOT NULL CHECK ('',
     ''('',
     ''substr(spec_digest, 1, 7) = 'sha256:'' @ [CHR 0x27],
     ''AND length(spec_digest) = 71'',
     ''AND substr(spec_digest, 8) NOT GLOB '*[^0-9a-f]*'' @ [CHR 0x27],
     '')'',
     ''OR ('',
     ''substr(spec_digest, 1, 11) = 'jcs-sha256:'' @ [CHR 0x27],
     ''AND length(spec_digest) = 75'',
     ''AND substr(spec_digest, 12) NOT GLOB '*[^0-9a-f]*'' @ [CHR 0x27],
     '')'',
     ''),'',
     ''first_seen_sequence INTEGER NOT NULL'',
     ''CHECK (first_seen_sequence BETWEEN 1 AND 2147483647),'',
     ''PRIMARY KEY (project_id, revision)'',
     '') STRICT'']"

definition SQL_artifacts :: pystr where
  "SQL_artifacts = sql_text [
     ''CREATE TABLE artifacts ('',
     ''digest TEXT PRIMARY KEY CHECK ('',
     ''('',
     ''substr(digest, 1, 7) = 'sha256:'' @ [CHR 0x27],
     ''AND length(digest) = 71'',
     ''AND substr(digest, 8) NOT GLOB '*[^0-9a-f]*'' @ [CHR 0x27],
     '')'',
     ''OR ('',
     ''substr(digest, 1, 11) = 'jcs-sha256:'' @ [CHR 0x27],
     ''AND length(digest) = 75'',
     ''AND substr(digest, 12) NOT GLOB '*[^0-9a-f]*'' @ [CHR 0x27],
     '')'',
     ''),'',
     ''byte_length INTEGER CHECK (byte_length IS NULL OR byte_length >= 0),'',
     ''first_seen_sequence INTEGER NOT NULL'',
     ''CHECK (first_seen_sequence BETWEEN 1 AND 2147483647)'',
     '') STRICT'']"

definition SQL_artifact_links :: pystr where
  "SQL_artifact_links = sql_text [
     ''CREATE TABLE artifact_links ('',
     ''digest TEXT NOT NULL,'',
     ''event_sequence INTEGER NOT NULL'',
     ''CHECK (event_sequence BETWEEN 1 AND 2147483647),'',
     ''role TEXT NOT NULL CHECK (length(role) BETWEEN 1 AND 64),'',
     ''PRIMARY KEY (digest, event_sequence, role),'',
     ''FOREIGN KEY (digest) REFERENCES artifacts (digest)'',
     '') STRICT'']"

definition SQL_spec_revisions_digest_idx :: pystr where
  "SQL_spec_revisions_digest_idx = sql_text [
     ''CREATE INDEX spec_revisions_digest_idx ON spec_revisions (spec_digest)'']"

definition SQL_artifact_links_sequence_idx :: pystr where
  "SQL_artifact_links_sequence_idx = sql_text [
     ''CREATE INDEX artifact_links_sequence_idx ON artifact_links (event_sequence)'']"

definition V1_MIGRATION :: schema_migration where
  "V1_MIGRATION = \<lparr>mg_version = 1, mg_name = U ''m0-append-only-events'', mg_statements = [
     SQL_schema_migrations, SQL_events, SQL_events_stream_sequence_idx, SQL_events_type_sequence_idx, SQL_events_project_sequence_idx, SQL_events_reject_update, SQL_events_reject_delete, SQL_events_reject_replacement, SQL_schema_migrations_reject_update, SQL_schema_migrations_reject_delete]\<rparr>"

definition V2_MIGRATION :: schema_migration where
  "V2_MIGRATION = \<lparr>mg_version = 2, mg_name = U ''m1-verified-high-water-and-query-tables'', mg_statements = [
     SQL_integrity_checkpoint, SQL_run_projections, SQL_spec_revisions, SQL_artifacts, SQL_artifact_links, SQL_spec_revisions_digest_idx, SQL_artifact_links_sequence_idx]\<rparr>"


definition MIGRATIONS :: "schema_migration list" where
  "MIGRATIONS = [V1_MIGRATION, V2_MIGRATION]"

definition MIGRATION_STATEMENTS :: "pystr list" where
  "MIGRATION_STATEMENTS = concat (List.map mg_statements MIGRATIONS)"

section \<open>What a database is compared with\<close>

text \<open>A list of texts always has a canonical form, so the digest is total.\<close>

definition digest_of_statements :: "(pystr \<Rightarrow> pystr) \<Rightarrow> pystr list \<Rightarrow> pystr" where
  "digest_of_statements sha statements =
     (case legacy_content_digest sha (PyList (List.map (\<lambda>s. PyStr (normalize_schema_sql s)) statements)) of
        Some d \<Rightarrow> d | None \<Rightarrow> [])"

definition migration_digest :: "(pystr \<Rightarrow> pystr) \<Rightarrow> schema_migration \<Rightarrow> pystr" where
  "migration_digest sha m = digest_of_statements sha (mg_statements m)"

definition SCHEMA_DEFINITION_DIGEST :: "(pystr \<Rightarrow> pystr) \<Rightarrow> pystr" where
  "SCHEMA_DEFINITION_DIGEST sha = digest_of_statements sha MIGRATION_STATEMENTS"

definition ascii_lower :: "pystr \<Rightarrow> pystr" where
  "ascii_lower s = List.map (\<lambda>c. if 65 \<le> c \<and> c \<le> 90 then c + 32 else c) s"

definition schema_object_key :: "pystr \<Rightarrow> pystr \<times> pystr" where
  "schema_object_key statement =
     (let words = split_words [] (normalize_schema_sql statement) in (ascii_lower (words ! 1), words ! 2))"

definition definitions_for :: "pystr list \<Rightarrow> ((pystr \<times> pystr) \<times> pystr) list" where
  "definitions_for statements = List.map (\<lambda>s. (schema_object_key s, normalize_schema_sql s)) statements"

definition V1_EXPECTED_SCHEMA_DEFINITIONS :: "((pystr \<times> pystr) \<times> pystr) list" where
  "V1_EXPECTED_SCHEMA_DEFINITIONS = definitions_for (mg_statements V1_MIGRATION)"

definition EXPECTED_SCHEMA_DEFINITIONS :: "((pystr \<times> pystr) \<times> pystr) list" where
  "EXPECTED_SCHEMA_DEFINITIONS = definitions_for MIGRATION_STATEMENTS"

definition expected_migration_history :: "(pystr \<Rightarrow> pystr) \<Rightarrow> (int \<times> pystr \<times> pystr) list" where
  "expected_migration_history sha = List.map (\<lambda>m. (mg_version m, mg_name m, migration_digest sha m)) MIGRATIONS"

text \<open>Equality of sets and of dicts held as lists.\<close>

definition same_set :: "'a list \<Rightarrow> 'a list \<Rightarrow> bool" where
  "same_set xs ys \<longleftrightarrow> list_all (\<lambda>x. x \<in> set ys) xs \<and> list_all (\<lambda>y. y \<in> set xs) ys"

definition same_dict :: "('k \<times> 'v) list \<Rightarrow> ('k \<times> 'v) list \<Rightarrow> bool" where
  "same_dict a b \<longleftrightarrow> list_all (\<lambda>(k, _). map_of a k = map_of b k) a \<and> list_all (\<lambda>(k, _). map_of a k = map_of b k) b"

lemma same_set_refl [simp]: "same_set xs xs"
  by (simp add: same_set_def list_all_iff)

lemma same_dict_iff: "same_dict a b \<longleftrightarrow> map_of a = map_of b"
proof
  assume s: "same_dict a b"
  show "map_of a = map_of b"
  proof
    fix k
    show "map_of a k = map_of b k"
    proof (cases "k \<in> fst ` set a \<union> fst ` set b")
      case True
      with s show ?thesis by (auto simp: same_dict_def list_all_iff)
    next
      case False
      then have "map_of a k = None" "map_of b k = None" by (simp_all add: map_of_eq_None_iff)
      then show ?thesis by simp
    qed
  qed
qed (simp add: same_dict_def list_all_iff case_prod_beta)

lemma render_string_list: "render (PyList (List.map PyStr ss)) \<noteq> None"
proof -
  have "map_o render (List.map PyStr ss) = Some (List.map quote_text ss)" by (induction ss) auto
  then show ?thesis by simp
qed

end
