(* ===== verification/Event_Store.thy ===== *)
theory Event_Store
  imports Store_Schema "HOL-Library.Product_Lexorder"
begin

text \<open>
  The append-only event store: \<open>storage/store.py\<close>, its records (\<open>storage/models.py\<close>), its
  errors (\<open>storage/errors.py\<close>) and the constraints of its tables (\<open>storage/schema.py\<close>).

  The database is a value of type \<open>store\<close>: its tables as lists of rows, what SQLite reports of
  its header and integrity, and whether the connection may write.  An operation returns the
  database with its result; a transaction that raises leaves the database as it was.  Other
  connections act between operations, never inside one.

  SQLite and the standard library stay outside: \<open>env\<close> holds SHA-256, \<open>float()\<close> and SQLite's
  \<open>json_valid\<close>.  Connecting, pragmas, busy time-outs, file modes and the lifecycle marker are
  not modelled.
\<close>

section \<open>Errors\<close>

datatype append_reason =
    DraftNotObject
  | StoreAssigned "pystr list"
  | DraftInvalid
  | SequenceExhausted
  | StreamExhausted pystr
  | AllocatedInvalid
  | RowRejected

datatype integrity_reason =
    NotContiguous int "int option"
  | OutOfOrder int int
  | StoredJsonInvalid
  | DigestMismatch pystr
  | ColumnsDisagree pystr "pystr list"
  | RecordedAtInvalid pystr
  | SqliteIntegrity "pystr list"
  | RevisionConflict pystr int

datatype store_error =
    ValueError pystr
  | SqliteError
  | EventStoreError pystr
  | EventStoreSchemaError pystr
  | EventAppendError append_reason
  | DuplicateEventError pystr
  | EventSequenceConflictError int int
  | EventIntegrityError integrity_reason

section \<open>Records\<close>

record integrity_checkpoint =
  high_water :: int
  last_event_digest :: "pystr option"
  cp_schema_digest :: pystr
  verified_event_count :: int

record run_projection_record =
  rp_project_id :: pystr
  rp_run_id :: pystr
  rp_last_sequence :: int
  rp_snapshot_json :: "pystr option"
  rp_snapshot_digest :: "pystr option"

record spec_revision_record =
  sr_project_id :: pystr
  sr_revision :: int
  sr_spec_digest :: pystr
  sr_first_seen_sequence :: int

record artifact_index_record =
  ai_digest :: pystr
  ai_byte_length :: "int option"
  ai_first_seen_sequence :: int

record artifact_link_record =
  al_digest :: pystr
  al_event_sequence :: int
  al_role :: pystr

record stored_event =
  st_event :: research_event
  st_recorded_at :: pystr
  st_digest :: pystr

definition stored_sequence :: "stored_event \<Rightarrow> int" where
  "stored_sequence s = sequence_of (st_event s)"

definition stored_stream_version :: "stored_event \<Rightarrow> int" where
  "stored_stream_version s = e_streamversion (st_event s)"

text \<open>A row of \<open>events\<close> and the row of \<open>integrity_checkpoint\<close>.\<close>

record event_row =
  row_sequence :: int
  row_event_id :: pystr
  row_stream_id :: pystr
  row_stream_version :: int
  row_event_type :: pystr
  row_occurred_at :: pystr
  row_recorded_at :: pystr
  row_project_id :: pystr
  row_run_id :: "pystr option"
  row_attempt_id :: "pystr option"
  row_correlation_id :: "pystr option"
  row_causation_id :: "pystr option"
  row_schema_version :: pystr
  row_event_json :: pystr
  row_event_digest :: pystr

record checkpoint_row =
  ck_high_water :: int
  ck_last_event_digest :: "pystr option"
  ck_schema_digest :: pystr
  ck_verified_event_count :: int
  ck_recorded_at :: pystr

text \<open>What SQLite reports of the file: header numbers, the normalised definitions in
  \<open>sqlite_master\<close>, the migration history, \<open>quick_check\<close> and \<open>integrity_check\<close>.\<close>

record sqlite_report =
  db_application_id :: int
  db_user_version :: int
  db_definitions :: "((pystr \<times> pystr) \<times> pystr) list"
  db_migrations :: "(int \<times> pystr \<times> pystr) list"
  db_quick_check :: pystr
  db_integrity_check :: "pystr list"

record store =
  db_report :: sqlite_report
  db_events :: "event_row list"
  db_checkpoint :: "checkpoint_row option"
  db_run_projections :: "run_projection_record list"
  db_spec_revisions :: "spec_revision_record list"
  db_artifacts :: "artifact_index_record list"
  db_artifact_links :: "artifact_link_record list"
  writable :: bool

record env =
  env_sha :: "pystr \<Rightarrow> pystr"
  env_float :: "pystr \<Rightarrow> pyfloat"
  env_json_valid :: "pystr \<Rightarrow> bool"

section \<open>Clock\<close>

text \<open>An aware \<open>datetime\<close> is kept as its UTC fields, which is all \<open>astimezone(UTC)\<close> shows.\<close>

record utc_time =
  t_year :: nat
  t_month :: nat
  t_day :: nat
  t_hour :: nat
  t_minute :: nat
  t_second :: nat
  t_micro :: nat

datatype pydatetime = Naive | Aware utc_time

definition utc_ok :: "utc_time \<Rightarrow> bool" where
  "utc_ok t \<longleftrightarrow> datetime_ok (t_year t) (t_month t) (t_day t) (t_hour t) (t_minute t) (t_second t)
     \<and> t_micro t \<le> 999999"

definition pad_digits :: "nat \<Rightarrow> nat \<Rightarrow> pystr" where
  "pad_digits k n = replicate (k - length (digits_of n)) 48 @ digits_of n"

definition utc_text :: "utc_time \<Rightarrow> pystr" where
  "utc_text t = pad_digits 4 (t_year t) @ [45] @ pad_digits 2 (t_month t) @ [45] @ pad_digits 2 (t_day t)
     @ [84] @ pad_digits 2 (t_hour t) @ [58] @ pad_digits 2 (t_minute t) @ [58] @ pad_digits 2 (t_second t)
     @ [46] @ pad_digits 6 (t_micro t) @ [90]"

definition recorded_timestamp :: "pydatetime \<Rightarrow> store_error + pystr" where
  "recorded_timestamp value = (case value of
     Naive \<Rightarrow> Inl (EventStoreError (U ''event-store clock must return a timezone-aware datetime''))
   | Aware t \<Rightarrow> Inr (utc_text t))"

text \<open>Reading a recorded timestamp.  \<open>datetime.fromisoformat\<close> takes more forms, but the text it
  is given must equal the canonical text of what it read, so exactly this form passes.\<close>

definition field :: "nat \<Rightarrow> nat \<Rightarrow> pystr \<Rightarrow> nat" where
  "field i k s = int_of_digits (take k (drop i s))"

definition parse_recorded :: "pystr \<Rightarrow> utc_time option" where
  "parse_recorded s =
     (let t = \<lparr>t_year = field 0 4 s, t_month = field 5 2 s, t_day = field 8 2 s, t_hour = field 11 2 s,
           t_minute = field 14 2 s, t_second = field 17 2 s, t_micro = field 20 6 s\<rparr>
      in if utc_ok t \<and> utc_text t = s then Some t else None)"

section \<open>Argument checks\<close>

definition validate_sequence_bound :: "pystr \<Rightarrow> int option \<Rightarrow> store_error + int option" where
  "validate_sequence_bound name value = (case value of
     None \<Rightarrow> Inr None
   | Some v \<Rightarrow> if v < 0 \<or> v > CLOUD_EVENTS_INTEGER_MAX then Inl (ValueError name) else Inr (Some v))"

definition validate_expected_last_sequence :: "int option \<Rightarrow> store_error + int option" where
  "validate_expected_last_sequence value = validate_sequence_bound (U ''expected_last_sequence'') value"

definition validate_until_sequence :: "int option \<Rightarrow> store_error + int option" where
  "validate_until_sequence value = validate_sequence_bound (U ''until_sequence'') value"

definition require_content_digest :: "pystr \<Rightarrow> store_error + pystr" where
  "require_content_digest digest =
     (if fullmatch SEMANTIC_DIGEST_PATTERN digest then Inr digest
      else Inl (ValueError (U ''digest'')))"

definition validate_event_types :: "pystr list option \<Rightarrow> store_error + pystr list option" where
  "validate_event_types value = (case value of
     None \<Rightarrow> Inr None
   | Some v \<Rightarrow> if 32 < length v then Inl (ValueError (U ''event_types''))
       else if list_ex (\<lambda>item. item = []) v then Inl (ValueError (U ''event_types''))
       else Inr (Some v))"

definition MAX_READ_PAGE_SIZE :: int where "MAX_READ_PAGE_SIZE = 1000"

definition STORE_ASSIGNED_FIELDS :: "pystr list" where
  "STORE_ASSIGNED_FIELDS = [U ''sequence'', U ''sequencetype'', U ''streamversion'']"


section \<open>Table constraints\<close>

text \<open>\<open>length(d) = 71 AND substr(d, 1, 7) = 'sha256:' AND substr(d, 8) NOT GLOB '*[^0-9a-f]*'\<close>,
  and the same for a JCS digest of length 75.\<close>

definition lower_hex :: "pystr \<Rightarrow> bool" where
  "lower_hex s \<longleftrightarrow> list_all (\<lambda>c. (48 \<le> c \<and> c \<le> 57) \<or> (97 \<le> c \<and> c \<le> 102)) s"

definition sql_sha256 :: "pystr \<Rightarrow> bool" where
  "sql_sha256 d \<longleftrightarrow> length d = 71 \<and> take 7 d = U ''sha256:'' \<and> lower_hex (drop 7 d)"

definition sql_jcs_sha256 :: "pystr \<Rightarrow> bool" where
  "sql_jcs_sha256 d \<longleftrightarrow> take 11 d = U ''jcs-sha256:'' \<and> length d = 75 \<and> lower_hex (drop 11 d)"

definition events_check :: "env \<Rightarrow> event_row \<Rightarrow> bool" where
  "events_check env r \<longleftrightarrow> 1 \<le> row_sequence r \<and> row_sequence r \<le> 2147483647
     \<and> 0 \<le> row_stream_version r \<and> row_stream_version r \<le> 2147483647
     \<and> env_json_valid env (row_event_json r) \<and> sql_sha256 (row_event_digest r)"

text \<open>The trigger \<open>events_reject_replacement\<close> and the three uniqueness constraints.\<close>

definition events_clash :: "event_row \<Rightarrow> event_row \<Rightarrow> bool" where
  "events_clash r new \<longleftrightarrow> row_sequence r = row_sequence new \<or> row_event_id r = row_event_id new
     \<or> (row_stream_id r = row_stream_id new \<and> row_stream_version r = row_stream_version new)"

definition insert_event :: "env \<Rightarrow> event_row \<Rightarrow> store \<Rightarrow> store option" where
  "insert_event env new s =
     (if \<not> events_check env new \<or> list_ex (\<lambda>r. events_clash r new) (db_events s) then None
      else Some (s\<lparr>db_events := db_events s @ [new]\<rparr>))"

definition checkpoint_check :: "checkpoint_row \<Rightarrow> bool" where
  "checkpoint_check c \<longleftrightarrow> 0 \<le> ck_high_water c \<and> ck_high_water c \<le> 2147483647 \<and> sql_sha256 (ck_schema_digest c)
     \<and> 0 \<le> ck_verified_event_count c \<and> ck_verified_event_count c \<le> 2147483647
     \<and> ((ck_high_water c = 0 \<and> ck_last_event_digest c = None \<and> ck_verified_event_count c = 0)
        \<or> (0 < ck_high_water c \<and> ck_verified_event_count c = ck_high_water c
           \<and> (case ck_last_event_digest c of None \<Rightarrow> False | Some d \<Rightarrow> sql_sha256 d)))"

definition run_projections_check :: "env \<Rightarrow> run_projection_record \<Rightarrow> bool" where
  "run_projections_check env r \<longleftrightarrow> 1 \<le> rp_last_sequence r \<and> rp_last_sequence r \<le> 2147483647
     \<and> pred_option (env_json_valid env) (rp_snapshot_json r)
     \<and> pred_option sql_sha256 (rp_snapshot_digest r)
     \<and> (rp_snapshot_json r = None) = (rp_snapshot_digest r = None)"

definition spec_revisions_check :: "spec_revision_record \<Rightarrow> bool" where
  "spec_revisions_check r \<longleftrightarrow> 1 \<le> sr_revision r \<and> sr_revision r \<le> 2147483647
     \<and> (sql_sha256 (sr_spec_digest r) \<or> sql_jcs_sha256 (sr_spec_digest r))
     \<and> 1 \<le> sr_first_seen_sequence r \<and> sr_first_seen_sequence r \<le> 2147483647"

definition artifacts_check :: "artifact_index_record \<Rightarrow> bool" where
  "artifacts_check r \<longleftrightarrow> (sql_sha256 (ai_digest r) \<or> sql_jcs_sha256 (ai_digest r))
     \<and> pred_option (\<lambda>n. 0 \<le> n) (ai_byte_length r)
     \<and> 1 \<le> ai_first_seen_sequence r \<and> ai_first_seen_sequence r \<le> 2147483647"

definition artifact_links_check :: "artifact_link_record \<Rightarrow> bool" where
  "artifact_links_check r \<longleftrightarrow> 1 \<le> al_event_sequence r \<and> al_event_sequence r \<le> 2147483647
     \<and> 1 \<le> length (al_role r) \<and> length (al_role r) \<le> 64"

section \<open>Schema verification\<close>

definition verify_schema :: "env \<Rightarrow> store \<Rightarrow> store_error + unit" where
  "verify_schema env s =
     (let r = db_report s in
      bind_r (check_r (db_application_id r = APPLICATION_ID \<and> db_user_version r = SCHEMA_VERSION)
        (EventStoreSchemaError (U ''unsupported event-store header''))) (\<lambda>_.
      bind_r (check_r (same_set (List.map fst (db_definitions r)) (List.map fst EXPECTED_SCHEMA_DEFINITIONS))
        (EventStoreSchemaError (U ''event-store schema objects do not match version 2''))) (\<lambda>_.
      bind_r (check_r (same_dict (db_definitions r) EXPECTED_SCHEMA_DEFINITIONS)
        (EventStoreSchemaError (U ''event-store SQL definitions do not match version 2''))) (\<lambda>_.
      bind_r (check_r (db_migrations r = expected_migration_history (env_sha env))
        (EventStoreSchemaError (U ''event-store migration history is unsupported or corrupt''))) (\<lambda>_.
      check_r (db_quick_check r = U ''ok'') (EventStoreSchemaError (U ''SQLite quick_check failed'')))))))"

section \<open>Checkpoint\<close>

text \<open>\<open>INSERT ... ON CONFLICT(slot) DO UPDATE\<close>: one row at most; a row the constraints refuse
  raises an SQLite error.\<close>

definition replace_checkpoint ::
  "env \<Rightarrow> int \<Rightarrow> pystr option \<Rightarrow> int \<Rightarrow> pystr \<Rightarrow> store \<Rightarrow> store_error + store" where
  "replace_checkpoint env hw last_digest cnt stamp s =
     (let c = \<lparr>ck_high_water = hw, ck_last_event_digest = last_digest,
          ck_schema_digest = SCHEMA_DEFINITION_DIGEST (env_sha env), ck_verified_event_count = cnt,
          ck_recorded_at = stamp\<rparr>
      in if writable s \<and> checkpoint_check c then Inr (s\<lparr>db_checkpoint := Some c\<rparr>) else Inl SqliteError)"

definition read_checkpoint :: "store \<Rightarrow> integrity_checkpoint option" where
  "read_checkpoint s = (case db_checkpoint s of
     None \<Rightarrow> None
   | Some c \<Rightarrow>
       if ck_high_water c < 0 \<or> ck_verified_event_count c \<noteq> ck_high_water c then None
       else if ck_high_water c = 0 \<and> ck_last_event_digest c \<noteq> None then None
       else if ck_high_water c \<noteq> 0 \<and> (ck_last_event_digest c = None \<or> ck_last_event_digest c = Some []) then None
       else Some \<lparr>high_water = ck_high_water c, last_event_digest = ck_last_event_digest c,
              cp_schema_digest = ck_schema_digest c, verified_event_count = ck_verified_event_count c\<rparr>)"

definition read_integrity_checkpoint :: "store \<Rightarrow> integrity_checkpoint option" where
  "read_integrity_checkpoint s = read_checkpoint s"

section \<open>Appending\<close>

definition max_or :: "int \<Rightarrow> int list \<Rightarrow> int" where
  "max_or x xs = (case xs of [] \<Rightarrow> x | y # ys \<Rightarrow> foldl max y ys)"

text \<open>\<open>SELECT COALESCE(MAX(sequence), 0) FROM events\<close>\<close>

definition last_sequence :: "store \<Rightarrow> int" where
  "last_sequence s = max_or 0 (List.map row_sequence (db_events s))"

definition last_stream_version :: "pystr \<Rightarrow> store \<Rightarrow> int" where
  "last_stream_version sid s =
     max_or (- 1) (List.map row_stream_version (List.filter (\<lambda>r. row_stream_id r = sid) (db_events s)))"

definition row_of_event :: "research_event \<Rightarrow> int \<Rightarrow> pystr \<Rightarrow> pystr \<Rightarrow> pystr \<Rightarrow> event_row" where
  "row_of_event e sequence recorded_at event_json digest =
     \<lparr>row_sequence = sequence, row_event_id = e_id e, row_stream_id = e_streamid e,
      row_stream_version = e_streamversion e, row_event_type = e_type e, row_occurred_at = e_time e,
      row_recorded_at = recorded_at, row_project_id = ed_project_id (e_data e),
      row_run_id = ed_run_id (e_data e), row_attempt_id = ed_attempt_id (e_data e),
      row_correlation_id = e_correlationid e, row_causation_id = e_causationid e,
      row_schema_version = ed_schema_version (e_data e), row_event_json = event_json,
      row_event_digest = digest\<rparr>"

definition str_int :: "int \<Rightarrow> pystr" where "str_int = int_text"

definition allocate :: "int \<Rightarrow> int \<Rightarrow> pydict \<Rightarrow> pydict" where
  "allocate sequence stream_version d = dict_update d
     [(U ''sequence'', PyStr (str_int sequence)), (U ''sequencetype'', PyStr (U ''Integer'')),
      (U ''streamversion'', PyInt stream_version)]"

text \<open>The body of the transaction.  \<open>now\<close> is what the clock returns.\<close>

definition append_transaction ::
  "env \<Rightarrow> pydatetime \<Rightarrow> pydict \<Rightarrow> int option \<Rightarrow> research_event \<Rightarrow> store \<Rightarrow> store_error + store \<times> stored_event" where
  "append_transaction env now d expected_head preflight s =
     bind_r (check_r (writable s) SqliteError) (\<lambda>_.
     bind_r (check_r (\<not> list_ex (\<lambda>r. row_event_id r = e_id preflight) (db_events s))
       (DuplicateEventError (e_id preflight))) (\<lambda>_.
     let last_seq = last_sequence s in
     bind_r (case expected_head of None \<Rightarrow> Inr ()
       | Some h \<Rightarrow> check_r (h = last_seq) (EventSequenceConflictError h last_seq)) (\<lambda>_.
     bind_r (check_r (last_seq < CLOUD_EVENTS_INTEGER_MAX) (EventAppendError SequenceExhausted)) (\<lambda>_.
     let sequence = last_seq + 1; last_version = last_stream_version (e_streamid preflight) s in
     bind_r (check_r (last_version < CLOUD_EVENTS_INTEGER_MAX)
       (EventAppendError (StreamExhausted (e_streamid preflight)))) (\<lambda>_.
     let stream_version = last_version + 1; complete = PyDict (allocate sequence stream_version d) in
     bind_r (lift_option (EventAppendError AllocatedInvalid) (validate_event_document complete)) (\<lambda>event.
     bind_r (lift_option (ValueError (U ''canonical JSON'')) (legacy_canonical_json complete)) (\<lambda>event_json.
     bind_r (lift_option (ValueError (U ''canonical JSON'')) (legacy_content_digest (env_sha env) complete)) (\<lambda>digest.
     bind_r (recorded_timestamp now) (\<lambda>recorded_at.
     bind_r (lift_option (EventAppendError RowRejected)
       (insert_event env (row_of_event event sequence recorded_at event_json digest) s)) (\<lambda>s'.
     bind_r (replace_checkpoint env sequence (Some digest) sequence recorded_at s') (\<lambda>s''.
     Inr (s'', \<lparr>st_event = event, st_recorded_at = recorded_at, st_digest = digest\<rparr>))))))))))))"

text \<open>A refused append leaves the database alone: either nothing was begun or the
  transaction was rolled back.\<close>

definition append_checked ::
  "env \<Rightarrow> pydatetime \<Rightarrow> pyval \<Rightarrow> int option \<Rightarrow> store \<Rightarrow> store_error + store \<times> stored_event" where
  "append_checked env now document expected_last_sequence s =
     bind_r (validate_expected_last_sequence expected_last_sequence) (\<lambda>expected_head.
     bind_r (lift_option (EventAppendError DraftNotObject) (as_dict document)) (\<lambda>d.
     let supplied = List.filter (\<lambda>k. dict_has k d) STORE_ASSIGNED_FIELDS in
     bind_r (check_r (supplied = []) (EventAppendError (StoreAssigned supplied))) (\<lambda>_.
     bind_r (lift_option (EventAppendError DraftInvalid) (validate_event_document (PyDict (allocate 1 0 d)))) (\<lambda>preflight.
     append_transaction env now d expected_head preflight s))))"

definition append_store ::
  "env \<Rightarrow> pydatetime \<Rightarrow> pyval \<Rightarrow> int option \<Rightarrow> store \<Rightarrow> store \<times> (store_error + stored_event)" where
  "append_store env now document expected_last_sequence s =
     (case append_checked env now document expected_last_sequence s of
        Inl e \<Rightarrow> (s, Inl e)
      | Inr (s', r) \<Rightarrow> (s', Inr r))"


section \<open>Reading rows\<close>

text \<open>The index columns of a row that disagree with the event, in sorted order.\<close>

definition mismatched_columns :: "research_event \<Rightarrow> event_row \<Rightarrow> pystr list" where
  "mismatched_columns e r = List.map fst (List.filter (\<lambda>(_, same). \<not> same)
     [(U ''attempt_id'', row_attempt_id r = ed_attempt_id (e_data e)),
      (U ''causation_id'', row_causation_id r = e_causationid e),
      (U ''correlation_id'', row_correlation_id r = e_correlationid e),
      (U ''event_id'', row_event_id r = e_id e),
      (U ''event_type'', row_event_type r = e_type e),
      (U ''occurred_at'', row_occurred_at r = e_time e),
      (U ''project_id'', row_project_id r = ed_project_id (e_data e)),
      (U ''run_id'', row_run_id r = ed_run_id (e_data e)),
      (U ''schema_version'', row_schema_version r = ed_schema_version (e_data e)),
      (U ''sequence'', row_sequence r = sequence_of e),
      (U ''stream_id'', row_stream_id r = e_streamid e),
      (U ''stream_version'', row_stream_version r = e_streamversion e)])"

definition decode_stored :: "env \<Rightarrow> pystr \<Rightarrow> (pyval \<times> research_event) option" where
  "decode_stored env event_json = do {
     decoded \<leftarrow> json_loads (env_float env) event_json;
     as_dict decoded;
     text \<leftarrow> legacy_canonical_json decoded;
     check_o (text = event_json);
     event \<leftarrow> validate_event_document decoded;
     Some (decoded, event)
   }"

definition stored_event_from_row :: "env \<Rightarrow> event_row \<Rightarrow> store_error + stored_event" where
  "stored_event_from_row env r =
     bind_r (lift_option (EventIntegrityError StoredJsonInvalid) (decode_stored env (row_event_json r))) (\<lambda>(document, event).
     bind_r (check_r (legacy_content_digest (env_sha env) document = Some (row_event_digest r))
       (EventIntegrityError (DigestMismatch (e_id event)))) (\<lambda>_.
     bind_r (check_r (mismatched_columns event r = [])
       (EventIntegrityError (ColumnsDisagree (e_id event) (mismatched_columns event r)))) (\<lambda>_.
     bind_r (check_r (parse_recorded (row_recorded_at r) \<noteq> None)
       (EventIntegrityError (RecordedAtInvalid (e_id event)))) (\<lambda>_.
     Inr \<lparr>st_event = event, st_recorded_at = row_recorded_at r, st_digest = row_event_digest r\<rparr>))))"

definition rows_in_order :: "store \<Rightarrow> event_row list" where
  "rows_in_order s = sort_key row_sequence (db_events s)"

definition get_event :: "env \<Rightarrow> pystr \<Rightarrow> store \<Rightarrow> store_error + stored_event option" where
  "get_event env event_id s = (case find_first (\<lambda>r. row_event_id r = event_id) (db_events s) of
     None \<Rightarrow> Inr None
   | Some r \<Rightarrow> bind_r (stored_event_from_row env r) (\<lambda>e. Inr (Some e)))"

text \<open>The keyword arguments of \<open>read_events\<close> and their defaults.\<close>

record read_args =
  after_sequence :: int
  limit :: int
  until_sequence :: "int option"
  event_types :: "pystr list option"
  by_project_id :: "pystr option"
  by_run_id :: "pystr option"
  by_event_id :: "pystr option"
  newest_first :: bool

definition read_defaults :: read_args where
  "read_defaults = \<lparr>after_sequence = 0, limit = 100, until_sequence = None, event_types = None,
     by_project_id = None, by_run_id = None, by_event_id = None, newest_first = False\<rparr>"

definition sequence_in_range :: "int \<Rightarrow> bool" where
  "sequence_in_range n \<longleftrightarrow> \<not> (n < 0 \<or> n > CLOUD_EVENTS_INTEGER_MAX)"

definition page_size_ok :: "int \<Rightarrow> bool" where
  "page_size_ok n \<longleftrightarrow> 1 \<le> n \<and> n \<le> MAX_READ_PAGE_SIZE"

definition bounded_identifier :: "pystr option \<Rightarrow> bool" where
  "bounded_identifier value = (case value of None \<Rightarrow> True | Some v \<Rightarrow> 1 \<le> length v \<and> length v \<le> 255)"

text \<open>\<open>name = ?\<close>, and no clause when the filter is not given; a NULL column matches nothing.\<close>

definition clause :: "'a option \<Rightarrow> ('a \<Rightarrow> bool) \<Rightarrow> bool" where
  "clause filter_value p = (case filter_value of None \<Rightarrow> True | Some v \<Rightarrow> p v)"

definition row_selected :: "read_args \<Rightarrow> event_row \<Rightarrow> bool" where
  "row_selected a r \<longleftrightarrow> row_sequence r > after_sequence a
     \<and> clause (by_project_id a) (\<lambda>v. row_project_id r = v)
     \<and> clause (by_run_id a) (\<lambda>v. row_run_id r = Some v)
     \<and> clause (by_event_id a) (\<lambda>v. row_event_id r = v)
     \<and> clause (until_sequence a) (\<lambda>v. row_sequence r \<le> v)
     \<and> clause (event_types a) (\<lambda>ts. row_event_type r \<in> set ts)"

definition read_events :: "env \<Rightarrow> read_args \<Rightarrow> store \<Rightarrow> store_error + stored_event list" where
  "read_events env a s =
     bind_r (check_r (sequence_in_range (after_sequence a)) (ValueError (U ''after_sequence''))) (\<lambda>_.
     bind_r (check_r (page_size_ok (limit a)) (ValueError (U ''limit''))) (\<lambda>_.
     bind_r (validate_until_sequence (until_sequence a)) (\<lambda>_.
     bind_r (validate_event_types (event_types a)) (\<lambda>_.
     bind_r (check_r (bounded_identifier (by_project_id a)) (ValueError (U ''project_id''))) (\<lambda>_.
     bind_r (check_r (bounded_identifier (by_run_id a)) (ValueError (U ''run_id''))) (\<lambda>_.
     bind_r (check_r (bounded_identifier (by_event_id a)) (ValueError (U ''event_id''))) (\<lambda>_.
     if event_types a = Some [] then Inr []
     else
       let selected = List.filter (row_selected a) (rows_in_order s);
           ordered = (if newest_first a then rev selected else selected)
       in map_r (stored_event_from_row env) (take (nat (limit a)) ordered))))))))"


section \<open>Bounded pages\<close>

definition page_args :: "pystr \<Rightarrow> int \<Rightarrow> read_args" where
  "page_args project_id sequence = read_defaults\<lparr>after_sequence := sequence - 1,
     until_sequence := Some sequence, limit := 1, by_project_id := Some project_id\<rparr>"

text \<open>\<open>SELECT MAX(sequence) ... GROUP BY run_id HAVING head < ? ORDER BY head DESC LIMIT ?\<close>\<close>

definition run_heads :: "pystr \<Rightarrow> int \<Rightarrow> int \<Rightarrow> int \<Rightarrow> store \<Rightarrow> int list" where
  "run_heads project_id before until lim s =
     (let rows = List.filter (\<lambda>r. row_project_id r = project_id \<and> row_run_id r \<noteq> None \<and> row_sequence r \<le> until)
            (db_events s);
          heads = List.map (\<lambda>run. max_or 0 (List.map row_sequence (List.filter (\<lambda>r. row_run_id r = run) rows)))
            (remdups (List.map row_run_id rows));
          bound = (if before \<noteq> 0 then before else until + 1)
      in take (nat lim) (rev (sort (List.filter (\<lambda>h. h < bound) heads))))"

definition list_run_heads_page ::
  "env \<Rightarrow> pystr \<Rightarrow> int \<Rightarrow> int \<Rightarrow> int \<Rightarrow> store \<Rightarrow> store_error + stored_event list" where
  "list_run_heads_page env project_id before until lim s =
     bind_r (check_r (page_size_ok lim \<and> 0 \<le> before \<and> 0 \<le> until) (ValueError (U ''invalid run page bounds''))) (\<lambda>_.
     bind_r (map_r (\<lambda>h. read_events env (page_args project_id h) s) (run_heads project_id before until lim s))
       (\<lambda>pages. Inr (concat pages)))"

text \<open>\<open>json_extract\<close> along member names.\<close>

fun json_path :: "pystr list \<Rightarrow> pyval \<Rightarrow> pyval option" where
  "json_path [] v = Some v"
| "json_path (k # ks) v = (case v of PyDict d \<Rightarrow> Option.bind (dict_get k d) (json_path ks) | _ \<Rightarrow> None)"

definition event_json_at :: "env \<Rightarrow> pystr list \<Rightarrow> event_row \<Rightarrow> pyval option" where
  "event_json_at env path r = Option.bind (json_loads (env_float env) (row_event_json r)) (json_path path)"

definition is_text :: "pyval option \<Rightarrow> bool" where
  "is_text v = (case v of Some (PyStr _) \<Rightarrow> True | _ \<Rightarrow> False)"

definition revision_groups :: "env \<Rightarrow> pystr \<Rightarrow> int \<Rightarrow> int \<Rightarrow> int \<Rightarrow> store \<Rightarrow> (pyval option \<times> int) list" where
  "revision_groups env project_id after until lim s =
     (let rows = List.filter (\<lambda>r. row_project_id r = project_id \<and> row_sequence r \<le> until
              \<and> row_event_type r = U ''run.queued''
              \<and> is_text (event_json_at env [U ''data'', U ''payload'', U ''specDigest''] r)) (rows_in_order s);
          revision = event_json_at env [U ''data'', U ''experimentRevision''];
          groups = List.map (\<lambda>v. (v, row_sequence (hd (List.filter (\<lambda>r. revision r = v) rows))))
            (remdups (List.map revision rows))
      in take (nat lim) (sort_key snd (List.filter (\<lambda>(_, first_seen). first_seen > after) groups)))"

definition payload_get :: "pystr \<Rightarrow> research_event \<Rightarrow> pyval option" where
  "payload_get k e = (case ed_payload (e_data e) of PyDict d \<Rightarrow> dict_get k d | _ \<Rightarrow> None)"

definition revision_record ::
  "pystr \<Rightarrow> pyval option \<Rightarrow> int \<Rightarrow> stored_event list \<Rightarrow> store_error + spec_revision_record list" where
  "revision_record project_id revision sequence facts = (case facts of
     [] \<Rightarrow> Inr []
   | f # _ \<Rightarrow> (case payload_get (U ''specDigest'') (st_event f) of
        Some (PyStr digest) \<Rightarrow>
          if fullmatch SEMANTIC_DIGEST_PATTERN digest
          then (case revision of
              Some (PyInt n) \<Rightarrow> Inr [\<lparr>sr_project_id = project_id, sr_revision = n,
                  sr_spec_digest = digest, sr_first_seen_sequence = sequence\<rparr>]
            | _ \<Rightarrow> Inl (ValueError (U ''revision'')))
          else Inr []
      | _ \<Rightarrow> Inr []))"

definition list_spec_revisions_page ::
  "env \<Rightarrow> pystr \<Rightarrow> int \<Rightarrow> int \<Rightarrow> int \<Rightarrow> store \<Rightarrow> store_error + spec_revision_record list" where
  "list_spec_revisions_page env project_id after until lim s =
     bind_r (check_r (page_size_ok lim \<and> 0 \<le> after \<and> 0 \<le> until) (ValueError (U ''invalid revision page bounds''))) (\<lambda>_.
     bind_r (map_r (\<lambda>(revision, sequence).
         bind_r (read_events env (page_args project_id sequence) s) (revision_record project_id revision sequence))
       (revision_groups env project_id after until lim s))
       (\<lambda>records. Inr (concat records)))"

text \<open>The text atoms \<open>json_tree\<close> lists, and the text values \<open>json_each\<close> lists.\<close>

fun text_atoms :: "pyval \<Rightarrow> pystr list" where
  "text_atoms (PyStr t) = [t]"
| "text_atoms (PyList vs) = concat (List.map text_atoms vs)"
| "text_atoms (PyDict d) = concat (List.map (\<lambda>(_, v). text_atoms v) d)"
| "text_atoms _ = []"

fun each_texts :: "pyval \<Rightarrow> pystr list" where
  "each_texts (PyStr t) = [t]"
| "each_texts (PyList vs) = concat (List.map (\<lambda>v. case v of PyStr t \<Rightarrow> [t] | _ \<Rightarrow> []) vs)"
| "each_texts (PyDict d) = concat (List.map (\<lambda>(_, v). case v of PyStr t \<Rightarrow> [t] | _ \<Rightarrow> []) d)"
| "each_texts _ = []"

definition row_references :: "env \<Rightarrow> pystr \<Rightarrow> event_row \<Rightarrow> bool" where
  "row_references env digest r \<longleftrightarrow>
     (case event_json_at env [U ''data'', U ''payload''] r of None \<Rightarrow> False | Some v \<Rightarrow> digest \<in> set (text_atoms v))
     \<or> (case event_json_at env [U ''data'', U ''evidenceRefs''] r of None \<Rightarrow> False | Some v \<Rightarrow> digest \<in> set (each_texts v))"

definition read_artifact_reference_events ::
  "env \<Rightarrow> pystr \<Rightarrow> pystr \<Rightarrow> int \<Rightarrow> store \<Rightarrow> store_error + stored_event list" where
  "read_artifact_reference_events env project_id digest lim s =
     bind_r (check_r (page_size_ok lim) (ValueError (U ''invalid reference page limit''))) (\<lambda>_.
     map_r (stored_event_from_row env) (take (nat lim)
       (List.filter (\<lambda>r. row_project_id r = project_id \<and> row_references env digest r) (rows_in_order s))))"

section \<open>Integrity\<close>

text \<open>One row of the scan: the state is the next expected sequence and the last digest.\<close>

definition verify_row ::
  "env \<Rightarrow> int \<times> pystr option \<Rightarrow> event_row \<Rightarrow> store_error + int \<times> pystr option" where
  "verify_row env st r = bind_r (stored_event_from_row env r) (\<lambda>stored.
     if stored_sequence stored \<noteq> fst st
     then Inl (EventIntegrityError (NotContiguous (fst st) (Some (stored_sequence stored))))
     else Inr (fst st + 1, Some (st_digest stored)))"

definition verify_integrity :: "env \<Rightarrow> pydatetime \<Rightarrow> store \<Rightarrow> store_error + store \<times> int" where
  "verify_integrity env now s =
     bind_r (verify_schema env s) (\<lambda>_.
     bind_r (check_r (db_integrity_check (db_report s) = [U ''ok''])
       (EventIntegrityError (SqliteIntegrity (db_integrity_check (db_report s))))) (\<lambda>_.
     bind_r (fold_r (verify_row env) (1, None) (rows_in_order s)) (\<lambda>(expected, last_digest).
     let count = expected - 1 in
     if writable s
     then bind_r (recorded_timestamp now) (\<lambda>stamp.
       bind_r (replace_checkpoint env count last_digest count stamp s) (\<lambda>s'. Inr (s', count)))
     else Inr (s, count))))"

definition live_head_fingerprint :: "env \<Rightarrow> store \<Rightarrow> store_error + integrity_checkpoint" where
  "live_head_fingerprint env s =
     (let sequence = last_sequence s;
          fingerprint = (\<lambda>d. \<lparr>high_water = sequence, last_event_digest = d,
            cp_schema_digest = SCHEMA_DEFINITION_DIGEST (env_sha env), verified_event_count = sequence\<rparr>)
      in if sequence = 0 then Inr (fingerprint None)
         else (case find_first (\<lambda>r. row_sequence r = sequence) (db_events s) of
             None \<Rightarrow> Inl (EventIntegrityError (NotContiguous sequence None))
           | Some r \<Rightarrow> Inr (fingerprint (Some (row_event_digest r)))))"

definition freeze_high_water :: "env \<Rightarrow> pydatetime \<Rightarrow> store \<Rightarrow> store_error + store \<times> int" where
  "freeze_high_water env now s =
     bind_r (verify_schema env s) (\<lambda>_.
     bind_r (live_head_fingerprint env s) (\<lambda>live.
     if read_checkpoint s = Some live then Inr (s, high_water live)
     else verify_integrity env now s))"

section \<open>Opening\<close>

text \<open>\<open>_create_schema\<close> inside its transaction; another creator may have committed first.\<close>

definition create_schema :: "env \<Rightarrow> pydatetime \<Rightarrow> store \<Rightarrow> store_error + store" where
  "create_schema env now s =
     bind_r (recorded_timestamp now) (\<lambda>applied_at.
     bind_r (check_r (writable s) SqliteError) (\<lambda>_.
     let r = db_report s in
     if db_application_id r = APPLICATION_ID \<and> db_definitions r \<noteq> [] then Inr s
     else if db_application_id r \<noteq> 0 \<or> db_definitions r \<noteq> []
     then Inl (EventStoreSchemaError (U ''database is not an LLM Research OS event store''))
     else
       let s1 = s\<lparr>db_report := r\<lparr>db_definitions := EXPECTED_SCHEMA_DEFINITIONS,
             db_migrations := expected_migration_history (env_sha env)\<rparr>\<rparr>
       in bind_r (replace_checkpoint env 0 None 0 applied_at s1) (\<lambda>s2.
          Inr (s2\<lparr>db_report := (db_report s2)\<lparr>db_application_id := APPLICATION_ID, db_user_version := SCHEMA_VERSION\<rparr>\<rparr>))))"

definition upgrade_schema :: "env \<Rightarrow> pydatetime \<Rightarrow> store \<Rightarrow> store_error + store" where
  "upgrade_schema env now s =
     (let r = db_report s in
      if db_user_version r = SCHEMA_VERSION then Inr s
      else if db_user_version r \<noteq> 1 then Inl (EventStoreSchemaError (U ''unsupported event-store header''))
      else if \<not> writable s
      then Inl (EventStoreSchemaError (U ''schema version 1 requires a writable open to apply migration 2''))
      else if \<not> same_set (List.map fst (db_definitions r)) (List.map fst V1_EXPECTED_SCHEMA_DEFINITIONS)
      then Inl (EventStoreSchemaError (U ''event-store schema objects do not match version 1''))
      else if \<not> same_dict (db_definitions r) V1_EXPECTED_SCHEMA_DEFINITIONS
      then Inl (EventStoreSchemaError (U ''event-store SQL definitions do not match version 1''))
      else bind_r (recorded_timestamp now) (\<lambda>applied_at.
        replace_checkpoint env 0 None 0 applied_at (s\<lparr>db_report := r\<lparr>
          db_definitions := db_definitions r @ definitions_for (mg_statements V2_MIGRATION),
          db_migrations := db_migrations r @ [(mg_version V2_MIGRATION, mg_name V2_MIGRATION,
            migration_digest (env_sha env) V2_MIGRATION)],
          db_user_version := SCHEMA_VERSION\<rparr>\<rparr>)))"

definition initialize_or_verify_schema :: "env \<Rightarrow> pydatetime \<Rightarrow> bool \<Rightarrow> store \<Rightarrow> store_error + store" where
  "initialize_or_verify_schema env now allow_create s =
     (let application_id = db_application_id (db_report s) in
      bind_r (if application_id = 0
          then (if \<not> allow_create
            then Inl (EventStoreSchemaError (U ''database is not an initialized LLM Research OS event store''))
            else create_schema env now s)
          else if application_id \<noteq> APPLICATION_ID
          then Inl (EventStoreSchemaError (U ''database is not an LLM Research OS event store''))
          else upgrade_schema env now s) (\<lambda>s1.
      bind_r (verify_schema env s1) (\<lambda>_.
      if read_checkpoint s1 = None
      then bind_r (verify_integrity env now s1) (\<lambda>(s2, _). Inr s2)
      else Inr s1)))"

section \<open>Query tables\<close>

definition get_run_projection :: "pystr \<Rightarrow> pystr \<Rightarrow> store \<Rightarrow> run_projection_record option" where
  "get_run_projection project_id run_id s =
     find_first (\<lambda>r. rp_project_id r = project_id \<and> rp_run_id r = run_id) (db_run_projections s)"

definition read_only_projection :: store_error where
  "read_only_projection = EventStoreError (U ''run projections cannot be written on a read-only store'')"

definition same_projection_key :: "run_projection_record \<Rightarrow> run_projection_record \<Rightarrow> bool" where
  "same_projection_key a b \<longleftrightarrow> rp_project_id a = rp_project_id b \<and> rp_run_id a = rp_run_id b"

definition upsert_run_projection :: "env \<Rightarrow> run_projection_record \<Rightarrow> store \<Rightarrow> store_error + store" where
  "upsert_run_projection env r s =
     (if \<not> writable s then Inl read_only_projection
      else if \<not> run_projections_check env r
      then Inl (EventStoreError (U ''could not write the run projection cache''))
      else if list_ex (same_projection_key r) (db_run_projections s)
      then Inr (s\<lparr>db_run_projections := List.map (\<lambda>q. if same_projection_key r q then r else q) (db_run_projections s)\<rparr>)
      else Inr (s\<lparr>db_run_projections := db_run_projections s @ [r]\<rparr>))"

definition delete_run_projection :: "pystr \<Rightarrow> pystr \<Rightarrow> store \<Rightarrow> store_error + store" where
  "delete_run_projection project_id run_id s =
     (if \<not> writable s then Inl read_only_projection
      else Inr (s\<lparr>db_run_projections := List.filter
        (\<lambda>r. \<not> (rp_project_id r = project_id \<and> rp_run_id r = run_id)) (db_run_projections s)\<rparr>))"

definition list_spec_revisions :: "store \<Rightarrow> spec_revision_record list" where
  "list_spec_revisions s =
     sort_key (\<lambda>r. (sr_first_seen_sequence r, sr_project_id r, sr_revision r)) (db_spec_revisions s)"

definition list_artifact_index :: "store \<Rightarrow> artifact_index_record list" where
  "list_artifact_index s = sort_key (\<lambda>r. (ai_first_seen_sequence r, ai_digest r)) (db_artifacts s)"

definition list_artifact_links :: "store \<Rightarrow> artifact_link_record list" where
  "list_artifact_links s = sort_key (\<lambda>r. (al_event_sequence r, al_role r, al_digest r)) (db_artifact_links s)"

definition list_artifact_links_page ::
  "pystr \<Rightarrow> int \<Rightarrow> int \<Rightarrow> store \<Rightarrow> store_error + artifact_link_record list" where
  "list_artifact_links_page digest after lim s =
     bind_r (require_content_digest digest) (\<lambda>candidate.
     bind_r (check_r (sequence_in_range after) (ValueError (U ''after_sequence''))) (\<lambda>_.
     bind_r (check_r (page_size_ok lim) (ValueError (U ''limit''))) (\<lambda>_.
     Inr (take (nat lim) (sort_key (\<lambda>r. (al_event_sequence r, al_role r))
       (List.filter (\<lambda>r. al_digest r = candidate \<and> al_event_sequence r > after) (db_artifact_links s)))))))"

text \<open>The primary keys of the four tables, and the foreign key of the links.  A row that
  breaks a constraint raises inside the transaction, which is rolled back.\<close>

definition query_tables_ok :: "env \<Rightarrow> spec_revision_record list \<Rightarrow> artifact_index_record list \<Rightarrow>
    artifact_link_record list \<Rightarrow> run_projection_record list \<Rightarrow> bool" where
  "query_tables_ok env specs artifacts links runs \<longleftrightarrow>
     list_all spec_revisions_check specs \<and> distinct (List.map (\<lambda>r. (sr_project_id r, sr_revision r)) specs)
     \<and> list_all artifacts_check artifacts \<and> distinct (List.map ai_digest artifacts)
     \<and> list_all artifact_links_check links
     \<and> distinct (List.map (\<lambda>r. (al_digest r, al_event_sequence r, al_role r)) links)
     \<and> list_all (\<lambda>l. al_digest l \<in> set (List.map ai_digest artifacts)) links
     \<and> list_all (run_projections_check env) runs \<and> distinct (List.map (\<lambda>r. (rp_project_id r, rp_run_id r)) runs)"

definition replace_query_tables :: "env \<Rightarrow> spec_revision_record list \<Rightarrow> artifact_index_record list \<Rightarrow>
    artifact_link_record list \<Rightarrow> run_projection_record list \<Rightarrow> store \<Rightarrow> store_error + store" where
  "replace_query_tables env specs artifacts links runs s =
     (if \<not> writable s then Inl (EventStoreError (U ''query tables cannot be written on a read-only store''))
      else if \<not> query_tables_ok env specs artifacts links runs then Inl SqliteError
      else Inr (s\<lparr>db_spec_revisions := specs, db_artifacts := artifacts, db_artifact_links := links,
        db_run_projections := runs\<rparr>))"

end
