(* ===== verification/Event_Json.thy ===== *)
theory Event_Json
  imports Event_Store
begin

text \<open>
  Events and their canonical JSON: sorting the keys of a document changes what
  \<open>validate_event_document\<close> reads only in the order of the payload's keys; a validated
  document can be written; and what is written is read back.
\<close>

section \<open>Sorting keys does not change what is read\<close>

definition norm_dict :: "pydict \<Rightarrow> pydict" where
  "norm_dict d = sort_key fst (List.map (\<lambda>(k, v). (k, norm v)) d)"

lemma norm_PyDict: "norm (PyDict d) = PyDict (norm_dict d)"
  by (simp add: norm_dict_def)

lemma set_norm_dict: "set (norm_dict d) = (\<lambda>(k, v). (k, norm v)) ` set d"
  by (simp add: norm_dict_def)

lemma distinct_norm_dict: "distinct (List.map fst d) \<Longrightarrow> distinct (List.map fst (norm_dict d))"
proof -
  assume d: "distinct (List.map fst d)"
  have "set (List.map fst (norm_dict d)) = set (List.map fst d)" by (force simp: set_norm_dict)
  moreover have "length (norm_dict d) = length d" by (simp add: norm_dict_def)
  ultimately show ?thesis using d by (metis card_distinct distinct_card length_map)
qed

lemma dict_get_norm:
  assumes "distinct (List.map fst d)"
  shows "dict_get k (norm_dict d) = map_option norm (dict_get k d)"
proof (cases "dict_get k d")
  case None
  then have "KStr k \<notin> fst ` set (norm_dict d)"
    by (auto simp: dict_get_def map_of_eq_None_iff set_norm_dict image_iff)
  then have "dict_get k (norm_dict d) = None" by (simp only: dict_get_def map_of_eq_None_iff not_False_eq_True)
  with None show ?thesis by simp
next
  case (Some v)
  then have "(KStr k, v) \<in> set d" by (simp add: dict_get_def map_of_SomeD)
  then have "(KStr k, norm v) \<in> set (norm_dict d)" by (force simp: set_norm_dict)
  with Some distinct_norm_dict[OF assms] show ?thesis by (simp add: dict_get_def)
qed

lemma only_keys_norm: "only_keys ks (norm_dict d) = only_keys ks d"
  by (auto simp: only_keys_def list_all_iff set_norm_dict)

definition blind :: "(pyval \<Rightarrow> 'a option) \<Rightarrow> bool" where
  "blind dec \<longleftrightarrow> (\<forall>v. keys_distinct v \<longrightarrow> dec (norm v) = dec v)"

lemma as_scalar_norm [simp]:
  "as_str (norm v) = as_str v" "as_int (norm v) = as_int v" "as_bool (norm v) = as_bool v"
  by (cases v; simp)+

lemma norm_None_iff [simp]: "norm v = PyNone \<longleftrightarrow> v = PyNone"
  by (cases v) auto

lemma blind_scalar: "blind as_str" "blind as_int" "blind as_bool"
  by (simp_all add: blind_def)

lemma blind_nullable: "blind dec \<Longrightarrow> blind (nullable_of dec)"
  by (auto simp: blind_def nullable_of_def)

lemma blind_bind: "blind dec \<Longrightarrow> blind (\<lambda>v. Option.bind (dec v) f)"
  by (auto simp: blind_def)

lemma blind_list_of: "blind dec \<Longrightarrow> blind (\<lambda>v. Option.bind (as_list v) (map_o dec))"
proof -
  assume b: "blind dec"
  have "map_o dec (List.map norm vs) = map_o dec vs" if "list_all keys_distinct vs" for vs
    using that b by (induction vs) (auto simp: blind_def split: option.split)
  then show ?thesis unfolding blind_def by (auto, case_tac v) auto
qed

lemma keys_distinct_member:
  "keys_distinct (PyDict d) \<Longrightarrow> dict_get k d = Some v \<Longrightarrow> keys_distinct v"
  by (auto simp: dict_get_def list_all_iff dest!: map_of_SomeD)

lemma req_field_norm:
  "keys_distinct (PyDict d) \<Longrightarrow> blind dec \<Longrightarrow> req_field (norm_dict d) k dec = req_field d k dec"
  by (auto simp: req_field_def dict_get_norm blind_def keys_distinct_member split: option.split)

lemma opt_field_norm:
  "keys_distinct (PyDict d) \<Longrightarrow> blind dec \<Longrightarrow> opt_field (norm_dict d) k x dec = opt_field d k x dec"
  by (auto simp: opt_field_def dict_get_norm blind_def keys_distinct_member split: option.split)

lemma blind_dict:
  assumes "\<And>v. (\<forall>d. v \<noteq> PyDict d) \<Longrightarrow> f v = None"
    "\<And>d. keys_distinct (PyDict d) \<Longrightarrow> f (PyDict (norm_dict d)) = f (PyDict d)"
  shows "blind f"
  unfolding blind_def
proof (intro allI impI)
  fix v assume "keys_distinct v"
  then show "f (norm v) = f v"
    by (cases "\<exists>d. v = PyDict d") (use assms in \<open>auto simp: norm_PyDict simp del: norm.simps(2)\<close>, cases v, auto)
qed

lemma blind_as_dict:
  assumes "\<And>v. as_dict v = None \<Longrightarrow> f v = None"
    "\<And>d. keys_distinct (PyDict d) \<Longrightarrow> f (PyDict (norm_dict d)) = f (PyDict d)"
  shows "blind f"
  using assms(2) by (intro blind_dict assms(1)) (case_tac v; simp)

lemmas field_norm = req_field_norm opt_field_norm blind_scalar blind_nullable blind_bind blind_list_of only_keys_norm

lemma blind_decode_actor: "blind decode_actor"
proof (rule blind_dict)
  show "decode_actor v = None" if "\<forall>d. v \<noteq> PyDict d" for v
    using that by (cases v) (auto simp: decode_actor_def)
  show "decode_actor (PyDict (norm_dict d)) = decode_actor (PyDict d)" if "keys_distinct (PyDict d)" for d
    using that by (simp add: decode_actor_def field_norm)
qed

section \<open>Payloads\<close>

lemma json_dumpable_norm [simp]: "json_dumpable (norm v) = json_dumpable v"
proof (induction v)
  case (PyDict d)
  then have "json_dumpable (norm (snd kv)) = json_dumpable (snd kv)" if "kv \<in> set d" for kv
    using that PyDict.IH[of kv "snd kv"] by (cases kv) auto
  then show ?case by (fastforce simp: list_all_iff)
qed (auto simp: list_all_iff)

lemma payload_tree_ok_norm [simp]: "payload_tree_ok (norm v) = payload_tree_ok v"
proof (induction v)
  case (PyDict d)
  then have "payload_tree_ok (norm (snd kv)) = payload_tree_ok (snd kv)" if "kv \<in> set d" for kv
    using that PyDict.IH[of kv "snd kv"] by (cases kv) auto
  then show ?case by (fastforce simp: list_all_iff)
qed (auto simp: list_all_iff)

lemma require_event_payload_norm_dict:
  "require_event_payload (PyDict (norm_dict d)) = require_event_payload (PyDict d)"
proof -
  have "walk_payload [PyDict (norm_dict d)] = walk_payload [PyDict d]"
    using payload_tree_ok_norm[of "PyDict d"]
    by (simp only: walk_payload_iff norm_PyDict list.pred_inject)
  moreover have "json_dumpable (PyDict (norm_dict d)) = json_dumpable (PyDict d)"
    using json_dumpable_norm[of "PyDict d"] by (simp only: norm_PyDict)
  ultimately show ?thesis by (simp only: require_event_payload_def pyval.case)
qed

lemma require_event_payload_norm [simp]: "require_event_payload (norm v) = require_event_payload v"
proof (cases v)
  case (PyDict d)
  then show ?thesis using require_event_payload_norm_dict[of d] by (simp only: norm_PyDict)
qed (auto simp: require_event_payload_def)

lemma decode_payload_norm: "decode_payload (norm v) = map_option norm (decode_payload v)"
proof (cases v)
  case (PyDict d)
  then show ?thesis using require_event_payload_norm_dict[of d]
    by (simp add: decode_payload_def keep_o_def norm_PyDict del: norm.simps)
qed (auto simp: decode_payload_def)

definition norm_event :: "research_event \<Rightarrow> research_event" where
  "norm_event e = e\<lparr>e_data := (e_data e)\<lparr>ed_payload := norm (ed_payload (e_data e))\<rparr>\<rparr>"

definition norm_data :: "research_event_data \<Rightarrow> research_event_data" where
  "norm_data d = d\<lparr>ed_payload := norm (ed_payload d)\<rparr>"

lemma event_data_valid_norm [simp]: "event_data_valid (norm_data d) = event_data_valid d"
  by (simp add: event_data_valid_def norm_data_def)

lemma research_event_valid_norm [simp]: "research_event_valid (norm_event e) = research_event_valid e"
  by (simp add: research_event_valid_def norm_event_def event_data_valid_def)


section \<open>Documents\<close>

lemma decode_event_data_norm:
  assumes "keys_distinct v"
  shows "decode_event_data (norm v) = map_option norm_data (decode_event_data v)"
proof (cases v)
  case (PyDict d)
  have p: "req_field (norm_dict d) k decode_payload = map_option norm (req_field d k decode_payload)" for k
    using assms PyDict by (auto simp: req_field_def dict_get_norm decode_payload_norm split: option.split)
  have k: "keep_o event_data_valid (norm_data x) = map_option norm_data (keep_o event_data_valid x)" for x
    by (simp add: keep_o_def)
  have b: "Option.bind (map_option norm m) f = Option.bind m (\<lambda>p. f (norm p))" for m and f :: "_ \<Rightarrow> 'z option"
    by (cases m) auto
  have m: "map_option norm_data (Option.bind x f) = Option.bind x (\<lambda>y. map_option norm_data (f y))"
    for x :: "'z option" and f by (cases x) auto
  show ?thesis using assms PyDict k[of "\<lparr>ed_schema_version = _, ed_actor = _, ed_project_id = _,
       ed_experiment_revision = _, ed_run_id = _, ed_attempt_id = _, ed_block_id = _,
       ed_payload = _, ed_evidence_refs = _\<rparr>"]
    by (simp add: norm_PyDict decode_event_data_def field_norm blind_decode_actor p b m norm_data_def del: norm.simps)
qed (auto simp: decode_event_data_def)


lemma validate_event_document_norm:
  assumes "keys_distinct v"
  shows "validate_event_document (norm v) = map_option norm_event (validate_event_document v)"
proof (cases v)
  case (PyDict d)
  have p: "req_field (norm_dict d) k decode_event_data = map_option norm_data (req_field d k decode_event_data)" for k
    using assms PyDict keys_distinct_member[of d k]
    by (auto simp: req_field_def dict_get_norm decode_event_data_norm split: option.split)
  have k: "keep_o research_event_valid (norm_event x) = map_option norm_event (keep_o research_event_valid x)" for x
    by (simp add: keep_o_def)
  have b: "Option.bind (map_option norm_data m) f = Option.bind m (\<lambda>p. f (norm_data p))" for m and f :: "_ \<Rightarrow> 'z option"
    by (cases m) auto
  have m: "map_option norm_event (Option.bind x f) = Option.bind x (\<lambda>y. map_option norm_event (f y))"
    for x :: "'z option" and f by (cases x) auto
  show ?thesis using assms PyDict k[of "\<lparr>e_specversion = _, e_id = _, e_source = _, e_type = _,
       e_time = _, e_subject = _, e_dataschema = _, e_datacontenttype = _, e_data = _,
       e_sequence = _, e_sequencetype = _, e_streamid = _, e_streamversion = _,
       e_correlationid = _, e_causationid = _\<rparr>"]
    by (simp add: norm_PyDict validate_event_document_def field_norm p b m norm_event_def norm_data_def del: norm.simps)
qed (auto simp: validate_event_document_def)

section \<open>A validated document can be written\<close>

definition dumpable_at :: "pydict \<Rightarrow> pystr \<Rightarrow> bool" where
  "dumpable_at d k \<longleftrightarrow> (\<forall>w. dict_get k d = Some w \<longrightarrow> json_dumpable w)"

lemma json_dumpable_dictI:
  assumes "only_keys ks d" "distinct (List.map fst d)" "list_all utf8_ok ks" "list_all (dumpable_at d) ks"
  shows "json_dumpable (PyDict d)"
proof -
  have "(case k of KStr s \<Rightarrow> utf8_ok s | KOther _ \<Rightarrow> False) \<and> json_dumpable v" if kv: "(k, v) \<in> set d" for k v
  proof -
    from kv assms(1) obtain s where s: "k = KStr s" "s \<in> set ks"
      by (cases k) (auto simp: only_keys_def list_all_iff List.member_iff)
    moreover have "dict_get s d = Some v" using kv s assms(2) by (simp add: dict_get_def)
    ultimately show ?thesis using assms(3,4) by (auto simp: list_all_iff dumpable_at_def)
  qed
  then show ?thesis by (auto simp: list_all_iff)
qed

lemma scalar_dumpable:
  "as_str v = Some x \<Longrightarrow> json_dumpable v" "as_int v = Some i \<Longrightarrow> json_dumpable v"
  by (cases v; auto split: if_splits)+

lemma list_dumpable: "map_o as_str vs = Some xs \<Longrightarrow> json_dumpable (PyList vs)"
  by (auto simp: map_o_Some_iff list_all2_conv_all_nth list_all_length dest: scalar_dumpable)

lemma req_dumpable:
  "req_field d k dec = Some x \<Longrightarrow> (\<And>v. dict_get k d = Some v \<Longrightarrow> dec v = Some x \<Longrightarrow> json_dumpable v) \<Longrightarrow> dumpable_at d k"
  by (auto simp: req_field_def dumpable_at_def split: option.splits)

lemma opt_dumpable:
  "opt_field d k y dec = Some x \<Longrightarrow> (\<And>v. dict_get k d = Some v \<Longrightarrow> dec v = Some x \<Longrightarrow> json_dumpable v) \<Longrightarrow> dumpable_at d k"
  by (auto simp: opt_field_def dumpable_at_def split: option.splits)

lemma field_dumpable:
  "req_field d k as_str = Some s \<Longrightarrow> dumpable_at d k"
  "req_field d k as_int = Some i \<Longrightarrow> dumpable_at d k"
  "opt_field d k None (nullable_of as_str) = Some z \<Longrightarrow> dumpable_at d k"
  "opt_field d k None (nullable_of (\<lambda>v. Option.bind (as_str v) f)) = Some w \<Longrightarrow> dumpable_at d k"
  "req_field d k (\<lambda>v. Option.bind (as_list v) (map_o as_str)) = Some ss \<Longrightarrow> dumpable_at d k"
  "req_field d k decode_payload = Some p \<Longrightarrow> dumpable_at d k"
proof -
  show "req_field d k as_str = Some s \<Longrightarrow> dumpable_at d k" by (erule req_dumpable) (rule scalar_dumpable)
  show "req_field d k as_int = Some i \<Longrightarrow> dumpable_at d k" by (erule req_dumpable) (rule scalar_dumpable)
  show "opt_field d k None (nullable_of as_str) = Some z \<Longrightarrow> dumpable_at d k"
    by (erule opt_dumpable) (auto simp: nullable_of_def split: if_splits intro: scalar_dumpable)
  show "opt_field d k None (nullable_of (\<lambda>v. Option.bind (as_str v) f)) = Some w \<Longrightarrow> dumpable_at d k"
    by (erule opt_dumpable)
      (auto simp: nullable_of_def Option.bind_eq_Some_conv split: if_splits intro: scalar_dumpable)
  show "req_field d k (\<lambda>v. Option.bind (as_list v) (map_o as_str)) = Some ss \<Longrightarrow> dumpable_at d k"
    by (erule req_dumpable) (case_tac v; auto simp: Option.bind_eq_Some_conv dest!: list_dumpable)
  show "req_field d k decode_payload = Some p \<Longrightarrow> dumpable_at d k"
    by (erule req_dumpable) (case_tac v; auto simp: decode_payload_def require_event_payload_def)
qed

lemma decode_actor_dumpable: "decode_actor v = Some a \<Longrightarrow> keys_distinct v \<Longrightarrow> json_dumpable v"
  by (cases v) (auto simp: decode_actor_def Option.bind_eq_Some_conv simp del: json_dumpable.simps
    intro!: json_dumpable_dictI intro: field_dumpable)

lemma decode_event_data_dumpable:
  assumes "decode_event_data v = Some a" "keys_distinct v" shows "json_dumpable v"
proof (cases v)
  case (PyDict d)
  have "req_field d k decode_actor = Some x \<Longrightarrow> dumpable_at d k" for k x
    using assms(2) PyDict by (erule_tac req_dumpable) (blast intro: decode_actor_dumpable keys_distinct_member)
  then show ?thesis using assms PyDict
    by (auto simp: decode_event_data_def Option.bind_eq_Some_conv simp del: json_dumpable.simps
      intro!: json_dumpable_dictI intro: field_dumpable)
qed (use assms in \<open>auto simp: decode_event_data_def\<close>)

lemma validated_dumpable:
  assumes "validate_event_document v = Some a" "keys_distinct v" shows "json_dumpable v"
proof (cases v)
  case (PyDict d)
  have "req_field d k decode_event_data = Some x \<Longrightarrow> dumpable_at d k" for k x
    using assms(2) PyDict by (erule_tac req_dumpable) (blast intro: decode_event_data_dumpable keys_distinct_member)
  then show ?thesis using assms PyDict
    by (auto simp: validate_event_document_def Option.bind_eq_Some_conv simp del: json_dumpable.simps
      intro!: json_dumpable_dictI intro: field_dumpable)
qed (use assms in \<open>auto simp: validate_event_document_def\<close>)

section \<open>Written text\<close>

definition ascii :: "pystr \<Rightarrow> bool" where
  "ascii s \<longleftrightarrow> list_all (\<lambda>c. c < 128) s"

lemma ascii_simps [simp]:
  "ascii []" "ascii (c # s) \<longleftrightarrow> c < 128 \<and> ascii s" "ascii (s @ t) \<longleftrightarrow> ascii s \<and> ascii t"
  by (simp_all add: ascii_def)

lemma ascii_utf8: "ascii s \<Longrightarrow> utf8_ok s"
  by (auto simp: ascii_def utf8_ok_def is_surrogate_def list_all_iff)

lemma ascii_digits: "list_all is_digit s \<Longrightarrow> ascii s"
  by (auto simp: ascii_def is_digit_def list_all_iff)

lemma ascii_takeWhile [simp]: "ascii (takeWhile is_digit s)"
  by (rule ascii_digits) (auto simp: list_all_iff dest: set_takeWhileD)

lemma scan_int_ascii: "scan_int s = Some (i, r) \<Longrightarrow> ascii i"
  unfolding scan_int_def by (cases s) (auto split: if_splits simp del: takeWhile.simps)

lemma scan_number_ascii:
  assumes "scan_number s = Some (p, r)" shows "ascii (fst p @ snd p)"
proof -
  obtain i s1 where 1: "scan_signed s = Some (i, s1)" using assms by (auto simp: scan_number_def split: option.splits)
  obtain f s2 where 2: "scan_frac s1 = (f, s2)" by fastforce
  obtain e s3 where 3: "scan_exp s2 = (e, s3)" by fastforce
  have "ascii i" using 1 by (auto simp: scan_signed_def dest: scan_int_ascii split: if_splits)
  moreover have "ascii f" using 2 by (auto simp: scan_frac_def split: if_splits)
  moreover have "ascii e" using 3
    by (auto simp: scan_exp_def exp_sign_def Let_def split: list.splits if_splits)
  moreover have "p = (i, f @ e)" using assms 1 2 3 by (simp add: scan_number_def)
  ultimately show ?thesis by simp
qed

lemma utf8_ok_Cons [simp]: "utf8_ok (c # s) \<longleftrightarrow> \<not> is_surrogate c \<and> utf8_ok s"
  by (simp add: utf8_ok_def)

lemma not_surrogate [simp]: "c < 0xD800 \<Longrightarrow> \<not> is_surrogate c"
  by (simp add: is_surrogate_def)

lemma utf8_ok_concat: "utf8_ok (concat xs) \<longleftrightarrow> list_all utf8_ok xs"
  by (induction xs) (simp_all add: utf8_ok_def)

lemma utf8_Nil [simp]: "utf8_ok []"
  by (simp add: utf8_ok_def)

lemma quote_char_utf8: "utf8_ok (quote_char c) \<longleftrightarrow> \<not> is_surrogate c"
proof (cases c rule: quote_char_cases)
  case (short e)
  have "c \<in> set (List.map snd [(34::nat, 34::nat), (92, 92), (47, 47), (98, 8), (102, 12), (110, 10), (114, 13), (116, 9)])
     \<and> e \<in> set (List.map fst [(34::nat, 34::nat), (92, 92), (47, 47), (98, 8), (102, 12), (110, 10), (114, 13), (116, 9)])"
    using short(3) by (auto simp: simple_escape_def split: if_splits)
  with short show ?thesis by (auto simp: is_surrogate_def)
next
  case control
  then have "hex_digit (c div 16) < 128" "hex_digit (c mod 16) < 128" by (auto simp: hex_digit_def)
  with control show ?thesis by (auto simp: is_surrogate_def)
qed auto

lemma quote_text_utf8: "utf8_ok (quote_text s) \<longleftrightarrow> utf8_ok s"
proof -
  have "utf8_ok (concat (List.map quote_char s)) \<longleftrightarrow> utf8_ok s"
    by (induction s) (simp_all add: quote_char_utf8)
  then show ?thesis by (simp add: quote_text_def)
qed

lemma join_commas_utf8: "list_all utf8_ok ts \<Longrightarrow> utf8_ok (join_commas ts)"
  by (induction ts rule: join_commas.induct) (simp_all add:)

lemma render_dumpable:
  "json_dumpable v \<Longrightarrow> floats_ok pf v \<Longrightarrow> \<exists>t. render v = Some t \<and> utf8_ok t"
proof (induction v)
  case (PyBool b)
  show ?case by simp
next
  case (PyInt i)
  have "ascii (int_text i)" by (simp add: int_text_def ascii_digits digits_of_digit)
  then show ?case by (simp add: ascii_utf8)
next
  case (PyFloat f)
  then obtain t where "f = FFin t" "float_text pf t" by (cases f) auto
  then show ?case by (auto elim!: float_textD dest: scan_number_ascii ascii_utf8)
next
  case (PyStr s)
  then show ?case by (simp add: quote_text_utf8)
next
  case (PyList vs)
  have "\<exists>ts. map_o render vs = Some ts \<and> list_all utf8_ok ts"
    if "\<And>v. v \<in> set vs \<Longrightarrow> \<exists>t. render v = Some t \<and> utf8_ok t" using that
  proof (induction vs)
    case (Cons v vs)
    from Cons.prems[of v] obtain t where "render v = Some t" "utf8_ok t" by auto
    moreover obtain ts where "map_o render vs = Some ts" "list_all utf8_ok ts" using Cons by auto
    ultimately show ?case by simp
  qed simp
  with PyList show ?case by (fastforce simp: list_all_iff join_commas_utf8)
next
  case (PyDict d)
  have ih: "\<exists>t. render (snd kv) = Some t \<and> utf8_ok t" if "kv \<in> set d" for kv
    using PyDict.IH[of kv "snd kv"] PyDict.prems that by (cases kv) (fastforce simp: list_all_iff)
  have "\<exists>ms. map_o member_render e = Some ms \<and> list_all (\<lambda>kt. utf8_ok (member_text kt)) ms"
    if "set e \<subseteq> set d" for e using that
  proof (induction e)
    case (Cons kv e)
    then obtain s where s: "fst kv = KStr s" "utf8_ok s"
      using PyDict.prems(1) by (cases kv; cases "fst kv") (auto simp: list_all_iff)
    from ih[of kv] Cons.prems obtain t where "render (snd kv) = Some t" "utf8_ok t" by auto
    moreover obtain ms where "map_o member_render e = Some ms" "list_all (\<lambda>kt. utf8_ok (member_text kt)) ms"
      using Cons by auto
    moreover have "member_render kv = Some (KStr s, t)"
      using s calculation(1) by (simp add: member_render_Some)
    ultimately show ?case using s by (simp add: member_text_def quote_text_utf8)
  qed simp
  then obtain ms where ms: "map_o member_render d = Some ms" "list_all (\<lambda>kt. utf8_ok (member_text kt)) ms"
    by auto
  then have "list_all utf8_ok (List.map member_text (sort_key fst ms))" by (auto simp: list_all_iff)
  from join_commas_utf8[OF this] ms(1) show ?case
    by (simp add: render_PyDict join_members_alt)
qed auto

lemma canonical_exists:
  assumes "json_dumpable v" "floats_ok pf v"
  obtains t where "legacy_canonical_json v = Some t" "render v = Some t"
  using render_dumpable[OF assms] by (auto simp: legacy_canonical_json_def)

lemma legacy_canonical_json_norm:
  "legacy_canonical_json v = Some t \<Longrightarrow> legacy_canonical_json (norm v) = Some t"
  by (auto simp: legacy_canonical_json_def Option.bind_eq_Some_conv render_norm)

end
