(* ===== verification/Event_Log.thy ===== *)
theory Event_Log
  imports Prelude "HOL-Library.Sublist"
begin

text \<open>
  The contract between the event store and the controls that append to it: a log that only
  grows, refused calls that change nothing, and an append whose precondition on the head
  makes concurrent writers exclude each other.
\<close>

locale event_log =
  fixes facts :: "'s \<Rightarrow> 'f list"
    and ok :: "'s \<Rightarrow> bool"
    and add :: "'s \<Rightarrow> 'd \<Rightarrow> int option \<Rightarrow> 's \<times> ('err + 'r)"
    and good :: "'d \<Rightarrow> bool"
    and fact_of :: "'r \<Rightarrow> 'f"
  assumes add_ok: "ok s \<Longrightarrow> good d \<Longrightarrow> ok (fst (add s d h))"
    and add_refused: "add s d h = (s', Inl e) \<Longrightarrow> s' = s"
    and add_committed: "ok s \<Longrightarrow> good d \<Longrightarrow> add s d h = (s', Inr r) \<Longrightarrow> facts s' = facts s @ [fact_of r]"
    and add_head: "ok s \<Longrightarrow> good d \<Longrightarrow> add s d (Some k) = (s', Inr r) \<Longrightarrow> k = int (length (facts s))"
begin

text \<open>A history: calls of any number of writers, one after the other.\<close>

definition calls :: "'s \<Rightarrow> ('d \<times> int option) list \<Rightarrow> 's" where
  "calls s cs = foldl (\<lambda>s (d, h). fst (add s d h)) s cs"

lemma calls_Cons [simp]: "calls s ((d, h) # cs) = calls (fst (add s d h)) cs"
  by (simp add: calls_def)

lemma calls_Nil [simp]: "calls s [] = s"
  by (simp add: calls_def)

lemma add_prefix:
  assumes "ok s" "good d"
  shows "prefix (facts s) (facts (fst (add s d h)))"
proof (cases "add s d h")
  case (Pair s' r)
  then show ?thesis using add_committed[OF assms] add_refused by (cases r) fastforce+
qed

lemma calls_ok: "ok s \<Longrightarrow> list_all (\<lambda>(d, _). good d) cs \<Longrightarrow> ok (calls s cs)"
  by (induction cs arbitrary: s) (auto simp: add_ok)

lemma calls_prefix:
  "ok s \<Longrightarrow> list_all (\<lambda>(d, _). good d) cs \<Longrightarrow> prefix (facts s) (facts (calls s cs))"
proof (induction cs arbitrary: s)
  case (Cons c cs)
  obtain d h where c: "c = (d, h)" by (cases c)
  have "prefix (facts s) (facts (fst (add s d h)))" by (rule add_prefix) (use Cons.prems c in auto)
  moreover have "prefix (facts (fst (add s d h))) (facts (calls (fst (add s d h)) cs))"
    by (rule Cons.IH) (use Cons.prems c in \<open>auto intro: add_ok\<close>)
  ultimately show ?case using c by simp
qed simp

text \<open>Two writers that looked at the same head: once one of them has committed, the other
  cannot, whatever happens in between.\<close>

lemma same_head_exclusive:
  assumes "ok s" "good d1" "add s d1 (Some h) = (s1, Inr r1)"
    "list_all (\<lambda>(d, _). good d) cs" "good d2"
  shows "\<exists>e. snd (add (calls s1 cs) d2 (Some h)) = Inl e"
proof (rule ccontr)
  assume "\<not> ?thesis"
  then obtain s2 r2 where 2: "add (calls s1 cs) d2 (Some h) = (s2, Inr r2)"
    by (metis obj_sumE surjective_pairing)
  have o1: "ok s1" using add_ok[OF assms(1,2), of "Some h"] assms(3) by simp
  have "h = int (length (facts s))" by (rule add_head[OF assms(1-3)])
  moreover have "length (facts s1) = Suc (length (facts s))" using add_committed[OF assms(1-3)] by simp
  moreover have "length (facts s1) \<le> length (facts (calls s1 cs))"
    using calls_prefix[OF o1 assms(4)] by (simp add: prefix_length_le)
  moreover have "h = int (length (facts (calls s1 cs)))"
    by (rule add_head[OF calls_ok[OF o1 assms(4)] assms(5) 2])
  ultimately show False by simp
qed

text \<open>A fold over the log advances by the new fact.\<close>

lemma fold_committed:
  assumes "ok s" "good d" "add s d h = (s', Inr r)"
  shows "fold_r f x (facts s') = bind_r (fold_r f x (facts s)) (\<lambda>y. f y (fact_of r))"
  by (simp add: add_committed[OF assms] fold_r_snoc)

end

end
