(* ===== verification/Store_Facts.thy ===== *)
theory Store_Facts
  imports Event_Json Event_Log
begin

text \<open>
  What the event store guarantees: its invariant, that every operation keeps it, that a
  committed row reads back as the event that was appended, that the scan finds every
  departure from the invariant, and that the high-water mark is the number of events.
\<close>

section \<open>Timestamps\<close>

lemma length_digits_of: "n < 10 ^ k \<Longrightarrow> 1 \<le> k \<Longrightarrow> length (digits_of n) \<le> k"
proof (induction k arbitrary: n)
  case (Suc k)
  show ?case
  proof (cases "n < 10")
    case False
    then have "digits_of n = digits_of (n div 10) @ [48 + n mod 10]" by (subst digits_of.simps) simp
    moreover have "length (digits_of (n div 10)) \<le> k"
      by (rule Suc.IH) (use Suc.prems False in \<open>auto intro!: Suc_leI Nat.gr0I\<close>)
    ultimately show ?thesis by simp
  qed (simp add: digits_of.simps)
qed simp

lemma int_of_digits_zeros: "int_of_digits (replicate k 48 @ s) = int_of_digits s"
proof (induction s rule: rev_induct)
  case (snoc c s)
  then show ?case using int_of_digits_snoc[of "replicate k 48 @ s" c] by simp
next
  case Nil
  show ?case by (induction k) (simp_all add: int_of_digits_def)
qed

lemma pad_digits:
  assumes "n < 10 ^ k" "1 \<le> k"
  shows "length (pad_digits k n) = k" "int_of_digits (pad_digits k n) = n"
  using length_digits_of[OF assms] by (simp_all add: pad_digits_def int_of_digits_zeros)

lemma parse_utc_text:
  assumes "utc_ok t"
  shows "parse_recorded (utc_text t) = Some t"
proof -
  have l: "length (pad_digits 4 (t_year t)) = 4" "length (pad_digits 2 (t_month t)) = 2"
    "length (pad_digits 2 (t_day t)) = 2" "length (pad_digits 2 (t_hour t)) = 2"
    "length (pad_digits 2 (t_minute t)) = 2" "length (pad_digits 2 (t_second t)) = 2"
    "length (pad_digits 6 (t_micro t)) = 6"
   and v: "int_of_digits (pad_digits 4 (t_year t)) = t_year t" "int_of_digits (pad_digits 2 (t_month t)) = t_month t"
    "int_of_digits (pad_digits 2 (t_day t)) = t_day t" "int_of_digits (pad_digits 2 (t_hour t)) = t_hour t"
    "int_of_digits (pad_digits 2 (t_minute t)) = t_minute t" "int_of_digits (pad_digits 2 (t_second t)) = t_second t"
    "int_of_digits (pad_digits 6 (t_micro t)) = t_micro t"
    using assms by (auto simp: utc_ok_def datetime_ok_def days_in_month_def intro!: pad_digits split: if_splits)
  have "\<lparr>t_year = field 0 4 (utc_text t), t_month = field 5 2 (utc_text t), t_day = field 8 2 (utc_text t),
      t_hour = field 11 2 (utc_text t), t_minute = field 14 2 (utc_text t), t_second = field 17 2 (utc_text t),
      t_micro = field 20 6 (utc_text t)\<rparr> = t"
    using l v by (cases t) (simp add: field_def utc_text_def)
  with assms show ?thesis by (simp add: parse_recorded_def Let_def)
qed

section \<open>Maxima\<close>

lemma max_or_upto: "max_or x (List.map int [a..<a + n]) = (if n = 0 then x else int a + int n - 1)"
proof (cases n)
  case (Suc m)
  have "foldl max y (List.map int [Suc a..<Suc a + m]) = max y (int a + int m)" if "y = int a" for y
  proof (induction m)
    case (Suc m)
    then show ?case using that by simp
  qed (use that in simp)
  then have "foldl max (int a) (List.map int [Suc a..<Suc (a + m)]) = int a + int m"
    by simp
  then show ?thesis using Suc
    by (simp add: max_or_def upt_conv_Cons del: upt_Suc)
qed (simp add: max_or_def)

section \<open>Invariant\<close>

definition stream_rows :: "pystr \<Rightarrow> store \<Rightarrow> event_row list" where
  "stream_rows sid s = List.filter (\<lambda>r. row_stream_id r = sid) (db_events s)"

definition row_ok :: "env \<Rightarrow> event_row \<Rightarrow> bool" where
  "row_ok env r \<longleftrightarrow> is_ok (stored_event_from_row env r)"

text \<open>Rows are numbered 1, 2, ... in insertion order, versions 0, 1, ... in each stream, event
  ids are unique, and every row reads back.\<close>

definition store_inv :: "env \<Rightarrow> store \<Rightarrow> bool" where
  "store_inv env s \<longleftrightarrow>
     List.map row_sequence (db_events s) = List.map int [1..<1 + length (db_events s)]
     \<and> distinct (List.map row_event_id (db_events s))
     \<and> (\<forall>sid. List.map row_stream_version (stream_rows sid s) = List.map int [0..<length (stream_rows sid s)])
     \<and> list_all (row_ok env) (db_events s)"

lemma sorted_upto: "sorted (List.map int [a..<b])"
  by (simp add: sorted_iff_nth_mono)

lemma store_invD:
  assumes "store_inv env s"
  shows "last_sequence s = int (length (db_events s))"
    "last_stream_version sid s = int (length (stream_rows sid s)) - 1"
    "rows_in_order s = db_events s"
proof -
  show "last_sequence s = int (length (db_events s))"
    using assms max_or_upto[of 0 1 "length (db_events s)"] by (simp add: last_sequence_def store_inv_def)
  have "List.map row_stream_version (stream_rows sid s) = List.map int [0..<0 + length (stream_rows sid s)]"
    using assms by (simp add: store_inv_def)
  then show "last_stream_version sid s = int (length (stream_rows sid s)) - 1"
    using max_or_upto[of "- 1" 0 "length (stream_rows sid s)"]
    by (simp add: last_stream_version_def stream_rows_def)
  have "sorted (List.map row_sequence (db_events s))" using assms sorted_upto
    by (simp only: store_inv_def)
  then show "rows_in_order s = db_events s"
    by (simp add: rows_in_order_def sort_key_id_if_sorted)
qed


section \<open>What a committed append did\<close>

lemma as_scalarD:
  "as_str v = Some x \<Longrightarrow> v = PyStr x" "as_int v = Some i \<Longrightarrow> v = PyInt i" "as_dict v = Some d \<Longrightarrow> v = PyDict d"
  by (cases v; auto split: if_splits)+

lemma validated_fields:
  assumes "validate_event_document (PyDict d) = Some e"
  shows "dict_get (U ''id'') d = Some (PyStr (e_id e))" "dict_get (U ''streamid'') d = Some (PyStr (e_streamid e))"
    "dict_get (U ''sequence'') d = Some (PyStr (e_sequence e))"
    "dict_get (U ''streamversion'') d = Some (PyInt (e_streamversion e))"
  using assms by (auto simp: validate_event_document_def decode_simps dest!: as_scalarD)

lemma dict_get_allocate:
  "dict_get k (allocate n m d) = (if k = U ''streamversion'' then Some (PyInt m)
     else if k = U ''sequencetype'' then Some (PyStr (U ''Integer''))
     else if k = U ''sequence'' then Some (PyStr (str_int n)) else dict_get k d)"
  by (auto simp: allocate_def dict_update_def)

lemma dict_set_list_all:
  "list_all P d \<Longrightarrow> P (KStr k, v) \<Longrightarrow> (\<And>k' w. P (k', w) \<Longrightarrow> P (k', v)) \<Longrightarrow> list_all P (dict_set k v d)"
  by (induction k v d rule: dict_set.induct) auto

lemma keys_distinct_allocate:
  assumes "keys_distinct (PyDict d)" shows "keys_distinct (PyDict (allocate n m d))"
proof -
  have "keys_distinct (PyDict (dict_set k v e))"
    if "keys_distinct (PyDict e)" "keys_distinct v" for k v and e :: pydict
    using that by (auto simp: distinct_dict_set intro!: dict_set_list_all)
  then show ?thesis using assms by (simp add: allocate_def dict_update_def del: keys_distinct.simps(2))
qed

lemma floats_ok_allocate:
  assumes "floats_ok pf (PyDict d)" shows "floats_ok pf (PyDict (allocate n m d))"
proof -
  have "floats_ok pf (PyDict (dict_set k v e))"
    if "floats_ok pf (PyDict e)" "floats_ok pf v" for k v and e :: pydict
    using that by (auto intro!: dict_set_list_all)
  then show ?thesis using assms by (simp add: allocate_def dict_update_def del: floats_ok.simps(3))
qed

definition committed_row :: "env \<Rightarrow> research_event \<Rightarrow> pystr \<Rightarrow> pystr \<Rightarrow> event_row" where
  "committed_row env e stamp t = row_of_event e (sequence_of e) stamp t (LEGACY_SHA256_PREFIX @ env_sha env t)"

lemma append_checked_committed:
  assumes "append_checked env now document expected s = Inr (s', st)"
  obtains d e t stamp where
    "document = PyDict d" "writable s" "expected \<in> {None, Some (last_sequence s)}"
    "validate_event_document (PyDict (allocate (last_sequence s + 1) (last_stream_version (e_streamid e) s + 1) d)) = Some e"
    "legacy_canonical_json (PyDict (allocate (last_sequence s + 1) (last_stream_version (e_streamid e) s + 1) d)) = Some t"
    "recorded_timestamp now = Inr stamp"
    "e_sequence e = str_int (last_sequence s + 1)" "e_streamversion e = last_stream_version (e_streamid e) s + 1"
    "st = \<lparr>st_event = e, st_recorded_at = stamp, st_digest = LEGACY_SHA256_PREFIX @ env_sha env t\<rparr>"
    "\<not> list_ex (\<lambda>r. events_clash r (row_of_event e (last_sequence s + 1) stamp t (LEGACY_SHA256_PREFIX @ env_sha env t))) (db_events s)"
    "s' = s\<lparr>db_events := db_events s @ [row_of_event e (last_sequence s + 1) stamp t (LEGACY_SHA256_PREFIX @ env_sha env t)],
       db_checkpoint := Some \<lparr>ck_high_water = last_sequence s + 1,
          ck_last_event_digest = Some (LEGACY_SHA256_PREFIX @ env_sha env t),
          ck_schema_digest = SCHEMA_DEFINITION_DIGEST (env_sha env), ck_verified_event_count = last_sequence s + 1,
          ck_recorded_at = stamp\<rparr>\<rparr>"
proof -
  from assms obtain d pre where 1: "document = PyDict d"
      "validate_expected_last_sequence expected = Inr expected"
      "validate_event_document (PyDict (allocate 1 0 d)) = Some pre"
      "append_transaction env now d expected pre s = Inr (s', st)"
    by (auto simp: append_checked_def Let_def result_simps validate_expected_last_sequence_def
      validate_sequence_bound_def split: option.splits if_splits dest!: as_scalarD)
  let ?n = "last_sequence s + 1" and ?m = "last_stream_version (e_streamid pre) s + 1"
  let ?c = "PyDict (allocate ?n ?m d)"
  from 1(4) obtain e t stamp s1 where 2: "writable s" "validate_event_document ?c = Some e"
      "legacy_canonical_json ?c = Some t" "recorded_timestamp now = Inr stamp"
      "insert_event env (row_of_event e ?n stamp t (LEGACY_SHA256_PREFIX @ env_sha env t)) s = Some s1"
      "replace_checkpoint env ?n (Some (LEGACY_SHA256_PREFIX @ env_sha env t)) ?n stamp s1 = Inr s'"
      "st = \<lparr>st_event = e, st_recorded_at = stamp, st_digest = LEGACY_SHA256_PREFIX @ env_sha env t\<rparr>"
      "expected = None \<or> expected = Some (last_sequence s)"
    by (auto simp: append_transaction_def Let_def result_simps legacy_content_digest_def split: option.splits)
  have "e_streamid e = e_streamid pre" using validated_fields(2)[OF 2(2)] validated_fields(2)[OF 1(3)]
    by (simp add: dict_get_allocate)
  moreover have "e_sequence e = str_int ?n" "e_streamversion e = ?m"
    using validated_fields(3,4)[OF 2(2)] by (simp_all add: dict_get_allocate)
  ultimately show ?thesis using 1 2
    by (intro that[of d e t stamp]) (auto simp: insert_event_def replace_checkpoint_def Let_def split: if_splits)
qed

section \<open>Reading back\<close>

text \<open>What an appended draft must be: a Python document (keys once each, floats printed as
  Python prints them), and a clock that names a real time.\<close>

definition draft_ok :: "env \<Rightarrow> pyval \<Rightarrow> bool" where
  "draft_ok env document \<longleftrightarrow> keys_distinct document \<and> floats_ok (env_float env) document"

definition clock_ok :: "pydatetime \<Rightarrow> bool" where
  "clock_ok now = (case now of Naive \<Rightarrow> True | Aware t \<Rightarrow> utc_ok t)"

lemma recorded_timestampD:
  "recorded_timestamp now = Inr stamp \<Longrightarrow> clock_ok now \<Longrightarrow> parse_recorded stamp \<noteq> None"
  by (cases now) (auto simp: recorded_timestamp_def clock_ok_def parse_utc_text)

lemma mismatched_norm: "mismatched_columns (norm_event e) r = mismatched_columns e r"
  by (simp add: mismatched_columns_def norm_event_def sequence_of_def)

lemma mismatched_row_of_event:
  "mismatched_columns e (row_of_event e n stamp t dg) = [] \<longleftrightarrow> n = sequence_of e"
  by (simp add: mismatched_columns_def row_of_event_def)

lemma decode_stored_canonical:
  assumes "validate_event_document v = Some e" "legacy_canonical_json v = Some t" "draft_ok env v"
  shows "decode_stored env t = Some (norm v, norm_event e)"
proof -
  have "render v = Some t" using assms(2) by (simp add: legacy_canonical_json_def Option.bind_eq_Some_conv)
  then have "json_loads (env_float env) t = Some (norm v)"
    using assms(3) by (intro json_loads_render) (simp_all add: draft_ok_def)
  moreover obtain d where "v = PyDict d" using assms(1) by (cases v) (auto simp: validate_event_document_def)
  moreover have "validate_event_document (norm v) = Some (norm_event e)"
    using assms by (simp add: validate_event_document_norm draft_ok_def)
  ultimately show ?thesis using legacy_canonical_json_norm[OF assms(2)]
    by (auto simp: decode_stored_def Option.bind_eq_Some_conv check_o_def)
qed

lemma committed_reads_back:
  assumes "validate_event_document v = Some e" "legacy_canonical_json v = Some t" "draft_ok env v"
    "parse_recorded stamp \<noteq> None" "n = sequence_of e"
  shows "stored_event_from_row env (row_of_event e n stamp t (LEGACY_SHA256_PREFIX @ env_sha env t)) =
    Inr \<lparr>st_event = norm_event e, st_recorded_at = stamp, st_digest = LEGACY_SHA256_PREFIX @ env_sha env t\<rparr>"
proof -
  have r: "row_event_json (row_of_event e n stamp t dg) = t" "row_event_digest (row_of_event e n stamp t dg) = dg"
    "row_recorded_at (row_of_event e n stamp t dg) = stamp" for e n stamp t dg by (simp_all add: row_of_event_def)
  have d: "legacy_content_digest (env_sha env) (norm v) = Some (LEGACY_SHA256_PREFIX @ env_sha env t)"
    using legacy_canonical_json_norm[OF assms(2)] by (simp add: legacy_content_digest_def)
  show ?thesis using assms(4,5) d
    by (simp add: stored_event_from_row_def r decode_stored_canonical[OF assms(1-3)] mismatched_norm
      mismatched_row_of_event lift_option_def check_r_def)
qed

lemma str_int_nat: "0 \<le> n \<Longrightarrow> str_int n = digits_of (nat n)"
  by (simp add: str_int_def int_text_def)

lemma last_sequence_nonneg: "store_inv env s \<Longrightarrow> 0 \<le> last_sequence s"
  by (simp add: store_invD)

lemma draft_ok_allocate: "draft_ok env (PyDict d) \<Longrightarrow> draft_ok env (PyDict (allocate n m d))"
  by (simp add: draft_ok_def keys_distinct_allocate floats_ok_allocate del: keys_distinct.simps floats_ok.simps)

text \<open>The effect of a committed append on a store that satisfies the invariant.\<close>

lemma append_committed:
  assumes "append_checked env now document expected s = Inr (s', st)" "store_inv env s"
    "draft_ok env document" "clock_ok now"
  obtains r where "db_events s' = db_events s @ [r]" "row_sequence r = last_sequence s + 1"
    "stored_event_from_row env r = Inr (st\<lparr>st_event := norm_event (st_event st)\<rparr>)"
    "row_stream_version r = last_stream_version (row_stream_id r) s + 1"
    "row_event_id r \<notin> set (List.map row_event_id (db_events s))"
    "row_event_digest r = st_digest st" "research_event_valid (st_event st)"
    "expected = None \<or> expected = Some (last_sequence s)" "stored_sequence st = last_sequence s + 1"
  using assms(1)
proof (rule append_checked_committed)
  fix d e t stamp
  let ?n = "last_sequence s + 1"
  let ?dg = "LEGACY_SHA256_PREFIX @ env_sha env t"
  let ?r = "row_of_event e ?n stamp t ?dg"
  assume *: "document = PyDict d" "expected \<in> {None, Some (last_sequence s)}"
    "validate_event_document (PyDict (allocate ?n (last_stream_version (e_streamid e) s + 1) d)) = Some e"
    "legacy_canonical_json (PyDict (allocate ?n (last_stream_version (e_streamid e) s + 1) d)) = Some t"
    "recorded_timestamp now = Inr stamp" "e_sequence e = str_int ?n"
    "e_streamversion e = last_stream_version (e_streamid e) s + 1"
    "st = \<lparr>st_event = e, st_recorded_at = stamp, st_digest = ?dg\<rparr>"
    "\<not> list_ex (\<lambda>r. events_clash r ?r) (db_events s)"
    "s' = s\<lparr>db_events := db_events s @ [?r],
       db_checkpoint := Some \<lparr>ck_high_water = last_sequence s + 1,
          ck_last_event_digest = Some ?dg,
          ck_schema_digest = SCHEMA_DEFINITION_DIGEST (env_sha env), ck_verified_event_count = last_sequence s + 1,
          ck_recorded_at = stamp\<rparr>\<rparr>"
  have n: "sequence_of e = ?n"
    using *(6) last_sequence_nonneg[OF assms(2)] by (simp add: sequence_of_def str_int_nat)
  have "stored_event_from_row env ?r = Inr \<lparr>st_event = norm_event e, st_recorded_at = stamp, st_digest = ?dg\<rparr>"
    by (rule committed_reads_back[OF *(3,4)])
      (use n assms(3,4) * in \<open>auto intro: draft_ok_allocate dest: recorded_timestampD\<close>)
  moreover have "row_event_id ?r \<notin> set (List.map row_event_id (db_events s))"
    using *(9) by (auto simp: list_ex_iff events_clash_def row_of_event_def)
  moreover have "research_event_valid e" using *(3) by (rule validate_event_document_valid)
  ultimately show ?thesis using * n
    by (intro that[of ?r]) (auto simp: row_of_event_def stored_sequence_def)
qed

lemma stream_rows_snoc:
  "db_events s' = db_events s @ [r] \<Longrightarrow>
   stream_rows sid s' = stream_rows sid s @ (if row_stream_id r = sid then [r] else [])"
  by (simp add: stream_rows_def)

lemma append_store_inv:
  assumes "store_inv env s" "draft_ok env document" "clock_ok now"
  shows "store_inv env (fst (append_store env now document expected s))"
proof (cases "append_checked env now document expected s")
  case (Inr p)
  obtain s' st where p: "p = (s', st)" by (cases p)
  with Inr have "append_checked env now document expected s = Inr (s', st)" by simp
  from append_committed[OF this assms] obtain r where r: "db_events s' = db_events s @ [r]"
    "row_sequence r = last_sequence s + 1"
    "stored_event_from_row env r = Inr (st\<lparr>st_event := norm_event (st_event st)\<rparr>)"
    "row_stream_version r = last_stream_version (row_stream_id r) s + 1"
    "row_event_id r \<notin> set (List.map row_event_id (db_events s))" by metis
  have "store_inv env s'" unfolding store_inv_def
  proof (intro conjI allI)
    show "List.map row_sequence (db_events s') = List.map int [1..<1 + length (db_events s')]"
      using assms(1) r(1,2) store_invD(1)[OF assms(1)] by (simp add: store_inv_def)
    show "distinct (List.map row_event_id (db_events s'))"
      using assms(1) r(1,5) by (auto simp: store_inv_def)
    show "list_all (row_ok env) (db_events s')"
      using assms(1) r(1,3) by (auto simp: store_inv_def row_ok_def is_ok_def)
    fix sid
    show "List.map row_stream_version (stream_rows sid s') = List.map int [0..<length (stream_rows sid s')]"
      using assms(1) r(4) store_invD(2)[OF assms(1), of sid]
      by (auto simp: store_inv_def stream_rows_snoc[OF r(1)])
  qed
  with Inr p show ?thesis by (simp add: append_store_def)
qed (use assms in \<open>simp add: append_store_def\<close>)

section \<open>The scan\<close>

lemma stored_event_from_rowD:
  assumes "stored_event_from_row env r = Inr e"
  shows "r = row_of_event (st_event e) (stored_sequence e) (st_recorded_at e) (row_event_json r) (st_digest e)"
    "st_digest e = LEGACY_SHA256_PREFIX @ env_sha env (row_event_json r)"
    "decode_stored env (row_event_json r) = Some (d, st_event e) \<or> (\<exists>d. decode_stored env (row_event_json r) = Some (d, st_event e))"
    "research_event_valid (st_event e)"
    "parse_recorded (st_recorded_at e) \<noteq> None"
proof -
  obtain d ev where d: "decode_stored env (row_event_json r) = Some (d, ev)"
    "legacy_content_digest (env_sha env) d = Some (row_event_digest r)" "mismatched_columns ev r = []"
    "parse_recorded (row_recorded_at r) \<noteq> None"
    "e = \<lparr>st_event = ev, st_recorded_at = row_recorded_at r, st_digest = row_event_digest r\<rparr>"
    using assms by (auto simp: stored_event_from_row_def result_simps)
  have t: "legacy_canonical_json d = Some (row_event_json r)" "validate_event_document d = Some ev"
    using d(1) by (auto simp: decode_stored_def Option.bind_eq_Some_conv)
  have cols: "row_attempt_id r = ed_attempt_id (e_data ev)" "row_causation_id r = e_causationid ev"
    "row_correlation_id r = e_correlationid ev" "row_event_id r = e_id ev" "row_event_type r = e_type ev"
    "row_occurred_at r = e_time ev" "row_project_id r = ed_project_id (e_data ev)"
    "row_run_id r = ed_run_id (e_data ev)" "row_schema_version r = ed_schema_version (e_data ev)"
    "row_sequence r = sequence_of ev" "row_stream_id r = e_streamid ev" "row_stream_version r = e_streamversion ev"
    using d(3) by (simp_all add: mismatched_columns_def split: if_splits)
  show "r = row_of_event (st_event e) (stored_sequence e) (st_recorded_at e) (row_event_json r) (st_digest e)"
    using cols d(5) by (cases r) (simp add: row_of_event_def stored_sequence_def)
  show "st_digest e = LEGACY_SHA256_PREFIX @ env_sha env (row_event_json r)"
    using d(2,5) t(1) by (simp add: legacy_content_digest_def)
  show "decode_stored env (row_event_json r) = Some (d', st_event e) \<or> (\<exists>d. decode_stored env (row_event_json r) = Some (d, st_event e))" for d'
    using d(1,5) by simp
  show "research_event_valid (st_event e)" using t(2) d(5) by (simp add: validate_event_document_valid)
  show "parse_recorded (st_recorded_at e) \<noteq> None" using d(4,5) by simp
qed

lemma stored_row_columns:
  assumes "stored_event_from_row env r = Inr e"
  shows "row_sequence r = stored_sequence e" "row_event_digest r = st_digest e"
    "row_event_id r = e_id (st_event e)" "row_stream_id r = e_streamid (st_event e)"
    "row_event_type r = e_type (st_event e)" "row_run_id r = ed_run_id (e_data (st_event e))"
    "row_project_id r = ed_project_id (e_data (st_event e))"
  using stored_event_from_rowD(1)[OF assms] by (metis row_of_event_def event_row.select_convs)+

definition numbered_from :: "int \<Rightarrow> event_row list \<Rightarrow> bool" where
  "numbered_from k rs \<longleftrightarrow> List.map row_sequence rs = List.map (\<lambda>i. k + int i) [0..<length rs]"

lemma numbered_from_Cons: "numbered_from k (r # rs) \<longleftrightarrow> row_sequence r = k \<and> numbered_from (k + 1) rs"
proof -
  have "[0..<Suc (length rs)] = 0 # List.map Suc [0..<length rs]"
    by (metis map_Suc_upt upt_conv_Cons zero_less_Suc)
  then have "List.map (\<lambda>i. k + int i) [0..<length (r # rs)] = k # List.map (\<lambda>i. k + 1 + int i) [0..<length rs]"
    by (simp del: upt_Suc)
  then show ?thesis by (simp add: numbered_from_def del: upt_Suc)
qed

lemma verify_row_iff:
  "verify_row env (k, l) r = Inr p \<longleftrightarrow> row_ok env r \<and> row_sequence r = k \<and> p = (k + 1, Some (row_event_digest r))"
  by (cases "stored_event_from_row env r")
    (auto simp: verify_row_def row_ok_def is_ok_def stored_row_columns)

lemma verify_rows_iff:
  "fold_r (verify_row env) (k, l) rs = Inr (k', l') \<longleftrightarrow>
     list_all (row_ok env) rs \<and> numbered_from k rs \<and> k' = k + int (length rs)
     \<and> l' = (if rs = [] then l else Some (row_event_digest (last rs)))"
proof (induction rs arbitrary: k l)
  case (Cons r rs)
  have "fold_r (verify_row env) (k, l) (r # rs) = Inr (k', l') \<longleftrightarrow>
    row_ok env r \<and> row_sequence r = k \<and> fold_r (verify_row env) (k + 1, Some (row_event_digest r)) rs = Inr (k', l')"
    by (auto simp: result_simps verify_row_iff)
  with Cons.IH[of "k + 1" "Some (row_event_digest r)"] show ?case by (auto simp: numbered_from_Cons)
qed (auto simp: numbered_from_def)

lemma store_inv_numbered: "store_inv env s \<Longrightarrow> numbered_from 1 (db_events s)"
proof -
  have "List.map (\<lambda>i. 1 + int i) [0..<n] = List.map int [1..<1 + n]" for n
    by (induction n) auto
  then show "store_inv env s \<Longrightarrow> numbered_from 1 (db_events s)"
    by (simp add: numbered_from_def store_inv_def)
qed

text \<open>SHA-256 gives 64 lowercase hexadecimal digits.\<close>

definition env_ok :: "env \<Rightarrow> bool" where
  "env_ok env \<longleftrightarrow> (\<forall>t. length (env_sha env t) = 64 \<and> lower_hex (env_sha env t))"

lemma sql_sha256_digest: "env_ok env \<Longrightarrow> sql_sha256 (LEGACY_SHA256_PREFIX @ env_sha env t)"
  by (simp add: sql_sha256_def env_ok_def LEGACY_SHA256_PREFIX_def)

lemma split_words_set: "w \<in> set (split_words u s) \<Longrightarrow> set w \<subseteq> set u \<union> set s"
  by (induction u s rule: split_words.induct) (auto split: if_splits)

lemma join_words_utf8: "list_all utf8_ok ws \<Longrightarrow> utf8_ok (join_words ws)"
  by (induction ws rule: join_words.induct) simp_all

lemma normalize_utf8:
  assumes "utf8_ok s" shows "utf8_ok (normalize_schema_sql s)"
proof -
  have "utf8_ok w" if "w \<in> set (split_words [] s)" for w
    using split_words_set[OF that] assms by (auto simp: utf8_ok_def list_all_iff)
  then show ?thesis unfolding normalize_schema_sql_def by (intro join_words_utf8) (simp add: list_all_iff)
qed

lemma sql_text_utf8: "utf8_ok (sql_text ls)"
  by (induction ls) (simp_all add: sql_text_def)

lemmas sql_defs = SQL_schema_migrations_def
  SQL_events_def
  SQL_events_stream_sequence_idx_def
  SQL_events_type_sequence_idx_def
  SQL_events_project_sequence_idx_def
  SQL_events_reject_update_def
  SQL_events_reject_delete_def
  SQL_events_reject_replacement_def
  SQL_schema_migrations_reject_update_def
  SQL_schema_migrations_reject_delete_def
  SQL_integrity_checkpoint_def
  SQL_run_projections_def
  SQL_spec_revisions_def
  SQL_artifacts_def
  SQL_artifact_links_def
  SQL_spec_revisions_digest_idx_def
  SQL_artifact_links_sequence_idx_def

lemma statements_utf8: "list_all utf8_ok MIGRATION_STATEMENTS"
  by (simp add: MIGRATION_STATEMENTS_def MIGRATIONS_def V1_MIGRATION_def V2_MIGRATION_def sql_defs sql_text_utf8)

lemma sql_sha256_schema: "env_ok env \<Longrightarrow> sql_sha256 (SCHEMA_DEFINITION_DIGEST (env_sha env))"
proof -
  assume e: "env_ok env"
  let ?v = "PyList (List.map (\<lambda>s. PyStr (normalize_schema_sql s)) MIGRATION_STATEMENTS)"
  have "legacy_canonical_json ?v \<noteq> None"
  proof -
    have "json_dumpable ?v" "floats_ok (\<lambda>_. FNaN) ?v"
      using statements_utf8 by (auto simp: list_all_iff normalize_utf8)
    from canonical_exists[OF this] show ?thesis by (metis option.distinct(1))
  qed
  then show ?thesis using sql_sha256_digest[OF e]
    by (auto simp: SCHEMA_DEFINITION_DIGEST_def digest_of_statements_def legacy_content_digest_def)
qed

section \<open>Scanning and freezing\<close>

lemma row_ok_digest:
  assumes "row_ok env r" "env_ok env"
  shows "sql_sha256 (row_event_digest r)" "row_event_digest r \<noteq> []" "1 \<le> row_sequence r"
    "row_sequence r \<le> CLOUD_EVENTS_INTEGER_MAX"
proof -
  obtain e where e: "stored_event_from_row env r = Inr e" using assms by (auto simp: row_ok_def is_ok_iff)
  then show "sql_sha256 (row_event_digest r)"
    using stored_event_from_rowD(2)[OF e] stored_row_columns(2)[OF e] sql_sha256_digest[OF assms(2)] by metis
  then show "row_event_digest r \<noteq> []" by (auto simp: sql_sha256_def)
  have "SequenceIntegerString (e_sequence (st_event e))"
    using stored_event_from_rowD(4)[OF e] by (simp add: research_event_validD)
  then show "1 \<le> row_sequence r" "row_sequence r \<le> CLOUD_EVENTS_INTEGER_MAX"
    using sequence_of_bounds stored_row_columns(1)[OF e] by (simp_all add: stored_sequence_def)
qed

definition scanned :: "env \<Rightarrow> store \<Rightarrow> bool" where
  "scanned env s \<longleftrightarrow> list_all (row_ok env) (rows_in_order s) \<and> numbered_from 1 (rows_in_order s)"

lemma numbered_nth: "numbered_from k rs \<Longrightarrow> i < length rs \<Longrightarrow> row_sequence (rs ! i) = k + int i"
  by (metis (no_types, lifting) add_0 diff_zero length_upt nth_map nth_upt numbered_from_def)

definition last_row_digest :: "store \<Rightarrow> pystr option" where
  "last_row_digest s = (if rows_in_order s = [] then None else Some (row_event_digest (last (rows_in_order s))))"

lemma length_rows_in_order [simp]: "length (rows_in_order s) = length (db_events s)"
  by (simp add: rows_in_order_def)

lemma scanned_length:
  assumes "scanned env s" "env_ok env"
  shows "int (length (db_events s)) \<le> 2147483647"
proof (cases "db_events s = []")
  case False
  then have ne: "rows_in_order s \<noteq> []" by (metis length_rows_in_order length_0_conv)
  let ?n = "length (db_events s)"
  have n: "?n - 1 < length (rows_in_order s)" using False by simp
  then have "row_sequence (rows_in_order s ! (?n - 1)) = int ?n"
    using assms(1) False by (subst numbered_nth[of 1], simp_all add: scanned_def) (cases "db_events s"; simp)
  moreover have "row_ok env (rows_in_order s ! (?n - 1))"
    using assms(1) n by (auto simp: scanned_def list_all_length)
  ultimately have "int ?n \<le> CLOUD_EVENTS_INTEGER_MAX" using row_ok_digest(4)[OF _ assms(2)] by metis
  then show ?thesis by (simp add: CLOUD_EVENTS_INTEGER_MAX_def)
qed simp

lemma replace_checkpoint_ok:
  assumes "env_ok env" "writable s" "scanned env s"
  shows "replace_checkpoint env (int (length (db_events s))) (last_row_digest s) (int (length (db_events s))) stamp s
    = Inr (s\<lparr>db_checkpoint := Some \<lparr>ck_high_water = int (length (db_events s)),
        ck_last_event_digest = last_row_digest s, ck_schema_digest = SCHEMA_DEFINITION_DIGEST (env_sha env),
        ck_verified_event_count = int (length (db_events s)), ck_recorded_at = stamp\<rparr>\<rparr>)"
proof -
  have c: "checkpoint_check \<lparr>ck_high_water = int (length (db_events s)),
        ck_last_event_digest = last_row_digest s, ck_schema_digest = SCHEMA_DEFINITION_DIGEST (env_sha env),
        ck_verified_event_count = int (length (db_events s)), ck_recorded_at = stamp\<rparr>"
  proof (cases "db_events s")
    case Nil
    then have "rows_in_order s = []" by (metis length_rows_in_order length_0_conv)
    then show ?thesis using Nil sql_sha256_schema[OF assms(1)]
      by (simp add: checkpoint_check_def last_row_digest_def)
  next
    case (Cons r rs)
    then have "rows_in_order s \<noteq> []" by (metis length_rows_in_order length_0_conv list.distinct(1))
    then have "sql_sha256 (row_event_digest (last (rows_in_order s)))" "rows_in_order s \<noteq> []"
      using assms row_ok_digest(1)[of env "last (rows_in_order s)"]
      by (simp_all add: scanned_def list_all_iff)
    then show ?thesis using Cons sql_sha256_schema[OF assms(1)] scanned_length[OF assms(3,1)]
      by (simp add: checkpoint_check_def last_row_digest_def)
  qed
  with assms(2) show ?thesis by (simp add: replace_checkpoint_def Let_def)
qed

definition report_ok :: "env \<Rightarrow> store \<Rightarrow> bool" where
  "report_ok env s \<longleftrightarrow> is_ok (verify_schema env s) \<and> db_integrity_check (db_report s) = [U ''ok'']"

lemma verify_integrity_iff:
  assumes "env_ok env" "now \<noteq> Naive"
  shows "is_ok (verify_integrity env now s) \<longleftrightarrow> report_ok env s \<and> scanned env s"
    and "verify_integrity env now s = Inr (s', n) \<Longrightarrow> n = int (length (db_events s)) \<and> db_events s' = db_events s
       \<and> db_report s' = db_report s \<and> writable s' = writable s"
proof -
  obtain t where t: "now = Aware t" using assms(2) by (cases now) auto
  have fold: "fold_r (verify_row env) (1, None) (rows_in_order s) = Inr (k, l) \<longleftrightarrow>
     scanned env s \<and> k = 1 + int (length (db_events s)) \<and> l = last_row_digest s" for k l
    by (auto simp: verify_rows_iff scanned_def last_row_digest_def)
  show "is_ok (verify_integrity env now s) \<longleftrightarrow> report_ok env s \<and> scanned env s"
  proof (cases "scanned env s")
    case True
    with fold have "fold_r (verify_row env) (1, None) (rows_in_order s) = Inr (1 + int (length (db_events s)), last_row_digest s)"
      by blast
    then show ?thesis using True replace_checkpoint_ok[OF assms(1) _ True]
      by (auto simp: verify_integrity_def report_ok_def t recorded_timestamp_def check_r_iff Let_def is_ok_unit)
  next
    case False
    with fold obtain e where "fold_r (verify_row env) (1, None) (rows_in_order s) = Inl e"
      by (metis obj_sumE surj_pair)
    with False show ?thesis by (simp add: verify_integrity_def check_r_iff)
  qed
  show "verify_integrity env now s = Inr (s', n) \<Longrightarrow> n = int (length (db_events s)) \<and> db_events s' = db_events s
       \<and> db_report s' = db_report s \<and> writable s' = writable s"
    by (auto simp: verify_integrity_def bind_r_Inr_iff check_r_iff fold Let_def replace_checkpoint_def split: if_splits)
qed

lemma store_inv_scanned: "store_inv env s \<Longrightarrow> scanned env s"
  using store_inv_numbered[of env s] store_invD(3)[of env s] by (simp add: scanned_def store_inv_def)

lemma store_inv_cong: "db_events s = db_events s' \<Longrightarrow> store_inv env s = store_inv env s'"
  by (simp add: store_inv_def stream_rows_def)

lemma freeze_effect:
  assumes "freeze_high_water env now s = Inr (s', n)" "env_ok env" "now \<noteq> Naive" "store_inv env s"
  shows "n = int (length (db_events s))" "db_events s' = db_events s" "db_report s' = db_report s"
    "writable s' = writable s"
proof -
  have "n = int (length (db_events s)) \<and> db_events s' = db_events s \<and> db_report s' = db_report s \<and> writable s' = writable s"
  proof (cases "\<exists>live. live_head_fingerprint env s = Inr live \<and> read_checkpoint s = Some live")
    case True
    then obtain live where l: "live_head_fingerprint env s = Inr live" "read_checkpoint s = Some live" by blast
    then have "high_water live = last_sequence s"
      by (auto simp: live_head_fingerprint_def Let_def split: if_splits option.splits)
    with l assms(1) store_invD(1)[OF assms(4)] show ?thesis
      by (auto simp: freeze_high_water_def bind_r_Inr_iff)
  next
    case False
    then have "verify_integrity env now s = Inr (s', n)"
      using assms(1) by (auto simp: freeze_high_water_def bind_r_Inr_iff split: if_splits)
    from verify_integrity_iff(2)[OF assms(2,3) this] show ?thesis .
  qed
  then show "n = int (length (db_events s))" "db_events s' = db_events s" "db_report s' = db_report s"
    "writable s' = writable s" by auto
qed

lemma freeze_total:
  assumes "env_ok env" "now \<noteq> Naive" "store_inv env s" "report_ok env s"
  shows "is_ok (freeze_high_water env now s)"
proof -
  have "is_ok (live_head_fingerprint env s)"
  proof (cases "db_events s = []")
    case True
    then show ?thesis using store_invD(1)[OF assms(3)]
      by (simp add: live_head_fingerprint_def is_ok_def)
  next
    case False
    have "1 + int (length (db_events s) - 1) = int (length (db_events s))" using False by (cases "db_events s") simp_all
    then have "last_sequence s = row_sequence (last (db_events s))"
      using numbered_nth[OF store_inv_numbered[OF assms(3)], of "length (db_events s) - 1"]
        store_invD(1)[OF assms(3)] False by (simp add: last_conv_nth)
    with False have "\<exists>r\<in>set (db_events s). row_sequence r = last_sequence s"
      by (intro bexI[of _ "last (db_events s)"]) simp_all
    then obtain r where "find_first (\<lambda>r. row_sequence r = last_sequence s) (db_events s) = Some r"
      by (cases "find_first (\<lambda>r. row_sequence r = last_sequence s) (db_events s)") auto
    then show ?thesis by (simp add: live_head_fingerprint_def Let_def)
  qed
  moreover have "is_ok (verify_integrity env now s)"
    using assms store_inv_scanned by (simp add: verify_integrity_iff)
  ultimately show ?thesis using assms(4) by (auto simp: freeze_high_water_def is_ok_iff report_ok_def)
qed


section \<open>The store as an event log\<close>

definition facts :: "env \<Rightarrow> store \<Rightarrow> research_event list" where
  "facts env s = List.map (\<lambda>r. case stored_event_from_row env r of Inr e \<Rightarrow> st_event e | Inl _ \<Rightarrow> undefined) (db_events s)"

definition good_call :: "env \<Rightarrow> pydatetime \<times> pyval \<Rightarrow> bool" where
  "good_call env c \<longleftrightarrow> draft_ok env (snd c) \<and> clock_ok (fst c)"

definition fact_of :: "stored_event \<Rightarrow> research_event" where
  "fact_of st = norm_event (st_event st)"

definition call_append :: "env \<Rightarrow> store \<Rightarrow> pydatetime \<times> pyval \<Rightarrow> int option \<Rightarrow> store \<times> (store_error + stored_event)" where
  "call_append env s c h = append_store env (fst c) (snd c) h s"

lemma length_facts [simp]: "length (facts env s) = length (db_events s)"
  by (simp add: facts_def)

lemma append_store_Inr:
  "append_store env now document h s = (s', Inr st) \<longleftrightarrow> append_checked env now document h s = Inr (s', st)"
  by (auto simp: append_store_def split: sum.splits)

lemma append_store_Inl:
  "append_store env now document h s = (s', Inl e) \<longleftrightarrow> append_checked env now document h s = Inl e \<and> s' = s"
  by (auto simp: append_store_def split: sum.splits)

interpretation store_log: event_log "facts env" "store_inv env" "call_append env" "good_call env" fact_of
  for env
proof
  fix s :: store and c h s' and e :: store_error
  show "store_inv env s \<Longrightarrow> good_call env c \<Longrightarrow> store_inv env (fst (call_append env s c h))"
    by (simp add: good_call_def call_append_def append_store_inv)
  show "call_append env s c h = (s', Inl e) \<Longrightarrow> s' = s"
    by (simp add: call_append_def append_store_Inl)
next
  fix s :: store and c h s' r
  assume a: "store_inv env s" "good_call env c" "call_append env s c h = (s', Inr r)"
  then have "append_checked env (fst c) (snd c) h s = Inr (s', r)" by (simp add: call_append_def append_store_Inr)
  from append_committed[OF this a(1)] a(2) obtain x where "db_events s' = db_events s @ [x]"
    "stored_event_from_row env x = Inr (r\<lparr>st_event := norm_event (st_event r)\<rparr>)"
    unfolding good_call_def by metis
  then show "facts env s' = facts env s @ [fact_of r]" by (simp add: facts_def fact_of_def)
next
  fix s :: store and c k s' r
  assume a: "store_inv env s" "good_call env c" "call_append env s c (Some k) = (s', Inr r)"
  then have "append_checked env (fst c) (snd c) (Some k) s = Inr (s', r)" by (simp add: call_append_def append_store_Inr)
  from append_committed[OF this a(1)] a(2) have "k = last_sequence s" unfolding good_call_def by (metis option.distinct(1) option.inject)
  with store_invD(1)[OF a(1)] show "k = int (length (facts env s))" by simp
qed

section \<open>When an append succeeds\<close>

lemma req_field_allocate:
  "k \<notin> {U ''sequence'', U ''sequencetype'', U ''streamversion''} \<Longrightarrow> req_field (allocate n m d) k dec = req_field d k dec"
  "k \<notin> {U ''sequence'', U ''sequencetype'', U ''streamversion''} \<Longrightarrow> opt_field (allocate n m d) k x dec = opt_field d k x dec"
  "req_field (allocate n m d) (U ''sequence'') dec = dec (PyStr (str_int n))"
  "req_field (allocate n m d) (U ''sequencetype'') dec = dec (PyStr (U ''Integer''))"
  "req_field (allocate n m d) (U ''streamversion'') dec = dec (PyInt m)"
  by (simp_all add: req_field_def opt_field_def dict_get_allocate)

lemma only_keys_set: "k \<in> set ks \<Longrightarrow> only_keys ks (dict_set k v d) = only_keys ks d"
  by (induction k v d rule: dict_set.induct) (auto simp: only_keys_def)

lemma only_keys_allocate:
  "{U ''sequence'', U ''sequencetype'', U ''streamversion''} \<subseteq> set ks \<Longrightarrow> only_keys ks (allocate n m d) = only_keys ks d"
  by (simp add: allocate_def dict_update_def only_keys_set)

lemma str_int_utf8: "utf8_ok (str_int n)"
  by (rule ascii_utf8) (simp add: str_int_def int_text_def ascii_digits digits_of_digit)

definition renumber :: "int \<Rightarrow> int \<Rightarrow> research_event \<Rightarrow> research_event" where
  "renumber n m e = e\<lparr>e_sequence := str_int n, e_streamversion := m\<rparr>"

lemma keep_o_bind: "keep_o p x = Option.bind (check_o (p x)) (\<lambda>_. Some x)"
  by (simp add: keep_o_def check_o_def)

lemma renumber_valid:
  assumes "1 \<le> n" "n \<le> CLOUD_EVENTS_INTEGER_MAX" "0 \<le> m" "m \<le> CLOUD_EVENTS_INTEGER_MAX"
    "e_sequence e = str_int 1" "e_streamversion e = 0"
  shows "research_event_valid (renumber n m e) = research_event_valid e"
proof -
  have "SequenceIntegerString (str_int k)" if "1 \<le> k" "k \<le> CLOUD_EVENTS_INTEGER_MAX" for k
    using that by (auto simp: SequenceIntegerString_iff str_int_nat CLOUD_EVENTS_INTEGER_MAX_def intro!: exI[of _ "nat k"])
  from this[of n] this[of 1] assms show ?thesis
    by (simp add: research_event_valid_def renumber_def StreamVersion_def CLOUD_EVENTS_INTEGER_MAX_def)
qed

lemma validate_allocate:
  assumes "1 \<le> n" "n \<le> CLOUD_EVENTS_INTEGER_MAX" "0 \<le> m" "m \<le> CLOUD_EVENTS_INTEGER_MAX"
  shows "validate_event_document (PyDict (allocate n m d))
    = map_option (renumber n m) (validate_event_document (PyDict (allocate 1 0 d)))"
proof -
  have m: "map_option (renumber n m) (Option.bind x f) = Option.bind x (\<lambda>y. map_option (renumber n m) (f y))"
    for x :: "'z option" and f by (cases x) auto
  have k: "keep_o research_event_valid (renumber n m e) = map_option (renumber n m) (keep_o research_event_valid e)"
    if "e_sequence e = str_int 1" "e_streamversion e = 0" for e
    using renumber_valid[OF assms that] by (simp add: keep_o_def)
  have r: "renumber n m \<lparr>e_specversion = sv, e_id = i, e_source = src, e_type = ty,
       e_time = tm, e_subject = sb, e_dataschema = ds, e_datacontenttype = dc, e_data = da,
       e_sequence = sq, e_sequencetype = st, e_streamid = sid, e_streamversion = svn,
       e_correlationid = co, e_causationid = ca\<rparr> = \<lparr>e_specversion = sv, e_id = i, e_source = src, e_type = ty,
       e_time = tm, e_subject = sb, e_dataschema = ds, e_datacontenttype = dc, e_data = da,
       e_sequence = str_int n, e_sequencetype = st, e_streamid = sid, e_streamversion = m,
       e_correlationid = co, e_causationid = ca\<rparr>"
    for sv i src ty tm sb ds dc da sq st sid svn co ca by (simp add: renumber_def)
  show ?thesis
    by (simp add: validate_event_document_def only_keys_allocate req_field_allocate str_int_utf8 m k[symmetric] r)
qed

text \<open>SQLite's \<open>json_valid\<close> accepts the JSON that Python writes.\<close>

definition sqlite_accepts :: "env \<Rightarrow> bool" where
  "sqlite_accepts env \<longleftrightarrow> (\<forall>v t. legacy_canonical_json v = Some t \<longrightarrow> env_json_valid env t)"

definition no_assigned_fields :: "pydict \<Rightarrow> bool" where
  "no_assigned_fields d \<longleftrightarrow> list_all (\<lambda>k. \<not> dict_has k d) STORE_ASSIGNED_FIELDS"

definition id_fresh :: "store \<Rightarrow> pystr \<Rightarrow> bool" where
  "id_fresh s i \<longleftrightarrow> list_all (\<lambda>r. row_event_id r \<noteq> i) (db_events s)"

lemma no_clash:
  assumes "store_inv env s" "id_fresh s (row_event_id r)" "row_sequence r = last_sequence s + 1"
    "row_stream_version r = last_stream_version (row_stream_id r) s + 1"
  shows "\<not> list_ex (\<lambda>q. events_clash q r) (db_events s)"
proof -
  have "\<not> events_clash q r" if q: "q \<in> set (db_events s)" for q
  proof -
    have "row_sequence q \<le> last_sequence s"
    proof -
      have "row_sequence q \<in> set (List.map row_sequence (db_events s))" using q by simp
      also have "List.map row_sequence (db_events s) = List.map int [1..<1 + length (db_events s)]"
        using assms(1) by (simp only: store_inv_def)
      finally show ?thesis using store_invD(1)[OF assms(1)] by auto
    qed
    moreover have "row_stream_version q \<le> last_stream_version (row_stream_id r) s" if "row_stream_id q = row_stream_id r"
    proof -
      have "row_stream_version q \<in> set (List.map row_stream_version (stream_rows (row_stream_id r) s))"
        using q that by (simp add: stream_rows_def)
      also have "List.map row_stream_version (stream_rows (row_stream_id r) s) = List.map int [0..<length (stream_rows (row_stream_id r) s)]"
        using assms(1) by (simp add: store_inv_def)
      finally show ?thesis using store_invD(2)[OF assms(1), of "row_stream_id r"] by auto
    qed
    ultimately show ?thesis using assms(2-4) q by (auto simp: events_clash_def id_fresh_def list_all_iff)
  qed
  then show ?thesis by (simp add: list_ex_iff)
qed

lemma last_stream_version_bound: "store_inv env s \<Longrightarrow> - 1 \<le> last_stream_version sid s"
  by (simp add: store_invD)

lemma append_transaction_ok:
  assumes "store_inv env s" "env_ok env" "sqlite_accepts env" "draft_ok env (PyDict d)" "now = Aware u"
    "validate_event_document (PyDict (allocate 1 0 d)) = Some pre" "writable s" "id_fresh s (e_id pre)"
    "h = None \<or> h = Some (last_sequence s)" "last_sequence s < CLOUD_EVENTS_INTEGER_MAX"
    "last_stream_version (e_streamid pre) s < CLOUD_EVENTS_INTEGER_MAX"
  shows "is_ok (append_transaction env now d h pre s)"
proof -
  let ?n = "last_sequence s + 1" and ?m = "last_stream_version (e_streamid pre) s + 1"
  let ?c = "PyDict (allocate ?n ?m d)"
  let ?e = "renumber ?n ?m pre"
  have b: "1 \<le> ?n" "?n \<le> CLOUD_EVENTS_INTEGER_MAX" "0 \<le> ?m" "?m \<le> CLOUD_EVENTS_INTEGER_MAX"
    using assms(10,11) last_sequence_nonneg[OF assms(1)] last_stream_version_bound[OF assms(1), of "e_streamid pre"] by auto
  have v: "validate_event_document ?c = Some ?e" using assms(6) by (simp add: validate_allocate[OF b])
  have "draft_ok env ?c" using assms(4) by (rule draft_ok_allocate)
  then have kd: "keys_distinct ?c" and fl: "floats_ok (env_float env) ?c" unfolding draft_ok_def by simp_all
  obtain t where t: "legacy_canonical_json ?c = Some t"
    using canonical_exists[OF validated_dumpable[OF v kd] fl] by metis
  let ?dg = "LEGACY_SHA256_PREFIX @ env_sha env t"
  let ?r = "row_of_event ?e ?n (utc_text u) t ?dg"
  have dg: "legacy_content_digest (env_sha env) ?c = Some ?dg" using t by (simp add: legacy_content_digest_def)
  have check: "events_check env ?r"
    using b t assms(3) sql_sha256_digest[OF assms(2)]
    by (auto simp: events_check_def row_of_event_def renumber_def sqlite_accepts_def CLOUD_EVENTS_INTEGER_MAX_def)
  have clash: "\<not> list_ex (\<lambda>q. events_clash q ?r) (db_events s)"
    by (rule no_clash[OF assms(1)]) (use assms(8) in \<open>simp_all add: row_of_event_def renumber_def\<close>)
  have ins: "insert_event env ?r s = Some (s\<lparr>db_events := db_events s @ [?r]\<rparr>)"
    using check clash by (simp add: insert_event_def)
  have cp: "is_ok (replace_checkpoint env ?n (Some ?dg) ?n stamp (s\<lparr>db_events := rs\<rparr>))" for stamp rs
    using b assms(7) sql_sha256_digest[OF assms(2)] sql_sha256_schema[OF assms(2)]
    by (simp add: replace_checkpoint_def checkpoint_check_def CLOUD_EVENTS_INTEGER_MAX_def Let_def)
  have head: "(case h of None \<Rightarrow> Inr () | Some h \<Rightarrow> check_r (h = last_sequence s) (EventSequenceConflictError h (last_sequence s))) = Inr ()"
    using assms(9) by (auto simp: check_r_def)
  have fresh: "\<not> list_ex (\<lambda>r. row_event_id r = e_id pre) (db_events s)"
    using assms(8) by (auto simp: id_fresh_def list_all_iff list_ex_iff)
  obtain s2 where s2: "replace_checkpoint env ?n (Some ?dg) ?n (utc_text u) (s\<lparr>db_events := db_events s @ [?r]\<rparr>) = Inr s2"
    using cp[unfolded is_ok_iff] by blast
  show ?thesis
    unfolding append_transaction_def Let_def head
    using assms(7,10,11) fresh v t dg ins s2
    by (simp add: check_r_def lift_option_def recorded_timestamp_def assms(5))
qed

lemma append_checked_iff:
  assumes "store_inv env s" "env_ok env" "sqlite_accepts env" "draft_ok env (PyDict d)" "now = Aware u"
  shows "is_ok (append_checked env now (PyDict d) h s) \<longleftrightarrow>
    writable s \<and> no_assigned_fields d \<and> (h = None \<or> h = Some (last_sequence s))
    \<and> last_sequence s < CLOUD_EVENTS_INTEGER_MAX
    \<and> (\<exists>pre. validate_event_document (PyDict (allocate 1 0 d)) = Some pre \<and> id_fresh s (e_id pre)
        \<and> last_stream_version (e_streamid pre) s < CLOUD_EVENTS_INTEGER_MAX)" (is "?l \<longleftrightarrow> ?r")
proof
  assume ?l
  then show ?r
    by (auto simp: append_checked_def append_transaction_def Let_def check_r_iff lift_option_iff bind_r_Inr_iff is_ok_iff
      no_assigned_fields_def id_fresh_def list_all_iff list_ex_iff filter_empty_conv
      validate_expected_last_sequence_def validate_sequence_bound_def split: option.splits if_splits)
next
  assume r: ?r
  then obtain pre where pre: "validate_event_document (PyDict (allocate 1 0 d)) = Some pre" "id_fresh s (e_id pre)"
    "last_stream_version (e_streamid pre) s < CLOUD_EVENTS_INTEGER_MAX" by blast
  have "validate_expected_last_sequence h = Inr h"
    using r last_sequence_nonneg[OF assms(1)]
    by (auto simp: validate_expected_last_sequence_def validate_sequence_bound_def)
  moreover have "is_ok (append_transaction env now d h pre s)"
    by (rule append_transaction_ok[OF assms pre(1)]) (use r pre in auto)
  moreover have "List.filter (\<lambda>k. dict_has k d) STORE_ASSIGNED_FIELDS = []"
    using r by (auto simp: no_assigned_fields_def list_all_iff filter_empty_conv)
  ultimately show ?l using pre(1) by (simp add: append_checked_def check_r_def lift_option_def)
qed

lemma find_event_id:
  assumes "distinct (List.map row_event_id rs)" "r \<in> set rs"
  shows "find_first (\<lambda>q. row_event_id q = row_event_id r) rs = Some r"
  using assms
proof (induction rs)
  case (Cons q rs)
  then show ?case by (cases "q = r") (auto simp: image_iff)
qed simp

end
