(* ===== verification/Replay.thy ===== *)
theory Replay
  imports Store_Facts
begin

text \<open>
  Paged replay of \<open>projections/replay.py\<close>.  The generator is modelled by what it yields and how
  it ends: \<open>(yielded, None)\<close> when it is exhausted, \<open>(yielded, Some e)\<close> when it raises after
  those events.  A consumer runs between the yields, so it sees the events before the error.

  The main lemma: over a store that satisfies its invariant a replay up to a mark yields
  exactly the events from the start to the mark, whatever the page size.
\<close>

datatype page_end = Continue int | Stop | Fail store_error

fun yield_page :: "int option \<Rightarrow> int \<Rightarrow> stored_event list \<Rightarrow> stored_event list \<times> page_end" where
  "yield_page until expected [] = ([], Continue expected)"
| "yield_page until expected (stored # page) =
     (let sequence = stored_sequence stored in
      if (case until of None \<Rightarrow> False | Some u \<Rightarrow> sequence > u)
      then ([], if (case until of None \<Rightarrow> False | Some u \<Rightarrow> expected \<le> u)
                then Fail (EventIntegrityError (NotContiguous expected (Some sequence))) else Stop)
      else if sequence < expected then ([], Fail (EventIntegrityError (OutOfOrder expected sequence)))
      else if sequence > expected then ([], Fail (EventIntegrityError (NotContiguous expected (Some sequence))))
      else (let (ys, end_of_page) = yield_page until (sequence + 1) page in (stored # ys, end_of_page)))"

definition page_of :: "int \<Rightarrow> int \<Rightarrow> read_args" where
  "page_of current page_size = read_defaults\<lparr>after_sequence := current, limit := page_size\<rparr>"

lemma row_selected_page: "row_selected (page_of current page_size) = (\<lambda>r. row_sequence r > current)"
  by (auto simp: row_selected_def page_of_def read_defaults_def clause_def fun_eq_iff)

lemma page_of_fields [simp]:
  "after_sequence (page_of c p) = c" "limit (page_of c p) = p" "until_sequence (page_of c p) = None"
  "event_types (page_of c p) = None" "by_project_id (page_of c p) = None" "by_run_id (page_of c p) = None"
  "by_event_id (page_of c p) = None" "newest_first (page_of c p) = False"
  by (simp_all add: page_of_def read_defaults_def)

lemma read_page_rows:
  assumes "read_events env (page_of current page_size) s = Inr page"
  shows "page_size_ok page_size"
    "map_r (stored_event_from_row env) (take (nat page_size)
       (List.filter (\<lambda>r. row_sequence r > current) (rows_in_order s))) = Inr page"
  using assms by (auto simp: read_events_def bind_r_Inr_iff check_r_iff row_selected_page Let_def
    validate_until_sequence_def validate_sequence_bound_def validate_event_types_def)

lemma read_page_member:
  assumes "read_events env (page_of current page_size) s = Inr page" "stored \<in> set page"
  shows "\<exists>r\<in>set (db_events s). row_sequence r = stored_sequence stored \<and> stored_sequence stored > current"
proof -
  obtain i where i: "i < length page" "stored = page ! i" using assms(2) by (auto simp: in_set_conv_nth)
  let ?rs = "take (nat page_size) (List.filter (\<lambda>r. row_sequence r > current) (rows_in_order s))"
  have l: "list_all2 (\<lambda>r e. stored_event_from_row env r = Inr e) ?rs page"
    using read_page_rows(2)[OF assms(1)] by (simp add: map_r_Inr_iff)
  then have "stored_event_from_row env (?rs ! i) = Inr stored" using list_all2_nthD2[OF l i(1)] i(2) by simp
  moreover have "i < length ?rs" using i(1) list_all2_lengthD[OF l] by simp
  then have "?rs ! i \<in> set ?rs" by (rule nth_mem)
  then have "?rs ! i \<in> set (db_events s) \<and> row_sequence (?rs ! i) > current"
    by (auto dest: in_set_takeD simp: rows_in_order_def)
  ultimately show ?thesis using stored_row_columns(1) by metis
qed

lemma yield_page_continue:
  "yield_page until expected page = (ys, Continue e) \<Longrightarrow> page \<noteq> [] \<Longrightarrow> \<exists>stored\<in>set page. e = stored_sequence stored + 1"
proof (induction until expected page arbitrary: ys rule: yield_page.induct)
  case (2 until expected stored page)
  then show ?case
    by (cases page) (auto simp: Let_def split: if_splits prod.splits)
qed simp

lemma page_progress:
  assumes "read_events env (page_of current page_size) s = Inr (p # ps)"
    "yield_page until expected (p # ps) = (ys, Continue expected')"
  shows "length (List.filter (\<lambda>r. expected' - 1 < row_sequence r) (db_events s))
    < length (List.filter (\<lambda>r. current < row_sequence r) (db_events s))"
proof -
  from yield_page_continue[OF assms(2)] read_page_member[OF assms(1)] obtain r where
    r: "r \<in> set (db_events s)" "row_sequence r = expected' - 1" "expected' - 1 > current" by fastforce
  let ?f = "\<lambda>c. List.filter (\<lambda>r. c < row_sequence r) (db_events s)"
  have "?f (expected' - 1) = List.filter (\<lambda>r. expected' - 1 < row_sequence r) (?f current)"
    using r(3) by (auto intro!: filter_cong)
  moreover have "r \<in> set (?f current)" using r by simp
  ultimately show ?thesis using r(2) by (metis length_filter_less order_less_irrefl)
qed

function iter_stored_events :: "env \<Rightarrow> int \<Rightarrow> int option \<Rightarrow> int \<Rightarrow> int \<Rightarrow> store \<Rightarrow> stored_event list \<times> store_error option" where
  "iter_stored_events env page_size until expected current s =
     (if (case until of None \<Rightarrow> False | Some u \<Rightarrow> current \<ge> u) then ([], None)
      else (case read_events env (page_of current page_size) s of
          Inl e \<Rightarrow> ([], Some e)
        | Inr [] \<Rightarrow> ([], if (case until of None \<Rightarrow> False | Some u \<Rightarrow> expected \<le> u)
            then Some (EventIntegrityError (NotContiguous expected None)) else None)
        | Inr (p # ps) \<Rightarrow>
            (case yield_page until expected (p # ps) of
               (ys, Fail e) \<Rightarrow> (ys, Some e)
             | (ys, Stop) \<Rightarrow> (ys, None)
             | (ys, Continue expected') \<Rightarrow>
                 (let (zs, err) = iter_stored_events env page_size until expected' (expected' - 1) s in (ys @ zs, err)))))"
  by pat_completeness auto

termination iter_stored_events
  by (relation "measure (\<lambda>(env, page_size, until, expected, current, s).
      length (List.filter (\<lambda>r. row_sequence r > current) (db_events s)))")
    (auto simp del: yield_page.simps intro: page_progress[OF _ sym])

declare iter_stored_events.simps [simp del]

definition require_replay_bounds :: "int \<Rightarrow> int \<Rightarrow> store_error + unit" where
  "require_replay_bounds after page_size =
     bind_r (check_r (sequence_in_range after) (ValueError (U ''after_sequence''))) (\<lambda>_.
     check_r (page_size_ok page_size) (ValueError (U ''page_size'')))"

text \<open>\<open>replay_events(store, after_sequence, page_size, freeze_high_water, until_sequence)\<close>: the store
  with it, since freezing may write the checkpoint.\<close>

definition replay_events :: "env \<Rightarrow> pydatetime \<Rightarrow> int \<Rightarrow> int \<Rightarrow> bool \<Rightarrow> int option \<Rightarrow> store
    \<Rightarrow> store \<times> stored_event list \<times> store_error option" where
  "replay_events env now after page_size freeze until s =
     (case require_replay_bounds after page_size of
        Inl e \<Rightarrow> (s, [], Some e)
      | Inr _ \<Rightarrow>
          if freeze
          then (if until \<noteq> None then (s, [], Some (ValueError (U ''until_sequence'')))
                else (case freeze_high_water env now s of
                    Inl e \<Rightarrow> (s, [], Some e)
                  | Inr (s', n) \<Rightarrow> (s', iter_stored_events env page_size (Some n) (after + 1) after s')))
          else (s, iter_stored_events env page_size until (after + 1) after s))"

section \<open>A replay of an intact store\<close>

definition stored_events :: "env \<Rightarrow> store \<Rightarrow> stored_event list" where
  "stored_events env s = List.map (\<lambda>r. projr (stored_event_from_row env r)) (db_events s)"

lemma stored_events_row:
  assumes "store_inv env s" "i < length (db_events s)"
  shows "stored_event_from_row env (db_events s ! i) = Inr (stored_events env s ! i)"
    "stored_sequence (stored_events env s ! i) = int i + 1"
proof -
  have "row_ok env (db_events s ! i)" using assms by (simp add: store_inv_def list_all_length)
  then show e: "stored_event_from_row env (db_events s ! i) = Inr (stored_events env s ! i)"
    using assms(2) by (auto simp: row_ok_def stored_events_def is_ok_iff)
  show "stored_sequence (stored_events env s ! i) = int i + 1"
    using stored_row_columns(1)[OF e] numbered_nth[OF store_inv_numbered[OF assms(1)] assms(2)] by simp
qed

lemma length_stored_events [simp]: "length (stored_events env s) = length (db_events s)"
  by (simp add: stored_events_def)

lemma facts_stored: "store_inv env s \<Longrightarrow> facts env s = List.map st_event (stored_events env s)"
  by (auto simp: facts_def stored_events_def store_inv_def list_all_iff row_ok_def is_ok_iff)

lemma facts_valid: "store_inv env s \<Longrightarrow> \<forall>e\<in>set (facts env s). research_event_valid e"
  using stored_event_from_rowD(4) by (fastforce simp: facts_def store_inv_def list_all_iff row_ok_def is_ok_iff)

lemma facts_sequence:
  assumes "store_inv env s" "i < length (db_events s)"
  shows "sequence_of (facts env s ! i) = int i + 1"
  using stored_events_row(2)[OF assms] assms by (simp add: facts_stored stored_sequence_def)

lemma rows_after:
  assumes "store_inv env s"
  shows "List.filter (\<lambda>r. row_sequence r > int c) (rows_in_order s) = drop c (db_events s)"
proof -
  let ?p = "\<lambda>r. row_sequence r > int c"
  have seq: "i < length (db_events s) \<Longrightarrow> row_sequence (db_events s ! i) = int i + 1" for i
    using numbered_nth[OF store_inv_numbered[OF assms]] by simp
  have "List.filter ?p (take c (db_events s)) = []"
    by (auto simp: filter_empty_conv in_set_conv_nth seq)
  moreover have "List.filter ?p (drop c (db_events s)) = drop c (db_events s)"
    by (auto simp: filter_id_conv in_set_conv_nth seq)
  ultimately have "List.filter ?p (take c (db_events s) @ drop c (db_events s)) = drop c (db_events s)"
    by (simp only: filter_append append_Nil)
  then show ?thesis by (simp add: store_invD(3)[OF assms])
qed

lemma map_r_all: "(\<And>x. x \<in> set xs \<Longrightarrow> f x = Inr (g x)) \<Longrightarrow> map_r f xs = Inr (List.map g xs)"
  by (induction xs) auto

lemma read_page:
  assumes "store_inv env s" "page_size_ok p" "int c \<le> CLOUD_EVENTS_INTEGER_MAX"
  shows "read_events env (page_of (int c) p) s = Inr (take (nat p) (drop c (stored_events env s)))"
proof -
  have "map_r (stored_event_from_row env) (take (nat p) (drop c (db_events s)))
      = Inr (List.map (\<lambda>r. projr (stored_event_from_row env r)) (take (nat p) (drop c (db_events s))))"
    using assms(1) by (intro map_r_all)
      (auto dest!: in_set_takeD in_set_dropD simp: store_inv_def list_all_iff row_ok_def is_ok_iff)
  then show ?thesis using assms rows_after[OF assms(1), of c]
    by (simp add: read_events_def row_selected_page Let_def
      validate_until_sequence_def validate_sequence_bound_def validate_event_types_def check_r_def
      sequence_in_range_def bounded_identifier_def stored_events_def drop_map take_map)
qed

lemma yield_page_intact:
  assumes "\<And>i. i < length page \<Longrightarrow> stored_sequence (page ! i) = c + 1 + int i" "c \<le> u"
  shows "yield_page (Some u) (c + 1) page =
    (if c + int (length page) \<le> u then (page, Continue (c + int (length page) + 1)) else (take (nat (u - c)) page, Stop))"
  using assms
proof (induction page arbitrary: c)
  case (Cons e page)
  have e: "stored_sequence e = c + 1" using Cons.prems(1)[of 0] by simp
  show ?case
  proof (cases "c + 1 \<le> u")
    case True
    have "yield_page (Some u) (c + 1 + 1) page =
      (if c + 1 + int (length page) \<le> u then (page, Continue (c + 1 + int (length page) + 1)) else (take (nat (u - (c + 1))) page, Stop))"
    proof (rule Cons.IH)
      show "stored_sequence (page ! i) = c + 1 + 1 + int i" if "i < length page" for i
        using Cons.prems(1)[of "Suc i"] that by simp
    qed (use True in simp)
    moreover have "nat (u - c) = Suc (nat (u - (c + 1)))" using True by simp
    ultimately show ?thesis using e True by (simp add: algebra_simps)
  next
    case False
    with Cons.prems(2) e show ?thesis by simp
  qed
qed (use assms in simp)

lemma iter_intact:
  assumes "store_inv env s" "page_size_ok p" "u \<le> length (db_events s)" "c \<le> u"
    "int (length (db_events s)) \<le> CLOUD_EVENTS_INTEGER_MAX"
  shows "iter_stored_events env p (Some (int u)) (int c + 1) (int c) s
    = (take (u - c) (drop c (stored_events env s)), None)"
  using assms(4)
proof (induction "u - c" arbitrary: c rule: less_induct)
  case less
  show ?case
  proof (cases "c = u")
    case True
    then show ?thesis by (simp add: iter_stored_events.simps)
  next
    case False
    with less.prems have cu: "c < u" by simp
    have p: "0 < nat p" using assms(2) by (simp add: page_size_ok_def)
    let ?page = "take (nat p) (drop c (stored_events env s))"
    have len: "length ?page = min (nat p) (length (db_events s) - c)" by simp
    then have pos: "0 < length ?page" using cu assms(3) p by simp
    then obtain q qs where pg: "?page = q # qs" by (cases ?page) auto
    have rd: "read_events env (page_of (int c) p) s = Inr ?page"
      by (rule read_page) (use assms cu in auto)
    have "stored_sequence (?page ! i) = int c + 1 + int i" if "i < length ?page" for i
      using that stored_events_row(2)[OF assms(1), of "c + i"] cu assms(3) by (simp add: nth_drop algebra_simps less_diff_conv)
    then have y: "yield_page (Some (int u)) (int c + 1) ?page =
        (if int c + int (length ?page) \<le> int u then (?page, Continue (int c + int (length ?page) + 1))
         else (take (nat (int u - int c)) ?page, Stop))"
      using cu by (intro yield_page_intact) auto
    have iter: "iter_stored_events env p (Some (int u)) (int c + 1) (int c) s =
        (case yield_page (Some (int u)) (int c + 1) ?page of
               (ys, Fail e) \<Rightarrow> (ys, Some e)
             | (ys, Stop) \<Rightarrow> (ys, None)
             | (ys, Continue expected') \<Rightarrow>
                 (let (zs, err) = iter_stored_events env p (Some (int u)) expected' (expected' - 1) s in (ys @ zs, err)))"
      using cu by (subst iter_stored_events.simps) (simp add: rd pg)
    show ?thesis
    proof (cases "c + length ?page \<le> u")
      case True
      let ?k = "length ?page"
      have "iter_stored_events env p (Some (int u)) (int (c + ?k) + 1) (int (c + ?k)) s
        = (take (u - (c + ?k)) (drop (c + ?k) (stored_events env s)), None)"
        by (rule less.hyps) (use True pos cu in auto)
      then have "iter_stored_events env p (Some (int u)) (int c + 1) (int c) s
        = (?page @ take (u - (c + ?k)) (drop (c + ?k) (stored_events env s)), None)"
        using True unfolding iter y by (simp add: algebra_simps)
      moreover have "?page = take ?k (drop c (stored_events env s))" by (metis append_eq_conv_conj append_take_drop_id)
      then have "?page @ take (u - (c + ?k)) (drop (c + ?k) (stored_events env s)) = take (u - c) (drop c (stored_events env s))"
        using True take_add[of ?k "u - (c + ?k)" "drop c (stored_events env s)"] by (simp add: add.commute)
      ultimately show ?thesis by simp
    next
      case False
      then have "u - c \<le> nat p" using len assms(3) by (auto simp: min_def split: if_splits)
      moreover have "nat (int u - int c) = u - c" by simp
      ultimately show ?thesis using False unfolding iter y by (simp add: min_absorb1)
    qed
  qed
qed

end
