(* ===== verification/Projections.thy ===== *)
theory Projections
  imports Events
begin

text \<open>
  The contract of \<open>projections/fold.py\<close>: a projection is a pure function of a state and
  one event that may refuse the event.  \<open>fold_events\<close> is the loop.  The locale states
  what every projection of the program promises (an event that is not its own leaves
  the state alone; an accepted event keeps the state's invariant), and its lemmas give
  what callers rely on: folding in two steps, resuming from a checkpoint, ignoring
  foreign events, the invariant of every state reached.
\<close>

definition fold_events :: "('s \<Rightarrow> research_event \<Rightarrow> 'e + 's) \<Rightarrow> 's \<Rightarrow> 's option \<Rightarrow> research_event list
    \<Rightarrow> 'e + 's" where
  "fold_events apply initial resume events =
     fold_r apply (case resume of None \<Rightarrow> initial | Some s \<Rightarrow> s) events"

locale projection =
  fixes step :: "'s \<Rightarrow> 'ev \<Rightarrow> 'e + 's"
    and own :: "'ev \<Rightarrow> bool"
    and ok_event :: "'ev \<Rightarrow> bool"
    and invariant :: "'s \<Rightarrow> bool"
  assumes foreign: "\<not> own e \<Longrightarrow> step s e = Inr s"
    and preserved: "invariant s \<Longrightarrow> ok_event e \<Longrightarrow> step s e = Inr t \<Longrightarrow> invariant t"
begin

lemma fold_split:
  "fold_r step s (es @ fs) = bind_r (fold_r step s es) (\<lambda>t. fold_r step t fs)"
  by (rule fold_r_append)

lemma fold_resume:
  "fold_r step s es = Inr t \<Longrightarrow> fold_r step s (es @ fs) = fold_r step t fs"
  by (simp add: fold_r_append)

lemma fold_own: "fold_r step s (List.filter own es) = fold_r step s es"
  by (induction es arbitrary: s) (auto simp: foreign)

lemma fold_foreign: "(\<forall>e\<in>set es. \<not> own e) \<Longrightarrow> fold_r step s es = Inr s"
  by (induction es) (auto simp: foreign)

lemma fold_invariant:
  "fold_r step s es = Inr t \<Longrightarrow> invariant s \<Longrightarrow> \<forall>e\<in>set es. ok_event e \<Longrightarrow> invariant t"
  by (rule fold_r_invariant[of step s es t]) (auto intro: preserved)

text \<open>A relation that every own step satisfies, that is reflexive and transitive, holds
  between the ends of a fold.\<close>

lemma fold_relation:
  assumes "fold_r step s es = Inr t" "invariant s" "\<forall>e\<in>set es. ok_event e"
    and "\<And>s. R s s" and "\<And>a b c. R a b \<Longrightarrow> R b c \<Longrightarrow> R a c"
    and "\<And>s e t. invariant s \<Longrightarrow> ok_event e \<Longrightarrow> own e \<Longrightarrow> step s e = Inr t \<Longrightarrow> R s t"
  shows "R s t"
  using assms(1-3)
proof (induction es arbitrary: s)
  case (Cons e es)
  then obtain u where u: "step s e = Inr u" "fold_r step u es = Inr t" by (auto simp: result_simps)
  have "R s u"
  proof (cases "own e")
    case True with u(1) Cons.prems assms(6)[of s e u] show ?thesis by simp
  next
    case False with u(1) foreign[of e s] assms(4) show ?thesis by simp
  qed
  moreover have "invariant u" using preserved[OF Cons.prems(2) _ u(1)] Cons.prems(3) by simp
  then have "R u t" using Cons.IH[OF u(2)] Cons.prems(3) by simp
  ultimately show ?case by (rule assms(5))
qed (use assms(4) in simp)

text \<open>The first refusal of a fold happens in a state with the invariant.\<close>

lemma fold_refusal:
  "fold_r step s es = Inl err \<Longrightarrow> invariant s \<Longrightarrow> \<forall>e\<in>set es. ok_event e \<Longrightarrow>
     \<exists>u e. invariant u \<and> e \<in> set es \<and> own e \<and> step u e = Inl err"
proof (induction es arbitrary: s)
  case (Cons e es)
  show ?case
  proof (cases "step s e")
    case (Inl x)
    then have "x = err" using Cons.prems(1) by simp
    moreover have "own e" using Inl foreign[of e s] by auto
    ultimately show ?thesis using Cons.prems Inl by auto
  next
    case (Inr u)
    then have "fold_r step u es = Inl err" "invariant u"
      using Cons.prems preserved[of s e u] by auto
    then show ?thesis using Cons.IH[of u] Cons.prems(3) by auto
  qed
qed simp

end

end
