(* ===== verification/Log_Control.thy ===== *)
theory Log_Control
  imports Replay Projections
begin

text \<open>
  What every control that appends to the log shares: the isolated copy of a draft
  (\<open>internal/jsonclone.py\<close>), folding while replaying, and the contract of the fold a control
  validates with.  A control folds the log, applies the drafted event to the result, and
  appends with the head it folded as the precondition; the locale shows that the committed
  event is then accepted by the same fold, so the log always folds.
\<close>

section \<open>Isolated drafts\<close>

text \<open>The walk keeps its own stack; it visits containers before their members and members in
  order, as this recursion does.  A refusal is a \<open>JsonCloneError\<close> with its message.\<close>

definition not_json :: pystr where "not_json = U ''event draft must contain only JSON values''"
definition keys_not_text :: pystr where "keys_not_text = U ''event draft keys must be JSON strings''"

function snapshot_json_value :: "pyval \<Rightarrow> pystr + pyval" where
  "snapshot_json_value (PyDict d) =
     (if list_ex (\<lambda>(k, _). case k of KStr _ \<Rightarrow> False | KOther _ \<Rightarrow> True) d then Inl keys_not_text
      else bind_r (map_r (\<lambda>kv. bind_r (snapshot_json_value (snd kv)) (\<lambda>v. Inr (fst kv, v))) d) (\<lambda>d'. Inr (PyDict d')))"
| "snapshot_json_value (PyList vs) = bind_r (map_r snapshot_json_value vs) (\<lambda>vs'. Inr (PyList vs'))"
| "snapshot_json_value (PyOther t) = Inl not_json"
| "snapshot_json_value PyNone = Inr PyNone"
| "snapshot_json_value (PyBool b) = Inr (PyBool b)"
| "snapshot_json_value (PyInt i) = Inr (PyInt i)"
| "snapshot_json_value (PyFloat f) = Inr (PyFloat f)"
| "snapshot_json_value (PyStr s) = Inr (PyStr s)"
  by pat_completeness auto

termination snapshot_json_value
  by (relation "measure size") (auto simp: less_Suc_eq_le size_list_estimation' dest: size_snd_less)

definition snapshot_json_document :: "pyval \<Rightarrow> pystr + pydict" where
  "snapshot_json_document document = (case document of
     PyDict _ \<Rightarrow> bind_r (snapshot_json_value document) (\<lambda>cloned. case cloned of
         PyDict d \<Rightarrow> Inr d | _ \<Rightarrow> Inl (U ''event draft must be a JSON object''))
   | _ \<Rightarrow> Inl (U ''event draft must be a JSON object''))"

text \<open>The copy is the same tree.\<close>

lemma snapshot_json_value_same: "snapshot_json_value v = Inr w \<Longrightarrow> w = v"
proof (induction v arbitrary: w rule: snapshot_json_value.induct)
  case (1 d)
  have "ds = e" if "set e \<subseteq> set d" "map_r (\<lambda>kv. bind_r (snapshot_json_value (snd kv)) (\<lambda>v. Inr (fst kv, v))) e = Inr ds"
      "\<not> list_ex (\<lambda>(k, _). case k of KStr _ \<Rightarrow> False | KOther _ \<Rightarrow> True) d" for e ds
    using that
  proof (induction e arbitrary: ds)
    case (Cons kv e)
    then obtain v ds' where v: "snapshot_json_value (snd kv) = Inr v" "ds = (fst kv, v) # ds'"
      "map_r (\<lambda>kv. bind_r (snapshot_json_value (snd kv)) (\<lambda>v. Inr (fst kv, v))) e = Inr ds'"
      by (auto simp: bind_r_Inr_iff)
    have "v = snd kv" using "1.IH"[of kv v] Cons.prems v(1) by auto
    moreover have "ds' = e" using Cons v(3) by auto
    ultimately show ?case using v(2) by simp
  qed simp
  with 1(2) show ?case by (auto simp: bind_r_Inr_iff split: if_splits)
next
  case (2 vs)
  have "us = ws" if "set ws \<subseteq> set vs" "map_r snapshot_json_value ws = Inr us" for ws us
    using that
  proof (induction ws arbitrary: us)
    case (Cons x ws)
    then show ?case using "2.IH"[of x] by (auto simp: bind_r_Inr_iff)
  qed simp
  with 2(2) show ?case by (auto simp: bind_r_Inr_iff)
qed auto

lemma snapshot_json_document_same: "snapshot_json_document document = Inr d \<Longrightarrow> document = PyDict d"
  by (cases document)
    (auto simp: snapshot_json_document_def bind_r_Inr_iff dest!: snapshot_json_value_same
      simp del: snapshot_json_value.simps)

section \<open>Folding while replaying\<close>

text \<open>\<open>for stored in replay_events(...): state = apply(state, stored.event)\<close>: the fold runs between the
  yields, so its error comes before an error of the replay.\<close>

definition fold_replay :: "('s \<Rightarrow> research_event \<Rightarrow> 'e + 's) \<Rightarrow> (store_error \<Rightarrow> 'e) \<Rightarrow> 's
    \<Rightarrow> stored_event list \<times> store_error option \<Rightarrow> 'e + 's" where
  "fold_replay apply store_failed state replay =
     bind_r (fold_r apply state (List.map st_event (fst replay))) (\<lambda>state'.
     case snd replay of None \<Rightarrow> Inr state' | Some e \<Rightarrow> Inl (store_failed e))"

lemma fold_replay_upto:
  assumes "store_inv env s" "page_size_ok p" "int (length (db_events s)) \<le> CLOUD_EVENTS_INTEGER_MAX"
    "u \<le> length (db_events s)"
  shows "fold_replay apply f x (iter_stored_events env p (Some (int u)) 1 0 s) = fold_r apply x (take u (facts env s))"
proof -
  have "iter_stored_events env p (Some (int u)) 1 0 s = (take u (stored_events env s), None)"
    using iter_intact[OF assms(1,2,4) _ assms(3), of 0] by simp
  then show ?thesis
    by (simp add: fold_replay_def facts_stored[OF assms(1)] take_map)
      (cases "fold_r apply x (take u (List.map st_event (stored_events env s)))"; simp add: take_map)
qed

lemma store_inv_length: "store_inv env s \<Longrightarrow> env_ok env \<Longrightarrow> int (length (db_events s)) \<le> CLOUD_EVENTS_INTEGER_MAX"
  using scanned_length[OF store_inv_scanned] by (simp add: CLOUD_EVENTS_INTEGER_MAX_def)

section \<open>Other connections\<close>

text \<open>What other writers may do between two operations of a control: the log only grows, and our
  connection stays what it was.\<close>

definition grows :: "env \<Rightarrow> (store \<Rightarrow> store) \<Rightarrow> bool" where
  "grows env f \<longleftrightarrow> (\<forall>s. store_inv env s \<longrightarrow> store_inv env (f s) \<and> prefix (facts env s) (facts env (f s))
     \<and> writable (f s) = writable s \<and> (report_ok env s \<longrightarrow> report_ok env (f s)))"

lemma grows_id [simp]: "grows env id" "grows env (\<lambda>s. s)"
  by (simp_all add: grows_def)

lemma grows_facts:
  assumes "grows env f" "store_inv env s"
  shows "take (length (db_events s)) (facts env (f s)) = facts env s" "length (db_events s) \<le> length (db_events (f s))"
proof -
  have p: "prefix (facts env s) (facts env (f s))" using assms by (simp add: grows_def)
  then show "take (length (db_events s)) (facts env (f s)) = facts env s" by (auto simp: prefix_def)
  show "length (db_events s) \<le> length (db_events (f s))" using prefix_length_le[OF p] by simp
qed

section \<open>Preflight\<close>

text \<open>Every control checks a draft the same way before it asks the store: copy it, refuse the fields the
  store assigns, allocate the next sequence, validate, and check whose event it is.  Only the
  errors and the last test differ.\<close>

record 'e preflight_errors =
  clone_failed :: "pystr \<Rightarrow> 'e"
  assigned_fields :: "pystr list \<Rightarrow> 'e"
  sequence_exhausted :: 'e
  invalid_draft :: 'e
  wrong_aggregate :: 'e

definition preflight :: "'e preflight_errors \<Rightarrow> (research_event \<Rightarrow> bool) \<Rightarrow> int \<Rightarrow> pyval \<Rightarrow> 'e + pydict \<times> research_event" where
  "preflight err own head document =
     bind_r (map_sum (clone_failed err) id (snapshot_json_document document)) (\<lambda>draft.
     let supplied = List.filter (\<lambda>k. dict_has k draft) STORE_ASSIGNED_FIELDS in
     bind_r (check_r (supplied = []) (assigned_fields err supplied)) (\<lambda>_.
     bind_r (check_r (head < CLOUD_EVENTS_INTEGER_MAX) (sequence_exhausted err)) (\<lambda>_.
     bind_r (lift_option (invalid_draft err) (validate_event_document (PyDict (allocate (head + 1) 0 draft)))) (\<lambda>event.
     bind_r (check_r (own event) (wrong_aggregate err)) (\<lambda>_.
     Inr (draft, event))))))"

lemma map_sum_Inr_iff: "map_sum f g x = Inr y \<longleftrightarrow> (\<exists>z. x = Inr z \<and> y = g z)"
  by (cases x) auto

lemma preflight_iff:
  "preflight err own head document = Inr (d, pre) \<longleftrightarrow>
     snapshot_json_document document = Inr d \<and> no_assigned_fields d \<and> head < CLOUD_EVENTS_INTEGER_MAX
     \<and> validate_event_document (PyDict (allocate (head + 1) 0 d)) = Some pre \<and> own pre"
  by (auto simp: preflight_def Let_def bind_r_Inr_iff check_r_iff lift_option_iff map_sum_Inr_iff
    no_assigned_fields_def filter_empty_conv list_all_iff)

lemma preflightD:
  assumes "preflight err own head document = Inr (d, pre)"
  shows "document = PyDict d" "no_assigned_fields d" "head < CLOUD_EVENTS_INTEGER_MAX"
    "validate_event_document (PyDict (allocate (head + 1) 0 d)) = Some pre" "own pre"
  using assms snapshot_json_document_same by (auto simp: preflight_iff)

text \<open>A draft that validates can be copied.\<close>

lemma snapshot_json_value_dumpable: "json_dumpable v \<Longrightarrow> snapshot_json_value v = Inr v"
proof (induction v rule: snapshot_json_value.induct)
  case (1 d)
  have keys: "\<not> list_ex (\<lambda>(k, _). case k of KStr _ \<Rightarrow> False | KOther _ \<Rightarrow> True) d"
    using "1.prems" by (auto simp: list_ex_iff list_all_iff split: pykey.splits)
  have "map_r (\<lambda>kv. bind_r (snapshot_json_value (snd kv)) (\<lambda>v. Inr (fst kv, v))) d = Inr (List.map (\<lambda>kv. kv) d)"
    by (rule map_r_all) (use "1.prems" "1.IH"[OF keys] in \<open>fastforce simp: list_all_iff\<close>)
  with keys show ?case by simp
next
  case (2 vs)
  have "map_r snapshot_json_value vs = Inr (List.map (\<lambda>v. v) vs)"
    by (rule map_r_all) (use 2 in \<open>auto simp: list_all_iff\<close>)
  then show ?case by simp
qed auto

lemma dumpable_before_allocate: "json_dumpable (PyDict (allocate n m d)) \<Longrightarrow> no_assigned_fields d \<Longrightarrow> json_dumpable (PyDict d)"
proof -
  have keep: "list_all P (dict_set k v e) \<Longrightarrow> dict_get k e = None \<Longrightarrow> list_all P e" for P k v and e :: pydict
    by (induction k v e rule: dict_set.induct) (auto split: if_splits)
  assume "json_dumpable (PyDict (allocate n m d))" "no_assigned_fields d"
  then show ?thesis
    by (auto simp: allocate_def dict_update_def no_assigned_fields_def STORE_ASSIGNED_FIELDS_def dict_has_iff dest!: keep)
qed

lemma accepted_draft_clones:
  assumes "validate_event_document (PyDict (allocate n m d)) = Some e" "no_assigned_fields d" "keys_distinct (PyDict d)"
  shows "snapshot_json_document (PyDict d) = Inr d"
proof -
  have "json_dumpable (PyDict d)"
    using validated_dumpable[OF assms(1) keys_distinct_allocate[OF assms(3)]] assms(2) by (rule dumpable_before_allocate)
  then show ?thesis by (simp add: snapshot_json_document_def snapshot_json_value_dumpable del: snapshot_json_value.simps)
qed

section \<open>The contract of a control's fold\<close>

lemma validated_payload_distinct:
  assumes "validate_event_document v = Some e" "keys_distinct v"
  shows "keys_distinct (ed_payload (e_data e))"
proof -
  obtain d da x where v: "v = PyDict d" "dict_get (U ''data'') d = Some x" "decode_event_data x = Some da" "e_data e = da"
    using assms(1) by (cases v) (auto simp: validate_event_document_def decode_simps)
  then have kx: "keys_distinct x" using assms(2) keys_distinct_member by blast
  obtain c p where "x = PyDict c" "dict_get (U ''payload'') c = Some p" "decode_payload p = Some (ed_payload da)"
    using v(3) by (cases x) (auto simp: decode_event_data_def decode_simps)
  moreover from this have "p = ed_payload da" by (cases p) (auto simp: decode_payload_def)
  ultimately show ?thesis using kx keys_distinct_member v(4) by blast
qed

text \<open>The event the store commits is the one that was checked, up to the stream version.\<close>

lemma committed_event:
  assumes "store_inv env s" "draft_ok env (PyDict d)" "clock_ok now"
    "append_store env now (PyDict d) h s = (s', Inr st)"
    "validate_event_document (PyDict (allocate (last_sequence s + 1) 0 d)) = Some pre"
  obtains m where "st_event st = pre\<lparr>e_streamversion := m\<rparr>" "keys_distinct (ed_payload (e_data (st_event st)))"
proof -
  have "append_checked env now (PyDict d) h s = Inr (s', st)" using assms(4) by (simp add: append_store_Inr)
  then obtain e where e: "validate_event_document (PyDict (allocate (last_sequence s + 1)
      (last_stream_version (e_streamid e) s + 1) d)) = Some e" "st_event st = e"
     "last_sequence s < CLOUD_EVENTS_INTEGER_MAX" "last_stream_version (e_streamid e) s < CLOUD_EVENTS_INTEGER_MAX"
  proof (rule append_checked_committed)
    fix d' t stamp and e :: research_event
    let ?m = "last_stream_version (e_streamid e) s + 1"
    assume *: "PyDict d = PyDict d'" "validate_event_document (PyDict (allocate (last_sequence s + 1) ?m d')) = Some e"
      "e_sequence e = str_int (last_sequence s + 1)" "e_streamversion e = ?m"
      "st = \<lparr>st_event = e, st_recorded_at = stamp, st_digest = LEGACY_SHA256_PREFIX @ env_sha env t\<rparr>"
    have v: "research_event_valid e" using *(2) by (rule validate_event_document_valid)
    have "sequence_of e = last_sequence s + 1"
      using *(3) last_sequence_nonneg[OF assms(1)] by (simp add: sequence_of_def str_int_nat)
    then have "last_sequence s < CLOUD_EVENTS_INTEGER_MAX"
      using sequence_of_bounds(2)[of e] research_event_validD(1)[OF v] by simp
    moreover have "last_stream_version (e_streamid e) s < CLOUD_EVENTS_INTEGER_MAX"
      using research_event_validD(5)[OF v] *(4) by (simp add: StreamVersion_def)
    ultimately show ?thesis using that[of e] * by simp
  qed
  let ?n = "last_sequence s + 1" and ?m = "last_stream_version (e_streamid e) s + 1"
  have b: "1 \<le> ?n" "?n \<le> CLOUD_EVENTS_INTEGER_MAX" "0 \<le> ?m" "?m \<le> CLOUD_EVENTS_INTEGER_MAX"
    "0 \<le> CLOUD_EVENTS_INTEGER_MAX"
    using e(3,4) last_sequence_nonneg[OF assms(1)] last_stream_version_bound[OF assms(1), of "e_streamid e"]
    by (auto simp: CLOUD_EVENTS_INTEGER_MAX_def)
  obtain e1 where "validate_event_document (PyDict (allocate 1 0 d)) = Some e1" "e = renumber ?n ?m e1" "pre = renumber ?n 0 e1"
    using e(1) assms(5) validate_allocate[OF b(1-4), of d] validate_allocate[OF b(1,2) order_refl b(5), of d] by auto
  then obtain m where m: "e = pre\<lparr>e_streamversion := m\<rparr>" by (auto simp: renumber_def)
  have "keys_distinct (PyDict (allocate ?n ?m d))"
    using draft_ok_allocate[OF assms(2)] unfolding draft_ok_def by blast
  from validated_payload_distinct[OF e(1) this] m e(2) show ?thesis by (intro that[of m]) simp_all
qed

locale log_control =
  fixes step :: "'s \<Rightarrow> research_event \<Rightarrow> 'e + 's"
  assumes apply_norm: "keys_distinct (ed_payload (e_data e)) \<Longrightarrow> step s (norm_event e) = step s e"
    and apply_version: "step s (e\<lparr>e_streamversion := m\<rparr>) = step s e"
begin

lemma committed_apply:
  assumes "store_inv env s" "draft_ok env (PyDict d)" "clock_ok now"
    "append_store env now (PyDict d) h s = (s', Inr st)"
    "validate_event_document (PyDict (allocate (last_sequence s + 1) 0 d)) = Some pre"
  shows "step y (st_event st) = step y pre" "step y (fact_of st) = step y pre"
proof -
  obtain m where m: "st_event st = pre\<lparr>e_streamversion := m\<rparr>" "keys_distinct (ed_payload (e_data (st_event st)))"
    by (rule committed_event[OF assms])
  show a: "step y (st_event st) = step y pre" unfolding m(1) by (rule apply_version)
  show "step y (fact_of st) = step y pre" unfolding fact_of_def apply_norm[OF m(2)] by (rule a)
qed

lemma committed_fold:
  assumes "store_inv env s" "draft_ok env (PyDict d)" "clock_ok now"
    "append_store env now (PyDict d) h s = (s', Inr st)"
    "validate_event_document (PyDict (allocate (last_sequence s + 1) 0 d)) = Some pre"
    "fold_r step x (facts env s) = Inr y"
  shows "fold_r step x (facts env s') = step y pre"
proof -
  have "facts env s' = facts env s @ [fact_of st]"
    by (rule store_log.add_committed[where d = "(now, PyDict d)" and h = h])
      (use assms in \<open>simp_all add: good_call_def call_append_def\<close>)
  then show ?thesis using assms(6) committed_apply(2)[OF assms(1-5)] by (simp add: fold_r_snoc)
qed

end

end
