(* ===== verification/Run_Models.thy ===== *)
theory Run_Models
  imports Canonical
begin

text \<open>
  The Run/Attempt documents of \<open>runs/models.py\<close>: the lifecycle event types, the
  status enumerations and sets, the closed payload classes, the snapshot records with
  their validators, \<open>assert_run_snapshot_invariants\<close> with its three helpers, and the
  reading and writing of snapshot documents.

  A validator that raises \<open>ValueError(m)\<close> is a definition that returns \<open>Inl m\<close>; the
  class's \<open>..._valid\<close> predicate collects the field constraints and the validators.
\<close>

definition MAX_ATTEMPTS :: int where "MAX_ATTEMPTS = 32"

section \<open>Event types\<close>

definition TYPE_RUN_QUEUED :: pystr where "TYPE_RUN_QUEUED = U ''run.queued''"
definition TYPE_RUN_STARTED :: pystr where "TYPE_RUN_STARTED = U ''run.started''"
definition TYPE_RUN_CANCEL_REQUESTED :: pystr where "TYPE_RUN_CANCEL_REQUESTED = U ''run.cancel.requested''"
definition TYPE_RUN_COMPLETED :: pystr where "TYPE_RUN_COMPLETED = U ''run.completed''"
definition TYPE_RUN_FAILED :: pystr where "TYPE_RUN_FAILED = U ''run.failed''"
definition TYPE_RUN_CANCELLED :: pystr where "TYPE_RUN_CANCELLED = U ''run.cancelled''"
definition TYPE_RUN_REVIEWED :: pystr where "TYPE_RUN_REVIEWED = U ''run.reviewed''"
definition TYPE_ATTEMPT_QUEUED :: pystr where "TYPE_ATTEMPT_QUEUED = U ''attempt.queued''"
definition TYPE_ATTEMPT_STARTED :: pystr where "TYPE_ATTEMPT_STARTED = U ''attempt.started''"
definition TYPE_ATTEMPT_HEARTBEAT :: pystr where "TYPE_ATTEMPT_HEARTBEAT = U ''attempt.heartbeat''"
definition TYPE_ATTEMPT_CANCEL_REQUESTED :: pystr where
  "TYPE_ATTEMPT_CANCEL_REQUESTED = U ''attempt.cancel.requested''"
definition TYPE_ATTEMPT_UNKNOWN :: pystr where "TYPE_ATTEMPT_UNKNOWN = U ''attempt.unknown''"
definition TYPE_ATTEMPT_LOST :: pystr where "TYPE_ATTEMPT_LOST = U ''attempt.lost''"
definition TYPE_ATTEMPT_RECOVERED :: pystr where "TYPE_ATTEMPT_RECOVERED = U ''attempt.recovered''"
definition TYPE_ATTEMPT_SUCCEEDED :: pystr where "TYPE_ATTEMPT_SUCCEEDED = U ''attempt.succeeded''"
definition TYPE_ATTEMPT_FAILED :: pystr where "TYPE_ATTEMPT_FAILED = U ''attempt.failed''"
definition TYPE_ATTEMPT_CANCELLED :: pystr where "TYPE_ATTEMPT_CANCELLED = U ''attempt.cancelled''"

lemmas run_type_defs = TYPE_RUN_QUEUED_def TYPE_RUN_STARTED_def TYPE_RUN_CANCEL_REQUESTED_def
  TYPE_RUN_COMPLETED_def TYPE_RUN_FAILED_def TYPE_RUN_CANCELLED_def TYPE_RUN_REVIEWED_def
lemmas attempt_type_defs = TYPE_ATTEMPT_QUEUED_def TYPE_ATTEMPT_STARTED_def
  TYPE_ATTEMPT_HEARTBEAT_def TYPE_ATTEMPT_CANCEL_REQUESTED_def TYPE_ATTEMPT_UNKNOWN_def
  TYPE_ATTEMPT_LOST_def TYPE_ATTEMPT_RECOVERED_def TYPE_ATTEMPT_SUCCEEDED_def
  TYPE_ATTEMPT_FAILED_def TYPE_ATTEMPT_CANCELLED_def
lemmas type_defs = run_type_defs attempt_type_defs

definition RUN_LIFECYCLE_TYPES :: "pystr list" where
  "RUN_LIFECYCLE_TYPES = [TYPE_RUN_QUEUED, TYPE_RUN_STARTED, TYPE_RUN_CANCEL_REQUESTED,
     TYPE_RUN_COMPLETED, TYPE_RUN_FAILED, TYPE_RUN_CANCELLED, TYPE_RUN_REVIEWED]"

definition ATTEMPT_LIFECYCLE_TYPES :: "pystr list" where
  "ATTEMPT_LIFECYCLE_TYPES = [TYPE_ATTEMPT_QUEUED, TYPE_ATTEMPT_STARTED, TYPE_ATTEMPT_HEARTBEAT,
     TYPE_ATTEMPT_CANCEL_REQUESTED, TYPE_ATTEMPT_UNKNOWN, TYPE_ATTEMPT_LOST, TYPE_ATTEMPT_RECOVERED,
     TYPE_ATTEMPT_SUCCEEDED, TYPE_ATTEMPT_FAILED, TYPE_ATTEMPT_CANCELLED]"

definition LIFECYCLE_TYPES :: "pystr list" where
  "LIFECYCLE_TYPES = RUN_LIFECYCLE_TYPES @ ATTEMPT_LIFECYCLE_TYPES"

section \<open>Constraints\<close>

definition StrictDigest :: "pystr \<Rightarrow> bool" where
  "StrictDigest s \<longleftrightarrow> 71 \<le> length s \<and> length s \<le> 75 \<and> fullmatch SEMANTIC_DIGEST_PATTERN s"

definition MaxAttempts :: "int \<Rightarrow> bool" where
  "MaxAttempts n \<longleftrightarrow> 1 \<le> n \<and> n \<le> MAX_ATTEMPTS"

definition AttemptOrdinal :: "int \<Rightarrow> bool" where
  "AttemptOrdinal n \<longleftrightarrow> 1 \<le> n \<and> n \<le> MAX_ATTEMPTS"

definition SequenceNumber :: "int \<Rightarrow> bool" where
  "SequenceNumber n \<longleftrightarrow> 1 \<le> n \<and> n \<le> CLOUD_EVENTS_INTEGER_MAX"

section \<open>Statuses\<close>

datatype run_status = R_QUEUED | R_RUNNING | R_RETRY_PENDING | R_LOST | R_UNKNOWN
  | R_COMPLETED | R_FAILED | R_CANCELLED

datatype attempt_status = A_QUEUED | A_RUNNING | A_LOST | A_UNKNOWN | A_SUCCEEDED
  | A_FAILED | A_CANCELLED

datatype retry_hint = H_RETRYABLE | H_NOT_RETRYABLE | H_UNKNOWN

fun run_status_text :: "run_status \<Rightarrow> pystr" where
  "run_status_text R_QUEUED = U ''queued''"
| "run_status_text R_RUNNING = U ''running''"
| "run_status_text R_RETRY_PENDING = U ''retry_pending''"
| "run_status_text R_LOST = U ''lost''"
| "run_status_text R_UNKNOWN = U ''unknown''"
| "run_status_text R_COMPLETED = U ''completed''"
| "run_status_text R_FAILED = U ''failed''"
| "run_status_text R_CANCELLED = U ''cancelled''"

fun attempt_status_text :: "attempt_status \<Rightarrow> pystr" where
  "attempt_status_text A_QUEUED = U ''queued''"
| "attempt_status_text A_RUNNING = U ''running''"
| "attempt_status_text A_LOST = U ''lost''"
| "attempt_status_text A_UNKNOWN = U ''unknown''"
| "attempt_status_text A_SUCCEEDED = U ''succeeded''"
| "attempt_status_text A_FAILED = U ''failed''"
| "attempt_status_text A_CANCELLED = U ''cancelled''"

fun retry_hint_text :: "retry_hint \<Rightarrow> pystr" where
  "retry_hint_text H_RETRYABLE = U ''retryable''"
| "retry_hint_text H_NOT_RETRYABLE = U ''not-retryable''"
| "retry_hint_text H_UNKNOWN = U ''unknown''"

text \<open>\<open>EnumType(text)\<close>\<close>

definition run_status_of :: "pystr \<Rightarrow> run_status option" where
  "run_status_of s = find_first (\<lambda>x. run_status_text x = s)
     [R_QUEUED, R_RUNNING, R_RETRY_PENDING, R_LOST, R_UNKNOWN, R_COMPLETED, R_FAILED, R_CANCELLED]"

definition attempt_status_of :: "pystr \<Rightarrow> attempt_status option" where
  "attempt_status_of s = find_first (\<lambda>x. attempt_status_text x = s)
     [A_QUEUED, A_RUNNING, A_LOST, A_UNKNOWN, A_SUCCEEDED, A_FAILED, A_CANCELLED]"

definition retry_hint_of :: "pystr \<Rightarrow> retry_hint option" where
  "retry_hint_of s = find_first (\<lambda>x. retry_hint_text x = s) [H_RETRYABLE, H_NOT_RETRYABLE, H_UNKNOWN]"

definition UNRESOLVED_ATTEMPT_STATUSES :: "attempt_status list" where
  "UNRESOLVED_ATTEMPT_STATUSES = [A_QUEUED, A_RUNNING, A_LOST, A_UNKNOWN]"
definition TERMINAL_ATTEMPT_STATUSES :: "attempt_status list" where
  "TERMINAL_ATTEMPT_STATUSES = [A_SUCCEEDED, A_FAILED, A_CANCELLED]"
definition TERMINAL_RUN_STATUSES :: "run_status list" where
  "TERMINAL_RUN_STATUSES = [R_COMPLETED, R_FAILED, R_CANCELLED]"
definition RUN_CANCEL_REQUEST_STATUSES :: "run_status list" where
  "RUN_CANCEL_REQUEST_STATUSES = [R_QUEUED, R_RUNNING, R_RETRY_PENDING, R_LOST, R_UNKNOWN]"
definition ATTEMPT_CANCEL_REQUEST_STATUSES :: "attempt_status list" where
  "ATTEMPT_CANCEL_REQUEST_STATUSES = [A_QUEUED, A_RUNNING, A_LOST, A_UNKNOWN]"
definition ATTEMPT_START_STATUSES :: "attempt_status list" where
  "ATTEMPT_START_STATUSES = [A_QUEUED]"
definition ATTEMPT_HEARTBEAT_STATUSES :: "attempt_status list" where
  "ATTEMPT_HEARTBEAT_STATUSES = [A_RUNNING]"
definition ATTEMPT_UNKNOWN_STATUSES :: "attempt_status list" where
  "ATTEMPT_UNKNOWN_STATUSES = [A_RUNNING]"
definition ATTEMPT_LOST_STATUSES :: "attempt_status list" where
  "ATTEMPT_LOST_STATUSES = [A_RUNNING, A_UNKNOWN]"
definition ATTEMPT_RECOVERED_STATUSES :: "attempt_status list" where
  "ATTEMPT_RECOVERED_STATUSES = [A_LOST, A_UNKNOWN]"
definition ATTEMPT_SUCCEEDED_STATUSES :: "attempt_status list" where
  "ATTEMPT_SUCCEEDED_STATUSES = [A_RUNNING, A_LOST, A_UNKNOWN]"
definition ATTEMPT_FAILED_STATUSES :: "attempt_status list" where
  "ATTEMPT_FAILED_STATUSES = [A_QUEUED, A_RUNNING, A_LOST, A_UNKNOWN]"
definition ATTEMPT_CANCELLED_STATUSES :: "attempt_status list" where
  "ATTEMPT_CANCELLED_STATUSES = [A_QUEUED, A_RUNNING, A_LOST, A_UNKNOWN]"

lemmas run_status_sets = TERMINAL_RUN_STATUSES_def RUN_CANCEL_REQUEST_STATUSES_def
lemmas attempt_status_sets = UNRESOLVED_ATTEMPT_STATUSES_def TERMINAL_ATTEMPT_STATUSES_def
  ATTEMPT_CANCEL_REQUEST_STATUSES_def ATTEMPT_START_STATUSES_def ATTEMPT_HEARTBEAT_STATUSES_def
  ATTEMPT_UNKNOWN_STATUSES_def ATTEMPT_LOST_STATUSES_def ATTEMPT_RECOVERED_STATUSES_def
  ATTEMPT_SUCCEEDED_STATUSES_def ATTEMPT_FAILED_STATUSES_def ATTEMPT_CANCELLED_STATUSES_def

abbreviation is_unresolved :: "attempt_status \<Rightarrow> bool" where
  "is_unresolved st \<equiv> List.member UNRESOLVED_ATTEMPT_STATUSES st"

abbreviation is_terminal_run :: "run_status \<Rightarrow> bool" where
  "is_terminal_run st \<equiv> List.member TERMINAL_RUN_STATUSES st"

section \<open>Payloads\<close>

record run_queued_payload =
  q_workflow_id :: pystr
  q_spec_digest :: pystr
  q_registry_digest :: pystr
  q_plan_digest :: pystr
  q_decision_digest :: "pystr option"
  q_authorization_event_id :: "pystr option"
  q_authorization_sequence :: "pystr option"
  q_max_attempts :: int

datatype lifecycle_payload =
    EmptyPayload
  | ReasonCodePayload pystr
  | RunQueuedPayload run_queued_payload
  | RunReviewedPayload pystr
  | AttemptQueuedPayload int "pystr option" "pystr option"
  | AttemptFailedPayload pystr retry_hint

definition run_queued_payload_valid :: "run_queued_payload \<Rightarrow> bool" where
  "run_queued_payload_valid q \<longleftrightarrow> EventIdentifier (q_workflow_id q)
     \<and> StrictDigest (q_spec_digest q) \<and> StrictDigest (q_registry_digest q) \<and> StrictDigest (q_plan_digest q)
     \<and> pred_option StrictDigest (q_decision_digest q)
     \<and> pred_option CloudEventsString (q_authorization_event_id q)
     \<and> pred_option SequenceIntegerString (q_authorization_sequence q)
     \<and> MaxAttempts (q_max_attempts q)
     \<and> ((q_authorization_event_id q \<noteq> None) = (q_authorization_sequence q \<noteq> None))"

fun payload_valid :: "lifecycle_payload \<Rightarrow> bool" where
  "payload_valid EmptyPayload = True"
| "payload_valid (ReasonCodePayload r) = EventIdentifier r"
| "payload_valid (RunQueuedPayload q) = run_queued_payload_valid q"
| "payload_valid (RunReviewedPayload i) = EventIdentifier i"
| "payload_valid (AttemptQueuedPayload n ro rd) =
     (AttemptOrdinal n \<and> pred_option EventIdentifier ro \<and> pred_option EventIdentifier rd)"
| "payload_valid (AttemptFailedPayload r h) = EventIdentifier r"

text \<open>\<open>_reject_null_optional_digest\<close>: the key may be missing but not null\<close>

definition not_null :: "pydict \<Rightarrow> pystr \<Rightarrow> bool" where
  "not_null d k \<longleftrightarrow> dict_get k d \<noteq> Some PyNone"

definition decode_empty :: "pyval \<Rightarrow> lifecycle_payload option" where
  "decode_empty v = do { d \<leftarrow> as_dict v; check_o (only_keys [] d); Some EmptyPayload }"

definition decode_reason_code :: "pyval \<Rightarrow> lifecycle_payload option" where
  "decode_reason_code v = do {
     d \<leftarrow> as_dict v; check_o (only_keys [U ''reasonCode''] d);
     r \<leftarrow> req_field d (U ''reasonCode'') as_str;
     keep_o payload_valid (ReasonCodePayload r) }"

definition decode_run_queued :: "pyval \<Rightarrow> lifecycle_payload option" where
  "decode_run_queued v = do {
     d \<leftarrow> as_dict v;
     check_o (not_null d (U ''decisionDigest'') \<and> not_null d (U ''authorizationEventId'')
       \<and> not_null d (U ''authorizationSequence''));
     check_o (only_keys [U ''workflowId'', U ''specDigest'', U ''registryDigest'', U ''planDigest'',
       U ''decisionDigest'', U ''authorizationEventId'', U ''authorizationSequence'', U ''maxAttempts''] d);
     w \<leftarrow> req_field d (U ''workflowId'') as_str;
     s \<leftarrow> req_field d (U ''specDigest'') as_str;
     r \<leftarrow> req_field d (U ''registryDigest'') as_str;
     p \<leftarrow> req_field d (U ''planDigest'') as_str;
     dd \<leftarrow> opt_field d (U ''decisionDigest'') None (nullable_of as_str);
     ae \<leftarrow> opt_field d (U ''authorizationEventId'') None (nullable_of as_str);
     as \<leftarrow> opt_field d (U ''authorizationSequence'') None (nullable_of as_str);
     m \<leftarrow> req_field d (U ''maxAttempts'') as_int;
     keep_o payload_valid (RunQueuedPayload \<lparr>q_workflow_id = w, q_spec_digest = s,
       q_registry_digest = r, q_plan_digest = p, q_decision_digest = dd,
       q_authorization_event_id = ae, q_authorization_sequence = as, q_max_attempts = m\<rparr>) }"

definition decode_run_reviewed :: "pyval \<Rightarrow> lifecycle_payload option" where
  "decode_run_reviewed v = do {
     d \<leftarrow> as_dict v; check_o (only_keys [U ''decisionId''] d);
     i \<leftarrow> req_field d (U ''decisionId'') as_str;
     keep_o payload_valid (RunReviewedPayload i) }"

definition decode_attempt_queued :: "pyval \<Rightarrow> lifecycle_payload option" where
  "decode_attempt_queued v = do {
     d \<leftarrow> as_dict v; check_o (only_keys [U ''ordinal'', U ''retryOf'', U ''retryDecisionId''] d);
     n \<leftarrow> req_field d (U ''ordinal'') as_int;
     ro \<leftarrow> req_field d (U ''retryOf'') (nullable_of as_str);
     rd \<leftarrow> req_field d (U ''retryDecisionId'') (nullable_of as_str);
     keep_o payload_valid (AttemptQueuedPayload n ro rd) }"

definition decode_attempt_failed :: "pyval \<Rightarrow> lifecycle_payload option" where
  "decode_attempt_failed v = do {
     d \<leftarrow> as_dict v; check_o (only_keys [U ''reasonCode'', U ''retryHint''] d);
     r \<leftarrow> req_field d (U ''reasonCode'') as_str;
     h \<leftarrow> req_field d (U ''retryHint'') (\<lambda>v. Option.bind (as_str v) retry_hint_of);
     keep_o payload_valid (AttemptFailedPayload r h) }"

definition PAYLOAD_MODELS :: "(pystr \<times> (pyval \<Rightarrow> lifecycle_payload option)) list" where
  "PAYLOAD_MODELS =
    [(TYPE_RUN_QUEUED, decode_run_queued), (TYPE_RUN_STARTED, decode_empty),
     (TYPE_RUN_CANCEL_REQUESTED, decode_reason_code), (TYPE_RUN_COMPLETED, decode_empty),
     (TYPE_RUN_FAILED, decode_reason_code), (TYPE_RUN_CANCELLED, decode_empty),
     (TYPE_RUN_REVIEWED, decode_run_reviewed), (TYPE_ATTEMPT_QUEUED, decode_attempt_queued),
     (TYPE_ATTEMPT_STARTED, decode_empty), (TYPE_ATTEMPT_HEARTBEAT, decode_empty),
     (TYPE_ATTEMPT_CANCEL_REQUESTED, decode_reason_code), (TYPE_ATTEMPT_UNKNOWN, decode_reason_code),
     (TYPE_ATTEMPT_LOST, decode_reason_code), (TYPE_ATTEMPT_RECOVERED, decode_empty),
     (TYPE_ATTEMPT_SUCCEEDED, decode_empty), (TYPE_ATTEMPT_FAILED, decode_attempt_failed),
     (TYPE_ATTEMPT_CANCELLED, decode_empty)]"

section \<open>Errors\<close>

datatype run_error =
    RunTransitionError pystr
  | RunPayloadError pystr
  | RunStateError pystr
  | RunControlError pystr
  | RunValidationError
  | RunKeyError

definition payload_error_message :: "research_event \<Rightarrow> pystr" where
  "payload_error_message e = U ''invalid payload for lifecycle type '' @ e_type e
     @ U '' (event id '' @ e_id e @ U '', sequence '' @ e_sequence e @ U '')''"

definition parse_lifecycle_payload :: "research_event \<Rightarrow> run_error + lifecycle_payload" where
  "parse_lifecycle_payload e =
     (case map_of PAYLOAD_MODELS (e_type e) of
        None \<Rightarrow> Inl RunKeyError
      | Some decode \<Rightarrow>
          lift_option (RunPayloadError (payload_error_message e)) (decode (ed_payload (e_data e))))"

section \<open>Snapshots\<close>

record run_digests =
  dg_spec :: pystr
  dg_registry :: pystr
  dg_plan :: pystr
  dg_decision_digest :: "pystr option"

record consumed_authorization =
  ca_event_id :: pystr
  ca_sequence :: int

record run_review =
  rv_reviewed :: bool
  rv_event_id :: "pystr option"
  rv_sequence :: "int option"
  rv_decision_id :: "pystr option"

record attempt_snapshot =
  a_attempt_id :: pystr
  a_ordinal :: int
  a_retry_of :: "pystr option"
  a_retry_decision_id :: "pystr option"
  a_status :: attempt_status
  a_cancellation_requested :: bool
  a_retry_hint :: "retry_hint option"
  a_last_event_id :: pystr
  a_last_sequence :: int
  a_last_heartbeat_sequence :: "int option"

record run_snapshot =
  s_api_version :: pystr
  s_kind :: pystr
  s_project_id :: pystr
  s_experiment_revision :: int
  s_run_id :: pystr
  s_workflow_id :: pystr
  s_digests :: run_digests
  s_max_attempts :: int
  s_status :: run_status
  s_cancellation_requested :: bool
  s_active_attempt_id :: "pystr option"
  s_attempts :: "attempt_snapshot list"
  s_last_event_id :: pystr
  s_last_sequence :: int
  s_review :: run_review
  s_consumed_authorization :: "consumed_authorization option"

definition run_digests_valid :: "run_digests \<Rightarrow> bool" where
  "run_digests_valid d \<longleftrightarrow> StrictDigest (dg_spec d) \<and> StrictDigest (dg_registry d)
     \<and> StrictDigest (dg_plan d) \<and> pred_option StrictDigest (dg_decision_digest d)"

definition consumed_authorization_valid :: "consumed_authorization \<Rightarrow> bool" where
  "consumed_authorization_valid c \<longleftrightarrow> CloudEventsString (ca_event_id c) \<and> SequenceNumber (ca_sequence c)"

definition review_fields_are_consistent :: "run_review \<Rightarrow> pystr + unit" where
  "review_fields_are_consistent r =
     (let present = [rv_event_id r \<noteq> None, rv_sequence r \<noteq> None, rv_decision_id r \<noteq> None]
      in if rv_reviewed r then
           (if \<not> list_all id present
            then Inl (U ''reviewed runs require eventId, sequence and decisionId'') else Inr ())
         else if list_ex id present
              then Inl (U ''unreviewed runs must not record review identity'') else Inr ())"

definition run_review_valid :: "run_review \<Rightarrow> bool" where
  "run_review_valid r \<longleftrightarrow> pred_option CloudEventsString (rv_event_id r)
     \<and> pred_option SequenceNumber (rv_sequence r) \<and> pred_option EventIdentifier (rv_decision_id r)
     \<and> is_ok (review_fields_are_consistent r)"

definition attempt_fields_are_consistent :: "attempt_snapshot \<Rightarrow> pystr + unit" where
  "attempt_fields_are_consistent a =
     (if a_ordinal a = 1 \<and> (a_retry_of a \<noteq> None \<or> a_retry_decision_id a \<noteq> None)
      then Inl (U ''the first attempt must not declare retry identity'')
      else if a_ordinal a \<noteq> 1 \<and> (a_retry_of a = None \<or> a_retry_decision_id a = None)
      then Inl (U ''retry attempts require retryOf and retryDecisionId'')
      else if a_status a = A_FAILED \<and> a_retry_hint a = None
      then Inl (U ''failed attempts require retryHint'')
      else if a_status a \<noteq> A_FAILED \<and> a_retry_hint a \<noteq> None
      then Inl (U ''retryHint is only recorded on failed attempts'')
      else (case a_last_heartbeat_sequence a of
              None \<Rightarrow> Inr ()
            | Some h \<Rightarrow> if h > a_last_sequence a
                then Inl (U ''lastHeartbeatSequence must not exceed the attempt lastSequence'')
                else Inr ()))"

definition attempt_snapshot_valid :: "attempt_snapshot \<Rightarrow> bool" where
  "attempt_snapshot_valid a \<longleftrightarrow> EventIdentifier (a_attempt_id a) \<and> AttemptOrdinal (a_ordinal a)
     \<and> pred_option EventIdentifier (a_retry_of a) \<and> pred_option EventIdentifier (a_retry_decision_id a)
     \<and> CloudEventsString (a_last_event_id a) \<and> SequenceNumber (a_last_sequence a)
     \<and> pred_option SequenceNumber (a_last_heartbeat_sequence a)
     \<and> is_ok (attempt_fields_are_consistent a)"

section \<open>Snapshot invariants\<close>

definition unresolved_attempts :: "attempt_snapshot list \<Rightarrow> attempt_snapshot list" where
  "unresolved_attempts xs = List.filter (\<lambda>a. is_unresolved (a_status a)) xs"

definition first_of :: "'a list \<Rightarrow> 'a option" where
  "first_of xs = (case xs of [] \<Rightarrow> None | x # _ \<Rightarrow> Some x)"

definition status_is :: "attempt_snapshot option \<Rightarrow> attempt_status list \<Rightarrow> bool" where
  "status_is a sts \<longleftrightarrow> (case a of None \<Rightarrow> False | Some x \<Rightarrow> List.member sts (a_status x))"

definition assert_run_status_matches_attempts ::
    "run_snapshot \<Rightarrow> attempt_snapshot list \<Rightarrow> pystr + unit" where
  "assert_run_status_matches_attempts s unresolved =
     (let latest = last_of (s_attempts s); active = first_of unresolved in
      case s_status s of
        R_QUEUED \<Rightarrow>
          if s_attempts s \<noteq> [] then Inl (U ''queued runs must not have attempts'')
          else if s_active_attempt_id s \<noteq> None then Inl (U ''queued runs must not have an active attempt'')
          else Inr ()
      | R_LOST \<Rightarrow>
          if \<not> status_is active [A_LOST] then Inl (U ''lost runs require a unique active lost attempt'')
          else Inr ()
      | R_UNKNOWN \<Rightarrow>
          if \<not> status_is active [A_UNKNOWN] then Inl (U ''unknown runs require a unique active unknown attempt'')
          else Inr ()
      | R_RETRY_PENDING \<Rightarrow>
          if active \<noteq> None then Inl (U ''retry_pending runs must not have an active attempt'')
          else if \<not> status_is latest [A_FAILED]
          then Inl (U ''retry_pending runs require the latest attempt to have failed'')
          else Inr ()
      | R_COMPLETED \<Rightarrow>
          if active \<noteq> None then Inl (U ''completed runs must not have an active attempt'')
          else if \<not> status_is latest [A_SUCCEEDED]
          then Inl (U ''completed runs require the latest attempt to have succeeded'')
          else Inr ()
      | R_FAILED \<Rightarrow>
          if active \<noteq> None then Inl (U ''failed runs must not have an active attempt'')
          else if \<not> status_is latest [A_FAILED]
          then Inl (U ''failed runs require the latest attempt to have failed'')
          else Inr ()
      | R_CANCELLED \<Rightarrow>
          if \<not> s_cancellation_requested s then Inl (U ''cancelled runs require a cancellation request'')
          else if active \<noteq> None then Inl (U ''cancelled runs must not have an active attempt'')
          else if latest \<noteq> None \<and> \<not> status_is latest [A_CANCELLED]
          then Inl (U ''cancelled runs require no attempts or a latest cancelled attempt'')
          else Inr ()
      | R_RUNNING \<Rightarrow>
          (let no_attempts = (latest = None);
               active_in_progress = status_is active [A_QUEUED, A_RUNNING];
               settled_latest = (active = None \<and> status_is latest [A_SUCCEEDED, A_CANCELLED])
           in if \<not> (no_attempts \<or> active_in_progress \<or> settled_latest)
              then Inl (U ''running runs only allow reachable intermediate attempt states'')
              else Inr ()))"

text \<open>The loop over \<open>enumerate(attempts)\<close>, with the previous attempt carried along.\<close>

fun assert_retry_chain_from :: "attempt_snapshot option \<Rightarrow> attempt_snapshot list \<Rightarrow> pystr + unit" where
  "assert_retry_chain_from p [] = Inr ()"
| "assert_retry_chain_from None (a # as) =
     (if a_retry_of a \<noteq> None \<or> a_retry_decision_id a \<noteq> None
      then Inl (U ''the first attempt must not declare retry identity'')
      else assert_retry_chain_from (Some a) as)"
| "assert_retry_chain_from (Some p) (a # as) =
     (if a_status p \<noteq> A_FAILED then Inl (U ''retry attempts require the previous attempt to have failed'')
      else if a_retry_of a \<noteq> Some (a_attempt_id p) then Inl (U ''retryOf must equal the previous attempt id'')
      else if a_retry_decision_id a = None then Inl (U ''retry attempts require retryOf and retryDecisionId'')
      else assert_retry_chain_from (Some a) as)"

definition assert_retry_chain :: "attempt_snapshot list \<Rightarrow> pystr + unit" where
  "assert_retry_chain attempts = assert_retry_chain_from None attempts"

fun assert_attempt_cursors :: "int \<Rightarrow> int \<Rightarrow> attempt_snapshot list \<Rightarrow> pystr + unit" where
  "assert_attempt_cursors run_last previous [] = Inr ()"
| "assert_attempt_cursors run_last previous (a # as) =
     (if a_last_sequence a > run_last
      then Inl (U ''attempt lastSequence must not exceed the run lastSequence'')
      else if (case a_last_heartbeat_sequence a of None \<Rightarrow> False | Some h \<Rightarrow> h > a_last_sequence a)
      then Inl (U ''lastHeartbeatSequence must not exceed the attempt lastSequence'')
      else if a_last_sequence a \<le> previous
      then Inl (U ''attempt lastSequence must strictly increase by ordinal'')
      else assert_attempt_cursors run_last (a_last_sequence a) as)"

definition assert_sequence_cursors :: "run_snapshot \<Rightarrow> pystr + unit" where
  "assert_sequence_cursors s =
     bind_r (assert_attempt_cursors (s_last_sequence s) 0 (s_attempts s)) (\<lambda>_.
       if rv_reviewed (s_review s)
          \<and> (case rv_sequence (s_review s) of None \<Rightarrow> False | Some q \<Rightarrow> q > s_last_sequence s)
       then Inl (U ''review sequence must not exceed the run lastSequence'')
       else Inr ())"

definition assert_run_snapshot_invariants :: "run_snapshot \<Rightarrow> pystr + unit" where
  "assert_run_snapshot_invariants s =
     (let ordinals = List.map a_ordinal (s_attempts s);
          attempt_ids = List.map a_attempt_id (s_attempts s);
          unresolved = unresolved_attempts (s_attempts s);
          expected_active = map_option a_attempt_id (first_of unresolved)
      in if ordinals \<noteq> List.map int [1..<length (s_attempts s) + 1]
         then Inl (U ''attempts must be stored by contiguous ordinal starting at 1'')
         else if length attempt_ids \<noteq> length (remdups attempt_ids) then Inl (U ''attempt IDs must be unique'')
         else if length unresolved > 1 then Inl (U ''a run may have at most one unresolved attempt'')
         else if s_active_attempt_id s \<noteq> expected_active
         then Inl (U ''activeAttemptId must match the unresolved attempt'')
         else if rv_reviewed (s_review s) \<and> \<not> is_terminal_run (s_status s)
         then Inl (U ''reviewed is only derived after a terminal run status'')
         else if int (length (s_attempts s)) > s_max_attempts s then Inl (U ''attempts exceed maxAttempts'')
         else bind_r (assert_run_status_matches_attempts s unresolved) (\<lambda>_.
              bind_r (assert_retry_chain (s_attempts s)) (\<lambda>_.
                assert_sequence_cursors s)))"

definition run_snapshot_valid :: "run_snapshot \<Rightarrow> bool" where
  "run_snapshot_valid s \<longleftrightarrow> s_api_version s = U ''researchos.dev/v0alpha1'' \<and> s_kind s = U ''RunSnapshot''
     \<and> EventIdentifier (s_project_id s)
     \<and> (1 \<le> s_experiment_revision s \<and> s_experiment_revision s \<le> CLOUD_EVENTS_INTEGER_MAX)
     \<and> EventIdentifier (s_run_id s) \<and> EventIdentifier (s_workflow_id s)
     \<and> run_digests_valid (s_digests s) \<and> MaxAttempts (s_max_attempts s)
     \<and> pred_option EventIdentifier (s_active_attempt_id s)
     \<and> list_all attempt_snapshot_valid (s_attempts s) \<and> int (length (s_attempts s)) \<le> MAX_ATTEMPTS
     \<and> CloudEventsString (s_last_event_id s) \<and> SequenceNumber (s_last_sequence s)
     \<and> run_review_valid (s_review s)
     \<and> pred_option consumed_authorization_valid (s_consumed_authorization s)
     \<and> is_ok (assert_run_snapshot_invariants s)"

section \<open>Snapshot documents\<close>

definition dump_str :: "pystr option \<Rightarrow> pyval" where "dump_str = dump_opt PyStr"
definition dump_int :: "int option \<Rightarrow> pyval" where "dump_int = dump_opt PyInt"

definition attempt_document :: "attempt_snapshot \<Rightarrow> pyval" where
  "attempt_document a = PyDict
     [(KStr (U ''attemptId''), PyStr (a_attempt_id a)),
      (KStr (U ''ordinal''), PyInt (a_ordinal a)),
      (KStr (U ''retryOf''), dump_str (a_retry_of a)),
      (KStr (U ''retryDecisionId''), dump_str (a_retry_decision_id a)),
      (KStr (U ''status''), PyStr (attempt_status_text (a_status a))),
      (KStr (U ''cancellationRequested''), PyBool (a_cancellation_requested a)),
      (KStr (U ''retryHint''), dump_opt (\<lambda>h. PyStr (retry_hint_text h)) (a_retry_hint a)),
      (KStr (U ''lastEventId''), PyStr (a_last_event_id a)),
      (KStr (U ''lastSequence''), PyInt (a_last_sequence a)),
      (KStr (U ''lastHeartbeatSequence''), dump_int (a_last_heartbeat_sequence a))]"

definition digests_document :: "run_digests \<Rightarrow> pydict" where
  "digests_document d =
     [(KStr (U ''spec''), PyStr (dg_spec d)), (KStr (U ''registry''), PyStr (dg_registry d)),
      (KStr (U ''plan''), PyStr (dg_plan d)), (KStr (U ''decisionDigest''), dump_str (dg_decision_digest d))]"

definition review_document :: "run_review \<Rightarrow> pyval" where
  "review_document r = PyDict
     [(KStr (U ''reviewed''), PyBool (rv_reviewed r)), (KStr (U ''eventId''), dump_str (rv_event_id r)),
      (KStr (U ''sequence''), dump_int (rv_sequence r)), (KStr (U ''decisionId''), dump_str (rv_decision_id r))]"

definition consumed_document :: "consumed_authorization \<Rightarrow> pyval" where
  "consumed_document c = PyDict
     [(KStr (U ''eventId''), PyStr (ca_event_id c)), (KStr (U ''sequence''), PyInt (ca_sequence c))]"

text \<open>\<open>model_dump\<close> by alias, then the two optional entries are dropped when null.\<close>

definition run_snapshot_document :: "run_snapshot \<Rightarrow> pyval" where
  "run_snapshot_document s =
     (let digests = digests_document (s_digests s);
          digests' = (if dict_get (U ''decisionDigest'') digests = Some PyNone
                      then dict_pop (U ''decisionDigest'') digests else digests);
          payload =
            [(KStr (U ''apiVersion''), PyStr (s_api_version s)),
             (KStr (U ''kind''), PyStr (s_kind s)),
             (KStr (U ''projectId''), PyStr (s_project_id s)),
             (KStr (U ''experimentRevision''), PyInt (s_experiment_revision s)),
             (KStr (U ''runId''), PyStr (s_run_id s)),
             (KStr (U ''workflowId''), PyStr (s_workflow_id s)),
             (KStr (U ''digests''), PyDict digests'),
             (KStr (U ''maxAttempts''), PyInt (s_max_attempts s)),
             (KStr (U ''status''), PyStr (run_status_text (s_status s))),
             (KStr (U ''cancellationRequested''), PyBool (s_cancellation_requested s)),
             (KStr (U ''activeAttemptId''), dump_str (s_active_attempt_id s)),
             (KStr (U ''attempts''), PyList (List.map attempt_document (s_attempts s))),
             (KStr (U ''lastEventId''), PyStr (s_last_event_id s)),
             (KStr (U ''lastSequence''), PyInt (s_last_sequence s)),
             (KStr (U ''review''), review_document (s_review s)),
             (KStr (U ''consumedAuthorization''), dump_opt consumed_document (s_consumed_authorization s))]
      in PyDict (if dict_get (U ''consumedAuthorization'') payload = Some PyNone
                 then dict_pop (U ''consumedAuthorization'') payload else payload))"

text \<open>\<open>coerce_attempt_enums\<close> runs before the type check of both \<open>status\<close> and
  \<open>retryHint\<close>: a text that names an attempt status becomes that status, whichever field
  it is in, and only other texts are tried as a hint.  The strict check that follows
  accepts a member of the field's own enumeration only.\<close>

datatype coerced_enum = C_Status attempt_status | C_Hint retry_hint | C_Raw pyval

definition coerce_attempt_enums :: "pyval \<Rightarrow> coerced_enum" where
  "coerce_attempt_enums v = (case v of
     PyStr s \<Rightarrow> (case attempt_status_of s of
         Some st \<Rightarrow> C_Status st
       | None \<Rightarrow> (case retry_hint_of s of Some h \<Rightarrow> C_Hint h | None \<Rightarrow> C_Raw v))
   | _ \<Rightarrow> C_Raw v)"

definition decode_attempt_status :: "pyval \<Rightarrow> attempt_status option" where
  "decode_attempt_status v = (case coerce_attempt_enums v of C_Status st \<Rightarrow> Some st | _ \<Rightarrow> None)"

definition decode_retry_hint :: "pyval \<Rightarrow> retry_hint option" where
  "decode_retry_hint v = (case coerce_attempt_enums v of C_Hint h \<Rightarrow> Some h | _ \<Rightarrow> None)"

definition decode_attempt_snapshot :: "pyval \<Rightarrow> attempt_snapshot option" where
  "decode_attempt_snapshot v = do {
     d \<leftarrow> as_dict v;
     check_o (only_keys [U ''attemptId'', U ''ordinal'', U ''retryOf'', U ''retryDecisionId'', U ''status'',
       U ''cancellationRequested'', U ''retryHint'', U ''lastEventId'', U ''lastSequence'',
       U ''lastHeartbeatSequence''] d);
     i \<leftarrow> req_field d (U ''attemptId'') as_str;
     n \<leftarrow> req_field d (U ''ordinal'') as_int;
     ro \<leftarrow> req_field d (U ''retryOf'') (nullable_of as_str);
     rd \<leftarrow> req_field d (U ''retryDecisionId'') (nullable_of as_str);
     st \<leftarrow> req_field d (U ''status'') decode_attempt_status;
     cr \<leftarrow> req_field d (U ''cancellationRequested'') as_bool;
     h \<leftarrow> req_field d (U ''retryHint'') (nullable_of decode_retry_hint);
     le \<leftarrow> req_field d (U ''lastEventId'') as_str;
     ls \<leftarrow> req_field d (U ''lastSequence'') as_int;
     hb \<leftarrow> opt_field d (U ''lastHeartbeatSequence'') None (nullable_of as_int);
     keep_o attempt_snapshot_valid \<lparr>a_attempt_id = i, a_ordinal = n, a_retry_of = ro,
       a_retry_decision_id = rd, a_status = st, a_cancellation_requested = cr, a_retry_hint = h,
       a_last_event_id = le, a_last_sequence = ls, a_last_heartbeat_sequence = hb\<rparr> }"

definition decode_run_digests :: "pyval \<Rightarrow> run_digests option" where
  "decode_run_digests v = do {
     d \<leftarrow> as_dict v;
     check_o (not_null d (U ''decisionDigest''));
     check_o (only_keys [U ''spec'', U ''registry'', U ''plan'', U ''decisionDigest''] d);
     s \<leftarrow> req_field d (U ''spec'') as_str;
     r \<leftarrow> req_field d (U ''registry'') as_str;
     p \<leftarrow> req_field d (U ''plan'') as_str;
     dd \<leftarrow> opt_field d (U ''decisionDigest'') None (nullable_of as_str);
     keep_o run_digests_valid \<lparr>dg_spec = s, dg_registry = r, dg_plan = p, dg_decision_digest = dd\<rparr> }"

definition decode_run_review :: "pyval \<Rightarrow> run_review option" where
  "decode_run_review v = do {
     d \<leftarrow> as_dict v;
     check_o (only_keys [U ''reviewed'', U ''eventId'', U ''sequence'', U ''decisionId''] d);
     r \<leftarrow> req_field d (U ''reviewed'') as_bool;
     e \<leftarrow> opt_field d (U ''eventId'') None (nullable_of as_str);
     q \<leftarrow> opt_field d (U ''sequence'') None (nullable_of as_int);
     i \<leftarrow> opt_field d (U ''decisionId'') None (nullable_of as_str);
     keep_o run_review_valid \<lparr>rv_reviewed = r, rv_event_id = e, rv_sequence = q, rv_decision_id = i\<rparr> }"

definition decode_consumed_authorization :: "pyval \<Rightarrow> consumed_authorization option" where
  "decode_consumed_authorization v = do {
     d \<leftarrow> as_dict v;
     check_o (only_keys [U ''eventId'', U ''sequence''] d);
     e \<leftarrow> req_field d (U ''eventId'') as_str;
     q \<leftarrow> req_field d (U ''sequence'') as_int;
     keep_o consumed_authorization_valid \<lparr>ca_event_id = e, ca_sequence = q\<rparr> }"

definition validate_run_snapshot_document :: "pyval \<Rightarrow> run_snapshot option" where
  "validate_run_snapshot_document v = do {
     d \<leftarrow> as_dict v;
     check_o (not_null d (U ''consumedAuthorization''));
     check_o (only_keys [U ''apiVersion'', U ''kind'', U ''projectId'', U ''experimentRevision'', U ''runId'',
       U ''workflowId'', U ''digests'', U ''maxAttempts'', U ''status'', U ''cancellationRequested'',
       U ''activeAttemptId'', U ''attempts'', U ''lastEventId'', U ''lastSequence'', U ''review'',
       U ''consumedAuthorization''] d);
     av \<leftarrow> req_field d (U ''apiVersion'') as_str;
     kd \<leftarrow> req_field d (U ''kind'') as_str;
     pid \<leftarrow> req_field d (U ''projectId'') as_str;
     er \<leftarrow> req_field d (U ''experimentRevision'') as_int;
     rid \<leftarrow> req_field d (U ''runId'') as_str;
     wid \<leftarrow> req_field d (U ''workflowId'') as_str;
     dg \<leftarrow> req_field d (U ''digests'') decode_run_digests;
     ma \<leftarrow> req_field d (U ''maxAttempts'') as_int;
     st \<leftarrow> req_field d (U ''status'') (\<lambda>v. Option.bind (as_str v) run_status_of);
     cr \<leftarrow> req_field d (U ''cancellationRequested'') as_bool;
     act \<leftarrow> req_field d (U ''activeAttemptId'') (nullable_of as_str);
     ats \<leftarrow> opt_field d (U ''attempts'') [] (\<lambda>v. Option.bind (as_list v) (map_o decode_attempt_snapshot));
     le \<leftarrow> req_field d (U ''lastEventId'') as_str;
     ls \<leftarrow> req_field d (U ''lastSequence'') as_int;
     rv \<leftarrow> req_field d (U ''review'') decode_run_review;
     ca \<leftarrow> opt_field d (U ''consumedAuthorization'') None (nullable_of decode_consumed_authorization);
     keep_o run_snapshot_valid \<lparr>s_api_version = av, s_kind = kd, s_project_id = pid,
       s_experiment_revision = er, s_run_id = rid, s_workflow_id = wid, s_digests = dg,
       s_max_attempts = ma, s_status = st, s_cancellation_requested = cr, s_active_attempt_id = act,
       s_attempts = ats, s_last_event_id = le, s_last_sequence = ls, s_review = rv,
       s_consumed_authorization = ca\<rparr> }"

section \<open>The invariant by its latest attempt\<close>

text \<open>The checks, read as predicates, and how each behaves when an attempt is put at
  the end.\<close>

definition snapshot_inv :: "run_snapshot \<Rightarrow> bool" where
  "snapshot_inv s \<longleftrightarrow> is_ok (assert_run_snapshot_invariants s)"

definition retry_link :: "attempt_snapshot option \<Rightarrow> attempt_snapshot \<Rightarrow> bool" where
  "retry_link p a = (case p of
     None \<Rightarrow> a_retry_of a = None \<and> a_retry_decision_id a = None
   | Some q \<Rightarrow> a_status q = A_FAILED \<and> a_retry_of a = Some (a_attempt_id q) \<and> a_retry_decision_id a \<noteq> None)"

fun retry_chain :: "attempt_snapshot option \<Rightarrow> attempt_snapshot list \<Rightarrow> bool" where
  "retry_chain p [] = True"
| "retry_chain p (a # as) = (retry_link p a \<and> retry_chain (Some a) as)"

definition heartbeat_ok :: "attempt_snapshot \<Rightarrow> bool" where
  "heartbeat_ok a = pred_option (\<lambda>h. h \<le> a_last_sequence a) (a_last_heartbeat_sequence a)"

fun cursors_ok :: "int \<Rightarrow> int \<Rightarrow> attempt_snapshot list \<Rightarrow> bool" where
  "cursors_ok L p [] = True"
| "cursors_ok L p (a # as) =
     (a_last_sequence a \<le> L \<and> heartbeat_ok a \<and> p < a_last_sequence a \<and> cursors_ok L (a_last_sequence a) as)"

lemma retry_chain_iff: "assert_retry_chain_from p as = Inr () \<longleftrightarrow> retry_chain p as"
  by (induction p as rule: assert_retry_chain_from.induct) (auto simp: retry_link_def)

lemma cursors_iff: "assert_attempt_cursors L p as = Inr () \<longleftrightarrow> cursors_ok L p as"
  by (induction L p as rule: assert_attempt_cursors.induct)
     (auto simp: heartbeat_ok_def split: option.splits)

lemma retry_chain_snoc:
  "retry_chain p (as @ [a]) \<longleftrightarrow> retry_chain p as \<and> retry_link (if as = [] then p else Some (last as)) a"
  by (induction p as rule: retry_chain.induct) auto

lemma cursors_ok_snoc:
  "cursors_ok L p (as @ [a]) \<longleftrightarrow> cursors_ok L p as \<and> a_last_sequence a \<le> L \<and> heartbeat_ok a
     \<and> (if as = [] then p else a_last_sequence (last as)) < a_last_sequence a"
  by (induction L p as rule: cursors_ok.induct) auto

lemma cursors_ok_mono: "cursors_ok L p as \<Longrightarrow> L \<le> L' \<Longrightarrow> cursors_ok L' p as"
  by (induction L p as rule: cursors_ok.induct) auto

lemma cursors_ok_le: "cursors_ok L p as \<Longrightarrow> a \<in> set as \<Longrightarrow> a_last_sequence a \<le> L"
  by (induction L p as rule: cursors_ok.induct) auto

lemma retry_chain_failed: "retry_chain p (as @ [a]) \<Longrightarrow> x \<in> set as \<Longrightarrow> a_status x = A_FAILED"
proof (induction as arbitrary: p)
  case (Cons b as)
  have "a_status b = A_FAILED"
    using Cons.prems(1) by (cases as) (simp_all add: retry_link_def)
  moreover have "x \<in> set as \<Longrightarrow> a_status x = A_FAILED"
    using Cons.IH[of "Some b"] Cons.prems(1) by simp
  ultimately show ?case using Cons.prems(2) by auto
qed simp

lemma unresolved_failed: "(\<forall>x\<in>set as. a_status x = A_FAILED) \<Longrightarrow> unresolved_attempts as = []"
  by (auto simp: unresolved_attempts_def UNRESOLVED_ATTEMPT_STATUSES_def filter_empty_conv)

lemma unresolved_append [simp]:
  "unresolved_attempts (xs @ ys) = unresolved_attempts xs @ unresolved_attempts ys"
  by (simp add: unresolved_attempts_def)

lemma unresolved_Nil [simp]: "unresolved_attempts [] = []"
  by (simp add: unresolved_attempts_def)

lemma unresolved_Cons [simp]:
  "unresolved_attempts (a # as) = (if is_unresolved (a_status a) then a # unresolved_attempts as else unresolved_attempts as)"
  by (simp add: unresolved_attempts_def)

text \<open>Which latest attempt a run status goes with.\<close>

definition run_matches :: "run_status \<Rightarrow> bool \<Rightarrow> attempt_status option \<Rightarrow> bool" where
  "run_matches st cr latest = (case st of
      R_QUEUED \<Rightarrow> latest = None
    | R_RUNNING \<Rightarrow> latest \<in> {None, Some A_QUEUED, Some A_RUNNING, Some A_SUCCEEDED, Some A_CANCELLED}
    | R_LOST \<Rightarrow> latest = Some A_LOST
    | R_UNKNOWN \<Rightarrow> latest = Some A_UNKNOWN
    | R_RETRY_PENDING \<Rightarrow> latest = Some A_FAILED
    | R_COMPLETED \<Rightarrow> latest = Some A_SUCCEEDED
    | R_FAILED \<Rightarrow> latest = Some A_FAILED
    | R_CANCELLED \<Rightarrow> cr \<and> latest \<in> {None, Some A_CANCELLED})"

definition review_ok :: "run_snapshot \<Rightarrow> bool" where
  "review_ok s \<longleftrightarrow> (rv_reviewed (s_review s) \<longrightarrow>
     is_terminal_run (s_status s) \<and> pred_option (\<lambda>q. q \<le> s_last_sequence s) (rv_sequence (s_review s)))"

lemma remdups_length: "length (remdups xs) = length xs \<longleftrightarrow> distinct xs"
  by simp

lemma sequence_check_iff:
  "assert_sequence_cursors s = Inr () \<longleftrightarrow> cursors_ok (s_last_sequence s) 0 (s_attempts s)
     \<and> (rv_reviewed (s_review s) \<longrightarrow> pred_option (\<lambda>q. q \<le> s_last_sequence s) (rv_sequence (s_review s)))"
  by (auto simp: assert_sequence_cursors_def bind_r_Inr_iff cursors_iff split: option.splits if_splits)

lemma snapshot_inv_unfold:
  "snapshot_inv s \<longleftrightarrow>
     List.map a_ordinal (s_attempts s) = List.map int [1..<length (s_attempts s) + 1]
     \<and> distinct (List.map a_attempt_id (s_attempts s))
     \<and> length (unresolved_attempts (s_attempts s)) \<le> 1
     \<and> s_active_attempt_id s = map_option a_attempt_id (first_of (unresolved_attempts (s_attempts s)))
     \<and> int (length (s_attempts s)) \<le> s_max_attempts s
     \<and> assert_run_status_matches_attempts s (unresolved_attempts (s_attempts s)) = Inr ()
     \<and> retry_chain None (s_attempts s)
     \<and> cursors_ok (s_last_sequence s) 0 (s_attempts s) \<and> review_ok s"
proof -
  have r: "length ids \<noteq> length (remdups ids) \<longleftrightarrow> \<not> distinct ids" for ids :: "pystr list"
    by (metis remdups_length)
  show ?thesis
    unfolding snapshot_inv_def assert_run_snapshot_invariants_def Let_def r assert_retry_chain_def
      is_ok_if review_ok_def
    unfolding is_ok_unit bind_r_Inr_iff retry_chain_iff sequence_check_iff
    by (auto simp: not_less retry_chain_iff sequence_check_iff)
qed

lemma ordinals_snoc:
  "List.map a_ordinal (as @ [a]) = List.map int [1..<length (as @ [a]) + 1] \<longleftrightarrow>
     List.map a_ordinal as = List.map int [1..<length as + 1] \<and> a_ordinal a = int (length as) + 1"
  by auto

lemma snapshot_inv_Nil:
  "s_attempts s = [] \<Longrightarrow> snapshot_inv s \<longleftrightarrow>
     s_active_attempt_id s = None \<and> 0 \<le> s_max_attempts s
     \<and> run_matches (s_status s) (s_cancellation_requested s) None \<and> review_ok s"
  unfolding snapshot_inv_unfold
  by (cases "s_status s")
     (auto simp: first_of_def last_of_def status_is_def run_matches_def
       assert_run_status_matches_attempts_def)

lemma status_match_snoc:
  assumes "s_attempts s = pre @ [a]" "\<forall>x\<in>set pre. a_status x = A_FAILED"
    "s_active_attempt_id s = (if is_unresolved (a_status a) then Some (a_attempt_id a) else None)"
  shows "assert_run_status_matches_attempts s (unresolved_attempts (s_attempts s)) = Inr () \<longleftrightarrow>
    run_matches (s_status s) (s_cancellation_requested s) (Some (a_status a))"
  using assms unresolved_failed[OF assms(2)]
  by (cases "s_status s"; cases "a_status a")
     (auto simp: first_of_def last_of_def status_is_def run_matches_def UNRESOLVED_ATTEMPT_STATUSES_def
       assert_run_status_matches_attempts_def Let_def)

lemma snapshot_inv_snoc:
  assumes "s_attempts s = pre @ [a]"
  shows "snapshot_inv s \<longleftrightarrow>
     List.map a_ordinal pre = List.map int [1..<length pre + 1] \<and> a_ordinal a = int (length pre) + 1
     \<and> distinct (List.map a_attempt_id pre) \<and> a_attempt_id a \<notin> a_attempt_id ` set pre
     \<and> s_active_attempt_id s = (if is_unresolved (a_status a) then Some (a_attempt_id a) else None)
     \<and> int (length pre) + 1 \<le> s_max_attempts s
     \<and> run_matches (s_status s) (s_cancellation_requested s) (Some (a_status a))
     \<and> retry_chain None pre \<and> retry_link (last_of pre) a
     \<and> cursors_ok (s_last_sequence s) 0 pre
     \<and> a_last_sequence a \<le> s_last_sequence s \<and> heartbeat_ok a
     \<and> (if pre = [] then 0 else a_last_sequence (last pre)) < a_last_sequence a
     \<and> review_ok s"
proof (cases "retry_chain None (pre @ [a])")
  case True
  then have f: "\<forall>x\<in>set pre. a_status x = A_FAILED" using retry_chain_failed by blast
  have u: "unresolved_attempts (pre @ [a]) = (if is_unresolved (a_status a) then [a] else [])"
    using unresolved_failed[OF f] by simp
  have act: "map_option a_attempt_id (first_of (unresolved_attempts (pre @ [a]))) =
      (if is_unresolved (a_status a) then Some (a_attempt_id a) else None)"
    unfolding u by (simp add: first_of_def)
  show ?thesis
    unfolding snapshot_inv_unfold assms ordinals_snoc cursors_ok_snoc retry_chain_snoc act
    using status_match_snoc[OF assms f] u assms
    by (auto simp: last_of_def)
next
  case False
  then have "\<not> snapshot_inv s" unfolding snapshot_inv_unfold assms by simp
  moreover from False have "\<not> (retry_chain None pre \<and> retry_link (last_of pre) a)"
    by (auto simp: retry_chain_snoc last_of_def)
  ultimately show ?thesis by blast
qed

section \<open>Reading back a written snapshot\<close>

lemma surrogate_forbidden: "is_surrogate c \<Longrightarrow> is_cloudevents_forbidden_code_point c"
  by (simp add: is_surrogate_def is_cloudevents_forbidden_code_point_def)

lemma utf8_ok_cloudevents: "require_cloudevents_string s \<Longrightarrow> utf8_ok s"
  using surrogate_forbidden by (auto simp: require_cloudevents_string_iff utf8_ok_def list_all_iff)

lemma utf8_ok_identifier: "EventIdentifier s \<Longrightarrow> utf8_ok s"
  by (simp add: EventIdentifier_def utf8_ok_cloudevents)

lemma utf8_ok_string: "CloudEventsString s \<Longrightarrow> utf8_ok s"
  by (simp add: CloudEventsString_def utf8_ok_cloudevents)

lemma utf8_ok_digest: "StrictDigest s \<Longrightarrow> utf8_ok s"
  unfolding StrictDigest_def SEMANTIC_DIGEST_PATTERN_def fullmatch_iff crange_def lang_rseqs_Cons
    lang_rtimes_cls cchar_def
  by (auto simp: utf8_ok_def is_surrogate_def in_ranges_def list_all_iff)
     (auto simp flip: utf8_ok_def simp: list_all_iff U_def)

lemmas utf8_oks = utf8_ok_identifier utf8_ok_string utf8_ok_digest

lemma nullable_str: "pred_option utf8_ok x \<Longrightarrow> nullable_of as_str (dump_str x) = Some x"
  by (cases x) (auto simp: dump_str_def dump_opt_def nullable_of_def)

lemma nullable_int: "nullable_of as_int (dump_int x) = Some x"
  by (cases x) (auto simp: dump_int_def dump_opt_def nullable_of_def)

lemma utf8_ok_options:
  "pred_option EventIdentifier x \<Longrightarrow> pred_option utf8_ok x"
  "pred_option CloudEventsString x \<Longrightarrow> pred_option utf8_ok x"
  "pred_option StrictDigest x \<Longrightarrow> pred_option utf8_ok x"
  by (cases x; simp add: utf8_oks)+

lemma status_text_of [simp]:
  "run_status_of (run_status_text st) = Some st"
  "attempt_status_of (attempt_status_text ast) = Some ast"
  by (cases st; simp add: run_status_of_def) (cases ast; simp add: attempt_status_of_def)

lemma decode_status_text [simp]:
  "decode_attempt_status (PyStr (attempt_status_text st)) = Some st"
  by (simp add: decode_attempt_status_def coerce_attempt_enums_def)

lemma decode_hint_text [simp]:
  "decode_retry_hint (PyStr (retry_hint_text h)) = (if h = H_UNKNOWN then None else Some h)"
  by (cases h) (simp_all add: decode_retry_hint_def coerce_attempt_enums_def attempt_status_of_def retry_hint_of_def)

lemma nullable_hint:
  "nullable_of decode_retry_hint (dump_opt (\<lambda>h. PyStr (retry_hint_text h)) x) =
     (if x = Some H_UNKNOWN then None else Some x)"
  by (cases x) (auto simp: nullable_of_def dump_opt_def)

lemma status_text_utf8 [simp]: "utf8_ok (run_status_text st)" "utf8_ok (attempt_status_text ast)"
  by (cases st; simp) (cases ast; simp)

lemma decode_attempt_document:
  assumes "attempt_snapshot_valid a"
  shows "decode_attempt_snapshot (attempt_document a) =
    (if a_retry_hint a = Some H_UNKNOWN then None else Some a)"
proof -
  have u: "utf8_ok (a_attempt_id a)" "utf8_ok (a_last_event_id a)"
    "pred_option utf8_ok (a_retry_of a)" "pred_option utf8_ok (a_retry_decision_id a)"
    using assms utf8_oks utf8_ok_options by (auto simp: attempt_snapshot_valid_def)
  show ?thesis
    using u assms
    by (cases a) (simp add: decode_attempt_snapshot_def attempt_document_def check_o_def only_keys_def
        req_field_def opt_field_def nullable_str nullable_int nullable_hint keep_o_def List.member_iff)
qed

lemma decode_digests_document:
  assumes "run_digests_valid d" "d' = (if dict_get (U ''decisionDigest'') (digests_document d) = Some PyNone
                      then dict_pop (U ''decisionDigest'') (digests_document d) else digests_document d)"
  shows "decode_run_digests (PyDict d') = Some d"
proof -
  have u: "utf8_ok (dg_spec d)" "utf8_ok (dg_registry d)" "utf8_ok (dg_plan d)"
    "pred_option utf8_ok (dg_decision_digest d)"
    using assms(1) utf8_oks utf8_ok_options by (auto simp: run_digests_valid_def)
  show ?thesis
    using u assms
    by (cases d; cases "dg_decision_digest d")
       (simp_all add: decode_run_digests_def digests_document_def check_o_def only_keys_def dict_pop_def
        req_field_def opt_field_def nullable_of_def dump_str_def dump_opt_def keep_o_def List.member_iff not_null_def)
qed

lemma decode_review_document:
  assumes "run_review_valid r" shows "decode_run_review (review_document r) = Some r"
proof -
  have u: "pred_option utf8_ok (rv_event_id r)" "pred_option utf8_ok (rv_decision_id r)"
    using assms(1) utf8_ok_options by (auto simp: run_review_valid_def)
  show ?thesis
    using u assms
    by (cases r) (simp add: decode_run_review_def review_document_def check_o_def only_keys_def
        req_field_def opt_field_def nullable_str nullable_int keep_o_def List.member_iff)
qed

lemma decode_consumed_document:
  assumes "consumed_authorization_valid c"
  shows "decode_consumed_authorization (consumed_document c) = Some c"
  using assms utf8_ok_string
  by (cases c) (simp add: decode_consumed_authorization_def consumed_document_def check_o_def only_keys_def
      req_field_def keep_o_def List.member_iff consumed_authorization_valid_def)

lemma consumed_document_not_None [simp]: "consumed_document c \<noteq> PyNone"
  by (simp add: consumed_document_def)

lemma nullable_consumed:
  "consumed_authorization_valid c \<Longrightarrow>
     nullable_of decode_consumed_authorization (consumed_document c) = Some (Some c)"
  by (simp add: nullable_of_def decode_consumed_document)

lemma decode_attempt_documents:
  assumes "list_all attempt_snapshot_valid as"
  shows "map_o decode_attempt_snapshot (List.map attempt_document as) =
    (if \<exists>a\<in>set as. a_retry_hint a = Some H_UNKNOWN then None else Some as)"
  using assms by (induction as) (auto simp: decode_attempt_document split: option.splits)

lemma validate_run_snapshot_document_dump:
  assumes "run_snapshot_valid s"
  shows "validate_run_snapshot_document (run_snapshot_document s) =
    (if \<exists>a\<in>set (s_attempts s). a_retry_hint a = Some H_UNKNOWN then None else Some s)"
proof -
  have v: "EventIdentifier (s_project_id s)" "EventIdentifier (s_run_id s)"
    "EventIdentifier (s_workflow_id s)" "CloudEventsString (s_last_event_id s)"
    "pred_option EventIdentifier (s_active_attempt_id s)" "run_digests_valid (s_digests s)"
    "list_all attempt_snapshot_valid (s_attempts s)" "run_review_valid (s_review s)"
    "pred_option consumed_authorization_valid (s_consumed_authorization s)"
    "s_api_version s = U ''researchos.dev/v0alpha1''" "s_kind s = U ''RunSnapshot''"
    using assms by (auto simp: run_snapshot_valid_def)
  note simps = validate_run_snapshot_document_def run_snapshot_document_def Let_def check_o_def only_keys_def
    req_field_def opt_field_def keep_o_def List.member_iff not_null_def decode_digests_document
    decode_review_document decode_attempt_documents nullable_str utf8_oks utf8_ok_options
  show ?thesis
  proof (cases "s_consumed_authorization s")
    case None
    then show ?thesis using v assms by (cases s) (simp add: simps dict_pop_def dump_opt_def)
  next
    case (Some c)
    then show ?thesis using v assms
      by (cases s) (simp add: simps dump_opt_def nullable_consumed)
  qed
qed

end
