(* ===== verification/Run_Reducer.thy ===== *)
theory Run_Reducer
  imports Run_Models Projections
begin

text \<open>
  The pure Run/Attempt projection of \<open>runs/reducer.py\<close>: \<open>RunStateProjection.apply\<close>
  and every handler it calls, in the source's order of tests and with its messages.
  \<open>None\<close> is the state before the run exists.  The two places that build a record
  through a validating constructor keep that validation as a branch
  (\<open>RunValidationError\<close>), and \<open>stamp\<close> keeps the re-check of the invariants; the lemmas
  show that neither ever refuses on a state the reducer produced.
\<close>

record run_projection =
  pr_project_id :: pystr
  pr_run_id :: pystr

definition require_identifier :: "string \<Rightarrow> pyval \<Rightarrow> run_error + pystr" where
  "require_identifier name value =
     (case Option.bind (as_str value) (keep_o EventIdentifier) of
        None \<Rightarrow> Inl (RunStateError (U (name @ '' is not a valid identifier'')))
      | Some s \<Rightarrow> Inr s)"

definition new_projection :: "pyval \<Rightarrow> pyval \<Rightarrow> run_error + run_projection" where
  "new_projection project_id run_id =
     bind_r (require_identifier ''project_id'' project_id) (\<lambda>p.
     bind_r (require_identifier ''run_id'' run_id) (\<lambda>r.
       Inr \<lparr>pr_project_id = p, pr_run_id = r\<rparr>))"

definition initial_state :: "run_snapshot option" where
  "initial_state = None"

definition belongs :: "research_event \<Rightarrow> pystr \<Rightarrow> pystr \<Rightarrow> bool" where
  "belongs e project_id run_id \<longleftrightarrow>
     ed_project_id (e_data e) = project_id \<and> ed_run_id (e_data e) = Some run_id"

definition event_label :: "research_event \<Rightarrow> pystr \<Rightarrow> pystr" where
  "event_label e message = message @ U '' ('' @ e_type e @ U '', event id '' @ e_id e
     @ U '', sequence '' @ e_sequence e @ U '')''"

abbreviation transition_error :: "research_event \<Rightarrow> string \<Rightarrow> run_error + 'a" where
  "transition_error e m \<equiv> Inl (RunTransitionError (event_label e (U m)))"

abbreviation payload_error :: "research_event \<Rightarrow> run_error + 'a" where
  "payload_error e \<equiv> Inl (RunPayloadError (event_label e (U ''invalid payload for lifecycle type'')))"

section \<open>Guards\<close>

definition require_lifecycle_envelope :: "research_event \<Rightarrow> run_error + unit" where
  "require_lifecycle_envelope e =
     (if ed_block_id (e_data e) \<noteq> None
      then transition_error e ''lifecycle events require blockId to be null''
      else if List.member RUN_LIFECYCLE_TYPES (e_type e) \<and> ed_attempt_id (e_data e) \<noteq> None
      then transition_error e ''run lifecycle events require attemptId to be null''
      else if List.member ATTEMPT_LIFECYCLE_TYPES (e_type e) \<and> ed_attempt_id (e_data e) = None
      then transition_error e ''attempt lifecycle events require a non-empty attemptId''
      else Inr ())"

definition require_cursor_and_binding :: "run_snapshot \<Rightarrow> research_event \<Rightarrow> run_error + unit" where
  "require_cursor_and_binding s e =
     (if sequence_of e \<le> s_last_sequence s
      then transition_error e ''sequence is not strictly increasing for this run aggregate''
      else if ed_experiment_revision (e_data e) \<noteq> s_experiment_revision s
      then transition_error e ''experimentRevision binding drifted''
      else if ed_project_id (e_data e) \<noteq> s_project_id s \<or> ed_run_id (e_data e) \<noteq> Some (s_run_id s)
      then transition_error e ''projectId/runId binding drifted''
      else Inr ())"

section \<open>Updates\<close>

text \<open>\<open>_stamp(state, event, **updates)\<close>: the updates come as a function on the state.\<close>

definition stamp :: "run_snapshot \<Rightarrow> research_event \<Rightarrow> (run_snapshot \<Rightarrow> run_snapshot)
    \<Rightarrow> run_error + run_snapshot" where
  "stamp s e updates =
     (let copied = updates (s\<lparr>s_last_event_id := e_id e, s_last_sequence := sequence_of e\<rparr>)
      in case assert_run_snapshot_invariants copied of
           Inl message \<Rightarrow> Inl (RunTransitionError (event_label e message))
         | Inr _ \<Rightarrow> Inr copied)"

definition find_attempt :: "run_snapshot \<Rightarrow> pystr \<Rightarrow> attempt_snapshot option" where
  "find_attempt s i = find_first (\<lambda>a. a_attempt_id a = i) (s_attempts s)"

definition require_attempt :: "run_snapshot \<Rightarrow> pystr \<Rightarrow> run_error + attempt_snapshot" where
  "require_attempt s i = lift_option
     (RunTransitionError (U ''attempt lifecycle must target an existing attempt'')) (find_attempt s i)"

definition latest_attempt :: "run_snapshot \<Rightarrow> attempt_snapshot option" where
  "latest_attempt s = last_of (s_attempts s)"

definition unresolved_attempt :: "run_snapshot \<Rightarrow> attempt_snapshot option" where
  "unresolved_attempt s = first_of (unresolved_attempts (s_attempts s))"

text \<open>\<open>status=None\<close> and \<open>active_attempt_id=_CURSOR_UNSET\<close> leave the field alone.\<close>

definition replace_attempt :: "run_snapshot \<Rightarrow> research_event \<Rightarrow> attempt_snapshot
    \<Rightarrow> run_status option \<Rightarrow> pystr option option \<Rightarrow> run_error + run_snapshot" where
  "replace_attempt s e a status active =
     (let attempts = List.map (\<lambda>item. if a_attempt_id item = a_attempt_id a then a else item) (s_attempts s)
      in stamp s e (\<lambda>c.
           let c1 = c\<lparr>s_attempts := attempts\<rparr>;
               c2 = (case status of None \<Rightarrow> c1 | Some st \<Rightarrow> c1\<lparr>s_status := st\<rparr>)
           in (case active of None \<Rightarrow> c2 | Some x \<Rightarrow> c2\<lparr>s_active_attempt_id := x\<rparr>)))"

definition transition_attempt :: "run_snapshot \<Rightarrow> research_event \<Rightarrow> attempt_snapshot
    \<Rightarrow> attempt_status list \<Rightarrow> attempt_status \<Rightarrow> run_status \<Rightarrow> pystr option option
    \<Rightarrow> retry_hint option option \<Rightarrow> run_error + run_snapshot" where
  "transition_attempt s e a allowed new_status run_status active hint =
     (if \<not> List.member allowed (a_status a) then transition_error e ''illegal lifecycle transition''
      else
        let updated0 = a\<lparr>a_status := new_status, a_last_event_id := e_id e, a_last_sequence := sequence_of e\<rparr>;
            updated = (case hint of None \<Rightarrow> updated0 | Some h \<Rightarrow> updated0\<lparr>a_retry_hint := h\<rparr>);
            next_active = (case active of None \<Rightarrow> Some (a_attempt_id a) | Some x \<Rightarrow> x)
        in replace_attempt s e updated (Some run_status) (Some next_active))"

section \<open>Handlers\<close>

definition observe_unrelated :: "run_snapshot option \<Rightarrow> research_event \<Rightarrow> run_error + run_snapshot option" where
  "observe_unrelated st e =
     (case st of
        None \<Rightarrow> Inr None
      | Some s \<Rightarrow>
          bind_r (require_cursor_and_binding s e) (\<lambda>_.
          bind_r (stamp s e id) (\<lambda>s'. Inr (Some s'))))"

definition queued_digests :: "run_queued_payload \<Rightarrow> run_digests" where
  "queued_digests q = \<lparr>dg_spec = q_spec_digest q, dg_registry = q_registry_digest q,
     dg_plan = q_plan_digest q, dg_decision_digest = q_decision_digest q\<rparr>"

definition first_snapshot :: "research_event \<Rightarrow> run_queued_payload \<Rightarrow> pystr \<Rightarrow> run_snapshot" where
  "first_snapshot e q run_id =
     \<lparr>s_api_version = U ''researchos.dev/v0alpha1'', s_kind = U ''RunSnapshot'',
      s_project_id = ed_project_id (e_data e), s_experiment_revision = ed_experiment_revision (e_data e),
      s_run_id = run_id, s_workflow_id = q_workflow_id q, s_digests = queued_digests q,
      s_max_attempts = q_max_attempts q, s_status = R_QUEUED, s_cancellation_requested = False,
      s_active_attempt_id = None, s_attempts = [], s_last_event_id = e_id e,
      s_last_sequence = sequence_of e,
      s_review = \<lparr>rv_reviewed = False, rv_event_id = None, rv_sequence = None, rv_decision_id = None\<rparr>,
      s_consumed_authorization =
        (case (q_authorization_event_id q, q_authorization_sequence q) of
           (Some i, Some n) \<Rightarrow> Some \<lparr>ca_event_id = i, ca_sequence = int (int_of_digits n)\<rparr>
         | _ \<Rightarrow> None)\<rparr>"

definition apply_first :: "research_event \<Rightarrow> lifecycle_payload \<Rightarrow> run_error + run_snapshot" where
  "apply_first e payload =
     (if e_type e \<noteq> TYPE_RUN_QUEUED then transition_error e ''run.queued must be the first lifecycle event''
      else case payload of
        RunQueuedPayload q \<Rightarrow>
          (case ed_run_id (e_data e) of
             None \<Rightarrow> transition_error e ''run.queued requires data.runId''
           | Some run_id \<Rightarrow>
               let document = first_snapshot e q run_id
               in if run_snapshot_valid document then Inr document else Inl RunValidationError)
      | _ \<Rightarrow> payload_error e)"

definition apply_run_cancelled :: "run_snapshot \<Rightarrow> research_event \<Rightarrow> run_error + run_snapshot" where
  "apply_run_cancelled s e =
     (if \<not> s_cancellation_requested s then transition_error e ''cancelled without a cancellation request''
      else if unresolved_attempt s \<noteq> None
      then transition_error e ''run.cancelled requires no unresolved attempt''
      else if latest_attempt s \<noteq> None \<and> \<not> status_is (latest_attempt s) [A_CANCELLED]
      then transition_error e ''run.cancelled cannot infer cancelled from failed, lost or unknown''
      else stamp s e (\<lambda>c. c\<lparr>s_status := R_CANCELLED, s_active_attempt_id := None\<rparr>))"

definition apply_run_event :: "run_snapshot \<Rightarrow> research_event \<Rightarrow> run_error + run_snapshot" where
  "apply_run_event s e =
     (if e_type e = TYPE_RUN_QUEUED
      then transition_error e ''run.queued is only valid as the first lifecycle event''
      else if e_type e = TYPE_RUN_STARTED then
        (if s_status s \<noteq> R_QUEUED then transition_error e ''illegal lifecycle transition''
         else stamp s e (\<lambda>c. c\<lparr>s_status := R_RUNNING\<rparr>))
      else if e_type e = TYPE_RUN_CANCEL_REQUESTED then
        (if \<not> List.member RUN_CANCEL_REQUEST_STATUSES (s_status s)
         then transition_error e ''illegal lifecycle transition''
         else stamp s e (\<lambda>c. c\<lparr>s_cancellation_requested := True\<rparr>))
      else if e_type e = TYPE_RUN_COMPLETED then
        (if \<not> status_is (latest_attempt s) [A_SUCCEEDED] \<or> unresolved_attempt s \<noteq> None
         then transition_error e ''run.completed requires the latest attempt to have succeeded''
         else stamp s e (\<lambda>c. c\<lparr>s_status := R_COMPLETED, s_active_attempt_id := None\<rparr>))
      else if e_type e = TYPE_RUN_FAILED then
        (if \<not> status_is (latest_attempt s) [A_FAILED] \<or> unresolved_attempt s \<noteq> None
         then transition_error e ''run.failed requires the latest attempt to have failed''
         else stamp s e (\<lambda>c. c\<lparr>s_status := R_FAILED, s_active_attempt_id := None\<rparr>))
      else if e_type e = TYPE_RUN_CANCELLED then apply_run_cancelled s e
      else transition_error e ''illegal lifecycle transition'')"

definition apply_run_reviewed :: "run_snapshot \<Rightarrow> research_event \<Rightarrow> lifecycle_payload
    \<Rightarrow> run_error + run_snapshot" where
  "apply_run_reviewed s e payload =
     (if \<not> is_terminal_run (s_status s)
      then transition_error e ''run.reviewed is only allowed after a terminal run status''
      else if rv_reviewed (s_review s) then transition_error e ''run.reviewed can occur only once''
      else case payload of
        RunReviewedPayload decision_id \<Rightarrow>
          let review = \<lparr>rv_reviewed = True, rv_event_id = Some (e_id e),
                rv_sequence = Some (sequence_of e), rv_decision_id = Some decision_id\<rparr>
          in if run_review_valid review then stamp s e (\<lambda>c. c\<lparr>s_review := review\<rparr>)
             else Inl RunValidationError
      | _ \<Rightarrow> payload_error e)"

definition apply_attempt_queued :: "run_snapshot \<Rightarrow> research_event \<Rightarrow> lifecycle_payload \<Rightarrow> pystr
    \<Rightarrow> run_error + run_snapshot" where
  "apply_attempt_queued s e payload attempt_id =
     (case payload of
        AttemptQueuedPayload ordinal retry_of retry_decision_id \<Rightarrow>
          if s_status s = R_QUEUED then transition_error e ''attempt.queued requires the run to have started''
          else if s_cancellation_requested s
          then transition_error e ''attempt.queued is forbidden after cancellation was requested''
          else if unresolved_attempt s \<noteq> None then
            (if status_is (unresolved_attempt s) [A_LOST, A_UNKNOWN]
             then transition_error e ''retry is forbidden while an attempt is lost or unknown''
             else transition_error e ''attempt.queued requires no unresolved attempt'')
          else if find_attempt s attempt_id \<noteq> None then transition_error e ''attempt ID was reused''
          else if int (length (s_attempts s)) \<ge> s_max_attempts s
          then transition_error e ''maxAttempts would be exceeded''
          else
            bind_r
              (case latest_attempt s of
                 None \<Rightarrow>
                   if ordinal \<noteq> 1 \<or> retry_of \<noteq> None \<or> retry_decision_id \<noteq> None
                   then transition_error e ''the first attempt must have ordinal 1 and null retry fields''
                   else if s_status s \<noteq> R_RUNNING then transition_error e ''illegal lifecycle transition''
                   else Inr ()
               | Some latest \<Rightarrow>
                   if a_status latest \<noteq> A_FAILED
                   then transition_error e ''retry is only allowed after the latest attempt failed''
                   else if ordinal \<noteq> a_ordinal latest + 1 then transition_error e ''attempt ordinal skipped''
                   else if retry_of \<noteq> Some (a_attempt_id latest)
                   then transition_error e ''retryOf is not the latest failed attempt''
                   else if retry_decision_id = None then transition_error e ''retryDecisionId is required''
                   else Inr ())
              (\<lambda>_.
                let attempt = \<lparr>a_attempt_id = attempt_id, a_ordinal = ordinal, a_retry_of = retry_of,
                      a_retry_decision_id = retry_decision_id, a_status = A_QUEUED,
                      a_cancellation_requested = False, a_retry_hint = None, a_last_event_id = e_id e,
                      a_last_sequence = sequence_of e, a_last_heartbeat_sequence = None\<rparr>
                in if attempt_snapshot_valid attempt
                   then stamp s e (\<lambda>c. c\<lparr>s_status := R_RUNNING, s_active_attempt_id := Some attempt_id,
                          s_attempts := s_attempts s @ [attempt]\<rparr>)
                   else Inl RunValidationError)
      | _ \<Rightarrow> payload_error e)"

text \<open>The handlers of one attempt that is there and is the active one.\<close>

definition apply_active_attempt :: "run_snapshot \<Rightarrow> research_event \<Rightarrow> lifecycle_payload
    \<Rightarrow> attempt_snapshot \<Rightarrow> run_error + run_snapshot" where
  "apply_active_attempt s e payload attempt =
     (if e_type e = TYPE_ATTEMPT_STARTED then
        transition_attempt s e attempt ATTEMPT_START_STATUSES A_RUNNING R_RUNNING None None
      else if e_type e = TYPE_ATTEMPT_HEARTBEAT then
        (if \<not> List.member ATTEMPT_HEARTBEAT_STATUSES (a_status attempt)
         then transition_error e ''illegal lifecycle transition''
         else replace_attempt s e (attempt\<lparr>a_last_event_id := e_id e, a_last_sequence := sequence_of e,
                a_last_heartbeat_sequence := Some (sequence_of e)\<rparr>) None None)
      else if e_type e = TYPE_ATTEMPT_CANCEL_REQUESTED then
        (if \<not> List.member ATTEMPT_CANCEL_REQUEST_STATUSES (a_status attempt)
         then transition_error e ''illegal lifecycle transition''
         else replace_attempt s e (attempt\<lparr>a_cancellation_requested := True, a_last_event_id := e_id e,
                a_last_sequence := sequence_of e\<rparr>) None None)
      else if e_type e = TYPE_ATTEMPT_UNKNOWN then
        transition_attempt s e attempt ATTEMPT_UNKNOWN_STATUSES A_UNKNOWN R_UNKNOWN None None
      else if e_type e = TYPE_ATTEMPT_LOST then
        transition_attempt s e attempt ATTEMPT_LOST_STATUSES A_LOST R_LOST None None
      else if e_type e = TYPE_ATTEMPT_RECOVERED then
        transition_attempt s e attempt ATTEMPT_RECOVERED_STATUSES A_RUNNING R_RUNNING None None
      else if e_type e = TYPE_ATTEMPT_SUCCEEDED then
        transition_attempt s e attempt ATTEMPT_SUCCEEDED_STATUSES A_SUCCEEDED R_RUNNING (Some None) None
      else if e_type e = TYPE_ATTEMPT_FAILED then
        (case payload of
           AttemptFailedPayload _ hint \<Rightarrow>
             transition_attempt s e attempt ATTEMPT_FAILED_STATUSES A_FAILED R_RETRY_PENDING (Some None)
               (Some (Some hint))
         | _ \<Rightarrow> payload_error e)
      else if e_type e = TYPE_ATTEMPT_CANCELLED then
        (if \<not> s_cancellation_requested s \<and> \<not> a_cancellation_requested attempt
         then transition_error e ''cancelled without a cancellation request''
         else transition_attempt s e attempt ATTEMPT_CANCELLED_STATUSES A_CANCELLED R_RUNNING (Some None) None)
      else transition_error e ''illegal lifecycle transition'')"

definition apply_attempt_event :: "run_snapshot \<Rightarrow> research_event \<Rightarrow> lifecycle_payload
    \<Rightarrow> run_error + run_snapshot" where
  "apply_attempt_event s e payload =
     (case ed_attempt_id (e_data e) of
        None \<Rightarrow> transition_error e ''attempt lifecycle events require a non-empty attemptId''
      | Some attempt_id \<Rightarrow>
          if e_type e = TYPE_ATTEMPT_QUEUED then apply_attempt_queued s e payload attempt_id
          else if status_is (find_attempt s attempt_id) TERMINAL_ATTEMPT_STATUSES
          then transition_error e ''terminal attempt cannot be rewritten''
          else if s_active_attempt_id s \<noteq> Some attempt_id
          then transition_error e ''attempt lifecycle must target the active attempt''
          else bind_r (require_attempt s attempt_id) (\<lambda>attempt.
                 apply_active_attempt s e payload attempt))"

definition run_apply :: "run_projection \<Rightarrow> run_snapshot option \<Rightarrow> research_event
    \<Rightarrow> run_error + run_snapshot option" where
  "run_apply p state e =
     (if \<not> belongs e (pr_project_id p) (pr_run_id p) then Inr state
      else if \<not> List.member LIFECYCLE_TYPES (e_type e) then observe_unrelated state e
      else
        bind_r (require_lifecycle_envelope e) (\<lambda>_.
        bind_r (parse_lifecycle_payload e) (\<lambda>payload.
          case state of
            None \<Rightarrow> bind_r (apply_first e payload) (\<lambda>s. Inr (Some s))
          | Some s \<Rightarrow>
              bind_r (require_cursor_and_binding s e) (\<lambda>_.
                if e_type e = TYPE_RUN_REVIEWED
                then bind_r (apply_run_reviewed s e payload) (\<lambda>s'. Inr (Some s'))
                else if is_terminal_run (s_status s)
                then transition_error e ''terminal run cannot be reopened''
                else if List.member RUN_LIFECYCLE_TYPES (e_type e)
                then bind_r (apply_run_event s e) (\<lambda>s'. Inr (Some s'))
                else bind_r (apply_attempt_event s e payload) (\<lambda>s'. Inr (Some s'))))))"

text \<open>\<open>fold_events\<close> with this projection.\<close>

definition fold_run :: "run_projection \<Rightarrow> run_snapshot option \<Rightarrow> research_event list
    \<Rightarrow> run_error + run_snapshot option" where
  "fold_run p state events = fold_r (run_apply p) state events"

section \<open>Payloads of a parsed event\<close>

lemma PAYLOAD_MODELS_valid:
  assumes "map_of PAYLOAD_MODELS t = Some dec" "dec v = Some pl"
  shows "payload_valid pl"
proof -
  have "dec \<in> {decode_run_queued, decode_empty, decode_reason_code, decode_run_reviewed,
      decode_attempt_queued, decode_attempt_failed}"
    using assms(1) unfolding PAYLOAD_MODELS_def by (auto split: if_splits)
  then show ?thesis
    using assms(2)
    by (auto simp: decode_run_queued_def decode_empty_def decode_reason_code_def
        decode_run_reviewed_def decode_attempt_queued_def decode_attempt_failed_def decode_simps)
qed

lemma parse_lifecycle_payload_valid:
  "parse_lifecycle_payload e = Inr pl \<Longrightarrow> payload_valid pl"
  using PAYLOAD_MODELS_valid
  by (auto simp: parse_lifecycle_payload_def result_simps split: option.splits)

section \<open>Messages\<close>

text \<open>Every message of the invariant check, and that no guard of the reducer uses one.\<close>

definition invariant_messages :: "string list" where
  "invariant_messages =
    [''attempts must be stored by contiguous ordinal starting at 1'', ''attempt IDs must be unique'',
     ''a run may have at most one unresolved attempt'', ''activeAttemptId must match the unresolved attempt'',
     ''reviewed is only derived after a terminal run status'', ''attempts exceed maxAttempts'',
     ''queued runs must not have attempts'', ''queued runs must not have an active attempt'',
     ''lost runs require a unique active lost attempt'', ''unknown runs require a unique active unknown attempt'',
     ''retry_pending runs must not have an active attempt'',
     ''retry_pending runs require the latest attempt to have failed'',
     ''completed runs must not have an active attempt'',
     ''completed runs require the latest attempt to have succeeded'',
     ''failed runs must not have an active attempt'', ''failed runs require the latest attempt to have failed'',
     ''cancelled runs require a cancellation request'', ''cancelled runs must not have an active attempt'',
     ''cancelled runs require no attempts or a latest cancelled attempt'',
     ''running runs only allow reachable intermediate attempt states'',
     ''the first attempt must not declare retry identity'',
     ''retry attempts require the previous attempt to have failed'',
     ''retryOf must equal the previous attempt id'',
     ''retry attempts require retryOf and retryDecisionId'',
     ''attempt lastSequence must not exceed the run lastSequence'',
     ''lastHeartbeatSequence must not exceed the attempt lastSequence'',
     ''attempt lastSequence must strictly increase by ordinal'',
     ''review sequence must not exceed the run lastSequence'']"

definition guard_refusal :: "research_event \<Rightarrow> run_error \<Rightarrow> bool" where
  "guard_refusal e err \<longleftrightarrow> err \<noteq> RunValidationError \<and>
     (\<forall>m\<in>set invariant_messages. err \<noteq> RunTransitionError (event_label e (U m)))"

lemma event_label_inject [simp]: "event_label e m = event_label e m' \<longleftrightarrow> m = m'"
  by (simp add: event_label_def)

lemma guard_refusal_transition [simp]:
  "guard_refusal e (RunTransitionError (event_label e (U m))) \<longleftrightarrow> m \<notin> set invariant_messages"
  by (auto simp: guard_refusal_def)

lemma guard_refusal_payload [simp]: "guard_refusal e (RunPayloadError m)"
  by (simp add: guard_refusal_def)

lemma U_image [simp]: "U m \<in> U ` A \<longleftrightarrow> m \<in> A"
  by auto

lemma retry_chain_messages:
  "assert_retry_chain_from p as = Inl m \<Longrightarrow> m \<in> U ` set invariant_messages"
  by (induction p as rule: assert_retry_chain_from.induct)
     (auto split: if_splits, simp_all add: invariant_messages_def)

lemma cursor_messages:
  "assert_attempt_cursors L p as = Inl m \<Longrightarrow> m \<in> U ` set invariant_messages"
  by (induction L p as rule: assert_attempt_cursors.induct)
     (auto split: if_splits, simp_all add: invariant_messages_def)

lemma status_messages:
  "assert_run_status_matches_attempts s u = Inl m \<Longrightarrow> m \<in> U ` set invariant_messages"
  unfolding assert_run_status_matches_attempts_def Let_def
  by (cases "s_status s"; clarsimp split: if_splits)
     (simp_all add: invariant_messages_def)

lemma invariant_messages:
  assumes "assert_run_snapshot_invariants s = Inl m"
  shows "m \<in> U ` set invariant_messages"
proof -
  have *: "assert_sequence_cursors s = Inl m \<Longrightarrow> m \<in> U ` set invariant_messages"
    using cursor_messages
    by (auto simp: assert_sequence_cursors_def bind_r_Inl_iff split: if_splits)
       (simp add: invariant_messages_def)
  show ?thesis
    using assms unfolding assert_run_snapshot_invariants_def Let_def assert_retry_chain_def
    by (auto simp: bind_r_Inl_iff * split: if_splits dest: status_messages retry_chain_messages)
       (simp_all add: invariant_messages_def)
qed

section \<open>Stamping\<close>

lemma stamp_Inr:
  "stamp s e f = Inr s' \<longleftrightarrow>
     s' = f (s\<lparr>s_last_event_id := e_id e, s_last_sequence := sequence_of e\<rparr>) \<and> snapshot_inv s'"
  by (auto simp: stamp_def Let_def snapshot_inv_def is_ok_def split: sum.splits)

lemma stamp_ok:
  "snapshot_inv (f (s\<lparr>s_last_event_id := e_id e, s_last_sequence := sequence_of e\<rparr>)) \<Longrightarrow>
     stamp s e f = Inr (f (s\<lparr>s_last_event_id := e_id e, s_last_sequence := sequence_of e\<rparr>))"
  by (simp add: stamp_Inr)

lemma run_snapshot_valid_inv: "run_snapshot_valid s \<Longrightarrow> snapshot_inv s"
  by (simp add: run_snapshot_valid_def snapshot_inv_def)

lemma event_stamp_valid:
  assumes "research_event_valid e"
  shows "CloudEventsString (e_id e)" "SequenceNumber (sequence_of e)"
  using assms sequence_of_bounds[of e] by (auto simp: research_event_valid_def SequenceNumber_def)

text \<open>A stamp that leaves the attempts alone keeps the invariant when the new status
  goes with the same latest attempt.\<close>

lemma snapshot_inv_cases:
  assumes "snapshot_inv s"
  obtains (none) "s_attempts s = []"
  | (some) pre a where "s_attempts s = pre @ [a]"
  by (cases "s_attempts s" rule: rev_cases) auto

definition latest_status :: "run_snapshot \<Rightarrow> attempt_status option" where
  "latest_status s = map_option a_status (last_of (s_attempts s))"

lemma last_of_snoc [simp]: "last_of (xs @ [x]) = Some x" "last_of [] = None"
  by (simp_all add: last_of_def)

lemma snapshot_inv_latest:
  "snapshot_inv s \<Longrightarrow> run_matches (s_status s) (s_cancellation_requested s) (latest_status s)"
  by (cases "s_attempts s" rule: rev_cases) (auto simp: snapshot_inv_Nil snapshot_inv_snoc latest_status_def)

lemma snapshot_inv_same_attempts:
  assumes "snapshot_inv s" "s_attempts t = s_attempts s" "s_max_attempts t = s_max_attempts s"
    "s_active_attempt_id t = s_active_attempt_id s" "s_last_sequence s \<le> s_last_sequence t"
    "run_matches (s_status t) (s_cancellation_requested t) (latest_status s)" "review_ok t"
  shows "snapshot_inv t"
proof (cases "s_attempts s" rule: rev_cases)
  case Nil
  with assms show ?thesis by (simp add: snapshot_inv_Nil latest_status_def)
next
  case (snoc pre a)
  with assms show ?thesis
    using cursors_ok_mono[of "s_last_sequence s" 0 pre "s_last_sequence t"]
    by (auto simp: snapshot_inv_snoc latest_status_def)
qed

lemma unresolved_attempt_iff:
  assumes "snapshot_inv s"
  shows "unresolved_attempt s = None \<longleftrightarrow> s_active_attempt_id s = None"
    "unresolved_attempt s \<noteq> None \<Longrightarrow> unresolved_attempt s = last_of (s_attempts s)"
proof -
  show "unresolved_attempt s = None \<longleftrightarrow> s_active_attempt_id s = None"
    using assms by (simp add: snapshot_inv_unfold unresolved_attempt_def)
  assume *: "unresolved_attempt s \<noteq> None"
  show "unresolved_attempt s = last_of (s_attempts s)"
  proof (cases "s_attempts s" rule: rev_cases)
    case (snoc pre a)
    with assms have "retry_chain None (pre @ [a])" by (auto simp: snapshot_inv_unfold)
    then have "unresolved_attempts pre = []" using unresolved_failed retry_chain_failed by blast
    with * snoc show ?thesis by (auto simp: unresolved_attempt_def first_of_def split: if_splits)
  qed (use * in \<open>simp add: unresolved_attempt_def first_of_def\<close>)
qed

lemma active_is_last:
  assumes "snapshot_inv s" "s_active_attempt_id s = Some i"
  obtains pre a where "s_attempts s = pre @ [a]" "a_attempt_id a = i" "is_unresolved (a_status a)"
    "find_attempt s i = Some a"
proof (cases "s_attempts s" rule: rev_cases)
  case Nil
  with assms show ?thesis by (simp add: snapshot_inv_Nil)
next
  case (snoc pre a)
  have "a_attempt_id a = i" "is_unresolved (a_status a)" "a_attempt_id a \<notin> a_attempt_id ` set pre"
    using assms snapshot_inv_snoc[OF snoc] by (auto split: if_splits)
  moreover from this have "find_first (\<lambda>a. a_attempt_id a = i) (pre @ [a]) = Some a"
    by (induction pre) auto
  ultimately show ?thesis using that[OF snoc] snoc by (simp add: find_attempt_def)
qed

section \<open>Replacing the active attempt\<close>

lemma map_replace_last:
  assumes "a_attempt_id a' = a_attempt_id a" "a_attempt_id a \<notin> a_attempt_id ` set pre"
  shows "List.map (\<lambda>x. if a_attempt_id x = a_attempt_id a' then a' else x) (pre @ [a]) = pre @ [a']"
proof -
  have "\<forall>x\<in>set pre. a_attempt_id x \<noteq> a_attempt_id a'"
    using assms by (metis image_eqI)
  then have "List.map (\<lambda>x. if a_attempt_id x = a_attempt_id a' then a' else x) pre = pre"
    by (simp add: map_idI)
  with assms show ?thesis by simp
qed

definition set_status :: "run_status option \<Rightarrow> run_status \<Rightarrow> run_status" where
  "set_status new old = (case new of None \<Rightarrow> old | Some st \<Rightarrow> st)"

definition set_active :: "pystr option option \<Rightarrow> pystr option \<Rightarrow> pystr option" where
  "set_active new old = (case new of None \<Rightarrow> old | Some x \<Rightarrow> x)"

text \<open>What a state becomes when its latest attempt is replaced.\<close>

definition with_latest :: "run_snapshot \<Rightarrow> research_event \<Rightarrow> attempt_snapshot list \<Rightarrow> attempt_snapshot
    \<Rightarrow> run_status \<Rightarrow> pystr option \<Rightarrow> run_snapshot" where
  "with_latest s e pre a st act = s\<lparr>s_status := st, s_active_attempt_id := act,
     s_attempts := pre @ [a], s_last_event_id := e_id e, s_last_sequence := sequence_of e\<rparr>"

lemma with_latest_fields [simp]:
  "s_attempts (with_latest s e pre a st act) = pre @ [a]"
  "s_status (with_latest s e pre a st act) = st"
  "s_active_attempt_id (with_latest s e pre a st act) = act"
  "s_last_event_id (with_latest s e pre a st act) = e_id e"
  "s_last_sequence (with_latest s e pre a st act) = sequence_of e"
  "s_max_attempts (with_latest s e pre a st act) = s_max_attempts s"
  "s_cancellation_requested (with_latest s e pre a st act) = s_cancellation_requested s"
  "s_review (with_latest s e pre a st act) = s_review s"
  "s_project_id (with_latest s e pre a st act) = s_project_id s"
  "s_run_id (with_latest s e pre a st act) = s_run_id s"
  "s_experiment_revision (with_latest s e pre a st act) = s_experiment_revision s"
  by (simp_all add: with_latest_def)

lemma with_latest_inv:
  assumes "snapshot_inv s" "s_attempts s = pre @ [a]" "\<not> is_terminal_run (s_status s)"
    "s_last_sequence s < sequence_of e"
    and same: "a_attempt_id a' = a_attempt_id a" "a_ordinal a' = a_ordinal a"
      "a_retry_of a' = a_retry_of a" "a_retry_decision_id a' = a_retry_decision_id a"
    and new: "a_last_sequence a' = sequence_of e" "heartbeat_ok a'"
    and st: "run_matches st (s_cancellation_requested s) (Some (a_status a'))"
    and act: "act = (if is_unresolved (a_status a') then Some (a_attempt_id a) else None)"
  shows "snapshot_inv (with_latest s e pre a' st act)"
proof -
  note inv = assms(1)[unfolded snapshot_inv_snoc[OF assms(2)]]
  have rv: "review_ok (with_latest s e pre a' st act)"
    using inv assms(3) by (simp add: review_ok_def)
  have cur: "cursors_ok (sequence_of e) 0 pre"
    using inv assms(4) cursors_ok_mono by fastforce
  have link: "retry_link (last_of pre) a'"
    using inv same by (cases "last_of pre") (simp_all add: retry_link_def)
  have less: "(if pre = [] then 0 else a_last_sequence (last pre)) < sequence_of e"
    using inv assms(4) by linarith
  have act': "act = (if is_unresolved (a_status a') then Some (a_attempt_id a') else None)"
    using act same(1) by simp
  show ?thesis
    using inv same new st act' assms(4) rv cur link less
    by (subst snapshot_inv_snoc[where pre = pre and a = a'])
       (simp_all del: upt_Suc split del: if_split)
qed

lemma stamp_cong:
  "f (s\<lparr>s_last_event_id := e_id e, s_last_sequence := sequence_of e\<rparr>) =
     g (s\<lparr>s_last_event_id := e_id e, s_last_sequence := sequence_of e\<rparr>) \<Longrightarrow> stamp s e f = stamp s e g"
  by (simp add: stamp_def)

lemma replace_attempt_stamp:
  assumes "snapshot_inv s" "s_attempts s = pre @ [a]" "a_attempt_id a' = a_attempt_id a"
  shows "replace_attempt s e a' status active =
    stamp s e (\<lambda>c. c\<lparr>s_status := set_status status (s_status s),
      s_active_attempt_id := set_active active (s_active_attempt_id s), s_attempts := pre @ [a']\<rparr>)"
proof -
  have "a_attempt_id a \<notin> a_attempt_id ` set pre"
    using assms(1) snapshot_inv_snoc[OF assms(2)] by simp
  note m = map_replace_last[OF assms(3) this]
  show ?thesis
    unfolding replace_attempt_def assms(2) m Let_def set_status_def set_active_def
    by (rule stamp_cong, cases status; cases active) simp_all
qed

lemma replace_attempt_ok:
  assumes "snapshot_inv s" "s_attempts s = pre @ [a]" "\<not> is_terminal_run (s_status s)"
    "s_last_sequence s < sequence_of e"
    "a_attempt_id a' = a_attempt_id a" "a_ordinal a' = a_ordinal a"
    "a_retry_of a' = a_retry_of a" "a_retry_decision_id a' = a_retry_decision_id a"
    "a_last_sequence a' = sequence_of e" "heartbeat_ok a'"
    "run_matches (set_status status (s_status s)) (s_cancellation_requested s) (Some (a_status a'))"
    "set_active active (s_active_attempt_id s) =
       (if is_unresolved (a_status a') then Some (a_attempt_id a) else None)"
  shows "replace_attempt s e a' status active = Inr (with_latest s e pre a'
    (set_status status (s_status s)) (set_active active (s_active_attempt_id s)))"
  using with_latest_inv[OF assms(1-11)] assms(12)
  unfolding replace_attempt_stamp[OF assms(1,2,5)] stamp_Inr
  by (simp add: with_latest_def)

section \<open>Each attempt handler\<close>

text \<open>A run that is not over, in a valid state, at an event whose sequence is new.\<close>

definition live_at :: "run_snapshot \<Rightarrow> research_event \<Rightarrow> bool" where
  "live_at s e \<longleftrightarrow> snapshot_inv s \<and> \<not> is_terminal_run (s_status s) \<and> s_last_sequence s < sequence_of e"

definition moved_attempt :: "attempt_snapshot \<Rightarrow> research_event \<Rightarrow> attempt_status \<Rightarrow> retry_hint option
    \<Rightarrow> attempt_snapshot" where
  "moved_attempt a e st hint = a\<lparr>a_status := st, a_last_event_id := e_id e,
     a_last_sequence := sequence_of e, a_retry_hint := hint\<rparr>"

lemma heartbeat_ok_later:
  "heartbeat_ok a \<Longrightarrow> a_last_sequence a \<le> n \<Longrightarrow> a_last_heartbeat_sequence b = a_last_heartbeat_sequence a \<Longrightarrow>
     a_last_sequence b = n \<Longrightarrow> heartbeat_ok b"
  by (cases "a_last_heartbeat_sequence a") (auto simp: heartbeat_ok_def)

lemma transition_attempt_ok:
  assumes live: "live_at s e" and last: "s_attempts s = pre @ [a]" "is_unresolved (a_status a)"
    and allowed: "List.member allowed (a_status a)"
    and st: "run_matches rst (s_cancellation_requested s) (Some nst)"
    and act: "active = (if is_unresolved nst then None else Some None)"
  shows "transition_attempt s e a allowed nst rst active hint =
    Inr (with_latest s e pre (moved_attempt a e nst (case hint of None \<Rightarrow> a_retry_hint a | Some h \<Rightarrow> h)) rst
      (if is_unresolved nst then Some (a_attempt_id a) else None))"
proof -
  have inv: "snapshot_inv s" "\<not> is_terminal_run (s_status s)" "s_last_sequence s < sequence_of e"
    using live by (auto simp: live_at_def)
  have seq: "a_last_sequence a \<le> sequence_of e" "heartbeat_ok a"
    using inv snapshot_inv_snoc[OF last(1)] by auto
  define a' where "a' = moved_attempt a e nst (case hint of None \<Rightarrow> a_retry_hint a | Some h \<Rightarrow> h)"
  define next_active where "next_active = (case active of None \<Rightarrow> Some (a_attempt_id a) | Some x \<Rightarrow> x)"
  have a': "a_attempt_id a' = a_attempt_id a" "a_ordinal a' = a_ordinal a" "a_retry_of a' = a_retry_of a"
    "a_retry_decision_id a' = a_retry_decision_id a" "a_last_sequence a' = sequence_of e" "a_status a' = nst"
    by (simp_all add: a'_def moved_attempt_def)
  have hb: "heartbeat_ok a'"
    using heartbeat_ok_later[OF seq(2,1), of a'] by (simp add: a'_def moved_attempt_def)
  have eq: "transition_attempt s e a allowed nst rst active hint =
      replace_attempt s e a' (Some rst) (Some next_active)"
    using allowed by (cases hint) (simp_all add: transition_attempt_def Let_def a'_def moved_attempt_def next_active_def)
  have na: "next_active = (if is_unresolved nst then Some (a_attempt_id a) else None)"
    by (simp add: next_active_def act)
  show ?thesis
    unfolding eq a'_def[symmetric] na
    by (subst replace_attempt_ok[OF inv(1) last(1) inv(2,3) a'(1-5) hb])
       (simp_all add: a' set_status_def set_active_def st)
qed

lemma transition_attempt_illegal:
  "\<not> List.member allowed (a_status a) \<Longrightarrow>
     transition_attempt s e a allowed nst rst active hint = transition_error e ''illegal lifecycle transition''"
  by (simp add: transition_attempt_def)

section \<open>The rules of one attempt\<close>

text \<open>The reference machine of the active attempt: event type, status before and after,
  run status before and after; the first argument says whether a cancellation was
  requested of the run or of the attempt.\<close>

inductive attempt_rule :: "bool \<Rightarrow> pystr \<Rightarrow> attempt_status \<Rightarrow> attempt_status
    \<Rightarrow> run_status \<Rightarrow> run_status \<Rightarrow> bool" for cr where
  started: "attempt_rule cr TYPE_ATTEMPT_STARTED A_QUEUED A_RUNNING r R_RUNNING"
| heartbeat: "attempt_rule cr TYPE_ATTEMPT_HEARTBEAT A_RUNNING A_RUNNING r r"
| cancel_requested: "is_unresolved st \<Longrightarrow> attempt_rule cr TYPE_ATTEMPT_CANCEL_REQUESTED st st r r"
| unknown: "attempt_rule cr TYPE_ATTEMPT_UNKNOWN A_RUNNING A_UNKNOWN r R_UNKNOWN"
| lost: "st \<in> {A_RUNNING, A_UNKNOWN} \<Longrightarrow> attempt_rule cr TYPE_ATTEMPT_LOST st A_LOST r R_LOST"
| recovered: "st \<in> {A_LOST, A_UNKNOWN} \<Longrightarrow> attempt_rule cr TYPE_ATTEMPT_RECOVERED st A_RUNNING r R_RUNNING"
| succeeded: "st \<in> {A_RUNNING, A_LOST, A_UNKNOWN} \<Longrightarrow>
    attempt_rule cr TYPE_ATTEMPT_SUCCEEDED st A_SUCCEEDED r R_RUNNING"
| failed: "is_unresolved st \<Longrightarrow> attempt_rule cr TYPE_ATTEMPT_FAILED st A_FAILED r R_RETRY_PENDING"
| cancelled: "cr \<Longrightarrow> is_unresolved st \<Longrightarrow> attempt_rule cr TYPE_ATTEMPT_CANCELLED st A_CANCELLED r R_RUNNING"

definition same_identity :: "attempt_snapshot \<Rightarrow> attempt_snapshot \<Rightarrow> bool" where
  "same_identity a b \<longleftrightarrow> a_attempt_id a = a_attempt_id b \<and> a_ordinal a = a_ordinal b
     \<and> a_retry_of a = a_retry_of b \<and> a_retry_decision_id a = a_retry_decision_id b"

text \<open>What a handler of the active attempt may answer.\<close>

definition attempt_outcome :: "run_snapshot \<Rightarrow> research_event \<Rightarrow> attempt_snapshot list \<Rightarrow> attempt_snapshot
    \<Rightarrow> run_error + run_snapshot \<Rightarrow> bool" where
  "attempt_outcome s e pre a r = (case r of
     Inl err \<Rightarrow> guard_refusal e err
   | Inr s' \<Rightarrow> \<exists>a'. s' = with_latest s e pre a' (s_status s') (s_active_attempt_id s')
       \<and> snapshot_inv s' \<and> attempt_snapshot_valid a' \<and> same_identity a' a
       \<and> (a_cancellation_requested a' \<longleftrightarrow>
            a_cancellation_requested a \<or> e_type e = TYPE_ATTEMPT_CANCEL_REQUESTED)
       \<and> attempt_rule (s_cancellation_requested s \<or> a_cancellation_requested a) (e_type e)
           (a_status a) (a_status a') (s_status s) (s_status s'))"

lemma attempt_outcome_refusal [simp]:
  "attempt_outcome s e pre a (transition_error e m) \<longleftrightarrow> m \<notin> set invariant_messages"
  "attempt_outcome s e pre a (payload_error e)"
  by (simp_all add: attempt_outcome_def)

lemma attempt_valid_moved:
  assumes "attempt_snapshot_valid a" "research_event_valid e" "(st = A_FAILED) = (hint \<noteq> None)"
    "a_last_sequence a \<le> sequence_of e"
  shows "attempt_snapshot_valid (moved_attempt a e st hint)"
  using assms event_stamp_valid[OF assms(2)]
  by (cases "a_last_heartbeat_sequence a")
     (auto simp: attempt_snapshot_valid_def moved_attempt_def attempt_fields_are_consistent_def)

lemma attempt_rule_matches:
  assumes "attempt_rule cr t st st' r r'" "run_matches r rcr (Some st)" "is_unresolved st"
  shows "run_matches r' rcr (Some st')"
  using assms by cases (auto simp: run_matches_def UNRESOLVED_ATTEMPT_STATUSES_def split: run_status.splits)

text \<open>The latest attempt of a live run is open and the event addresses it.\<close>

definition at_active :: "run_snapshot \<Rightarrow> research_event \<Rightarrow> attempt_snapshot list \<Rightarrow> attempt_snapshot \<Rightarrow> bool" where
  "at_active s e pre a \<longleftrightarrow> live_at s e \<and> s_attempts s = pre @ [a] \<and> is_unresolved (a_status a)
     \<and> attempt_snapshot_valid a \<and> research_event_valid e"

lemma at_activeD:
  assumes "at_active s e pre a"
  shows "snapshot_inv s" "\<not> is_terminal_run (s_status s)" "s_last_sequence s < sequence_of e"
    "s_attempts s = pre @ [a]" "is_unresolved (a_status a)" "attempt_snapshot_valid a"
    "research_event_valid e" "live_at s e"
  using assms by (auto simp: at_active_def live_at_def)

lemma at_active_facts:
  assumes "at_active s e pre a"
  shows "a_last_sequence a \<le> sequence_of e" "heartbeat_ok a"
    "run_matches (s_status s) (s_cancellation_requested s) (Some (a_status a))"
    "s_active_attempt_id s = Some (a_attempt_id a)" "a_retry_hint a = None"
proof -
  note d = at_activeD[OF assms]
  note i = d(1)[unfolded snapshot_inv_snoc[OF d(4)]]
  show "a_last_sequence a \<le> sequence_of e" "heartbeat_ok a"
    "run_matches (s_status s) (s_cancellation_requested s) (Some (a_status a))"
    "s_active_attempt_id s = Some (a_attempt_id a)"
    using i d(3,5) by simp_all
  show "a_retry_hint a = None"
    using d(5,6)
    by (auto simp: attempt_snapshot_valid_def attempt_fields_are_consistent_def UNRESOLVED_ATTEMPT_STATUSES_def
        split: if_splits)
qed

text \<open>A move of the reference machine is carried out and keeps every invariant.\<close>

lemma transition_outcome:
  assumes at: "at_active s e pre a"
    and rule: "List.member allowed (a_status a) \<Longrightarrow>
      attempt_rule (s_cancellation_requested s \<or> a_cancellation_requested a) (e_type e) (a_status a) nst (s_status s) rst"
    and act: "active = (if is_unresolved nst then None else Some None)"
    and hint: "hint = (if nst = A_FAILED then Some (Some h) else None)"
    and type: "e_type e \<noteq> TYPE_ATTEMPT_CANCEL_REQUESTED"
  shows "attempt_outcome s e pre a (transition_attempt s e a allowed nst rst active hint)"
proof (cases "List.member allowed (a_status a)")
  case True
  note d = at_activeD[OF at] and f = at_active_facts[OF at]
  note r = rule[OF True]
  note m = attempt_rule_matches[OF r f(3) d(5)]
  define hint' where "hint' = (if nst = A_FAILED then Some h else None)"
  have h: "(case hint of None \<Rightarrow> a_retry_hint a | Some h \<Rightarrow> h) = hint'"
    by (simp add: hint hint'_def f)
  define act' where "act' = (if is_unresolved nst then Some (a_attempt_id a) else None)"
  have eq: "transition_attempt s e a allowed nst rst active hint =
      Inr (with_latest s e pre (moved_attempt a e nst hint') rst act')"
    using transition_attempt_ok[OF d(8,4,5) True m act, of hint] unfolding h act'_def .
  then have "snapshot_inv (with_latest s e pre (moved_attempt a e nst hint') rst act')"
    unfolding transition_attempt_def replace_attempt_def Let_def
    by (auto simp: stamp_Inr split: if_splits)
  moreover have "attempt_snapshot_valid (moved_attempt a e nst hint')"
    using d f(1) by (intro attempt_valid_moved) (auto simp: hint'_def)
  ultimately show ?thesis
    using r type unfolding eq attempt_outcome_def
    by (auto simp: moved_attempt_def same_identity_def intro!: exI[of _ "moved_attempt a e nst hint'"])
qed (simp add: transition_attempt_illegal invariant_messages_def)

text \<open>The two handlers that keep the status.\<close>

lemma keep_outcome:
  assumes at: "at_active s e pre a"
    and same: "same_identity b a" "a_status b = a_status a"
    and new: "a_last_sequence b = sequence_of e" "heartbeat_ok b" "attempt_snapshot_valid b"
    and cancel: "a_cancellation_requested b \<longleftrightarrow>
       a_cancellation_requested a \<or> e_type e = TYPE_ATTEMPT_CANCEL_REQUESTED"
    and rule: "attempt_rule (s_cancellation_requested s \<or> a_cancellation_requested a) (e_type e)
       (a_status a) (a_status a) (s_status s) (s_status s)"
  shows "attempt_outcome s e pre a (replace_attempt s e b None None)"
proof -
  note d = at_activeD[OF at] and f = at_active_facts[OF at]
  have ids: "a_attempt_id b = a_attempt_id a" "a_ordinal b = a_ordinal a" "a_retry_of b = a_retry_of a"
    "a_retry_decision_id b = a_retry_decision_id a"
    using same(1) by (auto simp: same_identity_def)
  have sets: "set_status None (s_status s) = s_status s"
    "set_active None (s_active_attempt_id s) = s_active_attempt_id s"
    by (simp_all add: set_status_def set_active_def)
  have st: "run_matches (s_status s) (s_cancellation_requested s) (Some (a_status b))"
    "s_active_attempt_id s = (if is_unresolved (a_status b) then Some (a_attempt_id a) else None)"
    using f d(5) same by simp_all
  have eq: "replace_attempt s e b None None = Inr (with_latest s e pre b (s_status s) (s_active_attempt_id s))"
    using replace_attempt_ok[OF d(1,4,2,3) ids new(1,2), of None None] unfolding sets using st by blast
  have "snapshot_inv (with_latest s e pre b (s_status s) (s_active_attempt_id s))"
    by (rule with_latest_inv[OF d(1,4,2,3) ids new(1,2) st])
  with eq show ?thesis
    using same new cancel rule by (auto simp: attempt_outcome_def)
qed

lemma attempt_types_distinct [simp]:
  "TYPE_ATTEMPT_STARTED \<noteq> TYPE_ATTEMPT_CANCEL_REQUESTED" "TYPE_ATTEMPT_HEARTBEAT \<noteq> TYPE_ATTEMPT_CANCEL_REQUESTED"
  "TYPE_ATTEMPT_UNKNOWN \<noteq> TYPE_ATTEMPT_CANCEL_REQUESTED" "TYPE_ATTEMPT_LOST \<noteq> TYPE_ATTEMPT_CANCEL_REQUESTED"
  "TYPE_ATTEMPT_RECOVERED \<noteq> TYPE_ATTEMPT_CANCEL_REQUESTED" "TYPE_ATTEMPT_SUCCEEDED \<noteq> TYPE_ATTEMPT_CANCEL_REQUESTED"
  "TYPE_ATTEMPT_FAILED \<noteq> TYPE_ATTEMPT_CANCEL_REQUESTED" "TYPE_ATTEMPT_CANCELLED \<noteq> TYPE_ATTEMPT_CANCEL_REQUESTED"
  by (simp_all add: type_defs)

lemma heartbeat_outcome:
  assumes at: "at_active s e pre a" and type: "e_type e = TYPE_ATTEMPT_HEARTBEAT"
    and st: "List.member ATTEMPT_HEARTBEAT_STATUSES (a_status a)"
  shows "attempt_outcome s e pre a (replace_attempt s e (a\<lparr>a_last_event_id := e_id e,
    a_last_sequence := sequence_of e, a_last_heartbeat_sequence := Some (sequence_of e)\<rparr>) None None)"
proof (rule keep_outcome[OF at])
  note d = at_activeD[OF at]
  show "attempt_snapshot_valid (a\<lparr>a_last_event_id := e_id e, a_last_sequence := sequence_of e,
      a_last_heartbeat_sequence := Some (sequence_of e)\<rparr>)"
    using d(6) event_stamp_valid[OF d(7)]
    by (auto simp: attempt_snapshot_valid_def attempt_fields_are_consistent_def)
  show "attempt_rule (s_cancellation_requested s \<or> a_cancellation_requested a) (e_type e)
      (a_status a) (a_status a) (s_status s) (s_status s)"
    using st type by (auto simp: ATTEMPT_HEARTBEAT_STATUSES_def intro: attempt_rule.heartbeat)
qed (simp_all add: same_identity_def heartbeat_ok_def type)

lemma cancel_requested_outcome:
  assumes at: "at_active s e pre a" and type: "e_type e = TYPE_ATTEMPT_CANCEL_REQUESTED"
  shows "attempt_outcome s e pre a (replace_attempt s e (a\<lparr>a_cancellation_requested := True,
    a_last_event_id := e_id e, a_last_sequence := sequence_of e\<rparr>) None None)"
proof (rule keep_outcome[OF at])
  note d = at_activeD[OF at] and f = at_active_facts[OF at]
  let ?b = "a\<lparr>a_cancellation_requested := True, a_last_event_id := e_id e, a_last_sequence := sequence_of e\<rparr>"
  show "heartbeat_ok ?b" by (rule heartbeat_ok_later[OF f(2,1)]) simp_all
  show "attempt_snapshot_valid ?b"
    using d(6) event_stamp_valid[OF d(7)] f(1)
    by (cases "a_last_heartbeat_sequence a")
       (auto simp: attempt_snapshot_valid_def attempt_fields_are_consistent_def)
  show "attempt_rule (s_cancellation_requested s \<or> a_cancellation_requested a) (e_type e)
      (a_status a) (a_status a) (s_status s) (s_status s)"
    using d(5) type by (auto intro: attempt_rule.cancel_requested)
qed (simp_all add: same_identity_def type)

lemma outcome_if:
  "(c \<Longrightarrow> attempt_outcome s e pre a x) \<Longrightarrow> (\<not> c \<Longrightarrow> attempt_outcome s e pre a y) \<Longrightarrow>
     attempt_outcome s e pre a (if c then x else y)"
  by simp

lemma apply_active_attempt_outcome:
  assumes at: "at_active s e pre a"
  shows "attempt_outcome s e pre a (apply_active_attempt s e payload a)"
proof -
  note t = transition_outcome[OF at]
  have sets: "is_unresolved A_RUNNING" "is_unresolved A_UNKNOWN" "is_unresolved A_LOST"
    "\<not> is_unresolved A_SUCCEEDED" "\<not> is_unresolved A_FAILED" "\<not> is_unresolved A_CANCELLED"
    by (simp_all add: UNRESOLVED_ATTEMPT_STATUSES_def)
  note rules = attempt_rule.intros attempt_status_sets
  show ?thesis
    unfolding apply_active_attempt_def
  proof (intro outcome_if, goal_cases)
    case 1 then show ?case by (intro t) (use sets in \<open>auto simp: rules(10-) intro: rules\<close>)
  next
    case 2 show ?case by (simp add: invariant_messages_def)
  next
    case 3 then show ?case by (intro heartbeat_outcome[OF at]) auto
  next
    case 4 show ?case by (simp add: invariant_messages_def)
  next
    case 5 then show ?case by (intro cancel_requested_outcome[OF at]) auto
  next
    case 6 then show ?case by (intro t) (use sets in \<open>auto simp: rules(10-) intro: rules\<close>)
  next
    case 7 then show ?case by (intro t) (use sets in \<open>auto simp: rules(10-) intro: rules\<close>)
  next
    case 8 then show ?case by (intro t) (use sets in \<open>auto simp: rules(10-) intro: rules\<close>)
  next
    case 9 then show ?case by (intro t) (use sets in \<open>auto simp: rules(10-) intro: rules\<close>)
  next
    case 10
    then show ?case
      by (cases payload; simp; intro t) (use sets in \<open>auto simp: attempt_status_sets intro: attempt_rule.failed\<close>)
  next
    case 11 show ?case by (simp add: invariant_messages_def)
  next
    case 12
    then show ?case
      by (intro t) (use sets in \<open>auto simp: attempt_status_sets intro: attempt_rule.cancelled\<close>)
  next
    case 13 show ?case by (simp add: invariant_messages_def)
  qed
qed

section \<open>The rules of a run\<close>

text \<open>The part of a snapshot the life cycle depends on.\<close>

record run_view =
  v_status :: run_status
  v_cancel :: bool
  v_reviewed :: bool
  v_latest :: "(attempt_status \<times> bool) option"
  v_count :: nat
  v_max :: int

definition view :: "run_snapshot \<Rightarrow> run_view" where
  "view s = \<lparr>v_status = s_status s, v_cancel = s_cancellation_requested s,
     v_reviewed = rv_reviewed (s_review s),
     v_latest = map_option (\<lambda>a. (a_status a, a_cancellation_requested a)) (last_of (s_attempts s)),
     v_count = length (s_attempts s), v_max = s_max_attempts s\<rparr>"

text \<open>The reference machine of a run: its rules name no event identity and no sequence.\<close>

inductive run_rule :: "run_view \<Rightarrow> pystr \<Rightarrow> run_view \<Rightarrow> bool" where
  observed: "t \<notin> set LIFECYCLE_TYPES \<Longrightarrow> run_rule v t v"
| run_started: "v_status v = R_QUEUED \<Longrightarrow> run_rule v TYPE_RUN_STARTED (v\<lparr>v_status := R_RUNNING\<rparr>)"
| run_cancel_requested: "\<not> is_terminal_run (v_status v) \<Longrightarrow>
    run_rule v TYPE_RUN_CANCEL_REQUESTED (v\<lparr>v_cancel := True\<rparr>)"
| run_completed: "\<not> is_terminal_run (v_status v) \<Longrightarrow> v_latest v = Some (A_SUCCEEDED, c) \<Longrightarrow>
    run_rule v TYPE_RUN_COMPLETED (v\<lparr>v_status := R_COMPLETED\<rparr>)"
| run_failed: "\<not> is_terminal_run (v_status v) \<Longrightarrow> v_latest v = Some (A_FAILED, c) \<Longrightarrow>
    run_rule v TYPE_RUN_FAILED (v\<lparr>v_status := R_FAILED\<rparr>)"
| run_cancelled: "\<not> is_terminal_run (v_status v) \<Longrightarrow> v_cancel v \<Longrightarrow>
    v_latest v = None \<or> v_latest v = Some (A_CANCELLED, c) \<Longrightarrow>
    run_rule v TYPE_RUN_CANCELLED (v\<lparr>v_status := R_CANCELLED\<rparr>)"
| run_reviewed: "is_terminal_run (v_status v) \<Longrightarrow> \<not> v_reviewed v \<Longrightarrow>
    run_rule v TYPE_RUN_REVIEWED (v\<lparr>v_reviewed := True\<rparr>)"
| attempt_queued: "\<not> v_cancel v \<Longrightarrow> int (v_count v) < v_max v \<Longrightarrow>
    v_status v = R_RUNNING \<and> v_latest v = None \<or> v_status v = R_RETRY_PENDING \<and> v_latest v = Some (A_FAILED, c) \<Longrightarrow>
    run_rule v TYPE_ATTEMPT_QUEUED
      (v\<lparr>v_status := R_RUNNING, v_latest := Some (A_QUEUED, False), v_count := Suc (v_count v)\<rparr>)"
| attempt_moved: "\<not> is_terminal_run (v_status v) \<Longrightarrow> v_latest v = Some (st, c) \<Longrightarrow> is_unresolved st \<Longrightarrow>
    attempt_rule (v_cancel v \<or> c) t st st' (v_status v) r \<Longrightarrow>
    run_rule v t (v\<lparr>v_status := r, v_latest := Some (st', c \<or> t = TYPE_ATTEMPT_CANCEL_REQUESTED)\<rparr>)"

text \<open>The fields no event changes.\<close>

definition same_binding :: "run_snapshot \<Rightarrow> run_snapshot \<Rightarrow> bool" where
  "same_binding s t \<longleftrightarrow> s_api_version t = s_api_version s \<and> s_kind t = s_kind s
     \<and> s_project_id t = s_project_id s \<and> s_experiment_revision t = s_experiment_revision s
     \<and> s_run_id t = s_run_id s \<and> s_workflow_id t = s_workflow_id s \<and> s_digests t = s_digests s
     \<and> s_max_attempts t = s_max_attempts s \<and> s_consumed_authorization t = s_consumed_authorization s"

text \<open>Attempts are only added at the end, and only the latest may change; an attempt
  that is over never does.\<close>

definition attempts_grow :: "attempt_snapshot list \<Rightarrow> attempt_snapshot list \<Rightarrow> bool" where
  "attempts_grow as bs \<longleftrightarrow> bs = as \<or> (\<exists>b. bs = as @ [b])
     \<or> (\<exists>pre a b. as = pre @ [a] \<and> bs = pre @ [b] \<and> is_unresolved (a_status a) \<and> same_identity b a)"

definition run_outcome :: "run_snapshot \<Rightarrow> research_event \<Rightarrow> run_error + run_snapshot \<Rightarrow> bool" where
  "run_outcome s e r = (case r of
     Inl err \<Rightarrow> guard_refusal e err
   | Inr t \<Rightarrow> run_snapshot_valid t \<and> same_binding s t \<and> run_rule (view s) (e_type e) (view t)
       \<and> attempts_grow (s_attempts s) (s_attempts t)
       \<and> (rv_reviewed (s_review s) \<longrightarrow> s_review t = s_review s)
       \<and> s_last_sequence t = sequence_of e \<and> s_last_event_id t = e_id e)"

lemma run_outcome_refusal [simp]:
  "run_outcome s e (transition_error e m) \<longleftrightarrow> m \<notin> set invariant_messages"
  "run_outcome s e (payload_error e)"
  by (simp_all add: run_outcome_def)

lemma run_outcome_if:
  "(c \<Longrightarrow> run_outcome s e x) \<Longrightarrow> (\<not> c \<Longrightarrow> run_outcome s e y) \<Longrightarrow> run_outcome s e (if c then x else y)"
  by simp

lemma active_identifier:
  assumes "snapshot_inv s" "list_all attempt_snapshot_valid (s_attempts s)"
  shows "pred_option EventIdentifier (s_active_attempt_id s)"
proof (cases "s_attempts s" rule: rev_cases)
  case Nil
  with assms show ?thesis by (simp add: snapshot_inv_Nil)
next
  case (snoc pre a)
  with assms show ?thesis by (auto simp: snapshot_inv_snoc attempt_snapshot_valid_def)
qed

lemma run_snapshot_valid_step:
  assumes "run_snapshot_valid s" "research_event_valid e" "same_binding s t" "snapshot_inv t"
    "list_all attempt_snapshot_valid (s_attempts t)" "run_review_valid (s_review t)"
    "s_last_sequence t = sequence_of e" "s_last_event_id t = e_id e"
  shows "run_snapshot_valid t"
proof -
  have "int (length (s_attempts t)) \<le> s_max_attempts t"
    using assms(4) by (simp add: snapshot_inv_unfold)
  moreover have "s_max_attempts t \<le> MAX_ATTEMPTS"
    using assms(1,3) by (simp add: run_snapshot_valid_def same_binding_def MaxAttempts_def)
  ultimately show ?thesis
    using assms event_stamp_valid[OF assms(2)] active_identifier[OF assms(4,5)]
    by (auto simp: run_snapshot_valid_def same_binding_def snapshot_inv_def)
qed

text \<open>A stamp that leaves the attempts and their bindings alone.\<close>

lemma stamp_outcome:
  assumes valid: "run_snapshot_valid s" and event: "research_event_valid e"
    and later: "s_last_sequence s < sequence_of e"
    and f: "t = f (s\<lparr>s_last_event_id := e_id e, s_last_sequence := sequence_of e\<rparr>)"
    and same: "same_binding s t" "s_attempts t = s_attempts s" "s_active_attempt_id t = s_active_attempt_id s"
      "s_last_sequence t = sequence_of e" "s_last_event_id t = e_id e"
      "rv_reviewed (s_review s) \<Longrightarrow> s_review t = s_review s"
    and st: "run_matches (s_status t) (s_cancellation_requested t) (latest_status s)"
    and rv: "review_ok t" "run_review_valid (s_review t)"
    and rule: "run_rule (view s) (e_type e) (view t)"
  shows "run_outcome s e (stamp s e f)"
proof -
  have "snapshot_inv t"
    by (rule snapshot_inv_same_attempts[OF run_snapshot_valid_inv[OF valid]])
       (use same later st rv in \<open>simp_all add: same_binding_def\<close>)
  moreover from this have "run_snapshot_valid t"
    using valid same rv by (intro run_snapshot_valid_step[OF valid event]) (simp_all add: run_snapshot_valid_def)
  ultimately show ?thesis
    using stamp_ok[where f = f and s = s and e = e] same rule by (simp add: f[symmetric] run_outcome_def attempts_grow_def)
qed

lemma valid_facts:
  assumes "run_snapshot_valid s"
  shows "snapshot_inv s" "run_review_valid (s_review s)" "review_ok s"
    "run_matches (s_status s) (s_cancellation_requested s) (latest_status s)"
proof -
  show *: "snapshot_inv s" by (rule run_snapshot_valid_inv[OF assms])
  show "run_review_valid (s_review s)" using assms by (simp add: run_snapshot_valid_def)
  show "review_ok s" using * by (simp add: snapshot_inv_unfold)
  show "run_matches (s_status s) (s_cancellation_requested s) (latest_status s)"
    by (rule snapshot_inv_latest[OF *])
qed

lemma review_ok_later:
  "review_ok s \<Longrightarrow> s_review t = s_review s \<Longrightarrow> s_last_sequence s \<le> s_last_sequence t \<Longrightarrow>
     is_terminal_run (s_status t) \<or> s_status t = s_status s \<or> \<not> is_terminal_run (s_status s) \<Longrightarrow> review_ok t"
  by (cases "rv_sequence (s_review s)") (auto simp: review_ok_def)

lemma observe_outcome:
  assumes "run_snapshot_valid s" "research_event_valid e" "s_last_sequence s < sequence_of e"
    "e_type e \<notin> set LIFECYCLE_TYPES"
  shows "run_outcome s e (stamp s e id)"
  by (rule stamp_outcome[OF assms(1-3) refl])
     (use valid_facts[OF assms(1)] assms in \<open>auto simp: same_binding_def view_def
        intro: run_rule.observed review_ok_later\<close>)

section \<open>The run handlers\<close>

definition run_ready :: "run_snapshot \<Rightarrow> research_event \<Rightarrow> bool" where
  "run_ready s e \<longleftrightarrow> run_snapshot_valid s \<and> research_event_valid e \<and> s_last_sequence s < sequence_of e"

lemma view_simps [simp]:
  "v_status (view s) = s_status s" "v_cancel (view s) = s_cancellation_requested s"
  "v_reviewed (view s) = rv_reviewed (s_review s)" "v_count (view s) = length (s_attempts s)"
  "v_max (view s) = s_max_attempts s"
  "v_latest (view s) = map_option (\<lambda>a. (a_status a, a_cancellation_requested a)) (last_of (s_attempts s))"
  by (simp_all add: view_def)

lemma latest_status_eq: "latest_status s = map_option a_status (latest_attempt s)"
  by (simp add: latest_status_def latest_attempt_def)

lemma status_is_single: "status_is x [st] \<longleftrightarrow> map_option a_status x = Some st"
  by (cases x) (auto simp: status_is_def)

text \<open>The five run events that only set a status or a flag, by the new status and flag.\<close>

lemma set_status_outcome:
  assumes ready: "run_ready s e" and live: "\<not> is_terminal_run (s_status s)"
    and f: "f = (\<lambda>c. c\<lparr>s_status := st, s_active_attempt_id := None\<rparr>)"
    and act: "s_active_attempt_id s = None"
    and st: "run_matches st (s_cancellation_requested s) (latest_status s)"
    and rule: "run_rule (view s) (e_type e) ((view s)\<lparr>v_status := st\<rparr>)"
  shows "run_outcome s e (stamp s e f)"
proof (rule stamp_outcome[OF _ _ _ refl])
  let ?t = "f (s\<lparr>s_last_event_id := e_id e, s_last_sequence := sequence_of e\<rparr>)"
  show v: "run_snapshot_valid s" and "research_event_valid e" and l: "s_last_sequence s < sequence_of e"
    using ready by (auto simp: run_ready_def)
  show "review_ok ?t"
    by (rule review_ok_later[OF valid_facts(3)[OF v]]) (use l live in \<open>auto simp: f\<close>)
  show "run_review_valid (s_review ?t)" using valid_facts(2)[OF v] by (simp add: f)
  show "run_rule (view s) (e_type e) (view ?t)" using rule by (simp add: f view_def)
qed (use act st in \<open>simp_all add: f same_binding_def\<close>)

lemma unresolved_none_active:
  "run_ready s e \<Longrightarrow> unresolved_attempt s = None \<longleftrightarrow> s_active_attempt_id s = None"
  using unresolved_attempt_iff(1)[of s] valid_facts(1) by (auto simp: run_ready_def)

lemma apply_run_cancelled_outcome:
  assumes "run_ready s e" "\<not> is_terminal_run (s_status s)" "e_type e = TYPE_RUN_CANCELLED"
  shows "run_outcome s e (apply_run_cancelled s e)"
  unfolding apply_run_cancelled_def
proof (intro run_outcome_if, goal_cases)
  case 4
  have l: "latest_status s = None \<or> latest_status s = Some A_CANCELLED"
    using 4 unfolding status_is_single latest_status_eq by auto
  then obtain c where "v_latest (view s) = None \<or> v_latest (view s) = Some (A_CANCELLED, c)"
    unfolding latest_status_def by (cases "last_of (s_attempts s)") auto
  then have "run_rule (view s) (e_type e) ((view s)\<lparr>v_status := R_CANCELLED\<rparr>)"
    unfolding assms(3) using assms(2) 4 by (intro run_rule.run_cancelled[of _ c]) auto
  then show ?case
    using assms(1,2) 4 l unresolved_none_active[OF assms(1)]
    by (intro set_status_outcome[OF assms(1,2) refl]) (auto simp: run_matches_def)
qed (simp_all add: invariant_messages_def)

lemma settled_outcome:
  assumes ready: "run_ready s e" "\<not> is_terminal_run (s_status s)"
    and latest: "status_is (latest_attempt s) [ast]" "unresolved_attempt s = None"
    and kind: "e_type e = TYPE_RUN_COMPLETED \<and> ast = A_SUCCEEDED \<and> st = R_COMPLETED
      \<or> e_type e = TYPE_RUN_FAILED \<and> ast = A_FAILED \<and> st = R_FAILED"
  shows "run_outcome s e (stamp s e (\<lambda>c. c\<lparr>s_status := st, s_active_attempt_id := None\<rparr>))"
proof (rule set_status_outcome[OF ready refl])
  show "s_active_attempt_id s = None" using latest(2) unresolved_none_active[OF ready(1)] by simp
  have l: "latest_status s = Some ast"
    using latest(1) unfolding status_is_single latest_status_eq .
  then show "run_matches st (s_cancellation_requested s) (latest_status s)"
    using kind by (auto simp: run_matches_def)
  obtain c where "v_latest (view s) = Some (ast, c)"
    using l by (auto simp: latest_status_def)
  then show "run_rule (view s) (e_type e) ((view s)\<lparr>v_status := st\<rparr>)"
    using kind ready(2) run_rule.run_completed[of "view s" c] run_rule.run_failed[of "view s" c] by auto
qed

lemma run_started_outcome:
  assumes ready: "run_ready s e" and st: "s_status s = R_QUEUED" and type: "e_type e = TYPE_RUN_STARTED"
  shows "run_outcome s e (stamp s e (\<lambda>c. c\<lparr>s_status := R_RUNNING\<rparr>))"
proof (rule stamp_outcome[OF _ _ _ refl])
  let ?t = "s\<lparr>s_last_event_id := e_id e, s_last_sequence := sequence_of e, s_status := R_RUNNING\<rparr>"
  show v: "run_snapshot_valid s" and "research_event_valid e" and l: "s_last_sequence s < sequence_of e"
    using ready by (auto simp: run_ready_def)
  show "review_ok ?t"
    by (rule review_ok_later[OF valid_facts(3)[OF v]]) (use l st in \<open>auto simp: TERMINAL_RUN_STATUSES_def\<close>)
  show "run_review_valid (s_review ?t)" using valid_facts(2)[OF v] by simp
  show "run_matches (s_status ?t) (s_cancellation_requested ?t) (latest_status s)"
    using valid_facts(4)[OF v] st by (simp add: run_matches_def)
  have vt: "view ?t = (view s)\<lparr>v_status := R_RUNNING\<rparr>" by (simp add: view_def)
  show "run_rule (view s) (e_type e) (view ?t)"
    unfolding vt type by (rule run_rule.run_started) (simp add: st)
qed (simp_all add: same_binding_def)

lemma run_cancel_requested_outcome:
  assumes ready: "run_ready s e" and live: "\<not> is_terminal_run (s_status s)"
    and type: "e_type e = TYPE_RUN_CANCEL_REQUESTED"
  shows "run_outcome s e (stamp s e (\<lambda>c. c\<lparr>s_cancellation_requested := True\<rparr>))"
proof (rule stamp_outcome[OF _ _ _ refl])
  let ?t = "s\<lparr>s_last_event_id := e_id e, s_last_sequence := sequence_of e, s_cancellation_requested := True\<rparr>"
  show v: "run_snapshot_valid s" and "research_event_valid e" and l: "s_last_sequence s < sequence_of e"
    using ready by (auto simp: run_ready_def)
  show "review_ok ?t"
    by (rule review_ok_later[OF valid_facts(3)[OF v]]) (use l in auto)
  show "run_review_valid (s_review ?t)" using valid_facts(2)[OF v] by simp
  show "run_matches (s_status ?t) (s_cancellation_requested ?t) (latest_status s)"
    using valid_facts(4)[OF v] live by (auto simp: run_matches_def split: run_status.splits)
  have vt: "view ?t = (view s)\<lparr>v_cancel := True\<rparr>" by (simp add: view_def)
  show "run_rule (view s) (e_type e) (view ?t)"
    unfolding vt type by (rule run_rule.run_cancel_requested) (use live in simp)
qed (simp_all add: same_binding_def)

lemma apply_run_event_outcome:
  assumes ready: "run_ready s e" and live: "\<not> is_terminal_run (s_status s)"
  shows "run_outcome s e (apply_run_event s e)"
  unfolding apply_run_event_def
proof (intro run_outcome_if, goal_cases)
  case 3 then show ?case using ready by (intro run_started_outcome) auto
next
  case 5 then show ?case using ready live by (intro run_cancel_requested_outcome) auto
next
  case 7 then show ?case using ready live by (intro settled_outcome) auto
next
  case 9 then show ?case using ready live by (intro settled_outcome) auto
next
  case 10 then show ?case using ready live by (intro apply_run_cancelled_outcome) auto
qed (simp_all add: invariant_messages_def)

lemma review_valid_new:
  assumes "research_event_valid e" "EventIdentifier i"
  shows "run_review_valid \<lparr>rv_reviewed = True, rv_event_id = Some (e_id e),
    rv_sequence = Some (sequence_of e), rv_decision_id = Some i\<rparr>"
  using assms event_stamp_valid[OF assms(1)]
  by (simp add: run_review_valid_def review_fields_are_consistent_def)

lemma apply_run_reviewed_outcome:
  assumes ready: "run_ready s e" and payload: "payload_valid payload" and type: "e_type e = TYPE_RUN_REVIEWED"
  shows "run_outcome s e (apply_run_reviewed s e payload)"
  unfolding apply_run_reviewed_def
proof (intro run_outcome_if, goal_cases)
  case 3
  have event: "research_event_valid e" using ready by (simp add: run_ready_def)
  show ?case
  proof (cases payload)
    case (RunReviewedPayload i)
    let ?rv = "\<lparr>rv_reviewed = True, rv_event_id = Some (e_id e), rv_sequence = Some (sequence_of e),
      rv_decision_id = Some i\<rparr>"
    let ?t = "s\<lparr>s_last_event_id := e_id e, s_last_sequence := sequence_of e, s_review := ?rv\<rparr>"
    have rv: "run_review_valid ?rv" using review_valid_new[OF event] payload RunReviewedPayload by simp
    have "run_outcome s e (stamp s e (\<lambda>c. c\<lparr>s_review := ?rv\<rparr>))"
    proof (rule stamp_outcome[OF _ _ _ refl])
      show v: "run_snapshot_valid s" and "research_event_valid e" and l: "s_last_sequence s < sequence_of e"
        using ready by (auto simp: run_ready_def)
      show "review_ok ?t" using 3 by (simp add: review_ok_def)
      show "run_matches (s_status ?t) (s_cancellation_requested ?t) (latest_status s)"
        using valid_facts(4)[OF v] by simp
      have vt: "view ?t = (view s)\<lparr>v_reviewed := True\<rparr>" by (simp add: view_def)
      show "run_rule (view s) (e_type e) (view ?t)"
        unfolding vt type by (rule run_rule.run_reviewed) (use 3 in simp_all)
    qed (use 3 in \<open>simp_all add: same_binding_def rv\<close>)
    with rv RunReviewedPayload show ?thesis by (simp add: Let_def)
  qed simp_all
qed (simp_all add: invariant_messages_def)

section \<open>The attempt handlers\<close>

definition queued_attempt :: "research_event \<Rightarrow> pystr \<Rightarrow> int \<Rightarrow> pystr option \<Rightarrow> pystr option
    \<Rightarrow> attempt_snapshot" where
  "queued_attempt e i n ro rd = \<lparr>a_attempt_id = i, a_ordinal = n, a_retry_of = ro,
     a_retry_decision_id = rd, a_status = A_QUEUED, a_cancellation_requested = False,
     a_retry_hint = None, a_last_event_id = e_id e, a_last_sequence = sequence_of e,
     a_last_heartbeat_sequence = None\<rparr>"

lemma queued_attempt_valid:
  assumes "research_event_valid e" "EventIdentifier i" "payload_valid (AttemptQueuedPayload n ro rd)"
    "n = 1 \<and> ro = None \<and> rd = None \<or> n \<noteq> 1 \<and> ro \<noteq> None \<and> rd \<noteq> None"
  shows "attempt_snapshot_valid (queued_attempt e i n ro rd)"
  using assms event_stamp_valid[OF assms(1)]
  by (auto simp: attempt_snapshot_valid_def queued_attempt_def attempt_fields_are_consistent_def)

lemma queued_inv:
  assumes inv: "snapshot_inv s" and event: "research_event_valid e"
    and later: "s_last_sequence s < sequence_of e" and none: "unresolved_attempt s = None" and live: "\<not> is_terminal_run (s_status s)"
    and fresh: "find_attempt s i = None" and room: "int (length (s_attempts s)) < s_max_attempts s"
    and link: "retry_link (latest_attempt s) (queued_attempt e i n ro rd)"
    and ordinal: "n = int (length (s_attempts s)) + 1"
  shows "snapshot_inv (s\<lparr>s_last_event_id := e_id e, s_last_sequence := sequence_of e,
    s_status := R_RUNNING, s_active_attempt_id := Some i,
    s_attempts := s_attempts s @ [queued_attempt e i n ro rd]\<rparr>)" (is "snapshot_inv ?t")
proof -
  note u = inv[unfolded snapshot_inv_unfold]
  have t: "s_attempts ?t = s_attempts s @ [queued_attempt e i n ro rd]" by simp
  have cur: "cursors_ok (sequence_of e) 0 (s_attempts s)"
    using u later cursors_ok_mono by fastforce
  have prev: "(if s_attempts s = [] then 0 else a_last_sequence (last (s_attempts s))) < sequence_of e"
  proof (cases "s_attempts s" rule: rev_cases)
    case Nil
    then show ?thesis using event_stamp_valid(2)[OF event] by (simp add: SequenceNumber_def)
  next
    case (snoc pre a)
    then show ?thesis using cursors_ok_le[of "s_last_sequence s" 0 "s_attempts s" a] u later by auto
  qed
  have rv: "review_ok ?t" using u live by (auto simp: review_ok_def)
  have ids: "i \<notin> a_attempt_id ` set (s_attempts s)"
    using fresh by (auto simp: find_attempt_def)
  show ?thesis
    unfolding snapshot_inv_snoc[OF t]
    using u cur prev rv ids room link ordinal
    by (simp add: queued_attempt_def heartbeat_ok_def latest_attempt_def run_matches_def
        UNRESOLVED_ATTEMPT_STATUSES_def del: upt_Suc)
qed

lemma retry_status:
  assumes "snapshot_inv s" "unresolved_attempt s = None" "latest_attempt s = Some a" "a_status a = A_FAILED"
    "\<not> is_terminal_run (s_status s)" "\<not> s_cancellation_requested s"
  shows "s_status s = R_RETRY_PENDING"
proof -
  have "latest_status s = Some A_FAILED" using assms by (simp add: latest_status_eq)
  then show ?thesis using snapshot_inv_latest[OF assms(1)] assms(5)
    by (cases "s_status s") (auto simp: run_matches_def TERMINAL_RUN_STATUSES_def)
qed

lemma latest_ordinal:
  assumes "snapshot_inv s" "latest_attempt s = Some a"
  shows "a_ordinal a = int (length (s_attempts s))" "1 \<le> a_ordinal a"
proof -
  obtain pre where "s_attempts s = pre @ [a]"
    using assms(2) by (cases "s_attempts s" rule: rev_cases) (auto simp: latest_attempt_def)
  then show "a_ordinal a = int (length (s_attempts s))" "1 \<le> a_ordinal a"
    using assms(1) snapshot_inv_snoc by auto
qed

lemma attempt_queued_stamp_outcome:
  assumes ready: "run_ready s e" and live: "\<not> is_terminal_run (s_status s)"
    and type: "e_type e = TYPE_ATTEMPT_QUEUED" and cancel: "\<not> s_cancellation_requested s"
    and none: "unresolved_attempt s = None" and fresh: "find_attempt s i = None"
    and room: "int (length (s_attempts s)) < s_max_attempts s"
    and link: "retry_link (latest_attempt s) (queued_attempt e i n ro rd)"
    and ordinal: "n = int (length (s_attempts s)) + 1"
    and st: "s_status s = R_RUNNING \<and> latest_attempt s = None
      \<or> s_status s = R_RETRY_PENDING \<and> map_option a_status (latest_attempt s) = Some A_FAILED"
    and valid: "attempt_snapshot_valid (queued_attempt e i n ro rd)"
  shows "run_outcome s e (stamp s e (\<lambda>c. c\<lparr>s_status := R_RUNNING, s_active_attempt_id := Some i,
    s_attempts := s_attempts s @ [queued_attempt e i n ro rd]\<rparr>))"
proof -
  let ?t = "s\<lparr>s_last_event_id := e_id e, s_last_sequence := sequence_of e, s_status := R_RUNNING,
    s_active_attempt_id := Some i, s_attempts := s_attempts s @ [queued_attempt e i n ro rd]\<rparr>"
  have v: "run_snapshot_valid s" "research_event_valid e" "s_last_sequence s < sequence_of e"
    using ready by (auto simp: run_ready_def)
  have inv: "snapshot_inv ?t"
    by (rule queued_inv[OF valid_facts(1)[OF v(1)] v(2,3) none live fresh room link ordinal])
  have same: "same_binding s ?t" by (simp add: same_binding_def)
  have tv: "run_snapshot_valid ?t"
    by (rule run_snapshot_valid_step[OF v(1,2) same inv])
       (use v(1) valid valid_facts(2)[OF v(1)] in \<open>simp_all add: run_snapshot_valid_def\<close>)
  have vt: "view ?t = (view s)\<lparr>v_status := R_RUNNING, v_latest := Some (A_QUEUED, False),
      v_count := Suc (length (s_attempts s))\<rparr>"
    by (simp add: view_def queued_attempt_def)
  obtain c where c: "v_status (view s) = R_RUNNING \<and> v_latest (view s) = None
      \<or> v_status (view s) = R_RETRY_PENDING \<and> v_latest (view s) = Some (A_FAILED, c)"
    using st by (auto simp: latest_attempt_def)
  have rule: "run_rule (view s) (e_type e) (view ?t)"
    using run_rule.attempt_queued[of "view s" c] cancel room c unfolding vt type by simp
  have "stamp s e (\<lambda>c. c\<lparr>s_status := R_RUNNING, s_active_attempt_id := Some i,
      s_attempts := s_attempts s @ [queued_attempt e i n ro rd]\<rparr>) = Inr ?t"
    using inv by (simp add: stamp_Inr)
  then show ?thesis using tv same rule by (simp add: run_outcome_def attempts_grow_def)
qed

lemma apply_attempt_queued_outcome:
  assumes ready: "run_ready s e" and live: "\<not> is_terminal_run (s_status s)"
    and type: "e_type e = TYPE_ATTEMPT_QUEUED" and payload: "payload_valid payload"
    and i: "EventIdentifier i"
  shows "run_outcome s e (apply_attempt_queued s e payload i)"
proof (cases payload)
  case (AttemptQueuedPayload n ro rd)
  have v: "run_snapshot_valid s" "research_event_valid e" "snapshot_inv s"
    using ready valid_facts(1) by (auto simp: run_ready_def)
  show ?thesis
    unfolding apply_attempt_queued_def AttemptQueuedPayload lifecycle_payload.case Let_def
      queued_attempt_def[symmetric]
  proof (intro run_outcome_if, goal_cases)
    case 7
    show ?case
    proof (cases "latest_attempt s")
      case None
      then have len: "length (s_attempts s) = 0" by (auto simp: latest_attempt_def last_of_def split: if_splits)
      show ?thesis
        unfolding None option.case if_distrib[of "\<lambda>m. bind_r m _"] bind_r.simps
      proof (intro run_outcome_if, goal_cases)
        case 3
        then have "attempt_snapshot_valid (queued_attempt e i n ro rd)"
          using v(2) i payload AttemptQueuedPayload by (intro queued_attempt_valid) auto
        moreover from this have "run_outcome s e (stamp s e (\<lambda>c. c\<lparr>s_status := R_RUNNING, s_active_attempt_id := Some i,
            s_attempts := s_attempts s @ [queued_attempt e i n ro rd]\<rparr>))"
          by (rule attempt_queued_stamp_outcome[OF ready live type, rotated -1])
             (use 3 7 None len in \<open>simp_all add: retry_link_def queued_attempt_def\<close>)
        ultimately show ?case by simp
      next
        case 4
        then show ?case
          using queued_attempt_valid[OF v(2) i, of n ro rd] payload AttemptQueuedPayload by auto
      qed (simp_all add: invariant_messages_def)
    next
      case (Some a)
      show ?thesis
        unfolding Some option.case if_distrib[of "\<lambda>m. bind_r m _"] bind_r.simps
      proof (intro run_outcome_if, goal_cases)
        case 5
        note o = latest_ordinal[OF v(3) Some]
        have "attempt_snapshot_valid (queued_attempt e i n ro rd)"
          using 5 o v(2) i payload AttemptQueuedPayload by (intro queued_attempt_valid) auto
        moreover from this have "run_outcome s e (stamp s e (\<lambda>c. c\<lparr>s_status := R_RUNNING, s_active_attempt_id := Some i,
            s_attempts := s_attempts s @ [queued_attempt e i n ro rd]\<rparr>))"
          by (rule attempt_queued_stamp_outcome[OF ready live type, rotated -1])
             (use 5 7 Some o retry_status[OF v(3) _ Some] live in
               \<open>simp_all add: retry_link_def queued_attempt_def\<close>)
        ultimately show ?case by simp
      next
        case 6
        then show ?case
          using queued_attempt_valid[OF v(2) i, of n ro rd] payload AttemptQueuedPayload
            latest_ordinal[OF v(3) Some] by (cases "s_attempts s") auto
      qed (simp_all add: invariant_messages_def)
    qed
  qed (simp_all add: invariant_messages_def)
qed (simp_all add: apply_attempt_queued_def)

lemma list_all_snoc_valid:
  assumes "run_snapshot_valid s" "s_attempts s = pre @ [a]"
  shows "attempt_snapshot_valid a" "list_all attempt_snapshot_valid pre"
  using assms by (auto simp: run_snapshot_valid_def)

text \<open>What a handler of the active attempt answers, read as a step of the run.\<close>

lemma attempt_outcome_run:
  assumes ready: "run_ready s e" and at: "at_active s e pre a" and out: "attempt_outcome s e pre a r"
  shows "run_outcome s e r"
proof (cases r)
  case (Inl err)
  with out show ?thesis by (simp add: attempt_outcome_def run_outcome_def)
next
  case (Inr t)
  have v: "run_snapshot_valid s" "research_event_valid e" "s_last_sequence s < sequence_of e"
    using ready by (auto simp: run_ready_def)
  note d = at_activeD[OF at]
  obtain b where t: "t = with_latest s e pre b (s_status t) (s_active_attempt_id t)"
    and b: "snapshot_inv t" "attempt_snapshot_valid b" "same_identity b a"
      "a_cancellation_requested b \<longleftrightarrow> a_cancellation_requested a \<or> e_type e = TYPE_ATTEMPT_CANCEL_REQUESTED"
      "attempt_rule (s_cancellation_requested s \<or> a_cancellation_requested a) (e_type e)
         (a_status a) (a_status b) (s_status s) (s_status t)"
    using out Inr by (auto simp: attempt_outcome_def)
  have fields: "s_attempts t = pre @ [b]" "s_last_event_id t = e_id e" "s_last_sequence t = sequence_of e"
    "s_review t = s_review s" "s_cancellation_requested t = s_cancellation_requested s"
    "s_max_attempts t = s_max_attempts s"
    by (subst t, simp)+
  have same: "same_binding s t" by (subst t) (simp add: same_binding_def with_latest_def)
  have "run_snapshot_valid t"
    by (rule run_snapshot_valid_step[OF v(1,2) same b(1)])
       (use fields b(2) list_all_snoc_valid[OF v(1) d(4)] valid_facts(2)[OF v(1)] in simp_all)
  moreover have vt: "view t = (view s)\<lparr>v_status := s_status t,
      v_latest := Some (a_status b, a_cancellation_requested a \<or> e_type e = TYPE_ATTEMPT_CANCEL_REQUESTED)\<rparr>"
    using fields d(4) b(4) by (simp add: view_def)
  moreover have "run_rule (view s) (e_type e) (view t)"
    unfolding vt by (rule run_rule.attempt_moved) (use d b(5) in simp_all)
  moreover have "attempts_grow (s_attempts s) (s_attempts t)"
    using fields(1) d(4,5) b(3) by (auto simp: attempts_grow_def)
  ultimately show ?thesis using same fields Inr by (simp add: run_outcome_def)
qed

lemma apply_attempt_event_outcome:
  assumes ready: "run_ready s e" and live: "\<not> is_terminal_run (s_status s)"
    and payload: "payload_valid payload"
  shows "run_outcome s e (apply_attempt_event s e payload)"
proof (cases "ed_attempt_id (e_data e)")
  case (Some i)
  have v: "run_snapshot_valid s" "research_event_valid e" "s_last_sequence s < sequence_of e"
    using ready by (auto simp: run_ready_def)
  have i: "EventIdentifier i"
    using event_data_validD(4)[OF research_event_validD(4)[OF v(2)]] Some by simp
  show ?thesis
    unfolding apply_attempt_event_def Some option.case
  proof (intro run_outcome_if, goal_cases)
    case 1
    then show ?case using apply_attempt_queued_outcome[OF ready live _ payload i] by simp
  next
    case 4
    then obtain pre a where a: "s_attempts s = pre @ [a]" "is_unresolved (a_status a)" "find_attempt s i = Some a"
      using active_is_last[OF valid_facts(1)[OF v(1)], of i] by blast
    have at: "at_active s e pre a"
      using a v live valid_facts(1)[OF v(1)] list_all_snoc_valid[OF v(1) a(1)]
      by (simp add: at_active_def live_at_def)
    have "bind_r (require_attempt s i) (\<lambda>attempt. apply_active_attempt s e payload attempt) =
        apply_active_attempt s e payload a"
      by (simp add: require_attempt_def a lift_option_def)
    then show ?case
      using attempt_outcome_run[OF ready at apply_active_attempt_outcome[OF at]] by simp
  qed (simp_all add: invariant_messages_def)
qed (simp add: apply_attempt_event_def invariant_messages_def)

section \<open>One event\<close>

lemma require_cursor_and_binding_cases:
  "case require_cursor_and_binding s e of
     Inl err \<Rightarrow> guard_refusal e err
   | Inr _ \<Rightarrow> s_last_sequence s < sequence_of e
       \<and> ed_experiment_revision (e_data e) = s_experiment_revision s
       \<and> ed_project_id (e_data e) = s_project_id s \<and> ed_run_id (e_data e) = Some (s_run_id s)"
  by (simp add: require_cursor_and_binding_def invariant_messages_def)

lemma require_lifecycle_envelope_refusal:
  "require_lifecycle_envelope e = Inl err \<Longrightarrow> guard_refusal e err"
  by (auto simp: require_lifecycle_envelope_def split: if_splits) (simp_all add: invariant_messages_def)

lemma parse_lifecycle_payload_refusal:
  "parse_lifecycle_payload e = Inl err \<Longrightarrow> guard_refusal e err"
  by (auto simp: parse_lifecycle_payload_def result_simps guard_refusal_def split: option.splits)

text \<open>The step an existing run takes at one of its own events.\<close>

definition run_step :: "run_snapshot \<Rightarrow> research_event \<Rightarrow> run_error + run_snapshot \<Rightarrow> bool" where
  "run_step s e r \<longleftrightarrow> run_outcome s e r \<and> (\<forall>t. r = Inr t \<longrightarrow> s_last_sequence s < sequence_of e)"

lemma map_Some_outcome:
  "bind_r r (\<lambda>t. Inr (Some t)) = Inr (Some t) \<longleftrightarrow> r = Inr t"
  "bind_r r (\<lambda>t. Inr (Some t)) = Inl err \<longleftrightarrow> r = Inl err"
  by (cases r; simp)+

lemma run_apply_outcome:
  assumes valid: "run_snapshot_valid s" and event: "research_event_valid e"
    and mine: "belongs e (pr_project_id p) (pr_run_id p)"
  shows "\<exists>r. run_apply p (Some s) e = bind_r r (\<lambda>t. Inr (Some t)) \<and> run_step s e r"
proof (cases "List.member LIFECYCLE_TYPES (e_type e)")
  case False
  show ?thesis
  proof (cases "require_cursor_and_binding s e")
    case (Inl err)
    then show ?thesis
      using mine False require_cursor_and_binding_cases[where s = s and e = e]
      by (intro exI[of _ "Inl err"]) (simp add: run_apply_def observe_unrelated_def run_step_def run_outcome_def)
  next
    case (Inr u)
    then have "s_last_sequence s < sequence_of e" using require_cursor_and_binding_cases[where s = s and e = e] by simp
    then show ?thesis
      using mine False Inr observe_outcome[OF valid event]
      by (intro exI[of _ "stamp s e id"]) (simp add: run_apply_def observe_unrelated_def run_step_def)
  qed
next
  case True
  show ?thesis
  proof (cases "require_lifecycle_envelope e")
    case (Inl err)
    then show ?thesis using mine True require_lifecycle_envelope_refusal
      by (intro exI[of _ "Inl err"]) (simp add: run_apply_def run_step_def run_outcome_def)
  next
    case env: (Inr u)
    show ?thesis
    proof (cases "parse_lifecycle_payload e")
      case (Inl err)
      then show ?thesis using mine True env parse_lifecycle_payload_refusal
        by (intro exI[of _ "Inl err"]) (simp add: run_apply_def run_step_def run_outcome_def)
    next
      case pl: (Inr payload)
      note pv = parse_lifecycle_payload_valid[OF pl]
      show ?thesis
      proof (cases "require_cursor_and_binding s e")
        case (Inl err)
        then show ?thesis using mine True env pl require_cursor_and_binding_cases[where s = s and e = e]
          by (intro exI[of _ "Inl err"]) (simp add: run_apply_def run_step_def run_outcome_def)
      next
        case cb: (Inr w)
        then have later: "s_last_sequence s < sequence_of e"
          using require_cursor_and_binding_cases[where s = s and e = e] by simp
        then have ready: "run_ready s e" using valid event by (simp add: run_ready_def)
        define r where "r = (if e_type e = TYPE_RUN_REVIEWED then apply_run_reviewed s e payload
          else if is_terminal_run (s_status s) then transition_error e ''terminal run cannot be reopened''
          else if List.member RUN_LIFECYCLE_TYPES (e_type e) then apply_run_event s e
          else apply_attempt_event s e payload)"
        have "run_apply p (Some s) e = bind_r r (\<lambda>t. Inr (Some t))"
          using mine True env pl cb by (simp add: run_apply_def r_def)
        moreover have "run_outcome s e r"
          unfolding r_def
        proof (intro run_outcome_if, goal_cases)
          case 1 then show ?case using apply_run_reviewed_outcome[OF ready pv] by simp
        next
          case 2 show ?case by (simp add: invariant_messages_def)
        next
          case 3 then show ?case using apply_run_event_outcome[OF ready] by simp
        next
          case 4 then show ?case using apply_attempt_event_outcome[OF ready _ pv] by simp
        qed
        ultimately show ?thesis using later by (auto simp: run_step_def)
      qed
    qed
  qed
qed

end
