(* ===== verification/Samples.thy ===== *)
theory Samples
  imports Events
begin

text \<open>
  Concrete events on which the other theories instantiate their theorems:
  \<open>sample_event t n attempt payload\<close> is an event of project \<open>p\<close> and run \<open>r\<close> with type
  \<open>t\<close>, sequence \<open>n\<close> and id \<open>n\<close>; \<open>sample_event_valid\<close> says which of them are valid.
\<close>

definition sample_event :: "pystr \<Rightarrow> nat \<Rightarrow> pystr option \<Rightarrow> pyval \<Rightarrow> research_event" where
  "sample_event t n attempt payload =
     \<lparr>e_specversion = U ''1.0'', e_id = digits_of n, e_source = U ''/r'', e_type = t,
      e_time = U ''2026-01-02T03:04:05Z'', e_subject = U ''s'', e_dataschema = RESEARCH_EVENT_SCHEMA_ID,
      e_datacontenttype = U ''application/json'',
      e_data = \<lparr>ed_schema_version = U ''v0alpha1'',
        ed_actor = \<lparr>actor_id = U ''a'', actor_kind_field = None, actor_model_id = None\<rparr>,
        ed_project_id = U ''p'', ed_experiment_revision = 1, ed_run_id = Some (U ''r''),
        ed_attempt_id = attempt, ed_block_id = None, ed_payload = payload, ed_evidence_refs = []\<rparr>,
      e_sequence = digits_of n, e_sequencetype = U ''Integer'', e_streamid = U ''st'',
      e_streamversion = 0, e_correlationid = None, e_causationid = None\<rparr>"

definition no_payload :: pyval where "no_payload = PyDict []"

text \<open>A path is a URI reference.\<close>

lemma uri_path_reference:
  assumes "s \<in> lang uri_path_absolute" shows "fullmatch URI_REFERENCE_PATTERN s"
proof -
  have first: "s \<in> lang r \<Longrightarrow> [] \<in> lang (rseqs rs) \<Longrightarrow> s \<in> lang (rseqs (r # rs))" for r rs
    by simp (metis append_Nil2)
  have "s \<in> lang (rseqs [ralts [rseqs [clit ''//'', uri_authority, uri_path_abempty], uri_path_absolute,
      uri_path_noscheme, REps], ropt q, ropt f])" for q f
    using assms by (intro first) simp_all
  then show ?thesis
    unfolding URI_REFERENCE_PATTERN_def fullmatch_iff Let_def lang_ralts_Cons by blast
qed

lemma sample_source: "CloudEventsUriReference (U ''/r'')"
proof -
  have "fullmatch uri_path_absolute (U ''/r'')" by code_simp
  then have "fullmatch URI_REFERENCE_PATTERN (U ''/r'')" using fullmatch_iff uri_path_reference by blast
  moreover have "require_cloudevents_string (U ''/r'')" by code_simp
  ultimately show ?thesis by (simp add: CloudEventsUriReference_def require_rfc3986_uri_reference_def)
qed

lemma digits_cloudevents: "CloudEventsString (digits_of n)"
proof -
  have d: "\<forall>c\<in>set (digits_of n). 48 \<le> c \<and> c \<le> 57"
    using digits_of_digit[of n] by (simp add: list_all_iff is_digit_def)
  obtain c s where s: "digits_of n = c # s" by (cases "digits_of n") auto
  have "fullmatch CLOUD_EVENTS_STRING_PATTERN (digits_of n)"
  proof -
    let ?r = "rnot [(0, 31), (127, 159)]"
    have star: "t \<in> lang (RStar ?r)" if "\<forall>c\<in>set t. 48 \<le> c \<and> c \<le> 57" for t :: pystr
      using that
    proof (induction t)
      case (Cons x t)
      then have "[x] @ t \<in> star_of (lang ?r)"
        by (intro star_app) (auto simp: in_ranges_def)
      then show ?case by simp
    qed (simp add: star_Nil)
    have "c # s = [c] @ s" by simp
    moreover have "[c] \<in> lang ?r" using d s by (auto simp: in_ranges_def)
    moreover have "s \<in> lang (RStar ?r)" using d s by (intro star) auto
    ultimately show ?thesis
      unfolding CLOUD_EVENTS_STRING_PATTERN_def rplus_def fullmatch_iff s lang.simps by blast
  qed
  moreover have "require_cloudevents_string (digits_of n)"
    using d by (auto simp: require_cloudevents_string_def isascii_def ascii_control_def list_ex_iff list_all_iff)
  ultimately show ?thesis by (simp add: CloudEventsString_def Suc_le_eq)
qed

lemma sample_event_valid:
  assumes "EventIdentifier t" "1 \<le> n" "n \<le> 2147483647" "pred_option EventIdentifier attempt"
    "require_event_payload payload"
  shows "research_event_valid (sample_event t n attempt payload)"
proof -
  have "SequenceIntegerString (digits_of n)" using assms by (auto simp: SequenceIntegerString_iff)
  moreover have "Rfc3339Timestamp (U ''2026-01-02T03:04:05Z'')" by code_simp
  moreover have "EventIdentifier (U ''p'')" "EventIdentifier (U ''r'')" "EventIdentifier (U ''a'')"
    "EventIdentifier (U ''st'')" "CloudEventsString (U ''s'')" "ExperimentRevision 1" "StreamVersion 0"
    by code_simp+
  ultimately show ?thesis
    using assms sample_source digits_cloudevents
    by (simp add: sample_event_def research_event_valid_def event_data_valid_def event_actor_valid_def)
qed

lemma sequence_sample [simp]: "sequence_of (sample_event t n a pl) = int n"
  by (simp add: sample_event_def sequence_of_def)

lemma no_payload_ok: "require_event_payload no_payload" by code_simp

text \<open>The same events with an actor of a given kind.\<close>

definition sample_actor :: "actor_kind option \<Rightarrow> event_actor" where
  "sample_actor kind = \<lparr>actor_id = U ''a'', actor_kind_field = kind, actor_model_id = None\<rparr>"

definition sample_event_by :: "actor_kind option \<Rightarrow> pystr \<Rightarrow> nat \<Rightarrow> pystr option \<Rightarrow> pyval \<Rightarrow> research_event" where
  "sample_event_by kind t n attempt payload =
     (let e = sample_event t n attempt payload in e\<lparr>e_data := (e_data e)\<lparr>ed_actor := sample_actor kind\<rparr>\<rparr>)"

lemma sample_event_by_None: "sample_event_by None t n attempt payload = sample_event t n attempt payload"
  by (simp add: sample_event_by_def sample_actor_def sample_event_def Let_def)

lemma sample_event_by_valid:
  assumes "EventIdentifier t" "1 \<le> n" "n \<le> 2147483647" "pred_option EventIdentifier attempt"
    "require_event_payload payload"
  shows "research_event_valid (sample_event_by kind t n attempt payload)"
proof -
  have "EventIdentifier (U ''a'')" by code_simp
  with sample_event_valid[OF assms] show ?thesis
    by (simp add: sample_event_by_def sample_actor_def Let_def research_event_valid_def event_data_valid_def event_actor_valid_def)
qed

end
