(* ===== verification/Run_Theorems.thy ===== *)
theory Run_Theorems
  imports Run_Reducer Samples
begin

text \<open>
  What the reducer promises over whole event sequences: the projection contract for
  \<open>run_apply\<close>, the validity of every reachable snapshot, and the life-cycle laws that
  follow from the reference machine \<open>run_rule\<close>.
\<close>

section \<open>The first event\<close>

lemma first_snapshot_valid:
  assumes event: "research_event_valid e" and run: "ed_run_id (e_data e) = Some i"
    and payload: "payload_valid (RunQueuedPayload q)"
  shows "run_snapshot_valid (first_snapshot e q i)"
proof -
  note ed = event_data_validD[OF research_event_validD(4)[OF event]]
  have seq: "SequenceNumber (sequence_of e)" "CloudEventsString (e_id e)"
    using event_stamp_valid[OF event] by auto
  have "snapshot_inv (first_snapshot e q i)"
    using payload
    by (subst snapshot_inv_Nil)
       (auto simp: first_snapshot_def run_matches_def review_ok_def run_queued_payload_valid_def MaxAttempts_def)
  moreover have "pred_option consumed_authorization_valid (s_consumed_authorization (first_snapshot e q i))"
    using payload sequence_of_bounds
    by (auto simp: first_snapshot_def consumed_authorization_valid_def run_queued_payload_valid_def
        SequenceNumber_def SequenceIntegerString_iff CLOUD_EVENTS_INTEGER_MAX_def split: option.splits)
  ultimately show ?thesis
    using payload ed run seq
    by (auto simp: run_snapshot_valid_def snapshot_inv_def first_snapshot_def queued_digests_def
        run_digests_valid_def run_queued_payload_valid_def run_review_valid_def
        review_fields_are_consistent_def ExperimentRevision_def MAX_ATTEMPTS_def)
qed

definition first_outcome :: "run_projection \<Rightarrow> research_event \<Rightarrow> run_error + run_snapshot \<Rightarrow> bool" where
  "first_outcome p e r = (case r of
     Inl err \<Rightarrow> guard_refusal e err
   | Inr s \<Rightarrow> run_snapshot_valid s \<and> e_type e = TYPE_RUN_QUEUED \<and> s_status s = R_QUEUED
       \<and> s_attempts s = [] \<and> \<not> s_cancellation_requested s \<and> \<not> rv_reviewed (s_review s)
       \<and> s_project_id s = pr_project_id p \<and> s_run_id s = pr_run_id p
       \<and> s_last_sequence s = sequence_of e)"

lemma apply_first_outcome:
  assumes event: "research_event_valid e" and payload: "payload_valid payload"
    and mine: "belongs e (pr_project_id p) (pr_run_id p)"
  shows "first_outcome p e (apply_first e payload)"
proof (cases "e_type e = TYPE_RUN_QUEUED")
  case True
  have run: "ed_run_id (e_data e) = Some (pr_run_id p)" "ed_project_id (e_data e) = pr_project_id p"
    using mine by (auto simp: belongs_def)
  show ?thesis
  proof (cases payload)
    case (RunQueuedPayload q)
    have "run_snapshot_valid (first_snapshot e q (pr_run_id p))"
      using first_snapshot_valid[OF event run(1)] payload RunQueuedPayload by simp
    then show ?thesis
      using True run RunQueuedPayload
      by (simp add: apply_first_def first_outcome_def) (simp add: first_snapshot_def)
  qed (simp_all add: apply_first_def first_outcome_def True run)
qed (simp add: apply_first_def first_outcome_def invariant_messages_def)

lemma run_apply_None:
  assumes event: "research_event_valid e" and mine: "belongs e (pr_project_id p) (pr_run_id p)"
  shows "run_apply p None e = Inr None \<or>
    (\<exists>r. run_apply p None e = bind_r r (\<lambda>s. Inr (Some s)) \<and> first_outcome p e r)"
proof (cases "List.member LIFECYCLE_TYPES (e_type e)")
  case True
  show ?thesis
  proof (cases "require_lifecycle_envelope e")
    case (Inl err)
    then show ?thesis using mine True require_lifecycle_envelope_refusal
      by (intro disjI2 exI[of _ "Inl err"]) (simp add: run_apply_def first_outcome_def)
  next
    case env: (Inr u)
    show ?thesis
    proof (cases "parse_lifecycle_payload e")
      case (Inl err)
      then show ?thesis using mine True env parse_lifecycle_payload_refusal
        by (intro disjI2 exI[of _ "Inl err"]) (simp add: run_apply_def first_outcome_def)
    next
      case pl: (Inr payload)
      have "run_apply p None e = bind_r (apply_first e payload) (\<lambda>s. Inr (Some s))"
        using mine True env pl by (simp add: run_apply_def)
      then show ?thesis
        using apply_first_outcome[OF event parse_lifecycle_payload_valid[OF pl] mine] by blast
    qed
  qed
qed (use mine in \<open>simp add: run_apply_def observe_unrelated_def\<close>)

section \<open>The projection contract\<close>

definition run_state_ok :: "run_projection \<Rightarrow> run_snapshot option \<Rightarrow> bool" where
  "run_state_ok p st = (case st of None \<Rightarrow> True
     | Some s \<Rightarrow> run_snapshot_valid s \<and> s_project_id s = pr_project_id p \<and> s_run_id s = pr_run_id p)"

lemma run_apply_foreign: "\<not> belongs e (pr_project_id p) (pr_run_id p) \<Longrightarrow> run_apply p st e = Inr st"
  by (simp add: run_apply_def)

lemma run_apply_Some:
  assumes "run_snapshot_valid s" "research_event_valid e" "belongs e (pr_project_id p) (pr_run_id p)"
    "run_apply p (Some s) e = Inr st"
  obtains t where "st = Some t" "run_outcome s e (Inr t)" "s_last_sequence s < sequence_of e"
proof -
  obtain r where r: "run_apply p (Some s) e = bind_r r (\<lambda>t. Inr (Some t))" "run_step s e r"
    using run_apply_outcome[OF assms(1-3)] by blast
  then obtain t where "r = Inr t" "st = Some t" using assms(4) by (cases r) auto
  with r that show ?thesis by (auto simp: run_step_def)
qed

lemma run_apply_state_ok:
  assumes "run_state_ok p st" "research_event_valid e" "run_apply p st e = Inr st'"
  shows "run_state_ok p st'"
proof (cases "belongs e (pr_project_id p) (pr_run_id p)")
  case True
  show ?thesis
  proof (cases st)
    case None
    from run_apply_None[OF assms(2) True] show ?thesis
    proof (elim disjE exE conjE)
      assume "run_apply p None e = Inr None"
      with None assms(3) show ?thesis by (simp add: run_state_ok_def)
    next
      fix r assume "run_apply p None e = bind_r r (\<lambda>s. Inr (Some s))" "first_outcome p e r"
      with None assms(3) show ?thesis by (cases r) (auto simp: run_state_ok_def first_outcome_def)
    qed
  next
    case (Some s)
    then have v: "run_snapshot_valid s" and ids: "s_project_id s = pr_project_id p" "s_run_id s = pr_run_id p"
      using assms(1) by (auto simp: run_state_ok_def)
    obtain t where "st' = Some t" "run_outcome s e (Inr t)"
      by (rule run_apply_Some[OF v assms(2) True]) (use assms(3) Some in auto)
    then show ?thesis using ids by (auto simp: run_state_ok_def run_outcome_def same_binding_def)
  qed
qed (use assms run_apply_foreign in auto)

interpretation run_contract:
  projection "run_apply p" "\<lambda>e. belongs e (pr_project_id p) (pr_run_id p)" research_event_valid "run_state_ok p"
  for p
proof (unfold_locales, goal_cases)
  case (1 e s) then show ?case by (rule run_apply_foreign)
next
  case (2 s e t) then show ?case by (rule run_apply_state_ok)
qed

lemma run_state_ok_None [simp]: "run_state_ok p None"
  by (simp add: run_state_ok_def)

section \<open>Steps between existing snapshots\<close>

text \<open>A relation on snapshots that every accepted event satisfies holds between any two
  states of a fold.\<close>

lemma fold_run_relation:
  assumes fold: "fold_run p (Some s) es = Inr st" and ok: "run_state_ok p (Some s)"
    and events: "\<forall>e\<in>set es. research_event_valid e"
    and refl: "\<And>s. R s s" and trans: "\<And>a b c. R a b \<Longrightarrow> R b c \<Longrightarrow> R a c"
    and step: "\<And>s e t. run_snapshot_valid s \<Longrightarrow> s_last_sequence s < sequence_of e \<Longrightarrow>
       run_outcome s e (Inr t) \<Longrightarrow> R s t"
  obtains t where "st = Some t" "R s t" "run_snapshot_valid t"
proof -
  let ?Q = "\<lambda>a b. case a of None \<Rightarrow> True | Some x \<Rightarrow> (\<exists>y. b = Some y \<and> R x y)"
  have "?Q (Some s) st"
  proof (rule run_contract.fold_relation[where p = p and R = ?Q and es = es])
    show "fold_r (run_apply p) (Some s) es = Inr st" using fold by (simp add: fold_run_def)
    fix a e b
    assume a: "run_state_ok p a" "research_event_valid e" "belongs e (pr_project_id p) (pr_run_id p)"
      "run_apply p a e = Inr b"
    show "?Q a b"
    proof (cases a)
      case (Some x)
      then have "run_snapshot_valid x" using a by (simp add: run_state_ok_def)
      then show ?thesis using run_apply_Some[of x e p b] a Some step by fastforce
    qed simp
  next
    fix a b c assume "?Q a b" "?Q b c"
    then show "?Q a c" using trans by (cases a) fastforce+
  qed (use ok events refl in \<open>auto split: option.splits\<close>)
  then obtain t where "st = Some t" "R s t" by auto
  moreover have "run_state_ok p st"
    by (rule run_contract.fold_invariant[of p "Some s" es])
       (use fold ok events in \<open>simp_all add: fold_run_def\<close>)
  ultimately show ?thesis using that by (auto simp: run_state_ok_def)
qed

inductive_cases run_ruleE: "run_rule v t v'"

lemma terminal_no_unresolved:
  assumes "run_snapshot_valid s" "is_terminal_run (s_status s)" "s_attempts s = pre @ [a]"
  shows "\<not> is_unresolved (a_status a)"
  using valid_facts(4)[OF assms(1)] assms(2,3)
  by (cases "s_status s")
     (auto simp: run_matches_def latest_status_def TERMINAL_RUN_STATUSES_def UNRESOLVED_ATTEMPT_STATUSES_def)

lemma terminal_rule:
  "run_rule v t v' \<Longrightarrow> is_terminal_run (v_status v) \<Longrightarrow>
     v_status v' = v_status v \<and> v_cancel v' = v_cancel v \<and> v_count v' = v_count v"
  by (erule run_ruleE) (auto simp: TERMINAL_RUN_STATUSES_def)

text \<open>What stays when a run is over.\<close>

definition frozen :: "run_snapshot \<Rightarrow> run_snapshot \<Rightarrow> bool" where
  "frozen s t \<longleftrightarrow> (is_terminal_run (s_status s) \<longrightarrow> s_status t = s_status s \<and> s_attempts t = s_attempts s
     \<and> s_cancellation_requested t = s_cancellation_requested s
     \<and> (rv_reviewed (s_review s) \<longrightarrow> s_review t = s_review s))"

lemma frozen_step:
  assumes "run_snapshot_valid s" "run_outcome s e (Inr t)"
  shows "frozen s t"
proof (cases "is_terminal_run (s_status s)")
  case True
  have o: "run_rule (view s) (e_type e) (view t)" "attempts_grow (s_attempts s) (s_attempts t)"
    "rv_reviewed (s_review s) \<Longrightarrow> s_review t = s_review s"
    using assms(2) by (auto simp: run_outcome_def)
  have v: "s_status t = s_status s" "s_cancellation_requested t = s_cancellation_requested s"
    "length (s_attempts t) = length (s_attempts s)"
    using terminal_rule[OF o(1)] True by simp_all
  have "s_attempts t = s_attempts s"
    using o(2) v(3) terminal_no_unresolved[OF assms(1) True] by (auto simp: attempts_grow_def)
  with v o(3) show ?thesis by (simp add: frozen_def)
qed (simp add: frozen_def)

text \<open>Attempts keep their identity, and an attempt that is over is never rewritten.\<close>

definition history_kept :: "attempt_snapshot list \<Rightarrow> attempt_snapshot list \<Rightarrow> bool" where
  "history_kept as bs \<longleftrightarrow> length as \<le> length bs \<and>
     (\<forall>i<length as. same_identity (bs ! i) (as ! i)
        \<and> (List.member TERMINAL_ATTEMPT_STATUSES (a_status (as ! i)) \<longrightarrow> bs ! i = as ! i))"

lemma unresolved_not_terminal:
  "st \<in> set UNRESOLVED_ATTEMPT_STATUSES \<Longrightarrow> st \<notin> set TERMINAL_ATTEMPT_STATUSES"
  by (auto simp: UNRESOLVED_ATTEMPT_STATUSES_def TERMINAL_ATTEMPT_STATUSES_def)

lemma history_step: "attempts_grow as bs \<Longrightarrow> history_kept as bs"
  by (auto simp: attempts_grow_def history_kept_def same_identity_def nth_append less_Suc_eq
      unresolved_not_terminal)

lemma history_trans: "history_kept as bs \<Longrightarrow> history_kept bs cs \<Longrightarrow> history_kept as cs"
  by (auto simp: history_kept_def same_identity_def)

section \<open>A sample run\<close>

definition sample_digest :: pystr where "sample_digest = U ''sha256:'' @ replicate 64 97"

definition queued_payload :: pyval where
  "queued_payload = PyDict [(KStr (U ''workflowId''), PyStr (U ''w'')),
     (KStr (U ''specDigest''), PyStr sample_digest), (KStr (U ''registryDigest''), PyStr sample_digest),
     (KStr (U ''planDigest''), PyStr sample_digest), (KStr (U ''maxAttempts''), PyInt 2)]"

definition attempt_payload :: "int \<Rightarrow> pystr option \<Rightarrow> pyval" where
  "attempt_payload n retry = PyDict [(KStr (U ''ordinal''), PyInt n), (KStr (U ''retryOf''), dump_str retry),
     (KStr (U ''retryDecisionId''), dump_str (map_option (\<lambda>_. U ''d'') retry))]"

definition sample_projection :: run_projection where
  "sample_projection = \<lparr>pr_project_id = U ''p'', pr_run_id = U ''r''\<rparr>"

definition sample_run :: "research_event list" where
  "sample_run =
     [sample_event TYPE_RUN_QUEUED 1 None queued_payload,
      sample_event TYPE_RUN_STARTED 2 None no_payload,
      sample_event TYPE_ATTEMPT_QUEUED 3 (Some (U ''a1'')) (attempt_payload 1 None),
      sample_event TYPE_ATTEMPT_STARTED 4 (Some (U ''a1'')) no_payload,
      sample_event TYPE_ATTEMPT_SUCCEEDED 5 (Some (U ''a1'')) no_payload,
      sample_event TYPE_RUN_COMPLETED 6 None no_payload]"

lemma sample_payloads: "require_event_payload queued_payload" "require_event_payload (attempt_payload 1 None)"
  by code_simp+

lemma identifiers: "EventIdentifier TYPE_RUN_QUEUED" "EventIdentifier TYPE_RUN_STARTED"
  "EventIdentifier TYPE_ATTEMPT_QUEUED" "EventIdentifier TYPE_ATTEMPT_STARTED"
  "EventIdentifier TYPE_ATTEMPT_SUCCEEDED" "EventIdentifier TYPE_RUN_COMPLETED" "EventIdentifier (U ''a1'')"
  "EventIdentifier TYPE_RUN_REVIEWED"
  by code_simp+

lemma sample_run_valid: "\<forall>e\<in>set sample_run. research_event_valid e"
  using identifiers sample_payloads no_payload_ok by (simp add: sample_run_def sample_event_valid)

text \<open>The state after the first \<open>n\<close> events of the sample run.\<close>

definition sample_state :: "nat \<Rightarrow> run_snapshot" where
  "sample_state n = (case fold_run sample_projection None (take n sample_run) of Inr (Some s) \<Rightarrow> s)"

definition holds_run :: "run_error + run_snapshot option \<Rightarrow> bool" where
  "holds_run r = (case r of Inr (Some _) \<Rightarrow> True | _ \<Rightarrow> False)"

lemma sample_state_fold:
  assumes "holds_run (fold_run sample_projection None (take n sample_run))"
  shows "fold_run sample_projection None (take n sample_run) = Inr (Some (sample_state n))"
  using assms by (auto simp: holds_run_def sample_state_def split: sum.splits option.splits)

lemma sample_states:
  "fold_run sample_projection None (take 3 sample_run) = Inr (Some (sample_state 3))"
  "fold_run sample_projection None (take 6 sample_run) = Inr (Some (sample_state 6))"
  by (rule sample_state_fold, code_simp)+

lemma fold_run_state_ok:
  "fold_run p st es = Inr st' \<Longrightarrow> run_state_ok p st \<Longrightarrow> \<forall>e\<in>set es. research_event_valid e \<Longrightarrow>
     run_state_ok p st'"
  using run_contract.fold_invariant[of p st es st'] by (simp add: fold_run_def)

lemma sample_state_ok: "run_state_ok sample_projection (Some (sample_state 3))"
  "run_state_ok sample_projection (Some (sample_state 6))"
proof -
  have e: "\<forall>e\<in>set (take n sample_run). research_event_valid e" for n
    using sample_run_valid in_set_takeD by fast
  show "run_state_ok sample_projection (Some (sample_state 3))"
    "run_state_ok sample_projection (Some (sample_state 6))"
    by (rule fold_run_state_ok[OF sample_states(1) run_state_ok_None e])
       (rule fold_run_state_ok[OF sample_states(2) run_state_ok_None e])
qed

lemma sample_state_valid: "run_snapshot_valid (sample_state 3)" "run_snapshot_valid (sample_state 6)"
  using sample_state_ok by (simp_all add: run_state_ok_def)

definition review_payload :: pyval where
  "review_payload = PyDict [(KStr (U ''decisionId''), PyStr (U ''d1''))]"

lemma review_payload_ok: "require_event_payload review_payload"
  by code_simp

section \<open>Helpers of the laws\<close>

lemma run_apply_refusal:
  assumes "run_snapshot_valid s" "research_event_valid e" "run_apply p (Some s) e = Inl err"
  shows "guard_refusal e err"
proof (cases "belongs e (pr_project_id p) (pr_run_id p)")
  case True
  then obtain r where "run_apply p (Some s) e = bind_r r (\<lambda>t. Inr (Some t))" "run_step s e r"
    using run_apply_outcome[OF assms(1,2)] by blast
  then show ?thesis using assms(3) by (cases r) (auto simp: run_step_def run_outcome_def)
qed (use assms run_apply_foreign in auto)

lemma cancel_flag_step:
  "run_rule v t v' \<Longrightarrow> v_cancel v' \<Longrightarrow> v_cancel v \<or> t = TYPE_RUN_CANCEL_REQUESTED"
  by (erule run_ruleE) auto

lemma cancelled_after_request:
  assumes "\<forall>e\<in>set es. research_event_valid e" "fold_run p None es = Inr (Some s)" "s_cancellation_requested s"
  shows "\<exists>e\<in>set es. belongs e (pr_project_id p) (pr_run_id p) \<and> e_type e = TYPE_RUN_CANCEL_REQUESTED"
  using assms
proof (induction es arbitrary: s rule: rev_induct)
  case (snoc e es)
  obtain st where st: "fold_run p None es = Inr st" "run_apply p st e = Inr (Some s)"
    using snoc.prems(2) by (auto simp: fold_run_def fold_r_snoc result_simps)
  have ev: "research_event_valid e" "\<forall>x\<in>set es. research_event_valid x" using snoc.prems(1) by auto
  show ?case
  proof (cases "belongs e (pr_project_id p) (pr_run_id p)")
    case True
    show ?thesis
    proof (cases st)
      case None
      then obtain r where r: "run_apply p None e = bind_r r (\<lambda>s. Inr (Some s))" "first_outcome p e r"
        using run_apply_None[OF ev(1) True] st(2) by auto
      then have "r = Inr s" using None st(2) by (cases r) auto
      then show ?thesis using r(2) snoc.prems(3) by (simp add: first_outcome_def)
    next
      case (Some s0)
      have "run_state_ok p (Some s0)" using fold_run_state_ok[OF st(1)] ev(2) Some by simp
      then have v: "run_snapshot_valid s0" by (simp add: run_state_ok_def)
      obtain t where t: "Some s = Some t" "run_outcome s0 e (Inr t)"
        by (rule run_apply_Some[OF v ev(1) True]) (use st(2) Some in auto)
      then have "run_rule (view s0) (e_type e) (view s)" by (simp add: run_outcome_def)
      then have "s_cancellation_requested s0 \<or> e_type e = TYPE_RUN_CANCEL_REQUESTED"
        using cancel_flag_step snoc.prems(3) by fastforce
      then show ?thesis using snoc.IH[OF ev(2)] st(1) Some True by auto
    qed
  next
    case False
    then have "fold_run p None es = Inr (Some s)" using st run_apply_foreign by auto
    then show ?thesis using snoc.IH[OF ev(2)] snoc.prems(3) by auto
  qed
qed (simp add: fold_run_def)

lemma frozen_refl: "frozen s s"
  by (simp add: frozen_def)

lemma frozen_trans: "frozen a b \<Longrightarrow> frozen b c \<Longrightarrow> frozen a c"
  by (simp add: frozen_def)

lemma frozen_event:
  "run_snapshot_valid s \<Longrightarrow> s_last_sequence s < sequence_of e \<Longrightarrow> run_outcome s e (Inr t) \<Longrightarrow> frozen s t"
  by (rule frozen_step)

definition kept :: "run_snapshot \<Rightarrow> run_snapshot \<Rightarrow> bool" where
  "kept s t \<longleftrightarrow> history_kept (s_attempts s) (s_attempts t)"

lemma kept_refl: "kept s s"
  by (simp add: kept_def history_kept_def same_identity_def)

lemma kept_trans: "kept a b \<Longrightarrow> kept b c \<Longrightarrow> kept a c"
  unfolding kept_def by (rule history_trans)

lemma kept_event:
  "run_snapshot_valid s \<Longrightarrow> s_last_sequence s < sequence_of e \<Longrightarrow> run_outcome s e (Inr t) \<Longrightarrow> kept s t"
  by (auto simp: run_outcome_def kept_def intro: history_step)

section \<open>Laws of the life cycle\<close>

text \<open>C1: The guards of the reducer are enough.  On a valid snapshot and a valid event, a refusal is
  never the re-check of the snapshot invariants in \<open>_stamp\<close> and never a validating
  constructor: whatever the reducer is asked, one of its own guards answers first.\<close>

theorem reducer_guards_suffice:
  assumes "run_snapshot_valid s" "research_event_valid e" "run_apply p (Some s) e = Inl err"
  shows "err \<noteq> RunValidationError \<and>
    (\<forall>t m. assert_run_snapshot_invariants t = Inl m \<longrightarrow> err \<noteq> RunTransitionError (event_label e m))"
  using run_apply_refusal[OF assms] by (auto simp: guard_refusal_def dest!: invariant_messages)

theorem reducer_guards_suffice_witness:
  "transition_error (sample_event TYPE_RUN_STARTED 7 None no_payload) ''terminal run cannot be reopened''
     = run_apply sample_projection (Some (sample_state 6)) (sample_event TYPE_RUN_STARTED 7 None no_payload)
   \<and> RunTransitionError (event_label (sample_event TYPE_RUN_STARTED 7 None no_payload)
       (U ''terminal run cannot be reopened'')) \<noteq> RunValidationError"
proof -
  let ?e = "sample_event TYPE_RUN_STARTED 7 None no_payload"
  have e: "research_event_valid ?e" by (intro sample_event_valid) (simp_all add: identifiers no_payload_ok)
  have r: "run_apply sample_projection (Some (sample_state 6)) ?e = transition_error ?e ''terminal run cannot be reopened''"
    by code_simp
  from reducer_guards_suffice[OF sample_state_valid(2) e r] r show ?thesis by simp
qed

text \<open>C12: Every snapshot the reducer can reach from an empty log of valid events passes the whole
  snapshot validation: field constraints, contiguous ordinals, unique ids, at most one unresolved
  attempt, the retry chain, the cursors and the match between run and attempt status.  It belongs
  to the aggregate the projection was made for and has at most \<open>maxAttempts\<close> attempts.\<close>

theorem reachable_snapshot_valid:
  assumes "\<forall>e\<in>set es. research_event_valid e" "fold_run p None es = Inr (Some s)"
  shows "run_snapshot_valid s \<and> s_project_id s = pr_project_id p \<and> s_run_id s = pr_run_id p
    \<and> length (unresolved_attempts (s_attempts s)) \<le> 1
    \<and> int (length (s_attempts s)) \<le> s_max_attempts s
    \<and> run_matches (s_status s) (s_cancellation_requested s) (latest_status s)"
proof -
  have "run_state_ok p (Some s)" using fold_run_state_ok[OF assms(2)] assms(1) by simp
  then show ?thesis
    using valid_facts[of s] by (auto simp: run_state_ok_def snapshot_inv_unfold)
qed

theorem reachable_snapshot_valid_witness:
  "run_snapshot_valid (sample_state 6) \<and> s_project_id (sample_state 6) = U ''p''"
  using reachable_snapshot_valid[OF _ sample_states(2)] sample_run_valid
  by (auto simp: sample_run_def sample_projection_def)

text \<open>C11: The reducer refines the reference machine: when it accepts an event of its aggregate, the
  change of run status, cancellation flag, review flag, attempt count and latest attempt is a rule
  of \<open>run_rule\<close> for that event type, and the snapshot records exactly that event.\<close>

theorem reducer_refines_reference:
  assumes "run_snapshot_valid s" "research_event_valid e" "belongs e (pr_project_id p) (pr_run_id p)"
    "run_apply p (Some s) e = Inr (Some t)"
  shows "run_rule (view s) (e_type e) (view t) \<and> same_binding s t
    \<and> s_last_sequence s < s_last_sequence t \<and> s_last_sequence t = sequence_of e \<and> s_last_event_id t = e_id e"
proof -
  obtain u where "Some t = Some u" "run_outcome s e (Inr u)" "s_last_sequence s < sequence_of e"
    by (rule run_apply_Some[OF assms(1-3)]) (use assms(4) in auto)
  then show ?thesis by (simp add: run_outcome_def)
qed

theorem reducer_refines_reference_witness:
  "\<exists>t. run_rule (view (sample_state 3)) TYPE_ATTEMPT_STARTED (view t) \<and> s_last_sequence t = 4"
proof -
  let ?e = "sample_event TYPE_ATTEMPT_STARTED 4 (Some (U ''a1'')) no_payload"
  have e: "research_event_valid ?e" by (intro sample_event_valid) (simp_all add: identifiers no_payload_ok)
  have b: "belongs ?e (pr_project_id sample_projection) (pr_run_id sample_projection)" by code_simp
  have "holds_run (run_apply sample_projection (Some (sample_state 3)) ?e)" by code_simp
  then obtain t where t: "run_apply sample_projection (Some (sample_state 3)) ?e = Inr (Some t)"
    by (auto simp: holds_run_def split: sum.splits option.splits)
  have "e_type ?e = TYPE_ATTEMPT_STARTED" "sequence_of ?e = 4" by (simp_all add: sample_event_def sequence_of_def)
  with reducer_refines_reference[OF sample_state_valid(1) e b t] show ?thesis by metis
qed

text \<open>C29: A terminal run is final.  Whatever events are folded into it, status, attempts and
  cancellation flag stay what they were, and a recorded review is never replaced.\<close>

theorem terminal_run_final:
  assumes "run_state_ok p (Some s)" "is_terminal_run (s_status s)"
    "\<forall>e\<in>set es. research_event_valid e" "fold_run p (Some s) es = Inr st"
  shows "\<exists>t. st = Some t \<and> s_status t = s_status s \<and> s_attempts t = s_attempts s
    \<and> s_cancellation_requested t = s_cancellation_requested s
    \<and> (rv_reviewed (s_review s) \<longrightarrow> s_review t = s_review s)"
proof -
  obtain t where "st = Some t" "frozen s t"
    by (rule fold_run_relation[OF assms(4,1,3) frozen_refl frozen_trans frozen_event])
  with assms(2) show ?thesis by (simp add: frozen_def)
qed

theorem terminal_run_final_witness:
  "\<exists>t. fold_run sample_projection (Some (sample_state 6))
       [sample_event TYPE_RUN_REVIEWED 9 None review_payload] = Inr (Some t)
     \<and> s_status t = s_status (sample_state 6) \<and> s_attempts t = s_attempts (sample_state 6)"
proof -
  let ?es = "[sample_event TYPE_RUN_REVIEWED 9 None review_payload]"
  have e: "\<forall>e\<in>set ?es. research_event_valid e"
    by (simp add: sample_event_valid identifiers review_payload_ok)
  have "holds_run (fold_run sample_projection (Some (sample_state 6)) ?es)" by code_simp
  then obtain t where t: "fold_run sample_projection (Some (sample_state 6)) ?es = Inr (Some t)"
    by (auto simp: holds_run_def split: sum.splits option.splits)
  have "is_terminal_run (s_status (sample_state 6))" by code_simp
  from terminal_run_final[OF sample_state_ok(2) this e t] t show ?thesis by auto
qed

text \<open>History is append-only.  Folding events never drops or reorders attempts and never changes
  an attempt's id, ordinal or retry identity; an attempt that succeeded, failed or was cancelled
  stays exactly as it was.\<close>

lemma attempt_history_kept:
  assumes "run_state_ok p (Some s)" "\<forall>e\<in>set es. research_event_valid e" "fold_run p (Some s) es = Inr st"
  shows "\<exists>t. st = Some t \<and> length (s_attempts s) \<le> length (s_attempts t)
    \<and> (\<forall>i<length (s_attempts s). same_identity (s_attempts t ! i) (s_attempts s ! i)
        \<and> (List.member TERMINAL_ATTEMPT_STATUSES (a_status (s_attempts s ! i)) \<longrightarrow>
             s_attempts t ! i = s_attempts s ! i))"
proof -
  obtain t where "st = Some t" "kept s t"
    by (rule fold_run_relation[OF assms(3,1,2) kept_refl kept_trans kept_event])
  then show ?thesis by (simp add: kept_def history_kept_def)
qed

theorem attempt_history_kept_witness:
  "\<exists>t. fold_run sample_projection (Some (sample_state 3)) (drop 3 sample_run) = Inr (Some t)
     \<and> length (s_attempts (sample_state 3)) \<le> length (s_attempts t)"
proof -
  have e: "\<forall>e\<in>set (drop 3 sample_run). research_event_valid e"
    using sample_run_valid in_set_dropD by fast
  have "holds_run (fold_run sample_projection (Some (sample_state 3)) (drop 3 sample_run))" by code_simp
  then obtain t where t: "fold_run sample_projection (Some (sample_state 3)) (drop 3 sample_run) = Inr (Some t)"
    by (auto simp: holds_run_def split: sum.splits option.splits)
  from attempt_history_kept[OF sample_state_ok(1) e t] t show ?thesis by auto
qed

text \<open>C36: A run is cancelled only on request: a snapshot with status \<open>cancelled\<close> was reached through a
  \<open>run.cancel.requested\<close> event of the same aggregate.\<close>

theorem cancelled_only_on_request:
  assumes "\<forall>e\<in>set es. research_event_valid e" "fold_run p None es = Inr (Some s)" "s_status s = R_CANCELLED"
  shows "\<exists>e\<in>set es. belongs e (pr_project_id p) (pr_run_id p) \<and> e_type e = TYPE_RUN_CANCEL_REQUESTED"
proof -
  have "run_state_ok p (Some s)" using fold_run_state_ok[OF assms(2)] assms(1) by simp
  then have "s_cancellation_requested s"
    using valid_facts(4)[of s] assms(3) by (simp add: run_state_ok_def run_matches_def)
  then show ?thesis by (rule cancelled_after_request[OF assms(1,2)])
qed

definition reason_payload :: pyval where
  "reason_payload = PyDict [(KStr (U ''reasonCode''), PyStr (U ''user''))]"

theorem cancelled_only_on_request_witness:
  "\<exists>e\<in>set [sample_event TYPE_RUN_QUEUED 1 None queued_payload,
       sample_event TYPE_RUN_CANCEL_REQUESTED 2 None reason_payload,
       sample_event TYPE_RUN_CANCELLED 3 None no_payload].
     belongs e (U ''p'') (U ''r'') \<and> e_type e = TYPE_RUN_CANCEL_REQUESTED"
proof -
  let ?es = "[sample_event TYPE_RUN_QUEUED 1 None queued_payload,
       sample_event TYPE_RUN_CANCEL_REQUESTED 2 None reason_payload,
       sample_event TYPE_RUN_CANCELLED 3 None no_payload]"
  have "EventIdentifier TYPE_RUN_CANCEL_REQUESTED" "EventIdentifier TYPE_RUN_CANCELLED"
    "require_event_payload reason_payload"
    by code_simp+
  then have e: "\<forall>e\<in>set ?es. research_event_valid e"
    by (simp add: sample_event_valid identifiers sample_payloads no_payload_ok)
  have "(case fold_run sample_projection None ?es of Inr (Some s) \<Rightarrow> s_status s = R_CANCELLED | _ \<Rightarrow> False)"
    by code_simp
  then obtain s where s: "fold_run sample_projection None ?es = Inr (Some s)" "s_status s = R_CANCELLED"
    by (auto split: sum.splits option.splits)
  from cancelled_only_on_request[OF e s] show ?thesis by (simp add: sample_projection_def)
qed

text \<open>Replay may be split, resumed and restricted: folding a log in two parts is folding it at once,
  and events of other aggregates make no difference.\<close>

lemma replay_split_and_restricted:
  "fold_run p st (es @ fs) = bind_r (fold_run p st es) (\<lambda>u. fold_run p u fs)
   \<and> fold_run p st es = fold_run p st (List.filter (\<lambda>e. belongs e (pr_project_id p) (pr_run_id p)) es)"
  by (simp add: fold_run_def run_contract.fold_split run_contract.fold_own)

text \<open>C38: Writing a valid snapshot and reading it back gives the same snapshot, unless one of its
  attempts carries the retry hint \<open>unknown\<close>: then the document the program wrote is refused,
  because \<open>coerce_attempt_enums\<close> turns that text into the attempt status of the same name.\<close>

theorem snapshot_document_roundtrip:
  assumes "run_snapshot_valid s"
  shows "validate_run_snapshot_document (run_snapshot_document s) =
    (if \<exists>a\<in>set (s_attempts s). a_retry_hint a = Some H_UNKNOWN then None else Some s)"
  by (rule validate_run_snapshot_document_dump[OF assms])

definition failed_payload :: pyval where
  "failed_payload = PyDict [(KStr (U ''reasonCode''), PyStr (U ''x'')), (KStr (U ''retryHint''), PyStr (U ''unknown''))]"

theorem snapshot_document_roundtrip_witness:
  "validate_run_snapshot_document (run_snapshot_document (sample_state 6)) = Some (sample_state 6)
   \<and> (\<exists>s. fold_run sample_projection (Some (sample_state 3))
          [sample_event TYPE_ATTEMPT_FAILED 4 (Some (U ''a1'')) failed_payload] = Inr (Some s)
        \<and> run_snapshot_valid s \<and> validate_run_snapshot_document (run_snapshot_document s) = None)"
proof
  have "\<not> (\<exists>a\<in>set (s_attempts (sample_state 6)). a_retry_hint a = Some H_UNKNOWN)" by code_simp
  then show "validate_run_snapshot_document (run_snapshot_document (sample_state 6)) = Some (sample_state 6)"
    using snapshot_document_roundtrip[OF sample_state_valid(2)] by simp
next
  let ?es = "[sample_event TYPE_ATTEMPT_FAILED 4 (Some (U ''a1'')) failed_payload]"
  have "EventIdentifier TYPE_ATTEMPT_FAILED" "require_event_payload failed_payload" by code_simp+
  then have e: "\<forall>e\<in>set ?es. research_event_valid e" by (simp add: sample_event_valid identifiers)
  have "(case fold_run sample_projection (Some (sample_state 3)) ?es of
      Inr (Some s) \<Rightarrow> list_ex (\<lambda>a. a_retry_hint a = Some H_UNKNOWN) (s_attempts s) | _ \<Rightarrow> False)"
    by code_simp
  then obtain s where s: "fold_run sample_projection (Some (sample_state 3)) ?es = Inr (Some s)"
    "\<exists>a\<in>set (s_attempts s). a_retry_hint a = Some H_UNKNOWN"
    by (auto split: sum.splits option.splits simp: list_ex_iff)
  moreover have v: "run_snapshot_valid s"
    using fold_run_state_ok[OF s(1) sample_state_ok(1) e] by (simp add: run_state_ok_def)
  ultimately show "\<exists>s. fold_run sample_projection (Some (sample_state 3)) ?es = Inr (Some s)
      \<and> run_snapshot_valid s \<and> validate_run_snapshot_document (run_snapshot_document s) = None"
    using snapshot_document_roundtrip[OF v] by auto
qed

end
