(* ===== verification/Run_Control.thy ===== *)
theory Run_Control
  imports Log_Control Run_Theorems
begin

text \<open>
  The control of \<open>runs/control.py\<close>: \<open>RunControl.rebuild\<close> folds the frozen log, \<open>RunControl.append\<close>
  validates a draft against that fold and appends it with the head it folded as the
  precondition.  The cached row of \<open>run_projections\<close> is a hint: the model keeps every test that
  decides whether it may stay, and the lemmas show that no result depends on it.

  Other connections may act between the freeze and the replay and between the rebuild and
  the append; they are arguments (\<open>others\<close>, \<open>others'\<close>) that let the log grow.
\<close>

datatype control_error = StoreFailed store_error | RunFailed run_error

record run_control =
  rc_projection :: run_projection
  rc_page_size :: int

record run_control_head =
  rh_last_sequence :: int
  rh_snapshot :: "run_snapshot option"

record run_control_result =
  rr_stored :: stored_event
  rr_snapshot :: run_snapshot

definition require_page_size :: "int \<Rightarrow> store_error + int" where
  "require_page_size page_size =
     (if page_size_ok page_size then Inr page_size else Inl (ValueError (U ''page_size'')))"

definition new_run_control :: "pyval \<Rightarrow> pyval \<Rightarrow> int \<Rightarrow> control_error + run_control" where
  "new_run_control project_id run_id page_size =
     bind_r (map_sum StoreFailed id (require_page_size page_size)) (\<lambda>n.
     bind_r (map_sum RunFailed id (new_projection project_id run_id)) (\<lambda>p.
     Inr \<lparr>rc_projection = p, rc_page_size = n\<rparr>))"

section \<open>The cached row\<close>

text \<open>\<open>None\<close> is any of the exceptions the caller catches.\<close>

definition require_cached_snapshot :: "env \<Rightarrow> run_projection_record \<Rightarrow> run_snapshot option option" where
  "require_cached_snapshot env cached = (case rp_snapshot_json cached of
     None \<Rightarrow> if rp_snapshot_digest cached \<noteq> None then None else Some None
   | Some text \<Rightarrow> (case rp_snapshot_digest cached of
       None \<Rightarrow> None
     | Some digest \<Rightarrow> do {
         decoded \<leftarrow> json_loads (env_float env) text;
         as_dict decoded;
         canonical \<leftarrow> legacy_canonical_json decoded;
         check_o (canonical = text);
         computed \<leftarrow> legacy_content_digest (env_sha env) decoded;
         check_o (computed = digest);
         snapshot \<leftarrow> validate_run_snapshot_document decoded;
         Some (Some snapshot) }))"

definition cache_row_is_plausible :: "env \<Rightarrow> run_projection_record \<Rightarrow> run_projection \<Rightarrow> int \<Rightarrow> bool" where
  "cache_row_is_plausible env cached p hw =
     (if rp_project_id cached \<noteq> pr_project_id p \<or> rp_run_id cached \<noteq> pr_run_id p then False
      else if rp_last_sequence cached > hw \<or> rp_last_sequence cached < 1 then False
      else (case require_cached_snapshot env cached of
          None \<Rightarrow> False
        | Some None \<Rightarrow> True
        | Some (Some snapshot) \<Rightarrow>
            if s_project_id snapshot \<noteq> pr_project_id p \<or> s_run_id snapshot \<noteq> pr_run_id p then False
            else s_last_sequence snapshot \<le> rp_last_sequence cached \<and> s_last_sequence snapshot \<le> hw))"

text \<open>The classes below \<open>EventStoreError\<close>; an \<open>sqlite3.Error\<close> and a \<open>ValueError\<close> are not among them.\<close>

fun is_event_store_error :: "store_error \<Rightarrow> bool" where
  "is_event_store_error (ValueError _) = False"
| "is_event_store_error SqliteError = False"
| "is_event_store_error _ = True"

definition drop_projection_cache :: "run_projection \<Rightarrow> store \<Rightarrow> store_error + store" where
  "drop_projection_cache p s =
     (if \<not> writable s then Inr s
      else (case delete_run_projection (pr_project_id p) (pr_run_id p) s of
          Inl e \<Rightarrow> if is_event_store_error e then Inr s else Inl e
        | Inr s' \<Rightarrow> Inr s'))"

definition discard_untrusted_cache :: "env \<Rightarrow> run_projection \<Rightarrow> int \<Rightarrow> store \<Rightarrow> store_error + store" where
  "discard_untrusted_cache env p hw s =
     (case get_run_projection (pr_project_id p) (pr_run_id p) s of
        None \<Rightarrow> Inr s
      | Some cached \<Rightarrow>
          if \<not> cache_row_is_plausible env cached p hw then drop_projection_cache p s else Inr s)"

definition projection_row :: "env \<Rightarrow> run_projection \<Rightarrow> int \<Rightarrow> run_snapshot option \<Rightarrow> store_error + run_projection_record" where
  "projection_row env p last_seq snapshot = (case snapshot of
     None \<Rightarrow> Inr \<lparr>rp_project_id = pr_project_id p, rp_run_id = pr_run_id p, rp_last_sequence = last_seq,
         rp_snapshot_json = None, rp_snapshot_digest = None\<rparr>
   | Some s \<Rightarrow>
       (let payload = run_snapshot_document s in
        bind_r (lift_option (ValueError (U ''canonical JSON'')) (legacy_canonical_json payload)) (\<lambda>text.
        bind_r (lift_option (ValueError (U ''canonical JSON'')) (legacy_content_digest (env_sha env) payload)) (\<lambda>digest.
        Inr \<lparr>rp_project_id = pr_project_id p, rp_run_id = pr_run_id p, rp_last_sequence = last_seq,
          rp_snapshot_json = Some text, rp_snapshot_digest = Some digest\<rparr>))))"

definition persist_projection :: "env \<Rightarrow> run_projection \<Rightarrow> int \<Rightarrow> run_snapshot option \<Rightarrow> store \<Rightarrow> store_error + store" where
  "persist_projection env p last_seq snapshot s =
     (if \<not> writable s then Inr s
      else (case (if last_seq = 0 then delete_run_projection (pr_project_id p) (pr_run_id p) s
                  else bind_r (projection_row env p last_seq snapshot) (\<lambda>row. upsert_run_projection env row s)) of
          Inl e \<Rightarrow> if is_event_store_error e then drop_projection_cache p s else Inl e
        | Inr s' \<Rightarrow> Inr s'))"

section \<open>Rebuild\<close>

definition apply_control :: "run_projection \<Rightarrow> run_snapshot option \<Rightarrow> research_event \<Rightarrow> control_error + run_snapshot option" where
  "apply_control p state e = map_sum RunFailed id (run_apply p state e)"

definition rebuild :: "env \<Rightarrow> pydatetime \<Rightarrow> (store \<Rightarrow> store) \<Rightarrow> run_control \<Rightarrow> store
    \<Rightarrow> store \<times> (control_error + run_control_head)" where
  "rebuild env now others c s =
     (let p = rc_projection c in
      case freeze_high_water env now s of
        Inl e \<Rightarrow> (s, Inl (StoreFailed e))
      | Inr (s1, hw) \<Rightarrow>
          (case discard_untrusted_cache env p hw (others s1) of
             Inl e \<Rightarrow> (others s1, Inl (StoreFailed e))
           | Inr s2 \<Rightarrow>
               (case fold_replay (apply_control p) StoreFailed initial_state
                   (snd (replay_events env now 0 (rc_page_size c) False (Some hw) s2)) of
                  Inl e \<Rightarrow> (s2, Inl e)
                | Inr snapshot \<Rightarrow>
                    (case persist_projection env p hw snapshot s2 of
                       Inl e \<Rightarrow> (s2, Inl (StoreFailed e))
                     | Inr s3 \<Rightarrow> (s3, Inr \<lparr>rh_last_sequence = hw, rh_snapshot = snapshot\<rparr>)))))"

section \<open>Append\<close>

definition require_matching_aggregate :: "run_projection \<Rightarrow> research_event \<Rightarrow> bool" where
  "require_matching_aggregate p e \<longleftrightarrow>
     \<not> (ed_project_id (e_data e) \<noteq> pr_project_id p \<or> ed_run_id (e_data e) \<noteq> Some (pr_run_id p))"

definition control_failed :: "string \<Rightarrow> control_error" where
  "control_failed m = RunFailed (RunControlError (U m))"

definition run_preflight_errors :: "control_error preflight_errors" where
  "run_preflight_errors = \<lparr>
     clone_failed = (\<lambda>m. RunFailed (RunControlError m)),
     assigned_fields = (\<lambda>_. control_failed ''RunControl does not accept store-assigned fields''),
     sequence_exhausted = control_failed ''global event sequence is exhausted'',
     invalid_draft = control_failed ''event draft failed ResearchEvent validation'',
     wrong_aggregate = control_failed ''event projectId/runId does not match this RunControl''\<rparr>"

definition run_cas_head :: "int \<Rightarrow> int option \<Rightarrow> control_error + int" where
  "run_cas_head observed_head expected = (case expected of
     None \<Rightarrow> Inr observed_head
   | Some x \<Rightarrow> if observed_head \<noteq> x then Inl (StoreFailed (EventSequenceConflictError x observed_head)) else Inr x)"

definition run_check_event :: "run_control \<Rightarrow> run_snapshot option \<Rightarrow> research_event \<Rightarrow> control_error + unit" where
  "run_check_event c snapshot event =
     bind_r (check_r (List.member LIFECYCLE_TYPES (e_type event))
       (control_failed ''event type is not a Run/Attempt lifecycle type'')) (\<lambda>_.
     bind_r (apply_control (rc_projection c) snapshot event) (\<lambda>preflight_snapshot.
     check_r (preflight_snapshot \<noteq> None) (control_failed ''lifecycle preflight produced no snapshot'')))"

text \<open>What happens before the store is asked: the head to precondition on and the copied draft.\<close>

definition run_preflight :: "run_control \<Rightarrow> run_control_head \<Rightarrow> pyval \<Rightarrow> int option \<Rightarrow> control_error + int \<times> pydict" where
  "run_preflight c head document expected =
     bind_r (run_cas_head (rh_last_sequence head) expected) (\<lambda>cas_head.
     bind_r (preflight run_preflight_errors (require_matching_aggregate (rc_projection c)) cas_head document) (\<lambda>checked.
     bind_r (run_check_event c (rh_snapshot head) (snd checked)) (\<lambda>_.
     Inr (cas_head, fst checked))))"

definition run_commit :: "env \<Rightarrow> run_control \<Rightarrow> run_control_head \<Rightarrow> stored_event \<Rightarrow> store
    \<Rightarrow> store \<times> (control_error + run_control_result)" where
  "run_commit env c head stored s =
     (let p = rc_projection c in
      case apply_control p (rh_snapshot head) (st_event stored) of
        Inl e \<Rightarrow> (s, Inl e)
      | Inr None \<Rightarrow> (s, Inl (control_failed ''committed lifecycle event produced no snapshot''))
      | Inr (Some snapshot) \<Rightarrow>
          (case persist_projection env p (stored_sequence stored) (Some snapshot) s of
             Inl e \<Rightarrow> (s, Inl (StoreFailed e))
           | Inr s' \<Rightarrow> (s', Inr \<lparr>rr_stored = stored, rr_snapshot = snapshot\<rparr>)))"

definition run_append :: "env \<Rightarrow> pydatetime \<Rightarrow> pydatetime \<Rightarrow> (store \<Rightarrow> store) \<Rightarrow> (store \<Rightarrow> store) \<Rightarrow> run_control
    \<Rightarrow> pyval \<Rightarrow> int option \<Rightarrow> store \<Rightarrow> store \<times> (control_error + run_control_result)" where
  "run_append env now now' others others' c document expected s =
     (case rebuild env now others c s of
        (s1, Inl e) \<Rightarrow> (s1, Inl e)
      | (s1, Inr head) \<Rightarrow>
          (case run_preflight c head document expected of
             Inl e \<Rightarrow> (s1, Inl e)
           | Inr (cas_head, draft) \<Rightarrow>
               (case append_store env now' (PyDict draft) (Some cas_head) (others' s1) of
                  (s2, Inl e) \<Rightarrow> (s2, Inl (StoreFailed e))
                | (s2, Inr stored) \<Rightarrow> run_commit env c head stored s2)))"

section \<open>The fold meets the contract\<close>

text \<open>The reducer sees an event only through its identity, type, time, sequence, binding and parsed
  payload: neither the stream version nor the order of keys in the payload matters.\<close>

definition recast :: "int \<Rightarrow> pyval \<Rightarrow> research_event \<Rightarrow> research_event" where
  "recast m v e = e\<lparr>e_streamversion := m, e_data := (e_data e)\<lparr>ed_payload := v\<rparr>\<rparr>"

lemma recast_fields [simp]:
  "e_id (recast m v e) = e_id e" "e_type (recast m v e) = e_type e" "e_sequence (recast m v e) = e_sequence e"
  "ed_project_id (e_data (recast m v e)) = ed_project_id (e_data e)"
  "ed_run_id (e_data (recast m v e)) = ed_run_id (e_data e)"
  "ed_attempt_id (e_data (recast m v e)) = ed_attempt_id (e_data e)"
  "ed_block_id (e_data (recast m v e)) = ed_block_id (e_data e)"
  "ed_experiment_revision (e_data (recast m v e)) = ed_experiment_revision (e_data e)"
  "ed_payload (e_data (recast m v e)) = v"
  by (simp_all add: recast_def)

lemma recast_seen [simp]:
  "sequence_of (recast m v e) = sequence_of e" "event_label (recast m v e) = event_label e"
  "belongs (recast m v e) = belongs e" "payload_error_message (recast m v e) = payload_error_message e"
  by (simp_all add: sequence_of_def event_label_def belongs_def payload_error_message_def fun_eq_iff)

lemma recast_guards [simp]:
  "require_lifecycle_envelope (recast m v e) = require_lifecycle_envelope e"
  "require_cursor_and_binding s (recast m v e) = require_cursor_and_binding s e"
  "stamp s (recast m v e) u = stamp s e u"
  by (simp_all add: require_lifecycle_envelope_def require_cursor_and_binding_def stamp_def Let_def
    cong: if_cong sum.case_cong)

lemma recast_handlers [simp]:
  "replace_attempt s (recast m v e) a st x = replace_attempt s e a st x"
  "transition_attempt s (recast m v e) a al ns rs ac h = transition_attempt s e a al ns rs ac h"
  "observe_unrelated sn (recast m v e) = observe_unrelated sn e"
  "apply_first (recast m v e) pl = apply_first e pl"
  "apply_run_cancelled s (recast m v e) = apply_run_cancelled s e"
  by (simp_all add: replace_attempt_def transition_attempt_def observe_unrelated_def apply_first_def
    apply_run_cancelled_def first_snapshot_def Let_def cong: if_cong option.case_cong lifecycle_payload.case_cong)

lemma recast_apply [simp]:
  "apply_run_event s (recast m v e) = apply_run_event s e"
  "apply_run_reviewed s (recast m v e) pl = apply_run_reviewed s e pl"
  "apply_attempt_queued s (recast m v e) pl i = apply_attempt_queued s e pl i"
  "apply_active_attempt s (recast m v e) pl a = apply_active_attempt s e pl a"
  "apply_attempt_event s (recast m v e) pl = apply_attempt_event s e pl"
  by (simp_all add: apply_run_event_def apply_run_reviewed_def apply_attempt_queued_def
    apply_active_attempt_def apply_attempt_event_def Let_def cong: if_cong option.case_cong lifecycle_payload.case_cong)

lemma run_apply_recast:
  "parse_lifecycle_payload (recast m v e) = parse_lifecycle_payload e \<Longrightarrow> run_apply p s (recast m v e) = run_apply p s e"
  by (simp add: run_apply_def cong: if_cong option.case_cong)

lemma not_null_norm: "keys_distinct (PyDict d) \<Longrightarrow> not_null (norm_dict d) k = not_null d k"
  by (auto simp: not_null_def dict_get_norm)

lemmas payload_decoders = decode_empty_def decode_run_queued_def decode_reason_code_def decode_run_reviewed_def
  decode_attempt_queued_def decode_attempt_failed_def

lemma blind_payload_models: "(t, dec) \<in> set PAYLOAD_MODELS \<Longrightarrow> blind dec"
proof -
  have "blind decode_empty" "blind decode_run_queued" "blind decode_reason_code" "blind decode_run_reviewed"
    "blind decode_attempt_queued" "blind decode_attempt_failed"
    by (rule blind_as_dict; simp add: payload_decoders field_norm not_null_norm)+
  then show "(t, dec) \<in> set PAYLOAD_MODELS \<Longrightarrow> blind dec" by (auto simp: PAYLOAD_MODELS_def)
qed

lemma recast_norm_event: "norm_event e = recast (e_streamversion e) (norm (ed_payload (e_data e))) e"
  by (simp add: norm_event_def recast_def)

lemma recast_streamversion: "e\<lparr>e_streamversion := m\<rparr> = recast m (ed_payload (e_data e)) e"
  by (simp add: recast_def)

lemma run_apply_norm:
  assumes "keys_distinct (ed_payload (e_data e))"
  shows "run_apply p s (norm_event e) = run_apply p s e"
  unfolding recast_norm_event
proof (rule run_apply_recast)
  have "dec (norm (ed_payload (e_data e))) = dec (ed_payload (e_data e))" if "map_of PAYLOAD_MODELS (e_type e) = Some dec" for dec
    using blind_payload_models[OF map_of_SomeD[OF that]] assms by (simp add: blind_def)
  then show "parse_lifecycle_payload (recast (e_streamversion e) (norm (ed_payload (e_data e))) e) = parse_lifecycle_payload e"
    by (auto simp: parse_lifecycle_payload_def split: option.split)
qed

lemma run_apply_streamversion: "run_apply p s (e\<lparr>e_streamversion := m\<rparr>) = run_apply p s e"
  unfolding recast_streamversion by (rule run_apply_recast) (simp add: parse_lifecycle_payload_def cong: option.case_cong)

interpretation run_log: log_control "apply_control p" for p
  by unfold_locales (simp_all add: apply_control_def run_apply_norm run_apply_streamversion)

section \<open>The cache never matters\<close>

text \<open>A document that can be written and read back.\<close>

definition plain :: "(pystr \<Rightarrow> pyfloat) \<Rightarrow> pyval \<Rightarrow> bool" where
  "plain pf v \<longleftrightarrow> json_dumpable v \<and> floats_ok pf v \<and> keys_distinct v"

lemma plain_simps [simp]:
  "plain pf (PyStr t) = utf8_ok t" "plain pf (PyInt i)" "plain pf (PyBool b)" "plain pf PyNone"
  "plain pf (PyList vs) = list_all (plain pf) vs"
  "plain pf (PyDict [])"
  "plain pf (PyDict ((KStr k, v) # d)) \<longleftrightarrow> utf8_ok k \<and> KStr k \<notin> fst ` set d \<and> plain pf v \<and> plain pf (PyDict d)"
  by (auto simp: plain_def list_all_iff)

lemma plain_pop: "plain pf (PyDict d) \<Longrightarrow> plain pf (PyDict (if b then dict_pop k d else d))"
  by (auto simp: plain_def dict_pop_def list_all_iff distinct_map_filter)

lemma hint_text_utf8: "utf8_ok (retry_hint_text h)"
  by (cases h) simp_all

lemma plain_options [simp]:
  "plain pf (dump_str x) = pred_option utf8_ok x" "plain pf (dump_int y)"
  "plain pf (dump_opt (\<lambda>h. PyStr (retry_hint_text h)) z)"
  apply (cases x; simp add: dump_str_def dump_opt_def)
  apply (cases y; simp add: dump_int_def dump_opt_def)
  by (cases z; simp add: dump_opt_def hint_text_utf8)

lemma plain_parts:
  "attempt_snapshot_valid a \<Longrightarrow> plain pf (attempt_document a)"
  "run_digests_valid d \<Longrightarrow> plain pf (PyDict (digests_document d))"
  "run_review_valid r \<Longrightarrow> plain pf (review_document r)"
  "pred_option consumed_authorization_valid x \<Longrightarrow> plain pf (dump_opt consumed_document x)"
  by (auto simp: attempt_document_def attempt_snapshot_valid_def digests_document_def run_digests_valid_def
    review_document_def run_review_valid_def utf8_oks utf8_ok_options)
    (cases x; auto simp: dump_opt_def consumed_document_def consumed_authorization_valid_def utf8_oks)

lemma run_document_plain:
  assumes "run_snapshot_valid s" shows "plain pf (run_snapshot_document s)"
proof -
  have v: "utf8_ok (s_project_id s)" "utf8_ok (s_run_id s)"
    "utf8_ok (s_workflow_id s)" "utf8_ok (s_last_event_id s)"
    "pred_option utf8_ok (s_active_attempt_id s)" "run_digests_valid (s_digests s)"
    "list_all (plain pf) (List.map attempt_document (s_attempts s))" "plain pf (review_document (s_review s))"
    "plain pf (dump_opt consumed_document (s_consumed_authorization s))"
    "utf8_ok (s_api_version s)" "utf8_ok (s_kind s)"
    using assms by (auto simp: run_snapshot_valid_def plain_parts utf8_oks utf8_ok_options list_all_iff)
  show ?thesis
    unfolding run_snapshot_document_def Let_def
    by (rule plain_pop) (use v plain_pop[OF plain_parts(2)[OF v(6)]] in simp)
qed

definition same_but_cache :: "store \<Rightarrow> store \<Rightarrow> bool" where
  "same_but_cache s s' \<longleftrightarrow> (\<exists>rows. s' = s\<lparr>db_run_projections := rows\<rparr>)"

lemma same_but_cacheD:
  assumes "same_but_cache s s'"
  shows "db_events s' = db_events s" "db_report s' = db_report s" "writable s' = writable s"
    "db_checkpoint s' = db_checkpoint s"
  using assms by (auto simp: same_but_cache_def)

lemma same_but_cache_refl [simp]: "same_but_cache s s" "same_but_cache s (s\<lparr>db_run_projections := x\<rparr>)"
proof -
  have "s = s\<lparr>db_run_projections := db_run_projections s\<rparr>" by simp
  then show "same_but_cache s s" unfolding same_but_cache_def by blast
  show "same_but_cache s (s\<lparr>db_run_projections := x\<rparr>)" unfolding same_but_cache_def by blast
qed

lemma same_but_cache_trans: "same_but_cache a b \<Longrightarrow> same_but_cache b c \<Longrightarrow> same_but_cache a c"
  by (auto simp: same_but_cache_def)

lemma same_but_cache_facts:
  assumes "same_but_cache s s'"
  shows "facts env s' = facts env s" "store_inv env s' = store_inv env s" "report_ok env s' = report_ok env s"
  using same_but_cacheD[OF assms] store_inv_cong[of s' s] by (simp_all add: facts_def report_ok_def verify_schema_def)

lemma drop_projection_cache_ok: "\<exists>s'. drop_projection_cache p s = Inr s' \<and> same_but_cache s s'"
  by (auto simp: drop_projection_cache_def delete_run_projection_def)

lemma discard_untrusted_cache_ok: "\<exists>s'. discard_untrusted_cache env p hw s = Inr s' \<and> same_but_cache s s'"
  using drop_projection_cache_ok by (auto simp: discard_untrusted_cache_def split: option.split)

lemma projection_row_ok:
  assumes "run_state_ok p snapshot" shows "\<exists>row. projection_row env p n snapshot = Inr row"
proof (cases snapshot)
  case (Some s)
  then have "plain (env_float env) (run_snapshot_document s)"
    using assms by (simp add: run_state_ok_def run_document_plain)
  then obtain t where "legacy_canonical_json (run_snapshot_document s) = Some t"
    using canonical_exists unfolding plain_def by metis
  then show ?thesis using Some by (simp add: projection_row_def legacy_content_digest_def Let_def lift_option_def)
qed (simp add: projection_row_def)

lemma persist_projection_ok:
  assumes "run_state_ok p snapshot"
  shows "\<exists>s'. persist_projection env p n snapshot s = Inr s' \<and> same_but_cache s s'"
proof -
  obtain row where row: "projection_row env p n snapshot = Inr row" using projection_row_ok[OF assms] by blast
  consider "\<not> writable s" | "writable s" "n = 0" | "writable s" "n \<noteq> 0" by blast
  then show ?thesis
  proof cases
    case 3
    show ?thesis
    proof (cases "upsert_run_projection env row s")
      case (Inl e)
      then have "is_event_store_error e"
        using 3 by (auto simp: upsert_run_projection_def read_only_projection_def split: if_splits)
      then show ?thesis using 3 Inl row drop_projection_cache_ok[of p s] by (simp add: persist_projection_def)
    next
      case (Inr s')
      then have "same_but_cache s s'" by (auto simp: upsert_run_projection_def split: if_splits)
      then show ?thesis using 3 Inr row by (simp add: persist_projection_def)
    qed
  qed (simp_all add: persist_projection_def delete_run_projection_def)
qed

section \<open>What rebuild computes\<close>

lemma apply_control_fold:
  "fold_r (apply_control p) st es = map_sum RunFailed id (fold_run p st es)"
proof (induction es arbitrary: st)
  case (Cons e es)
  then show ?case
    by (cases "run_apply p st e") (simp_all add: apply_control_def fold_run_def)
qed (simp add: fold_run_def)

lemma rebuild_effect:
  assumes "env_ok env" "now \<noteq> Naive" "store_inv env s" "report_ok env s" "page_size_ok (rc_page_size c)"
    "grows env others"
  obtains s1 s2 n where "freeze_high_water env now s = Inr (s1, n)" "n = int (length (db_events s))"
    "db_events s1 = db_events s" "writable s1 = writable s" "rebuild env now others c s = (s2, map_sum RunFailed
        (\<lambda>snap. \<lparr>rh_last_sequence = n, rh_snapshot = snap\<rparr>) (fold_run (rc_projection c) None (facts env s)))"
    "same_but_cache (others s1) s2"
    "store_inv env (others s1)" "report_ok env (others s1)"
proof -
  let ?p = "rc_projection c"
  obtain s1 n where f: "freeze_high_water env now s = Inr (s1, n)" using freeze_total[OF assms(1-4)] by (auto simp: is_ok_iff)
  note fe = freeze_effect[OF f assms(1-3)]
  have i1: "store_inv env s1" "report_ok env s1" "facts env s1 = facts env s"
    using assms(3,4) store_inv_cong[OF fe(2)] fe by (simp_all add: report_ok_def verify_schema_def facts_def)
  then have i2: "store_inv env (others s1)" "report_ok env (others s1)" using assms(6) by (auto simp: grows_def)
  obtain s2 where d: "discard_untrusted_cache env ?p n (others s1) = Inr s2" "same_but_cache (others s1) s2"
    using discard_untrusted_cache_ok by blast
  have i3: "store_inv env s2" "facts env s2 = facts env (others s1)" "length (db_events s1) \<le> length (db_events s2)"
    using same_but_cache_facts[OF d(2)] i2 same_but_cacheD(1)[OF d(2)] grows_facts(2)[OF assms(6) i1(1)] by auto
  have "fold_replay (apply_control ?p) StoreFailed initial_state (snd (replay_events env now 0 (rc_page_size c) False (Some n) s2))
    = fold_r (apply_control ?p) initial_state (take (length (db_events s)) (facts env s2))"
    using fold_replay_upto[OF i3(1) assms(5) store_inv_length[OF i3(1) assms(1)]] i3(3) fe(1,2) assms(5)
    by (simp add: replay_events_def require_replay_bounds_def check_r_def sequence_in_range_def CLOUD_EVENTS_INTEGER_MAX_def)
  also have "take (length (db_events s)) (facts env s2) = facts env s"
    using grows_facts(1)[OF assms(6) i1(1)] i1(3) i3(2) fe(2) by simp
  finally have r: "fold_replay (apply_control ?p) StoreFailed initial_state (snd (replay_events env now 0 (rc_page_size c) False (Some n) s2))
    = map_sum RunFailed id (fold_run ?p None (facts env s))"
    by (simp add: apply_control_fold initial_state_def)
  show ?thesis
  proof (cases "fold_run ?p None (facts env s)")
    case (Inl e)
    show ?thesis
      by (rule that[OF f fe(1) fe(2) fe(4) _ d(2) i2]) (simp add: rebuild_def Let_def f d r Inl)
  next
    case (Inr snap)
    then have "run_state_ok ?p snap"
      using fold_run_state_ok[OF Inr run_state_ok_None] facts_valid[OF assms(3)] by blast
    then obtain s3 where s3: "persist_projection env ?p n snap s2 = Inr s3" "same_but_cache s2 s3"
      using persist_projection_ok by blast
    have "same_but_cache (others s1) s3" using d(2) s3(2) by (rule same_but_cache_trans)
    then show ?thesis
      by (rule that[OF f fe(1) fe(2) fe(4) _ _ i2, rotated]) (simp add: rebuild_def Let_def f d r Inr s3)
  qed
qed

section \<open>What append does\<close>

lemma run_check_event_iff:
  "run_check_event c snapshot e = Inr () \<longleftrightarrow> List.member LIFECYCLE_TYPES (e_type e)
     \<and> (\<exists>snap. apply_control (rc_projection c) snapshot e = Inr (Some snap))"
  by (auto simp: run_check_event_def bind_r_Inr_iff check_r_iff)

lemma run_cas_head_iff: "run_cas_head h expected = Inr k \<longleftrightarrow> k = h \<and> (expected = None \<or> expected = Some h)"
  by (auto simp: run_cas_head_def split: option.splits)

lemma run_preflight_iff:
  "run_preflight c head document expected = Inr (cas, d) \<longleftrightarrow>
     cas = rh_last_sequence head \<and> (expected = None \<or> expected = Some cas)
     \<and> snapshot_json_document document = Inr d \<and> no_assigned_fields d \<and> cas < CLOUD_EVENTS_INTEGER_MAX
     \<and> (\<exists>pre snap. validate_event_document (PyDict (allocate (cas + 1) 0 d)) = Some pre
         \<and> belongs pre (pr_project_id (rc_projection c)) (pr_run_id (rc_projection c))
         \<and> List.member LIFECYCLE_TYPES (e_type pre)
         \<and> apply_control (rc_projection c) (rh_snapshot head) pre = Inr (Some snap))"
  by (auto simp: run_preflight_def bind_r_Inr_iff run_cas_head_iff preflight_iff run_check_event_iff
    require_matching_aggregate_def belongs_def)

lemma run_preflightD:
  assumes "run_preflight c head document expected = Inr (cas, d)"
  obtains pre snap where "cas = rh_last_sequence head" "expected = None \<or> expected = Some cas" "document = PyDict d"
    "no_assigned_fields d" "cas < CLOUD_EVENTS_INTEGER_MAX"
    "validate_event_document (PyDict (allocate (cas + 1) 0 d)) = Some pre"
    "apply_control (rc_projection c) (rh_snapshot head) pre = Inr (Some snap)"
  using assms snapshot_json_document_same by (auto simp: run_preflight_iff)

lemma run_append_committed:
  assumes env: "env_ok env" and inv: "store_inv env s" and clock: "clock_ok now'" and draft: "draft_ok env document"
    and fold: "fold_run (rc_projection c) None (facts env s) = Inr snap"
    and head: "head = \<lparr>rh_last_sequence = int (length (db_events s)), rh_snapshot = snap\<rparr>"
    and pre: "run_preflight c head document expected = Inr (cas, d)"
    and s2: "store_inv env s2" "prefix (facts env s) (facts env s2)"
    and app: "append_store env now' (PyDict d) (Some cas) s2 = (s3, Inr st)"
  obtains s4 snap' where "run_commit env c head st s3 = (s4, Inr \<lparr>rr_stored = st, rr_snapshot = snap'\<rparr>)"
    "same_but_cache s3 s4" "store_inv env s3" "facts env s2 = facts env s" "facts env s3 = facts env s @ [fact_of st]"
    "fold_run (rc_projection c) None (facts env s3) = Inr (Some snap')" "stored_sequence st = int (length (db_events s)) + 1"
    "expected = None \<or> expected = Some (int (length (db_events s)))"
    "snd (run_commit env c head st s3) = Inr \<lparr>rr_stored = st, rr_snapshot = snap'\<rparr>"
proof -
  let ?p = "rc_projection c"
  obtain e snap' where p: "cas = int (length (db_events s))" "expected = None \<or> expected = Some cas" "document = PyDict d"
    "validate_event_document (PyDict (allocate (cas + 1) 0 d)) = Some e" "apply_control ?p snap e = Inr (Some snap')"
    by (rule run_preflightD[OF pre]) (use head in auto)
  have good: "good_call env (now', PyDict d)" using draft clock p(3) by (simp add: good_call_def)
  have call: "call_append env s2 (now', PyDict d) (Some cas) = (s3, Inr st)" using app by (simp add: call_append_def)
  have "cas = int (length (facts env s2))" by (rule store_log.add_head[OF s2(1) good call])
  then have len: "length (db_events s2) = length (db_events s)" using p(1) by simp
  then have same: "facts env s2 = facts env s" using s2(2) length_facts
    by (metis append_eq_append_conv append_Nil2 prefix_def)
  have facts3: "facts env s3 = facts env s @ [fact_of st]"
    using store_log.add_committed[OF s2(1) good call] same by simp
  have inv3: "store_inv env s3" using store_log.add_ok[OF s2(1) good, of "Some cas"] call by simp
  have d: "draft_ok env (PyDict d)" using draft p(3) by simp
  have val: "validate_event_document (PyDict (allocate (last_sequence s2 + 1) 0 d)) = Some e"
    using p(1,4) len store_invD(1)[OF s2(1)] by simp
  have fold2: "fold_r (apply_control ?p) None (facts env s2) = Inr snap"
    using fold same by (simp add: apply_control_fold)
  have "fold_r (apply_control ?p) None (facts env s3) = Inr (Some snap')"
    using run_log.committed_fold[OF s2(1) d clock app val fold2] p(5) by simp
  then have fold3: "fold_run ?p None (facts env s3) = Inr (Some snap')"
    by (auto simp: apply_control_fold map_sum_Inr_iff)
  have "run_state_ok ?p (Some snap')"
    using fold_run_state_ok[OF fold3 run_state_ok_None] facts_valid[OF inv3] by blast
  then obtain s4 where s4: "persist_projection env ?p (stored_sequence st) (Some snap') s3 = Inr s4" "same_but_cache s3 s4"
    using persist_projection_ok by blast
  have "apply_control ?p snap (st_event st) = Inr (Some snap')"
    using run_log.committed_apply(1)[OF s2(1) d clock app val, of ?p snap] p(5) by simp
  then have com: "run_commit env c head st s3 = (s4, Inr \<lparr>rr_stored = st, rr_snapshot = snap'\<rparr>)"
    using s4(1) head by (simp add: run_commit_def Let_def)
  have "append_checked env now' (PyDict d) (Some cas) s2 = Inr (s3, st)" using app by (simp add: append_store_Inr)
  from append_committed[OF this s2(1) d clock] have "stored_sequence st = last_sequence s2 + 1" by metis
  then have "stored_sequence st = int (length (db_events s)) + 1" using store_invD(1)[OF s2(1)] len by simp
  with com s4(2) inv3 same facts3 fold3 p(1,2) show ?thesis by (intro that[of s4 snap']) auto
qed

end
