(* ===== verification/Payload_Fields.thy ===== *)
theory Payload_Fields
  imports Event_Json
begin

text \<open>
  Field types that the payload classes of the controls share: identifiers, texts, literals, digests,
  bounded integers and bounded JSON arrays, and fields that have to be left out rather than be
  null.  None of them looks at the order of keys.
\<close>

definition decode_identifier :: "pyval \<Rightarrow> pystr option" where
  "decode_identifier v = Option.bind (as_str v) (keep_o EventIdentifier)"

definition decode_text :: "pyval \<Rightarrow> pystr option" where
  "decode_text v = Option.bind (as_str v) (keep_o CloudEventsString)"

definition decode_stamp :: "pyval \<Rightarrow> pystr option" where
  "decode_stamp v = Option.bind (as_str v) (keep_o Rfc3339Timestamp)"

definition decode_uri_reference :: "pyval \<Rightarrow> pystr option" where
  "decode_uri_reference v = Option.bind (as_str v) (keep_o CloudEventsUriReference)"

definition decode_literal :: "pystr list \<Rightarrow> pyval \<Rightarrow> pystr option" where
  "decode_literal names v = Option.bind (as_str v) (keep_o (List.member names))"

definition decode_digest :: "regex \<Rightarrow> pyval \<Rightarrow> pystr option" where
  "decode_digest pattern v = Option.bind (as_str v) (keep_o (\<lambda>s. CloudEventsString s \<and> fullmatch pattern s))"

definition decode_matching :: "regex \<Rightarrow> pyval \<Rightarrow> pystr option" where
  "decode_matching pattern v = Option.bind (as_str v) (keep_o (fullmatch pattern))"

text \<open>\<open>StringConstraints(min_length, max_length)\<close>, \<open>Field(ge, le)\<close> and a JSON array with bounds on its length\<close>

definition text_within :: "nat \<Rightarrow> nat \<Rightarrow> pystr \<Rightarrow> bool" where
  "text_within lo hi s \<longleftrightarrow> lo \<le> length s \<and> length s \<le> hi \<and> utf8_ok s"

definition decode_within :: "nat \<Rightarrow> nat \<Rightarrow> pyval \<Rightarrow> pystr option" where
  "decode_within lo hi v = Option.bind (as_str v) (keep_o (text_within lo hi))"

definition decode_range :: "int \<Rightarrow> int \<Rightarrow> pyval \<Rightarrow> int option" where
  "decode_range lo hi v = Option.bind (as_int v) (keep_o (\<lambda>i. lo \<le> i \<and> i \<le> hi))"

definition decode_array :: "nat \<Rightarrow> nat \<Rightarrow> (pyval \<Rightarrow> 'a option) \<Rightarrow> pyval \<Rightarrow> 'a list option" where
  "decode_array lo hi dec v = Option.bind (Option.bind (as_list v) (map_o dec))
     (keep_o (\<lambda>xs. lo \<le> length xs \<and> length xs \<le> hi))"

definition decode_unique :: "nat \<Rightarrow> nat \<Rightarrow> (pyval \<Rightarrow> 'a option) \<Rightarrow> pyval \<Rightarrow> 'a list option" where
  "decode_unique lo hi dec v = Option.bind (decode_array lo hi dec v) (keep_o (\<lambda>xs. length xs = card (set xs)))"

text \<open>An optional field whose validator refuses an explicit null.\<close>

definition omit_field :: "pydict \<Rightarrow> pystr \<Rightarrow> (pyval \<Rightarrow> 'a option) \<Rightarrow> 'a option option" where
  "omit_field d k dec = (case dict_get k d of None \<Rightarrow> Some None | Some v \<Rightarrow> map_option Some (dec v))"

lemma blind_array: "blind dec \<Longrightarrow> blind (decode_array lo hi dec)"
  unfolding decode_array_def[abs_def] by (rule blind_bind[OF blind_list_of])

lemma blind_unique: "blind dec \<Longrightarrow> blind (decode_unique lo hi dec)"
  unfolding decode_unique_def[abs_def] by (rule blind_bind[OF blind_array])

lemma omit_field_norm:
  "keys_distinct (PyDict d) \<Longrightarrow> blind dec \<Longrightarrow> omit_field (norm_dict d) k dec = omit_field d k dec"
  by (auto simp: omit_field_def dict_get_norm blind_def keys_distinct_member split: option.split)

lemma blind_fields:
  "blind decode_identifier" "blind decode_text" "blind decode_stamp" "blind decode_uri_reference"
  "blind (decode_literal names)" "blind (decode_digest p)" "blind (decode_matching p)" "blind (decode_within lo hi)"
  "blind (decode_range i j)"
  unfolding decode_identifier_def[abs_def] decode_text_def[abs_def] decode_stamp_def[abs_def] decode_literal_def[abs_def]
    decode_uri_reference_def[abs_def] decode_digest_def[abs_def] decode_matching_def[abs_def] decode_within_def[abs_def]
    decode_range_def[abs_def] by (simp_all add: field_norm)

lemmas shared_field_norm = field_norm blind_fields blind_array blind_unique omit_field_norm

text \<open>A class that a model is looked up for by the event's type: what it reads does not depend on the
  order of keys.\<close>

lemma lookup_decoder_norm:
  assumes "\<forall>x\<in>set models. blind (snd x)" "keys_distinct (ed_payload (e_data e))"
    "map_of models (e_type e) = Some dec"
  shows "dec (norm (ed_payload (e_data e))) = dec (ed_payload (e_data e))"
  using assms(1) map_of_SomeD[OF assms(3)] assms(2) by (fastforce simp: blind_def)

end
