(* ===== verification/Drafts.thy ===== *)
theory Drafts
  imports Payload_Fields Run_Models Log_Control
begin

text \<open>
  Event drafts.  Every request module writes the same document around its own payload
  (\<open>_event_draft\<close> of \<open>providers/requests.py\<close> and \<open>research/requests.py\<close>, \<open>worker_event_draft\<close>,
  \<open>event_draft\<close> of the cancellation and evidence requests); they differ in whether and where the keys
  \<open>runId\<close> and \<open>attemptId\<close> stand.  A draft whose parts are checked validates as the next event,
  and never carries a field the store assigns.
\<close>

record draft_head =
  dh_id :: pystr
  dh_type :: pystr
  dh_time :: pystr
  dh_source :: pystr
  dh_subject :: pystr
  dh_stream :: pystr

definition draft_document :: "draft_head \<Rightarrow> pydict \<Rightarrow> pydict" where
  "draft_document h data =
     [(KStr (U ''specversion''), PyStr (U ''1.0'')), (KStr (U ''id''), PyStr (dh_id h)), (KStr (U ''source''), PyStr (dh_source h)),
      (KStr (U ''type''), PyStr (dh_type h)), (KStr (U ''time''), PyStr (dh_time h)), (KStr (U ''subject''), PyStr (dh_subject h)),
      (KStr (U ''dataschema''), PyStr RESEARCH_EVENT_SCHEMA_ID), (KStr (U ''datacontenttype''), PyStr (U ''application/json'')),
      (KStr (U ''streamid''), PyStr (dh_stream h)), (KStr (U ''data''), PyDict data)]"

definition key_if :: "string \<Rightarrow> pystr option \<Rightarrow> pydict" where
  "key_if k x = (case x of None \<Rightarrow> [] | Some s \<Rightarrow> [(KStr (U k), PyStr s)])"

definition draft_data :: "pydict \<Rightarrow> pystr \<Rightarrow> int \<Rightarrow> pystr option \<Rightarrow> pydict \<Rightarrow> pystr list \<Rightarrow> pystr option \<Rightarrow> pystr option \<Rightarrow> pydict" where
  "draft_data actor project_id revision early_run payload evidence_refs run attempt =
     [(KStr (U ''schemaVersion''), PyStr (U ''v0alpha1'')), (KStr (U ''actor''), PyDict actor),
      (KStr (U ''projectId''), PyStr project_id), (KStr (U ''experimentRevision''), PyInt revision)]
     @ key_if ''runId'' early_run
     @ [(KStr (U ''payload''), PyDict payload), (KStr (U ''evidenceRefs''), PyList (List.map PyStr evidence_refs))]
     @ key_if ''runId'' run @ key_if ''attemptId'' attempt"

text \<open>\<open>_actor_document\<close>: the key \<open>modelId\<close> only when there is one\<close>

definition draft_actor :: "pystr \<Rightarrow> pystr option \<Rightarrow> pystr option \<Rightarrow> pydict" where
  "draft_actor i kind model_id = (KStr (U ''id''), PyStr i) # key_if ''kind'' kind @ key_if ''modelId'' model_id"

text \<open>\<open>ActorKind.value\<close>\<close>

definition kind_text :: "actor_kind \<Rightarrow> pystr" where
  "kind_text k = (case k of HUMAN \<Rightarrow> U ''human'' | AI \<Rightarrow> U ''ai'' | SYSTEM \<Rightarrow> U ''system'' | POLICY \<Rightarrow> U ''policy'')"

lemma kind_text_simps [simp]: "actor_kind_of (kind_text k) = Some k" "utf8_ok (kind_text k)"
  by (cases k; simp add: kind_text_def actor_kind_of_def)+

section \<open>A checked draft is a valid event\<close>

definition drafted :: "draft_head \<Rightarrow> research_event_data \<Rightarrow> int \<Rightarrow> int \<Rightarrow> research_event" where
  "drafted h data n m =
     \<lparr>e_specversion = U ''1.0'', e_id = dh_id h, e_source = dh_source h, e_type = dh_type h, e_time = dh_time h,
      e_subject = dh_subject h, e_dataschema = RESEARCH_EVENT_SCHEMA_ID, e_datacontenttype = U ''application/json'',
      e_data = data, e_sequence = str_int n, e_sequencetype = U ''Integer'', e_streamid = dh_stream h, e_streamversion = m,
      e_correlationid = None, e_causationid = None\<rparr>"

definition draft_head_ok :: "draft_head \<Rightarrow> bool" where
  "draft_head_ok h \<longleftrightarrow> CloudEventsString (dh_id h) \<and> CloudEventsUriReference (dh_source h) \<and> utf8_ok (dh_source h)
     \<and> EventIdentifier (dh_type h) \<and> Rfc3339Timestamp (dh_time h) \<and> utf8_ok (dh_time h)
     \<and> CloudEventsString (dh_subject h) \<and> EventIdentifier (dh_stream h)"

definition draft_data_of :: "event_actor \<Rightarrow> pystr \<Rightarrow> int \<Rightarrow> pydict \<Rightarrow> pystr list \<Rightarrow> pystr option \<Rightarrow> pystr option \<Rightarrow> research_event_data" where
  "draft_data_of actor project_id revision payload evidence_refs run attempt =
     \<lparr>ed_schema_version = U ''v0alpha1'', ed_actor = actor, ed_project_id = project_id, ed_experiment_revision = revision,
      ed_run_id = run, ed_attempt_id = attempt, ed_block_id = None, ed_payload = PyDict payload, ed_evidence_refs = evidence_refs\<rparr>"

definition draft_data_ok :: "pystr \<Rightarrow> int \<Rightarrow> pydict \<Rightarrow> pystr list \<Rightarrow> pystr option \<Rightarrow> pystr option \<Rightarrow> bool" where
  "draft_data_ok project_id revision payload evidence_refs run attempt \<longleftrightarrow> EventIdentifier project_id
     \<and> ExperimentRevision revision \<and> require_event_payload (PyDict payload) \<and> list_all EventIdentifier evidence_refs
     \<and> distinct evidence_refs \<and> pred_option EventIdentifier run \<and> pred_option EventIdentifier attempt"

lemma key_if_get [simp]:
  "dict_get k (key_if j x @ d) = (case x of None \<Rightarrow> dict_get k d | Some s \<Rightarrow> if k = U j then Some (PyStr s) else dict_get k d)"
  "dict_get k (key_if j x) = (case x of None \<Rightarrow> None | Some s \<Rightarrow> if k = U j then Some (PyStr s) else None)"
  by (auto simp: key_if_def split: option.split)

lemma only_keys_append [simp]: "only_keys ks (d @ e) \<longleftrightarrow> only_keys ks d \<and> only_keys ks e"
  "only_keys ks (key_if j x) \<longleftrightarrow> x = None \<or> List.member ks (U j)"
  "only_keys ks ((k, v) # d) \<longleftrightarrow> (case k of KStr s \<Rightarrow> List.member ks s | KOther _ \<Rightarrow> False) \<and> only_keys ks d" "only_keys ks []"
  by (auto simp: only_keys_def key_if_def split: option.split pykey.splits)

lemma map_o_strings: "list_all utf8_ok xs \<Longrightarrow> map_o as_str (List.map PyStr xs) = Some xs"
  by (induction xs) simp_all

lemma identifiers_utf8: "list_all EventIdentifier xs \<Longrightarrow> list_all utf8_ok xs"
  by (auto simp: list_all_iff utf8_oks)

lemma str_int_sequence:
  assumes "1 \<le> n" "n \<le> CLOUD_EVENTS_INTEGER_MAX"
  shows "SequenceIntegerString (str_int n)"
  unfolding SequenceIntegerString_iff
  using assms by (intro exI[of _ "nat n"]) (simp add: str_int_nat CLOUD_EVENTS_INTEGER_MAX_def nat_le_iff Suc_le_eq)

lemma decode_draft_actor:
  assumes "EventIdentifier i" "pred_option EventIdentifier m" "m \<noteq> None \<longrightarrow> k = Some AI"
    "case kind of None \<Rightarrow> k = None | Some s \<Rightarrow> utf8_ok s \<and> k \<noteq> None \<and> actor_kind_of s = k"
  shows "decode_actor (PyDict (draft_actor i kind m)) = Some \<lparr>actor_id = i, actor_kind_field = k, actor_model_id = m\<rparr>"
  using assms by (auto simp: decode_actor_def draft_actor_def req_field_def opt_field_def nullable_of_def List.member_iff
    check_o_def utf8_oks event_actor_valid_def split: option.splits)

lemma decode_draft_data:
  assumes "decode_actor (PyDict actor) = Some ac" "draft_data_ok project_id revision payload refs run attempt"
    "early = None \<and> late = run \<or> early = run \<and> late = None"
  shows "decode_event_data (PyDict (draft_data actor project_id revision early payload refs late attempt))
    = Some (draft_data_of ac project_id revision payload refs run attempt)"
proof -
  have p: "decode_payload (PyDict payload) = Some (PyDict payload)"
    using assms(2) by (simp add: decode_payload_def draft_data_ok_def keep_o_def)
  have a: "event_actor_valid ac" using assms(1) by (auto simp: decode_actor_def decode_simps)
  have u: "utf8_ok project_id" "map_o as_str (List.map PyStr refs) = Some refs"
    using assms(2) by (simp_all add: draft_data_ok_def utf8_oks map_o_strings identifiers_utf8)
  have r: "\<And>x. run = Some x \<Longrightarrow> utf8_ok x" "\<And>x. attempt = Some x \<Longrightarrow> utf8_ok x"
    using assms(2) by (auto simp: draft_data_ok_def utf8_oks)
  have v: "event_data_valid (draft_data_of ac project_id revision payload refs run attempt)"
    using assms(2) a by (simp add: event_data_valid_def draft_data_of_def draft_data_ok_def)
  show ?thesis using assms(3) r v
    by (elim disjE) (cases run; cases attempt;
      simp add: decode_event_data_def draft_data_def req_field_def opt_field_def nullable_of_def List.member_iff check_o_def
        assms(1) p u draft_data_of_def)+
qed

lemma validate_draft_document:
  assumes "draft_head_ok h" "decode_event_data (PyDict data) = Some da"
    "1 \<le> n" "n \<le> CLOUD_EVENTS_INTEGER_MAX" "0 \<le> m" "m \<le> CLOUD_EVENTS_INTEGER_MAX"
  shows "validate_event_document (PyDict (allocate n m (draft_document h data))) = Some (drafted h da n m)"
proof -
  have s: "utf8_ok RESEARCH_EVENT_SCHEMA_ID" by (simp add: RESEARCH_EVENT_SCHEMA_ID_def)
  have d: "event_data_valid da" using assms(2) by (auto simp: decode_event_data_def decode_simps)
  have "research_event_valid (drafted h da n m)"
    using assms(1) str_int_sequence[OF assms(3,4)] assms(5,6) d
    by (simp add: research_event_valid_def drafted_def draft_head_ok_def StreamVersion_def)
  then show ?thesis using assms(1,2) s
    by (simp add: validate_event_document_def draft_document_def allocate_def dict_update_def req_field_def opt_field_def
      List.member_iff check_o_def draft_head_ok_def utf8_oks str_int_utf8 drafted_def)
qed

text \<open>Printable ASCII text is a CloudEvents string; so is every identifier.\<close>

lemma printable_cloudevents:
  assumes "s \<noteq> []" "\<forall>c\<in>set s. 32 \<le> c \<and> c \<le> 126" shows "CloudEventsString s"
proof -
  let ?r = "rnot [(0, 31), (127, 159)]"
  have star: "t \<in> lang (RStar ?r)" if "\<forall>c\<in>set t. 32 \<le> c \<and> c \<le> 126" for t :: pystr
    using that
  proof (induction t)
    case (Cons x t)
    then have "[x] @ t \<in> star_of (lang ?r)" by (intro star_app) (auto simp: in_ranges_def)
    then show ?case by simp
  qed (simp add: star_Nil)
  obtain c t where s: "s = [c] @ t" using assms(1) by (cases s) auto
  have "[c] \<in> lang ?r" "t \<in> lang (RStar ?r)" using assms(2) s star by (auto simp: in_ranges_def)
  then have "fullmatch CLOUD_EVENTS_STRING_PATTERN s"
    unfolding CLOUD_EVENTS_STRING_PATTERN_def rplus_def fullmatch_iff s lang.simps by blast
  moreover have "require_cloudevents_string s"
    using assms(2) by (auto simp: require_cloudevents_string_def isascii_def ascii_control_def list_ex_iff list_all_iff)
  ultimately show ?thesis using assms(1) by (simp add: CloudEventsString_def Suc_le_eq)
qed

lemma identifier_characters:
  assumes "EventIdentifier s" shows "\<forall>c\<in>set s. 45 \<le> c \<and> c \<le> 122"
proof -
  let ?rest = "crange [(CHR ''A'', CHR ''Z''), (CHR ''a'', CHR ''z''), (CHR ''0'', CHR ''9''),
        (CHR ''.'', CHR ''.''), (CHR ''_'', CHR ''_''), (CHR '':'', CHR '':''), (CHR ''-'', CHR ''-'')]"
  have star: "\<forall>c\<in>set t. 45 \<le> c \<and> c \<le> 122" if "t \<in> lang (RStar ?rest)" for t
    using that unfolding crange_def lang_star_cls by (auto simp: in_ranges_def)
  obtain c t where "s = c # t" "45 \<le> c \<and> c \<le> 122" "t \<in> lang (RStar ?rest)"
    using assms unfolding EventIdentifier_def EVENT_IDENTIFIER_PATTERN_def fullmatch_iff
    by (auto simp: crange_def in_ranges_def simp del: lang.simps(6))
  then show ?thesis using star by auto
qed

lemma identifier_text: "EventIdentifier s \<Longrightarrow> CloudEventsString s"
  using identifier_characters[of s] by (intro printable_cloudevents) (auto simp: EventIdentifier_def)

section \<open>Drafts the store can take\<close>

lemma draft_document_ok:
  assumes "keys_distinct (PyDict data)" "floats_ok (env_float env) (PyDict data)"
  shows "draft_ok env (PyDict (draft_document h data))" "no_assigned_fields (draft_document h data)"
  using assms by (simp_all add: draft_ok_def draft_document_def no_assigned_fields_def STORE_ASSIGNED_FIELDS_def dict_has_def)

lemma draft_data_trees:
  assumes "keys_distinct (PyDict actor)" "keys_distinct (PyDict payload)" "floats_ok fl (PyDict actor)"
    "floats_ok fl (PyDict payload)" "early = None \<or> late = None"
  shows "keys_distinct (PyDict (draft_data actor p n early payload refs late attempt))"
    "floats_ok fl (PyDict (draft_data actor p n early payload refs late attempt))"
  using assms by (cases early; cases late; cases attempt; auto simp: draft_data_def key_if_def list_all_iff)+

lemma draft_actor_trees: "keys_distinct (PyDict (draft_actor i kind m))" "floats_ok fl (PyDict (draft_actor i kind m))"
  by (cases kind; cases m; simp add: draft_actor_def key_if_def)+

text \<open>Such a draft passes the checks every control makes before its own fold.\<close>

lemma preflight_draft:
  assumes "draft_head_ok h" "decode_event_data (PyDict data) = Some da" "keys_distinct (PyDict data)"
    "0 \<le> n" "n < CLOUD_EVENTS_INTEGER_MAX" "own (drafted h da (n + 1) 0)"
  shows "preflight err own n (PyDict (draft_document h data)) = Inr (draft_document h data, drafted h da (n + 1) 0)"
proof -
  have v: "validate_event_document (PyDict (allocate (n + 1) 0 (draft_document h data))) = Some (drafted h da (n + 1) 0)"
    by (rule validate_draft_document[OF assms(1,2)]) (use assms(4,5) in \<open>simp_all add: CLOUD_EVENTS_INTEGER_MAX_def\<close>)
  have na: "no_assigned_fields (draft_document h data)"
    by (simp add: no_assigned_fields_def STORE_ASSIGNED_FIELDS_def dict_has_def draft_document_def)
  have "keys_distinct (PyDict (draft_document h data))" using assms(3) by (simp add: draft_document_def)
  from accepted_draft_clones[OF v na this] show ?thesis unfolding preflight_iff using v na assms(5,6) by simp
qed

section \<open>Values that survive being written and read\<close>

text \<open>What a request passes on to a payload: a value that is read, written into the payload and read
  again there.  \<open>plain_tree\<close> collects what a payload demands of such a part.\<close>

definition plain_tree :: "pyval \<Rightarrow> bool" where
  "plain_tree v \<longleftrightarrow> payload_tree_ok v \<and> json_dumpable v \<and> keys_distinct v \<and> (\<forall>fl. floats_ok fl v)"

definition codec :: "('a \<Rightarrow> pyval) \<Rightarrow> (pyval \<Rightarrow> 'a option) \<Rightarrow> bool" where
  "codec enc dec \<longleftrightarrow> (\<forall>v x. dec v = Some x \<longrightarrow> dec (enc x) = Some x \<and> plain_tree (enc x))"

text \<open>What a decoder can return\<close>

definition readable :: "(pyval \<Rightarrow> 'a option) \<Rightarrow> 'a \<Rightarrow> bool" where
  "readable dec x \<longleftrightarrow> (\<exists>v. dec v = Some x)"

lemma readableI: "dec v = Some x \<Longrightarrow> readable dec x"
  unfolding readable_def by blast

named_theorems codecs \<open>decoders whose values can be written and read again\<close>

lemma codecD: "codec enc dec \<Longrightarrow> dec v = Some x \<Longrightarrow> dec (enc x) = Some x"
  "codec enc dec \<Longrightarrow> dec v = Some x \<Longrightarrow> plain_tree (enc x)"
  unfolding codec_def by blast+

lemma codec_reads: "codec enc dec \<Longrightarrow> readable dec x \<Longrightarrow> dec (enc x) = Some x"
  "codec enc dec \<Longrightarrow> readable dec x \<Longrightarrow> plain_tree (enc x)"
  unfolding codec_def readable_def by blast+

lemma opt_field_Some:
  "opt_field d k y dec = Some x \<longleftrightarrow> dict_get k d = None \<and> x = y \<or> (\<exists>v. dict_get k d = Some v \<and> dec v = Some x)"
  by (auto simp: opt_field_def split: option.splits)

lemma omit_field_Some:
  "omit_field d k dec = Some x \<longleftrightarrow> dict_get k d = None \<and> x = None \<or> (\<exists>v y. dict_get k d = Some v \<and> dec v = Some y \<and> x = Some y)"
  by (auto simp: omit_field_def split: option.splits)

lemma nullable_Some: "nullable_of dec v = Some x \<longleftrightarrow> v = PyNone \<and> x = None \<or> v \<noteq> PyNone \<and> (\<exists>y. dec v = Some y \<and> x = Some y)"
  by (auto simp: nullable_of_def)

lemmas read_simps = decode_simps opt_field_Some omit_field_Some nullable_Some readable_def

lemma plain_scalars [simp]: "plain_tree (PyStr s) \<longleftrightarrow> utf8_ok s" "plain_tree (PyInt i)" "plain_tree (PyBool b)"
  by (simp_all add: plain_tree_def)

lemma plain_list [simp]: "plain_tree (PyList vs) \<longleftrightarrow> list_all plain_tree vs"
  by (auto simp: plain_tree_def list_all_iff)

definition plain_items :: "pydict \<Rightarrow> bool" where
  "plain_items d \<longleftrightarrow> list_all (\<lambda>(k, v). (case k of KStr s \<Rightarrow> s \<notin> set INLINE_BODY_KEYS \<and> utf8_ok s | KOther _ \<Rightarrow> False)
     \<and> plain_tree v) d"

lemma plain_items_simps [simp]: "plain_items []" "plain_items ((KStr s, v) # d) \<longleftrightarrow> s \<notin> set INLINE_BODY_KEYS \<and> utf8_ok s \<and> plain_tree v \<and> plain_items d"
  "plain_items (d @ e) \<longleftrightarrow> plain_items d \<and> plain_items e"
  by (auto simp: plain_items_def)

lemma plain_key_if [simp]: "plain_items (key_if k x) \<longleftrightarrow> x = None \<or> U k \<notin> set INLINE_BODY_KEYS \<and> pred_option utf8_ok x"
  by (auto simp: key_if_def split: option.split)

lemma plain_dict [simp]: "plain_tree (PyDict d) \<longleftrightarrow> plain_items d \<and> distinct (List.map fst d)"
  by (induction d) (auto simp: plain_tree_def plain_items_def split: pykey.splits)

lemma plain_payload: "plain_tree (PyDict d) \<Longrightarrow> require_event_payload (PyDict d)"
  unfolding plain_tree_def require_event_payload_def walk_payload_iff by simp

lemma as_str_utf8: "as_str v = Some s \<Longrightarrow> utf8_ok s"
  by (cases v) (auto split: if_splits)

lemma codec_str: "codec PyStr (\<lambda>v. Option.bind (as_str v) (keep_o p))"
  by (auto simp: codec_def decode_simps as_str_utf8)

lemma codec_enum: "(\<And>x. f (g x) = Some x \<and> utf8_ok (g x)) \<Longrightarrow> codec (\<lambda>x. PyStr (g x)) (\<lambda>v. Option.bind (as_str v) f)"
  by (auto simp: codec_def)

lemma codec_bool [codecs]: "codec PyBool as_bool"
  by (auto simp: codec_def)

lemma codec_fields [codecs]: "codec PyStr decode_identifier" "codec PyStr decode_text" "codec PyStr decode_stamp"
  "codec PyStr decode_uri_reference" "codec PyStr (decode_literal names)" "codec PyStr (decode_digest p)"
  "codec PyStr (decode_matching p)" "codec PyStr (decode_within lo hi)"
  unfolding decode_identifier_def[abs_def] decode_text_def[abs_def] decode_stamp_def[abs_def] decode_literal_def[abs_def]
    decode_uri_reference_def[abs_def] decode_digest_def[abs_def] decode_matching_def[abs_def] decode_within_def[abs_def]
  by (rule codec_str)+

lemma codec_range [codecs]: "codec PyInt (decode_range i j)"
  by (auto simp: codec_def decode_range_def decode_simps)

lemma map_o_source: "map_o f vs = Some xs \<Longrightarrow> x \<in> set xs \<Longrightarrow> \<exists>v. f v = Some x"
  by (induction vs arbitrary: xs) (auto split: option.splits)

lemma codec_map_o:
  assumes "codec enc dec" "map_o dec vs = Some xs"
  shows "map_o dec (List.map enc xs) = Some xs" "list_all (\<lambda>x. plain_tree (enc x)) xs"
proof -
  have "\<forall>x\<in>set xs. \<exists>v. dec v = Some x" using map_o_source[OF assms(2)] by blast
  then show "map_o dec (List.map enc xs) = Some xs" "list_all (\<lambda>x. plain_tree (enc x)) xs"
    using codecD[OF assms(1)] by (auto intro!: map_o_map simp: list_all_iff)
qed

lemma codec_array [codecs]: "codec enc dec \<Longrightarrow> codec (\<lambda>xs. PyList (List.map enc xs)) (decode_array lo hi dec)"
  by (auto simp: codec_def[of _ "decode_array lo hi dec"] decode_array_def decode_simps codec_map_o list.pred_map comp_def)

lemma codec_unique [codecs]: "codec enc dec \<Longrightarrow> codec (\<lambda>xs. PyList (List.map enc xs)) (decode_unique lo hi dec)"
  using codec_array[of enc dec lo hi] by (auto simp: codec_def decode_unique_def decode_simps)

lemma decoded_checks: "decode_identifier v = Some s \<Longrightarrow> EventIdentifier s" "decode_text v = Some s \<Longrightarrow> CloudEventsString s"
  "decode_stamp v = Some s \<Longrightarrow> Rfc3339Timestamp s \<and> utf8_ok s" "decode_uri_reference v = Some s \<Longrightarrow> CloudEventsUriReference s \<and> utf8_ok s"
  by (auto simp: decode_identifier_def decode_text_def decode_stamp_def decode_uri_reference_def decode_simps as_str_utf8)

lemma decoded_identifiers: "decode_unique lo hi decode_identifier v = Some xs \<Longrightarrow> list_all EventIdentifier xs \<and> distinct xs"
  using decoded_checks(1) map_o_source[of decode_identifier]
  by (fastforce simp: decode_unique_def decode_array_def decode_simps length_card_set_distinct list_all_iff)

end
