(* ===== verification/Store_Samples.thy ===== *)
theory Store_Samples
  imports Drafts Samples
begin

text \<open>
  A concrete environment, an empty store and drafts, on which the theorems about the store
  and about the components that append to it are instantiated.
\<close>

definition sample_env :: env where
  "sample_env = \<lparr>env_sha = (\<lambda>_. replicate 64 48), env_float = FFin, env_json_valid = (\<lambda>_. True)\<rparr>"

definition sample_clock :: pydatetime where
  "sample_clock = Aware \<lparr>t_year = 2026, t_month = 1, t_day = 2, t_hour = 3, t_minute = 4, t_second = 5, t_micro = 6\<rparr>"

definition empty_store :: "env \<Rightarrow> store" where
  "empty_store env = \<lparr>db_report = \<lparr>db_application_id = APPLICATION_ID, db_user_version = SCHEMA_VERSION,
       db_definitions = EXPECTED_SCHEMA_DEFINITIONS, db_migrations = expected_migration_history (env_sha env),
       db_quick_check = U ''ok'', db_integrity_check = [U ''ok'']\<rparr>,
     db_events = [], db_checkpoint = None, db_run_projections = [], db_spec_revisions = [],
     db_artifacts = [], db_artifact_links = [], writable = True\<rparr>"

lemma sample_env_ok: "env_ok sample_env" "sqlite_accepts sample_env"
  by (simp_all add: env_ok_def sample_env_def lower_hex_def list_all_iff sqlite_accepts_def)

lemma sample_clock_ok: "clock_ok sample_clock" "sample_clock \<noteq> Naive"
  by (simp_all add: clock_ok_def sample_clock_def utc_ok_def datetime_ok_def days_in_month_def)

lemma empty_store_ok: "store_inv env (empty_store env)" "report_ok env (empty_store env)" "writable (empty_store env)"
  by (simp_all add: store_inv_def empty_store_def stream_rows_def report_ok_def verify_schema_def same_dict_iff
    check_r_def Let_def)

definition actor_document :: "actor_kind option \<Rightarrow> pyval" where
  "actor_document kind = PyDict ((KStr (U ''id''), PyStr (U ''a''))
     # (case kind of None \<Rightarrow> [] | Some k \<Rightarrow> [(KStr (U ''kind''), PyStr (kind_text k))]))"

definition draft_for :: "pystr option \<Rightarrow> actor_kind option \<Rightarrow> pystr \<Rightarrow> nat \<Rightarrow> pystr option \<Rightarrow> pyval \<Rightarrow> pydict" where
  "draft_for run kind t i attempt payload =
     [(KStr (U ''specversion''), PyStr (U ''1.0'')), (KStr (U ''id''), PyStr (digits_of i)),
      (KStr (U ''source''), PyStr (U ''/r'')), (KStr (U ''type''), PyStr t),
      (KStr (U ''time''), PyStr (U ''2026-01-02T03:04:05Z'')), (KStr (U ''subject''), PyStr (U ''s'')),
      (KStr (U ''dataschema''), PyStr RESEARCH_EVENT_SCHEMA_ID),
      (KStr (U ''datacontenttype''), PyStr (U ''application/json'')),
      (KStr (U ''data''), PyDict
         [(KStr (U ''schemaVersion''), PyStr (U ''v0alpha1'')),
          (KStr (U ''actor''), actor_document kind),
          (KStr (U ''projectId''), PyStr (U ''p'')), (KStr (U ''experimentRevision''), PyInt 1),
          (KStr (U ''runId''), dump_opt PyStr run), (KStr (U ''attemptId''), dump_opt PyStr attempt),
          (KStr (U ''payload''), payload), (KStr (U ''evidenceRefs''), PyList [])]),
      (KStr (U ''streamid''), PyStr (U ''st''))]"

abbreviation draft_by :: "actor_kind option \<Rightarrow> pystr \<Rightarrow> nat \<Rightarrow> pystr option \<Rightarrow> pyval \<Rightarrow> pydict" where
  "draft_by \<equiv> draft_for (Some (U ''r''))"

abbreviation sample_draft :: "pystr \<Rightarrow> nat \<Rightarrow> pystr option \<Rightarrow> pyval \<Rightarrow> pydict" where
  "sample_draft \<equiv> draft_by None"

definition drafted_for :: "pystr option \<Rightarrow> actor_kind option \<Rightarrow> pystr \<Rightarrow> nat \<Rightarrow> pystr option \<Rightarrow> pyval \<Rightarrow> research_event" where
  "drafted_for run kind t i attempt payload =
     (let e = sample_event_by kind t i attempt payload in
      e\<lparr>e_sequence := str_int 1, e_streamversion := 0, e_data := (e_data e)\<lparr>ed_run_id := run\<rparr>\<rparr>)"

abbreviation drafted_by :: "actor_kind option \<Rightarrow> pystr \<Rightarrow> nat \<Rightarrow> pystr option \<Rightarrow> pyval \<Rightarrow> research_event" where
  "drafted_by \<equiv> drafted_for (Some (U ''r''))"

abbreviation drafted_event :: "pystr \<Rightarrow> nat \<Rightarrow> pystr option \<Rightarrow> pyval \<Rightarrow> research_event" where
  "drafted_event \<equiv> drafted_by None"

lemma digits_utf8 [simp]: "utf8_ok (digits_of n)"
  by (rule ascii_utf8) (simp add: ascii_digits digits_of_digit)

lemma decode_sample_actor: "decode_actor (actor_document kind) = Some (sample_actor kind)"
proof -
  have "EventIdentifier (U ''a'')" by code_simp
  then show ?thesis
    by (cases kind; simp; cases "the kind")
      (simp_all add: actor_document_def sample_actor_def kind_text_def decode_actor_def req_field_def opt_field_def
        only_keys_def List.member_iff event_actor_valid_def check_o_def nullable_of_def actor_kind_of_def)
qed

lemma drafted_event_valid:
  assumes "EventIdentifier t" "1 \<le> i" "i \<le> 2147483647" "pred_option EventIdentifier attempt"
    "require_event_payload payload" "pred_option EventIdentifier run"
  shows "research_event_valid (drafted_for run kind t i attempt payload)"
proof -
  have "SequenceIntegerString (str_int 1)" "StreamVersion 0" by code_simp+
  with sample_event_by_valid[OF assms(1-5), of kind] assms(6) show ?thesis
    by (simp add: research_event_valid_def drafted_for_def Let_def event_data_valid_def)
qed

lemma validate_draft_for:
  assumes "EventIdentifier t" "1 \<le> i" "i \<le> 2147483647" "pred_option EventIdentifier attempt"
    "require_event_payload payload" "utf8_ok t" "pred_option utf8_ok attempt"
    "pred_option EventIdentifier run" "pred_option utf8_ok run"
  shows "validate_event_document (PyDict (allocate 1 0 (draft_for run kind t i attempt payload)))
    = Some (drafted_for run kind t i attempt payload)"
proof -
  have p: "decode_payload payload = Some payload"
    using assms(5) by (cases payload) (auto simp: decode_payload_def require_event_payload_def)
  have a: "nullable_of as_str (dump_opt PyStr attempt) = Some attempt"
    using assms(7) by (intro nullable_dump_opt) (auto simp: pred_option_def)
  have r: "nullable_of as_str (dump_opt PyStr run) = Some run"
    using assms(9) by (intro nullable_dump_opt) (auto simp: pred_option_def)
  have v: "research_event_valid (drafted_for run kind t i attempt payload)" by (rule drafted_event_valid[OF assms(1-5,8)])
  then have d: "event_data_valid \<lparr>ed_schema_version = U ''v0alpha1'',
        ed_actor = sample_actor kind,
        ed_project_id = U ''p'', ed_experiment_revision = 1, ed_run_id = run,
        ed_attempt_id = attempt, ed_block_id = None, ed_payload = payload, ed_evidence_refs = []\<rparr>"
    by (simp add: drafted_for_def sample_event_by_def Let_def sample_event_def research_event_valid_def)
  have data: "decode_event_data (PyDict
         [(KStr (U ''schemaVersion''), PyStr (U ''v0alpha1'')),
          (KStr (U ''actor''), actor_document kind),
          (KStr (U ''projectId''), PyStr (U ''p'')), (KStr (U ''experimentRevision''), PyInt 1),
          (KStr (U ''runId''), dump_opt PyStr run), (KStr (U ''attemptId''), dump_opt PyStr attempt),
          (KStr (U ''payload''), payload), (KStr (U ''evidenceRefs''), PyList [])])
     = Some (e_data (drafted_for run kind t i attempt payload))"
    using d by (simp add: decode_event_data_def req_field_def opt_field_def only_keys_def List.member_iff
      decode_sample_actor p a r check_o_def drafted_for_def sample_event_by_def Let_def sample_event_def)
  have s: "utf8_ok RESEARCH_EVENT_SCHEMA_ID" by (simp add: RESEARCH_EVENT_SCHEMA_ID_def)
  show ?thesis using v assms(6)
    by (simp add: validate_event_document_def draft_for_def allocate_def dict_update_def req_field_def opt_field_def
      only_keys_def List.member_iff data check_o_def s str_int_utf8)
      (simp add: drafted_for_def sample_event_by_def Let_def sample_event_def)
qed

lemma validate_sample_draft:
  assumes "EventIdentifier t" "1 \<le> i" "i \<le> 2147483647" "pred_option EventIdentifier attempt"
    "require_event_payload payload" "utf8_ok t" "pred_option utf8_ok attempt"
  shows "validate_event_document (PyDict (allocate 1 0 (draft_by kind t i attempt payload)))
    = Some (drafted_by kind t i attempt payload)"
proof -
  have "EventIdentifier (U ''r'')" by code_simp
  then show ?thesis using assms by (intro validate_draft_for) simp_all
qed

lemma sample_draft_ok:
  assumes "keys_distinct payload" "floats_ok (env_float env) payload"
  shows "draft_ok env (PyDict (draft_for run kind t i attempt payload))"
  using assms by (cases attempt; cases kind; cases run) (simp_all add: draft_ok_def draft_for_def dump_opt_def actor_document_def)

lemma sample_draft_unassigned: "no_assigned_fields (draft_for run kind t i attempt payload)"
  by (simp add: no_assigned_fields_def STORE_ASSIGNED_FIELDS_def dict_has_def draft_for_def)

text \<open>A first event.\<close>

lemma no_rows:
  assumes "db_events s = []"
  shows "facts env s = []" "last_sequence s = 0" "last_stream_version sid s = - 1" "id_fresh s i"
  using assms by (simp_all add: facts_def last_sequence_def last_stream_version_def id_fresh_def max_or_def)

lemma facts_empty [simp]: "facts env (empty_store env) = []" "last_sequence (empty_store env) = 0"
  "last_stream_version sid (empty_store env) = - 1" "id_fresh (empty_store env) i" "db_events (empty_store env) = []"
  by (simp_all add: no_rows empty_store_def)

lemma first_draft_accepted:
  assumes "EventIdentifier t" "1 \<le> i" "i \<le> 2147483647" "pred_option EventIdentifier attempt"
    "require_event_payload payload" "utf8_ok t" "pred_option utf8_ok attempt"
    "pred_option EventIdentifier run" "pred_option utf8_ok run"
    "keys_distinct payload" "floats_ok FFin payload" "h = None \<or> h = Some 0"
    "store_inv sample_env s" "db_events s = []" "writable s"
  shows "is_ok (append_checked sample_env sample_clock (PyDict (draft_for run kind t i attempt payload)) h s)"
proof -
  obtain u where u: "sample_clock = Aware u" using sample_clock_ok(2) by (cases sample_clock) auto
  have "draft_ok sample_env (PyDict (draft_for run kind t i attempt payload))"
    by (rule sample_draft_ok) (use assms in \<open>simp_all add: sample_env_def\<close>)
  then show ?thesis
    using append_checked_iff[OF assms(13) sample_env_ok _ u, of "draft_for run kind t i attempt payload" h]
      validate_draft_for[OF assms(1-9), of kind] assms(12,15) sample_draft_unassigned no_rows[OF assms(14)]
    by (simp add: CLOUD_EVENTS_INTEGER_MAX_def)
qed

lemma first_event_accepted:
  assumes "EventIdentifier t" "1 \<le> i" "i \<le> 2147483647" "pred_option EventIdentifier attempt"
    "require_event_payload payload" "utf8_ok t" "pred_option utf8_ok attempt"
    "keys_distinct payload" "floats_ok FFin payload" "h = None \<or> h = Some 0"
    "store_inv sample_env s" "db_events s = []" "writable s"
  shows "is_ok (append_checked sample_env sample_clock (PyDict (draft_by kind t i attempt payload)) h s)"
proof -
  have "EventIdentifier (U ''r'')" by code_simp
  then show ?thesis using assms by (intro first_draft_accepted) simp_all
qed

lemma empty_store_accepts:
  assumes "EventIdentifier t" "1 \<le> i" "i \<le> 2147483647" "pred_option EventIdentifier attempt"
    "require_event_payload payload" "utf8_ok t" "pred_option utf8_ok attempt"
    "keys_distinct payload" "floats_ok FFin payload" "h = None \<or> h = Some 0"
  shows "is_ok (append_checked sample_env sample_clock (PyDict (draft_by kind t i attempt payload)) h (empty_store sample_env))"
  by (rule first_event_accepted[OF assms empty_store_ok(1) _ empty_store_ok(3)]) simp

lemma sample_clock_aware: obtains u where "sample_clock = Aware u"
  using sample_clock_ok(2) by (cases sample_clock) auto

text \<open>A request document with the fields that most request classes share.\<close>

definition sample_identity :: pyval where
  "sample_identity = PyDict [(KStr (U ''id''), PyStr (U ''1'')), (KStr (U ''time''), PyStr (U ''2026-01-02T03:04:05Z''))]"

definition request_sample :: "string \<Rightarrow> actor_kind option \<Rightarrow> pydict \<Rightarrow> pyval" where
  "request_sample kind actor rest = PyDict ([(KStr (U ''apiVersion''), PyStr (U ''researchos.dev/v0alpha1'')),
     (KStr (U ''kind''), PyStr (U kind)), (KStr (U ''projectId''), PyStr (U ''p'')), (KStr (U ''experimentRevision''), PyInt 1),
     (KStr (U ''source''), PyStr (U ''/r'')), (KStr (U ''subject''), PyStr (U ''s'')), (KStr (U ''streamid''), PyStr (U ''st'')),
     (KStr (U ''actor''), actor_document actor), (KStr (U ''event''), sample_identity), (KStr (U ''evidenceRefs''), PyList [])] @ rest)"

end
