(* ===== verification/Store_Theorems.thy ===== *)
theory Store_Theorems
  imports Store_Samples
begin

text \<open>
  The properties of the event store, each with an instance on the empty store.
\<close>

definition sample_append :: "store \<times> (store_error + stored_event)" where
  "sample_append = append_store sample_env sample_clock
     (PyDict (sample_draft (U ''run.started'') 7 None no_payload)) (Some 0) (empty_store sample_env)"

lemma sample_payload: "keys_distinct no_payload" "floats_ok pf no_payload"
  by (simp_all add: no_payload_def)

lemma run_started_identifier: "EventIdentifier (U ''run.started'')" by code_simp

lemma sample_append_succeeds:
  obtains s st where "sample_append = (s, Inr st)"
    "append_checked sample_env sample_clock (PyDict (sample_draft (U ''run.started'') 7 None no_payload)) (Some 0)
      (empty_store sample_env) = Inr (s, st)"
proof -
  have "is_ok (append_checked sample_env sample_clock (PyDict (sample_draft (U ''run.started'') 7 None no_payload)) (Some 0)
      (empty_store sample_env))"
    by (rule empty_store_accepts) (simp_all add: run_started_identifier no_payload_ok sample_payload)
  then obtain p where p: "append_checked sample_env sample_clock (PyDict (sample_draft (U ''run.started'') 7 None no_payload)) (Some 0)
      (empty_store sample_env) = Inr p" by (auto simp: is_ok_iff)
  with that[of "fst p" "snd p"] show ?thesis by (cases p) (simp add: sample_append_def append_store_def)
qed

lemma sample_draft_good: "draft_ok sample_env (PyDict (sample_draft (U ''run.started'') 7 None no_payload))"
  by (rule sample_draft_ok) (simp_all add: sample_payload)

text \<open>C37: Writing a document with \<open>legacy_canonical_json\<close> and reading it back with \<open>json.loads\<close> gives the
  same document with its keys sorted; so two documents with the same stored text differ only in the
  order of keys.  The document holds each key once, and \<open>float(repr(x)) == x\<close> for its floats.\<close>

theorem canonical_json_roundtrip:
  assumes "legacy_canonical_json v = Some t" "keys_distinct v" "floats_ok pf v"
  shows "json_loads pf t = Some (norm v) \<and> legacy_canonical_json (norm v) = Some t"
  using assms legacy_canonical_json_norm[OF assms(1)]
  by (auto simp: legacy_canonical_json_def Option.bind_eq_Some_conv json_loads_render)

theorem canonical_json_roundtrip_witness:
  "json_loads FFin (U ''{\"a\":[1,2.5],\"b\":null}'') =
     Some (norm (PyDict [(KStr (U ''b''), PyNone), (KStr (U ''a''), PyList [PyInt 1, PyFloat (FFin (U ''2.5''))])]))"
proof -
  let ?v = "PyDict [(KStr (U ''b''), PyNone), (KStr (U ''a''), PyList [PyInt 1, PyFloat (FFin (U ''2.5''))])]"
  have "legacy_canonical_json ?v = Some (U ''{\"a\":[1,2.5],\"b\":null}'')" by code_simp
  moreover have "keys_distinct ?v" by simp
  moreover have "floats_ok FFin ?v" by code_simp
  ultimately show ?thesis using canonical_json_roundtrip[of ?v] by blast
qed



text \<open>C32: A committed append adds one row at the end, numbered one past the head; the row reads back, by
  its id too, as the event that was returned with the keys of its payload sorted; the caller's head, if
  given, was the current one; and the invariant of the store is kept.  A refused append changes nothing.\<close>

theorem append_effect:
  assumes "store_inv env s" "draft_ok env document" "clock_ok now" "append_store env now document h s = (s', r)"
  shows "store_inv env s' \<and>
    (case r of
       Inl e \<Rightarrow> s' = s
     | Inr st \<Rightarrow> (\<exists>row. db_events s' = db_events s @ [row] \<and> row_sequence row = last_sequence s + 1
         \<and> stored_event_from_row env row = Inr (st\<lparr>st_event := norm_event (st_event st)\<rparr>)
         \<and> get_event env (e_id (st_event st)) s' = Inr (Some (st\<lparr>st_event := norm_event (st_event st)\<rparr>)))
         \<and> (h = None \<or> h = Some (last_sequence s)))"
proof (cases r)
  case (Inl e)
  with assms(1,4) show ?thesis by (simp add: append_store_Inl)
next
  case (Inr st)
  with assms(4) have a: "append_checked env now document h s = Inr (s', st)" by (simp add: append_store_Inr)
  have inv: "store_inv env s'" using append_store_inv[OF assms(1-3), of h] assms(4) by simp
  from append_committed[OF a assms(1-3)] obtain row where row: "db_events s' = db_events s @ [row]"
    "row_sequence row = last_sequence s + 1"
    "stored_event_from_row env row = Inr (st\<lparr>st_event := norm_event (st_event st)\<rparr>)"
    "h = None \<or> h = Some (last_sequence s)" by metis
  have i: "row_event_id row = e_id (st_event st)" using stored_row_columns(3)[OF row(3)] by (simp add: norm_event_def)
  have "find_first (\<lambda>q. row_event_id q = row_event_id row) (db_events s') = Some row"
    by (rule find_event_id) (use inv row(1) in \<open>simp_all add: store_inv_def\<close>)
  with row(3) i have "get_event env (e_id (st_event st)) s' = Inr (Some (st\<lparr>st_event := norm_event (st_event st)\<rparr>))"
    by (simp add: get_event_def)
  with inv row Inr show ?thesis by auto
qed

theorem append_effect_witness:
  "\<exists>s st row. sample_append = (s, Inr st) \<and> store_inv sample_env s \<and> db_events s = [row] \<and> row_sequence row = 1
     \<and> get_event sample_env (e_id (st_event st)) s = Inr (Some (st\<lparr>st_event := norm_event (st_event st)\<rparr>))"
proof (rule sample_append_succeeds)
  fix s st assume a: "sample_append = (s, Inr st)"
  then have "append_store sample_env sample_clock
     (PyDict (sample_draft (U ''run.started'') 7 None no_payload)) (Some 0) (empty_store sample_env) = (s, Inr st)"
    by (simp add: sample_append_def)
  from append_effect[OF empty_store_ok(1) sample_draft_good sample_clock_ok(1) this] a show ?thesis
    by (auto simp: empty_store_def last_sequence_def max_or_def)
qed

text \<open>C3: The store is append-only: whatever a history of append calls does, accepted or refused, the
  facts that were in the log before stay its prefix, in place and in content.\<close>

theorem append_only_history:
  assumes "store_inv env s" "list_all (\<lambda>((now, document), h). draft_ok env document \<and> clock_ok now) cs"
  shows "prefix (facts env s) (facts env (foldl (\<lambda>s ((now, document), h). fst (append_store env now document h s)) s cs))"
proof -
  have "foldl (\<lambda>s ((now, document), h). fst (append_store env now document h s)) s cs = store_log.calls env s cs"
    unfolding store_log.calls_def by (rule foldl_cong) (auto simp: call_append_def)
  moreover have "list_all (\<lambda>(d, _). good_call env d) cs"
    using assms(2) by (auto simp: list_all_iff good_call_def)
  ultimately show ?thesis using store_log.calls_prefix[OF assms(1)] by metis
qed

theorem append_only_history_witness:
  "prefix (facts sample_env (empty_store sample_env)) (facts sample_env (fst sample_append))"
  using append_only_history[OF empty_store_ok(1), of sample_env
      "[((sample_clock, PyDict (sample_draft (U ''run.started'') 7 None no_payload)), Some 0)]"]
    sample_draft_good sample_clock_ok(1) by (simp add: sample_append_def)

text \<open>C28: Two writers that read the same head exclude each other: after one of them has committed with
  that head as its precondition, the other's append with the same head is refused, whatever other
  writers did in between, and changes nothing.\<close>

theorem same_head_writers_exclusive:
  assumes "store_inv env s" "draft_ok env d1" "clock_ok n1" "append_store env n1 d1 (Some h) s = (s1, Inr r1)"
    "list_all (\<lambda>((now, document), h). draft_ok env document \<and> clock_ok now) cs" "draft_ok env d2" "clock_ok n2"
  shows "\<exists>e. append_store env n2 d2 (Some h)
      (foldl (\<lambda>s ((now, document), h). fst (append_store env now document h s)) s1 cs)
    = (foldl (\<lambda>s ((now, document), h). fst (append_store env now document h s)) s1 cs, Inl e)"
proof -
  let ?s2 = "foldl (\<lambda>s ((now, document), h). fst (append_store env now document h s)) s1 cs"
  have c: "?s2 = store_log.calls env s1 cs"
    unfolding store_log.calls_def by (rule foldl_cong) (auto simp: call_append_def)
  have "list_all (\<lambda>(d, _). good_call env d) cs" using assms(5) by (auto simp: list_all_iff good_call_def)
  then obtain e where "snd (call_append env ?s2 (n2, d2) (Some h)) = Inl e"
    using store_log.same_head_exclusive[OF assms(1), of "(n1, d1)" h s1 r1 cs "(n2, d2)"] assms
    by (auto simp: good_call_def call_append_def c)
  moreover obtain s3 r where "append_store env n2 d2 (Some h) ?s2 = (s3, r)" by fastforce
  ultimately show ?thesis by (auto simp: call_append_def append_store_Inl)
qed

theorem same_head_writers_exclusive_witness:
  "\<exists>e. append_store sample_env sample_clock (PyDict (sample_draft (U ''run.started'') 8 None no_payload)) (Some 0)
     (fst sample_append) = (fst sample_append, Inl e)"
proof (rule sample_append_succeeds)
  fix s st assume a: "sample_append = (s, Inr st)"
  have d: "draft_ok sample_env (PyDict (sample_draft (U ''run.started'') 8 None no_payload))"
    by (rule sample_draft_ok) (simp_all add: sample_payload)
  from same_head_writers_exclusive[OF empty_store_ok(1) sample_draft_good sample_clock_ok(1) a[unfolded sample_append_def],
      of "[]", OF _ d sample_clock_ok(1)]
  show ?thesis unfolding a fst_conv by simp
qed




text \<open>The high-water mark does not depend on what the checkpoint row says: on a store whose facts are
  intact, whatever checkpoint is remembered (none, stale, or made up), freezing returns the number of
  events and changes no fact.\<close>

lemma high_water_any_checkpoint:
  assumes "store_inv env s" "report_ok env s" "env_ok env" "now \<noteq> Naive"
  shows "\<exists>s'. freeze_high_water env now (s\<lparr>db_checkpoint := c\<rparr>) = Inr (s', int (length (db_events s)))
    \<and> db_events s' = db_events s"
proof -
  let ?s = "s\<lparr>db_checkpoint := c\<rparr>"
  have i: "store_inv env ?s" using assms(1) store_inv_cong[of ?s s env] by simp
  have "report_ok env ?s" using assms(2) by (simp add: report_ok_def verify_schema_def)
  then obtain s' n where f: "freeze_high_water env now ?s = Inr (s', n)"
    using freeze_total[OF assms(3,4) i] by (auto simp: is_ok_iff)
  with freeze_effect[OF f assms(3,4) i] show ?thesis by simp
qed

theorem high_water_any_checkpoint_witness:
  "\<exists>s'. freeze_high_water sample_env sample_clock ((empty_store sample_env)\<lparr>db_checkpoint :=
      Some \<lparr>ck_high_water = 5, ck_last_event_digest = None, ck_schema_digest = [], ck_verified_event_count = 5,
        ck_recorded_at = []\<rparr>\<rparr>) = Inr (s', 0)"
  using high_water_any_checkpoint[OF empty_store_ok(1,2) sample_env_ok(1) sample_clock_ok(2)]
  by (fastforce simp: empty_store_def)

text \<open>A row that reads back has nothing left to choose: its digest is the SHA-256 of its JSON text,
  that text is the canonical form of the document it decodes to, and every index column is the
  event's.  So a change of any column but \<open>recorded_at\<close> on its own is refused.\<close>

lemma row_is_determined:
  assumes "stored_event_from_row env r = Inr e"
  shows "r = row_of_event (st_event e) (stored_sequence e) (st_recorded_at e) (row_event_json r)
      (LEGACY_SHA256_PREFIX @ env_sha env (row_event_json r))
    \<and> (\<exists>document. json_loads (env_float env) (row_event_json r) = Some document
        \<and> legacy_canonical_json document = Some (row_event_json r)
        \<and> validate_event_document document = Some (st_event e))
    \<and> (\<forall>r' e'. stored_event_from_row env r' = Inr e' \<and> row_event_json r' = row_event_json r
        \<and> row_recorded_at r' = row_recorded_at r \<longrightarrow> r' = r)"
proof (intro conjI allI impI)
  have d: "\<exists>d. decode_stored env (row_event_json q) = Some (d, st_event x)"
    if "stored_event_from_row env q = Inr x" for q x
    using stored_event_from_rowD(3)[OF that] by blast
  have r: "q = row_of_event (st_event x) (stored_sequence x) (st_recorded_at x) (row_event_json q)
      (LEGACY_SHA256_PREFIX @ env_sha env (row_event_json q))" if "stored_event_from_row env q = Inr x" for q x
    using stored_event_from_rowD(1,2)[OF that] by simp
  show "r = row_of_event (st_event e) (stored_sequence e) (st_recorded_at e) (row_event_json r)
      (LEGACY_SHA256_PREFIX @ env_sha env (row_event_json r))" by (rule r[OF assms])
  show "\<exists>document. json_loads (env_float env) (row_event_json r) = Some document
        \<and> legacy_canonical_json document = Some (row_event_json r)
        \<and> validate_event_document document = Some (st_event e)"
    using d[OF assms] by (auto simp: decode_stored_def Option.bind_eq_Some_conv)
  fix r' e' assume a: "stored_event_from_row env r' = Inr e' \<and> row_event_json r' = row_event_json r
        \<and> row_recorded_at r' = row_recorded_at r"
  have "st_event e' = st_event e" using d[OF assms] d[of r' e'] a by auto
  moreover have rec: "st_recorded_at x = row_recorded_at q" if "stored_event_from_row env q = Inr x" for q x
    using that by (auto simp: stored_event_from_row_def result_simps)
  moreover have "st_recorded_at e' = st_recorded_at e" using a assms rec[of r e] rec[of r' e'] by simp
  ultimately have "row_of_event (st_event e') (stored_sequence e') (st_recorded_at e') (row_event_json r')
      (LEGACY_SHA256_PREFIX @ env_sha env (row_event_json r'))
    = row_of_event (st_event e) (stored_sequence e) (st_recorded_at e) (row_event_json r)
      (LEGACY_SHA256_PREFIX @ env_sha env (row_event_json r))" using a by (simp add: stored_sequence_def)
  then show "r' = r" using r[OF assms] r[of r' e'] a by argo
qed

theorem row_is_determined_witness:
  "\<exists>r e. db_events (fst sample_append) = [r] \<and> stored_event_from_row sample_env r = Inr e
     \<and> (\<forall>r' e'. stored_event_from_row sample_env r' = Inr e' \<and> row_event_json r' = row_event_json r
        \<and> row_recorded_at r' = row_recorded_at r \<longrightarrow> r' = r)"
proof (rule sample_append_succeeds)
  fix s st assume a: "sample_append = (s, Inr st)" "append_checked sample_env sample_clock
     (PyDict (sample_draft (U ''run.started'') 7 None no_payload)) (Some 0) (empty_store sample_env) = Inr (s, st)"
  from append_committed[OF a(2) empty_store_ok(1) sample_draft_good sample_clock_ok(1)] obtain r where
    r: "db_events s = db_events (empty_store sample_env) @ [r]"
    "stored_event_from_row sample_env r = Inr (st\<lparr>st_event := norm_event (st_event st)\<rparr>)" by metis
  have "db_events (fst sample_append) = [r]" unfolding a(1) using r(1) by (simp add: empty_store_def)
  then show ?thesis using r(2) row_is_determined[OF r(2)] by blast
qed

text \<open>Opening a new or a version 1 database gives a store that passes the schema check and whose
  first high-water mark is its number of events: the checkpoint of 0 that creation and migration write
  is trusted only where it is true.  Migration leaves the facts alone.\<close>

lemma opened_store_verifies:
  assumes "initialize_or_verify_schema env now allow_create s = Inr s'" "store_inv env s" "env_ok env" "now \<noteq> Naive"
    "db_integrity_check (db_report s) = [U ''ok'']"
  shows "db_events s' = db_events s \<and> verify_schema env s' = Inr ()
    \<and> (\<exists>s''. freeze_high_water env now s' = Inr (s'', int (length (db_events s))))"
proof -
  obtain s1 where s1: "(if db_application_id (db_report s) = 0
          then (if \<not> allow_create
            then Inl (EventStoreSchemaError (U ''database is not an initialized LLM Research OS event store''))
            else create_schema env now s)
          else if db_application_id (db_report s) \<noteq> APPLICATION_ID
          then Inl (EventStoreSchemaError (U ''database is not an LLM Research OS event store''))
          else upgrade_schema env now s) = Inr s1"
      "verify_schema env s1 = Inr ()"
      "(if read_checkpoint s1 = None
      then bind_r (verify_integrity env now s1) (\<lambda>(s2, _). Inr s2)
      else Inr s1) = Inr s'"
    using assms(1) by (auto simp: initialize_or_verify_schema_def Let_def bind_r_Inr_iff)
  have e1: "db_events s1 = db_events s" "db_integrity_check (db_report s1) = [U ''ok'']"
    using s1(1) assms(5) by (auto simp: create_schema_def upgrade_schema_def replace_checkpoint_def Let_def bind_r_Inr_iff
      split: if_splits)
  have "db_events s' = db_events s1 \<and> db_report s' = db_report s1"
  proof (cases "read_checkpoint s1 = None")
    case True
    with s1(3) obtain n where "verify_integrity env now s1 = Inr (s', n)" by (auto simp: bind_r_Inr_iff)
    from verify_integrity_iff(2)[OF assms(3,4) this] show ?thesis by simp
  qed (use s1(3) in auto)
  then have e: "db_events s' = db_events s" "db_report s' = db_report s1" using e1 by auto
  then have v: "verify_schema env s' = Inr ()" using s1(2) by (simp add: verify_schema_def)
  have i: "store_inv env s'" using assms(2) store_inv_cong[OF e(1)] by simp
  have "report_ok env s'" using v e e1 by (simp add: report_ok_def)
  then obtain s2 n where f: "freeze_high_water env now s' = Inr (s2, n)"
    using freeze_total[OF assms(3,4) i] by (auto simp: is_ok_iff)
  with freeze_effect(1)[OF f assms(3,4) i] e v show ?thesis by auto
qed

definition blank_store :: store where
  "blank_store = (empty_store sample_env)\<lparr>db_report := \<lparr>db_application_id = 0, db_user_version = 0,
     db_definitions = [], db_migrations = [], db_quick_check = U ''ok'', db_integrity_check = [U ''ok'']\<rparr>\<rparr>"

theorem opened_store_verifies_witness:
  "\<exists>s'. initialize_or_verify_schema sample_env sample_clock True blank_store = Inr s' \<and> verify_schema sample_env s' = Inr ()"
proof -
  have c: "sql_sha256 (SCHEMA_DEFINITION_DIGEST (env_sha sample_env))" by (rule sql_sha256_schema[OF sample_env_ok(1)])
  have a: "APPLICATION_ID \<noteq> 0" by (simp add: APPLICATION_ID_def)
  obtain s' where i: "initialize_or_verify_schema sample_env sample_clock True blank_store = Inr s'"
    using c a by (simp add: initialize_or_verify_schema_def blank_store_def empty_store_def create_schema_def sample_clock_def
      recorded_timestamp_def check_r_def replace_checkpoint_def checkpoint_check_def verify_schema_def same_dict_iff
      read_checkpoint_def Let_def)
  have "store_inv sample_env blank_store" using empty_store_ok(1) store_inv_cong[of blank_store "empty_store sample_env"]
    by (simp add: blank_store_def)
  from opened_store_verifies[OF i this sample_env_ok(1) sample_clock_ok(2)] i show ?thesis
    by (simp add: blank_store_def)
qed

end
