(* ===== verification/Control_Theorems.thy ===== *)
theory Control_Theorems
  imports Run_Control Store_Theorems
begin

text \<open>
  What a replay yields and what \<open>RunControl\<close> promises: the properties of \<open>projections/replay.py\<close> and
  \<open>runs/control.py\<close>, each with a concrete instance.
\<close>

section \<open>Replays of any store\<close>

lemma yield_page_contiguous:
  "yield_page until expected page = (ys, end_of_page) \<Longrightarrow>
     (\<forall>i < length ys. stored_sequence (ys ! i) = expected + int i)
     \<and> (\<forall>e. end_of_page = Continue e \<longrightarrow> e = expected + int (length ys))
     \<and> (\<forall>u. until = Some u \<longrightarrow> (\<forall>y\<in>set ys. stored_sequence y \<le> u)
          \<and> (end_of_page = Stop \<longrightarrow> expected + int (length ys) > u)
          \<and> (\<forall>e. end_of_page = Continue e \<longrightarrow> e - 1 \<le> max u (expected - 1)))"
proof (induction until expected page arbitrary: ys rule: yield_page.induct)
  case (2 until expected stored page)
  show ?case
  proof (cases "stored_sequence stored = expected \<and> \<not> (case until of None \<Rightarrow> False | Some u \<Rightarrow> stored_sequence stored > u)")
    case True
    then obtain zs where zs: "yield_page until (expected + 1) page = (zs, end_of_page)" "ys = stored # zs"
      using 2(2) by (auto simp: Let_def split: prod.splits)
    have ih: "(\<forall>i < length zs. stored_sequence (zs ! i) = expected + 1 + int i)
     \<and> (\<forall>e. end_of_page = Continue e \<longrightarrow> e = expected + 1 + int (length zs))
     \<and> (\<forall>u. until = Some u \<longrightarrow> (\<forall>y\<in>set zs. stored_sequence y \<le> u)
          \<and> (end_of_page = Stop \<longrightarrow> expected + 1 + int (length zs) > u)
          \<and> (\<forall>e. end_of_page = Continue e \<longrightarrow> e - 1 \<le> max u (expected + 1 - 1)))"
      using "2.IH"[OF refl, of zs] True zs(1) by auto
    have "stored_sequence (ys ! i) = expected + int i" if "i < length ys" for i
      using that ih True zs(2) by (cases i) auto
    then show ?thesis using ih True zs(2) by auto
  next
    case False
    then show ?thesis using 2(2) by (auto simp: Let_def split: if_splits option.splits)
  qed
qed auto

lemma contiguous_bound:
  assumes "\<forall>i < length ys. stored_sequence (ys ! i) = c + 1 + int i" "\<forall>y\<in>set ys. stored_sequence y \<le> u" "c \<le> u"
  shows "int (length ys) \<le> u - c"
proof (cases "length ys")
  case (Suc k)
  then have "stored_sequence (ys ! k) = c + 1 + int k" using assms(1) by simp
  moreover have "ys ! k \<in> set ys" using Suc by simp
  then have "stored_sequence (ys ! k) \<le> u" using assms(2) by blast
  ultimately show ?thesis using Suc by simp
qed (use assms(3) in simp)

lemma iter_contiguous:
  assumes "iter_stored_events env p until (c + 1) c s = (ys, err)"
  shows "(\<forall>i < length ys. stored_sequence (ys ! i) = c + 1 + int i)
    \<and> (\<forall>u. until = Some u \<longrightarrow> c \<le> u \<longrightarrow> int (length ys) \<le> u - c \<and> (err = None \<longrightarrow> int (length ys) = u - c))"
  using assms
proof (induction env p until "c + 1" c s arbitrary: ys err rule: iter_stored_events.induct)
  case (1 env p until c s)
  let ?done = "case until of None \<Rightarrow> False | Some u \<Rightarrow> c \<ge> u"
  note eq = iter_stored_events.simps[of env p until "c + 1" c s]
  show ?case
  proof (cases ?done)
    case True
    then show ?thesis using 1(2) eq by (auto split: option.splits)
  next
    case notdone: False
    show ?thesis
    proof (cases "read_events env (page_of c p) s")
      case (Inl e)
      then show ?thesis using 1(2) eq notdone by auto
    next
      case (Inr page)
      show ?thesis
      proof (cases page)
        case Nil
        then show ?thesis using 1(2) eq notdone Inr by (auto split: option.splits if_splits)
      next
        case (Cons q qs)
        obtain zs end_of_page where y: "yield_page until (c + 1) (q # qs) = (zs, end_of_page)" by fastforce
        note yc = yield_page_contiguous[OF y]
        show ?thesis
        proof (cases end_of_page)
          case (Continue e)
          obtain ws err' where w: "iter_stored_events env p until e (e - 1) s = (ws, err')" by fastforce
          have e: "e = c + 1 + int (length zs)" using yc Continue by simp
          have ys: "ys = zs @ ws" "err = err'" using 1(2) eq notdone Inr Cons y Continue w by auto
          have ih: "(\<forall>i < length ws. stored_sequence (ws ! i) = e + int i)
            \<and> (\<forall>u. until = Some u \<longrightarrow> e - 1 \<le> u \<longrightarrow> int (length ws) \<le> u - (e - 1) \<and> (err' = None \<longrightarrow> int (length ws) = u - (e - 1)))"
            using 1(1)[OF _ notdone Inr Cons y[symmetric] Continue, of ws err'] w by simp
          have "stored_sequence (ys ! i) = c + 1 + int i" if "i < length ys" for i
            using that yc ih ys(1) e by (cases "i < length zs") (auto simp: nth_append)
          moreover have "e - 1 \<le> u" if "until = Some u" for u
            using yc Continue that notdone by (auto simp: max_def split: if_splits)
          ultimately show ?thesis using ih e ys by auto
        next
          case Stop
          then have "ys = zs" "err = None" using 1(2) eq notdone Inr Cons y by auto
          moreover have "int (length zs) \<le> u - c" if "until = Some u" "c \<le> u" for u
            using yc that by (intro contiguous_bound) auto
          ultimately show ?thesis using yc Stop by fastforce
        next
          case (Fail e)
          then have "ys = zs" "err = Some e" using 1(2) eq notdone Inr Cons y by auto
          moreover have "int (length zs) \<le> u - c" if "until = Some u" "c \<le> u" for u
            using yc that by (intro contiguous_bound) auto
          ultimately show ?thesis using yc by fastforce
        qed
      qed
    qed
  qed
qed

section \<open>When an append succeeds\<close>

text \<open>What holds when the store is asked.\<close>

lemma run_append_asked:
  assumes "env_ok env" "now \<noteq> Naive" "store_inv env s" "report_ok env s" "page_size_ok (rc_page_size c)"
    "grows env others" "grows env others'"
  obtains s2 where "store_inv env (others' s2)" "prefix (facts env s) (facts env (others' s2))"
    "s2 = fst (rebuild env now others c s)" "writable (others' s2) = writable s"
    "run_append env now now' others others' c document expected s =
      (case fold_run (rc_projection c) None (facts env s) of
         Inl e \<Rightarrow> (s2, Inl (RunFailed e))
       | Inr snap \<Rightarrow>
           (let head = \<lparr>rh_last_sequence = int (length (db_events s)), rh_snapshot = snap\<rparr> in
            case run_preflight c head document expected of
              Inl e \<Rightarrow> (s2, Inl e)
            | Inr (cas, d) \<Rightarrow> (case append_store env now' (PyDict d) (Some cas) (others' s2) of
                (s3, Inl e) \<Rightarrow> (s3, Inl (StoreFailed e))
              | (s3, Inr st) \<Rightarrow> run_commit env c head st s3)))"
    "others = id \<and> others' = id \<longrightarrow> db_events (others' s2) = db_events s"
proof -
  obtain s1 s2 n where r: "n = int (length (db_events s))" "db_events s1 = db_events s" "writable s1 = writable s"
    "rebuild env now others c s = (s2, map_sum RunFailed
        (\<lambda>snap. \<lparr>rh_last_sequence = n, rh_snapshot = snap\<rparr>) (fold_run (rc_projection c) None (facts env s)))"
    "same_but_cache (others s1) s2" "store_inv env (others s1)"
    by (rule rebuild_effect[OF assms(1-6)])
  have i1: "store_inv env s1" "facts env s1 = facts env s"
    using assms(3) store_inv_cong[OF r(2)] r(2) by (simp_all add: facts_def)
  have g1: "writable (others s1) = writable s1" "prefix (facts env s1) (facts env (others s1))"
    using assms(6) i1(1) unfolding grows_def by blast+
  have i2: "store_inv env s2" "facts env s2 = facts env (others s1)" "writable s2 = writable s"
    using r(6) by (simp_all only: same_but_cache_facts[OF r(5)] same_but_cacheD(3)[OF r(5)] g1 r(3))
  have g2: "store_inv env (others' s2)" "writable (others' s2) = writable s2" "prefix (facts env s2) (facts env (others' s2))"
    using assms(7) i2(1) unfolding grows_def by blast+
  have "prefix (facts env s) (facts env s2)" using g1(2) i1(2) i2(2) by simp
  moreover note g2(3)
  ultimately have p: "prefix (facts env s) (facts env (others' s2))" by (rule prefix_order.trans)
  have ev: "others = id \<and> others' = id \<longrightarrow> db_events (others' s2) = db_events s"
    using same_but_cacheD(1)[OF r(5)] r(2) by simp
  have g: "writable (others' s2) = writable s" using g2(2) i2(3) by simp
  have eq: "run_append env now now' others others' c document expected s =
      (case fold_run (rc_projection c) None (facts env s) of
         Inl e \<Rightarrow> (s2, Inl (RunFailed e))
       | Inr snap \<Rightarrow>
           (let head = \<lparr>rh_last_sequence = int (length (db_events s)), rh_snapshot = snap\<rparr> in
            case run_preflight c head document expected of
              Inl e \<Rightarrow> (s2, Inl e)
            | Inr (cas, d) \<Rightarrow> (case append_store env now' (PyDict d) (Some cas) (others' s2) of
                (s3, Inl e) \<Rightarrow> (s3, Inl (StoreFailed e))
              | (s3, Inr st) \<Rightarrow> run_commit env c head st s3)))"
    unfolding run_append_def r(4) r(1)
    by (cases "fold_run (rc_projection c) None (facts env s)") (simp_all add: Let_def)
  have "s2 = fst (rebuild env now others c s)" by (simp add: r(4))
  then show ?thesis by (rule that[OF g2(1) p _ g eq ev])
qed

lemma run_append_exact:
  assumes "env_ok env" "sqlite_accepts env" "now \<noteq> Naive" "clock_ok now'" "now' = Aware u" "store_inv env s"
    "report_ok env s" "page_size_ok (rc_page_size c)" "draft_ok env (PyDict d)"
  shows "is_ok (snd (run_append env now now' id id c (PyDict d) expected s)) \<longleftrightarrow>
    writable s \<and> no_assigned_fields d \<and> (expected = None \<or> expected = Some (int (length (facts env s))))
    \<and> int (length (facts env s)) < CLOUD_EVENTS_INTEGER_MAX
    \<and> (\<exists>snap pre snap'. fold_run (rc_projection c) None (facts env s) = Inr snap
        \<and> validate_event_document (PyDict (allocate (int (length (facts env s)) + 1) 0 d)) = Some pre
        \<and> belongs pre (pr_project_id (rc_projection c)) (pr_run_id (rc_projection c))
        \<and> List.member LIFECYCLE_TYPES (e_type pre)
        \<and> run_apply (rc_projection c) snap pre = Inr (Some snap')
        \<and> id_fresh s (e_id pre) \<and> last_stream_version (e_streamid pre) s < CLOUD_EVENTS_INTEGER_MAX)"
    (is "?l \<longleftrightarrow> ?r")
proof -
  let ?n = "int (length (db_events s))"
  obtain s2 where i: "store_inv env (id s2)" "prefix (facts env s) (facts env (id s2))" "writable (id s2) = writable s"
    and eq: "run_append env now now' id id c (PyDict d) expected s =
      (case fold_run (rc_projection c) None (facts env s) of
         Inl e \<Rightarrow> (s2, Inl (RunFailed e))
       | Inr snap \<Rightarrow>
           (let head = \<lparr>rh_last_sequence = ?n, rh_snapshot = snap\<rparr> in
            case run_preflight c head (PyDict d) expected of
              Inl e \<Rightarrow> (s2, Inl e)
            | Inr (cas, d) \<Rightarrow> (case append_store env now' (PyDict d) (Some cas) (id s2) of
                (s3, Inl e) \<Rightarrow> (s3, Inl (StoreFailed e))
              | (s3, Inr st) \<Rightarrow> run_commit env c head st s3)))"
    and "id = id \<and> id = id \<longrightarrow> db_events (id s2) = db_events s"
    by (rule run_append_asked[OF assms(1,3,6-8) grows_id(1) grows_id(1), of now' "PyDict d" expected]) blast
  then have ev: "db_events s2 = db_events s" by simp
  have same: "last_sequence s2 = ?n" "last_stream_version sid s2 = last_stream_version sid s" "id_fresh s2 j = id_fresh s j" for sid j
    using ev store_invD(1)[OF assms(6)] by (simp_all add: last_sequence_def last_stream_version_def id_fresh_def)
  note asked = append_checked_iff[OF i(1)[unfolded id_apply] assms(1,2) assms(9,5)]
  have fresh: "(\<exists>pre1. validate_event_document (PyDict (allocate 1 0 d)) = Some pre1 \<and> id_fresh s (e_id pre1)
        \<and> last_stream_version (e_streamid pre1) s < CLOUD_EVENTS_INTEGER_MAX)
      \<longleftrightarrow> id_fresh s (e_id pre) \<and> last_stream_version (e_streamid pre) s < CLOUD_EVENTS_INTEGER_MAX"
    if v: "validate_event_document (PyDict (allocate (?n + 1) 0 d)) = Some pre" "?n < CLOUD_EVENTS_INTEGER_MAX" for pre
  proof -
    have "0 \<le> CLOUD_EVENTS_INTEGER_MAX" by (simp add: CLOUD_EVENTS_INTEGER_MAX_def)
    then have "map_option (renumber (?n + 1) 0) (validate_event_document (PyDict (allocate 1 0 d))) = Some pre"
      using validate_allocate[of "?n + 1" 0 d] v by simp
    then obtain pre1 where "validate_event_document (PyDict (allocate 1 0 d)) = Some pre1" "pre = renumber (?n + 1) 0 pre1"
      by blast
    then show ?thesis by (simp add: renumber_def)
  qed
  show ?thesis
  proof
    assume ?l
    then obtain r s' where run: "run_append env now now' id id c (PyDict d) expected s = (s', Inr r)"
      by (metis is_ok_iff prod.collapse)
    then obtain snap where fold: "fold_run (rc_projection c) None (facts env s) = Inr snap"
      using eq by (cases "fold_run (rc_projection c) None (facts env s)") auto
    let ?head = "\<lparr>rh_last_sequence = ?n, rh_snapshot = snap\<rparr>"
    obtain cas d' where pre: "run_preflight c ?head (PyDict d) expected = Inr (cas, d')"
      using eq run fold by (cases "run_preflight c ?head (PyDict d) expected") (auto simp: Let_def)
    then have cas: "cas = ?n" "d' = d" using snapshot_json_document_same[of "PyDict d" d'] by (auto simp: run_preflight_iff)
    obtain s3 x where app: "append_store env now' (PyDict d) (Some ?n) s2 = (s3, x)" by fastforce
    then obtain st where "x = Inr st" using eq run fold pre cas by (cases x) (auto simp: Let_def)
    then have "is_ok (append_checked env now' (PyDict d) (Some ?n) s2)" using app by (simp add: append_store_Inr)
    with asked[of "Some ?n"] have store: "writable s" "\<exists>pre. validate_event_document (PyDict (allocate 1 0 d)) = Some pre
        \<and> id_fresh s (e_id pre) \<and> last_stream_version (e_streamid pre) s < CLOUD_EVENTS_INTEGER_MAX"
      using i(3) same by auto
    from pre cas obtain e snap' where "no_assigned_fields d" "expected = None \<or> expected = Some ?n" "?n < CLOUD_EVENTS_INTEGER_MAX"
      "validate_event_document (PyDict (allocate (?n + 1) 0 d)) = Some e"
      "belongs e (pr_project_id (rc_projection c)) (pr_run_id (rc_projection c))" "List.member LIFECYCLE_TYPES (e_type e)"
      "run_apply (rc_projection c) snap e = Inr (Some snap')"
      by (auto simp: run_preflight_iff apply_control_def map_sum_Inr_iff)
    with fold store fresh show ?r by auto
  next
    assume ?r
    then obtain snap e snap' where r: "writable s" "no_assigned_fields d" "expected = None \<or> expected = Some ?n"
      "?n < CLOUD_EVENTS_INTEGER_MAX" "fold_run (rc_projection c) None (facts env s) = Inr snap"
      "validate_event_document (PyDict (allocate (?n + 1) 0 d)) = Some e"
      "belongs e (pr_project_id (rc_projection c)) (pr_run_id (rc_projection c))" "List.member LIFECYCLE_TYPES (e_type e)"
      "run_apply (rc_projection c) snap e = Inr (Some snap')"
      "id_fresh s (e_id e)" "last_stream_version (e_streamid e) s < CLOUD_EVENTS_INTEGER_MAX" by auto
    let ?head = "\<lparr>rh_last_sequence = ?n, rh_snapshot = snap\<rparr>"
    have "snapshot_json_document (PyDict d) = Inr d"
      by (rule accepted_draft_clones[OF r(6,2)]) (use assms(9) in \<open>simp only: draft_ok_def\<close>)
    then have pre: "run_preflight c ?head (PyDict d) expected = Inr (?n, d)"
      using r by (simp add: run_preflight_iff apply_control_def)
    have "is_ok (append_checked env now' (PyDict d) (Some ?n) s2)"
      using asked[of "Some ?n"] r fresh[OF r(6,4)] i(3) same by simp
    then obtain s3 st where "append_checked env now' (PyDict d) (Some ?n) s2 = Inr (s3, st)" by (auto simp: is_ok_iff)
    then have app: "append_store env now' (PyDict d) (Some ?n) (id s2) = (s3, Inr st)" by (simp add: append_store_Inr)
    obtain s4 r' where "run_commit env c ?head st s3 = (s4, Inr r')"
      by (rule run_append_committed[OF assms(1,6,4,9) r(5) refl pre i(1,2) app]) blast
    then show ?l using eq r(5) pre app by (simp add: Let_def)
  qed
qed

section \<open>A sample control\<close>

definition sample_control :: run_control where
  "sample_control = \<lparr>rc_projection = sample_projection, rc_page_size = 100\<rparr>"

definition queued_draft :: pydict where
  "queued_draft = sample_draft TYPE_RUN_QUEUED 1 None queued_payload"

lemma sample_control_page [simp]: "page_size_ok (rc_page_size sample_control)" "rc_projection sample_control = sample_projection"
  by (simp_all add: sample_control_def page_size_ok_def MAX_READ_PAGE_SIZE_def)

lemma queued_payload_plain: "keys_distinct queued_payload" "floats_ok pf queued_payload"
  by (simp_all add: queued_payload_def)

lemma queued_draft_ok: "draft_ok sample_env (PyDict queued_draft)"
  unfolding queued_draft_def by (rule sample_draft_ok) (simp_all add: queued_payload_plain)

lemma queued_draft_validates:
  "validate_event_document (PyDict (allocate 1 0 queued_draft)) = Some (drafted_event TYPE_RUN_QUEUED 1 None queued_payload)"
  unfolding queued_draft_def
  by (rule validate_sample_draft[OF identifiers(1)]) (simp_all add: sample_payloads, simp add: TYPE_RUN_QUEUED_def)

lemma queued_draft_applies: "\<exists>s. run_apply sample_projection None (drafted_event TYPE_RUN_QUEUED 1 None queued_payload) = Inr (Some s)"
proof -
  have "holds_run (run_apply sample_projection None (drafted_event TYPE_RUN_QUEUED 1 None queued_payload))" by code_simp
  then show ?thesis by (auto simp: holds_run_def split: sum.splits option.splits)
qed

lemma sample_first_requirements:
  "no_assigned_fields queued_draft" "fold_run sample_projection None [] = Inr None"
  "belongs (drafted_event TYPE_RUN_QUEUED 1 None queued_payload) (pr_project_id sample_projection) (pr_run_id sample_projection)"
  "List.member LIFECYCLE_TYPES (e_type (drafted_event TYPE_RUN_QUEUED 1 None queued_payload))"
  by (simp_all add: queued_draft_def sample_draft_unassigned fold_run_def) code_simp+

abbreviation first_append :: "int option \<Rightarrow> store \<times> (control_error + run_control_result)" where
  "first_append h \<equiv> run_append sample_env sample_clock sample_clock id id sample_control (PyDict queued_draft) h (empty_store sample_env)"

lemma first_append_succeeds:
  obtains s' r where "first_append (Some 0) = (s', Inr r)"
proof -
  obtain u where u: "sample_clock = Aware u" by (rule sample_clock_aware)
  have "is_ok (snd (first_append (Some 0)))"
    using run_append_exact[OF sample_env_ok sample_clock_ok(2,1) u empty_store_ok(1,2) sample_control_page(1) queued_draft_ok]
      queued_draft_validates queued_draft_applies sample_first_requirements empty_store_ok(3)
    by (simp add: CLOUD_EVENTS_INTEGER_MAX_def)
  then show ?thesis using that by (metis is_ok_iff prod.collapse)
qed

text \<open>A store with one event, and a cached row ahead of the log.\<close>

lemma sample_store:
  assumes "sample_append = (s, Inr st)"
  shows "store_inv sample_env s" "length (db_events s) = 1"
proof -
  have a: "append_store sample_env sample_clock
     (PyDict (sample_draft (U ''run.started'') 7 None no_payload)) (Some 0) (empty_store sample_env) = (s, Inr st)"
    using assms by (simp add: sample_append_def)
  then show "store_inv sample_env s"
    using append_store_inv[OF empty_store_ok(1) sample_draft_good sample_clock_ok(1), of "Some 0"] by simp
  have "append_checked sample_env sample_clock (PyDict (sample_draft (U ''run.started'') 7 None no_payload)) (Some 0)
      (empty_store sample_env) = Inr (s, st)" using a by (simp add: append_store_Inr)
  from append_committed[OF this empty_store_ok(1) sample_draft_good sample_clock_ok(1)]
  show "length (db_events s) = 1" by (metis facts_empty(5) append_Nil length_Cons list.size(3) One_nat_def)
qed

lemma sample_replay:
  assumes "sample_append = (s, Inr st)"
  obtains ys where "replay_events sample_env sample_clock 0 10 False (Some 1) s = (s, ys, None)" "db_events s \<noteq> []"
proof -
  note s = sample_store[OF assms]
  have p: "page_size_ok 10" by (simp add: page_size_ok_def MAX_READ_PAGE_SIZE_def)
  then have "replay_events sample_env sample_clock 0 10 False (Some 1) s = (s, take 1 (stored_events sample_env s), None)"
    using iter_intact[OF s(1) p, of 1 0] s(2)
    by (simp add: replay_events_def require_replay_bounds_def check_r_def sequence_in_range_def CLOUD_EVENTS_INTEGER_MAX_def)
  moreover have "db_events s \<noteq> []" using s(2) by auto
  ultimately show ?thesis by (rule that)
qed

definition wrong_row :: run_projection_record where
  "wrong_row = \<lparr>rp_project_id = U ''p'', rp_run_id = U ''r'', rp_last_sequence = 9, rp_snapshot_json = None,
     rp_snapshot_digest = None\<rparr>"

section \<open>Statements\<close>



text \<open>Over a store that satisfies its invariant a replay up to a mark yields exactly the events between
  the start and the mark and raises nothing, whatever the page size.\<close>

lemma replay_exact:
  assumes "store_inv env s" "env_ok env" "page_size_ok p" "c \<le> u" "u \<le> length (db_events s)"
  shows "replay_events env now (int c) p False (Some (int u)) s = (s, take (u - c) (drop c (stored_events env s)), None)"
proof -
  have n: "int (length (db_events s)) \<le> CLOUD_EVENTS_INTEGER_MAX" by (rule store_inv_length[OF assms(1,2)])
  have "require_replay_bounds (int c) p = Inr ()"
    using n assms by (simp add: require_replay_bounds_def check_r_def sequence_in_range_def)
  then show ?thesis by (simp add: replay_events_def iter_intact[OF assms(1,3,5,4) n])
qed

theorem replay_exact_witness:
  "\<exists>s. length (db_events s) = 1 \<and> replay_events sample_env sample_clock 0 10 False (Some 1) s = (s, stored_events sample_env s, None)"
proof (rule sample_append_succeeds)
  fix s st assume "sample_append = (s, Inr st)"
  then have s: "store_inv sample_env s" "length (db_events s) = 1" by (auto dest: sample_store)
  have "page_size_ok 10" by (simp add: page_size_ok_def MAX_READ_PAGE_SIZE_def)
  from replay_exact[OF s(1) sample_env_ok(1) this, of 0 1] s show ?thesis by auto
qed

text \<open>C20: \<open>RunControl.rebuild\<close> over an intact store is the fold of the log and nothing else: it returns the
  head and the snapshot that folding every event up to it gives, or the reducer's first refusal.  The
  cached row, plausible or not, the page size and writers that act in between make no difference, and
  it leaves the log alone.\<close>

theorem rebuild_is_fold:
  assumes "env_ok env" "now \<noteq> Naive" "store_inv env s" "report_ok env s" "page_size_ok (rc_page_size c)"
    "grows env others"
  shows "snd (rebuild env now others c (s\<lparr>db_run_projections := rows\<rparr>)) =
      map_sum RunFailed (\<lambda>snap. \<lparr>rh_last_sequence = int (length (facts env s)), rh_snapshot = snap\<rparr>)
        (fold_run (rc_projection c) None (facts env s))
    \<and> (others = id \<longrightarrow> facts env (fst (rebuild env now others c (s\<lparr>db_run_projections := rows\<rparr>))) = facts env s)"
proof -
  let ?s = "s\<lparr>db_run_projections := rows\<rparr>"
  have same: "facts env ?s = facts env s" "store_inv env ?s" "report_ok env ?s"
    using same_but_cache_facts[OF same_but_cache_refl(2)[of s rows], of env] assms(3,4) by simp_all
  obtain s1 s2 n where r: "freeze_high_water env now ?s = Inr (s1, n)" "n = int (length (db_events ?s))"
    "db_events s1 = db_events ?s" "rebuild env now others c ?s = (s2, map_sum RunFailed
        (\<lambda>snap. \<lparr>rh_last_sequence = n, rh_snapshot = snap\<rparr>) (fold_run (rc_projection c) None (facts env ?s)))"
    "same_but_cache (others s1) s2"
    by (rule rebuild_effect[OF assms(1,2) same(2,3) assms(5,6)])
  have "others = id \<longrightarrow> facts env s2 = facts env s"
    using r(3,5) same_but_cacheD(1)[of s1 s2] by (auto simp: facts_def)
  then show ?thesis unfolding r(4) using r(2) same(1) by simp
qed

theorem rebuild_is_fold_witness:
  "snd (rebuild sample_env sample_clock id sample_control ((empty_store sample_env)\<lparr>db_run_projections := [wrong_row]\<rparr>))
     = Inr \<lparr>rh_last_sequence = 0, rh_snapshot = None\<rparr>"
  using rebuild_is_fold[OF sample_env_ok(1) sample_clock_ok(2) empty_store_ok(1,2) sample_control_page(1) grows_id(1), of "[wrong_row]"]
  by (simp add: sample_first_requirements)

text \<open>C21: When \<open>RunControl.append\<close> returns, exactly one event was added to the log it had folded: no writer
  came in between, the caller's expected head was that log's head, the event is numbered one past it,
  and the returned snapshot is what folding the whole log now gives, so a later rebuild returns it.\<close>

theorem append_extends_fold:
  assumes "env_ok env" "now \<noteq> Naive" "clock_ok now'" "store_inv env s" "report_ok env s"
    "page_size_ok (rc_page_size c)" "grows env others" "grows env others'" "draft_ok env document"
    "run_append env now now' others others' c document expected s = (s', Inr r)"
  shows "store_inv env s' \<and> facts env s' = facts env s @ [fact_of (rr_stored r)]
    \<and> stored_sequence (rr_stored r) = int (length (facts env s)) + 1
    \<and> (expected = None \<or> expected = Some (int (length (facts env s))))
    \<and> fold_run (rc_projection c) None (facts env s') = Inr (Some (rr_snapshot r))"
proof -
  obtain s2 where i: "store_inv env (others' s2)" "prefix (facts env s) (facts env (others' s2))"
    and eq: "run_append env now now' others others' c document expected s =
      (case fold_run (rc_projection c) None (facts env s) of
         Inl e \<Rightarrow> (s2, Inl (RunFailed e))
       | Inr snap \<Rightarrow>
           (let head = \<lparr>rh_last_sequence = int (length (db_events s)), rh_snapshot = snap\<rparr> in
            case run_preflight c head document expected of
              Inl e \<Rightarrow> (s2, Inl e)
            | Inr (cas, d) \<Rightarrow> (case append_store env now' (PyDict d) (Some cas) (others' s2) of
                (s3, Inl e) \<Rightarrow> (s3, Inl (StoreFailed e))
              | (s3, Inr st) \<Rightarrow> run_commit env c head st s3)))"
    by (rule run_append_asked[OF assms(1,2,4-8), of now' document expected]) blast
  obtain snap where fold: "fold_run (rc_projection c) None (facts env s) = Inr snap"
    using eq assms(10) by (cases "fold_run (rc_projection c) None (facts env s)") auto
  let ?head = "\<lparr>rh_last_sequence = int (length (db_events s)), rh_snapshot = snap\<rparr>"
  obtain cas d where pre: "run_preflight c ?head document expected = Inr (cas, d)"
    using eq assms(10) fold by (cases "run_preflight c ?head document expected") (auto simp: Let_def)
  obtain s3 x where app: "append_store env now' (PyDict d) (Some cas) (others' s2) = (s3, x)" by fastforce
  obtain st where x: "x = Inr st" using eq assms(10) fold pre app by (cases x) (auto simp: Let_def)
  have com: "run_commit env c ?head st s3 = (s', Inr r)" using eq assms(10) fold pre app x by (simp add: Let_def)
  show ?thesis
  proof (rule run_append_committed[OF assms(1,4,3,9) fold refl pre i app[unfolded x]])
    fix s4 snap'
    assume *: "run_commit env c ?head st s3 = (s4, Inr \<lparr>rr_stored = st, rr_snapshot = snap'\<rparr>)"
      "same_but_cache s3 s4" "store_inv env s3" "facts env s3 = facts env s @ [fact_of st]"
      "fold_run (rc_projection c) None (facts env s3) = Inr (Some snap')" "stored_sequence st = int (length (db_events s)) + 1"
      "expected = None \<or> expected = Some (int (length (db_events s)))"
    then have "s4 = s'" "r = \<lparr>rr_stored = st, rr_snapshot = snap'\<rparr>" using com by simp_all
    then show ?thesis using * same_but_cache_facts[OF *(2)] by auto
  qed
qed

theorem append_extends_fold_witness:
  "\<exists>s' r. first_append (Some 0) = (s', Inr r) \<and> store_inv sample_env s' \<and> facts sample_env s' = [fact_of (rr_stored r)]
     \<and> fold_run sample_projection None (facts sample_env s') = Inr (Some (rr_snapshot r))"
proof (rule first_append_succeeds)
  fix s' r assume "first_append (Some 0) = (s', Inr r)"
  from this append_extends_fold[OF sample_env_ok(1) sample_clock_ok(2,1) empty_store_ok(1,2) sample_control_page(1)
      grows_id(1) grows_id(1) queued_draft_ok this]
  show ?thesis by auto
qed

text \<open>When \<open>RunControl.append\<close> raises, it has committed nothing: the log is what the rebuild left or what
  the writers in between made of it, and without such writers it is the log from before the call.\<close>

lemma failed_append_commits_nothing:
  assumes "env_ok env" "now \<noteq> Naive" "clock_ok now'" "store_inv env s" "report_ok env s"
    "page_size_ok (rc_page_size c)" "grows env others" "grows env others'" "draft_ok env document"
    "run_append env now now' others others' c document expected s = (s', Inl e)"
  shows "s' \<in> {fst (rebuild env now others c s), others' (fst (rebuild env now others c s))}
    \<and> (others = id \<and> others' = id \<longrightarrow> facts env s' = facts env s)"
proof -
  obtain s2 where i: "store_inv env (others' s2)" "prefix (facts env s) (facts env (others' s2))"
    and s2: "s2 = fst (rebuild env now others c s)"
    and eq: "run_append env now now' others others' c document expected s =
      (case fold_run (rc_projection c) None (facts env s) of
         Inl e \<Rightarrow> (s2, Inl (RunFailed e))
       | Inr snap \<Rightarrow>
           (let head = \<lparr>rh_last_sequence = int (length (db_events s)), rh_snapshot = snap\<rparr> in
            case run_preflight c head document expected of
              Inl e \<Rightarrow> (s2, Inl e)
            | Inr (cas, d) \<Rightarrow> (case append_store env now' (PyDict d) (Some cas) (others' s2) of
                (s3, Inl e) \<Rightarrow> (s3, Inl (StoreFailed e))
              | (s3, Inr st) \<Rightarrow> run_commit env c head st s3)))"
    and ev: "others = id \<and> others' = id \<longrightarrow> db_events (others' s2) = db_events s"
    by (rule run_append_asked[OF assms(1,2,4-8), of now' document expected]) blast
  have "s' = s2 \<or> s' = others' s2"
  proof (rule ccontr)
    assume no: "\<not> ?thesis"
    obtain snap where fold: "fold_run (rc_projection c) None (facts env s) = Inr snap"
      using eq assms(10) no by (cases "fold_run (rc_projection c) None (facts env s)") auto
    let ?head = "\<lparr>rh_last_sequence = int (length (db_events s)), rh_snapshot = snap\<rparr>"
    obtain cas d where pre: "run_preflight c ?head document expected = Inr (cas, d)"
      using eq assms(10) fold no by (cases "run_preflight c ?head document expected") (auto simp: Let_def)
    obtain s3 x where app: "append_store env now' (PyDict d) (Some cas) (others' s2) = (s3, x)" by fastforce
    obtain st where x: "x = Inr st"
      using eq assms(10) fold pre app no by (cases x) (auto simp: Let_def append_store_Inl)
    show False
      by (rule run_append_committed[OF assms(1,4,3,9) fold refl pre i app[unfolded x]])
        (use eq assms(10) fold pre app x in \<open>auto simp: Let_def\<close>)
  qed
  then show ?thesis using s2 ev by (auto simp: facts_def)
qed

theorem failed_append_commits_nothing_witness:
  "\<exists>s' e. first_append (Some 1) = (s', Inl e) \<and> facts sample_env s' = []"
proof -
  obtain u where u: "sample_clock = Aware u" by (rule sample_clock_aware)
  have "\<not> is_ok (snd (first_append (Some 1)))"
    using run_append_exact[OF sample_env_ok sample_clock_ok(2,1) u empty_store_ok(1,2) sample_control_page(1) queued_draft_ok]
    by simp
  then obtain s' e where a: "first_append (Some 1) = (s', Inl e)"
    by (metis check_ok_simps(2) old.sum.exhaust prod.collapse)
  from a failed_append_commits_nothing[OF sample_env_ok(1) sample_clock_ok(2,1) empty_store_ok(1,2) sample_control_page(1)
      grows_id(1) grows_id(1) queued_draft_ok a]
  show ?thesis by auto
qed



end
