(* ===== verification/Fold_Control.thy ===== *)
theory Fold_Control
  imports Log_Control
begin

text \<open>
  The shape that \<open>BudgetControl\<close> and \<open>WorkerControl\<close> share: \<open>rebuild\<close> freezes the head and folds the
  log up to it, \<open>_append_at\<close> checks a draft against that fold and appends it with the frozen head as
  the precondition.  The definitions take the errors, the fold and the store's other writers as
  arguments; the locale lemmas say what every control of this shape promises.
\<close>

definition frozen_fold :: "(store_error \<Rightarrow> 'e) \<Rightarrow> ('s \<Rightarrow> research_event \<Rightarrow> 'e + 's) \<Rightarrow> 's \<Rightarrow> env \<Rightarrow> pydatetime
    \<Rightarrow> (store \<Rightarrow> store) \<Rightarrow> int \<Rightarrow> store \<Rightarrow> store \<times> ('e + int \<times> 's)" where
  "frozen_fold failed step init env now others page_size s =
     (case freeze_high_water env now s of
        Inl e \<Rightarrow> (s, Inl (failed e))
      | Inr (s1, hw) \<Rightarrow>
          (let s2 = others s1 in
           (s2, map_sum id (Pair hw)
              (fold_replay step failed init (snd (replay_events env now 0 page_size False (Some hw) s2))))))"

definition append_at :: "'e preflight_errors \<Rightarrow> (research_event \<Rightarrow> bool) \<Rightarrow> (store_error \<Rightarrow> 'e)
    \<Rightarrow> ('s \<Rightarrow> research_event \<Rightarrow> 'e + 's) \<Rightarrow> env \<Rightarrow> pydatetime \<Rightarrow> (store \<Rightarrow> store) \<Rightarrow> int \<times> 's \<Rightarrow> pyval
    \<Rightarrow> store \<Rightarrow> store \<times> ('e + stored_event)" where
  "append_at err own failed step env now others head document s =
     (case bind_r (preflight err own (fst head) document) (\<lambda>checked.
           bind_r (step (snd head) (snd checked)) (\<lambda>_. Inr (fst checked))) of
        Inl e \<Rightarrow> (s, Inl e)
      | Inr draft \<Rightarrow>
          (case append_store env now (PyDict draft) (Some (fst head)) (others s) of
             (s', r) \<Rightarrow> (s', map_sum failed id r)))"

definition fold_append :: "'e preflight_errors \<Rightarrow> (research_event \<Rightarrow> bool) \<Rightarrow> (store_error \<Rightarrow> 'e)
    \<Rightarrow> ('s \<Rightarrow> research_event \<Rightarrow> 'e + 's) \<Rightarrow> 's \<Rightarrow> env \<Rightarrow> pydatetime \<Rightarrow> pydatetime \<Rightarrow> (store \<Rightarrow> store)
    \<Rightarrow> (store \<Rightarrow> store) \<Rightarrow> int \<Rightarrow> pyval \<Rightarrow> int option \<Rightarrow> store \<Rightarrow> store \<times> ('e + stored_event)" where
  "fold_append err own failed step init env now now' others others' page_size document expected s =
     (case frozen_fold failed step init env now others page_size s of
        (s1, Inl e) \<Rightarrow> (s1, Inl e)
      | (s1, Inr head) \<Rightarrow>
          (case expected of
             Some x \<Rightarrow>
               if fst head \<noteq> x then (s1, Inl (failed (EventSequenceConflictError x (fst head))))
               else append_at err own failed step env now' others' head document s1
           | None \<Rightarrow> append_at err own failed step env now' others' head document s1))"

section \<open>The frozen fold\<close>

lemma grows_at:
  assumes "grows env f" "store_inv env s"
  shows "store_inv env (f s)" "prefix (facts env s) (facts env (f s))" "writable (f s) = writable s"
  using assms unfolding grows_def by blast+

lemma frozen_fold_exact:
  assumes "env_ok env" "now \<noteq> Naive" "store_inv env s" "report_ok env s" "page_size_ok page_size" "grows env others"
  obtains s1 where "frozen_fold failed step init env now others page_size s =
      (s1, map_sum id (Pair (int (length (facts env s)))) (fold_r step init (facts env s)))"
    "store_inv env s1" "prefix (facts env s) (facts env s1)" "writable s1 = writable s"
    "others = id \<longrightarrow> db_events s1 = db_events s"
proof -
  obtain s1 n where f: "freeze_high_water env now s = Inr (s1, n)" using freeze_total[OF assms(1-4)] by (auto simp: is_ok_iff)
  note fe = freeze_effect[OF f assms(1-3)]
  have i1: "store_inv env s1" "facts env s1 = facts env s"
    using assms(3) store_inv_cong[OF fe(2)] fe by (simp_all add: facts_def)
  note g = grows_at[OF assms(6) i1(1)]
  have len: "length (db_events s) \<le> length (db_events (others s1))"
    using grows_facts(2)[OF assms(6) i1(1)] fe(2) by simp
  have "fold_replay step failed init (snd (replay_events env now 0 page_size False (Some n) (others s1)))
    = fold_r step init (take (length (db_events s)) (facts env (others s1)))"
    using fold_replay_upto[OF g(1) assms(5) store_inv_length[OF g(1) assms(1)] len] fe(1) assms(5)
    by (simp add: replay_events_def require_replay_bounds_def check_r_def sequence_in_range_def CLOUD_EVENTS_INTEGER_MAX_def)
  also have "take (length (db_events s)) (facts env (others s1)) = facts env s"
    using grows_facts(1)[OF assms(6) i1(1)] i1(2) fe(2) by simp
  finally have "frozen_fold failed step init env now others page_size s =
      (others s1, map_sum id (Pair (int (length (facts env s)))) (fold_r step init (facts env s)))"
    using fe(1) by (simp add: frozen_fold_def f Let_def)
  moreover have "prefix (facts env s) (facts env (others s1))" using g(2) i1(2) by simp
  moreover have "writable (others s1) = writable s" using g(3) fe(4) by simp
  moreover have "others = id \<longrightarrow> db_events (others s1) = db_events s" using fe(2) by simp
  ultimately show ?thesis by (rule that[OF _ g(1)])
qed

lemma facts_same_length:
  assumes "prefix (facts env s) (facts env t)" "length (db_events t) = length (db_events s)"
  shows "facts env t = facts env s"
  using assms length_facts by (metis append_eq_append_conv append_Nil2 prefix_def)

section \<open>What an append does\<close>

context log_control
begin

lemma append_at_committed:
  assumes "fold_r step init (facts env s0) = Inr y" "clock_ok now" "draft_ok env document"
    "store_inv env (others s)" "prefix (facts env s0) (facts env (others s))"
    "append_at err own failed step env now others (int (length (facts env s0)), y) document s = (s', Inr st)"
  obtains pre y' where "store_inv env s'" "facts env s' = facts env s0 @ [fact_of st]" "own pre"
    "step y pre = Inr y'" "fold_r step init (facts env s') = Inr y'"
    "stored_sequence st = int (length (facts env s0)) + 1" "\<exists>m. st_event st = pre\<lparr>e_streamversion := m\<rparr>"
    "\<exists>d. preflight err own (int (length (facts env s0))) document = Inr (d, pre)"
proof -
  let ?n = "int (length (facts env s0))"
  obtain checked where c: "preflight err own ?n document = Inr checked" "is_ok (step y (snd checked))"
    using assms(6) by (auto simp: append_at_def bind_r_Inr_iff is_ok_iff split: sum.splits)
  obtain d pre where d: "checked = (d, pre)" by fastforce
  obtain y' where y': "step y pre = Inr y'" using c(2) d by (auto simp: is_ok_iff)
  note p = preflightD[OF c(1)[unfolded d]]
  have app: "append_store env now (PyDict d) (Some ?n) (others s) = (s', Inr st)"
    using assms(6) c(1) d y' by (auto simp: append_at_def map_sum_Inr_iff split: prod.splits)
  have dr: "draft_ok env (PyDict d)" using assms(3) p(1) by simp
  have good: "good_call env (now, PyDict d)" using dr assms(2) by (simp add: good_call_def)
  have call: "call_append env (others s) (now, PyDict d) (Some ?n) = (s', Inr st)" using app by (simp add: call_append_def)
  have "?n = int (length (facts env (others s)))" by (rule store_log.add_head[OF assms(4) good call])
  then have same: "facts env (others s) = facts env s0" using facts_same_length[OF assms(5)] by simp
  have last: "last_sequence (others s) = ?n" using store_invD(1)[OF assms(4)] same length_facts by metis
  have f1: "facts env s' = facts env s0 @ [fact_of st]"
    using store_log.add_committed[OF assms(4) good call] same by simp
  have i1: "store_inv env s'" using store_log.add_ok[OF assms(4) good, of "Some ?n"] call by simp
  have val: "validate_event_document (PyDict (allocate (last_sequence (others s) + 1) 0 d)) = Some pre"
    using p(4) last by simp
  have fo: "fold_r step init (facts env (others s)) = Inr y" using assms(1) same by simp
  have "fold_r step init (facts env s') = Inr y'"
    using committed_fold[OF assms(4) dr assms(2) app val fo] y' by simp
  moreover have ch: "append_checked env now (PyDict d) (Some ?n) (others s) = Inr (s', st)" using app by (simp add: append_store_Inr)
  from append_committed[OF ch assms(4) dr assms(2)] have "stored_sequence st = last_sequence (others s) + 1" by metis
  then have "stored_sequence st = ?n + 1" using last by simp
  moreover have "\<exists>m. st_event st = pre\<lparr>e_streamversion := m\<rparr>"
    by (rule committed_event[OF assms(4) dr assms(2) app val]) blast
  ultimately show ?thesis using i1 f1 p(5) y' c(1) d by (intro that[of pre y']) auto
qed

lemma append_at_refused:
  assumes "append_at err own failed step env now others head document s = (s', Inl e)"
  shows "s' = s \<or> s' = others s"
proof (cases "bind_r (preflight err own (fst head) document) (\<lambda>checked.
           bind_r (step (snd head) (snd checked)) (\<lambda>_. Inr (fst checked)))")
  case (Inl x)
  then show ?thesis using assms by (simp add: append_at_def)
next
  case (Inr draft)
  obtain t r where t: "append_store env now (PyDict draft) (Some (fst head)) (others s) = (t, r)" by fastforce
  then obtain x where "r = Inl x" using assms Inr by (cases r) (auto simp: append_at_def)
  then have "t = others s" using t by (simp add: append_store_Inl)
  then show ?thesis using assms Inr t by (simp add: append_at_def)
qed

lemma fold_append_committed:
  assumes "env_ok env" "now \<noteq> Naive" "clock_ok now'" "store_inv env s" "report_ok env s" "page_size_ok page_size"
    "grows env others" "grows env others'" "draft_ok env document"
    "fold_append err own failed step init env now now' others others' page_size document expected s = (s', Inr st)"
  obtains y pre y' where "fold_r step init (facts env s) = Inr y" "store_inv env s'"
    "facts env s' = facts env s @ [fact_of st]" "own pre" "step y pre = Inr y'"
    "fold_r step init (facts env s') = Inr y'" "stored_sequence st = int (length (facts env s)) + 1"
    "\<exists>m. st_event st = pre\<lparr>e_streamversion := m\<rparr>" "expected = None \<or> expected = Some (int (length (facts env s)))"
proof -
  obtain s1 where f: "frozen_fold failed step init env now others page_size s =
      (s1, map_sum id (Pair (int (length (facts env s)))) (fold_r step init (facts env s)))"
    and i: "store_inv env s1" "prefix (facts env s) (facts env s1)"
    by (rule frozen_fold_exact[OF assms(1,2,4-7)])
  obtain y where y: "fold_r step init (facts env s) = Inr y"
    using assms(10) f by (cases "fold_r step init (facts env s)") (auto simp: fold_append_def)
  have e: "expected = None \<or> expected = Some (int (length (facts env s)))"
    and app: "append_at err own failed step env now' others' (int (length (facts env s)), y) document s1 = (s', Inr st)"
    using assms(10) f y by (auto simp: fold_append_def split: option.splits if_splits)
  note g = grows_at[OF assms(8) i(1)]
  have p: "prefix (facts env s) (facts env (others' s1))" using i(2) g(2) by (rule prefix_order.trans)
  show ?thesis
    by (rule append_at_committed[OF y assms(3,9) g(1) p app]) (use that y e in blast)
qed

lemma fold_append_refused:
  assumes "env_ok env" "now \<noteq> Naive" "store_inv env s" "report_ok env s" "page_size_ok page_size" "grows env others"
    "fold_append err own failed step init env now now' others others' page_size document expected s = (s', Inl e)"
  shows "\<exists>s1. (s' = s1 \<or> s' = others' s1) \<and> store_inv env s1 \<and> prefix (facts env s) (facts env s1)
     \<and> (others = id \<longrightarrow> facts env s1 = facts env s)"
proof -
  obtain s1 where f: "frozen_fold failed step init env now others page_size s =
      (s1, map_sum id (Pair (int (length (facts env s)))) (fold_r step init (facts env s)))"
    and i: "store_inv env s1" "prefix (facts env s) (facts env s1)" "others = id \<longrightarrow> db_events s1 = db_events s"
    by (rule frozen_fold_exact[OF assms(1-6)])
  have "s' = s1 \<or> s' = others' s1"
  proof (cases "fold_r step init (facts env s)")
    case (Inl x)
    then show ?thesis using assms(7) f by (simp add: fold_append_def)
  next
    case (Inr y)
    then show ?thesis using assms(7) f append_at_refused
      by (auto simp: fold_append_def split: option.splits if_splits)
  qed
  moreover have "others = id \<longrightarrow> facts env s1 = facts env s" using i(3) by (simp add: facts_def)
  ultimately show ?thesis using i by blast
qed

end

end
