(* ===== verification/Budget.thy ===== *)
theory Budget
  imports Fold_Control
begin

text \<open>
  Budgets: the closed payloads of \<open>budget/models.py\<close>, the money texts of \<open>budget/money.py\<close> and the
  fold of \<open>budget/control.py\<close>.

  A \<open>Decimal\<close> of the fold is a sum of at most \<open>2 ^ 31\<close> amounts below \<open>10 ^ 7\<close> with two decimals, which
  the default context of \<open>decimal\<close> (28 digits) holds exactly; it is modelled as its number of cents.
\<close>

section \<open>Errors\<close>

text \<open>The classes of \<open>budget/errors.py\<close> with their \<open>code\<close>; the last one passes an error of the store on.\<close>

datatype budget_error =
    BudgetError pystr
  | BudgetCallError pystr
  | BudgetPayloadError pystr
  | BudgetExceededError
  | BudgetStoreFailed store_error

abbreviation call_error :: "string \<Rightarrow> budget_error + 'a" where
  "call_error code \<equiv> Inl (BudgetCallError (U code))"

section \<open>Money\<close>

definition CURRENCY_CNY :: pystr where "CURRENCY_CNY = U ''CNY''"

definition MONEY_PATTERN :: regex where
  "MONEY_PATTERN = rseqs [ralts [clit ''0'', rseqs [digits 1 9, rbetween 0 6 digit]], cchar CHR ''.'', rtimes 2 digit]"

definition MoneyAmount :: "pystr \<Rightarrow> bool" where
  "MoneyAmount s \<longleftrightarrow> 4 \<le> length s \<and> length s \<le> 11 \<and> fullmatch MONEY_PATTERN s"

definition cents_of :: "pystr \<Rightarrow> int" where
  "cents_of s = int (int_of_digits (take (length s - 3) s @ drop (length s - 2) s))"

definition parse_money :: "pystr \<Rightarrow> budget_error + int" where
  "parse_money s = (if fullmatch MONEY_PATTERN s then Inr (cents_of s) else Inl (BudgetError (U ''invalid-money'')))"

definition money_text :: "nat \<Rightarrow> pystr" where
  "money_text c = digits_of (c div 100) @ [46, 48 + c div 10 mod 10, 48 + c mod 10]"

definition format_money :: "int \<Rightarrow> budget_error + pystr" where
  "format_money c =
     (if c < 0 \<or> c > 999999999 then Inl (BudgetError (U ''invalid-money''))
      else bind_r (parse_money (money_text (nat c))) (\<lambda>_. Inr (money_text (nat c))))"

section \<open>Payloads\<close>

definition TYPE_BUDGET_RESERVED :: pystr where "TYPE_BUDGET_RESERVED = U ''budget.reserved''"
definition TYPE_BUDGET_CONSUMED :: pystr where "TYPE_BUDGET_CONSUMED = U ''budget.consumed''"
definition TYPE_BUDGET_EXCEEDED :: pystr where "TYPE_BUDGET_EXCEEDED = U ''budget.exceeded''"
definition TYPE_BUDGET_RELEASED :: pystr where "TYPE_BUDGET_RELEASED = U ''budget.released''"
definition TYPE_BUDGET_LIMIT_RECORDED :: pystr where "TYPE_BUDGET_LIMIT_RECORDED = U ''budget.limit.recorded''"

lemmas budget_type_defs = TYPE_BUDGET_RESERVED_def TYPE_BUDGET_CONSUMED_def TYPE_BUDGET_EXCEEDED_def
  TYPE_BUDGET_RELEASED_def TYPE_BUDGET_LIMIT_RECORDED_def

definition BUDGET_EVENT_TYPES :: "pystr list" where
  "BUDGET_EVENT_TYPES = [TYPE_BUDGET_RESERVED, TYPE_BUDGET_CONSUMED, TYPE_BUDGET_EXCEEDED,
     TYPE_BUDGET_RELEASED, TYPE_BUDGET_LIMIT_RECORDED]"

text \<open>The fields that four of the payloads share; \<open>be_amount\<close> is \<open>attempted\<close> in \<open>BudgetExceededPayload\<close>.\<close>

record budget_entry =
  be_budget_id :: pystr
  be_call_id :: pystr
  be_currency :: pystr
  be_amount :: pystr
  be_cap :: pystr

datatype budget_payload =
    BudgetReservedPayload budget_entry
  | BudgetConsumedPayload budget_entry
  | BudgetExceededPayload budget_entry
  | BudgetReleasedPayload budget_entry pystr
  | BudgetLimitPayload pystr pystr

definition decode_currency :: "pyval \<Rightarrow> pystr option" where
  "decode_currency v = Option.bind (as_str v) (keep_o (\<lambda>s. s = CURRENCY_CNY))"

definition decode_entry :: "pystr list \<Rightarrow> pystr \<Rightarrow> pyval \<Rightarrow> budget_entry option" where
  "decode_entry others amount_key v = do {
     d \<leftarrow> as_dict v;
     check_o (only_keys ([U ''budgetId'', U ''callId'', U ''currency'', amount_key, U ''cap''] @ others) d);
     b \<leftarrow> req_field d (U ''budgetId'') (\<lambda>v. Option.bind (as_str v) (keep_o EventIdentifier));
     c \<leftarrow> req_field d (U ''callId'') (\<lambda>v. Option.bind (as_str v) (keep_o EventIdentifier));
     y \<leftarrow> opt_field d (U ''currency'') CURRENCY_CNY decode_currency;
     a \<leftarrow> req_field d amount_key (\<lambda>v. Option.bind (as_str v) (keep_o MoneyAmount));
     m \<leftarrow> req_field d (U ''cap'') (\<lambda>v. Option.bind (as_str v) (keep_o MoneyAmount));
     Some \<lparr>be_budget_id = b, be_call_id = c, be_currency = y, be_amount = a, be_cap = m\<rparr> }"

definition decode_reserved :: "pyval \<Rightarrow> budget_payload option" where
  "decode_reserved v = map_option BudgetReservedPayload (decode_entry [] (U ''amount'') v)"

definition decode_consumed :: "pyval \<Rightarrow> budget_payload option" where
  "decode_consumed v = map_option BudgetConsumedPayload (decode_entry [] (U ''amount'') v)"

definition decode_exceeded :: "pyval \<Rightarrow> budget_payload option" where
  "decode_exceeded v = map_option BudgetExceededPayload (decode_entry [] (U ''attempted'') v)"

definition decode_released :: "pyval \<Rightarrow> budget_payload option" where
  "decode_released v = do {
     e \<leftarrow> decode_entry [U ''reasonCode''] (U ''amount'') v;
     d \<leftarrow> as_dict v;
     r \<leftarrow> req_field d (U ''reasonCode'') (\<lambda>v. Option.bind (as_str v) (keep_o CloudEventsString));
     Some (BudgetReleasedPayload e r) }"

definition decode_limit :: "pyval \<Rightarrow> budget_payload option" where
  "decode_limit v = do {
     d \<leftarrow> as_dict v;
     check_o (only_keys [U ''currency'', U ''cap''] d);
     y \<leftarrow> opt_field d (U ''currency'') CURRENCY_CNY decode_currency;
     m \<leftarrow> req_field d (U ''cap'') (\<lambda>v. Option.bind (as_str v) (keep_o MoneyAmount));
     Some (BudgetLimitPayload y m) }"

definition BUDGET_PAYLOAD_MODELS :: "(pystr \<times> (pyval \<Rightarrow> budget_payload option)) list" where
  "BUDGET_PAYLOAD_MODELS = [(TYPE_BUDGET_RESERVED, decode_reserved), (TYPE_BUDGET_CONSUMED, decode_consumed),
     (TYPE_BUDGET_EXCEEDED, decode_exceeded), (TYPE_BUDGET_RELEASED, decode_released),
     (TYPE_BUDGET_LIMIT_RECORDED, decode_limit)]"

definition parse_budget_payload :: "research_event \<Rightarrow> budget_error + budget_payload" where
  "parse_budget_payload e = (case map_of BUDGET_PAYLOAD_MODELS (e_type e) of
     None \<Rightarrow> Inl (BudgetPayloadError (U ''unknown-budget-type''))
   | Some model \<Rightarrow> lift_option (BudgetPayloadError (U ''invalid-payload'')) (model (ed_payload (e_data e))))"

definition require_budget_actor :: "research_event \<Rightarrow> budget_error + unit" where
  "require_budget_actor e = (case actor_kind_field (ed_actor (e_data e)) of
     None \<Rightarrow> Inl (BudgetPayloadError (U ''actor-kind-required''))
   | Some kind \<Rightarrow>
       (let allowed = (if e_type e = TYPE_BUDGET_LIMIT_RECORDED then HUMAN else SYSTEM) in
        if kind \<noteq> allowed then Inl (BudgetPayloadError (U ''actor-kind-forbidden'')) else Inr ()))"

section \<open>The fold\<close>

record open_reservation =
  or_budget_id :: pystr
  or_call_id :: pystr
  or_currency :: pystr
  or_amount :: int
  or_cap :: int

record budget_fold =
  bf_open :: "open_reservation list"
  bf_closed_ids :: "pystr set"
  bf_consumed :: int
  bf_approved_cap :: "int option"

definition empty_budget :: budget_fold where
  "empty_budget = \<lparr>bf_open = [], bf_closed_ids = {}, bf_consumed = 0, bf_approved_cap = None\<rparr>"

definition outstanding :: "budget_fold \<Rightarrow> int" where
  "outstanding f = sum_list (List.map or_amount (bf_open f))"

definition open_ids :: "budget_fold \<Rightarrow> pystr set" where
  "open_ids f = set (List.map or_budget_id (bf_open f))"

definition known_ids :: "budget_fold \<Rightarrow> pystr set" where
  "known_ids f = open_ids f \<union> bf_closed_ids f"

definition reservation_would_exceed :: "budget_fold \<Rightarrow> int \<Rightarrow> int \<Rightarrow> bool" where
  "reservation_would_exceed f requested cap \<longleftrightarrow> bf_consumed f + outstanding f + requested > cap"

definition require_within_approved_limit :: "budget_fold \<Rightarrow> int \<Rightarrow> int \<Rightarrow> budget_error + unit" where
  "require_within_approved_limit f requested cap =
     (if cap = 0 \<and> requested = 0 then Inr ()
      else (case bf_approved_cap f of
          None \<Rightarrow> call_error ''budget-limit-missing''
        | Some approved \<Rightarrow> if cap \<noteq> approved then call_error ''budget-limit-mismatch'' else Inr ()))"

definition apply_reserved :: "budget_fold \<Rightarrow> budget_entry \<Rightarrow> budget_error + budget_fold" where
  "apply_reserved f p =
     (if be_budget_id p \<in> known_ids f then call_error ''duplicate-budget-id''
      else bind_r (parse_money (be_amount p)) (\<lambda>amount.
      bind_r (parse_money (be_cap p)) (\<lambda>cap.
      bind_r (require_within_approved_limit f amount cap) (\<lambda>_.
      if reservation_would_exceed f amount cap then call_error ''reservation-exceeds-cap''
      else Inr (f\<lparr>bf_open := bf_open f @ [\<lparr>or_budget_id = be_budget_id p, or_call_id = be_call_id p,
             or_currency = be_currency p, or_amount = amount, or_cap = cap\<rparr>]\<rparr>)))))"

definition close_reservation :: "budget_fold \<Rightarrow> budget_entry \<Rightarrow> bool \<Rightarrow> budget_error + budget_fold" where
  "close_reservation f p add_consumed =
     (if be_budget_id p \<in> bf_closed_ids f then call_error ''duplicate-budget-id''
      else (case find_first (\<lambda>r. or_budget_id r = be_budget_id p) (bf_open f) of
          None \<Rightarrow> call_error ''orphan-budget-id''
        | Some current \<Rightarrow>
            bind_r (parse_money (be_amount p)) (\<lambda>amount.
            bind_r (parse_money (be_cap p)) (\<lambda>cap.
            if be_call_id p \<noteq> or_call_id current then call_error ''reservation-mismatch''
            else if be_currency p \<noteq> or_currency current then call_error ''reservation-mismatch''
            else if cap \<noteq> or_cap current then call_error ''reservation-mismatch''
            else bind_r
              (if add_consumed
               then (if amount > or_amount current then call_error ''consume-exceeds-reserve''
                     else Inr (bf_consumed f + amount))
               else (if amount \<noteq> or_amount current then call_error ''reservation-mismatch''
                     else Inr (bf_consumed f)))
              (\<lambda>consumed. Inr (f\<lparr>bf_open := List.filter (\<lambda>r. or_budget_id r \<noteq> be_budget_id p) (bf_open f),
                 bf_closed_ids := insert (be_budget_id p) (bf_closed_ids f), bf_consumed := consumed\<rparr>))))))"

definition apply_exceeded :: "budget_fold \<Rightarrow> budget_entry \<Rightarrow> budget_error + budget_fold" where
  "apply_exceeded f p =
     (if be_budget_id p \<in> known_ids f then call_error ''duplicate-budget-id''
      else bind_r (parse_money (be_amount p)) (\<lambda>attempted.
      bind_r (parse_money (be_cap p)) (\<lambda>cap.
      bind_r (require_within_approved_limit f attempted cap) (\<lambda>_.
      Inr (f\<lparr>bf_closed_ids := insert (be_budget_id p) (bf_closed_ids f)\<rparr>)))))"

definition apply_limit :: "budget_fold \<Rightarrow> pystr \<Rightarrow> budget_error + budget_fold" where
  "apply_limit f cap_text = bind_r (parse_money cap_text) (\<lambda>cap. Inr (f\<lparr>bf_approved_cap := Some cap\<rparr>))"

fun apply_budget_payload :: "budget_fold \<Rightarrow> budget_payload \<Rightarrow> budget_error + budget_fold" where
  "apply_budget_payload f (BudgetReservedPayload p) = apply_reserved f p"
| "apply_budget_payload f (BudgetConsumedPayload p) = close_reservation f p True"
| "apply_budget_payload f (BudgetReleasedPayload p _) = close_reservation f p False"
| "apply_budget_payload f (BudgetExceededPayload p) = apply_exceeded f p"
| "apply_budget_payload f (BudgetLimitPayload _ cap) = apply_limit f cap"

definition apply_budget_fold :: "pystr \<Rightarrow> budget_fold \<Rightarrow> research_event \<Rightarrow> budget_error + budget_fold" where
  "apply_budget_fold project_id f e =
     (if ed_project_id (e_data e) \<noteq> project_id then Inr f
      else if \<not> List.member BUDGET_EVENT_TYPES (e_type e) then Inr f
      else bind_r (require_budget_actor e) (\<lambda>_.
      bind_r (parse_budget_payload e) (\<lambda>payload. apply_budget_payload f payload)))"

section \<open>Money texts\<close>

lemma rseqs_Cons_iff: "w \<in> lang (rseqs (r # rs)) \<longleftrightarrow> (\<exists>x y. w = x @ y \<and> x \<in> lang r \<and> y \<in> lang (rseqs rs))"
  by simp

lemma two_digits: "t \<in> lang (rtimes 2 digit) \<longleftrightarrow> (\<exists>a b. t = [a, b] \<and> is_digit a \<and> is_digit b)"
  unfolding lang_rtimes_digit by (auto simp: length_Suc_conv numeral_2_eq_2)

lemma short_integer: "t \<in> lang (rseqs [digits 1 9, rbetween 0 6 digit]) \<longleftrightarrow>
    (\<exists>c u. t = c # u \<and> 49 \<le> c \<and> c \<le> 57 \<and> length u \<le> 6 \<and> list_all is_digit u)"
proof -
  have e: "lang (rbetween 0 6 digit) = lang (rupto 6 digit)" unfolding rbetween_def by simp
  show ?thesis unfolding in_rseqs e lang_rupto_cls by (simp add: list_all_iff)
qed

lemma fullmatch_money: "fullmatch MONEY_PATTERN s \<longleftrightarrow> (\<exists>ip a b. s = ip @ [46, a, b] \<and> is_digit a \<and> is_digit b
    \<and> (ip = [48] \<or> (\<exists>c u. ip = c # u \<and> 49 \<le> c \<and> c \<le> 57 \<and> length u \<le> 6 \<and> list_all is_digit u)))"
proof -
  have tl: "y \<in> lang (rseqs [cchar CHR ''.'', rtimes 2 digit]) \<longleftrightarrow> (\<exists>fr. y = 46 # fr \<and> fr \<in> lang (rtimes 2 digit))" for y
    unfolding rseqs_Cons_iff[of _ "cchar _"] in_rseqs(3) by (auto simp: cchar_def)
  have hd: "ip \<in> lang (ralts [clit ''0'', rseqs [digits 1 9, rbetween 0 6 digit]])
      \<longleftrightarrow> ip = [48] \<or> ip \<in> lang (rseqs [digits 1 9, rbetween 0 6 digit])" for ip
    unfolding lang_ralts_Cons lang_ralts_Nil by (simp add: U_def del: lang_rseqs_Cons)
  have "s \<in> lang MONEY_PATTERN \<longleftrightarrow> (\<exists>ip fr. s = ip @ 46 # fr
      \<and> (ip = [48] \<or> ip \<in> lang (rseqs [digits 1 9, rbetween 0 6 digit])) \<and> fr \<in> lang (rtimes 2 digit))"
    unfolding MONEY_PATTERN_def rseqs_Cons_iff[of _ "ralts _"] hd tl by blast
  then show ?thesis unfolding fullmatch_iff two_digits short_integer by auto
qed

lemma money_text_forms:
  assumes "c \<le> 999999999"
  shows "\<exists>ip a b. money_text c = ip @ [46, a, b] \<and> is_digit a \<and> is_digit b
    \<and> (ip = [48] \<or> (\<exists>c u. ip = c # u \<and> 49 \<le> c \<and> c \<le> 57 \<and> length u \<le> 6 \<and> list_all is_digit u))"
proof -
  have ab: "is_digit (48 + c div 10 mod 10)" "is_digit (48 + c mod 10)" by (simp_all add: is_digit_def)
  have "digits_of (c div 100) = [48] \<or> (\<exists>d u. digits_of (c div 100) = d # u \<and> 49 \<le> d \<and> d \<le> 57 \<and> length u \<le> 6 \<and> list_all is_digit u)"
  proof (cases "c div 100 = 0")
    case True
    then show ?thesis by (simp add: digits_of.simps)
  next
    case False
    then obtain d u where d: "digits_of (c div 100) = d # u" by (cases "digits_of (c div 100)") auto
    have "d \<noteq> 48" using hd_digits_of[of "c div 100"] False d by simp
    moreover have "list_all is_digit (d # u)" using digits_of_digit[of "c div 100"] d by simp
    moreover have "length (d # u) \<le> 7" using length_digits_of[of "c div 100" 7] assms d by simp
    ultimately show ?thesis using d by (auto simp: is_digit_def)
  qed
  with ab show ?thesis unfolding money_text_def by blast
qed

lemma money_text_matches: "c \<le> 999999999 \<Longrightarrow> fullmatch MONEY_PATTERN (money_text c)"
  unfolding fullmatch_money by (rule money_text_forms)

lemma int_of_two_digits: "int_of_digits (ip @ [a, b]) = (int_of_digits ip * 10 + (a - 48)) * 10 + (b - 48)"
  using int_of_digits_snoc[of "ip @ [a]" b] int_of_digits_snoc[of ip a] by simp

lemma cents_of_money: "cents_of (ip @ [46, a, b]) = int ((int_of_digits ip * 10 + (a - 48)) * 10 + (b - 48))"
  by (simp add: cents_of_def int_of_two_digits)

lemma cents_of_money_text [simp]: "cents_of (money_text c) = int c"
proof -
  have "(c div 100 * 10 + c div 10 mod 10) * 10 + c mod 10 = c"
    using div_mult_mod_eq[of c 10] div_mult_mod_eq[of "c div 10" 10] by (simp add: div_mult2_eq[symmetric])
  then show ?thesis by (simp add: money_text_def cents_of_money)
qed

lemma money_digits:
  assumes "x < 10" "y < (10::nat)"
  shows "((n * 10 + x) * 10 + y) div 100 = n" "((n * 10 + x) * 10 + y) div 10 mod 10 = x" "((n * 10 + x) * 10 + y) mod 10 = y"
proof -
  have d: "((n * 10 + x) * 10 + y) div 10 = n * 10 + x" using assms(2) by simp
  have "((n * 10 + x) * 10 + y) div 100 = ((n * 10 + x) * 10 + y) div 10 div 10" by (simp add: div_mult2_eq[symmetric])
  then show "((n * 10 + x) * 10 + y) div 100 = n" unfolding d using assms(1) by simp
  show "((n * 10 + x) * 10 + y) div 10 mod 10 = x" unfolding d using assms(1) by simp
  have "(m * 10 + y) mod 10 = y" for m using assms(2) by simp
  then show "((n * 10 + x) * 10 + y) mod 10 = y" .
qed

lemma money_text_of:
  assumes "fullmatch MONEY_PATTERN s"
  obtains c where "s = money_text c" "c \<le> 999999999" "cents_of s = int c"
proof -
  obtain ip a b where s: "s = ip @ [46, a, b]" "is_digit a" "is_digit b"
    and ip: "ip = [48] \<or> (\<exists>c u. ip = c # u \<and> 49 \<le> c \<and> c \<le> 57 \<and> length u \<le> 6 \<and> list_all is_digit u)"
    using assms by (auto simp: fullmatch_money)
  let ?n = "int_of_digits ip"
  have n: "digits_of ?n = ip" "?n \<le> 9999999"
  proof -
    show "digits_of ?n = ip" using ip
      by (auto simp: digits_of_int_of_digits is_digit_def) (simp add: int_of_digits_def digits_of.simps)
    have "?n < 10 ^ length ip" by (rule int_of_digits_less) (use ip in \<open>auto simp: is_digit_def\<close>)
    also have "(10::nat) ^ length ip \<le> 10 ^ 7" using ip by (intro power_increasing) auto
    finally show "?n \<le> 9999999" by simp
  qed
  let ?x = "a - 48" and ?y = "b - 48"
  have xy: "?x < 10" "?y < 10" "a = 48 + ?x" "b = 48 + ?y" using s(2,3) by (auto simp: is_digit_def)
  let ?c = "(?n * 10 + ?x) * 10 + ?y"
  have "?c div 100 = ?n" "?c div 10 mod 10 = ?x" "?c mod 10 = ?y" using money_digits[OF xy(1,2)] by blast+
  then have "money_text ?c = s" unfolding money_text_def using n(1) xy(3,4) s(1) by metis
  moreover have "?c \<le> 999999999" using n(2) xy(1,2) by simp
  moreover have "cents_of s = int ?c" unfolding s(1) by (rule cents_of_money)
  ultimately show ?thesis using that by metis
qed

lemma parse_money_text [simp]: "c \<le> 999999999 \<Longrightarrow> parse_money (money_text c) = Inr (int c)"
  by (simp add: parse_money_def money_text_matches)

lemma parse_money_ok:
  assumes "parse_money s = Inr n"
  obtains c where "s = money_text c" "c \<le> 999999999" "n = int c"
proof -
  have "fullmatch MONEY_PATTERN s" "n = cents_of s" using assms by (auto simp: parse_money_def split: if_splits)
  then show ?thesis using money_text_of that by metis
qed

lemma parse_money_nonneg: "parse_money s = Inr n \<Longrightarrow> 0 \<le> n \<and> n \<le> 999999999"
  by (erule parse_money_ok) simp

section \<open>The book of a log\<close>

text \<open>The budget payloads a project's log carries, in order; an accepted log is the fold of its book.\<close>

definition book_entry :: "pystr \<Rightarrow> research_event \<Rightarrow> budget_payload option" where
  "book_entry project_id e =
     (if ed_project_id (e_data e) = project_id \<and> List.member BUDGET_EVENT_TYPES (e_type e)
      then (case parse_budget_payload e of Inl _ \<Rightarrow> None | Inr x \<Rightarrow> Some x) else None)"

definition budget_book :: "pystr \<Rightarrow> research_event list \<Rightarrow> budget_payload list" where
  "budget_book project_id es = List.map_filter (book_entry project_id) es"

lemma budget_book_simps [simp]:
  "budget_book p [] = []"
  "budget_book p (e # es) = (case book_entry p e of None \<Rightarrow> budget_book p es | Some x \<Rightarrow> x # budget_book p es)"
  "budget_book p (es @ fs) = budget_book p es @ budget_book p fs"
  by (simp_all add: budget_book_def map_filter_def split: option.split)

lemma apply_budget_fold_entry:
  assumes "apply_budget_fold p f e = Inr g"
  shows "case book_entry p e of None \<Rightarrow> g = f | Some x \<Rightarrow> apply_budget_payload f x = Inr g"
  using assms by (auto simp: apply_budget_fold_def book_entry_def bind_r_Inr_iff split: if_splits)

lemma fold_budget_book:
  "fold_r (apply_budget_fold p) f es = Inr g \<Longrightarrow> fold_r apply_budget_payload f (budget_book p es) = Inr g"
proof (induction es arbitrary: f)
  case (Cons e es)
  then obtain h where "apply_budget_fold p f e = Inr h" "fold_r (apply_budget_fold p) h es = Inr g"
    by (auto simp: bind_r_Inr_iff)
  with Cons.IH[of h] apply_budget_fold_entry[of p f e h] show ?case by (auto split: option.splits)
qed simp

fun reserved_id :: "budget_payload \<Rightarrow> pystr option" where
  "reserved_id (BudgetReservedPayload e) = Some (be_budget_id e)" | "reserved_id _ = None"

fun exceeded_id :: "budget_payload \<Rightarrow> pystr option" where
  "exceeded_id (BudgetExceededPayload e) = Some (be_budget_id e)" | "exceeded_id _ = None"

fun closing_id :: "budget_payload \<Rightarrow> pystr option" where
  "closing_id (BudgetConsumedPayload e) = Some (be_budget_id e)"
| "closing_id (BudgetReleasedPayload e _) = Some (be_budget_id e)" | "closing_id _ = None"

fun consumed_cents :: "budget_payload \<Rightarrow> int" where
  "consumed_cents (BudgetConsumedPayload e) = cents_of (be_amount e)" | "consumed_cents _ = 0"

fun limit_cents :: "budget_payload \<Rightarrow> int option" where
  "limit_cents (BudgetLimitPayload _ cap) = Some (cents_of cap)" | "limit_cents _ = None"

section \<open>The invariant\<close>

definition spent :: "budget_fold \<Rightarrow> int" where "spent f = bf_consumed f + outstanding f"

definition budget_inv :: "budget_fold \<Rightarrow> bool" where
  "budget_inv f \<longleftrightarrow> distinct (List.map or_budget_id (bf_open f)) \<and> open_ids f \<inter> bf_closed_ids f = {}
     \<and> 0 \<le> bf_consumed f \<and> list_all (\<lambda>r. 0 \<le> or_amount r) (bf_open f)"

lemma book_fields [simp]:
  "open_ids (f\<lparr>bf_closed_ids := c\<rparr>) = open_ids f" "open_ids (f\<lparr>bf_approved_cap := m\<rparr>) = open_ids f"
  "open_ids (f\<lparr>bf_open := rs\<rparr>) = set (List.map or_budget_id rs)"
  "spent (f\<lparr>bf_closed_ids := c\<rparr>) = spent f" "spent (f\<lparr>bf_approved_cap := m\<rparr>) = spent f"
  by (simp_all add: open_ids_def spent_def outstanding_def)

lemma parse_money_cents: "parse_money s = Inr n \<Longrightarrow> cents_of s = n \<and> 0 \<le> n"
  using parse_money_nonneg by (auto simp: parse_money_def split: if_splits)

lemma sum_without:
  assumes "distinct (List.map or_budget_id rs)" "find_first (\<lambda>r. or_budget_id r = i) rs = Some r"
  shows "sum_list (List.map or_amount (List.filter (\<lambda>r. or_budget_id r \<noteq> i) rs)) = sum_list (List.map or_amount rs) - or_amount r"
  using assms
proof (induction rs)
  case (Cons x rs)
  show ?case
  proof (cases "or_budget_id x = i")
    case True
    then have "List.filter (\<lambda>r. or_budget_id r \<noteq> i) rs = rs" using Cons.prems(1) by (auto simp: filter_id_conv image_iff)
    with True Cons.prems(2) show ?thesis by simp
  qed (use Cons in auto)
qed simp

text \<open>What one accepted payload does to the state.\<close>

definition book_step :: "budget_fold \<Rightarrow> budget_payload \<Rightarrow> budget_fold \<Rightarrow> bool" where
  "book_step f x g \<longleftrightarrow> budget_inv g
     \<and> (spent g \<le> spent f \<or> (\<exists>cap. bf_approved_cap f = Some cap \<and> spent g \<le> cap))
     \<and> bf_approved_cap g = (case limit_cents x of None \<Rightarrow> bf_approved_cap f | Some c \<Rightarrow> Some c)
     \<and> bf_consumed g = bf_consumed f + consumed_cents x
     \<and> open_ids g = (open_ids f \<union> set_option (reserved_id x)) - set_option (closing_id x)
     \<and> bf_closed_ids g = bf_closed_ids f \<union> set_option (closing_id x) \<union> set_option (exceeded_id x)
     \<and> set_option (reserved_id x) \<inter> known_ids f = {} \<and> set_option (exceeded_id x) \<inter> known_ids f = {}
     \<and> set_option (closing_id x) \<subseteq> open_ids f"

lemma apply_reserved_step:
  assumes "apply_reserved f e = Inr g" "budget_inv f" shows "book_step f (BudgetReservedPayload e) g"
proof -
  obtain amount cap where a: "be_budget_id e \<notin> known_ids f" "parse_money (be_amount e) = Inr amount"
    "parse_money (be_cap e) = Inr cap" "require_within_approved_limit f amount cap = Inr ()"
    "spent f + amount \<le> cap"
    "g = f\<lparr>bf_open := bf_open f @ [\<lparr>or_budget_id = be_budget_id e, or_call_id = be_call_id e,
             or_currency = be_currency e, or_amount = amount, or_cap = cap\<rparr>]\<rparr>"
    using assms(1) by (auto simp: apply_reserved_def bind_r_Inr_iff reservation_would_exceed_def spent_def split: if_splits)
  have nn: "0 \<le> amount" using parse_money_cents[OF a(2)] by simp
  have sp: "spent g = spent f + amount" using a(6) by (simp add: spent_def outstanding_def)
  have "spent g \<le> spent f \<or> (\<exists>cap. bf_approved_cap f = Some cap \<and> spent g \<le> cap)"
    using a(4,5) sp by (auto simp: require_within_approved_limit_def split: if_splits option.splits)
  then show ?thesis using a(1,6) nn assms(2)
    by (auto simp: book_step_def budget_inv_def known_ids_def open_ids_def)
qed

lemma close_reservation_step:
  assumes "close_reservation f e add = Inr g" "budget_inv f"
    "closing_id x = Some (be_budget_id e)" "reserved_id x = None" "exceeded_id x = None" "limit_cents x = None"
    "consumed_cents x = (if add then cents_of (be_amount e) else 0)"
  shows "book_step f x g"
proof -
  let ?i = "be_budget_id e"
  obtain r amount consumed where a: "?i \<notin> bf_closed_ids f" "find_first (\<lambda>r. or_budget_id r = ?i) (bf_open f) = Some r"
    "parse_money (be_amount e) = Inr amount" "consumed = bf_consumed f + (if add then amount else 0)"
    "add \<longrightarrow> amount \<le> or_amount r" "\<not> add \<longrightarrow> amount = or_amount r"
    "g = f\<lparr>bf_open := List.filter (\<lambda>r. or_budget_id r \<noteq> ?i) (bf_open f),
             bf_closed_ids := insert ?i (bf_closed_ids f), bf_consumed := consumed\<rparr>"
    using assms(1) by (auto simp: close_reservation_def bind_r_Inr_iff split: if_splits option.splits)
  have r: "r \<in> set (bf_open f)" "or_budget_id r = ?i" using find_first_SomeD[OF a(2)] by auto
  have am: "cents_of (be_amount e) = amount" "0 \<le> amount" using parse_money_cents[OF a(3)] by auto
  have "outstanding g = outstanding f - or_amount r"
    using sum_without[OF _ a(2)] assms(2) a(7) by (simp add: outstanding_def budget_inv_def)
  then have "spent g \<le> spent f" using a(4-7) am(2) by (auto simp: spent_def)
  moreover have "distinct (List.map or_budget_id (bf_open g))"
    using assms(2) a(7) by (simp add: budget_inv_def distinct_map_filter)
  moreover have "open_ids g = open_ids f - {?i}" using a(7) by (auto simp: open_ids_def)
  moreover have "?i \<in> open_ids f" unfolding open_ids_def using r by (metis image_eqI list.set_map)
  ultimately show ?thesis using a(4,7) am assms(2-)
    by (auto simp: book_step_def budget_inv_def list_all_iff)
qed

lemma apply_exceeded_step:
  assumes "apply_exceeded f e = Inr g" "budget_inv f" shows "book_step f (BudgetExceededPayload e) g"
  using assms by (auto simp: apply_exceeded_def bind_r_Inr_iff book_step_def budget_inv_def known_ids_def split: if_splits)

lemma apply_limit_step:
  assumes "apply_limit f cap = Inr g" "budget_inv f" shows "book_step f (BudgetLimitPayload y cap) g"
  using assms parse_money_cents by (auto simp: apply_limit_def bind_r_Inr_iff book_step_def budget_inv_def known_ids_def)

lemma apply_budget_payload_step:
  "apply_budget_payload f x = Inr g \<Longrightarrow> budget_inv f \<Longrightarrow> book_step f x g"
proof (cases x)
  case (BudgetConsumedPayload e)
  then show "apply_budget_payload f x = Inr g \<Longrightarrow> budget_inv f \<Longrightarrow> ?thesis"
    using close_reservation_step[of f e True g x] by simp
next
  case (BudgetReleasedPayload e r)
  then show "apply_budget_payload f x = Inr g \<Longrightarrow> budget_inv f \<Longrightarrow> ?thesis"
    using close_reservation_step[of f e False g x] by simp
qed (simp_all add: apply_reserved_step apply_exceeded_step apply_limit_step)

lemma budget_inv_empty [simp]: "budget_inv empty_budget"
  by (simp add: budget_inv_def empty_budget_def open_ids_def)

lemma empty_budget_fields [simp]: "spent empty_budget = 0" "bf_approved_cap empty_budget = None"
  "bf_consumed empty_budget = 0" "open_ids empty_budget = {}" "bf_closed_ids empty_budget = {}"
  by (simp_all add: empty_budget_def spent_def outstanding_def open_ids_def)

text \<open>The book of an accepted log.\<close>

definition book_ok :: "budget_payload list \<Rightarrow> budget_fold \<Rightarrow> bool" where
  "book_ok xs f \<longleftrightarrow> budget_inv f
     \<and> spent f \<le> Max (insert 0 (set (List.map_filter limit_cents xs)))
     \<and> bf_approved_cap f = last_of (List.map_filter limit_cents xs)
     \<and> bf_consumed f = sum_list (List.map consumed_cents xs)
     \<and> open_ids f = set (List.map_filter reserved_id xs) - set (List.map_filter closing_id xs)
     \<and> bf_closed_ids f = set (List.map_filter closing_id xs) \<union> set (List.map_filter exceeded_id xs)
     \<and> distinct (List.map_filter reserved_id xs) \<and> distinct (List.map_filter closing_id xs)
     \<and> distinct (List.map_filter exceeded_id xs)
     \<and> set (List.map_filter reserved_id xs) \<inter> set (List.map_filter exceeded_id xs) = {}
     \<and> set (List.map_filter closing_id xs) \<subseteq> set (List.map_filter reserved_id xs)"

lemma map_filter_snoc: "List.map_filter h (xs @ [x]) = List.map_filter h xs @ (case h x of None \<Rightarrow> [] | Some y \<Rightarrow> [y])"
  by (simp add: map_filter_def split: option.split)

lemma last_of_member: "last_of xs = Some x \<Longrightarrow> x \<in> set xs"
  by (induction xs rule: rev_induct) (auto simp: last_of_def)

lemma book_ok_step:
  assumes "book_ok xs f" "book_step f x g" shows "book_ok (xs @ [x]) g"
proof -
  have sp: "spent g \<le> Max (insert 0 (set (List.map_filter limit_cents (xs @ [x]))))"
  proof -
    let ?A = "set (List.map_filter limit_cents xs)"
    have mono: "Max (insert 0 ?A) \<le> Max (insert 0 (set (List.map_filter limit_cents (xs @ [x]))))"
      unfolding map_filter_snoc set_append by (rule Max_mono, blast, blast, (rule finite.insertI finite_UnI finite_set)+)
    have "spent g \<le> Max (insert 0 ?A)"
      using assms(2)[unfolded book_step_def]
    proof (elim conjE disjE exE)
      assume "spent g \<le> spent f"
      then show ?thesis using assms(1) by (simp add: book_ok_def)
    next
      fix cap assume c: "bf_approved_cap f = Some cap" "spent g \<le> cap"
      then have "cap \<in> ?A" using assms(1) by (auto simp: book_ok_def intro: last_of_member)
      then have "cap \<le> Max (insert 0 ?A)" by (intro Max_ge) auto
      with c(2) show ?thesis by simp
    qed
    then show ?thesis using mono by (rule order_trans)
  qed
  note f = assms(1)[unfolded book_ok_def]
  note g = assms(2)[unfolded book_step_def]
  show ?thesis
    unfolding book_ok_def
  proof (intro conjI sp)
    show "budget_inv g" using g by blast
    show "bf_approved_cap g = last_of (List.map_filter limit_cents (xs @ [x]))"
      using f g by (cases "limit_cents x") (simp_all add: map_filter_snoc last_of_def)
    show "bf_consumed g = sum_list (List.map consumed_cents (xs @ [x]))" using f g by simp
    show "open_ids g = set (List.map_filter reserved_id (xs @ [x])) - set (List.map_filter closing_id (xs @ [x]))"
      using f g by (cases x) (auto simp: map_filter_snoc known_ids_def)
    show "bf_closed_ids g = set (List.map_filter closing_id (xs @ [x])) \<union> set (List.map_filter exceeded_id (xs @ [x]))"
      using f g by (cases x) (auto simp: map_filter_snoc)
    show "distinct (List.map_filter reserved_id (xs @ [x]))" "distinct (List.map_filter closing_id (xs @ [x]))"
      "distinct (List.map_filter exceeded_id (xs @ [x]))"
      using f g by (cases x; auto simp: map_filter_snoc known_ids_def)+
    show "set (List.map_filter reserved_id (xs @ [x])) \<inter> set (List.map_filter exceeded_id (xs @ [x])) = {}"
      using f g by (cases x) (auto simp: map_filter_snoc known_ids_def)
    show "set (List.map_filter closing_id (xs @ [x])) \<subseteq> set (List.map_filter reserved_id (xs @ [x]))"
      using f g by (cases x) (auto simp: map_filter_snoc)
  qed
qed

lemma fold_book_ok: "fold_r apply_budget_payload empty_budget xs = Inr f \<Longrightarrow> book_ok xs f"
proof (induction xs arbitrary: f rule: rev_induct)
  case Nil
  then show ?case by (simp add: book_ok_def map_filter_def last_of_def)
next
  case (snoc x xs)
  then obtain g where g: "fold_r apply_budget_payload empty_budget xs = Inr g" "apply_budget_payload g x = Inr f"
    by (auto simp: fold_r_snoc bind_r_Inr_iff)
  then have "book_ok xs g" by (intro snoc.IH)
  moreover from this have "budget_inv g" unfolding book_ok_def by (rule conjunct1)
  with g(2) have "book_step g x f" by (rule apply_budget_payload_step)
  ultimately show ?case by (rule book_ok_step)
qed

section \<open>The contracts\<close>

lemma blind_currency: "blind decode_currency"
  unfolding decode_currency_def[abs_def] by (simp add: field_norm)

lemma blind_entry: "blind (decode_entry ks k)"
  by (rule blind_as_dict; simp add: decode_entry_def field_norm blind_currency)

lemma blind_budget_models: "(t, dec) \<in> set BUDGET_PAYLOAD_MODELS \<Longrightarrow> blind dec"
proof -
  have e: "keys_distinct v \<Longrightarrow> decode_entry ks k (norm v) = decode_entry ks k v" for ks k v
    using blind_entry unfolding blind_def by blast
  have r: "blind decode_reserved" "blind decode_consumed" "blind decode_exceeded"
    by (simp_all add: blind_def decode_reserved_def decode_consumed_def decode_exceeded_def e)
  moreover have "blind decode_limit"
    by (rule blind_as_dict; simp add: decode_limit_def field_norm blind_currency)
  moreover have "blind decode_released"
  proof (rule blind_as_dict)
    show "decode_released v = None" if "as_dict v = None" for v
      using that by (simp add: decode_released_def decode_entry_def)
    show "decode_released (PyDict (norm_dict d)) = decode_released (PyDict d)" if "keys_distinct (PyDict d)" for d
      using that e[OF that] by (simp add: decode_released_def field_norm norm_PyDict del: norm.simps)
  qed
  ultimately show "(t, dec) \<in> set BUDGET_PAYLOAD_MODELS \<Longrightarrow> blind dec" by (auto simp: BUDGET_PAYLOAD_MODELS_def)
qed

lemma apply_budget_fold_norm:
  assumes "keys_distinct (ed_payload (e_data e))"
  shows "apply_budget_fold p f (norm_event e) = apply_budget_fold p f e"
proof -
  have "dec (norm (ed_payload (e_data e))) = dec (ed_payload (e_data e))" if "map_of BUDGET_PAYLOAD_MODELS (e_type e) = Some dec" for dec
    using blind_budget_models[OF map_of_SomeD[OF that]] assms by (simp add: blind_def)
  then have "parse_budget_payload (norm_event e) = parse_budget_payload e"
    by (auto simp: parse_budget_payload_def norm_event_def split: option.split)
  then show ?thesis by (simp add: apply_budget_fold_def require_budget_actor_def norm_event_def)
qed

lemma apply_budget_fold_version: "apply_budget_fold p f (e\<lparr>e_streamversion := m\<rparr>) = apply_budget_fold p f e"
  by (simp add: apply_budget_fold_def parse_budget_payload_def require_budget_actor_def cong: option.case_cong)

interpretation budget_log: log_control "apply_budget_fold p" for p
  by unfold_locales (simp_all add: apply_budget_fold_norm apply_budget_fold_version)

interpretation budget_contract: projection "apply_budget_fold p"
  "\<lambda>e. ed_project_id (e_data e) = p \<and> List.member BUDGET_EVENT_TYPES (e_type e)" "\<lambda>_. True" budget_inv for p
proof (unfold_locales, goal_cases)
  case (1 e s)
  then show ?case by (auto simp: apply_budget_fold_def)
next
  case (2 s e t)
  then show ?case using apply_budget_fold_entry[of p s e t] apply_budget_payload_step[of s _ t]
    by (auto simp: book_step_def split: option.splits)
qed

end
