(* ===== verification/Budget_Control.thy ===== *)
theory Budget_Control
  imports Budget Store_Samples
begin

text \<open>
  \<open>BudgetControl\<close> of \<open>budget/control.py\<close>: it appends one budget fact against a frozen fold, and
  \<open>reserve_or_exceed\<close> records either the reservation or the fact that it would exceed the cap.  The
  properties: what a log of budget facts can never do, what the two calls commit and when, and the
  exact set of money texts.
\<close>

section \<open>The control\<close>

definition budget_preflight_errors :: "budget_error preflight_errors" where
  "budget_preflight_errors = \<lparr>
     clone_failed = (\<lambda>_. BudgetCallError (U ''invalid-draft'')),
     assigned_fields = (\<lambda>_. BudgetCallError (U ''store-assigned-fields'')),
     sequence_exhausted = BudgetCallError (U ''sequence-exhausted''),
     invalid_draft = BudgetPayloadError (U ''invalid-event''),
     wrong_aggregate = BudgetCallError (U ''project-mismatch'')\<rparr>"

definition budget_preflight_event :: "pystr \<Rightarrow> int \<Rightarrow> pyval \<Rightarrow> budget_error + pydict \<times> research_event" where
  "budget_preflight_event project_id head document =
     preflight budget_preflight_errors (\<lambda>e. ed_project_id (e_data e) = project_id) head document"

definition budget_rebuild :: "env \<Rightarrow> pydatetime \<Rightarrow> (store \<Rightarrow> store) \<Rightarrow> pystr \<Rightarrow> int \<Rightarrow> store
    \<Rightarrow> store \<times> (budget_error + int \<times> budget_fold)" where
  "budget_rebuild env now others project_id page_size s =
     frozen_fold BudgetStoreFailed (apply_budget_fold project_id) empty_budget env now others page_size s"

definition budget_append_at :: "env \<Rightarrow> pydatetime \<Rightarrow> (store \<Rightarrow> store) \<Rightarrow> pystr \<Rightarrow> int \<times> budget_fold \<Rightarrow> pyval
    \<Rightarrow> store \<Rightarrow> store \<times> (budget_error + stored_event)" where
  "budget_append_at env now others project_id head document s =
     append_at budget_preflight_errors (\<lambda>e. ed_project_id (e_data e) = project_id) BudgetStoreFailed
       (apply_budget_fold project_id) env now others head document s"

definition budget_append :: "env \<Rightarrow> pydatetime \<Rightarrow> pydatetime \<Rightarrow> (store \<Rightarrow> store) \<Rightarrow> (store \<Rightarrow> store) \<Rightarrow> pystr \<Rightarrow> int
    \<Rightarrow> pyval \<Rightarrow> store \<Rightarrow> store \<times> (budget_error + stored_event)" where
  "budget_append env now now' others others' project_id page_size document s =
     (case budget_rebuild env now others project_id page_size s of
        (s1, Inl e) \<Rightarrow> (s1, Inl e)
      | (s1, Inr head) \<Rightarrow> budget_append_at env now' others' project_id head document s1)"

text \<open>What \<open>reserve_or_exceed\<close> decides from the frozen fold: whether the reservation would exceed.\<close>

definition reserve_decision :: "pystr \<Rightarrow> int \<times> budget_fold \<Rightarrow> pyval \<Rightarrow> budget_error + bool" where
  "reserve_decision project_id head document =
     bind_r (budget_preflight_event project_id (fst head) document) (\<lambda>checked.
     bind_r (parse_budget_payload (snd checked)) (\<lambda>payload.
     case payload of
       BudgetReservedPayload p \<Rightarrow>
         if e_type (snd checked) \<noteq> TYPE_BUDGET_RESERVED then call_error ''invalid-draft''
         else bind_r (parse_money (be_amount p)) (\<lambda>requested.
           bind_r (parse_money (be_cap p)) (\<lambda>cap.
           bind_r (require_within_approved_limit (snd head) requested cap) (\<lambda>_.
           Inr (reservation_would_exceed (snd head) requested cap))))
     | _ \<Rightarrow> call_error ''invalid-draft''))"

definition record_exceeded :: "env \<Rightarrow> pydatetime \<Rightarrow> (store \<Rightarrow> store) \<Rightarrow> pystr \<Rightarrow> int \<times> budget_fold \<Rightarrow> pyval
    \<Rightarrow> store \<Rightarrow> store \<times> (budget_error + stored_event)" where
  "record_exceeded env now others project_id head document s =
     (case budget_preflight_event project_id (fst head) document of
        Inl e \<Rightarrow> (s, Inl e)
      | Inr checked \<Rightarrow>
          if e_type (snd checked) \<noteq> TYPE_BUDGET_EXCEEDED then (s, call_error ''invalid-draft'')
          else (case budget_append_at env now others project_id head document s of
              (s', Inl e) \<Rightarrow> (s', Inl e)
            | (s', Inr _) \<Rightarrow> (s', Inl BudgetExceededError)))"

definition reserve_or_exceed :: "env \<Rightarrow> pydatetime \<Rightarrow> pydatetime \<Rightarrow> (store \<Rightarrow> store) \<Rightarrow> (store \<Rightarrow> store) \<Rightarrow> pystr \<Rightarrow> int
    \<Rightarrow> pyval \<Rightarrow> pyval \<Rightarrow> int option \<Rightarrow> store \<Rightarrow> store \<times> (budget_error + stored_event)" where
  "reserve_or_exceed env now now' others others' project_id page_size reserved exceeded expected s =
     (case budget_rebuild env now others project_id page_size s of
        (s1, Inl e) \<Rightarrow> (s1, Inl e)
      | (s1, Inr head) \<Rightarrow>
          (case bind_r (case expected of
                  None \<Rightarrow> Inr ()
                | Some x \<Rightarrow> if fst head \<noteq> x then Inl (BudgetStoreFailed (EventSequenceConflictError x (fst head))) else Inr ())
                (\<lambda>_. reserve_decision project_id head reserved) of
             Inl e \<Rightarrow> (s1, Inl e)
           | Inr would_exceed \<Rightarrow>
               if would_exceed then record_exceeded env now' others' project_id head exceeded s1
               else budget_append_at env now' others' project_id head reserved s1))"

section \<open>Only a committed exceeded fact raises \<open>BudgetExceededError\<close>\<close>

lemma parse_money_not_exceeded [simp]: "parse_money s \<noteq> Inl BudgetExceededError"
  by (simp add: parse_money_def)

lemma require_limit_not_exceeded [simp]: "require_within_approved_limit f a c \<noteq> Inl BudgetExceededError"
  by (simp add: require_within_approved_limit_def split: option.split)

lemma apply_budget_payload_not_exceeded [simp]: "apply_budget_payload f x \<noteq> Inl BudgetExceededError"
  by (cases x) (auto simp: apply_reserved_def close_reservation_def apply_exceeded_def apply_limit_def bind_r_Inl_iff
    split: option.split)

lemma parse_budget_not_exceeded [simp]: "parse_budget_payload e \<noteq> Inl BudgetExceededError"
  by (simp add: parse_budget_payload_def lift_option_def split: option.split)

lemma apply_budget_fold_not_exceeded [simp]: "apply_budget_fold p f e \<noteq> Inl BudgetExceededError"
  by (auto simp: apply_budget_fold_def bind_r_Inl_iff require_budget_actor_def Let_def split: option.split)

lemma map_sum_Inl_iff: "map_sum f g x = Inl y \<longleftrightarrow> (\<exists>z. x = Inl z \<and> y = f z)"
  by (cases x) auto

lemma preflight_not_exceeded [simp]: "preflight budget_preflight_errors own h document \<noteq> Inl BudgetExceededError"
  by (auto simp: preflight_def budget_preflight_errors_def bind_r_Inl_iff check_r_iff lift_option_iff Let_def map_sum_Inl_iff)

lemma append_at_not_exceeded: "snd (budget_append_at env now others p head document s) \<noteq> Inl BudgetExceededError"
proof -
  have "bind_r (preflight budget_preflight_errors own h document) (\<lambda>checked.
      bind_r (apply_budget_fold p f (snd checked)) (\<lambda>_. Inr (fst checked))) \<noteq> Inl BudgetExceededError" for own h f
    by (simp add: bind_r_Inl_iff)
  moreover have "map_sum BudgetStoreFailed id r \<noteq> Inl BudgetExceededError" for r :: "store_error + stored_event"
    by (cases r) auto
  ultimately show ?thesis
    by (auto simp: budget_append_at_def append_at_def split: sum.split prod.split)
qed

lemma fold_not_exceeded: "fold_r (apply_budget_fold p) f es \<noteq> Inl BudgetExceededError"
  by (induction es arbitrary: f) (auto simp: bind_r_Inl_iff)

lemma reserve_decision_not_exceeded: "reserve_decision p head document \<noteq> Inl BudgetExceededError"
  by (auto simp: reserve_decision_def budget_preflight_event_def bind_r_Inl_iff split: budget_payload.split if_splits)

section \<open>Outcomes\<close>

lemma apply_reserved_result:
  assumes "apply_reserved f e = Inr g"
  shows "spent g \<le> cents_of (be_cap e)" "be_budget_id e \<in> open_ids g"
proof -
  obtain amount cap where a: "parse_money (be_cap e) = Inr cap" "\<not> reservation_would_exceed f amount cap"
    "g = f\<lparr>bf_open := bf_open f @ [\<lparr>or_budget_id = be_budget_id e, or_call_id = be_call_id e,
             or_currency = be_currency e, or_amount = amount, or_cap = cap\<rparr>]\<rparr>"
    using assms by (auto simp: apply_reserved_def bind_r_Inr_iff split: if_splits)
  have "spent g = spent f + amount" using a(3) by (simp add: spent_def outstanding_def)
  with a(2) parse_money_cents[OF a(1)] show "spent g \<le> cents_of (be_cap e)"
    by (simp add: reservation_would_exceed_def spent_def)
  show "be_budget_id e \<in> open_ids g" using a(3) by simp
qed

lemma apply_budget_fold_parsed:
  assumes "apply_budget_fold p f e = Inr g" "ed_project_id (e_data e) = p" "List.member BUDGET_EVENT_TYPES (e_type e)"
    "parse_budget_payload e = Inr x"
  shows "apply_budget_payload f x = Inr g"
  using assms by (auto simp: apply_budget_fold_def bind_r_Inr_iff)

text \<open>What a committed append of this control means.\<close>

lemma budget_append_at_committed:
  assumes "fold_r (apply_budget_fold p) empty_budget (facts env s0) = Inr f" "clock_ok now" "draft_ok env document"
    "store_inv env (others s)" "prefix (facts env s0) (facts env (others s))"
    "budget_append_at env now others p (int (length (facts env s0)), f) document s = (s', Inr st)"
  obtains pre g d where "store_inv env s'" "facts env s' = facts env s0 @ [fact_of st]"
    "apply_budget_fold p f pre = Inr g" "fold_r (apply_budget_fold p) empty_budget (facts env s') = Inr g"
    "e_type (st_event st) = e_type pre" "parse_budget_payload (st_event st) = parse_budget_payload pre"
    "budget_preflight_event p (int (length (facts env s0))) document = Inr (d, pre)"
    "ed_project_id (e_data pre) = p"
proof (rule budget_log.append_at_committed[OF assms(1-5) assms(6)[unfolded budget_append_at_def]])
  fix pre g
  assume *: "store_inv env s'" "facts env s' = facts env s0 @ [fact_of st]" "ed_project_id (e_data pre) = p"
    "apply_budget_fold p f pre = Inr g" "fold_r (apply_budget_fold p) empty_budget (facts env s') = Inr g"
    "\<exists>m. st_event st = pre\<lparr>e_streamversion := m\<rparr>"
    "\<exists>d. preflight budget_preflight_errors (\<lambda>e. ed_project_id (e_data e) = p) (int (length (facts env s0))) document = Inr (d, pre)"
  obtain m where m: "st_event st = pre\<lparr>e_streamversion := m\<rparr>" using *(6) by blast
  obtain d where "budget_preflight_event p (int (length (facts env s0))) document = Inr (d, pre)"
    using *(7) by (auto simp: budget_preflight_event_def)
  moreover have "e_type (st_event st) = e_type pre" "parse_budget_payload (st_event st) = parse_budget_payload pre"
    by (simp_all add: m parse_budget_payload_def cong: option.case_cong)
  ultimately show ?thesis using * by (intro that[of pre g d]) auto
qed

lemma budget_append_at_refused:
  "budget_append_at env now others p head document s = (s', Inl e) \<Longrightarrow> s' = s \<or> s' = others s"
  unfolding budget_append_at_def by (rule budget_log.append_at_refused)

lemma reserve_decisionD:
  assumes "reserve_decision p head document = Inr b" "budget_preflight_event p (fst head) document = Inr (d, pre)"
  obtains q where "parse_budget_payload pre = Inr (BudgetReservedPayload q)" "e_type pre = TYPE_BUDGET_RESERVED"
proof (cases "parse_budget_payload pre")
  case (Inr x)
  then show ?thesis using assms that by (cases x) (auto simp: reserve_decision_def split: if_splits)
qed (use assms in \<open>simp add: reserve_decision_def\<close>)

lemma budget_types: "List.member BUDGET_EVENT_TYPES TYPE_BUDGET_RESERVED" "List.member BUDGET_EVENT_TYPES TYPE_BUDGET_EXCEEDED"
  by (simp_all add: BUDGET_EVENT_TYPES_def)

lemma parse_exceeded:
  assumes "e_type e = TYPE_BUDGET_EXCEEDED" "parse_budget_payload e = Inr x"
  obtains q where "x = BudgetExceededPayload q"
  using assms by (auto simp: parse_budget_payload_def BUDGET_PAYLOAD_MODELS_def budget_type_defs lift_option_iff decode_exceeded_def)

lemma reserved_committed:
  assumes "fold_r (apply_budget_fold p) empty_budget (facts env s0) = Inr f" "clock_ok now" "draft_ok env document"
    "store_inv env (others s)" "prefix (facts env s0) (facts env (others s))"
    "reserve_decision p (int (length (facts env s0)), f) document = Inr b"
    "budget_append_at env now others p (int (length (facts env s0)), f) document s = (s', Inr st)"
  shows "\<exists>q g. facts env s' = facts env s0 @ [fact_of st]
    \<and> e_type (st_event st) = TYPE_BUDGET_RESERVED \<and> parse_budget_payload (st_event st) = Inr (BudgetReservedPayload q)
    \<and> fold_r (apply_budget_fold p) empty_budget (facts env s') = Inr g
    \<and> be_budget_id q \<in> open_ids g \<and> spent g \<le> cents_of (be_cap q)"
proof (rule budget_append_at_committed[OF assms(1-5,7)])
  fix pre g d
  assume *: "facts env s' = facts env s0 @ [fact_of st]" "apply_budget_fold p f pre = Inr g"
    "fold_r (apply_budget_fold p) empty_budget (facts env s') = Inr g" "e_type (st_event st) = e_type pre"
    "parse_budget_payload (st_event st) = parse_budget_payload pre"
    "budget_preflight_event p (int (length (facts env s0))) document = Inr (d, pre)" "ed_project_id (e_data pre) = p"
  obtain q where q: "parse_budget_payload pre = Inr (BudgetReservedPayload q)" "e_type pre = TYPE_BUDGET_RESERVED"
    by (rule reserve_decisionD[OF assms(6), of d pre]) (use *(6) in auto)
  then have "apply_reserved f q = Inr g"
    using apply_budget_fold_parsed[OF *(2,7)] budget_types by simp
  from apply_reserved_result[OF this] * q show ?thesis by auto
qed

lemma exceeded_committed:
  assumes "fold_r (apply_budget_fold p) empty_budget (facts env s0) = Inr f" "clock_ok now" "draft_ok env document"
    "store_inv env (others s)" "prefix (facts env s0) (facts env (others s))"
    "record_exceeded env now others p (int (length (facts env s0)), f) document s = (s', Inl BudgetExceededError)"
  shows "\<exists>x g. facts env s' = facts env s0 @ [x] \<and> e_type x = TYPE_BUDGET_EXCEEDED
    \<and> fold_r (apply_budget_fold p) empty_budget (facts env s') = Inr g \<and> bf_open g = bf_open f \<and> bf_consumed g = bf_consumed f"
proof -
  obtain checked where c: "budget_preflight_event p (int (length (facts env s0))) document = Inr checked"
    using assms(6) by (cases "budget_preflight_event p (int (length (facts env s0))) document")
      (auto simp: record_exceeded_def budget_preflight_event_def)
  obtain t r where t: "budget_append_at env now others p (int (length (facts env s0)), f) document s = (t, r)" by fastforce
  then have r: "r \<noteq> Inl BudgetExceededError" using append_at_not_exceeded by (metis snd_conv)
  then obtain st where st: "r = Inr st" "t = s'" "e_type (snd checked) = TYPE_BUDGET_EXCEEDED"
    using assms(6) c t by (cases r) (auto simp: record_exceeded_def split: if_splits)
  show ?thesis
  proof (rule budget_append_at_committed[OF assms(1-5) t[unfolded st]])
    fix pre g d
    assume *: "facts env s' = facts env s0 @ [fact_of st]" "apply_budget_fold p f pre = Inr g"
      "fold_r (apply_budget_fold p) empty_budget (facts env s') = Inr g" "e_type (st_event st) = e_type pre"
      "budget_preflight_event p (int (length (facts env s0))) document = Inr (d, pre)" "ed_project_id (e_data pre) = p"
    have ty: "e_type pre = TYPE_BUDGET_EXCEEDED" using c *(5) st(3) by simp
    then obtain x where x: "parse_budget_payload pre = Inr x" "apply_budget_payload f x = Inr g"
      using *(2,6) budget_types by (auto simp: apply_budget_fold_def bind_r_Inr_iff)
    then obtain q where "x = BudgetExceededPayload q" using parse_exceeded[OF ty] by blast
    with x(2) have "bf_open g = bf_open f" "bf_consumed g = bf_consumed f"
      by (auto simp: apply_exceeded_def bind_r_Inr_iff split: if_splits)
    then show ?thesis using * ty by (intro exI[of _ "fact_of st"] exI[of _ g]) (simp add: fact_of_def norm_event_def)
  qed
qed

lemma record_exceeded_refused:
  assumes "record_exceeded env now others p head document s = (s', Inl e)" "e \<noteq> BudgetExceededError"
  shows "s' = s \<or> s' = others s"
proof (cases "budget_preflight_event p (fst head) document")
  case (Inr checked)
  obtain t r where t: "budget_append_at env now others p head document s = (t, r)" by fastforce
  with assms Inr show ?thesis
    by (cases r) (auto simp: record_exceeded_def split: if_splits dest: budget_append_at_refused)
qed (use assms in \<open>simp add: record_exceeded_def\<close>)

lemma record_exceeded_Inl: "\<exists>e. snd (record_exceeded env now others p head document s) = Inl e"
  by (auto simp: record_exceeded_def split: sum.split prod.split)

section \<open>Samples\<close>

definition money_payload :: "string \<Rightarrow> string \<Rightarrow> string \<Rightarrow> pyval" where
  "money_payload b amount cap = PyDict [(KStr (U ''budgetId''), PyStr (U b)), (KStr (U ''callId''), PyStr (U ''c'')),
     (KStr (U ''amount''), PyStr (U amount)), (KStr (U ''cap''), PyStr (U cap))]"

definition sample_book :: "research_event list" where
  "sample_book =
     [sample_event_by (Some HUMAN) TYPE_BUDGET_LIMIT_RECORDED 1 None (PyDict [(KStr (U ''cap''), PyStr (U ''10.00''))]),
      sample_event_by (Some SYSTEM) TYPE_BUDGET_RESERVED 2 None (money_payload ''b'' ''3.00'' ''10.00''),
      sample_event_by (Some SYSTEM) TYPE_BUDGET_RESERVED 3 None (money_payload ''d'' ''7.00'' ''10.00''),
      sample_event_by (Some SYSTEM) TYPE_BUDGET_CONSUMED 4 None (money_payload ''b'' ''2.50'' ''10.00'')]"

lemma sample_book_folds:
  "fold_r (apply_budget_fold (U ''p'')) empty_budget sample_book = Inr
     \<lparr>bf_open = [\<lparr>or_budget_id = U ''d'', or_call_id = U ''c'', or_currency = CURRENCY_CNY, or_amount = 700, or_cap = 1000\<rparr>],
      bf_closed_ids = {U ''b''}, bf_consumed = 250, bf_approved_cap = Some 1000\<rparr>"
  by code_simp

abbreviation free_payload :: pyval where
  "free_payload \<equiv> money_payload ''b'' ''0.00'' ''0.00''"

abbreviation free_draft :: pydict where
  "free_draft \<equiv> draft_by (Some SYSTEM) TYPE_BUDGET_RESERVED 7 None free_payload"

lemma free_draft_checks: "EventIdentifier TYPE_BUDGET_RESERVED" "require_event_payload free_payload"
  "utf8_ok TYPE_BUDGET_RESERVED" "keys_distinct free_payload" "floats_ok FFin free_payload"
  by code_simp+

lemma free_draft_passes:
  "reserve_decision (U ''p'') (0, empty_budget) (PyDict free_draft) = Inr False"
  "bind_r (preflight budget_preflight_errors (\<lambda>e. ed_project_id (e_data e) = U ''p'') 0 (PyDict free_draft))
     (\<lambda>checked. bind_r (apply_budget_fold (U ''p'') empty_budget (snd checked)) (\<lambda>_. Inr (fst checked))) = Inr free_draft"
  by code_simp+

abbreviation free_reserve :: "store \<times> (budget_error + stored_event)" where
  "free_reserve \<equiv> reserve_or_exceed sample_env sample_clock sample_clock id id (U ''p'') 100 (PyDict free_draft)
     (PyDict free_draft) (Some 0) (empty_store sample_env)"

lemma page_100: "page_size_ok 100" by (simp add: page_size_ok_def MAX_READ_PAGE_SIZE_def)

lemma free_draft_ok: "draft_ok sample_env (PyDict free_draft)"
  by (rule sample_draft_ok) (simp_all add: free_draft_checks sample_env_def)

lemma free_reserve_succeeds:
  obtains s' st where "free_reserve = (s', Inr st)"
proof -
  obtain s1 where f: "budget_rebuild sample_env sample_clock id (U ''p'') 100 (empty_store sample_env) = (s1, Inr (0, empty_budget))"
    and s1: "store_inv sample_env s1" "writable s1" "db_events s1 = []"
    unfolding budget_rebuild_def
    by (rule frozen_fold_exact[OF sample_env_ok(1) sample_clock_ok(2) empty_store_ok(1,2) page_100 grows_id(1),
        where failed = BudgetStoreFailed and step = "apply_budget_fold (U ''p'')" and init = empty_budget])
      (use empty_store_ok(3)[of sample_env] in simp)
  have "is_ok (append_checked sample_env sample_clock (PyDict free_draft) (Some 0) s1)"
    by (rule first_event_accepted) (use s1 free_draft_checks in simp_all)
  then obtain s' st where "append_store sample_env sample_clock (PyDict free_draft) (Some 0) s1 = (s', Inr st)"
    by (auto simp: is_ok_iff append_store_def)
  then have "free_reserve = (s', Inr st)"
    unfolding reserve_or_exceed_def budget_append_at_def append_at_def f by (simp add: free_draft_passes)
  then show ?thesis by (rule that)
qed

section \<open>Statements\<close>



text \<open>In an accepted log each budget id is reserved at most once, or recorded as exceeded at most once
  and then never reserved; it is consumed or released at most once, and only after its reservation.  The
  open reservations are the reserved ids that were not closed.\<close>

lemma budget_ids_once:
  assumes "fold_r (apply_budget_fold p) empty_budget es = Inr f"
  shows "distinct (List.map_filter reserved_id (budget_book p es) @ List.map_filter exceeded_id (budget_book p es))
    \<and> distinct (List.map_filter closing_id (budget_book p es))
    \<and> set (List.map_filter closing_id (budget_book p es)) \<subseteq> set (List.map_filter reserved_id (budget_book p es))
    \<and> distinct (List.map or_budget_id (bf_open f))
    \<and> open_ids f = set (List.map_filter reserved_id (budget_book p es)) - set (List.map_filter closing_id (budget_book p es))"
  using fold_book_ok[OF fold_budget_book[OF assms]] by (simp add: book_ok_def budget_inv_def)

theorem budget_ids_once_witness:
  "distinct (List.map_filter reserved_id (budget_book (U ''p'') sample_book))
   \<and> {U ''d''} = set (List.map_filter reserved_id (budget_book (U ''p'') sample_book))
       - set (List.map_filter closing_id (budget_book (U ''p'') sample_book))"
  using budget_ids_once[OF sample_book_folds] by (simp add: open_ids_def)

text \<open>\<open>reserve_or_exceed\<close> has three outcomes.  It returns: one \<open>budget.reserved\<close> fact was added to the
  log it had folded, its id is open, and everything spent and reserved fits its cap.  It raises
  \<open>BudgetExceededError\<close>: one \<open>budget.exceeded\<close> fact was added and no money moved.  It raises anything
  else: without other writers the log is what it was.\<close>

lemma reserve_or_exceed_outcomes:
  assumes "env_ok env" "now \<noteq> Naive" "clock_ok now'" "store_inv env s" "report_ok env s" "page_size_ok page_size"
    "grows env others" "grows env others'" "draft_ok env reserved" "draft_ok env exceeded"
    "reserve_or_exceed env now now' others others' p page_size reserved exceeded expected s = (s', r)"
  shows "case r of
      Inr st \<Rightarrow> \<exists>q g. facts env s' = facts env s @ [fact_of st] \<and> e_type (st_event st) = TYPE_BUDGET_RESERVED
        \<and> parse_budget_payload (st_event st) = Inr (BudgetReservedPayload q)
        \<and> fold_r (apply_budget_fold p) empty_budget (facts env s') = Inr g
        \<and> be_budget_id q \<in> open_ids g \<and> bf_consumed g + outstanding g \<le> cents_of (be_cap q)
    | Inl e \<Rightarrow>
        if e = BudgetExceededError
        then (\<exists>x f g. facts env s' = facts env s @ [x] \<and> e_type x = TYPE_BUDGET_EXCEEDED
          \<and> fold_r (apply_budget_fold p) empty_budget (facts env s) = Inr f
          \<and> fold_r (apply_budget_fold p) empty_budget (facts env s') = Inr g
          \<and> bf_open g = bf_open f \<and> bf_consumed g = bf_consumed f)
        else (others = id \<and> others' = id \<longrightarrow> facts env s' = facts env s)"
proof -
  obtain s1 where f: "budget_rebuild env now others p page_size s =
      (s1, map_sum id (Pair (int (length (facts env s)))) (fold_r (apply_budget_fold p) empty_budget (facts env s)))"
    and i: "store_inv env s1" "prefix (facts env s) (facts env s1)" "others = id \<longrightarrow> db_events s1 = db_events s"
    unfolding budget_rebuild_def by (rule frozen_fold_exact[OF assms(1,2,4-7)])
  note g = grows_at[OF assms(8) i(1)]
  have p: "prefix (facts env s) (facts env (others' s1))" using i(2) g(2) by (rule prefix_order.trans)
  have quiet: "s' = s1 \<or> s' = others' s1 \<Longrightarrow> others = id \<and> others' = id \<longrightarrow> facts env s' = facts env s"
    using i(3) by (auto simp: facts_def)
  show ?thesis
  proof (cases "fold_r (apply_budget_fold p) empty_budget (facts env s)")
    case (Inl e)
    then have "s' = s1" "r = Inl e" using assms(11) f by (auto simp: reserve_or_exceed_def)
    then show ?thesis using quiet fold_not_exceeded Inl by auto
  next
    case (Inr y)
    let ?head = "(int (length (facts env s)), y)"
    let ?go = "bind_r (case expected of None \<Rightarrow> Inr ()
        | Some x \<Rightarrow> if fst ?head \<noteq> x then Inl (BudgetStoreFailed (EventSequenceConflictError x (fst ?head))) else Inr ())
        (\<lambda>_. reserve_decision p ?head reserved)"
    have run: "(s', r) = (case ?go of Inl e \<Rightarrow> (s1, Inl e)
        | Inr b \<Rightarrow> if b then record_exceeded env now' others' p ?head exceeded s1
            else budget_append_at env now' others' p ?head reserved s1)"
      using assms(11) f Inr by (simp add: reserve_or_exceed_def del: length_facts)
    show ?thesis
    proof (cases ?go)
      case (Inl e)
      then have "s' = s1" "r = Inl e" using run by auto
      moreover have "e \<noteq> BudgetExceededError"
        using Inl reserve_decision_not_exceeded by (auto simp: bind_r_Inl_iff split: option.splits if_splits)
      ultimately show ?thesis using quiet by auto
    next
      case dec: (Inr b)
      then have d: "reserve_decision p ?head reserved = Inr b" by (auto simp: bind_r_Inr_iff)
      show ?thesis
      proof (cases b)
        case True
        then have x: "record_exceeded env now' others' p ?head exceeded s1 = (s', r)" using run dec by simp
        then obtain e where e: "r = Inl e" using record_exceeded_Inl by (metis snd_conv)
        show ?thesis
        proof (cases "e = BudgetExceededError")
          case True
          then show ?thesis
            using exceeded_committed[where others = others' and s = s1, OF Inr assms(3,10) g(1) p, of s'] x e Inr True by auto
        next
          case False
          then show ?thesis using record_exceeded_refused x e quiet by auto
        qed
      next
        case False
        then have x: "budget_append_at env now' others' p ?head reserved s1 = (s', r)" using run dec by simp
        show ?thesis
        proof (cases r)
          case (Inl e)
          then have "e \<noteq> BudgetExceededError"
            using append_at_not_exceeded[of env now' others' p ?head reserved s1] x by auto
          moreover have "s' = s1 \<or> s' = others' s1" using budget_append_at_refused[OF x[unfolded Inl]] .
          ultimately show ?thesis using quiet Inl by auto
        next
          case r: (Inr st)
          show ?thesis
            using reserved_committed[where others = others' and s = s1, OF Inr assms(3,9) g(1) p d x[unfolded r]]
            unfolding r sum.case spent_def .
        qed
      qed
    qed
  qed
qed

theorem reserve_or_exceed_outcomes_witness:
  "\<exists>s' st g. free_reserve = (s', Inr st) \<and> facts sample_env s' = [fact_of st]
     \<and> fold_r (apply_budget_fold (U ''p'')) empty_budget (facts sample_env s') = Inr g \<and> open_ids g \<noteq> {}"
proof (rule free_reserve_succeeds)
  fix s' st assume r: "free_reserve = (s', Inr st)"
  from r reserve_or_exceed_outcomes[OF sample_env_ok(1) sample_clock_ok(2,1) empty_store_ok(1,2) page_100
      grows_id(1) grows_id(1) free_draft_ok free_draft_ok r]
  show ?thesis by auto
qed

text \<open>The money texts are exactly the renderings of the amounts from 0 to 9999999.99: formatting such an
  amount gives a valid text that parses to the same amount, and a text that parses is the one that
  formatting its amount gives.\<close>

lemma money_text_exact:
  "(MoneyAmount s \<longleftrightarrow> (\<exists>n. format_money n = Inr s))
   \<and> (parse_money s = Inr n \<longleftrightarrow> format_money n = Inr s)
   \<and> (is_ok (format_money n) \<longleftrightarrow> 0 \<le> n \<and> n \<le> 999999999)"
proof -
  have fm: "format_money n = Inr s \<longleftrightarrow> 0 \<le> n \<and> n \<le> 999999999 \<and> s = money_text (nat n)" for n s
    by (auto simp: format_money_def)
  have pm: "parse_money s = Inr n \<longleftrightarrow> format_money n = Inr s" for n s
    unfolding fm by (metis parse_money_ok parse_money_text int_nat_eq nat_int nat_le_iff of_nat_0_le_iff of_nat_le_iff of_nat_numeral)
  have len: "4 \<le> length s \<and> length s \<le> 11" if "fullmatch MONEY_PATTERN s" for s
    using that by (auto simp: fullmatch_money)
  have "MoneyAmount s \<longleftrightarrow> (\<exists>n. parse_money s = Inr n)"
    using len[of s] by (auto simp: MoneyAmount_def parse_money_def)
  then show ?thesis using pm fm by (auto simp: is_ok_iff)
qed

end
