(* ===== verification/Requests.thy ===== *)
theory Requests
  imports Drafts
begin

text \<open>
  What the closed request documents share: the identity of the event to be written, the actor, the fields
  around the payload, and the draft made of them.
\<close>

section \<open>What every request carries\<close>

record request_head =
  rq_project_id :: pystr
  rq_experiment_revision :: int
  rq_source :: pystr
  rq_subject :: pystr
  rq_stream_id :: pystr
  rq_actor :: event_actor
  rq_event_id :: pystr
  rq_event_time :: pystr
  rq_evidence_refs :: "pystr list"

definition decode_event_identity :: "pyval \<Rightarrow> (pystr \<times> pystr) option" where
  "decode_event_identity v = do {
     d \<leftarrow> as_dict v;
     check_o (only_keys [U ''id'', U ''time''] d);
     i \<leftarrow> req_field d (U ''id'') decode_text;
     t \<leftarrow> req_field d (U ''time'') decode_stamp;
     Some (i, t) }"

definition decode_kind :: "actor_kind list \<Rightarrow> pyval \<Rightarrow> actor_kind option" where
  "decode_kind kinds v = Option.bind (Option.bind (as_str v) actor_kind_of) (keep_o (List.member kinds))"

text \<open>The actors of proposals and questions may name a model, which only an AI has; the others have none.\<close>

definition decode_model_actor :: "actor_kind list \<Rightarrow> pyval \<Rightarrow> event_actor option" where
  "decode_model_actor kinds v = do {
     d \<leftarrow> as_dict v;
     check_o (only_keys [U ''id'', U ''kind'', U ''modelId''] d);
     i \<leftarrow> req_field d (U ''id'') decode_identifier;
     k \<leftarrow> req_field d (U ''kind'') (decode_kind kinds);
     m \<leftarrow> opt_field d (U ''modelId'') None (nullable_of decode_identifier);
     check_o (\<not> (m \<noteq> None \<and> k \<noteq> AI));
     Some \<lparr>actor_id = i, actor_kind_field = Some k, actor_model_id = m\<rparr> }"

definition decode_plain_actor :: "actor_kind list \<Rightarrow> pyval \<Rightarrow> event_actor option" where
  "decode_plain_actor kinds v = do {
     d \<leftarrow> as_dict v;
     check_o (only_keys [U ''id'', U ''kind''] d);
     i \<leftarrow> req_field d (U ''id'') decode_identifier;
     k \<leftarrow> req_field d (U ''kind'') (decode_kind kinds);
     Some \<lparr>actor_id = i, actor_kind_field = Some k, actor_model_id = None\<rparr> }"

definition request_keys :: "pystr list" where
  "request_keys = [U ''apiVersion'', U ''kind'', U ''projectId'', U ''experimentRevision'', U ''source'', U ''subject'',
     U ''streamid'', U ''actor'', U ''event'', U ''evidenceRefs'']"

definition decode_request_head :: "string \<Rightarrow> (pyval \<Rightarrow> event_actor option) \<Rightarrow> (pyval \<Rightarrow> pystr list option) \<Rightarrow> pydict
    \<Rightarrow> request_head option" where
  "decode_request_head kind dec_actor dec_refs d = do {
     req_field d (U ''apiVersion'') (decode_literal [U ''researchos.dev/v0alpha1'']);
     req_field d (U ''kind'') (decode_literal [U kind]);
     p \<leftarrow> req_field d (U ''projectId'') decode_identifier;
     n \<leftarrow> req_field d (U ''experimentRevision'') (decode_range 1 CLOUD_EVENTS_INTEGER_MAX);
     src \<leftarrow> req_field d (U ''source'') decode_uri_reference;
     sub \<leftarrow> req_field d (U ''subject'') decode_text;
     sid \<leftarrow> req_field d (U ''streamid'') decode_identifier;
     a \<leftarrow> req_field d (U ''actor'') dec_actor;
     ev \<leftarrow> req_field d (U ''event'') decode_event_identity;
     er \<leftarrow> req_field d (U ''evidenceRefs'') dec_refs;
     Some \<lparr>rq_project_id = p, rq_experiment_revision = n, rq_source = src, rq_subject = sub, rq_stream_id = sid, rq_actor = a,
       rq_event_id = fst ev, rq_event_time = snd ev, rq_evidence_refs = er\<rparr> }"

section \<open>The draft\<close>

definition request_actor_document :: "event_actor \<Rightarrow> pydict" where
  "request_actor_document a = draft_actor (actor_id a) (map_option kind_text (actor_kind_field a)) (actor_model_id a)"

definition request_event_draft :: "pystr \<Rightarrow> request_head \<Rightarrow> pydict \<Rightarrow> pystr option \<Rightarrow> pydict" where
  "request_event_draft event_type h payload run =
     draft_document \<lparr>dh_id = rq_event_id h, dh_type = event_type, dh_time = rq_event_time h, dh_source = rq_source h,
         dh_subject = rq_subject h, dh_stream = rq_stream_id h\<rparr>
       (draft_data (request_actor_document (rq_actor h)) (rq_project_id h) (rq_experiment_revision h) None payload
         (rq_evidence_refs h) run None)"

definition text_list :: "pystr list \<Rightarrow> pyval" where "text_list xs = PyList (List.map PyStr xs)"

lemmas field_reading = req_field_def opt_field_def omit_field_def nullable_of_def List.member_iff check_o_def key_if_def

lemma codec_text_list:
  "codec PyStr dec \<Longrightarrow> codec text_list (decode_array lo hi dec)"
  "codec PyStr dec \<Longrightarrow> codec text_list (decode_unique lo hi dec)"
  using codec_array codec_unique unfolding text_list_def[abs_def] by blast+

lemma reads_identifier: "readable decode_identifier x \<Longrightarrow> EventIdentifier x"
  by (auto simp: readable_def decoded_checks)

section \<open>The head of a request\<close>

definition request_head_ok :: "request_head \<Rightarrow> bool" where
  "request_head_ok h \<longleftrightarrow> EventIdentifier (rq_project_id h) \<and> ExperimentRevision (rq_experiment_revision h)
     \<and> CloudEventsUriReference (rq_source h) \<and> utf8_ok (rq_source h) \<and> CloudEventsString (rq_subject h)
     \<and> EventIdentifier (rq_stream_id h) \<and> CloudEventsString (rq_event_id h) \<and> Rfc3339Timestamp (rq_event_time h)
     \<and> utf8_ok (rq_event_time h) \<and> event_actor_valid (rq_actor h)"

lemma decode_model_actor_ok:
  "decode_model_actor kinds v = Some a \<Longrightarrow> event_actor_valid a \<and> (\<exists>k. actor_kind_field a = Some k \<and> List.member kinds k)"
  by (auto simp: decode_model_actor_def read_simps decode_kind_def event_actor_valid_def decoded_checks)

lemma decode_plain_actor_ok:
  "decode_plain_actor kinds v = Some a \<Longrightarrow> event_actor_valid a \<and> (\<exists>k. actor_kind_field a = Some k \<and> List.member kinds k)"
  by (auto simp: decode_plain_actor_def decode_simps decode_kind_def event_actor_valid_def decoded_checks)

lemma decode_request_head_ok:
  assumes "decode_request_head kind dec dec_refs d = Some h" "\<forall>v a. dec v = Some a \<longrightarrow> event_actor_valid a \<and> P a"
  shows "request_head_ok h" "P (rq_actor h)" "readable (decode_range 1 CLOUD_EVENTS_INTEGER_MAX) (rq_experiment_revision h)"
    "readable dec_refs (rq_evidence_refs h)"
  using assms(1) by (auto simp: decode_request_head_def decode_event_identity_def decode_simps request_head_ok_def decoded_checks
    ExperimentRevision_def dest: assms(2)[rule_format] simp: readable_def) (auto simp: decode_range_def decode_simps)

definition request_drafted :: "pystr \<Rightarrow> request_head \<Rightarrow> pydict \<Rightarrow> pystr option \<Rightarrow> int \<Rightarrow> research_event" where
  "request_drafted t h payload run n =
     drafted \<lparr>dh_id = rq_event_id h, dh_type = t, dh_time = rq_event_time h, dh_source = rq_source h,
         dh_subject = rq_subject h, dh_stream = rq_stream_id h\<rparr>
       (draft_data_of (rq_actor h) (rq_project_id h) (rq_experiment_revision h) payload (rq_evidence_refs h) run None) n 0"

lemma decode_request_actor:
  assumes "event_actor_valid a" "actor_kind_field a \<noteq> None"
  shows "decode_actor (PyDict (request_actor_document a)) = Some a"
  using assms decode_draft_actor[of "actor_id a" "actor_model_id a" "actor_kind_field a" "map_option kind_text (actor_kind_field a)"]
  by (auto simp: request_actor_document_def event_actor_valid_def)

lemma request_draft_accepted:
  assumes "request_head_ok h" "actor_kind_field (rq_actor h) \<noteq> None" "EventIdentifier t" "plain_tree (PyDict payload)"
    "pred_option EventIdentifier run" "list_all EventIdentifier (rq_evidence_refs h)" "distinct (rq_evidence_refs h)"
    "0 \<le> n" "n < CLOUD_EVENTS_INTEGER_MAX"
  shows "preflight err (\<lambda>e. ed_project_id (e_data e) = rq_project_id h) n (PyDict (request_event_draft t h payload run))
    = Inr (request_event_draft t h payload run, request_drafted t h payload run (n + 1))"
proof -
  note h = assms(1)[unfolded request_head_ok_def]
  have d: "decode_event_data (PyDict (draft_data (request_actor_document (rq_actor h)) (rq_project_id h) (rq_experiment_revision h)
      None payload (rq_evidence_refs h) run None))
    = Some (draft_data_of (rq_actor h) (rq_project_id h) (rq_experiment_revision h) payload (rq_evidence_refs h) run None)"
    by (rule decode_draft_data[where run = run]) (use h assms(2,4-7) in \<open>simp_all add: decode_request_actor draft_data_ok_def plain_payload\<close>)
  have k: "keys_distinct (PyDict (draft_data (request_actor_document (rq_actor h)) (rq_project_id h) (rq_experiment_revision h)
      None payload (rq_evidence_refs h) run None))"
    by (rule draft_data_trees[where fl = FFin]) (use assms(4) in \<open>simp_all add: request_actor_document_def draft_actor_trees plain_tree_def del: keys_distinct.simps floats_ok.simps plain_dict\<close>)
  show ?thesis unfolding request_event_draft_def request_drafted_def
    by (rule preflight_draft[OF _ d k assms(8,9)]) (use h assms(3) in \<open>simp_all add: draft_head_ok_def drafted_def draft_data_of_def\<close>)
qed

end
