(* ===== verification/Timestamps.thy ===== *)
theory Timestamps
  imports Events
begin

text \<open>
  Instants: \<open>parse_rfc3339\<close> of \<open>workers/tokens.py\<close>, which reads a validated timestamp with
  \<open>datetime.fromisoformat\<close> and moves it to UTC.  An aware instant is the number of microseconds
  since the start of the year 1, the range that \<open>datetime\<close> holds.
\<close>

definition leap_days :: "nat \<Rightarrow> nat" where
  "leap_days n = n div 4 - n div 100 + n div 400"

definition days_before_year :: "nat \<Rightarrow> nat" where
  "days_before_year y = 365 * (y - 1) + leap_days (y - 1)"

definition days_before_month :: "nat \<Rightarrow> nat \<Rightarrow> nat" where
  "days_before_month y m = sum_list (List.map (days_in_month y) [1..<m])"

definition stamp_days :: "nat \<Rightarrow> nat \<Rightarrow> nat \<Rightarrow> nat" where
  "stamp_days y m d = days_before_year y + days_before_month y m + (d - 1)"

text \<open>The digits of a fraction beyond the sixth are dropped.\<close>

definition stamp_micros :: "pystr \<Rightarrow> nat" where
  "stamp_micros fraction = int_of_digits (take 6 (fraction @ replicate 6 48))"

definition local_micros :: "pystr \<Rightarrow> nat" where
  "local_micros s =
     (let part = (\<lambda>i n. int_of_digits (take n (drop i s)));
          fraction = (if take 1 (drop 19 s) = [46] then takeWhile is_digit (drop 20 s) else [])
      in (((stamp_days (part 0 4) (part 5 2) (part 8 2) * 24 + part 11 2) * 60 + part 14 2) * 60 + part 17 2) * 1000000
        + stamp_micros fraction)"

definition offset_minutes :: "pystr \<Rightarrow> int" where
  "offset_minutes s =
     (if last s = of_char CHR ''Z'' then 0
      else let n = length s;
               minutes = int (int_of_digits (take 2 (drop (n - 5) s)) * 60 + int_of_digits (drop (n - 2) s))
           in if s ! (n - 6) = of_char CHR ''-'' then - minutes else minutes)"

definition INSTANT_LIMIT :: int where
  "INSTANT_LIMIT = int (stamp_days 10000 1 1) * 86400 * 1000000"

text \<open>\<open>OverflowError\<close> is what \<open>astimezone(UTC)\<close> raises when the instant leaves the years 1 to 9999.\<close>

datatype instant_error = NotRfc3339 | InstantOverflow

definition parse_rfc3339 :: "pystr \<Rightarrow> instant_error + int" where
  "parse_rfc3339 s =
     (if \<not> fullmatch RFC3339_AWARE_PATTERN s
         \<or> \<not> (let part = (\<lambda>i n. int_of_digits (take n (drop i s)))
              in datetime_ok (part 0 4) (part 5 2) (part 8 2) (part 11 2) (part 14 2) (part 17 2))
      then Inl NotRfc3339
      else let t = int (local_micros s) - offset_minutes s * 60 * 1000000
           in if 0 \<le> t \<and> t < INSTANT_LIMIT then Inr t else Inl InstantOverflow)"

section \<open>The form of a timestamp\<close>

abbreviation two :: "pystr \<Rightarrow> bool" where "two x \<equiv> length x = 2 \<and> list_all is_digit x"

lemma two_digit_langs:
  "x \<in> lang (ralts [rseqs [clit ''0'', digits 1 9], rseqs [clit ''1'', digits 0 2]]) \<Longrightarrow> two x"
  "x \<in> lang (ralts [rseqs [clit ''0'', digits 1 9], rseqs [digits 1 2, digit], rseqs [clit ''3'', digits 0 1]]) \<Longrightarrow> two x"
  "x \<in> lang (ralts [rseqs [digits 0 1, digit], rseqs [clit ''2'', digits 0 3]]) \<Longrightarrow> two x"
  by (auto simp: clit_def U_def in_ranges_def is_digit_def)

lemma lang_frac:
  "x \<in> lang (ropt (rseqs [cchar CHR ''.'', rplus digit])) \<Longrightarrow> x = [] \<or> (\<exists>ds. x = 46 # ds \<and> list_all is_digit ds)"
proof -
  have "y \<in> lang (rplus digit) \<Longrightarrow> list_all is_digit y" for y
    unfolding rplus_def lang_seq_cls lang_star_cls by (auto simp: in_ranges_def is_digit_def list_all_iff)
  then show "x \<in> lang (ropt (rseqs [cchar CHR ''.'', rplus digit])) \<Longrightarrow> ?thesis"
    by (auto simp: cchar_def)
qed

lemma lang_zone:
  "x \<in> lang (ralts [clit ''Z'', rseqs [crange [(CHR ''+'', CHR ''+''), (CHR ''-'', CHR ''-'')],
      ralts [rseqs [digits 0 1, digit], rseqs [clit ''2'', digits 0 3]], cchar CHR '':'', digits 0 5, digit]]) \<Longrightarrow>
   x = [90] \<or> (\<exists>c h a b. x = c # h @ [58, a, b] \<and> (c = 43 \<or> c = 45) \<and> two h \<and> two [a, b])"
  by (auto simp: crange_def cchar_def in_ranges_def is_digit_def U_def dest: two_digit_langs(3)
    simp del: lang.simps)

lemma two_digit_value: "int_of_digits [a, b] = (a - 48) * 10 + (b - 48)"
  using int_of_digits_snoc[of "[a]" b] int_of_digits_snoc[of "[]" a] by (simp add: int_of_digits_def)

lemma two_digit_small: "a \<le> 53 \<Longrightarrow> b \<le> 57 \<Longrightarrow> int_of_digits [a, b] \<le> 59"
proof -
  assume "a \<le> 53" "b \<le> 57"
  then have "a - 48 \<le> 5" "b - 48 \<le> 9" by simp_all
  then show ?thesis unfolding two_digit_value by linarith
qed

lemma rfc3339_form:
  assumes "fullmatch RFC3339_AWARE_PATTERN s"
  obtains y m d h mi sec frac zone where
    "s = y @ [45] @ m @ [45] @ d @ [84] @ h @ [58] @ mi @ [58] @ sec @ frac @ zone"
    "length y = 4" "list_all is_digit y" "two m" "two d" "two h" "two mi" "two sec" "int_of_digits sec \<le> 59"
    "frac = [] \<or> (\<exists>ds. frac = 46 # ds \<and> list_all is_digit ds)"
    "zone = [90] \<or> (\<exists>c h a b. zone = c # h @ [58, a, b] \<and> (c = 43 \<or> c = 45) \<and> two h \<and> two [a, b])"
proof -
  note cons = lang_rseqs_Cons[unfolded set_eq_iff mem_Collect_eq, rule_format]
  obtain y m d h a1 a2 b1 b2 frac zone where
    "s = y @ 45 # m @ 45 # d @ 84 # h @ 58 # a1 # a2 # 58 # b1 # b2 # frac @ zone"
    "length y = 4 \<and> list_all is_digit y" "is_digit a1" "is_digit a2" "is_digit b1" "is_digit b2" "b1 \<le> 53" "b2 \<le> 57"
    and m: "m \<in> lang (ralts [rseqs [clit ''0'', digits 1 9], rseqs [clit ''1'', digits 0 2]])"
    and d: "d \<in> lang (ralts [rseqs [clit ''0'', digits 1 9], rseqs [digits 1 2, digit], rseqs [clit ''3'', digits 0 1]])"
    and h: "h \<in> lang (ralts [rseqs [digits 0 1, digit], rseqs [clit ''2'', digits 0 3]])"
    and f: "frac \<in> lang (ropt (rseqs [cchar CHR ''.'', rplus digit]))"
    and z: "zone \<in> lang (ralts [clit ''Z'', rseqs [crange [(CHR ''+'', CHR ''+''), (CHR ''-'', CHR ''-'')],
      ralts [rseqs [digits 0 1, digit], rseqs [clit ''2'', digits 0 3]], cchar CHR '':'', digits 0 5, digit]])"
    using assms unfolding fullmatch_iff RFC3339_AWARE_PATTERN_def
    by (simp only: cons) (auto simp: cchar_def in_ranges_def is_digit_def simp del: lang.simps lang_rseqs_Cons lang_ralts_Cons lang_ropt)
  moreover from this have "int_of_digits [b1, b2] \<le> 59" by (intro two_digit_small)
  ultimately show ?thesis
    using that[of y m d h "[a1, a2]" "[b1, b2]" frac zone] two_digit_langs(1)[OF m] two_digit_langs(2)[OF d]
      two_digit_langs(3)[OF h] lang_frac[OF f] lang_zone[OF z] by simp
qed

lemma split_on_none: "c \<notin> set xs \<Longrightarrow> split_on c xs = [xs]"
  by (induction xs) auto

lemma split_on_first: "c \<notin> set xs \<Longrightarrow> split_on c (xs @ c # ys) = xs # split_on c ys"
  by (induction xs) auto

lemma digits_without: "list_all is_digit xs \<Longrightarrow> c < 48 \<or> 57 < c \<Longrightarrow> c \<notin> set xs"
  by (auto simp: list_all_iff is_digit_def)

lemma validated_stamp:
  assumes "Rfc3339Timestamp s"
  obtains y m d h mi sec frac zone where
    "s = y @ [45] @ m @ [45] @ d @ [84] @ h @ [58] @ mi @ [58] @ sec @ frac @ zone"
    "length y = 4" "two m" "two d" "two h" "two mi" "two sec"
    "frac = [] \<or> (\<exists>ds. frac = 46 # ds \<and> list_all is_digit ds)"
    "zone = [90] \<or> (\<exists>c h a b. zone = c # h @ [58, a, b] \<and> (c = 43 \<or> c = 45) \<and> two h \<and> two [a, b]
       \<and> int_of_digits h \<le> 23 \<and> int_of_digits [a, b] \<le> 59)"
    "datetime_ok (int_of_digits y) (int_of_digits m) (int_of_digits d) (int_of_digits h) (int_of_digits mi) (int_of_digits sec)"
proof -
  from assms obtain y m d h mi sec frac zone where
    s: "s = y @ [45] @ m @ [45] @ d @ [84] @ h @ [58] @ mi @ [58] @ sec @ frac @ zone" and
    y: "length y = 4" "list_all is_digit y" and two: "two m" "two d" "two h" "two mi" "two sec" and sec: "int_of_digits sec \<le> 59" and
    f: "frac = [] \<or> (\<exists>ds. frac = 46 # ds \<and> list_all is_digit ds)" and
    z: "zone = [90] \<or> (\<exists>c h a b. zone = c # h @ [58, a, b] \<and> (c = 43 \<or> c = 45) \<and> two h \<and> two [a, b])"
    unfolding Rfc3339Timestamp_def by (elim conjE rfc3339_form) blast
  let ?stamp = "y @ [45] @ m @ [45] @ d @ [84] @ h @ [58] @ mi @ [58] @ sec @ frac"
  have nd: "c \<notin> set y" "c \<notin> set m" "c \<notin> set d" "c \<notin> set h" "c \<notin> set mi" "c \<notin> set sec" if "c < 48 \<or> 57 < c" for c
    using digits_without[OF _ that] y two by blast+
  have nf: "84 \<notin> set frac" using f digits_without[of _ 84] by auto
  have date: "split_on 45 (y @ 45 # m @ 45 # d) = [y, m, d]"
    using nd[of 45] by (simp add: split_on_first split_on_none)
  have T: "split_on 84 ?stamp = [y @ 45 # m @ 45 # d, h @ 58 # mi @ 58 # sec @ frac]"
  proof -
    have "84 \<notin> set (y @ 45 # m @ 45 # d)" "84 \<notin> set (h @ 58 # mi @ 58 # sec @ frac)" using nd[of 84] nf by auto
    then show ?thesis
      using split_on_first[of 84 "y @ 45 # m @ 45 # d" "h @ 58 # mi @ 58 # sec @ frac"] split_on_none by simp
  qed
  have dot: "hd (split_on 46 (h @ 58 # mi @ 58 # sec @ frac)) = h @ 58 # mi @ 58 # sec"
  proof -
    have n: "46 \<notin> set (h @ 58 # mi @ 58 # sec)" using nd[of 46] by auto
    from f show ?thesis
    proof (elim disjE exE conjE)
      fix ds assume "frac = 46 # ds"
      then show ?thesis using split_on_first[OF n, of ds] by simp
    qed (use split_on_none[OF n] in simp)
  qed
  have clock: "split_on 58 (h @ 58 # mi @ 58 # sec) = [h, mi, sec]"
    using nd[of 58] by (simp add: split_on_first split_on_none)
  have st: "require_stamp ?stamp \<Longrightarrow> datetime_ok (int_of_digits y) (int_of_digits m) (int_of_digits d) (int_of_digits h)
      (int_of_digits mi) (int_of_digits sec)"
    unfolding require_stamp_def using T date dot clock sec by (simp add: min_absorb1)
  have r: "require_rfc3339_timestamp s" "fullmatch RFC3339_AWARE_PATTERN s" using assms by (simp_all add: Rfc3339Timestamp_def)
  consider "zone = [90]" | c zh a b where "zone = c # zh @ [58, a, b]" "length zh = 2" "list_all is_digit zh" "c = 43 \<or> c = 45"
      "length [a, b] = 2" "list_all is_digit [a, b]" using z by blast
  then show ?thesis
  proof cases
    assume "zone = [90]"
    moreover from this have "s = ?stamp @ [90]" using s by simp
    then have "last s = 90" "butlast s = ?stamp" by (simp_all only: last_snoc butlast_snoc)
    then have "require_stamp ?stamp" using r by (simp add: require_rfc3339_timestamp_def split: if_splits)
    ultimately show ?thesis using that[OF s y(1) two f] st by simp
  next
    fix c zh a b assume *: "zone = c # zh @ [58, a, b]" "length zh = 2" "list_all is_digit zh" "c = 43 \<or> c = 45"
      "length [a, b] = 2" "list_all is_digit [a, b]"
    define S where "S = ?stamp"
    have e: "s = S @ zone" using s by (simp add: S_def)
    have l: "length s = length S + 6" using e * by simp
    have p: "take (length s - 6) s = S" "drop (length s - 5) s = zh @ [58, a, b]" "drop (length s - 2) s = [a, b]" "last s = b"
      unfolding l e using * by simp_all
    have "require_stamp S \<and> int_of_digits zh \<le> 23 \<and> int_of_digits [a, b] \<le> 59"
      using r p * by (auto simp: require_rfc3339_timestamp_def Let_def is_digit_def split: if_splits)
    with * st show ?thesis using that[OF s y(1) two f] unfolding S_def by blast
  qed
qed

section \<open>The range of instants\<close>

lemma days_before_year_Suc:
  assumes "1 \<le> y" shows "days_before_year (Suc y) = days_before_year y + (if is_leap_year y then 366 else 365)"
proof -
  obtain k where k: "y = Suc k" using assms by (cases y) auto
  have le: "n div 100 \<le> n div 4" for n :: nat by (rule div_le_mono2) simp_all
  have "leap_days (Suc k) = leap_days k + (if is_leap_year (Suc k) then 1 else 0)"
  proof -
    have "(Suc k mod 400 = 0 \<longrightarrow> Suc k mod 100 = 0) \<and> (Suc k mod 100 = 0 \<longrightarrow> Suc k mod 4 = 0)" by presburger
    then show ?thesis using le[of k] le[of "Suc k"]
      by (auto simp: leap_days_def is_leap_year_def div_Suc)
  qed
  then show ?thesis by (simp add: days_before_year_def k)
qed

lemma days_before_year_mono: "y \<le> z \<Longrightarrow> 1 \<le> y \<Longrightarrow> days_before_year y \<le> days_before_year z"
proof (induction z)
  case (Suc z)
  then show ?case using days_before_year_Suc[of z] by (cases "y \<le> z") (auto simp: le_Suc_eq)
qed simp

lemma stamp_days_range:
  assumes "datetime_ok y m d h mi sec"
  shows "days_before_year y \<le> stamp_days y m d" "stamp_days y m d < days_before_year (Suc y)"
proof -
  have m: "m = 1 \<or> m = 2 \<or> m = 3 \<or> m = 4 \<or> m = 5 \<or> m = 6 \<or> m = 7 \<or> m = 8 \<or> m = 9 \<or> m = 10 \<or> m = 11 \<or> m = 12"
    and d: "1 \<le> d" "d \<le> days_in_month y m" and y: "1 \<le> y"
    using assms unfolding datetime_ok_def by presburger+
  have "days_before_month y m + days_in_month y m \<le> (if is_leap_year y then 366 else 365)"
    using m by (elim disjE) (simp_all add: days_before_month_def days_in_month_def upt_conv_Cons)
  then show "stamp_days y m d < days_before_year (Suc y)"
    using d days_before_year_Suc[OF y] by (simp add: stamp_days_def)
qed (simp add: stamp_days_def)

lemma stamp_micros_less: "list_all is_digit f \<Longrightarrow> stamp_micros f < 1000000"
proof -
  assume f: "list_all is_digit f"
  have "list_all is_digit (take 6 (f @ replicate 6 48))" using f by (auto simp: list_all_iff is_digit_def dest!: in_set_takeD)
  then have "int_of_digits (take 6 (f @ replicate 6 48)) < 10 ^ length (take 6 (f @ replicate 6 48))" by (rule int_of_digits_less)
  moreover have "length (take 6 (f @ replicate 6 (48::nat))) = 6" by auto
  ultimately show ?thesis by (simp add: stamp_micros_def del: take_append length_take)
qed

lemma timestamp_parts:
  assumes "Rfc3339Timestamp s"
  obtains y m d h mi sec u where "datetime_ok y m d h mi sec" "u < 1000000" "y = int_of_digits (take 4 s)"
    "local_micros s = (((stamp_days y m d * 24 + h) * 60 + mi) * 60 + sec) * 1000000 + u"
    "\<bar>offset_minutes s\<bar> \<le> 1439" "last s = of_char CHR ''Z'' \<longrightarrow> offset_minutes s = 0"
    "parse_rfc3339 s = (let t = int (local_micros s) - offset_minutes s * 60 * 1000000
       in if 0 \<le> t \<and> t < INSTANT_LIMIT then Inr t else Inl InstantOverflow)"
proof (rule validated_stamp[OF assms])
  fix y m d h mi sec frac zone
  assume s: "s = y @ [45] @ m @ [45] @ d @ [84] @ h @ [58] @ mi @ [58] @ sec @ frac @ zone"
    and l: "length y = 4" "two m" "two d" "two h" "two mi" "two sec"
    and f: "frac = [] \<or> (\<exists>ds. frac = 46 # ds \<and> list_all is_digit ds)"
    and z: "zone = [90] \<or> (\<exists>c h a b. zone = c # h @ [58, a, b] \<and> (c = 43 \<or> c = 45) \<and> two h \<and> two [a, b]
       \<and> int_of_digits h \<le> 23 \<and> int_of_digits [a, b] \<le> 59)"
    and ok: "datetime_ok (int_of_digits y) (int_of_digits m) (int_of_digits d) (int_of_digits h) (int_of_digits mi) (int_of_digits sec)"
  have p: "take 4 s = y" "take 2 (drop 5 s) = m" "take 2 (drop 8 s) = d" "take 2 (drop 11 s) = h" "take 2 (drop 14 s) = mi"
    "take 2 (drop 17 s) = sec" "drop 19 s = frac @ zone" "drop 20 s = drop 1 (frac @ zone)"
    unfolding s using l by simp_all
  let ?fr = "if take 1 (drop 19 s) = [46] then takeWhile is_digit (drop 20 s) else []"
  have fr: "list_all is_digit ?fr" by (auto simp: list_all_iff dest: set_takeWhileD)
  have off: "\<bar>offset_minutes s\<bar> \<le> 1439" "last s = of_char CHR ''Z'' \<longrightarrow> offset_minutes s = 0"
  proof -
    consider "zone = [90]" | c zh a b where "zone = c # zh @ [58, a, b]" "c = 43 \<or> c = 45" "length zh = 2"
        "is_digit a" "is_digit b" "int_of_digits zh \<le> 23" "int_of_digits [a, b] \<le> 59" using z by auto
    then show "\<bar>offset_minutes s\<bar> \<le> 1439"
    proof cases
      case 1
      then show ?thesis using s by (simp add: offset_minutes_def)
    next
      case 2
      define S where "S = y @ [45] @ m @ [45] @ d @ [84] @ h @ [58] @ mi @ [58] @ sec @ frac"
      have e: "s = S @ zone" using s by (simp add: S_def)
      have len: "length s = length S + 6" using e 2 by simp
      have q: "drop (length s - 5) s = zh @ [58, a, b]" "drop (length s - 2) s = [a, b]" "last s = b"
        unfolding len e using 2 by simp_all
      have "b \<noteq> 90" using 2 by (auto simp: is_digit_def)
      then show ?thesis using q 2 by (auto simp: offset_minutes_def Let_def)
    qed
    show "last s = of_char CHR ''Z'' \<longrightarrow> offset_minutes s = 0" by (simp add: offset_minutes_def)
  qed
  have "fullmatch RFC3339_AWARE_PATTERN s" using assms by (simp add: Rfc3339Timestamp_def)
  then have parse: "parse_rfc3339 s = (let t = int (local_micros s) - offset_minutes s * 60 * 1000000
       in if 0 \<le> t \<and> t < INSTANT_LIMIT then Inr t else Inl InstantOverflow)"
    using ok p by (simp add: parse_rfc3339_def)
  show thesis
    by (rule that[OF ok stamp_micros_less[OF fr] _ _ off parse]) (simp_all add: p local_micros_def Let_def)
qed

lemma parse_rfc3339_cases:
  assumes "Rfc3339Timestamp s"
  shows "(\<exists>t. parse_rfc3339 s = Inr t \<and> 0 \<le> t \<and> t < INSTANT_LIMIT)
    \<or> parse_rfc3339 s = Inl InstantOverflow \<and> int_of_digits (take 4 s) \<in> {1, 9999} \<and> last s \<noteq> of_char CHR ''Z''"
proof (rule timestamp_parts[OF assms])
  fix y m d h mi sec u
  assume ok: "datetime_ok y m d h mi sec" and u: "u < 1000000" and y: "y = int_of_digits (take 4 s)"
    and l: "local_micros s = (((stamp_days y m d * 24 + h) * 60 + mi) * 60 + sec) * 1000000 + u"
    and off: "\<bar>offset_minutes s\<bar> \<le> 1439" "last s = of_char CHR ''Z'' \<longrightarrow> offset_minutes s = 0"
    and parse: "parse_rfc3339 s = (let t = int (local_micros s) - offset_minutes s * 60 * 1000000
       in if 0 \<le> t \<and> t < INSTANT_LIMIT then Inr t else Inl InstantOverflow)"
  let ?D = "stamp_days y m d" and ?day = "86400000000 :: nat"
  have c: "h \<le> 23" "mi \<le> 59" "sec \<le> 59" "1 \<le> y" "y \<le> 9999" using ok by (auto simp: datetime_ok_def)
  have range: "?D * ?day \<le> local_micros s" "local_micros s < (?D + 1) * ?day" using l c u by simp_all
  note D = stamp_days_range[OF ok]
  have up: "days_before_year (Suc y) \<le> days_before_year 10000" using c by (intro days_before_year_mono) auto
  have lim: "INSTANT_LIMIT = int (days_before_year 10000 * ?day)"
    by (simp add: INSTANT_LIMIT_def stamp_days_def days_before_month_def)
  have below: "local_micros s < days_before_year 10000 * ?day"
  proof -
    have "(?D + 1) * ?day \<le> days_before_year 10000 * ?day" using D(2) up by (intro mult_le_mono1) simp
    with range(2) show ?thesis by linarith
  qed
  let ?t = "int (local_micros s) - offset_minutes s * 60 * 1000000"
  have low: "0 \<le> ?t" if "y \<noteq> 1"
  proof -
    have "days_before_year 2 \<le> days_before_year y" using that c by (intro days_before_year_mono) auto
    moreover have "days_before_year 2 = 365" by (simp add: days_before_year_def leap_days_def)
    ultimately have "365 * ?day \<le> ?D * ?day" using D(1) by (intro mult_le_mono1) simp
    then have "365 * ?day \<le> local_micros s" using range(1) by linarith
    then show ?thesis using off(1) by linarith
  qed
  have high: "?t < INSTANT_LIMIT" if "y \<noteq> 9999"
  proof -
    have "days_before_year (Suc y) \<le> days_before_year 9999" using that c by (intro days_before_year_mono) auto
    moreover have "days_before_year 10000 = days_before_year 9999 + 365"
      using days_before_year_Suc[of 9999] by (simp add: is_leap_year_def)
    ultimately have "(?D + 1 + 365) * ?day \<le> days_before_year 10000 * ?day" using D(2) by (intro mult_le_mono1) simp
    then have "local_micros s + 365 * ?day < days_before_year 10000 * ?day" using range(2) by (simp add: algebra_simps)
    then show ?thesis using off(1) unfolding lim by linarith
  qed
  have zulu: "0 \<le> ?t \<and> ?t < INSTANT_LIMIT" if "last s = of_char CHR ''Z''" using that off(2) below by (simp add: lim)
  show ?thesis using low high zulu y parse by (cases "0 \<le> ?t \<and> ?t < INSTANT_LIMIT") (auto simp: Let_def)
qed

section \<open>Statement\<close>

text \<open>C40: \<open>parse_rfc3339\<close> on a timestamp that the event envelope has accepted: it returns an instant of the
  years 1 to 9999, or it overflows, and that only in the year 1 or 9999 and with an offset.  It is never
  refused as malformed, so the overflow is its only failure.\<close>

theorem parse_rfc3339_decides:
  assumes "Rfc3339Timestamp s"
  shows "(\<exists>t. parse_rfc3339 s = Inr t \<and> 0 \<le> t \<and> t < INSTANT_LIMIT)
    \<or> parse_rfc3339 s = Inl InstantOverflow \<and> int_of_digits (take 4 s) \<in> {1, 9999} \<and> last s \<noteq> of_char CHR ''Z''"
  by (rule parse_rfc3339_cases[OF assms])

theorem parse_rfc3339_decides_witness:
  "Rfc3339Timestamp (U ''0001-01-01T00:00:00+00:01'') \<and> parse_rfc3339 (U ''0001-01-01T00:00:00+00:01'') = Inl InstantOverflow
   \<and> int_of_digits (take 4 (U ''0001-01-01T00:00:00+00:01'')) \<in> {1, 9999}"
proof -
  have *: "Rfc3339Timestamp (U ''0001-01-01T00:00:00+00:01'')" "parse_rfc3339 (U ''0001-01-01T00:00:00+00:01'') = Inl InstantOverflow"
    by code_simp+
  from * parse_rfc3339_decides[OF *(1)] show ?thesis by auto
qed

end
