(* ===== verification/Worker_Models.thy ===== *)
theory Worker_Models
  imports Fold_Control Payload_Fields Timestamps "HOL-Library.Multiset"
begin

text \<open>
  The closed payloads of \<open>workers/models.py\<close>: registration of workers, queued work, leases and grants.
  A field of type \<open>dict\<close> is held with its keys sorted, since the code compares and copies such objects
  as mappings.
\<close>

section \<open>Errors\<close>

text \<open>The classes of \<open>workers/errors.py\<close> that recording facts can raise, with their \<open>code\<close>; then the
  \<open>OverflowError\<close> of a timestamp, which no handler catches, and the errors of the store.\<close>

datatype worker_error =
    WorkerCallError pystr
  | WorkerPayloadError pystr
  | WorkerGrantError pystr
  | WorkerOverflowError
  | WorkerStoreFailed store_error

abbreviation work_error :: "string \<Rightarrow> worker_error + 'a" where
  "work_error code \<equiv> Inl (WorkerCallError (U code))"

section \<open>Constants\<close>

definition TYPE_WORKER_REGISTERED :: pystr where "TYPE_WORKER_REGISTERED = U ''worker.registered''"
definition TYPE_WORK_QUEUED :: pystr where "TYPE_WORK_QUEUED = U ''work.queued''"
definition TYPE_WORK_LEASED :: pystr where "TYPE_WORK_LEASED = U ''work.leased''"
definition TYPE_WORK_CLAIMED :: pystr where "TYPE_WORK_CLAIMED = U ''work.claimed''"
definition TYPE_WORK_COMPLETED :: pystr where "TYPE_WORK_COMPLETED = U ''work.completed''"
definition TYPE_WORK_FAILED :: pystr where "TYPE_WORK_FAILED = U ''work.failed''"
definition TYPE_WORK_LEASE_EXPIRED :: pystr where "TYPE_WORK_LEASE_EXPIRED = U ''work.lease.expired''"
definition TYPE_GRANT_RECORDED :: pystr where "TYPE_GRANT_RECORDED = U ''authorization.grant.recorded''"
definition TYPE_GRANT_REVOKED :: pystr where "TYPE_GRANT_REVOKED = U ''authorization.grant.revoked''"
definition TYPE_GRANT_CONSUMED :: pystr where "TYPE_GRANT_CONSUMED = U ''authorization.grant.consumed''"

lemmas worker_type_defs = TYPE_WORKER_REGISTERED_def TYPE_WORK_QUEUED_def TYPE_WORK_LEASED_def
  TYPE_WORK_CLAIMED_def TYPE_WORK_COMPLETED_def TYPE_WORK_FAILED_def TYPE_WORK_LEASE_EXPIRED_def
  TYPE_GRANT_RECORDED_def TYPE_GRANT_REVOKED_def TYPE_GRANT_CONSUMED_def

definition WORKER_EVENT_TYPES :: "pystr list" where
  "WORKER_EVENT_TYPES = [TYPE_WORKER_REGISTERED, TYPE_WORK_QUEUED, TYPE_WORK_LEASED, TYPE_WORK_CLAIMED,
     TYPE_WORK_COMPLETED, TYPE_WORK_FAILED, TYPE_WORK_LEASE_EXPIRED, TYPE_GRANT_RECORDED, TYPE_GRANT_REVOKED,
     TYPE_GRANT_CONSUMED]"

definition WORKER_RUNTIME_PYTHON_SANDBOX :: pystr where "WORKER_RUNTIME_PYTHON_SANDBOX = U ''python-sandbox''"
definition WORKER_RUNTIME_OCI_CONTAINER :: pystr where "WORKER_RUNTIME_OCI_CONTAINER = U ''oci-container''"
definition WORKER_RUNTIME_GPU_OCI :: pystr where "WORKER_RUNTIME_GPU_OCI = U ''gpu-oci-container''"
definition WORKER_RUNTIME_MACOS_MPS :: pystr where "WORKER_RUNTIME_MACOS_MPS = U ''macos-mps-process''"
definition WORKER_RUNTIME_NATIVE_REVIEWED :: pystr where "WORKER_RUNTIME_NATIVE_REVIEWED = U ''native-reviewed-process''"

definition WORKER_RUNTIME_NAME :: "pystr list" where
  "WORKER_RUNTIME_NAME = [WORKER_RUNTIME_PYTHON_SANDBOX, WORKER_RUNTIME_OCI_CONTAINER, WORKER_RUNTIME_GPU_OCI,
     WORKER_RUNTIME_MACOS_MPS, WORKER_RUNTIME_NATIVE_REVIEWED]"

definition WORKER_PROTOCOL_LONGPOLL :: pystr where "WORKER_PROTOCOL_LONGPOLL = U ''researchos.worker-longpoll/v0alpha1''"

definition IMAGE_MEDIA_PYTHON_BRICK :: pystr where "IMAGE_MEDIA_PYTHON_BRICK = U ''researchos.python-brick/v0alpha1''"
definition IMAGE_MEDIA_OCI_IMAGE :: pystr where "IMAGE_MEDIA_OCI_IMAGE = U ''researchos.oci-image/v0alpha1''"
definition IMAGE_MEDIA_MPS_ENV :: pystr where "IMAGE_MEDIA_MPS_ENV = U ''researchos.mps-swift-env/v0alpha1''"
definition IMAGE_MEDIA_NATIVE_REVIEWED :: pystr where
  "IMAGE_MEDIA_NATIVE_REVIEWED = U ''researchos.native-reviewed-python-bundle/v0alpha1''"

definition IMAGE_MEDIA_TYPE :: "pystr list" where
  "IMAGE_MEDIA_TYPE = [IMAGE_MEDIA_PYTHON_BRICK, IMAGE_MEDIA_OCI_IMAGE, IMAGE_MEDIA_MPS_ENV, IMAGE_MEDIA_NATIVE_REVIEWED]"

definition DIGEST_PATTERN :: regex where
  "DIGEST_PATTERN = rseqs [clit ''sha256:'', rtimes 64 (crange [(CHR ''0'', CHR ''9''), (CHR ''a'', CHR ''f'')])]"

definition MAX_ACCELERATORS :: nat where "MAX_ACCELERATORS = 8"
definition MAX_BRICK_OBJECT_BYTES :: nat where "MAX_BRICK_OBJECT_BYTES = 16384"

section \<open>Payload classes\<close>

record worker_registered =
  wr_worker_id :: pystr
  wr_runtime :: pystr
  wr_protocol :: pystr
  wr_accelerators :: "pystr list"

record work_queued =
  wq_task_id :: pystr
  wq_image_digest :: pystr
  wq_image_media_type :: pystr
  wq_runtime :: pystr
  wq_config :: pydict
  wq_inputs :: pydict
  wq_config_digest :: pystr
  wq_required_accelerators :: "pystr list"

record work_leased =
  wl_lease_id :: pystr
  wl_worker_id :: pystr
  wl_task_id :: pystr
  wl_grant_id :: pystr
  wl_expires_at :: pystr

record grant_recorded =
  gp_grant_id :: pystr
  gp_worker_id :: pystr
  gp_task_id :: pystr
  gp_nonce :: pystr
  gp_expires_at :: pystr
  gp_key_id :: pystr
  gp_authorization_event_id :: pystr
  gp_authorization_sequence :: pystr
  gp_image_digest :: pystr
  gp_config_digest :: pystr

text \<open>The fields of the smaller classes, in their order: lease, worker and nonce of a claim; lease, result
  and artifact digest of a completion; lease and reason; grant and reason; grant, lease and nonce.\<close>

datatype worker_payload =
    WorkerRegisteredPayload worker_registered
  | WorkQueuedPayload work_queued
  | WorkLeasedPayload work_leased
  | WorkClaimedPayload pystr pystr pystr
  | WorkCompletedPayload pystr pystr pystr
  | WorkFailedPayload pystr pystr
  | WorkLeaseExpiredPayload pystr pystr
  | GrantRecordedPayload grant_recorded
  | GrantRevokedPayload pystr pystr
  | GrantConsumedPayload pystr pystr pystr

section \<open>Field types\<close>

definition decode_accelerators :: "pyval \<Rightarrow> pystr list option" where
  "decode_accelerators v = Option.bind (Option.bind (as_list v) (map_o decode_identifier))
     (keep_o (\<lambda>ids. \<not> length ids > MAX_ACCELERATORS \<and> length ids = length (remdups ids)))"

text \<open>The length of \<open>json.dumps(value, ensure_ascii=True, separators=(",", ":"))\<close>, which is ASCII.\<close>

definition ascii_char_size :: "nat \<Rightarrow> nat" where
  "ascii_char_size c =
     (if c = 34 \<or> c = 92 \<or> c = 10 \<or> c = 13 \<or> c = 9 \<or> c = 12 \<or> c = 8 then 2
      else if 32 \<le> c \<and> c \<le> 126 then 1 else if c > 0xFFFF then 12 else 6)"

definition ascii_text_size :: "pystr \<Rightarrow> nat" where
  "ascii_text_size s = 2 + sum_list (List.map ascii_char_size s)"

definition commas :: "nat list \<Rightarrow> nat" where
  "commas sizes = 2 + sum_list sizes + (length sizes - 1)"

fun ascii_size :: "pyval \<Rightarrow> nat option" where
  "ascii_size PyNone = Some 4"
| "ascii_size (PyBool b) = Some (if b then 4 else 5)"
| "ascii_size (PyInt i) = Some (length (int_text i))"
| "ascii_size (PyFloat f) = Some (case f of FNaN \<Rightarrow> 3 | FInf negative \<Rightarrow> if negative then 9 else 8 | FFin t \<Rightarrow> length t)"
| "ascii_size (PyStr s) = Some (ascii_text_size s)"
| "ascii_size (PyList vs) = map_option commas (map_o ascii_size vs)"
| "ascii_size (PyDict d) = map_option commas (map_o (\<lambda>(k, v). case k of
      KStr s \<Rightarrow> map_option (\<lambda>n. ascii_text_size s + 1 + n) (ascii_size v) | KOther _ \<Rightarrow> None) d)"
| "ascii_size (PyOther _) = None"

definition require_brick_object :: "pyval \<Rightarrow> pydict option" where
  "require_brick_object v = do {
     d \<leftarrow> as_dict v;
     n \<leftarrow> ascii_size v;
     check_o (\<not> n > MAX_BRICK_OBJECT_BYTES);
     check_o (list_all (\<lambda>(k, _). case k of KStr s \<Rightarrow> utf8_ok s | KOther _ \<Rightarrow> False) d);
     Some (norm_dict d) }"

section \<open>Reading a payload\<close>

definition decode_worker_registered :: "pyval \<Rightarrow> worker_payload option" where
  "decode_worker_registered v = do {
     d \<leftarrow> as_dict v;
     check_o (only_keys [U ''workerId'', U ''runtime'', U ''protocol'', U ''accelerators''] d);
     w \<leftarrow> req_field d (U ''workerId'') decode_identifier;
     r \<leftarrow> opt_field d (U ''runtime'') WORKER_RUNTIME_PYTHON_SANDBOX (decode_literal WORKER_RUNTIME_NAME);
     p \<leftarrow> opt_field d (U ''protocol'') WORKER_PROTOCOL_LONGPOLL (decode_literal [WORKER_PROTOCOL_LONGPOLL]);
     a \<leftarrow> opt_field d (U ''accelerators'') [] decode_accelerators;
     Some (WorkerRegisteredPayload \<lparr>wr_worker_id = w, wr_runtime = r, wr_protocol = p, wr_accelerators = a\<rparr>) }"

definition runtime_matches_image_media_type :: "pystr \<Rightarrow> pystr \<Rightarrow> bool" where
  "runtime_matches_image_media_type r m =
     (let python_pair = r = WORKER_RUNTIME_PYTHON_SANDBOX \<and> m = IMAGE_MEDIA_PYTHON_BRICK;
          oci_pair = r = WORKER_RUNTIME_OCI_CONTAINER \<and> m = IMAGE_MEDIA_OCI_IMAGE;
          gpu_pair = r = WORKER_RUNTIME_GPU_OCI \<and> m = IMAGE_MEDIA_OCI_IMAGE;
          mps_pair = r = WORKER_RUNTIME_MACOS_MPS \<and> m = IMAGE_MEDIA_MPS_ENV;
          native_pair = r = WORKER_RUNTIME_NATIVE_REVIEWED \<and> m = IMAGE_MEDIA_NATIVE_REVIEWED
      in python_pair \<or> oci_pair \<or> gpu_pair \<or> mps_pair \<or> native_pair)"

definition decode_work_queued :: "pyval \<Rightarrow> worker_payload option" where
  "decode_work_queued v = do {
     d \<leftarrow> as_dict v;
     check_o (only_keys [U ''taskId'', U ''imageDigest'', U ''imageMediaType'', U ''runtime'', U ''config'',
       U ''inputs'', U ''configDigest'', U ''requiredAccelerators''] d);
     t \<leftarrow> req_field d (U ''taskId'') decode_identifier;
     i \<leftarrow> req_field d (U ''imageDigest'') (decode_digest DIGEST_PATTERN);
     m \<leftarrow> opt_field d (U ''imageMediaType'') IMAGE_MEDIA_PYTHON_BRICK (decode_literal IMAGE_MEDIA_TYPE);
     r \<leftarrow> opt_field d (U ''runtime'') WORKER_RUNTIME_PYTHON_SANDBOX (decode_literal WORKER_RUNTIME_NAME);
     c \<leftarrow> opt_field d (U ''config'') [] require_brick_object;
     x \<leftarrow> opt_field d (U ''inputs'') [] require_brick_object;
     g \<leftarrow> req_field d (U ''configDigest'') (decode_digest SEMANTIC_DIGEST_PATTERN);
     a \<leftarrow> opt_field d (U ''requiredAccelerators'') [] decode_accelerators;
     check_o (runtime_matches_image_media_type r m);
     Some (WorkQueuedPayload \<lparr>wq_task_id = t, wq_image_digest = i, wq_image_media_type = m, wq_runtime = r,
       wq_config = c, wq_inputs = x, wq_config_digest = g, wq_required_accelerators = a\<rparr>) }"

definition decode_work_leased :: "pyval \<Rightarrow> worker_payload option" where
  "decode_work_leased v = do {
     d \<leftarrow> as_dict v;
     check_o (only_keys [U ''leaseId'', U ''workerId'', U ''taskId'', U ''grantId'', U ''expiresAt''] d);
     l \<leftarrow> req_field d (U ''leaseId'') decode_identifier;
     w \<leftarrow> req_field d (U ''workerId'') decode_identifier;
     t \<leftarrow> req_field d (U ''taskId'') decode_identifier;
     g \<leftarrow> req_field d (U ''grantId'') decode_identifier;
     x \<leftarrow> req_field d (U ''expiresAt'') decode_stamp;
     Some (WorkLeasedPayload \<lparr>wl_lease_id = l, wl_worker_id = w, wl_task_id = t, wl_grant_id = g, wl_expires_at = x\<rparr>) }"

definition decode_work_claimed :: "pyval \<Rightarrow> worker_payload option" where
  "decode_work_claimed v = do {
     d \<leftarrow> as_dict v;
     check_o (only_keys [U ''leaseId'', U ''workerId'', U ''nonce''] d);
     l \<leftarrow> req_field d (U ''leaseId'') decode_identifier;
     w \<leftarrow> req_field d (U ''workerId'') decode_identifier;
     n \<leftarrow> req_field d (U ''nonce'') decode_identifier;
     Some (WorkClaimedPayload l w n) }"

definition decode_work_completed :: "pyval \<Rightarrow> worker_payload option" where
  "decode_work_completed v = do {
     d \<leftarrow> as_dict v;
     check_o (only_keys [U ''leaseId'', U ''resultDigest'', U ''artifactDigest''] d);
     l \<leftarrow> req_field d (U ''leaseId'') decode_identifier;
     r \<leftarrow> req_field d (U ''resultDigest'') (decode_digest SEMANTIC_DIGEST_PATTERN);
     a \<leftarrow> req_field d (U ''artifactDigest'') (decode_digest DIGEST_PATTERN);
     Some (WorkCompletedPayload l r a) }"

definition decode_id_reason :: "pystr \<Rightarrow> (pystr \<Rightarrow> pystr \<Rightarrow> worker_payload) \<Rightarrow> pyval \<Rightarrow> worker_payload option" where
  "decode_id_reason key build v = do {
     d \<leftarrow> as_dict v;
     check_o (only_keys [key, U ''reasonCode''] d);
     i \<leftarrow> req_field d key decode_identifier;
     r \<leftarrow> req_field d (U ''reasonCode'') decode_identifier;
     Some (build i r) }"

definition decode_work_failed :: "pyval \<Rightarrow> worker_payload option" where
  "decode_work_failed = decode_id_reason (U ''leaseId'') WorkFailedPayload"

definition decode_lease_expired :: "pyval \<Rightarrow> worker_payload option" where
  "decode_lease_expired = decode_id_reason (U ''leaseId'') WorkLeaseExpiredPayload"

definition decode_grant_revoked :: "pyval \<Rightarrow> worker_payload option" where
  "decode_grant_revoked = decode_id_reason (U ''grantId'') GrantRevokedPayload"

definition decode_grant_recorded :: "pyval \<Rightarrow> worker_payload option" where
  "decode_grant_recorded v = do {
     d \<leftarrow> as_dict v;
     check_o (only_keys [U ''grantId'', U ''workerId'', U ''taskId'', U ''nonce'', U ''expiresAt'', U ''keyId'',
       U ''authorizationEventId'', U ''authorizationSequence'', U ''imageDigest'', U ''configDigest''] d);
     g \<leftarrow> req_field d (U ''grantId'') decode_identifier;
     w \<leftarrow> req_field d (U ''workerId'') decode_identifier;
     t \<leftarrow> req_field d (U ''taskId'') decode_identifier;
     n \<leftarrow> req_field d (U ''nonce'') decode_identifier;
     x \<leftarrow> req_field d (U ''expiresAt'') decode_stamp;
     k \<leftarrow> req_field d (U ''keyId'') (decode_literal [U ''local.hmac.1'']);
     a \<leftarrow> req_field d (U ''authorizationEventId'') decode_text;
     s \<leftarrow> req_field d (U ''authorizationSequence'') decode_text;
     i \<leftarrow> req_field d (U ''imageDigest'') (decode_digest DIGEST_PATTERN);
     c \<leftarrow> req_field d (U ''configDigest'') (decode_digest SEMANTIC_DIGEST_PATTERN);
     Some (GrantRecordedPayload \<lparr>gp_grant_id = g, gp_worker_id = w, gp_task_id = t, gp_nonce = n, gp_expires_at = x,
       gp_key_id = k, gp_authorization_event_id = a, gp_authorization_sequence = s, gp_image_digest = i,
       gp_config_digest = c\<rparr>) }"

definition decode_grant_consumed :: "pyval \<Rightarrow> worker_payload option" where
  "decode_grant_consumed v = do {
     d \<leftarrow> as_dict v;
     check_o (only_keys [U ''grantId'', U ''leaseId'', U ''nonce''] d);
     g \<leftarrow> req_field d (U ''grantId'') decode_identifier;
     l \<leftarrow> req_field d (U ''leaseId'') decode_identifier;
     n \<leftarrow> req_field d (U ''nonce'') decode_identifier;
     Some (GrantConsumedPayload g l n) }"

definition WORKER_PAYLOAD_MODELS :: "(pystr \<times> (pyval \<Rightarrow> worker_payload option)) list" where
  "WORKER_PAYLOAD_MODELS = [(TYPE_WORKER_REGISTERED, decode_worker_registered), (TYPE_WORK_QUEUED, decode_work_queued),
     (TYPE_WORK_LEASED, decode_work_leased), (TYPE_WORK_CLAIMED, decode_work_claimed),
     (TYPE_WORK_COMPLETED, decode_work_completed), (TYPE_WORK_FAILED, decode_work_failed),
     (TYPE_WORK_LEASE_EXPIRED, decode_lease_expired), (TYPE_GRANT_RECORDED, decode_grant_recorded),
     (TYPE_GRANT_REVOKED, decode_grant_revoked), (TYPE_GRANT_CONSUMED, decode_grant_consumed)]"

definition worker_human_types :: "pystr list" where
  "worker_human_types = [TYPE_WORKER_REGISTERED, TYPE_GRANT_RECORDED, TYPE_GRANT_REVOKED]"

definition worker_system_types :: "pystr list" where
  "worker_system_types = List.filter (\<lambda>t. \<not> List.member worker_human_types t) WORKER_EVENT_TYPES"

definition parse_worker_payload :: "research_event \<Rightarrow> worker_error + worker_payload" where
  "parse_worker_payload e = (case map_of WORKER_PAYLOAD_MODELS (e_type e) of
     None \<Rightarrow> Inl (WorkerPayloadError (U ''unknown-worker-type''))
   | Some model \<Rightarrow> lift_option (WorkerPayloadError (U ''invalid-payload'')) (model (ed_payload (e_data e))))"

definition require_worker_actor :: "research_event \<Rightarrow> worker_error + unit" where
  "require_worker_actor e = (case actor_kind_field (ed_actor (e_data e)) of
     None \<Rightarrow> Inl (WorkerPayloadError (U ''actor-kind-required''))
   | Some kind \<Rightarrow>
       if List.member worker_human_types (e_type e) \<and> kind \<noteq> HUMAN then Inl (WorkerPayloadError (U ''actor-kind-forbidden''))
       else if List.member worker_system_types (e_type e) \<and> kind \<noteq> SYSTEM then Inl (WorkerPayloadError (U ''actor-kind-forbidden''))
       else Inr ())"

section \<open>The order of keys\<close>

lemma commas_perm: "mset xs = mset ys \<Longrightarrow> commas xs = commas ys"
  by (metis commas_def mset_eq_length sum_mset_sum_list)

lemma map_o_perm:
  assumes "mset xs = mset ys"
  shows "rel_option (\<lambda>a b. mset a = mset b) (map_o f xs) (map_o f ys)"
proof (cases "map_o f xs")
  case None
  then obtain x where "x \<in> set xs" "f x = None" by (induction xs) (auto split: option.splits)
  moreover from this have "x \<in> set ys" using assms by (metis set_mset_mset)
  ultimately have "map_o f ys = None" by (induction ys) (auto split: option.splits)
  with None show ?thesis by simp
next
  case (Some zs)
  have ok: "map_o f us = Some (List.map (\<lambda>u. the (f u)) us)" if "\<forall>u\<in>set us. f u \<noteq> None" for us
    using that by (induction us) auto
  have all: "\<forall>u\<in>set xs. f u \<noteq> None" using Some by (induction xs arbitrary: zs) (auto split: option.splits)
  then have "\<forall>u\<in>set ys. f u \<noteq> None" using assms by (metis set_mset_mset)
  then show ?thesis using ok[of xs] ok[of ys] all assms by (simp add: mset_map)
qed

lemma map_o_image: "(\<And>x. x \<in> set xs \<Longrightarrow> f (g x) = h x) \<Longrightarrow> map_o f (List.map g xs) = map_o h xs"
  by (induction xs) (simp_all cong: option.case_cong)

lemma ascii_size_norm: "ascii_size (norm v) = ascii_size v"
proof (induction v rule: norm.induct)
  case (1 vs)
  have "map_o ascii_size (List.map norm vs) = map_o ascii_size vs" using 1 by (intro map_o_image) auto
  then show ?case by simp
next
  case (2 d)
  let ?f = "\<lambda>(k, v). case k of KStr s \<Rightarrow> map_option (\<lambda>n. ascii_text_size s + 1 + n) (ascii_size v) | KOther _ \<Rightarrow> None"
  have "map_o ?f (List.map (\<lambda>(k, v). (k, norm v)) d) = map_o ?f d" 
    using 2 by (intro map_o_image) (auto split: pykey.split)
  moreover have "rel_option (\<lambda>a b. mset a = mset b) (map_o ?f (norm_dict d)) (map_o ?f (List.map (\<lambda>(k, v). (k, norm v)) d))"
    by (rule map_o_perm) (simp add: norm_dict_def)
  ultimately have "rel_option (\<lambda>a b. mset a = mset b) (map_o ?f (norm_dict d)) (map_o ?f d)" by simp
  then have "map_option commas (map_o ?f (norm_dict d)) = map_option commas (map_o ?f d)"
    by (cases rule: option.rel_cases) (auto intro: commas_perm)
  then show ?case by (simp add: norm_PyDict del: norm.simps)
qed auto

lemma blind_accelerators: "blind decode_accelerators"
  unfolding decode_accelerators_def[abs_def] by (rule blind_bind[OF blind_list_of[OF blind_fields(1)]])

lemma norm_dict_norm: "keys_distinct (PyDict d) \<Longrightarrow> norm_dict (norm_dict d) = norm_dict d"
  using norm_norm[of "PyDict d"] by (simp add: norm_PyDict del: norm.simps)

lemma blind_brick: "blind require_brick_object"
proof (rule blind_as_dict)
  show "require_brick_object v = None" if "as_dict v = None" for v using that by (simp add: require_brick_object_def)
  show "require_brick_object (PyDict (norm_dict d)) = require_brick_object (PyDict d)" if "keys_distinct (PyDict d)" for d
  proof -
    have "ascii_size (PyDict (norm_dict d)) = ascii_size (PyDict d)" using ascii_size_norm[of "PyDict d"] by (simp add: norm_PyDict del: norm.simps)
    moreover have "list_all (\<lambda>(k, _). case k of KStr s \<Rightarrow> utf8_ok s | KOther _ \<Rightarrow> False) (norm_dict d)
        = list_all (\<lambda>(k, _). case k of KStr s \<Rightarrow> utf8_ok s | KOther _ \<Rightarrow> False) d"
      by (auto simp: list_all_iff set_norm_dict)
    ultimately show ?thesis by (simp add: require_brick_object_def norm_dict_norm[OF that] del: ascii_size.simps)
  qed
qed

lemmas worker_field_norm = field_norm blind_fields blind_accelerators blind_brick

lemma blind_worker_decoders:
  "blind decode_worker_registered" "blind decode_work_queued" "blind decode_work_leased" "blind decode_work_claimed"
  "blind decode_work_completed" "blind (decode_id_reason key build)" "blind decode_grant_recorded" "blind decode_grant_consumed"
  by (rule blind_as_dict; simp add: decode_worker_registered_def decode_work_queued_def decode_work_leased_def
    decode_work_claimed_def decode_work_completed_def decode_id_reason_def decode_grant_recorded_def
    decode_grant_consumed_def worker_field_norm)+

lemma blind_worker_models: "(t, dec) \<in> set WORKER_PAYLOAD_MODELS \<Longrightarrow> blind dec"
  by (auto simp: WORKER_PAYLOAD_MODELS_def decode_work_failed_def decode_lease_expired_def decode_grant_revoked_def
    blind_worker_decoders)

lemma parse_worker_payload_norm:
  assumes "keys_distinct (ed_payload (e_data e))"
  shows "parse_worker_payload (norm_event e) = parse_worker_payload e"
proof -
  have "dec (norm (ed_payload (e_data e))) = dec (ed_payload (e_data e))" if "map_of WORKER_PAYLOAD_MODELS (e_type e) = Some dec" for dec
    using blind_worker_models[OF map_of_SomeD[OF that]] assms by (simp add: blind_def)
  then show ?thesis by (auto simp: parse_worker_payload_def norm_event_def split: option.split)
qed

end
