(* ===== verification/Worker_Fold.thy ===== *)
theory Worker_Fold
  imports Worker_Models
begin

text \<open>
  The fold of \<open>workers/control.py\<close>: what the log says about registered workers, grants, queued work and
  leases, and when it refuses the next fact.
\<close>

section \<open>State\<close>

record worker_record =
  wk_worker_id :: pystr
  wk_runtime :: pystr
  wk_accelerators :: "pystr set"

record grant_record =
  gr_grant_id :: pystr
  gr_grant_event_id :: pystr
  gr_worker_id :: pystr
  gr_task_id :: pystr
  gr_nonce :: pystr
  gr_expires_at :: pystr
  gr_run_id :: pystr
  gr_attempt_id :: pystr
  gr_authorization_event_id :: pystr
  gr_authorization_sequence :: pystr
  gr_image_digest :: pystr
  gr_config_digest :: pystr
  gr_revoked :: bool
  gr_consumed_lease_id :: "pystr option"

record queued_work =
  qw_task_id :: pystr
  qw_run_id :: pystr
  qw_attempt_id :: pystr
  qw_image_digest :: pystr
  qw_config_digest :: pystr
  qw_config :: pydict
  qw_inputs :: pydict
  qw_runtime :: pystr
  qw_image_media_type :: pystr
  qw_required_accelerators :: "pystr set"

datatype lease_status = Leased | Completed | Failed | Expired

record lease_record =
  le_lease_id :: pystr
  le_worker_id :: pystr
  le_task_id :: pystr
  le_grant_id :: pystr
  le_run_id :: pystr
  le_attempt_id :: pystr
  le_expires_at :: pystr
  le_claimed :: bool
  le_status :: lease_status
  le_result_digest :: "pystr option"
  le_artifact_digest :: "pystr option"
  le_reason_code :: "pystr option"

definition TERMINAL_LEASE :: "lease_status list" where
  "TERMINAL_LEASE = [Completed, Failed, Expired]"

record worker_fold =
  wf_workers :: "worker_record list"
  wf_grants :: "grant_record list"
  wf_queued :: "queued_work list"
  wf_leases :: "lease_record list"

definition empty_workers :: worker_fold where
  "empty_workers = \<lparr>wf_workers = [], wf_grants = [], wf_queued = [], wf_leases = []\<rparr>"

definition fold_worker :: "worker_fold \<Rightarrow> pystr \<Rightarrow> worker_record option" where
  "fold_worker f i = find_first (\<lambda>w. wk_worker_id w = i) (wf_workers f)"

definition fold_grant :: "worker_fold \<Rightarrow> pystr \<Rightarrow> grant_record option" where
  "fold_grant f i = find_first (\<lambda>g. gr_grant_id g = i) (wf_grants f)"

definition fold_queued_work :: "worker_fold \<Rightarrow> pystr \<Rightarrow> pystr \<Rightarrow> queued_work option" where
  "fold_queued_work f t a = find_first (\<lambda>q. qw_task_id q = t \<and> qw_attempt_id q = a) (wf_queued f)"

definition fold_lease :: "worker_fold \<Rightarrow> pystr \<Rightarrow> lease_record option" where
  "fold_lease f i = find_first (\<lambda>l. le_lease_id l = i) (wf_leases f)"

definition instant_of :: "pystr \<Rightarrow> worker_error + int" where
  "instant_of s = map_sum (\<lambda>e. case e of NotRfc3339 \<Rightarrow> WorkerGrantError (U ''grant-exp-invalid'')
     | InstantOverflow \<Rightarrow> WorkerOverflowError) id (parse_rfc3339 s)"

fun active_lease_in :: "pystr \<Rightarrow> pystr \<Rightarrow> int \<Rightarrow> lease_record list \<Rightarrow> worker_error + lease_record option" where
  "active_lease_in task attempt now [] = Inr None"
| "active_lease_in task attempt now (item # items) =
     (if le_task_id item \<noteq> task \<or> le_attempt_id item \<noteq> attempt then active_lease_in task attempt now items
      else if List.member TERMINAL_LEASE (le_status item) then active_lease_in task attempt now items
      else bind_r (instant_of (le_expires_at item)) (\<lambda>expires.
        if expires \<le> now then active_lease_in task attempt now items else Inr (Some item)))"

definition active_lease_for :: "worker_fold \<Rightarrow> pystr \<Rightarrow> pystr \<Rightarrow> int \<Rightarrow> worker_error + lease_record option" where
  "active_lease_for f task attempt now = active_lease_in task attempt now (wf_leases f)"

definition lease_for_worker :: "worker_fold \<Rightarrow> pystr \<Rightarrow> pystr \<Rightarrow> pystr \<Rightarrow> lease_record option" where
  "lease_for_worker f task attempt worker = last_of (List.filter (\<lambda>l. le_task_id l = task
     \<and> le_attempt_id l = attempt \<and> le_worker_id l = worker) (wf_leases f))"

section \<open>Handlers\<close>

definition replace_grant :: "grant_record list \<Rightarrow> grant_record \<Rightarrow> grant_record list" where
  "replace_grant grants updated = List.map (\<lambda>g. if gr_grant_id g = gr_grant_id updated then updated else g) grants"

definition replace_lease :: "lease_record list \<Rightarrow> lease_record \<Rightarrow> lease_record list" where
  "replace_lease leases updated = List.map (\<lambda>l. if le_lease_id l = le_lease_id updated then updated else l) leases"

definition apply_registered :: "worker_fold \<Rightarrow> worker_registered \<Rightarrow> worker_error + worker_fold" where
  "apply_registered f p =
     (if fold_worker f (wr_worker_id p) \<noteq> None then work_error ''duplicate-worker-id''
      else Inr (f\<lparr>wf_workers := wf_workers f @ [\<lparr>wk_worker_id = wr_worker_id p, wk_runtime = wr_runtime p,
        wk_accelerators = set (wr_accelerators p)\<rparr>]\<rparr>))"

definition apply_grant_recorded :: "worker_fold \<Rightarrow> research_event \<Rightarrow> grant_recorded \<Rightarrow> worker_error + worker_fold" where
  "apply_grant_recorded f e p =
     (if fold_grant f (gp_grant_id p) \<noteq> None then work_error ''duplicate-grant-id''
      else if fold_worker f (gp_worker_id p) = None then work_error ''unknown-worker''
      else (case (ed_run_id (e_data e), ed_attempt_id (e_data e)) of
          (Some run, Some attempt) \<Rightarrow>
            Inr (f\<lparr>wf_grants := wf_grants f @ [\<lparr>gr_grant_id = gp_grant_id p, gr_grant_event_id = e_id e,
              gr_worker_id = gp_worker_id p, gr_task_id = gp_task_id p, gr_nonce = gp_nonce p,
              gr_expires_at = gp_expires_at p, gr_run_id = run, gr_attempt_id = attempt,
              gr_authorization_event_id = gp_authorization_event_id p,
              gr_authorization_sequence = gp_authorization_sequence p, gr_image_digest = gp_image_digest p,
              gr_config_digest = gp_config_digest p, gr_revoked = False, gr_consumed_lease_id = None\<rparr>]\<rparr>)
        | _ \<Rightarrow> work_error ''grant-run-missing''))"

definition apply_grant_revoked :: "worker_fold \<Rightarrow> pystr \<Rightarrow> worker_error + worker_fold" where
  "apply_grant_revoked f grant_id =
     (case fold_grant f grant_id of
        None \<Rightarrow> work_error ''unknown-grant''
      | Some current \<Rightarrow>
          if gr_revoked current then work_error ''grant-already-revoked''
          else Inr (f\<lparr>wf_grants := replace_grant (wf_grants f) (current\<lparr>gr_revoked := True\<rparr>)\<rparr>))"

definition apply_grant_consumed :: "worker_fold \<Rightarrow> pystr \<Rightarrow> pystr \<Rightarrow> pystr \<Rightarrow> worker_error + worker_fold" where
  "apply_grant_consumed f grant_id lease_id nonce =
     (case fold_grant f grant_id of
        None \<Rightarrow> work_error ''unknown-grant''
      | Some current \<Rightarrow>
          if gr_revoked current then work_error ''grant-revoked''
          else if gr_nonce current \<noteq> nonce then work_error ''grant-nonce-mismatch''
          else (case gr_consumed_lease_id current of
              Some consumed \<Rightarrow> if consumed = lease_id then Inr f else work_error ''grant-replay''
            | None \<Rightarrow>
                (case fold_lease f lease_id of
                   None \<Rightarrow> work_error ''grant-lease-mismatch''
                 | Some lease \<Rightarrow>
                     if le_grant_id lease \<noteq> grant_id then work_error ''grant-lease-mismatch''
                     else Inr (f\<lparr>wf_grants := replace_grant (wf_grants f)
                       (current\<lparr>gr_consumed_lease_id := Some lease_id\<rparr>)\<rparr>))))"

definition apply_queued :: "worker_fold \<Rightarrow> research_event \<Rightarrow> work_queued \<Rightarrow> worker_error + worker_fold" where
  "apply_queued f e p =
     (case (ed_run_id (e_data e), ed_attempt_id (e_data e)) of
        (Some run, Some attempt) \<Rightarrow>
          if fold_queued_work f (wq_task_id p) attempt \<noteq> None then work_error ''duplicate-work''
          else Inr (f\<lparr>wf_queued := wf_queued f @ [\<lparr>qw_task_id = wq_task_id p, qw_run_id = run, qw_attempt_id = attempt,
            qw_image_digest = wq_image_digest p, qw_config_digest = wq_config_digest p, qw_config = wq_config p,
            qw_inputs = wq_inputs p, qw_runtime = wq_runtime p, qw_image_media_type = wq_image_media_type p,
            qw_required_accelerators = set (wq_required_accelerators p)\<rparr>]\<rparr>)
      | _ \<Rightarrow> work_error ''work-run-missing'')"

definition apply_leased :: "worker_fold \<Rightarrow> research_event \<Rightarrow> work_leased \<Rightarrow> worker_error + worker_fold" where
  "apply_leased f e p =
     (if fold_lease f (wl_lease_id p) \<noteq> None then work_error ''duplicate-lease-id''
      else (case fold_worker f (wl_worker_id p) of
        None \<Rightarrow> work_error ''unknown-worker''
      | Some worker \<Rightarrow> (case fold_grant f (wl_grant_id p) of
        None \<Rightarrow> work_error ''unknown-grant''
      | Some grant \<Rightarrow>
          if gr_revoked grant then work_error ''grant-revoked''
          else if gr_worker_id grant \<noteq> wl_worker_id p \<or> gr_task_id grant \<noteq> wl_task_id p then work_error ''grant-lease-mismatch''
          else (case (ed_run_id (e_data e), ed_attempt_id (e_data e)) of
            (Some run, Some attempt) \<Rightarrow>
              (case fold_queued_work f (wl_task_id p) attempt of
                 None \<Rightarrow> work_error ''unknown-work''
               | Some queued \<Rightarrow>
                   if wk_runtime worker \<noteq> qw_runtime queued then work_error ''runtime-mismatch''
                   else if \<not> qw_required_accelerators queued \<subseteq> wk_accelerators worker then work_error ''accelerator-missing''
                   else bind_r (instant_of (e_time e)) (\<lambda>now.
                     bind_r (active_lease_for f (wl_task_id p) attempt now) (\<lambda>active.
                     if active \<noteq> None then work_error ''lease-conflict''
                     else Inr (f\<lparr>wf_leases := wf_leases f @ [\<lparr>le_lease_id = wl_lease_id p, le_worker_id = wl_worker_id p,
                       le_task_id = wl_task_id p, le_grant_id = wl_grant_id p, le_run_id = run, le_attempt_id = attempt,
                       le_expires_at = wl_expires_at p, le_claimed = False, le_status = Leased,
                       le_result_digest = None, le_artifact_digest = None, le_reason_code = None\<rparr>]\<rparr>))))
          | _ \<Rightarrow> work_error ''work-run-missing''))))"

definition apply_claimed :: "worker_fold \<Rightarrow> pystr \<Rightarrow> pystr \<Rightarrow> worker_error + worker_fold" where
  "apply_claimed f lease_id worker_id =
     (case fold_lease f lease_id of
        None \<Rightarrow> work_error ''unknown-lease''
      | Some current \<Rightarrow>
          if le_worker_id current \<noteq> worker_id then work_error ''lease-worker-mismatch''
          else if List.member TERMINAL_LEASE (le_status current) then work_error ''lease-terminal''
          else if le_claimed current then Inr f
          else Inr (f\<lparr>wf_leases := replace_lease (wf_leases f) (current\<lparr>le_claimed := True\<rparr>)\<rparr>))"

definition apply_completed :: "worker_fold \<Rightarrow> pystr \<Rightarrow> pystr \<Rightarrow> pystr \<Rightarrow> worker_error + worker_fold" where
  "apply_completed f lease_id result artifact =
     (case fold_lease f lease_id of
        None \<Rightarrow> work_error ''unknown-lease''
      | Some current \<Rightarrow>
          if le_status current = Completed then
            (if le_result_digest current = Some result \<and> le_artifact_digest current = Some artifact then Inr f
             else work_error ''complete-mismatch'')
          else if List.member TERMINAL_LEASE (le_status current) then work_error ''lease-terminal''
          else if \<not> le_claimed current then work_error ''lease-not-claimed''
          else Inr (f\<lparr>wf_leases := replace_lease (wf_leases f) (current\<lparr>le_claimed := True, le_status := Completed,
            le_result_digest := Some result, le_artifact_digest := Some artifact\<rparr>)\<rparr>))"

definition apply_failed :: "worker_fold \<Rightarrow> pystr \<Rightarrow> pystr \<Rightarrow> worker_error + worker_fold" where
  "apply_failed f lease_id reason =
     (case fold_lease f lease_id of
        None \<Rightarrow> work_error ''unknown-lease''
      | Some current \<Rightarrow>
          if le_status current = Failed then
            (if le_reason_code current = Some reason then Inr f else work_error ''fail-mismatch'')
          else if List.member TERMINAL_LEASE (le_status current) then work_error ''lease-terminal''
          else Inr (f\<lparr>wf_leases := replace_lease (wf_leases f) (current\<lparr>le_status := Failed,
            le_reason_code := Some reason\<rparr>)\<rparr>))"

definition apply_expired :: "worker_fold \<Rightarrow> pystr \<Rightarrow> worker_error + worker_fold" where
  "apply_expired f lease_id =
     (case fold_lease f lease_id of
        None \<Rightarrow> work_error ''unknown-lease''
      | Some current \<Rightarrow>
          if List.member TERMINAL_LEASE (le_status current) then
            (if le_status current = Expired then Inr f else work_error ''lease-terminal'')
          else Inr (f\<lparr>wf_leases := replace_lease (wf_leases f) (current\<lparr>le_status := Expired\<rparr>)\<rparr>))"

fun apply_worker_payload :: "worker_fold \<Rightarrow> research_event \<Rightarrow> worker_payload \<Rightarrow> worker_error + worker_fold" where
  "apply_worker_payload f e (WorkerRegisteredPayload p) = apply_registered f p"
| "apply_worker_payload f e (GrantRecordedPayload p) = apply_grant_recorded f e p"
| "apply_worker_payload f e (GrantRevokedPayload grant_id _) = apply_grant_revoked f grant_id"
| "apply_worker_payload f e (GrantConsumedPayload grant_id lease_id nonce) = apply_grant_consumed f grant_id lease_id nonce"
| "apply_worker_payload f e (WorkQueuedPayload p) = apply_queued f e p"
| "apply_worker_payload f e (WorkLeasedPayload p) = apply_leased f e p"
| "apply_worker_payload f e (WorkClaimedPayload lease_id worker_id _) = apply_claimed f lease_id worker_id"
| "apply_worker_payload f e (WorkCompletedPayload lease_id result artifact) = apply_completed f lease_id result artifact"
| "apply_worker_payload f e (WorkFailedPayload lease_id reason) = apply_failed f lease_id reason"
| "apply_worker_payload f e (WorkLeaseExpiredPayload lease_id _) = apply_expired f lease_id"

definition apply_worker_fold :: "pystr \<Rightarrow> worker_fold \<Rightarrow> research_event \<Rightarrow> worker_error + worker_fold" where
  "apply_worker_fold project_id f e =
     (if ed_project_id (e_data e) \<noteq> project_id then Inr f
      else if \<not> List.member WORKER_EVENT_TYPES (e_type e) then Inr f
      else bind_r (require_worker_actor e) (\<lambda>_.
      bind_r (parse_worker_payload e) (\<lambda>payload. apply_worker_payload f e payload)))"

end
