(* ===== verification/Growth.thy ===== *)
theory Growth
  imports Prelude "HOL-Library.Sublist"
begin

text \<open>
  Lists of records that only grow: entries stay where they are and may only move on by a given
  relation, and new entries come at the end.  The folds of the controls keep their state in such
  lists.
\<close>

definition extends_by :: "('a \<Rightarrow> 'a \<Rightarrow> bool) \<Rightarrow> 'a list \<Rightarrow> 'a list \<Rightarrow> bool" where
  "extends_by later xs ys \<longleftrightarrow> length xs \<le> length ys \<and> list_all2 later xs (take (length xs) ys)"

lemma extends_by_refl: "(\<And>z. R z z) \<Longrightarrow> extends_by R xs (xs @ ys)"
  by (simp add: extends_by_def list_all2_same)

lemma extends_by_same: "list_all2 R xs ys \<Longrightarrow> extends_by R xs ys"
  by (simp add: extends_by_def list_all2_lengthD)

lemma extends_by_nth: "extends_by R xs ys \<longleftrightarrow> length xs \<le> length ys \<and> (\<forall>i<length xs. R (xs ! i) (ys ! i))"
  by (auto simp: extends_by_def list_all2_conv_all_nth)

lemma extends_by_trans: "(\<And>x y z. R x y \<Longrightarrow> R y z \<Longrightarrow> R x z) \<Longrightarrow> extends_by R xs ys \<Longrightarrow> extends_by R ys zs \<Longrightarrow> extends_by R xs zs"
  unfolding extends_by_nth by (meson order_trans less_le_trans)

lemma extends_by_member: "extends_by R xs ys \<Longrightarrow> x \<in> set xs \<Longrightarrow> \<exists>y\<in>set ys. R x y"
  unfolding extends_by_nth by (metis in_set_conv_nth less_le_trans)

text \<open>Replacing the one entry that has a key.\<close>

lemma replace_one:
  assumes "distinct (List.map key xs)" "x \<in> set xs" "key y = key x" "R x y" "\<And>z. R z z"
  shows "list_all2 R xs (List.map (\<lambda>z. if key z = key y then y else z) xs)"
    "set (List.map (\<lambda>z. if key z = key y then y else z) xs) = insert y (set xs - {x})"
    "List.map key (List.map (\<lambda>z. if key z = key y then y else z) xs) = List.map key xs"
proof -
  have only: "(key z = key y) = (z = x)" if "z \<in> set xs" for z
    using assms(1-3) that by (auto simp: distinct_map dest: inj_onD)
  show "list_all2 R xs (List.map (\<lambda>z. if key z = key y then y else z) xs)"
    using only assms(4,5) by (auto simp: list.rel_map list_all2_same)
  have "(\<lambda>z. if key z = key y then y else z) ` set xs = (\<lambda>z. if z = x then y else z) ` set xs"
    using only by (intro image_cong) auto
  also have "\<dots> = insert y (set xs - {x})" using assms(2) by auto
  finally show "set (List.map (\<lambda>z. if key z = key y then y else z) xs) = insert y (set xs - {x})" by simp
  show "List.map key (List.map (\<lambda>z. if key z = key y then y else z) xs) = List.map key xs"
    by simp
qed

end
