(* ===== verification/Worker_Facts.thy ===== *)
theory Worker_Facts
  imports Worker_Fold "HOL-Library.Sublist" Growth
begin

text \<open>
  Lemmas about the fold of \<open>workers/control.py\<close>: the invariant of its states, what later facts leave of
  earlier records, and the contracts it fulfils.
\<close>

section \<open>The invariant\<close>

definition lease_shape :: "lease_record \<Rightarrow> bool" where
  "lease_shape l \<longleftrightarrow> (le_status l = Completed \<longrightarrow> le_claimed l)
     \<and> (le_result_digest l \<noteq> None \<longleftrightarrow> le_status l = Completed) \<and> (le_artifact_digest l \<noteq> None \<longleftrightarrow> le_status l = Completed)
     \<and> (le_reason_code l \<noteq> None \<longleftrightarrow> le_status l = Failed)"

definition lease_ok :: "worker_fold \<Rightarrow> lease_record \<Rightarrow> bool" where
  "lease_ok f l \<longleftrightarrow> lease_shape l
     \<and> (\<exists>w\<in>set (wf_workers f). \<exists>q\<in>set (wf_queued f). wk_worker_id w = le_worker_id l \<and> qw_task_id q = le_task_id l
          \<and> qw_attempt_id q = le_attempt_id l \<and> qw_runtime q = wk_runtime w
          \<and> qw_required_accelerators q \<subseteq> wk_accelerators w)
     \<and> (\<exists>g\<in>set (wf_grants f). gr_grant_id g = le_grant_id l \<and> gr_worker_id g = le_worker_id l \<and> gr_task_id g = le_task_id l)"

definition grant_ok :: "worker_fold \<Rightarrow> grant_record \<Rightarrow> bool" where
  "grant_ok f g \<longleftrightarrow> (\<exists>w\<in>set (wf_workers f). wk_worker_id w = gr_worker_id g)
     \<and> (\<forall>i. gr_consumed_lease_id g = Some i \<longrightarrow> (\<exists>l\<in>set (wf_leases f). le_lease_id l = i \<and> le_grant_id l = gr_grant_id g))"

definition worker_inv :: "worker_fold \<Rightarrow> bool" where
  "worker_inv f \<longleftrightarrow> distinct (List.map wk_worker_id (wf_workers f)) \<and> distinct (List.map gr_grant_id (wf_grants f))
     \<and> distinct (List.map (\<lambda>q. (qw_task_id q, qw_attempt_id q)) (wf_queued f)) \<and> distinct (List.map le_lease_id (wf_leases f))
     \<and> (\<forall>g\<in>set (wf_grants f). grant_ok f g) \<and> (\<forall>l\<in>set (wf_leases f). lease_ok f l)"

text \<open>What later facts leave of a grant and of a lease.\<close>

definition grant_as_recorded :: "grant_record \<Rightarrow> grant_record" where
  "grant_as_recorded g = g\<lparr>gr_revoked := False, gr_consumed_lease_id := None\<rparr>"

definition lease_as_recorded :: "lease_record \<Rightarrow> lease_record" where
  "lease_as_recorded l = l\<lparr>le_claimed := False, le_status := Leased, le_result_digest := None,
     le_artifact_digest := None, le_reason_code := None\<rparr>"

definition grant_later :: "grant_record \<Rightarrow> grant_record \<Rightarrow> bool" where
  "grant_later g g' \<longleftrightarrow> grant_as_recorded g' = grant_as_recorded g \<and> (gr_revoked g \<longrightarrow> g' = g)
     \<and> (gr_consumed_lease_id g \<noteq> None \<longrightarrow> gr_consumed_lease_id g' = gr_consumed_lease_id g)"

definition lease_later :: "lease_record \<Rightarrow> lease_record \<Rightarrow> bool" where
  "lease_later l l' \<longleftrightarrow> lease_as_recorded l' = lease_as_recorded l \<and> (le_claimed l \<longrightarrow> le_claimed l')
     \<and> (le_status l \<noteq> Leased \<longrightarrow> l' = l)"

definition worker_kept :: "worker_fold \<Rightarrow> worker_fold \<Rightarrow> bool" where
  "worker_kept f g \<longleftrightarrow> prefix (wf_workers f) (wf_workers g) \<and> prefix (wf_queued f) (wf_queued g)
     \<and> extends_by grant_later (wf_grants f) (wf_grants g) \<and> extends_by lease_later (wf_leases f) (wf_leases g)"

lemma later_refl [simp]: "grant_later g g" "lease_later l l"
  by (simp_all add: grant_later_def lease_later_def)

lemma recorded_grant: "grant_as_recorded u = grant_as_recorded c \<Longrightarrow> gr_grant_id u = gr_grant_id c \<and> gr_worker_id u = gr_worker_id c
    \<and> gr_task_id u = gr_task_id c"
  by (cases u; cases c) (simp add: grant_as_recorded_def)

lemma recorded_lease: "lease_as_recorded u = lease_as_recorded c \<Longrightarrow> le_lease_id u = le_lease_id c \<and> le_worker_id u = le_worker_id c
    \<and> le_task_id u = le_task_id c \<and> le_attempt_id u = le_attempt_id c \<and> le_grant_id u = le_grant_id c"
  by (cases u; cases c) (simp add: lease_as_recorded_def)

lemma later_trans: "grant_later a b \<Longrightarrow> grant_later b c \<Longrightarrow> grant_later a c"
  "lease_later x y \<Longrightarrow> lease_later y z \<Longrightarrow> lease_later x z"
  by (auto simp: grant_later_def lease_later_def)

lemma worker_kept_refl: "worker_kept f f"
  using extends_by_refl[of grant_later "wf_grants f" "[]"] extends_by_refl[of lease_later "wf_leases f" "[]"]
  by (simp add: worker_kept_def)

lemma grants_trans: "extends_by grant_later xs ys \<Longrightarrow> extends_by grant_later ys zs \<Longrightarrow> extends_by grant_later xs zs"
  by (rule extends_by_trans) (rule later_trans(1))

lemma leases_trans: "extends_by lease_later xs ys \<Longrightarrow> extends_by lease_later ys zs \<Longrightarrow> extends_by lease_later xs zs"
  by (rule extends_by_trans) (rule later_trans(2))

lemma worker_kept_trans: "worker_kept f g \<Longrightarrow> worker_kept g h \<Longrightarrow> worker_kept f h"
  unfolding worker_kept_def
  using grants_trans leases_trans by (meson prefix_order.trans)

text \<open>What holds of a grant or a lease holds in every later state.\<close>

lemma grant_ok_kept:
  assumes "worker_kept f g" "grant_ok f x" shows "grant_ok g x"
proof -
  have "\<exists>l'\<in>set (wf_leases g). le_lease_id l' = le_lease_id l \<and> le_grant_id l' = le_grant_id l" if m: "l \<in> set (wf_leases f)" for l
  proof -
    obtain l' where "l' \<in> set (wf_leases g)" "lease_later l l'"
      using assms(1) extends_by_member[OF _ m] unfolding worker_kept_def by blast
    then show ?thesis using recorded_lease[of l' l] by (auto simp: lease_later_def)
  qed
  moreover have "set (wf_workers f) \<subseteq> set (wf_workers g)" using assms(1) set_mono_prefix unfolding worker_kept_def by blast
  ultimately show ?thesis using assms(2) unfolding grant_ok_def by fastforce
qed

lemma lease_ok_kept:
  assumes "worker_kept f g" "lease_ok f x" shows "lease_ok g x"
proof -
  have "\<exists>c'\<in>set (wf_grants g). gr_grant_id c' = gr_grant_id c \<and> gr_worker_id c' = gr_worker_id c \<and> gr_task_id c' = gr_task_id c"
    if m: "c \<in> set (wf_grants f)" for c
  proof -
    obtain c' where "c' \<in> set (wf_grants g)" "grant_later c c'"
      using assms(1) extends_by_member[OF _ m] unfolding worker_kept_def by blast
    then show ?thesis using recorded_grant[of c' c] by (auto simp: grant_later_def)
  qed
  note grants = this
  have more: "set (wf_workers f) \<subseteq> set (wf_workers g)" "set (wf_queued f) \<subseteq> set (wf_queued g)"
    using assms(1) set_mono_prefix unfolding worker_kept_def by blast+
  obtain w q c where c: "lease_shape x" "w \<in> set (wf_workers f)" "q \<in> set (wf_queued f)" "wk_worker_id w = le_worker_id x"
    "qw_task_id q = le_task_id x" "qw_attempt_id q = le_attempt_id x" "qw_runtime q = wk_runtime w"
    "qw_required_accelerators q \<subseteq> wk_accelerators w"
    "c \<in> set (wf_grants f)" "gr_grant_id c = le_grant_id x" "gr_worker_id c = le_worker_id x" "gr_task_id c = le_task_id x"
    using assms(2) unfolding lease_ok_def by blast
  obtain c' where "c' \<in> set (wf_grants g)" "gr_grant_id c' = le_grant_id x" "gr_worker_id c' = le_worker_id x"
    "gr_task_id c' = le_task_id x" using grants[OF c(9)] c(10-12) by auto
  then show ?thesis using c(1-8) more unfolding lease_ok_def by blast
qed

section \<open>Each handler\<close>

definition worker_step :: "worker_fold \<Rightarrow> worker_fold \<Rightarrow> bool" where
  "worker_step f g \<longleftrightarrow> worker_inv g \<and> worker_kept f g"

text \<open>A step that keeps the history keeps the invariant, if the ids stay distinct and what is new is right.\<close>

lemma worker_stepI:
  assumes "worker_inv f" "worker_kept f g" "distinct (List.map wk_worker_id (wf_workers g))"
    "distinct (List.map gr_grant_id (wf_grants g))" "distinct (List.map (\<lambda>q. (qw_task_id q, qw_attempt_id q)) (wf_queued g))"
    "distinct (List.map le_lease_id (wf_leases g))"
    "\<forall>x\<in>set (wf_grants g) - set (wf_grants f). grant_ok g x" "\<forall>x\<in>set (wf_leases g) - set (wf_leases f). lease_ok g x"
  shows "worker_step f g"
proof -
  have "\<forall>x\<in>set (wf_grants g). grant_ok g x" "\<forall>x\<in>set (wf_leases g). lease_ok g x"
    using assms(1,7,8) grant_ok_kept[OF assms(2)] lease_ok_kept[OF assms(2)] unfolding worker_inv_def by blast+
  then show ?thesis using assms unfolding worker_step_def worker_inv_def by blast
qed

lemma worker_inv_distinct:
  "worker_inv f \<Longrightarrow> distinct (List.map wk_worker_id (wf_workers f))"
  "worker_inv f \<Longrightarrow> distinct (List.map gr_grant_id (wf_grants f))"
  "worker_inv f \<Longrightarrow> distinct (List.map (\<lambda>q. (qw_task_id q, qw_attempt_id q)) (wf_queued f))"
  "worker_inv f \<Longrightarrow> distinct (List.map le_lease_id (wf_leases f))"
  unfolding worker_inv_def by blast+

lemma replace_grant_step:
  assumes "worker_inv f" "fold_grant f i = Some c" "grant_later c u"
    "\<And>j. gr_consumed_lease_id u = Some j \<Longrightarrow> gr_consumed_lease_id c \<noteq> Some j
       \<Longrightarrow> \<exists>l\<in>set (wf_leases f). le_lease_id l = j \<and> le_grant_id l = gr_grant_id c"
  shows "worker_step f (f\<lparr>wf_grants := replace_grant (wf_grants f) u\<rparr>)" (is "worker_step f ?g")
proof -
  note inv = assms(1)[unfolded worker_inv_def]
  have c: "c \<in> set (wf_grants f)" using find_first_SomeD assms(2) by (fastforce simp: fold_grant_def)
  have d: "distinct (List.map gr_grant_id (wf_grants f))" using inv by blast
  have same: "gr_grant_id u = gr_grant_id c" "gr_worker_id u = gr_worker_id c" "gr_task_id u = gr_task_id c"
    using recorded_grant[of u c] assms(3) by (simp_all add: grant_later_def)
  note r = replace_one[of gr_grant_id, OF d c same(1), of grant_later, OF assms(3) later_refl(1), folded replace_grant_def]
  have k: "worker_kept f ?g" using extends_by_same[OF r(1)] worker_kept_refl[of f] by (simp add: worker_kept_def)
  have "grant_ok f c" using inv c by blast
  then have "grant_ok f u" using assms(4) by (auto simp: grant_ok_def same)
  then have u: "grant_ok ?g u" by (rule grant_ok_kept[OF k])
  show ?thesis
  proof (rule worker_stepI[OF assms(1) k])
    show "\<forall>x\<in>set (wf_grants ?g) - set (wf_grants f). grant_ok ?g x" using r(2) u by auto
  qed (simp_all add: worker_inv_distinct[OF assms(1)] r(3))
qed

lemma replace_lease_step:
  assumes "worker_inv f" "fold_lease f i = Some c" "lease_later c u" "lease_shape u"
  shows "worker_step f (f\<lparr>wf_leases := replace_lease (wf_leases f) u\<rparr>)" (is "worker_step f ?g")
proof -
  note inv = assms(1)[unfolded worker_inv_def]
  have c: "c \<in> set (wf_leases f)" using find_first_SomeD assms(2) by (fastforce simp: fold_lease_def)
  have d: "distinct (List.map le_lease_id (wf_leases f))" using inv by blast
  have same: "le_lease_id u = le_lease_id c" "le_worker_id u = le_worker_id c" "le_task_id u = le_task_id c"
    "le_attempt_id u = le_attempt_id c" "le_grant_id u = le_grant_id c"
    using recorded_lease[of u c] assms(3) by (simp_all add: lease_later_def)
  note r = replace_one[of le_lease_id, OF d c same(1), of lease_later, OF assms(3) later_refl(2), folded replace_lease_def]
  have k: "worker_kept f ?g" using extends_by_same[OF r(1)] worker_kept_refl[of f] by (simp add: worker_kept_def)
  have "lease_ok f c" using inv c by blast
  then have "lease_ok f u" using assms(4) by (simp add: lease_ok_def same)
  then have u: "lease_ok ?g u" by (rule lease_ok_kept[OF k])
  show ?thesis
  proof (rule worker_stepI[OF assms(1) k])
    show "\<forall>x\<in>set (wf_leases ?g) - set (wf_leases f). lease_ok ?g x" using r(2) u by auto
  qed (simp_all add: worker_inv_distinct[OF assms(1)] r(3))
qed

lemma kept_snoc:
  "worker_kept f (f\<lparr>wf_workers := wf_workers f @ ws\<rparr>)" "worker_kept f (f\<lparr>wf_queued := wf_queued f @ qs\<rparr>)"
  "worker_kept f (f\<lparr>wf_grants := wf_grants f @ gs\<rparr>)" "worker_kept f (f\<lparr>wf_leases := wf_leases f @ ls\<rparr>)"
  using worker_kept_refl[of f] by (simp_all add: worker_kept_def extends_by_refl)

lemma fold_worker_Some: "fold_worker f i = Some w \<Longrightarrow> w \<in> set (wf_workers f) \<and> wk_worker_id w = i"
  and fold_grant_Some: "fold_grant f i = Some x \<Longrightarrow> x \<in> set (wf_grants f) \<and> gr_grant_id x = i"
  and fold_queued_Some: "fold_queued_work f i a = Some q \<Longrightarrow> q \<in> set (wf_queued f) \<and> qw_task_id q = i \<and> qw_attempt_id q = a"
  and fold_lease_Some: "fold_lease f i = Some l \<Longrightarrow> l \<in> set (wf_leases f) \<and> le_lease_id l = i"
  unfolding fold_worker_def fold_grant_def fold_queued_work_def fold_lease_def by (auto dest: find_first_SomeD)

lemma add_worker_step:
  assumes "worker_inv f" "fold_worker f (wk_worker_id w) = None"
  shows "worker_step f (f\<lparr>wf_workers := wf_workers f @ [w]\<rparr>)"
  by (rule worker_stepI[OF assms(1)])
    (use assms(2) in \<open>auto simp: worker_inv_distinct[OF assms(1)] kept_snoc fold_worker_def\<close>)

lemma add_queued_step:
  assumes "worker_inv f" "fold_queued_work f (qw_task_id q) (qw_attempt_id q) = None"
  shows "worker_step f (f\<lparr>wf_queued := wf_queued f @ [q]\<rparr>)"
  by (rule worker_stepI[OF assms(1)])
    (use assms(2) in \<open>auto simp: worker_inv_distinct[OF assms(1)] kept_snoc fold_queued_work_def\<close>)

lemma add_grant_step:
  assumes "worker_inv f" "fold_grant f (gr_grant_id x) = None" "fold_worker f (gr_worker_id x) \<noteq> None" "gr_consumed_lease_id x = None"
  shows "worker_step f (f\<lparr>wf_grants := wf_grants f @ [x]\<rparr>)"
  by (rule worker_stepI[OF assms(1)])
    (use assms(2-4) in \<open>auto simp: worker_inv_distinct[OF assms(1)] kept_snoc fold_grant_def grant_ok_def dest!: fold_worker_Some\<close>)

lemma add_lease_step:
  assumes "worker_inv f" "fold_lease f (le_lease_id l) = None" "fold_worker f (le_worker_id l) = Some w"
    "fold_grant f (le_grant_id l) = Some x" "fold_queued_work f (le_task_id l) (le_attempt_id l) = Some q"
    "gr_worker_id x = le_worker_id l" "gr_task_id x = le_task_id l" "wk_runtime w = qw_runtime q"
    "qw_required_accelerators q \<subseteq> wk_accelerators w" "lease_shape l"
  shows "worker_step f (f\<lparr>wf_leases := wf_leases f @ [l]\<rparr>)"
proof (rule worker_stepI[OF assms(1) kept_snoc(4)])
  have "lease_ok f l"
    using fold_worker_Some[OF assms(3)] fold_grant_Some[OF assms(4)] fold_queued_Some[OF assms(5)] assms(6-)
    unfolding lease_ok_def by metis
  then show "\<forall>y\<in>set (wf_leases (f\<lparr>wf_leases := wf_leases f @ [l]\<rparr>)) - set (wf_leases f). lease_ok (f\<lparr>wf_leases := wf_leases f @ [l]\<rparr>) y"
    using lease_ok_kept[OF kept_snoc(4)] by auto
qed (use assms(2) in \<open>auto simp: worker_inv_distinct[OF assms(1)] fold_lease_def\<close>)

lemma apply_registered_step: "apply_registered f p = Inr g \<Longrightarrow> worker_inv f \<Longrightarrow> worker_step f g"
  by (auto simp: apply_registered_def split: if_splits intro!: add_worker_step)

lemma apply_queued_step: "apply_queued f e p = Inr g \<Longrightarrow> worker_inv f \<Longrightarrow> worker_step f g"
  by (auto simp: apply_queued_def split: if_splits option.splits intro!: add_queued_step)

lemma apply_grant_recorded_step: "apply_grant_recorded f e p = Inr g \<Longrightarrow> worker_inv f \<Longrightarrow> worker_step f g"
  by (auto simp: apply_grant_recorded_def split: if_splits option.splits intro!: add_grant_step)

lemma worker_step_same: "worker_inv f \<Longrightarrow> worker_step f f"
  by (simp add: worker_step_def worker_kept_refl)

lemma apply_grant_revoked_step:
  assumes "apply_grant_revoked f i = Inr g" "worker_inv f" shows "worker_step f g"
proof -
  obtain c where c: "fold_grant f i = Some c" "\<not> gr_revoked c" "g = f\<lparr>wf_grants := replace_grant (wf_grants f) (c\<lparr>gr_revoked := True\<rparr>)\<rparr>"
    using assms(1) by (auto simp: apply_grant_revoked_def split: if_splits option.splits)
  show ?thesis unfolding c(3)
    by (rule replace_grant_step[OF assms(2) c(1)]) (use c(2) in \<open>simp_all add: grant_later_def grant_as_recorded_def\<close>)
qed

lemma apply_grant_consumed_step:
  assumes "apply_grant_consumed f i j n = Inr g" "worker_inv f" shows "worker_step f g"
proof (cases "g = f")
  case False
  then obtain c l where c: "fold_grant f i = Some c" "\<not> gr_revoked c" "gr_consumed_lease_id c = None" "fold_lease f j = Some l"
    "le_grant_id l = i" "g = f\<lparr>wf_grants := replace_grant (wf_grants f) (c\<lparr>gr_consumed_lease_id := Some j\<rparr>)\<rparr>"
    using assms(1) by (auto simp: apply_grant_consumed_def split: if_splits option.splits)
  show ?thesis unfolding c(6)
    by (rule replace_grant_step[OF assms(2) c(1)])
      (use c(2-5) fold_grant_Some[OF c(1)] fold_lease_Some[OF c(4)] in \<open>auto simp: grant_later_def grant_as_recorded_def\<close>)
qed (use assms(2) in \<open>simp add: worker_step_same\<close>)

lemma apply_leased_result:
  assumes "apply_leased f e p = Inr g"
  obtains w x q run attempt now l where "fold_lease f (wl_lease_id p) = None" "fold_worker f (wl_worker_id p) = Some w"
    "fold_grant f (wl_grant_id p) = Some x" "\<not> gr_revoked x" "gr_worker_id x = wl_worker_id p" "gr_task_id x = wl_task_id p"
    "ed_run_id (e_data e) = Some run" "ed_attempt_id (e_data e) = Some attempt"
    "fold_queued_work f (wl_task_id p) attempt = Some q" "wk_runtime w = qw_runtime q"
    "qw_required_accelerators q \<subseteq> wk_accelerators w" "instant_of (e_time e) = Inr now"
    "active_lease_for f (wl_task_id p) attempt now = Inr None" "g = f\<lparr>wf_leases := wf_leases f @ [l]\<rparr>"
    "l = \<lparr>le_lease_id = wl_lease_id p, le_worker_id = wl_worker_id p, le_task_id = wl_task_id p,
       le_grant_id = wl_grant_id p, le_run_id = run, le_attempt_id = attempt, le_expires_at = wl_expires_at p,
       le_claimed = False, le_status = Leased, le_result_digest = None, le_artifact_digest = None, le_reason_code = None\<rparr>"
  using assms that by (auto simp: apply_leased_def bind_r_Inr_iff split: if_splits option.splits)

lemma apply_leased_step:
  assumes "apply_leased f e p = Inr g" "worker_inv f" shows "worker_step f g"
proof (rule apply_leased_result[OF assms(1)])
  fix w x q run attempt now l
  assume *: "fold_lease f (wl_lease_id p) = None" "fold_worker f (wl_worker_id p) = Some w"
    "fold_grant f (wl_grant_id p) = Some x" "gr_worker_id x = wl_worker_id p" "gr_task_id x = wl_task_id p"
    "fold_queued_work f (wl_task_id p) attempt = Some q" "wk_runtime w = qw_runtime q"
    "qw_required_accelerators q \<subseteq> wk_accelerators w" "g = f\<lparr>wf_leases := wf_leases f @ [l]\<rparr>"
    "l = \<lparr>le_lease_id = wl_lease_id p, le_worker_id = wl_worker_id p, le_task_id = wl_task_id p,
       le_grant_id = wl_grant_id p, le_run_id = run, le_attempt_id = attempt, le_expires_at = wl_expires_at p,
       le_claimed = False, le_status = Leased, le_result_digest = None, le_artifact_digest = None, le_reason_code = None\<rparr>"
  show ?thesis unfolding *(9)
    by (rule add_lease_step[OF assms(2)]) (use *(1-8,10) in \<open>simp_all add: lease_shape_def\<close>)
qed

text \<open>The four facts about a lease change only a lease that is not terminal.\<close>

definition lease_moved :: "worker_fold \<Rightarrow> pystr \<Rightarrow> (lease_record \<Rightarrow> lease_record) \<Rightarrow> worker_fold \<Rightarrow> bool" where
  "lease_moved f i change g \<longleftrightarrow> (\<exists>c. fold_lease f i = Some c \<and> le_status c = Leased
     \<and> g = f\<lparr>wf_leases := replace_lease (wf_leases f) (change c)\<rparr>)"

lemma member_terminal: "s \<in> set TERMINAL_LEASE \<longleftrightarrow> s \<noteq> Leased"
  by (cases s) (simp_all add: TERMINAL_LEASE_def)

lemma lease_facts:
  "apply_claimed f i w = Inr g \<Longrightarrow> g = f \<or> (\<exists>c. fold_lease f i = Some c \<and> le_worker_id c = w) \<and> lease_moved f i (\<lambda>c. c\<lparr>le_claimed := True\<rparr>) g"
  "apply_completed f i r a = Inr g \<Longrightarrow> g = f \<or> (\<exists>c. fold_lease f i = Some c \<and> le_claimed c) \<and> lease_moved f i
     (\<lambda>c. c\<lparr>le_claimed := True, le_status := Completed, le_result_digest := Some r, le_artifact_digest := Some a\<rparr>) g"
  "apply_failed f i y = Inr g \<Longrightarrow> g = f \<or> lease_moved f i (\<lambda>c. c\<lparr>le_status := Failed, le_reason_code := Some y\<rparr>) g"
  "apply_expired f i = Inr g \<Longrightarrow> g = f \<or> lease_moved f i (\<lambda>c. c\<lparr>le_status := Expired\<rparr>) g"
  by (auto simp: apply_claimed_def apply_completed_def apply_failed_def apply_expired_def lease_moved_def member_terminal
    split: if_splits option.splits)

lemma lease_moved_step:
  assumes "lease_moved f i change g" "worker_inv f"
    "\<And>c. le_status c = Leased \<Longrightarrow> lease_shape c \<Longrightarrow> lease_later c (change c) \<and> lease_shape (change c)"
  shows "worker_step f g"
proof -
  obtain c where c: "fold_lease f i = Some c" "le_status c = Leased" "g = f\<lparr>wf_leases := replace_lease (wf_leases f) (change c)\<rparr>"
    using assms(1) by (auto simp: lease_moved_def)
  have "lease_shape c" using fold_lease_Some[OF c(1)] assms(2) unfolding worker_inv_def lease_ok_def by blast
  with assms(3)[OF c(2)] show ?thesis unfolding c(3) by (intro replace_lease_step[OF assms(2) c(1)]) auto
qed

lemmas lease_change = lease_later_def lease_as_recorded_def lease_shape_def

lemma apply_lease_fact_steps:
  "apply_claimed f i w = Inr g \<Longrightarrow> worker_inv f \<Longrightarrow> worker_step f g"
  "apply_completed f i r a = Inr g \<Longrightarrow> worker_inv f \<Longrightarrow> worker_step f g"
  "apply_failed f i y = Inr g \<Longrightarrow> worker_inv f \<Longrightarrow> worker_step f g"
  "apply_expired f i = Inr g \<Longrightarrow> worker_inv f \<Longrightarrow> worker_step f g"
  by (drule lease_facts, elim disjE conjE, simp add: worker_step_same, erule (1) lease_moved_step, simp add: lease_change)+

lemma apply_worker_payload_step:
  "apply_worker_payload f e x = Inr g \<Longrightarrow> worker_inv f \<Longrightarrow> worker_step f g"
  by (cases x) (auto intro: apply_registered_step apply_queued_step apply_grant_recorded_step apply_grant_revoked_step
    apply_grant_consumed_step apply_leased_step apply_lease_fact_steps)

definition worker_own :: "pystr \<Rightarrow> research_event \<Rightarrow> bool" where
  "worker_own p e \<longleftrightarrow> ed_project_id (e_data e) = p \<and> List.member WORKER_EVENT_TYPES (e_type e)"

lemma apply_worker_fold_payload:
  assumes "apply_worker_fold p f e = Inr g"
  obtains "\<not> worker_own p e" "g = f" | x where "worker_own p e" "require_worker_actor e = Inr ()"
    "parse_worker_payload e = Inr x" "apply_worker_payload f e x = Inr g"
  using assms by (auto simp: apply_worker_fold_def worker_own_def bind_r_Inr_iff split: if_splits)

lemma apply_worker_fold_step: "apply_worker_fold p f e = Inr g \<Longrightarrow> worker_inv f \<Longrightarrow> worker_step f g"
  by (erule apply_worker_fold_payload) (auto simp: worker_step_same intro: apply_worker_payload_step)

lemma worker_inv_empty [simp]: "worker_inv empty_workers"
  by (simp add: worker_inv_def empty_workers_def)

section \<open>Contracts\<close>

lemma apply_worker_payload_event:
  assumes "e_id d = e_id e" "e_time d = e_time e" "ed_run_id (e_data d) = ed_run_id (e_data e)"
    "ed_attempt_id (e_data d) = ed_attempt_id (e_data e)"
  shows "apply_worker_payload f d x = apply_worker_payload f e x"
  by (cases x) (simp_all only: apply_worker_payload.simps apply_grant_recorded_def apply_queued_def apply_leased_def assms)

lemma apply_worker_fold_same:
  assumes "e_id d = e_id e" "e_time d = e_time e" "e_type d = e_type e" "ed_project_id (e_data d) = ed_project_id (e_data e)"
    "ed_run_id (e_data d) = ed_run_id (e_data e)" "ed_attempt_id (e_data d) = ed_attempt_id (e_data e)"
    "ed_actor (e_data d) = ed_actor (e_data e)" "parse_worker_payload d = parse_worker_payload e"
  shows "apply_worker_fold p f d = apply_worker_fold p f e"
  by (simp only: apply_worker_fold_def require_worker_actor_def assms apply_worker_payload_event[OF assms(1,2,5,6)])

lemma apply_worker_fold_norm:
  "keys_distinct (ed_payload (e_data e)) \<Longrightarrow> apply_worker_fold p f (norm_event e) = apply_worker_fold p f e"
  by (rule apply_worker_fold_same) (simp_all add: parse_worker_payload_norm, simp_all add: norm_event_def norm_data_def)

lemma apply_worker_fold_version: "apply_worker_fold p f (e\<lparr>e_streamversion := m\<rparr>) = apply_worker_fold p f e"
  by (rule apply_worker_fold_same) (simp_all add: parse_worker_payload_def split: option.split)

interpretation worker_log: log_control "apply_worker_fold p" for p
  by unfold_locales (simp_all add: apply_worker_fold_norm apply_worker_fold_version)

interpretation worker_contract: projection "apply_worker_fold p" "worker_own p" "\<lambda>_. True" worker_inv for p
proof (unfold_locales, goal_cases)
  case (1 e s)
  then show ?case by (auto simp: apply_worker_fold_def worker_own_def)
next
  case (2 s e t)
  then show ?case using apply_worker_fold_step by (auto simp: worker_step_def)
qed

lemma worker_fold_kept:
  assumes "fold_r (apply_worker_fold p) f es = Inr g" "worker_inv f"
  shows "worker_kept f g"
  by (rule worker_contract.fold_relation[where R = worker_kept, OF assms])
    (auto intro: worker_kept_refl worker_kept_trans dest: apply_worker_fold_step simp: worker_step_def)

section \<open>Leases\<close>

text \<open>Where a lease of the state after a fact comes from.\<close>

lemma moved_leases:
  assumes "lease_moved f i change g" "worker_inv f" "l \<in> set (wf_leases g)" "\<And>c. le_lease_id (change c) = le_lease_id c"
  shows "l \<in> set (wf_leases f) \<or> (\<exists>c\<in>set (wf_leases f). le_lease_id c = i \<and> le_status c = Leased \<and> fold_lease f i = Some c \<and> l = change c)"
proof -
  obtain c where c: "fold_lease f i = Some c" "le_status c = Leased" "g = f\<lparr>wf_leases := replace_lease (wf_leases f) (change c)\<rparr>"
    using assms(1) by (auto simp: lease_moved_def)
  have "l \<in> set (wf_leases f) \<or> l = change c" using assms(3) c(3) by (auto simp: replace_lease_def split: if_splits)
  with c fold_lease_Some[OF c(1)] show ?thesis by blast
qed

lemma leases_after:
  assumes "apply_worker_payload f e x = Inr g" "worker_inv f" "l \<in> set (wf_leases g)" "l \<notin> set (wf_leases f)"
  obtains (leased) "\<not> le_claimed l" "le_status l = Leased"
  | (moved) c where "c \<in> set (wf_leases f)" "le_status c = Leased" "lease_as_recorded l = lease_as_recorded c"
    "le_claimed l \<longrightarrow> le_claimed c \<or> (\<exists>n. x = WorkClaimedPayload (le_lease_id l) (le_worker_id l) n)"
    "le_status l = Completed \<longrightarrow> le_claimed c \<and> (\<exists>r a. x = WorkCompletedPayload (le_lease_id l) r a
       \<and> le_result_digest l = Some r \<and> le_artifact_digest l = Some a)"
proof (cases x)
  case (WorkLeasedPayload p)
  then have "apply_leased f e p = Inr g" using assms(1) by simp
  then show ?thesis by (rule apply_leased_result) (use assms(3,4) leased in auto)
next
  case (WorkClaimedPayload i w n)
  then have a: "apply_claimed f i w = Inr g" "g \<noteq> f" using assms by auto
  then obtain c where c: "c \<in> set (wf_leases f)" "le_lease_id c = i" "le_status c = Leased" "le_worker_id c = w" "l = c\<lparr>le_claimed := True\<rparr>"
    using lease_facts(1)[OF a(1)] moved_leases[of f i "\<lambda>c. c\<lparr>le_claimed := True\<rparr>" g l] assms(2-4) by fastforce
  show ?thesis by (rule moved[OF c(1,3)]) (use c WorkClaimedPayload in \<open>auto simp: lease_as_recorded_def\<close>)
next
  case (WorkCompletedPayload i r a)
  let ?ch = "\<lambda>c. c\<lparr>le_claimed := True, le_status := Completed, le_result_digest := Some r, le_artifact_digest := Some a\<rparr>"
  have a: "apply_completed f i r a = Inr g" "g \<noteq> f" using WorkCompletedPayload assms by auto
  then obtain c where c: "c \<in> set (wf_leases f)" "le_lease_id c = i" "le_status c = Leased" "le_claimed c" "l = ?ch c"
    using lease_facts(2)[OF a(1)] moved_leases[of f i ?ch g l] assms(2-4) by fastforce
  show ?thesis by (rule moved[OF c(1,3)]) (use c WorkCompletedPayload in \<open>auto simp: lease_as_recorded_def\<close>)
next
  case (WorkFailedPayload i y)
  let ?ch = "\<lambda>c. c\<lparr>le_status := Failed, le_reason_code := Some y\<rparr>"
  have a: "apply_failed f i y = Inr g" "g \<noteq> f" using WorkFailedPayload assms by auto
  then obtain c where c: "c \<in> set (wf_leases f)" "le_status c = Leased" "l = ?ch c"
    using lease_facts(3)[OF a(1)] moved_leases[of f i ?ch g l] assms(2-4) by fastforce
  show ?thesis by (rule moved[OF c(1,2)]) (use c in \<open>auto simp: lease_as_recorded_def\<close>)
next
  case (WorkLeaseExpiredPayload i y)
  let ?ch = "\<lambda>c. c\<lparr>le_status := Expired\<rparr>"
  have a: "apply_expired f i = Inr g" "g \<noteq> f" using WorkLeaseExpiredPayload assms by auto
  then obtain c where c: "c \<in> set (wf_leases f)" "le_status c = Leased" "l = ?ch c"
    using lease_facts(4)[OF a(1)] moved_leases[of f i ?ch g l] assms(2-4) by fastforce
  show ?thesis by (rule moved[OF c(1,2)]) (use c in \<open>auto simp: lease_as_recorded_def\<close>)
qed (use assms in \<open>auto simp: apply_registered_def apply_queued_def apply_grant_recorded_def apply_grant_revoked_def
  apply_grant_consumed_def split: if_splits option.splits\<close>)

lemma active_lease_in_None:
  "active_lease_in t a now ls = Inr None \<Longrightarrow> l \<in> set ls \<Longrightarrow> le_task_id l = t \<Longrightarrow> le_attempt_id l = a \<Longrightarrow>
     le_status l \<noteq> Leased \<or> (\<exists>x. instant_of (le_expires_at l) = Inr x \<and> x \<le> now)"
  by (induction t a now ls rule: active_lease_in.induct) (auto simp: member_terminal bind_r_Inr_iff split: if_splits)

text \<open>The claim, and then the completion, that a completed lease comes from.\<close>

definition logged :: "pystr \<Rightarrow> worker_payload \<Rightarrow> research_event \<Rightarrow> bool" where
  "logged p x e \<longleftrightarrow> worker_own p e \<and> require_worker_actor e = Inr () \<and> parse_worker_payload e = Inr x"

lemma claimed_logged:
  assumes "fold_r (apply_worker_fold p) empty_workers es = Inr f" "l \<in> set (wf_leases f)" "le_claimed l"
  shows "\<exists>e\<in>set es. \<exists>n. logged p (WorkClaimedPayload (le_lease_id l) (le_worker_id l) n) e"
  using assms
proof (induction es arbitrary: f l rule: rev_induct)
  case Nil
  then show ?case by (auto simp: empty_workers_def)
next
  case (snoc e es)
  obtain h where h: "fold_r (apply_worker_fold p) empty_workers es = Inr h" "apply_worker_fold p h e = Inr f"
    using snoc.prems(1) by (auto simp: fold_r_snoc bind_r_Inr_iff)
  have inv: "worker_inv h" using worker_contract.fold_invariant[OF h(1)] by simp
  show ?case
  proof (cases "l \<in> set (wf_leases h)")
    case True
    then show ?thesis using snoc.IH[OF h(1)] snoc.prems(3) by auto
  next
    case False
    from h(2) show ?thesis
    proof (cases rule: apply_worker_fold_payload)
      case own: (2 x)
      from leases_after[OF own(4) inv snoc.prems(2) False] show ?thesis
      proof cases
        case (2 c)
        note same = recorded_lease[OF 2(3)]
        show ?thesis using snoc.IH[OF h(1) 2(1)] 2(4) same snoc.prems(3) own by (auto simp: logged_def)
      qed (use snoc.prems(3) in simp)
    qed (use False snoc.prems(2) in simp)
  qed
qed

lemma completed_logged:
  assumes "fold_r (apply_worker_fold p) empty_workers es = Inr f" "l \<in> set (wf_leases f)" "le_status l = Completed"
  shows "\<exists>before e after n r a. es = before @ e # after \<and> logged p (WorkCompletedPayload (le_lease_id l) r a) e
    \<and> le_result_digest l = Some r \<and> le_artifact_digest l = Some a
    \<and> (\<exists>c\<in>set before. logged p (WorkClaimedPayload (le_lease_id l) (le_worker_id l) n) c)"
  using assms
proof (induction es arbitrary: f rule: rev_induct)
  case Nil
  then show ?case by (auto simp: empty_workers_def)
next
  case (snoc e es)
  obtain h where h: "fold_r (apply_worker_fold p) empty_workers es = Inr h" "apply_worker_fold p h e = Inr f"
    using snoc.prems(1) by (auto simp: fold_r_snoc bind_r_Inr_iff)
  have inv: "worker_inv h" using worker_contract.fold_invariant[OF h(1)] by simp
  show ?case
  proof (cases "l \<in> set (wf_leases h)")
    case True
    obtain before d after n r a where "es = before @ d # after" "logged p (WorkCompletedPayload (le_lease_id l) r a) d"
      "le_result_digest l = Some r" "le_artifact_digest l = Some a"
      "\<exists>c\<in>set before. logged p (WorkClaimedPayload (le_lease_id l) (le_worker_id l) n) c"
      using snoc.IH[OF h(1) True snoc.prems(3)] by blast
    then show ?thesis by (intro exI[of _ before] exI[of _ d] exI[of _ "after @ [e]"] exI[of _ n] exI[of _ r] exI[of _ a]) simp
  next
    case False
    from h(2) show ?thesis
    proof (cases rule: apply_worker_fold_payload)
      case own: (2 x)
      from leases_after[OF own(4) inv snoc.prems(2) False] show ?thesis
      proof cases
        case (2 c)
        note same = recorded_lease[OF 2(3)]
        obtain r a where ra: "le_claimed c" "x = WorkCompletedPayload (le_lease_id l) r a" "le_result_digest l = Some r" "le_artifact_digest l = Some a"
          using 2(5) snoc.prems(3) by blast
        obtain d n where "d \<in> set es" "logged p (WorkClaimedPayload (le_lease_id l) (le_worker_id l) n) d"
          using claimed_logged[OF h(1) 2(1) ra(1)] same by auto
        with ra own show ?thesis
          by (intro exI[of _ es] exI[of _ e] exI[of _ "[]"] exI[of _ n] exI[of _ r] exI[of _ a]) (auto simp: logged_def)
      qed (use snoc.prems(3) in simp)
    qed (use False snoc.prems(2) in simp)
  qed
qed

end
