(* ===== verification/Worker_Control.thy ===== *)
theory Worker_Control
  imports Worker_Facts Store_Samples
begin

text \<open>
  \<open>WorkerControl\<close> of \<open>workers/control.py\<close>: \<open>rebuild\<close> freezes the head and folds pages of the worker
  events up to it, \<open>append\<close> checks one fact against that fold and asks the store for it.  The
  properties: what holds of the state of every accepted log, and what the two calls return.
\<close>

section \<open>Pages\<close>

definition worker_page :: "int \<Rightarrow> int \<Rightarrow> int \<Rightarrow> read_args" where
  "worker_page after page_size until = read_defaults\<lparr>after_sequence := after, limit := page_size,
     until_sequence := Some until, event_types := Some WORKER_EVENT_TYPES\<rparr>"

lemma worker_page_fields [simp]:
  "after_sequence (worker_page c p u) = c" "limit (worker_page c p u) = p" "until_sequence (worker_page c p u) = Some u"
  "event_types (worker_page c p u) = Some WORKER_EVENT_TYPES" "by_project_id (worker_page c p u) = None"
  "by_run_id (worker_page c p u) = None" "by_event_id (worker_page c p u) = None" "newest_first (worker_page c p u) = False"
  by (simp_all add: worker_page_def read_defaults_def)

lemma worker_types_valid: "validate_event_types (Some WORKER_EVENT_TYPES) = Inr (Some WORKER_EVENT_TYPES)"
  by code_simp

lemma worker_types_nonempty [simp]: "WORKER_EVENT_TYPES \<noteq> []"
  by (simp add: WORKER_EVENT_TYPES_def)

definition page_rows :: "int \<Rightarrow> int \<Rightarrow> store \<Rightarrow> event_row list" where
  "page_rows after until s = List.filter (\<lambda>r. row_sequence r > after \<and> row_sequence r \<le> until
     \<and> row_event_type r \<in> set WORKER_EVENT_TYPES) (rows_in_order s)"

lemma row_selected_worker_page: "row_selected (worker_page after p u) = (\<lambda>r. row_sequence r > after \<and> row_sequence r \<le> u
    \<and> row_event_type r \<in> set WORKER_EVENT_TYPES)"
  by (auto simp: row_selected_def clause_def fun_eq_iff)

lemma read_worker_page:
  assumes "read_events env (worker_page after p u) s = Inr page"
  shows "page_size_ok p" "map_r (stored_event_from_row env) (take (nat p) (page_rows after u s)) = Inr page"
  using assms by (auto simp: read_events_def bind_r_Inr_iff check_r_iff Let_def row_selected_worker_page
    page_rows_def)

lemma worker_page_member:
  assumes "read_events env (worker_page after p u) s = Inr page" "stored \<in> set page"
  shows "\<exists>r\<in>set (db_events s). row_sequence r = stored_sequence stored \<and> stored_sequence stored > after"
proof -
  have l: "list_all2 (\<lambda>r e. stored_event_from_row env r = Inr e) (take (nat p) (page_rows after u s)) page"
    using read_worker_page(2)[OF assms(1)] by (simp add: map_r_Inr_iff)
  obtain i where i: "i < length page" "stored = page ! i" using assms(2) by (auto simp: in_set_conv_nth)
  let ?r = "take (nat p) (page_rows after u s) ! i"
  have r: "stored_event_from_row env ?r = Inr stored" using list_all2_nthD2[OF l i(1)] i(2) by simp
  have "i < length (take (nat p) (page_rows after u s))" using i(1) list_all2_lengthD[OF l] by simp
  then have "?r \<in> set (take (nat p) (page_rows after u s))" by (rule nth_mem)
  then have "?r \<in> set (page_rows after u s)" by (rule in_set_takeD)
  then have "?r \<in> set (db_events s) \<and> row_sequence ?r > after" by (auto simp: page_rows_def rows_in_order_def)
  with stored_row_columns(1)[OF r] show ?thesis by metis
qed

lemma worker_page_progress:
  assumes "read_events env (worker_page after p u) s = Inr page" "page \<noteq> []"
  shows "length (List.filter (\<lambda>r. stored_sequence (last page) < row_sequence r) (db_events s))
    < length (List.filter (\<lambda>r. after < row_sequence r) (db_events s))"
proof -
  obtain r where r: "r \<in> set (db_events s)" "row_sequence r = stored_sequence (last page)" "stored_sequence (last page) > after"
    using worker_page_member[OF assms(1), of "last page"] assms(2) by auto
  let ?f = "\<lambda>c. List.filter (\<lambda>r. c < row_sequence r) (db_events s)"
  have "?f (stored_sequence (last page)) = List.filter (\<lambda>r. stored_sequence (last page) < row_sequence r) (?f after)"
    using r(3) by (auto intro!: filter_cong)
  moreover have "r \<in> set (?f after)" using r by simp
  ultimately show ?thesis using r(2) by (metis length_filter_less order_less_irrefl)
qed

text \<open>\<open>while after < high_water\<close>: every page is folded event by event; an empty page ends the loop.\<close>

function worker_pages :: "env \<Rightarrow> pystr \<Rightarrow> int \<Rightarrow> int \<Rightarrow> int \<Rightarrow> worker_fold \<Rightarrow> store \<Rightarrow> worker_error + worker_fold" where
  "worker_pages env project_id page_size until after f s =
     (if \<not> after < until then Inr f
      else (case read_events env (worker_page after page_size until) s of
          Inl e \<Rightarrow> Inl (WorkerStoreFailed e)
        | Inr page \<Rightarrow>
            if page = [] then Inr f
            else (case fold_r (apply_worker_fold project_id) f (List.map st_event page) of
                Inl e \<Rightarrow> Inl e
              | Inr f' \<Rightarrow> worker_pages env project_id page_size until (stored_sequence (last page)) f' s)))"
  by pat_completeness auto

termination worker_pages
  by (relation "measure (\<lambda>(env, project_id, page_size, until, after, f, s).
      length (List.filter (\<lambda>r. row_sequence r > after) (db_events s)))") (auto intro: worker_page_progress)

declare worker_pages.simps [simp del]

definition worker_rebuild :: "env \<Rightarrow> pydatetime \<Rightarrow> (store \<Rightarrow> store) \<Rightarrow> pystr \<Rightarrow> int \<Rightarrow> store
    \<Rightarrow> store \<times> (worker_error + int \<times> worker_fold)" where
  "worker_rebuild env now others project_id page_size s =
     (case freeze_high_water env now s of
        Inl e \<Rightarrow> (s, Inl (WorkerStoreFailed e))
      | Inr (s1, until) \<Rightarrow>
          (let s2 = others s1 in
           (s2, map_sum id (Pair until) (worker_pages env project_id page_size until 0 empty_workers s2))))"

definition worker_preflight_errors :: "worker_error preflight_errors" where
  "worker_preflight_errors = \<lparr>
     clone_failed = (\<lambda>_. WorkerCallError (U ''invalid-draft'')),
     assigned_fields = (\<lambda>_. WorkerCallError (U ''store-assigned-fields'')),
     sequence_exhausted = WorkerCallError (U ''sequence-exhausted''),
     invalid_draft = WorkerPayloadError (U ''invalid-event''),
     wrong_aggregate = WorkerCallError (U ''project-mismatch'')\<rparr>"

definition worker_append_at :: "env \<Rightarrow> pydatetime \<Rightarrow> (store \<Rightarrow> store) \<Rightarrow> pystr \<Rightarrow> int \<times> worker_fold \<Rightarrow> pyval
    \<Rightarrow> store \<Rightarrow> store \<times> (worker_error + stored_event)" where
  "worker_append_at env now others project_id head document s =
     append_at worker_preflight_errors (\<lambda>e. ed_project_id (e_data e) = project_id) WorkerStoreFailed
       (apply_worker_fold project_id) env now others head document s"

definition worker_append :: "env \<Rightarrow> pydatetime \<Rightarrow> pydatetime \<Rightarrow> (store \<Rightarrow> store) \<Rightarrow> (store \<Rightarrow> store) \<Rightarrow> pystr \<Rightarrow> int
    \<Rightarrow> pyval \<Rightarrow> int option \<Rightarrow> store \<Rightarrow> store \<times> (worker_error + stored_event)" where
  "worker_append env now now' others others' project_id page_size document expected s =
     (case worker_rebuild env now others project_id page_size s of
        (s1, Inl e) \<Rightarrow> (s1, Inl e)
      | (s1, Inr head) \<Rightarrow>
          (case expected of
             Some x \<Rightarrow>
               if fst head \<noteq> x then (s1, Inl (WorkerStoreFailed (EventSequenceConflictError x (fst head))))
               else worker_append_at env now' others' project_id head document s1
           | None \<Rightarrow> worker_append_at env now' others' project_id head document s1))"

section \<open>The pages are the log\<close>

lemma filter_after_page:
  assumes "sorted_wrt (\<lambda>x y. (key x :: int) < key y) ys" "0 < p" "ys \<noteq> []"
  shows "List.filter (\<lambda>y. key (last (take p ys)) < key y) ys = drop p ys"
proof -
  let ?a = "take p ys" and ?b = "drop p ys"
  have a: "?a \<noteq> []" using assms(2,3) by simp
  have s: "sorted_wrt (\<lambda>x y. key x < key y) (?a @ ?b)" using assms(1) by simp
  then have "sorted_wrt (\<lambda>x y. key x < key y) (butlast ?a @ [last ?a])" using a by (simp add: sorted_wrt_append)
  then have "\<forall>x\<in>set (butlast ?a). key x < key (last ?a)" by (simp add: sorted_wrt_append)
  moreover have "set ?a = insert (last ?a) (set (butlast ?a))" using a by (metis append_butlast_last_id list.set(2) set_append Un_insert_right list.set(1) sup_bot_right)
  ultimately have "List.filter (\<lambda>y. key (last ?a) < key y) ?a = []" by (auto simp: filter_empty_conv)
  moreover have "List.filter (\<lambda>y. key (last ?a) < key y) ?b = ?b"
    using s a unfolding sorted_wrt_append by (auto simp: filter_id_conv)
  ultimately have "List.filter (\<lambda>y. key (last ?a) < key y) (?a @ ?b) = ?b" by (simp only: filter_append append_Nil)
  then show ?thesis by simp
qed

lemma page_rows_later: "a \<le> b \<Longrightarrow> page_rows b u s = List.filter (\<lambda>r. b < row_sequence r) (page_rows a u s)"
  by (auto simp: page_rows_def intro!: filter_cong)

lemma page_rows_sorted:
  assumes "store_inv env s" shows "sorted_wrt (\<lambda>x y. row_sequence x < row_sequence y) (page_rows a u s)"
proof -
  have "sorted_wrt (\<lambda>x y. row_sequence x < row_sequence y) (db_events s)"
    using numbered_nth[OF store_inv_numbered[OF assms]] by (simp add: sorted_wrt_iff_nth_less)
  then show ?thesis unfolding page_rows_def store_invD(3)[OF assms] by (rule sorted_wrt_filter)
qed

definition event_of_row :: "env \<Rightarrow> event_row \<Rightarrow> stored_event" where
  "event_of_row env r = projr (stored_event_from_row env r)"

lemma event_of_row:
  assumes "store_inv env s" "r \<in> set (db_events s)"
  shows "stored_event_from_row env r = Inr (event_of_row env r)" "stored_sequence (event_of_row env r) = row_sequence r"
    "e_type (st_event (event_of_row env r)) = row_event_type r"
proof -
  show e: "stored_event_from_row env r = Inr (event_of_row env r)"
    using assms by (auto simp: store_inv_def list_all_iff row_ok_def is_ok_iff event_of_row_def)
  show "stored_sequence (event_of_row env r) = row_sequence r" "e_type (st_event (event_of_row env r)) = row_event_type r"
    using stored_row_columns(1,5)[OF e] by simp_all
qed

lemma page_rows_member: "store_inv env s \<Longrightarrow> r \<in> set (page_rows a u s) \<Longrightarrow> r \<in> set (db_events s) \<and> a < row_sequence r \<and> row_sequence r \<le> u"
  by (auto simp: page_rows_def store_invD(3))

lemma read_worker_page_intact:
  assumes "store_inv env s" "page_size_ok p" "0 \<le> a" "a \<le> CLOUD_EVENTS_INTEGER_MAX" "0 \<le> u" "u \<le> CLOUD_EVENTS_INTEGER_MAX"
  shows "read_events env (worker_page a p u) s = Inr (List.map (event_of_row env) (take (nat p) (page_rows a u s)))"
proof -
  have "map_r (stored_event_from_row env) (take (nat p) (page_rows a u s)) = Inr (List.map (event_of_row env) (take (nat p) (page_rows a u s)))"
    using event_of_row(1)[OF assms(1)] page_rows_member[OF assms(1)] by (intro map_r_all) (auto dest!: in_set_takeD)
  moreover have "List.filter (row_selected (worker_page a p u)) (rows_in_order s) = page_rows a u s"
    by (simp add: row_selected_worker_page page_rows_def)
  ultimately show ?thesis using assms(2-) worker_types_valid
    by (simp add: read_events_def validate_until_sequence_def validate_sequence_bound_def check_r_def Let_def
      sequence_in_range_def bounded_identifier_def)
qed

lemma worker_pages_intact:
  assumes "store_inv env s" "page_size_ok p" "0 \<le> u" "u \<le> CLOUD_EVENTS_INTEGER_MAX"
  shows "0 \<le> a \<Longrightarrow> worker_pages env project p u a f s
    = fold_r (apply_worker_fold project) f (List.map (\<lambda>r. st_event (event_of_row env r)) (page_rows a u s))"
proof (induction "length (page_rows a u s)" arbitrary: a f rule: less_induct)
  case less
  let ?rows = "page_rows a u s" and ?ev = "\<lambda>r. st_event (event_of_row env r)"
  show ?case
  proof (cases "a < u")
    case False
    then have "?rows = []" by (auto simp: page_rows_def filter_empty_conv)
    with False show ?thesis by (simp add: worker_pages.simps)
  next
    case True
    let ?page = "take (nat p) ?rows"
    have p: "0 < nat p" using assms(2) by (simp add: page_size_ok_def)
    have rd: "read_events env (worker_page a p u) s = Inr (List.map (event_of_row env) ?page)"
      using less.prems True assms(3,4) by (intro read_worker_page_intact[OF assms(1,2)]) auto
    show ?thesis
    proof (cases "?rows = []")
      case True
      with rd show ?thesis by (simp add: worker_pages.simps)
    next
      case False
      let ?b = "row_sequence (last ?page)"
      have ne: "?page \<noteq> []" using False p by simp
      then have m: "last ?page \<in> set ?rows" by (metis in_set_takeD last_in_set)
      then have b: "a < ?b" "?b \<le> u" "stored_sequence (event_of_row env (last ?page)) = ?b"
        using page_rows_member[OF assms(1) m] event_of_row(2)[OF assms(1)] by auto
      have rest: "page_rows ?b u s = drop (nat p) ?rows"
        using page_rows_later[of a ?b u s] b(1) filter_after_page[OF page_rows_sorted[OF assms(1)] p False] by simp
      have "worker_pages env project p u ?b f' s = fold_r (apply_worker_fold project) f' (List.map ?ev (drop (nat p) ?rows))" for f'
        using less.hyps[of ?b f'] less.prems b(1) False p unfolding rest by simp
      moreover have "stored_sequence (last (List.map (event_of_row env) ?page)) = ?b" unfolding last_map[OF ne] by (rule b(3))
      moreover have "List.map st_event (List.map (event_of_row env) ?page) = List.map ?ev ?page" by simp
      moreover have "List.map (event_of_row env) ?page \<noteq> []" using ne by simp
      ultimately have "worker_pages env project p u a f s = (case fold_r (apply_worker_fold project) f (List.map ?ev ?page) of
          Inl e \<Rightarrow> Inl e | Inr f' \<Rightarrow> fold_r (apply_worker_fold project) f' (List.map ?ev (drop (nat p) ?rows)))"
        using True by (subst worker_pages.simps) (simp only: rd sum.case if_False not_True_eq_False simp_thms)
      also have "\<dots> = fold_r (apply_worker_fold project) f (List.map ?ev ?page @ List.map ?ev (drop (nat p) ?rows))"
        unfolding fold_r_append by (simp split: sum.split)
      also have "List.map ?ev ?page @ List.map ?ev (drop (nat p) ?rows) = List.map ?ev ?rows"
        by (metis append_take_drop_id map_append)
      finally show ?thesis .
    qed
  qed
qed

lemma apply_other_type: "e_type e \<notin> set WORKER_EVENT_TYPES \<Longrightarrow> apply_worker_fold p f e = Inr f"
  by (simp add: apply_worker_fold_def List.member_iff)

lemma fold_worker_types:
  "fold_r (apply_worker_fold p) f (List.filter (\<lambda>e. e_type e \<in> set WORKER_EVENT_TYPES) es) = fold_r (apply_worker_fold p) f es"
  by (induction es arbitrary: f) (auto simp: apply_other_type)

lemma worker_pages_facts:
  assumes "store_inv env s" "page_size_ok p" "env_ok env" "n \<le> length (db_events s)"
  shows "worker_pages env project p (int n) 0 f s = fold_r (apply_worker_fold project) f (take n (facts env s))"
proof -
  have seq: "i < length (db_events s) \<Longrightarrow> row_sequence (db_events s ! i) = int i + 1" for i
    using numbered_nth[OF store_inv_numbered[OF assms(1)]] by simp
  let ?t = "\<lambda>r. row_event_type r \<in> set WORKER_EVENT_TYPES" and ?ev = "\<lambda>r. st_event (event_of_row env r)"
  have head: "List.filter (\<lambda>r. 0 < row_sequence r \<and> row_sequence r \<le> int n \<and> ?t r) (take n (db_events s)) = List.filter ?t (take n (db_events s))"
    using seq by (intro filter_cong) (auto simp: in_set_conv_nth)
  have tail: "List.filter (\<lambda>r. 0 < row_sequence r \<and> row_sequence r \<le> int n \<and> ?t r) (drop n (db_events s)) = []"
    using seq by (auto simp: filter_empty_conv in_set_conv_nth)
  have rows: "page_rows 0 (int n) s = List.filter ?t (take n (db_events s))"
    unfolding page_rows_def store_invD(3)[OF assms(1)]
    by (subst append_take_drop_id[of n "db_events s", symmetric], subst filter_append) (simp only: head tail append_Nil2)
  have ev: "List.map ?ev (take n (db_events s)) = take n (facts env s)"
    by (simp add: facts_stored[OF assms(1)] stored_events_def event_of_row_def take_map comp_def)
  have "List.map ?ev (List.filter ?t (take n (db_events s))) = List.filter (\<lambda>e. e_type e \<in> set WORKER_EVENT_TYPES) (List.map ?ev (take n (db_events s)))"
    unfolding filter_map comp_def using event_of_row(3)[OF assms(1)]
    by (intro arg_cong[where f = "List.map ?ev"] filter_cong) (auto dest!: in_set_takeD)
  then have "List.map ?ev (page_rows 0 (int n) s) = List.filter (\<lambda>e. e_type e \<in> set WORKER_EVENT_TYPES) (take n (facts env s))"
    using rows ev by simp
  moreover have "int n \<le> CLOUD_EVENTS_INTEGER_MAX" using store_inv_length[OF assms(1,3)] assms(4) by simp
  ultimately show ?thesis using worker_pages_intact[OF assms(1,2), of "int n" 0 project f] by (simp add: fold_worker_types)
qed

section \<open>The control is a fold control\<close>

lemma worker_rebuild_frozen:
  assumes "env_ok env" "now \<noteq> Naive" "store_inv env s" "report_ok env s" "page_size_ok page_size" "grows env others"
  shows "worker_rebuild env now others p page_size s =
    frozen_fold WorkerStoreFailed (apply_worker_fold p) empty_workers env now others page_size s"
proof -
  obtain s1 n where f: "freeze_high_water env now s = Inr (s1, n)" using freeze_total[OF assms(1-4)] by (auto simp: is_ok_iff)
  note fe = freeze_effect[OF f assms(1-3)]
  have i1: "store_inv env s1" using assms(3) store_inv_cong[OF fe(2)] by simp
  note g = grows_at[OF assms(6) i1]
  have len: "length (db_events s) \<le> length (db_events (others s1))"
    using grows_facts(2)[OF assms(6) i1] fe(2) by simp
  have "fold_replay (apply_worker_fold p) WorkerStoreFailed empty_workers
      (snd (replay_events env now 0 page_size False (Some n) (others s1)))
    = fold_r (apply_worker_fold p) empty_workers (take (length (db_events s)) (facts env (others s1)))"
    using fold_replay_upto[OF g(1) assms(5) store_inv_length[OF g(1) assms(1)] len] fe(1) assms(5)
    by (simp add: replay_events_def require_replay_bounds_def check_r_def sequence_in_range_def CLOUD_EVENTS_INTEGER_MAX_def)
  moreover have "worker_pages env p page_size n 0 empty_workers (others s1)
    = fold_r (apply_worker_fold p) empty_workers (take (length (db_events s)) (facts env (others s1)))"
    using worker_pages_facts[OF g(1) assms(5,1) len] fe(1) by simp
  ultimately show ?thesis by (simp add: worker_rebuild_def frozen_fold_def f Let_def)
qed

lemma worker_append_fold:
  assumes "env_ok env" "now \<noteq> Naive" "store_inv env s" "report_ok env s" "page_size_ok page_size" "grows env others"
  shows "worker_append env now now' others others' p page_size document expected s =
    fold_append worker_preflight_errors (\<lambda>e. ed_project_id (e_data e) = p) WorkerStoreFailed (apply_worker_fold p)
      empty_workers env now now' others others' page_size document expected s"
  by (simp add: worker_append_def fold_append_def worker_append_at_def worker_rebuild_frozen[OF assms]
    split: prod.split sum.split option.split)

lemma reachable_worker_inv: "fold_r (apply_worker_fold p) empty_workers es = Inr f \<Longrightarrow> worker_inv f"
  using worker_contract.fold_invariant[of p empty_workers es f] by simp

section \<open>Samples\<close>

definition worker_event :: "actor_kind \<Rightarrow> pystr \<Rightarrow> nat \<Rightarrow> (string \<times> string) list \<Rightarrow> research_event" where
  "worker_event kind t n ps = sample_event_by (Some kind) t n (Some (U ''a''))
     (PyDict (List.map (\<lambda>(k, v). (KStr (U k), PyStr (U v))) ps))"

definition zero_digest :: string where "zero_digest = ''sha256:'' @ replicate 64 CHR ''0''"

definition leased_log :: "research_event list" where
  "leased_log =
     [worker_event HUMAN TYPE_WORKER_REGISTERED 1 [(''workerId'', ''w'')],
      worker_event SYSTEM TYPE_WORK_QUEUED 2 [(''taskId'', ''t''), (''imageDigest'', zero_digest), (''configDigest'', zero_digest)],
      worker_event HUMAN TYPE_GRANT_RECORDED 3 [(''grantId'', ''g''), (''workerId'', ''w''), (''taskId'', ''t''), (''nonce'', ''n''),
        (''expiresAt'', ''2026-01-02T05:00:00Z''), (''keyId'', ''local.hmac.1''), (''authorizationEventId'', ''e''),
        (''authorizationSequence'', ''1''), (''imageDigest'', zero_digest), (''configDigest'', zero_digest)]]"

definition sample_lease_event :: research_event where
  "sample_lease_event = worker_event SYSTEM TYPE_WORK_LEASED 4 [(''leaseId'', ''l''), (''workerId'', ''w''), (''taskId'', ''t''),
     (''grantId'', ''g''), (''expiresAt'', ''2026-01-02T04:00:00Z'')]"

definition settled_log :: "research_event list" where
  "settled_log =
     [worker_event SYSTEM TYPE_WORK_CLAIMED 5 [(''leaseId'', ''l''), (''workerId'', ''w''), (''nonce'', ''n'')],
      worker_event SYSTEM TYPE_GRANT_CONSUMED 6 [(''grantId'', ''g''), (''leaseId'', ''l''), (''nonce'', ''n'')],
      worker_event SYSTEM TYPE_WORK_COMPLETED 7 [(''leaseId'', ''l''), (''resultDigest'', zero_digest), (''artifactDigest'', zero_digest)]]"

definition completed_lease :: lease_record where
  "completed_lease = \<lparr>le_lease_id = U ''l'', le_worker_id = U ''w'', le_task_id = U ''t'', le_grant_id = U ''g'', le_run_id = U ''r'',
     le_attempt_id = U ''a'', le_expires_at = U ''2026-01-02T04:00:00Z'', le_claimed = True, le_status = Completed,
     le_result_digest = Some (U zero_digest), le_artifact_digest = Some (U zero_digest), le_reason_code = None\<rparr>"

lemma sample_lease_parses: "parse_worker_payload sample_lease_event = Inr (WorkLeasedPayload \<lparr>wl_lease_id = U ''l'',
    wl_worker_id = U ''w'', wl_task_id = U ''t'', wl_grant_id = U ''g'', wl_expires_at = U ''2026-01-02T04:00:00Z''\<rparr>)"
  by code_simp

lemma leased_log_folds:
  obtains f g where "fold_r (apply_worker_fold (U ''p'')) empty_workers leased_log = Inr f"
    "apply_worker_fold (U ''p'') f sample_lease_event = Inr g"
    "fold_r (apply_worker_fold (U ''p'')) empty_workers (leased_log @ [sample_lease_event]) = Inr g"
proof -
  have "is_ok (fold_r (apply_worker_fold (U ''p'')) empty_workers (leased_log @ [sample_lease_event]))" by code_simp
  then obtain g where g: "fold_r (apply_worker_fold (U ''p'')) empty_workers (leased_log @ [sample_lease_event]) = Inr g"
    by (auto simp: is_ok_iff)
  then show ?thesis using that by (auto simp: fold_r_append bind_r_Inr_iff)
qed

lemma settled_log_folds:
  obtains f where "fold_r (apply_worker_fold (U ''p'')) empty_workers ((leased_log @ [sample_lease_event]) @ settled_log) = Inr f"
    "wf_leases f = [completed_lease]"
proof -
  have "(case fold_r (apply_worker_fold (U ''p'')) empty_workers ((leased_log @ [sample_lease_event]) @ settled_log) of
    Inl _ \<Rightarrow> False | Inr f \<Rightarrow> wf_leases f = [completed_lease])" by code_simp
  then show ?thesis using that by (auto split: sum.splits)
qed

text \<open>A first registration.\<close>

definition registration :: pydict where
  "registration = draft_by (Some HUMAN) TYPE_WORKER_REGISTERED 7 None (PyDict [(KStr (U ''workerId''), PyStr (U ''w''))])"

lemma registration_checks: "EventIdentifier TYPE_WORKER_REGISTERED"
  "require_event_payload (PyDict [(KStr (U ''workerId''), PyStr (U ''w''))])" "utf8_ok TYPE_WORKER_REGISTERED"
  "keys_distinct (PyDict [(KStr (U ''workerId''), PyStr (U ''w''))])" "floats_ok FFin (PyDict [(KStr (U ''workerId''), PyStr (U ''w''))])"
  by code_simp+

lemma registration_passes:
  "bind_r (preflight worker_preflight_errors (\<lambda>e. ed_project_id (e_data e) = U ''p'') 0 (PyDict registration))
     (\<lambda>checked. bind_r (apply_worker_fold (U ''p'') empty_workers (snd checked)) (\<lambda>_. Inr (fst checked))) = Inr registration"
  by code_simp

lemma registration_ok: "draft_ok sample_env (PyDict registration)"
  unfolding registration_def by (rule sample_draft_ok) (simp_all add: registration_checks sample_env_def)

lemma page_size_10: "page_size_ok 10" by (simp add: page_size_ok_def MAX_READ_PAGE_SIZE_def)

abbreviation first_registration :: "store \<times> (worker_error + stored_event)" where
  "first_registration \<equiv> worker_append sample_env sample_clock sample_clock id id (U ''p'') 10 (PyDict registration) (Some 0)
     (empty_store sample_env)"

lemma first_registration_succeeds:
  obtains s' st where "first_registration = (s', Inr st)"
proof -
  obtain s1 where f: "worker_rebuild sample_env sample_clock id (U ''p'') 10 (empty_store sample_env) = (s1, Inr (0, empty_workers))"
    and s1: "store_inv sample_env s1" "writable s1" "db_events s1 = []"
    unfolding worker_rebuild_frozen[OF sample_env_ok(1) sample_clock_ok(2) empty_store_ok(1,2) page_size_10 grows_id(1)]
    by (rule frozen_fold_exact[OF sample_env_ok(1) sample_clock_ok(2) empty_store_ok(1,2) page_size_10 grows_id(1),
        where failed = WorkerStoreFailed and step = "apply_worker_fold (U ''p'')" and init = empty_workers])
      (use empty_store_ok(3)[of sample_env] in simp)
  have "is_ok (append_checked sample_env sample_clock (PyDict registration) (Some 0) s1)"
    unfolding registration_def by (rule first_event_accepted) (use s1 registration_checks in simp_all)
  then obtain s' st where "append_store sample_env sample_clock (PyDict registration) (Some 0) s1 = (s', Inr st)"
    by (auto simp: is_ok_iff append_store_def)
  then have "first_registration = (s', Inr st)"
    unfolding worker_append_def worker_append_at_def append_at_def f by (simp add: registration_passes)
  then show ?thesis by (rule that)
qed

section \<open>Statements\<close>

text \<open>C35: The state that an accepted log folds to is well formed.  Worker, grant and lease ids and queued
  task attempts are unique.  A lease names a registered worker and a queued task attempt whose runtime the
  worker has and whose accelerators it advertises, and a recorded grant for the same worker and task.  A
  completed lease was claimed; digests are set exactly on completed leases and a reason exactly on failed
  ones.  A grant names a registered worker, and the lease that consumed it is a lease of this grant.\<close>

theorem worker_fold_wellformed:
  assumes "fold_r (apply_worker_fold p) empty_workers es = Inr f"
  shows "distinct (List.map wk_worker_id (wf_workers f)) \<and> distinct (List.map gr_grant_id (wf_grants f))
    \<and> distinct (List.map (\<lambda>q. (qw_task_id q, qw_attempt_id q)) (wf_queued f)) \<and> distinct (List.map le_lease_id (wf_leases f))
    \<and> (\<forall>g\<in>set (wf_grants f). grant_ok f g) \<and> (\<forall>l\<in>set (wf_leases f). lease_ok f l)"
  using reachable_worker_inv[OF assms] unfolding worker_inv_def .

theorem worker_fold_wellformed_witness:
  "\<exists>f. wf_leases f = [completed_lease] \<and> distinct (List.map gr_grant_id (wf_grants f)) \<and> lease_ok f completed_lease"
proof (rule settled_log_folds)
  fix f assume *: "fold_r (apply_worker_fold (U ''p'')) empty_workers ((leased_log @ [sample_lease_event]) @ settled_log) = Inr f"
    "wf_leases f = [completed_lease]"
  from worker_fold_wellformed[OF *(1)] *(2) show ?thesis by (intro exI[of _ f]) simp
qed

text \<open>C30: Facts are never taken back.  Whatever an accepted log continues with, workers and queued work stay
  as they are, grants and leases keep their place and what they were recorded with, a consumed grant stays
  consumed by the same lease, a revoked grant and a completed, failed or expired lease never change again,
  and a claim is never undone.\<close>

theorem worker_facts_final:
  assumes "fold_r (apply_worker_fold p) empty_workers es = Inr f" "fold_r (apply_worker_fold p) empty_workers (es @ fs) = Inr g"
  shows "prefix (wf_workers f) (wf_workers g) \<and> prefix (wf_queued f) (wf_queued g)
    \<and> length (wf_grants f) \<le> length (wf_grants g) \<and> length (wf_leases f) \<le> length (wf_leases g)
    \<and> (\<forall>i<length (wf_grants f). grant_later (wf_grants f ! i) (wf_grants g ! i))
    \<and> (\<forall>i<length (wf_leases f). lease_later (wf_leases f ! i) (wf_leases g ! i))"
proof -
  have "fold_r (apply_worker_fold p) f fs = Inr g" using assms by (simp add: fold_r_append)
  from worker_fold_kept[OF this reachable_worker_inv[OF assms(1)]] show ?thesis
    by (simp add: worker_kept_def extends_by_nth)
qed

theorem worker_facts_final_witness:
  "\<exists>f g. fold_r (apply_worker_fold (U ''p'')) empty_workers (leased_log @ [sample_lease_event]) = Inr f
     \<and> fold_r (apply_worker_fold (U ''p'')) empty_workers ((leased_log @ [sample_lease_event]) @ settled_log) = Inr g
     \<and> wf_leases g = [completed_lease] \<and> prefix (wf_workers f) (wf_workers g) \<and> (\<forall>i<length (wf_leases f). lease_later (wf_leases f ! i) (wf_leases g ! i))"
proof (rule settled_log_folds, rule leased_log_folds)
  fix h f g assume *: "fold_r (apply_worker_fold (U ''p'')) empty_workers ((leased_log @ [sample_lease_event]) @ settled_log) = Inr h"
    "wf_leases h = [completed_lease]" "fold_r (apply_worker_fold (U ''p'')) empty_workers (leased_log @ [sample_lease_event]) = Inr g"
  note final = worker_facts_final[OF *(3,1)]
  show ?thesis by (rule exI[of _ g], rule exI[of _ h], intro conjI) (use final * in blast)+
qed

text \<open>C5: A task attempt is leased to one worker at a time: when a \<open>work.leased\<close> fact is accepted, every earlier
  lease of the same task attempt is completed, failed or expired, or its expiry is not after the time of
  the new lease's event.  The new lease stands on a grant of the same worker and task that is not revoked.\<close>

theorem lease_exclusive:
  assumes "fold_r (apply_worker_fold p) empty_workers es = Inr f" "apply_worker_fold p f e = Inr g" "worker_own p e"
    "parse_worker_payload e = Inr (WorkLeasedPayload q)"
  shows "\<exists>l now c. wf_leases g = wf_leases f @ [l] \<and> le_lease_id l = wl_lease_id q \<and> le_worker_id l = wl_worker_id q
    \<and> ed_attempt_id (e_data e) = Some (le_attempt_id l) \<and> le_task_id l = wl_task_id q \<and> instant_of (e_time e) = Inr now
    \<and> (\<forall>l'\<in>set (wf_leases f). le_task_id l' = le_task_id l \<and> le_attempt_id l' = le_attempt_id l
        \<longrightarrow> le_status l' \<noteq> Leased \<or> (\<exists>x. instant_of (le_expires_at l') = Inr x \<and> x \<le> now))
    \<and> c \<in> set (wf_grants f) \<and> gr_grant_id c = le_grant_id l \<and> gr_worker_id c = le_worker_id l \<and> gr_task_id c = le_task_id l
    \<and> \<not> gr_revoked c"
proof -
  have a: "apply_leased f e q = Inr g"
    using assms(2)
  proof (cases rule: apply_worker_fold_payload)
    case (2 x)
    then have "x = WorkLeasedPayload q" using assms(4) by simp
    with 2(4) show ?thesis by simp
  qed (use assms(3) in simp)
  show ?thesis
  proof (rule apply_leased_result[OF a])
    fix w c q' run attempt now l
    assume *: "fold_grant f (wl_grant_id q) = Some c" "\<not> gr_revoked c" "gr_worker_id c = wl_worker_id q" "gr_task_id c = wl_task_id q"
      "ed_attempt_id (e_data e) = Some attempt" "instant_of (e_time e) = Inr now"
      "active_lease_for f (wl_task_id q) attempt now = Inr None" "g = f\<lparr>wf_leases := wf_leases f @ [l]\<rparr>"
      "l = \<lparr>le_lease_id = wl_lease_id q, le_worker_id = wl_worker_id q, le_task_id = wl_task_id q,
       le_grant_id = wl_grant_id q, le_run_id = run, le_attempt_id = attempt, le_expires_at = wl_expires_at q,
       le_claimed = False, le_status = Leased, le_result_digest = None, le_artifact_digest = None, le_reason_code = None\<rparr>"
    have "\<forall>l'\<in>set (wf_leases f). le_task_id l' = wl_task_id q \<and> le_attempt_id l' = attempt
        \<longrightarrow> le_status l' \<noteq> Leased \<or> (\<exists>x. instant_of (le_expires_at l') = Inr x \<and> x \<le> now)"
      using active_lease_in_None *(7) unfolding active_lease_for_def by blast
    with * fold_grant_Some[OF *(1)] show ?thesis
      by (intro exI[of _ l] exI[of _ now] exI[of _ c]) simp
  qed
qed

theorem lease_exclusive_witness:
  "\<exists>f g l. apply_worker_fold (U ''p'') f sample_lease_event = Inr g \<and> wf_leases g = wf_leases f @ [l] \<and> le_lease_id l = U ''l''
     \<and> ed_attempt_id (e_data sample_lease_event) = Some (le_attempt_id l)"
proof (rule leased_log_folds)
  fix f g assume *: "fold_r (apply_worker_fold (U ''p'')) empty_workers leased_log = Inr f"
    "apply_worker_fold (U ''p'') f sample_lease_event = Inr g"
  have o: "worker_own (U ''p'') sample_lease_event" by code_simp
  from lease_exclusive[OF * o sample_lease_parses] *(2) show ?thesis by auto
qed

text \<open>Work is completed only after it was claimed: a completed lease of an accepted log comes from a
  \<open>work.completed\<close> fact of a system actor with its digests, and before that fact the log has a
  \<open>work.claimed\<close> fact by the worker that holds the lease.\<close>

lemma completed_needs_claim:
  assumes "fold_r (apply_worker_fold p) empty_workers es = Inr f" "l \<in> set (wf_leases f)" "le_status l = Completed"
  shows "\<exists>before e after n r a. es = before @ e # after \<and> logged p (WorkCompletedPayload (le_lease_id l) r a) e
    \<and> le_result_digest l = Some r \<and> le_artifact_digest l = Some a
    \<and> (\<exists>c\<in>set before. logged p (WorkClaimedPayload (le_lease_id l) (le_worker_id l) n) c)"
  by (rule completed_logged[OF assms])

theorem completed_needs_claim_witness:
  "\<exists>before e after n. (leased_log @ [sample_lease_event]) @ settled_log = before @ e # after
     \<and> (\<exists>c\<in>set before. logged (U ''p'') (WorkClaimedPayload (U ''l'') (U ''w'') n) c)"
proof (rule settled_log_folds)
  fix f assume *: "fold_r (apply_worker_fold (U ''p'')) empty_workers ((leased_log @ [sample_lease_event]) @ settled_log) = Inr f"
    "wf_leases f = [completed_lease]"
  have c: "completed_lease \<in> set (wf_leases f)" "le_status completed_lease = Completed" "le_lease_id completed_lease = U ''l''"
    "le_worker_id completed_lease = U ''w''" using *(2) by (simp_all add: completed_lease_def)
  from completed_needs_claim[OF *(1) c(1,2)] c(3,4) show ?thesis by metis
qed

text \<open>C31: \<open>WorkerControl.rebuild\<close>, which reads only pages of worker events, gives what folding the whole log up
  to the frozen head gives, or its first refusal; the page size and writers in between make no difference.\<close>

lemma worker_rebuild_is_fold:
  assumes "env_ok env" "now \<noteq> Naive" "store_inv env s" "report_ok env s" "page_size_ok page_size" "grows env others"
  shows "snd (worker_rebuild env now others p page_size s) =
      map_sum id (Pair (int (length (facts env s)))) (fold_r (apply_worker_fold p) empty_workers (facts env s))
    \<and> (others = id \<longrightarrow> facts env (fst (worker_rebuild env now others p page_size s)) = facts env s)"
proof -
  obtain s1 where "frozen_fold WorkerStoreFailed (apply_worker_fold p) empty_workers env now others page_size s =
      (s1, map_sum id (Pair (int (length (facts env s)))) (fold_r (apply_worker_fold p) empty_workers (facts env s)))"
    "others = id \<longrightarrow> db_events s1 = db_events s"
    by (rule frozen_fold_exact[OF assms])
  then show ?thesis unfolding worker_rebuild_frozen[OF assms] by (auto simp: facts_def)
qed

theorem worker_rebuild_is_fold_witness:
  "snd (worker_rebuild sample_env sample_clock id (U ''p'') 10 (empty_store sample_env)) = Inr (0, empty_workers)"
  using worker_rebuild_is_fold[OF sample_env_ok(1) sample_clock_ok(2) empty_store_ok(1,2) page_size_10 grows_id(1), of "U ''p''"]
  by simp

text \<open>When \<open>WorkerControl.append\<close> returns, one fact was added to the log it had folded, numbered one past the
  head the caller expected, the new log folds too, and what the old log established is kept.  When it
  raises, the log is what it was, other writers apart.\<close>

lemma worker_append_outcomes:
  assumes "env_ok env" "now \<noteq> Naive" "clock_ok now'" "store_inv env s" "report_ok env s" "page_size_ok page_size"
    "grows env others" "grows env others'" "draft_ok env document"
    "worker_append env now now' others others' p page_size document expected s = (s', r)"
  shows "case r of
      Inr st \<Rightarrow> \<exists>f g. store_inv env s' \<and> facts env s' = facts env s @ [fact_of st]
        \<and> stored_sequence st = int (length (facts env s)) + 1 \<and> (expected = None \<or> expected = Some (int (length (facts env s))))
        \<and> fold_r (apply_worker_fold p) empty_workers (facts env s) = Inr f
        \<and> fold_r (apply_worker_fold p) empty_workers (facts env s') = Inr g \<and> worker_kept f g
    | Inl e \<Rightarrow> others = id \<and> others' = id \<longrightarrow> facts env s' = facts env s"
proof -
  have app: "fold_append worker_preflight_errors (\<lambda>e. ed_project_id (e_data e) = p) WorkerStoreFailed (apply_worker_fold p)
      empty_workers env now now' others others' page_size document expected s = (s', r)"
    using assms(10) worker_append_fold[OF assms(1,2,4-7)] by simp
  show ?thesis
  proof (cases r)
    case (Inl e)
    then show ?thesis using worker_log.fold_append_refused[OF assms(1,2,4-7) app[unfolded Inl]] by auto
  next
    case (Inr st)
    show ?thesis
    proof (rule worker_log.fold_append_committed[OF assms(1-9) app[unfolded Inr]])
      fix f pre g
      assume *: "fold_r (apply_worker_fold p) empty_workers (facts env s) = Inr f" "store_inv env s'"
        "facts env s' = facts env s @ [fact_of st]" "fold_r (apply_worker_fold p) empty_workers (facts env s') = Inr g"
        "stored_sequence st = int (length (facts env s)) + 1" "expected = None \<or> expected = Some (int (length (facts env s)))"
      have "fold_r (apply_worker_fold p) f [fact_of st] = Inr g" using * by (simp add: fold_r_append)
      from worker_fold_kept[OF this reachable_worker_inv[OF *(1)]] have "worker_kept f g" .
      with * show ?thesis unfolding Inr sum.case by blast
    qed
  qed
qed

theorem worker_append_outcomes_witness:
  "\<exists>s' st g. first_registration = (s', Inr st) \<and> facts sample_env s' = [fact_of st] \<and> stored_sequence st = 1
     \<and> fold_r (apply_worker_fold (U ''p'')) empty_workers (facts sample_env s') = Inr g"
proof (rule first_registration_succeeds)
  fix s' st assume r: "first_registration = (s', Inr st)"
  from r worker_append_outcomes[OF sample_env_ok(1) sample_clock_ok(2,1) empty_store_ok(1,2) page_size_10
      grows_id(1) grows_id(1) registration_ok r]
  show ?thesis by auto
qed

end
