(* ===== verification/Worker_Drafts.thy ===== *)
theory Worker_Drafts
  imports Requests Worker_Control Store_Samples
begin

text \<open>
  \<open>workers/drafts.py\<close>: the drafts of the ten worker facts, and \<open>workers/requests.py\<close>: the two closed
  request documents with which people register workers and record grants.  The arguments that every
  draft function takes (project, event id, time, source, revision) are a record.
\<close>

section \<open>Drafts\<close>

record draft_context =
  dx_project_id :: pystr
  dx_event_id :: pystr
  dx_time :: pystr
  dx_source :: pystr
  dx_revision :: int

definition worker_event_draft :: "draft_head \<Rightarrow> pydict \<Rightarrow> pystr \<Rightarrow> int \<Rightarrow> pydict \<Rightarrow> pystr list \<Rightarrow> pystr option \<Rightarrow> pystr option \<Rightarrow> pydict" where
  "worker_event_draft h actor project_id revision payload evidence_refs run attempt =
     draft_document h (draft_data actor project_id revision None payload evidence_refs run attempt)"

definition worker_draft :: "draft_context \<Rightarrow> pystr \<Rightarrow> pystr \<Rightarrow> pystr \<Rightarrow> actor_kind \<Rightarrow> pydict \<Rightarrow> pystr option \<Rightarrow> pystr option \<Rightarrow> pydict" where
  "worker_draft c event_type subject actor kind payload run attempt =
     worker_event_draft \<lparr>dh_id = dx_event_id c, dh_type = event_type, dh_time = dx_time c, dh_source = dx_source c,
         dh_subject = subject, dh_stream = dx_project_id c\<rparr>
       (draft_actor actor (Some (kind_text kind)) None) (dx_project_id c) (dx_revision c) payload [] run attempt"

definition registered_document :: "pystr \<Rightarrow> pystr list \<Rightarrow> pystr \<Rightarrow> pydict" where
  "registered_document worker_id accelerators runtime =
     [(KStr (U ''workerId''), PyStr worker_id), (KStr (U ''runtime''), PyStr runtime),
      (KStr (U ''protocol''), PyStr (U ''researchos.worker-longpoll/v0alpha1'')), (KStr (U ''accelerators''), text_list accelerators)]"

definition registered_draft :: "draft_context \<Rightarrow> pystr \<Rightarrow> pystr \<Rightarrow> pystr list \<Rightarrow> pystr \<Rightarrow> pydict" where
  "registered_draft c worker_id actor accelerators runtime =
     worker_draft c TYPE_WORKER_REGISTERED worker_id actor HUMAN (registered_document worker_id accelerators runtime) None None"

text \<open>The grant's own arguments are the fields of its payload; the key is always the local one.\<close>

definition grant_document :: "grant_recorded \<Rightarrow> pydict" where
  "grant_document g =
     [(KStr (U ''grantId''), PyStr (gp_grant_id g)), (KStr (U ''workerId''), PyStr (gp_worker_id g)),
      (KStr (U ''taskId''), PyStr (gp_task_id g)), (KStr (U ''nonce''), PyStr (gp_nonce g)),
      (KStr (U ''expiresAt''), PyStr (gp_expires_at g)), (KStr (U ''keyId''), PyStr (U ''local.hmac.1'')),
      (KStr (U ''authorizationEventId''), PyStr (gp_authorization_event_id g)),
      (KStr (U ''authorizationSequence''), PyStr (gp_authorization_sequence g)),
      (KStr (U ''imageDigest''), PyStr (gp_image_digest g)), (KStr (U ''configDigest''), PyStr (gp_config_digest g))]"

definition grant_recorded_draft :: "draft_context \<Rightarrow> grant_recorded \<Rightarrow> pystr \<Rightarrow> pystr \<Rightarrow> pystr \<Rightarrow> pydict" where
  "grant_recorded_draft c g run attempt actor =
     worker_draft c TYPE_GRANT_RECORDED (gp_grant_id g) actor HUMAN (grant_document g) (Some run) (Some attempt)"

definition pairs :: "(string \<times> pystr) list \<Rightarrow> pydict" where
  "pairs kvs = List.map (\<lambda>(k, v). (KStr (U k), PyStr v)) kvs"

definition grant_revoked_draft :: "draft_context \<Rightarrow> pystr \<Rightarrow> pystr \<Rightarrow> pystr \<Rightarrow> pystr \<Rightarrow> pystr \<Rightarrow> pydict" where
  "grant_revoked_draft c grant_id run attempt actor reason_code =
     worker_draft c TYPE_GRANT_REVOKED grant_id actor HUMAN (pairs [(''grantId'', grant_id), (''reasonCode'', reason_code)])
       (Some run) (Some attempt)"

definition grant_consumed_draft :: "draft_context \<Rightarrow> pystr \<Rightarrow> pystr \<Rightarrow> pystr \<Rightarrow> pystr \<Rightarrow> pystr \<Rightarrow> pystr \<Rightarrow> pydict" where
  "grant_consumed_draft c grant_id lease_id nonce run attempt worker_id =
     worker_draft c TYPE_GRANT_CONSUMED grant_id worker_id SYSTEM
       (pairs [(''grantId'', grant_id), (''leaseId'', lease_id), (''nonce'', nonce)]) (Some run) (Some attempt)"

definition work_queued_draft :: "draft_context \<Rightarrow> pystr \<Rightarrow> pystr \<Rightarrow> pystr \<Rightarrow> pystr \<Rightarrow> pystr \<Rightarrow> pystr \<Rightarrow> pydict \<Rightarrow> pydict
    \<Rightarrow> pystr list \<Rightarrow> pystr \<Rightarrow> pystr \<Rightarrow> pydict" where
  "work_queued_draft c task_id run attempt image_digest config_digest actor config inputs required_accelerators image_media_type runtime =
     worker_draft c TYPE_WORK_QUEUED task_id actor SYSTEM
       [(KStr (U ''taskId''), PyStr task_id), (KStr (U ''imageDigest''), PyStr image_digest),
        (KStr (U ''imageMediaType''), PyStr image_media_type), (KStr (U ''runtime''), PyStr runtime),
        (KStr (U ''config''), PyDict config), (KStr (U ''inputs''), PyDict inputs),
        (KStr (U ''configDigest''), PyStr config_digest), (KStr (U ''requiredAccelerators''), text_list required_accelerators)]
       (Some run) (Some attempt)"

definition work_leased_draft :: "draft_context \<Rightarrow> work_leased \<Rightarrow> pystr \<Rightarrow> pystr \<Rightarrow> pydict" where
  "work_leased_draft c p run attempt =
     worker_draft c TYPE_WORK_LEASED (wl_lease_id p) (wl_worker_id p) SYSTEM
       (pairs [(''leaseId'', wl_lease_id p), (''workerId'', wl_worker_id p), (''taskId'', wl_task_id p), (''grantId'', wl_grant_id p),
         (''expiresAt'', wl_expires_at p)]) (Some run) (Some attempt)"

definition work_claimed_draft :: "draft_context \<Rightarrow> pystr \<Rightarrow> pystr \<Rightarrow> pystr \<Rightarrow> pystr \<Rightarrow> pystr \<Rightarrow> pydict" where
  "work_claimed_draft c lease_id worker_id nonce run attempt =
     worker_draft c TYPE_WORK_CLAIMED lease_id worker_id SYSTEM
       (pairs [(''leaseId'', lease_id), (''workerId'', worker_id), (''nonce'', nonce)]) (Some run) (Some attempt)"

definition work_completed_draft :: "draft_context \<Rightarrow> pystr \<Rightarrow> pystr \<Rightarrow> pystr \<Rightarrow> pystr \<Rightarrow> pystr \<Rightarrow> pystr \<Rightarrow> pydict" where
  "work_completed_draft c lease_id worker_id result_digest artifact_digest run attempt =
     worker_draft c TYPE_WORK_COMPLETED lease_id worker_id SYSTEM
       (pairs [(''leaseId'', lease_id), (''resultDigest'', result_digest), (''artifactDigest'', artifact_digest)]) (Some run) (Some attempt)"

definition work_failed_draft :: "draft_context \<Rightarrow> pystr \<Rightarrow> pystr \<Rightarrow> pystr \<Rightarrow> pystr \<Rightarrow> pystr \<Rightarrow> pydict" where
  "work_failed_draft c lease_id worker_id reason_code run attempt =
     worker_draft c TYPE_WORK_FAILED lease_id worker_id SYSTEM (pairs [(''leaseId'', lease_id), (''reasonCode'', reason_code)])
       (Some run) (Some attempt)"

definition work_lease_expired_draft :: "draft_context \<Rightarrow> pystr \<Rightarrow> pystr \<Rightarrow> pystr \<Rightarrow> pystr \<Rightarrow> pystr \<Rightarrow> pydict" where
  "work_lease_expired_draft c lease_id worker_id run attempt reason_code =
     worker_draft c TYPE_WORK_LEASE_EXPIRED lease_id worker_id SYSTEM (pairs [(''leaseId'', lease_id), (''reasonCode'', reason_code)])
       (Some run) (Some attempt)"

section \<open>Requests\<close>

record register_request =
  wrq_context :: draft_context
  wrq_worker_id :: pystr
  wrq_actor_id :: pystr
  wrq_accelerators :: "pystr list"
  wrq_runtime :: pystr

record grant_request =
  grq_context :: draft_context
  grq_grant :: grant_recorded
  grq_run_id :: pystr
  grq_attempt_id :: pystr
  grq_actor_id :: pystr

definition decode_context :: "string \<Rightarrow> pydict \<Rightarrow> (draft_context \<times> pystr) option" where
  "decode_context kind d = do {
     req_field d (U ''apiVersion'') (decode_literal [U ''researchos.dev/v0alpha1'']);
     req_field d (U ''kind'') (decode_literal [U kind]);
     p \<leftarrow> req_field d (U ''projectId'') decode_identifier;
     n \<leftarrow> req_field d (U ''experimentRevision'') (decode_range 1 CLOUD_EVENTS_INTEGER_MAX);
     src \<leftarrow> req_field d (U ''source'') decode_uri_reference;
     a \<leftarrow> req_field d (U ''actor'') (decode_plain_actor [HUMAN]);
     ev \<leftarrow> req_field d (U ''event'') decode_event_identity;
     Some (\<lparr>dx_project_id = p, dx_event_id = fst ev, dx_time = snd ev, dx_source = src, dx_revision = n\<rparr>, actor_id a) }"

definition validate_worker_register_request :: "pyval \<Rightarrow> register_request option" where
  "validate_worker_register_request v = do {
     d \<leftarrow> as_dict v;
     check_o (only_keys [U ''apiVersion'', U ''kind'', U ''projectId'', U ''experimentRevision'', U ''source'', U ''workerId'',
       U ''actor'', U ''event'', U ''accelerators'', U ''runtime''] d);
     c \<leftarrow> decode_context ''WorkerRegisterRequest'' d;
     w \<leftarrow> req_field d (U ''workerId'') decode_identifier;
     a \<leftarrow> opt_field d (U ''accelerators'') [] decode_accelerators;
     r \<leftarrow> opt_field d (U ''runtime'') WORKER_RUNTIME_PYTHON_SANDBOX (decode_literal WORKER_RUNTIME_NAME);
     Some \<lparr>wrq_context = fst c, wrq_worker_id = w, wrq_actor_id = snd c, wrq_accelerators = a, wrq_runtime = r\<rparr> }"

definition validate_authorization_grant_request :: "pyval \<Rightarrow> grant_request option" where
  "validate_authorization_grant_request v = do {
     d \<leftarrow> as_dict v;
     check_o (only_keys [U ''apiVersion'', U ''kind'', U ''projectId'', U ''experimentRevision'', U ''source'', U ''grantId'',
       U ''workerId'', U ''taskId'', U ''runId'', U ''attemptId'', U ''nonce'', U ''expiresAt'', U ''authorizationEventId'',
       U ''authorizationSequence'', U ''imageDigest'', U ''configDigest'', U ''actor'', U ''event''] d);
     c \<leftarrow> decode_context ''AuthorizationGrantRequest'' d;
     g \<leftarrow> req_field d (U ''grantId'') decode_identifier;
     w \<leftarrow> req_field d (U ''workerId'') decode_identifier;
     t \<leftarrow> req_field d (U ''taskId'') decode_identifier;
     r \<leftarrow> req_field d (U ''runId'') decode_identifier;
     a \<leftarrow> req_field d (U ''attemptId'') decode_identifier;
     n \<leftarrow> req_field d (U ''nonce'') decode_identifier;
     x \<leftarrow> req_field d (U ''expiresAt'') decode_stamp;
     i \<leftarrow> req_field d (U ''authorizationEventId'') decode_text;
     s \<leftarrow> req_field d (U ''authorizationSequence'') decode_text;
     m \<leftarrow> req_field d (U ''imageDigest'') (decode_digest DIGEST_PATTERN);
     k \<leftarrow> req_field d (U ''configDigest'') (decode_digest SEMANTIC_DIGEST_PATTERN);
     Some \<lparr>grq_context = fst c, grq_grant = \<lparr>gp_grant_id = g, gp_worker_id = w, gp_task_id = t, gp_nonce = n, gp_expires_at = x,
         gp_key_id = U ''local.hmac.1'', gp_authorization_event_id = i, gp_authorization_sequence = s, gp_image_digest = m,
         gp_config_digest = k\<rparr>, grq_run_id = r, grq_attempt_id = a, grq_actor_id = snd c\<rparr> }"

definition register_request_draft :: "register_request \<Rightarrow> pydict" where
  "register_request_draft q = registered_draft (wrq_context q) (wrq_worker_id q) (wrq_actor_id q) (wrq_accelerators q) (wrq_runtime q)"

definition grant_request_draft :: "grant_request \<Rightarrow> pydict" where
  "grant_request_draft q = grant_recorded_draft (grq_context q) (grq_grant q) (grq_run_id q) (grq_attempt_id q) (grq_actor_id q)"

section \<open>A checked draft reaches its handler\<close>

definition context_ok :: "draft_context \<Rightarrow> bool" where
  "context_ok c \<longleftrightarrow> EventIdentifier (dx_project_id c) \<and> ExperimentRevision (dx_revision c) \<and> CloudEventsString (dx_event_id c)
     \<and> Rfc3339Timestamp (dx_time c) \<and> utf8_ok (dx_time c) \<and> CloudEventsUriReference (dx_source c) \<and> utf8_ok (dx_source c)"

definition worker_drafted :: "draft_context \<Rightarrow> pystr \<Rightarrow> pystr \<Rightarrow> pystr \<Rightarrow> actor_kind \<Rightarrow> pydict \<Rightarrow> pystr option \<Rightarrow> pystr option \<Rightarrow> int \<Rightarrow> research_event" where
  "worker_drafted c t subject actor kind payload run attempt n =
     drafted \<lparr>dh_id = dx_event_id c, dh_type = t, dh_time = dx_time c, dh_source = dx_source c,
         dh_subject = subject, dh_stream = dx_project_id c\<rparr>
       (draft_data_of \<lparr>actor_id = actor, actor_kind_field = Some kind, actor_model_id = None\<rparr> (dx_project_id c) (dx_revision c)
          payload [] run attempt) n 0"

lemma worker_draft_accepted:
  assumes "context_ok c" "EventIdentifier t" "EventIdentifier subject" "EventIdentifier actor" "plain_tree (PyDict payload)"
    "pred_option EventIdentifier run" "pred_option EventIdentifier attempt" "0 \<le> n" "n < CLOUD_EVENTS_INTEGER_MAX"
  shows "preflight err (\<lambda>e. ed_project_id (e_data e) = dx_project_id c) n (PyDict (worker_draft c t subject actor kind payload run attempt))
    = Inr (worker_draft c t subject actor kind payload run attempt, worker_drafted c t subject actor kind payload run attempt (n + 1))"
proof -
  note c = assms(1)[unfolded context_ok_def]
  have a: "decode_actor (PyDict (draft_actor actor (Some (kind_text kind)) None))
      = Some \<lparr>actor_id = actor, actor_kind_field = Some kind, actor_model_id = None\<rparr>"
    by (rule decode_draft_actor) (use assms(4) in simp_all)
  have d: "decode_event_data (PyDict (draft_data (draft_actor actor (Some (kind_text kind)) None) (dx_project_id c) (dx_revision c)
      None payload [] run attempt))
    = Some (draft_data_of \<lparr>actor_id = actor, actor_kind_field = Some kind, actor_model_id = None\<rparr> (dx_project_id c) (dx_revision c) payload [] run attempt)"
    by (rule decode_draft_data[OF a]) (use c assms(5-7) in \<open>simp_all add: draft_data_ok_def plain_payload\<close>)
  have k: "keys_distinct (PyDict (draft_data (draft_actor actor (Some (kind_text kind)) None) (dx_project_id c) (dx_revision c)
      None payload [] run attempt))"
    by (rule draft_data_trees[where fl = FFin])
      (use assms(5) in \<open>simp_all add: draft_actor_trees plain_tree_def del: keys_distinct.simps floats_ok.simps plain_dict\<close>)
  show ?thesis unfolding worker_draft_def worker_event_draft_def worker_drafted_def
    by (rule preflight_draft[OF _ d k assms(8,9)])
      (use c assms(2,3) in \<open>simp_all add: draft_head_ok_def drafted_def draft_data_of_def identifier_text\<close>)
qed

lemma worker_drafted_fields:
  assumes "e = worker_drafted c t subject actor kind payload run attempt n"
  shows "e_id e = dx_event_id c" "e_type e = t" "e_time e = dx_time c" "ed_project_id (e_data e) = dx_project_id c"
    "ed_run_id (e_data e) = run" "ed_attempt_id (e_data e) = attempt" "ed_payload (e_data e) = PyDict payload"
    "ed_actor (e_data e) = \<lparr>actor_id = actor, actor_kind_field = Some kind, actor_model_id = None\<rparr>"
  by (simp_all add: assms worker_drafted_def drafted_def draft_data_of_def)

definition actor_fits :: "pystr \<Rightarrow> actor_kind \<Rightarrow> bool" where
  "actor_fits t kind \<longleftrightarrow> List.member WORKER_EVENT_TYPES t \<and> EventIdentifier t \<and> (List.member worker_human_types t \<longrightarrow> kind = HUMAN)
     \<and> (List.member worker_system_types t \<longrightarrow> kind = SYSTEM)"

lemma worker_draft_applied:
  assumes "e = worker_drafted c t subject actor kind payload run attempt n" "actor_fits t kind"
    "map_of WORKER_PAYLOAD_MODELS t = Some dec" "dec (PyDict payload) = Some x"
  shows "apply_worker_fold (dx_project_id c) f e = apply_worker_payload f e x"
proof -
  note e = worker_drafted_fields[OF assms(1)]
  have "require_worker_actor e = Inr ()" using assms(2) by (simp add: require_worker_actor_def e actor_fits_def)
  moreover have "parse_worker_payload e = Inr x" using assms(3,4) by (simp add: parse_worker_payload_def e lift_option_def)
  ultimately show ?thesis using assms(2) by (simp add: apply_worker_fold_def e actor_fits_def)
qed

lemma actors_fit: "actor_fits TYPE_WORKER_REGISTERED HUMAN" "actor_fits TYPE_GRANT_RECORDED HUMAN" "actor_fits TYPE_GRANT_REVOKED HUMAN"
  "actor_fits TYPE_WORK_QUEUED SYSTEM" "actor_fits TYPE_WORK_LEASED SYSTEM" "actor_fits TYPE_WORK_CLAIMED SYSTEM"
  "actor_fits TYPE_WORK_COMPLETED SYSTEM" "actor_fits TYPE_WORK_FAILED SYSTEM" "actor_fits TYPE_WORK_LEASE_EXPIRED SYSTEM"
  "actor_fits TYPE_GRANT_CONSUMED SYSTEM"
  by code_simp+

text \<open>The payloads of the drafts read back.\<close>

lemma payload_models: "map_of WORKER_PAYLOAD_MODELS TYPE_WORKER_REGISTERED = Some decode_worker_registered"
  "map_of WORKER_PAYLOAD_MODELS TYPE_GRANT_RECORDED = Some decode_grant_recorded"
  "map_of WORKER_PAYLOAD_MODELS TYPE_GRANT_REVOKED = Some decode_grant_revoked"
  "map_of WORKER_PAYLOAD_MODELS TYPE_WORK_LEASED = Some decode_work_leased"
  "map_of WORKER_PAYLOAD_MODELS TYPE_WORK_CLAIMED = Some decode_work_claimed"
  "map_of WORKER_PAYLOAD_MODELS TYPE_WORK_COMPLETED = Some decode_work_completed"
  "map_of WORKER_PAYLOAD_MODELS TYPE_WORK_FAILED = Some decode_work_failed"
  "map_of WORKER_PAYLOAD_MODELS TYPE_WORK_LEASE_EXPIRED = Some decode_lease_expired"
  "map_of WORKER_PAYLOAD_MODELS TYPE_GRANT_CONSUMED = Some decode_grant_consumed"
  by (simp_all add: WORKER_PAYLOAD_MODELS_def worker_type_defs)

lemma codec_accelerators: "codec text_list decode_accelerators"
  by (auto simp: codec_def decode_accelerators_def text_list_def decode_simps codec_map_o[OF codec_fields(1)] list.pred_map comp_def
    simp del: plain_scalars)

lemma decode_identifier_str [simp]: "decode_identifier (PyStr s) = (if EventIdentifier s then Some s else None)"
  by (simp add: decode_identifier_def keep_o_def utf8_oks)

lemma registered_reads:
  assumes "EventIdentifier w" "readable decode_accelerators a" "List.member WORKER_RUNTIME_NAME r" "utf8_ok r"
  shows "decode_worker_registered (PyDict (registered_document w a r)) = Some (WorkerRegisteredPayload \<lparr>wr_worker_id = w, wr_runtime = r,
      wr_protocol = WORKER_PROTOCOL_LONGPOLL, wr_accelerators = a\<rparr>)"
    "plain_tree (PyDict (registered_document w a r))"
  using assms codec_reads[OF codec_accelerators assms(2)]
  by (simp_all add: decode_worker_registered_def registered_document_def field_reading decode_literal_def keep_o_def
    WORKER_PROTOCOL_LONGPOLL_def INLINE_BODY_KEYS_def utf8_oks)

definition grant_fields_ok :: "grant_recorded \<Rightarrow> bool" where
  "grant_fields_ok g \<longleftrightarrow> EventIdentifier (gp_grant_id g) \<and> EventIdentifier (gp_worker_id g) \<and> EventIdentifier (gp_task_id g)
     \<and> EventIdentifier (gp_nonce g) \<and> readable decode_stamp (gp_expires_at g) \<and> gp_key_id g = U ''local.hmac.1''
     \<and> readable decode_text (gp_authorization_event_id g) \<and> readable decode_text (gp_authorization_sequence g)
     \<and> readable (decode_digest DIGEST_PATTERN) (gp_image_digest g) \<and> readable (decode_digest SEMANTIC_DIGEST_PATTERN) (gp_config_digest g)"

lemma reads_digest: "readable (decode_digest p) x \<Longrightarrow> decode_digest p (PyStr x) = Some x" "readable (decode_digest p) x \<Longrightarrow> utf8_ok x"
  using codec_reads[OF codec_fields(6), of p x] by simp_all

lemmas field_reads = codec_fields[THEN codec_reads(1)] codec_fields[THEN codec_reads(2), simplified]

lemma grant_reads:
  assumes "grant_fields_ok g"
  shows "decode_grant_recorded (PyDict (grant_document g)) = Some (GrantRecordedPayload g)" "plain_tree (PyDict (grant_document g))"
proof -
  note g = assms[unfolded grant_fields_ok_def]
  have k: "decode_literal [U ''local.hmac.1''] (PyStr (U ''local.hmac.1'')) = Some (U ''local.hmac.1'')"
    by (simp add: decode_literal_def keep_o_def List.member_iff)
  have r: "readable (decode_digest DIGEST_PATTERN) (gp_image_digest g)" "readable (decode_digest SEMANTIC_DIGEST_PATTERN) (gp_config_digest g)"
    "readable decode_stamp (gp_expires_at g)" "readable decode_text (gp_authorization_event_id g)" "readable decode_text (gp_authorization_sequence g)"
    using g by blast+
  note f = reads_digest[OF r(1)] reads_digest[OF r(2)] codec_fields(3)[THEN codec_reads(1), OF r(3)] codec_fields(2)[THEN codec_reads(1), OF r(4)]
    codec_fields(2)[THEN codec_reads(1), OF r(5)] codec_fields(3)[THEN codec_reads(2), OF r(3), simplified]
    codec_fields(2)[THEN codec_reads(2), OF r(4), simplified] codec_fields(2)[THEN codec_reads(2), OF r(5), simplified]
  show "decode_grant_recorded (PyDict (grant_document g)) = Some (GrantRecordedPayload g)" "plain_tree (PyDict (grant_document g))"
    using g by (simp_all add: decode_grant_recorded_def grant_document_def field_reading f k INLINE_BODY_KEYS_def utf8_oks)
qed

text \<open>The facts that the plane records about a lease: every part is an identifier, a timestamp or a digest.\<close>

lemma pairs_plain [simp]: "plain_tree (PyDict (pairs kvs)) \<longleftrightarrow> list_all (\<lambda>(k, v). U k \<notin> set INLINE_BODY_KEYS \<and> utf8_ok v) kvs
    \<and> distinct (List.map (\<lambda>(k, v). KStr (U k)) kvs)"
  by (simp add: pairs_def plain_items_def list.pred_map comp_def case_prod_unfold)

lemma pairs_read:
  "EventIdentifier l \<Longrightarrow> EventIdentifier r \<Longrightarrow> decode_work_failed (PyDict (pairs [(''leaseId'', l), (''reasonCode'', r)])) = Some (WorkFailedPayload l r)"
  "EventIdentifier l \<Longrightarrow> EventIdentifier r \<Longrightarrow> decode_lease_expired (PyDict (pairs [(''leaseId'', l), (''reasonCode'', r)])) = Some (WorkLeaseExpiredPayload l r)"
  "EventIdentifier l \<Longrightarrow> EventIdentifier r \<Longrightarrow> decode_grant_revoked (PyDict (pairs [(''grantId'', l), (''reasonCode'', r)])) = Some (GrantRevokedPayload l r)"
  "EventIdentifier l \<Longrightarrow> EventIdentifier w \<Longrightarrow> EventIdentifier n
     \<Longrightarrow> decode_work_claimed (PyDict (pairs [(''leaseId'', l), (''workerId'', w), (''nonce'', n)])) = Some (WorkClaimedPayload l w n)"
  "EventIdentifier g \<Longrightarrow> EventIdentifier l \<Longrightarrow> EventIdentifier n
     \<Longrightarrow> decode_grant_consumed (PyDict (pairs [(''grantId'', g), (''leaseId'', l), (''nonce'', n)])) = Some (GrantConsumedPayload g l n)"
  "EventIdentifier l \<Longrightarrow> decode_digest SEMANTIC_DIGEST_PATTERN (PyStr r) = Some r \<Longrightarrow> decode_digest DIGEST_PATTERN (PyStr a) = Some a
     \<Longrightarrow> decode_work_completed (PyDict (pairs [(''leaseId'', l), (''resultDigest'', r), (''artifactDigest'', a)])) = Some (WorkCompletedPayload l r a)"
  "EventIdentifier l \<Longrightarrow> EventIdentifier w \<Longrightarrow> EventIdentifier t \<Longrightarrow> EventIdentifier g \<Longrightarrow> decode_stamp (PyStr x) = Some x
     \<Longrightarrow> decode_work_leased (PyDict (pairs [(''leaseId'', l), (''workerId'', w), (''taskId'', t), (''grantId'', g), (''expiresAt'', x)]))
       = Some (WorkLeasedPayload \<lparr>wl_lease_id = l, wl_worker_id = w, wl_task_id = t, wl_grant_id = g, wl_expires_at = x\<rparr>)"
  by (simp_all add: decode_work_failed_def decode_lease_expired_def decode_grant_revoked_def decode_id_reason_def decode_work_claimed_def
    decode_grant_consumed_def decode_work_completed_def decode_work_leased_def pairs_def field_reading)

lemma pairs_only:
  "decode_work_claimed (PyDict (pairs [(''leaseId'', l), (''workerId'', w), (''nonce'', n)])) = Some p \<Longrightarrow> p = WorkClaimedPayload l w n"
  "decode_grant_consumed (PyDict (pairs [(''grantId'', g), (''leaseId'', l), (''nonce'', n)])) = Some p \<Longrightarrow> p = GrantConsumedPayload g l n"
  "decode_work_completed (PyDict (pairs [(''leaseId'', l), (''resultDigest'', r), (''artifactDigest'', a)])) = Some p \<Longrightarrow> p = WorkCompletedPayload l r a"
  "decode_work_failed (PyDict (pairs [(''leaseId'', l), (''reasonCode'', r)])) = Some p \<Longrightarrow> p = WorkFailedPayload l r"
  "decode_lease_expired (PyDict (pairs [(''leaseId'', l), (''reasonCode'', r)])) = Some p \<Longrightarrow> p = WorkLeaseExpiredPayload l r"
  "decode_grant_revoked (PyDict (pairs [(''grantId'', l), (''reasonCode'', r)])) = Some p \<Longrightarrow> p = GrantRevokedPayload l r"
  "decode_work_leased (PyDict (pairs [(''leaseId'', l), (''workerId'', w), (''taskId'', t), (''grantId'', g), (''expiresAt'', x)])) = Some p
     \<Longrightarrow> p = WorkLeasedPayload \<lparr>wl_lease_id = l, wl_worker_id = w, wl_task_id = t, wl_grant_id = g, wl_expires_at = x\<rparr>"
  by (auto simp: decode_work_failed_def decode_lease_expired_def decode_grant_revoked_def decode_id_reason_def decode_work_claimed_def
    decode_grant_consumed_def decode_work_completed_def decode_work_leased_def pairs_def field_reading decode_digest_def decode_stamp_def
    decode_simps split: if_splits)

section \<open>Requests\<close>

lemma decode_context_ok: "decode_context kind d = Some (c, a) \<Longrightarrow> context_ok c \<and> EventIdentifier a"
  by (auto simp: decode_context_def decode_event_identity_def decode_plain_actor_def decode_simps context_ok_def decoded_checks
    ExperimentRevision_def decode_range_def)

lemma worker_runtimes_utf8: "r \<in> set WORKER_RUNTIME_NAME \<Longrightarrow> utf8_ok r"
proof -
  have "list_all utf8_ok WORKER_RUNTIME_NAME" by code_simp
  then show "r \<in> set WORKER_RUNTIME_NAME \<Longrightarrow> utf8_ok r" by (simp add: list_all_iff)
qed

lemma register_request_ok:
  assumes "validate_worker_register_request v = Some q"
  shows "context_ok (wrq_context q)" "EventIdentifier (wrq_worker_id q)" "EventIdentifier (wrq_actor_id q)"
    "readable decode_accelerators (wrq_accelerators q)" "wrq_runtime q \<in> set WORKER_RUNTIME_NAME"
proof -
  have n: "readable decode_accelerators []" by (rule readableI[of _ "PyList []"]) code_simp
  have r: "WORKER_RUNTIME_PYTHON_SANDBOX \<in> set WORKER_RUNTIME_NAME" by (simp add: WORKER_RUNTIME_NAME_def)
  show "context_ok (wrq_context q)" "EventIdentifier (wrq_worker_id q)" "EventIdentifier (wrq_actor_id q)"
    "readable decode_accelerators (wrq_accelerators q)" "wrq_runtime q \<in> set WORKER_RUNTIME_NAME"
    using assms n r by (auto simp: validate_worker_register_request_def read_simps decoded_checks decode_literal_def List.member_iff
      dest!: decode_context_ok)
qed

lemma grant_request_ok:
  assumes "validate_authorization_grant_request v = Some q"
  shows "context_ok (grq_context q)" "grant_fields_ok (grq_grant q)" "EventIdentifier (grq_run_id q)" "EventIdentifier (grq_attempt_id q)"
    "EventIdentifier (grq_actor_id q)"
  using assms by (auto simp: validate_authorization_grant_request_def grant_fields_ok_def decode_simps decoded_checks readable_def
    dest!: decode_context_ok) (blast+)?

lemma register_request_reaches_fold:
  assumes v: "validate_worker_register_request v = Some q" and p: "p = dx_project_id (wrq_context q)"
    and n: "0 \<le> n" "n < CLOUD_EVENTS_INTEGER_MAX"
  shows "\<exists>e. preflight worker_preflight_errors (\<lambda>e. ed_project_id (e_data e) = p) n (PyDict (register_request_draft q)) = Inr (register_request_draft q, e)
      \<and> e_id e = dx_event_id (wrq_context q) \<and> actor_kind_field (ed_actor (e_data e)) = Some HUMAN
      \<and> apply_worker_fold p f e = apply_registered f \<lparr>wr_worker_id = wrq_worker_id q, wr_runtime = wrq_runtime q,
          wr_protocol = WORKER_PROTOCOL_LONGPOLL, wr_accelerators = wrq_accelerators q\<rparr>"
proof -
  note ok = register_request_ok[OF v]
  note id = actors_fit(1)[unfolded actor_fits_def, THEN conjunct2, THEN conjunct1]
  have m: "List.member WORKER_RUNTIME_NAME (wrq_runtime q)" using ok(5) by (simp add: List.member_iff)
  note r = registered_reads[OF ok(2,4) m worker_runtimes_utf8[OF ok(5)]]
  let ?e = "worker_drafted (wrq_context q) TYPE_WORKER_REGISTERED (wrq_worker_id q) (wrq_actor_id q) HUMAN
      (registered_document (wrq_worker_id q) (wrq_accelerators q) (wrq_runtime q)) None None (n + 1)"
  have "preflight worker_preflight_errors (\<lambda>e. ed_project_id (e_data e) = p) n (PyDict (register_request_draft q)) = Inr (register_request_draft q, ?e)"
    unfolding register_request_draft_def registered_draft_def p
    by (rule worker_draft_accepted) (use ok r n id in simp_all)
  moreover have "apply_worker_fold p f ?e = apply_worker_payload f ?e (WorkerRegisteredPayload \<lparr>wr_worker_id = wrq_worker_id q,
      wr_runtime = wrq_runtime q, wr_protocol = WORKER_PROTOCOL_LONGPOLL, wr_accelerators = wrq_accelerators q\<rparr>)"
    unfolding p by (rule worker_draft_applied[OF refl actors_fit(1) payload_models(1) r(1)])
  ultimately show ?thesis by (intro exI[of _ ?e]) (simp add: worker_drafted_fields[OF refl])
qed

text \<open>C19: A validated request to record a grant is only refused for what it says: its draft passes every check that
  \<open>WorkerControl.append\<close> makes before the fold is asked, the event keeps the request's id, run and attempt and is a
  person's, and the fold sees exactly the request's own fields.\<close>

theorem grant_request_reaches_fold:
  assumes "validate_authorization_grant_request v = Some g" "p = dx_project_id (grq_context g)"
    "0 \<le> n" "n < CLOUD_EVENTS_INTEGER_MAX"
  shows "\<exists>e. preflight worker_preflight_errors (\<lambda>e. ed_project_id (e_data e) = p) n (PyDict (grant_request_draft g)) = Inr (grant_request_draft g, e)
      \<and> e_id e = dx_event_id (grq_context g) \<and> actor_kind_field (ed_actor (e_data e)) = Some HUMAN
      \<and> apply_worker_fold p f e = apply_grant_recorded f e (grq_grant g)
      \<and> ed_run_id (e_data e) = Some (grq_run_id g) \<and> ed_attempt_id (e_data e) = Some (grq_attempt_id g)"
proof -
  note ok = grant_request_ok[OF assms(1)]
  note id = actors_fit(2)[unfolded actor_fits_def, THEN conjunct2, THEN conjunct1]
  note r = grant_reads[OF ok(2)]
  let ?e = "worker_drafted (grq_context g) TYPE_GRANT_RECORDED (gp_grant_id (grq_grant g)) (grq_actor_id g) HUMAN
      (grant_document (grq_grant g)) (Some (grq_run_id g)) (Some (grq_attempt_id g)) (n + 1)"
  have "preflight worker_preflight_errors (\<lambda>e. ed_project_id (e_data e) = p) n (PyDict (grant_request_draft g)) = Inr (grant_request_draft g, ?e)"
    unfolding grant_request_draft_def grant_recorded_draft_def assms(2)
    by (rule worker_draft_accepted) (use ok ok(2)[unfolded grant_fields_ok_def] r assms(3,4) id in simp_all)
  moreover have "apply_worker_fold p f ?e = apply_worker_payload f ?e (GrantRecordedPayload (grq_grant g))"
    unfolding assms(2) by (rule worker_draft_applied[OF refl actors_fit(2) payload_models(2) r(1)])
  ultimately show ?thesis by (intro exI[of _ ?e]) (simp add: worker_drafted_fields[OF refl])
qed

definition grant_request_sample :: pyval where
  "grant_request_sample = PyDict
     [(KStr (U ''apiVersion''), PyStr (U ''researchos.dev/v0alpha1'')), (KStr (U ''kind''), PyStr (U ''AuthorizationGrantRequest'')),
      (KStr (U ''projectId''), PyStr (U ''p'')), (KStr (U ''experimentRevision''), PyInt 1), (KStr (U ''source''), PyStr (U ''/r'')),
      (KStr (U ''grantId''), PyStr (U ''g'')), (KStr (U ''workerId''), PyStr (U ''w'')), (KStr (U ''taskId''), PyStr (U ''t'')),
      (KStr (U ''runId''), PyStr (U ''r'')), (KStr (U ''attemptId''), PyStr (U ''a'')), (KStr (U ''nonce''), PyStr (U ''n'')),
      (KStr (U ''expiresAt''), PyStr (U ''2026-01-02T03:04:05Z'')), (KStr (U ''authorizationEventId''), PyStr (U ''e'')),
      (KStr (U ''authorizationSequence''), PyStr (U ''7'')), (KStr (U ''imageDigest''), PyStr (U zero_digest)),
      (KStr (U ''configDigest''), PyStr (U zero_digest)), (KStr (U ''actor''), actor_document (Some HUMAN)),
      (KStr (U ''event''), sample_identity)]"

lemma grant_request_valid: "\<exists>g. validate_authorization_grant_request grant_request_sample = Some g \<and> dx_project_id (grq_context g) = U ''p''
   \<and> gp_worker_id (grq_grant g) = U ''w''"
proof -
  have "decode_identifier (PyStr (U ''p'')) = Some (U ''p'')" "decode_identifier (PyStr (U ''g'')) = Some (U ''g'')"
    "decode_identifier (PyStr (U ''w'')) = Some (U ''w'')" "decode_identifier (PyStr (U ''t'')) = Some (U ''t'')"
    "decode_identifier (PyStr (U ''r'')) = Some (U ''r'')" "decode_identifier (PyStr (U ''a'')) = Some (U ''a'')"
    "decode_identifier (PyStr (U ''n'')) = Some (U ''n'')" "decode_text (PyStr (U ''e'')) = Some (U ''e'')"
    "decode_text (PyStr (U ''7'')) = Some (U ''7'')" "decode_stamp (PyStr (U ''2026-01-02T03:04:05Z'')) = Some (U ''2026-01-02T03:04:05Z'')"
    "decode_digest DIGEST_PATTERN (PyStr (U zero_digest)) = Some (U zero_digest)"
    "decode_digest SEMANTIC_DIGEST_PATTERN (PyStr (U zero_digest)) = Some (U zero_digest)"
    "decode_plain_actor [HUMAN] (actor_document (Some HUMAN)) = Some \<lparr>actor_id = U ''a'', actor_kind_field = Some HUMAN, actor_model_id = None\<rparr>"
    "decode_event_identity sample_identity = Some (U ''1'', U ''2026-01-02T03:04:05Z'')"
    by code_simp+
  moreover have "decode_uri_reference (PyStr (U ''/r'')) = Some (U ''/r'')" by (simp add: decode_uri_reference_def sample_source keep_o_def)
  ultimately show ?thesis
    by (simp add: validate_authorization_grant_request_def grant_request_sample_def decode_context_def field_reading
      decode_literal_def decode_range_def keep_o_def CLOUD_EVENTS_INTEGER_MAX_def)
qed

theorem grant_request_reaches_fold_witness:
  "\<exists>g e. validate_authorization_grant_request grant_request_sample = Some g
     \<and> apply_worker_fold (U ''p'') empty_workers e = apply_grant_recorded empty_workers e (grq_grant g)
     \<and> apply_worker_fold (U ''p'') empty_workers e = work_error ''unknown-worker''"
proof -
  obtain g where g: "validate_authorization_grant_request grant_request_sample = Some g" "U ''p'' = dx_project_id (grq_context g)"
    using grant_request_valid by metis
  have "(0::int) \<le> 0" "0 < CLOUD_EVENTS_INTEGER_MAX" by (simp_all add: CLOUD_EVENTS_INTEGER_MAX_def)
  from grant_request_reaches_fold[OF g this, of empty_workers]
  obtain e where "apply_worker_fold (U ''p'') empty_workers e = apply_grant_recorded empty_workers e (grq_grant g)" by blast
  moreover from this have "apply_worker_fold (U ''p'') empty_workers e = work_error ''unknown-worker''"
    by (simp add: apply_grant_recorded_def empty_workers_def fold_grant_def fold_worker_def)
  ultimately show ?thesis using g by blast
qed

end
