(* ===== verification/Jcs.thy ===== *)
theory Jcs
  imports Canonical "HOL-Library.Multiset"
begin

text \<open>
  \<open>canonical_json\<close> and \<open>content_digest\<close> of \<open>canonical.py\<close>: RFC 8785 with keys in UTF-16
  order, integers within the binary64 exact range and floats in ECMAScript's shortest form.

  The numbers algorithm rewrites what Python prints for a float (\<open>str(value)\<close>), which is how a
  float is kept here.  \<open>float_repr\<close> states the documented shape of that text; nothing else about
  floats is used.  The main lemma is that \<open>json.loads\<close> reads every canonical text back as the
  value it stands for.
\<close>

section \<open>Writing\<close>

datatype jcs_error = JcsValueError | JcsTypeError

definition IJSON_SAFE_INTEGER :: int where "IJSON_SAFE_INTEGER = 2 ^ 53 - 1"

definition validate_unicode :: "pystr \<Rightarrow> jcs_error + unit" where
  "validate_unicode s = check_r (utf8_ok s) JcsValueError"

text \<open>The escapes are those of \<open>json.dumps\<close>, so the text between the quotes is the same.\<close>

definition quote_string :: "pystr \<Rightarrow> jcs_error + pystr" where
  "quote_string s = bind_r (validate_unicode s) (\<lambda>_. Inr (quote_text s))"

text \<open>\<open>str.encode("utf-16-be")\<close>: two bytes, or four beyond the basic plane.\<close>

definition utf_16_be_char :: "nat \<Rightarrow> nat list" where
  "utf_16_be_char c = (if c < 0x10000 then [c div 256, c mod 256]
     else let h = 0xD800 + (c - 0x10000) div 1024; l = 0xDC00 + (c - 0x10000) mod 1024
          in [h div 256, h mod 256, l div 256, l mod 256])"

definition utf_16_be :: "pystr \<Rightarrow> nat list" where
  "utf_16_be s = concat (List.map utf_16_be_char s)"

text \<open>\<open>str.find\<close> of one character, and \<open>int\<close> of an exponent with its sign.\<close>

definition find_char :: "nat \<Rightarrow> pystr \<Rightarrow> int" where
  "find_char c s = (if List.member s c then int (length (takeWhile (\<lambda>x. x \<noteq> c) s)) else - 1)"

definition exponent_value :: "pystr \<Rightarrow> int" where
  "exponent_value s = (if take 1 s = [45] then - int (int_of_digits (tl s))
     else if take 1 s = [43] then int (int_of_digits (tl s)) else int (int_of_digits s))"

text \<open>The steps of \<open>_serialize_binary64\<close> after the sign: cutting off the exponent, splitting at
  the point, and putting the parts together.  Each \<open>while pad\<close> loop adds a number of zeros.\<close>

definition split_exponent :: "pystr \<Rightarrow> pystr \<times> pystr \<times> int" where
  "split_exponent rendered =
     (let exponent_at = find_char 101 rendered in
      if exponent_at > 0 then
        (let text = drop (nat exponent_at) rendered;
             exponent_text = (if length text > 2 \<and> text ! 2 = 48 then take 2 text @ drop 3 text else text)
         in (take (nat exponent_at) rendered, exponent_text, exponent_value (tl exponent_text)))
      else (rendered, [], 0))"

definition split_point :: "pystr \<Rightarrow> pystr \<times> pystr \<times> pystr" where
  "split_point rendered =
     (let dot_at = find_char 46 rendered;
          (first, separator, fraction) =
            (if dot_at > 0 then (take (nat dot_at) rendered, [46], drop (nat dot_at + 1) rendered)
             else (rendered, [], []))
      in if fraction = [48] then (first, [], []) else (first, separator, fraction))"

definition place_point :: "pystr \<times> pystr \<times> pystr \<Rightarrow> pystr \<Rightarrow> int \<Rightarrow> pystr" where
  "place_point parts exponent_text exponent =
     (case parts of (first, separator, fraction) \<Rightarrow>
        if 0 < exponent \<and> exponent < 21 then
          (let digits = first @ fraction
           in digits @ replicate (nat (exponent - int (length digits) + 1)) 48)
        else if - 7 < exponent \<and> exponent < 0 then
          [48, 46] @ replicate (nat (- 1 - exponent)) 48 @ first @ fraction
        else first @ separator @ fraction @ exponent_text)"

definition ecma_number :: "pystr \<Rightarrow> pystr" where
  "ecma_number rendered =
     (let sign = (if take 1 rendered = [45] then [45] else []);
          unsigned = (if take 1 rendered = [45] then tl rendered else rendered);
          (mantissa, exponent_text, exponent) = split_exponent unsigned
      in sign @ place_point (split_point mantissa) exponent_text exponent)"

text \<open>\<open>value == 0\<close> on what Python prints for the two zeros\<close>

definition float_is_zero :: "pystr \<Rightarrow> bool" where
  "float_is_zero t \<longleftrightarrow> t = U ''0.0'' \<or> t = U ''-0.0''"

fun serialize_binary64 :: "pyfloat \<Rightarrow> jcs_error + pystr" where
  "serialize_binary64 (FFin t) = (if float_is_zero t then Inr (U ''0'')
     else if List.member t 110 then Inl JcsValueError else Inr (ecma_number t))"
| "serialize_binary64 _ = Inl JcsValueError"

text \<open>Keys are checked in the order the dict has them, members written in UTF-16 order.\<close>

definition check_key :: "pykey \<times> pyval \<Rightarrow> jcs_error + unit" where
  "check_key kv = (case fst kv of KStr k \<Rightarrow> validate_unicode k | KOther _ \<Rightarrow> Inl JcsTypeError)"

definition member_key :: "pykey \<Rightarrow> pystr" where
  "member_key k = (case k of KStr s \<Rightarrow> s | KOther s \<Rightarrow> s)"

definition utf_16_key :: "pykey \<times> 'a \<Rightarrow> nat list" where
  "utf_16_key kv = utf_16_be (member_key (fst kv))"

function serialize_jcs :: "pyval \<Rightarrow> jcs_error + pystr" where
  "serialize_jcs PyNone = Inr (U ''null'')"
| "serialize_jcs (PyBool b) = Inr (if b then U ''true'' else U ''false'')"
| "serialize_jcs (PyStr s) = quote_string s"
| "serialize_jcs (PyInt i) = bind_r (check_r (- IJSON_SAFE_INTEGER \<le> i \<and> i \<le> IJSON_SAFE_INTEGER) JcsValueError)
     (\<lambda>_. Inr (int_text i))"
| "serialize_jcs (PyFloat f) = serialize_binary64 f"
| "serialize_jcs (PyList vs) = bind_r (map_r serialize_jcs vs) (\<lambda>ts. Inr (91 # join_commas ts @ [93]))"
| "serialize_jcs (PyDict d) =
     bind_r (map_r check_key d) (\<lambda>_.
     bind_r (map_r (\<lambda>kv. bind_r (quote_string (member_key (fst kv))) (\<lambda>k.
         bind_r (serialize_jcs (snd kv)) (\<lambda>t. Inr (k @ 58 # t)))) (sort_key utf_16_key d)) (\<lambda>members.
     Inr (123 # join_commas members @ [125])))"
| "serialize_jcs (PyOther t) = Inl JcsTypeError"
  by pat_completeness auto

termination serialize_jcs
  by (relation "measure size") (auto simp: less_Suc_eq_le size_list_estimation' dest: size_snd_less)

definition canonical_json :: "pyval \<Rightarrow> jcs_error + pystr" where
  "canonical_json v = serialize_jcs v"

definition content_digest :: "(pystr \<Rightarrow> pystr) \<Rightarrow> pyval \<Rightarrow> jcs_error + pystr" where
  "content_digest sha v = bind_r (canonical_json v) (\<lambda>t. bind_r (check_r (utf8_ok t) JcsValueError)
     (\<lambda>_. Inr (JCS_SHA256_PREFIX @ sha t)))"

lemma rfc8785_numbers:
  "ecma_number (U ''5e-324'') = U ''5e-324''"
  "ecma_number (U ''-1.7976931348623157e+308'') = U ''-1.7976931348623157e+308''"
  "ecma_number (U ''9007199254740992.0'') = U ''9007199254740992''"
  "ecma_number (U ''2.9514790517935283e+20'') = U ''295147905179352830000''"
  "ecma_number (U ''1e+21'') = U ''1e+21''"
  "ecma_number (U ''9.999999999999997e-07'') = U ''9.999999999999997e-7''"
  "ecma_number (U ''1e-06'') = U ''0.000001''"
  "ecma_number (U ''-3.3333333333333333e-06'') = U ''-0.0000033333333333333333''"
  by code_simp+


section \<open>The shape of number texts\<close>

definition int_part :: "pystr \<Rightarrow> bool" where
  "int_part i \<longleftrightarrow> i = [48] \<or> (i \<noteq> [] \<and> list_all is_digit i \<and> hd i \<noteq> 48)"

definition frac_part :: "pystr \<Rightarrow> bool" where
  "frac_part f \<longleftrightarrow> f = [] \<or> (\<exists>ds. f = 46 # ds \<and> ds \<noteq> [] \<and> list_all is_digit ds)"

definition exp_part :: "pystr \<Rightarrow> bool" where
  "exp_part e \<longleftrightarrow> e = [] \<or> (\<exists>c sg ds. e = c # sg @ ds \<and> (c = 101 \<or> c = 69) \<and> (sg = [] \<or> sg = [43] \<or> sg = [45])
     \<and> ds \<noteq> [] \<and> list_all is_digit ds)"

definition sign_part :: "pystr \<Rightarrow> bool" where
  "sign_part s \<longleftrightarrow> s = [] \<or> s = [45]"

text \<open>What \<open>repr\<close> of a finite float looks like: a number with a fraction or an exponent; with an
  exponent, one digit that is not zero before the point, a sign and two digits at least.\<close>

definition float_repr :: "pystr \<Rightarrow> bool" where
  "float_repr t \<longleftrightarrow> (case scan_number t of
     None \<Rightarrow> False
   | Some ((i, fe), r) \<Rightarrow> r = [] \<and> fe \<noteq> [] \<and> \<not> List.member t 69 \<and>
       (let m = (if take 1 i = [45] then tl i else i); e = snd (scan_frac fe)
        in e \<noteq> [] \<longrightarrow> length m = 1 \<and> m \<noteq> [48] \<and> length e \<ge> 4 \<and> (e ! 1 = 43 \<or> e ! 1 = 45)))"

lemma takeWhile_digits [simp]:
  assumes "list_all is_digit ds" "\<not> (r \<noteq> [] \<and> is_digit (hd r))"
  shows "takeWhile is_digit (ds @ r) = ds" "dropWhile is_digit (ds @ r) = r"
proof -
  have "takeWhile is_digit r = []" "dropWhile is_digit r = r" using assms(2) by (cases r; simp)+
  with assms(1) show "takeWhile is_digit (ds @ r) = ds" "dropWhile is_digit (ds @ r) = r"
    by (simp_all add: list_all_iff)
qed

lemma takeWhile_is_digit [simp]: "list_all is_digit (takeWhile is_digit s)"
  by (induction s) auto

lemma scan_intD: "scan_int s = Some (i, q) \<Longrightarrow> s = i @ q \<and> int_part i"
  by (cases s) (auto simp: scan_int_def int_part_def split: if_splits)

lemma scan_signedD:
  assumes "scan_signed s = Some (i, q)"
  obtains sg m where "sign_part sg" "int_part m" "i = sg @ m" "s = sg @ m @ q"
proof (cases "take 1 s = [45]")
  case True
  then obtain cs where s: "s = 45 # cs" by (cases s) auto
  with assms obtain m where "scan_int cs = Some (m, q)" "i = 45 # m" by (auto simp: scan_signed_def)
  with s that[of "[45]" m] scan_intD show ?thesis by (auto simp: sign_part_def)
next
  case False
  with assms that[of "[]" i] scan_intD show ?thesis by (auto simp: sign_part_def scan_signed_def)
qed

lemma scan_fracD: "scan_frac s = (f, q) \<Longrightarrow> s = f @ q \<and> frac_part f"
  by (cases s) (auto simp: scan_frac_def frac_part_def list_all_iff dest: set_takeWhileD split: if_splits)

lemma exp_partI:
  "c = 101 \<or> c = 69 \<Longrightarrow> sg = [] \<or> sg = [43] \<or> sg = [45] \<Longrightarrow> ds \<noteq> [] \<Longrightarrow> list_all is_digit ds \<Longrightarrow>
   exp_part (c # sg @ ds)"
  by (auto simp: exp_part_def)

lemma scan_expD: "scan_exp s = (e, q) \<Longrightarrow> s = e @ q \<and> exp_part e"
proof (cases s)
  case (Cons c r)
  assume a: "scan_exp s = (e, q)"
  have sg: "exp_sign r = [] \<or> exp_sign r = [43] \<or> exp_sign r = [45]" "exp_sign r @ drop (length (exp_sign r)) r = r"
    by (cases r; auto simp: exp_sign_def)+
  show ?thesis
  proof (cases "(c = 101 \<or> c = 69) \<and> takeWhile is_digit (drop (length (exp_sign r)) r) \<noteq> []")
    case True
    let ?ds = "takeWhile is_digit (drop (length (exp_sign r)) r)"
    from True a Cons have e: "e = c # exp_sign r @ ?ds" "q = dropWhile is_digit (drop (length (exp_sign r)) r)"
      by (auto simp: scan_exp_def Let_def)
    have "exp_part e" unfolding e(1) by (rule exp_partI) (use True sg(1) in simp_all)
    moreover have "s = e @ q" using e Cons sg(2) by simp
    ultimately show ?thesis by simp
  next
    case False
    with a Cons show ?thesis by (auto simp: scan_exp_def Let_def exp_part_def split: if_splits)
  qed
qed (simp add: scan_exp_def exp_part_def)

lemma int_part_facts:
  assumes "int_part m"
  shows "m \<noteq> []" "list_all is_digit m" "take 1 m \<noteq> [45]" "hd m \<noteq> 45"
  using assms by (cases m; auto simp: int_part_def is_digit_def)+

text \<open>Putting the parts together gives a text the scanner takes whole.\<close>

lemma scan_number_parts:
  assumes "sign_part sg" "int_part m" "frac_part f" "exp_part e"
  shows "scan_number (sg @ m @ f @ e) = Some ((sg @ m, f @ e), [])"
proof -
  have e_head: "\<not> (e \<noteq> [] \<and> is_digit (hd e))" "take 1 e \<noteq> [46]"
    using assms(4) by (auto simp: exp_part_def is_digit_def)
  have fe_head: "\<not> (f @ e \<noteq> [] \<and> is_digit (hd (f @ e)))"
    using assms(3) e_head by (cases f) (auto simp: frac_part_def is_digit_def)
  have "scan_int (m @ f @ e) = Some (m, f @ e)"
  proof (cases "m = [48]")
    case False
    with assms(2) obtain c cs where m: "m = c # cs" "c \<noteq> 48" "list_all is_digit m" by (cases m) (auto simp: int_part_def)
    with takeWhile_digits[OF m(3) fe_head] show ?thesis by (simp add: scan_int_def)
  qed (simp add: scan_int_def)
  then have 1: "scan_signed (sg @ m @ f @ e) = Some (sg @ m, f @ e)"
    using assms(1) int_part_facts[OF assms(2)] by (cases m) (auto simp: sign_part_def scan_signed_def)
  have 2: "scan_frac (f @ e) = (f, e)"
  proof (cases "f = []")
    case False
    then obtain ds where ds: "f = 46 # ds" "ds \<noteq> []" "list_all is_digit ds" using assms(3) by (auto simp: frac_part_def)
    with takeWhile_digits[OF ds(3) e_head(1)] show ?thesis by (simp add: scan_frac_def)
  qed (use e_head in \<open>simp add: scan_frac_def\<close>)
  have 3: "scan_exp e = (e, [])"
  proof (cases "e = []")
    case False
    with assms(4) obtain c sg' ds where e: "e = c # sg' @ ds" "c = 101 \<or> c = 69" "sg' = [] \<or> sg' = [43] \<or> sg' = [45]"
      "ds \<noteq> []" "list_all is_digit ds" by (auto simp: exp_part_def)
    have s: "exp_sign (sg' @ ds) = sg'"
      using e(3-5) by (cases ds) (auto simp: exp_sign_def is_digit_def)
    have tw: "takeWhile is_digit ds = ds" "dropWhile is_digit ds = []"
      using takeWhile_digits[OF e(5), of "[]"] by simp_all
    show ?thesis using e(2,4) by (simp add: scan_exp_def Let_def e(1) s tw)
  qed (simp add: scan_exp_def)
  from 1 2 3 show ?thesis by (simp add: scan_number_def)
qed

lemma scan_number_split:
  assumes "scan_number t = Some ((i, fe), [])"
  obtains sg m f e where "sign_part sg" "int_part m" "frac_part f" "exp_part e" "i = sg @ m" "t = sg @ m @ f @ e"
    "fe = f @ e" "scan_frac fe = (f, e)"
proof -
  obtain q where 1: "scan_signed t = Some (i, q)" using assms by (auto simp: scan_number_def split: option.splits prod.splits)
  obtain f q' where 2: "scan_frac q = (f, q')" by fastforce
  obtain e r where 3: "scan_exp q' = (e, r)" by fastforce
  have eq: "fe = f @ e" "r = []" using assms 1 2 3 by (auto simp: scan_number_def)
  obtain sg m where s: "sign_part sg" "int_part m" "i = sg @ m" "t = sg @ m @ q" by (rule scan_signedD[OF 1])
  have f: "q = f @ q'" "frac_part f" and e: "q' = e @ r" "exp_part e" using scan_fracD[OF 2] scan_expD[OF 3] by auto
  then have "fe = q" using eq by simp
  with that[of sg m f e] s f e eq 2 show ?thesis by simp
qed

lemma float_repr_shape:
  assumes "float_repr t"
  obtains sg m f e where "sign_part sg" "int_part m" "frac_part f" "t = sg @ m @ f @ e"
    "(e = [] \<and> f \<noteq> []) \<or> (\<exists>d sg' ds. m = [d] \<and> d \<noteq> 48 \<and> e = 101 # sg' # ds \<and> (sg' = 43 \<or> sg' = 45)
       \<and> length ds \<ge> 2 \<and> list_all is_digit ds)"
proof -
  from assms obtain i fe where "scan_number t = Some ((i, fe), [])"
    by (auto simp: float_repr_def split: option.splits prod.splits)
  then show ?thesis
  proof (rule scan_number_split)
    fix sg m f e assume s: "sign_part sg" "int_part m" "frac_part f" "exp_part e" "i = sg @ m" "t = sg @ m @ f @ e"
      "fe = f @ e" "scan_frac fe = (f, e)"
    have unsigned: "(if take 1 i = [45] then tl i else i) = m"
      using s(1,5) int_part_facts[OF s(2)] by (auto simp: sign_part_def)
    have c: "fe \<noteq> []" "69 \<notin> set t" "e \<noteq> [] \<longrightarrow> length m = 1 \<and> m \<noteq> [48] \<and> length e \<ge> 4 \<and> (e ! 1 = 43 \<or> e ! 1 = 45)"
      using assms \<open>scan_number t = _\<close> s(8) unsigned by (simp_all add: float_repr_def Let_def)
    have "\<exists>d sg' ds. m = [d] \<and> d \<noteq> 48 \<and> e = 101 # sg' # ds \<and> (sg' = 43 \<or> sg' = 45)
       \<and> length ds \<ge> 2 \<and> list_all is_digit ds" if ne: "e \<noteq> []"
    proof -
      obtain d where d: "m = [d]" "d \<noteq> 48" using c(3) ne by (cases m) auto
      obtain x sg' ds where e: "e = x # sg' @ ds" "x = 101 \<or> x = 69" "sg' = [] \<or> sg' = [43] \<or> sg' = [45]"
        "ds \<noteq> []" "list_all is_digit ds" using s(4) ne by (auto simp: exp_part_def)
      have "x = 101" using e(1,2) c(2) s(6) by auto
      moreover have "sg' \<noteq> []"
        using c(3) ne e(1,4,5) by (cases ds) (auto simp: is_digit_def)
      ultimately show ?thesis using e d c(3) ne by (auto simp: exI[of _ ds])
    qed
    with that s(1-3,6) c(1) s(7) show ?thesis by (cases "e = []") auto
  qed
qed

lemma digits_no: "list_all is_digit ds \<Longrightarrow> \<not> is_digit c \<Longrightarrow> c \<notin> set ds"
  by (auto simp: list_all_iff)

lemma parts_no:
  assumes "int_part m" "frac_part f" "\<not> is_digit c" "c \<noteq> 46"
  shows "c \<notin> set (m @ f)"
  using digits_no[OF int_part_facts(2)[OF assms(1)] assms(3)] assms(2,4) digits_no[OF _ assms(3)]
  by (auto simp: frac_part_def)

lemma find_char_first: "c \<notin> set a \<Longrightarrow> find_char c (a @ c # b) = int (length a)"
proof -
  assume "c \<notin> set a"
  then have "takeWhile (\<lambda>x. x \<noteq> c) (a @ c # b) = a" by (subst takeWhile_append2) auto
  then show ?thesis by (simp add: find_char_def)
qed

lemma find_char_none: "c \<notin> set a \<Longrightarrow> find_char c a = - 1"
  by (simp add: find_char_def)

lemma split_exponent_parts:
  assumes "101 \<notin> set a" "a \<noteq> []" "ds \<noteq> []"
  shows "split_exponent (a @ 101 # sg # ds) =
     (let ds' = (if hd ds = 48 then tl ds else ds) in (a, 101 # sg # ds', exponent_value (sg # ds')))"
proof -
  obtain c cs where ds: "ds = c # cs" using assms(3) by (cases ds) auto
  show ?thesis using find_char_first[OF assms(1), of "sg # ds"] assms(2) by (simp add: split_exponent_def Let_def ds)
qed

lemma split_point_parts:
  assumes "int_part m" "frac_part f"
  shows "split_point (m @ f) = (m, [], [])
     \<or> (\<exists>ds. f = 46 # ds \<and> ds \<noteq> [] \<and> list_all is_digit ds \<and> split_point (m @ f) = (m, [46], ds))"
proof (cases "f = []")
  case True
  have "46 \<notin> set m" using digits_no[OF int_part_facts(2)[OF assms(1)], of 46] by (simp add: is_digit_def)
  with True show ?thesis by (simp add: split_point_def find_char_none)
next
  case False
  then obtain ds where ds: "f = 46 # ds" "ds \<noteq> []" "list_all is_digit ds" using assms(2) by (auto simp: frac_part_def)
  have "46 \<notin> set m" using digits_no[OF int_part_facts(2)[OF assms(1)], of 46] by (simp add: is_digit_def)
  from find_char_first[OF this, of ds] have "find_char 46 (m @ f) = int (length m)" by (simp add: ds(1))
  with ds int_part_facts(1)[OF assms(1)] show ?thesis by (auto simp: split_point_def)
qed

lemma list_all_replicate [simp]: "list_all is_digit (replicate n 48)"
  by (simp add: list_all_iff is_digit_def)

text \<open>The ECMAScript text of a float is a number text.\<close>

lemma ecma_number_scans:
  assumes "float_repr t"
  shows "\<exists>p. scan_number (ecma_number t) = Some (p, [])"
proof -
  from assms obtain sg m f e where s: "sign_part sg" "int_part m" "frac_part f" "t = sg @ m @ f @ e"
    and e: "(e = [] \<and> f \<noteq> []) \<or> (\<exists>d sg' ds. m = [d] \<and> d \<noteq> 48 \<and> e = 101 # sg' # ds \<and> (sg' = 43 \<or> sg' = 45)
       \<and> length ds \<ge> 2 \<and> list_all is_digit ds)" by (rule float_repr_shape)
  have m: "m \<noteq> []" "list_all is_digit m" "take 1 (m @ x) \<noteq> [45]" for x
    using int_part_facts[OF s(2)] by (cases m; simp)+
  obtain first sep fraction where sp: "split_point (m @ f) = (first, sep, fraction)" by (cases "split_point (m @ f)")
  then have fs: "first = m" "(sep = [] \<and> fraction = []) \<or> (sep = [46] \<and> fraction \<noteq> [] \<and> list_all is_digit fraction)"
    using split_point_parts[OF s(2,3)] by auto
  have frac: "frac_part (sep @ fraction)" "list_all is_digit fraction" using fs(2) by (auto simp: frac_part_def)
  have "take 1 (m @ f @ e) \<noteq> [45]" by (rule m(3))
  then have split: "ecma_number t = sg @ (case split_exponent (m @ f @ e) of (a, b, c) \<Rightarrow> place_point (split_point a) b c)"
    using s(1) by (auto simp: sign_part_def s(4) ecma_number_def Let_def simp del: take_append split: prod.split)
  have no_e: "101 \<notin> set (m @ f)" by (rule parts_no[OF s(2,3)]) (simp_all add: is_digit_def)
  show ?thesis
  proof (cases "e = []")
    case True
    then have "ecma_number t = sg @ m @ (sep @ fraction) @ []"
      using find_char_none[OF no_e] by (simp add: split split_exponent_def sp place_point_def fs(1))
    with scan_number_parts[OF s(1,2) frac(1), of "[]"] show ?thesis by (auto simp: exp_part_def)
  next
    case False
    with e obtain d sg' ds where d: "m = [d]" "d \<noteq> 48" "e = 101 # sg' # ds" "sg' = 43 \<or> sg' = 45" "length ds \<ge> 2"
      "list_all is_digit ds" by auto
    let ?ds = "if hd ds = 48 then tl ds else ds"
    have ds: "ds \<noteq> []" "?ds \<noteq> []" "list_all is_digit ?ds" using d(5,6) by (cases ds; auto)+
    have "split_exponent (m @ f @ e) = (m @ f, 101 # sg' # ?ds, exponent_value (sg' # ?ds))"
      using split_exponent_parts[OF no_e _ ds(1), of sg'] m(1) d(3) by (simp add: Let_def)
    with ds obtain ds' x where se: "split_exponent (m @ f @ e) = (m @ f, 101 # sg' # ds', x)" "ds' \<noteq> []" "list_all is_digit ds'"
      by blast
    have ep: "exp_part (101 # sg' # ds')" using exp_partI[of 101 "[sg']" ds'] se(2,3) d(4) by auto
    have parts: "ecma_number t = sg @ place_point (first, sep, fraction) (101 # sg' # ds') x"
      by (simp add: split se(1) sp)
    consider "0 < x" "x < 21" | "- 7 < x" "x < 0" | "\<not> (0 < x \<and> x < 21)" "\<not> (- 7 < x \<and> x < 0)" by blast
    then show ?thesis
    proof cases
      case 1
      let ?m = "m @ fraction @ replicate (nat (x - int (length (m @ fraction)) + 1)) 48"
      have "int_part ?m" using d(1,2) m(2) frac(2) by (simp add: int_part_def)
      moreover have "ecma_number t = sg @ ?m @ [] @ []" using 1 by (simp add: parts place_point_def fs(1) Let_def)
      ultimately show ?thesis using scan_number_parts[OF s(1), of ?m "[]" "[]"] by (auto simp: exp_part_def frac_part_def)
    next
      case 2
      let ?f = "46 # replicate (nat (- 1 - x)) 48 @ m @ fraction"
      have "frac_part ?f" using m frac(2) by (simp add: frac_part_def)
      moreover have "ecma_number t = sg @ [48] @ ?f @ []" using 2 by (simp add: parts place_point_def fs(1))
      ultimately show ?thesis using scan_number_parts[OF s(1), of "[48]" ?f "[]"] by (auto simp: exp_part_def int_part_def)
    next
      case 3
      have "ecma_number t = sg @ m @ (sep @ fraction) @ 101 # sg' # ds'" using 3 by (auto simp: parts place_point_def fs(1))
      with scan_number_parts[OF s(1,2) frac(1) ep] show ?thesis by auto
    qed
  qed
qed

section \<open>Reading back\<close>

fun floats_repr :: "pyval \<Rightarrow> bool" where
  "floats_repr (PyFloat f) = (case f of FFin t \<Rightarrow> float_repr t | _ \<Rightarrow> True)"
| "floats_repr (PyList vs) = list_all floats_repr vs"
| "floats_repr (PyDict d) = list_all (\<lambda>(_, v). floats_repr v) d"
| "floats_repr _ = True"

text \<open>What a canonical text stands for: members in UTF-16 order, a float as its ECMAScript text
  reads back (so \<open>1.0\<close> and \<open>1\<close> are one value).\<close>

fun jcs_value :: "(pystr \<Rightarrow> pyfloat) \<Rightarrow> pyval \<Rightarrow> pyval" where
  "jcs_value pf (PyFloat f) = (case serialize_binary64 f of
     Inl _ \<Rightarrow> PyFloat f
   | Inr t \<Rightarrow> (case scan_number t of None \<Rightarrow> PyFloat f | Some (p, _) \<Rightarrow> number_value pf p))"
| "jcs_value pf (PyList vs) = PyList (List.map (jcs_value pf) vs)"
| "jcs_value pf (PyDict d) = PyDict (sort_key utf_16_key (List.map (\<lambda>(k, v). (k, jcs_value pf v)) d))"
| "jcs_value pf v = v"

lemma list_all2_image:
  "list_all2 (\<lambda>x y. \<exists>z. R x z \<and> y = f z) xs ys \<Longrightarrow> \<exists>zs. list_all2 R xs zs \<and> ys = List.map f zs"
proof (induction xs ys rule: list_all2_induct)
  case (Cons x xs y ys)
  then obtain z zs where "R x z" "y = f z" "list_all2 R xs zs" "ys = List.map f zs" by blast
  then show ?case by (intro exI[of _ "z # zs"]) simp
qed simp

lemma map_r_member: "map_r f xs = Inr ys \<Longrightarrow> x \<in> set xs \<Longrightarrow> \<exists>y. f x = Inr y"
  by (induction xs arbitrary: ys) (auto simp: result_simps)

lemma serialize_PyDict:
  assumes "serialize_jcs (PyDict d) = Inr t"
  obtains ms where "list_all2 (\<lambda>kv kt. fst kt = fst kv \<and> (\<exists>s. fst kv = KStr s \<and> utf8_ok s)
       \<and> serialize_jcs (snd kv) = Inr (snd kt)) (sort_key utf_16_key d) ms"
     "t = 123 # join_commas (List.map member_text ms) @ [125]"
proof -
  from assms obtain us members where u: "map_r check_key d = Inr us"
    and m: "map_r (\<lambda>kv. bind_r (quote_string (member_key (fst kv))) (\<lambda>k.
         bind_r (serialize_jcs (snd kv)) (\<lambda>t. Inr (k @ 58 # t)))) (sort_key utf_16_key d) = Inr members"
    and t: "t = 123 # join_commas members @ [125]" by (auto simp: result_simps)
  have ks: "\<exists>s. fst kv = KStr s \<and> utf8_ok s" if "kv \<in> set d" for kv
    using map_r_member[OF u that]
    by (auto simp: check_key_def validate_unicode_def result_simps split: pykey.splits)
  have "list_all2 (\<lambda>kv y. \<exists>kt. (fst kt = fst kv \<and> (\<exists>s. fst kv = KStr s \<and> utf8_ok s)
       \<and> serialize_jcs (snd kv) = Inr (snd kt)) \<and> y = member_text kt) (sort_key utf_16_key d) members"
  proof (rule list_all2_all_nthI)
    show "length (sort_key utf_16_key d) = length members" using list_all2_lengthD[OF m[unfolded map_r_Inr_iff]] .
    fix n assume n: "n < length (sort_key utf_16_key d)"
    let ?kv = "sort_key utf_16_key d ! n"
    have "?kv \<in> set d" using nth_mem[OF n] by simp
    with ks obtain s where s: "fst ?kv = KStr s" "utf8_ok s" by blast
    have "bind_r (quote_string (member_key (fst ?kv))) (\<lambda>k. bind_r (serialize_jcs (snd ?kv)) (\<lambda>t. Inr (k @ 58 # t)))
        = Inr (members ! n)"
      using list_all2_nthD[OF m[unfolded map_r_Inr_iff] n] .
    with s obtain u where "serialize_jcs (snd ?kv) = Inr u" "members ! n = quote_text s @ 58 # u"
      by (auto simp: result_simps quote_string_def validate_unicode_def member_key_def)
    with s show "\<exists>kt. (fst kt = fst ?kv \<and> (\<exists>s. fst ?kv = KStr s \<and> utf8_ok s)
       \<and> serialize_jcs (snd ?kv) = Inr (snd kt)) \<and> members ! n = member_text kt"
      by (intro exI[of _ "(KStr s, u)"]) (simp add: member_text_def)
  qed
  from list_all2_image[OF this] t that show ?thesis by blast
qed

lemma utf_16_key_simps [simp]: "utf_16_key (k, v) = utf_16_be (member_key k)"
  by (simp add: utf_16_key_def)

lemma sort_key_members:
  "sort_key utf_16_key (List.map (\<lambda>(k, v). (k, f v)) d) = List.map (\<lambda>(k, v). (k, f v)) (sort_key utf_16_key d)"
proof -
  have "(\<lambda>x. utf_16_key (case x of (k, v) \<Rightarrow> (k, f v))) = utf_16_key" by (auto simp: fun_eq_iff)
  then show ?thesis by (simp add: sort_key_map)
qed

lemma reads_serialized:
  assumes "serialize_jcs v = Inr t" "keys_distinct v" "floats_repr v"
  shows "reads pf t (jcs_value pf v)"
  using assms
proof (induction v arbitrary: t)
  case (PyFloat f)
  then obtain r where f: "f = FFin r" by (cases f) auto
  have "\<exists>p. scan_number t = Some (p, [])"
  proof (cases "float_is_zero r")
    case True
    with f PyFloat.prems have "t = U ''0''" by simp
    then show ?thesis by (simp add: U_def scan_number_def scan_signed_def scan_int_def scan_frac_def scan_exp_def)
  next
    case False
    with f PyFloat.prems have "t = ecma_number r" "float_repr r" by (auto split: if_splits)
    with ecma_number_scans show ?thesis by blast
  qed
  then obtain p where p: "scan_number t = Some (p, [])" by blast
  from reads_number[OF p] PyFloat.prems(1) p show ?case by simp
next
  case (PyList vs)
  from PyList.prems obtain ts where ts: "list_all2 (\<lambda>v t. serialize_jcs v = Inr t) vs ts" "t = 91 # join_commas ts @ [93]"
    by (auto simp: result_simps map_r_Inr_iff)
  have "list_all2 (reads pf) ts (List.map (jcs_value pf) vs)"
    using ts(1) PyList.IH PyList.prems(2,3) by (auto simp: list_all2_conv_all_nth list_all_iff)
  from reads_list[OF this] ts(2) show ?case by simp
next
  case (PyDict d)
  let ?d = "List.map (\<lambda>(k, v). (k, jcs_value pf v)) (sort_key utf_16_key d)"
  from PyDict.prems(1) obtain ms where ms: "list_all2 (\<lambda>kv kt. fst kt = fst kv \<and> (\<exists>s. fst kv = KStr s \<and> utf8_ok s)
       \<and> serialize_jcs (snd kv) = Inr (snd kt)) (sort_key utf_16_key d) ms"
     and t: "t = 123 # join_commas (List.map member_text ms) @ [125]" by (rule serialize_PyDict)
  have ih: "reads pf t (jcs_value pf (snd kv))" if "kv \<in> set d" "serialize_jcs (snd kv) = Inr t" for kv t
    using PyDict.IH[of kv "snd kv" t] that PyDict.prems(2,3) by (cases kv) (auto simp: list_all_iff)
  have "list_all2 (\<lambda>kt kv. fst kt = KStr (fst kv) \<and> reads pf (snd kt) (snd kv)) ms
      (List.map (\<lambda>(k, v). (key_text k, v)) ?d)"
  proof (rule list_all2_all_nthI)
    show "length ms = length (List.map (\<lambda>(k, v). (key_text k, v)) ?d)" using list_all2_lengthD[OF ms] by simp
    fix n assume "n < length ms"
    then have n: "n < length (sort_key utf_16_key d)" using list_all2_lengthD[OF ms] by simp
    have "sort_key utf_16_key d ! n \<in> set d" using nth_mem[OF n] by simp
    from ih[OF this] list_all2_nthD[OF ms n] n
    show "fst (ms ! n) = KStr (fst (List.map (\<lambda>(k, v). (key_text k, v)) ?d ! n)) \<and>
        reads pf (snd (ms ! n)) (snd (List.map (\<lambda>(k, v). (key_text k, v)) ?d ! n))"
      by (auto simp: case_prod_beta key_text_def)
  qed
  from reads_object[OF this] have r: "reads pf t (PyDict (dict_of_pairs (List.map (\<lambda>(k, v). (key_text k, v)) ?d)))"
    by (simp add: t)
  have "mset (List.map fst ?d) = mset (List.map fst d)"
    by (simp add: case_prod_beta image_mset.compositionality comp_def)
  then have "distinct (List.map fst ?d)" using PyDict.prems(2) by (metis keys_distinct.simps(2) mset_eq_imp_distinct_iff)
  moreover have "\<forall>kv\<in>set ?d. \<exists>s. fst kv = KStr s"
    using ms by (auto simp: list_all2_conv_all_nth in_set_conv_nth)
      (metis fst_conv in_set_conv_nth length_sort set_sort)
  ultimately have "dict_of_pairs (List.map (\<lambda>(k, v). (key_text k, v)) ?d) = ?d" by (rule dict_of_key_texts)
  with r show ?case by (simp only: jcs_value.simps sort_key_members)
qed (auto simp: result_simps quote_string_def)

section \<open>The order of keys does not matter\<close>

text \<open>The same document with the members of its objects in any order.\<close>

inductive reordered :: "pyval \<Rightarrow> pyval \<Rightarrow> bool" where
  same: "reordered v v"
| elements: "list_all2 reordered vs ws \<Longrightarrow> reordered (PyList vs) (PyList ws)"
| members: "list_all2 (\<lambda>a b. fst a = fst b \<and> reordered (snd a) (snd b)) d e \<Longrightarrow> mset e' = mset e \<Longrightarrow>
     reordered (PyDict d) (PyDict e')"

text \<open>Python code points end at 0x10FFFF.\<close>

fun keys_scalar :: "pyval \<Rightarrow> bool" where
  "keys_scalar (PyList vs) = list_all keys_scalar vs"
| "keys_scalar (PyDict d) = list_all (\<lambda>(k, v). list_all (\<lambda>c. c \<le> 0x10FFFF) (member_key k) \<and> keys_scalar v) d"
| "keys_scalar _ = True"

lemma utf_16_be_char_prefix:
  assumes "utf_16_be_char c @ r = utf_16_be_char d @ r'" "\<not> is_surrogate c" "\<not> is_surrogate d"
    "c \<le> 0x10FFFF" "d \<le> 0x10FFFF"
  shows "c = d \<and> r = r'"
proof -
  have small: "c div 256 < 0xD8 \<or> 0xE0 \<le> c div 256" if "\<not> is_surrogate c" for c
    using that unfolding is_surrogate_def by linarith
  have pair: "0xD8 \<le> (0xD800 + (c - 0x10000) div 1024) div 256 \<and> (0xD800 + (c - 0x10000) div 1024) div 256 < 0xDC"
    if "\<not> c < 0x10000" "c \<le> 0x10FFFF" for c :: nat
  proof -
    have "(c - 0x10000) div 1024 < 0x400" by (rule less_mult_imp_div_less) (use that in simp)
    then have u: "0xD800 \<le> 0xD800 + (c - 0x10000) div 1024" "0xD800 + (c - 0x10000) div 1024 < 0xDC * 256" by simp_all
    have "0xD8 * 256 div 256 \<le> (0xD800 + (c - 0x10000) div 1024) div 256" by (rule div_le_mono) (use u in simp)
    with less_mult_imp_div_less[OF u(2)] show ?thesis by simp
  qed
  consider "c < 0x10000" "d < 0x10000" | "c < 0x10000" "\<not> d < 0x10000" | "\<not> c < 0x10000" "d < 0x10000"
    | "\<not> c < 0x10000" "\<not> d < 0x10000" by blast
  then show ?thesis
  proof cases
    case 1
    with assms(1) have "c div 256 = d div 256" "c mod 256 = d mod 256" "r = r'" by (simp_all add: utf_16_be_char_def)
    moreover from this have "c = d" using div_mult_mod_eq[of c 256] div_mult_mod_eq[of d 256] by metis
    ultimately show ?thesis by simp
  next
    case 2
    with assms(1) have "c div 256 = (0xD800 + (d - 0x10000) div 1024) div 256" by (simp add: utf_16_be_char_def Let_def)
    with small[OF assms(2)] pair[OF 2(2) assms(5)] show ?thesis by linarith
  next
    case 3
    with assms(1) have "d div 256 = (0xD800 + (c - 0x10000) div 1024) div 256" by (simp add: utf_16_be_char_def Let_def)
    with small[OF assms(3)] pair[OF 3(1) assms(4)] show ?thesis by linarith
  next
    case 4
    let ?h = "\<lambda>c. 0xD800 + (c - 0x10000) div 1024" and ?l = "\<lambda>c. 0xDC00 + (c - 0x10000) mod (1024 :: nat)"
    from 4 assms(1) have e: "?h c div 256 = ?h d div 256" "?h c mod 256 = ?h d mod 256"
      "?l c div 256 = ?l d div 256" "?l c mod 256 = ?l d mod 256" "r = r'"
      by (simp_all add: utf_16_be_char_def Let_def)
    have "?h c = ?h d" "?l c = ?l d"
      using e div_mult_mod_eq[of "?h c" 256] div_mult_mod_eq[of "?h d" 256]
        div_mult_mod_eq[of "?l c" 256] div_mult_mod_eq[of "?l d" 256] by metis+
    then have "(c - 0x10000) div 1024 = (d - 0x10000) div 1024" "(c - 0x10000) mod 1024 = (d - 0x10000) mod 1024" by simp_all
    then have "c - 0x10000 = d - 0x10000" by (metis div_mult_mod_eq)
    with 4 e show ?thesis by simp
  qed
qed

lemma utf_16_be_inject:
  assumes "utf_16_be s = utf_16_be t" "utf8_ok s" "utf8_ok t"
    "list_all (\<lambda>c. c \<le> 0x10FFFF) s" "list_all (\<lambda>c. c \<le> 0x10FFFF) t"
  shows "s = t"
  using assms
proof (induction s arbitrary: t)
  case Nil
  then show ?case by (cases t) (auto simp: utf_16_be_def utf_16_be_char_def Let_def split: if_splits)
next
  case (Cons c s)
  obtain d t' where t: "t = d # t'"
    using Cons.prems(1) by (cases t) (auto simp: utf_16_be_def utf_16_be_char_def Let_def split: if_splits)
  have "c = d \<and> utf_16_be s = utf_16_be t'"
    by (rule utf_16_be_char_prefix) (use Cons.prems t in \<open>auto simp: utf_16_be_def utf8_ok_def\<close>)
  with Cons.IH[of t'] Cons.prems t show ?case by (auto simp: utf8_ok_def)
qed

lemma filter_one: "distinct zs \<Longrightarrow> filter (\<lambda>x. x = k) zs = (if k \<in> set zs then [k] else [])"
  by (induction zs) auto

lemma sort_key_unique:
  assumes "mset xs = mset ys" "inj_on f (set xs)" "distinct xs"
  shows "sort_key f xs = sort_key f ys"
proof (rule properties_for_sort_key)
  show "mset (sort_key f ys) = mset xs" using assms(1) by simp
  show "filter (\<lambda>x. f k = f x) (sort_key f ys) = filter (\<lambda>x. f k = f x) xs" if "k \<in> set (sort_key f ys)" for k
  proof -
    have s: "set ys = set xs" "distinct ys" using assms(1,3) by (metis set_mset_mset, metis mset_eq_imp_distinct_iff)
    have k: "k \<in> set xs" using that s by simp
    have "filter (\<lambda>x. f k = f x) zs = [k]" if "set zs = set xs" "distinct zs" for zs
    proof -
      have "filter (\<lambda>x. f k = f x) zs = filter (\<lambda>x. x = k) zs"
        by (rule filter_cong) (use that k assms(2) in \<open>auto dest: inj_onD\<close>)
      also have "\<dots> = [k]" using that k filter_one[of zs k] by simp
      finally show ?thesis .
    qed
    from this[of "sort_key f ys"] this[of xs] s assms(3) show ?thesis by simp
  qed
qed simp

text \<open>Members in canonical order, each with its text.\<close>

definition member_texts :: "pydict \<Rightarrow> (pykey \<times> pystr) list \<Rightarrow> bool" where
  "member_texts d ms \<longleftrightarrow> list_all2 (\<lambda>kv kt. fst kt = fst kv \<and> (\<exists>s. fst kv = KStr s \<and> utf8_ok s)
     \<and> serialize_jcs (snd kv) = Inr (snd kt)) d ms"

lemma map_r_total: "(\<And>x. x \<in> set xs \<Longrightarrow> \<exists>y. f x = Inr y) \<Longrightarrow> \<exists>ys. map_r f xs = Inr ys"
proof (induction xs)
  case (Cons x xs)
  then obtain y ys where "f x = Inr y" "map_r f xs = Inr ys" by fastforce
  then show ?case by simp
qed simp

lemma member_textsD:
  assumes "member_texts d ms" "kv \<in> set d"
  shows "\<exists>s u. kv = (KStr s, u) \<and> utf8_ok s"
  using assms by (cases kv) (auto simp: member_texts_def list_all2_conv_all_nth in_set_conv_nth)

lemma serialize_PyDict_iff:
  "serialize_jcs (PyDict d) = Inr t \<longleftrightarrow>
   (\<exists>ms. member_texts (sort_key utf_16_key d) ms \<and> t = 123 # join_commas (List.map member_text ms) @ [125])"
proof
  assume "serialize_jcs (PyDict d) = Inr t"
  then show "\<exists>ms. member_texts (sort_key utf_16_key d) ms \<and> t = 123 # join_commas (List.map member_text ms) @ [125]"
    by (rule serialize_PyDict) (auto simp: member_texts_def)
next
  assume "\<exists>ms. member_texts (sort_key utf_16_key d) ms \<and> t = 123 # join_commas (List.map member_text ms) @ [125]"
  then obtain ms where ms: "member_texts (sort_key utf_16_key d) ms" and t: "t = 123 # join_commas (List.map member_text ms) @ [125]"
    by blast
  have "\<exists>y. check_key kv = Inr y" if "kv \<in> set d" for kv
    using member_textsD[OF ms, of kv] that by (auto simp: check_key_def validate_unicode_def check_r_def)
  from map_r_total[of d check_key, OF this] obtain us where us: "map_r check_key d = Inr us" by blast
  have "map_r (\<lambda>kv. bind_r (quote_string (member_key (fst kv))) (\<lambda>k. bind_r (serialize_jcs (snd kv))
      (\<lambda>t. Inr (k @ 58 # t)))) (sort_key utf_16_key d) = Inr (List.map member_text ms)"
    unfolding map_r_Inr_iff list_all2_map2
  proof (rule list_all2_mono[OF ms[unfolded member_texts_def]])
    fix kv kt assume "fst kt = fst kv \<and> (\<exists>s. fst kv = KStr s \<and> utf8_ok s) \<and> serialize_jcs (snd kv) = Inr (snd kt)"
    then obtain s where s: "fst kt = KStr s" "fst kv = KStr s" "utf8_ok s" "serialize_jcs (snd kv) = Inr (snd kt)"
      by metis
    show "bind_r (quote_string (member_key (fst kv))) (\<lambda>k. bind_r (serialize_jcs (snd kv)) (\<lambda>t. Inr (k @ 58 # t))) =
        Inr (member_text kt)"
      using s(3) by (simp add: s(1,2,4) quote_string_def validate_unicode_def check_r_def member_key_def member_text_def)
  qed
  with us t show "serialize_jcs (PyDict d) = Inr t" by simp
qed

lemma serialize_reordered:
  "reordered v w \<Longrightarrow> serialize_jcs v = Inr t \<Longrightarrow> keys_distinct v \<Longrightarrow> keys_scalar v \<Longrightarrow> serialize_jcs w = Inr t"
proof (induction v w arbitrary: t rule: reordered.induct)
  case (elements vs ws)
  from elements.prems(1) obtain ts where ts: "list_all2 (\<lambda>v t. serialize_jcs v = Inr t) vs ts" "t = 91 # join_commas ts @ [93]"
    by (auto simp: result_simps map_r_Inr_iff)
  have "list_all2 (\<lambda>v t. serialize_jcs v = Inr t) ws ts"
    using elements.IH ts(1) elements.prems(2,3) by (auto simp: list_all2_conv_all_nth list_all_length)
  with ts(2) show ?case by (simp add: map_r_Inr_iff[THEN iffD2])
next
  case (members d e e')
  let ?R = "\<lambda>a b. fst a = fst b \<and> (\<forall>t. serialize_jcs (snd a) = Inr t \<longrightarrow> serialize_jcs (snd b) = Inr t)"
  from members.prems(1) obtain ms where ms: "member_texts (sort_key utf_16_key d) ms"
    and t: "t = 123 # join_commas (List.map member_text ms) @ [125]" by (auto simp: serialize_PyDict_iff simp del: serialize_jcs.simps)
  have de: "list_all2 ?R d e"
    using members.IH members.prems(2,3)
    by (auto simp: list_all2_conv_all_nth list_all_length case_prod_beta)
  have "list_all2 ?R (sort_key utf_16_key d) (sort_key utf_16_key e)"
    by (rule sort_key_list_all2[OF de]) (simp add: utf_16_key_def)
  then have "member_texts (sort_key utf_16_key e) ms"
    using ms by (auto simp: member_texts_def list_all2_conv_all_nth)
  moreover have "sort_key utf_16_key e = sort_key utf_16_key e'"
  proof (rule sort_key_unique)
    have keys: "List.map fst e = List.map fst d" using de by (auto simp: list_all2_conv_all_nth intro: nth_equalityI)
    then have dist: "distinct (List.map fst e)" using members.prems(2) by simp
    then show "distinct e" by (simp add: distinct_map)
    have key: "\<exists>s. fst kv = KStr s \<and> utf8_ok s \<and> list_all (\<lambda>c. c \<le> 0x10FFFF) s" if "kv \<in> set e" for kv
    proof -
      have "fst kv \<in> fst ` set d" using that keys by (metis image_eqI set_map)
      then obtain kv' where k: "kv' \<in> set d" "fst kv' = fst kv" by auto
      then obtain s u where s: "kv' = (KStr s, u)" "utf8_ok s" using member_textsD[OF ms, of kv'] by auto
      have "list_all (\<lambda>c. c \<le> 0x10FFFF) (member_key (fst kv'))"
        using k(1) members.prems(3) by (cases kv') (auto simp: list_all_iff)
      with k s show ?thesis by (metis fst_conv member_key_def pykey.simps(5))
    qed
    show "inj_on utf_16_key (set e)"
    proof (rule inj_onI)
      fix x y assume xy: "x \<in> set e" "y \<in> set e" "utf_16_key x = utf_16_key y"
      from key[OF xy(1)] key[OF xy(2)] xy(3) have "fst x = fst y"
        by (auto simp: utf_16_key_def member_key_def dest: utf_16_be_inject)
      with dist xy(1,2) show "x = y" by (simp add: distinct_map inj_on_def)
    qed
  qed (use members.hyps in simp)
  ultimately show ?case using t by (auto simp: serialize_PyDict_iff simp del: serialize_jcs.simps)
qed



end
