(* ===== verification/Worker_Tokens.thy ===== *)
theory Worker_Tokens
  imports Worker_Fold Jcs
begin

text \<open>
  The authorization tokens of \<open>workers/tokens.py\<close>: \<open>version.payload.mac\<close>, where the payload is the
  unpadded URL-safe base64 of a JSON object and the mac its keyed hash.  The keyed hash, the decoding of
  bytes to text that \<open>json.loads\<close> begins with, and \<open>fromisoformat\<close> on texts that are no RFC 3339
  timestamps are parameters.  Bytes are lists of numbers below 256.
\<close>

section \<open>Base64\<close>

definition b64_char :: "nat \<Rightarrow> nat" where
  "b64_char v = (if v < 26 then 65 + v else if v < 52 then 71 + v else if v < 62 then v - 4 else if v = 62 then 45 else 95)"

text \<open>\<open>urlsafe_b64encode(...).rstrip(b"=")\<close>\<close>

fun b64_encode :: "nat list \<Rightarrow> pystr" where
  "b64_encode (a # b # c # r) = b64_char (a div 4) # b64_char (a mod 4 * 16 + b div 16) # b64_char (b mod 16 * 4 + c div 64)
     # b64_char (c mod 64) # b64_encode r"
| "b64_encode [a, b] = [b64_char (a div 4), b64_char (a mod 4 * 16 + b div 16), b64_char (b mod 16 * 4)]"
| "b64_encode [a] = [b64_char (a div 4), b64_char (a mod 4 * 16)]"
| "b64_encode [] = []"

definition b64_value :: "nat \<Rightarrow> nat option" where
  "b64_value c =
     (if 65 \<le> c \<and> c \<le> 90 then Some (c - 65) else if 97 \<le> c \<and> c \<le> 122 then Some (c - 71)
      else if 48 \<le> c \<and> c \<le> 57 then Some (c + 4) else if c = 45 \<or> c = 43 then Some 62
      else if c = 95 \<or> c = 47 then Some 63 else None)"

text \<open>\<open>a2b_base64\<close> as it is when it is not strict: the position in a group of four, the bits left over and the
  pads seen; it skips what is not in the alphabet and stops at the pad that completes a group.\<close>

fun a2b :: "nat \<Rightarrow> nat \<Rightarrow> nat \<Rightarrow> pystr \<Rightarrow> nat list option" where
  "a2b pos left pads [] = (if pos = 0 then Some [] else None)"
| "a2b pos left pads (c # cs) =
     (if c = 61 then
        (if 2 \<le> pos then (if 4 \<le> pos + (pads + 1) then Some [] else a2b pos left (pads + 1) cs) else a2b pos left pads cs)
      else (case b64_value c of
          None \<Rightarrow> a2b pos left pads cs
        | Some v \<Rightarrow>
            if pos = 0 then a2b 1 v 0 cs
            else if pos = 1 then map_option ((#) (left * 4 + v div 16)) (a2b 2 (v mod 16) 0 cs)
            else if pos = 2 then map_option ((#) (left * 16 + v div 4)) (a2b 3 (v mod 4) 0 cs)
            else map_option ((#) (left * 64 + v)) (a2b 0 0 0 cs)))"

text \<open>\<open>_decode_payload\<close>; \<open>None\<close> is the \<open>ValueError\<close>, which the callers turn into the same refusal.\<close>

definition decode_token_payload :: "pystr \<Rightarrow> nat list option" where
  "decode_token_payload payload =
     (if isascii payload then a2b 0 0 0 (payload @ replicate ((4 - length payload mod 4) mod 4) 61) else None)"

section \<open>JSON\<close>

text \<open>\<open>json.dumps\<close> with \<open>ensure_ascii\<close>: the escapes of a text\<close>

definition hex_4 :: "nat \<Rightarrow> pystr" where
  "hex_4 n = [hex_digit (n div 4096), hex_digit (n div 256 mod 16), hex_digit (n div 16 mod 16), hex_digit (n mod 16)]"

definition ascii_char :: "nat \<Rightarrow> pystr" where
  "ascii_char c = (case map_of STRING_ESCAPES c of
     Some e \<Rightarrow> e
   | None \<Rightarrow> if 32 \<le> c \<and> c \<le> 126 then [c]
       else if c < 0x10000 then 92 # 117 # hex_4 c
       else 92 # 117 # hex_4 (0xD800 + (c - 0x10000) div 1024) @ 92 # 117 # hex_4 (0xDC00 + (c - 0x10000) mod 1024))"

definition ascii_text :: "pystr \<Rightarrow> pystr" where
  "ascii_text s = 34 # concat (List.map ascii_char s) @ [34]"

text \<open>\<open>_encode_payload\<close>: the keys are sorted; they are plain names, so their quoting escapes nothing.\<close>

definition claims_text :: "(string \<times> pystr) list \<Rightarrow> pystr" where
  "claims_text claims = 123 # join_members (List.map (\<lambda>(k, v). (KStr (U k), ascii_text v)) claims) @ [125]"

definition encode_payload :: "(string \<times> pystr) list \<Rightarrow> pystr" where
  "encode_payload claims = b64_encode (claims_text claims)"

section \<open>Signing and verifying\<close>

record token_env =
  tk_hmac :: "nat list \<Rightarrow> pystr \<Rightarrow> pystr"
  tk_text :: "nat list \<Rightarrow> pystr option"
  tk_float :: "pystr \<Rightarrow> pyfloat"
  tk_other_iso :: "pystr \<Rightarrow> worker_error + int"

text \<open>\<open>str.encode("ascii")\<close> and \<open>compare_digest\<close> of texts raise on other characters, and nothing here
  catches that: the two crashes beside the refusals.\<close>

datatype token_failure = TokenRefused worker_error | TokenUnicodeEncodeError | TokenTypeError

abbreviation refuse_token :: "string \<Rightarrow> token_failure + 'a" where
  "refuse_token code \<equiv> Inl (TokenRefused (WorkerGrantError (U code)))"

definition GRANT_TOKEN_VERSION :: pystr where "GRANT_TOKEN_VERSION = U ''rg1''"
definition WORKER_SESSION_VERSION :: pystr where "WORKER_SESSION_VERSION = U ''ws1''"
definition HMAC_KEY_BYTES :: nat where "HMAC_KEY_BYTES = 32"
definition TOKEN_KEY_ID :: pystr where "TOKEN_KEY_ID = U ''local.hmac.1''"

definition require_hmac_key :: "nat list \<Rightarrow> token_failure + unit" where
  "require_hmac_key key = check_r (length key = HMAC_KEY_BYTES) (TokenRefused (WorkerGrantError (U ''hmac-key-invalid'')))"

definition sign_token :: "token_env \<Rightarrow> nat list \<Rightarrow> pystr \<Rightarrow> (string \<times> pystr) list \<Rightarrow> pystr" where
  "sign_token T key version claims = (let payload = encode_payload claims in version @ 46 # payload @ 46 # tk_hmac T key payload)"

definition verify_signed :: "token_env \<Rightarrow> nat list \<Rightarrow> pystr \<Rightarrow> pyval \<Rightarrow> token_failure + pydict" where
  "verify_signed T key version token = (case token of
     PyStr s \<Rightarrow>
       (case split_on 46 s of
          [ver, payload, mac] \<Rightarrow>
            if ver \<noteq> version then refuse_token ''grant-token-invalid''
            else if \<not> isascii payload then Inl TokenUnicodeEncodeError
            else if \<not> isascii mac then Inl TokenTypeError
            else if mac \<noteq> tk_hmac T key payload then refuse_token ''grant-hmac-mismatch''
            else (case Option.bind (decode_token_payload payload) (\<lambda>bytes. Option.bind (tk_text T bytes) (json_loads (tk_float T))) of
                Some (PyDict d) \<Rightarrow> Inr d
              | _ \<Rightarrow> refuse_token ''grant-token-invalid'')
        | _ \<Rightarrow> refuse_token ''grant-token-invalid'')
   | _ \<Rightarrow> refuse_token ''grant-token-invalid'')"

section \<open>Grant tokens\<close>

record grant_claims =
  cl_grant_id :: pystr
  cl_grant_event_id :: pystr
  cl_worker_id :: pystr
  cl_task_id :: pystr
  cl_attempt_id :: pystr
  cl_run_id :: pystr
  cl_nonce :: pystr
  cl_project_id :: pystr
  cl_image_digest :: pystr
  cl_config_digest :: pystr
  cl_exp :: pystr

definition claim_members :: "grant_claims \<Rightarrow> (string \<times> pystr) list" where
  "claim_members c =
     [(''v'', GRANT_TOKEN_VERSION), (''keyId'', TOKEN_KEY_ID), (''grantId'', cl_grant_id c), (''grantEventId'', cl_grant_event_id c),
      (''workerId'', cl_worker_id c), (''taskId'', cl_task_id c), (''attemptId'', cl_attempt_id c), (''runId'', cl_run_id c),
      (''nonce'', cl_nonce c), (''exp'', cl_exp c), (''projectId'', cl_project_id c), (''imageDigest'', cl_image_digest c),
      (''configDigest'', cl_config_digest c)]"

definition issue_grant_token :: "token_env \<Rightarrow> nat list \<Rightarrow> grant_claims \<Rightarrow> token_failure + pystr" where
  "issue_grant_token T key c = bind_r (require_hmac_key key) (\<lambda>_. Inr (sign_token T key GRANT_TOKEN_VERSION (claim_members c)))"

text \<open>\<open>parse_rfc3339\<close> of a claim\<close>

definition claim_instant :: "token_env \<Rightarrow> pystr \<Rightarrow> worker_error + int" where
  "claim_instant T s = (if Rfc3339Timestamp s then instant_of s else tk_other_iso T s)"

definition required_claim :: "pydict \<Rightarrow> string \<Rightarrow> token_failure + pystr" where
  "required_claim d k = (case dict_get (U k) d of
     Some (PyStr s) \<Rightarrow> if s = [] then refuse_token ''grant-token-invalid'' else Inr s
   | _ \<Rightarrow> refuse_token ''grant-token-invalid'')"

definition verify_grant_token :: "token_env \<Rightarrow> nat list \<Rightarrow> pyval \<Rightarrow> int \<Rightarrow> bool \<Rightarrow> token_failure + grant_claims" where
  "verify_grant_token T key token now require_live =
     bind_r (require_hmac_key key) (\<lambda>_.
     bind_r (verify_signed T key GRANT_TOKEN_VERSION token) (\<lambda>d.
     bind_r (case dict_get (U ''exp'') d of Some (PyStr s) \<Rightarrow> Inr s | _ \<Rightarrow> refuse_token ''grant-token-invalid'') (\<lambda>exp.
     bind_r (if require_live then
         bind_r (map_sum TokenRefused id (claim_instant T exp)) (\<lambda>t.
           if t \<le> now then refuse_token ''grant-expired'' else Inr ()) else Inr ()) (\<lambda>_.
     bind_r (required_claim d ''grantId'') (\<lambda>g.
     bind_r (required_claim d ''grantEventId'') (\<lambda>ge.
     bind_r (required_claim d ''workerId'') (\<lambda>w.
     bind_r (required_claim d ''taskId'') (\<lambda>t.
     bind_r (required_claim d ''attemptId'') (\<lambda>a.
     bind_r (required_claim d ''runId'') (\<lambda>r.
     bind_r (required_claim d ''nonce'') (\<lambda>n.
     bind_r (required_claim d ''keyId'') (\<lambda>k.
     bind_r (required_claim d ''projectId'') (\<lambda>p.
     bind_r (required_claim d ''imageDigest'') (\<lambda>i.
     bind_r (required_claim d ''configDigest'') (\<lambda>c.
     if k \<noteq> TOKEN_KEY_ID then refuse_token ''grant-key-unknown''
     else Inr \<lparr>cl_grant_id = g, cl_grant_event_id = ge, cl_worker_id = w, cl_task_id = t, cl_attempt_id = a, cl_run_id = r,
       cl_nonce = n, cl_project_id = p, cl_image_digest = i, cl_config_digest = c, cl_exp = exp\<rparr>)))))))))))))))"

section \<open>Worker sessions\<close>

definition issue_worker_session :: "token_env \<Rightarrow> nat list \<Rightarrow> pystr \<Rightarrow> token_failure + pystr" where
  "issue_worker_session T key worker_id = bind_r (require_hmac_key key) (\<lambda>_.
     Inr (sign_token T key WORKER_SESSION_VERSION [(''v'', WORKER_SESSION_VERSION), (''workerId'', worker_id)]))"

definition verify_worker_session :: "token_env \<Rightarrow> nat list \<Rightarrow> pyval \<Rightarrow> token_failure + pystr" where
  "verify_worker_session T key token =
     bind_r (require_hmac_key key) (\<lambda>_.
     bind_r (verify_signed T key WORKER_SESSION_VERSION token) (\<lambda>d.
     case dict_get (U ''workerId'') d of
       Some (PyStr s) \<Rightarrow> if s = [] then refuse_token ''worker-session-invalid'' else Inr s
     | _ \<Rightarrow> refuse_token ''worker-session-invalid''))"

section \<open>Reading a payload back\<close>

lemma b64_value_char [simp]: "v < 64 \<Longrightarrow> b64_value (b64_char v) = Some v"
  by (auto simp: b64_value_def b64_char_def)

lemma b64_char_range: "v < 64 \<Longrightarrow> b64_char v \<noteq> 61 \<and> b64_char v \<noteq> 46 \<and> b64_char v < 128"
  by (auto simp: b64_char_def)

lemma b64_chars [simp]: "v < 64 \<Longrightarrow> b64_char v \<noteq> 61" "v < 64 \<Longrightarrow> b64_char v \<noteq> 46" "v < 64 \<Longrightarrow> b64_char v < 128"
  using b64_char_range by blast+

lemma b64_encode_chars: "list_all (\<lambda>b. b < 256) bs \<Longrightarrow> list_all (\<lambda>c. c \<noteq> 46 \<and> c < 128) (b64_encode bs)"
  by (induction bs rule: b64_encode.induct) (auto simp: less_mult_imp_div_less)

lemma b64_groups: "(a::nat) < 256 \<Longrightarrow> a div 4 < 64" "(b::nat) < 256 \<Longrightarrow> a mod 4 * 16 + b div 16 < 64"
  "(c::nat) < 256 \<Longrightarrow> b mod 16 * 4 + c div 64 < 64" "(b::nat) mod 16 * 4 < 64" "(a::nat) mod 4 * 16 < 64"
  by (auto simp: less_mult_imp_div_less) (presburger+)?

lemma a2b_encode:
  assumes "list_all (\<lambda>b. b < 256) bs"
  shows "a2b 0 0 pads (b64_encode bs @ replicate ((4 - length (b64_encode bs) mod 4) mod 4) 61) = Some bs"
  using assms
proof (induction bs arbitrary: pads rule: b64_encode.induct)
  case (1 a b c r)
  define v1 v2 v3 v4 where v: "v1 = a div 4" "v2 = a mod 4 * 16 + b div 16" "v3 = b mod 16 * 4 + c div 64" "v4 = c mod 64"
  have w: "v1 < 64" "v2 < 64" "v3 < 64" "v4 < 64" using 1 unfolding v by (simp_all add: b64_groups)
  have m: "v1 * 4 + v2 div 16 = a" "v2 mod 16 * 16 + v3 div 4 = b" "v3 mod 4 * 64 + v4 = c"
  proof -
    have d: "b div 16 < 16" "c div 64 < 4" using 1 by auto
    then have q: "v2 div 16 = a mod 4" "v2 mod 16 = b div 16" "v3 div 4 = b mod 16" "v3 mod 4 = c div 64" unfolding v by simp_all
    show "v1 * 4 + v2 div 16 = a" "v2 mod 16 * 16 + v3 div 4 = b" "v3 mod 4 * 64 + v4 = c"
      unfolding q unfolding v by (simp_all add: mult.commute)
  qed
  have e: "b64_encode (a # b # c # r) = b64_char v1 # b64_char v2 # b64_char v3 # b64_char v4 # b64_encode r"
    unfolding v by simp
  show ?case unfolding e using 1 w m by simp
next
  case (2 a b)
  define v1 v2 v3 where v: "v1 = a div 4" "v2 = a mod 4 * 16 + b div 16" "v3 = b mod 16 * 4"
  have w: "v1 < 64" "v2 < 64" "v3 < 64" using 2 unfolding v by (simp_all add: b64_groups)
  have m: "v1 * 4 + v2 div 16 = a" "v2 mod 16 * 16 + v3 div 4 = b"
  proof -
    have "b div 16 < 16" using 2 by auto
    then have q: "v2 div 16 = a mod 4" "v2 mod 16 = b div 16" "v3 div 4 = b mod 16" unfolding v by simp_all
    show "v1 * 4 + v2 div 16 = a" "v2 mod 16 * 16 + v3 div 4 = b" unfolding q unfolding v by (simp_all add: mult.commute)
  qed
  have e: "b64_encode [a, b] = [b64_char v1, b64_char v2, b64_char v3]" unfolding v by simp
  have r: "replicate ((4 - length [b64_char v1, b64_char v2, b64_char v3] mod 4) mod 4) 61 = [61 :: nat]" by simp
  show ?case unfolding e r using w m by simp
next
  case (3 a)
  define v1 v2 where v: "v1 = a div 4" "v2 = a mod 4 * 16"
  have w: "v1 < 64" "v2 < 64" using 3 unfolding v by (simp_all add: b64_groups)
  have m: "v1 * 4 + v2 div 16 = a" unfolding v by (simp add: mult.commute)
  have e: "b64_encode [a] = [b64_char v1, b64_char v2]" unfolding v by simp
  have r: "replicate ((4 - length [b64_char v1, b64_char v2] mod 4) mod 4) 61 = [61, 61 :: nat]" by (simp add: numeral_2_eq_2)
  show ?case unfolding e r using w m by simp
qed simp

text \<open>A text that JSON escapes can carry: no surrogates, nothing beyond the last code point\<close>

definition claim_text :: "pystr \<Rightarrow> bool" where
  "claim_text s \<longleftrightarrow> s \<noteq> [] \<and> list_all (\<lambda>c. \<not> is_surrogate c \<and> c < 0x110000) s"

lemma hex_4_read: "n < 0x10000 \<Longrightarrow> hex4 (hex_4 n @ r) = Some (n, r)"
proof -
  assume n: "n < 0x10000"
  have h: "n div 4096 < 16" using n by auto
  have d: "n div 16 div 16 = n div 256" "n div 256 div 16 = n div 4096" by (simp_all add: div_mult2_eq[symmetric])
  have "16 * (n div 16) + n mod 16 = n" "16 * (n div 256) + n div 16 mod 16 = n div 16" "16 * (n div 4096) + n div 256 mod 16 = n div 256"
    using mult_div_mod_eq[of 16 n] mult_div_mod_eq[of 16 "n div 16"] mult_div_mod_eq[of 16 "n div 256"] unfolding d by simp_all
  then have "4096 * (n div 4096) + 256 * (n div 256 mod 16) + 16 * (n div 16 mod 16) + n mod 16 = n" by linarith
  then show ?thesis using h by (simp add: hex_4_def hex_value_digit)
qed

lemma hex_4_escaped: "hex4 (hex_4 n @ r) = Some (n, r)" "length (hex_4 n) = 4" if "n < 0x10000"
  using that hex_4_read by (simp_all add: hex_4_def del: hex4.simps)

lemma ascii_char_cases:
  assumes "\<not> is_surrogate c" "c < 0x110000"
  obtains (short) e where "ascii_char c = [92, e]" "e \<noteq> 117" "simple_escape e = Some c" "e < 128"
  | (plain) "ascii_char c = [c]" "c \<noteq> 92" "c \<noteq> 34" "\<not> c < 0x20" "c < 128"
  | (escaped) "ascii_char c = 92 # 117 # hex_4 c" "c < 0x10000"
  | (pair) "ascii_char c = 92 # 117 # hex_4 (0xD800 + (c - 0x10000) div 1024) @ 92 # 117 # hex_4 (0xDC00 + (c - 0x10000) mod 1024)" "0x10000 \<le> c"
proof (cases "c \<in> {8, 9, 10, 12, 13, 34, 92}")
  case True
  then have "\<exists>e. ascii_char c = [92, e] \<and> e \<noteq> 117 \<and> simple_escape e = Some c \<and> e < 128"
    by (auto simp: ascii_char_def STRING_ESCAPES_def simple_escape_def)
  with short show ?thesis by blast
next
  case False
  then have "map_of STRING_ESCAPES c = None" by (simp add: STRING_ESCAPES_def)
  with False plain escaped pair show ?thesis by (cases "32 \<le> c \<and> c \<le> 126"; cases "c < 0x10000") (auto simp: ascii_char_def)
qed

lemma scan_ascii_char:
  assumes "\<not> is_surrogate c" "c < 0x110000"
  shows "scan_char (ascii_char c @ r) = Some (c, r)"
  using assms
proof (cases rule: ascii_char_cases)
  case escaped
  then have "\<not> is_high_surrogate c" using assms(1) by (auto simp: is_surrogate_def is_high_surrogate_def)
  with escaped show ?thesis by (simp add: unicode_escape_def hex_4_escaped del: hex4.simps)
next
  case pair
  let ?u = "0xD800 + (c - 0x10000) div 1024" and ?l = "0xDC00 + (c - 0x10000) mod 1024"
  have d: "(c - 0x10000) div 1024 \<le> 0x3FF" "(c - 0x10000) mod 1024 \<le> 0x3FF" using assms(2) by auto
  have b: "?u < 0x10000" "?l < 0x10000" "is_high_surrogate ?u" "is_low_surrogate ?l"
    using d by (simp_all add: is_high_surrogate_def is_low_surrogate_def)
  have s: "0x10000 + (?u - 0xD800) * 1024 + (?l - 0xDC00) = c" using pair(2) by simp
  show ?thesis using s b unfolding pair(1)
    by (simp add: unicode_escape_def hex_4_escaped is_high_surrogate_def is_low_surrogate_def del: hex4.simps)
qed auto

lemma scan_ascii_text:
  "list_all (\<lambda>c. \<not> is_surrogate c \<and> c < 0x110000) s \<Longrightarrow> scan_string (concat (List.map ascii_char s) @ 34 # r) = Some (s, r)"
proof (induction s)
  case (Cons c s)
  then have c: "\<not> is_surrogate c" "c < 0x110000" by simp_all
  obtain a b where ab: "ascii_char c = a # b" "a \<noteq> 34" using c by (cases rule: ascii_char_cases) auto
  have "scan_char (ascii_char c @ concat (List.map ascii_char s) @ 34 # r) = Some (c, concat (List.map ascii_char s) @ 34 # r)"
    by (rule scan_ascii_char[OF c])
  with ab Cons show ?case by (subst scan_string.simps) (simp del: scan_char.simps)
qed (simp add: scan_string.simps)

lemma reads_ascii: "list_all (\<lambda>c. \<not> is_surrogate c \<and> c < 0x110000) s \<Longrightarrow> reads pf (ascii_text s) (PyStr s)"
  by (rule readsI) (auto simp: ascii_text_def scan_ascii_text is_ws_def)

lemma hex_4_ascii: "n < 0x10000 \<Longrightarrow> list_all (\<lambda>c. 1 \<le> c \<and> c < 128) (hex_4 n)"
proof -
  assume "n < 0x10000"
  then have "n div 4096 < 16" by auto
  moreover have "1 \<le> hex_digit k \<and> hex_digit k < 128" if "k < 16" for k using that by (simp add: hex_digit_def)
  ultimately show ?thesis by (simp add: hex_4_def)
qed

lemma ascii_char_ascii:
  assumes "\<not> is_surrogate c" "c < 0x110000"
  shows "list_all (\<lambda>c. 1 \<le> c \<and> c < 128) (ascii_char c)"
  using assms
proof (cases rule: ascii_char_cases)
  case (short e)
  have "e \<noteq> 0" using short(3) by (intro notI) (simp add: simple_escape_def)
  with short show ?thesis by simp
next
  case escaped
  then show ?thesis using hex_4_ascii by simp
next
  case pair
  have "0xD800 + (c - 0x10000) div 1024 < 0x10000" "0xDC00 + (c - 0x10000) mod 1024 < (0x10000 :: nat)" using assms(2) by auto
  then show ?thesis using pair hex_4_ascii by simp
qed auto

lemma ascii_text_ascii: "list_all (\<lambda>c. \<not> is_surrogate c \<and> c < 0x110000) s \<Longrightarrow> list_all (\<lambda>c. 1 \<le> c \<and> c < 128) (ascii_text s)"
  using ascii_char_ascii by (auto simp: ascii_text_def list_all_iff)

text \<open>Members of the object that a claims text is\<close>

definition claims_document :: "(string \<times> pystr) list \<Rightarrow> pydict" where
  "claims_document claims = List.map (\<lambda>(k, v). (KStr (U k), PyStr v)) (sort_key (\<lambda>kv. KStr (U (fst kv))) claims)"

lemma sorted_names: "distinct (List.map fst (sort_key f xs)) \<longleftrightarrow> distinct (List.map fst xs)"
  by (rule mset_eq_imp_distinct_iff) simp

lemma claims_text_reads:
  assumes "list_all (\<lambda>(k, v). list_all (\<lambda>c. \<not> is_surrogate c \<and> c < 0x110000) v) claims" "distinct (List.map fst claims)"
  shows "reads pf (claims_text claims) (PyDict (claims_document claims))"
proof -
  let ?s = "sort_key (\<lambda>kv. KStr (U (fst kv))) claims"
  let ?ms = "List.map (\<lambda>(k, v). (KStr (U k), ascii_text v)) ?s" and ?ps = "List.map (\<lambda>(k, v). (U k, PyStr v)) ?s"
  have sort: "sort_key fst (List.map (\<lambda>(k, v). (KStr (U k), ascii_text v)) claims) = ?ms"
    by (simp add: sort_key_map case_prod_unfold)
  have t: "claims_text claims = 123 # join_commas (List.map member_text ?ms) @ [125]"
    unfolding claims_text_def join_members_alt sort ..
  have "list_all2 (\<lambda>kt kv. fst kt = KStr (fst kv) \<and> reads pf (snd kt) (snd kv)) ?ms ?ps"
    using assms(1) by (fastforce simp: list.rel_map list_all_iff intro!: list.rel_refl_strong reads_ascii)
  note r = reads_object[OF this]
  have i: "inj U" by (auto simp: inj_def)
  have d: "distinct (List.map fst ?s)" using assms(2) by (simp add: sorted_names)
  have "distinct (List.map KStr (List.map U (List.map fst ?s)))"
    using d i by (simp add: distinct_map inj_on_def)
  then have "dict_of_pairs ?ps = claims_document claims"
    unfolding dict_of_pairs_def claims_document_def
    by (subst dict_update_distinct) (simp_all add: comp_def case_prod_unfold)
  with r show ?thesis unfolding t by simp
qed

lemma claims_get:
  assumes "distinct (List.map fst claims)" "(k, v) \<in> set claims"
  shows "dict_get (U k) (claims_document claims) = Some (PyStr v)"
proof -
  have g: "dict_get (U k) (List.map (\<lambda>(k, v). (KStr (U k), PyStr v)) kvs) = map_option PyStr (map_of kvs k)" for kvs
    by (induction kvs) auto
  have "distinct (List.map fst (sort_key (\<lambda>kv. KStr (U (fst kv))) claims))"
    using assms(1) by (simp add: sorted_names)
  then have "map_of (sort_key (\<lambda>kv. KStr (U (fst kv))) claims) k = Some v"
    using assms(2) by (simp add: map_of_eq_Some_iff)
  then show ?thesis by (simp add: claims_document_def g)
qed

section \<open>What is signed verifies\<close>

text \<open>What is relied on: a keyed hash is written without dots in ASCII, and ASCII bytes without zeros are the
  text that \<open>json.loads\<close> reads.\<close>

definition token_env_ok :: "token_env \<Rightarrow> bool" where
  "token_env_ok T \<longleftrightarrow> (\<forall>k p. list_all (\<lambda>c. c \<noteq> 46 \<and> c < 128) (tk_hmac T k p))
     \<and> (\<forall>bs. list_all (\<lambda>b. 1 \<le> b \<and> b < 128) bs \<longrightarrow> tk_text T bs = Some bs)"

lemma claims_text_ascii:
  assumes "list_all (\<lambda>(k, v). list_all (\<lambda>c. \<not> is_surrogate c \<and> c < 0x110000) v) claims"
    "list_all (\<lambda>(k, v). list_all (\<lambda>c. 1 \<le> c \<and> c < 128) (quote_text (U k))) claims"
  shows "list_all (\<lambda>c. 1 \<le> c \<and> c < 128) (claims_text claims)"
proof -
  have j: "list_all P (join_commas ts)" if "list_all (list_all P) ts" "P 44" for P ts
    using that by (induction ts rule: join_commas.induct) auto
  have m: "list_all (\<lambda>c. 1 \<le> c \<and> c < 128) (member_text (KStr (U k), ascii_text v))" if "(k, v) \<in> set claims" for k v
    using that assms ascii_text_ascii[of v] by (fastforce simp: member_text_def list_all_iff)
  have "list_all (list_all (\<lambda>c. 1 \<le> c \<and> c < 128)) (List.map member_text (sort_key fst (List.map (\<lambda>(k, v). (KStr (U k), ascii_text v)) claims)))"
    using m by (fastforce simp: list_all_iff)
  from j[OF this] show ?thesis by (simp add: claims_text_def join_members_alt)
qed

lemma signed_verifies:
  assumes "token_env_ok T" "list_all (\<lambda>(k, v). claim_text v) claims" "distinct (List.map fst claims)"
    "list_all (\<lambda>(k, v). list_all (\<lambda>c. 1 \<le> c \<and> c < 128) (quote_text (U k))) claims" "46 \<notin> set version"
  shows "verify_signed T key version (PyStr (sign_token T key version claims)) = Inr (claims_document claims)"
proof -
  have v: "list_all (\<lambda>(k, v). list_all (\<lambda>c. \<not> is_surrogate c \<and> c < 0x110000) v) claims"
    using assms(2) by (auto simp: list_all_iff claim_text_def)
  note ascii = claims_text_ascii[OF v assms(4)]
  have b: "list_all (\<lambda>b. b < 256) (claims_text claims)" using ascii by (auto simp: list_all_iff)
  note chars = b64_encode_chars[OF b]
  have p: "46 \<notin> set (encode_payload claims)" "isascii (encode_payload claims)"
    using chars by (auto simp: encode_payload_def isascii_def list_all_iff)
  have m: "46 \<notin> set (tk_hmac T key (encode_payload claims))" "isascii (tk_hmac T key (encode_payload claims))"
    using assms(1) by (auto simp: token_env_ok_def isascii_def list_all_iff)
  have s: "split_on 46 (sign_token T key version claims) = [version, encode_payload claims, tk_hmac T key (encode_payload claims)]"
    by (simp add: sign_token_def Let_def split_on_first[OF assms(5)] split_on_first[OF p(1)] split_on_none[OF m(1)])
  have d: "decode_token_payload (encode_payload claims) = Some (claims_text claims)"
    using p(2) a2b_encode[OF b] by (simp add: decode_token_payload_def encode_payload_def)
  have t: "tk_text T (claims_text claims) = Some (claims_text claims)" using assms(1) ascii by (simp add: token_env_ok_def)
  have j: "json_loads (tk_float T) (claims_text claims) = Some (PyDict (claims_document claims))"
    by (rule json_loads_reads[OF claims_text_reads[OF v assms(3)]])
  show ?thesis by (simp add: verify_signed_def s p(2) m(2) d t j)
qed

definition claims_ok :: "grant_claims \<Rightarrow> bool" where
  "claims_ok c \<longleftrightarrow> list_all claim_text [cl_grant_id c, cl_grant_event_id c, cl_worker_id c, cl_task_id c, cl_attempt_id c, cl_run_id c,
     cl_nonce c, cl_project_id c, cl_image_digest c, cl_config_digest c, cl_exp c]"

lemma claim_members_facts:
  "distinct (List.map fst (claim_members c))"
  "list_all (\<lambda>(k, v). list_all (\<lambda>c. 1 \<le> c \<and> c < 128) (quote_text (U k))) (claim_members c)"
  "46 \<notin> set GRANT_TOKEN_VERSION"
proof -
  have "list_all (\<lambda>k. list_all (\<lambda>c. 1 \<le> c \<and> c < 128) (quote_text (U k))) [''v'', ''keyId'', ''grantId'', ''grantEventId'', ''workerId'',
      ''taskId'', ''attemptId'', ''runId'', ''nonce'', ''exp'', ''projectId'', ''imageDigest'', ''configDigest'']" by code_simp
  then show "list_all (\<lambda>(k, v). list_all (\<lambda>c. 1 \<le> c \<and> c < 128) (quote_text (U k))) (claim_members c)"
    by (simp add: claim_members_def)
  show "distinct (List.map fst (claim_members c))" by (simp add: claim_members_def)
  show "46 \<notin> set GRANT_TOKEN_VERSION" by code_simp
qed

text \<open>An accepted token was signed with the key: its mac is the keyed hash of its payload.\<close>

lemma verify_signedD:
  assumes "verify_signed T key version token = Inr d"
  shows "\<exists>payload. token = PyStr (version @ 46 # payload @ 46 # tk_hmac T key payload)
    \<and> Option.bind (decode_token_payload payload) (\<lambda>bytes. Option.bind (tk_text T bytes) (json_loads (tk_float T))) = Some (PyDict d)"
proof -
  have join: "split_on c s = ws \<Longrightarrow> s = concat (List.map (\<lambda>w. w @ [c]) (butlast ws)) @ last ws \<and> ws \<noteq> []" for c s ws
    by (induction c s arbitrary: ws rule: split_on.induct) (auto split: if_splits list.splits)
  obtain s where s: "token = PyStr s" using assms by (cases token) (simp_all add: verify_signed_def)
  from assms s obtain ver payload mac where w: "split_on 46 s = [ver, payload, mac]"
    by (auto simp: verify_signed_def split: list.splits)
  from assms s w have v: "ver = version" "mac = tk_hmac T key payload"
    "Option.bind (decode_token_payload payload) (\<lambda>bytes. Option.bind (tk_text T bytes) (json_loads (tk_float T))) = Some (PyDict d)"
    by (auto simp: verify_signed_def split: if_splits option.splits pyval.splits)
  have "s = version @ 46 # payload @ 46 # tk_hmac T key payload" using join[OF w] v by simp
  with s v show ?thesis by blast
qed

lemma grant_token_verifies:
  assumes "token_env_ok T" "length key = HMAC_KEY_BYTES" "claims_ok c" "claim_instant T (cl_exp c) = Inr x"
  shows "issue_grant_token T key c = Inr (sign_token T key GRANT_TOKEN_VERSION (claim_members c))"
    "verify_grant_token T key (PyStr (sign_token T key GRANT_TOKEN_VERSION (claim_members c))) now live
      = (if live \<and> x \<le> now then refuse_token ''grant-expired'' else Inr c)"
proof -
  have l: "list_all (\<lambda>(k, v). claim_text v) (claim_members c)"
  proof -
    have "claim_text GRANT_TOKEN_VERSION" "claim_text TOKEN_KEY_ID" by code_simp+
    then show ?thesis using assms(3) by (simp add: claim_members_def claims_ok_def)
  qed
  note v = signed_verifies[OF assms(1) l claim_members_facts(1,2,3), of key]
  have g: "dict_get (U k) (claims_document (claim_members c)) = Some (PyStr y)" if "(k, y) \<in> set (claim_members c)" for k y
    by (rule claims_get[OF claim_members_facts(1) that])
  have ne: "y \<noteq> []" if "claim_text y" for y using that by (simp add: claim_text_def)
  have r: "required_claim (claims_document (claim_members c)) k = Inr y" if "(k, y) \<in> set (claim_members c)" for k y
    using g[OF that] l that ne by (auto simp: required_claim_def list_all_iff)
  have rs: "required_claim (claims_document (claim_members c)) ''grantId'' = Inr (cl_grant_id c)"
    "required_claim (claims_document (claim_members c)) ''grantEventId'' = Inr (cl_grant_event_id c)"
    "required_claim (claims_document (claim_members c)) ''workerId'' = Inr (cl_worker_id c)"
    "required_claim (claims_document (claim_members c)) ''taskId'' = Inr (cl_task_id c)"
    "required_claim (claims_document (claim_members c)) ''attemptId'' = Inr (cl_attempt_id c)"
    "required_claim (claims_document (claim_members c)) ''runId'' = Inr (cl_run_id c)"
    "required_claim (claims_document (claim_members c)) ''nonce'' = Inr (cl_nonce c)"
    "required_claim (claims_document (claim_members c)) ''keyId'' = Inr TOKEN_KEY_ID"
    "required_claim (claims_document (claim_members c)) ''projectId'' = Inr (cl_project_id c)"
    "required_claim (claims_document (claim_members c)) ''imageDigest'' = Inr (cl_image_digest c)"
    "required_claim (claims_document (claim_members c)) ''configDigest'' = Inr (cl_config_digest c)"
    by (rule r, simp add: claim_members_def)+
  have e: "dict_get (U ''exp'') (claims_document (claim_members c)) = Some (PyStr (cl_exp c))"
    by (rule g) (simp add: claim_members_def)
  have k: "require_hmac_key key = Inr ()" using assms(2) by (simp add: require_hmac_key_def check_r_def)
  show "verify_grant_token T key (PyStr (sign_token T key GRANT_TOKEN_VERSION (claim_members c))) now live
      = (if live \<and> x \<le> now then refuse_token ''grant-expired'' else Inr c)"
    using assms(4) by (simp add: verify_grant_token_def k v e rs)
  show "issue_grant_token T key c = Inr (sign_token T key GRANT_TOKEN_VERSION (claim_members c))" by (simp add: issue_grant_token_def k)
qed

text \<open>C33: A grant token that the plane issues is accepted, and gives back exactly the claims it was issued with: always when
  liveness is not asked for, and otherwise until the instant it names.  Whatever the claims hold, quotes, dots or letters beyond
  ASCII, is carried through JSON, base64 and the split at the dots.\<close>

theorem grant_token_roundtrip:
  assumes "token_env_ok T" "length key = HMAC_KEY_BYTES" "claims_ok c" "claim_instant T (cl_exp c) = Inr x"
  shows "\<exists>t. issue_grant_token T key c = Inr t \<and> verify_grant_token T key (PyStr t) now False = Inr c
    \<and> verify_grant_token T key (PyStr t) now True = (if x \<le> now then refuse_token ''grant-expired'' else Inr c)"
  using grant_token_verifies[OF assms] by simp

definition sample_tokens :: token_env where
  "sample_tokens = \<lparr>tk_hmac = (\<lambda>k p. replicate 64 48), tk_text = Some, tk_float = FFin,
     tk_other_iso = (\<lambda>_. Inl (WorkerGrantError (U ''grant-exp-invalid'')))\<rparr>"

definition sample_claims :: grant_claims where
  "sample_claims = \<lparr>cl_grant_id = U ''g'', cl_grant_event_id = U ''e.1'', cl_worker_id = [233, 34], cl_task_id = U ''t'', cl_attempt_id = U ''a'',
     cl_run_id = U ''r'', cl_nonce = U ''n'', cl_project_id = U ''p'', cl_image_digest = U ''i'', cl_config_digest = U ''c'',
     cl_exp = U ''2026-01-02T03:04:05Z''\<rparr>"

lemma sample_tokens_ok: "token_env_ok sample_tokens" "length (replicate 32 0) = HMAC_KEY_BYTES" "claims_ok sample_claims"
proof -
  show "token_env_ok sample_tokens" by (simp add: token_env_ok_def sample_tokens_def list_all_iff)
  show "length (replicate 32 0) = HMAC_KEY_BYTES" by (simp add: HMAC_KEY_BYTES_def)
  show "claims_ok sample_claims" by code_simp
qed

theorem grant_token_roundtrip_witness:
  "\<exists>t. issue_grant_token sample_tokens (replicate 32 0) sample_claims = Inr t
     \<and> verify_grant_token sample_tokens (replicate 32 0) (PyStr t) 5 True = Inr sample_claims"
proof -
  have "case claim_instant sample_tokens (cl_exp sample_claims) of Inr x \<Rightarrow> \<not> x \<le> 5 | Inl e \<Rightarrow> False" by code_simp
  then obtain x where x: "claim_instant sample_tokens (cl_exp sample_claims) = Inr x" "\<not> x \<le> 5"
    by (cases "claim_instant sample_tokens (cl_exp sample_claims)") auto
  from grant_token_roundtrip[OF sample_tokens_ok x(1), of 5] x(2) show ?thesis by auto
qed

end
