(* ===== verification/Control_Calls.thy ===== *)
theory Control_Calls
  imports Fold_Control Run_Control
begin

text \<open>
  Operations that call several controls one after the other.  Between two calls other connections
  act, and every call reads the clock again; a \<open>turn\<close> is one call's share of this.  Whatever a call
  returns, the store stays intact and the log only grows.
\<close>

record turn =
  tn_before :: "store \<Rightarrow> store"
  tn_freeze :: pydatetime
  tn_others :: "store \<Rightarrow> store"
  tn_others' :: "store \<Rightarrow> store"
  tn_commit :: pydatetime
  tn_stamp :: int

definition turn_ok :: "env \<Rightarrow> turn \<Rightarrow> bool" where
  "turn_ok env w \<longleftrightarrow> grows env (tn_before w) \<and> grows env (tn_others w) \<and> grows env (tn_others' w)
     \<and> tn_freeze w \<noteq> Naive \<and> clock_ok (tn_commit w)"

definition ready :: "env \<Rightarrow> store \<Rightarrow> bool" where
  "ready env s \<longleftrightarrow> store_inv env s \<and> report_ok env s"

definition later :: "env \<Rightarrow> store \<Rightarrow> store \<Rightarrow> bool" where
  "later env s t \<longleftrightarrow> ready env t \<and> prefix (facts env s) (facts env t)"

lemma log_later_refl: "ready env s \<Longrightarrow> later env s s"
  by (simp add: later_def)

lemma log_later_trans: "later env s t \<Longrightarrow> later env t u \<Longrightarrow> later env s u"
  unfolding later_def by (blast intro: prefix_order.trans)

lemma later_ready: "later env s t \<Longrightarrow> ready env t"
  by (simp add: later_def)

lemma grows_later: "grows env f \<Longrightarrow> ready env s \<Longrightarrow> later env s (f s)"
  by (simp add: grows_def ready_def later_def)

lemma same_facts_later: "ready env s \<Longrightarrow> db_events t = db_events s \<Longrightarrow> db_report t = db_report s \<Longrightarrow> later env s t"
  using store_inv_cong[of t s] by (simp add: later_def ready_def report_ok_def verify_schema_def facts_def)

lemma append_store_report: "db_report (fst (append_store env now d h s)) = db_report s"
  by (auto simp: append_store_def append_checked_def append_transaction_def bind_r_Inr_iff insert_event_def replace_checkpoint_def
    check_r_iff lift_option_iff Let_def split: sum.split if_splits)

lemma frozen_fold_later:
  assumes "env_ok env" "now \<noteq> Naive" "ready env s" "page_size_ok page_size" "grows env others"
    "frozen_fold failed step init env now others page_size s = (t, r)"
  shows "later env s t" "r = map_sum id (Pair (int (length (facts env s)))) (fold_r step init (facts env s))"
proof -
  have i: "store_inv env s" "report_ok env s" using assms(3) by (simp_all add: ready_def)
  obtain s1 n where f: "freeze_high_water env now s = Inr (s1, n)" using freeze_total[OF assms(1,2) i] by (auto simp: is_ok_iff)
  note fe = freeze_effect[OF f assms(1,2) i(1)]
  have l: "later env s s1" by (rule same_facts_later[OF assms(3) fe(2,3)])
  have "t = others s1" using assms(6) f by (simp add: frozen_fold_def Let_def)
  then show "later env s t" using log_later_trans[OF l grows_later[OF assms(5) later_ready[OF l]]] by simp
  obtain t' where "frozen_fold failed step init env now others page_size s =
      (t', map_sum id (Pair (int (length (facts env s)))) (fold_r step init (facts env s)))"
    by (rule frozen_fold_exact[OF assms(1,2) i assms(4,5)])
  with assms(6) show "r = map_sum id (Pair (int (length (facts env s)))) (fold_r step init (facts env s))" by simp
qed

lemma append_at_report:
  assumes "append_at err own failed step env now others head document s = (t, r)"
  shows "t = s \<or> db_report t = db_report (others s)"
proof (cases "bind_r (preflight err own (fst head) document) (\<lambda>checked. bind_r (step (snd head) (snd checked)) (\<lambda>_. Inr (fst checked)))")
  case (Inl e)
  then show ?thesis using assms by (simp add: append_at_def)
next
  case (Inr d)
  then have "t = fst (append_store env now (PyDict d) (Some (fst head)) (others s))"
    using assms by (auto simp: append_at_def split: prod.splits)
  then show ?thesis using append_store_report by metis
qed

context log_control
begin

text \<open>A call of \<open>append\<close> that returns: the fact is the drafted one, and the fold of the log took it.\<close>

lemma fold_append_call:
  assumes "env_ok env" "now \<noteq> Naive" "clock_ok now'" "ready env s" "page_size_ok page_size"
    "grows env others" "grows env others'" "draft_ok env document"
    "fold_append err own failed step init env now now' others others' page_size document None s = (t, r)"
  shows "later env s t"
    "r = Inr st \<Longrightarrow> \<exists>y d pre y'. fold_r step init (facts env s) = Inr y
      \<and> preflight err own (int (length (facts env s))) document = Inr (d, pre) \<and> step y pre = Inr y'
      \<and> facts env t = facts env s @ [fact_of st] \<and> fold_r step init (facts env t) = Inr y'
      \<and> (\<exists>m. st_event st = pre\<lparr>e_streamversion := m\<rparr>)"
proof -
  have i: "store_inv env s" "report_ok env s" using assms(4) by (simp_all add: ready_def)
  obtain s1 r1 where f: "frozen_fold failed step init env now others page_size s = (s1, r1)" by fastforce
  note ff = frozen_fold_later[OF assms(1,2,4-6) f]
  note l1 = ff(1)
  have i1: "store_inv env s1" using later_ready[OF l1] by (simp add: ready_def)
  have l2: "later env s (others' s1)" by (rule log_later_trans[OF l1 grows_later[OF assms(7) later_ready[OF l1]]])
  have i2: "store_inv env (others' s1)" using later_ready[OF l2] by (simp add: ready_def)
  have p2: "prefix (facts env s) (facts env (others' s1))" using l2 by (simp add: later_def)
  consider (refused) e where "fold_r step init (facts env s) = Inl e" "t = s1" "r = Inl e"
    | (asked) y where "fold_r step init (facts env s) = Inr y"
        "append_at err own failed step env now' others' (int (length (facts env s)), y) document s1 = (t, r)"
    using assms(9) f ff(2) by (cases "fold_r step init (facts env s)") (auto simp: fold_append_def)
  then have *: "later env s t \<and> (r = Inr st \<longrightarrow> (\<exists>y d pre y'. fold_r step init (facts env s) = Inr y
      \<and> preflight err own (int (length (facts env s))) document = Inr (d, pre) \<and> step y pre = Inr y'
      \<and> facts env t = facts env s @ [fact_of st] \<and> fold_r step init (facts env t) = Inr y'
      \<and> (\<exists>m. st_event st = pre\<lparr>e_streamversion := m\<rparr>)))"
  proof cases
    case refused
    then show ?thesis using l1 by simp
  next
    case asked
    have rep: "t = s1 \<or> db_report t = db_report (others' s1)" by (rule append_at_report[OF asked(2)])
    show ?thesis
    proof (cases r)
      case (Inl e)
      have "t = s1 \<or> t = others' s1" by (rule append_at_refused) (use asked(2) Inl in simp)
      then show ?thesis using l1 l2 Inl by auto
    next
      case (Inr st')
      show ?thesis
      proof (rule append_at_committed[OF asked(1) assms(3,8) i2 p2 asked(2)[unfolded Inr]])
        fix pre y'
        assume a: "store_inv env t" "facts env t = facts env s @ [fact_of st']" "step y pre = Inr y'"
          "fold_r step init (facts env t) = Inr y'" "\<exists>m. st_event st' = pre\<lparr>e_streamversion := m\<rparr>"
          "\<exists>d. preflight err own (int (length (facts env s))) document = Inr (d, pre)"
        have "report_ok env t"
          using rep later_ready[OF l1] later_ready[OF l2] by (auto simp: ready_def report_ok_def verify_schema_def)
        then have "later env s t" using a(1,2) by (simp add: later_def ready_def)
        then show ?thesis using a asked(1) Inr by blast
      qed
    qed
  qed
  then show "later env s t" by blast
  show "r = Inr st \<Longrightarrow> \<exists>y d pre y'. fold_r step init (facts env s) = Inr y
      \<and> preflight err own (int (length (facts env s))) document = Inr (d, pre) \<and> step y pre = Inr y'
      \<and> facts env t = facts env s @ [fact_of st] \<and> fold_r step init (facts env t) = Inr y'
      \<and> (\<exists>m. st_event st = pre\<lparr>e_streamversion := m\<rparr>)" using * by blast
qed

end

lemma rebuild_later:
  assumes "env_ok env" "now \<noteq> Naive" "ready env s" "page_size_ok (rc_page_size c)" "grows env others"
    "rebuild env now others c s = (t, r)"
  shows "later env s t"
    "r = map_sum RunFailed (\<lambda>snap. \<lparr>rh_last_sequence = int (length (facts env s)), rh_snapshot = snap\<rparr>)
      (fold_run (rc_projection c) None (facts env s))"
proof -
  have i: "store_inv env s" "report_ok env s" using assms(3) by (simp_all add: ready_def)
  obtain s1 s2 n where f: "freeze_high_water env now s = Inr (s1, n)" "n = int (length (db_events s))"
    "db_events s1 = db_events s" "writable s1 = writable s" "rebuild env now others c s = (s2, map_sum RunFailed
        (\<lambda>snap. \<lparr>rh_last_sequence = n, rh_snapshot = snap\<rparr>) (fold_run (rc_projection c) None (facts env s)))"
    "same_but_cache (others s1) s2"
    by (rule rebuild_effect[OF assms(1,2) i assms(4,5)])
  have l: "later env s s1" by (rule same_facts_later[OF assms(3) f(3) freeze_effect(3)[OF f(1) assms(1,2) i(1)]])
  note l2 = log_later_trans[OF l grows_later[OF assms(5) later_ready[OF l]]]
  have "later env (others s1) s2"
    by (rule same_facts_later[OF later_ready[OF l2] same_but_cacheD(1,2)[OF f(6)]])
  from log_later_trans[OF l2 this] show "later env s t" using f(5) assms(6) by simp
  show "r = map_sum RunFailed (\<lambda>snap. \<lparr>rh_last_sequence = int (length (facts env s)), rh_snapshot = snap\<rparr>)
      (fold_run (rc_projection c) None (facts env s))" using f(2,5) assms(6) by simp
qed

end
