(* ===== verification/Worker_Plane.thy ===== *)
theory Worker_Plane
  imports Worker_Drafts Worker_Tokens Control_Calls
begin

text \<open>
  \<open>WorkerPlane\<close> of \<open>workers/plane.py\<close>: it hands queued work to the worker whose grant token it is shown and
  settles leases.  Its state is the store and the heartbeats; the artifact store is a test of digests.
  The execution digest is that of \<open>workers/binding.py\<close>, the cancel flag that of \<open>workers/recovery.py\<close>.
  An operation runs over the store and returns or raises; each of its calls has a turn of its own.
\<close>

section \<open>Operations\<close>

definition bind_p :: "('s \<Rightarrow> 's \<times> ('e + 'a)) \<Rightarrow> ('a \<Rightarrow> 's \<Rightarrow> 's \<times> ('e + 'b)) \<Rightarrow> 's \<Rightarrow> 's \<times> ('e + 'b)" where
  "bind_p m f s = (case m s of (s', Inl e) \<Rightarrow> (s', Inl e) | (s', Inr x) \<Rightarrow> f x s')"

definition lift_p :: "'e + 'a \<Rightarrow> 's \<Rightarrow> 's \<times> ('e + 'a)" where
  "lift_p r s = (s, r)"

text \<open>The exceptions that leave an operation: the classes of \<open>workers/errors.py\<close>, the crashes of a token that is
  not ASCII, a digest of what is not I-JSON, and the errors of the run control and the store.\<close>

datatype plane_error =
    PlaneWorker worker_error
  | PlaneTokenCrash token_failure
  | PlaneDigest jcs_error
  | PlaneRun control_error
  | PlaneStore store_error

abbreviation plane_call_error :: "string \<Rightarrow> plane_error" where
  "plane_call_error code \<equiv> PlaneWorker (WorkerCallError (U code))"

abbreviation plane_grant_error :: "string \<Rightarrow> plane_error" where
  "plane_grant_error code \<equiv> PlaneWorker (WorkerGrantError (U code))"

definition token_error :: "token_failure \<Rightarrow> plane_error" where
  "token_error f = (case f of TokenRefused e \<Rightarrow> PlaneWorker e | _ \<Rightarrow> PlaneTokenCrash f)"

record plane =
  pl_env :: env
  pl_tokens :: token_env
  pl_artifact_verifies :: "pystr \<Rightarrow> bool"
  pl_hmac_key :: "nat list"
  pl_project_id :: pystr
  pl_source :: pystr
  pl_experiment_revision :: int
  pl_lease_seconds :: int

record plane_state =
  ps_store :: store
  ps_heartbeats :: "pystr \<rightharpoonup> int"

definition CONTROL_PAGE_SIZE :: int where "CONTROL_PAGE_SIZE = 100"

definition plane_rebuild :: "plane \<Rightarrow> turn \<Rightarrow> plane_state \<Rightarrow> plane_state \<times> (plane_error + worker_fold)" where
  "plane_rebuild P w \<sigma> =
     (case worker_rebuild (pl_env P) (tn_freeze w) (tn_others w) (pl_project_id P) CONTROL_PAGE_SIZE (tn_before w (ps_store \<sigma>)) of
        (s, r) \<Rightarrow> (\<sigma>\<lparr>ps_store := s\<rparr>, map_sum PlaneWorker snd r))"

definition plane_append :: "plane \<Rightarrow> turn \<Rightarrow> pydict \<Rightarrow> plane_state \<Rightarrow> plane_state \<times> (plane_error + stored_event)" where
  "plane_append P w draft \<sigma> =
     (case worker_append (pl_env P) (tn_freeze w) (tn_commit w) (tn_others w) (tn_others' w) (pl_project_id P) CONTROL_PAGE_SIZE
         (PyDict draft) None (tn_before w (ps_store \<sigma>)) of
        (s, r) \<Rightarrow> (\<sigma>\<lparr>ps_store := s\<rparr>, map_sum PlaneWorker id r))"

definition plane_get_event :: "plane \<Rightarrow> turn \<Rightarrow> pystr \<Rightarrow> plane_state \<Rightarrow> plane_state \<times> (plane_error + stored_event option)" where
  "plane_get_event P w i \<sigma> = (let s = tn_before w (ps_store \<sigma>) in (\<sigma>\<lparr>ps_store := s\<rparr>, map_sum PlaneStore id (get_event (pl_env P) i s)))"

definition beat :: "pystr \<Rightarrow> int \<Rightarrow> plane_state \<Rightarrow> plane_state \<times> (plane_error + unit)" where
  "beat lease_id now \<sigma> = (\<sigma>\<lparr>ps_heartbeats := (ps_heartbeats \<sigma>)(lease_id \<mapsto> now)\<rparr>, Inr ())"

section \<open>Instants as text\<close>

text \<open>\<open>format_rfc3339\<close>: the UTC date and time of an instant, to the second, the year with four digits (before the
  year 1000 \<open>strftime\<close> leaves this to the platform).  The year is found from below.\<close>

function year_from :: "nat \<Rightarrow> nat \<Rightarrow> nat" where
  "year_from y n = (if days_before_year (Suc y) \<le> n then year_from (Suc y) n else y)"
  by pat_completeness auto

lemma days_before_year_grows: "days_before_year (Suc y) < days_before_year (Suc (Suc y))"
  using days_before_year_Suc[of "Suc y"] by simp

termination year_from
proof (relation "measure (\<lambda>(y, n). Suc n - days_before_year (Suc y))", goal_cases)
  case (2 y n)
  then show ?case using days_before_year_grows[of y] by (simp only: in_measure prod.case) (linarith)?
qed simp

declare year_from.simps [simp del]

definition utc_of :: "int \<Rightarrow> utc_time" where
  "utc_of t =
     (let n = nat t; days = n div 86400000000; y = year_from (days div 366 + 1) days; r = days - days_before_year y;
          m = last (List.filter (\<lambda>m. days_before_month y m \<le> r) [1..<13])
      in \<lparr>t_year = y, t_month = m, t_day = r - days_before_month y m + 1, t_hour = n div 3600000000 mod 24,
          t_minute = n div 60000000 mod 60, t_second = n div 1000000 mod 60, t_micro = n mod 1000000\<rparr>)"

definition format_rfc3339 :: "int \<Rightarrow> pystr" where
  "format_rfc3339 instant =
     (let t = utc_of instant in
      pad_digits 4 (t_year t) @ [45] @ pad_digits 2 (t_month t) @ [45] @ pad_digits 2 (t_day t) @ [84] @ pad_digits 2 (t_hour t)
        @ [58] @ pad_digits 2 (t_minute t) @ [58] @ pad_digits 2 (t_second t) @ [90])"

section \<open>Execution objects\<close>

definition PYTHON_BRICK_CAPABILITY :: pystr where "PYTHON_BRICK_CAPABILITY = U ''execute.local''"
definition OCI_BRICK_CAPABILITY :: pystr where "OCI_BRICK_CAPABILITY = U ''execute.oci''"
definition GPU_TRAINING_CAPABILITY :: pystr where "GPU_TRAINING_CAPABILITY = U ''execute.gpu''"
definition MPS_TRAINING_CAPABILITY :: pystr where "MPS_TRAINING_CAPABILITY = U ''execute.mps''"
definition NATIVE_REVIEWED_CAPABILITY :: pystr where "NATIVE_REVIEWED_CAPABILITY = U ''execute.native''"

definition RUNTIME_MEDIA :: "((pystr \<times> pystr) \<times> pystr) list" where
  "RUNTIME_MEDIA =
     [((WORKER_RUNTIME_PYTHON_SANDBOX, IMAGE_MEDIA_PYTHON_BRICK), PYTHON_BRICK_CAPABILITY),
      ((WORKER_RUNTIME_OCI_CONTAINER, IMAGE_MEDIA_OCI_IMAGE), OCI_BRICK_CAPABILITY),
      ((WORKER_RUNTIME_GPU_OCI, IMAGE_MEDIA_OCI_IMAGE), GPU_TRAINING_CAPABILITY),
      ((WORKER_RUNTIME_MACOS_MPS, IMAGE_MEDIA_MPS_ENV), MPS_TRAINING_CAPABILITY),
      ((WORKER_RUNTIME_NATIVE_REVIEWED, IMAGE_MEDIA_NATIVE_REVIEWED), NATIVE_REVIEWED_CAPABILITY)]"

definition brick_execution_document :: "pystr \<Rightarrow> pydict \<Rightarrow> pydict \<Rightarrow> pystr \<Rightarrow> pystr \<Rightarrow> plane_error + pydict" where
  "brick_execution_document image_digest config inputs media runtime =
     (if map_of RUNTIME_MEDIA (runtime, media) = None then Inl (plane_call_error ''execution-binding-mismatch'')
      else Inr [(KStr (U ''config''), PyDict config), (KStr (U ''imageDigest''), PyStr image_digest),
        (KStr (U ''imageMediaType''), PyStr media), (KStr (U ''inputs''), PyDict inputs), (KStr (U ''runtime''), PyStr runtime)])"

definition brick_execution_digest :: "(pystr \<Rightarrow> pystr) \<Rightarrow> pystr \<Rightarrow> pydict \<Rightarrow> pydict \<Rightarrow> pystr \<Rightarrow> pystr \<Rightarrow> plane_error + pystr" where
  "brick_execution_digest sha image_digest config inputs media runtime =
     (if (runtime, media) = (WORKER_RUNTIME_NATIVE_REVIEWED, IMAGE_MEDIA_NATIVE_REVIEWED) then
        (if inputs \<noteq> [] \<or> (case dict_get (U ''code'') config of
              Some (PyDict code) \<Rightarrow> dict_get (U ''bundleDigest'') code \<noteq> Some (PyStr image_digest)
            | _ \<Rightarrow> True)
         then Inl (plane_call_error ''execution-binding-mismatch'')
         else map_sum PlaneDigest id (content_digest sha (PyDict config)))
      else bind_r (brick_execution_document image_digest config inputs media runtime) (\<lambda>document.
        map_sum PlaneDigest id (content_digest sha (PyDict document))))"

definition require_execution_digest :: "(pystr \<Rightarrow> pystr) \<Rightarrow> queued_work \<Rightarrow> plane_error + unit" where
  "require_execution_digest sha q =
     bind_r (brick_execution_digest sha (qw_image_digest q) (qw_config q) (qw_inputs q) (qw_image_media_type q) (qw_runtime q)) (\<lambda>actual.
     check_r (actual = qw_config_digest q) (plane_call_error ''execution-binding-mismatch''))"

definition text_input :: "queued_work \<Rightarrow> string \<Rightarrow> plane_error + pystr" where
  "text_input q k = (case dict_get (U k) (qw_inputs q) of Some (PyStr s) \<Rightarrow> Inr s
     | _ \<Rightarrow> Inl (plane_call_error ''execution-binding-mismatch''))"

definition cas_fetch_digest :: "pystr \<Rightarrow> queued_work option \<Rightarrow> plane_error + pystr" where
  "cas_fetch_digest image_digest queued = (case queued of
     None \<Rightarrow> Inr image_digest
   | Some q \<Rightarrow>
       if qw_runtime q = WORKER_RUNTIME_PYTHON_SANDBOX \<or> qw_runtime q = WORKER_RUNTIME_NATIVE_REVIEWED then Inr image_digest
       else if qw_runtime q = WORKER_RUNTIME_OCI_CONTAINER then text_input q ''brickDigest''
       else if qw_runtime q = WORKER_RUNTIME_GPU_OCI then text_input q ''planArtifactDigest''
       else if qw_runtime q = WORKER_RUNTIME_MACOS_MPS then text_input q ''planArtifactDigest''
       else Inl (plane_call_error ''execution-binding-mismatch''))"

section \<open>Checks\<close>

definition run_cancel_requested :: "plane \<Rightarrow> turn \<Rightarrow> pystr \<Rightarrow> pystr \<Rightarrow> plane_state \<Rightarrow> plane_state \<times> (plane_error + bool)" where
  "run_cancel_requested P w run attempt \<sigma> =
     (case new_run_control (PyStr (pl_project_id P)) (PyStr run) CONTROL_PAGE_SIZE of
        Inl e \<Rightarrow> (\<sigma>, Inl (PlaneRun e))
      | Inr c \<Rightarrow>
          (case rebuild (pl_env P) (tn_freeze w) (tn_others w) c (tn_before w (ps_store \<sigma>)) of
             (s, r) \<Rightarrow> (\<sigma>\<lparr>ps_store := s\<rparr>, map_sum PlaneRun (\<lambda>head. case rh_snapshot head of
                 None \<Rightarrow> False
               | Some snapshot \<Rightarrow> s_cancellation_requested snapshot
                   \<or> (case find_first (\<lambda>a. a_attempt_id a = attempt) (s_attempts snapshot) of
                        None \<Rightarrow> False | Some a \<Rightarrow> a_cancellation_requested a)) r)))"

definition plane_instant :: "pystr \<Rightarrow> plane_error + int" where
  "plane_instant s = map_sum PlaneWorker id (instant_of s)"

definition plane_claim_instant :: "plane \<Rightarrow> pystr \<Rightarrow> plane_error + int" where
  "plane_claim_instant P s = map_sum PlaneWorker id (claim_instant (pl_tokens P) s)"

definition verify_token :: "plane \<Rightarrow> pyval \<Rightarrow> int \<Rightarrow> bool \<Rightarrow> plane_error + grant_claims" where
  "verify_token P token now live = map_sum token_error id (verify_grant_token (pl_tokens P) (pl_hmac_key P) token now live)"

definition require_live_grant :: "plane \<Rightarrow> grant_record \<Rightarrow> grant_claims \<Rightarrow> int \<Rightarrow> plane_error + unit" where
  "require_live_grant P g c now =
     bind_r (check_r (\<not> gr_revoked g) (plane_grant_error ''grant-revoked'')) (\<lambda>_.
     bind_r (check_r (gr_worker_id g = cl_worker_id c) (plane_grant_error ''grant-worker-mismatch'')) (\<lambda>_.
     bind_r (check_r (cl_project_id c = pl_project_id P) (plane_grant_error ''grant-project-mismatch'')) (\<lambda>_.
     bind_r (check_r (gr_grant_event_id g = cl_grant_event_id c) (plane_grant_error ''grant-event-mismatch'')) (\<lambda>_.
     bind_r (check_r (gr_nonce g = cl_nonce c) (plane_grant_error ''grant-nonce-mismatch'')) (\<lambda>_.
     bind_r (check_r (gr_task_id g = cl_task_id c \<and> gr_run_id g = cl_run_id c \<and> gr_attempt_id g = cl_attempt_id c)
       (plane_grant_error ''grant-task-mismatch'')) (\<lambda>_.
     bind_r (check_r (gr_image_digest g = cl_image_digest c \<and> gr_config_digest g = cl_config_digest c)
       (plane_call_error ''execution-binding-mismatch'')) (\<lambda>_.
     bind_r (plane_instant (gr_expires_at g)) (\<lambda>expires.
     check_r (\<not> expires \<le> now) (plane_grant_error ''grant-expired'')))))))))"

definition require_execution_match :: "plane \<Rightarrow> grant_record \<Rightarrow> queued_work \<Rightarrow> grant_claims option \<Rightarrow> plane_error + unit" where
  "require_execution_match P g q claims =
     bind_r (require_execution_digest (env_sha (pl_env P)) q) (\<lambda>_.
     bind_r (check_r (qw_image_digest q = gr_image_digest g \<and> qw_config_digest q = gr_config_digest g \<and> qw_task_id q = gr_task_id g
         \<and> qw_run_id q = gr_run_id g \<and> qw_attempt_id q = gr_attempt_id g) (plane_call_error ''execution-binding-mismatch'')) (\<lambda>_.
     case claims of
       None \<Rightarrow> Inr ()
     | Some c \<Rightarrow> check_r (cl_image_digest c = gr_image_digest g \<and> cl_config_digest c = gr_config_digest g \<and> cl_task_id c = gr_task_id g
         \<and> cl_run_id c = gr_run_id g \<and> cl_attempt_id c = gr_attempt_id g \<and> cl_project_id c = pl_project_id P)
         (plane_grant_error ''grant-task-mismatch'')))"

definition require_recorded_grant :: "worker_fold \<Rightarrow> pystr \<Rightarrow> plane_error + grant_record" where
  "require_recorded_grant f i = lift_option (plane_grant_error ''unknown-grant'') (fold_grant f i)"

definition bind_result_authorization :: "plane \<Rightarrow> worker_fold \<Rightarrow> pystr \<Rightarrow> pystr \<Rightarrow> grant_claims \<Rightarrow> plane_error + lease_record \<times> grant_record" where
  "bind_result_authorization P f worker_id lease_id c =
     bind_r (check_r (cl_worker_id c = worker_id) (plane_grant_error ''grant-worker-mismatch'')) (\<lambda>_.
     bind_r (check_r (cl_project_id c = pl_project_id P) (plane_grant_error ''grant-project-mismatch'')) (\<lambda>_.
     bind_r (require_recorded_grant f (cl_grant_id c)) (\<lambda>g.
     bind_r (lift_option (plane_call_error ''unknown-lease'') (fold_lease f lease_id)) (\<lambda>l.
     bind_r (check_r (le_worker_id l = worker_id) (plane_call_error ''lease-worker-mismatch'')) (\<lambda>_.
     bind_r (check_r (cl_task_id c = le_task_id l \<and> cl_run_id c = le_run_id l \<and> cl_attempt_id c = le_attempt_id l
         \<and> gr_task_id g = le_task_id l \<and> gr_run_id g = le_run_id l \<and> gr_attempt_id g = le_attempt_id l
         \<and> gr_worker_id g = le_worker_id l \<and> gr_grant_id g = le_grant_id l) (plane_grant_error ''grant-task-mismatch'')) (\<lambda>_.
     bind_r (check_r (gr_grant_event_id g = cl_grant_event_id c \<and> gr_nonce g = cl_nonce c) (plane_grant_error ''grant-nonce-mismatch'')) (\<lambda>_.
     bind_r (check_r (cl_image_digest c = gr_image_digest g \<and> cl_config_digest c = gr_config_digest g)
       (plane_call_error ''execution-binding-mismatch'')) (\<lambda>_. Inr (l, g)))))))))"

definition require_live_result_grant :: "plane \<Rightarrow> grant_record \<Rightarrow> grant_claims \<Rightarrow> lease_record \<Rightarrow> int \<Rightarrow> plane_error + unit" where
  "require_live_result_grant P g c l now =
     bind_r (check_r (\<not> gr_revoked g) (plane_grant_error ''grant-revoked'')) (\<lambda>_.
     bind_r (plane_claim_instant P (cl_exp c)) (\<lambda>exp.
     bind_r (check_r (\<not> exp \<le> now) (plane_grant_error ''grant-expired'')) (\<lambda>_.
     bind_r (plane_instant (gr_expires_at g)) (\<lambda>expires.
     bind_r (check_r (\<not> expires \<le> now) (plane_grant_error ''grant-expired'')) (\<lambda>_.
     bind_r (plane_instant (le_expires_at l)) (\<lambda>lease_expires.
     bind_r (check_r (\<not> lease_expires \<le> now) (plane_call_error ''lease-expired'')) (\<lambda>_.
     check_r (le_status l \<noteq> Failed \<and> le_status l \<noteq> Expired) (plane_call_error ''lease-terminal''))))))))"

definition stale_lease :: "worker_fold \<Rightarrow> pystr \<Rightarrow> pystr \<Rightarrow> int \<Rightarrow> plane_error + lease_record option" where
  "stale_lease f task attempt now =
     (case last_of (List.filter (\<lambda>l. le_task_id l = task \<and> le_attempt_id l = attempt) (wf_leases f)) of
        None \<Rightarrow> Inr None
      | Some latest \<Rightarrow>
          if List.member TERMINAL_LEASE (le_status latest) then Inr None
          else bind_r (plane_instant (le_expires_at latest)) (\<lambda>expires. Inr (if expires \<le> now then Some latest else None)))"

section \<open>Leases\<close>

definition plane_context :: "plane \<Rightarrow> pystr \<Rightarrow> pystr \<Rightarrow> draft_context" where
  "plane_context P event_id time = \<lparr>dx_project_id = pl_project_id P, dx_event_id = event_id, dx_time = time, dx_source = pl_source P,
     dx_revision = pl_experiment_revision P\<rparr>"

definition plane_stamp :: "turn \<Rightarrow> pystr option \<Rightarrow> pystr" where
  "plane_stamp w time = (case time of Some t \<Rightarrow> t | None \<Rightarrow> format_rfc3339 (tn_stamp w))"

record claimed_work =
  cw_lease_id :: pystr
  cw_worker_id :: pystr
  cw_task_id :: pystr
  cw_run_id :: pystr
  cw_attempt_id :: pystr
  cw_grant_id :: pystr
  cw_nonce :: pystr
  cw_image_digest :: pystr
  cw_config_digest :: pystr
  cw_config :: pydict
  cw_inputs :: pydict
  cw_runtime :: pystr
  cw_image_media_type :: pystr
  cw_expires_at :: pystr
  cw_resumed :: bool
  cw_cancel_requested :: bool

definition claimed :: "plane \<Rightarrow> turn \<Rightarrow> lease_record \<Rightarrow> pystr \<Rightarrow> queued_work \<Rightarrow> bool \<Rightarrow> plane_state \<Rightarrow> plane_state \<times> (plane_error + claimed_work)" where
  "claimed P w l nonce q resumed =
     bind_p (run_cancel_requested P w (le_run_id l) (le_attempt_id l)) (\<lambda>cancel.
     lift_p (Inr \<lparr>cw_lease_id = le_lease_id l, cw_worker_id = le_worker_id l, cw_task_id = le_task_id l, cw_run_id = le_run_id l,
       cw_attempt_id = le_attempt_id l, cw_grant_id = le_grant_id l, cw_nonce = nonce, cw_image_digest = qw_image_digest q,
       cw_config_digest = qw_config_digest q, cw_config = qw_config q, cw_inputs = qw_inputs q, cw_runtime = qw_runtime q,
       cw_image_media_type = qw_image_media_type q, cw_expires_at = le_expires_at l, cw_resumed = resumed,
       cw_cancel_requested = cancel\<rparr>))"

definition expire_lease :: "plane \<Rightarrow> turn \<Rightarrow> turn \<Rightarrow> pystr \<Rightarrow> pystr option \<Rightarrow> plane_state \<Rightarrow> plane_state \<times> (plane_error + stored_event)" where
  "expire_lease P w w' lease_id time =
     bind_p (plane_rebuild P w) (\<lambda>f.
     case fold_lease f lease_id of
       None \<Rightarrow> lift_p (Inl (plane_call_error ''unknown-lease''))
     | Some l \<Rightarrow> plane_append P w' (work_lease_expired_draft
         (plane_context P (U ''evt.work.lease.expired.'' @ le_lease_id l) (plane_stamp w' time))
         (le_lease_id l) (le_worker_id l) (le_run_id l) (le_attempt_id l) (U ''lease.expired'')))"

definition consume_grant :: "plane \<Rightarrow> turn \<Rightarrow> int \<Rightarrow> grant_record \<Rightarrow> pystr \<Rightarrow> pystr \<Rightarrow> pystr \<Rightarrow> plane_state \<Rightarrow> plane_state \<times> (plane_error + stored_event)" where
  "consume_grant P w now g lease_id run attempt = plane_append P w (grant_consumed_draft
     (plane_context P (U ''evt.grant.consumed.'' @ gr_grant_id g) (format_rfc3339 now))
     (gr_grant_id g) lease_id (gr_nonce g) run attempt (gr_worker_id g))"

definition claim_lease :: "plane \<Rightarrow> turn \<Rightarrow> int \<Rightarrow> pystr \<Rightarrow> pystr \<Rightarrow> pystr \<Rightarrow> pystr \<Rightarrow> pystr \<Rightarrow> plane_state \<Rightarrow> plane_state \<times> (plane_error + stored_event)" where
  "claim_lease P w now lease_id worker_id nonce run attempt = plane_append P w (work_claimed_draft
     (plane_context P (U ''evt.work.claimed.'' @ lease_id) (format_rfc3339 now)) lease_id worker_id nonce run attempt)"

text \<open>\<open>_open_lease\<close>: three facts, the lease, the claim and the consumption of the grant.\<close>

definition open_lease :: "plane \<Rightarrow> (nat \<Rightarrow> turn) \<Rightarrow> worker_fold \<Rightarrow> queued_work \<Rightarrow> grant_record \<Rightarrow> int \<Rightarrow> plane_state
    \<Rightarrow> plane_state \<times> (plane_error + claimed_work)" where
  "open_lease P w f q g now =
     bind_p (lift_p (lift_option (plane_call_error ''unknown-worker'') (fold_worker f (gr_worker_id g)))) (\<lambda>worker.
     bind_p (lift_p (check_r (wk_runtime worker = qw_runtime q) (plane_call_error ''runtime-mismatch''))) (\<lambda>_.
     bind_p (lift_p (check_r (qw_required_accelerators q \<subseteq> wk_accelerators worker) (plane_call_error ''accelerator-missing''))) (\<lambda>_.
     bind_p (lift_p (require_execution_match P g q None)) (\<lambda>_.
     bind_p (lift_p (cas_fetch_digest (qw_image_digest q) (Some q))) (\<lambda>cas.
     bind_p (lift_p (check_r (pl_artifact_verifies P cas) (plane_call_error ''execution-binding-mismatch''))) (\<lambda>_.
     let lease_id = U ''lease.'' @ gr_grant_id g; expiry = now + pl_lease_seconds P * 1000000 in
     bind_p (lift_p (check_r (0 \<le> expiry \<and> expiry < INSTANT_LIMIT) (PlaneWorker WorkerOverflowError))) (\<lambda>_.
     bind_p (plane_append P (w 0) (work_leased_draft (plane_context P (U ''evt.work.leased.'' @ lease_id) (format_rfc3339 now))
       \<lparr>wl_lease_id = lease_id, wl_worker_id = gr_worker_id g, wl_task_id = gr_task_id g, wl_grant_id = gr_grant_id g,
        wl_expires_at = format_rfc3339 expiry\<rparr> (qw_run_id q) (qw_attempt_id q))) (\<lambda>_.
     bind_p (claim_lease P (w 1) now lease_id (gr_worker_id g) (gr_nonce g) (qw_run_id q) (qw_attempt_id q)) (\<lambda>_.
     bind_p (consume_grant P (w 2) now g lease_id (qw_run_id q) (qw_attempt_id q)) (\<lambda>_.
     bind_p (beat lease_id now) (\<lambda>_.
     claimed P (w 3) \<lparr>le_lease_id = lease_id, le_worker_id = gr_worker_id g, le_task_id = gr_task_id g, le_grant_id = gr_grant_id g,
       le_run_id = qw_run_id q, le_attempt_id = qw_attempt_id q, le_expires_at = format_rfc3339 expiry, le_claimed = True,
       le_status = Leased, le_result_digest = None, le_artifact_digest = None, le_reason_code = None\<rparr> (gr_nonce g) q False)))))))))))"

text \<open>\<open>_resume_or_reject\<close>\<close>

definition resume_or_reject :: "plane \<Rightarrow> (nat \<Rightarrow> turn) \<Rightarrow> worker_fold \<Rightarrow> lease_record \<Rightarrow> queued_work \<Rightarrow> grant_record \<Rightarrow> int \<Rightarrow> plane_state
    \<Rightarrow> plane_state \<times> (plane_error + claimed_work option)" where
  "resume_or_reject P w f existing q g now =
     (if le_status existing = Completed then lift_p (Inr None)
      else if le_status existing = Failed \<or> le_status existing = Expired then lift_p (Inl (plane_call_error ''lease-terminal''))
      else
        bind_p (lift_p (plane_instant (le_expires_at existing))) (\<lambda>expires.
        if expires \<le> now then
          bind_p (expire_lease P (w 0) (w 1) (le_lease_id existing) None) (\<lambda>_. lift_p (Inl (plane_call_error ''lease-expired'')))
        else
          bind_p (if le_claimed existing then lift_p (Inr ())
             else bind_p (claim_lease P (w 2) now (le_lease_id existing) (le_worker_id existing) (gr_nonce g) (le_run_id existing)
               (le_attempt_id existing)) (\<lambda>_. lift_p (Inr ()))) (\<lambda>_.
          bind_p (case fold_grant f (gr_grant_id g) of
               Some record \<Rightarrow>
                 if gr_consumed_lease_id record = None then
                   bind_p (consume_grant P (w 3) now g (le_lease_id existing) (le_run_id existing) (le_attempt_id existing))
                     (\<lambda>_. lift_p (Inr ()))
                 else lift_p (Inr ())
             | None \<Rightarrow> lift_p (Inr ())) (\<lambda>_.
          bind_p (beat (le_lease_id existing) now) (\<lambda>_.
          bind_p (claimed P (w 4) existing (gr_nonce g) q (le_claimed existing)) (\<lambda>c. lift_p (Inr (Some c))))))))"

section \<open>Poll\<close>

text \<open>A task attempt that the worker has no lease of\<close>

definition poll_fresh :: "plane \<Rightarrow> (nat \<Rightarrow> turn) \<Rightarrow> worker_fold \<Rightarrow> queued_work \<Rightarrow> grant_record \<Rightarrow> int \<Rightarrow> plane_state
    \<Rightarrow> plane_state \<times> (plane_error + claimed_work option)" where
  "poll_fresh P w f q g now =
     bind_p (run_cancel_requested P (w 0) (qw_run_id q) (qw_attempt_id q)) (\<lambda>cancel.
     if cancel then lift_p (Inr None)
     else
       bind_p (lift_p (map_sum PlaneWorker id (active_lease_for f (gr_task_id g) (gr_attempt_id g) now))) (\<lambda>active.
       bind_p (lift_p (check_r (active = None) (plane_call_error ''lease-conflict''))) (\<lambda>_.
       bind_p (lift_p (stale_lease f (gr_task_id g) (gr_attempt_id g) now)) (\<lambda>stale.
       bind_p (case stale of
           Some l \<Rightarrow> if \<not> List.member TERMINAL_LEASE (le_status l)
             then bind_p (expire_lease P (w 1) (w 2) (le_lease_id l) None) (\<lambda>_. plane_rebuild P (w 3)) else lift_p (Inr f)
         | None \<Rightarrow> lift_p (Inr f)) (\<lambda>f'.
       bind_p (open_lease P (\<lambda>i. w (4 + i)) f' q g now) (\<lambda>x. lift_p (Inr (Some x))))))))"

text \<open>After the grant has been checked\<close>

definition poll_granted :: "plane \<Rightarrow> (nat \<Rightarrow> turn) \<Rightarrow> worker_fold \<Rightarrow> grant_record \<Rightarrow> grant_claims \<Rightarrow> pystr \<Rightarrow> bool \<Rightarrow> int \<Rightarrow> plane_state
    \<Rightarrow> plane_state \<times> (plane_error + claimed_work option)" where
  "poll_granted P w f g c worker_id resume_existing now =
     (case fold_queued_work f (gr_task_id g) (gr_attempt_id g) of
        None \<Rightarrow> lift_p (Inr None)
      | Some q \<Rightarrow>
          bind_p (lift_p (require_execution_match P g q (Some c))) (\<lambda>_.
          case lease_for_worker f (gr_task_id g) (gr_attempt_id g) worker_id of
            Some existing \<Rightarrow>
              bind_p (resume_or_reject P w f existing q g now) (\<lambda>r.
              lift_p (Inr (map_option (\<lambda>x. if resume_existing then x\<lparr>cw_resumed := True\<rparr> else x) r)))
          | None \<Rightarrow> poll_fresh P w f q g now))"

definition poll :: "plane \<Rightarrow> (nat \<Rightarrow> turn) \<Rightarrow> pyval \<Rightarrow> pystr \<Rightarrow> bool \<Rightarrow> plane_state \<Rightarrow> plane_state \<times> (plane_error + claimed_work option)" where
  "poll P w token worker_id resume_existing =
     (let now = tn_stamp (w 0) in
      bind_p (lift_p (verify_token P token now True)) (\<lambda>c.
      bind_p (lift_p (check_r (cl_worker_id c = worker_id) (plane_grant_error ''grant-worker-mismatch''))) (\<lambda>_.
      bind_p (plane_rebuild P (w 0)) (\<lambda>f.
      bind_p (lift_p (require_recorded_grant f (cl_grant_id c))) (\<lambda>g.
      bind_p (lift_p (require_live_grant P g c now)) (\<lambda>_.
      poll_granted P (\<lambda>i. w (1 + i)) f g c worker_id resume_existing now))))))"

section \<open>Settling\<close>

definition complete :: "plane \<Rightarrow> (nat \<Rightarrow> turn) \<Rightarrow> pyval \<Rightarrow> pystr \<Rightarrow> pystr \<Rightarrow> pystr \<Rightarrow> pystr \<Rightarrow> pystr option \<Rightarrow> bool \<Rightarrow> plane_state
    \<Rightarrow> plane_state \<times> (plane_error + stored_event)" where
  "complete P w token worker_id lease_id result_digest artifact_digest time require_native_output_transport =
     (let now = tn_stamp (w 0) in
      bind_p (lift_p (verify_token P token now False)) (\<lambda>c.
      bind_p (plane_rebuild P (w 0)) (\<lambda>f.
      bind_p (lift_p (bind_result_authorization P f worker_id lease_id c)) (\<lambda>(l, g).
      bind_p (lift_p (check_r (\<not> (require_native_output_transport \<and> (case fold_queued_work f (le_task_id l) (le_attempt_id l) of
           Some q \<Rightarrow> qw_runtime q = WORKER_RUNTIME_NATIVE_REVIEWED | None \<Rightarrow> False))) (plane_call_error ''native-output-required''))) (\<lambda>_.
      if le_status l = Completed then
        (if le_result_digest l = Some result_digest \<and> le_artifact_digest l = Some artifact_digest then
           bind_p (plane_get_event P (w 1) (U ''evt.work.completed.'' @ le_lease_id l)) (\<lambda>stored.
           lift_p (lift_option (plane_call_error ''complete-missing'') stored))
         else lift_p (Inl (plane_call_error ''complete-mismatch'')))
      else
        bind_p (lift_p (require_live_result_grant P g c l now)) (\<lambda>_.
        bind_p (lift_p (check_r (pl_artifact_verifies P artifact_digest) (plane_call_error ''artifact-missing''))) (\<lambda>_.
        plane_append P (w 1) (work_completed_draft
          (plane_context P (U ''evt.work.completed.'' @ le_lease_id l) (plane_stamp (w 1) time))
          (le_lease_id l) worker_id result_digest artifact_digest (le_run_id l) (le_attempt_id l)))))))))"

definition plane_fail :: "plane \<Rightarrow> (nat \<Rightarrow> turn) \<Rightarrow> pyval \<Rightarrow> pystr \<Rightarrow> pystr \<Rightarrow> pystr \<Rightarrow> pystr option \<Rightarrow> plane_state
    \<Rightarrow> plane_state \<times> (plane_error + stored_event)" where
  "plane_fail P w token worker_id lease_id reason_code time =
     (let now = tn_stamp (w 0) in
      bind_p (lift_p (verify_token P token now False)) (\<lambda>c.
      bind_p (plane_rebuild P (w 0)) (\<lambda>f.
      bind_p (lift_p (bind_result_authorization P f worker_id lease_id c)) (\<lambda>(l, g).
      if le_status l = Failed then
        (if le_reason_code l = Some reason_code then
           bind_p (plane_get_event P (w 1) (U ''evt.work.failed.'' @ le_lease_id l)) (\<lambda>stored.
           lift_p (lift_option (plane_call_error ''fail-missing'') stored))
         else lift_p (Inl (plane_call_error ''fail-mismatch'')))
      else
        bind_p (lift_p (require_live_result_grant P g c l now)) (\<lambda>_.
        plane_append P (w 1) (work_failed_draft (plane_context P (U ''evt.work.failed.'' @ le_lease_id l) (plane_stamp (w 1) time))
          (le_lease_id l) worker_id reason_code (le_run_id l) (le_attempt_id l)))))))"

text \<open>The three tries of \<open>fail_observed_cancellation\<close>\<close>

definition is_conflict :: "plane_error \<Rightarrow> bool" where
  "is_conflict e = (case e of PlaneWorker (WorkerStoreFailed (DuplicateEventError _)) \<Rightarrow> True
     | PlaneWorker (WorkerStoreFailed (EventSequenceConflictError _ _)) \<Rightarrow> True | _ \<Rightarrow> False)"

primrec settle_cancelled :: "nat \<Rightarrow> plane \<Rightarrow> (nat \<Rightarrow> turn) \<Rightarrow> lease_record \<Rightarrow> pystr \<Rightarrow> pystr \<Rightarrow> plane_state
    \<Rightarrow> plane_state \<times> (plane_error + stored_event)" where
  "settle_cancelled 0 P w l lease_id worker_id = lift_p (Inl (plane_call_error ''cancel-conflict''))"
| "settle_cancelled (Suc n) P w l lease_id worker_id = (\<lambda>\<sigma>.
     let event_id = U ''evt.work.failed.'' @ lease_id in
     case plane_append P (w 0) (work_failed_draft (plane_context P event_id (plane_stamp (w 0) None)) lease_id worker_id
         (U ''cancel-observed'') (le_run_id l) (le_attempt_id l)) \<sigma> of
       (\<sigma>', Inr st) \<Rightarrow> (\<sigma>', Inr st)
     | (\<sigma>', Inl e) \<Rightarrow>
         if \<not> is_conflict e then (\<sigma>', Inl e)
         else bind_p (plane_rebuild P (w 1)) (\<lambda>f.
           case fold_lease f lease_id of
             Some current \<Rightarrow>
               if le_status current = Failed then
                 bind_p (if le_reason_code current = Some (U ''cancel-observed'') then plane_get_event P (w 2) event_id else lift_p (Inr None))
                   (\<lambda>existing. lift_p (lift_option (plane_call_error ''fail-mismatch'') existing))
               else settle_cancelled n P (\<lambda>i. w (3 + i)) l lease_id worker_id
           | None \<Rightarrow> settle_cancelled n P (\<lambda>i. w (3 + i)) l lease_id worker_id) \<sigma>')"

definition fail_observed_cancellation :: "plane \<Rightarrow> (nat \<Rightarrow> turn) \<Rightarrow> pyval \<Rightarrow> pystr \<Rightarrow> pystr \<Rightarrow> plane_state
    \<Rightarrow> plane_state \<times> (plane_error + stored_event)" where
  "fail_observed_cancellation P w token worker_id lease_id =
     bind_p (lift_p (verify_token P token (tn_stamp (w 0)) False)) (\<lambda>c.
     bind_p (plane_rebuild P (w 0)) (\<lambda>f.
     bind_p (lift_p (bind_result_authorization P f worker_id lease_id c)) (\<lambda>(l, g).
     bind_p (lift_p (check_r (gr_consumed_lease_id g = Some lease_id \<and> le_claimed l) (plane_call_error ''grant-not-consumed''))) (\<lambda>_.
     bind_p (run_cancel_requested P (w 1) (le_run_id l) (le_attempt_id l)) (\<lambda>cancel.
     bind_p (lift_p (check_r cancel (plane_call_error ''cancel-not-requested''))) (\<lambda>_.
     bind_p (if le_status l = Failed \<and> le_reason_code l = Some (U ''cancel-observed'')
         then plane_get_event P (w 2) (U ''evt.work.failed.'' @ lease_id) else lift_p (Inr None)) (\<lambda>existing.
     case existing of
       Some stored \<Rightarrow> lift_p (Inr stored)
     | None \<Rightarrow>
         bind_p (lift_p (check_r (le_status l = Leased) (plane_call_error ''lease-terminal''))) (\<lambda>_.
         settle_cancelled 3 P (\<lambda>i. w (3 + i)) l lease_id worker_id))))))))"

section \<open>The other operations\<close>

definition plane_register :: "plane \<Rightarrow> turn \<Rightarrow> pystr \<Rightarrow> pystr \<Rightarrow> pystr \<Rightarrow> pystr list \<Rightarrow> pystr option \<Rightarrow> pystr \<Rightarrow> plane_state
    \<Rightarrow> plane_state \<times> (plane_error + stored_event)" where
  "plane_register P w worker_id actor event_id accelerators time runtime =
     plane_append P w (registered_draft (plane_context P event_id (plane_stamp w time)) worker_id actor accelerators runtime)"

definition revoke_grant :: "plane \<Rightarrow> turn \<Rightarrow> turn \<Rightarrow> pystr \<Rightarrow> pystr \<Rightarrow> pystr \<Rightarrow> pystr \<Rightarrow> pystr option \<Rightarrow> plane_state
    \<Rightarrow> plane_state \<times> (plane_error + stored_event)" where
  "revoke_grant P w w' grant_id actor event_id reason_code time =
     bind_p (plane_rebuild P w) (\<lambda>f.
     case fold_grant f grant_id of
       None \<Rightarrow> lift_p (Inl (plane_call_error ''unknown-grant''))
     | Some g \<Rightarrow> plane_append P w' (grant_revoked_draft (plane_context P event_id (plane_stamp w' time)) grant_id (gr_run_id g) (gr_attempt_id g)
         actor reason_code))"

definition enqueue :: "plane \<Rightarrow> turn \<Rightarrow> pystr \<Rightarrow> pystr \<Rightarrow> pystr \<Rightarrow> pystr \<Rightarrow> pystr \<Rightarrow> pydict \<Rightarrow> pydict \<Rightarrow> pystr list \<Rightarrow> pystr option
    \<Rightarrow> pystr \<Rightarrow> pystr \<Rightarrow> plane_state \<Rightarrow> plane_state \<times> (plane_error + stored_event)" where
  "enqueue P w task_id run attempt image_digest event_id config inputs accelerators time media runtime =
     bind_p (lift_p (brick_execution_digest (env_sha (pl_env P)) image_digest config inputs media runtime)) (\<lambda>config_digest.
     plane_append P w (work_queued_draft (plane_context P event_id (plane_stamp w time)) task_id run attempt image_digest config_digest
       (U ''control.plane'') config inputs accelerators media runtime))"

definition issue_token :: "plane \<Rightarrow> turn \<Rightarrow> pystr \<Rightarrow> plane_state \<Rightarrow> plane_state \<times> (plane_error + pystr)" where
  "issue_token P w grant_id =
     bind_p (plane_rebuild P w) (\<lambda>f.
     bind_p (lift_p (require_recorded_grant f grant_id)) (\<lambda>g.
     bind_p (lift_p (check_r (\<not> gr_revoked g) (plane_grant_error ''grant-revoked''))) (\<lambda>_.
     lift_p (map_sum token_error id (issue_grant_token (pl_tokens P) (pl_hmac_key P)
       \<lparr>cl_grant_id = gr_grant_id g, cl_grant_event_id = gr_grant_event_id g, cl_worker_id = gr_worker_id g, cl_task_id = gr_task_id g,
        cl_attempt_id = gr_attempt_id g, cl_run_id = gr_run_id g, cl_nonce = gr_nonce g, cl_project_id = pl_project_id P,
        cl_image_digest = gr_image_digest g, cl_config_digest = gr_config_digest g, cl_exp = gr_expires_at g\<rparr>)))))"

definition authorize_image_fetch :: "plane \<Rightarrow> turn \<Rightarrow> pyval \<Rightarrow> pystr \<Rightarrow> pystr \<Rightarrow> plane_state \<Rightarrow> plane_state \<times> (plane_error + unit)" where
  "authorize_image_fetch P w token worker_id image_digest =
     (let now = tn_stamp w in
      bind_p (lift_p (verify_token P token now True)) (\<lambda>c.
      bind_p (lift_p (check_r (cl_worker_id c = worker_id) (plane_grant_error ''grant-worker-mismatch''))) (\<lambda>_.
      bind_p (plane_rebuild P w) (\<lambda>f.
      bind_p (lift_p (require_recorded_grant f (cl_grant_id c))) (\<lambda>g.
      bind_p (lift_p (require_live_grant P g c now)) (\<lambda>_.
      bind_p (lift_p (cas_fetch_digest (gr_image_digest g) (fold_queued_work f (gr_task_id g) (gr_attempt_id g)))) (\<lambda>allowed.
      lift_p (check_r (allowed = image_digest \<and> cl_image_digest c = gr_image_digest g)
        (plane_call_error ''execution-binding-mismatch'')))))))))"

definition native_input_scope :: "plane \<Rightarrow> turn \<Rightarrow> turn \<Rightarrow> pyval \<Rightarrow> pystr \<Rightarrow> plane_state \<Rightarrow> plane_state \<times> (plane_error + queued_work \<times> grant_record)" where
  "native_input_scope P w w' token worker_id =
     (let now = tn_stamp w in
      bind_p (lift_p (verify_token P token now True)) (\<lambda>c.
      bind_p (lift_p (check_r (cl_worker_id c = worker_id) (plane_grant_error ''grant-worker-mismatch''))) (\<lambda>_.
      bind_p (plane_rebuild P w) (\<lambda>f.
      bind_p (lift_p (require_recorded_grant f (cl_grant_id c))) (\<lambda>g.
      bind_p (lift_p (require_live_grant P g c now)) (\<lambda>_.
      case fold_queued_work f (gr_task_id g) (gr_attempt_id g) of
        None \<Rightarrow> lift_p (Inl (plane_call_error ''execution-binding-mismatch''))
      | Some q \<Rightarrow>
          bind_p (lift_p (check_r (qw_runtime q = WORKER_RUNTIME_NATIVE_REVIEWED) (plane_call_error ''execution-binding-mismatch''))) (\<lambda>_.
          bind_p (lift_p (require_execution_match P g q (Some c))) (\<lambda>_.
          bind_p (lift_p (case lease_for_worker f (gr_task_id g) (gr_attempt_id g) worker_id of
              None \<Rightarrow> Inr ()
            | Some lease \<Rightarrow>
                bind_r (bind_result_authorization P f worker_id (le_lease_id lease) c) (\<lambda>(l, bound).
                bind_r (require_live_result_grant P bound c l now) (\<lambda>_.
                check_r (le_status l \<noteq> Completed) (plane_call_error ''lease-terminal''))))) (\<lambda>_.
          bind_p (run_cancel_requested P w' (gr_run_id g) (gr_attempt_id g)) (\<lambda>cancel.
          lift_p (bind_r (check_r (\<not> cancel) (plane_call_error ''transfer-cancel-requested'')) (\<lambda>_. Inr (q, g)))))))))))))"

definition heartbeat :: "plane \<Rightarrow> turn \<Rightarrow> turn \<Rightarrow> pyval \<Rightarrow> pystr \<Rightarrow> pystr \<Rightarrow> plane_state \<Rightarrow> plane_state \<times> (plane_error + bool)" where
  "heartbeat P w w' session worker_id lease_id =
     bind_p (lift_p (map_sum token_error id (verify_worker_session (pl_tokens P) (pl_hmac_key P) session))) (\<lambda>owner.
     bind_p (lift_p (check_r (owner = worker_id) (plane_grant_error ''worker-session-mismatch''))) (\<lambda>_.
     bind_p (plane_rebuild P w) (\<lambda>f.
     case fold_lease f lease_id of
       None \<Rightarrow> lift_p (Inl (plane_call_error ''unknown-lease''))
     | Some l \<Rightarrow>
         if le_worker_id l \<noteq> worker_id then lift_p (Inl (plane_call_error ''unknown-lease''))
         else bind_p (beat lease_id (tn_stamp w)) (\<lambda>_. run_cancel_requested P w' (le_run_id l) (le_attempt_id l)))))"

end
