(* ===== verification/Plane_Samples.thy ===== *)
theory Plane_Samples
  imports Worker_Plane Store_Samples
begin

text \<open>
  A log with work that a worker has claimed, on which the theorems about the worker plane are
  instantiated.  It is built fact by fact from the plane's own drafts, each accepted by the store and
  by the fold.
\<close>

section \<open>A log takes a draft\<close>

lemma draft_taken:
  assumes env: "env_ok env" "sqlite_accepts env" and rdy: "ready env s" "writable s" and dr: "draft_ok env (PyDict d)"
    and clk: "clock_ok now" "now = Aware u"
    and pre: "preflight err own (int (length (facts env s))) (PyDict d) = Inr (d, pre)" "id_fresh s (e_id pre)"
  obtains t st where "append_store env now (PyDict d) (Some (int (length (facts env s)))) s = (t, Inr st)" "ready env t" "writable t"
    "facts env t = facts env s @ [fact_of st]" "\<exists>m. st_event st = pre\<lparr>e_streamversion := m\<rparr>"
    "\<And>i. i \<noteq> e_id pre \<Longrightarrow> id_fresh s i \<Longrightarrow> id_fresh t i"
proof -
  let ?n = "int (length (facts env s))"
  have inv: "store_inv env s" using rdy(1) by (simp add: ready_def)
  have last: "last_sequence s = ?n" using store_invD(1)[OF inv] by simp
  note p = preflightD[OF pre(1)]
  have "map_option (renumber (?n + 1) 0) (validate_event_document (PyDict (allocate 1 0 d))) = Some pre"
    using validate_allocate[of "?n + 1" 0 d] p(3,4) by (simp add: CLOUD_EVENTS_INTEGER_MAX_def)
  then obtain pre1 where pre1: "validate_event_document (PyDict (allocate 1 0 d)) = Some pre1" "e_id pre1 = e_id pre"
    by (auto simp: renumber_def)
  have "length (stream_rows (e_streamid pre1) s) \<le> length (db_events s)" by (simp add: stream_rows_def)
  then have "last_stream_version (e_streamid pre1) s < CLOUD_EVENTS_INTEGER_MAX" using p(3) by (simp add: store_invD(2)[OF inv])
  then have "is_ok (append_checked env now (PyDict d) (Some ?n) s)"
    using append_checked_iff[OF inv env dr clk(2), of "Some ?n"] rdy(2) p(2,3) pre(2) pre1 last by auto
  then obtain t st where a: "append_checked env now (PyDict d) (Some ?n) s = Inr (t, st)" by (auto simp: is_ok_iff)
  then have app: "append_store env now (PyDict d) (Some ?n) s = (t, Inr st)" by (simp add: append_store_Inr)
  obtain m where m: "st_event st = pre\<lparr>e_streamversion := m\<rparr>"
    by (rule committed_event[OF inv dr clk(1) app]) (use p(4) last in simp_all)
  have good: "good_call env (now, PyDict d)" using dr clk by (simp add: good_call_def)
  have call: "call_append env s (now, PyDict d) (Some ?n) = (t, Inr st)" using app by (simp add: call_append_def)
  have "store_inv env t" using store_log.add_ok[OF inv good, of "Some ?n"] call by simp
  moreover have "db_report t = db_report s" using append_store_report[of env now "PyDict d" "Some ?n" s] app by simp
  ultimately have "ready env t" using rdy(1) by (simp add: ready_def report_ok_def verify_schema_def)
  moreover have "writable t" using a rdy(2)
    by (auto simp: append_checked_def append_transaction_def bind_r_Inr_iff insert_event_def replace_checkpoint_def
      check_r_iff lift_option_iff Let_def split: if_splits)
  moreover have "id_fresh t i" if "i \<noteq> e_id pre" "id_fresh s i" for i
  proof -
    obtain r where r: "db_events t = db_events s @ [r]" "stored_event_from_row env r = Inr (st\<lparr>st_event := norm_event (st_event st)\<rparr>)"
      by (rule append_committed[OF a inv dr clk(1)])
    have "row_event_id r = e_id (norm_event (st_event st))" using stored_row_columns[OF r(2)] by simp
    then show ?thesis using that r(1) m by (simp add: id_fresh_def norm_event_def)
  qed
  ultimately show ?thesis using app m store_log.add_committed[OF inv good call] by (intro that[of t st]) auto
qed

section \<open>The sample\<close>

definition sample_plane :: plane where
  "sample_plane = \<lparr>pl_env = sample_env, pl_tokens = sample_tokens, pl_artifact_verifies = (\<lambda>_. True), pl_hmac_key = replicate 32 0,
     pl_project_id = U ''p'', pl_source = U ''/r'', pl_experiment_revision = 1, pl_lease_seconds = 60\<rparr>"

definition sample_turn :: turn where
  "sample_turn = \<lparr>tn_before = id, tn_freeze = sample_clock, tn_others = id, tn_others' = id, tn_commit = sample_clock, tn_stamp = 5\<rparr>"

lemma sample_plane_ok: "env_ok (pl_env sample_plane)" "turn_ok (pl_env sample_plane) sample_turn"
  using sample_env_ok(1) sample_clock_ok by (simp_all add: sample_plane_def sample_turn_def turn_ok_def)

definition sample_time :: pystr where "sample_time = U ''2026-01-02T03:04:05Z''"

text \<open>The log so far folds, and the ids to come are new.\<close>

definition sample_log :: "store \<Rightarrow> worker_fold \<Rightarrow> nat \<Rightarrow> pystr list \<Rightarrow> bool" where
  "sample_log s f n ids \<longleftrightarrow> ready sample_env s \<and> writable s \<and> fold_r (apply_worker_fold (U ''p'')) empty_workers (facts sample_env s) = Inr f
     \<and> length (facts sample_env s) = n \<and> list_all (id_fresh s) ids \<and> distinct ids
     \<and> list_all (\<lambda>e. List.member WORKER_EVENT_TYPES (e_type e)) (facts sample_env s)"

lemma sample_log_start: "distinct ids \<Longrightarrow> sample_log (empty_store sample_env) empty_workers 0 ids"
  using empty_store_ok[of sample_env] by (simp add: sample_log_def ready_def list_all_iff)

lemma sample_context_ok: "EventIdentifier i \<Longrightarrow> context_ok (plane_context sample_plane i sample_time)"
proof -
  have "EventIdentifier (U ''p'')" "ExperimentRevision 1" "Rfc3339Timestamp sample_time" "utf8_ok sample_time" "utf8_ok (U ''/r'')"
    by code_simp+
  then show "EventIdentifier i \<Longrightarrow> context_ok (plane_context sample_plane i sample_time)"
    using sample_source by (simp add: context_ok_def plane_context_def sample_plane_def identifier_text)
qed

lemma sample_log_step:
  assumes log: "sample_log s f n (i # ids)" and i: "EventIdentifier i" and n: "int n < CLOUD_EVENTS_INTEGER_MAX"
    and d: "actor_fits t kind" "EventIdentifier subject" "EventIdentifier actor" "plain_tree (PyDict payload)"
      "pred_option EventIdentifier run" "pred_option EventIdentifier attempt"
    and x: "map_of WORKER_PAYLOAD_MODELS t = Some dec" "dec (PyDict payload) = Some x"
    and step: "\<And>e. e_id e = i \<Longrightarrow> e_time e = sample_time \<Longrightarrow> ed_run_id (e_data e) = run \<Longrightarrow> ed_attempt_id (e_data e) = attempt
      \<Longrightarrow> apply_worker_payload f e x = Inr f'"
  shows "\<exists>s'. sample_log s' f' (Suc n) ids"
proof -
  let ?c = "plane_context sample_plane i sample_time"
  let ?d = "worker_draft ?c t subject actor kind payload run attempt"
  let ?e = "worker_drafted ?c t subject actor kind payload run attempt (int n + 1)"
  note l = log[unfolded sample_log_def]
  have p: "dx_project_id ?c = U ''p''" by (simp add: plane_context_def sample_plane_def)
  have e: "e_id ?e = i" "e_type ?e = t" by (simp_all add: worker_drafted_fields[OF refl] plane_context_def)
  have pre: "preflight worker_preflight_errors (\<lambda>e. ed_project_id (e_data e) = U ''p'') (int (length (facts sample_env s))) (PyDict ?d) = Inr (?d, ?e)"
    using worker_draft_accepted[OF sample_context_ok[OF i] _ d(2-6) _ n, of t worker_preflight_errors kind] d(1) l
    by (simp add: p actor_fits_def)
  have dr: "draft_ok sample_env (PyDict ?d)"
    unfolding worker_draft_def worker_event_draft_def
    by (rule draft_document_ok(1); rule draft_data_trees[where fl = "env_float sample_env"])
      (use d(4) in \<open>simp_all add: draft_actor_trees plain_tree_def sample_env_def del: keys_distinct.simps floats_ok.simps plain_dict\<close>)
  obtain u where u: "sample_clock = Aware u" by (rule sample_clock_aware)
  obtain s' st where *: "append_store sample_env sample_clock (PyDict ?d) (Some (int (length (facts sample_env s)))) s = (s', Inr st)"
      "ready sample_env s'" "writable s'" "facts sample_env s' = facts sample_env s @ [fact_of st]"
      "\<exists>m. st_event st = ?e\<lparr>e_streamversion := m\<rparr>" "\<And>j. j \<noteq> e_id ?e \<Longrightarrow> id_fresh s j \<Longrightarrow> id_fresh s' j"
    by (rule draft_taken[OF sample_env_ok _ _ dr sample_clock_ok(1) u pre]) (use l e in auto)
  have inv: "store_inv sample_env s" using l by (simp add: ready_def)
  have "fold_r (apply_worker_fold (U ''p'')) empty_workers (facts sample_env s') = apply_worker_fold (U ''p'') f ?e"
    by (rule log_control.committed_fold[OF worker_log.log_control_axioms inv dr sample_clock_ok(1) *(1)])
      (use preflightD(4)[OF pre] store_invD(1)[OF inv] l in simp_all)
  also have "\<dots> = Inr f'" using worker_draft_applied[where f = f and c = ?c, OF refl d(1) x] step[of ?e] p
    by (simp add: worker_drafted_fields[OF refl] plane_context_def)
  finally have fold: "fold_r (apply_worker_fold (U ''p'')) empty_workers (facts sample_env s') = Inr f'" .
  have "List.member WORKER_EVENT_TYPES (e_type (fact_of st))" using *(5) d(1) e(2) by (auto simp: fact_of_def norm_event_def actor_fits_def)
  moreover have "list_all (id_fresh s') ids" using *(6) l e(1) by (fastforce simp: list_all_iff)
  ultimately show ?thesis using *(2-4) fold l by (intro exI[of _ s']) (simp add: sample_log_def)
qed

section \<open>The facts\<close>

definition sample_worker :: worker_record where
  "sample_worker = \<lparr>wk_worker_id = U ''w'', wk_runtime = WORKER_RUNTIME_PYTHON_SANDBOX, wk_accelerators = {}\<rparr>"

definition sample_config_digest :: pystr where "sample_config_digest = JCS_SHA256_PREFIX @ replicate 64 48"

definition sample_grant :: grant_record where
  "sample_grant = \<lparr>gr_grant_id = U ''g'', gr_grant_event_id = U ''2'', gr_worker_id = U ''w'', gr_task_id = U ''t'', gr_nonce = U ''n'',
     gr_expires_at = sample_time, gr_run_id = U ''r'', gr_attempt_id = U ''a'', gr_authorization_event_id = U ''e'',
     gr_authorization_sequence = U ''7'', gr_image_digest = U zero_digest, gr_config_digest = sample_config_digest, gr_revoked = False,
     gr_consumed_lease_id = None\<rparr>"

definition sample_work :: queued_work where
  "sample_work = \<lparr>qw_task_id = U ''t'', qw_run_id = U ''r'', qw_attempt_id = U ''a'', qw_image_digest = U zero_digest,
     qw_config_digest = sample_config_digest, qw_config = [], qw_inputs = [], qw_runtime = WORKER_RUNTIME_PYTHON_SANDBOX,
     qw_image_media_type = IMAGE_MEDIA_PYTHON_BRICK, qw_required_accelerators = {}\<rparr>"

definition sample_lease :: lease_record where
  "sample_lease = \<lparr>le_lease_id = U ''l'', le_worker_id = U ''w'', le_task_id = U ''t'', le_grant_id = U ''g'', le_run_id = U ''r'',
     le_attempt_id = U ''a'', le_expires_at = sample_time, le_claimed = False, le_status = Leased, le_result_digest = None,
     le_artifact_digest = None, le_reason_code = None\<rparr>"

definition sample_fold :: worker_fold where
  "sample_fold = \<lparr>wf_workers = [sample_worker], wf_grants = [sample_grant\<lparr>gr_consumed_lease_id := Some (U ''l'')\<rparr>],
     wf_queued = [sample_work], wf_leases = [sample_lease\<lparr>le_claimed := True\<rparr>]\<rparr>"

lemma sample_identifiers:
  "EventIdentifier (U ''1'')" "EventIdentifier (U ''2'')" "EventIdentifier (U ''3'')" "EventIdentifier (U ''4'')"
  "EventIdentifier (U ''5'')" "EventIdentifier (U ''6'')" "EventIdentifier (U ''w'')" "EventIdentifier (U ''g'')" "EventIdentifier (U ''t'')"
  "EventIdentifier (U ''n'')" "EventIdentifier (U ''r'')" "EventIdentifier (U ''a'')" "EventIdentifier (U ''e'')" "EventIdentifier (U ''l'')"
  by code_simp+

lemma sample_reads: "decode_digest SEMANTIC_DIGEST_PATTERN (PyStr sample_config_digest) = Some sample_config_digest"
  "decode_digest DIGEST_PATTERN (PyStr (U zero_digest)) = Some (U zero_digest)" "decode_stamp (PyStr sample_time) = Some sample_time"
  "decode_text (PyStr (U ''e'')) = Some (U ''e'')" "decode_text (PyStr (U ''7'')) = Some (U ''7'')"
  "utf8_ok sample_time" "utf8_ok (U zero_digest)" "utf8_ok sample_config_digest"
  by code_simp+

text \<open>The six facts: a worker registers, a grant is recorded and work queued for it; the work is leased and claimed
  and the grant consumed.\<close>

definition sample_registration :: worker_registered where
  "sample_registration = \<lparr>wr_worker_id = U ''w'', wr_runtime = WORKER_RUNTIME_PYTHON_SANDBOX, wr_protocol = WORKER_PROTOCOL_LONGPOLL,
     wr_accelerators = []\<rparr>"

definition sample_recorded :: grant_recorded where
  "sample_recorded = \<lparr>gp_grant_id = U ''g'', gp_worker_id = U ''w'', gp_task_id = U ''t'', gp_nonce = U ''n'', gp_expires_at = sample_time,
     gp_key_id = U ''local.hmac.1'', gp_authorization_event_id = U ''e'', gp_authorization_sequence = U ''7'',
     gp_image_digest = U zero_digest, gp_config_digest = sample_config_digest\<rparr>"

definition sample_queued :: work_queued where
  "sample_queued = \<lparr>wq_task_id = U ''t'', wq_image_digest = U zero_digest, wq_image_media_type = IMAGE_MEDIA_PYTHON_BRICK,
     wq_runtime = WORKER_RUNTIME_PYTHON_SANDBOX, wq_config = [], wq_inputs = [], wq_config_digest = sample_config_digest,
     wq_required_accelerators = []\<rparr>"

definition sample_leased :: work_leased where
  "sample_leased = \<lparr>wl_lease_id = U ''l'', wl_worker_id = U ''w'', wl_task_id = U ''t'', wl_grant_id = U ''g'', wl_expires_at = sample_time\<rparr>"

definition queued_document :: pydict where
  "queued_document = [(KStr (U ''taskId''), PyStr (U ''t'')), (KStr (U ''imageDigest''), PyStr (U zero_digest)),
     (KStr (U ''imageMediaType''), PyStr IMAGE_MEDIA_PYTHON_BRICK), (KStr (U ''runtime''), PyStr WORKER_RUNTIME_PYTHON_SANDBOX),
     (KStr (U ''config''), PyDict []), (KStr (U ''inputs''), PyDict []), (KStr (U ''configDigest''), PyStr sample_config_digest),
     (KStr (U ''requiredAccelerators''), PyList [])]"

definition folds_upto :: "grant_record list \<Rightarrow> queued_work list \<Rightarrow> lease_record list \<Rightarrow> worker_fold" where
  "folds_upto gs qs ls = \<lparr>wf_workers = [sample_worker], wf_grants = gs, wf_queued = qs, wf_leases = ls\<rparr>"

lemma sample_folds:
  "apply_registered empty_workers sample_registration = Inr (folds_upto [] [] [])"
  "e_id e = U ''2'' \<Longrightarrow> ed_run_id (e_data e) = Some (U ''r'') \<Longrightarrow> ed_attempt_id (e_data e) = Some (U ''a'')
    \<Longrightarrow> apply_grant_recorded (folds_upto [] [] []) e sample_recorded = Inr (folds_upto [sample_grant] [] [])"
  "ed_run_id (e_data e) = Some (U ''r'') \<Longrightarrow> ed_attempt_id (e_data e) = Some (U ''a'')
    \<Longrightarrow> apply_queued (folds_upto [sample_grant] [] []) e sample_queued = Inr (folds_upto [sample_grant] [sample_work] [])"
  "apply_claimed (folds_upto [sample_grant] [sample_work] [sample_lease]) (U ''l'') (U ''w'')
    = Inr (folds_upto [sample_grant] [sample_work] [sample_lease\<lparr>le_claimed := True\<rparr>])"
  "apply_grant_consumed (folds_upto [sample_grant] [sample_work] [sample_lease\<lparr>le_claimed := True\<rparr>]) (U ''g'') (U ''l'') (U ''n'') = Inr sample_fold"
  by (simp_all add: apply_registered_def apply_grant_recorded_def apply_queued_def apply_claimed_def apply_grant_consumed_def
    fold_worker_def fold_grant_def fold_queued_work_def fold_lease_def empty_workers_def folds_upto_def sample_worker_def sample_grant_def
    sample_work_def sample_lease_def sample_fold_def sample_registration_def sample_recorded_def sample_queued_def
    replace_lease_def replace_grant_def TERMINAL_LEASE_def)

lemma sample_lease_fold:
  assumes "e_time e = sample_time" "ed_run_id (e_data e) = Some (U ''r'')" "ed_attempt_id (e_data e) = Some (U ''a'')"
  shows "apply_leased (folds_upto [sample_grant] [sample_work] []) e sample_leased = Inr (folds_upto [sample_grant] [sample_work] [sample_lease])"
proof -
  have "case instant_of sample_time of Inr _ \<Rightarrow> True | Inl _ \<Rightarrow> False" by code_simp
  then obtain x where "instant_of sample_time = Inr x" by (cases "instant_of sample_time") auto
  then show ?thesis using assms
    by (simp add: apply_leased_def fold_worker_def fold_grant_def fold_queued_work_def fold_lease_def folds_upto_def sample_worker_def
      sample_grant_def sample_work_def sample_leased_def sample_lease_def active_lease_for_def)
qed

lemma plane_sample_payloads:
  "decode_worker_registered (PyDict (registered_document (U ''w'') [] WORKER_RUNTIME_PYTHON_SANDBOX)) = Some (WorkerRegisteredPayload sample_registration)"
  "decode_grant_recorded (PyDict (grant_document sample_recorded)) = Some (GrantRecordedPayload sample_recorded)"
  "decode_work_queued (PyDict queued_document) = Some (WorkQueuedPayload sample_queued)"
  "plain_tree (PyDict (registered_document (U ''w'') [] WORKER_RUNTIME_PYTHON_SANDBOX))" "plain_tree (PyDict (grant_document sample_recorded))"
  "plain_tree (PyDict queued_document)" "map_of WORKER_PAYLOAD_MODELS TYPE_WORK_QUEUED = Some decode_work_queued"
proof -
  have u: "utf8_ok WORKER_RUNTIME_PYTHON_SANDBOX" "utf8_ok IMAGE_MEDIA_PYTHON_BRICK" "List.member WORKER_RUNTIME_NAME WORKER_RUNTIME_PYTHON_SANDBOX" by code_simp+
  have a: "readable decode_accelerators []" by (rule readableI[of _ "PyList []"]) code_simp
  have g: "grant_fields_ok sample_recorded"
    using sample_identifiers sample_reads by (auto simp: grant_fields_ok_def sample_recorded_def intro: readableI)
  note r = registered_reads[OF sample_identifiers(7) a u(3,1)]
  show "decode_worker_registered (PyDict (registered_document (U ''w'') [] WORKER_RUNTIME_PYTHON_SANDBOX)) = Some (WorkerRegisteredPayload sample_registration)"
    using r(1) by (simp add: sample_registration_def)
  show "plain_tree (PyDict (registered_document (U ''w'') [] WORKER_RUNTIME_PYTHON_SANDBOX))" by (rule r(2))
  show "decode_grant_recorded (PyDict (grant_document sample_recorded)) = Some (GrantRecordedPayload sample_recorded)"
    "plain_tree (PyDict (grant_document sample_recorded))" by (rule grant_reads[OF g])+
  show "decode_work_queued (PyDict queued_document) = Some (WorkQueuedPayload sample_queued)" by code_simp
  show "plain_tree (PyDict queued_document)" using u sample_reads(7,8)
    by (simp add: queued_document_def INLINE_BODY_KEYS_def)
  show "map_of WORKER_PAYLOAD_MODELS TYPE_WORK_QUEUED = Some decode_work_queued"
    by (simp add: WORKER_PAYLOAD_MODELS_def worker_type_defs)
qed

lemma sample_facts: "\<exists>s. sample_log s sample_fold 6 []"
proof -
  note ids = sample_identifiers
  have max: "int n < CLOUD_EVENTS_INTEGER_MAX" if "n \<le> 6" for n using that by (simp add: CLOUD_EVENTS_INTEGER_MAX_def)
  have s0: "sample_log (empty_store sample_env) empty_workers 0 [U ''1'', U ''2'', U ''3'', U ''4'', U ''5'', U ''6'']"
    by (rule sample_log_start) simp
  have r: "pred_option EventIdentifier (Some (U ''r''))" "pred_option EventIdentifier (Some (U ''a''))" "pred_option EventIdentifier None"
    using ids by simp_all
  note reads = pairs_read(7)[OF ids(14,7,9,8) sample_reads(3)] pairs_read(4)[OF ids(14,7,10)] pairs_read(5)[OF ids(8,14,10)]
  have u: "utf8_ok (U ''l'')" "utf8_ok (U ''w'')" "utf8_ok (U ''t'')" "utf8_ok (U ''g'')" "utf8_ok (U ''n'')" by code_simp+
  have plain: "plain_tree (PyDict (pairs [(''leaseId'', U ''l''), (''workerId'', U ''w''), (''taskId'', U ''t''), (''grantId'', U ''g''), (''expiresAt'', sample_time)]))"
    "plain_tree (PyDict (pairs [(''leaseId'', U ''l''), (''workerId'', U ''w''), (''nonce'', U ''n'')]))"
    "plain_tree (PyDict (pairs [(''grantId'', U ''g''), (''leaseId'', U ''l''), (''nonce'', U ''n'')]))"
    using u sample_reads(6) by (simp_all add: pairs_def INLINE_BODY_KEYS_def)
  obtain s1 where s1: "sample_log s1 (folds_upto [] [] []) (Suc 0) [U ''2'', U ''3'', U ''4'', U ''5'', U ''6'']"
    using sample_log_step[OF s0 ids(1) max actors_fit(1) ids(7,12) plane_sample_payloads(4) r(3,3) payload_models(1) plane_sample_payloads(1)] sample_folds(1) by auto
  obtain s2 where s2: "sample_log s2 (folds_upto [sample_grant] [] []) (Suc (Suc 0)) [U ''3'', U ''4'', U ''5'', U ''6'']"
    using sample_log_step[OF s1 ids(2) max actors_fit(2) ids(8,12) plane_sample_payloads(5) r(1,2) payload_models(2) plane_sample_payloads(2)] sample_folds(2) by auto
  obtain s3 where s3: "sample_log s3 (folds_upto [sample_grant] [sample_work] []) (Suc (Suc (Suc 0))) [U ''4'', U ''5'', U ''6'']"
    using sample_log_step[OF s2 ids(3) max actors_fit(4) ids(9,12) plane_sample_payloads(6) r(1,2) plane_sample_payloads(7) plane_sample_payloads(3)] sample_folds(3) by auto
  obtain s4 where s4: "sample_log s4 (folds_upto [sample_grant] [sample_work] [sample_lease]) (Suc (Suc (Suc (Suc 0)))) [U ''5'', U ''6'']"
    using sample_log_step[OF s3 ids(4) max actors_fit(5) ids(14,7) plain(1) r(1,2) payload_models(4) reads(1)] sample_lease_fold by (auto simp: sample_leased_def)
  obtain s5 where s5: "sample_log s5 (folds_upto [sample_grant] [sample_work] [sample_lease\<lparr>le_claimed := True\<rparr>]) (Suc (Suc (Suc (Suc (Suc 0))))) [U ''6'']"
    using sample_log_step[OF s4 ids(5) max actors_fit(6) ids(14,7) plain(2) r(1,2) payload_models(5) reads(2)] sample_folds(4) by auto
  obtain s6 where s6: "sample_log s6 sample_fold (Suc (Suc (Suc (Suc (Suc (Suc 0)))))) []"
    using sample_log_step[OF s5 ids(6) max actors_fit(10) ids(8,7) plain(3) r(1,2) payload_models(9) reads(3)] sample_folds(5) by auto
  have "6 = Suc (Suc (Suc (Suc (Suc (Suc 0)))))" by simp
  with s6 show ?thesis by metis
qed

section \<open>A poll that hands the work out\<close>

definition sample_grant_claims :: grant_claims where
  "sample_grant_claims = \<lparr>cl_grant_id = U ''g'', cl_grant_event_id = U ''2'', cl_worker_id = U ''w'', cl_task_id = U ''t'', cl_attempt_id = U ''a'',
     cl_run_id = U ''r'', cl_nonce = U ''n'', cl_project_id = U ''p'', cl_image_digest = U zero_digest, cl_config_digest = sample_config_digest,
     cl_exp = sample_time\<rparr>"

definition sample_token :: pyval where
  "sample_token = PyStr (sign_token sample_tokens (replicate 32 0) GRANT_TOKEN_VERSION (claim_members sample_grant_claims))"

lemma sample_token_verifies: "verify_token sample_plane sample_token 5 live = Inr sample_grant_claims"
proof -
  have c: "claims_ok sample_grant_claims" by code_simp
  have "case claim_instant sample_tokens (cl_exp sample_grant_claims) of Inr x \<Rightarrow> \<not> x \<le> 5 | Inl e \<Rightarrow> False" by code_simp
  then obtain x where "claim_instant sample_tokens (cl_exp sample_grant_claims) = Inr x" "\<not> x \<le> 5"
    by (cases "claim_instant sample_tokens (cl_exp sample_grant_claims)") auto
  with grant_token_verifies(2)[OF sample_tokens_ok(1,2) c] show ?thesis
    by (simp add: verify_token_def sample_token_def sample_plane_def)
qed

lemma worker_facts_run: "list_all (\<lambda>e. List.member WORKER_EVENT_TYPES (e_type e)) es \<Longrightarrow> fold_run p None es = Inr None"
proof (induction es)
  case (Cons e es)
  have "list_all (\<lambda>t. \<not> List.member LIFECYCLE_TYPES t) WORKER_EVENT_TYPES" by code_simp
  then have "\<not> List.member LIFECYCLE_TYPES (e_type e)" using Cons.prems by (auto simp: list_all_iff List.member_iff)
  then have "run_apply p None e = Inr None" by (simp add: run_apply_def observe_unrelated_def)
  with Cons show ?case by (simp add: fold_run_def)
qed (simp add: fold_run_def)

lemma sample_checks: "require_execution_match sample_plane g sample_work (Some sample_grant_claims) = Inr ()"
  "require_live_grant sample_plane g sample_grant_claims 5 = Inr ()"
  "\<exists>x. plane_instant sample_time = Inr x \<and> \<not> x \<le> 5"
  if "g = sample_grant\<lparr>gr_consumed_lease_id := Some (U ''l'')\<rparr>"
proof -
  have "case instant_of sample_time of Inr x \<Rightarrow> \<not> x \<le> 5 | Inl e \<Rightarrow> False" by code_simp
  then obtain x where x: "instant_of sample_time = Inr x" "\<not> x \<le> 5" by (cases "instant_of sample_time") auto
  then show "\<exists>x. plane_instant sample_time = Inr x \<and> \<not> x \<le> 5" by (simp add: plane_instant_def)
  show "require_live_grant sample_plane g sample_grant_claims 5 = Inr ()"
    using x by (simp add: that require_live_grant_def sample_grant_claims_def sample_grant_def sample_plane_def check_r_def plane_instant_def)
  have "brick_execution_digest (\<lambda>_. replicate 64 48) (U zero_digest) [] [] IMAGE_MEDIA_PYTHON_BRICK WORKER_RUNTIME_PYTHON_SANDBOX = Inr sample_config_digest"
    by code_simp
  then show "require_execution_match sample_plane g sample_work (Some sample_grant_claims) = Inr ()"
    by (simp add: that require_execution_match_def require_execution_digest_def sample_grant_claims_def sample_grant_def sample_plane_def
      sample_work_def sample_env_def check_r_def)
qed

definition sample_turns :: "nat \<Rightarrow> turn" where "sample_turns = (\<lambda>_. sample_turn)"

lemma sample_rebuild:
  assumes "sample_log s f n ids"
  obtains t where "plane_rebuild sample_plane sample_turn \<lparr>ps_store = s, ps_heartbeats = h\<rparr> = (\<lparr>ps_store = t, ps_heartbeats = h\<rparr>, Inr f)"
    "ready sample_env t" "facts sample_env t = facts sample_env s"
proof -
  have i: "store_inv sample_env s" "report_ok sample_env s" using assms by (simp_all add: sample_log_def ready_def)
  have p: "page_size_ok CONTROL_PAGE_SIZE" by (simp add: CONTROL_PAGE_SIZE_def page_size_ok_def MAX_READ_PAGE_SIZE_def)
  have fold: "fold_r (apply_worker_fold (U ''p'')) empty_workers (facts sample_env s) = Inr f" using assms by (simp add: sample_log_def)
  obtain t where t: "frozen_fold WorkerStoreFailed (apply_worker_fold (U ''p'')) empty_workers sample_env sample_clock id CONTROL_PAGE_SIZE s =
      (t, map_sum id (Pair (int (length (facts sample_env s)))) (fold_r (apply_worker_fold (U ''p'')) empty_workers (facts sample_env s)))"
    "store_inv sample_env t" "id = id \<longrightarrow> db_events t = db_events s"
    by (rule frozen_fold_exact[OF sample_env_ok(1) sample_clock_ok(2) i p grows_id(1)]) blast
  have l: "later sample_env s t"
    by (rule frozen_fold_later(1)[OF sample_env_ok(1) sample_clock_ok(2) _ p grows_id(1) t(1)]) (use i in \<open>simp add: ready_def\<close>)
  have "worker_rebuild sample_env sample_clock id (U ''p'') CONTROL_PAGE_SIZE s = (t, Inr (int (length (facts sample_env s)), f))"
    unfolding worker_rebuild_frozen[OF sample_env_ok(1) sample_clock_ok(2) i p grows_id(1)] using t(1) fold by simp
  then show ?thesis using l t(3)
    by (intro that[of t]) (simp_all add: plane_rebuild_def sample_plane_def sample_turn_def later_def facts_def)
qed

lemma sample_cancel:
  assumes "ready sample_env s" "list_all (\<lambda>e. List.member WORKER_EVENT_TYPES (e_type e)) (facts sample_env s)"
  obtains t where "run_cancel_requested sample_plane sample_turn (U ''r'') (U ''a'') \<lparr>ps_store = s, ps_heartbeats = h\<rparr>
      = (\<lparr>ps_store = t, ps_heartbeats = h\<rparr>, Inr False)"
proof -
  have "is_ok (new_run_control (PyStr (U ''p'')) (PyStr (U ''r'')) CONTROL_PAGE_SIZE)" by code_simp
  then obtain c where c: "new_run_control (PyStr (U ''p'')) (PyStr (U ''r'')) CONTROL_PAGE_SIZE = Inr c" by (auto simp: is_ok_iff)
  then have p: "page_size_ok (rc_page_size c)"
    by (auto simp: new_run_control_def bind_r_Inr_iff require_page_size_def map_sum_Inr_iff split: if_splits)
  obtain t r where t: "rebuild sample_env sample_clock id c s = (t, r)" by fastforce
  have "r = Inr \<lparr>rh_last_sequence = int (length (facts sample_env s)), rh_snapshot = None\<rparr>"
    using rebuild_later(2)[OF sample_env_ok(1) sample_clock_ok(2) assms(1) p grows_id(1) t] worker_facts_run[OF assms(2)] by simp
  then show ?thesis using c t by (intro that[of t]) (simp add: run_cancel_requested_def sample_plane_def sample_turn_def)
qed

lemma sample_poll:
  assumes "sample_log s sample_fold n ids"
  shows "\<exists>\<tau> c. poll sample_plane sample_turns sample_token (U ''w'') False \<lparr>ps_store = s, ps_heartbeats = Map.empty\<rparr> = (\<tau>, Inr (Some c))"
proof -
  let ?g = "sample_grant\<lparr>gr_consumed_lease_id := Some (U ''l'')\<rparr>" and ?l = "sample_lease\<lparr>le_claimed := True\<rparr>"
  obtain t where t: "plane_rebuild sample_plane sample_turn \<lparr>ps_store = s, ps_heartbeats = Map.empty\<rparr>
      = (\<lparr>ps_store = t, ps_heartbeats = Map.empty\<rparr>, Inr sample_fold)"
    "ready sample_env t" "facts sample_env t = facts sample_env s" by (rule sample_rebuild[OF assms])
  have "list_all (\<lambda>e. List.member WORKER_EVENT_TYPES (e_type e)) (facts sample_env t)" using assms t(3) by (simp add: sample_log_def)
  then obtain u where u: "run_cancel_requested sample_plane sample_turn (U ''r'') (U ''a'') \<lparr>ps_store = t, ps_heartbeats = [U ''l'' \<mapsto> 5]\<rparr>
      = (\<lparr>ps_store = u, ps_heartbeats = [U ''l'' \<mapsto> 5]\<rparr>, Inr False)" by (rule sample_cancel[OF t(2)])
  have found: "fold_grant sample_fold (U ''g'') = Some ?g" "fold_queued_work sample_fold (U ''t'') (U ''a'') = Some sample_work"
    "lease_for_worker sample_fold (U ''t'') (U ''a'') (U ''w'') = Some ?l"
    by (simp_all add: fold_grant_def fold_queued_work_def lease_for_worker_def last_of_def sample_fold_def sample_grant_def sample_work_def sample_lease_def)
  obtain x where x: "plane_instant sample_time = Inr x" "\<not> x \<le> 5" using sample_checks(3)[OF refl] by blast
  have now: "tn_stamp sample_turn = 5" by (simp add: sample_turn_def)
  have ids: "cl_worker_id sample_grant_claims = U ''w''" "cl_grant_id sample_grant_claims = U ''g''" "gr_task_id ?g = U ''t''" "gr_attempt_id ?g = U ''a''"
    "le_expires_at ?l = sample_time" "le_claimed ?l" "le_status ?l = Leased" "le_lease_id ?l = U ''l''" "le_run_id ?l = U ''r''" "le_attempt_id ?l = U ''a''"
    "gr_grant_id ?g = U ''g''" "gr_consumed_lease_id ?g = Some (U ''l'')"
    by (simp_all add: sample_grant_claims_def sample_grant_def sample_lease_def)
  show ?thesis
    by (simp add: poll_def sample_turns_def now sample_token_verifies bind_p_def lift_p_def check_r_def ids(1,2) t(1) require_recorded_grant_def lift_option_def
      found sample_checks(1,2)[OF refl] poll_granted_def ids resume_or_reject_def x beat_def claimed_def u)
qed

end
