(* ===== verification/Plane_Theorems.thy ===== *)
theory Plane_Theorems
  imports Worker_Plane Plane_Samples
begin

text \<open>
  What the worker plane promises.  Each operation is a sequence of control calls, so the log only grows
  and every fact the plane adds is the drafted one, accepted by the fold.
\<close>

section \<open>Operations in sequence\<close>

lemma bind_p_Inr_iff: "bind_p m f s = (s', Inr y) \<longleftrightarrow> (\<exists>t x. m s = (t, Inr x) \<and> f x t = (s', Inr y))"
  by (auto simp: bind_p_def split: prod.splits sum.splits)

lemma lift_p_Inr_iff: "lift_p r s = (s', Inr x) \<longleftrightarrow> s' = s \<and> r = Inr x"
  by (auto simp: lift_p_def)

lemmas plane_steps = bind_p_Inr_iff lift_p_Inr_iff

definition plane_ready :: "plane \<Rightarrow> plane_state \<Rightarrow> bool" where
  "plane_ready P \<sigma> \<longleftrightarrow> ready (pl_env P) (ps_store \<sigma>)"

definition plane_later :: "plane \<Rightarrow> plane_state \<Rightarrow> plane_state \<Rightarrow> bool" where
  "plane_later P \<sigma> \<tau> \<longleftrightarrow> later (pl_env P) (ps_store \<sigma>) (ps_store \<tau>)"

definition plane_facts :: "plane \<Rightarrow> plane_state \<Rightarrow> research_event list" where
  "plane_facts P \<sigma> = facts (pl_env P) (ps_store \<sigma>)"

definition plane_fold :: "plane \<Rightarrow> research_event list \<Rightarrow> worker_error + worker_fold" where
  "plane_fold P es = fold_r (apply_worker_fold (pl_project_id P)) empty_workers es"

lemma plane_laterD: "plane_later P \<sigma> \<tau> \<Longrightarrow> plane_ready P \<tau>" "plane_later P \<sigma> \<tau> \<Longrightarrow> prefix (plane_facts P \<sigma>) (plane_facts P \<tau>)"
  by (simp_all add: plane_later_def later_def plane_ready_def plane_facts_def)

lemma plane_later_trans: "plane_later P \<sigma> \<tau> \<Longrightarrow> plane_later P \<tau> \<upsilon> \<Longrightarrow> plane_later P \<sigma> \<upsilon>"
  unfolding plane_later_def by (rule log_later_trans)

lemma plane_later_refl: "plane_ready P \<sigma> \<Longrightarrow> plane_later P \<sigma> \<sigma>"
  unfolding plane_later_def plane_ready_def by (rule log_later_refl)

lemma page_ok: "page_size_ok CONTROL_PAGE_SIZE"
  by (simp add: CONTROL_PAGE_SIZE_def page_size_ok_def MAX_READ_PAGE_SIZE_def)

lemma turn_before:
  assumes "turn_ok (pl_env P) w" "plane_ready P \<sigma>"
  shows "later (pl_env P) (ps_store \<sigma>) (tn_before w (ps_store \<sigma>))" "ready (pl_env P) (tn_before w (ps_store \<sigma>))"
  using assms grows_later later_ready unfolding turn_ok_def plane_ready_def by blast+

lemma plane_rebuild_call:
  assumes env: "env_ok (pl_env P)" and "turn_ok (pl_env P) w" "plane_ready P \<sigma>" "plane_rebuild P w \<sigma> = (\<tau>, r)"
  shows "plane_later P \<sigma> \<tau>"
    "r = Inr f \<Longrightarrow> \<exists>es. plane_fold P es = Inr f \<and> prefix (plane_facts P \<sigma>) es \<and> prefix es (plane_facts P \<tau>)"
proof -
  note b = turn_before[OF assms(2,3)]
  have w: "tn_freeze w \<noteq> Naive" "grows (pl_env P) (tn_others w)" using assms(2) by (simp_all add: turn_ok_def)
  have i: "store_inv (pl_env P) (tn_before w (ps_store \<sigma>))" "report_ok (pl_env P) (tn_before w (ps_store \<sigma>))"
    using b(2) by (simp_all add: ready_def)
  obtain s r' where s: "frozen_fold WorkerStoreFailed (apply_worker_fold (pl_project_id P)) empty_workers (pl_env P) (tn_freeze w) (tn_others w)
      CONTROL_PAGE_SIZE (tn_before w (ps_store \<sigma>)) = (s, r')" by fastforce
  note f = frozen_fold_later[OF env w(1) b(2) page_ok w(2) s]
  have \<tau>: "\<tau> = \<sigma>\<lparr>ps_store := s\<rparr>" "r = map_sum PlaneWorker snd r'"
    using assms(4) s unfolding plane_rebuild_def worker_rebuild_frozen[OF env w(1) i page_ok w(2)] by auto
  show "plane_later P \<sigma> \<tau>" using log_later_trans[OF b(1) f(1)] by (simp add: plane_later_def \<tau>)
  show "r = Inr f \<Longrightarrow> \<exists>es. plane_fold P es = Inr f \<and> prefix (plane_facts P \<sigma>) es \<and> prefix es (plane_facts P \<tau>)"
  proof (intro exI[of _ "facts (pl_env P) (tn_before w (ps_store \<sigma>))"] conjI)
    assume "r = Inr f"
    then show "plane_fold P (facts (pl_env P) (tn_before w (ps_store \<sigma>))) = Inr f"
      using \<tau>(2) f(2) by (auto simp: plane_fold_def map_sum_Inr_iff)
  qed (use b(1) f(1) in \<open>simp_all add: later_def plane_facts_def \<tau>\<close>)
qed

lemma run_cancel_later:
  assumes env: "env_ok (pl_env P)" and "turn_ok (pl_env P) w" "plane_ready P \<sigma>" "run_cancel_requested P w run attempt \<sigma> = (\<tau>, r)"
  shows "plane_later P \<sigma> \<tau>"
proof (cases "new_run_control (PyStr (pl_project_id P)) (PyStr run) CONTROL_PAGE_SIZE")
  case (Inl e)
  then show ?thesis using assms plane_later_refl by (simp add: run_cancel_requested_def)
next
  case (Inr c)
  note b = turn_before[OF assms(2,3)]
  have w: "tn_freeze w \<noteq> Naive" "grows (pl_env P) (tn_others w)" using assms(2) by (simp_all add: turn_ok_def)
  have p: "page_size_ok (rc_page_size c)"
    using Inr by (auto simp: new_run_control_def bind_r_Inr_iff require_page_size_def map_sum_Inr_iff split: if_splits)
  obtain s r' where s: "rebuild (pl_env P) (tn_freeze w) (tn_others w) c (tn_before w (ps_store \<sigma>)) = (s, r')" by fastforce
  have "\<tau> = \<sigma>\<lparr>ps_store := s\<rparr>" using assms(4) Inr s by (simp add: run_cancel_requested_def)
  with log_later_trans[OF b(1) rebuild_later(1)[OF env w(1) b(2) p w(2) s]] show ?thesis by (simp add: plane_later_def)
qed

lemma plane_get_event_later:
  assumes "turn_ok (pl_env P) w" "plane_ready P \<sigma>" "plane_get_event P w i \<sigma> = (\<tau>, r)"
  shows "plane_later P \<sigma> \<tau>"
  using turn_before[OF assms(1,2)] assms(3) by (auto simp: plane_get_event_def plane_later_def Let_def)

section \<open>The plane's facts\<close>

lemma draft_document_read:
  assumes "validate_event_document (PyDict (allocate n m (draft_document h data))) = Some e"
  shows "e_type e = dh_type h" "e_id e = dh_id h" "e_time e = dh_time h" "decode_event_data (PyDict data) = Some (e_data e)"
  using assms by (auto simp: validate_event_document_def draft_document_def allocate_def dict_update_def req_field_def check_o_def
    decode_simps split: if_splits)

lemma draft_data_read:
  assumes "decode_event_data (PyDict (draft_data actor p n None payload refs run attempt)) = Some da"
  shows "ed_project_id da = p" "ed_payload da = PyDict payload" "ed_run_id da = run" "ed_attempt_id da = attempt"
    "decode_actor (PyDict actor) = Some (ed_actor da)"
  using assms by (auto simp: decode_event_data_def draft_data_def req_field_def opt_field_def nullable_of_def check_o_def decode_payload_def
    key_if_def decode_simps split: if_splits option.splits)

text \<open>The draft of a worker fact, as it is checked before it is stored\<close>

lemma worker_draft_checked:
  assumes "preflight err own n (PyDict (worker_draft c t subject actor kind payload run attempt)) = Inr (d, pre)"
  shows "e_type pre = t" "e_id pre = dx_event_id c" "e_time pre = dx_time c" "ed_project_id (e_data pre) = dx_project_id c"
    "ed_payload (e_data pre) = PyDict payload" "ed_run_id (e_data pre) = run" "ed_attempt_id (e_data pre) = attempt" "own pre"
proof -
  note p = preflightD[OF assms]
  have d: "d = worker_draft c t subject actor kind payload run attempt" using p(1) by simp
  note r = draft_document_read[OF p(4)[unfolded d worker_draft_def worker_event_draft_def]]
  note q = draft_data_read[OF r(4)]
  show "e_type pre = t" "e_id pre = dx_event_id c" "e_time pre = dx_time c" "ed_project_id (e_data pre) = dx_project_id c"
    "ed_payload (e_data pre) = PyDict payload" "ed_run_id (e_data pre) = run" "ed_attempt_id (e_data pre) = attempt" "own pre"
    using r(1-3) q(1-4) p(5) by simp_all
qed

lemma worker_draft_ok:
  assumes "keys_distinct (PyDict payload)" "floats_ok (env_float env) (PyDict payload)"
  shows "draft_ok env (PyDict (worker_draft c t subject actor kind payload run attempt))"
  unfolding worker_draft_def worker_event_draft_def
  by (rule draft_document_ok(1); rule draft_data_trees[where fl = "env_float env"])
    (use assms in \<open>simp_all add: draft_actor_trees del: keys_distinct.simps floats_ok.simps\<close>)

lemma pairs_trees: "distinct (List.map fst kvs) \<Longrightarrow> keys_distinct (PyDict (pairs kvs)) \<and> floats_ok fl (PyDict (pairs kvs))"
proof -
  assume d: "distinct (List.map fst kvs)"
  have i: "inj U" by (auto simp: inj_def)
  have "distinct (List.map KStr (List.map U (List.map fst kvs)))" using d i by (simp add: distinct_map inj_on_def)
  then show ?thesis by (auto simp: pairs_def comp_def case_prod_unfold list_all_iff)
qed

text \<open>An append that returns\<close>

lemma plane_append_call:
  assumes env: "env_ok (pl_env P)" and w: "turn_ok (pl_env P) w" and "plane_ready P \<sigma>" "plane_append P w draft \<sigma> = (\<tau>, r)"
    "draft_ok (pl_env P) (PyDict draft)"
  shows "plane_later P \<sigma> \<tau>"
    "r = Inr st \<Longrightarrow> \<exists>es f d pre f'. plane_fold P es = Inr f \<and> prefix (plane_facts P \<sigma>) es
      \<and> preflight worker_preflight_errors (\<lambda>e. ed_project_id (e_data e) = pl_project_id P) (int (length es)) (PyDict draft) = Inr (d, pre)
      \<and> apply_worker_fold (pl_project_id P) f pre = Inr f' \<and> plane_facts P \<tau> = es @ [fact_of st] \<and> plane_fold P (plane_facts P \<tau>) = Inr f'
      \<and> (\<exists>m. st_event st = pre\<lparr>e_streamversion := m\<rparr>)"
proof -
  note b = turn_before[OF w assms(3)]
  have t: "tn_freeze w \<noteq> Naive" "clock_ok (tn_commit w)" "grows (pl_env P) (tn_others w)" "grows (pl_env P) (tn_others' w)"
    using w by (simp_all add: turn_ok_def)
  have i: "store_inv (pl_env P) (tn_before w (ps_store \<sigma>))" "report_ok (pl_env P) (tn_before w (ps_store \<sigma>))"
    using b(2) by (simp_all add: ready_def)
  obtain s r' where a: "fold_append worker_preflight_errors (\<lambda>e. ed_project_id (e_data e) = pl_project_id P) WorkerStoreFailed
      (apply_worker_fold (pl_project_id P)) empty_workers (pl_env P) (tn_freeze w) (tn_commit w) (tn_others w) (tn_others' w)
      CONTROL_PAGE_SIZE (PyDict draft) None (tn_before w (ps_store \<sigma>)) = (s, r')" by fastforce
  note c = log_control.fold_append_call[OF worker_log.log_control_axioms env t(1,2) b(2) page_ok t(3,4) assms(5) a]
  have \<tau>: "\<tau> = \<sigma>\<lparr>ps_store := s\<rparr>" "r = map_sum PlaneWorker id r'"
    using assms(4) a unfolding plane_append_def worker_append_fold[OF env t(1) i page_ok t(3)] by auto
  show "plane_later P \<sigma> \<tau>" using log_later_trans[OF b(1) c(1)] by (simp add: plane_later_def \<tau>)
  assume "r = Inr st"
  then have "r' = Inr st" using \<tau>(2) by (cases r') auto
  from c(2)[OF this] b(1) show "\<exists>es f d pre f'. plane_fold P es = Inr f \<and> prefix (plane_facts P \<sigma>) es
      \<and> preflight worker_preflight_errors (\<lambda>e. ed_project_id (e_data e) = pl_project_id P) (int (length es)) (PyDict draft) = Inr (d, pre)
      \<and> apply_worker_fold (pl_project_id P) f pre = Inr f' \<and> plane_facts P \<tau> = es @ [fact_of st] \<and> plane_fold P (plane_facts P \<tau>) = Inr f'
      \<and> (\<exists>m. st_event st = pre\<lparr>e_streamversion := m\<rparr>)"
    unfolding plane_fold_def plane_facts_def later_def \<tau> by fastforce
qed

text \<open>What an append of a worker fact of a known payload leaves: its handler accepted it.\<close>

lemma plane_fact:
  assumes env: "env_ok (pl_env P)" and w: "turn_ok (pl_env P) w" and rdy: "plane_ready P \<sigma>"
    and app: "plane_append P w (worker_draft (plane_context P i time) t subject actor kind (pairs kvs) run attempt) \<sigma> = (\<tau>, Inr st)"
    and dec: "map_of WORKER_PAYLOAD_MODELS t = Some dec" "\<And>x. dec (PyDict (pairs kvs)) = Some x \<Longrightarrow> x = payload"
    and kvs: "distinct (List.map fst kvs)"
  obtains es f pre f' where "plane_fold P es = Inr f" "prefix (plane_facts P \<sigma>) es" "prefix es (plane_facts P \<tau>)"
    "apply_worker_payload f pre payload = Inr f'" "plane_fold P (plane_facts P \<tau>) = Inr f'" "plane_later P \<sigma> \<tau>"
    "e_time pre = time" "ed_run_id (e_data pre) = run" "ed_attempt_id (e_data pre) = attempt" "e_id (st_event st) = i"
    "plane_facts P \<tau> = es @ [fact_of st]" "e_type (st_event st) = t"
proof -
  have "draft_ok (pl_env P) (PyDict (worker_draft (plane_context P i time) t subject actor kind (pairs kvs) run attempt))"
    using pairs_trees[OF kvs] by (intro worker_draft_ok) blast+
  note c = plane_append_call[OF env w rdy app this]
  obtain es f d pre f' where *: "plane_fold P es = Inr f" "prefix (plane_facts P \<sigma>) es"
      "preflight worker_preflight_errors (\<lambda>e. ed_project_id (e_data e) = pl_project_id P) (int (length es))
        (PyDict (worker_draft (plane_context P i time) t subject actor kind (pairs kvs) run attempt)) = Inr (d, pre)"
      "apply_worker_fold (pl_project_id P) f pre = Inr f'" "plane_facts P \<tau> = es @ [fact_of st]" "plane_fold P (plane_facts P \<tau>) = Inr f'"
      "\<exists>m. st_event st = pre\<lparr>e_streamversion := m\<rparr>"
    using c(2)[OF refl] by blast
  note r = worker_draft_checked[OF *(3)]
  have m: "List.member WORKER_EVENT_TYPES t"
  proof -
    have "List.map fst WORKER_PAYLOAD_MODELS = [TYPE_WORKER_REGISTERED, TYPE_WORK_QUEUED, TYPE_WORK_LEASED, TYPE_WORK_CLAIMED,
        TYPE_WORK_COMPLETED, TYPE_WORK_FAILED, TYPE_WORK_LEASE_EXPIRED, TYPE_GRANT_RECORDED, TYPE_GRANT_REVOKED, TYPE_GRANT_CONSUMED]"
      by (simp add: WORKER_PAYLOAD_MODELS_def)
    moreover have "t \<in> set (List.map fst WORKER_PAYLOAD_MODELS)" using dec(1) by (force dest: map_of_SomeD)
    ultimately show ?thesis by (auto simp: WORKER_EVENT_TYPES_def List.member_iff)
  qed
  have "apply_worker_payload f pre payload = Inr f'"
    using *(4) r(1,5,8) m dec by (auto simp: apply_worker_fold_def bind_r_Inr_iff parse_worker_payload_def lift_option_iff)
  with * r c(1) show ?thesis by (intro that) (auto simp: plane_context_def)
qed

section \<open>What the log keeps\<close>

lemma plane_fold_inv: "plane_fold P es = Inr f \<Longrightarrow> worker_inv f"
  unfolding plane_fold_def by (rule reachable_worker_inv)

lemma plane_fold_kept:
  assumes "plane_fold P es = Inr f" "plane_fold P es' = Inr f'" "prefix es es'"
  shows "worker_kept f f'"
proof -
  obtain fs where "es' = es @ fs" using assms(3) by (auto simp: prefix_def)
  then have "fold_r (apply_worker_fold (pl_project_id P)) f fs = Inr f'" using assms(1,2) by (simp add: plane_fold_def fold_r_append)
  then show ?thesis by (rule worker_fold_kept[OF _ plane_fold_inv[OF assms(1)]])
qed

lemma plane_kept_members:
  assumes "plane_fold P es = Inr f" "plane_fold P es' = Inr f'" "prefix es es'"
  shows "l \<in> set (wf_leases f) \<Longrightarrow> \<exists>l'\<in>set (wf_leases f'). lease_later l l'"
    "g \<in> set (wf_grants f) \<Longrightarrow> \<exists>g'\<in>set (wf_grants f'). grant_later g g'"
proof -
  have k: "extends_by lease_later (wf_leases f) (wf_leases f')" "extends_by grant_later (wf_grants f) (wf_grants f')"
    using plane_fold_kept[OF assms] by (simp_all add: worker_kept_def)
  show "l \<in> set (wf_leases f) \<Longrightarrow> \<exists>l'\<in>set (wf_leases f'). lease_later l l'" by (rule extends_by_member[OF k(1)])
  show "g \<in> set (wf_grants f) \<Longrightarrow> \<exists>g'\<in>set (wf_grants f'). grant_later g g'" by (rule extends_by_member[OF k(2)])
qed

lemma same_lease: "worker_inv f \<Longrightarrow> l \<in> set (wf_leases f) \<Longrightarrow> l' \<in> set (wf_leases f) \<Longrightarrow> le_lease_id l = le_lease_id l' \<Longrightarrow> l = l'"
  using worker_inv_distinct(4) by (metis distinct_map inj_onD)

lemma lease_laterD:
  assumes "lease_later l l'"
  shows "le_lease_id l' = le_lease_id l" "le_worker_id l' = le_worker_id l" "le_task_id l' = le_task_id l" "le_attempt_id l' = le_attempt_id l"
    "le_grant_id l' = le_grant_id l" "le_run_id l' = le_run_id l" "le_expires_at l' = le_expires_at l" "le_claimed l \<Longrightarrow> le_claimed l'"
proof -
  note d = assms[unfolded lease_later_def]
  note e = d[THEN conjunct1]
  show "le_lease_id l' = le_lease_id l" using arg_cong[OF e, of le_lease_id] by (simp add: lease_as_recorded_def)
  show "le_worker_id l' = le_worker_id l" using arg_cong[OF e, of le_worker_id] by (simp add: lease_as_recorded_def)
  show "le_task_id l' = le_task_id l" using arg_cong[OF e, of le_task_id] by (simp add: lease_as_recorded_def)
  show "le_attempt_id l' = le_attempt_id l" using arg_cong[OF e, of le_attempt_id] by (simp add: lease_as_recorded_def)
  show "le_grant_id l' = le_grant_id l" using arg_cong[OF e, of le_grant_id] by (simp add: lease_as_recorded_def)
  show "le_run_id l' = le_run_id l" using arg_cong[OF e, of le_run_id] by (simp add: lease_as_recorded_def)
  show "le_expires_at l' = le_expires_at l" using arg_cong[OF e, of le_expires_at] by (simp add: lease_as_recorded_def)
  show "le_claimed l \<Longrightarrow> le_claimed l'" using d by blast
qed

lemma grant_laterD:
  assumes "grant_later g g'"
  shows "gr_grant_id g' = gr_grant_id g" "gr_consumed_lease_id g = Some x \<Longrightarrow> gr_consumed_lease_id g' = Some x"
proof -
  note d = assms[unfolded grant_later_def]
  show "gr_grant_id g' = gr_grant_id g" using recorded_grant[OF d[THEN conjunct1]] by blast
  show "gr_consumed_lease_id g = Some x \<Longrightarrow> gr_consumed_lease_id g' = Some x" using d by simp
qed

section \<open>The facts of a lease\<close>

lemma claim_lease_call:
  assumes "env_ok (pl_env P)" "turn_ok (pl_env P) w" "plane_ready P \<sigma>"
    "claim_lease P w now lease_id worker_id nonce run attempt \<sigma> = (\<tau>, Inr st)"
    "plane_fold P es = Inr f" "prefix es (plane_facts P \<sigma>)" "l \<in> set (wf_leases f)" "le_lease_id l = lease_id"
  shows "plane_later P \<sigma> \<tau>" "\<exists>f' l'. plane_fold P (plane_facts P \<tau>) = Inr f' \<and> l' \<in> set (wf_leases f') \<and> lease_later l l' \<and> le_claimed l'
    \<and> le_worker_id l' = worker_id"
proof -
  obtain es1 f1 pre f2 where *: "plane_fold P es1 = Inr f1" "prefix (plane_facts P \<sigma>) es1" "prefix es1 (plane_facts P \<tau>)"
    "apply_worker_payload f1 pre (WorkClaimedPayload lease_id worker_id nonce) = Inr f2" "plane_fold P (plane_facts P \<tau>) = Inr f2"
    "plane_later P \<sigma> \<tau>"
    using assms(4) unfolding claim_lease_def work_claimed_draft_def
    by (rule plane_fact[OF assms(1-3) _ payload_models(5) pairs_only(1)]) (simp_all, blast)
  show "plane_later P \<sigma> \<tau>" by (rule *(6))
  have p: "prefix es es1" using assms(6) *(2) by (rule prefix_order.trans)
  obtain l1 where l1: "l1 \<in> set (wf_leases f1)" "lease_later l l1" using plane_kept_members(1)[OF assms(5) *(1) p assms(7)] by blast
  obtain cur where cur: "fold_lease f1 lease_id = Some cur" "le_worker_id cur = worker_id" "le_claimed cur \<and> f2 = f1
      \<or> \<not> List.member TERMINAL_LEASE (le_status cur) \<and> f2 = f1\<lparr>wf_leases := replace_lease (wf_leases f1) (cur\<lparr>le_claimed := True\<rparr>)\<rparr>"
    using *(4) by (auto simp: apply_claimed_def split: option.splits if_splits)
  have same: "cur = l1"
    using same_lease[OF plane_fold_inv[OF *(1)]] fold_lease_Some[OF cur(1)] l1 lease_laterD(1)[OF l1(2)] assms(8) by metis
  obtain l2 where l2: "l2 \<in> set (wf_leases f2)" "lease_later l1 l2" using plane_kept_members(1)[OF *(1,5,3) l1(1)] by blast
  have "le_claimed l2"
  proof (cases "le_claimed cur")
    case True
    then show ?thesis using l2(2) same by (auto simp: lease_later_def)
  next
    case False
    then have "cur\<lparr>le_claimed := True\<rparr> \<in> set (wf_leases f2)"
      using cur(3) fold_lease_Some[OF cur(1)] by (auto simp: replace_lease_def)
    moreover have "le_lease_id (cur\<lparr>le_claimed := True\<rparr>) = le_lease_id l2" using lease_laterD(1)[OF l2(2)] same by simp
    ultimately show ?thesis using same_lease[OF plane_fold_inv[OF *(5)] l2(1)] by fastforce
  qed
  moreover have "le_worker_id l2 = worker_id" using lease_laterD(2)[OF l2(2)] same cur(2) by simp
  moreover have "lease_later l l2" using l1(2) l2(2) by (rule later_trans(2))
  ultimately show "\<exists>f' l'. plane_fold P (plane_facts P \<tau>) = Inr f' \<and> l' \<in> set (wf_leases f') \<and> lease_later l l' \<and> le_claimed l'
    \<and> le_worker_id l' = worker_id" using *(5) l2(1) by blast
qed

lemma consume_grant_call:
  assumes "env_ok (pl_env P)" "turn_ok (pl_env P) w" "plane_ready P \<sigma>" "consume_grant P w now g lease_id run attempt \<sigma> = (\<tau>, Inr st)"
  shows "plane_later P \<sigma> \<tau>" "\<exists>f' g'. plane_fold P (plane_facts P \<tau>) = Inr f' \<and> g' \<in> set (wf_grants f') \<and> gr_grant_id g' = gr_grant_id g
    \<and> gr_consumed_lease_id g' = Some lease_id"
proof -
  obtain es1 f1 pre f2 where *: "plane_fold P es1 = Inr f1" "prefix es1 (plane_facts P \<tau>)"
    "apply_worker_payload f1 pre (GrantConsumedPayload (gr_grant_id g) lease_id (gr_nonce g)) = Inr f2" "plane_fold P (plane_facts P \<tau>) = Inr f2"
    "plane_later P \<sigma> \<tau>"
    using assms(4) unfolding consume_grant_def grant_consumed_draft_def
    by (rule plane_fact[OF assms(1-3) _ payload_models(9) pairs_only(2)]) (simp_all, blast)
  show "plane_later P \<sigma> \<tau>" by (rule *(5))
  obtain cur where cur: "fold_grant f1 (gr_grant_id g) = Some cur" "gr_consumed_lease_id cur = Some lease_id \<and> f2 = f1
      \<or> f2 = f1\<lparr>wf_grants := replace_grant (wf_grants f1) (cur\<lparr>gr_consumed_lease_id := Some lease_id\<rparr>)\<rparr>"
    using *(3) by (auto simp: apply_grant_consumed_def split: option.splits if_splits)
  have "(if gr_consumed_lease_id cur = Some lease_id \<and> f2 = f1 then cur else cur\<lparr>gr_consumed_lease_id := Some lease_id\<rparr>) \<in> set (wf_grants f2)"
    using cur(2) fold_grant_Some[OF cur(1)] by (auto simp: replace_grant_def)
  then show "\<exists>f' g'. plane_fold P (plane_facts P \<tau>) = Inr f' \<and> g' \<in> set (wf_grants f') \<and> gr_grant_id g' = gr_grant_id g
    \<and> gr_consumed_lease_id g' = Some lease_id"
    using *(4) fold_grant_Some[OF cur(1)] by (intro exI[of _ f2] exI[of _ "if gr_consumed_lease_id cur = Some lease_id \<and> f2 = f1 then cur
      else cur\<lparr>gr_consumed_lease_id := Some lease_id\<rparr>"]) auto
qed

lemma claimed_call:
  assumes "env_ok (pl_env P)" "turn_ok (pl_env P) w" "plane_ready P \<sigma>" "claimed P w l nonce q resumed \<sigma> = (\<tau>, Inr c)"
  shows "plane_later P \<sigma> \<tau>" "cw_lease_id c = le_lease_id l" "cw_worker_id c = le_worker_id l" "cw_task_id c = le_task_id l"
    "cw_attempt_id c = le_attempt_id l" "cw_run_id c = le_run_id l" "cw_nonce c = nonce" "cw_image_digest c = qw_image_digest q"
    "cw_config_digest c = qw_config_digest q" "cw_config c = qw_config q" "cw_inputs c = qw_inputs q" "cw_grant_id c = le_grant_id l"
    "cw_expires_at c = le_expires_at l" "cw_resumed c = resumed" "cw_runtime c = qw_runtime q"
  using assms(4) run_cancel_later[OF assms(1-3)] by (auto simp: claimed_def plane_steps)

lemma lease_call:
  assumes "env_ok (pl_env P)" "turn_ok (pl_env P) w" "plane_ready P \<sigma>"
    "plane_append P w (work_leased_draft (plane_context P i time) p run attempt) \<sigma> = (\<tau>, Inr st)"
  shows "plane_later P \<sigma> \<tau>" "\<exists>f' l. plane_fold P (plane_facts P \<tau>) = Inr f' \<and> l \<in> set (wf_leases f') \<and> le_lease_id l = wl_lease_id p
    \<and> le_worker_id l = wl_worker_id p \<and> le_task_id l = wl_task_id p \<and> le_attempt_id l = attempt"
proof -
  obtain es1 f1 pre f2 where *: "apply_worker_payload f1 pre (WorkLeasedPayload \<lparr>wl_lease_id = wl_lease_id p, wl_worker_id = wl_worker_id p,
      wl_task_id = wl_task_id p, wl_grant_id = wl_grant_id p, wl_expires_at = wl_expires_at p\<rparr>) = Inr f2"
    "plane_fold P (plane_facts P \<tau>) = Inr f2" "plane_later P \<sigma> \<tau>" "ed_attempt_id (e_data pre) = Some attempt"
    using assms(4) unfolding work_leased_draft_def
    by (rule plane_fact[OF assms(1-3) _ payload_models(4) pairs_only(7)]) (simp_all, blast)
  show "plane_later P \<sigma> \<tau>" by (rule *(3))
  have "apply_leased f1 pre \<lparr>wl_lease_id = wl_lease_id p, wl_worker_id = wl_worker_id p,
      wl_task_id = wl_task_id p, wl_grant_id = wl_grant_id p, wl_expires_at = wl_expires_at p\<rparr> = Inr f2" using *(1) by simp
  then obtain l where "f2 = f1\<lparr>wf_leases := wf_leases f1 @ [l]\<rparr>" "le_lease_id l = wl_lease_id p" "le_worker_id l = wl_worker_id p"
      "le_task_id l = wl_task_id p" "le_attempt_id l = attempt"
    by (rule apply_leased_result) (use *(4) in simp)
  with *(2) show "\<exists>f' l. plane_fold P (plane_facts P \<tau>) = Inr f' \<and> l \<in> set (wf_leases f') \<and> le_lease_id l = wl_lease_id p
    \<and> le_worker_id l = wl_worker_id p \<and> le_task_id l = wl_task_id p \<and> le_attempt_id l = attempt" by (intro exI[of _ f2] exI[of _ l]) simp
qed

text \<open>Work that is handed out: the fold that has the claimed lease and the consumed grant\<close>

definition handed_out :: "plane \<Rightarrow> research_event list \<Rightarrow> pystr \<Rightarrow> pystr \<Rightarrow> pystr \<Rightarrow> pystr \<Rightarrow> pystr \<Rightarrow> pystr \<Rightarrow> bool" where
  "handed_out P es lease_id worker_id task attempt grant_id by \<longleftrightarrow> (\<exists>f l g. plane_fold P es = Inr f
     \<and> l \<in> set (wf_leases f) \<and> le_lease_id l = lease_id \<and> le_claimed l \<and> le_worker_id l = worker_id \<and> le_task_id l = task
     \<and> le_attempt_id l = attempt \<and> g \<in> set (wf_grants f) \<and> gr_grant_id g = grant_id \<and> gr_consumed_lease_id g = Some by)"

lemma handed_outI:
  assumes "plane_fold P es1 = Inr f1" "l \<in> set (wf_leases f1)" "le_lease_id l = lease_id" "le_claimed l" "le_worker_id l = worker_id"
    "le_task_id l = task" "le_attempt_id l = attempt" "plane_fold P es2 = Inr f2" "g \<in> set (wf_grants f2)" "gr_grant_id g = grant_id"
    "gr_consumed_lease_id g = Some by" "prefix es1 es" "prefix es2 es" "plane_fold P es = Inr f"
  shows "handed_out P es lease_id worker_id task attempt grant_id by"
proof -
  obtain l' where "l' \<in> set (wf_leases f)" "lease_later l l'" using plane_kept_members(1)[OF assms(1,14,12,2)] by blast
  moreover obtain g' where "g' \<in> set (wf_grants f)" "grant_later g g'" using plane_kept_members(2)[OF assms(8,14,13,9)] by blast
  ultimately show ?thesis
    using assms(3-7,10,11,14) lease_laterD[of l l'] grant_laterD[of g g'] unfolding handed_out_def
    by (intro exI[of _ f] exI[of _ l'] exI[of _ g']) simp
qed

lemma open_lease_call:
  assumes env: "env_ok (pl_env P)" and w: "\<And>i. turn_ok (pl_env P) (w i)" and rdy: "plane_ready P \<sigma>"
    and run: "open_lease P w f q g now \<sigma> = (\<tau>, Inr c)"
  shows "cw_lease_id c = U ''lease.'' @ gr_grant_id g" "cw_nonce c = gr_nonce g" "cw_config c = qw_config q" "cw_inputs c = qw_inputs q"
    "cw_image_digest c = qw_image_digest q" "cw_config_digest c = qw_config_digest q" "cw_runtime c = qw_runtime q"
    "\<exists>es. prefix (plane_facts P \<sigma>) es \<and> prefix es (plane_facts P \<tau>)
      \<and> handed_out P es (cw_lease_id c) (gr_worker_id g) (gr_task_id g) (qw_attempt_id q) (gr_grant_id g) (cw_lease_id c)"
proof -
  let ?l = "U ''lease.'' @ gr_grant_id g" and ?x = "format_rfc3339 (now + pl_lease_seconds P * 1000000)"
  let ?lease = "\<lparr>le_lease_id = ?l, le_worker_id = gr_worker_id g, le_task_id = gr_task_id g, le_grant_id = gr_grant_id g,
       le_run_id = qw_run_id q, le_attempt_id = qw_attempt_id q, le_expires_at = ?x, le_claimed = True,
       le_status = Leased, le_result_digest = None, le_artifact_digest = None, le_reason_code = None\<rparr>"
  obtain \<sigma>1 \<sigma>2 \<sigma>3 \<sigma>4 st1 st2 st3 where *:
    "plane_append P (w 0) (work_leased_draft (plane_context P (U ''evt.work.leased.'' @ ?l) (format_rfc3339 now))
       \<lparr>wl_lease_id = ?l, wl_worker_id = gr_worker_id g, wl_task_id = gr_task_id g, wl_grant_id = gr_grant_id g, wl_expires_at = ?x\<rparr>
       (qw_run_id q) (qw_attempt_id q)) \<sigma> = (\<sigma>1, Inr st1)"
    "claim_lease P (w 1) now ?l (gr_worker_id g) (gr_nonce g) (qw_run_id q) (qw_attempt_id q) \<sigma>1 = (\<sigma>2, Inr st2)"
    "consume_grant P (w 2) now g ?l (qw_run_id q) (qw_attempt_id q) \<sigma>2 = (\<sigma>3, Inr st3)"
    "beat ?l now \<sigma>3 = (\<sigma>4, Inr ())" "claimed P (w 3) ?lease (gr_nonce g) q False \<sigma>4 = (\<tau>, Inr c)"
    using run unfolding open_lease_def Let_def plane_steps by auto
  note c1 = lease_call[OF env w rdy *(1)]
  have r1: "plane_ready P \<sigma>1" by (rule plane_laterD(1)[OF c1(1)])
  obtain f1 l1 where l1: "plane_fold P (plane_facts P \<sigma>1) = Inr f1" "l1 \<in> set (wf_leases f1)" "le_lease_id l1 = ?l"
    "le_worker_id l1 = gr_worker_id g" "le_task_id l1 = gr_task_id g" "le_attempt_id l1 = qw_attempt_id q" using c1(2) by auto
  note c2 = claim_lease_call[OF env w r1 *(2) l1(1) prefix_order.refl l1(2,3)]
  have r2: "plane_ready P \<sigma>2" by (rule plane_laterD(1)[OF c2(1)])
  obtain f2 l2 where l2: "plane_fold P (plane_facts P \<sigma>2) = Inr f2" "l2 \<in> set (wf_leases f2)" "lease_later l1 l2" "le_claimed l2" using c2(2) by blast
  note c3 = consume_grant_call[OF env w r2 *(3)]
  have r3: "plane_ready P \<sigma>3" by (rule plane_laterD(1)[OF c3(1)])
  obtain f3 g3 where g3: "plane_fold P (plane_facts P \<sigma>3) = Inr f3" "g3 \<in> set (wf_grants f3)" "gr_grant_id g3 = gr_grant_id g"
    "gr_consumed_lease_id g3 = Some ?l" using c3(2) by blast
  have r4: "plane_ready P \<sigma>4" "plane_facts P \<sigma>4 = plane_facts P \<sigma>3" using *(4) r3 by (auto simp: beat_def plane_ready_def plane_facts_def)
  note c4 = claimed_call[OF env w r4(1) *(5)]
  show "cw_lease_id c = ?l" "cw_nonce c = gr_nonce g" "cw_config c = qw_config q" "cw_inputs c = qw_inputs q"
    "cw_image_digest c = qw_image_digest q" "cw_config_digest c = qw_config_digest q" "cw_runtime c = qw_runtime q"
    using c4 by simp_all
  have p: "prefix (plane_facts P \<sigma>2) (plane_facts P \<sigma>3)" by (rule plane_laterD(2)[OF c3(1)])
  have "prefix (plane_facts P \<sigma>) (plane_facts P \<sigma>3)"
    by (rule plane_laterD(2)[OF plane_later_trans[OF c1(1) plane_later_trans[OF c2(1) c3(1)]]])
  moreover have "prefix (plane_facts P \<sigma>3) (plane_facts P \<tau>)" using plane_laterD(2)[OF c4(1)] r4(2) by simp
  moreover have "handed_out P (plane_facts P \<sigma>3) (cw_lease_id c) (gr_worker_id g) (gr_task_id g) (qw_attempt_id q) (gr_grant_id g) (cw_lease_id c)"
    using c4(2) l1 lease_laterD[OF l2(3)] g3
    by (intro handed_outI[OF l2(1,2) _ l2(4) _ _ _ g3(1,2) _ _ p prefix_order.refl g3(1)]) simp_all
  ultimately show "\<exists>es. prefix (plane_facts P \<sigma>) es \<and> prefix es (plane_facts P \<tau>)
      \<and> handed_out P es (cw_lease_id c) (gr_worker_id g) (gr_task_id g) (qw_attempt_id q) (gr_grant_id g) (cw_lease_id c)" by blast
qed

lemma expire_later:
  assumes env: "env_ok (pl_env P)" and w: "turn_ok (pl_env P) w" "turn_ok (pl_env P) w'" and rdy: "plane_ready P \<sigma>"
    and run: "expire_lease P w w' i time \<sigma> = (\<tau>, Inr st)"
  shows "plane_later P \<sigma> \<tau>"
proof -
  obtain \<sigma>1 f where *: "plane_rebuild P w \<sigma> = (\<sigma>1, Inr f)"
    and c: "(case fold_lease f i of None \<Rightarrow> lift_p (Inl (plane_call_error ''unknown-lease''))
     | Some l \<Rightarrow> plane_append P w' (work_lease_expired_draft
         (plane_context P (U ''evt.work.lease.expired.'' @ le_lease_id l) (plane_stamp w' time))
         (le_lease_id l) (le_worker_id l) (le_run_id l) (le_attempt_id l) (U ''lease.expired''))) \<sigma>1 = (\<tau>, Inr st)"
    using run unfolding expire_lease_def bind_p_Inr_iff by blast
  obtain l where fl: "fold_lease f i = Some l" using c by (cases "fold_lease f i") (simp_all add: lift_p_Inr_iff)
  have l: "plane_append P w' (work_lease_expired_draft
         (plane_context P (U ''evt.work.lease.expired.'' @ le_lease_id l) (plane_stamp w' time))
         (le_lease_id l) (le_worker_id l) (le_run_id l) (le_attempt_id l) (U ''lease.expired'')) \<sigma>1 = (\<tau>, Inr st)"
    using c fl by simp
  note r = plane_rebuild_call(1)[OF env w(1) rdy *]
  have "draft_ok (pl_env P) (PyDict (work_lease_expired_draft
         (plane_context P (U ''evt.work.lease.expired.'' @ le_lease_id l) (plane_stamp w' time))
         (le_lease_id l) (le_worker_id l) (le_run_id l) (le_attempt_id l) (U ''lease.expired'')))"
    unfolding work_lease_expired_draft_def by (rule worker_draft_ok; rule pairs_trees[THEN conjunct1] pairs_trees[THEN conjunct2]) simp_all
  from plane_later_trans[OF r plane_append_call(1)[OF env w(2) plane_laterD(1)[OF r] l this]] show ?thesis .
qed

lemma resume_call:
  assumes env: "env_ok (pl_env P)" and w: "\<And>i. turn_ok (pl_env P) (w i)" and rdy: "plane_ready P \<sigma>"
    and run: "resume_or_reject P w f l q g now \<sigma> = (\<tau>, Inr (Some c))"
    and fold: "plane_fold P es = Inr f" "prefix es (plane_facts P \<sigma>)" "l \<in> set (wf_leases f)" "fold_grant f (gr_grant_id g) = Some g"
  shows "cw_lease_id c = le_lease_id l" "cw_nonce c = gr_nonce g" "cw_config c = qw_config q" "cw_inputs c = qw_inputs q"
    "cw_image_digest c = qw_image_digest q" "cw_config_digest c = qw_config_digest q" "cw_runtime c = qw_runtime q"
    "\<exists>es' x. prefix es es' \<and> prefix es' (plane_facts P \<tau>)
      \<and> handed_out P es' (cw_lease_id c) (le_worker_id l) (le_task_id l) (le_attempt_id l) (gr_grant_id g) x
      \<and> (x = cw_lease_id c \<or> gr_consumed_lease_id g = Some x)"
proof -
  have live: "le_status l \<noteq> Completed" "\<not> (le_status l = Failed \<or> le_status l = Expired)"
    using run by (auto simp: resume_or_reject_def lift_p_Inr_iff split: if_splits)
  obtain expires where x: "plane_instant (le_expires_at l) = Inr expires" "\<not> expires \<le> now"
    using run live by (auto simp: resume_or_reject_def plane_steps split: if_splits)
  let ?claim = "if le_claimed l then lift_p (Inr ()) else bind_p (claim_lease P (w 2) now (le_lease_id l) (le_worker_id l) (gr_nonce g)
      (le_run_id l) (le_attempt_id l)) (\<lambda>_. lift_p (Inr ()))"
  let ?consume = "if gr_consumed_lease_id g = None then bind_p (consume_grant P (w 3) now g (le_lease_id l) (le_run_id l) (le_attempt_id l))
      (\<lambda>_. lift_p (Inr ())) else lift_p (Inr ())"
  obtain \<sigma>1 \<sigma>2 \<sigma>3 where *: "?claim \<sigma> = (\<sigma>1, Inr ())" "?consume \<sigma>1 = (\<sigma>2, Inr ())" "beat (le_lease_id l) now \<sigma>2 = (\<sigma>3, Inr ())"
    "claimed P (w 4) l (gr_nonce g) q (le_claimed l) \<sigma>3 = (\<tau>, Inr c)"
    using run live x fold(4) by (auto simp: resume_or_reject_def plane_steps split del: if_split)
  have c1: "plane_later P \<sigma> \<sigma>1 \<and> (\<exists>es1 f1 l1. plane_fold P es1 = Inr f1 \<and> prefix es es1 \<and> prefix es1 (plane_facts P \<sigma>1)
      \<and> l1 \<in> set (wf_leases f1) \<and> lease_later l l1 \<and> le_claimed l1)"
  proof (cases "le_claimed l")
    case True
    then show ?thesis using *(1) plane_later_refl[OF rdy] fold(1-3) later_refl(2)
      by (auto simp: lift_p_Inr_iff intro!: exI[of _ es] exI[of _ f] exI[of _ l])
  next
    case False
    then obtain st where "claim_lease P (w 2) now (le_lease_id l) (le_worker_id l) (gr_nonce g) (le_run_id l) (le_attempt_id l) \<sigma> = (\<sigma>1, Inr st)"
      using *(1) by (auto simp: plane_steps)
    note c = claim_lease_call[OF env w rdy this fold(1,2,3) refl]
    have "prefix es (plane_facts P \<sigma>1)" using fold(2) plane_laterD(2)[OF c(1)] by (rule prefix_order.trans)
    with c show ?thesis by blast
  qed
  then obtain es1 f1 l1 where l1: "plane_fold P es1 = Inr f1" "prefix es es1" "prefix es1 (plane_facts P \<sigma>1)"
    "l1 \<in> set (wf_leases f1)" "lease_later l l1" "le_claimed l1" by blast
  have r1: "plane_ready P \<sigma>1" by (rule plane_laterD(1)[OF c1[THEN conjunct1]])
  have g: "g \<in> set (wf_grants f)" using fold_grant_Some[OF fold(4)] by blast
  have c2: "plane_later P \<sigma>1 \<sigma>2 \<and> (\<exists>es2 f2 g2 x. plane_fold P es2 = Inr f2 \<and> prefix es1 es2 \<and> prefix es2 (plane_facts P \<sigma>2)
      \<and> g2 \<in> set (wf_grants f2) \<and> gr_grant_id g2 = gr_grant_id g \<and> gr_consumed_lease_id g2 = Some x
      \<and> (x = le_lease_id l \<or> gr_consumed_lease_id g = Some x))"
  proof (cases "gr_consumed_lease_id g")
    case None
    then obtain st where "consume_grant P (w 3) now g (le_lease_id l) (le_run_id l) (le_attempt_id l) \<sigma>1 = (\<sigma>2, Inr st)"
      using *(2) by (auto simp: plane_steps)
    note c = consume_grant_call[OF env w r1 this]
    have "prefix es1 (plane_facts P \<sigma>2)" using l1(3) plane_laterD(2)[OF c(1)] by (rule prefix_order.trans)
    with c show ?thesis by blast
  next
    case (Some x)
    then have "\<sigma>2 = \<sigma>1" using *(2) by (simp add: lift_p_Inr_iff)
    moreover obtain g2 where "g2 \<in> set (wf_grants f1)" "grant_later g g2" using plane_kept_members(2)[OF fold(1) l1(1,2) g] by blast
    ultimately show ?thesis using Some l1(1,3) plane_later_refl[OF r1] grant_laterD[of g g2]
      by (intro conjI exI[of _ es1] exI[of _ f1] exI[of _ g2] exI[of _ x]) simp_all
  qed
  then obtain es2 f2 g2 x where g2: "plane_fold P es2 = Inr f2" "prefix es1 es2" "prefix es2 (plane_facts P \<sigma>2)" "g2 \<in> set (wf_grants f2)"
    "gr_grant_id g2 = gr_grant_id g" "gr_consumed_lease_id g2 = Some x" "x = le_lease_id l \<or> gr_consumed_lease_id g = Some x" by blast
  have r3: "plane_ready P \<sigma>3" "plane_facts P \<sigma>3 = plane_facts P \<sigma>2"
    using *(3) plane_laterD(1)[OF c2[THEN conjunct1]] by (auto simp: beat_def plane_ready_def plane_facts_def)
  note c3 = claimed_call[OF env w r3(1) *(4)]
  show "cw_lease_id c = le_lease_id l" "cw_nonce c = gr_nonce g" "cw_config c = qw_config q" "cw_inputs c = qw_inputs q"
    "cw_image_digest c = qw_image_digest q" "cw_config_digest c = qw_config_digest q" "cw_runtime c = qw_runtime q"
    using c3 by simp_all
  have "prefix es es2" using l1(2) g2(2) by (rule prefix_order.trans)
  moreover have "prefix es2 (plane_facts P \<tau>)" using g2(3) plane_laterD(2)[OF c3(1)] r3(2) by (auto intro: prefix_order.trans)
  moreover have "handed_out P es2 (cw_lease_id c) (le_worker_id l) (le_task_id l) (le_attempt_id l) (gr_grant_id g) x"
    using c3(2) lease_laterD[OF l1(5)] g2
    by (intro handed_outI[OF l1(1,4) _ l1(6) _ _ _ g2(1,4) _ _ g2(2) prefix_order.refl g2(1)]) simp_all
  ultimately show "\<exists>es' x. prefix es es' \<and> prefix es' (plane_facts P \<tau>)
      \<and> handed_out P es' (cw_lease_id c) (le_worker_id l) (le_task_id l) (le_attempt_id l) (gr_grant_id g) x
      \<and> (x = cw_lease_id c \<or> gr_consumed_lease_id g = Some x)"
    using g2(7) c3(2) by (intro exI[of _ es2] exI[of _ x]) simp
qed

lemma poll_fresh_call:
  assumes env: "env_ok (pl_env P)" and w: "\<And>i. turn_ok (pl_env P) (w i)" and rdy: "plane_ready P \<sigma>"
    and run: "poll_fresh P w f q g now \<sigma> = (\<tau>, Inr (Some c))"
  obtains \<upsilon> f' where "plane_later P \<sigma> \<upsilon>" "open_lease P (\<lambda>i. w (4 + i)) f' q g now \<upsilon> = (\<tau>, Inr c)"
proof -
  obtain \<sigma>2 where s1: "run_cancel_requested P (w 0) (qw_run_id q) (qw_attempt_id q) \<sigma> = (\<sigma>2, Inr False)"
    using run by (auto simp: poll_fresh_def plane_steps split: if_splits)
  obtain stale :: "lease_record option" and \<sigma>3 f' where s: "(case stale of Some l \<Rightarrow> if \<not> List.member TERMINAL_LEASE (le_status l)
        then bind_p (expire_lease P (w 1) (w 2) (le_lease_id l) None) (\<lambda>_. plane_rebuild P (w 3)) else lift_p (Inr f)
      | None \<Rightarrow> lift_p (Inr f)) \<sigma>2 = (\<sigma>3, Inr f')" "open_lease P (\<lambda>i. w (4 + i)) f' q g now \<sigma>3 = (\<tau>, Inr c)"
    using run s1 unfolding poll_fresh_def bind_p_def[of "run_cancel_requested _ _ _ _"]
    by (simp add: bind_p_Inr_iff lift_p_Inr_iff) (elim exE conjE, erule (1) that)
  note l2 = run_cancel_later[OF env w rdy s1]
  have rdy2: "plane_ready P \<sigma>2" by (rule plane_laterD(1)[OF l2])
  have "plane_later P \<sigma>2 \<sigma>3"
  proof (cases "\<exists>l. stale = Some l \<and> \<not> List.member TERMINAL_LEASE (le_status l)")
    case True
    then obtain l :: lease_record and \<sigma>' st where "expire_lease P (w 1) (w 2) (le_lease_id l) None \<sigma>2 = (\<sigma>', Inr st)" "plane_rebuild P (w 3) \<sigma>' = (\<sigma>3, Inr f')"
      using s(1) by (auto simp: bind_p_Inr_iff)
    then show ?thesis
      using expire_later[OF env w w rdy2] plane_rebuild_call(1)[OF env w] plane_laterD(1) plane_later_trans by metis
  next
    case False
    then have "\<sigma>3 = \<sigma>2" using s(1) by (cases stale) (auto simp: lift_p_Inr_iff)
    then show ?thesis using plane_later_refl[OF rdy2] by simp
  qed
  with plane_later_trans[OF l2] s(2) show ?thesis by (intro that)
qed

section \<open>Statements\<close>

lemma live_grantD:
  assumes "require_live_grant P g c now = Inr ()"
  shows "\<not> gr_revoked g" "gr_worker_id g = cl_worker_id c" "\<exists>t. instant_of (gr_expires_at g) = Inr t \<and> now < t"
  using assms by (auto simp: require_live_grant_def bind_r_Inr_iff check_r_iff plane_instant_def map_sum_Inr_iff)

lemma execution_matchD:
  assumes "require_execution_match P g q c = Inr ()"
  shows "brick_execution_digest (env_sha (pl_env P)) (gr_image_digest g) (qw_config q) (qw_inputs q) (qw_image_media_type q) (qw_runtime q)
      = Inr (gr_config_digest g)"
    "qw_image_digest q = gr_image_digest g" "qw_config_digest q = gr_config_digest g" "qw_attempt_id q = gr_attempt_id g"
  using assms by (auto simp: require_execution_match_def require_execution_digest_def bind_r_Inr_iff check_r_iff)

text \<open>C6: When a poll hands out work, it was allowed to.  The token verified and is the polling worker's, and it names a grant of the
  log that is neither revoked nor expired; what is handed out is the queued execution object whose digest, computed anew, is the one the
  grant was recorded for.  And by the time the poll returns the log says so: it has a claimed lease of that worker for the task attempt of
  the grant, and the grant is consumed, by this lease unless it had been consumed before.  This holds whatever other writers do between
  the calls the poll makes.\<close>

theorem poll_hands_out_authorized_work:
  assumes "env_ok (pl_env P)" "\<And>i. turn_ok (pl_env P) (w i)" "plane_ready P \<sigma>" "poll P w token worker_id resume \<sigma> = (\<tau>, Inr (Some c))"
  shows "\<exists>claims es f g media es' x. verify_token P token (tn_stamp (w 0)) True = Inr claims \<and> cl_worker_id claims = worker_id
    \<and> prefix (plane_facts P \<sigma>) es \<and> plane_fold P es = Inr f \<and> g \<in> set (wf_grants f) \<and> gr_grant_id g = cl_grant_id claims
    \<and> gr_worker_id g = worker_id \<and> \<not> gr_revoked g \<and> (\<exists>t. instant_of (gr_expires_at g) = Inr t \<and> tn_stamp (w 0) < t)
    \<and> cw_image_digest c = gr_image_digest g \<and> cw_config_digest c = gr_config_digest g \<and> cw_nonce c = gr_nonce g
    \<and> brick_execution_digest (env_sha (pl_env P)) (gr_image_digest g) (cw_config c) (cw_inputs c) media (cw_runtime c) = Inr (gr_config_digest g)
    \<and> prefix es es' \<and> prefix es' (plane_facts P \<tau>)
    \<and> handed_out P es' (cw_lease_id c) worker_id (gr_task_id g) (gr_attempt_id g) (gr_grant_id g) x
    \<and> (x = cw_lease_id c \<or> gr_consumed_lease_id g = Some x)"
proof -
  let ?now = "tn_stamp (w 0)"
  from assms(4) obtain claims \<sigma>1 f g where *: "verify_token P token ?now True = Inr claims" "cl_worker_id claims = worker_id"
    "plane_rebuild P (w 0) \<sigma> = (\<sigma>1, Inr f)" "require_recorded_grant f (cl_grant_id claims) = Inr g" "require_live_grant P g claims ?now = Inr ()"
    and rest: "poll_granted P (\<lambda>i. w (1 + i)) f g claims worker_id resume ?now \<sigma>1 = (\<tau>, Inr (Some c))"
    by (fastforce simp: poll_def Let_def bind_p_Inr_iff lift_p_Inr_iff check_r_iff)
  note r1 = plane_rebuild_call[OF assms(1,2,3) *(3)]
  obtain es where es: "plane_fold P es = Inr f" "prefix (plane_facts P \<sigma>) es" "prefix es (plane_facts P \<sigma>1)" using r1(2)[OF refl] by blast
  have g: "fold_grant f (cl_grant_id claims) = Some g" using *(4) by (simp add: require_recorded_grant_def lift_option_iff)
  note gi = fold_grant_Some[OF g]
  note live = live_grantD[OF *(5)]
  have rdy1: "plane_ready P \<sigma>1" by (rule plane_laterD(1)[OF r1(1)])
  obtain q where q: "fold_queued_work f (gr_task_id g) (gr_attempt_id g) = Some q"
    using rest by (cases "fold_queued_work f (gr_task_id g) (gr_attempt_id g)") (simp_all add: poll_granted_def lift_p_Inr_iff)
  have match: "require_execution_match P g q (Some claims) = Inr ()"
    using rest by (auto simp: poll_granted_def q bind_p_Inr_iff lift_p_Inr_iff)
  note m = execution_matchD[OF match]
  have "\<exists>es' x. prefix es es' \<and> prefix es' (plane_facts P \<tau>)
      \<and> handed_out P es' (cw_lease_id c) worker_id (gr_task_id g) (gr_attempt_id g) (gr_grant_id g) x
      \<and> (x = cw_lease_id c \<or> gr_consumed_lease_id g = Some x)
      \<and> cw_nonce c = gr_nonce g \<and> cw_config c = qw_config q \<and> cw_inputs c = qw_inputs q \<and> cw_image_digest c = qw_image_digest q
      \<and> cw_config_digest c = qw_config_digest q \<and> cw_runtime c = qw_runtime q"
  proof (cases "lease_for_worker f (gr_task_id g) (gr_attempt_id g) worker_id")
    case (Some l)
    from rest Some obtain r where r: "resume_or_reject P (\<lambda>i. w (1 + i)) f l q g ?now \<sigma>1 = (\<tau>, Inr r)"
      "map_option (\<lambda>x. if resume then x\<lparr>cw_resumed := True\<rparr> else x) r = Some c"
      by (fastforce simp: poll_granted_def q bind_p_Inr_iff lift_p_Inr_iff)
    from r(2) obtain c0 where c0: "r = Some c0" "c = (if resume then c0\<lparr>cw_resumed := True\<rparr> else c0)" by auto
    have l: "l \<in> set (wf_leases f)" "le_task_id l = gr_task_id g" "le_attempt_id l = gr_attempt_id g" "le_worker_id l = worker_id"
      using Some by (auto simp: lease_for_worker_def last_of_def split: if_splits dest!: last_in_set)
    have gg: "fold_grant f (gr_grant_id g) = Some g" using g gi by simp
    note c = resume_call[OF assms(1,2) rdy1 r(1)[unfolded c0(1)] es(1,3) l(1) gg]
    have same: "cw_lease_id c = cw_lease_id c0" "cw_nonce c = cw_nonce c0" "cw_config c = cw_config c0" "cw_inputs c = cw_inputs c0"
      "cw_image_digest c = cw_image_digest c0" "cw_config_digest c = cw_config_digest c0" "cw_runtime c = cw_runtime c0"
      using c0(2) by (cases resume; simp)+
    from c(8) obtain es' x where "prefix es es'" "prefix es' (plane_facts P \<tau>)"
      "handed_out P es' (cw_lease_id c0) (le_worker_id l) (le_task_id l) (le_attempt_id l) (gr_grant_id g) x"
      "x = cw_lease_id c0 \<or> gr_consumed_lease_id g = Some x" by blast
    with c(1-7) same l show ?thesis by (intro exI[of _ es'] exI[of _ x]) simp
  next
    case None
    from rest None have "poll_fresh P (\<lambda>i. w (1 + i)) f q g ?now \<sigma>1 = (\<tau>, Inr (Some c))"
      by (simp add: poll_granted_def q bind_p_Inr_iff lift_p_Inr_iff)
    then obtain \<sigma>3 f' where l3: "plane_later P \<sigma>1 \<sigma>3" and o: "open_lease P (\<lambda>i. w (1 + (4 + i))) f' q g ?now \<sigma>3 = (\<tau>, Inr c)"
      by (rule poll_fresh_call[OF assms(1,2) rdy1])
    note c = open_lease_call[OF assms(1,2) plane_laterD(1)[OF l3] o]
    have p: "prefix es (plane_facts P \<sigma>3)" using es(3) plane_laterD(2)[OF l3] by (rule prefix_order.trans)
    from c(8) obtain es' where "prefix (plane_facts P \<sigma>3) es'" "prefix es' (plane_facts P \<tau>)"
      "handed_out P es' (cw_lease_id c) (gr_worker_id g) (gr_task_id g) (qw_attempt_id q) (gr_grant_id g) (cw_lease_id c)" by blast
    with c(1-7) p m(4) live(2) *(2) show ?thesis
      by (intro exI[of _ es'] exI[of _ "cw_lease_id c"]) (auto intro: prefix_order.trans)
  qed
  then obtain es' x where fin: "prefix es es'" "prefix es' (plane_facts P \<tau>)"
      "handed_out P es' (cw_lease_id c) worker_id (gr_task_id g) (gr_attempt_id g) (gr_grant_id g) x"
      "x = cw_lease_id c \<or> gr_consumed_lease_id g = Some x"
      "cw_nonce c = gr_nonce g" "cw_config c = qw_config q" "cw_inputs c = qw_inputs q" "cw_image_digest c = qw_image_digest q"
      "cw_config_digest c = qw_config_digest q" "cw_runtime c = qw_runtime q" by blast
  show ?thesis
    by (rule exI[of _ claims], rule exI[of _ es], rule exI[of _ f], rule exI[of _ g], rule exI[of _ "qw_image_media_type q"],
        rule exI[of _ es'], rule exI[of _ x]) (use fin m live es gi * in simp)
qed

theorem poll_hands_out_authorized_work_witness:
  "\<exists>\<sigma> \<tau> c es f g. poll sample_plane sample_turns sample_token (U ''w'') False \<sigma> = (\<tau>, Inr (Some c))
    \<and> prefix (plane_facts sample_plane \<sigma>) es \<and> plane_fold sample_plane es = Inr f \<and> g \<in> set (wf_grants f)
    \<and> gr_worker_id g = U ''w'' \<and> \<not> gr_revoked g \<and> cw_config_digest c = gr_config_digest g"
proof -
  obtain s where s: "sample_log s sample_fold 6 []" using sample_facts by blast
  let ?s = "\<lparr>ps_store = s, ps_heartbeats = Map.empty\<rparr>"
  obtain \<tau> c where p: "poll sample_plane sample_turns sample_token (U ''w'') False ?s = (\<tau>, Inr (Some c))" using sample_poll[OF s] by blast
  have w: "turn_ok (pl_env sample_plane) (sample_turns i)" for i using sample_plane_ok(2) by (simp add: sample_turns_def)
  have r: "plane_ready sample_plane ?s" using s by (simp add: plane_ready_def sample_plane_def sample_log_def)
  from poll_hands_out_authorized_work[OF sample_plane_ok(1) w r p] p show ?thesis by blast
qed

end
