(* ===== verification/Graph_Order.thy ===== *)
theory Graph_Order
  imports Prelude "HOL-Library.List_Lexorder" "HOL-Library.Multiset"
begin

text \<open>
  Counting down the incoming edges of a finite graph: the algorithm that
  \<open>WorkflowGraph.validate_graph\<close> (spec/models.py) uses to refuse cycles and
  \<open>_topological_stages\<close> (execution/planner.py) to order the nodes.  Both keep a dict of
  in-degrees, take nodes whose count is zero, lower the count of their targets and take
  the targets that reach zero.  This theory holds what they share; the two loops differ in
  the order they take nodes (a stack there, whole stages here).

  A dict of counts is the list of its items.  Every key the code looks up is in the dict: the
  edges have been checked before.
\<close>

section \<open>Counts\<close>

type_synonym degrees = "(pystr \<times> int) list"

definition lower :: "pystr \<Rightarrow> degrees \<Rightarrow> degrees" where
  "lower t d = List.map (\<lambda>(n, k). (n, if n = t then k - 1 else k)) d"

definition raise :: "pystr \<Rightarrow> degrees \<Rightarrow> degrees" where
  "raise t d = List.map (\<lambda>(n, k). (n, if n = t then k + 1 else k)) d"

definition positive :: "degrees \<Rightarrow> nat" where
  "positive d = length (filter (\<lambda>(n, k). 0 < k) d)"

text \<open>\<open>indegree[target] -= 1\<close> for each target, and the targets that reach zero.\<close>

fun release :: "pystr list \<Rightarrow> degrees \<Rightarrow> pystr list \<times> degrees" where
  "release [] d = ([], d)"
| "release (t # ts) d =
     (let d' = lower t d; (rs, d'') = release ts d' in (if map_of d' t = Some 0 then t # rs else rs, d''))"

lemma map_of_lower [simp]: "map_of (lower t d) n = map_option (\<lambda>k. if n = t then k - 1 else k) (map_of d n)"
  by (induction d) (auto simp: lower_def)

lemma map_of_raise [simp]: "map_of (raise t d) n = map_option (\<lambda>k. if n = t then k + 1 else k) (map_of d n)"
  by (induction d) (auto simp: raise_def)

lemma fst_lower [simp]: "List.map fst (lower t d) = List.map fst d"
  by (auto simp: lower_def)

lemma fst_raise [simp]: "List.map fst (raise t d) = List.map fst d"
  by (auto simp: raise_def)

lemma positive_lower_le: "positive (lower t d) \<le> positive d"
  by (induction d) (auto simp: positive_def lower_def comp_def split: if_splits)

lemma positive_lower: "map_of (lower t d) t = Some 0 \<Longrightarrow> Suc (positive (lower t d)) \<le> positive d"
proof (induction d)
  case (Cons p d)
  have "positive (lower t d) \<le> positive d" by (rule positive_lower_le)
  with Cons show ?case by (cases p) (fastforce simp: positive_def lower_def comp_def split: if_splits)
qed (simp add: lower_def)

lemma release_positive: "release ts d = (rs, d') \<Longrightarrow> length rs + positive d' \<le> positive d"
proof (induction ts arbitrary: d rs)
  case (Cons t ts)
  obtain rs' where r: "release ts (lower t d) = (rs', d')" using Cons.prems by (auto simp: Let_def split: prod.splits)
  from Cons.IH[OF r] positive_lower[of t d] positive_lower_le[of t d] Cons.prems r
  show ?case by (auto simp: Let_def split: if_splits)
qed simp

lemma release_keys: "release ts d = (rs, d') \<Longrightarrow> List.map fst d' = List.map fst d"
proof (induction ts arbitrary: d rs)
  case (Cons t ts)
  then show ?case by (cases "release ts (lower t d)") (auto simp: Let_def)
qed simp

text \<open>How often a node is a target tells how far its count falls, and whether it passes zero.\<close>

lemma release_degree:
  "release ts d = (rs, d') \<Longrightarrow> map_of d' n = map_option (\<lambda>k. k - int (count_list ts n)) (map_of d n)"
proof (induction ts arbitrary: d rs)
  case (Cons t ts)
  obtain rs' where r: "release ts (lower t d) = (rs', d')" using Cons.prems by (auto simp: Let_def split: prod.splits)
  show ?case using Cons.IH[OF r] by (cases "map_of d n") auto
qed (simp add: option.map_ident)

lemma release_members:
  assumes "release ts d = (rs, d')"
  shows "count_list rs n =
    (case map_of d n of None \<Rightarrow> 0 | Some k \<Rightarrow> if 1 \<le> k \<and> k \<le> int (count_list ts n) then 1 else 0)"
  using assms
proof (induction ts arbitrary: d rs)
  case (Cons t ts)
  obtain rs' where r: "release ts (lower t d) = (rs', d')" using Cons.prems by (auto simp: Let_def split: prod.splits)
  have rs: "rs = (if map_of (lower t d) t = Some 0 then t # rs' else rs')" using Cons.prems r by (auto simp: Let_def)
  show ?case using Cons.IH[OF r] unfolding rs by (cases "map_of d n"; cases "n = t") auto
qed (auto split: option.split)

section \<open>Taking nodes whose predecessors are taken\<close>

text \<open>\<open>V\<close> is the set of nodes taken so far; \<open>open_preds\<close> are the predecessors still to take, \<open>sources\<close>
  the nodes that can be taken next, \<open>taken_ok\<close> says that nothing was taken too early, and
  \<open>degrees_for\<close> that the dict counts the open predecessors.\<close>

definition successors_ok :: "pystr list \<Rightarrow> (pystr \<Rightarrow> pystr list) \<Rightarrow> bool" where
  "successors_ok N adj \<longleftrightarrow> distinct N \<and> (\<forall>n\<in>set N. set (adj n) \<subseteq> set N)"

definition edges_of :: "pystr list \<Rightarrow> (pystr \<Rightarrow> pystr list) \<Rightarrow> (pystr \<times> pystr) set" where
  "edges_of N adj = {(m, n). m \<in> set N \<and> n \<in> set (adj m)}"

definition open_preds :: "pystr list \<Rightarrow> (pystr \<Rightarrow> pystr list) \<Rightarrow> pystr set \<Rightarrow> pystr \<Rightarrow> pystr set" where
  "open_preds N adj V n = {m \<in> set N - V. n \<in> set (adj m)}"

definition sources :: "pystr list \<Rightarrow> (pystr \<Rightarrow> pystr list) \<Rightarrow> pystr set \<Rightarrow> pystr set" where
  "sources N adj V = {n \<in> set N - V. open_preds N adj V n = {}}"

definition taken_ok :: "pystr list \<Rightarrow> (pystr \<Rightarrow> pystr list) \<Rightarrow> pystr set \<Rightarrow> bool" where
  "taken_ok N adj V \<longleftrightarrow> V \<subseteq> set N \<and> (\<forall>n\<in>V. open_preds N adj V n = {}) \<and> V \<subseteq> Wellfounded.acc (edges_of N adj)"

definition degrees_for :: "pystr list \<Rightarrow> (pystr \<Rightarrow> pystr list) \<Rightarrow> pystr set \<Rightarrow> degrees \<Rightarrow> bool" where
  "degrees_for N adj V d \<longleftrightarrow>
     (\<forall>n. map_of d n = (if n \<in> set N then Some (int (card (open_preds N adj V n))) else None))"

text \<open>The targets of a group of nodes: each node as often as it has predecessors in the group.\<close>

definition targets_of :: "(pystr \<Rightarrow> pystr list) \<Rightarrow> pystr list \<Rightarrow> pystr list \<Rightarrow> bool" where
  "targets_of adj R ts \<longleftrightarrow> (\<forall>n. count_list ts n = card {m \<in> set R. n \<in> set (adj m)})"

lemma finite_open_preds [simp]: "finite (open_preds N adj V n)"
  by (simp add: open_preds_def)

lemma open_preds_union: "open_preds N adj (V \<union> R) n = open_preds N adj V n - R"
  by (auto simp: open_preds_def)

lemma count_list_distinct: "(\<And>n. count_list xs n \<le> 1) \<Longrightarrow> distinct xs"
proof (induction xs)
  case (Cons x xs)
  have "count_list xs n \<le> 1" for n using Cons.prems[of n] by (auto split: if_splits)
  moreover have "count_list xs x = 0" using Cons.prems[of x] by simp
  ultimately show ?case using Cons.IH by (simp add: count_list_0_iff)
qed simp

lemma count_list_distinct_eq: "distinct xs \<Longrightarrow> count_list xs n = (if n \<in> set xs then 1 else 0)"
  by (induction xs) auto

lemma taken_empty: "taken_ok N adj {}"
  by (simp add: taken_ok_def)

lemma take_group:
  assumes taken: "taken_ok N adj V" and deg: "degrees_for N adj V d" and R: "set R \<subseteq> sources N adj V"
    and ts: "targets_of adj R ts" and r: "release ts d = (rs, d')" and ok: "successors_ok N adj"
  shows "taken_ok N adj (V \<union> set R)" "degrees_for N adj (V \<union> set R) d'" "distinct rs"
    "sources N adj (V \<union> set R) = (sources N adj V - set R) \<union> set rs" "set rs \<inter> sources N adj V = {}"
proof -
  have RN: "set R \<subseteq> set N - V" and R0: "\<And>n. n \<in> set R \<Longrightarrow> open_preds N adj V n = {}" using R by (auto simp: sources_def)
  have group: "{m \<in> set R. n \<in> set (adj m)} = open_preds N adj V n \<inter> set R" for n
    using RN by (auto simp: open_preds_def)
  have count: "count_list ts n = card (open_preds N adj V n \<inter> set R)" for n
    using ts group by (simp add: targets_of_def)
  show "degrees_for N adj (V \<union> set R) d'"
    unfolding degrees_for_def
  proof
    fix n
    have c: "int (card (open_preds N adj V n)) - int (card (open_preds N adj V n \<inter> set R)) =
        int (card (open_preds N adj V n - set R))"
      using card_Diff_subset_Int[of "open_preds N adj V n" "set R"]
      by (simp add: of_nat_diff card_mono)
    show "map_of d' n = (if n \<in> set N then Some (int (card (open_preds N adj (V \<union> set R) n))) else None)"
      using release_degree[OF r, of n] deg c count[of n] by (auto simp: degrees_for_def open_preds_union)
  qed
  have acc: "n \<in> Wellfounded.acc (edges_of N adj)" if "n \<in> set R" for n
  proof (rule accI)
    fix m assume "(m, n) \<in> edges_of N adj"
    with R0[OF that] have "m \<in> V" by (auto simp: edges_of_def open_preds_def)
    with taken show "m \<in> Wellfounded.acc (edges_of N adj)" by (auto simp: taken_ok_def)
  qed
  show "taken_ok N adj (V \<union> set R)"
    using taken RN R0 acc by (auto simp: taken_ok_def open_preds_union)
  have member: "count_list rs n = (if n \<in> set N \<and> open_preds N adj V n \<noteq> {} \<and> open_preds N adj (V \<union> set R) n = {} then 1 else 0)" for n
  proof (cases "n \<in> set N")
    case True
    let ?P = "open_preds N adj V n"
    have "1 \<le> int (card ?P) \<longleftrightarrow> ?P \<noteq> {}" by (simp add: int_one_le_iff_zero_less card_gt_0_iff)
    moreover have "int (card ?P) \<le> int (card (?P \<inter> set R)) \<longleftrightarrow> ?P - set R = {}"
    proof
      assume "int (card ?P) \<le> int (card (?P \<inter> set R))"
      then have "?P \<inter> set R = ?P" using card_seteq[of ?P "?P \<inter> set R"] by simp
      then show "?P - set R = {}" by auto
    next
      assume "?P - set R = {}"
      then have "?P \<inter> set R = ?P" by auto
      then show "int (card ?P) \<le> int (card (?P \<inter> set R))" by simp
    qed
    ultimately show ?thesis using release_members[OF r, of n] deg True count[of n]
      by (simp add: degrees_for_def open_preds_union)
  next
    case False
    with release_members[OF r, of n] deg show ?thesis by (simp add: degrees_for_def)
  qed
  show "distinct rs" by (rule count_list_distinct) (simp add: member)
  have rs: "set rs = {n \<in> set N. open_preds N adj V n \<noteq> {} \<and> open_preds N adj (V \<union> set R) n = {}}"
  proof (rule set_eqI)
    fix n
    have "n \<in> set rs \<longleftrightarrow> count_list rs n \<noteq> 0" by (simp add: count_list_0_iff)
    then show "n \<in> set rs \<longleftrightarrow> n \<in> {n \<in> set N. open_preds N adj V n \<noteq> {} \<and> open_preds N adj (V \<union> set R) n = {}}"
      unfolding member by simp
  qed
  show "set rs \<inter> sources N adj V = {}" using rs by (auto simp: sources_def)
  show "sources N adj (V \<union> set R) = (sources N adj V - set R) \<union> set rs"
    using rs taken R0 RN by (auto simp: sources_def open_preds_union taken_ok_def)
qed

text \<open>When nothing can be taken any more, everything has been taken exactly if there is no cycle.\<close>

lemma edges_within:
  assumes "successors_ok N adj"
  shows "edges_of N adj \<subseteq> set N \<times> set N"
  using assms by (auto simp: edges_of_def successors_ok_def)

lemma all_taken_iff:
  assumes ok: "successors_ok N adj" and taken: "taken_ok N adj V" and stuck: "sources N adj V = {}"
  shows "V = set N \<longleftrightarrow> acyclic (edges_of N adj)"
proof
  assume V: "V = set N"
  have "n \<in> Wellfounded.acc (edges_of N adj)" for n
  proof (cases "n \<in> set N")
    case True
    with taken V show ?thesis by (auto simp: taken_ok_def)
  next
    case False
    then have "(m, n) \<notin> edges_of N adj" for m using edges_within[OF ok] by auto
    then show ?thesis by (auto intro: acc.intros)
  qed
  then have "wf (edges_of N adj)" by (simp add: wf_iff_acc)
  then show "acyclic (edges_of N adj)" by (rule wf_acyclic)
next
  assume "acyclic (edges_of N adj)"
  moreover have "finite (edges_of N adj)" by (rule finite_subset[OF edges_within[OF ok]]) simp
  ultimately have wf: "wf (edges_of N adj)" by (rule finite_acyclic_wf[rotated])
  show "V = set N"
  proof (rule ccontr)
    assume "V \<noteq> set N"
    with taken have "set N - V \<noteq> {}" by (auto simp: taken_ok_def)
    with wf obtain n where n: "n \<in> set N - V" "\<forall>m. (m, n) \<in> edges_of N adj \<longrightarrow> m \<notin> set N - V"
      by (meson wf_eq_minimal all_not_in_conv)
    have "open_preds N adj V n = {}" using n(2) by (auto simp: open_preds_def edges_of_def)
    with n(1) stuck show False by (auto simp: sources_def)
  qed
qed

section \<open>The dicts of a graph\<close>

text \<open>\<open>adjacency\<close>, \<open>dependencies\<close> and \<open>indegree\<close> as both functions build them: the pairs in the order of
  the edges, each pair once.\<close>

type_synonym links = "(pystr \<Rightarrow> pystr list) \<times> (pystr \<Rightarrow> pystr list) \<times> degrees"

definition no_links :: "pystr list \<Rightarrow> links" where
  "no_links N = ((\<lambda>_. []), (\<lambda>_. []), List.map (\<lambda>n. (n, 0)) N)"

definition link :: "pystr \<times> pystr \<Rightarrow> links \<Rightarrow> links" where
  "link e l = (case (e, l) of ((s, t), (adj, deps, d)) \<Rightarrow>
     if List.member (adj s) t then l
     else (adj(s := adj s @ [t]), deps(t := deps t @ [s]), raise t d))"

definition links_ok :: "pystr list \<Rightarrow> (pystr \<times> pystr) set \<Rightarrow> links \<Rightarrow> bool" where
  "links_ok N E l \<longleftrightarrow> (case l of (adj, deps, d) \<Rightarrow>
     (\<forall>s. distinct (adj s) \<and> set (adj s) = {t. (s, t) \<in> E}) \<and>
     (\<forall>t. distinct (deps t) \<and> set (deps t) = {s. (s, t) \<in> E}) \<and>
     (\<forall>n. map_of d n = (if n \<in> set N then Some (int (length (deps n))) else None)) \<and> List.map fst d = N)"

lemma no_links_ok: "links_ok N {} (no_links N)"
proof -
  have "map_of (List.map (\<lambda>n. (n, 0 :: int)) N) n = (if n \<in> set N then Some 0 else None)" for n
    by (induction N) auto
  then show ?thesis by (simp add: links_ok_def no_links_def comp_def)
qed

lemma link_ok:
  assumes "links_ok N E l"
  shows "links_ok N (insert (s, t) E) (link (s, t) l)"
proof -
  obtain adj deps d where l: "l = (adj, deps, d)" by (cases l)
  show ?thesis
  proof (cases "t \<in> set (adj s)")
    case True
    then have "(s, t) \<in> E" using assms by (auto simp: links_ok_def l)
    with True assms show ?thesis by (simp add: link_def l insert_absorb)
  next
    case False
    then have "(s, t) \<notin> E" "s \<notin> set (deps t)" using assms by (auto simp: links_ok_def l)
    with False assms show ?thesis by (auto simp: link_def l links_ok_def)
  qed
qed

lemma links_fold: "links_ok N E l \<Longrightarrow> links_ok N (E \<union> set es) (List.fold link es l)"
proof (induction es arbitrary: E l)
  case (Cons e es)
  obtain s t where e: "e = (s, t)" by (cases e)
  have "links_ok N (insert e E) (link e l)" unfolding e by (rule link_ok[OF Cons.prems])
  from Cons.IH[OF this] show ?case by simp
qed simp

text \<open>What the two loops need of the dicts.\<close>

lemma links_facts:
  assumes "links_ok N E (adj, deps, d)" "distinct N" "E \<subseteq> set N \<times> set N"
  shows "successors_ok N adj" "edges_of N adj = E" "degrees_for N adj {} d" "\<And>n. distinct (adj n)"
    "\<And>n. set (adj n) = {t. (n, t) \<in> E}" "\<And>n. distinct (deps n)" "\<And>n. set (deps n) = {s. (s, n) \<in> E}" "List.map fst d = N"
proof -
  show adj: "set (adj n) = {t. (n, t) \<in> E}" and deps: "set (deps n) = {s. (s, n) \<in> E}"
    and dd: "distinct (deps n)" and "distinct (adj n)" "List.map fst d = N" for n
    using assms(1) by (auto simp: links_ok_def)
  show "successors_ok N adj" "edges_of N adj = E" using assms(2,3) adj by (auto simp: successors_ok_def edges_of_def)
  have "open_preds N adj {} n = set (deps n)" for n using assms(3) adj deps by (auto simp: open_preds_def)
  then have "card (open_preds N adj {} n) = length (deps n)" for n using dd by (simp add: distinct_card)
  then show "degrees_for N adj {} d" using assms(1) by (simp add: degrees_for_def links_ok_def)
qed

lemma initial_sources:
  assumes "degrees_for N adj {} d"
  shows "sources N adj {} = {n. map_of d n = Some 0}"
  using assms by (auto simp: sources_def degrees_for_def)

text \<open>The keys whose count is zero, in the order of the dict.\<close>

definition zero_keys :: "degrees \<Rightarrow> pystr list" where
  "zero_keys d = List.map fst (filter (\<lambda>(n, k). k = 0) d)"

lemma zero_keys:
  assumes "distinct (List.map fst d)"
  shows "distinct (zero_keys d)" "set (zero_keys d) = {n. map_of d n = Some 0}"
  using assms by (auto simp: zero_keys_def distinct_map_filter image_iff split: prod.splits)

text \<open>The targets of a list of nodes, each with its successors in any order.\<close>

lemma targets_of_concat:
  assumes "distinct R" "\<And>n. mset (adj' n) = mset (adj n)" "\<And>n. distinct (adj n)"
  shows "targets_of adj R (concat (List.map adj' R))"
  unfolding targets_of_def
proof
  fix n
  have c: "count_list (adj' m) n = (if n \<in> set (adj m) then 1 else 0)" for m
  proof -
    have "distinct (adj' m)" "set (adj' m) = set (adj m)" using assms(2,3)[of m]
      by (metis mset_eq_imp_distinct_iff, metis mset_eq_setD)
    then show ?thesis by (simp add: count_list_distinct_eq)
  qed
  show "count_list (concat (List.map adj' R)) n = card {m \<in> set R. n \<in> set (adj m)}"
    using assms(1)
  proof (induction R)
    case (Cons m R)
    have "{x \<in> set (m # R). n \<in> set (adj x)} =
        (if n \<in> set (adj m) then insert m {x \<in> set R. n \<in> set (adj x)} else {x \<in> set R. n \<in> set (adj x)})" by auto
    with Cons c[of m] show ?case by (simp add: card_insert_if)
  qed simp
qed

end
