(* ===== verification/Spec_Models.thy ===== *)
theory Spec_Models
  imports Events Graph_Order
begin

text \<open>
  The ResearchSpec documents of \<open>spec/models.py\<close>: the authoring classes, the constraints on
  their fields and their validators.  A class is a record and its validators are a test
  (\<open>..._valid\<close>) or, where the message matters to what is refused first, a check.

  Fields hold the values after pydantic's \<open>str_strip_whitespace\<close>.  Money is a \<open>Decimal\<close>; the
  validators only ask whether it is there and not negative, so it is kept as its text with
  the sign test as a parameter \<open>nonneg\<close>.  \<open>arrange\<close> is the order in which Python walks a set
  of strings, which the language leaves open.
\<close>

section \<open>Field types\<close>

definition spec_letter :: regex where
  "spec_letter = crange [(CHR ''A'', CHR ''Z''), (CHR ''a'', CHR ''z''), (CHR ''0'', CHR ''9'')]"

definition SPEC_IDENTIFIER_PATTERN :: regex where
  "SPEC_IDENTIFIER_PATTERN = rseqs [spec_letter,
     RStar (crange [(CHR ''A'', CHR ''Z''), (CHR ''a'', CHR ''z''), (CHR ''0'', CHR ''9''),
       (CHR ''.'', CHR ''.''), (CHR ''_'', CHR ''_''), (CHR '':'', CHR '':''), (CHR ''-'', CHR ''-'')])]"

definition Identifier :: "pystr \<Rightarrow> bool" where
  "Identifier s \<longleftrightarrow> 1 \<le> length s \<and> length s \<le> 128 \<and> fullmatch SPEC_IDENTIFIER_PATTERN s"

definition NonEmptyText :: "pystr \<Rightarrow> bool" where
  "NonEmptyText s \<longleftrightarrow> 1 \<le> length s"

definition CurrencyCode :: "pystr \<Rightarrow> bool" where
  "CurrencyCode s \<longleftrightarrow> fullmatch (rtimes 3 (crange [(CHR ''A'', CHR ''Z'')])) s"

definition version_number :: regex where
  "version_number = ralts [clit ''0'', rseqs [digits 1 9, RStar digit]]"

definition version_word :: regex where
  "version_word = crange [(CHR ''0'', CHR ''9''), (CHR ''A'', CHR ''Z''), (CHR ''a'', CHR ''z''), (CHR ''-'', CHR ''-'')]"

definition prerelease_part :: regex where
  "prerelease_part = ralts [version_number,
     rseqs [RStar digit, crange [(CHR ''A'', CHR ''Z''), (CHR ''a'', CHR ''z''), (CHR ''-'', CHR ''-'')], RStar version_word]]"

definition SEMANTIC_VERSION_PATTERN :: regex where
  "SEMANTIC_VERSION_PATTERN = rseqs
     [version_number, cchar CHR ''.'', version_number, cchar CHR ''.'', version_number,
      ropt (rseqs [cchar CHR ''-'', prerelease_part, RStar (rseqs [cchar CHR ''.'', prerelease_part])]),
      ropt (rseqs [cchar CHR ''+'', rplus version_word, RStar (rseqs [cchar CHR ''.'', rplus version_word])])]"

definition SemanticVersion :: "pystr \<Rightarrow> bool" where
  "SemanticVersion s \<longleftrightarrow> fullmatch SEMANTIC_VERSION_PATTERN s"

definition PositiveInt :: "int \<Rightarrow> bool" where
  "PositiveInt i \<longleftrightarrow> 0 < i"

definition NonNegativeMoney :: "(pystr \<Rightarrow> bool) \<Rightarrow> pystr \<Rightarrow> bool" where
  "NonNegativeMoney nonneg t \<longleftrightarrow> nonneg t"

definition JsonObject :: "pydict \<Rightarrow> bool" where
  "JsonObject d \<longleftrightarrow> json_dumpable (PyDict d)"

text \<open>Every text of the raw input, keys included, encodes.\<close>

fun require_unicode_scalars :: "pyval \<Rightarrow> bool" where
  "require_unicode_scalars (PyStr s) = utf8_ok s"
| "require_unicode_scalars (PyList vs) = list_all require_unicode_scalars vs"
| "require_unicode_scalars (PyDict d) =
     list_all (\<lambda>(k, v). (case k of KStr s \<Rightarrow> utf8_ok s | KOther _ \<Rightarrow> True) \<and> require_unicode_scalars v) d"
| "require_unicode_scalars _ = True"

section \<open>Workflows\<close>

record spec_edge =
  se_source :: pystr
  se_target :: pystr
  se_source_port :: "pystr option"
  se_target_port :: "pystr option"

record task_block =
  tb_id :: pystr
  tb_block_type :: pystr
  tb_block_version :: pystr
  tb_config :: pydict
  tb_resource_refs :: "pystr list"

record approval_block =
  ab_id :: pystr
  ab_prompt :: pystr
  ab_required_role :: pystr

record loop_block =
  lb_id :: pystr
  lb_max_iterations :: int
  lb_max_wall_time_seconds :: "int option"
  lb_max_cost :: "pystr option"
  lb_currency :: pystr
  lb_may_incur_cost :: bool
  lb_until :: "pystr option"
  lb_checkpoint :: bool

datatype workflow_node =
    TaskBlock task_block
  | ApprovalBlock approval_block
  | LoopBlock loop_block workflow_graph
and workflow_graph = WorkflowGraph "workflow_node list" "spec_edge list"

fun nodes :: "workflow_graph \<Rightarrow> workflow_node list" where
  "nodes (WorkflowGraph ns es) = ns"

fun edges :: "workflow_graph \<Rightarrow> spec_edge list" where
  "edges (WorkflowGraph ns es) = es"

fun node_id :: "workflow_node \<Rightarrow> pystr" where
  "node_id (TaskBlock t) = tb_id t"
| "node_id (ApprovalBlock a) = ab_id a"
| "node_id (LoopBlock l body) = lb_id l"

record resource_spec =
  rs_id :: pystr
  rs_kind :: pystr
  rs_count :: int
  rs_provider :: "pystr option"
  rs_model :: "pystr option"
  rs_paid :: bool
  rs_max_cost :: "pystr option"
  rs_currency :: pystr
  rs_max_wall_time_seconds :: "int option"

record workflow_spec =
  ws_id :: pystr
  ws_graph :: workflow_graph

definition RESOURCE_KINDS :: "pystr list" where
  "RESOURCE_KINDS = [U ''cpu'', U ''gpu'', U ''tpu'', U ''ascend'', U ''remote-service'', U ''other'']"

definition data_ports_are_paired :: "spec_edge \<Rightarrow> bool" where
  "data_ports_are_paired e \<longleftrightarrow> (se_source_port e = None) = (se_target_port e = None)"

definition spec_edge_valid :: "spec_edge \<Rightarrow> bool" where
  "spec_edge_valid e \<longleftrightarrow> Identifier (se_source e) \<and> Identifier (se_target e)
     \<and> pred_option Identifier (se_source_port e) \<and> pred_option Identifier (se_target_port e)
     \<and> data_ports_are_paired e"

definition task_block_valid :: "task_block \<Rightarrow> bool" where
  "task_block_valid t \<longleftrightarrow> Identifier (tb_id t) \<and> Identifier (tb_block_type t) \<and> SemanticVersion (tb_block_version t)
     \<and> JsonObject (tb_config t) \<and> list_all Identifier (tb_resource_refs t)
     \<and> length (tb_resource_refs t) = card (set (tb_resource_refs t))"

definition approval_block_valid :: "approval_block \<Rightarrow> bool" where
  "approval_block_valid a \<longleftrightarrow> Identifier (ab_id a) \<and> NonEmptyText (ab_prompt a) \<and> NonEmptyText (ab_required_role a)"

definition declared_cost_is_bounded :: "loop_block \<Rightarrow> bool" where
  "declared_cost_is_bounded l \<longleftrightarrow>
     \<not> (lb_may_incur_cost l \<and> (lb_max_cost l = None \<or> lb_max_wall_time_seconds l = None))"

definition loop_block_valid :: "(pystr \<Rightarrow> bool) \<Rightarrow> loop_block \<Rightarrow> bool" where
  "loop_block_valid nonneg l \<longleftrightarrow> Identifier (lb_id l) \<and> PositiveInt (lb_max_iterations l)
     \<and> pred_option PositiveInt (lb_max_wall_time_seconds l) \<and> pred_option (NonNegativeMoney nonneg) (lb_max_cost l)
     \<and> CurrencyCode (lb_currency l) \<and> pred_option NonEmptyText (lb_until l) \<and> declared_cost_is_bounded l"

definition paid_resources_are_bounded :: "resource_spec \<Rightarrow> bool" where
  "paid_resources_are_bounded r \<longleftrightarrow> \<not> (rs_paid r \<and> (rs_max_cost r = None \<or> rs_max_wall_time_seconds r = None))"

definition resource_spec_valid :: "(pystr \<Rightarrow> bool) \<Rightarrow> resource_spec \<Rightarrow> bool" where
  "resource_spec_valid nonneg r \<longleftrightarrow> Identifier (rs_id r) \<and> List.member RESOURCE_KINDS (rs_kind r)
     \<and> PositiveInt (rs_count r) \<and> pred_option NonEmptyText (rs_provider r) \<and> pred_option NonEmptyText (rs_model r)
     \<and> pred_option (NonNegativeMoney nonneg) (rs_max_cost r) \<and> CurrencyCode (rs_currency r)
     \<and> pred_option PositiveInt (rs_max_wall_time_seconds r) \<and> paid_resources_are_bounded r"

section \<open>\<open>WorkflowGraph.validate_graph\<close>\<close>

datatype graph_error =
    NodeIdsNotUnique
  | UnknownNode pystr pystr
  | SelfEdge
  | DuplicateEdge
  | GraphCycle

text \<open>The loop over the edges: \<open>edge_pairs\<close> and the dicts.\<close>

definition edge_key :: "spec_edge \<Rightarrow> (pystr \<times> pystr) \<times> pystr option \<times> pystr option" where
  "edge_key e = ((se_source e, se_target e), se_source_port e, se_target_port e)"

type_synonym edge_state = "((pystr \<times> pystr) \<times> pystr option \<times> pystr option) list \<times> links"

definition add_edge :: "pystr list \<Rightarrow> edge_state \<Rightarrow> spec_edge \<Rightarrow> graph_error + edge_state" where
  "add_edge known st e = (case st of (pairs, l) \<Rightarrow>
     if \<not> List.member known (se_source e) \<or> \<not> List.member known (se_target e)
     then Inl (UnknownNode (se_source e) (se_target e))
     else if se_source e = se_target e then Inl SelfEdge
     else if List.member pairs (edge_key e) then Inl DuplicateEdge
     else Inr (edge_key e # pairs, link (se_source e, se_target e) l))"

text \<open>The loop over \<open>ready\<close>, a stack: it takes the last entry and appends what becomes ready.\<close>

function count_visited :: "(pystr list \<Rightarrow> pystr list) \<Rightarrow> (pystr \<Rightarrow> pystr list) \<Rightarrow> pystr list \<Rightarrow> degrees \<Rightarrow> nat \<Rightarrow> nat" where
  "count_visited arrange adj ready d visited =
     (if ready = [] then visited
      else let (released, d') = release (arrange (adj (last ready))) d
           in count_visited arrange adj (butlast ready @ released) d' (visited + 1))"
  by pat_completeness auto

termination count_visited
proof (relation "measure (\<lambda>(arrange, adj, ready, d, visited). length ready + positive d)")
  fix arrange :: "pystr list \<Rightarrow> pystr list" and adj :: "pystr \<Rightarrow> pystr list" and ready released :: "pystr list"
    and d d' :: degrees and visited :: nat and x :: "pystr list \<times> degrees"
  assume "ready \<noteq> []" "x = release (arrange (adj (last ready))) d" "(released, d') = x"
  then have "length released + positive d' \<le> positive d" by (metis release_positive)
  with \<open>ready \<noteq> []\<close> show "((arrange, adj, butlast ready @ released, d', visited + 1), arrange, adj, ready, d, visited)
      \<in> measure (\<lambda>(arrange, adj, ready, d, visited). length ready + positive d)"
    by (cases ready rule: rev_cases) auto
qed simp

declare count_visited.simps [simp del]

definition validate_graph :: "(pystr list \<Rightarrow> pystr list) \<Rightarrow> workflow_graph \<Rightarrow> graph_error + unit" where
  "validate_graph arrange g =
     (let node_ids = List.map node_id (nodes g) in
      bind_r (check_r (length node_ids = card (set node_ids)) NodeIdsNotUnique) (\<lambda>_.
      bind_r (fold_r (add_edge node_ids) ([], no_links node_ids) (edges g)) (\<lambda>(pairs, adj, deps, d).
      if count_visited arrange adj (zero_keys d) d 0 \<noteq> length node_ids then Inl GraphCycle else Inr ())))"

text \<open>Pydantic builds the bodies of loops first, so every graph inside is validated too.\<close>

fun node_valid :: "(pystr list \<Rightarrow> pystr list) \<Rightarrow> (pystr \<Rightarrow> bool) \<Rightarrow> workflow_node \<Rightarrow> bool"
and graph_valid :: "(pystr list \<Rightarrow> pystr list) \<Rightarrow> (pystr \<Rightarrow> bool) \<Rightarrow> workflow_graph \<Rightarrow> bool" where
  "node_valid arrange nonneg (TaskBlock t) = task_block_valid t"
| "node_valid arrange nonneg (ApprovalBlock a) = approval_block_valid a"
| "node_valid arrange nonneg (LoopBlock l body) = (graph_valid arrange nonneg body \<and> loop_block_valid nonneg l)"
| "graph_valid arrange nonneg (WorkflowGraph ns es) =
     (ns \<noteq> [] \<and> list_all (node_valid arrange nonneg) ns \<and> list_all spec_edge_valid es
      \<and> is_ok (validate_graph arrange (WorkflowGraph ns es)))"

text \<open>The loop visits every node exactly if there is no cycle, in whatever order sets are walked.\<close>

lemma count_visited_acyclic:
  assumes "successors_ok N adj" "\<And>n. distinct (adj n)" "\<And>xs. mset (arrange xs) = mset xs"
    and "taken_ok N adj V" "degrees_for N adj V d" "distinct ready" "set ready = sources N adj V" "visited = card V"
  shows "count_visited arrange adj ready d visited = length N \<longleftrightarrow> acyclic (edges_of N adj)"
  using assms
proof (induction arrange adj ready d visited arbitrary: V rule: count_visited.induct)
  case (1 arrange adj ready d visited)
  have fin: "finite V" and N: "distinct N" and VN: "V \<subseteq> set N"
    using "1.prems"(1,4) by (auto simp: taken_ok_def successors_ok_def dest: finite_subset)
  show ?case
  proof (cases "ready = []")
    case True
    have "card V = length N \<longleftrightarrow> V = set N"
      using card_subset_eq[OF List.finite_set VN] distinct_card[OF N] by auto
    moreover have "sources N adj V = {}" using True "1.prems"(7) by simp
    ultimately show ?thesis
      using True all_taken_iff[OF "1.prems"(1,4)] "1.prems"(8) by (simp add: count_visited.simps)
  next
    case False
    obtain released d' where r: "release (arrange (adj (last ready))) d = (released, d')" by (cases "release (arrange (adj (last ready))) d")
    have R: "set [last ready] \<subseteq> sources N adj V" unfolding "1.prems"(7)[symmetric] using last_in_set[OF False] by simp
    have ts: "targets_of adj [last ready] (arrange (adj (last ready)))"
      using targets_of_concat[of "[last ready]" "\<lambda>n. arrange (adj n)" adj] "1.prems"(2,3) by simp
    note g = take_group[OF "1.prems"(4,5) R ts r "1.prems"(1)]
    have split: "set ready = insert (last ready) (set (butlast ready))" "last ready \<notin> set (butlast ready)" "distinct (butlast ready)"
      using False "1.prems"(6) by (cases ready rule: rev_cases; simp)+
    have "count_visited arrange adj (butlast ready @ released) d' (visited + 1) = length N \<longleftrightarrow> acyclic (edges_of N adj)"
    proof (rule "1.IH"[OF False r[symmetric] refl "1.prems"(1,2,3) g(1,2)])
      show "distinct (butlast ready @ released)" using split g(3,5) "1.prems"(7) by auto
      show "set (butlast ready @ released) = sources N adj (V \<union> set [last ready])"
        using split g(4) "1.prems"(7) by auto
      show "visited + 1 = card (V \<union> set [last ready])" using R fin "1.prems"(8) by (auto simp: sources_def)
    qed
    with False r show ?thesis by (simp add: count_visited.simps)
  qed
qed

definition edge_pairs_of :: "workflow_graph \<Rightarrow> (pystr \<times> pystr) set" where
  "edge_pairs_of g = (\<lambda>e. (se_source e, se_target e)) ` set (edges g)"

definition edges_good :: "pystr list \<Rightarrow> ((pystr \<times> pystr) \<times> pystr option \<times> pystr option) list \<Rightarrow> spec_edge list \<Rightarrow> bool" where
  "edges_good known pairs es \<longleftrightarrow> (\<forall>e\<in>set es. se_source e \<in> set known \<and> se_target e \<in> set known \<and> se_source e \<noteq> se_target e)
     \<and> distinct (List.map edge_key es) \<and> set (List.map edge_key es) \<inter> set pairs = {}"

lemma add_edges:
  "fold_r (add_edge known) (pairs, l) es = Inr st \<longleftrightarrow>
     edges_good known pairs es \<and> st = (rev (List.map edge_key es) @ pairs, List.fold link (List.map (\<lambda>e. (se_source e, se_target e)) es) l)"
proof (induction es arbitrary: pairs l)
  case (Cons e es)
  show ?case
  proof (cases "se_source e \<in> set known \<and> se_target e \<in> set known \<and> se_source e \<noteq> se_target e \<and> edge_key e \<notin> set pairs")
    case True
    then have "add_edge known (pairs, l) e = Inr (edge_key e # pairs, link (se_source e, se_target e) l)"
      by (simp add: add_edge_def)
    moreover have "edges_good known pairs (e # es) \<longleftrightarrow> edges_good known (edge_key e # pairs) es"
      using True by (auto simp: edges_good_def)
    ultimately show ?thesis using Cons by simp
  next
    case False
    then have "\<exists>err. add_edge known (pairs, l) e = Inl err" by (auto simp: add_edge_def)
    moreover have "\<not> edges_good known pairs (e # es)" using False by (auto simp: edges_good_def)
    ultimately show ?thesis by auto
  qed
qed (auto simp: edges_good_def)

text \<open>The conditions a graph has to meet, and that the validator decides them.\<close>

definition graph_well_formed :: "workflow_graph \<Rightarrow> bool" where
  "graph_well_formed g \<longleftrightarrow> distinct (List.map node_id (nodes g)) \<and> edges_good (List.map node_id (nodes g)) [] (edges g)
     \<and> acyclic (edge_pairs_of g)"

lemma graph_links:
  assumes "edges_good (List.map node_id (nodes g)) [] (edges g)"
  shows "links_ok (List.map node_id (nodes g)) (edge_pairs_of g)
      (List.fold link (List.map (\<lambda>e. (se_source e, se_target e)) (edges g)) (no_links (List.map node_id (nodes g))))"
    "edge_pairs_of g \<subseteq> set (List.map node_id (nodes g)) \<times> set (List.map node_id (nodes g))"
  using links_fold[OF no_links_ok, of "List.map node_id (nodes g)" "List.map (\<lambda>e. (se_source e, se_target e)) (edges g)"] assms
  by (auto simp: edge_pairs_of_def edges_good_def)

lemma validate_graph_iff:
  assumes "\<And>xs. mset (arrange xs) = mset xs"
  shows "validate_graph arrange g = Inr () \<longleftrightarrow> graph_well_formed g"
proof -
  let ?N = "List.map node_id (nodes g)"
  let ?l = "List.fold link (List.map (\<lambda>e. (se_source e, se_target e)) (edges g)) (no_links ?N)"
  obtain adj deps d where l: "?l = (adj, deps, d)" by (cases ?l)
  have visited: "count_visited arrange adj (zero_keys d) d 0 = length ?N \<longleftrightarrow> acyclic (edge_pairs_of g)"
    if "distinct ?N" "edges_good ?N [] (edges g)"
  proof -
    note f = links_facts[OF graph_links(1)[OF that(2), unfolded l] that(1) graph_links(2)[OF that(2)]]
    have keys: "distinct (List.map fst d)" using f(8) that(1) by simp
    from count_visited_acyclic[OF f(1,4) assms taken_empty f(3) zero_keys(1)[OF keys], of 0]
    show ?thesis using zero_keys(2)[OF keys] initial_sources[OF f(3)] f(2) by simp
  qed
  show ?thesis
  proof (cases "distinct ?N \<and> edges_good ?N [] (edges g)")
    case True
    then have "fold_r (add_edge ?N) ([], no_links ?N) (edges g) = Inr (rev (List.map edge_key (edges g)), adj, deps, d)"
      using add_edges[of ?N "[]" "no_links ?N" "edges g"] l by simp
    with True visited show ?thesis
      by (simp add: validate_graph_def graph_well_formed_def check_r_def length_card_set_distinct[symmetric] Let_def)
  next
    case False
    then show ?thesis
      using add_edges[of ?N "[]" "no_links ?N" "edges g"]
      by (auto simp: validate_graph_def graph_well_formed_def result_simps length_card_set_distinct[symmetric] Let_def)
  qed
qed

end
