(* ===== verification/Blocks.thy ===== *)
theory Blocks
  imports Jcs Spec_Models
begin

text \<open>
  Block manifests and their registry (\<open>blocks/models.py\<close>, \<open>blocks/registry.py\<close>).  A registry is an
  in-memory dict from an id and a version to a manifest with its digest; it is sealed before
  planning.  Copies of a manifest are the manifest, values having no identity here.

  Code that is not in the repository is in the environment: pydantic's \<open>model_dump\<close> and the
  reload of a dumped manifest, and the JSON Schema validator, which the registry asks for the
  rule a config violates first (\<open>None\<close> if it conforms).  \<open>sha\<close> is SHA-256 of the encoded text.
\<close>

section \<open>Bounded walks\<close>

text \<open>Both \<open>_validate_config_limits\<close> and \<open>_validate_config_schema\<close> walk a JSON value with a stack,
  counting nodes and depth; the second also refuses objects with a reference.  The top of the
  stack is first here.\<close>

datatype walk_error = NodeLimit | NestingLimit | ReferenceFound

function bounded_walk :: "nat \<Rightarrow> nat \<Rightarrow> (pydict \<Rightarrow> bool) \<Rightarrow> (pyval \<times> nat) list \<Rightarrow> nat \<Rightarrow> walk_error + unit" where
  "bounded_walk max_nodes max_depth forbidden [] seen = Inr ()"
| "bounded_walk max_nodes max_depth forbidden ((v, depth) # stack) seen =
     (if seen + 1 > max_nodes then Inl NodeLimit
      else if depth > max_depth then Inl NestingLimit
      else (case v of
          PyDict d \<Rightarrow> if forbidden d then Inl ReferenceFound
            else bounded_walk max_nodes max_depth forbidden
                   (rev (List.map (\<lambda>kv. (snd kv, depth + 1)) d) @ stack) (seen + 1)
        | PyList vs \<Rightarrow> bounded_walk max_nodes max_depth forbidden
                   (rev (List.map (\<lambda>v. (v, depth + 1)) vs) @ stack) (seen + 1)
        | _ \<Rightarrow> bounded_walk max_nodes max_depth forbidden stack (seen + 1)))"
  by pat_completeness auto

lemma size_at_depth:
  "size_list ((\<lambda>x. size (fst x)) \<circ> (\<lambda>kv. (snd kv, k))) (d :: pydict) \<le> Suc (size_list (size_prod (\<lambda>x. 0) size) d)"
  "size_list ((\<lambda>x. size (fst x)) \<circ> (\<lambda>v. (v, k))) (vs :: pyval list) \<le> Suc (size_list size vs)"
proof -
  have "(\<lambda>x. size (fst x)) \<circ> (\<lambda>kv :: pykey \<times> pyval. (snd kv, k)) = size \<circ> snd" by (auto simp: fun_eq_iff)
  then show "size_list ((\<lambda>x. size (fst x)) \<circ> (\<lambda>kv. (snd kv, k))) d \<le> Suc (size_list (size_prod (\<lambda>x. 0) size) d)"
    using size_items[of d "\<lambda>x. 0"] by simp
  have "(\<lambda>x. size (fst x)) \<circ> (\<lambda>v :: pyval. (v, k)) = size" by (auto simp: fun_eq_iff)
  then show "size_list ((\<lambda>x. size (fst x)) \<circ> (\<lambda>v. (v, k))) vs \<le> Suc (size_list size vs)" by simp
qed

termination bounded_walk
  by (relation "measure (\<lambda>(m, n, f, stack, seen). size_list (\<lambda>x. size (fst x)) stack)")
     (auto simp: less_Suc_eq_le size_at_depth)

declare bounded_walk.simps(2) [simp del]

text \<open>What the walk decides: the number of nodes, the depth and the forbidden objects.\<close>

fun count_nodes :: "pyval \<Rightarrow> nat" where
  "count_nodes (PyDict d) = Suc (sum_list (List.map (\<lambda>kv. count_nodes (snd kv)) d))"
| "count_nodes (PyList vs) = Suc (sum_list (List.map count_nodes vs))"
| "count_nodes _ = 1"

fun within_depth :: "nat \<Rightarrow> nat \<Rightarrow> pyval \<Rightarrow> bool" where
  "within_depth m depth (PyDict d) \<longleftrightarrow> depth \<le> m \<and> list_all (\<lambda>kv. within_depth m (depth + 1) (snd kv)) d"
| "within_depth m depth (PyList vs) \<longleftrightarrow> depth \<le> m \<and> list_all (within_depth m (depth + 1)) vs"
| "within_depth m depth _ \<longleftrightarrow> depth \<le> m"

fun no_object :: "(pydict \<Rightarrow> bool) \<Rightarrow> pyval \<Rightarrow> bool" where
  "no_object f (PyDict d) \<longleftrightarrow> \<not> f d \<and> list_all (\<lambda>kv. no_object f (snd kv)) d"
| "no_object f (PyList vs) \<longleftrightarrow> list_all (no_object f) vs"
| "no_object f _ \<longleftrightarrow> True"

lemma count_nodes_pos: "1 \<le> count_nodes v"
  by (cases v) auto

definition stack_count :: "(pyval \<times> nat) list \<Rightarrow> nat" where
  "stack_count stack = sum_list (List.map (\<lambda>x. count_nodes (fst x)) stack)"

lemma stack_count_simps [simp]:
  "stack_count [] = 0" "stack_count (x # stack) = count_nodes (fst x) + stack_count stack"
  "stack_count (a @ b) = stack_count a + stack_count b" "stack_count (rev a) = stack_count a"
  by (simp_all add: stack_count_def rev_map[symmetric] sum_list_rev)

lemma stack_count_map [simp]: "stack_count (List.map (\<lambda>x. (f x, k)) xs) = sum_list (List.map (\<lambda>x. count_nodes (f x)) xs)"
  by (simp add: stack_count_def comp_def)

lemma bounded_walk_iff:
  "seen \<le> m \<Longrightarrow> bounded_walk m n f stack seen = Inr () \<longleftrightarrow>
     seen + stack_count stack \<le> m \<and> (\<forall>x\<in>set stack. within_depth n (snd x) (fst x) \<and> no_object f (fst x))"
proof (induction m n f stack seen rule: bounded_walk.induct)
  case (2 m n f v depth stack seen)
  show ?case
  proof (cases "seen + 1 > m \<or> depth > n")
    case True
    have "1 \<le> count_nodes v" by (rule count_nodes_pos)
    moreover have "depth > n \<Longrightarrow> \<not> within_depth n depth v" by (cases v) auto
    ultimately show ?thesis using True by (auto simp: bounded_walk.simps(2))
  next
    case False
    with 2 show ?thesis by (cases v) (simp_all add: bounded_walk.simps(2) list_all_iff ball_Un conj_ac ball_conj_distrib)
  qed
qed simp

lemma bounded_walk_decides:
  "bounded_walk m n f [(v, 0)] 0 = Inr () \<longleftrightarrow> count_nodes v \<le> m \<and> within_depth n 0 v \<and> no_object f v"
  by (simp add: bounded_walk_iff)

section \<open>Manifests\<close>

record block_port =
  bp_id :: pystr
  bp_value_type :: pystr
  bp_required :: bool
  bp_description :: "pystr option"

record block_manifest =
  bm_id :: pystr
  bm_version :: pystr
  bm_title :: "pystr option"
  bm_description :: "pystr option"
  bm_runtime_type :: pystr
  bm_entrypoint :: "pystr option"
  bm_runtime_config :: pydict
  bm_inputs :: "block_port list"
  bm_outputs :: "block_port list"
  bm_config_schema :: pydict
  bm_resources :: pydict
  bm_capabilities :: "pystr list"
  bm_permissions :: "pystr list"
  bm_telemetry :: "pystr list"
  bm_reproducibility :: pydict
  bm_extensions :: pydict

definition MAX_CONFIG_SCHEMA_DEPTH :: nat where "MAX_CONFIG_SCHEMA_DEPTH = 32"
definition MAX_CONFIG_SCHEMA_NODES :: nat where "MAX_CONFIG_SCHEMA_NODES = 4096"

definition SUPPORTED_CONFIG_SCHEMA_KEYWORDS :: "pystr list" where
  "SUPPORTED_CONFIG_SCHEMA_KEYWORDS = List.map U
     [''$comment'', ''$schema'', ''additionalProperties'', ''const'', ''default'', ''deprecated'', ''description'',
      ''enum'', ''exclusiveMaximum'', ''exclusiveMinimum'', ''items'', ''maxItems'', ''maxLength'', ''maxProperties'',
      ''maximum'', ''minItems'', ''minLength'', ''minProperties'', ''minimum'', ''multipleOf'', ''properties'',
      ''readOnly'', ''required'', ''title'', ''type'', ''writeOnly'']"

definition RUNTIME_TYPES :: "pystr list" where
  "RUNTIME_TYPES = [U ''simulated'', U ''python'', U ''container'', U ''remote-service'', U ''composite'']"

definition SCHEMA_DIALECT :: pystr where
  "SCHEMA_DIALECT = U ''https://json-schema.org/draft/2020-12/schema''"

definition executable_runtimes_declare_entrypoints :: "block_manifest \<Rightarrow> bool" where
  "executable_runtimes_declare_entrypoints m \<longleftrightarrow>
     \<not> (List.member [U ''python'', U ''container'', U ''remote-service''] (bm_runtime_type m) \<and> bm_entrypoint m = None)
     \<and> \<not> (List.member [U ''simulated'', U ''composite''] (bm_runtime_type m) \<and> bm_entrypoint m \<noteq> None)"

definition require_unique :: "block_port list \<Rightarrow> bool" where
  "require_unique ports \<longleftrightarrow> length (List.map bp_id ports) = card (set (List.map bp_id ports))"

text \<open>The keywords of a schema and of the schemas below \<open>properties\<close>, \<open>additionalProperties\<close> and
  \<open>items\<close>.  The source keeps the schemas still to check on a stack; every refusal is the same error.\<close>

fun validate_supported_keywords :: "pyval \<Rightarrow> bool" where
  "validate_supported_keywords (PyDict current) =
     list_all (\<lambda>kv. case kv of (KOther _, _) \<Rightarrow> False
       | (KStr k, v) \<Rightarrow> List.member SUPPORTED_CONFIG_SCHEMA_KEYWORDS k \<and>
           (if k = U ''properties'' then (case v of PyDict p \<Rightarrow> list_all (\<lambda>kv. validate_supported_keywords (snd kv)) p | _ \<Rightarrow> True)
            else if k = U ''additionalProperties'' \<or> k = U ''items'' then validate_supported_keywords v
            else True)) current"
| "validate_supported_keywords _ = True"

definition has_reference :: "pydict \<Rightarrow> bool" where
  "has_reference d \<longleftrightarrow> dict_has (U ''$ref'') d \<or> dict_has (U ''$dynamicRef'') d"

definition validate_config_schema :: "(pydict \<Rightarrow> bool) \<Rightarrow> pydict \<Rightarrow> bool" where
  "validate_config_schema check_schema schema \<longleftrightarrow>
     (case dict_get (U ''$schema'') schema of None \<Rightarrow> True | Some v \<Rightarrow> v = PyStr SCHEMA_DIALECT)
     \<and> dict_get (U ''type'') schema = Some (PyStr (U ''object''))
     \<and> bounded_walk MAX_CONFIG_SCHEMA_NODES MAX_CONFIG_SCHEMA_DEPTH has_reference [(PyDict schema, 0)] 0 = Inr ()
     \<and> validate_supported_keywords (PyDict schema) \<and> check_schema schema"

definition block_port_valid :: "block_port \<Rightarrow> bool" where
  "block_port_valid p \<longleftrightarrow> Identifier (bp_id p) \<and> NonEmptyText (bp_value_type p) \<and> pred_option NonEmptyText (bp_description p)"

definition block_manifest_valid :: "(pydict \<Rightarrow> bool) \<Rightarrow> block_manifest \<Rightarrow> bool" where
  "block_manifest_valid check_schema m \<longleftrightarrow>
     Identifier (bm_id m) \<and> SemanticVersion (bm_version m) \<and> pred_option NonEmptyText (bm_title m)
     \<and> pred_option NonEmptyText (bm_description m) \<and> List.member RUNTIME_TYPES (bm_runtime_type m)
     \<and> pred_option NonEmptyText (bm_entrypoint m) \<and> JsonObject (bm_runtime_config m)
     \<and> executable_runtimes_declare_entrypoints m
     \<and> list_all block_port_valid (bm_inputs m) \<and> list_all block_port_valid (bm_outputs m)
     \<and> JsonObject (bm_config_schema m) \<and> JsonObject (bm_resources m)
     \<and> list_all Identifier (bm_capabilities m) \<and> list_all Identifier (bm_permissions m) \<and> list_all Identifier (bm_telemetry m)
     \<and> JsonObject (bm_reproducibility m) \<and> JsonObject (bm_extensions m)
     \<and> require_unique (bm_inputs m) \<and> require_unique (bm_outputs m)
     \<and> length (bm_capabilities m) = card (set (bm_capabilities m))
     \<and> length (bm_permissions m) = card (set (bm_permissions m))
     \<and> length (bm_telemetry m) = card (set (bm_telemetry m))
     \<and> validate_config_schema check_schema (bm_config_schema m)"

section \<open>The registry\<close>

definition MAX_CONFIG_BYTES :: nat where "MAX_CONFIG_BYTES = 262144"
definition MAX_CONFIG_DEPTH :: nat where "MAX_CONFIG_DEPTH = 32"
definition MAX_CONFIG_NODES :: nat where "MAX_CONFIG_NODES = 16384"

record block_env =
  blk_sha :: "pystr \<Rightarrow> pystr"
  blk_dump :: "block_manifest \<Rightarrow> pyval"
  blk_reload :: "block_manifest \<Rightarrow> block_manifest"
  blk_violation :: "pydict \<Rightarrow> pydict \<Rightarrow> pystr option"

record registered_block =
  rb_manifest :: block_manifest
  rb_digest :: pystr
  rb_origin :: pystr

record block_registry =
  rg_blocks :: "((pystr \<times> pystr) \<times> registered_block) list"
  rg_sealed :: bool

text \<open>\<open>JcsFailed\<close> is the \<open>ValueError\<close> or \<open>TypeError\<close> of \<open>canonical_json\<close>, which the registry lets
  through: it is none of the registry's own errors.\<close>

datatype config_refusal = ConfigTooLarge | ConfigNodes | ConfigNesting | SchemaViolated pystr

datatype registry_error =
    RegistrySealed
  | DuplicateBlock pystr pystr
  | UnknownBlock pystr pystr
  | BlockConfig config_refusal
  | JcsFailed jcs_error

definition block_key :: "registered_block \<Rightarrow> pystr \<times> pystr" where
  "block_key b = (bm_id (rb_manifest b), bm_version (rb_manifest b))"

definition empty_registry :: block_registry where
  "empty_registry = \<lparr>rg_blocks = [], rg_sealed = False\<rparr>"

definition jcs_r :: "jcs_error + 'a \<Rightarrow> registry_error + 'a" where
  "jcs_r = map_sum JcsFailed id"

definition register :: "block_env \<Rightarrow> block_manifest \<Rightarrow> pystr \<Rightarrow> block_registry \<Rightarrow> registry_error + block_registry" where
  "register env manifest origin g =
     bind_r (check_r (\<not> rg_sealed g) RegistrySealed) (\<lambda>_.
     let snapshot = blk_reload env manifest in
     bind_r (jcs_r (content_digest (blk_sha env) (blk_dump env snapshot))) (\<lambda>digest.
     let registered = \<lparr>rb_manifest = snapshot, rb_digest = digest, rb_origin = origin\<rparr> in
     bind_r (check_r (map_of (rg_blocks g) (block_key registered) = None)
       (DuplicateBlock (bm_id snapshot) (bm_version snapshot))) (\<lambda>_.
     Inr (g\<lparr>rg_blocks := rg_blocks g @ [(block_key registered, registered)]\<rparr>))))"

definition seal :: "block_registry \<Rightarrow> block_registry" where
  "seal g = g\<lparr>rg_sealed := True\<rparr>"

definition resolve :: "block_registry \<Rightarrow> pystr \<Rightarrow> pystr \<Rightarrow> registry_error + registered_block" where
  "resolve g block_id version = lift_option (UnknownBlock block_id version) (map_of (rg_blocks g) (block_id, version))"

text \<open>Bytes of a text in UTF-8\<close>

definition utf_8_length :: "pystr \<Rightarrow> nat" where
  "utf_8_length s = sum_list (List.map (\<lambda>c. if c < 0x80 then 1 else if c < 0x800 then 2 else if c < 0x10000 then 3 else 4) s)"

definition walk_refusal :: "walk_error \<Rightarrow> config_refusal" where
  "walk_refusal e = (case e of NodeLimit \<Rightarrow> ConfigNodes | _ \<Rightarrow> ConfigNesting)"

definition validate_config_limits :: "pydict \<Rightarrow> registry_error + unit" where
  "validate_config_limits config =
     bind_r (jcs_r (canonical_json (PyDict config))) (\<lambda>text.
     bind_r (check_r (utf_8_length text \<le> MAX_CONFIG_BYTES) (BlockConfig ConfigTooLarge)) (\<lambda>_.
     map_sum (\<lambda>e. BlockConfig (walk_refusal e)) id
       (bounded_walk MAX_CONFIG_NODES MAX_CONFIG_DEPTH (\<lambda>_. False) [(PyDict config, 0)] 0)))"

definition validate_config :: "block_env \<Rightarrow> block_registry \<Rightarrow> registered_block \<Rightarrow> pydict \<Rightarrow> registry_error + unit" where
  "validate_config env g block config =
     bind_r (lift_option (UnknownBlock (fst (block_key block)) (snd (block_key block))) (map_of (rg_blocks g) (block_key block)))
       (\<lambda>registered.
     bind_r (validate_config_limits config) (\<lambda>_.
     case blk_violation env (bm_config_schema (rb_manifest registered)) config of
       None \<Rightarrow> Inr ()
     | Some rule \<Rightarrow> Inl (BlockConfig (SchemaViolated rule))))"

text \<open>\<open>blocks()\<close> in the order of their keys, and the digest of the registry.\<close>

definition registry_blocks :: "block_registry \<Rightarrow> registered_block list" where
  "registry_blocks g = List.map snd (sort_key (\<lambda>b. fst (fst b)) (sort_key (\<lambda>b. snd (fst b)) (rg_blocks g)))"

definition registry_entry :: "registered_block \<Rightarrow> pyval" where
  "registry_entry b = PyDict [(KStr (U ''id''), PyStr (fst (block_key b))), (KStr (U ''version''), PyStr (snd (block_key b))),
     (KStr (U ''manifestDigest''), PyStr (rb_digest b))]"

definition registry_digest :: "block_env \<Rightarrow> block_registry \<Rightarrow> registry_error + pystr" where
  "registry_digest env g = jcs_r (content_digest (blk_sha env) (PyList (List.map registry_entry (registry_blocks g))))"

text \<open>Keys are those of the blocks and occur once.\<close>

definition registry_ok :: "block_registry \<Rightarrow> bool" where
  "registry_ok g \<longleftrightarrow> distinct (List.map fst (rg_blocks g)) \<and> list_all (\<lambda>(k, b). k = block_key b) (rg_blocks g)"

lemma register_ok:
  assumes "registry_ok g" "register env manifest origin g = Inr g'"
  shows "registry_ok g'"
proof -
  obtain b where b: "map_of (rg_blocks g) (block_key b) = None" "g' = g\<lparr>rg_blocks := rg_blocks g @ [(block_key b, b)]\<rparr>"
    using assms(2) by (auto simp: register_def result_simps Let_def)
  with assms(1) show ?thesis by (auto simp: registry_ok_def map_of_eq_None_iff)
qed

lemma resolve_key:
  assumes "registry_ok g" "resolve g block_id version = Inr b"
  shows "block_key b = (block_id, version)" "map_of (rg_blocks g) (block_key b) = Some b"
proof -
  have m: "map_of (rg_blocks g) (block_id, version) = Some b" using assms(2) by (simp add: resolve_def result_simps)
  from map_of_SomeD[OF this] assms(1) show "block_key b = (block_id, version)" by (auto simp: registry_ok_def list_all_iff)
  with m show "map_of (rg_blocks g) (block_key b) = Some b" by simp
qed

text \<open>The limits on a task's config, as conditions on the config.\<close>

lemma config_limits_iff:
  "validate_config_limits config = Inr () \<longleftrightarrow>
     (\<exists>t. canonical_json (PyDict config) = Inr t \<and> utf_8_length t \<le> MAX_CONFIG_BYTES)
     \<and> count_nodes (PyDict config) \<le> MAX_CONFIG_NODES \<and> within_depth MAX_CONFIG_DEPTH 0 (PyDict config)"
proof -
  have m: "map_sum f id x = Inr () \<longleftrightarrow> x = Inr ()" for f :: "walk_error \<Rightarrow> registry_error" and x by (cases x) auto
  have n: "map_sum JcsFailed id x = Inr t \<longleftrightarrow> x = Inr t" for x :: "jcs_error + pystr" and t by (cases x) auto
  have o: "no_object (\<lambda>_. False) v" for v by (induction v) (auto simp: list_all_iff)
  show ?thesis
    by (auto simp: validate_config_limits_def result_simps jcs_r_def m n bounded_walk_decides o
        simp del: count_nodes.simps within_depth.simps no_object.simps)
qed

end
