(* ===== verification/Spec_Research.thy ===== *)
theory Spec_Research
  imports Spec_Models
begin

text \<open>
  The rest of \<open>spec/models.py\<close>: the documents around the workflows, the root \<open>ResearchSpec\<close> and its
  validator of references, global ids and paid or accelerated resources inside loops.
\<close>

section \<open>Documents\<close>

record project_metadata =
  pm_id :: pystr
  pm_revision :: int
  pm_title :: pystr
  pm_description :: "pystr option"
  pm_labels :: "(pystr \<times> pystr) list"

record research_question =
  rq_id :: pystr
  rq_question :: pystr
  rq_rationale :: "pystr option"
  rq_tags :: "pystr list"

record prediction =
  pn_id :: pystr
  pn_statement :: pystr
  pn_metric :: "pystr option"
  pn_expected_direction :: pystr

record hypothesis =
  hy_id :: pystr
  hy_statement :: pystr
  hy_question_refs :: "pystr list"
  hy_predictions :: "prediction list"

record evidence_record =
  er_id :: pystr
  er_source_uri :: pystr
  er_source_type :: pystr
  er_title :: "pystr option"
  er_snapshot_uri :: "pystr option"
  er_content_digest :: "pystr option"
  er_rights :: pystr
  er_license :: "pystr option"
  er_claims :: "pystr list"

record dataset_source =
  src_uri :: pystr
  src_version :: "pystr option"
  src_digest :: "pystr option"
  src_rights :: pystr
  src_license :: "pystr option"
  src_allowed_uses :: "pystr list"

record dataset_spec =
  dset_id :: pystr
  dset_version :: pystr
  dset_sources :: "dataset_source list"
  dset_transforms :: "pystr list"
  dset_splits :: "(pystr \<times> pystr) list"

record model_spec =
  mdl_id :: pystr
  mdl_architecture :: pystr
  mdl_source_uri :: "pystr option"
  mdl_source_revision :: "pystr option"
  mdl_config :: pydict

record metric_spec =
  mtr_id :: pystr
  mtr_description :: "pystr option"
  mtr_direction :: pystr
  mtr_target :: "pyfloat option"

record evaluation_spec =
  evl_id :: pystr
  evl_metrics :: "metric_spec list"
  evl_dataset_refs :: "pystr list"
  evl_baseline_refs :: "pystr list"
  evl_stop_conditions :: "pystr list"

record policy_spec =
  pol_paid_actions_require_approval :: bool
  pol_destructive_actions_require_approval :: bool
  pol_preserve_ai_dissent :: bool
  pol_unknown_evidence_may_train :: bool

record research_spec =
  sp_metadata :: project_metadata
  sp_questions :: "research_question list"
  sp_hypotheses :: "hypothesis list"
  sp_evidence :: "evidence_record list"
  sp_datasets :: "dataset_spec list"
  sp_models :: "model_spec list"
  sp_workflows :: "workflow_spec list"
  sp_evaluations :: "evaluation_spec list"
  sp_resources :: "resource_spec list"
  sp_policies :: policy_spec
  sp_extensions :: pydict

definition RIGHTS :: "pystr list" where
  "RIGHTS = [U ''allowed'', U ''restricted'', U ''unknown'']"

definition DATA_USES :: "pystr list" where
  "DATA_USES = [U ''research-read'', U ''retrieval'', U ''training'', U ''redistribution'']"

definition EVIDENCE_SOURCE_TYPES :: "pystr list" where
  "EVIDENCE_SOURCE_TYPES = [U ''paper'', U ''code'', U ''note'', U ''dataset'', U ''web'', U ''experiment'', U ''other'']"

definition project_metadata_valid :: "project_metadata \<Rightarrow> bool" where
  "project_metadata_valid m \<longleftrightarrow> Identifier (pm_id m) \<and> PositiveInt (pm_revision m) \<and> NonEmptyText (pm_title m)
     \<and> pred_option NonEmptyText (pm_description m)"

definition research_question_valid :: "research_question \<Rightarrow> bool" where
  "research_question_valid q \<longleftrightarrow> Identifier (rq_id q) \<and> NonEmptyText (rq_question q)
     \<and> pred_option NonEmptyText (rq_rationale q) \<and> list_all NonEmptyText (rq_tags q)"

definition prediction_valid :: "prediction \<Rightarrow> bool" where
  "prediction_valid p \<longleftrightarrow> Identifier (pn_id p) \<and> NonEmptyText (pn_statement p) \<and> pred_option Identifier (pn_metric p)
     \<and> List.member [U ''increase'', U ''decrease'', U ''unchanged'', U ''range'', U ''unknown''] (pn_expected_direction p)"

definition hypothesis_valid :: "hypothesis \<Rightarrow> bool" where
  "hypothesis_valid h \<longleftrightarrow> Identifier (hy_id h) \<and> NonEmptyText (hy_statement h) \<and> list_all Identifier (hy_question_refs h)
     \<and> list_all prediction_valid (hy_predictions h)"

definition evidence_record_valid :: "evidence_record \<Rightarrow> bool" where
  "evidence_record_valid e \<longleftrightarrow> Identifier (er_id e) \<and> NonEmptyText (er_source_uri e)
     \<and> List.member EVIDENCE_SOURCE_TYPES (er_source_type e) \<and> pred_option NonEmptyText (er_title e)
     \<and> pred_option NonEmptyText (er_snapshot_uri e) \<and> pred_option NonEmptyText (er_content_digest e)
     \<and> List.member RIGHTS (er_rights e) \<and> pred_option NonEmptyText (er_license e) \<and> list_all NonEmptyText (er_claims e)"

text \<open>\<open>unknown_rights_cannot_authorize_training\<close>\<close>

definition unknown_rights_cannot_authorize_training :: "dataset_source \<Rightarrow> bool" where
  "unknown_rights_cannot_authorize_training s \<longleftrightarrow>
     length (src_allowed_uses s) = card (set (src_allowed_uses s)) \<and>
     \<not> (src_rights s = U ''unknown'' \<and> {U ''training'', U ''redistribution''} \<inter> set (src_allowed_uses s) \<noteq> {})"

definition dataset_source_valid :: "dataset_source \<Rightarrow> bool" where
  "dataset_source_valid s \<longleftrightarrow> NonEmptyText (src_uri s) \<and> pred_option NonEmptyText (src_version s)
     \<and> pred_option NonEmptyText (src_digest s) \<and> List.member RIGHTS (src_rights s) \<and> pred_option NonEmptyText (src_license s)
     \<and> list_all (List.member DATA_USES) (src_allowed_uses s) \<and> unknown_rights_cannot_authorize_training s"

definition dataset_spec_valid :: "dataset_spec \<Rightarrow> bool" where
  "dataset_spec_valid d \<longleftrightarrow> Identifier (dset_id d) \<and> NonEmptyText (dset_version d) \<and> dset_sources d \<noteq> []
     \<and> list_all dataset_source_valid (dset_sources d) \<and> list_all Identifier (dset_transforms d)
     \<and> list_all (\<lambda>(k, v). NonEmptyText v) (dset_splits d)"

definition model_spec_valid :: "model_spec \<Rightarrow> bool" where
  "model_spec_valid m \<longleftrightarrow> Identifier (mdl_id m) \<and> NonEmptyText (mdl_architecture m)
     \<and> pred_option NonEmptyText (mdl_source_uri m) \<and> pred_option NonEmptyText (mdl_source_revision m) \<and> JsonObject (mdl_config m)"

definition metric_spec_valid :: "metric_spec \<Rightarrow> bool" where
  "metric_spec_valid m \<longleftrightarrow> Identifier (mtr_id m) \<and> pred_option NonEmptyText (mtr_description m)
     \<and> List.member [U ''maximize'', U ''minimize'', U ''target'', U ''informational''] (mtr_direction m)
     \<and> pred_option (\<lambda>f. case f of FFin _ \<Rightarrow> True | _ \<Rightarrow> False) (mtr_target m)"

definition evaluation_spec_valid :: "evaluation_spec \<Rightarrow> bool" where
  "evaluation_spec_valid e \<longleftrightarrow> Identifier (evl_id e) \<and> evl_metrics e \<noteq> [] \<and> list_all metric_spec_valid (evl_metrics e)
     \<and> list_all Identifier (evl_dataset_refs e) \<and> list_all Identifier (evl_baseline_refs e)
     \<and> list_all NonEmptyText (evl_stop_conditions e)"

text \<open>The two \<open>Literal\<close> fields admit one value each.\<close>

definition policy_spec_valid :: "policy_spec \<Rightarrow> bool" where
  "policy_spec_valid p \<longleftrightarrow> pol_preserve_ai_dissent p \<and> \<not> pol_unknown_evidence_may_train p"

section \<open>References and global ids\<close>

datatype spec_error =
    EntityIdsNotUnique
  | UnknownQuestions pystr "pystr list"
  | UnknownDatasets pystr "pystr list"
  | UnknownResources pystr "pystr list"
  | LoopNeedsBounds pystr
  | LoopCurrencyMismatch pystr pystr

definition entity_ids :: "research_spec \<Rightarrow> pystr list" where
  "entity_ids s = List.map rq_id (sp_questions s) @ List.map hy_id (sp_hypotheses s) @ List.map er_id (sp_evidence s)
     @ List.map dset_id (sp_datasets s) @ List.map mdl_id (sp_models s) @ List.map ws_id (sp_workflows s)
     @ List.map evl_id (sp_evaluations s) @ List.map rs_id (sp_resources s)"

text \<open>\<open>sorted(set(refs).difference(known))\<close>\<close>

definition unknown_refs :: "pystr list \<Rightarrow> pystr list \<Rightarrow> pystr list" where
  "unknown_refs refs known = sort (remdups (filter (\<lambda>r. \<not> List.member known r) refs))"

definition resource_by_id :: "resource_spec list \<Rightarrow> pystr \<Rightarrow> resource_spec option" where
  "resource_by_id rs = map_of (rev (List.map (\<lambda>r. (rs_id r, r)) rs))"

definition risky_resource :: "resource_spec \<Rightarrow> bool" where
  "risky_resource r \<longleftrightarrow> rs_paid r \<or> List.member [U ''gpu'', U ''tpu'', U ''ascend''] (rs_kind r)"

definition is_risky :: "resource_spec list \<Rightarrow> pystr \<Rightarrow> bool" where
  "is_risky rs i \<longleftrightarrow> pred_option risky_resource (resource_by_id rs i) \<and> resource_by_id rs i \<noteq> None"

definition loop_bounded :: "loop_block \<Rightarrow> bool" where
  "loop_bounded l \<longleftrightarrow> lb_max_cost l \<noteq> None \<and> lb_max_wall_time_seconds l \<noteq> None"

definition currency_matches :: "resource_spec list \<Rightarrow> loop_block \<Rightarrow> pystr \<Rightarrow> bool" where
  "currency_matches rs l i \<longleftrightarrow> pred_option (\<lambda>r. rs_currency r = lb_currency l) (resource_by_id rs i)"

fun node_resources :: "resource_spec list \<Rightarrow> workflow_node \<Rightarrow> pystr list \<Rightarrow> spec_error + pystr list"
and nodes_resources :: "resource_spec list \<Rightarrow> workflow_node list \<Rightarrow> pystr list \<Rightarrow> spec_error + pystr list"
and validate_graph_resources :: "resource_spec list \<Rightarrow> workflow_graph \<Rightarrow> spec_error + pystr list" where
  "node_resources rs (TaskBlock t) used =
     (let unknown = unknown_refs (tb_resource_refs t) (List.map rs_id rs) in
      if unknown \<noteq> [] then Inl (UnknownResources (tb_id t) unknown) else Inr (used @ tb_resource_refs t))"
| "node_resources rs (ApprovalBlock a) used = Inr used"
| "node_resources rs (LoopBlock l body) used =
     bind_r (validate_graph_resources rs body) (\<lambda>loop_resources.
     let risky = filter (is_risky rs) loop_resources in
     if (lb_may_incur_cost l \<or> risky \<noteq> []) \<and> \<not> loop_bounded l then Inl (LoopNeedsBounds (lb_id l))
     else if \<not> list_all (currency_matches rs l) risky then Inl (LoopCurrencyMismatch (lb_id l) (lb_currency l))
     else Inr (used @ loop_resources))"
| "nodes_resources rs [] used = Inr used"
| "nodes_resources rs (n # ns) used = bind_r (node_resources rs n used) (nodes_resources rs ns)"
| "validate_graph_resources rs (WorkflowGraph ns es) = nodes_resources rs ns []"

definition validate_references_and_global_ids :: "research_spec \<Rightarrow> spec_error + unit" where
  "validate_references_and_global_ids s =
     bind_r (check_r (length (entity_ids s) = card (set (entity_ids s))) EntityIdsNotUnique) (\<lambda>_.
     bind_r (fold_r (\<lambda>_ h. let unknown = unknown_refs (hy_question_refs h) (List.map rq_id (sp_questions s)) in
        check_r (unknown = []) (UnknownQuestions (hy_id h) unknown)) () (sp_hypotheses s)) (\<lambda>_.
     bind_r (fold_r (\<lambda>_ e. let unknown = unknown_refs (evl_dataset_refs e) (List.map dset_id (sp_datasets s)) in
        check_r (unknown = []) (UnknownDatasets (evl_id e) unknown)) () (sp_evaluations s)) (\<lambda>_.
     fold_r (\<lambda>_ w. bind_r (validate_graph_resources (sp_resources s) (ws_graph w)) (\<lambda>_. Inr ())) () (sp_workflows s))))"

text \<open>A whole ResearchSpec, as pydantic accepts it.\<close>

definition research_spec_valid :: "(pystr list \<Rightarrow> pystr list) \<Rightarrow> (pystr \<Rightarrow> bool) \<Rightarrow> research_spec \<Rightarrow> bool" where
  "research_spec_valid arrange nonneg s \<longleftrightarrow>
     project_metadata_valid (sp_metadata s) \<and> list_all research_question_valid (sp_questions s)
     \<and> list_all hypothesis_valid (sp_hypotheses s) \<and> list_all evidence_record_valid (sp_evidence s)
     \<and> list_all dataset_spec_valid (sp_datasets s) \<and> list_all model_spec_valid (sp_models s)
     \<and> list_all (\<lambda>w. Identifier (ws_id w) \<and> graph_valid arrange nonneg (ws_graph w)) (sp_workflows s)
     \<and> list_all evaluation_spec_valid (sp_evaluations s) \<and> list_all (resource_spec_valid nonneg) (sp_resources s)
     \<and> policy_spec_valid (sp_policies s) \<and> JsonObject (sp_extensions s)
     \<and> validate_references_and_global_ids s = Inr ()"

section \<open>What the validator guarantees\<close>

text \<open>All nodes of a graph, those in the bodies of loops included.\<close>

fun node_tree :: "workflow_node \<Rightarrow> workflow_node list"
and node_trees :: "workflow_node list \<Rightarrow> workflow_node list"
and all_nodes :: "workflow_graph \<Rightarrow> workflow_node list" where
  "node_tree (LoopBlock l body) = LoopBlock l body # all_nodes body"
| "node_tree n = [n]"
| "node_trees [] = []"
| "node_trees (n # ns) = node_tree n @ node_trees ns"
| "all_nodes (WorkflowGraph ns es) = node_trees ns"

fun refs_of :: "workflow_node \<Rightarrow> pystr list" where
  "refs_of (TaskBlock t) = tb_resource_refs t"
| "refs_of _ = []"

definition graph_refs :: "workflow_graph \<Rightarrow> pystr list" where
  "graph_refs g = concat (List.map refs_of (all_nodes g))"

definition node_rules :: "resource_spec list \<Rightarrow> workflow_node \<Rightarrow> bool" where
  "node_rules rs n \<longleftrightarrow> (case n of
     TaskBlock t \<Rightarrow> set (tb_resource_refs t) \<subseteq> rs_id ` set rs
   | ApprovalBlock a \<Rightarrow> True
   | LoopBlock l body \<Rightarrow>
       (lb_may_incur_cost l \<or> (\<exists>i\<in>set (graph_refs body). is_risky rs i) \<longrightarrow> loop_bounded l)
       \<and> (\<forall>i\<in>set (graph_refs body). is_risky rs i \<longrightarrow> currency_matches rs l i))"

lemma unknown_refs_Nil: "unknown_refs refs known = [] \<longleftrightarrow> set refs \<subseteq> set known"
proof -
  have "unknown_refs refs known = [] \<longleftrightarrow> set (unknown_refs refs known) = {}" by simp
  also have "\<dots> \<longleftrightarrow> set refs \<subseteq> set known" unfolding unknown_refs_def set_sort set_remdups set_filter by auto
  finally show ?thesis .
qed

lemma resources_iff:
  "node_resources rs n used = Inr u \<longleftrightarrow> (\<forall>m\<in>set (node_tree n). node_rules rs m) \<and> u = used @ concat (List.map refs_of (node_tree n))"
  "nodes_resources rs ns used = Inr u \<longleftrightarrow> (\<forall>m\<in>set (node_trees ns). node_rules rs m) \<and> u = used @ concat (List.map refs_of (node_trees ns))"
  "validate_graph_resources rs g = Inr u \<longleftrightarrow> (\<forall>m\<in>set (all_nodes g). node_rules rs m) \<and> u = graph_refs g"
proof (induction rs n used and rs ns used and rs g arbitrary: u and u and u
    rule: node_resources_nodes_resources_validate_graph_resources.induct)
  case (1 rs t used)
  then show ?case by (auto simp: unknown_refs_Nil node_rules_def Let_def image_def)
next
  case (3 rs l body used)
  have "node_rules rs (LoopBlock l body) \<longleftrightarrow>
      \<not> ((lb_may_incur_cost l \<or> filter (is_risky rs) (graph_refs body) \<noteq> []) \<and> \<not> loop_bounded l)
      \<and> list_all (currency_matches rs l) (filter (is_risky rs) (graph_refs body))"
    by (auto simp: node_rules_def list_all_iff filter_empty_conv)
  with 3 show ?case by (auto simp: result_simps graph_refs_def Let_def)
next
  case (5 rs n ns used)
  then show ?case by (auto simp: result_simps)
qed (auto simp: node_rules_def graph_refs_def)

lemma fold_check_iff:
  "fold_r (\<lambda>_ x. check_r (p x) (err x)) () xs = Inr () \<longleftrightarrow> (\<forall>x\<in>set xs. p x)"
  by (induction xs) (auto simp: result_simps)

lemma fold_ok_iff:
  "fold_r (\<lambda>_ x. bind_r (f x) (\<lambda>_. Inr ())) () xs = Inr () \<longleftrightarrow> (\<forall>x\<in>set xs. \<exists>y. f x = Inr y)"
  by (induction xs) (auto simp: result_simps)

lemma references_iff:
  "validate_references_and_global_ids s = Inr () \<longleftrightarrow>
     distinct (entity_ids s)
     \<and> (\<forall>h\<in>set (sp_hypotheses s). set (hy_question_refs h) \<subseteq> rq_id ` set (sp_questions s))
     \<and> (\<forall>e\<in>set (sp_evaluations s). set (evl_dataset_refs e) \<subseteq> dset_id ` set (sp_datasets s))
     \<and> (\<forall>w\<in>set (sp_workflows s). \<forall>n\<in>set (all_nodes (ws_graph w)). node_rules (sp_resources s) n)"
  by (simp add: validate_references_and_global_ids_def result_simps Let_def fold_check_iff fold_ok_iff
      unknown_refs_Nil resources_iff length_card_set_distinct)

end
