(* ===== verification/Planner.thy ===== *)
theory Planner
  imports Blocks Spec_Research "HOL-Library.Product_Lexorder"
begin

text \<open>
  \<open>execution/planner.py\<close>: the compiler from a ResearchSpec to an inert plan, with the output
  classes of \<open>execution/models.py\<close> it builds.  The planner's state (limits, counters, used
  resources, requirements) is a record that the two mutually recursive functions
  \<open>_plan_graph\<close> and \<open>_plan_node\<close> pass on.

  Dicts and sets that are only read in sorted order are lists.  \<open>pe_spec_dump\<close> is pydantic's
  \<open>model_dump\<close> of the spec.  A planning error carries its code and its path; errors of other
  classes that the planner lets through are \<open>Propagated\<close>.
\<close>

section \<open>Plans\<close>

record resolved_block =
  rv_id :: pystr
  rv_version :: pystr
  rv_manifest_digest :: pystr
  rv_runtime_type :: pystr

record planned_resource =
  prs_id :: pystr
  prs_kind :: pystr
  prs_count :: int
  prs_provider :: "pystr option"
  prs_model :: "pystr option"
  prs_paid :: bool
  prs_max_cost :: "pystr option"
  prs_currency :: pystr
  prs_max_wall_time_seconds :: "int option"

record planned_task =
  pt_node_path :: "pystr list"
  pt_depends_on :: "pystr list"
  pt_block :: resolved_block
  pt_config_digest :: pystr
  pt_resource_refs :: "pystr list"
  pt_declared_capabilities :: "pystr list"
  pt_declared_permissions :: "pystr list"

record planned_approval =
  pa_node_path :: "pystr list"
  pa_depends_on :: "pystr list"
  pa_required_role :: pystr
  pa_prompt_digest :: pystr

record planned_loop =
  plp_node_path :: "pystr list"
  plp_depends_on :: "pystr list"
  plp_max_iterations :: int
  plp_max_wall_time_seconds :: "int option"
  plp_max_cost :: "pystr option"
  plp_currency :: pystr
  plp_may_incur_cost :: bool
  plp_checkpoint :: bool
  plp_until :: "pystr option"

datatype edge_kind = ControlEdge | DataEdge pystr pystr pystr pystr

record planned_edge =
  pe_kind :: edge_kind
  pe_source_path :: "pystr list"
  pe_target_path :: "pystr list"

text \<open>A stage is its index and its nodes.  The data of an edge are source port, target port and
  their value types: both are there or none, as \<open>edge_shape_matches_kind\<close> asks.\<close>

datatype planned_node =
    PlannedTask planned_task
  | PlannedApproval planned_approval
  | PlannedLoop planned_loop planned_graph
and planned_graph = PlannedGraph "(nat \<times> planned_node list) list" "planned_edge list"

record policy_requirement =
  req_id :: pystr
  req_kind :: string
  req_subject :: pystr

record execution_plan =
  ep_project_id :: pystr
  ep_project_revision :: int
  ep_workflow_id :: pystr
  ep_spec_digest :: pystr
  ep_registry_digest :: pystr
  ep_resources :: "planned_resource list"
  ep_requirements :: "policy_requirement list"
  ep_graph :: planned_graph

datatype planning_error =
    PlanningInputError string pystr
  | PlanningBlocked string pystr
  | Propagated registry_error
  | KeyError pystr

record planner_limits =
  max_nodes :: nat
  max_loop_depth :: nat

definition HARD_MAX_NODES :: nat where "HARD_MAX_NODES = 10000"
definition HARD_MAX_LOOP_DEPTH :: nat where "HARD_MAX_LOOP_DEPTH = 16"

text \<open>\<open>PlannerLimits.__post_init__\<close>\<close>

definition planner_limits_valid :: "planner_limits \<Rightarrow> bool" where
  "planner_limits_valid l \<longleftrightarrow> 1 \<le> max_nodes l \<and> max_nodes l \<le> HARD_MAX_NODES \<and> max_loop_depth l \<le> HARD_MAX_LOOP_DEPTH"

record planner_state =
  ps_limits :: planner_limits
  ps_paid_actions_require_approval :: bool
  ps_node_count :: nat
  ps_task_count :: nat
  ps_approval_count :: nat
  ps_loop_count :: nat
  ps_stage_count :: nat
  ps_used_resource_ids :: "pystr list"
  ps_requirements :: "(pystr \<times> policy_requirement) list"

record compiled_plan =
  cp_plan :: execution_plan
  cp_task_count :: nat
  cp_approval_count :: nat
  cp_loop_count :: nat
  cp_stage_count :: nat

record plan_env =
  env_blocks :: block_env
  env_spec_dump :: "research_spec \<Rightarrow> pyval"

section \<open>Paths and digests\<close>

definition pointer_char :: "nat \<Rightarrow> pystr" where
  "pointer_char c = (if c = 126 then [126, 48] else if c = 47 then [126, 49] else [c])"

fun join_slashes :: "pystr list \<Rightarrow> pystr" where
  "join_slashes [] = []"
| "join_slashes [x] = x"
| "join_slashes (x # xs) = x @ 47 # join_slashes xs"

definition pointer :: "pystr list \<Rightarrow> pystr" where
  "pointer parts = 47 # join_slashes (List.map (\<lambda>p. concat (List.map pointer_char p)) parts)"

definition plan_digest :: "plan_env \<Rightarrow> pyval \<Rightarrow> planning_error + pystr" where
  "plan_digest env v = map_sum (\<lambda>e. Propagated (JcsFailed e)) id (content_digest (blk_sha (env_blocks env)) v)"

text \<open>\<open>state.requirements[id] = ...\<close>\<close>

fun put :: "'k \<Rightarrow> 'v \<Rightarrow> ('k \<times> 'v) list \<Rightarrow> ('k \<times> 'v) list" where
  "put k v [] = [(k, v)]"
| "put k v ((k', v') # d) = (if k' = k then (k, v) # d else (k', v') # put k v d)"

definition require :: "pystr \<Rightarrow> string \<Rightarrow> pystr \<Rightarrow> planner_state \<Rightarrow> planner_state" where
  "require i kind subject st = st\<lparr>ps_requirements :=
     put i \<lparr>req_id = i, req_kind = kind, req_subject = subject\<rparr> (ps_requirements st)\<rparr>"

section \<open>Stages\<close>

text \<open>\<open>sorted\<close> of a set of strings\<close>

definition sorted_set :: "pystr list \<Rightarrow> pystr list" where
  "sorted_set xs = sort (remdups xs)"

function stage_loop :: "(pystr \<Rightarrow> pystr list) \<Rightarrow> pystr list \<Rightarrow> degrees \<Rightarrow> pystr list list" where
  "stage_loop adj ready d =
     (if ready = [] then []
      else let (next_ready, d') = release (concat (List.map (\<lambda>n. sort (adj n)) ready)) d
           in ready # stage_loop adj (sorted_set next_ready) d')"
  by pat_completeness auto

termination stage_loop
proof (relation "measure (\<lambda>(adj, ready, d). length ready + positive d)")
  fix adj :: "pystr \<Rightarrow> pystr list" and ready next_ready :: "pystr list" and d d' :: degrees and x :: "pystr list \<times> degrees"
  assume a: "ready \<noteq> []" "x = release (concat (List.map (\<lambda>n. sort (adj n)) ready)) d" "(next_ready, d') = x"
  then have "length next_ready + positive d' \<le> positive d" by (metis release_positive)
  moreover have "length (sorted_set next_ready) \<le> length next_ready" by (simp add: sorted_set_def length_remdups_leq)
  moreover have "1 \<le> length ready" using a(1) by (cases ready) auto
  ultimately have "length (sorted_set next_ready) + positive d' < length ready + positive d" by linarith
  then show "((adj, sorted_set next_ready, d'), adj, ready, d) \<in> measure (\<lambda>(adj, ready, d). length ready + positive d)"
    by simp
qed simp

declare stage_loop.simps [simp del]

definition topological_stages :: "workflow_graph \<Rightarrow> pystr list list \<times> (pystr \<Rightarrow> pystr list)" where
  "topological_stages g =
     (let node_ids = sort (List.map node_id (nodes g));
          (adj, deps, d) = List.fold link (List.map (\<lambda>e. (se_source e, se_target e)) (edges g)) (no_links node_ids)
      in (stage_loop adj (zero_keys d) d, \<lambda>n. sort (deps n)))"

section \<open>Data edges\<close>

definition node_dict :: "workflow_graph \<Rightarrow> (pystr \<times> workflow_node) list" where
  "node_dict g = rev (List.map (\<lambda>n. (node_id n, n)) (nodes g))"

definition lookup :: "(pystr \<times> 'a) list \<Rightarrow> pystr \<Rightarrow> planning_error + 'a" where
  "lookup d k = lift_option (KeyError k) (map_of d k)"

definition catch_block :: "pystr list \<Rightarrow> registry_error \<Rightarrow> planning_error" where
  "catch_block node_path e = (case e of
     UnknownBlock i v \<Rightarrow> PlanningBlocked ''unknown-block'' (pointer (node_path @ [U ''blockType'']))
   | BlockConfig r \<Rightarrow> PlanningBlocked ''invalid-block-config'' (pointer (node_path @ [U ''config'']))
   | _ \<Rightarrow> Propagated e)"

definition resolve_task :: "plan_env \<Rightarrow> block_registry \<Rightarrow> pystr list \<Rightarrow> (pystr \<times> workflow_node) list
    \<Rightarrow> (pystr \<times> registered_block) list \<Rightarrow> pystr \<Rightarrow> planning_error + (pystr \<times> registered_block) list" where
  "resolve_task env reg base_path dict resolved i = bind_r (lookup dict i) (\<lambda>node. case node of
     TaskBlock t \<Rightarrow> map_sum (catch_block (base_path @ [i])) id
       (bind_r (resolve reg (tb_block_type t) (tb_block_version t)) (\<lambda>block.
        bind_r (validate_config (env_blocks env) reg block (tb_config t)) (\<lambda>_. Inr (resolved @ [(i, block)]))))
   | _ \<Rightarrow> Inr resolved)"

definition ANY_TYPE :: pystr where "ANY_TYPE = U ''researchos.any''"

definition port_dict :: "block_port list \<Rightarrow> (pystr \<times> block_port) list" where
  "port_dict ports = rev (List.map (\<lambda>p. (bp_id p, p)) ports)"

definition compatible_types :: "pystr \<Rightarrow> pystr \<Rightarrow> bool" where
  "compatible_types s t \<longleftrightarrow> s = t \<or> s = ANY_TYPE \<or> t = ANY_TYPE"

type_synonym data_edges = "(pystr \<times> pystr) list \<times> planned_edge list"

definition plan_edge :: "pystr list \<Rightarrow> (pystr \<times> workflow_node) list \<Rightarrow> (pystr \<times> registered_block) list
    \<Rightarrow> data_edges \<Rightarrow> nat \<times> spec_edge \<Rightarrow> planning_error + data_edges" where
  "plan_edge base_path dict resolved st ie = (case (st, ie) of ((connected, planned), (index, e)) \<Rightarrow>
     let source_path = base_path @ [se_source e]; target_path = base_path @ [se_target e];
         edge_path = base_path @ [U ''edges'', digits_of index] in
     (case se_source_port e of
        None \<Rightarrow> Inr (connected, planned @ [\<lparr>pe_kind = ControlEdge, pe_source_path = source_path, pe_target_path = target_path\<rparr>])
      | Some source_port \<Rightarrow>
          bind_r (lookup dict (se_source e)) (\<lambda>source. bind_r (lookup dict (se_target e)) (\<lambda>target.
          case (source, target) of
            (TaskBlock s, TaskBlock t) \<Rightarrow>
              bind_r (lookup resolved (tb_id s)) (\<lambda>source_block. bind_r (lookup resolved (tb_id t)) (\<lambda>target_block.
              let target_port = (case se_target_port e of None \<Rightarrow> U ''None'' | Some p \<Rightarrow> p) in
              (case map_of (port_dict (bm_outputs (rb_manifest source_block))) source_port of
                 None \<Rightarrow> Inl (PlanningBlocked ''unknown-source-port'' (pointer (edge_path @ [U ''sourcePort''])))
               | Some out \<Rightarrow>
               (case map_of (port_dict (bm_inputs (rb_manifest target_block))) target_port of
                 None \<Rightarrow> Inl (PlanningBlocked ''unknown-target-port'' (pointer (edge_path @ [U ''targetPort''])))
               | Some inp \<Rightarrow>
                 if List.member connected (tb_id t, target_port)
                 then Inl (PlanningBlocked ''multiple-input-bindings'' (pointer (edge_path @ [U ''targetPort''])))
                 else if \<not> compatible_types (bp_value_type out) (bp_value_type inp)
                 then Inl (PlanningBlocked ''incompatible-port-types'' (pointer edge_path))
                 else Inr ((tb_id t, target_port) # connected, planned @
                   [\<lparr>pe_kind = DataEdge source_port target_port (bp_value_type out) (bp_value_type inp),
                     pe_source_path = source_path, pe_target_path = target_path\<rparr>])))))
          | _ \<Rightarrow> Inl (PlanningBlocked ''data-edge-requires-tasks'' (pointer edge_path))))))"

definition required_inputs :: "pystr list \<Rightarrow> (pystr \<times> pystr) list \<Rightarrow> pystr \<times> registered_block \<Rightarrow> planning_error + unit" where
  "required_inputs base_path connected ib = (case ib of (i, b) \<Rightarrow>
     check_r (list_all (\<lambda>p. \<not> (bp_required p \<and> \<not> List.member connected (i, bp_id p))) (bm_inputs (rb_manifest b)))
       (PlanningBlocked ''missing-required-input'' (pointer (base_path @ [i]))))"

definition edge_sort_key :: "planned_edge \<Rightarrow> pystr list \<times> pystr list \<times> pystr \<times> pystr" where
  "edge_sort_key e = (pe_source_path e, pe_target_path e,
     (case pe_kind e of ControlEdge \<Rightarrow> [] | DataEdge s t _ _ \<Rightarrow> s), (case pe_kind e of ControlEdge \<Rightarrow> [] | DataEdge s t _ _ \<Rightarrow> t))"

definition validate_data_edges :: "workflow_graph \<Rightarrow> (pystr \<times> workflow_node) list \<Rightarrow> (pystr \<times> registered_block) list
    \<Rightarrow> pystr list \<Rightarrow> planning_error + planned_edge list" where
  "validate_data_edges g dict resolved base_path =
     bind_r (fold_r (plan_edge base_path dict resolved) ([], []) (List.enumerate 0 (edges g))) (\<lambda>(connected, planned).
     bind_r (fold_r (\<lambda>_ ib. required_inputs base_path connected ib) () resolved) (\<lambda>_.
     Inr (sort_key edge_sort_key planned)))"

section \<open>Nodes and graphs\<close>

text \<open>A comprehension whose body changes the state and may raise.\<close>

fun map_state :: "('s \<Rightarrow> 'a \<Rightarrow> 'e + 's \<times> 'b) \<Rightarrow> 's \<Rightarrow> 'a list \<Rightarrow> 'e + 's \<times> 'b list" where
  "map_state f s [] = Inr (s, [])"
| "map_state f s (x # xs) = bind_r (f s x) (\<lambda>(s', y). bind_r (map_state f s' xs) (\<lambda>(s'', ys). Inr (s'', y # ys)))"

lemma map_state_cong [fundef_cong]:
  assumes "s = s'" "xs = ys" "\<And>s x. x \<in> set ys \<Longrightarrow> f s x = g s x"
  shows "map_state f s xs = map_state g s' ys"
proof -
  have "map_state f s ys = map_state g s ys" using assms(3)
    by (induction ys arbitrary: s) (auto intro!: arg_cong2[of _ _ _ _ bind_r] simp: fun_eq_iff)
  with assms(1,2) show ?thesis by simp
qed

lemma node_dict_size:
  "map_of (node_dict (WorkflowGraph ns es)) i = Some n \<Longrightarrow> size n < Suc (size_list size ns)"
proof -
  assume "map_of (node_dict (WorkflowGraph ns es)) i = Some n"
  then have "n \<in> set ns" by (auto simp: node_dict_def dest!: map_of_SomeD)
  then have "size n < size_list size ns + 1" by (induction ns) auto
  then show ?thesis by simp
qed

definition block_of :: "registered_block \<Rightarrow> resolved_block" where
  "block_of b = \<lparr>rv_id = bm_id (rb_manifest b), rv_version = bm_version (rb_manifest b), rv_manifest_digest = rb_digest b,
     rv_runtime_type = bm_runtime_type (rb_manifest b)\<rparr>"

definition plan_task :: "plan_env \<Rightarrow> pystr list \<Rightarrow> pystr list \<Rightarrow> (pystr \<times> registered_block) list \<Rightarrow> planner_state \<Rightarrow> task_block
    \<Rightarrow> planning_error + planner_state \<times> planned_node" where
  "plan_task env base_path depends_on resolved st t =
     bind_r (lookup resolved (tb_id t)) (\<lambda>block.
     bind_r (plan_digest env (PyDict (tb_config t))) (\<lambda>digest.
     Inr (st\<lparr>ps_task_count := ps_task_count st + 1, ps_used_resource_ids := ps_used_resource_ids st @ tb_resource_refs t\<rparr>,
       PlannedTask \<lparr>pt_node_path = base_path @ [tb_id t], pt_depends_on = depends_on, pt_block = block_of block,
         pt_config_digest = digest, pt_resource_refs = sort (tb_resource_refs t),
         pt_declared_capabilities = sort (bm_capabilities (rb_manifest block)),
         pt_declared_permissions = sort (bm_permissions (rb_manifest block))\<rparr>)))"

definition plan_approval :: "plan_env \<Rightarrow> pystr list \<Rightarrow> pystr list \<Rightarrow> planner_state \<Rightarrow> approval_block
    \<Rightarrow> planning_error + planner_state \<times> planned_node" where
  "plan_approval env base_path depends_on st a =
     (let node_path = base_path @ [ab_id a];
          st' = require (U ''approval:'' @ pointer node_path) ''human-approval'' (pointer node_path)
            (st\<lparr>ps_approval_count := ps_approval_count st + 1\<rparr>) in
      bind_r (plan_digest env (PyStr (ab_prompt a))) (\<lambda>digest.
      Inr (st', PlannedApproval \<lparr>pa_node_path = node_path, pa_depends_on = depends_on,
        pa_required_role = ab_required_role a, pa_prompt_digest = digest\<rparr>)))"

definition enter_loop :: "pystr list \<Rightarrow> planner_state \<Rightarrow> loop_block \<Rightarrow> planner_state" where
  "enter_loop node_path st l =
     (let st' = st\<lparr>ps_loop_count := ps_loop_count st + 1\<rparr> in
      if lb_may_incur_cost l \<and> ps_paid_actions_require_approval st'
      then require (U ''paid-loop:'' @ pointer node_path) ''paid-loop-approval'' (pointer node_path) st' else st')"

definition planned_condition :: "plan_env \<Rightarrow> loop_block \<Rightarrow> planning_error + pystr option" where
  "planned_condition env l = (case lb_until l of None \<Rightarrow> Inr None
     | Some expression \<Rightarrow> map_sum id Some (plan_digest env (PyStr expression)))"

definition loop_fields :: "pystr list \<Rightarrow> pystr list \<Rightarrow> loop_block \<Rightarrow> pystr option \<Rightarrow> planned_loop" where
  "loop_fields node_path depends_on l until = \<lparr>plp_node_path = node_path, plp_depends_on = depends_on,
     plp_max_iterations = lb_max_iterations l, plp_max_wall_time_seconds = lb_max_wall_time_seconds l,
     plp_max_cost = lb_max_cost l, plp_currency = lb_currency l, plp_may_incur_cost = lb_may_incur_cost l,
     plp_checkpoint = lb_checkpoint l, plp_until = until\<rparr>"

text \<open>What \<open>_plan_graph\<close> does before it plans a node: limits, blocks, edges and stages.\<close>

definition prepare_graph :: "plan_env \<Rightarrow> block_registry \<Rightarrow> pystr list \<Rightarrow> nat \<Rightarrow> planner_state \<Rightarrow> workflow_graph
    \<Rightarrow> planning_error + planner_state \<times> (pystr \<times> registered_block) list \<times> planned_edge list" where
  "prepare_graph env reg base_path depth st g =
     bind_r (check_r (depth \<le> max_loop_depth (ps_limits st)) (PlanningBlocked ''loop-depth-limit'' (pointer base_path))) (\<lambda>_.
     let st' = st\<lparr>ps_node_count := ps_node_count st + length (nodes g)\<rparr> in
     bind_r (check_r (ps_node_count st' \<le> max_nodes (ps_limits st')) (PlanningBlocked ''node-limit'' (pointer base_path))) (\<lambda>_.
     bind_r (fold_r (resolve_task env reg base_path (node_dict g)) [] (sorted_set (List.map node_id (nodes g)))) (\<lambda>resolved.
     bind_r (validate_data_edges g (node_dict g) resolved base_path) (\<lambda>planned_edges.
     Inr (st', resolved, planned_edges)))))"

function plan_graph :: "plan_env \<Rightarrow> block_registry \<Rightarrow> pystr list \<Rightarrow> nat \<Rightarrow> planner_state \<Rightarrow> workflow_graph
    \<Rightarrow> planning_error + planner_state \<times> planned_graph"
and plan_node :: "plan_env \<Rightarrow> block_registry \<Rightarrow> pystr list \<Rightarrow> pystr list \<Rightarrow> nat \<Rightarrow> (pystr \<times> registered_block) list
    \<Rightarrow> planner_state \<Rightarrow> workflow_node \<Rightarrow> planning_error + planner_state \<times> planned_node" where
  "plan_graph env reg base_path depth st (WorkflowGraph ns es) =
     bind_r (prepare_graph env reg base_path depth st (WorkflowGraph ns es)) (\<lambda>(st', resolved, planned_edges).
     let (stages, dependencies) = topological_stages (WorkflowGraph ns es) in
     bind_r (map_state (\<lambda>st ids. map_state (\<lambda>st i.
          case map_of (node_dict (WorkflowGraph ns es)) i of
            None \<Rightarrow> Inl (KeyError i)
          | Some node \<Rightarrow> plan_node env reg base_path (dependencies i) depth resolved st node) st ids) st' stages)
       (\<lambda>(st'', planned). Inr (st''\<lparr>ps_stage_count := ps_stage_count st'' + length planned\<rparr>,
          PlannedGraph (List.enumerate 0 planned) planned_edges)))"
| "plan_node env reg base_path dependencies depth resolved st node =
     (let depends_on = List.map (\<lambda>d. pointer (base_path @ [d])) dependencies in
      case node of
        TaskBlock t \<Rightarrow> plan_task env base_path depends_on resolved st t
      | ApprovalBlock a \<Rightarrow> plan_approval env base_path depends_on st a
      | LoopBlock l body \<Rightarrow>
          bind_r (planned_condition env l) (\<lambda>until.
          bind_r (plan_graph env reg (base_path @ [lb_id l, U ''body'']) (depth + 1)
              (enter_loop (base_path @ [lb_id l]) st l) body) (\<lambda>(st', planned_body).
          Inr (st', PlannedLoop (loop_fields (base_path @ [lb_id l]) depends_on l until) planned_body))))"
  by pat_completeness auto

termination
  by (relation "measure (\<lambda>x. case x of Inl (_, _, _, _, _, g) \<Rightarrow> size g | Inr (_, _, _, _, _, _, _, n) \<Rightarrow> size n)")
     (auto dest: node_dict_size)

declare plan_graph.simps [simp del]
declare plan_node.simps [simp del]

section \<open>\<open>compile_plan\<close>\<close>

definition select_workflow :: "research_spec \<Rightarrow> pystr option \<Rightarrow> planning_error + workflow_spec" where
  "select_workflow s workflow_id = (case workflow_id of
     Some i \<Rightarrow> lift_option (PlanningInputError ''unknown-workflow'' (U ''/workflowId''))
        (find_first (\<lambda>w. ws_id w = i) (sp_workflows s))
   | None \<Rightarrow> (case sp_workflows s of
        [] \<Rightarrow> Inl (PlanningInputError ''missing-workflow'' (U ''/workflows''))
      | [w] \<Rightarrow> Inr w
      | _ \<Rightarrow> Inl (PlanningInputError ''workflow-selection-required'' (U ''/workflows''))))"

definition planned_resource_of :: "resource_spec \<Rightarrow> planned_resource" where
  "planned_resource_of r = \<lparr>prs_id = rs_id r, prs_kind = rs_kind r, prs_count = rs_count r, prs_provider = rs_provider r,
     prs_model = rs_model r, prs_paid = rs_paid r, prs_max_cost = rs_max_cost r, prs_currency = rs_currency r,
     prs_max_wall_time_seconds = rs_max_wall_time_seconds r\<rparr>"

definition initial_planner_state :: "planner_limits \<Rightarrow> bool \<Rightarrow> planner_state" where
  "initial_planner_state limits paid = \<lparr>ps_limits = limits, ps_paid_actions_require_approval = paid, ps_node_count = 0,
     ps_task_count = 0, ps_approval_count = 0, ps_loop_count = 0, ps_stage_count = 0, ps_used_resource_ids = [],
     ps_requirements = []\<rparr>"

definition require_paid_resource :: "bool \<Rightarrow> planner_state \<Rightarrow> resource_spec \<Rightarrow> planner_state" where
  "require_paid_resource paid st r = (if rs_paid r \<and> paid
     then require (U ''paid-resource:'' @ rs_id r) ''paid-resource-approval'' (rs_id r) st else st)"

definition compile_plan :: "plan_env \<Rightarrow> research_spec \<Rightarrow> block_registry \<Rightarrow> pystr option \<Rightarrow> planner_limits
    \<Rightarrow> planning_error + compiled_plan" where
  "compile_plan env s reg workflow_id limits =
     bind_r (check_r (rg_sealed reg) (PlanningInputError ''registry-not-sealed'' (U ''/registry''))) (\<lambda>_.
     bind_r (select_workflow s workflow_id) (\<lambda>workflow.
     bind_r (check_r (1 \<le> max_nodes limits) (PlanningInputError ''invalid-planner-limits'' (U ''/limits''))) (\<lambda>_.
     let paid = pol_paid_actions_require_approval (sp_policies s) in
     bind_r (plan_graph env reg [U ''workflow'', ws_id workflow] 0 (initial_planner_state limits paid) (ws_graph workflow)) (\<lambda>(st, graph).
     bind_r (map_r (\<lambda>i. lift_option (KeyError i) (resource_by_id (sp_resources s) i)) (sorted_set (ps_used_resource_ids st)))
       (\<lambda>resources.
     let st' = foldl (require_paid_resource paid) st resources in
     bind_r (plan_digest env (env_spec_dump env s)) (\<lambda>spec_digest.
     bind_r (map_sum Propagated id (registry_digest (env_blocks env) reg)) (\<lambda>reg_digest.
     Inr \<lparr>cp_plan = \<lparr>ep_project_id = pm_id (sp_metadata s), ep_project_revision = pm_revision (sp_metadata s),
           ep_workflow_id = ws_id workflow, ep_spec_digest = spec_digest, ep_registry_digest = reg_digest,
           ep_resources = List.map planned_resource_of resources,
           ep_requirements = List.map snd (sort_key fst (ps_requirements st')), ep_graph = graph\<rparr>,
         cp_task_count = ps_task_count st', cp_approval_count = ps_approval_count st',
         cp_loop_count = ps_loop_count st', cp_stage_count = ps_stage_count st'\<rparr>)))))))"

end
