(* ===== verification/Planner_Facts.thy ===== *)
theory Planner_Facts
  imports Planner
begin

text \<open>
  Facts about the planner: what \<open>topological_stages\<close> returns on a graph the validator accepted, when
  the data edges of a graph are accepted, and when a whole graph is planned.
\<close>

section \<open>Stages\<close>

definition preds :: "(pystr \<times> pystr) set \<Rightarrow> pystr \<Rightarrow> pystr set" where
  "preds E n = {m. (m, n) \<in> E}"

text \<open>\<open>stages\<close> goes on where the nodes in \<open>V\<close> are already placed: each stage holds, sorted, the nodes
  whose predecessors are all placed.\<close>

fun layered :: "pystr list \<Rightarrow> (pystr \<Rightarrow> pystr list) \<Rightarrow> pystr set \<Rightarrow> pystr list list \<Rightarrow> bool" where
  "layered N adj V [] \<longleftrightarrow> sources N adj V = {}"
| "layered N adj V (r # rs) \<longleftrightarrow> r \<noteq> [] \<and> sorted r \<and> distinct r \<and> set r = sources N adj V \<and> layered N adj (V \<union> set r) rs"

lemma layered_tl: "layered N adj V (r # rs) \<Longrightarrow> layered N adj (V \<union> set r) rs"
  unfolding layered.simps by blast

lemma sorted_set_facts [simp]: "set (sorted_set xs) = set xs" "sorted (sorted_set xs)" "distinct (sorted_set xs)"
  by (simp_all add: sorted_set_def)

lemma stage_loop_layered:
  assumes "successors_ok N adj" "\<And>n. distinct (adj n)"
    and "taken_ok N adj V" "degrees_for N adj V d" "distinct ready" "sorted ready" "set ready = sources N adj V"
  shows "layered N adj V (stage_loop adj ready d) \<and> taken_ok N adj (V \<union> set (concat (stage_loop adj ready d)))"
  using assms
proof (induction adj ready d arbitrary: V rule: stage_loop.induct)
  case (1 adj ready d)
  show ?case
  proof (cases "ready = []")
    case True
    with "1.prems"(3,7) show ?thesis by (simp add: stage_loop.simps)
  next
    case False
    obtain nr d' where r: "release (concat (List.map (\<lambda>n. sort (adj n)) ready)) d = (nr, d')"
      by (cases "release (concat (List.map (\<lambda>n. sort (adj n)) ready)) d")
    have ts: "targets_of adj ready (concat (List.map (\<lambda>n. sort (adj n)) ready))"
      by (rule targets_of_concat[OF "1.prems"(5)]) (simp_all add: "1.prems"(2))
    note g = take_group[OF "1.prems"(3,4) _ ts r "1.prems"(1), unfolded "1.prems"(7), OF order_refl]
    have "layered N adj (V \<union> set ready) (stage_loop adj (sorted_set nr) d')
        \<and> taken_ok N adj (V \<union> set ready \<union> set (concat (stage_loop adj (sorted_set nr) d')))"
      by (rule "1.IH"[OF False r[symmetric] refl "1.prems"(1,2)])
        (use g "1.prems"(7) in simp_all)
    with False r "1.prems"(5-7) show ?thesis by (simp add: stage_loop.simps Un_assoc)
  qed
qed

lemma layered_stage:
  assumes "layered N adj V stages" "i < length stages"
  shows "stages ! i \<noteq> [] \<and> sorted (stages ! i) \<and> distinct (stages ! i)
     \<and> set (stages ! i) = sources N adj (V \<union> set (concat (take i stages)))"
  using assms
proof (induction stages arbitrary: V i)
  case (Cons r rs)
  then show ?case
  proof (cases i)
    case (Suc j)
    have "layered N adj (V \<union> set r) rs" "j < length rs" using layered_tl[OF Cons.prems(1)] Cons.prems(2) Suc by auto
    from Cons.IH[OF this] show ?thesis by (simp add: Suc Un_assoc)
  qed simp
qed simp

lemma layered_distinct:
  "layered N adj V stages \<Longrightarrow> distinct (concat stages) \<and> set (concat stages) \<inter> V = {}"
proof (induction stages arbitrary: V)
  case (Cons r rs)
  then have "distinct (concat rs)" "set (concat rs) \<inter> (V \<union> set r) = {}" "set r \<inter> V = {}"
    by (auto simp: sources_def)
  with Cons.prems show ?case by auto
qed simp

lemma layered_end: "layered N adj V stages \<Longrightarrow> sources N adj (V \<union> set (concat stages)) = {}"
proof (induction stages arbitrary: V)
  case (Cons r rs)
  from Cons.IH[OF layered_tl[OF Cons.prems]] show ?case by (simp add: Un_assoc)
qed simp

lemma topological_stages_layered:
  assumes "graph_well_formed g" "topological_stages g = (stages, deps)"
  shows "mset (concat stages) = mset (List.map node_id (nodes g))"
    and "\<forall>i<length stages. stages ! i \<noteq> [] \<and> sorted (stages ! i) \<and>
       set (stages ! i) = {n \<in> node_id ` set (nodes g). n \<notin> set (concat (take i stages))
          \<and> preds (edge_pairs_of g) n \<subseteq> set (concat (take i stages))}"
    and "\<forall>n. deps n = sorted_list_of_set (preds (edge_pairs_of g) n)"
proof -
  let ?N = "sort (List.map node_id (nodes g))" and ?E = "edge_pairs_of g"
  let ?l = "List.fold link (List.map (\<lambda>e. (se_source e, se_target e)) (edges g)) (no_links ?N)"
  obtain adj dep d where l: "?l = (adj, dep, d)" by (cases ?l)
  have st: "stages = stage_loop adj (zero_keys d) d" "deps = (\<lambda>n. sort (dep n))"
    using assms(2) l by (simp_all add: topological_stages_def)
  have N: "distinct ?N" and E: "?E \<subseteq> set ?N \<times> set ?N" and ac: "acyclic ?E"
    using assms(1) graph_links(2)[of g] by (auto simp: graph_well_formed_def)
  have "links_ok ?N ?E ?l"
    using links_fold[OF no_links_ok, of ?N "List.map (\<lambda>e. (se_source e, se_target e)) (edges g)"] by (simp add: edge_pairs_of_def)
  note f = links_facts[OF this[unfolded l] N E]
  have keys: "distinct (List.map fst d)" using f(8) N by simp
  have "zero_keys d = filter (\<lambda>n. map_of d n = Some 0) (List.map fst d)"
    using keys by (auto simp: zero_keys_def filter_map comp_def intro!: arg_cong[where f="List.map fst"] filter_cong dest: eq_key_imp_eq_value)
  then have sorted: "sorted (zero_keys d)" using f(8) by (simp add: sorted_filter[where f="\<lambda>x. x", simplified])
  have lt: "layered ?N adj {} stages" "taken_ok ?N adj (set (concat stages))"
    using stage_loop_layered[OF f(1,4) taken_empty f(3) zero_keys(1)[OF keys] sorted]
      zero_keys(2)[OF keys] initial_sources[OF f(3)] st(1) by auto
  have "set (concat stages) = set ?N"
    using all_taken_iff[OF f(1) lt(2)] layered_end[OF lt(1)] f(2) ac by simp
  with layered_distinct[OF lt(1)] N show "mset (concat stages) = mset (List.map node_id (nodes g))"
    by (metis mset_sort set_eq_iff_mset_eq_distinct)
  have src: "sources ?N adj V = {n \<in> node_id ` set (nodes g). n \<notin> V \<and> preds ?E n \<subseteq> V}" for V
  proof (rule set_eqI)
    fix n
    have "open_preds ?N adj V n = preds ?E n - V" using f(5) E by (auto simp: open_preds_def preds_def)
    then show "n \<in> sources ?N adj V \<longleftrightarrow> n \<in> {n \<in> node_id ` set (nodes g). n \<notin> V \<and> preds ?E n \<subseteq> V}"
      by (auto simp: sources_def)
  qed
  show "\<forall>i<length stages. stages ! i \<noteq> [] \<and> sorted (stages ! i) \<and>
       set (stages ! i) = {n \<in> node_id ` set (nodes g). n \<notin> set (concat (take i stages))
          \<and> preds (edge_pairs_of g) n \<subseteq> set (concat (take i stages))}"
    using layered_stage[OF lt(1)] src by simp
  have "sort (dep n) = sorted_list_of_set (preds ?E n)" for n
    using f(6,7)[of n] by (metis preds_def sorted_list_of_set_sort_remdups distinct_remdups_id)
  then show "\<forall>n. deps n = sorted_list_of_set (preds ?E n)" by (simp add: st(2))
qed

section \<open>Data edges\<close>

definition target_port_of :: "spec_edge \<Rightarrow> pystr" where
  "target_port_of e = (case se_target_port e of None \<Rightarrow> U ''None'' | Some p \<Rightarrow> p)"

text \<open>The input an edge binds, and the plan's edge for it: between two tasks, from a declared output
  to a declared input of a compatible type.\<close>

definition input_of :: "spec_edge \<Rightarrow> (pystr \<times> pystr) option" where
  "input_of e = (if se_source_port e = None then None else Some (se_target e, target_port_of e))"

definition inputs_bound :: "spec_edge list \<Rightarrow> (pystr \<times> pystr) list" where
  "inputs_bound es = List.map_filter input_of es"

definition data_planned :: "(pystr \<times> workflow_node) list \<Rightarrow> (pystr \<times> registered_block) list \<Rightarrow> spec_edge \<Rightarrow> pystr \<Rightarrow> edge_kind \<Rightarrow> bool" where
  "data_planned dict resolved e source_port k \<longleftrightarrow> (\<exists>s t sb tb out inp.
     map_of dict (se_source e) = Some (TaskBlock s) \<and> map_of dict (se_target e) = Some (TaskBlock t) \<and>
     map_of resolved (se_source e) = Some sb \<and> map_of resolved (se_target e) = Some tb \<and>
     map_of (port_dict (bm_outputs (rb_manifest sb))) source_port = Some out \<and>
     map_of (port_dict (bm_inputs (rb_manifest tb))) (target_port_of e) = Some inp \<and>
     compatible_types (bp_value_type out) (bp_value_type inp) \<and>
     k = DataEdge source_port (target_port_of e) (bp_value_type out) (bp_value_type inp))"

definition edge_planned :: "pystr list \<Rightarrow> (pystr \<times> workflow_node) list \<Rightarrow> (pystr \<times> registered_block) list
    \<Rightarrow> spec_edge \<Rightarrow> planned_edge \<Rightarrow> bool" where
  "edge_planned base dict resolved e p \<longleftrightarrow> pe_source_path p = base @ [se_source e] \<and> pe_target_path p = base @ [se_target e]
     \<and> (case se_source_port e of None \<Rightarrow> pe_kind p = ControlEdge
        | Some source_port \<Rightarrow> data_planned dict resolved e source_port (pe_kind p))"

definition dict_ok :: "(pystr \<times> workflow_node) list \<Rightarrow> bool" where
  "dict_ok dict \<longleftrightarrow> (\<forall>i n. map_of dict i = Some n \<longrightarrow> node_id n = i)"

lemma node_dict_ok: "dict_ok (node_dict g)"
  by (auto simp: dict_ok_def node_dict_def dest!: map_of_SomeD)

lemma lookup_iff [result_simps]: "lookup d k = Inr x \<longleftrightarrow> map_of d k = Some x"
  by (simp add: lookup_def result_simps)

lemma control_step:
  assumes "se_source_port e = None"
  shows "plan_edge base dict resolved (connected, planned) (k, e) = Inr st \<longleftrightarrow>
    (\<exists>p. edge_planned base dict resolved e p \<and> st = (connected, planned @ [p]))"
proof -
  have "edge_planned base dict resolved e p \<longleftrightarrow>
      p = \<lparr>pe_kind = ControlEdge, pe_source_path = base @ [se_source e], pe_target_path = base @ [se_target e]\<rparr>" for p
    using assms by (cases p) (auto simp: edge_planned_def)
  then show ?thesis using assms by (auto simp: plan_edge_def)
qed

lemma data_step:
  assumes "se_source_port e = Some sp" "dict_ok dict"
  shows "plan_edge base dict resolved (connected, planned) (k, e) = Inr st \<longleftrightarrow>
    (\<exists>p. edge_planned base dict resolved e p \<and> (se_target e, target_port_of e) \<notin> set connected
       \<and> st = ((se_target e, target_port_of e) # connected, planned @ [p]))"
proof -
  have ids: "map_of dict (se_source e) = Some (TaskBlock s) \<Longrightarrow> tb_id s = se_source e"
    "map_of dict (se_target e) = Some (TaskBlock s) \<Longrightarrow> tb_id s = se_target e" for s
    using assms(2) unfolding dict_ok_def by (metis node_id.simps(1))+
  have ep: "edge_planned base dict resolved e p \<longleftrightarrow> (\<exists>kd. data_planned dict resolved e sp kd \<and>
      p = \<lparr>pe_kind = kd, pe_source_path = base @ [se_source e], pe_target_path = base @ [se_target e]\<rparr>)" for p
    using assms(1) by (cases p) (auto simp: edge_planned_def)
  show ?thesis
  proof (cases "\<exists>s t. map_of dict (se_source e) = Some (TaskBlock s) \<and> map_of dict (se_target e) = Some (TaskBlock t)")
    case True
    then obtain s t where st: "map_of dict (se_source e) = Some (TaskBlock s)" "map_of dict (se_target e) = Some (TaskBlock t)" by blast
    note i = ids(1)[OF st(1)] ids(2)[OF st(2)]
    let ?out = "\<lambda>sb. map_of (port_dict (bm_outputs (rb_manifest sb))) sp"
      and ?inp = "\<lambda>tb. map_of (port_dict (bm_inputs (rb_manifest tb))) (target_port_of e)"
    show ?thesis
    proof (cases "\<exists>sb tb out inp. map_of resolved (se_source e) = Some sb \<and> map_of resolved (se_target e) = Some tb
        \<and> ?out sb = Some out \<and> ?inp tb = Some inp")
      case True
      then obtain sb tb out inp where f: "map_of resolved (se_source e) = Some sb" "map_of resolved (se_target e) = Some tb"
        "?out sb = Some out" "?inp tb = Some inp" by blast
      with assms(1) st i show ?thesis
        by (simp add: plan_edge_def Let_def target_port_of_def[symmetric] ep data_planned_def lookup_def lift_option_def) auto
    next
      case False
      have "plan_edge base dict resolved (connected, planned) (k, e) \<noteq> Inr st"
      proof
        assume "plan_edge base dict resolved (connected, planned) (k, e) = Inr st"
        then have "\<exists>sb tb. map_of resolved (se_source e) = Some sb \<and> map_of resolved (se_target e) = Some tb
            \<and> ?out sb \<noteq> None \<and> ?inp tb \<noteq> None"
          using assms(1) st i
          by (auto simp: plan_edge_def Let_def target_port_of_def[symmetric] result_simps split: option.split_asm)
        with False show False by blast
      qed
      moreover have "\<not> (\<exists>p. edge_planned base dict resolved e p)" using False by (auto simp: ep data_planned_def)
      ultimately show ?thesis by blast
    qed
  next
    case False
    then have "plan_edge base dict resolved (connected, planned) (k, e) \<noteq> Inr st"
      using assms(1) by (auto simp: plan_edge_def Let_def result_simps split: workflow_node.splits)
    moreover have "\<not> (\<exists>p. edge_planned base dict resolved e p)" using False by (auto simp: ep data_planned_def)
    ultimately show ?thesis by blast
  qed
qed

lemma plan_edge_iff:
  assumes "dict_ok dict"
  shows "plan_edge base dict resolved (connected, planned) (k, e) = Inr st \<longleftrightarrow>
    (\<exists>p. edge_planned base dict resolved e p \<and> set (inputs_bound [e]) \<inter> set connected = {}
       \<and> st = (rev (inputs_bound [e]) @ connected, planned @ [p]))"
  using control_step[of e] data_step[OF _ assms, of e]
  by (cases "se_source_port e") (auto simp: inputs_bound_def input_of_def List.map_filter_simps)

lemma inputs_bound_simps [simp]:
  "inputs_bound [] = []" "inputs_bound (e # es) = inputs_bound [e] @ inputs_bound es"
  by (simp_all add: inputs_bound_def List.map_filter_simps split: option.split)

declare inputs_bound_simps(2) [simp del]

lemma inputs_bound_one: "distinct (inputs_bound [e])" "length (inputs_bound [e]) \<le> 1"
  by (simp_all add: inputs_bound_def List.map_filter_simps split: option.split)

lemma plan_edges_iff:
  assumes "dict_ok dict"
  shows "fold_r (plan_edge base dict resolved) (connected, planned) (List.enumerate k es) = Inr st \<longleftrightarrow>
    (\<exists>ps. list_all2 (edge_planned base dict resolved) es ps \<and> distinct (inputs_bound es)
       \<and> set (inputs_bound es) \<inter> set connected = {} \<and> st = (rev (inputs_bound es) @ connected, planned @ ps))"
proof (induction es arbitrary: connected planned k)
  case (Cons e es)
  have "fold_r (plan_edge base dict resolved) (connected, planned) (List.enumerate k (e # es)) = Inr st \<longleftrightarrow>
    (\<exists>p. edge_planned base dict resolved e p \<and> set (inputs_bound [e]) \<inter> set connected = {} \<and>
       fold_r (plan_edge base dict resolved) (rev (inputs_bound [e]) @ connected, planned @ [p]) (List.enumerate (Suc k) es) = Inr st)"
    by (auto simp: result_simps plan_edge_iff[OF assms])
  also have "\<dots> \<longleftrightarrow> (\<exists>p ps. edge_planned base dict resolved e p \<and> list_all2 (edge_planned base dict resolved) es ps
      \<and> set (inputs_bound [e]) \<inter> set connected = {} \<and> distinct (inputs_bound es)
      \<and> set (inputs_bound es) \<inter> set (rev (inputs_bound [e]) @ connected) = {}
      \<and> st = (rev (inputs_bound es) @ rev (inputs_bound [e]) @ connected, (planned @ [p]) @ ps))"
    unfolding Cons.IH by blast
  also have "\<dots> \<longleftrightarrow> (\<exists>ps. list_all2 (edge_planned base dict resolved) (e # es) ps \<and> distinct (inputs_bound (e # es))
       \<and> set (inputs_bound (e # es)) \<inter> set connected = {} \<and> st = (rev (inputs_bound (e # es)) @ connected, planned @ ps))"
    using inputs_bound_one[of e] unfolding inputs_bound_simps(2)[of e es] list_all2_Cons1 by (auto; blast)
  finally show ?case .
qed auto

text \<open>The edges of a graph are accepted: every data edge fits, no input is bound twice, and the
  required inputs of every task are bound.\<close>

definition edges_plannable :: "workflow_graph \<Rightarrow> (pystr \<times> registered_block) list \<Rightarrow> bool" where
  "edges_plannable g resolved \<longleftrightarrow>
     (\<forall>e\<in>set (edges g). \<forall>p. se_source_port e = Some p \<longrightarrow> (\<exists>k. data_planned (node_dict g) resolved e p k))
     \<and> distinct (inputs_bound (edges g))
     \<and> (\<forall>(i, b)\<in>set resolved. \<forall>p\<in>set (bm_inputs (rb_manifest b)). bp_required p \<longrightarrow> (i, bp_id p) \<in> set (inputs_bound (edges g)))"

definition edges_match :: "workflow_graph \<Rightarrow> (pystr \<times> registered_block) list \<Rightarrow> pystr list \<Rightarrow> planned_edge list \<Rightarrow> bool" where
  "edges_match g resolved base ps \<longleftrightarrow>
     (\<exists>qs. mset qs = mset ps \<and> list_all2 (edge_planned base (node_dict g) resolved) (edges g) qs)"

lemma edge_planned_exists:
  "(\<exists>p. edge_planned base dict resolved e p) \<longleftrightarrow> (\<forall>sp. se_source_port e = Some sp \<longrightarrow> (\<exists>k. data_planned dict resolved e sp k))"
proof
  assume "\<forall>sp. se_source_port e = Some sp \<longrightarrow> (\<exists>k. data_planned dict resolved e sp k)"
  then obtain k where k: "\<And>sp. se_source_port e = Some sp \<Longrightarrow> data_planned dict resolved e sp k"
    by (cases "se_source_port e") auto
  let ?k = "if se_source_port e = None then ControlEdge else k"
  have "edge_planned base dict resolved e \<lparr>pe_kind = ?k, pe_source_path = base @ [se_source e], pe_target_path = base @ [se_target e]\<rparr>"
    using k by (auto simp: edge_planned_def split: option.split)
  then show "\<exists>p. edge_planned base dict resolved e p" by blast
qed (auto simp: edge_planned_def)

lemma list_all2_exists: "(\<exists>ys. list_all2 R xs ys) \<longleftrightarrow> (\<forall>x\<in>set xs. \<exists>y. R x y)"
  by (induction xs) (auto simp: list_all2_Cons1)

lemma validate_data_edges_ok:
  "is_ok (validate_data_edges g (node_dict g) resolved base) \<longleftrightarrow> edges_plannable g resolved"
proof -
  have req: "fold_r (\<lambda>_ ib. required_inputs base connected ib) () resolved = Inr () \<longleftrightarrow>
      (\<forall>(i, b)\<in>set resolved. \<forall>p\<in>set (bm_inputs (rb_manifest b)). bp_required p \<longrightarrow> (i, bp_id p) \<in> set connected)" for connected
    unfolding required_inputs_def case_prod_beta fold_check_iff list_all_iff by auto
  show ?thesis
    by (auto simp: validate_data_edges_def plan_edges_iff[OF node_dict_ok] req edges_plannable_def list_all2_exists
        edge_planned_exists result_simps)
qed

lemma validate_data_edges_match:
  "validate_data_edges g (node_dict g) resolved base = Inr ps \<Longrightarrow> edges_match g resolved base ps"
  by (auto simp: validate_data_edges_def plan_edges_iff[OF node_dict_ok] edges_match_def result_simps)

section \<open>Blocks of the tasks\<close>

definition task_resolves :: "plan_env \<Rightarrow> block_registry \<Rightarrow> task_block \<Rightarrow> bool" where
  "task_resolves env reg t \<longleftrightarrow> (\<exists>b. map_of (rg_blocks reg) (tb_block_type t, tb_block_version t) = Some b
     \<and> validate_config (env_blocks env) reg b (tb_config t) = Inr ())"

definition block_for :: "block_registry \<Rightarrow> (pystr \<times> workflow_node) list \<Rightarrow> pystr \<Rightarrow> registered_block option" where
  "block_for reg dict i = (case map_of dict i of
     Some (TaskBlock t) \<Rightarrow> map_of (rg_blocks reg) (tb_block_type t, tb_block_version t) | _ \<Rightarrow> None)"

definition resolved_for :: "block_registry \<Rightarrow> (pystr \<times> workflow_node) list \<Rightarrow> pystr list \<Rightarrow> (pystr \<times> registered_block) list" where
  "resolved_for reg dict ids = List.map_filter (\<lambda>i. map_option (Pair i) (block_for reg dict i)) ids"

lemma map_of_resolved_for: "map_of (resolved_for reg dict ids) i = (if i \<in> set ids then block_for reg dict i else None)"
  by (induction ids) (auto simp: resolved_for_def List.map_filter_simps split: option.split)

lemma resolve_task_iff:
  assumes "map_of dict i = Some n"
  shows "resolve_task env reg base dict resolved i = Inr r \<longleftrightarrow>
     (\<forall>t. n = TaskBlock t \<longrightarrow> task_resolves env reg t) \<and> r = resolved @ resolved_for reg dict [i]"
proof (cases n)
  case (TaskBlock t)
  have m: "map_sum f id x = Inr y \<longleftrightarrow> x = Inr y" for f :: "registry_error \<Rightarrow> planning_error" and x and y :: "(pystr \<times> registered_block) list"
    by (cases x) auto
  have "resolve_task env reg base dict resolved i = Inr r \<longleftrightarrow>
      (\<exists>b. map_of (rg_blocks reg) (tb_block_type t, tb_block_version t) = Some b
        \<and> validate_config (env_blocks env) reg b (tb_config t) = Inr () \<and> r = resolved @ [(i, b)])"
    using TaskBlock assms by (auto simp: resolve_task_def lookup_def lift_option_def m result_simps resolve_def split: option.splits)
  with TaskBlock assms show ?thesis
    by (auto simp: task_resolves_def resolved_for_def block_for_def List.map_filter_simps)
qed (use assms in \<open>auto simp: resolve_task_def lookup_def lift_option_def resolved_for_def block_for_def List.map_filter_simps\<close>)

lemma resolve_tasks_iff:
  assumes "\<forall>i\<in>set ids. map_of dict i \<noteq> None"
  shows "fold_r (resolve_task env reg base dict) resolved ids = Inr r \<longleftrightarrow>
     (\<forall>i\<in>set ids. \<forall>t. map_of dict i = Some (TaskBlock t) \<longrightarrow> task_resolves env reg t)
     \<and> r = resolved @ resolved_for reg dict ids"
  using assms
proof (induction ids arbitrary: resolved)
  case (Cons i ids)
  then obtain n where n: "map_of dict i = Some n" by auto
  have split: "resolved_for reg dict (i # ids) = resolved_for reg dict [i] @ resolved_for reg dict ids"
    by (simp add: resolved_for_def List.map_filter_simps split: option.split)
  show ?case using Cons n by (auto simp: result_simps resolve_task_iff[OF n] split)
qed (auto simp: resolved_for_def List.map_filter_simps)

text \<open>The dict of nodes, when ids are unique.\<close>

lemma node_dict_iff:
  assumes "distinct (List.map node_id (nodes g))"
  shows "map_of (node_dict g) i = Some n \<longleftrightarrow> n \<in> set (nodes g) \<and> node_id n = i"
proof -
  have "distinct (List.map fst (node_dict g))" using assms by (simp add: node_dict_def rev_map[symmetric] comp_def)
  then have "map_of (node_dict g) i = Some n \<longleftrightarrow> (i, n) \<in> set (node_dict g)" by (rule map_of_eq_Some_iff)
  then show ?thesis by (auto simp: node_dict_def)
qed

definition graph_blocks :: "block_registry \<Rightarrow> workflow_graph \<Rightarrow> (pystr \<times> registered_block) list" where
  "graph_blocks reg g = resolved_for reg (node_dict g) (sorted_set (List.map node_id (nodes g)))"

lemma graph_blocks_task:
  assumes "distinct (List.map node_id (nodes g))" "TaskBlock t \<in> set (nodes g)"
  shows "map_of (graph_blocks reg g) (tb_id t) = map_of (rg_blocks reg) (tb_block_type t, tb_block_version t)"
proof -
  have "map_of (node_dict g) (tb_id t) = Some (TaskBlock t)" using assms by (simp add: node_dict_iff)
  moreover have "tb_id t \<in> set (List.map node_id (nodes g))" using assms(2) by force
  ultimately show ?thesis by (simp add: graph_blocks_def map_of_resolved_for block_for_def)
qed

text \<open>When a graph passes the checks that come before its nodes.\<close>

lemma prepare_graph_iff:
  assumes "distinct (List.map node_id (nodes g))"
  shows "prepare_graph env reg base depth st g = Inr (st', resolved, es) \<longleftrightarrow>
    depth \<le> max_loop_depth (ps_limits st) \<and> ps_node_count st + length (nodes g) \<le> max_nodes (ps_limits st)
    \<and> (\<forall>t. TaskBlock t \<in> set (nodes g) \<longrightarrow> task_resolves env reg t)
    \<and> resolved = graph_blocks reg g \<and> validate_data_edges g (node_dict g) resolved base = Inr es
    \<and> st' = st\<lparr>ps_node_count := ps_node_count st + length (nodes g)\<rparr>"
proof -
  let ?ids = "sorted_set (List.map node_id (nodes g))"
  have some: "\<forall>i\<in>set ?ids. map_of (node_dict g) i \<noteq> None"
    using node_dict_iff[OF assms] by (metis (no_types, lifting) image_iff list.set_map option.distinct(1) sorted_set_facts(1))
  have tasks: "(\<forall>i\<in>set ?ids. \<forall>t. map_of (node_dict g) i = Some (TaskBlock t) \<longrightarrow> task_resolves env reg t)
      \<longleftrightarrow> (\<forall>t. TaskBlock t \<in> set (nodes g) \<longrightarrow> task_resolves env reg t)"
    by (auto simp: node_dict_iff[OF assms])
  show ?thesis
    by (auto simp: prepare_graph_def result_simps Let_def resolve_tasks_iff[OF some] tasks[simplified] graph_blocks_def)
qed

section \<open>Whole graphs\<close>

definition digestible :: "plan_env \<Rightarrow> pyval \<Rightarrow> bool" where
  "digestible env v \<longleftrightarrow> is_ok (plan_digest env v)"

text \<open>The conditions on a graph and the graphs inside it, apart from their number of nodes.\<close>

fun node_plannable :: "plan_env \<Rightarrow> block_registry \<Rightarrow> nat \<Rightarrow> nat \<Rightarrow> workflow_node \<Rightarrow> bool"
and graph_plannable :: "plan_env \<Rightarrow> block_registry \<Rightarrow> nat \<Rightarrow> nat \<Rightarrow> workflow_graph \<Rightarrow> bool" where
  "node_plannable env reg max_depth depth (TaskBlock t) = (task_resolves env reg t \<and> digestible env (PyDict (tb_config t)))"
| "node_plannable env reg max_depth depth (ApprovalBlock a) = digestible env (PyStr (ab_prompt a))"
| "node_plannable env reg max_depth depth (LoopBlock l body) =
     (pred_option (\<lambda>x. digestible env (PyStr x)) (lb_until l) \<and> graph_plannable env reg max_depth (depth + 1) body)"
| "graph_plannable env reg max_depth depth (WorkflowGraph ns es) =
     (depth \<le> max_depth \<and> list_all (node_plannable env reg max_depth depth) ns
      \<and> edges_plannable (WorkflowGraph ns es) (graph_blocks reg (WorkflowGraph ns es)))"

text \<open>Every graph inside passed \<open>validate_graph\<close>.\<close>

fun node_sound :: "workflow_node \<Rightarrow> bool"
and graph_sound :: "workflow_graph \<Rightarrow> bool" where
  "node_sound (LoopBlock l body) = graph_sound body"
| "node_sound n = True"
| "graph_sound (WorkflowGraph ns es) = (graph_well_formed (WorkflowGraph ns es) \<and> list_all node_sound ns)"

text \<open>The plan of a node and of a graph: each node in the stage of its layer, with the paths of its
  predecessors, the block its task pins, and the plan of its body.\<close>

definition task_planned :: "plan_env \<Rightarrow> block_registry \<Rightarrow> pystr list \<Rightarrow> pystr list \<Rightarrow> task_block \<Rightarrow> planned_task \<Rightarrow> bool" where
  "task_planned env reg base deps t p \<longleftrightarrow> pt_node_path p = base @ [tb_id t] \<and> pt_depends_on p = deps
     \<and> (\<exists>b. map_of (rg_blocks reg) (tb_block_type t, tb_block_version t) = Some b \<and> pt_block p = block_of b
         \<and> pt_declared_capabilities p = sort (bm_capabilities (rb_manifest b))
         \<and> pt_declared_permissions p = sort (bm_permissions (rb_manifest b)))
     \<and> plan_digest env (PyDict (tb_config t)) = Inr (pt_config_digest p) \<and> pt_resource_refs p = sort (tb_resource_refs t)"

definition stage_dependencies :: "pystr list \<Rightarrow> workflow_graph \<Rightarrow> pystr \<Rightarrow> pystr list" where
  "stage_dependencies base g i = List.map (\<lambda>d. pointer (base @ [d])) (sorted_list_of_set (preds (edge_pairs_of g) i))"

fun node_mirrors :: "plan_env \<Rightarrow> block_registry \<Rightarrow> pystr list \<Rightarrow> pystr list \<Rightarrow> workflow_node \<Rightarrow> planned_node \<Rightarrow> bool"
and graph_mirrors :: "plan_env \<Rightarrow> block_registry \<Rightarrow> pystr list \<Rightarrow> workflow_graph \<Rightarrow> planned_graph \<Rightarrow> bool" where
  "node_mirrors env reg base deps (TaskBlock t) p = (\<exists>q. p = PlannedTask q \<and> task_planned env reg base deps t q)"
| "node_mirrors env reg base deps (ApprovalBlock a) p = (\<exists>q. p = PlannedApproval q \<and> pa_node_path q = base @ [ab_id a]
     \<and> pa_depends_on q = deps \<and> pa_required_role q = ab_required_role a
     \<and> plan_digest env (PyStr (ab_prompt a)) = Inr (pa_prompt_digest q))"
| "node_mirrors env reg base deps (LoopBlock l body) p = (\<exists>until q. p = PlannedLoop (loop_fields (base @ [lb_id l]) deps l until) q
     \<and> planned_condition env l = Inr until \<and> graph_mirrors env reg (base @ [lb_id l, U ''body'']) body q)"
| "graph_mirrors env reg base (WorkflowGraph ns es) q = (case q of PlannedGraph stages ps \<Rightarrow>
     List.map fst stages = [0..<length stages] \<and>
     list_all2 (list_all2 (\<lambda>i p. \<exists>n\<in>set ns. node_id n = i \<and>
         node_mirrors env reg base (stage_dependencies base (WorkflowGraph ns es) i) n p))
       (fst (topological_stages (WorkflowGraph ns es))) (List.map snd stages) \<and>
     edges_match (WorkflowGraph ns es) (graph_blocks reg (WorkflowGraph ns es)) base ps)"

section \<open>The state while planning\<close>

definition is_task :: "workflow_node \<Rightarrow> bool" where "is_task n \<longleftrightarrow> (case n of TaskBlock _ \<Rightarrow> True | _ \<Rightarrow> False)"
definition is_approval :: "workflow_node \<Rightarrow> bool" where "is_approval n \<longleftrightarrow> (case n of ApprovalBlock _ \<Rightarrow> True | _ \<Rightarrow> False)"
definition is_loop :: "workflow_node \<Rightarrow> bool" where "is_loop n \<longleftrightarrow> (case n of LoopBlock _ _ \<Rightarrow> True | _ \<Rightarrow> False)"

text \<open>The ids of the approvals a graph asks for.\<close>

fun node_requirements :: "bool \<Rightarrow> pystr list \<Rightarrow> workflow_node \<Rightarrow> pystr set"
and graph_requirements :: "bool \<Rightarrow> pystr list \<Rightarrow> workflow_graph \<Rightarrow> pystr set" where
  "node_requirements paid base (TaskBlock t) = {}"
| "node_requirements paid base (ApprovalBlock a) = {U ''approval:'' @ pointer (base @ [ab_id a])}"
| "node_requirements paid base (LoopBlock l body) =
     (if lb_may_incur_cost l \<and> paid then {U ''paid-loop:'' @ pointer (base @ [lb_id l])} else {})
     \<union> graph_requirements paid (base @ [lb_id l, U ''body'']) body"
| "graph_requirements paid base (WorkflowGraph ns es) = \<Union> (node_requirements paid base ` set ns)"

fun node_stages :: "planned_node \<Rightarrow> nat"
and graph_stages :: "planned_graph \<Rightarrow> nat" where
  "node_stages (PlannedLoop l body) = graph_stages body"
| "node_stages _ = 0"
| "graph_stages (PlannedGraph stages es) = length stages + sum_list (List.map (\<lambda>s. sum_list (List.map node_stages (snd s))) stages)"

definition requirement_keys :: "planner_state \<Rightarrow> pystr set" where
  "requirement_keys st = fst ` set (ps_requirements st)"

lemma put_keys: "fst ` set (put k v d) = insert k (fst ` set d)"
  by (induction k v d rule: put.induct) auto

lemma requirement_keys_simps [simp]:
  "requirement_keys (require i k s st) = insert i (requirement_keys st)"
  "requirement_keys (st\<lparr>ps_node_count := n\<rparr>) = requirement_keys st"
  "requirement_keys (st\<lparr>ps_task_count := n\<rparr>) = requirement_keys st"
  "requirement_keys (st\<lparr>ps_approval_count := n\<rparr>) = requirement_keys st"
  "requirement_keys (st\<lparr>ps_loop_count := n\<rparr>) = requirement_keys st"
  "requirement_keys (st\<lparr>ps_stage_count := n\<rparr>) = requirement_keys st"
  "requirement_keys (st\<lparr>ps_used_resource_ids := u\<rparr>) = requirement_keys st"
  by (simp_all add: requirement_keys_def require_def put_keys)

lemma require_simps [simp]:
  "ps_limits (require i k s st) = ps_limits st"
  "ps_paid_actions_require_approval (require i k s st) = ps_paid_actions_require_approval st"
  "ps_node_count (require i k s st) = ps_node_count st" "ps_task_count (require i k s st) = ps_task_count st"
  "ps_approval_count (require i k s st) = ps_approval_count st" "ps_loop_count (require i k s st) = ps_loop_count st"
  "ps_stage_count (require i k s st) = ps_stage_count st" "ps_used_resource_ids (require i k s st) = ps_used_resource_ids st"
  by (simp_all add: require_def)

text \<open>\<open>M\<close> are the nodes planned between two states, \<open>k\<close> the nodes counted, \<open>s\<close> the stages, \<open>Q\<close> the
  requirements.\<close>

definition planned_between :: "planner_state \<Rightarrow> workflow_node multiset \<Rightarrow> nat \<Rightarrow> nat \<Rightarrow> pystr set \<Rightarrow> planner_state \<Rightarrow> bool" where
  "planned_between st M k s Q st' \<longleftrightarrow> ps_limits st' = ps_limits st
     \<and> ps_paid_actions_require_approval st' = ps_paid_actions_require_approval st
     \<and> ps_node_count st' = ps_node_count st + k
     \<and> ps_task_count st' = ps_task_count st + size (filter_mset is_task M)
     \<and> ps_approval_count st' = ps_approval_count st + size (filter_mset is_approval M)
     \<and> ps_loop_count st' = ps_loop_count st + size (filter_mset is_loop M)
     \<and> ps_stage_count st' = ps_stage_count st + s
     \<and> set (ps_used_resource_ids st') = set (ps_used_resource_ids st) \<union> (\<Union>n\<in>set_mset M. set (refs_of n))
     \<and> requirement_keys st' = requirement_keys st \<union> Q"

lemma planned_between_refl [simp]: "planned_between st {#} 0 0 {} st"
  by (simp add: planned_between_def)

lemma planned_between_trans:
  "planned_between st M k s Q st' \<Longrightarrow> planned_between st' M' k' s' Q' st'' \<Longrightarrow>
   planned_between st (M + M') (k + k') (s + s') (Q \<union> Q') st''"
  by (auto simp: planned_between_def)

definition state_ok :: "planner_limits \<Rightarrow> bool \<Rightarrow> planner_state \<Rightarrow> bool" where
  "state_ok L paid st \<longleftrightarrow> ps_limits st = L \<and> ps_paid_actions_require_approval st = paid \<and> ps_node_count st \<le> max_nodes L"

text \<open>A call that plans \<open>M\<close>, counting \<open>k\<close> nodes, succeeds exactly if \<open>A\<close> and the limit allows.\<close>

definition plans :: "planner_limits \<Rightarrow> bool \<Rightarrow> bool \<Rightarrow> workflow_node multiset \<Rightarrow> nat \<Rightarrow> pystr set \<Rightarrow> ('y \<Rightarrow> nat) \<Rightarrow> ('y \<Rightarrow> bool)
    \<Rightarrow> (planner_state \<Rightarrow> planning_error + planner_state \<times> 'y) \<Rightarrow> bool" where
  "plans L paid A M k Q stages R f \<longleftrightarrow> (\<forall>st. state_ok L paid st \<longrightarrow>
     (is_ok (f st) \<longleftrightarrow> A \<and> ps_node_count st + k \<le> max_nodes L)
     \<and> (\<forall>st' y. f st = Inr (st', y) \<longrightarrow> planned_between st M k (stages y) Q st' \<and> R y))"

lemma plansD:
  assumes "plans L paid A M k Q stages R f" "state_ok L paid st"
  shows "is_ok (f st) \<longleftrightarrow> A \<and> ps_node_count st + k \<le> max_nodes L"
    "f st = Inr (st', y) \<Longrightarrow> planned_between st M k (stages y) Q st' \<and> R y"
  using assms by (auto simp: plans_def)

lemma plans_next:
  assumes "plans L paid A M k Q stages R f" "state_ok L paid st" "f st = Inr (st', y)"
  shows "state_ok L paid st'" "ps_node_count st' = ps_node_count st + k"
proof -
  have "is_ok (f st)" using assms(3) by simp
  with plansD[OF assms(1,2)] assms(2,3) show "state_ok L paid st'" "ps_node_count st' = ps_node_count st + k"
    by (auto simp: planned_between_def state_ok_def)
qed

lemma plans_map:
  assumes "\<And>x. x \<in> set xs \<Longrightarrow> plans L paid (A x) (M x) (k x) (Q x) stages (R x) (\<lambda>st. f st x)"
  shows "plans L paid (\<forall>x\<in>set xs. A x) (\<Sum>\<^sub># (mset (List.map M xs))) (sum_list (List.map k xs)) (\<Union> (Q ` set xs))
     (\<lambda>ys. sum_list (List.map stages ys)) (list_all2 R xs) (\<lambda>st. map_state f st xs)"
  using assms
proof (induction xs)
  case (Cons x xs)
  note hd = Cons.prems[of x, simplified]
  have tl: "plans L paid (\<forall>x\<in>set xs. A x) (\<Sum>\<^sub># (mset (List.map M xs))) (sum_list (List.map k xs)) (\<Union> (Q ` set xs))
     (\<lambda>ys. sum_list (List.map stages ys)) (list_all2 R xs) (\<lambda>st. map_state f st xs)"
    by (rule Cons.IH) (use Cons.prems in simp)
  show ?case unfolding plans_def
  proof (intro allI impI conjI)
    fix st assume st: "state_ok L paid st"
    show "is_ok (map_state f st (x # xs)) \<longleftrightarrow>
       (\<forall>x\<in>set (x # xs). A x) \<and> ps_node_count st + sum_list (List.map k (x # xs)) \<le> max_nodes L"
    proof (cases "f st x")
      case (Inl e)
      then have "\<not> (A x \<and> ps_node_count st + k x \<le> max_nodes L)" using plansD(1)[OF hd st] by simp
      with Inl show ?thesis by auto
    next
      case (Inr r)
      obtain st1 y where r: "f st x = Inr (st1, y)" using Inr by (cases r) auto
      have "A x" using plansD(1)[OF hd st] r by simp
      moreover have "is_ok (map_state f st (x # xs)) = is_ok (map_state f st1 xs)"
        using r by (cases "map_state f st1 xs") auto
      ultimately show ?thesis
        using plansD(1)[OF tl plans_next(1)[OF hd st r]] plans_next(2)[OF hd st r] by (auto simp: add.assoc simp del: map_state.simps)
    qed
    fix st' ys assume "map_state f st (x # xs) = Inr (st', ys)"
    then obtain st1 y ys' where s: "f st x = Inr (st1, y)" "map_state f st1 xs = Inr (st', ys')" "ys = y # ys'"
      by (auto simp: result_simps)
    from plansD(2)[OF hd st s(1)] plansD(2)[OF tl plans_next(1)[OF hd st s(1)] s(2)] s(3)
    show "planned_between st (\<Sum>\<^sub># (mset (List.map M (x # xs)))) (sum_list (List.map k (x # xs)))
        (sum_list (List.map stages ys)) (\<Union> (Q ` set (x # xs))) st'" "list_all2 R (x # xs) ys"
      by (auto dest: planned_between_trans)
  qed
qed (simp add: plans_def state_ok_def)

lemma is_ok_map_sum [simp]: "is_ok (map_sum f g x) = is_ok x"
  by (cases x) auto

lemma planned_condition_ok: "is_ok (planned_condition env l) \<longleftrightarrow> pred_option (\<lambda>x. digestible env (PyStr x)) (lb_until l)"
  by (simp add: planned_condition_def digestible_def split: option.split)

lemma plan_task_plans:
  assumes "map_of resolved (tb_id t) = map_of (rg_blocks reg) (tb_block_type t, tb_block_version t)" "task_resolves env reg t"
  shows "plans L paid (node_plannable env reg m depth (TaskBlock t)) {#TaskBlock t#} 0 {} node_stages
     (node_mirrors env reg base deps (TaskBlock t)) (\<lambda>st. plan_task env base deps resolved st t)"
proof -
  obtain b where b: "map_of (rg_blocks reg) (tb_block_type t, tb_block_version t) = Some b" using assms(2) by (auto simp: task_resolves_def)
  show ?thesis unfolding plans_def
    using assms b
    by (auto simp: plan_task_def lookup_def lift_option_def digestible_def is_ok_iff result_simps state_ok_def
        planned_between_def task_planned_def is_task_def is_approval_def is_loop_def)
qed

lemma plan_approval_plans:
  "plans L paid (node_plannable env reg m depth (ApprovalBlock a)) {#ApprovalBlock a#} 0
     (node_requirements paid base (ApprovalBlock a)) node_stages
     (node_mirrors env reg base deps (ApprovalBlock a)) (\<lambda>st. plan_approval env base deps st a)"
  unfolding plans_def
  by (auto simp: plan_approval_def Let_def digestible_def is_ok_iff result_simps state_ok_def
      planned_between_def is_task_def is_approval_def is_loop_def)

lemma enter_loop_state: "state_ok L paid st \<Longrightarrow> state_ok L paid (enter_loop path st l)"
  by (auto simp: state_ok_def enter_loop_def Let_def)

lemma enter_loop_between:
  "state_ok L paid st \<Longrightarrow> planned_between st {#LoopBlock l body#} 0 0
     (if lb_may_incur_cost l \<and> paid then {U ''paid-loop:'' @ pointer path} else {}) (enter_loop path st l)"
  by (auto simp: planned_between_def enter_loop_def Let_def state_ok_def is_task_def is_approval_def is_loop_def)

lemma enter_loop_count: "ps_node_count (enter_loop path st l) = ps_node_count st"
  by (auto simp: enter_loop_def Let_def)

lemma plan_loop_plans:
  assumes "plans L paid A (mset (all_nodes body)) (length (all_nodes body))
      (graph_requirements paid (base @ [lb_id l, U ''body'']) body) graph_stages
      (graph_mirrors env reg (base @ [lb_id l, U ''body'']) body)
      (\<lambda>st. plan_graph env reg (base @ [lb_id l, U ''body'']) (depth + 1) st body)"
  shows "plans L paid (pred_option (\<lambda>x. digestible env (PyStr x)) (lb_until l) \<and> A)
      (mset (node_tree (LoopBlock l body))) (length (all_nodes body)) (node_requirements paid base (LoopBlock l body)) node_stages
      (node_mirrors env reg base (List.map (\<lambda>d. pointer (base @ [d])) deps) (LoopBlock l body))
      (\<lambda>st. plan_node env reg base deps depth resolved st (LoopBlock l body))"
  unfolding plans_def
proof (intro allI impI conjI)
  fix st assume st: "state_ok L paid st"
  let ?g = "\<lambda>st. plan_graph env reg (base @ [lb_id l, U ''body'']) (depth + 1) st body"
  let ?st = "enter_loop (base @ [lb_id l]) st l"
  note ok = plansD[OF assms enter_loop_state[OF st], of "base @ [lb_id l]" l]
  have "is_ok (plan_node env reg base deps depth resolved st (LoopBlock l body)) \<longleftrightarrow> is_ok (planned_condition env l) \<and> is_ok (?g ?st)"
    by (cases "planned_condition env l"; cases "?g ?st") (auto simp: plan_node.simps)
  then show "is_ok (plan_node env reg base deps depth resolved st (LoopBlock l body)) \<longleftrightarrow>
      (pred_option (\<lambda>x. digestible env (PyStr x)) (lb_until l) \<and> A) \<and> ps_node_count st + length (all_nodes body) \<le> max_nodes L"
    using ok(1) by (auto simp: planned_condition_ok enter_loop_count)
  fix st' p assume "plan_node env reg base deps depth resolved st (LoopBlock l body) = Inr (st', p)"
  then obtain until q where s: "planned_condition env l = Inr until" "?g ?st = Inr (st', q)"
    "p = PlannedLoop (loop_fields (base @ [lb_id l]) (List.map (\<lambda>d. pointer (base @ [d])) deps) l until) q"
    by (auto simp: plan_node.simps result_simps)
  from planned_between_trans[OF enter_loop_between[OF st, of l body "base @ [lb_id l]"] conjunct1[OF ok(2)[OF s(2)]]] ok(2)[OF s(2)] s
  show "planned_between st (mset (node_tree (LoopBlock l body))) (length (all_nodes body)) (node_stages p)
      (node_requirements paid base (LoopBlock l body)) st'"
    "node_mirrors env reg base (List.map (\<lambda>d. pointer (base @ [d])) deps) (LoopBlock l body) p"
    by auto
qed

lemma plans_cong:
  assumes "plans L paid A M k Q stages R f" "A = A'" "M = M'" "k = k'" "Q = Q'" "\<And>y. R y \<Longrightarrow> stages y = stages' y"
    "\<And>y. R y = R' y" "\<And>st. f st = f' st"
  shows "plans L paid A' M' k' Q' stages' R' f'"
  using assms unfolding plans_def by (metis (no_types, lifting))

lemma sum_of_stages:
  "\<Sum>\<^sub># (mset (List.map (\<lambda>ids. \<Sum>\<^sub># (mset (List.map F ids))) stages)) = \<Sum>\<^sub># (mset (List.map F (concat stages)))"
  "sum_list (List.map (\<lambda>ids. sum_list (List.map c ids)) stages) = sum_list (List.map c (concat stages))" for c :: "'a \<Rightarrow> nat"
  by (induction stages) auto

lemma node_trees_sum:
  "mset (node_trees ns) = \<Sum>\<^sub># (mset (List.map (\<lambda>n. mset (node_tree n)) ns))"
  "length (node_trees ns) = length ns + sum_list (List.map (\<lambda>n. length (node_tree n) - 1) ns)"
proof -
  have "1 \<le> length (node_tree n)" for n by (cases n) auto
  then have "Suc (length (node_tree n) - 1) = length (node_tree n)" for n by (metis Suc_diff_1 less_le_trans zero_less_one)
  then show "length (node_trees ns) = length ns + sum_list (List.map (\<lambda>n. length (node_tree n) - 1) ns)"
    by (induction ns) auto
  show "mset (node_trees ns) = \<Sum>\<^sub># (mset (List.map (\<lambda>n. mset (node_tree n)) ns))" by (induction ns) auto
qed

text \<open>The nodes of a graph, stage by stage.\<close>

lemma plan_stages_plans:
  fixes ns es
  defines "g \<equiv> WorkflowGraph ns es"
  assumes ids: "distinct (List.map node_id ns)" and perm: "mset (concat stages) = mset (List.map node_id ns)"
    and node: "\<And>n. n \<in> set ns \<Longrightarrow> plans L paid (A n) (mset (node_tree n)) (length (node_tree n) - 1) (node_requirements paid base n)
        node_stages (R (node_id n) n) (\<lambda>st. h st (node_id n) n)"
  shows "plans L paid (\<forall>n\<in>set ns. A n) (mset (node_trees ns)) (sum_list (List.map (\<lambda>n. length (node_tree n) - 1) ns))
     (\<Union> (node_requirements paid base ` set ns)) (\<lambda>ys. sum_list (List.map (\<lambda>y. sum_list (List.map node_stages y)) ys))
     (list_all2 (list_all2 (\<lambda>i p. \<exists>n\<in>set ns. node_id n = i \<and> R i n p)) stages)
     (\<lambda>st. map_state (\<lambda>st ids. map_state (\<lambda>st i. case map_of (node_dict g) i of None \<Rightarrow> Inl (KeyError i)
        | Some node \<Rightarrow> h st i node) st ids) st stages)"
proof -
  let ?nd = "\<lambda>i. the (map_of (node_dict g) i)"
  have dict: "map_of (node_dict g) i = Some n \<longleftrightarrow> n \<in> set ns \<and> node_id n = i" for i n
    using node_dict_iff[of g i n] ids by (simp add: g_def)
  then have nd: "?nd (node_id n) = n" if "n \<in> set ns" for n using that by (metis option.sel)
  have cs: "set (concat stages) = node_id ` set ns" using perm by (metis mset_eq_setD set_map)
  have mem: "map_of (node_dict g) i = Some (?nd i)" "?nd i \<in> set ns" "node_id (?nd i) = i" if "i \<in> set (concat stages)" for i
    using that cs nd dict by (metis imageE)+
  let ?S = "\<lambda>i. i \<in> set (concat stages)"
  have one: "plans L paid (A (?nd i)) (mset (node_tree (?nd i))) (length (node_tree (?nd i)) - 1) (node_requirements paid base (?nd i))
      node_stages (\<lambda>p. \<exists>n\<in>set ns. node_id n = i \<and> R i n p)
      (\<lambda>st. case map_of (node_dict g) i of None \<Rightarrow> Inl (KeyError i) | Some node \<Rightarrow> h st i node)" if "?S i" for i
  proof (rule plans_cong[OF node[OF mem(2)[OF that]]])
    have "(\<exists>n\<in>set ns. node_id n = i \<and> R i n p) = R i (?nd i) p" for p using mem[OF that] nd by metis
    then show "R (node_id (?nd i)) (?nd i) p = (\<exists>n\<in>set ns. node_id n = i \<and> R i n p)" for p using mem(3)[OF that] by simp
    show "h st (node_id (?nd i)) (?nd i) = (case map_of (node_dict g) i of None \<Rightarrow> Inl (KeyError i) | Some node \<Rightarrow> h st i node)" for st
      unfolding mem(3)[OF that] by (subst (2) mem(1)[OF that]) simp
  qed (rule refl)+
  have inner: "plans L paid (\<forall>i\<in>set ids. A (?nd i)) (\<Sum>\<^sub># (mset (List.map (\<lambda>i. mset (node_tree (?nd i))) ids)))
      (sum_list (List.map (\<lambda>i. length (node_tree (?nd i)) - 1) ids)) (\<Union> ((\<lambda>i. node_requirements paid base (?nd i)) ` set ids))
      (\<lambda>ys. sum_list (List.map node_stages ys)) (list_all2 (\<lambda>i p. \<exists>n\<in>set ns. node_id n = i \<and> R i n p) ids)
      (\<lambda>st. map_state (\<lambda>st i. case map_of (node_dict g) i of None \<Rightarrow> Inl (KeyError i) | Some node \<Rightarrow> h st i node) st ids)"
    if "ids \<in> set stages" for ids
  proof (rule plans_map)
    fix i assume "i \<in> set ids"
    with that have "?S i" by auto
    then show "plans L paid (A (?nd i)) (mset (node_tree (?nd i))) (length (node_tree (?nd i)) - 1) (node_requirements paid base (?nd i))
      node_stages (\<lambda>p. \<exists>n\<in>set ns. node_id n = i \<and> R i n p)
      (\<lambda>st. case map_of (node_dict g) i of None \<Rightarrow> Inl (KeyError i) | Some node \<Rightarrow> h st i node)" by (rule one)
  qed
  have image: "image_mset F (mset (concat stages)) = image_mset (\<lambda>n. F (node_id n)) (mset ns)" for F :: "pystr \<Rightarrow> 'x"
    using perm by (simp add: image_mset.compositionality comp_def)
  have img: "mset (List.map (\<lambda>i. F (?nd i)) (concat stages)) = mset (List.map F ns)" for F :: "workflow_node \<Rightarrow> 'x"
  proof -
    have "image_mset (\<lambda>n. F (?nd (node_id n))) (mset ns) = image_mset F (mset ns)"
      by (rule image_mset_cong) (simp only: nd set_mset_mset)
    with image[of "\<lambda>i. F (?nd i)"] show ?thesis by (simp only: mset_map)
  qed
  show ?thesis
  proof (rule plans_cong[OF plans_map[OF inner]])
    show "(\<forall>ids\<in>set stages. \<forall>i\<in>set ids. A (?nd i)) = (\<forall>n\<in>set ns. A n)"
    proof -
      have "(\<forall>ids\<in>set stages. \<forall>i\<in>set ids. A (?nd i)) = (\<forall>i\<in>set (concat stages). A (?nd i))" unfolding set_concat by blast
      also have "\<dots> = (\<forall>n\<in>set ns. A (?nd (node_id n)))" unfolding cs by blast
      also have "\<dots> = (\<forall>n\<in>set ns. A n)" by (rule ball_cong[OF refl]) (simp only: nd)
      finally show ?thesis .
    qed
    show "\<Sum>\<^sub># (mset (List.map (\<lambda>ids. \<Sum>\<^sub># (mset (List.map (\<lambda>i. mset (node_tree (?nd i))) ids))) stages)) = mset (node_trees ns)"
      unfolding sum_of_stages(1) img[of "\<lambda>n. mset (node_tree n)"] node_trees_sum(1) ..
    show "sum_list (List.map (\<lambda>ids. sum_list (List.map (\<lambda>i. length (node_tree (?nd i)) - 1) ids)) stages) =
        sum_list (List.map (\<lambda>n. length (node_tree n) - 1) ns)"
      unfolding sum_of_stages(2) using arg_cong[OF img[of "\<lambda>n. length (node_tree n) - 1"], of sum_mset]
      by (simp only: sum_mset_sum_list)
    show "\<Union> ((\<lambda>ids. \<Union> ((\<lambda>i. node_requirements paid base (?nd i)) ` set ids)) ` set stages) = \<Union> (node_requirements paid base ` set ns)"
    proof -
      have "\<Union> ((\<lambda>ids. \<Union> ((\<lambda>i. node_requirements paid base (?nd i)) ` set ids)) ` set stages)
          = \<Union> ((\<lambda>i. node_requirements paid base (?nd i)) ` set (concat stages))" unfolding set_concat by blast
      also have "\<dots> = \<Union> ((\<lambda>n. node_requirements paid base (?nd (node_id n))) ` set ns)" unfolding cs by blast
      also have "\<dots> = \<Union> (node_requirements paid base ` set ns)"
        by (rule arg_cong[where f=Union], rule image_cong[OF refl]) (simp only: nd)
      finally show ?thesis .
    qed
  qed (assumption | rule refl)+
qed

text \<open>When a graph is planned, and what the plan is.\<close>

lemma plan_graph_plans:
  "node_sound n \<Longrightarrow> (\<And>t. n = TaskBlock t \<Longrightarrow> task_resolves env reg t \<and>
      map_of resolved (tb_id t) = map_of (rg_blocks reg) (tb_block_type t, tb_block_version t)) \<Longrightarrow>
   plans L paid (node_plannable env reg (max_loop_depth L) depth n) (mset (node_tree n)) (length (node_tree n) - 1)
     (node_requirements paid base n) node_stages (node_mirrors env reg base (List.map (\<lambda>d. pointer (base @ [d])) deps) n)
     (\<lambda>st. plan_node env reg base deps depth resolved st n)"
  "graph_sound g \<Longrightarrow>
   plans L paid (graph_plannable env reg (max_loop_depth L) depth g) (mset (all_nodes g)) (length (all_nodes g))
     (graph_requirements paid base g) graph_stages (graph_mirrors env reg base g)
     (\<lambda>st. plan_graph env reg base depth st g)"
proof (induction n and g arbitrary: base deps depth resolved and base depth rule: workflow_node.induct workflow_graph.induct)
  case (TaskBlock t)
  then have "task_resolves env reg t" "map_of resolved (tb_id t) = map_of (rg_blocks reg) (tb_block_type t, tb_block_version t)"
    by auto
  from plan_task_plans[OF this(2,1), of L paid "max_loop_depth L" depth base "List.map (\<lambda>d. pointer (base @ [d])) deps"]
  show ?case by (simp add: plan_node.simps del: node_mirrors.simps)
next
  case (ApprovalBlock a)
  from plan_approval_plans[of L paid env reg "max_loop_depth L" depth a base "List.map (\<lambda>d. pointer (base @ [d])) deps"]
  show ?case by (simp add: plan_node.simps del: node_mirrors.simps)
next
  case (LoopBlock l body)
  have sound: "graph_sound body" using LoopBlock.prems(1) by simp
  have len: "length (node_tree (LoopBlock l body)) - 1 = length (all_nodes body)" by simp
  show ?case unfolding len node_plannable.simps
    by (rule plan_loop_plans[OF LoopBlock.IH[OF sound]])
next
  case (WorkflowGraph ns es)
  let ?g = "WorkflowGraph ns es"
  have wf: "graph_well_formed ?g" and sound: "n \<in> set ns \<Longrightarrow> node_sound n" for n
    using WorkflowGraph.prems by (auto simp: list_all_iff)
  have ids: "distinct (List.map node_id ns)" using wf by (simp add: graph_well_formed_def)
  obtain stages dependencies where ts: "topological_stages ?g = (stages, dependencies)" by (cases "topological_stages ?g")
  note layers = topological_stages_layered[OF wf ts]
  have deps: "List.map (\<lambda>d. pointer (base @ [d])) (dependencies i) = stage_dependencies base ?g i" for i
    using layers(3) by (simp add: stage_dependencies_def)
  show ?case unfolding plans_def
  proof (intro allI impI conjI)
    fix st assume st: "state_ok L paid st"
    let ?loop = "\<lambda>resolved st. map_state (\<lambda>st ids. map_state (\<lambda>st i. case map_of (node_dict ?g) i of None \<Rightarrow> Inl (KeyError i)
        | Some node \<Rightarrow> plan_node env reg base (dependencies i) depth resolved st node) st ids) st stages"
    let ?prepared = "depth \<le> max_loop_depth L \<and> ps_node_count st + length ns \<le> max_nodes L
        \<and> (\<forall>t. TaskBlock t \<in> set ns \<longrightarrow> task_resolves env reg t) \<and> edges_plannable ?g (graph_blocks reg ?g)"
    let ?st = "st\<lparr>ps_node_count := ps_node_count st + length ns\<rparr>"
    have prepare: "prepare_graph env reg base depth st ?g = Inr (st', resolved, ps) \<longleftrightarrow>
        ?prepared \<and> resolved = graph_blocks reg ?g \<and> validate_data_edges ?g (node_dict ?g) resolved base = Inr ps \<and> st' = ?st"
      for st' resolved ps
      using prepare_graph_iff[of ?g] validate_data_edges_ok[of ?g "graph_blocks reg ?g" base] ids st
      by (auto simp: state_ok_def is_ok_iff)
    have loop: "plans L paid (\<forall>n\<in>set ns. node_plannable env reg (max_loop_depth L) depth n) (mset (node_trees ns))
        (sum_list (List.map (\<lambda>n. length (node_tree n) - 1) ns)) (\<Union> (node_requirements paid base ` set ns))
        (\<lambda>ys. sum_list (List.map (\<lambda>y. sum_list (List.map node_stages y)) ys))
        (list_all2 (list_all2 (\<lambda>i p. \<exists>n\<in>set ns. node_id n = i \<and> node_mirrors env reg base (stage_dependencies base ?g i) n p)) stages)
        (?loop (graph_blocks reg ?g))" if prep: "?prepared"
    proof (rule plan_stages_plans[where R="\<lambda>i. node_mirrors env reg base (stage_dependencies base ?g i)", OF ids])
      show "mset (concat stages) = mset (List.map node_id ns)" using layers(1) by simp
      show "plans L paid (node_plannable env reg (max_loop_depth L) depth n) (mset (node_tree n)) (length (node_tree n) - 1)
          (node_requirements paid base n) node_stages (node_mirrors env reg base (stage_dependencies base ?g (node_id n)) n)
          (\<lambda>st. plan_node env reg base (dependencies (node_id n)) depth (graph_blocks reg ?g) st n)" if n: "n \<in> set ns" for n
      proof -
        have "task_resolves env reg t \<and> map_of (graph_blocks reg ?g) (tb_id t) = map_of (rg_blocks reg) (tb_block_type t, tb_block_version t)"
          if "n = TaskBlock t" for t
          using prep n that graph_blocks_task[of ?g t reg] ids by auto
        from WorkflowGraph.IH[OF n sound[OF n] this] show ?thesis unfolding deps[symmetric] .
      qed
    qed
    have st1: "state_ok L paid ?st" if "?prepared" using that st by (auto simp: state_ok_def)
    have ok: "is_ok (plan_graph env reg base depth st ?g) \<longleftrightarrow> ?prepared \<and> is_ok (?loop (graph_blocks reg ?g) ?st)"
    proof (cases ?prepared)
      case True
      then obtain ps where "validate_data_edges ?g (node_dict ?g) (graph_blocks reg ?g) base = Inr ps"
        using validate_data_edges_ok[of ?g "graph_blocks reg ?g" base] by (auto simp: is_ok_iff)
      with True prepare have "prepare_graph env reg base depth st ?g = Inr (?st, graph_blocks reg ?g, ps)" by blast
      with True show ?thesis
        by (cases "?loop (graph_blocks reg ?g) ?st") (auto simp: plan_graph.simps ts)
    next
      case False
      with prepare have "\<not> is_ok (prepare_graph env reg base depth st ?g)" by (auto simp: is_ok_iff)
      with False show ?thesis by (cases "prepare_graph env reg base depth st ?g") (auto simp: plan_graph.simps)
    qed
    show "is_ok (plan_graph env reg base depth st ?g) \<longleftrightarrow> graph_plannable env reg (max_loop_depth L) depth ?g
        \<and> ps_node_count st + length (all_nodes ?g) \<le> max_nodes L"
    proof (cases ?prepared)
      case True
      from plansD(1)[OF loop[OF True] st1[OF True]] ok True show ?thesis
        by (simp add: node_trees_sum(2) list_all_iff add.assoc)
    next
      case False
      have "\<forall>n\<in>set ns. node_plannable env reg (max_loop_depth L) depth n \<Longrightarrow> TaskBlock t \<in> set ns \<Longrightarrow> task_resolves env reg t" for t
        by fastforce
      with False ok show ?thesis by (auto simp: node_trees_sum(2) list_all_iff)
    qed
    fix st' q assume r: "plan_graph env reg base depth st ?g = Inr (st', q)"
    then have prep: "?prepared" using ok by simp
    from r obtain ps planned st2 where p: "prepare_graph env reg base depth st ?g = Inr (?st, graph_blocks reg ?g, ps)"
      "?loop (graph_blocks reg ?g) ?st = Inr (st2, planned)" "q = PlannedGraph (List.enumerate 0 planned) ps"
      "st' = st2\<lparr>ps_stage_count := ps_stage_count st2 + length planned\<rparr>"
      by (auto simp: plan_graph.simps ts result_simps prepare)
    note res = plansD(2)[OF loop[OF prep] st1[OF prep] p(2)]
    have edges: "edges_match ?g (graph_blocks reg ?g) base ps"
      using p(1) prepare validate_data_edges_match by blast
    have enum: "List.map fst (List.enumerate 0 planned) = [0..<length planned]" "List.map snd (List.enumerate 0 planned) = planned"
      by (simp_all add: map_fst_enumerate)
    have "List.map (\<lambda>s. sum_list (List.map node_stages (snd s))) (List.enumerate 0 planned) =
        List.map (\<lambda>y. sum_list (List.map node_stages y)) (List.map snd (List.enumerate 0 planned))"
      unfolding map_map comp_def ..
    then have stages: "graph_stages q = length planned + sum_list (List.map (\<lambda>y. sum_list (List.map node_stages y)) planned)"
      unfolding p(3) graph_stages.simps enum(2) by simp
    show "planned_between st (mset (all_nodes ?g)) (length (all_nodes ?g)) (graph_stages q) (graph_requirements paid base ?g) st'"
      using res stages by (auto simp: planned_between_def p(4) node_trees_sum(2))
    show "graph_mirrors env reg base ?g q"
      using res edges by (simp add: p(3) ts enum)
  qed
qed

end
