(* ===== verification/Kernel.thy ===== *)
theory Kernel
  imports Planner_Facts
begin

text \<open>
  The trusted kernel's dry run: \<open>execution/kernel.py\<close> and the report classes of
  \<open>execution/models.py\<close> with their validator.  Pydantic refuses a report whose parts do not fit
  together; that refusal is the error \<open>ReportInvalid\<close> of the model.

  The reload of a dumped spec and the dump of a plan are pydantic's and stay parameters.
\<close>

section \<open>Counting\<close>

text \<open>\<open>_plan_counts\<close>: tasks, approvals, loops and stages.  The list is the stack of graphs still to
  count, its top first.\<close>

fun graph_nodes :: "planned_graph \<Rightarrow> planned_node list" where
  "graph_nodes (PlannedGraph stages es) = concat (List.map snd stages)"

fun stage_total :: "planned_graph \<Rightarrow> nat" where
  "stage_total (PlannedGraph stages es) = length stages"

fun loop_bodies :: "planned_node list \<Rightarrow> planned_graph list" where
  "loop_bodies [] = []"
| "loop_bodies (PlannedLoop l body # ns) = body # loop_bodies ns"
| "loop_bodies (n # ns) = loop_bodies ns"

type_synonym counts = "nat \<times> nat \<times> nat \<times> nat"

fun count_node :: "counts \<Rightarrow> planned_node \<Rightarrow> counts" where
  "count_node (t, a, l, s) (PlannedTask _) = (t + 1, a, l, s)"
| "count_node (t, a, l, s) (PlannedApproval _) = (t, a + 1, l, s)"
| "count_node (t, a, l, s) (PlannedLoop _ _) = (t, a, l + 1, s)"

definition add_stages :: "nat \<Rightarrow> counts \<Rightarrow> counts" where
  "add_stages k c = (case c of (t, a, l, s) \<Rightarrow> (t, a, l, s + k))"

lemma loop_bodies_size: "size_list size (loop_bodies ns) \<le> size_list size ns"
  by (induction ns rule: loop_bodies.induct) auto

lemma graph_nodes_size: "size_list size (graph_nodes g) < size g"
proof (cases g)
  case (PlannedGraph stages es)
  have "size_list size (concat (List.map snd stages)) \<le> size_list (size_prod (\<lambda>x. 0) (size_list size)) stages"
    by (induction stages) (auto simp: size_list_append)
  with PlannedGraph show ?thesis by simp
qed

function plan_counts_loop :: "planned_graph list \<Rightarrow> counts \<Rightarrow> counts" where
  "plan_counts_loop [] c = c"
| "plan_counts_loop (current # pending) c =
     plan_counts_loop (rev (loop_bodies (graph_nodes current)) @ pending)
       (foldl count_node (add_stages (stage_total current) c) (graph_nodes current))"
  by pat_completeness auto

termination plan_counts_loop
proof (relation "measure (\<lambda>(pending, c). size_list size pending)")
  fix current :: planned_graph and pending :: "planned_graph list" and c :: counts
  have "size_list size (loop_bodies (graph_nodes current)) < size current"
    using loop_bodies_size graph_nodes_size by (rule le_less_trans)
  then show "((rev (loop_bodies (graph_nodes current)) @ pending,
      foldl count_node (add_stages (stage_total current) c) (graph_nodes current)), current # pending, c)
      \<in> measure (\<lambda>(pending, c). size_list size pending)"
    by (simp add: size_list_append)
qed simp

definition plan_counts :: "planned_graph \<Rightarrow> counts" where
  "plan_counts g = plan_counts_loop [g] (0, 0, 0, 0)"

text \<open>\<open>_source_counts\<close>: the nodes of a workflow up to a limit.  A stack entry is a list of nodes and an
  index into it.\<close>

fun body_nodes :: "workflow_node \<Rightarrow> (workflow_node list \<times> nat) list" where
  "body_nodes (LoopBlock l body) = [(nodes body, 0)]"
| "body_nodes _ = []"

function source_counts_loop :: "nat \<Rightarrow> (workflow_node list \<times> nat) list \<Rightarrow> nat \<times> nat \<times> nat \<Rightarrow> nat
    \<Rightarrow> (nat \<times> nat \<times> nat) \<times> bool" where
  "source_counts_loop limit [] c seen = (c, False)"
| "source_counts_loop limit ((ns, index) # stack) c seen =
     (if index \<ge> length ns then source_counts_loop limit stack c seen
      else if seen \<ge> limit then (c, True)
      else let n = ns ! index in
        source_counts_loop limit (body_nodes n @ (ns, index + 1) # stack)
          (case c of (t, a, l) \<Rightarrow> (case n of TaskBlock _ \<Rightarrow> (t + 1, a, l) | ApprovalBlock _ \<Rightarrow> (t, a + 1, l)
             | LoopBlock _ _ \<Rightarrow> (t, a, l + 1))) (seen + 1))"
  by pat_completeness auto

definition stack_size :: "(workflow_node list \<times> nat) list \<Rightarrow> nat" where
  "stack_size stack = sum_list (List.map (\<lambda>(ns, i). Suc (size_list size (drop i ns))) stack)"

lemma drop_size: "i < length ns \<Longrightarrow> size_list size (drop i ns) = Suc (size (ns ! i) + size_list size (drop (Suc i) ns))"
  by (simp add: Cons_nth_drop_Suc[symmetric])

lemma body_nodes_size: "stack_size (body_nodes n) \<le> size n"
proof (cases n)
  case (LoopBlock l body)
  then show ?thesis by (cases body) (simp add: stack_size_def)
qed (simp_all add: stack_size_def)

termination source_counts_loop
proof (relation "measure (\<lambda>(limit, stack, c, seen). stack_size stack)")
  fix limit index seen :: nat and ns :: "workflow_node list" and stack :: "(workflow_node list \<times> nat) list"
    and c c' :: "nat \<times> nat \<times> nat" and n
  assume a: "\<not> length ns \<le> index" "n = ns ! index"
  have "stack_size (body_nodes n @ (ns, index + 1) # stack) < stack_size ((ns, index) # stack)"
    using drop_size[of index ns] a body_nodes_size[of n] by (simp add: stack_size_def)
  then show "((limit, body_nodes n @ (ns, index + 1) # stack, case c of (t, a, l) \<Rightarrow> (case n of TaskBlock _ \<Rightarrow> (t + 1, a, l)
      | ApprovalBlock _ \<Rightarrow> (t, a + 1, l) | LoopBlock _ _ \<Rightarrow> (t, a, l + 1)), seen + 1), limit, (ns, index) # stack, c, seen)
      \<in> measure (\<lambda>(limit, stack, c, seen). stack_size stack)" by simp
qed (auto simp: stack_size_def)

definition source_counts :: "workflow_graph \<Rightarrow> nat \<Rightarrow> (nat \<times> nat \<times> nat) \<times> bool" where
  "source_counts g limit = source_counts_loop limit [(nodes g, 0)] (0, 0, 0) 0"

section \<open>Reports\<close>

record plan_summary =
  sm_planned :: bool
  sm_truncated :: bool
  sm_task_count :: nat
  sm_approval_count :: nat
  sm_loop_count :: nat
  sm_stage_count :: nat

record plan_diagnostic =
  dg_code :: string
  dg_is_error :: bool
  dg_path :: pystr

record dry_run_report =
  dr_ready :: bool
  dr_project :: "pystr \<times> int"
  dr_workflow_id :: pystr
  dr_spec_digest :: pystr
  dr_registry_digest :: pystr
  dr_plan_digest :: "pystr option"
  dr_summary :: plan_summary
  dr_plan :: "execution_plan option"
  dr_diagnostics :: "plan_diagnostic list"

record kernel_env = plan_env +
  env_spec_reload :: "research_spec \<Rightarrow> research_spec"
  env_plan_dump :: "execution_plan \<Rightarrow> pydict"

datatype kernel_error = KernelPlanning planning_error | NoResolvedWorkflow | ReportInvalid

definition plan_env_of :: "kernel_env \<Rightarrow> plan_env" where
  "plan_env_of env = \<lparr>env_blocks = env_blocks env, env_spec_dump = env_spec_dump env\<rparr>"

definition semantic_plan_digest :: "kernel_env \<Rightarrow> execution_plan \<Rightarrow> planning_error + pystr" where
  "semantic_plan_digest env plan = plan_digest (plan_env_of env) (PyDict (dict_pop (U ''specDigest'') (env_plan_dump env plan)))"

definition status_and_plan_are_consistent :: "kernel_env \<Rightarrow> dry_run_report \<Rightarrow> bool" where
  "status_and_plan_are_consistent env r \<longleftrightarrow>
     (let errors = filter dg_is_error (dr_diagnostics r); m = dr_summary r in
      if \<not> dr_ready r then
        dr_plan r = None \<and> dr_plan_digest r = None \<and> errors \<noteq> [] \<and> \<not> sm_planned m \<and> sm_stage_count m = 0
      else (case (dr_plan r, dr_plan_digest r) of
          (Some plan, Some digest) \<Rightarrow>
            errors = [] \<and> sm_planned m \<and> \<not> sm_truncated m
            \<and> (sm_task_count m, sm_approval_count m, sm_loop_count m, sm_stage_count m) = plan_counts (ep_graph plan)
            \<and> dr_project r = (ep_project_id plan, ep_project_revision plan) \<and> dr_workflow_id r = ep_workflow_id plan
            \<and> dr_spec_digest r = ep_spec_digest plan \<and> dr_registry_digest r = ep_registry_digest plan
            \<and> semantic_plan_digest env plan = Inr digest
        | _ \<Rightarrow> False))"

definition make_report :: "kernel_env \<Rightarrow> dry_run_report \<Rightarrow> kernel_error + dry_run_report" where
  "make_report env r = (if status_and_plan_are_consistent env r then Inr r else Inl ReportInvalid)"

definition selected_workflow :: "research_spec \<Rightarrow> pystr option \<Rightarrow> (pystr \<times> workflow_graph) option" where
  "selected_workflow snapshot workflow_id = (case workflow_id of
     None \<Rightarrow> (case sp_workflows snapshot of [w] \<Rightarrow> Some (ws_id w, ws_graph w) | _ \<Rightarrow> None)
   | Some i \<Rightarrow> map_option (\<lambda>w. (i, ws_graph w)) (find_first (\<lambda>w. ws_id w = i) (sp_workflows snapshot)))"

definition blocked_report :: "research_spec \<Rightarrow> pystr \<Rightarrow> workflow_graph \<Rightarrow> nat \<Rightarrow> pystr \<Rightarrow> pystr \<Rightarrow> string \<Rightarrow> pystr \<Rightarrow> dry_run_report" where
  "blocked_report snapshot workflow_id g limit spec_digest reg_digest code path =
     (case source_counts g limit of ((t, a, l), truncated) \<Rightarrow>
       \<lparr>dr_ready = False, dr_project = (pm_id (sp_metadata snapshot), pm_revision (sp_metadata snapshot)),
        dr_workflow_id = workflow_id, dr_spec_digest = spec_digest, dr_registry_digest = reg_digest, dr_plan_digest = None,
        dr_summary = \<lparr>sm_planned = False, sm_truncated = truncated, sm_task_count = t, sm_approval_count = a,
          sm_loop_count = l, sm_stage_count = 0\<rparr>,
        dr_plan = None, dr_diagnostics = [\<lparr>dg_code = code, dg_is_error = True, dg_path = path\<rparr>]\<rparr>)"

definition ready_report :: "research_spec \<Rightarrow> compiled_plan \<Rightarrow> pystr \<Rightarrow> dry_run_report" where
  "ready_report snapshot c digest =
     \<lparr>dr_ready = True, dr_project = (pm_id (sp_metadata snapshot), pm_revision (sp_metadata snapshot)),
      dr_workflow_id = ep_workflow_id (cp_plan c), dr_spec_digest = ep_spec_digest (cp_plan c),
      dr_registry_digest = ep_registry_digest (cp_plan c), dr_plan_digest = Some digest,
      dr_summary = \<lparr>sm_planned = True, sm_truncated = False, sm_task_count = cp_task_count c,
        sm_approval_count = cp_approval_count c, sm_loop_count = cp_loop_count c, sm_stage_count = cp_stage_count c\<rparr>,
      dr_plan = Some (cp_plan c), dr_diagnostics = []\<rparr>"

definition kernel_planning :: "planning_error + 'a \<Rightarrow> kernel_error + 'a" where
  "kernel_planning = map_sum KernelPlanning id"

definition dry_run :: "kernel_env \<Rightarrow> block_registry \<Rightarrow> planner_limits \<Rightarrow> research_spec \<Rightarrow> pystr option
    \<Rightarrow> kernel_error + dry_run_report" where
  "dry_run env reg limits s workflow_id =
     (let snapshot = env_spec_reload env s in
      bind_r (kernel_planning (plan_digest (plan_env_of env) (env_spec_dump env snapshot))) (\<lambda>spec_digest.
      bind_r (kernel_planning (map_sum Propagated id (registry_digest (env_blocks env) reg))) (\<lambda>reg_digest.
      case compile_plan (plan_env_of env) snapshot reg workflow_id limits of
        Inl (PlanningBlocked code path) \<Rightarrow>
          (case selected_workflow snapshot workflow_id of
             None \<Rightarrow> Inl NoResolvedWorkflow
           | Some (i, g) \<Rightarrow> make_report env (blocked_report snapshot i g (max_nodes limits) spec_digest reg_digest code path))
      | Inl e \<Rightarrow> Inl (KernelPlanning e)
      | Inr c \<Rightarrow>
          bind_r (kernel_planning (semantic_plan_digest env (cp_plan c))) (\<lambda>digest.
          make_report env (ready_report snapshot c digest)))))"

section \<open>The counters of the planner\<close>

definition plus4 :: "counts \<Rightarrow> counts \<Rightarrow> counts" where
  "plus4 c d = (case (c, d) of ((t, a, l, s), (t', a', l', s')) \<Rightarrow> (t + t', a + a', l + l', s + s'))"

definition sum4 :: "counts list \<Rightarrow> counts" where
  "sum4 cs = foldr plus4 cs (0, 0, 0, 0)"

fun node_tally :: "planned_node \<Rightarrow> counts"
and graph_tally :: "planned_graph \<Rightarrow> counts" where
  "node_tally (PlannedTask t) = (1, 0, 0, 0)"
| "node_tally (PlannedApproval a) = (0, 1, 0, 0)"
| "node_tally (PlannedLoop l body) = plus4 (0, 0, 1, 0) (graph_tally body)"
| "graph_tally (PlannedGraph stages es) =
     plus4 (0, 0, 0, length stages) (sum4 (List.map (\<lambda>s. sum4 (List.map node_tally (snd s))) stages))"

lemma plus4_assoc: "plus4 (plus4 a b) c = plus4 a (plus4 b c)"
  by (simp add: plus4_def split: prod.split)

lemma plus4_commute: "plus4 a b = plus4 b a"
  by (simp add: plus4_def split: prod.split)

lemma plus4_left_commute: "plus4 a (plus4 b c) = plus4 b (plus4 a c)"
  by (metis plus4_assoc plus4_commute)

lemmas plus4_ac = plus4_assoc plus4_commute plus4_left_commute

lemma plus4_zero [simp]: "plus4 (0, 0, 0, 0) c = c" "plus4 c (0, 0, 0, 0) = c"
  by (simp_all add: plus4_def split: prod.split)

lemma sum4_simps [simp]: "sum4 [] = (0, 0, 0, 0)" "sum4 (c # cs) = plus4 c (sum4 cs)" "sum4 (a @ b) = plus4 (sum4 a) (sum4 b)"
proof -
  show "sum4 [] = (0, 0, 0, 0)" "sum4 (c # cs) = plus4 c (sum4 cs)" for c cs by (simp_all add: sum4_def)
  then show "sum4 (a @ b) = plus4 (sum4 a) (sum4 b)" by (induction a) (simp_all add: plus4_assoc)
qed

lemma sum4_rev [simp]: "sum4 (rev cs) = sum4 cs"
  by (induction cs) (simp_all add: plus4_commute)

lemma sum4_stages: "sum4 (List.map (\<lambda>s. sum4 (List.map f (snd s))) stages) = sum4 (List.map f (concat (List.map snd stages)))"
  by (induction stages) auto

lemma count_nodes_tally:
  "plus4 (foldl count_node c ns) (sum4 (List.map graph_tally (loop_bodies ns))) = plus4 c (sum4 (List.map node_tally ns))"
proof (induction ns arbitrary: c)
  case (Cons n ns)
  obtain t a k s where c: "c = (t, a, k, s)" by (cases c)
  have one: "count_node c n = plus4 c (case n of PlannedTask _ \<Rightarrow> (1, 0, 0, 0) | PlannedApproval _ \<Rightarrow> (0, 1, 0, 0)
      | PlannedLoop _ _ \<Rightarrow> (0, 0, 1, 0))"
    by (cases n) (simp_all add: c plus4_def)
  show ?case using Cons.IH[of "count_node c n"] one by (cases n) (simp_all add: plus4_ac)
qed simp

lemma plan_counts_loop_tally: "plan_counts_loop pending c = plus4 c (sum4 (List.map graph_tally pending))"
proof (induction pending c rule: plan_counts_loop.induct)
  case (2 current pending c)
  obtain stages es where g: "current = PlannedGraph stages es" by (cases current)
  have a: "add_stages k c = plus4 c (0, 0, 0, k)" for k by (cases c) (simp add: add_stages_def plus4_def)
  show ?case
    using 2 count_nodes_tally[of "add_stages (length stages) c" "graph_nodes current"]
    by (simp add: g a sum4_stages rev_map[symmetric] plus4_ac)
qed simp

lemma plan_counts_tally: "plan_counts g = graph_tally g"
  by (simp add: plan_counts_def plan_counts_loop_tally)

definition tallied :: "planner_state \<Rightarrow> counts \<Rightarrow> planner_state \<Rightarrow> bool" where
  "tallied st c st' \<longleftrightarrow> (ps_task_count st', ps_approval_count st', ps_loop_count st', ps_stage_count st') =
     plus4 (ps_task_count st, ps_approval_count st, ps_loop_count st, ps_stage_count st) c"

lemma tallied_trans: "tallied st c st' \<Longrightarrow> tallied st' d st'' \<Longrightarrow> tallied st (plus4 c d) st''"
  by (simp add: tallied_def plus4_assoc)

lemma map_state_tallied:
  assumes "map_state f st xs = Inr (st', ys)" "\<And>x st st' y. x \<in> set xs \<Longrightarrow> f st x = Inr (st', y) \<Longrightarrow> tallied st (c y) st'"
  shows "tallied st (sum4 (List.map c ys)) st'"
  using assms
proof (induction xs arbitrary: st ys)
  case (Cons x xs)
  from Cons.prems(1) obtain st1 y ys' where s: "f st x = Inr (st1, y)" "map_state f st1 xs = Inr (st', ys')" "ys = y # ys'"
    by (auto simp: result_simps)
  from Cons.IH[OF s(2)] Cons.prems(2) have "tallied st1 (sum4 (List.map c ys')) st'" by auto
  with Cons.prems(2)[OF _ s(1)] s(3) show ?case by (auto dest: tallied_trans)
qed (simp add: tallied_def)

text \<open>What the planner adds to its counters is what its result holds.\<close>

lemma plan_graph_tallied:
  "plan_graph env reg base depth st g = Inr (st', q) \<Longrightarrow> tallied st (graph_tally q) st'"
  "plan_node env reg base deps depth resolved st n = Inr (st', p) \<Longrightarrow> tallied st (node_tally p) st'"
proof (induction env reg base depth st g and env reg base deps depth resolved st n arbitrary: st' q and st' p
    rule: plan_graph_plan_node.induct)
  case (1 env reg base depth st ns es)
  let ?g = "WorkflowGraph ns es"
  obtain stages dependencies where ts: "topological_stages ?g = (stages, dependencies)" by (cases "topological_stages ?g")
  let ?node = "\<lambda>resolved st i. case map_of (node_dict ?g) i of None \<Rightarrow> Inl (KeyError i)
      | Some node \<Rightarrow> plan_node env reg base (dependencies i) depth resolved st node"
  from "1.prems" obtain st1 resolved ps st2 planned where
    p: "prepare_graph env reg base depth st ?g = Inr (st1, resolved, ps)"
    and m: "map_state (\<lambda>st ids. map_state (?node resolved) st ids) st1 stages = Inr (st2, planned)"
    and q: "q = PlannedGraph (List.enumerate 0 planned) ps" "st' = st2\<lparr>ps_stage_count := ps_stage_count st2 + length planned\<rparr>"
    by (auto simp: plan_graph.simps ts result_simps)
  have t: "tallied st1 (sum4 (List.map (\<lambda>y. sum4 (List.map node_tally y)) planned)) st2"
  proof (rule map_state_tallied[OF m])
    fix ids st st' ys assume ids: "ids \<in> set stages" and r: "map_state (?node resolved) st ids = Inr (st', ys)"
    show "tallied st (sum4 (List.map node_tally ys)) st'"
    proof (rule map_state_tallied[OF r])
      fix i st st' y assume i: "i \<in> set ids" and r: "?node resolved st i = Inr (st', y)"
      then obtain node where "map_of (node_dict ?g) i = Some node" "plan_node env reg base (dependencies i) depth resolved st node = Inr (st', y)"
        by (auto split: option.splits)
      from "1.IH"[OF refl ts[symmetric] ids i this] show "tallied st (node_tally y) st'" .
    qed
  qed
  have "List.map (\<lambda>s. sum4 (List.map node_tally (snd s))) (List.enumerate 0 planned) =
      List.map (\<lambda>y. sum4 (List.map node_tally y)) (List.map snd (List.enumerate 0 planned))" unfolding map_map comp_def ..
  then have g: "graph_tally q = plus4 (0, 0, 0, length planned) (sum4 (List.map (\<lambda>y. sum4 (List.map node_tally y)) planned))"
    by (simp add: q(1))
  have "tallied st (0, 0, 0, 0) st1" using p by (auto simp: prepare_graph_def result_simps Let_def tallied_def)
  moreover have "tallied st2 (0, 0, 0, length planned) st'" by (simp add: q(2) tallied_def plus4_def)
  ultimately have "tallied st (plus4 (plus4 (0, 0, 0, 0) (sum4 (List.map (\<lambda>y. sum4 (List.map node_tally y)) planned)))
      (0, 0, 0, length planned)) st'"
    using t tallied_trans by blast
  then show ?case by (simp add: g plus4_commute)
next
  case (2 env reg base deps depth resolved st n)
  show ?case
  proof (cases n)
    case (LoopBlock l body)
    with "2.prems" obtain until q where s: "plan_graph env reg (base @ [lb_id l, U ''body'']) (depth + 1)
        (enter_loop (base @ [lb_id l]) st l) body = Inr (st', q)"
      "p = PlannedLoop (loop_fields (base @ [lb_id l]) (List.map (\<lambda>d. pointer (base @ [d])) deps) l until) q"
      by (auto simp: plan_node.simps result_simps)
    have "tallied st (0, 0, 1, 0) (enter_loop (base @ [lb_id l]) st l)"
      by (simp add: tallied_def enter_loop_def Let_def plus4_def)
    with "2.IH"[OF refl LoopBlock s(1)] s(2) show ?thesis by (auto dest: tallied_trans)
  qed (use "2.prems" in \<open>auto simp: plan_node.simps plan_task_def plan_approval_def result_simps Let_def tallied_def plus4_def\<close>)
qed

end
