(* ===== verification/Planner_Theorems.thy ===== *)
theory Planner_Theorems
  imports Kernel
begin

text \<open>
  The properties of the spec validators, the planner and the dry run, with a small spec that
  shows their hypotheses can hold.
\<close>

section \<open>From the validators to the planner\<close>

lemma graph_valid_sound:
  assumes "\<And>xs. mset (arrange xs) = mset xs"
  shows "node_valid arrange nonneg n \<Longrightarrow> node_sound n"
    "graph_valid arrange nonneg g \<Longrightarrow> graph_sound g"
proof (induction n and g rule: workflow_node.induct workflow_graph.induct)
  case (WorkflowGraph ns es)
  then show ?case using validate_graph_iff[OF assms] by (auto simp: list_all_iff is_ok_unit)
qed auto

lemma selected_in: "select_workflow s i = Inr w \<Longrightarrow> w \<in> set (sp_workflows s)"
  by (auto simp: select_workflow_def result_simps dest: find_first_SomeD split: option.splits list.splits)

lemma resource_by_id_known: "resource_by_id rs i \<noteq> None \<longleftrightarrow> i \<in> rs_id ` set rs"
  by (auto simp: resource_by_id_def map_of_eq_None_iff comp_def image_iff)

lemma resource_by_idD: "resource_by_id rs i = Some r \<Longrightarrow> r \<in> set rs \<and> rs_id r = i"
  by (auto simp: resource_by_id_def dest!: map_of_SomeD)

lemma refs_known:
  assumes "\<forall>n\<in>set (all_nodes g). node_rules rs n" "n \<in> set (all_nodes g)" "i \<in> set (refs_of n)"
  shows "i \<in> rs_id ` set rs"
proof -
  have "node_rules rs n" using assms by blast
  with assms(3) show ?thesis by (cases n) (auto simp: node_rules_def)
qed

definition valid_spec :: "(pystr list \<Rightarrow> pystr list) \<Rightarrow> (pystr \<Rightarrow> bool) \<Rightarrow> research_spec \<Rightarrow> bool" where
  "valid_spec arrange nonneg s \<longleftrightarrow> research_spec_valid arrange nonneg s \<and> (\<forall>xs. mset (arrange xs) = mset xs)"

lemma valid_specD:
  assumes "valid_spec arrange nonneg s" "w \<in> set (sp_workflows s)"
  shows "graph_sound (ws_graph w)" "\<forall>n\<in>set (all_nodes (ws_graph w)). node_rules (sp_resources s) n"
  using assms graph_valid_sound(2)[of arrange nonneg "ws_graph w"]
  by (auto simp: valid_spec_def research_spec_valid_def list_all_iff references_iff)

section \<open>Compiling a plan\<close>

definition plan_possible :: "plan_env \<Rightarrow> block_registry \<Rightarrow> planner_limits \<Rightarrow> research_spec \<Rightarrow> workflow_spec \<Rightarrow> bool" where
  "plan_possible env reg limits s w \<longleftrightarrow>
     graph_plannable env reg (max_loop_depth limits) 0 (ws_graph w) \<and> length (all_nodes (ws_graph w)) \<le> max_nodes limits
     \<and> digestible env (env_spec_dump env s) \<and> is_ok (registry_digest (env_blocks env) reg)"

text \<open>What the finished state and plan say of the selected workflow.\<close>

definition paid_ids :: "research_spec \<Rightarrow> workflow_graph \<Rightarrow> pystr set" where
  "paid_ids s g = {i \<in> set (graph_refs g). \<exists>r. resource_by_id (sp_resources s) i = Some r \<and> rs_paid r}"

definition plan_of_workflow :: "plan_env \<Rightarrow> block_registry \<Rightarrow> research_spec \<Rightarrow> workflow_spec \<Rightarrow> compiled_plan \<Rightarrow> bool" where
  "plan_of_workflow env reg s w c \<longleftrightarrow>
     (let ns = all_nodes (ws_graph w); base = [U ''workflow'', ws_id w]; paid = pol_paid_actions_require_approval (sp_policies s) in
      graph_mirrors env reg base (ws_graph w) (ep_graph (cp_plan c))
      \<and> cp_task_count c = length (filter is_task ns) \<and> cp_approval_count c = length (filter is_approval ns)
      \<and> cp_loop_count c = length (filter is_loop ns)
      \<and> List.map prs_id (ep_resources (cp_plan c)) = sorted_set (graph_refs (ws_graph w))
      \<and> req_id ` set (ep_requirements (cp_plan c)) = graph_requirements paid base (ws_graph w)
          \<union> (if paid then (\<lambda>i. U ''paid-resource:'' @ i) ` paid_ids s (ws_graph w) else {}))"

lemma initial_planner_state_ok: "1 \<le> max_nodes limits \<Longrightarrow> state_ok limits paid (initial_planner_state limits paid)"
  by (simp add: state_ok_def initial_planner_state_def)

lemma requirements_named:
  assumes "\<forall>(k, q)\<in>set d. req_id q = k"
  shows "\<forall>(k, q)\<in>set (put i \<lparr>req_id = i, req_kind = a, req_subject = b\<rparr> d). req_id q = k"
  using assms by (induction i "\<lparr>req_id = i, req_kind = a, req_subject = b\<rparr>" d rule: put.induct) auto

definition named :: "planner_state \<Rightarrow> bool" where
  "named st \<longleftrightarrow> (\<forall>(k, q)\<in>set (ps_requirements st). req_id q = k)"

lemma named_require [simp]: "named st \<Longrightarrow> named (require i a b st)"
  unfolding named_def require_def using requirements_named by simp

lemma named_updates [simp]:
  "named (st\<lparr>ps_task_count := n\<rparr>) = named st" "named (st\<lparr>ps_approval_count := n\<rparr>) = named st"
  "named (st\<lparr>ps_loop_count := n\<rparr>) = named st" "named (st\<lparr>ps_stage_count := n\<rparr>) = named st"
  "named (st\<lparr>ps_node_count := n\<rparr>) = named st" "named (st\<lparr>ps_used_resource_ids := u\<rparr>) = named st"
  by (simp_all add: named_def)

lemma map_state_keeps:
  assumes "map_state f st xs = Inr (st', ys)" "P st" "\<And>x st st' y. x \<in> set xs \<Longrightarrow> P st \<Longrightarrow> f st x = Inr (st', y) \<Longrightarrow> P st'"
  shows "P st'"
  using assms by (induction xs arbitrary: st ys) (auto simp: result_simps, blast)

lemma plan_graph_named:
  "named st \<Longrightarrow> plan_graph env reg base depth st g = Inr (st', q) \<Longrightarrow> named st'"
  "named st \<Longrightarrow> plan_node env reg base deps depth resolved st n = Inr (st', p) \<Longrightarrow> named st'"
proof (induction env reg base depth st g and env reg base deps depth resolved st n arbitrary: st' q and st' p
    rule: plan_graph_plan_node.induct)
  case (1 env reg base depth st ns es)
  let ?g = "WorkflowGraph ns es"
  obtain stages dependencies where ts: "topological_stages ?g = (stages, dependencies)" by (cases "topological_stages ?g")
  let ?node = "\<lambda>resolved st i. case map_of (node_dict ?g) i of None \<Rightarrow> Inl (KeyError i)
      | Some node \<Rightarrow> plan_node env reg base (dependencies i) depth resolved st node"
  from "1.prems"(2) obtain st1 resolved ps st2 planned where
    p: "prepare_graph env reg base depth st ?g = Inr (st1, resolved, ps)"
    and m: "map_state (\<lambda>st ids. map_state (?node resolved) st ids) st1 stages = Inr (st2, planned)"
    and q: "st' = st2\<lparr>ps_stage_count := ps_stage_count st2 + length planned\<rparr>"
    by (auto simp: plan_graph.simps ts result_simps)
  have "named st1" using p "1.prems"(1) by (auto simp: prepare_graph_def result_simps Let_def)
  from m this have "named st2"
  proof (rule map_state_keeps)
    fix ids st st' ys assume ids: "ids \<in> set stages" "named st" "map_state (?node resolved) st ids = Inr (st', ys)"
    from ids(3,2) show "named st'"
    proof (rule map_state_keeps)
      fix i st st' y assume i: "i \<in> set ids" and st: "named st" and r: "?node resolved st i = Inr (st', y)"
      then obtain node where n: "map_of (node_dict ?g) i = Some node"
        "plan_node env reg base (dependencies i) depth resolved st node = Inr (st', y)" by (auto split: option.splits)
      from "1.IH"[OF refl ts[symmetric] ids(1) i n(1) st n(2)] show "named st'" .
    qed
  qed
  then show ?case by (simp add: q)
next
  case (2 env reg base deps depth resolved st n)
  show ?case
  proof (cases n)
    case (LoopBlock l body)
    with "2.prems"(2) obtain q where s: "plan_graph env reg (base @ [lb_id l, U ''body'']) (depth + 1)
        (enter_loop (base @ [lb_id l]) st l) body = Inr (st', q)"
      by (auto simp: plan_node.simps result_simps)
    have "named (enter_loop (base @ [lb_id l]) st l)" using "2.prems"(1) by (simp add: enter_loop_def Let_def)
    from "2.IH"[OF refl LoopBlock this s] show ?thesis .
  qed (use "2.prems" in \<open>auto simp: plan_node.simps plan_task_def plan_approval_def result_simps Let_def\<close>)
qed

text \<open>The resources of the plan, and the requirements they add.\<close>

lemma map_r_resources:
  assumes "\<forall>i\<in>set ids. i \<in> rs_id ` set rs"
  shows "\<exists>resources. map_r (\<lambda>i. lift_option (KeyError i) (resource_by_id rs i)) ids = Inr resources
     \<and> List.map rs_id resources = ids \<and> list_all2 (\<lambda>i r. resource_by_id rs i = Some r) ids resources"
  using assms
proof (induction ids)
  case (Cons i ids)
  then obtain r where r: "resource_by_id rs i = Some r" using resource_by_id_known[of rs i] by auto
  from Cons obtain resources where "map_r (\<lambda>i. lift_option (KeyError i) (resource_by_id rs i)) ids = Inr resources"
    "List.map rs_id resources = ids" "list_all2 (\<lambda>i r. resource_by_id rs i = Some r) ids resources" by auto
  with r resource_by_idD[OF r] show ?case by (simp add: lift_option_def)
qed simp

lemma paid_requirements:
  "named st \<Longrightarrow> named (foldl (require_paid_resource paid) st resources) \<and>
   requirement_keys (foldl (require_paid_resource paid) st resources) = requirement_keys st
     \<union> (if paid then (\<lambda>r. U ''paid-resource:'' @ rs_id r) ` {r \<in> set resources. rs_paid r} else {})
   \<and> ps_task_count (foldl (require_paid_resource paid) st resources) = ps_task_count st
   \<and> ps_approval_count (foldl (require_paid_resource paid) st resources) = ps_approval_count st
   \<and> ps_loop_count (foldl (require_paid_resource paid) st resources) = ps_loop_count st
   \<and> ps_stage_count (foldl (require_paid_resource paid) st resources) = ps_stage_count st"
proof (induction resources arbitrary: st)
  case (Cons r resources)
  have n: "named (require_paid_resource paid st r)" using Cons.prems by (simp add: require_paid_resource_def)
  have k: "requirement_keys (require_paid_resource paid st r) =
      requirement_keys st \<union> (if paid \<and> rs_paid r then {U ''paid-resource:'' @ rs_id r} else {})"
    by (simp add: require_paid_resource_def)
  from Cons.IH[OF n] k show ?case by (auto simp: require_paid_resource_def)
qed simp

lemma requirement_ids:
  assumes "named st"
  shows "req_id ` set (List.map snd (sort_key fst (ps_requirements st))) = requirement_keys st"
proof -
  have "req_id (snd kq) = fst kq" if "kq \<in> set (ps_requirements st)" for kq
    using assms that by (cases kq) (auto simp: named_def)
  then show ?thesis by (simp add: requirement_keys_def image_image cong: image_cong)
qed

text \<open>One run of the planner on the selected workflow, with everything it does.\<close>

lemma refs_of_all_nodes: "(\<Union>n\<in>set (all_nodes g). set (refs_of n)) = set (graph_refs g)"
  by (simp add: graph_refs_def)

lemma compile_selected:
  assumes "rg_sealed reg" "select_workflow s i = Inr w" "1 \<le> max_nodes limits"
    and sound: "graph_sound (ws_graph w)" and known: "\<forall>n\<in>set (all_nodes (ws_graph w)). node_rules (sp_resources s) n"
  shows "is_ok (compile_plan env s reg i limits) \<longleftrightarrow> plan_possible env reg limits s w"
    and "compile_plan env s reg i limits = Inr c \<Longrightarrow> plan_of_workflow env reg s w c"
proof -
  let ?paid = "pol_paid_actions_require_approval (sp_policies s)" and ?base = "[U ''workflow'', ws_id w]" and ?g = "ws_graph w"
  let ?st0 = "initial_planner_state limits ?paid"
  note st0 = initial_planner_state_ok[OF assms(3), of ?paid]
  note plans = plansD[OF plan_graph_plans(2)[OF sound, of limits ?paid env reg 0 ?base] st0]
  have count: "is_ok (plan_graph env reg ?base 0 ?st0 ?g) \<longleftrightarrow>
      graph_plannable env reg (max_loop_depth limits) 0 ?g \<and> length (all_nodes ?g) \<le> max_nodes limits"
    using plans(1) by (simp add: initial_planner_state_def)
  have after: "\<exists>resources. map_r (\<lambda>i. lift_option (KeyError i) (resource_by_id (sp_resources s) i)) (sorted_set (ps_used_resource_ids st)) = Inr resources
      \<and> List.map rs_id resources = sorted_set (graph_refs ?g)
      \<and> list_all2 (\<lambda>i r. resource_by_id (sp_resources s) i = Some r) (sorted_set (graph_refs ?g)) resources"
    if r: "plan_graph env reg ?base 0 ?st0 ?g = Inr (st, q)" for st q
  proof -
    have u: "set (ps_used_resource_ids st) = set (graph_refs ?g)"
      using plans(2)[OF r] refs_of_all_nodes[of ?g] by (simp add: planned_between_def initial_planner_state_def)
    then have e: "sorted_set (ps_used_resource_ids st) = sorted_set (graph_refs ?g)"
      by (metis sorted_set_facts sorted_distinct_set_unique)
    have "\<forall>i\<in>set (sorted_set (graph_refs ?g)). i \<in> rs_id ` set (sp_resources s)"
      using refs_known[OF known] by (auto simp: graph_refs_def)
    from map_r_resources[OF this] show ?thesis unfolding e .
  qed
  show "is_ok (compile_plan env s reg i limits) \<longleftrightarrow> plan_possible env reg limits s w"
  proof (cases "plan_graph env reg ?base 0 ?st0 ?g")
    case (Inl e)
    with count have "\<not> (graph_plannable env reg (max_loop_depth limits) 0 ?g \<and> length (all_nodes ?g) \<le> max_nodes limits)" by simp
    then have "\<not> plan_possible env reg limits s w" by (auto simp: plan_possible_def)
    moreover have "\<not> is_ok (compile_plan env s reg i limits)"
      using Inl assms(1,2) by (simp add: compile_plan_def Let_def check_r_def)
    ultimately show ?thesis by blast
  next
    case (Inr r)
    obtain st q where r: "plan_graph env reg ?base 0 ?st0 ?g = Inr (st, q)" using Inr by (cases r) auto
    from after[OF r] obtain resources where res: "map_r (\<lambda>i. lift_option (KeyError i) (resource_by_id (sp_resources s) i))
        (sorted_set (ps_used_resource_ids st)) = Inr resources" by blast
    have "is_ok (compile_plan env s reg i limits) \<longleftrightarrow>
        is_ok (plan_digest env (env_spec_dump env s)) \<and> is_ok (registry_digest (env_blocks env) reg)"
      using assms(1-3) r res
      by (cases "plan_digest env (env_spec_dump env s)"; cases "registry_digest (env_blocks env) reg")
        (simp_all add: compile_plan_def Let_def check_r_def)
    with count r show ?thesis by (simp add: plan_possible_def digestible_def)
  qed
  assume "compile_plan env s reg i limits = Inr c"
  then obtain st q resources spec_digest reg_digest where r: "plan_graph env reg ?base 0 ?st0 ?g = Inr (st, q)"
    and res: "map_r (\<lambda>i. lift_option (KeyError i) (resource_by_id (sp_resources s) i)) (sorted_set (ps_used_resource_ids st)) = Inr resources"
    and c: "ep_graph (cp_plan c) = q" "ep_resources (cp_plan c) = List.map planned_resource_of resources"
      "ep_requirements (cp_plan c) = List.map snd (sort_key fst (ps_requirements (foldl (require_paid_resource ?paid) st resources)))"
      "cp_task_count c = ps_task_count (foldl (require_paid_resource ?paid) st resources)"
      "cp_approval_count c = ps_approval_count (foldl (require_paid_resource ?paid) st resources)"
      "cp_loop_count c = ps_loop_count (foldl (require_paid_resource ?paid) st resources)"
    using assms(1-3) by (auto simp: compile_plan_def Let_def result_simps)
  have nm: "named st" by (rule plan_graph_named(1)[OF _ r]) (simp add: named_def initial_planner_state_def)
  from after[OF r] res have rid: "List.map rs_id resources = sorted_set (graph_refs ?g)"
    and ra: "list_all2 (\<lambda>i r. resource_by_id (sp_resources s) i = Some r) (sorted_set (graph_refs ?g)) resources" by auto
  have paid: "(\<lambda>r. U ''paid-resource:'' @ rs_id r) ` {r \<in> set resources. rs_paid r} = (\<lambda>i. U ''paid-resource:'' @ i) ` paid_ids s ?g"
  proof -
    have "r \<in> set resources \<longleftrightarrow> (\<exists>i\<in>set (graph_refs ?g). resource_by_id (sp_resources s) i = Some r)" for r
      using ra by (auto simp: list_all2_conv_all_nth in_set_conv_nth)
        (metis in_set_conv_nth sorted_set_facts(1) option.inject)+
    moreover have "resource_by_id (sp_resources s) i = Some r \<Longrightarrow> rs_id r = i" for i r using resource_by_idD by blast
    ultimately show ?thesis by (fastforce simp: paid_ids_def)
  qed
  have pb: "planned_between ?st0 (mset (all_nodes ?g)) (length (all_nodes ?g)) (graph_stages q) (graph_requirements ?paid ?base ?g) st"
    and gm: "graph_mirrors env reg ?base ?g q"
    using plans(2)[OF r] by auto
  have keys: "requirement_keys st = graph_requirements ?paid ?base ?g"
    using pb by (simp add: planned_between_def requirement_keys_def initial_planner_state_def)
  have counts: "ps_task_count st = length (filter is_task (all_nodes ?g))" "ps_approval_count st = length (filter is_approval (all_nodes ?g))"
    "ps_loop_count st = length (filter is_loop (all_nodes ?g))"
    using pb by (simp_all add: planned_between_def initial_planner_state_def mset_filter[symmetric] del: mset_filter)
  show "plan_of_workflow env reg s w c"
    unfolding plan_of_workflow_def Let_def
    using paid_requirements[OF nm, of ?paid resources] requirement_ids[of "foldl (require_paid_resource ?paid) st resources"] paid
    by (simp add: c gm keys counts planned_resource_of_def rid comp_def)
qed

section \<open>A small spec\<close>

definition sample_task :: task_block where
  "sample_task = \<lparr>tb_id = U ''a'', tb_block_type = U ''t'', tb_block_version = U ''1.0.0'', tb_config = [],
     tb_resource_refs = [U ''r'']\<rparr>"

definition sample_approval :: "string \<Rightarrow> approval_block" where
  "sample_approval i = \<lparr>ab_id = U i, ab_prompt = U ''ok?'', ab_required_role = U ''owner''\<rparr>"

definition sample_loop :: loop_block where
  "sample_loop = \<lparr>lb_id = U ''c'', lb_max_iterations = 2, lb_max_wall_time_seconds = Some 60, lb_max_cost = Some (U ''1''),
     lb_currency = U ''EUR'', lb_may_incur_cost = True, lb_until = None, lb_checkpoint = True\<rparr>"

definition sample_edge :: "string \<Rightarrow> string \<Rightarrow> spec_edge" where
  "sample_edge a b = \<lparr>se_source = U a, se_target = U b, se_source_port = None, se_target_port = None\<rparr>"

definition sample_graph :: workflow_graph where
  "sample_graph = WorkflowGraph
     [LoopBlock sample_loop (WorkflowGraph [ApprovalBlock (sample_approval ''d'')] []), ApprovalBlock (sample_approval ''b''),
      TaskBlock sample_task] [sample_edge ''a'' ''b'', sample_edge ''b'' ''c'', sample_edge ''a'' ''c'']"

definition sample_resource :: resource_spec where
  "sample_resource = \<lparr>rs_id = U ''r'', rs_kind = U ''gpu'', rs_count = 1, rs_provider = None, rs_model = None, rs_paid = True,
     rs_max_cost = Some (U ''1''), rs_currency = U ''EUR'', rs_max_wall_time_seconds = Some 60\<rparr>"

definition sample_spec :: research_spec where
  "sample_spec = \<lparr>sp_metadata = \<lparr>pm_id = U ''p'', pm_revision = 1, pm_title = U ''P'', pm_description = None, pm_labels = []\<rparr>,
     sp_questions = [], sp_hypotheses = [], sp_evidence = [], sp_datasets = [], sp_models = [],
     sp_workflows = [\<lparr>ws_id = U ''w'', ws_graph = sample_graph\<rparr>], sp_evaluations = [], sp_resources = [sample_resource],
     sp_policies = \<lparr>pol_paid_actions_require_approval = True, pol_destructive_actions_require_approval = True,
       pol_preserve_ai_dissent = True, pol_unknown_evidence_may_train = False\<rparr>, sp_extensions = []\<rparr>"

definition sample_manifest :: block_manifest where
  "sample_manifest = \<lparr>bm_id = U ''t'', bm_version = U ''1.0.0'', bm_title = None, bm_description = None,
     bm_runtime_type = U ''simulated'', bm_entrypoint = None, bm_runtime_config = [], bm_inputs = [], bm_outputs = [],
     bm_config_schema = [(KStr (U ''type''), PyStr (U ''object''))], bm_resources = [], bm_capabilities = [],
     bm_permissions = [], bm_telemetry = [], bm_reproducibility = [], bm_extensions = []\<rparr>"

definition sample_registry :: block_registry where
  "sample_registry = \<lparr>rg_blocks = [((U ''t'', U ''1.0.0''), \<lparr>rb_manifest = sample_manifest, rb_digest = U ''m'', rb_origin = U ''o''\<rparr>)],
     rg_sealed = True\<rparr>"

definition sample_plan_env :: plan_env where
  "sample_plan_env = \<lparr>env_blocks = \<lparr>blk_sha = id, blk_dump = (\<lambda>m. PyStr (bm_id m)), blk_reload = id, blk_violation = (\<lambda>_ _. None)\<rparr>,
     env_spec_dump = (\<lambda>s. PyStr (pm_id (sp_metadata s)))\<rparr>"

definition sample_limits :: planner_limits where
  "sample_limits = \<lparr>max_nodes = 10, max_loop_depth = 1\<rparr>"

lemma sample_spec_valid: "valid_spec rev (\<lambda>_. True) sample_spec"
proof -
  have "research_spec_valid rev (\<lambda>_. True) sample_spec" by code_simp
  then show ?thesis by (simp add: valid_spec_def)
qed

section \<open>The properties\<close>

text \<open>C25: the validator of a workflow graph accepts exactly the graphs whose node ids are distinct,
  whose edges join known, different nodes and occur once, and that have no cycle, in whatever
  order sets are walked.\<close>

theorem graph_validation_exact:
  assumes "\<And>xs. mset (arrange xs) = mset xs"
  shows "validate_graph arrange g = Inr () \<longleftrightarrow>
     distinct (List.map node_id (nodes g))
     \<and> (\<forall>e\<in>set (edges g). se_source e \<in> node_id ` set (nodes g) \<and> se_target e \<in> node_id ` set (nodes g) \<and> se_source e \<noteq> se_target e)
     \<and> distinct (List.map edge_key (edges g))
     \<and> acyclic ((\<lambda>e. (se_source e, se_target e)) ` set (edges g))"
  unfolding validate_graph_iff[OF assms] graph_well_formed_def edges_good_def edge_pairs_of_def by auto

lemma graph_validation_exact_witness:
  "distinct (List.map edge_key (edges sample_graph)) \<and> acyclic ((\<lambda>e. (se_source e, se_target e)) ` set (edges sample_graph))"
proof -
  have "validate_graph rev sample_graph = Inr ()" by code_simp
  with graph_validation_exact[of rev sample_graph] show ?thesis by simp
qed

text \<open>C14: the stages of an accepted graph list every node exactly once; a stage holds, in sorted order,
  exactly the nodes not listed before whose predecessors are all in earlier stages, and none is
  empty; the dependencies of a node are its predecessors in sorted order.\<close>

theorem stages_layer_graph:
  assumes "\<And>xs. mset (arrange xs) = mset xs" "validate_graph arrange g = Inr ()" "topological_stages g = (stages, deps)"
  shows "mset (concat stages) = mset (List.map node_id (nodes g))
     \<and> (\<forall>i<length stages. stages ! i \<noteq> [] \<and> sorted (stages ! i) \<and>
          set (stages ! i) = {n \<in> node_id ` set (nodes g). n \<notin> set (concat (take i stages))
            \<and> (\<forall>e\<in>set (edges g). se_target e = n \<longrightarrow> se_source e \<in> set (concat (take i stages)))})
     \<and> (\<forall>n. deps n = sorted_list_of_set {se_source e |e. e \<in> set (edges g) \<and> se_target e = n})"
proof -
  have wf: "graph_well_formed g" using assms(2) validate_graph_iff[OF assms(1)] by blast
  have p: "preds (edge_pairs_of g) n = {se_source e |e. e \<in> set (edges g) \<and> se_target e = n}" for n
    by (auto simp: preds_def edge_pairs_of_def)
  have q: "preds (edge_pairs_of g) n \<subseteq> V \<longleftrightarrow> (\<forall>e\<in>set (edges g). se_target e = n \<longrightarrow> se_source e \<in> V)" for n V
    unfolding p by blast
  note t = topological_stages_layered[OF wf assms(3)]
  show ?thesis using t(1) t(2)[unfolded q] t(3)[unfolded p] by blast
qed

lemma stages_layer_graph_witness:
  "mset (concat (fst (topological_stages sample_graph))) = mset (List.map node_id (nodes sample_graph))
   \<and> fst (topological_stages sample_graph) = [[U ''a''], [U ''b''], [U ''c'']]"
proof -
  have v: "validate_graph rev sample_graph = Inr ()" by code_simp
  have s: "fst (topological_stages sample_graph) = [[U ''a''], [U ''b''], [U ''c'']]" by code_simp
  obtain stages deps where t: "topological_stages sample_graph = (stages, deps)" by (cases "topological_stages sample_graph")
  from stages_layer_graph[OF _ v t] s t show ?thesis by simp
qed

text \<open>C13: compiling a valid spec succeeds exactly if the registry is sealed, the limits allow a node,
  a workflow is selected and that workflow can be planned: its loops are within the depth limit,
  all its nodes within the node limit, every block resolves with an accepted config, its data
  edges fit the ports and every digest exists.  Nothing else makes the planner fail.\<close>

theorem plan_compiles_exactly:
  assumes "valid_spec arrange nonneg s"
  shows "is_ok (compile_plan env s reg i limits) \<longleftrightarrow>
     rg_sealed reg \<and> 1 \<le> max_nodes limits \<and>
     (\<exists>w. select_workflow s i = Inr w \<and> plan_possible env reg limits s w)"
proof (cases "rg_sealed reg \<and> 1 \<le> max_nodes limits \<and> is_ok (select_workflow s i)")
  case True
  then obtain w where w: "select_workflow s i = Inr w" by (auto simp: is_ok_iff)
  from True w compile_selected(1)[OF _ w _ valid_specD[OF assms selected_in[OF w]]] show ?thesis by simp
next
  case False
  then have "\<not> is_ok (compile_plan env s reg i limits)"
    by (auto simp: compile_plan_def result_simps Let_def)
  with False show ?thesis by (auto simp: is_ok_iff)
qed

lemma plan_compiles_exactly_witness:
  "plan_possible sample_plan_env sample_registry sample_limits sample_spec \<lparr>ws_id = U ''w'', ws_graph = sample_graph\<rparr>"
proof -
  have c: "is_ok (compile_plan sample_plan_env sample_spec sample_registry None sample_limits)" by code_simp
  have s: "select_workflow sample_spec None = Inr \<lparr>ws_id = U ''w'', ws_graph = sample_graph\<rparr>"
    by (simp add: select_workflow_def sample_spec_def)
  from plan_compiles_exactly[OF sample_spec_valid, of sample_plan_env sample_registry None sample_limits] c s show ?thesis by simp
qed

text \<open>C24: the plan of a valid spec mirrors the selected workflow: stage by stage and loop body by loop
  body its nodes with their paths, dependencies and blocks, the counts of tasks, approvals and
  loops, the resources the tasks name, and exactly the approvals that the policy asks for.\<close>

theorem plan_mirrors_source:
  assumes "valid_spec arrange nonneg s" "compile_plan env s reg i limits = Inr c"
  shows "\<exists>w. select_workflow s i = Inr w \<and> plan_of_workflow env reg s w c"
proof -
  obtain w where w: "select_workflow s i = Inr w" and k: "rg_sealed reg" "1 \<le> max_nodes limits"
    using assms(2) by (auto simp: compile_plan_def result_simps Let_def)
  from compile_selected(2)[OF k(1) w k(2) valid_specD[OF assms(1) selected_in[OF w]] assms(2)] w show ?thesis by blast
qed

lemma plan_mirrors_source_witness:
  "\<exists>c. compile_plan sample_plan_env sample_spec sample_registry None sample_limits = Inr c
     \<and> (\<exists>w. select_workflow sample_spec None = Inr w \<and> plan_of_workflow sample_plan_env sample_registry sample_spec w c)"
proof -
  have "is_ok (compile_plan sample_plan_env sample_spec sample_registry None sample_limits)" by code_simp
  then obtain c where c: "compile_plan sample_plan_env sample_spec sample_registry None sample_limits = Inr c"
    by (auto simp: is_ok_iff)
  from plan_mirrors_source[OF sample_spec_valid c] c show ?thesis by blast
qed

section \<open>The dry run\<close>

text \<open>What \<open>_source_counts\<close> still has to visit, in its order.\<close>

fun tally_kinds :: "nat \<times> nat \<times> nat \<Rightarrow> workflow_node list \<Rightarrow> nat \<times> nat \<times> nat" where
  "tally_kinds c [] = c"
| "tally_kinds (t, a, l) (n # ns) = tally_kinds (case n of TaskBlock _ \<Rightarrow> (t + 1, a, l) | ApprovalBlock _ \<Rightarrow> (t, a + 1, l)
     | LoopBlock _ _ \<Rightarrow> (t, a, l + 1)) ns"

definition to_visit :: "(workflow_node list \<times> nat) list \<Rightarrow> workflow_node list" where
  "to_visit stack = concat (List.map (\<lambda>(ns, i). node_trees (drop i ns)) stack)"

lemma to_visit_next:
  assumes "i < length ns"
  shows "to_visit ((ns, i) # stack) = ns ! i # to_visit (body_nodes (ns ! i) @ (ns, i + 1) # stack)"
proof -
  have d: "drop i ns = ns ! i # drop (i + 1) ns" using assms by (simp add: Cons_nth_drop_Suc)
  show ?thesis
  proof (cases "ns ! i")
    case (LoopBlock l body)
    then show ?thesis by (cases body) (simp add: to_visit_def d)
  qed (simp_all add: to_visit_def d)
qed

lemma source_counts_loop_counts:
  "seen \<le> limit \<Longrightarrow> source_counts_loop limit stack c seen =
     (tally_kinds c (take (limit - seen) (to_visit stack)), limit < seen + length (to_visit stack))"
proof (induction limit stack c seen rule: source_counts_loop.induct)
  case (2 limit ns index stack c seen)
  consider "length ns \<le> index" | "index < length ns" "limit \<le> seen" | "index < length ns" "seen < limit" by linarith
  then show ?case
  proof cases
    case 1
    then show ?thesis using 2(1)[OF 1 2(3)] by (simp add: to_visit_def)
  next
    case 2
    then show ?thesis using to_visit_next[OF 2(1), of stack] \<open>seen \<le> limit\<close> by simp
  next
    case 3
    obtain t a l where c: "c = (t, a, l)" by (cases c)
    have "limit - seen = Suc (limit - (seen + 1))" using 3(2) by simp
    then show ?thesis using 2(2)[OF _ _ refl] 3 to_visit_next[OF 3(1), of stack] c by (simp add: Let_def)
  qed
qed (simp add: to_visit_def)

lemma source_counts_eq:
  "source_counts g limit = (tally_kinds (0, 0, 0) (take limit (all_nodes g)), limit < length (all_nodes g))"
  by (cases g) (simp add: source_counts_def source_counts_loop_counts to_visit_def del: source_counts_loop.simps)

lemma tally_kinds_eq:
  "tally_kinds (t, a, l) ns = (t + length (filter is_task ns), a + length (filter is_approval ns), l + length (filter is_loop ns))"
  by (induction ns arbitrary: t a l) (auto simp: is_task_def is_approval_def is_loop_def split: workflow_node.split)

text \<open>The counts in the report of a blocked workflow are those of its first nodes in document
  order, loop bodies included, as many as the node limit allows, and they are marked truncated
  exactly if the workflow has more nodes than that.\<close>

lemma blocked_counts_bounded:
  "source_counts g limit =
     (let ns = take limit (all_nodes g) in
      ((length (filter is_task ns), length (filter is_approval ns), length (filter is_loop ns)), limit < length (all_nodes g)))"
  by (simp add: source_counts_eq tally_kinds_eq Let_def)

lemma compile_plan_result:
  assumes "compile_plan env s reg i limits = Inr c"
  shows "plan_counts (ep_graph (cp_plan c)) = (cp_task_count c, cp_approval_count c, cp_loop_count c, cp_stage_count c)"
    "ep_project_id (cp_plan c) = pm_id (sp_metadata s)" "ep_project_revision (cp_plan c) = pm_revision (sp_metadata s)"
proof -
  let ?paid = "pol_paid_actions_require_approval (sp_policies s)"
  obtain w where w: "select_workflow s i = Inr w" "rg_sealed reg" "1 \<le> max_nodes limits"
    using assms by (auto simp: compile_plan_def result_simps Let_def)
  from assms w obtain st resources where r: "plan_graph env reg [U ''workflow'', ws_id w] 0 (initial_planner_state limits ?paid) (ws_graph w)
        = Inr (st, ep_graph (cp_plan c))"
    and c: "cp_task_count c = ps_task_count (foldl (require_paid_resource ?paid) st resources)"
      "cp_approval_count c = ps_approval_count (foldl (require_paid_resource ?paid) st resources)"
      "cp_loop_count c = ps_loop_count (foldl (require_paid_resource ?paid) st resources)"
      "cp_stage_count c = ps_stage_count (foldl (require_paid_resource ?paid) st resources)"
      "ep_project_id (cp_plan c) = pm_id (sp_metadata s)" "ep_project_revision (cp_plan c) = pm_revision (sp_metadata s)"
    by (auto simp: compile_plan_def Let_def result_simps)
  have nm: "named st" by (rule plan_graph_named(1)[OF _ r]) (simp add: named_def initial_planner_state_def)
  from plan_graph_tallied(1)[OF r] paid_requirements[OF nm, of ?paid resources] c
  show "plan_counts (ep_graph (cp_plan c)) = (cp_task_count c, cp_approval_count c, cp_loop_count c, cp_stage_count c)"
    by (simp add: plan_counts_tally tallied_def initial_planner_state_def plus4_def split: prod.splits)
  from c show "ep_project_id (cp_plan c) = pm_id (sp_metadata s)" "ep_project_revision (cp_plan c) = pm_revision (sp_metadata s)" by auto
qed

text \<open>The digests in a compiled plan are the ones the kernel computes beforehand.\<close>

lemma compile_plan_digests:
  assumes "compile_plan env s reg i limits = Inr c" "plan_digest env (env_spec_dump env s) = Inr d"
    "registry_digest (env_blocks env) reg = Inr r"
  shows "ep_spec_digest (cp_plan c) = d" "ep_registry_digest (cp_plan c) = r"
  using assms by (auto simp: compile_plan_def Let_def result_simps)

lemma blocked_selects:
  assumes "compile_plan env s reg i limits = Inl (PlanningBlocked code path)"
  shows "selected_workflow s i \<noteq> None"
proof -
  obtain w where w: "select_workflow s i = Inr w"
    using assms by (cases "select_workflow s i") (auto simp: compile_plan_def check_r_def select_workflow_def lift_option_def
      split: option.splits list.splits if_splits)
  then show ?thesis
    by (auto simp: select_workflow_def selected_workflow_def lift_option_def split: option.splits list.splits)
qed

text \<open>C31: a dry run never ends in an inconsistent report or without a workflow to report on: it
  ends in an error of the planner or of a digest, or in a report that passes the consistency
  check and is ready exactly if the spec compiles to a plan.\<close>

theorem dry_run_consistent:
  "case dry_run env reg limits s i of
     Inl e \<Rightarrow> e \<noteq> ReportInvalid \<and> e \<noteq> NoResolvedWorkflow
   | Inr r \<Rightarrow> status_and_plan_are_consistent env r
       \<and> (dr_ready r \<longleftrightarrow> is_ok (compile_plan (plan_env_of env) (env_spec_reload env s) reg i limits))"
proof (cases "plan_digest (plan_env_of env) (env_spec_dump env (env_spec_reload env s))")
  case (Inl e)
  then show ?thesis by (simp add: dry_run_def Let_def kernel_planning_def)
next
  case d: (Inr d)
  show ?thesis
  proof (cases "registry_digest (env_blocks env) reg")
    case (Inl e)
    with d show ?thesis by (simp add: dry_run_def Let_def kernel_planning_def)
  next
    case rd: (Inr rd)
    let ?s = "env_spec_reload env s" and ?env = "plan_env_of env"
    note run = dry_run_def[of env reg limits s i, unfolded Let_def d rd kernel_planning_def, simplified]
    show ?thesis
    proof (cases "compile_plan ?env ?s reg i limits")
      case (Inl e)
      show ?thesis
      proof (cases e)
        case (PlanningBlocked code path)
        from blocked_selects[OF Inl[unfolded this]] obtain j g where "selected_workflow ?s i = Some (j, g)" by auto
        then show ?thesis using Inl PlanningBlocked
          by (simp add: run make_report_def status_and_plan_are_consistent_def blocked_report_def split: prod.split)
      qed (use Inl in \<open>simp_all add: run\<close>)
    next
      case c: (Inr c)
      show ?thesis
      proof (cases "semantic_plan_digest env (cp_plan c)")
        case (Inl e)
        with c show ?thesis by (simp add: run)
      next
        case (Inr digest)
        have "status_and_plan_are_consistent env (ready_report ?s c digest)"
          using Inr compile_plan_result[OF c]
          by (simp add: status_and_plan_are_consistent_def ready_report_def)
        with c Inr show ?thesis by (simp add: run make_report_def ready_report_def)
      qed
    qed
  qed
qed

end
