(* ===== verification/Research_Models.thy ===== *)
theory Research_Models
  imports Fold_Control Payload_Fields Spec_Research
begin

text \<open>
  \<open>research/models.py\<close>: the closed payloads of the decision events (proposals, dissents, decisions,
  questions and answers), the entries of the ledger and the ledger document.  Enumerations the
  code only carries are kept as their texts; those it branches on are datatypes.
\<close>

section \<open>Constants and errors\<close>

text \<open>The classes of \<open>research/errors.py\<close> with their \<open>code\<close>, pydantic's refusal of a ledger entry or
  document, and the errors of the store.\<close>

datatype research_error =
    ResearchPayloadError string
  | ResearchLedgerError string
  | ResearchControlError string
  | LedgerValidationError
  | ResearchStoreFailed store_error

definition MAX_DECISION_LIST :: nat where "MAX_DECISION_LIST = 32"
definition MAX_DECISION_TEXT :: nat where "MAX_DECISION_TEXT = 4000"
definition MAX_DECISION_ITEM_TEXT :: nat where "MAX_DECISION_ITEM_TEXT = 1000"
definition MAX_ALLOWED_USES :: nat where "MAX_ALLOWED_USES = 4"

definition TYPE_PROPOSAL_SUBMITTED :: pystr where "TYPE_PROPOSAL_SUBMITTED = U ''proposal.submitted''"
definition TYPE_DISSENT_RECORDED :: pystr where "TYPE_DISSENT_RECORDED = U ''dissent.recorded''"
definition TYPE_DECISION_RECORDED :: pystr where "TYPE_DECISION_RECORDED = U ''decision.recorded''"
definition TYPE_QUESTION_ASKED :: pystr where "TYPE_QUESTION_ASKED = U ''question.asked''"
definition TYPE_QUESTION_ANSWERED :: pystr where "TYPE_QUESTION_ANSWERED = U ''question.answered''"

lemmas research_types = TYPE_PROPOSAL_SUBMITTED_def TYPE_DISSENT_RECORDED_def TYPE_DECISION_RECORDED_def
  TYPE_QUESTION_ASKED_def TYPE_QUESTION_ANSWERED_def

definition DECISION_EVENT_TYPES :: "pystr list" where
  "DECISION_EVENT_TYPES = [TYPE_PROPOSAL_SUBMITTED, TYPE_DISSENT_RECORDED, TYPE_DECISION_RECORDED,
     TYPE_QUESTION_ASKED, TYPE_QUESTION_ANSWERED]"

definition ALLOWED_ACTOR_KINDS :: "(pystr \<times> actor_kind list) list" where
  "ALLOWED_ACTOR_KINDS = [(TYPE_PROPOSAL_SUBMITTED, [AI, HUMAN]), (TYPE_DISSENT_RECORDED, [AI, HUMAN]),
     (TYPE_DECISION_RECORDED, [HUMAN, POLICY]), (TYPE_QUESTION_ASKED, [AI, SYSTEM]), (TYPE_QUESTION_ANSWERED, [HUMAN])]"

definition JCS_DIGEST_PATTERN :: regex where
  "JCS_DIGEST_PATTERN = rseqs [clit ''jcs-sha256:'', rtimes 64 (crange [(CHR ''0'', CHR ''9''), (CHR ''a'', CHR ''f'')])]"

definition OBJECTION_KINDS :: "pystr list" where
  "OBJECTION_KINDS = List.map U [''falsifiability'', ''alternative-explanation'', ''data-leakage'', ''baseline-or-ablation'',
     ''metric-validity'', ''cost-benefit'', ''negative-result-value'', ''other'']"

definition EXPECTED_DIRECTIONS :: "pystr list" where
  "EXPECTED_DIRECTIONS = List.map U [''increase'', ''decrease'', ''unchanged'', ''range'', ''unknown'']"

datatype dissent_target_kind = DissentProposal | DissentDecision
datatype decision_target_kind = TargetProposal | TargetRun | TargetDissent | TargetQuestion
datatype question_status = QuestionOpen | QuestionAnswered
datatype decision_outcome = ACCEPT | REJECT | MODIFY | CONTINUE | DEFER
datatype proposal_revision_state = PROPOSED | VALIDATED | ACCEPTED | REJECTED | SUPERSEDED

definition dissent_target_of :: "pystr \<Rightarrow> dissent_target_kind option" where
  "dissent_target_of = map_of [(U ''proposal'', DissentProposal), (U ''decision'', DissentDecision)]"

definition decision_target_of :: "pystr \<Rightarrow> decision_target_kind option" where
  "decision_target_of = map_of [(U ''proposal'', TargetProposal), (U ''run'', TargetRun), (U ''dissent'', TargetDissent),
     (U ''question'', TargetQuestion)]"

definition outcome_of :: "pystr \<Rightarrow> decision_outcome option" where
  "outcome_of = map_of [(U ''accept'', ACCEPT), (U ''reject'', REJECT), (U ''modify'', MODIFY), (U ''continue'', CONTINUE),
     (U ''defer'', DEFER)]"

section \<open>Payload classes\<close>

definition DecisionText :: "pystr \<Rightarrow> bool" where "DecisionText = text_within 1 MAX_DECISION_TEXT"
definition DecisionItemText :: "pystr \<Rightarrow> bool" where "DecisionItemText = text_within 1 MAX_DECISION_ITEM_TEXT"
definition LedgerSequence :: "int \<Rightarrow> bool" where "LedgerSequence i \<longleftrightarrow> 0 \<le> i \<and> i \<le> CLOUD_EVENTS_INTEGER_MAX"
definition BaseRevision :: "int \<Rightarrow> bool" where "BaseRevision i \<longleftrightarrow> 1 \<le> i \<and> i \<le> CLOUD_EVENTS_INTEGER_MAX"
definition JcsDigest :: "pystr \<Rightarrow> bool" where "JcsDigest = fullmatch JCS_DIGEST_PATTERN"

definition decode_decision_text :: "pyval \<Rightarrow> pystr option" where
  "decode_decision_text v = Option.bind (as_str v) (keep_o DecisionText)"

definition decode_item_text :: "pyval \<Rightarrow> pystr option" where
  "decode_item_text v = Option.bind (as_str v) (keep_o DecisionItemText)"

definition decode_jcs :: "pyval \<Rightarrow> pystr option" where
  "decode_jcs v = Option.bind (as_str v) (keep_o JcsDigest)"

definition decode_evidence_refs :: "pyval \<Rightarrow> pystr list option" where
  "decode_evidence_refs = decode_unique 0 MAX_DECISION_LIST decode_identifier"

record proposal_prediction =
  pp_id :: pystr
  pp_statement :: pystr
  pp_metric :: "pystr option"
  pp_expected_direction :: pystr

record risk_assessment =
  ra_data :: pystr
  ra_method :: pystr
  ra_safety :: pystr
  ra_cost :: pystr

record proposal_payload =
  pr_proposal_id :: pystr
  pr_base_revision :: int
  pr_spec_diff_digest :: pystr
  pr_proposed_spec_digest :: pystr
  pr_rationale :: pystr
  pr_predictions :: "proposal_prediction list"
  pr_falsification_conditions :: "pystr list"
  pr_risk_assessment :: risk_assessment
  pr_evidence_refs :: "pystr list"

record dissent_objection =
  do_kind :: pystr
  do_statement :: pystr

record dissent_payload =
  dp_dissent_id :: pystr
  dp_target_kind :: dissent_target_kind
  dp_target_id :: pystr
  dp_objections :: "dissent_objection list"
  dp_evidence_refs :: "pystr list"

record decision_payload =
  dc_decision_id :: pystr
  dc_target_kind :: decision_target_kind
  dc_target_id :: pystr
  dc_outcome :: decision_outcome
  dc_rationale :: pystr
  dc_overridden_dissent_ids :: "pystr list"
  dc_evidence_refs :: "pystr list"

record question_payload =
  qp_question_id :: pystr
  qp_question :: pystr
  qp_uncertainty :: pystr
  qp_why_not_observable :: pystr
  qp_options :: "pystr list option"
  qp_blocking :: bool
  qp_related_proposal_id :: "pystr option"
  qp_evidence_refs :: "pystr list"

datatype question_answer = AnswerText pystr | AnswerOption pystr

record answer_rights =
  ar_status :: pystr
  ar_allowed_uses :: "pystr list"

record answer_payload =
  ap_question_id :: pystr
  ap_answer :: question_answer
  ap_rights :: answer_rights
  ap_evidence_refs :: "pystr list"

datatype research_payload =
    ProposalSubmittedPayload proposal_payload
  | DissentRecordedPayload dissent_payload
  | DecisionRecordedPayload decision_payload
  | QuestionAskedPayload question_payload
  | QuestionAnsweredPayload answer_payload

section \<open>Reading a payload\<close>

definition decode_prediction :: "pyval \<Rightarrow> proposal_prediction option" where
  "decode_prediction v = do {
     d \<leftarrow> as_dict v;
     check_o (only_keys [U ''id'', U ''statement'', U ''metric'', U ''expectedDirection''] d);
     i \<leftarrow> req_field d (U ''id'') decode_identifier;
     s \<leftarrow> req_field d (U ''statement'') decode_item_text;
     m \<leftarrow> opt_field d (U ''metric'') None (nullable_of decode_identifier);
     x \<leftarrow> req_field d (U ''expectedDirection'') (decode_literal EXPECTED_DIRECTIONS);
     Some \<lparr>pp_id = i, pp_statement = s, pp_metric = m, pp_expected_direction = x\<rparr> }"

definition decode_risk :: "pyval \<Rightarrow> risk_assessment option" where
  "decode_risk v = do {
     d \<leftarrow> as_dict v;
     check_o (only_keys [U ''data'', U ''method'', U ''safety'', U ''cost''] d);
     a \<leftarrow> req_field d (U ''data'') (decode_within 0 MAX_DECISION_TEXT);
     m \<leftarrow> req_field d (U ''method'') (decode_within 0 MAX_DECISION_TEXT);
     s \<leftarrow> req_field d (U ''safety'') (decode_within 0 MAX_DECISION_TEXT);
     c \<leftarrow> req_field d (U ''cost'') (decode_within 0 MAX_DECISION_TEXT);
     Some \<lparr>ra_data = a, ra_method = m, ra_safety = s, ra_cost = c\<rparr> }"

definition decode_proposal :: "pyval \<Rightarrow> research_payload option" where
  "decode_proposal v = do {
     d \<leftarrow> as_dict v;
     check_o (only_keys [U ''proposalId'', U ''baseRevision'', U ''specDiffDigest'', U ''proposedSpecDigest'', U ''rationale'',
       U ''predictions'', U ''falsificationConditions'', U ''riskAssessment'', U ''evidenceRefs''] d);
     i \<leftarrow> req_field d (U ''proposalId'') decode_identifier;
     b \<leftarrow> req_field d (U ''baseRevision'') (decode_range 1 CLOUD_EVENTS_INTEGER_MAX);
     g \<leftarrow> req_field d (U ''specDiffDigest'') decode_jcs;
     h \<leftarrow> req_field d (U ''proposedSpecDigest'') decode_jcs;
     r \<leftarrow> req_field d (U ''rationale'') decode_decision_text;
     p \<leftarrow> req_field d (U ''predictions'') (decode_array 1 MAX_DECISION_LIST decode_prediction);
     f \<leftarrow> req_field d (U ''falsificationConditions'') (decode_unique 1 MAX_DECISION_LIST decode_item_text);
     a \<leftarrow> req_field d (U ''riskAssessment'') decode_risk;
     e \<leftarrow> req_field d (U ''evidenceRefs'') decode_evidence_refs;
     check_o (length (List.map pp_id p) = card (set (List.map pp_id p)));
     Some (ProposalSubmittedPayload \<lparr>pr_proposal_id = i, pr_base_revision = b, pr_spec_diff_digest = g,
       pr_proposed_spec_digest = h, pr_rationale = r, pr_predictions = p, pr_falsification_conditions = f,
       pr_risk_assessment = a, pr_evidence_refs = e\<rparr>) }"

definition decode_objection :: "pyval \<Rightarrow> dissent_objection option" where
  "decode_objection v = do {
     d \<leftarrow> as_dict v;
     check_o (only_keys [U ''kind'', U ''statement''] d);
     k \<leftarrow> req_field d (U ''kind'') (decode_literal OBJECTION_KINDS);
     s \<leftarrow> req_field d (U ''statement'') decode_item_text;
     Some \<lparr>do_kind = k, do_statement = s\<rparr> }"

definition decode_dissent :: "pyval \<Rightarrow> research_payload option" where
  "decode_dissent v = do {
     d \<leftarrow> as_dict v;
     check_o (only_keys [U ''dissentId'', U ''targetKind'', U ''targetId'', U ''objections'', U ''evidenceRefs''] d);
     i \<leftarrow> req_field d (U ''dissentId'') decode_identifier;
     k \<leftarrow> req_field d (U ''targetKind'') (\<lambda>v. Option.bind (as_str v) dissent_target_of);
     t \<leftarrow> req_field d (U ''targetId'') decode_identifier;
     os \<leftarrow> req_field d (U ''objections'') (decode_array 1 MAX_DECISION_LIST decode_objection);
     e \<leftarrow> req_field d (U ''evidenceRefs'') decode_evidence_refs;
     Some (DissentRecordedPayload \<lparr>dp_dissent_id = i, dp_target_kind = k, dp_target_id = t, dp_objections = os,
       dp_evidence_refs = e\<rparr>) }"

definition decode_decision :: "pyval \<Rightarrow> research_payload option" where
  "decode_decision v = do {
     d \<leftarrow> as_dict v;
     check_o (only_keys [U ''decisionId'', U ''targetKind'', U ''targetId'', U ''outcome'', U ''rationale'',
       U ''overriddenDissentIds'', U ''evidenceRefs''] d);
     i \<leftarrow> req_field d (U ''decisionId'') decode_identifier;
     k \<leftarrow> req_field d (U ''targetKind'') (\<lambda>v. Option.bind (as_str v) decision_target_of);
     t \<leftarrow> req_field d (U ''targetId'') decode_identifier;
     oc \<leftarrow> req_field d (U ''outcome'') (\<lambda>v. Option.bind (as_str v) outcome_of);
     r \<leftarrow> req_field d (U ''rationale'') decode_decision_text;
     ov \<leftarrow> req_field d (U ''overriddenDissentIds'') (decode_unique 0 MAX_DECISION_LIST decode_identifier);
     e \<leftarrow> req_field d (U ''evidenceRefs'') decode_evidence_refs;
     Some (DecisionRecordedPayload \<lparr>dc_decision_id = i, dc_target_kind = k, dc_target_id = t, dc_outcome = oc,
       dc_rationale = r, dc_overridden_dissent_ids = ov, dc_evidence_refs = e\<rparr>) }"

definition decode_question :: "pyval \<Rightarrow> research_payload option" where
  "decode_question v = do {
     d \<leftarrow> as_dict v;
     check_o (only_keys [U ''questionId'', U ''question'', U ''uncertainty'', U ''whyNotObservable'', U ''options'',
       U ''blocking'', U ''relatedProposalId'', U ''evidenceRefs''] d);
     i \<leftarrow> req_field d (U ''questionId'') decode_identifier;
     q \<leftarrow> req_field d (U ''question'') decode_decision_text;
     u \<leftarrow> req_field d (U ''uncertainty'') decode_decision_text;
     w \<leftarrow> req_field d (U ''whyNotObservable'') decode_decision_text;
     os \<leftarrow> omit_field d (U ''options'') (decode_unique 1 MAX_DECISION_LIST decode_item_text);
     b \<leftarrow> req_field d (U ''blocking'') as_bool;
     r \<leftarrow> omit_field d (U ''relatedProposalId'') decode_identifier;
     e \<leftarrow> req_field d (U ''evidenceRefs'') decode_evidence_refs;
     Some (QuestionAskedPayload \<lparr>qp_question_id = i, qp_question = q, qp_uncertainty = u, qp_why_not_observable = w,
       qp_options = os, qp_blocking = b, qp_related_proposal_id = r, qp_evidence_refs = e\<rparr>) }"

text \<open>\<open>exactly_one_answer_key\<close>: one of the two keys, and not null\<close>

definition exactly_one_answer_key :: "pystr option \<Rightarrow> pystr option \<Rightarrow> question_answer option" where
  "exactly_one_answer_key t x = (case (t, x) of
     (Some t', None) \<Rightarrow> Some (AnswerText t') | (None, Some x') \<Rightarrow> Some (AnswerOption x') | _ \<Rightarrow> None)"

definition decode_answer :: "pyval \<Rightarrow> question_answer option" where
  "decode_answer v = do {
     d \<leftarrow> as_dict v;
     check_o (only_keys [U ''text'', U ''option''] d);
     t \<leftarrow> omit_field d (U ''text'') decode_decision_text;
     x \<leftarrow> omit_field d (U ''option'') decode_item_text;
     exactly_one_answer_key t x }"

definition unknown_rights_cannot_train :: "pystr \<Rightarrow> pystr list \<Rightarrow> bool" where
  "unknown_rights_cannot_train status uses \<longleftrightarrow> length uses = card (set uses)
     \<and> \<not> (status = U ''unknown'' \<and> {U ''training'', U ''redistribution''} \<inter> set uses \<noteq> {})"

definition decode_uses :: "pyval \<Rightarrow> pystr list option" where
  "decode_uses = decode_array 1 MAX_ALLOWED_USES (decode_literal DATA_USES)"

definition decode_rights :: "pyval \<Rightarrow> answer_rights option" where
  "decode_rights v = do {
     d \<leftarrow> as_dict v;
     check_o (only_keys [U ''status'', U ''allowedUses''] d);
     s \<leftarrow> req_field d (U ''status'') (decode_literal RIGHTS);
     u \<leftarrow> opt_field d (U ''allowedUses'') [U ''research-read''] decode_uses;
     check_o (unknown_rights_cannot_train s u);
     Some \<lparr>ar_status = s, ar_allowed_uses = u\<rparr> }"

definition decode_answered :: "pyval \<Rightarrow> research_payload option" where
  "decode_answered v = do {
     d \<leftarrow> as_dict v;
     check_o (only_keys [U ''questionId'', U ''answer'', U ''rights'', U ''evidenceRefs''] d);
     i \<leftarrow> req_field d (U ''questionId'') decode_identifier;
     a \<leftarrow> req_field d (U ''answer'') decode_answer;
     r \<leftarrow> req_field d (U ''rights'') decode_rights;
     e \<leftarrow> req_field d (U ''evidenceRefs'') decode_evidence_refs;
     Some (QuestionAnsweredPayload \<lparr>ap_question_id = i, ap_answer = a, ap_rights = r, ap_evidence_refs = e\<rparr>) }"

definition RESEARCH_PAYLOAD_MODELS :: "(pystr \<times> (pyval \<Rightarrow> research_payload option)) list" where
  "RESEARCH_PAYLOAD_MODELS = [(TYPE_PROPOSAL_SUBMITTED, decode_proposal), (TYPE_DISSENT_RECORDED, decode_dissent),
     (TYPE_DECISION_RECORDED, decode_decision), (TYPE_QUESTION_ASKED, decode_question),
     (TYPE_QUESTION_ANSWERED, decode_answered)]"

definition parse_decision_payload :: "research_event \<Rightarrow> research_error + research_payload" where
  "parse_decision_payload e = (case map_of RESEARCH_PAYLOAD_MODELS (e_type e) of
     None \<Rightarrow> Inl (ResearchPayloadError ''unknown-research-type'')
   | Some model \<Rightarrow> lift_option (ResearchPayloadError ''invalid-payload'') (model (ed_payload (e_data e))))"

definition require_actor_kind :: "research_event \<Rightarrow> research_error + unit" where
  "require_actor_kind e = (case actor_kind_field (ed_actor (e_data e)) of
     None \<Rightarrow> Inl (ResearchPayloadError ''actor-kind-required'')
   | Some kind \<Rightarrow> check_r (case map_of ALLOWED_ACTOR_KINDS (e_type e) of None \<Rightarrow> False | Some allowed \<Rightarrow> List.member allowed kind)
       (ResearchPayloadError ''actor-kind-forbidden''))"

definition payload_evidence_refs :: "research_payload \<Rightarrow> pystr list" where
  "payload_evidence_refs p = (case p of
     ProposalSubmittedPayload x \<Rightarrow> pr_evidence_refs x | DissentRecordedPayload x \<Rightarrow> dp_evidence_refs x
   | DecisionRecordedPayload x \<Rightarrow> dc_evidence_refs x | QuestionAskedPayload x \<Rightarrow> qp_evidence_refs x
   | QuestionAnsweredPayload x \<Rightarrow> ap_evidence_refs x)"

section \<open>The ledger\<close>

record proposal_entry =
  pe_proposal_id :: pystr
  pe_base_revision :: int
  pe_spec_diff_digest :: pystr
  pe_proposed_spec_digest :: pystr
  pe_rationale :: pystr
  pe_revision_state :: proposal_revision_state
  pe_event_id :: pystr
  pe_sequence :: int
  pe_accepted_by :: "pystr option"
  pe_superseded_by :: "pystr option"

record dissent_entry =
  de_dissent_id :: pystr
  de_target_kind :: dissent_target_kind
  de_target_id :: pystr
  de_objections :: "dissent_objection list"
  de_overridden_by :: "pystr list"
  de_event_id :: pystr
  de_sequence :: int

record decision_entry =
  ce_decision_id :: pystr
  ce_target_kind :: decision_target_kind
  ce_target_id :: pystr
  ce_outcome :: decision_outcome
  ce_rationale :: pystr
  ce_overridden_dissent_ids :: "pystr list"
  ce_event_id :: pystr
  ce_sequence :: int

text \<open>\<open>qe_answer\<close> groups the four answer fields, which are all set or all left out.\<close>

record answer_entry =
  ae_event_id :: pystr
  ae_sequence :: int
  ae_answer :: question_answer
  ae_rights :: answer_rights

record question_entry =
  qe_question_id :: pystr
  qe_question :: pystr
  qe_uncertainty :: pystr
  qe_why_not_observable :: pystr
  qe_options :: "pystr list"
  qe_blocking :: bool
  qe_related_proposal_id :: "pystr option"
  qe_status :: question_status
  qe_event_id :: pystr
  qe_sequence :: int
  qe_answer :: "answer_entry option"

definition objection_valid :: "dissent_objection \<Rightarrow> bool" where
  "objection_valid x \<longleftrightarrow> List.member OBJECTION_KINDS (do_kind x) \<and> DecisionItemText (do_statement x)"

definition proposal_entry_valid :: "proposal_entry \<Rightarrow> bool" where
  "proposal_entry_valid p \<longleftrightarrow> EventIdentifier (pe_proposal_id p) \<and> BaseRevision (pe_base_revision p)
     \<and> JcsDigest (pe_spec_diff_digest p) \<and> JcsDigest (pe_proposed_spec_digest p) \<and> DecisionText (pe_rationale p)
     \<and> CloudEventsString (pe_event_id p) \<and> LedgerSequence (pe_sequence p)
     \<and> pred_option EventIdentifier (pe_accepted_by p) \<and> pred_option EventIdentifier (pe_superseded_by p)"

definition dissent_entry_valid :: "dissent_entry \<Rightarrow> bool" where
  "dissent_entry_valid x \<longleftrightarrow> EventIdentifier (de_dissent_id x) \<and> EventIdentifier (de_target_id x)
     \<and> 1 \<le> length (de_objections x) \<and> length (de_objections x) \<le> MAX_DECISION_LIST \<and> list_all objection_valid (de_objections x)
     \<and> length (de_overridden_by x) \<le> MAX_DECISION_LIST \<and> list_all EventIdentifier (de_overridden_by x)
     \<and> CloudEventsString (de_event_id x) \<and> LedgerSequence (de_sequence x)"

definition decision_entry_valid :: "decision_entry \<Rightarrow> bool" where
  "decision_entry_valid x \<longleftrightarrow> EventIdentifier (ce_decision_id x) \<and> EventIdentifier (ce_target_id x)
     \<and> DecisionText (ce_rationale x) \<and> length (ce_overridden_dissent_ids x) \<le> MAX_DECISION_LIST
     \<and> list_all EventIdentifier (ce_overridden_dissent_ids x) \<and> CloudEventsString (ce_event_id x) \<and> LedgerSequence (ce_sequence x)"

definition answer_valid :: "question_answer \<Rightarrow> bool" where
  "answer_valid a \<longleftrightarrow> (case a of AnswerText t \<Rightarrow> DecisionText t | AnswerOption x \<Rightarrow> DecisionItemText x)"

definition rights_valid :: "answer_rights \<Rightarrow> bool" where
  "rights_valid r \<longleftrightarrow> List.member RIGHTS (ar_status r) \<and> 1 \<le> length (ar_allowed_uses r)
     \<and> length (ar_allowed_uses r) \<le> MAX_ALLOWED_USES \<and> list_all (List.member DATA_USES) (ar_allowed_uses r)
     \<and> unknown_rights_cannot_train (ar_status r) (ar_allowed_uses r)"

definition answer_fields_match_status :: "question_entry \<Rightarrow> bool" where
  "answer_fields_match_status q \<longleftrightarrow> (case (qe_status q, qe_answer q) of
     (QuestionOpen, None) \<Rightarrow> True
   | (QuestionAnswered, Some a) \<Rightarrow> \<not> ae_sequence a \<le> qe_sequence q
   | _ \<Rightarrow> False)"

definition question_entry_valid :: "question_entry \<Rightarrow> bool" where
  "question_entry_valid q \<longleftrightarrow> EventIdentifier (qe_question_id q) \<and> DecisionText (qe_question q)
     \<and> DecisionText (qe_uncertainty q) \<and> DecisionText (qe_why_not_observable q)
     \<and> length (qe_options q) \<le> MAX_DECISION_LIST \<and> list_all DecisionItemText (qe_options q)
     \<and> pred_option EventIdentifier (qe_related_proposal_id q) \<and> CloudEventsString (qe_event_id q)
     \<and> LedgerSequence (qe_sequence q)
     \<and> pred_option (\<lambda>a. CloudEventsString (ae_event_id a) \<and> LedgerSequence (ae_sequence a) \<and> answer_valid (ae_answer a)
         \<and> rights_valid (ae_rights a)) (qe_answer q)
     \<and> answer_fields_match_status q"

record research_ledger =
  rl_project_id :: pystr
  rl_last_sequence :: int
  rl_proposals :: "proposal_entry list"
  rl_dissents :: "dissent_entry list"
  rl_decisions :: "decision_entry list"
  rl_questions :: "question_entry list"
  rl_decision_count :: nat
  rl_answered_question_count :: nat
  rl_open_question_count :: nat
  rl_rationale_characters :: nat
  rl_overridden_dissent_count :: nat

definition counters_match_entries :: "research_ledger \<Rightarrow> bool" where
  "counters_match_entries l \<longleftrightarrow>
     (let answered = length (filter (\<lambda>q. qe_status q = QuestionAnswered) (rl_questions l));
          opened = length (filter (\<lambda>q. qe_status q = QuestionOpen) (rl_questions l)) in
      rl_decision_count l = length (rl_decisions l) \<and> answered + opened = length (rl_questions l)
      \<and> rl_answered_question_count l = answered \<and> rl_open_question_count l = opened)"

definition research_ledger_valid :: "research_ledger \<Rightarrow> bool" where
  "research_ledger_valid l \<longleftrightarrow> EventIdentifier (rl_project_id l) \<and> LedgerSequence (rl_last_sequence l)
     \<and> list_all proposal_entry_valid (rl_proposals l) \<and> list_all dissent_entry_valid (rl_dissents l)
     \<and> list_all decision_entry_valid (rl_decisions l) \<and> list_all question_entry_valid (rl_questions l)
     \<and> counters_match_entries l"

definition empty_research_ledger :: "pystr \<Rightarrow> int \<Rightarrow> research_ledger" where
  "empty_research_ledger project_id n = \<lparr>rl_project_id = project_id, rl_last_sequence = n,
     rl_proposals = [], rl_dissents = [], rl_decisions = [], rl_questions = [], rl_decision_count = 0,
     rl_answered_question_count = 0, rl_open_question_count = 0, rl_rationale_characters = 0, rl_overridden_dissent_count = 0\<rparr>"

section \<open>The order of keys\<close>

lemma blind_research_fields:
  "blind decode_decision_text" "blind decode_item_text" "blind decode_jcs" "blind decode_evidence_refs" "blind decode_uses"
  unfolding decode_decision_text_def[abs_def] decode_item_text_def[abs_def] decode_jcs_def[abs_def]
    decode_evidence_refs_def decode_uses_def by (simp_all add: shared_field_norm)

lemma blind_research_parts:
  "blind decode_prediction" "blind decode_risk" "blind decode_objection" "blind decode_answer" "blind decode_rights"
  by (rule blind_as_dict; simp add: decode_prediction_def decode_risk_def decode_objection_def decode_answer_def
    decode_rights_def shared_field_norm blind_research_fields)+

lemma blind_research_models: "\<forall>x\<in>set RESEARCH_PAYLOAD_MODELS. blind (snd x)"
proof -
  have "blind decode_proposal" "blind decode_dissent" "blind decode_decision" "blind decode_question" "blind decode_answered"
    by (rule blind_as_dict; simp add: decode_proposal_def decode_dissent_def decode_decision_def decode_question_def
      decode_answered_def shared_field_norm blind_research_fields blind_research_parts)+
  then show ?thesis by (simp add: RESEARCH_PAYLOAD_MODELS_def)
qed

lemma parse_decision_payload_norm:
  "keys_distinct (ed_payload (e_data e)) \<Longrightarrow> parse_decision_payload (norm_event e) = parse_decision_payload e"
  using lookup_decoder_norm[OF blind_research_models, where e = e]
  by (auto simp: parse_decision_payload_def norm_event_def split: option.split)

end
