(* ===== verification/Research_Ledger.thy ===== *)
theory Research_Ledger
  imports Research_Models Run_Models
begin

text \<open>
  \<open>research/ledger.py\<close>: the fold of the decision events of one project and the ledger document it is
  published as.  Building an entry runs pydantic's checks on it, so every handler can also end in
  \<open>LedgerValidationError\<close>.
\<close>

record ledger_fold =
  lf_proposals :: "proposal_entry list"
  lf_dissents :: "dissent_entry list"
  lf_decisions :: "decision_entry list"
  lf_questions :: "question_entry list"
  lf_run_ids :: "pystr list"

definition empty_ledger :: ledger_fold where
  "empty_ledger = \<lparr>lf_proposals = [], lf_dissents = [], lf_decisions = [], lf_questions = [], lf_run_ids = []\<rparr>"

abbreviation ledger_error :: "string \<Rightarrow> research_error + 'a" where
  "ledger_error code \<equiv> Inl (ResearchLedgerError code)"

definition validated :: "('x \<Rightarrow> bool) \<Rightarrow> 'x \<Rightarrow> research_error + 'x" where
  "validated valid x = (if valid x then Inr x else Inl LedgerValidationError)"

section \<open>Handlers\<close>

definition apply_proposal :: "ledger_fold \<Rightarrow> research_event \<Rightarrow> proposal_payload \<Rightarrow> research_error + ledger_fold" where
  "apply_proposal f e p =
     (if pr_base_revision p \<noteq> ed_experiment_revision (e_data e) then ledger_error ''proposal-revision-mismatch''
      else if list_ex (\<lambda>x. pe_proposal_id x = pr_proposal_id p) (lf_proposals f) then ledger_error ''duplicate-proposal''
      else if ed_run_id (e_data e) \<noteq> None then ledger_error ''unexpected-run-id''
      else bind_r (validated proposal_entry_valid
        \<lparr>pe_proposal_id = pr_proposal_id p, pe_base_revision = pr_base_revision p, pe_spec_diff_digest = pr_spec_diff_digest p,
         pe_proposed_spec_digest = pr_proposed_spec_digest p, pe_rationale = pr_rationale p, pe_revision_state = PROPOSED,
         pe_event_id = e_id e, pe_sequence = sequence_of e, pe_accepted_by = None, pe_superseded_by = None\<rparr>)
        (\<lambda>entry. Inr (f\<lparr>lf_proposals := lf_proposals f @ [entry]\<rparr>)))"

definition dissent_target_resolves :: "ledger_fold \<Rightarrow> dissent_payload \<Rightarrow> bool" where
  "dissent_target_resolves f p = (case dp_target_kind p of
     DissentProposal \<Rightarrow> list_ex (\<lambda>x. pe_proposal_id x = dp_target_id p) (lf_proposals f)
   | DissentDecision \<Rightarrow> list_ex (\<lambda>x. ce_decision_id x = dp_target_id p) (lf_decisions f))"

definition apply_dissent :: "ledger_fold \<Rightarrow> research_event \<Rightarrow> dissent_payload \<Rightarrow> research_error + ledger_fold" where
  "apply_dissent f e p =
     (if list_ex (\<lambda>x. de_dissent_id x = dp_dissent_id p) (lf_dissents f) then ledger_error ''duplicate-dissent''
      else if ed_run_id (e_data e) \<noteq> None then ledger_error ''unexpected-run-id''
      else if \<not> dissent_target_resolves f p then ledger_error ''unknown-dissent-target''
      else bind_r (validated dissent_entry_valid
        \<lparr>de_dissent_id = dp_dissent_id p, de_target_kind = dp_target_kind p, de_target_id = dp_target_id p,
         de_objections = dp_objections p, de_overridden_by = [], de_event_id = e_id e, de_sequence = sequence_of e\<rparr>)
        (\<lambda>entry. Inr (f\<lparr>lf_dissents := lf_dissents f @ [entry]\<rparr>)))"

definition find_dissent :: "ledger_fold \<Rightarrow> pystr \<Rightarrow> dissent_entry option" where
  "find_dissent f i = find_first (\<lambda>x. de_dissent_id x = i) (lf_dissents f)"

definition find_question :: "ledger_fold \<Rightarrow> pystr \<Rightarrow> question_entry option" where
  "find_question f i = find_first (\<lambda>x. qe_question_id x = i) (lf_questions f)"

definition decision_target_resolves :: "ledger_fold \<Rightarrow> decision_payload \<Rightarrow> bool" where
  "decision_target_resolves f p = (case dc_target_kind p of
     TargetProposal \<Rightarrow> list_ex (\<lambda>x. pe_proposal_id x = dc_target_id p) (lf_proposals f)
   | TargetDissent \<Rightarrow> list_ex (\<lambda>x. de_dissent_id x = dc_target_id p) (lf_dissents f)
   | TargetRun \<Rightarrow> List.member (lf_run_ids f) (dc_target_id p)
   | TargetQuestion \<Rightarrow> list_ex (\<lambda>x. qe_question_id x = dc_target_id p) (lf_questions f))"

definition decided_proposal :: "decision_payload \<Rightarrow> int \<Rightarrow> proposal_entry \<Rightarrow> proposal_entry" where
  "decided_proposal p base x =
     (if pe_proposal_id x = dc_target_id p then
        (if dc_outcome p = ACCEPT then x\<lparr>pe_revision_state := ACCEPTED, pe_accepted_by := Some (dc_decision_id p)\<rparr>
         else x\<lparr>pe_revision_state := REJECTED\<rparr>)
      else if dc_outcome p = ACCEPT \<and> pe_revision_state x = ACCEPTED \<and> pe_base_revision x < base
      then x\<lparr>pe_revision_state := SUPERSEDED, pe_superseded_by := Some (dc_target_id p)\<rparr>
      else x)"

definition apply_proposal_outcome :: "proposal_entry list \<Rightarrow> decision_payload \<Rightarrow> research_error + proposal_entry list" where
  "apply_proposal_outcome ps p =
     (if dc_target_kind p \<noteq> TargetProposal then Inr ps
      else if \<not> (dc_outcome p = ACCEPT \<or> dc_outcome p = REJECT) then Inr ps
      else case find_first (\<lambda>x. pe_proposal_id x = dc_target_id p) ps of
          None \<Rightarrow> ledger_error ''unknown-decision-target''
        | Some target \<Rightarrow>
            if \<not> (pe_revision_state target = PROPOSED \<or> pe_revision_state target = VALIDATED)
            then ledger_error ''proposal-not-open''
            else Inr (List.map (decided_proposal p (pe_base_revision target)) ps))"

definition mark_dissent :: "decision_payload \<Rightarrow> dissent_entry \<Rightarrow> research_error + dissent_entry" where
  "mark_dissent p x =
     (if \<not> List.member (dc_overridden_dissent_ids p) (de_dissent_id x) then Inr x
      else let linked = de_overridden_by x @ [dc_decision_id p] in
        if length linked > MAX_DECISION_LIST then ledger_error ''override-list-exhausted''
        else validated dissent_entry_valid (x\<lparr>de_overridden_by := linked\<rparr>))"

definition mark_overridden_dissents :: "dissent_entry list \<Rightarrow> decision_payload \<Rightarrow> research_error + dissent_entry list" where
  "mark_overridden_dissents ds p = (if dc_overridden_dissent_ids p = [] then Inr ds else map_r (mark_dissent p) ds)"

definition check_overridden :: "ledger_fold \<Rightarrow> int \<Rightarrow> pystr \<Rightarrow> research_error + unit" where
  "check_overridden f sequence i = (case find_dissent f i of
     None \<Rightarrow> ledger_error ''unknown-overridden-dissent''
   | Some x \<Rightarrow> if de_sequence x \<ge> sequence then ledger_error ''overridden-dissent-order'' else Inr ())"

definition check_question_target :: "ledger_fold \<Rightarrow> decision_payload \<Rightarrow> research_error + unit" where
  "check_question_target f p =
     (if dc_target_kind p \<noteq> TargetQuestion then Inr ()
      else case find_question f (dc_target_id p) of
          None \<Rightarrow> ledger_error ''unknown-decision-target''
        | Some q \<Rightarrow> if qe_status q = QuestionOpen \<and> dc_outcome p \<noteq> DEFER then ledger_error ''unanswered-question-decision''
            else Inr ())"

definition apply_decision :: "ledger_fold \<Rightarrow> research_event \<Rightarrow> decision_payload \<Rightarrow> research_error + ledger_fold" where
  "apply_decision f e p =
     (if list_ex (\<lambda>x. ce_decision_id x = dc_decision_id p) (lf_decisions f) then ledger_error ''duplicate-decision''
      else if dc_target_kind p = TargetRun \<and> ed_run_id (e_data e) \<noteq> Some (dc_target_id p) then ledger_error ''run-target-mismatch''
      else if dc_target_kind p \<noteq> TargetRun \<and> ed_run_id (e_data e) \<noteq> None then ledger_error ''unexpected-run-id''
      else if \<not> decision_target_resolves f p then ledger_error ''unknown-decision-target''
      else bind_r (check_question_target f p) (\<lambda>_.
        bind_r (fold_r (\<lambda>_ i. check_overridden f (sequence_of e) i) () (dc_overridden_dissent_ids p)) (\<lambda>_.
        bind_r (validated decision_entry_valid
          \<lparr>ce_decision_id = dc_decision_id p, ce_target_kind = dc_target_kind p, ce_target_id = dc_target_id p,
           ce_outcome = dc_outcome p, ce_rationale = dc_rationale p,
           ce_overridden_dissent_ids = dc_overridden_dissent_ids p, ce_event_id = e_id e, ce_sequence = sequence_of e\<rparr>) (\<lambda>entry.
        bind_r (apply_proposal_outcome (lf_proposals f) p) (\<lambda>proposals.
        bind_r (mark_overridden_dissents (lf_dissents f) p) (\<lambda>dissents.
        Inr (f\<lparr>lf_proposals := proposals, lf_dissents := dissents, lf_decisions := lf_decisions f @ [entry]\<rparr>)))))))"

definition apply_question_asked :: "ledger_fold \<Rightarrow> research_event \<Rightarrow> question_payload \<Rightarrow> research_error + ledger_fold" where
  "apply_question_asked f e p =
     (if list_ex (\<lambda>x. qe_question_id x = qp_question_id p) (lf_questions f) then ledger_error ''duplicate-question''
      else if ed_run_id (e_data e) \<noteq> None then ledger_error ''unexpected-run-id''
      else if \<not> (case qp_related_proposal_id p of None \<Rightarrow> True
          | Some i \<Rightarrow> list_ex (\<lambda>x. pe_proposal_id x = i) (lf_proposals f)) then ledger_error ''unknown-related-proposal''
      else bind_r (validated question_entry_valid
        \<lparr>qe_question_id = qp_question_id p, qe_question = qp_question p, qe_uncertainty = qp_uncertainty p,
         qe_why_not_observable = qp_why_not_observable p,
         qe_options = (case qp_options p of None \<Rightarrow> [] | Some os \<Rightarrow> os), qe_blocking = qp_blocking p,
         qe_related_proposal_id = qp_related_proposal_id p, qe_status = QuestionOpen, qe_event_id = e_id e,
         qe_sequence = sequence_of e, qe_answer = None\<rparr>)
        (\<lambda>entry. Inr (f\<lparr>lf_questions := lf_questions f @ [entry]\<rparr>)))"

definition apply_question_answered :: "ledger_fold \<Rightarrow> research_event \<Rightarrow> answer_payload \<Rightarrow> research_error + ledger_fold" where
  "apply_question_answered f e p =
     (if ed_run_id (e_data e) \<noteq> None then ledger_error ''unexpected-run-id''
      else case find_question f (ap_question_id p) of
          None \<Rightarrow> ledger_error ''unknown-question''
        | Some asked \<Rightarrow>
            if qe_status asked = QuestionAnswered then ledger_error ''duplicate-answer''
            else if \<not> (case ap_answer p of AnswerOption x \<Rightarrow> List.member (qe_options asked) x | AnswerText _ \<Rightarrow> True)
            then ledger_error ''invalid-answer-option''
            else let updated = asked\<lparr>qe_status := QuestionAnswered, qe_answer := Some \<lparr>ae_event_id = e_id e,
                ae_sequence = sequence_of e, ae_answer = ap_answer p, ae_rights = ap_rights p\<rparr>\<rparr> in
              Inr (f\<lparr>lf_questions := List.map (\<lambda>x. if qe_question_id x = ap_question_id p then updated else x) (lf_questions f)\<rparr>))"

section \<open>The fold\<close>

definition apply_research_payload :: "ledger_fold \<Rightarrow> research_event \<Rightarrow> research_payload \<Rightarrow> research_error + ledger_fold" where
  "apply_research_payload f e payload = (case payload of
     ProposalSubmittedPayload p \<Rightarrow> apply_proposal f e p
   | DissentRecordedPayload p \<Rightarrow> apply_dissent f e p
   | QuestionAskedPayload p \<Rightarrow> apply_question_asked f e p
   | QuestionAnsweredPayload p \<Rightarrow> apply_question_answered f e p
   | DecisionRecordedPayload p \<Rightarrow> apply_decision f e p)"

definition observe_run :: "ledger_fold \<Rightarrow> research_event \<Rightarrow> ledger_fold" where
  "observe_run f e = (case ed_run_id (e_data e) of
     Some i \<Rightarrow> if e_type e = TYPE_RUN_QUEUED \<and> \<not> List.member (lf_run_ids f) i then f\<lparr>lf_run_ids := lf_run_ids f @ [i]\<rparr> else f
   | None \<Rightarrow> f)"

definition apply_ledger :: "pystr \<Rightarrow> ledger_fold \<Rightarrow> research_event \<Rightarrow> research_error + ledger_fold" where
  "apply_ledger project_id state e =
     (if ed_project_id (e_data e) \<noteq> project_id then Inr state
      else let f = observe_run state e in
        if \<not> List.member DECISION_EVENT_TYPES (e_type e) then Inr f
        else bind_r (require_actor_kind e) (\<lambda>_.
          bind_r (parse_decision_payload e) (\<lambda>payload.
          if ed_evidence_refs (e_data e) \<noteq> payload_evidence_refs payload then ledger_error ''evidence-refs-mismatch''
          else apply_research_payload f e payload)))"

section \<open>The ledger document\<close>

definition ledger_of :: "pystr \<Rightarrow> ledger_fold \<Rightarrow> int \<Rightarrow> research_ledger" where
  "ledger_of project_id f n =
     (let answered = length (filter (\<lambda>q. qe_status q = QuestionAnswered) (lf_questions f)) in
      \<lparr>rl_project_id = project_id, rl_last_sequence = n, rl_proposals = lf_proposals f, rl_dissents = lf_dissents f,
       rl_decisions = lf_decisions f, rl_questions = lf_questions f, rl_decision_count = length (lf_decisions f),
       rl_answered_question_count = answered, rl_open_question_count = length (lf_questions f) - answered,
       rl_rationale_characters = sum_list (List.map (\<lambda>x. length (ce_rationale x)) (lf_decisions f)),
       rl_overridden_dissent_count = card (set (concat (List.map ce_overridden_dissent_ids (lf_decisions f))))\<rparr>)"

definition ledger_snapshot :: "pystr \<Rightarrow> ledger_fold \<Rightarrow> int \<Rightarrow> research_error + research_ledger" where
  "ledger_snapshot project_id f n = validated research_ledger_valid (ledger_of project_id f n)"

text \<open>\<open>build_research_ledger\<close>; without events it is the empty ledger.\<close>

definition research_project :: "pystr \<Rightarrow> research_error + unit" where
  "research_project project_id = check_r (EventIdentifier project_id) (ResearchPayloadError ''invalid-identifier'')"

definition build_research_ledger :: "research_event list \<Rightarrow> pystr \<Rightarrow> int \<Rightarrow> research_error + research_ledger" where
  "build_research_ledger es project_id n =
     bind_r (research_project project_id) (\<lambda>_.
     bind_r (fold_r (apply_ledger project_id) empty_ledger es) (\<lambda>f.
     if es = [] then validated research_ledger_valid (empty_research_ledger project_id n)
     else ledger_snapshot project_id f n))"

end
