(* ===== verification/Research_Facts.thy ===== *)
theory Research_Facts
  imports Research_Ledger Growth
begin

text \<open>
  What the research ledger guarantees: entries only move on in the allowed ways, references resolve,
  and every entry passes the checks its class runs on it.
\<close>

section \<open>Entries that move on\<close>

definition proposal_later :: "proposal_entry \<Rightarrow> proposal_entry \<Rightarrow> bool" where
  "proposal_later x y \<longleftrightarrow>
     y\<lparr>pe_revision_state := PROPOSED, pe_accepted_by := None, pe_superseded_by := None\<rparr> =
       x\<lparr>pe_revision_state := PROPOSED, pe_accepted_by := None, pe_superseded_by := None\<rparr>
     \<and> (pe_accepted_by x \<noteq> None \<longrightarrow> pe_accepted_by y = pe_accepted_by x)
     \<and> (pe_revision_state x = REJECTED \<or> pe_revision_state x = SUPERSEDED \<longrightarrow> y = x)
     \<and> (pe_revision_state x = ACCEPTED \<longrightarrow> pe_revision_state y = ACCEPTED \<or> pe_revision_state y = SUPERSEDED)"

definition dissent_later :: "dissent_entry \<Rightarrow> dissent_entry \<Rightarrow> bool" where
  "dissent_later x y \<longleftrightarrow> y\<lparr>de_overridden_by := []\<rparr> = x\<lparr>de_overridden_by := []\<rparr> \<and> prefix (de_overridden_by x) (de_overridden_by y)"

definition question_later :: "question_entry \<Rightarrow> question_entry \<Rightarrow> bool" where
  "question_later x y \<longleftrightarrow> y\<lparr>qe_status := QuestionOpen, qe_answer := None\<rparr> = x\<lparr>qe_status := QuestionOpen, qe_answer := None\<rparr>
     \<and> (qe_status x = QuestionAnswered \<longrightarrow> y = x)"

definition ledger_kept :: "ledger_fold \<Rightarrow> ledger_fold \<Rightarrow> bool" where
  "ledger_kept f g \<longleftrightarrow> extends_by proposal_later (lf_proposals f) (lf_proposals g)
     \<and> extends_by dissent_later (lf_dissents f) (lf_dissents g) \<and> prefix (lf_decisions f) (lf_decisions g)
     \<and> extends_by question_later (lf_questions f) (lf_questions g) \<and> prefix (lf_run_ids f) (lf_run_ids g)"

lemma entry_later_refl [simp]: "proposal_later p p" "dissent_later d d" "question_later q q"
  by (simp_all add: proposal_later_def dissent_later_def question_later_def)

lemma proposal_laterD:
  assumes "proposal_later x y"
  shows "pe_proposal_id y = pe_proposal_id x" "pe_base_revision y = pe_base_revision x" "pe_sequence y = pe_sequence x"
    "pe_accepted_by x \<noteq> None \<Longrightarrow> pe_accepted_by y \<noteq> None"
  using assms by (cases x; cases y; simp add: proposal_later_def)+

lemma dissent_laterD:
  assumes "dissent_later x y"
  shows "de_dissent_id y = de_dissent_id x" "de_sequence y = de_sequence x" "set (de_overridden_by x) \<subseteq> set (de_overridden_by y)"
  using assms by (cases x; cases y; simp add: dissent_later_def set_mono_prefix)+

lemma question_laterD:
  assumes "question_later x y"
  shows "qe_question_id y = qe_question_id x" "qe_sequence y = qe_sequence x" "qe_status x = QuestionAnswered \<Longrightarrow> y = x"
  using assms by (cases x; cases y; simp add: question_later_def)+

lemma entry_later_trans:
  "proposal_later p q \<Longrightarrow> proposal_later q r \<Longrightarrow> proposal_later p r"
  "dissent_later d e \<Longrightarrow> dissent_later e h \<Longrightarrow> dissent_later d h"
  "question_later u v \<Longrightarrow> question_later v w \<Longrightarrow> question_later u w"
  unfolding proposal_later_def dissent_later_def question_later_def by (auto intro: prefix_order.trans)

lemma entries_stay [simp]:
  "extends_by proposal_later ps ps" "extends_by dissent_later ds ds" "extends_by question_later qs qs"
  by (simp_all add: extends_by_def list_all2_same)

lemma ledger_kept_refl [simp]: "ledger_kept f f"
  by (simp add: ledger_kept_def)

lemma ledger_kept_trans: "ledger_kept f g \<Longrightarrow> ledger_kept g h \<Longrightarrow> ledger_kept f h"
  unfolding ledger_kept_def
  by (intro conjI; elim conjE; (rule extends_by_trans[OF entry_later_trans(1)] extends_by_trans[OF entry_later_trans(2)]
    extends_by_trans[OF entry_later_trans(3)] prefix_order.trans); assumption)

lemma ledger_kept_snoc:
  "ledger_kept f (f\<lparr>lf_proposals := lf_proposals f @ ps\<rparr>)" "ledger_kept f (f\<lparr>lf_dissents := lf_dissents f @ ds\<rparr>)"
  "ledger_kept f (f\<lparr>lf_questions := lf_questions f @ qs\<rparr>)" "ledger_kept f (f\<lparr>lf_run_ids := lf_run_ids f @ is\<rparr>)"
  by (simp_all add: ledger_kept_def extends_by_refl)

section \<open>What holds of each entry\<close>

definition accepted_in :: "ledger_fold \<Rightarrow> decision_outcome \<Rightarrow> pystr \<Rightarrow> decision_entry \<Rightarrow> bool" where
  "accepted_in f oc i c \<longleftrightarrow> c \<in> set (lf_decisions f) \<and> ce_target_kind c = TargetProposal \<and> ce_target_id c = i \<and> ce_outcome c = oc"

definition proposal_shape :: "proposal_entry \<Rightarrow> bool" where
  "proposal_shape p \<longleftrightarrow> (case pe_revision_state p of
     PROPOSED \<Rightarrow> pe_accepted_by p = None \<and> pe_superseded_by p = None
   | VALIDATED \<Rightarrow> False
   | ACCEPTED \<Rightarrow> pe_accepted_by p \<noteq> None \<and> pe_superseded_by p = None
   | REJECTED \<Rightarrow> pe_accepted_by p = None \<and> pe_superseded_by p = None
   | SUPERSEDED \<Rightarrow> pe_accepted_by p \<noteq> None \<and> pe_superseded_by p \<noteq> None)"

definition proposal_ok :: "ledger_fold \<Rightarrow> proposal_entry \<Rightarrow> bool" where
  "proposal_ok f p \<longleftrightarrow> proposal_entry_valid p \<and> proposal_shape p
     \<and> (\<forall>i. pe_accepted_by p = Some i \<longrightarrow> (\<exists>c. accepted_in f ACCEPT (pe_proposal_id p) c \<and> ce_decision_id c = i))
     \<and> (pe_revision_state p = REJECTED \<longrightarrow> (\<exists>c. accepted_in f REJECT (pe_proposal_id p) c))
     \<and> (\<forall>j. pe_superseded_by p = Some j \<longrightarrow> (\<exists>q\<in>set (lf_proposals f). pe_proposal_id q = j
          \<and> pe_base_revision p < pe_base_revision q \<and> pe_accepted_by q \<noteq> None))"

definition dissent_ok :: "ledger_fold \<Rightarrow> dissent_entry \<Rightarrow> bool" where
  "dissent_ok f d \<longleftrightarrow> dissent_entry_valid d
     \<and> (case de_target_kind d of
          DissentProposal \<Rightarrow> de_target_id d \<in> pe_proposal_id ` set (lf_proposals f)
        | DissentDecision \<Rightarrow> de_target_id d \<in> ce_decision_id ` set (lf_decisions f))
     \<and> (\<forall>i\<in>set (de_overridden_by d). \<exists>c\<in>set (lf_decisions f). ce_decision_id c = i
          \<and> de_dissent_id d \<in> set (ce_overridden_dissent_ids c))"

definition decision_ok :: "ledger_fold \<Rightarrow> decision_entry \<Rightarrow> bool" where
  "decision_ok f c \<longleftrightarrow> decision_entry_valid c
     \<and> (case ce_target_kind c of
          TargetProposal \<Rightarrow> ce_target_id c \<in> pe_proposal_id ` set (lf_proposals f)
        | TargetDissent \<Rightarrow> ce_target_id c \<in> de_dissent_id ` set (lf_dissents f)
        | TargetRun \<Rightarrow> ce_target_id c \<in> set (lf_run_ids f)
        | TargetQuestion \<Rightarrow> \<exists>q\<in>set (lf_questions f). qe_question_id q = ce_target_id c
            \<and> (ce_outcome c \<noteq> DEFER \<longrightarrow> qe_status q = QuestionAnswered))
     \<and> (\<forall>i\<in>set (ce_overridden_dissent_ids c). \<exists>d\<in>set (lf_dissents f). de_dissent_id d = i
          \<and> de_sequence d < ce_sequence c \<and> ce_decision_id c \<in> set (de_overridden_by d))"

definition question_ok :: "ledger_fold \<Rightarrow> question_entry \<Rightarrow> bool" where
  "question_ok f q \<longleftrightarrow> question_entry_valid q
     \<and> pred_option (\<lambda>i. i \<in> pe_proposal_id ` set (lf_proposals f)) (qe_related_proposal_id q)
     \<and> pred_option (\<lambda>a. case ae_answer a of AnswerOption x \<Rightarrow> x \<in> set (qe_options q) | AnswerText _ \<Rightarrow> True) (qe_answer q)"

definition ledger_ids_distinct :: "ledger_fold \<Rightarrow> bool" where
  "ledger_ids_distinct f \<longleftrightarrow> distinct (List.map pe_proposal_id (lf_proposals f)) \<and> distinct (List.map de_dissent_id (lf_dissents f))
     \<and> distinct (List.map ce_decision_id (lf_decisions f)) \<and> distinct (List.map qe_question_id (lf_questions f))"

definition ledger_inv :: "ledger_fold \<Rightarrow> bool" where
  "ledger_inv f \<longleftrightarrow> ledger_ids_distinct f
     \<and> (\<forall>p\<in>set (lf_proposals f). proposal_ok f p) \<and> (\<forall>d\<in>set (lf_dissents f). dissent_ok f d)
     \<and> (\<forall>c\<in>set (lf_decisions f). decision_ok f c) \<and> (\<forall>q\<in>set (lf_questions f). question_ok f q)"

text \<open>The members of an earlier state are found again in a later one.\<close>

lemma kept_members:
  assumes "ledger_kept f g"
  shows "p \<in> set (lf_proposals f) \<Longrightarrow> \<exists>p'\<in>set (lf_proposals g). proposal_later p p'"
    "d \<in> set (lf_dissents f) \<Longrightarrow> \<exists>d'\<in>set (lf_dissents g). dissent_later d d'"
    "q \<in> set (lf_questions f) \<Longrightarrow> \<exists>q'\<in>set (lf_questions g). question_later q q'"
    "c \<in> set (lf_decisions f) \<Longrightarrow> c \<in> set (lf_decisions g)"
    "i \<in> set (lf_run_ids f) \<Longrightarrow> i \<in> set (lf_run_ids g)"
  using assms unfolding ledger_kept_def by (auto dest: extends_by_member set_mono_prefix)

lemma kept_ids:
  assumes "ledger_kept f g"
  shows "pe_proposal_id ` set (lf_proposals f) \<subseteq> pe_proposal_id ` set (lf_proposals g)"
    "de_dissent_id ` set (lf_dissents f) \<subseteq> de_dissent_id ` set (lf_dissents g)"
    "ce_decision_id ` set (lf_decisions f) \<subseteq> ce_decision_id ` set (lf_decisions g)"
proof -
  show "pe_proposal_id ` set (lf_proposals f) \<subseteq> pe_proposal_id ` set (lf_proposals g)"
  proof (intro image_subsetI)
    fix x assume "x \<in> set (lf_proposals f)"
    from kept_members(1)[OF assms this] obtain y where "y \<in> set (lf_proposals g)" "proposal_later x y" by blast
    then show "pe_proposal_id x \<in> pe_proposal_id ` set (lf_proposals g)" using proposal_laterD(1)[of x y] by (metis imageI)
  qed
  show "de_dissent_id ` set (lf_dissents f) \<subseteq> de_dissent_id ` set (lf_dissents g)"
  proof (intro image_subsetI)
    fix x assume "x \<in> set (lf_dissents f)"
    from kept_members(2)[OF assms this] obtain y where "y \<in> set (lf_dissents g)" "dissent_later x y" by blast
    then show "de_dissent_id x \<in> de_dissent_id ` set (lf_dissents g)" using dissent_laterD(1)[of x y] by (metis imageI)
  qed
  show "ce_decision_id ` set (lf_decisions f) \<subseteq> ce_decision_id ` set (lf_decisions g)"
    using kept_members(4)[OF assms] by blast
qed

lemma proposal_ok_kept:
  assumes "ledger_kept f g" "proposal_ok f p"
  shows "proposal_ok g p"
proof -
  have "\<exists>q'\<in>set (lf_proposals g). pe_proposal_id q' = j \<and> pe_base_revision p < pe_base_revision q' \<and> pe_accepted_by q' \<noteq> None"
    if q: "q \<in> set (lf_proposals f)" "pe_proposal_id q = j" "pe_base_revision p < pe_base_revision q" "pe_accepted_by q \<noteq> None" for j q
  proof -
    obtain q' where "q' \<in> set (lf_proposals g)" "proposal_later q q'" using kept_members(1)[OF assms(1) q(1)] by blast
    with q proposal_laterD[of q q'] show ?thesis by auto
  qed
  moreover have "accepted_in f oc i c \<Longrightarrow> accepted_in g oc i c" for oc i c
    using kept_members(4)[OF assms(1)] by (auto simp: accepted_in_def)
  ultimately show ?thesis using assms(2) unfolding proposal_ok_def by blast
qed

lemma dissent_ok_kept:
  assumes "ledger_kept f g" "dissent_ok f d"
  shows "dissent_ok g d"
proof -
  have "\<forall>i\<in>set (de_overridden_by d). \<exists>c\<in>set (lf_decisions g). ce_decision_id c = i \<and> de_dissent_id d \<in> set (ce_overridden_dissent_ids c)"
    using assms kept_members(4)[OF assms(1)] unfolding dissent_ok_def by meson
  then show ?thesis
    using assms(2) kept_ids(1,3)[OF assms(1)] unfolding dissent_ok_def by (auto split: dissent_target_kind.splits)
qed

lemma decision_ok_kept:
  assumes "ledger_kept f g" "decision_ok f c"
  shows "decision_ok g c"
proof -
  have "\<exists>d'\<in>set (lf_dissents g). de_dissent_id d' = i \<and> de_sequence d' < n \<and> j \<in> set (de_overridden_by d')"
    if d: "d \<in> set (lf_dissents f)" "de_dissent_id d = i" "de_sequence d < n" "j \<in> set (de_overridden_by d)" for d i j and n :: int
  proof -
    obtain d' where "d' \<in> set (lf_dissents g)" "dissent_later d d'" using kept_members(2)[OF assms(1) d(1)] by blast
    with d dissent_laterD[of d d'] show ?thesis by auto
  qed
  then have "\<forall>i\<in>set (ce_overridden_dissent_ids c). \<exists>d\<in>set (lf_dissents g). de_dissent_id d = i
          \<and> de_sequence d < ce_sequence c \<and> ce_decision_id c \<in> set (de_overridden_by d)"
    using assms(2) unfolding decision_ok_def by blast
  moreover have q: "\<exists>q'\<in>set (lf_questions g). qe_question_id q' = i \<and> (b \<longrightarrow> qe_status q' = QuestionAnswered)"
    if q: "q \<in> set (lf_questions f)" "qe_question_id q = i" "b \<longrightarrow> qe_status q = QuestionAnswered" for q i b
  proof -
    obtain q' where "q' \<in> set (lf_questions g)" "question_later q q'" using kept_members(3)[OF assms(1) q(1)] by blast
    with q question_laterD[of q q'] show ?thesis by auto
  qed
  have "\<exists>q\<in>set (lf_questions g). qe_question_id q = ce_target_id c
            \<and> (ce_outcome c \<noteq> DEFER \<longrightarrow> qe_status q = QuestionAnswered)" if k: "ce_target_kind c = TargetQuestion"
  proof -
    obtain q' where "q' \<in> set (lf_questions f)" "qe_question_id q' = ce_target_id c"
      "ce_outcome c \<noteq> DEFER \<longrightarrow> qe_status q' = QuestionAnswered" using assms(2) k unfolding decision_ok_def by auto
    then show ?thesis by (rule q)
  qed
  ultimately show ?thesis
    using assms(2) kept_ids(1,2)[OF assms(1)] kept_members(5)[OF assms(1)]
    unfolding decision_ok_def by (auto split: decision_target_kind.splits)
qed

lemma question_ok_kept: "ledger_kept f g \<Longrightarrow> question_ok f q \<Longrightarrow> question_ok g q"
  using kept_ids(1)[of f g] unfolding question_ok_def by (cases "qe_related_proposal_id q") auto

lemma ledger_invI:
  assumes "ledger_inv f" "ledger_kept f g" "ledger_ids_distinct g"
    "\<forall>p\<in>set (lf_proposals g) - set (lf_proposals f). proposal_ok g p"
    "\<forall>d\<in>set (lf_dissents g) - set (lf_dissents f). dissent_ok g d"
    "\<forall>c\<in>set (lf_decisions g) - set (lf_decisions f). decision_ok g c"
    "\<forall>q\<in>set (lf_questions g) - set (lf_questions f). question_ok g q"
  shows "ledger_inv g"
  using assms proposal_ok_kept[OF assms(2)] dissent_ok_kept[OF assms(2)] decision_ok_kept[OF assms(2)]
    question_ok_kept[OF assms(2)]
  unfolding ledger_inv_def by blast

lemma ledger_inv_empty: "ledger_inv empty_ledger"
  by (simp add: ledger_inv_def ledger_ids_distinct_def empty_ledger_def)

section \<open>Payloads that were read\<close>

lemma decode_array_all:
  assumes "decode_array lo hi dec v = Some xs" "\<And>u x. dec u = Some x \<Longrightarrow> P x"
  shows "lo \<le> length xs" "length xs \<le> hi" "list_all P xs"
proof -
  obtain us where us: "map_o dec us = Some xs" using assms(1) by (auto simp: decode_array_def Option.bind_eq_Some_conv)
  then have "list_all2 (\<lambda>u x. dec u = Some x) us xs" by (simp add: map_o_Some_iff)
  then show "list_all P xs" using assms(2) by (auto simp: list_all2_conv_all_nth list_all_length)
  show "lo \<le> length xs" "length xs \<le> hi" using assms(1) by (auto simp: decode_array_def Option.bind_eq_Some_conv)
qed

lemma decode_unique_all:
  assumes "decode_unique lo hi dec v = Some xs" "\<And>u x. dec u = Some x \<Longrightarrow> P x"
  shows "lo \<le> length xs" "length xs \<le> hi" "list_all P xs" "distinct xs"
proof -
  have a: "decode_array lo hi dec v = Some xs" and u: "length xs = card (set xs)"
    using assms(1) by (auto simp: decode_unique_def Option.bind_eq_Some_conv)
  show "lo \<le> length xs" "length xs \<le> hi" "list_all P xs" using decode_array_all[OF a, of P] assms(2) by auto
  show "distinct xs" using u by (simp add: length_card_set_distinct)
qed

lemma decoded_fields:
  "decode_identifier v = Some x \<Longrightarrow> EventIdentifier x" "decode_item_text v = Some x \<Longrightarrow> DecisionItemText x"
  "decode_decision_text v = Some x \<Longrightarrow> DecisionText x" "decode_jcs v = Some x \<Longrightarrow> JcsDigest x"
  "decode_range i j v = Some n \<Longrightarrow> i \<le> n \<and> n \<le> j" "decode_literal names v = Some x \<Longrightarrow> List.member names x"
  by (auto simp: decode_identifier_def decode_item_text_def decode_decision_text_def decode_jcs_def decode_range_def
    decode_literal_def Option.bind_eq_Some_conv)

definition research_payload_ok :: "research_payload \<Rightarrow> bool" where
  "research_payload_ok payload \<longleftrightarrow> (case payload of
     ProposalSubmittedPayload p \<Rightarrow> EventIdentifier (pr_proposal_id p) \<and> BaseRevision (pr_base_revision p)
       \<and> JcsDigest (pr_spec_diff_digest p) \<and> JcsDigest (pr_proposed_spec_digest p) \<and> DecisionText (pr_rationale p)
   | DissentRecordedPayload p \<Rightarrow> EventIdentifier (dp_dissent_id p) \<and> EventIdentifier (dp_target_id p)
       \<and> 1 \<le> length (dp_objections p) \<and> length (dp_objections p) \<le> MAX_DECISION_LIST \<and> list_all objection_valid (dp_objections p)
   | DecisionRecordedPayload p \<Rightarrow> EventIdentifier (dc_decision_id p) \<and> EventIdentifier (dc_target_id p)
       \<and> DecisionText (dc_rationale p) \<and> length (dc_overridden_dissent_ids p) \<le> MAX_DECISION_LIST
       \<and> list_all EventIdentifier (dc_overridden_dissent_ids p)
   | QuestionAskedPayload p \<Rightarrow> EventIdentifier (qp_question_id p) \<and> DecisionText (qp_question p) \<and> DecisionText (qp_uncertainty p)
       \<and> DecisionText (qp_why_not_observable p)
       \<and> pred_option (\<lambda>os. length os \<le> MAX_DECISION_LIST \<and> list_all DecisionItemText os) (qp_options p)
       \<and> pred_option EventIdentifier (qp_related_proposal_id p)
   | QuestionAnsweredPayload p \<Rightarrow> answer_valid (ap_answer p) \<and> rights_valid (ap_rights p))"

lemma decode_proposal_ok: "decode_proposal v = Some p \<Longrightarrow> research_payload_ok p"
  using decoded_fields by (auto simp: decode_proposal_def decode_simps research_payload_ok_def BaseRevision_def)

lemma decode_dissent_ok: "decode_dissent v = Some p \<Longrightarrow> research_payload_ok p"
proof -
  have o: "decode_objection u = Some x \<Longrightarrow> objection_valid x" for u x
    using decoded_fields by (auto simp: decode_objection_def decode_simps objection_valid_def)
  show "decode_dissent v = Some p \<Longrightarrow> research_payload_ok p"
    using decoded_fields(1) decode_array_all[of 1 MAX_DECISION_LIST decode_objection _ _ objection_valid] o
    by (auto simp: decode_dissent_def decode_simps research_payload_ok_def)
qed

lemma decode_decision_ok: "decode_decision v = Some p \<Longrightarrow> research_payload_ok p"
  using decoded_fields decode_unique_all[of 0 MAX_DECISION_LIST decode_identifier _ _ EventIdentifier]
  by (auto simp: decode_decision_def decode_simps research_payload_ok_def)

lemma decode_question_ok: "decode_question v = Some p \<Longrightarrow> research_payload_ok p"
  using decoded_fields decode_unique_all[of 1 MAX_DECISION_LIST decode_item_text _ _ DecisionItemText]
  by (auto simp: decode_question_def decode_simps research_payload_ok_def omit_field_def split: option.splits)

lemma decode_answered_ok: "decode_answered v = Some p \<Longrightarrow> research_payload_ok p"
proof -
  have a: "decode_answer u = Some x \<Longrightarrow> answer_valid x" for u x
    using decoded_fields by (auto simp: decode_answer_def decode_simps omit_field_def exactly_one_answer_key_def answer_valid_def
      split: option.splits prod.splits)
  have u: "decode_uses w = Some us \<Longrightarrow> 1 \<le> length us \<and> length us \<le> MAX_ALLOWED_USES \<and> list_all (List.member DATA_USES) us" for w us
    using decode_array_all[of 1 MAX_ALLOWED_USES "decode_literal DATA_USES" w us "List.member DATA_USES"] decoded_fields(6)
    by (auto simp: decode_uses_def)
  have "List.member DATA_USES (U ''research-read'')" by code_simp
  then have r: "decode_rights u = Some x \<Longrightarrow> rights_valid x" for u x
    using decoded_fields(6) u by (auto simp: decode_rights_def decode_simps opt_field_def rights_valid_def MAX_ALLOWED_USES_def
      split: option.splits)
  show "decode_answered v = Some p \<Longrightarrow> research_payload_ok p"
    using a r by (auto simp: decode_answered_def decode_simps research_payload_ok_def)
qed

lemma parse_decision_payload_ok: "parse_decision_payload e = Inr p \<Longrightarrow> research_payload_ok p"
  using decode_proposal_ok decode_dissent_ok decode_decision_ok decode_question_ok decode_answered_ok
  by (auto simp: parse_decision_payload_def RESEARCH_PAYLOAD_MODELS_def result_simps split: option.splits if_splits)

section \<open>Each handler\<close>

definition ledger_upto :: "int \<Rightarrow> ledger_fold \<Rightarrow> bool" where
  "ledger_upto n f \<longleftrightarrow> (\<forall>q\<in>set (lf_questions f). qe_sequence q \<le> n)"

text \<open>A handler refuses with an error of the ledger, never with a failed check of an entry, or moves on.\<close>

definition ledger_outcome :: "ledger_fold \<Rightarrow> int \<Rightarrow> research_error + ledger_fold \<Rightarrow> bool" where
  "ledger_outcome f n r \<longleftrightarrow> (case r of Inl e \<Rightarrow> e \<noteq> LedgerValidationError
     | Inr g \<Rightarrow> ledger_inv g \<and> ledger_kept f g \<and> ledger_upto n g)"

lemma ledger_outcome_simps [simp]:
  "ledger_outcome f n (Inl e) \<longleftrightarrow> e \<noteq> LedgerValidationError"
  "ledger_outcome f n (Inr g) \<longleftrightarrow> ledger_inv g \<and> ledger_kept f g \<and> ledger_upto n g"
  "ledger_outcome f n (if b then r else r') \<longleftrightarrow> (if b then ledger_outcome f n r else ledger_outcome f n r')"
  by (simp_all add: ledger_outcome_def)

definition ledger_ready :: "ledger_fold \<Rightarrow> research_event \<Rightarrow> bool" where
  "ledger_ready f e \<longleftrightarrow> ledger_inv f \<and> (\<forall>q\<in>set (lf_questions f). qe_sequence q < sequence_of e) \<and> research_event_valid e"

lemma ledger_readyD:
  assumes "ledger_ready f e"
  shows "ledger_inv f" "ledger_upto (sequence_of e) f" "CloudEventsString (e_id e)" "LedgerSequence (sequence_of e)"
  using assms research_event_validD[of e] sequence_of_bounds[of e]
  by (auto simp: ledger_ready_def ledger_upto_def LedgerSequence_def)

lemma fresh_id: "\<not> list_ex (\<lambda>x. key x = i) xs \<longleftrightarrow> i \<notin> key ` set xs"
  by (auto simp: list_ex_iff)

lemma known_id: "list_ex (\<lambda>x. key x = i) xs \<longleftrightarrow> i \<in> key ` set xs"
  by (auto simp: list_ex_iff)

lemma apply_proposal_steps:
  assumes "ledger_ready f e" "research_payload_ok (ProposalSubmittedPayload p)"
  shows "ledger_outcome f (sequence_of e) (apply_proposal f e p)"
proof -
  note r = ledger_readyD[OF assms(1)]
  let ?x = "\<lparr>pe_proposal_id = pr_proposal_id p, pe_base_revision = pr_base_revision p, pe_spec_diff_digest = pr_spec_diff_digest p,
         pe_proposed_spec_digest = pr_proposed_spec_digest p, pe_rationale = pr_rationale p, pe_revision_state = PROPOSED,
         pe_event_id = e_id e, pe_sequence = sequence_of e, pe_accepted_by = None, pe_superseded_by = None\<rparr>"
  let ?g = "f\<lparr>lf_proposals := lf_proposals f @ [?x]\<rparr>"
  have v: "proposal_entry_valid ?x" using r assms(2) by (simp add: proposal_entry_valid_def research_payload_ok_def)
  have "ledger_inv ?g" if "pr_proposal_id p \<notin> pe_proposal_id ` set (lf_proposals f)"
  proof (rule ledger_invI[OF r(1) ledger_kept_snoc(1)])
    show "ledger_ids_distinct ?g" using r(1) that by (auto simp: ledger_inv_def ledger_ids_distinct_def)
    show "\<forall>p\<in>set (lf_proposals ?g) - set (lf_proposals f). proposal_ok ?g p"
      using v by (auto simp: proposal_ok_def proposal_shape_def)
  qed simp_all
  then show ?thesis
    using ledger_kept_snoc(1)[of f "[?x]"] r(2)
    by (cases "ed_experiment_revision (e_data e) = pr_base_revision p")
      (simp_all add: apply_proposal_def validated_def v known_id ledger_upto_def)
qed

lemma apply_dissent_steps:
  assumes "ledger_ready f e" "research_payload_ok (DissentRecordedPayload p)"
  shows "ledger_outcome f (sequence_of e) (apply_dissent f e p)"
proof -
  note r = ledger_readyD[OF assms(1)]
  let ?x = "\<lparr>de_dissent_id = dp_dissent_id p, de_target_kind = dp_target_kind p, de_target_id = dp_target_id p,
         de_objections = dp_objections p, de_overridden_by = [], de_event_id = e_id e, de_sequence = sequence_of e\<rparr>"
  let ?g = "f\<lparr>lf_dissents := lf_dissents f @ [?x]\<rparr>"
  have v: "dissent_entry_valid ?x" using r assms(2) by (simp add: dissent_entry_valid_def research_payload_ok_def)
  have "ledger_inv ?g" if "dp_dissent_id p \<notin> de_dissent_id ` set (lf_dissents f)" "dissent_target_resolves f p"
  proof (rule ledger_invI[OF r(1) ledger_kept_snoc(2)])
    show "ledger_ids_distinct ?g" using r(1) that by (auto simp: ledger_inv_def ledger_ids_distinct_def)
    show "\<forall>d\<in>set (lf_dissents ?g) - set (lf_dissents f). dissent_ok ?g d"
      using v that(2) by (auto simp: dissent_ok_def dissent_target_resolves_def known_id split: dissent_target_kind.splits)
  qed simp_all
  then show ?thesis
    using ledger_kept_snoc(2)[of f "[?x]"] r(2)
    by (simp add: apply_dissent_def validated_def v known_id ledger_upto_def)
qed

lemma apply_question_asked_steps:
  assumes "ledger_ready f e" "research_payload_ok (QuestionAskedPayload p)"
  shows "ledger_outcome f (sequence_of e) (apply_question_asked f e p)"
proof -
  note r = ledger_readyD[OF assms(1)]
  let ?x = "\<lparr>qe_question_id = qp_question_id p, qe_question = qp_question p, qe_uncertainty = qp_uncertainty p,
         qe_why_not_observable = qp_why_not_observable p,
         qe_options = (case qp_options p of None \<Rightarrow> [] | Some os \<Rightarrow> os), qe_blocking = qp_blocking p,
         qe_related_proposal_id = qp_related_proposal_id p, qe_status = QuestionOpen, qe_event_id = e_id e,
         qe_sequence = sequence_of e, qe_answer = None\<rparr>"
  let ?g = "f\<lparr>lf_questions := lf_questions f @ [?x]\<rparr>"
  have v: "question_entry_valid ?x"
    using r assms(2) by (auto simp: question_entry_valid_def research_payload_ok_def answer_fields_match_status_def split: option.splits)
  have "ledger_inv ?g" if "qp_question_id p \<notin> qe_question_id ` set (lf_questions f)"
    "pred_option (\<lambda>i. i \<in> pe_proposal_id ` set (lf_proposals f)) (qp_related_proposal_id p)"
  proof (rule ledger_invI[OF r(1) ledger_kept_snoc(3)])
    show "ledger_ids_distinct ?g" using r(1) that by (auto simp: ledger_inv_def ledger_ids_distinct_def)
    show "\<forall>q\<in>set (lf_questions ?g) - set (lf_questions f). question_ok ?g q"
      using v that(2) by (auto simp: question_ok_def)
  qed simp_all
  then show ?thesis
    using ledger_kept_snoc(3)[of f "[?x]"] r(2)
    by (auto simp: apply_question_asked_def validated_def v known_id ledger_upto_def split: option.splits)
qed

lemma find_question_Some: "find_question f i = Some q \<Longrightarrow> q \<in> set (lf_questions f) \<and> qe_question_id q = i"
  and find_dissent_Some: "find_dissent f i = Some d \<Longrightarrow> d \<in> set (lf_dissents f) \<and> de_dissent_id d = i"
  unfolding find_question_def find_dissent_def by (auto dest: find_first_SomeD)

lemma apply_question_answered_steps:
  assumes "ledger_ready f e" "research_payload_ok (QuestionAnsweredPayload p)"
  shows "ledger_outcome f (sequence_of e) (apply_question_answered f e p)"
proof (cases "ed_run_id (e_data e) = None")
  case True
  show ?thesis
  proof (cases "find_question f (ap_question_id p)")
    case None
    then show ?thesis using True by (simp add: apply_question_answered_def)
  next
    case (Some q)
    note r = ledger_readyD[OF assms(1)] and q = find_question_Some[OF Some]
    let ?y = "q\<lparr>qe_status := QuestionAnswered, qe_answer := Some \<lparr>ae_event_id = e_id e, ae_sequence = sequence_of e,
        ae_answer = ap_answer p, ae_rights = ap_rights p\<rparr>\<rparr>"
    let ?qs = "List.map (\<lambda>x. if qe_question_id x = ap_question_id p then ?y else x) (lf_questions f)"
    let ?g = "f\<lparr>lf_questions := ?qs\<rparr>"
    have d: "distinct (List.map qe_question_id (lf_questions f))" using r(1) by (simp add: ledger_inv_def ledger_ids_distinct_def)
    have qok: "question_ok f q" using r(1) q by (simp add: ledger_inv_def)
    have go: "ledger_inv ?g \<and> ledger_kept f ?g \<and> ledger_upto (sequence_of e) ?g"
      if open_q: "qe_status q \<noteq> QuestionAnswered" and opt: "case ap_answer p of AnswerOption x \<Rightarrow> x \<in> set (qe_options q) | AnswerText _ \<Rightarrow> True"
    proof -
      have later: "question_later q ?y" using open_q by (cases q) (simp add: question_later_def)
      note rep = replace_one[OF d q[THEN conjunct1] _ later entry_later_refl(3), simplified, unfolded q[THEN conjunct2]]
      have k: "ledger_kept f ?g" using extends_by_same[OF rep(1)] by (simp add: ledger_kept_def)
      have "question_entry_valid ?y"
        using qok r assms(1,2) q by (auto simp: question_ok_def question_entry_valid_def answer_fields_match_status_def
          research_payload_ok_def ledger_ready_def)
      then have yok: "question_ok f ?y" using qok opt by (auto simp: question_ok_def split: question_answer.splits)
      have "ledger_inv ?g"
      proof (rule ledger_invI[OF r(1) k])
        have "List.map qe_question_id ?qs = List.map qe_question_id (lf_questions f)" using q by auto
        then show "ledger_ids_distinct ?g" using r(1) by (simp add: ledger_inv_def ledger_ids_distinct_def del: map_map)
        show "\<forall>x\<in>set (lf_questions ?g) - set (lf_questions f). question_ok ?g x"
          using rep(2) question_ok_kept[OF k yok] by auto
      qed simp_all
      moreover have "ledger_upto (sequence_of e) ?g" using r(2) rep(2) q by (auto simp: ledger_upto_def)
      ultimately show ?thesis using k by simp
    qed
    show ?thesis using True Some go by (auto simp: apply_question_answered_def Let_def split: question_answer.splits)
  qed
qed (simp add: apply_question_answered_def)

section \<open>Decisions\<close>

definition marked :: "decision_payload \<Rightarrow> dissent_entry \<Rightarrow> dissent_entry" where
  "marked p x = (if List.member (dc_overridden_dissent_ids p) (de_dissent_id x)
     then x\<lparr>de_overridden_by := de_overridden_by x @ [dc_decision_id p]\<rparr> else x)"

lemma map_r_Inl: "map_r f xs = Inl e \<Longrightarrow> \<exists>x\<in>set xs. f x = Inl e"
  by (induction xs) (auto simp: result_simps)

lemma mark_dissent_result:
  assumes "dissent_entry_valid x" "EventIdentifier (dc_decision_id p)"
  shows "mark_dissent p x \<noteq> Inl LedgerValidationError"
    "mark_dissent p x = Inr y \<Longrightarrow> y = marked p x \<and> dissent_entry_valid y"
  using assms by (auto simp: mark_dissent_def marked_def validated_def dissent_entry_valid_def Let_def split: if_splits)

lemma mark_overridden_result:
  assumes "\<forall>x\<in>set ds. dissent_entry_valid x" "EventIdentifier (dc_decision_id p)"
  shows "mark_overridden_dissents ds p \<noteq> Inl LedgerValidationError"
    "mark_overridden_dissents ds p = Inr ds' \<Longrightarrow> ds' = List.map (marked p) ds \<and> (\<forall>y\<in>set ds'. dissent_entry_valid y)"
proof -
  show "mark_overridden_dissents ds p \<noteq> Inl LedgerValidationError"
    using mark_dissent_result(1)[OF _ assms(2)] assms(1) map_r_Inl[of "mark_dissent p" ds LedgerValidationError]
    by (auto simp: mark_overridden_dissents_def)
  assume r: "mark_overridden_dissents ds p = Inr ds'"
  show "ds' = List.map (marked p) ds \<and> (\<forall>y\<in>set ds'. dissent_entry_valid y)"
  proof (cases "dc_overridden_dissent_ids p = []")
    case True
    then have "List.map (marked p) ds = ds" by (simp add: marked_def map_idI)
    then show ?thesis using True r assms by (simp add: mark_overridden_dissents_def)
  next
    case False
    then have l: "list_all2 (\<lambda>x y. mark_dissent p x = Inr y) ds ds'" using r by (simp add: mark_overridden_dissents_def map_r_Inr_iff)
    have "list_all2 (\<lambda>x y. y = marked p x \<and> dissent_entry_valid y) ds ds'"
      using l by (rule list.rel_mono_strong) (use mark_dissent_result(2) assms in blast)
    then show ?thesis by (auto simp: list_all2_conv_all_nth in_set_conv_nth intro!: nth_equalityI)
  qed
qed

lemma marked_simps [simp]: "de_dissent_id (marked p x) = de_dissent_id x" "de_sequence (marked p x) = de_sequence x"
    "de_target_kind (marked p x) = de_target_kind x" "de_target_id (marked p x) = de_target_id x"
    "dissent_later x (marked p x)"
  by (cases x; simp add: marked_def dissent_later_def)+

definition touches :: "decision_payload \<Rightarrow> bool" where
  "touches p \<longleftrightarrow> dc_target_kind p = TargetProposal \<and> (dc_outcome p = ACCEPT \<or> dc_outcome p = REJECT)"

lemma proposal_outcome_result:
  shows "apply_proposal_outcome ps p \<noteq> Inl LedgerValidationError"
    "apply_proposal_outcome ps p = Inr ps' \<Longrightarrow> (\<not> touches p \<and> ps' = ps) \<or> (touches p \<and> (\<exists>t\<in>set ps. pe_proposal_id t = dc_target_id p
        \<and> (pe_revision_state t = PROPOSED \<or> pe_revision_state t = VALIDATED)
        \<and> ps' = List.map (decided_proposal p (pe_base_revision t)) ps))"
  by (auto simp: apply_proposal_outcome_def touches_def dest: find_first_SomeD split: option.splits if_splits)

lemma decided_ids [simp]: "pe_proposal_id (decided_proposal p b x) = pe_proposal_id x"
  "pe_base_revision (decided_proposal p b x) = pe_base_revision x"
  by (simp_all add: decided_proposal_def)

lemma decided_later:
  assumes "proposal_shape x" "pe_proposal_id x = dc_target_id p \<Longrightarrow> pe_revision_state x = PROPOSED"
  shows "proposal_later x (decided_proposal p b x)"
  using assms by (cases x) (auto simp: decided_proposal_def proposal_later_def proposal_shape_def)

lemma decided_accepted: "pe_accepted_by x \<noteq> None \<Longrightarrow> pe_accepted_by (decided_proposal p b x) \<noteq> None"
  by (simp add: decided_proposal_def)

text \<open>A proposal after the decision, given the state the decision leads to.\<close>

lemma decided_ok:
  assumes x: "proposal_ok f x" "x \<in> set (lf_proposals f)" and g: "ledger_kept f g"
    and t: "EventIdentifier (dc_target_id p)" "t \<in> set (lf_proposals f)" "pe_proposal_id t = dc_target_id p" "pe_revision_state t = PROPOSED"
    and d: "distinct (List.map pe_proposal_id (lf_proposals f))" and touch: "touches p" "EventIdentifier (dc_decision_id p)"
    and ps: "lf_proposals g = List.map (decided_proposal p (pe_base_revision t)) (lf_proposals f)"
    and c: "accepted_in g (dc_outcome p) (dc_target_id p) c" "ce_decision_id c = dc_decision_id p"
  shows "proposal_ok g (decided_proposal p (pe_base_revision t) x)"
proof -
  have old: "proposal_ok g x" by (rule proposal_ok_kept[OF g x(1)])
  have acc: "decided_proposal p (pe_base_revision t) t \<in> set (lf_proposals g)" using t(2) ps by simp
  show ?thesis
  proof (cases "pe_proposal_id x = dc_target_id p")
    case True
    then have "x = t" using d t(2,3) x(2) by (metis distinct_map inj_onD)
    then have "pe_accepted_by x = None" "pe_superseded_by x = None"
      using t(4) old by (auto simp: proposal_ok_def proposal_shape_def)
    then show ?thesis
      using True old touch c by (cases "dc_outcome p = ACCEPT")
        (auto simp: proposal_ok_def decided_proposal_def proposal_entry_valid_def proposal_shape_def touches_def)
  next
    case False
    show ?thesis
    proof (cases "dc_outcome p = ACCEPT \<and> pe_revision_state x = ACCEPTED \<and> pe_base_revision x < pe_base_revision t")
      case True
      let ?y = "x\<lparr>pe_revision_state := SUPERSEDED, pe_superseded_by := Some (dc_target_id p)\<rparr>"
      have y: "decided_proposal p (pe_base_revision t) x = ?y" using True False by (simp add: decided_proposal_def)
      have "\<exists>q\<in>set (lf_proposals g). pe_proposal_id q = dc_target_id p \<and> pe_base_revision x < pe_base_revision q \<and> pe_accepted_by q \<noteq> None"
        using acc True t(3) by (intro bexI[OF _ acc]) (simp add: decided_proposal_def)
      then show ?thesis
        using old True t(1) unfolding y by (auto simp: proposal_ok_def proposal_entry_valid_def proposal_shape_def)
    qed (use False old in \<open>auto simp: decided_proposal_def\<close>)
  qed
qed

lemma check_overridden_result:
  assumes "fold_r (\<lambda>_ i. check_overridden f n i) () is = r"
  shows "r \<noteq> Inl LedgerValidationError"
    "r = Inr () \<Longrightarrow> \<forall>i\<in>set is. \<exists>d\<in>set (lf_dissents f). de_dissent_id d = i \<and> de_sequence d < n"
  using assms by (induction "is") (auto simp: check_overridden_def result_simps dest!: find_dissent_Some split: option.splits if_splits)

lemma check_question_result:
  "check_question_target f p \<noteq> Inl LedgerValidationError"
  "check_question_target f p = Inr u \<Longrightarrow> dc_target_kind p = TargetQuestion \<Longrightarrow>
     \<exists>q\<in>set (lf_questions f). qe_question_id q = dc_target_id p \<and> (dc_outcome p \<noteq> DEFER \<longrightarrow> qe_status q = QuestionAnswered)"
  using question_status.exhaust
  by (auto simp: check_question_target_def dest!: find_question_Some split: option.splits if_splits)

definition decision_of :: "research_event \<Rightarrow> decision_payload \<Rightarrow> decision_entry" where
  "decision_of e p = \<lparr>ce_decision_id = dc_decision_id p, ce_target_kind = dc_target_kind p, ce_target_id = dc_target_id p,
     ce_outcome = dc_outcome p, ce_rationale = dc_rationale p, ce_overridden_dissent_ids = dc_overridden_dissent_ids p,
     ce_event_id = e_id e, ce_sequence = sequence_of e\<rparr>"

definition decided_by :: "ledger_fold \<Rightarrow> research_event \<Rightarrow> decision_payload \<Rightarrow> ledger_fold \<Rightarrow> bool" where
  "decided_by f e p g \<longleftrightarrow> dc_decision_id p \<notin> ce_decision_id ` set (lf_decisions f) \<and> decision_target_resolves f p
     \<and> check_question_target f p = Inr ()
     \<and> (\<forall>i\<in>set (dc_overridden_dissent_ids p). \<exists>d\<in>set (lf_dissents f). de_dissent_id d = i \<and> de_sequence d < sequence_of e)
     \<and> decision_entry_valid (decision_of e p)
     \<and> apply_proposal_outcome (lf_proposals f) p = Inr (lf_proposals g)
     \<and> mark_overridden_dissents (lf_dissents f) p = Inr (lf_dissents g)
     \<and> lf_decisions g = lf_decisions f @ [decision_of e p] \<and> lf_questions g = lf_questions f \<and> lf_run_ids g = lf_run_ids f"

lemma apply_decision_cases:
  assumes "ledger_ready f e" "research_payload_ok (DecisionRecordedPayload p)"
  shows "apply_decision f e p \<noteq> Inl LedgerValidationError" "apply_decision f e p = Inr g \<Longrightarrow> decided_by f e p g"
proof -
  note r = ledger_readyD[OF assms(1)]
  have v: "decision_entry_valid (decision_of e p)"
    using r assms(2) by (simp add: decision_entry_valid_def research_payload_ok_def decision_of_def)
  have ds: "\<forall>x\<in>set (lf_dissents f). dissent_entry_valid x" using r(1) by (auto simp: ledger_inv_def dissent_ok_def)
  have i: "EventIdentifier (dc_decision_id p)" using assms(2) by (simp add: research_payload_ok_def)
  note fold = check_overridden_result[OF refl, of f "sequence_of e" "dc_overridden_dissent_ids p"]
  show "apply_decision f e p \<noteq> Inl LedgerValidationError"
    using check_question_result(1)[of f p] fold(1) proposal_outcome_result(1)[of "lf_proposals f" p] mark_overridden_result(1)[OF ds i] v
    unfolding apply_decision_def decision_of_def[symmetric] by (auto simp: validated_def result_simps)
  assume "apply_decision f e p = Inr g"
  then show "decided_by f e p g"
    using fold(2) v unfolding apply_decision_def decision_of_def[symmetric]
    by (auto simp: validated_def result_simps decided_by_def known_id split: if_splits)
qed

lemma decided_by_kept:
  assumes inv: "ledger_inv f" and d: "decided_by f e p g" and id: "EventIdentifier (dc_decision_id p)"
  shows "ledger_kept f g" "ledger_ids_distinct g"
proof -
  have shape: "proposal_shape x" if "x \<in> set (lf_proposals f)" for x using inv that by (simp add: ledger_inv_def proposal_ok_def)
  have dist: "distinct (List.map pe_proposal_id (lf_proposals f))" using inv by (simp add: ledger_inv_def ledger_ids_distinct_def)
  have ds: "lf_dissents g = List.map (marked p) (lf_dissents f)"
    using mark_overridden_result(2)[OF _ id, of "lf_dissents f"] inv d by (auto simp: ledger_inv_def dissent_ok_def decided_by_def)
  from d have "apply_proposal_outcome (lf_proposals f) p = Inr (lf_proposals g)" by (simp add: decided_by_def)
  note r = proposal_outcome_result(2)[OF this]
  have ps: "list_all2 proposal_later (lf_proposals f) (lf_proposals g) \<and>
      List.map pe_proposal_id (lf_proposals g) = List.map pe_proposal_id (lf_proposals f)"
  proof (cases "touches p")
    case True
    with r obtain t where t: "t \<in> set (lf_proposals f)" "pe_proposal_id t = dc_target_id p"
        "pe_revision_state t = PROPOSED \<or> pe_revision_state t = VALIDATED"
      and g: "lf_proposals g = List.map (decided_proposal p (pe_base_revision t)) (lf_proposals f)" by blast
    have "pe_revision_state t = PROPOSED" using t(3) shape[OF t(1)] by (auto simp: proposal_shape_def)
    then have "pe_revision_state x = PROPOSED" if "x \<in> set (lf_proposals f)" "pe_proposal_id x = dc_target_id p" for x
      using dist t(1,2) that by (metis distinct_map inj_onD)
    then show ?thesis using decided_later shape by (auto simp: g list.rel_map list_all2_same)
  qed (use r in \<open>simp add: list_all2_same\<close>)
  show "ledger_kept f g"
    using extends_by_same[OF conjunct1[OF ps]] d
    by (auto simp: ledger_kept_def ds decided_by_def list.rel_map list_all2_same intro!: extends_by_same)
  show "ledger_ids_distinct g"
    using inv d conjunct2[OF ps]
    by (auto simp: ledger_inv_def ledger_ids_distinct_def ds decided_by_def comp_def decision_of_def image_iff)
qed

lemma decided_by_inv:
  assumes inv: "ledger_inv f" and d: "decided_by f e p g" and id: "EventIdentifier (dc_decision_id p)"
  shows "ledger_inv g"
proof -
  note k = decided_by_kept[OF inv d id]
  have dist: "distinct (List.map pe_proposal_id (lf_proposals f))" using inv by (simp add: ledger_inv_def ledger_ids_distinct_def)
  have ds: "lf_dissents g = List.map (marked p) (lf_dissents f)" "\<forall>y\<in>set (lf_dissents g). dissent_entry_valid y"
    using mark_overridden_result(2)[OF _ id, of "lf_dissents f"] inv d by (auto simp: ledger_inv_def dissent_ok_def decided_by_def)
  let ?c = "decision_of e p"
  have c: "?c \<in> set (lf_decisions g)" using d by (simp add: decided_by_def)
  have target: "EventIdentifier (dc_target_id p)" using d by (simp add: decided_by_def decision_entry_valid_def decision_of_def)
  show ?thesis
  proof (rule ledger_invI[OF inv k])
    from d have "apply_proposal_outcome (lf_proposals f) p = Inr (lf_proposals g)" by (simp add: decided_by_def)
    note r = proposal_outcome_result(2)[OF this]
    show "\<forall>x\<in>set (lf_proposals g) - set (lf_proposals f). proposal_ok g x"
    proof (cases "touches p")
      case touch: True
      with r obtain t where t: "t \<in> set (lf_proposals f)" "pe_proposal_id t = dc_target_id p"
          "pe_revision_state t = PROPOSED \<or> pe_revision_state t = VALIDATED"
        and g: "lf_proposals g = List.map (decided_proposal p (pe_base_revision t)) (lf_proposals f)" by blast
      have s: "pe_revision_state t = PROPOSED"
        using t(1,3) inv by (auto simp: ledger_inv_def proposal_ok_def proposal_shape_def)
      have a: "accepted_in g (dc_outcome p) (dc_target_id p) ?c" "ce_decision_id ?c = dc_decision_id p"
        using c touch by (auto simp: accepted_in_def decision_of_def touches_def)
      have "proposal_ok g (decided_proposal p (pe_base_revision t) x)" if "x \<in> set (lf_proposals f)" for x
        using inv that by (intro decided_ok[OF _ that k(1) target t(1,2) s dist touch id g a]) (simp add: ledger_inv_def)
      then show ?thesis by (auto simp: g)
    qed (use r in simp)
  next
    show "\<forall>y\<in>set (lf_dissents g) - set (lf_dissents f). dissent_ok g y"
    proof
      fix y assume "y \<in> set (lf_dissents g) - set (lf_dissents f)"
      then obtain x where x: "x \<in> set (lf_dissents f)" "y = marked p x" and y: "y \<in> set (lf_dissents g)" using ds(1) by auto
      have "dissent_ok g x" using inv x(1) by (intro dissent_ok_kept[OF k(1)]) (simp add: ledger_inv_def)
      then show "dissent_ok g y"
        using x(2) y ds(2) bexI[OF _ c, of "\<lambda>c. ce_decision_id c = dc_decision_id p \<and> de_dissent_id x \<in> set (ce_overridden_dissent_ids c)"]
        by (auto simp: dissent_ok_def marked_def decision_of_def split: if_splits dissent_target_kind.splits)
    qed
  next
    have "\<exists>y\<in>set (lf_dissents g). de_dissent_id y = i \<and> de_sequence y < sequence_of e \<and> dc_decision_id p \<in> set (de_overridden_by y)"
      if i: "i \<in> set (dc_overridden_dissent_ids p)" for i
    proof -
      obtain x where "x \<in> set (lf_dissents f)" "de_dissent_id x = i" "de_sequence x < sequence_of e"
        using d i by (auto simp: decided_by_def)
      moreover from this i have "dc_decision_id p \<in> set (de_overridden_by (marked p x))" by (simp add: marked_def)
      moreover have "marked p x \<in> set (lf_dissents g)" using calculation(1) by (simp add: ds(1))
      ultimately show ?thesis by (metis marked_simps(1,2))
    qed
    moreover have "case dc_target_kind p of
          TargetProposal \<Rightarrow> dc_target_id p \<in> pe_proposal_id ` set (lf_proposals g)
        | TargetDissent \<Rightarrow> dc_target_id p \<in> de_dissent_id ` set (lf_dissents g)
        | TargetRun \<Rightarrow> dc_target_id p \<in> set (lf_run_ids g)
        | TargetQuestion \<Rightarrow> \<exists>q\<in>set (lf_questions g). qe_question_id q = dc_target_id p
            \<and> (dc_outcome p \<noteq> DEFER \<longrightarrow> qe_status q = QuestionAnswered)"
      using d kept_ids(1,2)[OF k(1)] check_question_result(2)[of f p "()"]
      by (auto simp: decided_by_def decision_target_resolves_def known_id split: decision_target_kind.splits)
    ultimately show "\<forall>x\<in>set (lf_decisions g) - set (lf_decisions f). decision_ok g x"
      using d by (cases "dc_target_kind p") (auto simp: decided_by_def decision_ok_def decision_of_def)
  qed (use d in \<open>simp add: decided_by_def\<close>)
qed

lemma apply_decision_steps:
  assumes "ledger_ready f e" "research_payload_ok (DecisionRecordedPayload p)"
  shows "ledger_outcome f (sequence_of e) (apply_decision f e p)"
proof (cases "apply_decision f e p")
  case (Inr g)
  then have d: "decided_by f e p g" by (rule apply_decision_cases(2)[OF assms])
  have id: "EventIdentifier (dc_decision_id p)" using assms(2) by (simp add: research_payload_ok_def)
  have "ledger_upto (sequence_of e) g" using ledger_readyD(2)[OF assms(1)] d by (simp add: ledger_upto_def decided_by_def)
  then show ?thesis
    using decided_by_inv[OF ledger_readyD(1)[OF assms(1)] d id] decided_by_kept(1)[OF ledger_readyD(1)[OF assms(1)] d id] Inr
    by simp
qed (use apply_decision_cases(1)[OF assms] in simp)

section \<open>One event\<close>

lemma observe_run_steps:
  assumes "ledger_ready f e"
  shows "ledger_ready (observe_run f e) e" "ledger_kept f (observe_run f e)"
proof -
  show k: "ledger_kept f (observe_run f e)" by (simp add: observe_run_def ledger_kept_snoc split: option.split)
  have "lf_proposals (observe_run f e) = lf_proposals f" "lf_dissents (observe_run f e) = lf_dissents f"
    "lf_decisions (observe_run f e) = lf_decisions f" "lf_questions (observe_run f e) = lf_questions f"
    by (simp_all add: observe_run_def split: option.split)
  note same = this
  have "ledger_inv (observe_run f e)"
    using assms by (intro ledger_invI[OF _ k]) (simp_all add: same ledger_ready_def ledger_inv_def ledger_ids_distinct_def)
  then show "ledger_ready (observe_run f e) e" using assms by (simp add: ledger_ready_def same)
qed

lemma ledger_outcome_from:
  "ledger_kept f g \<Longrightarrow> ledger_outcome g n r \<Longrightarrow> ledger_outcome f n r"
  by (auto simp: ledger_outcome_def intro: ledger_kept_trans split: sum.splits)

lemma apply_research_payload_steps:
  assumes "ledger_ready f e" "research_payload_ok payload"
  shows "ledger_outcome f (sequence_of e) (apply_research_payload f e payload)"
  using apply_proposal_steps[OF assms(1)] apply_dissent_steps[OF assms(1)] apply_decision_steps[OF assms(1)]
    apply_question_asked_steps[OF assms(1)] apply_question_answered_steps[OF assms(1)] assms(2)
  by (cases payload) (simp_all add: apply_research_payload_def)

lemma apply_ledger_step:
  assumes "ledger_ready f e"
  shows "ledger_outcome f (sequence_of e) (apply_ledger project_id f e)"
proof -
  note o = observe_run_steps[OF assms]
  have plain: "ledger_outcome f (sequence_of e) (Inr f)"
    using ledger_readyD[OF assms] by simp
  have seen: "ledger_outcome f (sequence_of e) (Inr (observe_run f e))"
    using ledger_readyD[OF o(1)] o(2) by simp
  have none: "require_actor_kind e \<noteq> Inl LedgerValidationError" "parse_decision_payload e \<noteq> Inl LedgerValidationError"
    by (auto simp: require_actor_kind_def parse_decision_payload_def result_simps split: option.splits if_splits)
  show ?thesis
    unfolding apply_ledger_def Let_def
    using plain seen none ledger_outcome_from[OF o(2) apply_research_payload_steps[OF o(1)]] parse_decision_payload_ok[of e]
    by (cases "require_actor_kind e"; cases "parse_decision_payload e") (auto simp: result_simps)
qed

section \<open>A log\<close>

definition ledger_log :: "research_event list \<Rightarrow> bool" where
  "ledger_log es \<longleftrightarrow> sorted_wrt (\<lambda>a b. sequence_of a < sequence_of b) es \<and> (\<forall>e\<in>set es. research_event_valid e)"

lemma ledger_fold_steps:
  assumes "ledger_log es" "ledger_inv f" "ledger_upto m f" "\<forall>e\<in>set es. m < sequence_of e \<and> sequence_of e \<le> n" "m \<le> n"
  shows "ledger_outcome f n (fold_r (apply_ledger p) f es)"
  using assms
proof (induction es arbitrary: f m)
  case Nil
  then show ?case by (auto simp: ledger_upto_def)
next
  case (Cons e es)
  have "ledger_ready f e" using Cons.prems by (auto simp: ledger_ready_def ledger_log_def ledger_upto_def)
  note step = apply_ledger_step[OF this, of p]
  show ?case
  proof (cases "apply_ledger p f e")
    case (Inr g)
    then have g: "ledger_inv g" "ledger_kept f g" "ledger_upto (sequence_of e) g" using step by simp_all
    have "ledger_outcome g n (fold_r (apply_ledger p) g es)"
      using Cons.prems g by (intro Cons.IH[of _ "sequence_of e"]) (auto simp: ledger_log_def)
    then show ?thesis using Inr ledger_outcome_from[OF g(2)] by simp
  qed (use step in simp)
qed

lemma ledger_log_bounds:
  assumes "ledger_log es"
  obtains n where "0 \<le> n" "\<forall>e\<in>set es. 0 < sequence_of e \<and> sequence_of e \<le> n" "n \<le> CLOUD_EVENTS_INTEGER_MAX"
proof
  show "\<forall>e\<in>set es. 0 < sequence_of e \<and> sequence_of e \<le> CLOUD_EVENTS_INTEGER_MAX"
    using assms sequence_of_bounds research_event_validD(1) unfolding ledger_log_def by fastforce
qed (simp_all add: CLOUD_EVENTS_INTEGER_MAX_def)

lemma reachable_ledger:
  assumes "ledger_log es"
  shows "fold_r (apply_ledger p) empty_ledger es \<noteq> Inl LedgerValidationError"
    "fold_r (apply_ledger p) empty_ledger es = Inr f \<Longrightarrow> ledger_inv f"
proof -
  obtain n where n: "0 \<le> n" "\<forall>e\<in>set es. 0 < sequence_of e \<and> sequence_of e \<le> n" by (rule ledger_log_bounds[OF assms])
  have "ledger_upto 0 empty_ledger" by (simp add: ledger_upto_def empty_ledger_def)
  from ledger_fold_steps[OF assms ledger_inv_empty this n(2,1), where p = p]
  show "fold_r (apply_ledger p) empty_ledger es \<noteq> Inl LedgerValidationError"
    "fold_r (apply_ledger p) empty_ledger es = Inr f \<Longrightarrow> ledger_inv f" by (auto simp: ledger_outcome_def split: sum.splits)
qed

lemma reachable_kept:
  assumes "ledger_log (es @ fs)" "fold_r (apply_ledger p) empty_ledger es = Inr f" "fold_r (apply_ledger p) f fs = Inr g"
  shows "ledger_kept f g"
proof -
  obtain n where n: "0 \<le> n" "\<forall>e\<in>set (es @ fs). 0 < sequence_of e \<and> sequence_of e \<le> n" by (rule ledger_log_bounds[OF assms(1)])
  have l: "ledger_log es" "ledger_log fs" using assms(1) by (auto simp: ledger_log_def sorted_wrt_append)
  let ?m = "if es = [] then 0 else sequence_of (last es)"
  have m: "\<forall>e\<in>set es. sequence_of e \<le> ?m" "\<forall>e\<in>set fs. ?m < sequence_of e" "0 \<le> ?m" "?m \<le> n"
  proof -
    show "\<forall>e\<in>set es. sequence_of e \<le> ?m"
      using l(1) by (cases es rule: rev_cases) (auto simp: ledger_log_def sorted_wrt_append less_imp_le)
    show "\<forall>e\<in>set fs. ?m < sequence_of e" "0 \<le> ?m" "?m \<le> n"
      using assms(1) n by (auto simp: ledger_log_def sorted_wrt_append less_imp_le)
  qed
  have "ledger_outcome empty_ledger ?m (Inr f)"
    using ledger_fold_steps[OF l(1) ledger_inv_empty, of 0 ?m p] m n assms(2) by (simp add: ledger_upto_def empty_ledger_def)
  then show ?thesis using ledger_fold_steps[OF l(2), of f ?m n p] m n assms(3) by simp
qed

section \<open>The document\<close>

lemma answered_or_open: "length (filter (\<lambda>q. qe_status q = QuestionAnswered) qs) + length (filter (\<lambda>q. qe_status q = QuestionOpen) qs) = length qs"
proof (induction qs)
  case (Cons q qs)
  then show ?case by (cases "qe_status q") auto
qed simp

lemma ledger_snapshot_ok:
  assumes "ledger_inv f" "EventIdentifier p" "LedgerSequence n"
  shows "ledger_snapshot p f n = Inr (ledger_of p f n)"
proof -
  have "list_all proposal_entry_valid (lf_proposals f)" "list_all dissent_entry_valid (lf_dissents f)"
    "list_all decision_entry_valid (lf_decisions f)" "list_all question_entry_valid (lf_questions f)"
    using assms(1) by (auto simp: ledger_inv_def list_all_iff proposal_ok_def dissent_ok_def decision_ok_def question_ok_def)
  moreover have "counters_match_entries (ledger_of p f n)"
    using answered_or_open[of "lf_questions f"] by (simp add: counters_match_entries_def ledger_of_def Let_def)
  ultimately show ?thesis
    using assms(2,3) by (simp add: ledger_snapshot_def validated_def research_ledger_valid_def) (simp add: ledger_of_def Let_def)
qed

section \<open>Whose facts the entries are\<close>

definition ledger_answers :: "question_entry list \<Rightarrow> answer_entry set" where
  "ledger_answers qs = {a. \<exists>q\<in>set qs. qe_answer q = Some a}"

definition entry_sources :: "ledger_fold \<Rightarrow> (pystr \<times> pystr \<times> int) set" where
  "entry_sources f = (\<lambda>x. (TYPE_PROPOSAL_SUBMITTED, pe_event_id x, pe_sequence x)) ` set (lf_proposals f)
     \<union> (\<lambda>x. (TYPE_DISSENT_RECORDED, de_event_id x, de_sequence x)) ` set (lf_dissents f)
     \<union> (\<lambda>x. (TYPE_DECISION_RECORDED, ce_event_id x, ce_sequence x)) ` set (lf_decisions f)
     \<union> (\<lambda>x. (TYPE_QUESTION_ASKED, qe_event_id x, qe_sequence x)) ` set (lf_questions f)
     \<union> (\<lambda>x. (TYPE_QUESTION_ANSWERED, ae_event_id x, ae_sequence x)) ` ledger_answers (lf_questions f)"

definition event_source :: "research_event \<Rightarrow> pystr \<times> pystr \<times> int" where
  "event_source e = (e_type e, e_id e, sequence_of e)"

lemma payload_type:
  assumes "parse_decision_payload e = Inr p"
  shows "e_type e = (case p of ProposalSubmittedPayload _ \<Rightarrow> TYPE_PROPOSAL_SUBMITTED | DissentRecordedPayload _ \<Rightarrow> TYPE_DISSENT_RECORDED
    | DecisionRecordedPayload _ \<Rightarrow> TYPE_DECISION_RECORDED | QuestionAskedPayload _ \<Rightarrow> TYPE_QUESTION_ASKED
    | QuestionAnsweredPayload _ \<Rightarrow> TYPE_QUESTION_ANSWERED)"
  using assms
  by (auto simp: parse_decision_payload_def RESEARCH_PAYLOAD_MODELS_def result_simps decode_proposal_def decode_dissent_def
    decode_decision_def decode_question_def decode_answered_def Option.bind_eq_Some_conv split: option.splits if_splits)

definition proposal_key :: "proposal_entry \<Rightarrow> pystr \<times> int" where "proposal_key x = (pe_event_id x, pe_sequence x)"
definition dissent_key :: "dissent_entry \<Rightarrow> pystr \<times> int" where "dissent_key x = (de_event_id x, de_sequence x)"

lemma entry_sources_same:
  assumes "List.map proposal_key (lf_proposals g) = List.map proposal_key (lf_proposals f)"
    "List.map dissent_key (lf_dissents g) = List.map dissent_key (lf_dissents f)" "lf_questions g = lf_questions f"
    "lf_decisions g = lf_decisions f @ cs"
  shows "entry_sources g = entry_sources f \<union> (\<lambda>x. (TYPE_DECISION_RECORDED, ce_event_id x, ce_sequence x)) ` set cs"
proof -
  have "(\<lambda>x. (t, proposal_key x)) ` set (lf_proposals g) = (\<lambda>x. (t, proposal_key x)) ` set (lf_proposals f)"
    "(\<lambda>x. (t, dissent_key x)) ` set (lf_dissents g) = (\<lambda>x. (t, dissent_key x)) ` set (lf_dissents f)" for t :: pystr
    using arg_cong[OF assms(1), of "\<lambda>ks. Pair t ` set ks"] arg_cong[OF assms(2), of "\<lambda>ks. Pair t ` set ks"]
    by (simp_all add: image_image)
  then show ?thesis
    unfolding entry_sources_def proposal_key_def dissent_key_def assms(3,4) set_append image_Un by (simp only: Un_ac)
qed

lemma decision_source:
  assumes "apply_decision f e p = Inr g"
  shows "entry_sources g = insert (TYPE_DECISION_RECORDED, e_id e, sequence_of e) (entry_sources f)"
proof -
  have o: "apply_proposal_outcome (lf_proposals f) p = Inr (lf_proposals g)"
    and m: "mark_overridden_dissents (lf_dissents f) p = Inr (lf_dissents g)"
    and c: "lf_decisions g = lf_decisions f @ [decision_of e p]" and q: "lf_questions g = lf_questions f"
    using assms unfolding apply_decision_def decision_of_def[symmetric] by (auto simp: validated_def result_simps split: if_splits)
  have "proposal_key (decided_proposal p b x) = proposal_key x" for b x by (simp add: decided_proposal_def proposal_key_def)
  then have ps: "List.map proposal_key (lf_proposals g) = List.map proposal_key (lf_proposals f)"
    using proposal_outcome_result(2)[OF o] by (auto simp: comp_def)
  have "mark_dissent p x = Inr y \<Longrightarrow> dissent_key y = dissent_key x" for x y
    by (auto simp: mark_dissent_def validated_def dissent_key_def Let_def split: if_splits)
  then have "List.map dissent_key (lf_dissents g) = List.map dissent_key (lf_dissents f)"
    using m by (auto simp: mark_overridden_dissents_def map_r_Inr_iff list_all2_conv_all_nth intro!: nth_equalityI split: if_splits)
  from entry_sources_same[OF ps this q c] show ?thesis by (simp add: decision_of_def)
qed

lemma answered_source:
  assumes "apply_question_answered f e p = Inr g"
  shows "entry_sources g \<subseteq> insert (TYPE_QUESTION_ANSWERED, e_id e, sequence_of e) (entry_sources f)"
proof -
  obtain asked where q: "asked \<in> set (lf_questions f)"
    and g: "g = f\<lparr>lf_questions := List.map (\<lambda>x. if qe_question_id x = ap_question_id p then asked\<lparr>qe_status := QuestionAnswered,
      qe_answer := Some \<lparr>ae_event_id = e_id e, ae_sequence = sequence_of e, ae_answer = ap_answer p, ae_rights = ap_rights p\<rparr>\<rparr> else x) (lf_questions f)\<rparr>"
    using assms by (auto simp: apply_question_answered_def Let_def dest!: find_question_Some split: option.splits if_splits)
  let ?a = "\<lparr>ae_event_id = e_id e, ae_sequence = sequence_of e, ae_answer = ap_answer p, ae_rights = ap_rights p\<rparr>"
  have "(\<lambda>x. (TYPE_QUESTION_ASKED, qe_event_id x, qe_sequence x)) ` set (lf_questions g)
      \<subseteq> (\<lambda>x. (TYPE_QUESTION_ASKED, qe_event_id x, qe_sequence x)) ` set (lf_questions f)"
    using q by (auto simp: g)
  moreover have "ledger_answers (lf_questions g) \<subseteq> insert ?a (ledger_answers (lf_questions f))"
    by (auto simp: g ledger_answers_def split: if_splits)
  from image_mono[OF this, of "\<lambda>x. (TYPE_QUESTION_ANSWERED, ae_event_id x, ae_sequence x)"]
  have "(\<lambda>x. (TYPE_QUESTION_ANSWERED, ae_event_id x, ae_sequence x)) ` ledger_answers (lf_questions g)
      \<subseteq> insert (TYPE_QUESTION_ANSWERED, e_id e, sequence_of e)
          ((\<lambda>x. (TYPE_QUESTION_ANSWERED, ae_event_id x, ae_sequence x)) ` ledger_answers (lf_questions f))" by simp
  moreover have "lf_proposals g = lf_proposals f" "lf_dissents g = lf_dissents f" "lf_decisions g = lf_decisions f" by (simp_all add: g)
  ultimately show ?thesis unfolding entry_sources_def by auto
qed

lemma added_source:
  "apply_proposal f e p1 = Inr g \<Longrightarrow> entry_sources g = insert (TYPE_PROPOSAL_SUBMITTED, e_id e, sequence_of e) (entry_sources f)"
  "apply_dissent f e p2 = Inr g \<Longrightarrow> entry_sources g = insert (TYPE_DISSENT_RECORDED, e_id e, sequence_of e) (entry_sources f)"
  "apply_question_asked f e p3 = Inr g \<Longrightarrow> entry_sources g = insert (TYPE_QUESTION_ASKED, e_id e, sequence_of e) (entry_sources f)"
proof -
  have added: "entry_sources (f\<lparr>lf_proposals := lf_proposals f @ [x]\<rparr>) = insert (TYPE_PROPOSAL_SUBMITTED, pe_event_id x, pe_sequence x) (entry_sources f)"
    "entry_sources (f\<lparr>lf_dissents := lf_dissents f @ [y]\<rparr>) = insert (TYPE_DISSENT_RECORDED, de_event_id y, de_sequence y) (entry_sources f)"
    "qe_answer z = None \<Longrightarrow> entry_sources (f\<lparr>lf_questions := lf_questions f @ [z]\<rparr>) = insert (TYPE_QUESTION_ASKED, qe_event_id z, qe_sequence z) (entry_sources f)"
    for x y z by (simp_all add: entry_sources_def ledger_answers_def)
  show "apply_proposal f e p1 = Inr g \<Longrightarrow> entry_sources g = insert (TYPE_PROPOSAL_SUBMITTED, e_id e, sequence_of e) (entry_sources f)"
    "apply_dissent f e p2 = Inr g \<Longrightarrow> entry_sources g = insert (TYPE_DISSENT_RECORDED, e_id e, sequence_of e) (entry_sources f)"
    "apply_question_asked f e p3 = Inr g \<Longrightarrow> entry_sources g = insert (TYPE_QUESTION_ASKED, e_id e, sequence_of e) (entry_sources f)"
    unfolding apply_proposal_def apply_dissent_def apply_question_asked_def
    by (auto simp: validated_def result_simps added split: if_splits)
qed

definition authorized_sources :: "pystr \<Rightarrow> research_event list \<Rightarrow> (pystr \<times> pystr \<times> int) set" where
  "authorized_sources p es = event_source ` {e \<in> set es. ed_project_id (e_data e) = p \<and> require_actor_kind e = Inr ()}"

lemma observe_run_sources [simp]: "entry_sources (observe_run f e) = entry_sources f"
  by (simp add: observe_run_def entry_sources_def split: option.split)

lemma apply_ledger_source:
  assumes "apply_ledger p f e = Inr g"
  shows "entry_sources g \<subseteq> entry_sources f \<union> authorized_sources p [e]"
proof (cases "ed_project_id (e_data e) = p \<and> List.member DECISION_EVENT_TYPES (e_type e)")
  case True
  then obtain payload where a: "require_actor_kind e = Inr ()" and d: "parse_decision_payload e = Inr payload"
    and r: "apply_research_payload (observe_run f e) e payload = Inr g"
    using assms by (auto simp: apply_ledger_def Let_def result_simps split: if_splits)
  have "entry_sources g \<subseteq> insert (event_source e) (entry_sources (observe_run f e))"
    using r payload_type[OF d] unfolding event_source_def
    by (cases payload)
      (use answered_source[of "observe_run f e" e _ g] in \<open>auto simp: apply_research_payload_def decision_source added_source\<close>)
  then show ?thesis using True a by (auto simp: authorized_sources_def)
next
  case False
  then show ?thesis using assms by (auto simp: apply_ledger_def Let_def split: if_splits)
qed

lemma ledger_sources:
  assumes "fold_r (apply_ledger p) f es = Inr g"
  shows "entry_sources g \<subseteq> entry_sources f \<union> authorized_sources p es"
  using assms
proof (induction es arbitrary: f)
  case (Cons e es)
  then obtain h where h: "apply_ledger p f e = Inr h" "fold_r (apply_ledger p) h es = Inr g" by (auto simp: result_simps)
  from apply_ledger_source[OF h(1)] Cons.IH[OF h(2)] show ?case by (auto simp: authorized_sources_def)
qed (simp add: authorized_sources_def)

end
