(* ===== verification/Research_Control.thy ===== *)
theory Research_Control
  imports Research_Facts Store_Samples
begin

text \<open>
  \<open>ResearchControl\<close> of \<open>research/control.py\<close>: \<open>rebuild\<close> folds the frozen log into the ledger and its
  document, \<open>append\<close> checks one decision fact against that fold and against the document it would give,
  and asks the store for it.  The properties: what every ledger satisfies, what a later fact can
  change in it, whose facts its entries are, and what \<open>append\<close> returns.
\<close>

section \<open>The control\<close>

definition research_preflight_errors :: "research_error preflight_errors" where
  "research_preflight_errors = \<lparr>
     clone_failed = (\<lambda>_. ResearchControlError ''invalid-draft''),
     assigned_fields = (\<lambda>_. ResearchControlError ''store-assigned-fields''),
     sequence_exhausted = ResearchControlError ''sequence-exhausted'',
     invalid_draft = ResearchPayloadError ''invalid-event'',
     wrong_aggregate = ResearchControlError ''project-mismatch''\<rparr>"

text \<open>A head is the frozen sequence, the fold and its document.\<close>

definition research_rebuild :: "env \<Rightarrow> pydatetime \<Rightarrow> (store \<Rightarrow> store) \<Rightarrow> pystr \<Rightarrow> int \<Rightarrow> store
    \<Rightarrow> store \<times> (research_error + int \<times> ledger_fold \<times> research_ledger)" where
  "research_rebuild env now others project_id page_size s =
     (case frozen_fold ResearchStoreFailed (apply_ledger project_id) empty_ledger env now others page_size s of
        (s1, r) \<Rightarrow> (s1, bind_r r (\<lambda>(high_water, f).
          bind_r (ledger_snapshot project_id f high_water) (\<lambda>snapshot. Inr (high_water, f, snapshot)))))"

text \<open>Everything that is checked before the store is asked; the draft is returned.\<close>

definition research_preflight :: "pystr \<Rightarrow> int \<Rightarrow> ledger_fold \<Rightarrow> pyval \<Rightarrow> research_error + pydict" where
  "research_preflight project_id cas_head f document =
     bind_r (preflight research_preflight_errors (\<lambda>e. ed_project_id (e_data e) = project_id) cas_head document) (\<lambda>(draft, event).
     bind_r (check_r (List.member DECISION_EVENT_TYPES (e_type event)) (ResearchControlError ''unknown-research-type'')) (\<lambda>_.
     bind_r (apply_ledger project_id f event) (\<lambda>g.
     bind_r (map_sum (\<lambda>_. ResearchControlError ''invalid-prospective-ledger'') id (ledger_snapshot project_id g (cas_head + 1))) (\<lambda>_.
     Inr draft))))"

definition research_append_at :: "env \<Rightarrow> pydatetime \<Rightarrow> (store \<Rightarrow> store) \<Rightarrow> pystr \<Rightarrow> int \<Rightarrow> ledger_fold \<Rightarrow> pyval
    \<Rightarrow> store \<Rightarrow> store \<times> (research_error + stored_event \<times> research_ledger)" where
  "research_append_at env now others project_id cas_head f document s =
     (case research_preflight project_id cas_head f document of
        Inl e \<Rightarrow> (s, Inl e)
      | Inr draft \<Rightarrow>
          (case append_store env now (PyDict draft) (Some cas_head) (others s) of
             (s', Inl e) \<Rightarrow> (s', Inl (ResearchStoreFailed e))
           | (s', Inr stored) \<Rightarrow>
               (s', bind_r (apply_ledger project_id f (st_event stored)) (\<lambda>g.
                    bind_r (ledger_snapshot project_id g (stored_sequence stored)) (\<lambda>snapshot. Inr (stored, snapshot))))))"

definition research_append :: "env \<Rightarrow> pydatetime \<Rightarrow> pydatetime \<Rightarrow> (store \<Rightarrow> store) \<Rightarrow> (store \<Rightarrow> store) \<Rightarrow> pystr \<Rightarrow> int
    \<Rightarrow> pyval \<Rightarrow> int option \<Rightarrow> store \<Rightarrow> store \<times> (research_error + stored_event \<times> research_ledger)" where
  "research_append env now now' others others' project_id page_size document expected s =
     (case research_rebuild env now others project_id page_size s of
        (s1, Inl e) \<Rightarrow> (s1, Inl e)
      | (s1, Inr (observed_head, f, _)) \<Rightarrow>
          (case expected of
             Some x \<Rightarrow>
               if observed_head \<noteq> x then (s1, Inl (ResearchStoreFailed (EventSequenceConflictError x observed_head)))
               else research_append_at env now' others' project_id x f document s1
           | None \<Rightarrow> research_append_at env now' others' project_id observed_head f document s1))"

section \<open>The contract of the fold\<close>

lemma apply_ledger_norm:
  assumes "keys_distinct (ed_payload (e_data e))"
  shows "apply_ledger p f (norm_event e) = apply_ledger p f e"
proof -
  have same: "observe_run g (norm_event e) = observe_run g e" "require_actor_kind (norm_event e) = require_actor_kind e"
    "apply_research_payload g (norm_event e) x = apply_research_payload g e x" for g x
    by (auto simp: norm_event_def observe_run_def require_actor_kind_def apply_research_payload_def apply_proposal_def
      apply_dissent_def apply_decision_def apply_question_asked_def apply_question_answered_def sequence_of_def
      split: option.split research_payload.split)
  have plain: "ed_project_id (e_data (norm_event e)) = ed_project_id (e_data e)" "e_type (norm_event e) = e_type e"
    "ed_evidence_refs (e_data (norm_event e)) = ed_evidence_refs (e_data e)"
    by (simp_all add: norm_event_def)
  show ?thesis unfolding apply_ledger_def same plain parse_decision_payload_norm[OF assms] ..
qed

lemma apply_ledger_version: "apply_ledger p f (e\<lparr>e_streamversion := m\<rparr>) = apply_ledger p f e"
proof -
  have same: "observe_run g (e\<lparr>e_streamversion := m\<rparr>) = observe_run g e" "require_actor_kind (e\<lparr>e_streamversion := m\<rparr>) = require_actor_kind e"
    "apply_research_payload g (e\<lparr>e_streamversion := m\<rparr>) x = apply_research_payload g e x"
    "parse_decision_payload (e\<lparr>e_streamversion := m\<rparr>) = parse_decision_payload e" for g x
    by (auto simp: observe_run_def require_actor_kind_def apply_research_payload_def apply_proposal_def
      apply_dissent_def apply_decision_def apply_question_asked_def apply_question_answered_def sequence_of_def
      parse_decision_payload_def split: option.split research_payload.split)
  have plain: "e_data (e\<lparr>e_streamversion := m\<rparr>) = e_data e" "e_type (e\<lparr>e_streamversion := m\<rparr>) = e_type e" by simp_all
  show ?thesis unfolding apply_ledger_def same plain ..
qed

interpretation research_log: log_control "apply_ledger p" for p
  by unfold_locales (simp_all add: apply_ledger_norm apply_ledger_version)

interpretation research_contract: projection "apply_ledger p"
  "\<lambda>e. ed_project_id (e_data e) = p \<and> (e_type e = TYPE_RUN_QUEUED \<or> List.member DECISION_EVENT_TYPES (e_type e))"
  "\<lambda>_. True" "\<lambda>_. True" for p
  by unfold_locales (auto simp: apply_ledger_def observe_run_def Let_def split: option.split)

section \<open>Rebuilding\<close>

lemma facts_ledger_log: "store_inv env s \<Longrightarrow> ledger_log (facts env s)"
  using facts_valid[of env s] facts_sequence[of env s]
  by (auto simp: ledger_log_def sorted_wrt_iff_nth_less)

lemma frozen_sequence:
  assumes "store_inv env s" "env_ok env"
  shows "LedgerSequence (int (length (facts env s)))"
  using store_inv_length[OF assms] by (simp add: LedgerSequence_def)

lemma rebuild_snapshot:
  assumes "store_inv env s" "env_ok env" "EventIdentifier p" "fold_r (apply_ledger p) empty_ledger (facts env s) = Inr f"
  shows "ledger_snapshot p f (int (length (facts env s))) = Inr (ledger_of p f (int (length (facts env s))))"
  using reachable_ledger(2)[OF facts_ledger_log[OF assms(1)] assms(4)] assms frozen_sequence by (intro ledger_snapshot_ok) auto

lemma research_rebuild_exact:
  assumes "env_ok env" "now \<noteq> Naive" "store_inv env s" "report_ok env s" "page_size_ok page_size" "grows env others"
    "EventIdentifier p"
  obtains s1 where "research_rebuild env now others p page_size s =
      (s1, map_sum id (\<lambda>f. (int (length (facts env s)), f, ledger_of p f (int (length (facts env s)))))
        (fold_r (apply_ledger p) empty_ledger (facts env s)))"
    "store_inv env s1" "prefix (facts env s) (facts env s1)" "writable s1 = writable s"
    "others = id \<longrightarrow> db_events s1 = db_events s"
proof -
  obtain s1 where f: "frozen_fold ResearchStoreFailed (apply_ledger p) empty_ledger env now others page_size s =
      (s1, map_sum id (Pair (int (length (facts env s)))) (fold_r (apply_ledger p) empty_ledger (facts env s)))"
    and i: "store_inv env s1" "prefix (facts env s) (facts env s1)" "writable s1 = writable s"
      "others = id \<longrightarrow> db_events s1 = db_events s"
    by (rule frozen_fold_exact[OF assms(1-6)])
  have "research_rebuild env now others p page_size s =
      (s1, map_sum id (\<lambda>f. (int (length (facts env s)), f, ledger_of p f (int (length (facts env s)))))
        (fold_r (apply_ledger p) empty_ledger (facts env s)))"
    using rebuild_snapshot[OF assms(3,1,7)] unfolding research_rebuild_def f
    by (cases "fold_r (apply_ledger p) empty_ledger (facts env s)") simp_all
  then show ?thesis using i by (rule that)
qed

section \<open>Appending\<close>

lemma research_preflightD:
  assumes "research_preflight p n f document = Inr d"
  obtains pre g where "preflight research_preflight_errors (\<lambda>e. ed_project_id (e_data e) = p) n document = Inr (d, pre)"
    "List.member DECISION_EVENT_TYPES (e_type pre)" "apply_ledger p f pre = Inr g"
  using assms by (auto simp: research_preflight_def result_simps split: prod.splits)

lemma research_append_at_stored:
  assumes "fold_r (apply_ledger p) empty_ledger (facts env s0) = Inr f" "clock_ok now" "draft_ok env document" "env_ok env"
    "EventIdentifier p" "store_inv env (others s)" "prefix (facts env s0) (facts env (others s))"
    "research_preflight p (int (length (facts env s0))) f document = Inr d"
    "append_store env now (PyDict d) (Some (int (length (facts env s0)))) (others s) = (s', Inr st)"
  obtains g where "store_inv env s'" "facts env s' = facts env s0 @ [fact_of st]"
    "apply_ledger p f (fact_of st) = Inr g" "fold_r (apply_ledger p) empty_ledger (facts env s') = Inr g"
    "stored_sequence st = int (length (facts env s0)) + 1" "List.member DECISION_EVENT_TYPES (e_type (st_event st))"
    "research_append_at env now others p (int (length (facts env s0))) f document s = (s', Inr (st, ledger_of p g (stored_sequence st)))"
proof -
  let ?n = "int (length (facts env s0))" and ?own = "\<lambda>e. ed_project_id (e_data e) = p"
  obtain pre g0 where pre: "preflight research_preflight_errors ?own ?n document = Inr (d, pre)"
    "List.member DECISION_EVENT_TYPES (e_type pre)" "apply_ledger p f pre = Inr g0"
    by (rule research_preflightD[OF assms(8)])
  have at: "append_at research_preflight_errors ?own ResearchStoreFailed (apply_ledger p) env now others (?n, f) document s = (s', Inr st)"
    using pre assms(9) by (simp add: append_at_def del: length_facts)
  show ?thesis
  proof (rule research_log.append_at_committed[OF assms(1-3,6,7) at])
    fix pre' g
    assume *: "store_inv env s'" "facts env s' = facts env s0 @ [fact_of st]" "apply_ledger p f pre' = Inr g"
      "fold_r (apply_ledger p) empty_ledger (facts env s') = Inr g" "stored_sequence st = ?n + 1"
      "\<exists>m. st_event st = pre'\<lparr>e_streamversion := m\<rparr>"
      "\<exists>d. preflight research_preflight_errors ?own ?n document = Inr (d, pre')"
    have same: "pre' = pre" using *(7) pre(1) by simp
    then obtain m where m: "st_event st = pre\<lparr>e_streamversion := m\<rparr>" using *(6) by blast
    have a: "apply_ledger p f (st_event st) = Inr g" unfolding m apply_ledger_version using *(3) same by simp
    have t: "List.member DECISION_EVENT_TYPES (e_type (st_event st))" using pre(2) by (simp add: m)
    have "fold_r (apply_ledger p) f [fact_of st] = Inr g" using *(2,4) assms(1) by (simp add: fold_r_append)
    then have ft: "apply_ledger p f (fact_of st) = Inr g" by (simp add: result_simps)
    have sn: "ledger_snapshot p g (stored_sequence st) = Inr (ledger_of p g (stored_sequence st))"
      using rebuild_snapshot[OF *(1) assms(4,5) *(4)] *(2,5) by (simp del: length_facts add: add.commute)
    have "research_append_at env now others p ?n f document s = (s', Inr (st, ledger_of p g (stored_sequence st)))"
      unfolding research_append_at_def using assms(8,9) a sn by (simp del: length_facts)
    then show ?thesis by (rule that[OF *(1,2) ft *(4,5) t])
  qed
qed

lemma research_append_at_cases:
  assumes "fold_r (apply_ledger p) empty_ledger (facts env s0) = Inr f" "clock_ok now" "draft_ok env document" "env_ok env"
    "EventIdentifier p" "store_inv env (others s)" "prefix (facts env s0) (facts env (others s))"
    "research_append_at env now others p (int (length (facts env s0))) f document s = (s', r)"
  shows "case r of
      Inr (st, doc) \<Rightarrow> \<exists>g. store_inv env s' \<and> facts env s' = facts env s0 @ [fact_of st] \<and> apply_ledger p f (fact_of st) = Inr g
        \<and> fold_r (apply_ledger p) empty_ledger (facts env s') = Inr g \<and> stored_sequence st = int (length (facts env s0)) + 1
        \<and> List.member DECISION_EVENT_TYPES (e_type (st_event st)) \<and> doc = ledger_of p g (stored_sequence st)
    | Inl e \<Rightarrow> s' = s \<or> s' = others s"
proof (cases "research_preflight p (int (length (facts env s0))) f document")
  case (Inl e)
  then have "s' = s" "r = Inl e" using assms(8) unfolding research_append_at_def by (simp_all del: length_facts)
  then show ?thesis by simp
next
  case (Inr d)
  obtain t q where t: "append_store env now (PyDict d) (Some (int (length (facts env s0)))) (others s) = (t, q)" by fastforce
  show ?thesis
  proof (cases q)
    case (Inl x)
    then have "s' = t" "r = Inl (ResearchStoreFailed x)"
      using assms(8) Inr t unfolding research_append_at_def by (simp_all del: length_facts)
    moreover have "t = others s" using t Inl by (simp add: append_store_Inl)
    ultimately show ?thesis by simp
  next
    case q: (Inr st)
    show ?thesis
    proof (rule research_append_at_stored[where others = others and s = s, OF assms(1-7) Inr t[unfolded q]])
      fix g
      assume *: "store_inv env t" "facts env t = facts env s0 @ [fact_of st]" "apply_ledger p f (fact_of st) = Inr g"
        "fold_r (apply_ledger p) empty_ledger (facts env t) = Inr g" "stored_sequence st = int (length (facts env s0)) + 1"
        "List.member DECISION_EVENT_TYPES (e_type (st_event st))"
        "research_append_at env now others p (int (length (facts env s0))) f document s = (t, Inr (st, ledger_of p g (stored_sequence st)))"
      have "s' = t" "r = Inr (st, ledger_of p g (stored_sequence st))" using *(7) assms(8) by simp_all
      with * show ?thesis by (simp del: length_facts)
    qed
  qed
qed

section \<open>Who recorded an entry\<close>

definition recorded_by :: "actor_kind set \<Rightarrow> research_event list \<Rightarrow> pystr \<Rightarrow> pystr \<Rightarrow> pystr \<Rightarrow> int \<Rightarrow> bool" where
  "recorded_by kinds es project_id t i n \<longleftrightarrow> (\<exists>e\<in>set es. e_type e = t \<and> e_id e = i \<and> sequence_of e = n
     \<and> ed_project_id (e_data e) = project_id \<and> (\<exists>k\<in>kinds. actor_kind_field (ed_actor (e_data e)) = Some k))"

lemma research_types_differ [simp]:
  "TYPE_PROPOSAL_SUBMITTED \<noteq> TYPE_DISSENT_RECORDED" "TYPE_PROPOSAL_SUBMITTED \<noteq> TYPE_DECISION_RECORDED"
  "TYPE_PROPOSAL_SUBMITTED \<noteq> TYPE_QUESTION_ASKED" "TYPE_PROPOSAL_SUBMITTED \<noteq> TYPE_QUESTION_ANSWERED"
  "TYPE_DISSENT_RECORDED \<noteq> TYPE_DECISION_RECORDED" "TYPE_DISSENT_RECORDED \<noteq> TYPE_QUESTION_ASKED"
  "TYPE_DISSENT_RECORDED \<noteq> TYPE_QUESTION_ANSWERED" "TYPE_DECISION_RECORDED \<noteq> TYPE_QUESTION_ASKED"
  "TYPE_DECISION_RECORDED \<noteq> TYPE_QUESTION_ANSWERED" "TYPE_QUESTION_ASKED \<noteq> TYPE_QUESTION_ANSWERED"
  by code_simp+

lemma actor_allowed:
  assumes "require_actor_kind e = Inr u" "map_of ALLOWED_ACTOR_KINDS (e_type e) = Some ks"
  shows "\<exists>k\<in>set ks. actor_kind_field (ed_actor (e_data e)) = Some k"
  using assms by (auto simp: require_actor_kind_def check_r_iff split: option.splits)

lemma source_recorded:
  assumes "(t, i, n) \<in> authorized_sources p es" "map_of ALLOWED_ACTOR_KINDS t = Some ks"
  shows "recorded_by (set ks) es p t i n"
  using assms actor_allowed unfolding authorized_sources_def event_source_def recorded_by_def by fastforce

lemma allowed_kinds [simp]:
  "map_of ALLOWED_ACTOR_KINDS TYPE_PROPOSAL_SUBMITTED = Some [AI, HUMAN]"
  "map_of ALLOWED_ACTOR_KINDS TYPE_DISSENT_RECORDED = Some [AI, HUMAN]"
  "map_of ALLOWED_ACTOR_KINDS TYPE_DECISION_RECORDED = Some [HUMAN, POLICY]"
  "map_of ALLOWED_ACTOR_KINDS TYPE_QUESTION_ASKED = Some [AI, SYSTEM]"
  "map_of ALLOWED_ACTOR_KINDS TYPE_QUESTION_ANSWERED = Some [HUMAN]"
  by code_simp+

lemma entry_recorded:
  assumes "fold_r (apply_ledger p) empty_ledger es = Inr f"
  shows "x \<in> set (lf_proposals f) \<Longrightarrow> recorded_by {AI, HUMAN} es p TYPE_PROPOSAL_SUBMITTED (pe_event_id x) (pe_sequence x)"
    "d \<in> set (lf_dissents f) \<Longrightarrow> recorded_by {AI, HUMAN} es p TYPE_DISSENT_RECORDED (de_event_id d) (de_sequence d)"
    "c \<in> set (lf_decisions f) \<Longrightarrow> recorded_by {HUMAN, POLICY} es p TYPE_DECISION_RECORDED (ce_event_id c) (ce_sequence c)"
    "q \<in> set (lf_questions f) \<Longrightarrow> recorded_by {AI, SYSTEM} es p TYPE_QUESTION_ASKED (qe_event_id q) (qe_sequence q)"
    "q \<in> set (lf_questions f) \<Longrightarrow> qe_answer q = Some a \<Longrightarrow> recorded_by {HUMAN} es p TYPE_QUESTION_ANSWERED (ae_event_id a) (ae_sequence a)"
proof -
  have "entry_sources empty_ledger = {}" by (simp add: entry_sources_def empty_ledger_def ledger_answers_def)
  then have s: "s \<in> entry_sources f \<Longrightarrow> s \<in> authorized_sources p es" for s using ledger_sources[OF assms] by auto
  note r = source_recorded[OF s]
  show "x \<in> set (lf_proposals f) \<Longrightarrow> recorded_by {AI, HUMAN} es p TYPE_PROPOSAL_SUBMITTED (pe_event_id x) (pe_sequence x)"
    by (rule r[where ks = "[AI, HUMAN]", simplified]) (auto simp: entry_sources_def)
  show "d \<in> set (lf_dissents f) \<Longrightarrow> recorded_by {AI, HUMAN} es p TYPE_DISSENT_RECORDED (de_event_id d) (de_sequence d)"
    by (rule r[where ks = "[AI, HUMAN]", simplified]) (auto simp: entry_sources_def)
  show "c \<in> set (lf_decisions f) \<Longrightarrow> recorded_by {HUMAN, POLICY} es p TYPE_DECISION_RECORDED (ce_event_id c) (ce_sequence c)"
    by (rule r[where ks = "[HUMAN, POLICY]", simplified]) (auto simp: entry_sources_def)
  show "q \<in> set (lf_questions f) \<Longrightarrow> recorded_by {AI, SYSTEM} es p TYPE_QUESTION_ASKED (qe_event_id q) (qe_sequence q)"
    by (rule r[where ks = "[AI, SYSTEM]", simplified]) (auto simp: entry_sources_def)
  show "q \<in> set (lf_questions f) \<Longrightarrow> qe_answer q = Some a \<Longrightarrow> recorded_by {HUMAN} es p TYPE_QUESTION_ANSWERED (ae_event_id a) (ae_sequence a)"
    by (rule r[where ks = "[HUMAN]", simplified]) (auto simp: entry_sources_def ledger_answers_def)
qed

section \<open>Samples\<close>

definition ledger_event :: "actor_kind \<Rightarrow> pystr \<Rightarrow> nat \<Rightarrow> (string \<times> pyval) list \<Rightarrow> research_event" where
  "ledger_event kind t n entries =
     (let e = sample_event_by (Some kind) t n None (PyDict (List.map (\<lambda>(k, v). (KStr (U k), v)) (entries @ [(''evidenceRefs'', PyList [])]))) in
      e\<lparr>e_data := (e_data e)\<lparr>ed_run_id := None\<rparr>\<rparr>)"

definition sample_jcs :: pystr where "sample_jcs = U ''jcs-sha256:'' @ replicate 64 48"

definition question_fields :: "(string \<times> pyval) list" where
  "question_fields = [(''questionId'', PyStr (U ''q'')), (''question'', PyStr (U ''why'')), (''uncertainty'', PyStr (U ''u'')),
     (''whyNotObservable'', PyStr (U ''w'')), (''blocking'', PyBool True)]"

definition proposed_log :: "research_event list" where
  "proposed_log =
     [ledger_event AI TYPE_PROPOSAL_SUBMITTED 1
        [(''proposalId'', PyStr (U ''x'')), (''baseRevision'', PyInt 1), (''specDiffDigest'', PyStr sample_jcs),
         (''proposedSpecDigest'', PyStr sample_jcs), (''rationale'', PyStr (U ''r'')),
         (''predictions'', PyList [PyDict (List.map (\<lambda>(k, v). (KStr (U k), PyStr (U v)))
            [(''id'', ''i''), (''statement'', ''s''), (''expectedDirection'', ''increase'')])]),
         (''falsificationConditions'', PyList [PyStr (U ''f'')]),
         (''riskAssessment'', PyDict (List.map (\<lambda>k. (KStr (U k), PyStr [])) [''data'', ''method'', ''safety'', ''cost'']))],
      ledger_event AI TYPE_DISSENT_RECORDED 2
        [(''dissentId'', PyStr (U ''d'')), (''targetKind'', PyStr (U ''proposal'')), (''targetId'', PyStr (U ''x'')),
         (''objections'', PyList [PyDict [(KStr (U ''kind''), PyStr (U ''other'')), (KStr (U ''statement''), PyStr (U ''s''))]])],
      ledger_event AI TYPE_QUESTION_ASKED 3 question_fields]"

definition decided_log :: "research_event list" where
  "decided_log =
     [ledger_event HUMAN TYPE_DECISION_RECORDED 4
        [(''decisionId'', PyStr (U ''c'')), (''targetKind'', PyStr (U ''proposal'')), (''targetId'', PyStr (U ''x'')),
         (''outcome'', PyStr (U ''accept'')), (''rationale'', PyStr (U ''r'')), (''overriddenDissentIds'', PyList [PyStr (U ''d'')])],
      ledger_event HUMAN TYPE_QUESTION_ANSWERED 5
        [(''questionId'', PyStr (U ''q'')), (''answer'', PyDict [(KStr (U ''text''), PyStr (U ''t''))]),
         (''rights'', PyDict [(KStr (U ''status''), PyStr (U ''allowed''))])]]"

definition folded_ledger :: "research_event list \<Rightarrow> ledger_fold" where
  "folded_ledger es = projr (fold_r (apply_ledger (U ''p'')) empty_ledger es)"

lemma sample_ledger_folds:
  "is_ok (fold_r (apply_ledger (U ''p'')) empty_ledger proposed_log)"
  "is_ok (fold_r (apply_ledger (U ''p'')) empty_ledger (proposed_log @ decided_log))"
  by code_simp+

lemma sample_ledger_states:
  "List.map (\<lambda>x. (pe_revision_state x, pe_accepted_by x)) (lf_proposals (folded_ledger proposed_log)) = [(PROPOSED, None)]"
  "List.map (\<lambda>x. (pe_revision_state x, pe_accepted_by x)) (lf_proposals (folded_ledger (proposed_log @ decided_log)))
     = [(ACCEPTED, Some (U ''c''))]"
  "List.map de_overridden_by (lf_dissents (folded_ledger (proposed_log @ decided_log))) = [[U ''c'']]"
  "List.map qe_status (lf_questions (folded_ledger (proposed_log @ decided_log))) = [QuestionAnswered]"
  by code_simp+

lemma sample_ledgers:
  "fold_r (apply_ledger (U ''p'')) empty_ledger proposed_log = Inr (folded_ledger proposed_log)"
  "fold_r (apply_ledger (U ''p'')) empty_ledger (proposed_log @ decided_log) = Inr (folded_ledger (proposed_log @ decided_log))"
  using sample_ledger_folds by (auto simp: folded_ledger_def is_ok_iff)

lemma ledger_event_valid:
  assumes "EventIdentifier t" "1 \<le> n" "n \<le> 2147483647"
    "require_event_payload (PyDict (List.map (\<lambda>(k, v). (KStr (U k), v)) (vs @ [(''evidenceRefs'', PyList [])])))"
  shows "research_event_valid (ledger_event kind t n vs)"
  using sample_event_by_valid[OF assms(1-3) _ assms(4), of None "Some kind"]
  by (simp add: ledger_event_def Let_def research_event_valid_def event_data_valid_def)

lemma sample_ledger_log: "ledger_log (proposed_log @ decided_log)"
proof -
  have "EventIdentifier TYPE_PROPOSAL_SUBMITTED" "EventIdentifier TYPE_DISSENT_RECORDED" "EventIdentifier TYPE_DECISION_RECORDED"
    "EventIdentifier TYPE_QUESTION_ASKED" "EventIdentifier TYPE_QUESTION_ANSWERED"
    by code_simp+
  note types = this
  have "list_all (\<lambda>e. require_event_payload (ed_payload (e_data e))) (proposed_log @ decided_log)" by code_simp
  then have "\<forall>e\<in>set (proposed_log @ decided_log). research_event_valid e"
    unfolding proposed_log_def decided_log_def
    by (auto intro!: ledger_event_valid simp: types) (simp_all add: ledger_event_def sample_event_by_def sample_event_def Let_def)
  moreover have "List.map sequence_of (proposed_log @ decided_log) = [1, 2, 3, 4, 5]" by code_simp
  then have "sorted_wrt (<) (List.map sequence_of (proposed_log @ decided_log))" by simp
  ultimately show ?thesis unfolding ledger_log_def sorted_wrt_map by blast
qed

text \<open>A first fact.\<close>

definition asked_payload :: pyval where
  "asked_payload = PyDict (List.map (\<lambda>(k, v). (KStr (U k), v)) (question_fields @ [(''evidenceRefs'', PyList [])]))"

definition asked_draft :: pydict where
  "asked_draft = draft_for None (Some AI) TYPE_QUESTION_ASKED 7 None asked_payload"

lemma asked_checks: "EventIdentifier TYPE_QUESTION_ASKED" "require_event_payload asked_payload" "utf8_ok TYPE_QUESTION_ASKED"
  "keys_distinct asked_payload" "floats_ok FFin asked_payload"
  by code_simp+

lemma asked_passes: "research_preflight (U ''p'') 0 empty_ledger (PyDict asked_draft) = Inr asked_draft"
  by code_simp

lemma asked_draft_ok: "draft_ok sample_env (PyDict asked_draft)"
  unfolding asked_draft_def by (rule sample_draft_ok) (simp_all add: asked_checks sample_env_def)

lemma page_of_100: "page_size_ok 100" by (simp add: page_size_ok_def MAX_READ_PAGE_SIZE_def)

lemma project_p: "EventIdentifier (U ''p'')" by code_simp

abbreviation first_question :: "store \<times> (research_error + stored_event \<times> research_ledger)" where
  "first_question \<equiv> research_append sample_env sample_clock sample_clock id id (U ''p'') 100 (PyDict asked_draft) (Some 0)
     (empty_store sample_env)"

lemma first_question_succeeds:
  obtains s' st doc where "first_question = (s', Inr (st, doc))"
proof -
  have fold: "fold_r (apply_ledger (U ''p'')) empty_ledger (facts sample_env (empty_store sample_env)) = Inr empty_ledger" by simp
  obtain s1 where f: "research_rebuild sample_env sample_clock id (U ''p'') 100 (empty_store sample_env)
      = (s1, Inr (0, empty_ledger, ledger_of (U ''p'') empty_ledger 0))"
    and s1: "store_inv sample_env s1" "writable s1" "db_events s1 = []"
    by (rule research_rebuild_exact[OF sample_env_ok(1) sample_clock_ok(2) empty_store_ok(1,2) page_of_100 grows_id(1) project_p])
      (use empty_store_ok(3)[of sample_env] in simp)
  have "is_ok (append_checked sample_env sample_clock (PyDict asked_draft) (Some 0) s1)"
    unfolding asked_draft_def by (rule first_draft_accepted) (use s1 asked_checks in simp_all)
  then obtain s' st where st: "append_store sample_env sample_clock (PyDict asked_draft) (Some 0) s1 = (s', Inr st)"
    by (auto simp: is_ok_iff append_store_def)
  have len: "int (length (facts sample_env (empty_store sample_env))) = 0" by simp
  have n: "prefix (facts sample_env (empty_store sample_env)) (facts sample_env (id s1))" by simp
  have i: "store_inv sample_env (id s1)" using s1(1) by simp
  have pass: "research_preflight (U ''p'') (int (length (facts sample_env (empty_store sample_env)))) empty_ledger (PyDict asked_draft) = Inr asked_draft"
    unfolding len by (rule asked_passes)
  have store: "append_store sample_env sample_clock (PyDict asked_draft) (Some (int (length (facts sample_env (empty_store sample_env))))) (id s1) = (s', Inr st)"
    unfolding len id_apply by (rule st)
  have run: "first_question = research_append_at sample_env sample_clock id (U ''p'') 0 empty_ledger (PyDict asked_draft) s1"
    unfolding research_append_def f by simp
  show ?thesis
  proof (rule research_append_at_stored[where others = id and s = s1, OF fold sample_clock_ok(1) asked_draft_ok sample_env_ok(1) project_p
        i n pass store])
    fix g
    assume "research_append_at sample_env sample_clock id (U ''p'') (int (length (facts sample_env (empty_store sample_env)))) empty_ledger
        (PyDict asked_draft) s1 = (s', Inr (st, ledger_of (U ''p'') g (stored_sequence st)))"
    then have "first_question = (s', Inr (st, ledger_of (U ''p'') g (stored_sequence st)))" unfolding run len .
    then show ?thesis by (rule that)
  qed
qed

section \<open>Statements\<close>

text \<open>C15: A log whose events are valid and numbered upward folds without a failed check of a ledger entry, and the
  state it folds to is well formed.  Ids are unique.  A proposal is accepted, rejected or superseded only as
  its decisions say: its acceptor is a recorded accepting decision on it, and what superseded it is an
  accepted proposal of a later base revision.  Dissents and decisions point to recorded targets, a decision
  about a question other than deferring follows its answer, and overriding is recorded on both sides, the
  dissent first.  The ledger document of such a state always passes its own checks.\<close>

theorem ledger_wellformed:
  assumes "ledger_log es" "EventIdentifier p" "LedgerSequence n"
  shows "case fold_r (apply_ledger p) empty_ledger es of
      Inl e \<Rightarrow> e \<noteq> LedgerValidationError
    | Inr f \<Rightarrow> ledger_ids_distinct f \<and> (\<forall>x\<in>set (lf_proposals f). proposal_ok f x) \<and> (\<forall>x\<in>set (lf_dissents f). dissent_ok f x)
        \<and> (\<forall>x\<in>set (lf_decisions f). decision_ok f x) \<and> (\<forall>x\<in>set (lf_questions f). question_ok f x)
        \<and> ledger_snapshot p f n = Inr (ledger_of p f n)"
proof (cases "fold_r (apply_ledger p) empty_ledger es")
  case (Inr f)
  have "ledger_inv f" by (rule reachable_ledger(2)[OF assms(1) Inr])
  with ledger_snapshot_ok[OF this assms(2,3)] show ?thesis by (simp add: Inr ledger_inv_def)
qed (use reachable_ledger(1)[OF assms(1), of p] in simp)

theorem ledger_wellformed_witness:
  "ledger_ids_distinct (folded_ledger (proposed_log @ decided_log))
   \<and> ledger_snapshot (U ''p'') (folded_ledger (proposed_log @ decided_log)) 5
       = Inr (ledger_of (U ''p'') (folded_ledger (proposed_log @ decided_log)) 5)
   \<and> List.map qe_status (lf_questions (folded_ledger (proposed_log @ decided_log))) = [QuestionAnswered]"
proof -
  have "LedgerSequence 5" by code_simp
  from ledger_wellformed[OF sample_ledger_log project_p this] sample_ledger_states(4) show ?thesis by (simp add: sample_ledgers(2))
qed

text \<open>C26: Later facts of a project never take back what its ledger holds.  Entries keep their place and their
  content; decisions never change at all; a proposal only moves from proposed to accepted or rejected and
  from accepted to superseded, and keeps who accepted it; a dissent only gains decisions that override it;
  an answered question is final.\<close>

theorem ledger_history_kept:
  assumes "ledger_log (es @ fs)" "fold_r (apply_ledger p) empty_ledger es = Inr f" "fold_r (apply_ledger p) empty_ledger (es @ fs) = Inr g"
  shows "prefix (lf_decisions f) (lf_decisions g) \<and> extends_by proposal_later (lf_proposals f) (lf_proposals g)
    \<and> extends_by dissent_later (lf_dissents f) (lf_dissents g) \<and> extends_by question_later (lf_questions f) (lf_questions g)
    \<and> prefix (lf_run_ids f) (lf_run_ids g)"
proof -
  have "fold_r (apply_ledger p) f fs = Inr g" using assms(2,3) by (simp add: fold_r_append)
  from reachable_kept[OF assms(1,2) this] show ?thesis by (simp add: ledger_kept_def)
qed

theorem ledger_history_kept_witness:
  "extends_by proposal_later (lf_proposals (folded_ledger proposed_log)) (lf_proposals (folded_ledger (proposed_log @ decided_log)))
   \<and> List.map pe_revision_state (lf_proposals (folded_ledger proposed_log)) = [PROPOSED]
   \<and> List.map pe_revision_state (lf_proposals (folded_ledger (proposed_log @ decided_log))) = [ACCEPTED]"
  using ledger_history_kept[OF sample_ledger_log sample_ledgers] sample_ledger_states(1,2) by auto

text \<open>C16: Only people and policies decide.  Every decision, and so every acceptance and every rejection of a
  proposal, goes back to a \<open>decision.recorded\<close> event of the project by a human or a policy, and every answer to a
  \<open>question.answered\<close> event by a human.  Proposals and dissents come from AI or human actors, questions from AI
  actors or the system.\<close>

theorem ledger_authority:
  assumes "ledger_log es" "fold_r (apply_ledger p) empty_ledger es = Inr f"
  shows "(\<forall>x\<in>set (lf_proposals f). recorded_by {AI, HUMAN} es p TYPE_PROPOSAL_SUBMITTED (pe_event_id x) (pe_sequence x)
      \<and> (pe_accepted_by x \<noteq> None \<or> pe_revision_state x = REJECTED \<longrightarrow>
          (\<exists>c. (accepted_in f ACCEPT (pe_proposal_id x) c \<or> accepted_in f REJECT (pe_proposal_id x) c)
             \<and> recorded_by {HUMAN, POLICY} es p TYPE_DECISION_RECORDED (ce_event_id c) (ce_sequence c))))
    \<and> (\<forall>x\<in>set (lf_dissents f). recorded_by {AI, HUMAN} es p TYPE_DISSENT_RECORDED (de_event_id x) (de_sequence x))
    \<and> (\<forall>x\<in>set (lf_decisions f). recorded_by {HUMAN, POLICY} es p TYPE_DECISION_RECORDED (ce_event_id x) (ce_sequence x))
    \<and> (\<forall>x\<in>set (lf_questions f). recorded_by {AI, SYSTEM} es p TYPE_QUESTION_ASKED (qe_event_id x) (qe_sequence x)
        \<and> (\<forall>a. qe_answer x = Some a \<longrightarrow> recorded_by {HUMAN} es p TYPE_QUESTION_ANSWERED (ae_event_id a) (ae_sequence a)))"
proof -
  note r = entry_recorded[OF assms(2)]
  have "\<exists>c. (accepted_in f ACCEPT (pe_proposal_id x) c \<or> accepted_in f REJECT (pe_proposal_id x) c)
      \<and> recorded_by {HUMAN, POLICY} es p TYPE_DECISION_RECORDED (ce_event_id c) (ce_sequence c)"
    if "x \<in> set (lf_proposals f)" "pe_accepted_by x \<noteq> None \<or> pe_revision_state x = REJECTED" for x
  proof -
    have "proposal_ok f x" using reachable_ledger(2)[OF assms] that(1) by (simp add: ledger_inv_def)
    with that(2) obtain c where "accepted_in f ACCEPT (pe_proposal_id x) c \<or> accepted_in f REJECT (pe_proposal_id x) c"
      by (auto simp: proposal_ok_def)
    moreover from this have "c \<in> set (lf_decisions f)" by (auto simp: accepted_in_def)
    ultimately show ?thesis using r(3) by blast
  qed
  then show ?thesis using r by blast
qed

theorem ledger_authority_witness:
  "\<exists>x. \<exists>c :: decision_entry. x \<in> set (lf_proposals (folded_ledger (proposed_log @ decided_log))) \<and> pe_accepted_by x = Some (U ''c'')
     \<and> recorded_by {HUMAN, POLICY} (proposed_log @ decided_log) (U ''p'') TYPE_DECISION_RECORDED (ce_event_id c) (ce_sequence c)"
proof -
  obtain x where x: "x \<in> set (lf_proposals (folded_ledger (proposed_log @ decided_log)))" "pe_accepted_by x = Some (U ''c'')"
    using sample_ledger_states(2) by (cases "lf_proposals (folded_ledger (proposed_log @ decided_log))") auto
  note a = ledger_authority[OF sample_ledger_log sample_ledgers(2)]
  from x(2) have "pe_accepted_by x \<noteq> None" by simp
  from mp[OF conjunct2[OF bspec[OF conjunct1[OF a] x(1)]] disjI1[OF this]] x show ?thesis by blast
qed

text \<open>C27: When \<open>ResearchControl.append\<close> returns, one decision fact was added to the log it had folded, numbered one
  past the head the caller expected; the new log folds too, to a ledger that extends the old one, and the document
  it returns is that ledger's document, with the new fact's sequence.  When it raises, the log is what it was,
  other writers apart.\<close>

theorem research_append_outcomes:
  assumes "env_ok env" "now \<noteq> Naive" "clock_ok now'" "store_inv env s" "report_ok env s" "page_size_ok page_size"
    "grows env others" "grows env others'" "draft_ok env document" "EventIdentifier p"
    "research_append env now now' others others' p page_size document expected s = (s', r)"
  shows "case r of
      Inr (st, doc) \<Rightarrow> \<exists>f g. store_inv env s' \<and> facts env s' = facts env s @ [fact_of st]
        \<and> stored_sequence st = int (length (facts env s)) + 1 \<and> (expected = None \<or> expected = Some (int (length (facts env s))))
        \<and> List.member DECISION_EVENT_TYPES (e_type (st_event st))
        \<and> fold_r (apply_ledger p) empty_ledger (facts env s) = Inr f
        \<and> fold_r (apply_ledger p) empty_ledger (facts env s') = Inr g \<and> ledger_kept f g \<and> doc = ledger_of p g (stored_sequence st)
    | Inl e \<Rightarrow> others = id \<and> others' = id \<longrightarrow> facts env s' = facts env s"
proof -
  let ?n = "int (length (facts env s))"
  obtain s1 where f: "research_rebuild env now others p page_size s =
      (s1, map_sum id (\<lambda>f. (?n, f, ledger_of p f ?n)) (fold_r (apply_ledger p) empty_ledger (facts env s)))"
    and i: "store_inv env s1" "prefix (facts env s) (facts env s1)" "others = id \<longrightarrow> db_events s1 = db_events s"
    by (rule research_rebuild_exact[OF assms(1,2,4-7,10)])
  note g = grows_at[OF assms(8) i(1)]
  have pre: "prefix (facts env s) (facts env (others' s1))" using i(2) g(2) by (rule prefix_order.trans)
  have quiet: "s' = s1 \<or> s' = others' s1 \<Longrightarrow> others = id \<and> others' = id \<longrightarrow> facts env s' = facts env s"
    using i(3) by (auto simp: facts_def)
  show ?thesis
  proof (cases "fold_r (apply_ledger p) empty_ledger (facts env s)")
    case (Inl e)
    then have "s' = s1" "r = Inl e" using assms(11) f by (simp_all add: research_append_def)
    with quiet show ?thesis by auto
  next
    case y: (Inr y)
    show ?thesis
    proof (cases "expected = None \<or> expected = Some ?n")
      case True
      then have "research_append_at env now' others' p ?n y document s1 = (s', r)"
        using assms(11) f y by (auto simp: research_append_def simp del: length_facts)
      note c = research_append_at_cases[where others = others' and s = s1, OF y assms(3,9,1,10) g(1) pre this]
      show ?thesis
      proof (cases r)
        case (Inl e)
        then show ?thesis using c quiet by simp
      next
        case (Inr a)
        obtain st doc where a: "a = (st, doc)" by fastforce
        obtain g where *: "store_inv env s'" "facts env s' = facts env s @ [fact_of st]" "apply_ledger p y (fact_of st) = Inr g"
          "fold_r (apply_ledger p) empty_ledger (facts env s') = Inr g" "stored_sequence st = ?n + 1"
          "List.member DECISION_EVENT_TYPES (e_type (st_event st))" "doc = ledger_of p g (stored_sequence st)"
          using c unfolding Inr a sum.case prod.case by blast
        have "ledger_log (facts env s @ [fact_of st])" using facts_ledger_log[OF *(1)] *(2) by simp
        from reachable_kept[OF this y] *(3) have "ledger_kept y g" by (simp add: result_simps)
        with * y True show ?thesis unfolding Inr a sum.case prod.case by blast
      qed
    next
      case False
      then obtain x where "expected = Some x" "?n \<noteq> x" by (cases expected) auto
      then have "s' = s1" "\<exists>e. r = Inl e" using assms(11) f y by (auto simp add: research_append_def simp del: length_facts)
      then show ?thesis using quiet by auto
    qed
  qed
qed

theorem research_append_outcomes_witness:
  "\<exists>s' st doc g. first_question = (s', Inr (st, doc)) \<and> facts sample_env s' = [fact_of st] \<and> stored_sequence st = 1
     \<and> fold_r (apply_ledger (U ''p'')) empty_ledger (facts sample_env s') = Inr g \<and> doc = ledger_of (U ''p'') g 1"
proof (rule first_question_succeeds)
  fix s' st doc assume r: "first_question = (s', Inr (st, doc))"
  from r research_append_outcomes[OF sample_env_ok(1) sample_clock_ok(2,1) empty_store_ok(1,2) page_of_100
      grows_id(1) grows_id(1) asked_draft_ok project_p r]
  show ?thesis by auto
qed

end
