(* ===== verification/Research_Requests.thy ===== *)
theory Research_Requests
  imports Requests Research_Control
begin

text \<open>
  \<open>research/requests.py\<close>: the five closed request documents of the research ledger and the event
  drafts they are turned into.  A request holds the fields of the payload it becomes; its own
  \<open>experimentRevision\<close> and \<open>evidenceRefs\<close> are the payload's base revision and references.
\<close>

definition decode_proposal_actor :: "pyval \<Rightarrow> event_actor option" where
  "decode_proposal_actor = decode_model_actor [HUMAN, AI]"

definition decode_decision_actor :: "pyval \<Rightarrow> event_actor option" where
  "decode_decision_actor = decode_plain_actor [HUMAN, POLICY]"

definition decode_question_actor :: "pyval \<Rightarrow> event_actor option" where
  "decode_question_actor = decode_model_actor [AI, SYSTEM]"

definition decode_answer_actor :: "pyval \<Rightarrow> event_actor option" where
  "decode_answer_actor = decode_plain_actor [HUMAN]"

section \<open>The five requests\<close>

datatype research_request =
    ProposalSubmitRequest request_head proposal_payload
  | DissentRecordRequest request_head dissent_payload
  | DecisionRecordRequest request_head decision_payload
  | QuestionAskRequest request_head question_payload
  | QuestionAnswerRequest request_head answer_payload

definition validate_proposal_submit_request :: "pyval \<Rightarrow> research_request option" where
  "validate_proposal_submit_request v = do {
     d \<leftarrow> as_dict v;
     check_o (only_keys (request_keys @ [U ''proposalId'', U ''specDiffDigest'', U ''proposedSpecDigest'', U ''rationale'',
       U ''predictions'', U ''falsificationConditions'', U ''riskAssessment'']) d);
     h \<leftarrow> decode_request_head ''ProposalSubmitRequest'' decode_proposal_actor decode_evidence_refs d;
     i \<leftarrow> req_field d (U ''proposalId'') decode_identifier;
     g \<leftarrow> req_field d (U ''specDiffDigest'') decode_jcs;
     g' \<leftarrow> req_field d (U ''proposedSpecDigest'') decode_jcs;
     r \<leftarrow> req_field d (U ''rationale'') decode_decision_text;
     p \<leftarrow> req_field d (U ''predictions'') (decode_array 1 MAX_DECISION_LIST decode_prediction);
     f \<leftarrow> req_field d (U ''falsificationConditions'') (decode_unique 1 MAX_DECISION_LIST decode_item_text);
     a \<leftarrow> req_field d (U ''riskAssessment'') decode_risk;
     check_o (length (List.map pp_id p) = card (set (List.map pp_id p)));
     Some (ProposalSubmitRequest h \<lparr>pr_proposal_id = i, pr_base_revision = rq_experiment_revision h, pr_spec_diff_digest = g,
       pr_proposed_spec_digest = g', pr_rationale = r, pr_predictions = p, pr_falsification_conditions = f,
       pr_risk_assessment = a, pr_evidence_refs = rq_evidence_refs h\<rparr>) }"

definition validate_dissent_record_request :: "pyval \<Rightarrow> research_request option" where
  "validate_dissent_record_request v = do {
     d \<leftarrow> as_dict v;
     check_o (only_keys (request_keys @ [U ''dissentId'', U ''targetKind'', U ''targetId'', U ''objections'']) d);
     h \<leftarrow> decode_request_head ''DissentRecordRequest'' decode_proposal_actor decode_evidence_refs d;
     i \<leftarrow> req_field d (U ''dissentId'') decode_identifier;
     k \<leftarrow> req_field d (U ''targetKind'') (\<lambda>v. Option.bind (as_str v) dissent_target_of);
     t \<leftarrow> req_field d (U ''targetId'') decode_identifier;
     os \<leftarrow> req_field d (U ''objections'') (decode_array 1 MAX_DECISION_LIST decode_objection);
     Some (DissentRecordRequest h \<lparr>dp_dissent_id = i, dp_target_kind = k, dp_target_id = t, dp_objections = os,
       dp_evidence_refs = rq_evidence_refs h\<rparr>) }"

definition validate_decision_record_request :: "pyval \<Rightarrow> research_request option" where
  "validate_decision_record_request v = do {
     d \<leftarrow> as_dict v;
     check_o (only_keys (request_keys @ [U ''decisionId'', U ''targetKind'', U ''targetId'', U ''outcome'', U ''rationale'',
       U ''overriddenDissentIds'']) d);
     h \<leftarrow> decode_request_head ''DecisionRecordRequest'' decode_decision_actor decode_evidence_refs d;
     i \<leftarrow> req_field d (U ''decisionId'') decode_identifier;
     k \<leftarrow> req_field d (U ''targetKind'') (\<lambda>v. Option.bind (as_str v) decision_target_of);
     t \<leftarrow> req_field d (U ''targetId'') decode_identifier;
     oc \<leftarrow> req_field d (U ''outcome'') (\<lambda>v. Option.bind (as_str v) outcome_of);
     r \<leftarrow> req_field d (U ''rationale'') decode_decision_text;
     ov \<leftarrow> req_field d (U ''overriddenDissentIds'') (decode_unique 0 MAX_DECISION_LIST decode_identifier);
     Some (DecisionRecordRequest h \<lparr>dc_decision_id = i, dc_target_kind = k, dc_target_id = t, dc_outcome = oc,
       dc_rationale = r, dc_overridden_dissent_ids = ov, dc_evidence_refs = rq_evidence_refs h\<rparr>) }"

definition validate_question_ask_request :: "pyval \<Rightarrow> research_request option" where
  "validate_question_ask_request v = do {
     d \<leftarrow> as_dict v;
     check_o (only_keys (request_keys @ [U ''questionId'', U ''question'', U ''uncertainty'', U ''whyNotObservable'',
       U ''options'', U ''blocking'', U ''relatedProposalId'']) d);
     h \<leftarrow> decode_request_head ''QuestionAskRequest'' decode_question_actor decode_evidence_refs d;
     i \<leftarrow> req_field d (U ''questionId'') decode_identifier;
     q \<leftarrow> req_field d (U ''question'') decode_decision_text;
     u \<leftarrow> req_field d (U ''uncertainty'') decode_decision_text;
     w \<leftarrow> req_field d (U ''whyNotObservable'') decode_decision_text;
     os \<leftarrow> omit_field d (U ''options'') (decode_unique 1 MAX_DECISION_LIST decode_item_text);
     b \<leftarrow> req_field d (U ''blocking'') as_bool;
     r \<leftarrow> omit_field d (U ''relatedProposalId'') decode_identifier;
     Some (QuestionAskRequest h \<lparr>qp_question_id = i, qp_question = q, qp_uncertainty = u, qp_why_not_observable = w,
       qp_options = os, qp_blocking = b, qp_related_proposal_id = r, qp_evidence_refs = rq_evidence_refs h\<rparr>) }"

definition validate_question_answer_request :: "pyval \<Rightarrow> research_request option" where
  "validate_question_answer_request v = do {
     d \<leftarrow> as_dict v;
     check_o (only_keys (request_keys @ [U ''questionId'', U ''answer'', U ''rights'']) d);
     h \<leftarrow> decode_request_head ''QuestionAnswerRequest'' decode_answer_actor decode_evidence_refs d;
     i \<leftarrow> req_field d (U ''questionId'') decode_identifier;
     a \<leftarrow> req_field d (U ''answer'') decode_answer;
     r \<leftarrow> req_field d (U ''rights'') decode_rights;
     Some (QuestionAnswerRequest h \<lparr>ap_question_id = i, ap_answer = a, ap_rights = r, ap_evidence_refs = rq_evidence_refs h\<rparr>) }"

section \<open>The drafts\<close>

text \<open>\<open>model_dump(mode="json", by_alias=True)\<close> of the parts, without the fields that are null\<close>

definition dump_prediction :: "proposal_prediction \<Rightarrow> pyval" where
  "dump_prediction p = PyDict ([(KStr (U ''id''), PyStr (pp_id p)), (KStr (U ''statement''), PyStr (pp_statement p))]
     @ key_if ''metric'' (pp_metric p) @ [(KStr (U ''expectedDirection''), PyStr (pp_expected_direction p))])"

definition dump_risk :: "risk_assessment \<Rightarrow> pyval" where
  "dump_risk r = PyDict [(KStr (U ''data''), PyStr (ra_data r)), (KStr (U ''method''), PyStr (ra_method r)),
     (KStr (U ''safety''), PyStr (ra_safety r)), (KStr (U ''cost''), PyStr (ra_cost r))]"

definition dump_objection :: "dissent_objection \<Rightarrow> pyval" where
  "dump_objection x = PyDict [(KStr (U ''kind''), PyStr (do_kind x)), (KStr (U ''statement''), PyStr (do_statement x))]"

definition dump_answer :: "question_answer \<Rightarrow> pyval" where
  "dump_answer a = (case a of AnswerText t \<Rightarrow> PyDict [(KStr (U ''text''), PyStr t)]
     | AnswerOption x \<Rightarrow> PyDict [(KStr (U ''option''), PyStr x)])"

definition dump_rights :: "answer_rights \<Rightarrow> pyval" where
  "dump_rights r = PyDict [(KStr (U ''status''), PyStr (ar_status r)), (KStr (U ''allowedUses''), text_list (ar_allowed_uses r))]"

text \<open>\<open>DissentTargetKind.value\<close>, \<open>DecisionTargetKind.value\<close> and \<open>DecisionOutcome.value\<close>\<close>

definition dissent_target_value :: "dissent_target_kind \<Rightarrow> pystr" where
  "dissent_target_value k = (case k of DissentProposal \<Rightarrow> U ''proposal'' | DissentDecision \<Rightarrow> U ''decision'')"

definition decision_target_value :: "decision_target_kind \<Rightarrow> pystr" where
  "decision_target_value k = (case k of TargetProposal \<Rightarrow> U ''proposal'' | TargetRun \<Rightarrow> U ''run''
     | TargetDissent \<Rightarrow> U ''dissent'' | TargetQuestion \<Rightarrow> U ''question'')"

definition outcome_value :: "decision_outcome \<Rightarrow> pystr" where
  "outcome_value k = (case k of ACCEPT \<Rightarrow> U ''accept'' | REJECT \<Rightarrow> U ''reject'' | MODIFY \<Rightarrow> U ''modify''
     | CONTINUE \<Rightarrow> U ''continue'' | DEFER \<Rightarrow> U ''defer'')"

definition proposal_document :: "request_head \<Rightarrow> proposal_payload \<Rightarrow> pydict" where
  "proposal_document h p =
     [(KStr (U ''proposalId''), PyStr (pr_proposal_id p)), (KStr (U ''baseRevision''), PyInt (rq_experiment_revision h)),
      (KStr (U ''specDiffDigest''), PyStr (pr_spec_diff_digest p)),
      (KStr (U ''proposedSpecDigest''), PyStr (pr_proposed_spec_digest p)), (KStr (U ''rationale''), PyStr (pr_rationale p)),
      (KStr (U ''predictions''), PyList (List.map dump_prediction (pr_predictions p))),
      (KStr (U ''falsificationConditions''), text_list (pr_falsification_conditions p)),
      (KStr (U ''riskAssessment''), dump_risk (pr_risk_assessment p)), (KStr (U ''evidenceRefs''), text_list (rq_evidence_refs h))]"

definition dissent_document :: "request_head \<Rightarrow> dissent_payload \<Rightarrow> pydict" where
  "dissent_document h p =
     [(KStr (U ''dissentId''), PyStr (dp_dissent_id p)), (KStr (U ''targetKind''), PyStr (dissent_target_value (dp_target_kind p))),
      (KStr (U ''targetId''), PyStr (dp_target_id p)), (KStr (U ''objections''), PyList (List.map dump_objection (dp_objections p))),
      (KStr (U ''evidenceRefs''), text_list (rq_evidence_refs h))]"

definition decision_document :: "request_head \<Rightarrow> decision_payload \<Rightarrow> pydict" where
  "decision_document h p =
     [(KStr (U ''decisionId''), PyStr (dc_decision_id p)), (KStr (U ''targetKind''), PyStr (decision_target_value (dc_target_kind p))),
      (KStr (U ''targetId''), PyStr (dc_target_id p)), (KStr (U ''outcome''), PyStr (outcome_value (dc_outcome p))),
      (KStr (U ''rationale''), PyStr (dc_rationale p)), (KStr (U ''overriddenDissentIds''), text_list (dc_overridden_dissent_ids p)),
      (KStr (U ''evidenceRefs''), text_list (rq_evidence_refs h))]"

definition question_document :: "request_head \<Rightarrow> question_payload \<Rightarrow> pydict" where
  "question_document h p =
     [(KStr (U ''questionId''), PyStr (qp_question_id p)), (KStr (U ''question''), PyStr (qp_question p)),
      (KStr (U ''uncertainty''), PyStr (qp_uncertainty p)), (KStr (U ''whyNotObservable''), PyStr (qp_why_not_observable p)),
      (KStr (U ''blocking''), PyBool (qp_blocking p)), (KStr (U ''evidenceRefs''), text_list (rq_evidence_refs h))]
     @ (case qp_options p of None \<Rightarrow> [] | Some os \<Rightarrow> [(KStr (U ''options''), text_list os)])
     @ key_if ''relatedProposalId'' (qp_related_proposal_id p)"

definition answer_document :: "request_head \<Rightarrow> answer_payload \<Rightarrow> pydict" where
  "answer_document h p =
     [(KStr (U ''questionId''), PyStr (ap_question_id p)), (KStr (U ''answer''), dump_answer (ap_answer p)),
      (KStr (U ''rights''), dump_rights (ap_rights p)), (KStr (U ''evidenceRefs''), text_list (rq_evidence_refs h))]"

text \<open>\<open>event_draft\<close> of the five requests: only a decision about a run names the run in the event.\<close>

fun research_draft :: "research_request \<Rightarrow> pydict" where
  "research_draft (ProposalSubmitRequest h p) = request_event_draft TYPE_PROPOSAL_SUBMITTED h (proposal_document h p) None"
| "research_draft (DissentRecordRequest h p) = request_event_draft TYPE_DISSENT_RECORDED h (dissent_document h p) None"
| "research_draft (DecisionRecordRequest h p) = request_event_draft TYPE_DECISION_RECORDED h (decision_document h p)
     (if dc_target_kind p = TargetRun then Some (dc_target_id p) else None)"
| "research_draft (QuestionAskRequest h p) = request_event_draft TYPE_QUESTION_ASKED h (question_document h p) None"
| "research_draft (QuestionAnswerRequest h p) = request_event_draft TYPE_QUESTION_ANSWERED h (answer_document h p) None"

section \<open>Requests survive as payloads\<close>

lemma codec_research_texts: "codec PyStr decode_decision_text" "codec PyStr decode_item_text" "codec PyStr decode_jcs"
  unfolding decode_decision_text_def[abs_def] decode_item_text_def[abs_def] decode_jcs_def[abs_def] by (rule codec_str)+

lemma codec_lists: "codec text_list decode_evidence_refs" "codec text_list decode_uses"
  unfolding decode_evidence_refs_def decode_uses_def by (rule codec_text_list codec_fields)+

lemma target_values [simp]: "dissent_target_of (dissent_target_value k) = Some k" "utf8_ok (dissent_target_value k)"
  "decision_target_of (decision_target_value t) = Some t" "utf8_ok (decision_target_value t)"
  "outcome_of (outcome_value c) = Some c" "utf8_ok (outcome_value c)"
  by (cases k; cases t; cases c; simp add: dissent_target_of_def dissent_target_value_def decision_target_of_def
    decision_target_value_def outcome_of_def outcome_value_def)+

lemmas simple_codecs = codec_fields codec_range codec_research_texts codec_lists codec_bool
lemmas simple_reads = simple_codecs[THEN codec_reads(1)] simple_codecs[THEN codec_reads(2), simplified]

lemma codec_prediction: "codec dump_prediction decode_prediction"
proof (unfold codec_def, intro allI impI)
  fix v p assume "decode_prediction v = Some p"
  then have "readable decode_identifier (pp_id p)" "readable decode_item_text (pp_statement p)"
    "readable (decode_literal EXPECTED_DIRECTIONS) (pp_expected_direction p)" "\<forall>m. pp_metric p = Some m \<longrightarrow> readable decode_identifier m"
    by (auto simp: decode_prediction_def read_simps)
  then show "decode_prediction (dump_prediction p) = Some p \<and> plain_tree (dump_prediction p)"
    by (cases "pp_metric p") (auto simp: decode_prediction_def dump_prediction_def field_reading simple_reads INLINE_BODY_KEYS_def)
qed

lemma codec_risk: "codec dump_risk decode_risk"
proof (unfold codec_def, intro allI impI)
  fix v p assume "decode_risk v = Some p"
  then have "readable (decode_within 0 MAX_DECISION_TEXT) (ra_data p)" "readable (decode_within 0 MAX_DECISION_TEXT) (ra_method p)"
    "readable (decode_within 0 MAX_DECISION_TEXT) (ra_safety p)" "readable (decode_within 0 MAX_DECISION_TEXT) (ra_cost p)"
    by (auto simp: decode_risk_def read_simps)
  then show "decode_risk (dump_risk p) = Some p \<and> plain_tree (dump_risk p)"
    by (simp add: decode_risk_def dump_risk_def field_reading simple_reads INLINE_BODY_KEYS_def)
qed

lemma codec_objection: "codec dump_objection decode_objection"
proof (unfold codec_def, intro allI impI)
  fix v p assume "decode_objection v = Some p"
  then have "readable (decode_literal OBJECTION_KINDS) (do_kind p)" "readable decode_item_text (do_statement p)"
    by (auto simp: decode_objection_def read_simps)
  then show "decode_objection (dump_objection p) = Some p \<and> plain_tree (dump_objection p)"
    by (simp add: decode_objection_def dump_objection_def field_reading simple_reads INLINE_BODY_KEYS_def)
qed

lemma codec_answer: "codec dump_answer decode_answer"
proof (unfold codec_def, intro allI impI)
  fix v p assume "decode_answer v = Some p"
  then have "case p of AnswerText t \<Rightarrow> readable decode_decision_text t | AnswerOption x \<Rightarrow> readable decode_item_text x"
    by (auto simp: decode_answer_def read_simps exactly_one_answer_key_def) (blast+)?
  then show "decode_answer (dump_answer p) = Some p \<and> plain_tree (dump_answer p)"
    by (cases p) (simp_all add: decode_answer_def dump_answer_def field_reading simple_reads INLINE_BODY_KEYS_def exactly_one_answer_key_def)
qed

lemma codec_rights: "codec dump_rights decode_rights"
proof (unfold codec_def, intro allI impI)
  fix v p assume v: "decode_rights v = Some p"
  have "readable decode_uses [U ''research-read'']"
    by (rule readableI[of _ "text_list [U ''research-read'']"])
      (simp add: decode_uses_def decode_array_def decode_literal_def keep_o_def text_list_def List.member_iff DATA_USES_def MAX_ALLOWED_USES_def)
  then have "readable (decode_literal RIGHTS) (ar_status p)" "readable decode_uses (ar_allowed_uses p)"
    "unknown_rights_cannot_train (ar_status p) (ar_allowed_uses p)"
    using v by (auto simp: decode_rights_def read_simps) (blast+)?
  then show "decode_rights (dump_rights p) = Some p \<and> plain_tree (dump_rights p)"
    by (simp add: decode_rights_def dump_rights_def field_reading simple_reads INLINE_BODY_KEYS_def)
qed

lemmas part_codecs = codec_array[OF codec_prediction] codec_array[OF codec_objection] codec_text_list(2)[OF codec_research_texts(2)]
  codec_text_list(2)[OF codec_fields(1)] codec_risk codec_answer codec_rights
lemmas request_reads = simple_reads part_codecs[THEN codec_reads(1)] part_codecs[THEN codec_reads(2)]

lemma request_actors_ok:
  "\<forall>v a. decode_proposal_actor v = Some a \<longrightarrow> event_actor_valid a \<and> (\<exists>k. actor_kind_field a = Some k \<and> List.member [HUMAN, AI] k)"
  "\<forall>v a. decode_decision_actor v = Some a \<longrightarrow> event_actor_valid a \<and> (\<exists>k. actor_kind_field a = Some k \<and> List.member [HUMAN, POLICY] k)"
  "\<forall>v a. decode_question_actor v = Some a \<longrightarrow> event_actor_valid a \<and> (\<exists>k. actor_kind_field a = Some k \<and> List.member [AI, SYSTEM] k)"
  "\<forall>v a. decode_answer_actor v = Some a \<longrightarrow> event_actor_valid a \<and> (\<exists>k. actor_kind_field a = Some k \<and> List.member [HUMAN] k)"
  unfolding decode_proposal_actor_def decode_decision_actor_def decode_question_actor_def decode_answer_actor_def
  by (blast dest: decode_model_actor_ok decode_plain_actor_ok)+

section \<open>Each request is accepted as its payload\<close>

fun request_head_of :: "research_request \<Rightarrow> request_head" where
  "request_head_of (ProposalSubmitRequest h _) = h" | "request_head_of (DissentRecordRequest h _) = h"
| "request_head_of (DecisionRecordRequest h _) = h" | "request_head_of (QuestionAskRequest h _) = h"
| "request_head_of (QuestionAnswerRequest h _) = h"

fun request_type :: "research_request \<Rightarrow> pystr" where
  "request_type (ProposalSubmitRequest _ _) = TYPE_PROPOSAL_SUBMITTED" | "request_type (DissentRecordRequest _ _) = TYPE_DISSENT_RECORDED"
| "request_type (DecisionRecordRequest _ _) = TYPE_DECISION_RECORDED" | "request_type (QuestionAskRequest _ _) = TYPE_QUESTION_ASKED"
| "request_type (QuestionAnswerRequest _ _) = TYPE_QUESTION_ANSWERED"

fun request_document :: "research_request \<Rightarrow> pydict" where
  "request_document (ProposalSubmitRequest h p) = proposal_document h p" | "request_document (DissentRecordRequest h p) = dissent_document h p"
| "request_document (DecisionRecordRequest h p) = decision_document h p" | "request_document (QuestionAskRequest h p) = question_document h p"
| "request_document (QuestionAnswerRequest h p) = answer_document h p"

fun request_run :: "research_request \<Rightarrow> pystr option" where
  "request_run (DecisionRecordRequest _ p) = (if dc_target_kind p = TargetRun then Some (dc_target_id p) else None)"
| "request_run _ = None"

fun request_payload :: "research_request \<Rightarrow> research_payload" where
  "request_payload (ProposalSubmitRequest _ p) = ProposalSubmittedPayload p" | "request_payload (DissentRecordRequest _ p) = DissentRecordedPayload p"
| "request_payload (DecisionRecordRequest _ p) = DecisionRecordedPayload p" | "request_payload (QuestionAskRequest _ p) = QuestionAskedPayload p"
| "request_payload (QuestionAnswerRequest _ p) = QuestionAnsweredPayload p"

lemma research_draft_parts:
  "research_draft q = request_event_draft (request_type q) (request_head_of q) (request_document q) (request_run q)"
  by (cases q) simp_all

definition refs_ok :: "pystr list \<Rightarrow> bool" where
  "refs_ok xs \<longleftrightarrow> list_all EventIdentifier xs \<and> distinct xs"

lemma head_refs_ok: "readable decode_evidence_refs xs \<Longrightarrow> refs_ok xs"
  unfolding readable_def decode_evidence_refs_def refs_ok_def using decoded_identifiers by blast

definition request_ok :: "research_request \<Rightarrow> bool" where
  "request_ok q \<longleftrightarrow> request_head_ok (request_head_of q) \<and> refs_ok (rq_evidence_refs (request_head_of q))
     \<and> payload_evidence_refs (request_payload q) = rq_evidence_refs (request_head_of q)
     \<and> (\<exists>k kinds. actor_kind_field (rq_actor (request_head_of q)) = Some k \<and> map_of ALLOWED_ACTOR_KINDS (request_type q) = Some kinds
         \<and> List.member kinds k)
     \<and> (\<exists>dec. map_of RESEARCH_PAYLOAD_MODELS (request_type q) = Some dec
         \<and> dec (PyDict (request_document q)) = Some (request_payload q))
     \<and> plain_tree (PyDict (request_document q)) \<and> pred_option EventIdentifier (request_run q)
     \<and> (case request_payload q of ProposalSubmittedPayload p \<Rightarrow> pr_base_revision p = rq_experiment_revision (request_head_of q) | _ \<Rightarrow> True)"

lemmas request_defs = request_ok_def payload_evidence_refs_def ALLOWED_ACTOR_KINDS_def RESEARCH_PAYLOAD_MODELS_def research_types
  field_reading INLINE_BODY_KEYS_def

lemma proposal_request_ok:
  assumes "validate_proposal_submit_request v = Some q" shows "request_ok q"
proof -
  obtain h p where q: "q = ProposalSubmitRequest h p" using assms by (auto simp: validate_proposal_submit_request_def decode_simps)
  from assms have "\<exists>d. decode_request_head ''ProposalSubmitRequest'' decode_proposal_actor decode_evidence_refs d = Some h" and p: "pr_evidence_refs p = rq_evidence_refs h" "pr_base_revision p = rq_experiment_revision h"
    "readable decode_identifier (pr_proposal_id p)" "readable decode_jcs (pr_spec_diff_digest p)" "readable decode_jcs (pr_proposed_spec_digest p)" "readable decode_decision_text (pr_rationale p)" "readable (decode_array 1 MAX_DECISION_LIST decode_prediction) (pr_predictions p)" "readable (decode_unique 1 MAX_DECISION_LIST decode_item_text) (pr_falsification_conditions p)" "readable decode_risk (pr_risk_assessment p)" "length (List.map pp_id (pr_predictions p)) = card (set (List.map pp_id (pr_predictions p)))"
    unfolding q by (auto simp: validate_proposal_submit_request_def read_simps) (blast+)?
  then obtain d where h: "decode_request_head ''ProposalSubmitRequest'' decode_proposal_actor decode_evidence_refs d = Some h" by blast
  note head = decode_request_head_ok[OF h request_actors_ok(1)]
  show ?thesis using head p head_refs_ok[OF head(4)]
    by (auto simp: q request_defs decode_proposal_def proposal_document_def request_reads simp del: plain_list)
qed

lemma dissent_request_ok:
  assumes "validate_dissent_record_request v = Some q" shows "request_ok q"
proof -
  obtain h p where q: "q = DissentRecordRequest h p" using assms by (auto simp: validate_dissent_record_request_def decode_simps)
  from assms have "\<exists>d. decode_request_head ''DissentRecordRequest'' decode_proposal_actor decode_evidence_refs d = Some h" and p: "dp_evidence_refs p = rq_evidence_refs h"
    "readable decode_identifier (dp_dissent_id p)" "readable decode_identifier (dp_target_id p)" "readable (decode_array 1 MAX_DECISION_LIST decode_objection) (dp_objections p)"
    unfolding q by (auto simp: validate_dissent_record_request_def read_simps) (blast+)?
  then obtain d where h: "decode_request_head ''DissentRecordRequest'' decode_proposal_actor decode_evidence_refs d = Some h" by blast
  note head = decode_request_head_ok[OF h request_actors_ok(1)]
  show ?thesis using head p head_refs_ok[OF head(4)]
    by (auto simp: q request_defs decode_dissent_def dissent_document_def request_reads simp del: plain_list)
qed

lemma decision_request_ok:
  assumes "validate_decision_record_request v = Some q" shows "request_ok q"
proof -
  obtain h p where q: "q = DecisionRecordRequest h p" using assms by (auto simp: validate_decision_record_request_def decode_simps)
  from assms have "\<exists>d. decode_request_head ''DecisionRecordRequest'' decode_decision_actor decode_evidence_refs d = Some h" and p: "dc_evidence_refs p = rq_evidence_refs h"
    "readable decode_identifier (dc_decision_id p)" "readable decode_identifier (dc_target_id p)" "readable decode_decision_text (dc_rationale p)" "readable (decode_unique 0 MAX_DECISION_LIST decode_identifier) (dc_overridden_dissent_ids p)"
    unfolding q by (auto simp: validate_decision_record_request_def read_simps) (blast+)?
  then obtain d where h: "decode_request_head ''DecisionRecordRequest'' decode_decision_actor decode_evidence_refs d = Some h" by blast
  note head = decode_request_head_ok[OF h request_actors_ok(2)]
  show ?thesis using head p head_refs_ok[OF head(4)]
    by (auto simp: q request_defs decode_decision_def decision_document_def request_reads reads_identifier simp del: plain_list)
qed

lemma question_request_ok:
  assumes "validate_question_ask_request v = Some q" shows "request_ok q"
proof -
  obtain h p where q: "q = QuestionAskRequest h p" using assms by (auto simp: validate_question_ask_request_def decode_simps)
  from assms have "\<exists>d. decode_request_head ''QuestionAskRequest'' decode_question_actor decode_evidence_refs d = Some h" and p: "qp_evidence_refs p = rq_evidence_refs h"
    "readable decode_identifier (qp_question_id p)" "readable decode_decision_text (qp_question p)" "readable decode_decision_text (qp_uncertainty p)" "readable decode_decision_text (qp_why_not_observable p)" "\<forall>os. qp_options p = Some os \<longrightarrow> readable (decode_unique 1 MAX_DECISION_LIST decode_item_text) os" "\<forall>i. qp_related_proposal_id p = Some i \<longrightarrow> readable decode_identifier i"
    unfolding q by (auto simp: validate_question_ask_request_def read_simps) (blast+)?
  then obtain d where h: "decode_request_head ''QuestionAskRequest'' decode_question_actor decode_evidence_refs d = Some h" by blast
  note head = decode_request_head_ok[OF h request_actors_ok(3)]
  show ?thesis using head p head_refs_ok[OF head(4)]
    by (cases "qp_options p"; cases "qp_related_proposal_id p")
      (auto simp: q request_defs decode_question_def question_document_def request_reads simp del: plain_list)
qed

lemma answer_request_ok:
  assumes "validate_question_answer_request v = Some q" shows "request_ok q"
proof -
  obtain h p where q: "q = QuestionAnswerRequest h p" using assms by (auto simp: validate_question_answer_request_def decode_simps)
  from assms have "\<exists>d. decode_request_head ''QuestionAnswerRequest'' decode_answer_actor decode_evidence_refs d = Some h" and p: "ap_evidence_refs p = rq_evidence_refs h"
    "readable decode_identifier (ap_question_id p)" "readable decode_answer (ap_answer p)" "readable decode_rights (ap_rights p)"
    unfolding q by (auto simp: validate_question_answer_request_def read_simps) (blast+)?
  then obtain d where h: "decode_request_head ''QuestionAnswerRequest'' decode_answer_actor decode_evidence_refs d = Some h" by blast
  note head = decode_request_head_ok[OF h request_actors_ok(4)]
  show ?thesis using head p head_refs_ok[OF head(4)]
    by (auto simp: q request_defs decode_answered_def answer_document_def request_reads simp del: plain_list)
qed

section \<open>What is left to the ledger\<close>

text \<open>The codes with which the ledger refuses an event whose envelope and payload disagree.\<close>

definition envelope_codes :: "string set" where
  "envelope_codes = {''proposal-revision-mismatch'', ''unexpected-run-id'', ''run-target-mismatch'', ''evidence-refs-mismatch''}"

definition envelope_agrees :: "research_error + 'a \<Rightarrow> bool" where
  "envelope_agrees r \<longleftrightarrow> (\<forall>c. r = Inl (ResearchLedgerError c) \<longrightarrow> c \<notin> envelope_codes)"

lemma envelope_agrees_simps [simp]: "envelope_agrees (Inr x)" "envelope_agrees (ledger_error c) \<longleftrightarrow> c \<notin> envelope_codes"
  "envelope_agrees (validated P y)"
  by (simp_all add: envelope_agrees_def validated_def)

lemma envelope_agrees_bind: "envelope_agrees m \<Longrightarrow> (\<And>x. envelope_agrees (f x)) \<Longrightarrow> envelope_agrees (bind_r m f)"
  by (cases m) (auto simp: envelope_agrees_def)

lemma envelope_agrees_fold: "(\<And>s x. envelope_agrees (f s x)) \<Longrightarrow> envelope_agrees (fold_r f s xs)"
  by (induction xs arbitrary: s) (auto intro: envelope_agrees_bind)

lemma envelope_agrees_map: "(\<And>x. envelope_agrees (f x)) \<Longrightarrow> envelope_agrees (map_r f xs)"
  by (induction xs) (auto intro!: envelope_agrees_bind)

lemma envelope_agrees_parts: "envelope_agrees (check_overridden f n i)" "envelope_agrees (check_question_target f p)"
  "envelope_agrees (apply_proposal_outcome ps p)" "envelope_agrees (mark_dissent p x)" "envelope_agrees (mark_overridden_dissents ds p)"
proof -
  show "envelope_agrees (check_overridden f n i)" "envelope_agrees (check_question_target f p)" "envelope_agrees (apply_proposal_outcome ps p)"
    by (simp_all add: check_overridden_def check_question_target_def apply_proposal_outcome_def envelope_codes_def split: option.split)
  show m: "envelope_agrees (mark_dissent p x)" for x by (simp add: mark_dissent_def Let_def envelope_codes_def)
  show "envelope_agrees (mark_overridden_dissents ds p)"
    unfolding mark_overridden_dissents_def using m by (simp add: envelope_agrees_map)
qed

lemma request_envelope_agrees:
  assumes "request_ok q" "ed_experiment_revision (e_data e) = rq_experiment_revision (request_head_of q)" "ed_run_id (e_data e) = request_run q"
  shows "envelope_agrees (apply_research_payload f e (request_payload q))"
  using assms
  by (cases q) (auto simp: apply_research_payload_def request_ok_def apply_proposal_def apply_dissent_def apply_decision_def
      apply_question_asked_def apply_question_answered_def envelope_codes_def Let_def split: option.split
      intro!: envelope_agrees_bind envelope_agrees_fold envelope_agrees_parts)

lemma request_types: "EventIdentifier (request_type q)" "List.member DECISION_EVENT_TYPES (request_type q)" "request_type q \<noteq> TYPE_RUN_QUEUED"
proof -
  have "EventIdentifier TYPE_PROPOSAL_SUBMITTED" "EventIdentifier TYPE_DISSENT_RECORDED" "EventIdentifier TYPE_DECISION_RECORDED"
    "EventIdentifier TYPE_QUESTION_ASKED" "EventIdentifier TYPE_QUESTION_ANSWERED" by code_simp+
  then show "EventIdentifier (request_type q)" by (cases q) simp_all
  show "List.member DECISION_EVENT_TYPES (request_type q)" "request_type q \<noteq> TYPE_RUN_QUEUED"
    by (cases q; simp add: DECISION_EVENT_TYPES_def research_types TYPE_RUN_QUEUED_def List.member_iff)+
qed

lemma request_applied:
  assumes "request_ok q" "e = request_drafted (request_type q) (request_head_of q) (request_document q) (request_run q) n"
  shows "apply_ledger (rq_project_id (request_head_of q)) f e = apply_research_payload f e (request_payload q)"
    "envelope_agrees (apply_research_payload f e (request_payload q))"
proof -
  have e: "e_type e = request_type q" "e_data e = draft_data_of (rq_actor (request_head_of q)) (rq_project_id (request_head_of q))
      (rq_experiment_revision (request_head_of q)) (request_document q) (rq_evidence_refs (request_head_of q)) (request_run q) None"
    by (simp_all add: assms(2) request_drafted_def drafted_def)
  have o: "observe_run f e = f" using request_types(3)[of q] by (simp add: observe_run_def e split: option.split)
  have "require_actor_kind e = Inr ()" "parse_decision_payload e = Inr (request_payload q)"
    using assms(1) by (auto simp: request_ok_def require_actor_kind_def parse_decision_payload_def e draft_data_of_def check_r_def lift_option_def)
  then show "apply_ledger (rq_project_id (request_head_of q)) f e = apply_research_payload f e (request_payload q)"
    using request_types(2)[of q] assms(1) by (simp add: apply_ledger_def o) (simp add: e draft_data_of_def request_ok_def)
  show "envelope_agrees (apply_research_payload f e (request_payload q))"
    by (rule request_envelope_agrees[OF assms(1)]) (simp_all add: e draft_data_of_def)
qed

text \<open>C18: A validated request is only ever refused for what it says.  Its draft passes every check that
  \<open>ResearchControl\<close> makes before the ledger is asked (it copies, carries no field of the store, validates and belongs to
  the project), the event has the request's actor, id and references, the actor is allowed and the payload reads back as
  the request's fields; and the ledger never refuses it for an envelope that contradicts its payload.\<close>

theorem research_request_reaches_ledger:
  assumes "validate \<in> {validate_proposal_submit_request, validate_dissent_record_request, validate_decision_record_request,
      validate_question_ask_request, validate_question_answer_request}" "validate v = Some q"
    "p = rq_project_id (request_head_of q)" "0 \<le> n" "n < CLOUD_EVENTS_INTEGER_MAX"
  shows "\<exists>e. preflight research_preflight_errors (\<lambda>e. ed_project_id (e_data e) = p) n (PyDict (research_draft q)) = Inr (research_draft q, e)
    \<and> e_id e = rq_event_id (request_head_of q) \<and> ed_actor (e_data e) = rq_actor (request_head_of q)
    \<and> apply_ledger p f e = apply_research_payload f e (request_payload q)
    \<and> (\<forall>c. apply_ledger p f e = Inl (ResearchLedgerError c) \<longrightarrow>
        c \<notin> {''proposal-revision-mismatch'', ''unexpected-run-id'', ''run-target-mismatch'', ''evidence-refs-mismatch''})"
proof -
  have ok: "request_ok q"
    using assms(1,2) proposal_request_ok dissent_request_ok decision_request_ok question_request_ok answer_request_ok by blast
  let ?e = "request_drafted (request_type q) (request_head_of q) (request_document q) (request_run q) (n + 1)"
  have "preflight research_preflight_errors (\<lambda>e. ed_project_id (e_data e) = p) n (PyDict (research_draft q)) = Inr (research_draft q, ?e)"
    unfolding research_draft_parts assms(3)
    by (rule request_draft_accepted) (use ok assms(4,5) request_types(1) in \<open>auto simp: request_ok_def refs_ok_def\<close>)
  moreover have "e_id ?e = rq_event_id (request_head_of q)" "ed_actor (e_data ?e) = rq_actor (request_head_of q)"
    by (simp_all add: request_drafted_def drafted_def draft_data_of_def)
  moreover have "apply_ledger p f ?e = apply_research_payload f ?e (request_payload q)"
    "envelope_agrees (apply_research_payload f ?e (request_payload q))"
    using request_applied[OF ok refl] unfolding assms(3) by simp_all
  ultimately show ?thesis by (intro exI[of _ ?e]) (simp add: envelope_agrees_def envelope_codes_def)
qed

definition answer_request_sample :: pyval where
  "answer_request_sample = request_sample ''QuestionAnswerRequest'' (Some HUMAN)
     [(KStr (U ''questionId''), PyStr (U ''q'')), (KStr (U ''answer''), PyDict [(KStr (U ''text''), PyStr (U ''yes''))]),
      (KStr (U ''rights''), PyDict [(KStr (U ''status''), PyStr (U ''allowed''))])]"

lemma answer_request_valid: "\<exists>h p. validate_question_answer_request answer_request_sample = Some (QuestionAnswerRequest h p)
   \<and> rq_project_id h = U ''p''"
proof -
  have "decode_identifier (PyStr (U ''p'')) = Some (U ''p'')" "decode_identifier (PyStr (U ''st'')) = Some (U ''st'')"
    "decode_identifier (PyStr (U ''q'')) = Some (U ''q'')" "decode_text (PyStr (U ''s'')) = Some (U ''s'')"
    "decode_answer_actor (actor_document (Some HUMAN)) = Some \<lparr>actor_id = U ''a'', actor_kind_field = Some HUMAN, actor_model_id = None\<rparr>"
    "decode_event_identity sample_identity = Some (U ''1'', U ''2026-01-02T03:04:05Z'')" "decode_evidence_refs (PyList []) = Some []"
    "decode_answer (PyDict [(KStr (U ''text''), PyStr (U ''yes''))]) = Some (AnswerText (U ''yes''))"
    "decode_rights (PyDict [(KStr (U ''status''), PyStr (U ''allowed''))]) = Some \<lparr>ar_status = U ''allowed'', ar_allowed_uses = [U ''research-read'']\<rparr>"
    by code_simp+
  moreover have "decode_uri_reference (PyStr (U ''/r'')) = Some (U ''/r'')" by (simp add: decode_uri_reference_def sample_source keep_o_def)
  ultimately show ?thesis
    by (simp add: validate_question_answer_request_def answer_request_sample_def request_sample_def decode_request_head_def field_reading
      decode_literal_def decode_range_def keep_o_def request_keys_def CLOUD_EVENTS_INTEGER_MAX_def)
qed

theorem research_request_reaches_ledger_witness:
  "\<exists>q e. validate_question_answer_request answer_request_sample = Some q
     \<and> apply_ledger (U ''p'') empty_ledger e = apply_research_payload empty_ledger e (request_payload q)
     \<and> apply_ledger (U ''p'') empty_ledger e = ledger_error ''unknown-question''"
proof -
  obtain h p where q: "validate_question_answer_request answer_request_sample = Some (QuestionAnswerRequest h p)" "rq_project_id h = U ''p''"
    using answer_request_valid by blast
  have "(0::int) \<le> 0" "0 < CLOUD_EVENTS_INTEGER_MAX" by (simp_all add: CLOUD_EVENTS_INTEGER_MAX_def)
  from research_request_reaches_ledger[where validate = validate_question_answer_request, OF _ q(1) _ this, of "U ''p''" empty_ledger] q(2)
  obtain e where
    e: "apply_ledger (U ''p'') empty_ledger e = apply_research_payload empty_ledger e (request_payload (QuestionAnswerRequest h p))"
    "\<forall>c. apply_ledger (U ''p'') empty_ledger e = ledger_error c \<longrightarrow> c \<noteq> ''unexpected-run-id''" by auto
  then have "apply_ledger (U ''p'') empty_ledger e = ledger_error ''unknown-question''"
    by (auto simp: apply_research_payload_def apply_question_answered_def find_question_def empty_ledger_def split: if_splits)
  with e q show ?thesis by blast
qed

end
