(* ===== verification/Authorization.thy ===== *)
theory Authorization
  imports Kernel Log_Control
begin

text \<open>
  The authorization gate of \<open>execution/authorization.py\<close>: it evaluates a policy, what is granted and what is
  decided, against one exact ready plan.  \<open>KNOWN_PLAN_CAPABILITIES\<close> is that of \<open>policy/capabilities.py\<close>.

  The report that comes in is dumped and validated again; its fields come back as they were, so what is
  left of this is the validator of \<open>Kernel\<close>.  The classes of the arguments are their types here.
\<close>

section \<open>Policies and results\<close>

datatype requirement_decision = DecisionApproved | DecisionDenied

datatype authorization_status = PlanAuthorized | PlanPending | PlanDenied

fun decision_text :: "requirement_decision \<Rightarrow> pystr" where
  "decision_text DecisionApproved = U ''approved''"
| "decision_text DecisionDenied = U ''denied''"

fun status_text :: "authorization_status \<Rightarrow> pystr" where
  "status_text PlanAuthorized = U ''authorized''"
| "status_text PlanPending = U ''pending''"
| "status_text PlanDenied = U ''denied''"

record authorization_policy =
  pol_spec_digest :: pystr
  pol_registry_digest :: pystr
  pol_plan_digest :: pystr
  pol_capabilities :: "pystr list"
  pol_permissions :: "pystr list"
  pol_decisions :: "(pystr \<times> requirement_decision) list"

record plan_authorization =
  az_status :: authorization_status
  az_spec_digest :: pystr
  az_registry_digest :: pystr
  az_plan_digest :: pystr
  az_decision_digest :: pystr
  az_required_capabilities :: "pystr list"
  az_required_permissions :: "pystr list"
  az_missing_capabilities :: "pystr list"
  az_missing_permissions :: "pystr list"
  az_approved :: "pystr list"
  az_pending :: "pystr list"
  az_denied :: "pystr list"

definition authorized :: "plan_authorization \<Rightarrow> bool" where
  "authorized r \<longleftrightarrow> az_status r = PlanAuthorized"

text \<open>\<open>PlanAuthorizationError\<close> carries a fixed message; a digest may fail in the canonical form.\<close>

datatype authorization_error = PlanAuthorizationError string | DecisionDigestFailed jcs_error

definition KNOWN_PLAN_CAPABILITIES :: "pystr list" where
  "KNOWN_PLAN_CAPABILITIES = [U ''simulate'', U ''read.local_evidence'', U ''read.external_api'', U ''write.experiment_draft'',
     U ''execute.local'', U ''execute.oci'', U ''execute.gpu'', U ''execute.mps'', U ''execute.native'',
     U ''train.simulated'', U ''process.native'']"

definition IDENTIFIER_PATTERN :: regex where
  "IDENTIFIER_PATTERN = rseqs [crange [(CHR ''A'', CHR ''Z''), (CHR ''a'', CHR ''z''), (CHR ''0'', CHR ''9'')],
     rbetween 0 127 (crange [(CHR ''A'', CHR ''Z''), (CHR ''a'', CHR ''z''), (CHR ''0'', CHR ''9''),
       (CHR ''.'', CHR ''.''), (CHR ''_'', CHR ''_''), (CHR '':'', CHR '':''), (CHR ''-'', CHR ''-'')])]"

section \<open>The checks of the input\<close>

definition validated_ready_report :: "kernel_env \<Rightarrow> dry_run_report \<Rightarrow> authorization_error + dry_run_report" where
  "validated_ready_report env report =
     (if \<not> status_and_plan_are_consistent env report
      then Inl (PlanAuthorizationError ''authorization dry-run report failed validation'')
      else if \<not> dr_ready report then Inl (PlanAuthorizationError ''authorization requires a complete ready plan'')
      else Inr report)"

definition validate_policy_shape :: "authorization_policy \<Rightarrow> authorization_error + unit" where
  "validate_policy_shape p = check_r (list_all (fullmatch SEMANTIC_DIGEST_PATTERN) [pol_spec_digest p, pol_registry_digest p, pol_plan_digest p])
     (PlanAuthorizationError ''authorization policy contains an invalid digest'')"

definition validated_unique_identifiers :: "pystr list \<Rightarrow> string \<Rightarrow> authorization_error + pystr list" where
  "validated_unique_identifiers values label =
     bind_r (check_r (list_all (fullmatch IDENTIFIER_PATTERN) values) (PlanAuthorizationError (''authorization '' @ label @ '' are invalid''))) (\<lambda>_.
     bind_r (check_r (distinct values) (PlanAuthorizationError (''authorization '' @ label @ '' contain duplicates''))) (\<lambda>_. Inr values))"

text \<open>The decisions by id, a dict\<close>

definition add_decision :: "(pystr \<times> requirement_decision) list \<Rightarrow> pystr \<times> requirement_decision
    \<Rightarrow> authorization_error + (pystr \<times> requirement_decision) list" where
  "add_decision d iv =
     (if fst iv = [] then Inl (PlanAuthorizationError ''authorization requirement decisions are invalid'')
      else if map_of d (fst iv) \<noteq> None then Inl (PlanAuthorizationError ''authorization requirement decisions contain duplicates'')
      else Inr (d @ [iv]))"

definition validated_decisions :: "(pystr \<times> requirement_decision) list \<Rightarrow> authorization_error + (pystr \<times> requirement_decision) list" where
  "validated_decisions values = fold_r add_decision [] values"

text \<open>\<open>_declared_access\<close>: a stack of graphs, its top first; the sets are lists, which are only read in order.\<close>

fun node_capabilities :: "planned_node \<Rightarrow> pystr list" where
  "node_capabilities (PlannedTask t) = pt_declared_capabilities t"
| "node_capabilities _ = []"

fun node_permissions :: "planned_node \<Rightarrow> pystr list" where
  "node_permissions (PlannedTask t) = pt_declared_permissions t"
| "node_permissions _ = []"

function declared_access_loop :: "planned_graph list \<Rightarrow> pystr list \<times> pystr list \<Rightarrow> pystr list \<times> pystr list" where
  "declared_access_loop [] acc = acc"
| "declared_access_loop (current # pending) acc =
     declared_access_loop (rev (loop_bodies (graph_nodes current)) @ pending)
       (fst acc @ concat (List.map node_capabilities (graph_nodes current)),
        snd acc @ concat (List.map node_permissions (graph_nodes current)))"
  by pat_completeness auto

termination declared_access_loop
proof (relation "measure (\<lambda>(pending, acc). size_list size pending)")
  fix current :: planned_graph and pending :: "planned_graph list" and acc :: "pystr list \<times> pystr list"
  have "size_list size (loop_bodies (graph_nodes current)) < size current"
    using loop_bodies_size graph_nodes_size by (rule le_less_trans)
  then show "((rev (loop_bodies (graph_nodes current)) @ pending,
      fst acc @ concat (List.map node_capabilities (graph_nodes current)),
      snd acc @ concat (List.map node_permissions (graph_nodes current))), current # pending, acc)
      \<in> measure (\<lambda>(pending, acc). size_list size pending)"
    by (simp add: size_list_append)
qed simp

definition declared_access :: "planned_graph \<Rightarrow> pystr list \<times> pystr list" where
  "declared_access g = declared_access_loop [g] ([], [])"

section \<open>The gate\<close>

definition text_field :: "string \<Rightarrow> pystr \<Rightarrow> pykey \<times> pyval" where
  "text_field k v = (KStr (U k), PyStr v)"

text \<open>A list of ids with their dispositions\<close>

definition dispositions :: "(pystr \<Rightarrow> pystr) \<Rightarrow> pystr list \<Rightarrow> pyval" where
  "dispositions f ids = PyList (List.map (\<lambda>i. PyDict [text_field ''id'' i, text_field ''decision'' (f i)]) ids)"

definition authorization_payload :: "authorization_status \<Rightarrow> pystr \<Rightarrow> pystr \<Rightarrow> pystr \<Rightarrow> pyval \<Rightarrow> pyval \<Rightarrow> pyval \<Rightarrow> pyval" where
  "authorization_payload status spec registry plan capabilities permissions requirements =
     PyDict [text_field ''status'' (status_text status),
       (KStr (U ''digests''), PyDict [text_field ''spec'' spec, text_field ''registry'' registry, text_field ''plan'' plan]),
       (KStr (U ''capabilities''), capabilities), (KStr (U ''permissions''), permissions), (KStr (U ''requirements''), requirements)]"

definition granted_or_missing :: "pystr list \<Rightarrow> pystr \<Rightarrow> pystr" where
  "granted_or_missing granted i = (if List.member granted i then U ''granted'' else U ''missing'')"

text \<open>What is checked of a policy against the plan, in this order; then the result, but for its digest, and the document that is digested\<close>

definition check_policy :: "dry_run_report \<Rightarrow> pystr \<Rightarrow> pystr list \<times> pystr list \<Rightarrow> pystr list \<Rightarrow> authorization_policy \<Rightarrow> authorization_error + unit" where
  "check_policy snapshot digest access ids policy =
     bind_r (validate_policy_shape policy) (\<lambda>_.
     bind_r (validated_unique_identifiers (pol_capabilities policy) ''capability grants'') (\<lambda>granted_capabilities.
     bind_r (validated_unique_identifiers (pol_permissions policy) ''permission grants'') (\<lambda>granted_permissions.
     bind_r (validated_decisions (pol_decisions policy)) (\<lambda>decisions.
     bind_r (check_r (pol_spec_digest policy = dr_spec_digest snapshot \<and> pol_registry_digest policy = dr_registry_digest snapshot
         \<and> pol_plan_digest policy = digest) (PlanAuthorizationError ''authorization policy does not match the plan binding'')) (\<lambda>_.
     bind_r (check_r (list_all (List.member KNOWN_PLAN_CAPABILITIES) (fst access))
       (PlanAuthorizationError ''authorization plan declares an unregistered capability'')) (\<lambda>_.
     bind_r (check_r (distinct ids) (PlanAuthorizationError ''authorization plan contains duplicate requirements'')) (\<lambda>_.
     bind_r (check_r (list_all (List.member (fst access)) granted_capabilities)
       (PlanAuthorizationError ''authorization policy contains an unknown capability grant'')) (\<lambda>_.
     bind_r (check_r (list_all (List.member (snd access)) granted_permissions)
       (PlanAuthorizationError ''authorization policy contains an unknown permission grant'')) (\<lambda>_.
     check_r (list_all (\<lambda>d. List.member ids (fst d)) decisions)
       (PlanAuthorizationError ''authorization policy contains an unknown requirement decision''))))))))))"

definition gate_status :: "pystr list \<Rightarrow> pystr list \<Rightarrow> pystr list \<Rightarrow> pystr list \<Rightarrow> authorization_status" where
  "gate_status missing_capabilities missing_permissions denied pending =
     (if missing_capabilities \<noteq> [] \<or> missing_permissions \<noteq> [] \<or> denied \<noteq> [] then PlanDenied
      else if pending \<noteq> [] then PlanPending else PlanAuthorized)"

definition gate_result :: "dry_run_report \<Rightarrow> pystr \<Rightarrow> pystr list \<times> pystr list \<Rightarrow> pystr list \<Rightarrow> authorization_policy \<Rightarrow> plan_authorization" where
  "gate_result snapshot digest access ids policy =
     (let decisions = map_of (pol_decisions policy);
          required_capabilities = sorted_set (fst access); required_permissions = sorted_set (snd access);
          missing_capabilities = List.filter (\<lambda>i. \<not> List.member (pol_capabilities policy) i) required_capabilities;
          missing_permissions = List.filter (\<lambda>i. \<not> List.member (pol_permissions policy) i) required_permissions;
          approved = List.filter (\<lambda>i. decisions i = Some DecisionApproved) (sort ids);
          denied = List.filter (\<lambda>i. decisions i = Some DecisionDenied) (sort ids);
          pending = List.filter (\<lambda>i. decisions i = None) (sort ids)
      in \<lparr>az_status = gate_status missing_capabilities missing_permissions denied pending,
          az_spec_digest = dr_spec_digest snapshot, az_registry_digest = dr_registry_digest snapshot, az_plan_digest = digest,
          az_decision_digest = [], az_required_capabilities = required_capabilities, az_required_permissions = required_permissions,
          az_missing_capabilities = missing_capabilities, az_missing_permissions = missing_permissions,
          az_approved = approved, az_pending = pending, az_denied = denied\<rparr>)"

definition gate_payload :: "authorization_policy \<Rightarrow> pystr list \<Rightarrow> plan_authorization \<Rightarrow> pyval" where
  "gate_payload policy ids r = authorization_payload (az_status r) (az_spec_digest r) (az_registry_digest r) (az_plan_digest r)
     (dispositions (granted_or_missing (pol_capabilities policy)) (az_required_capabilities r))
     (dispositions (granted_or_missing (pol_permissions policy)) (az_required_permissions r))
     (dispositions (\<lambda>i. case map_of (pol_decisions policy) i of Some d \<Rightarrow> decision_text d | None \<Rightarrow> U ''pending'') (sort ids))"

definition authorize_plan :: "kernel_env \<Rightarrow> dry_run_report \<Rightarrow> authorization_policy \<Rightarrow> authorization_error + plan_authorization" where
  "authorize_plan env report policy =
     bind_r (validated_ready_report env report) (\<lambda>snapshot.
     case (dr_plan snapshot, dr_plan_digest snapshot) of
       (Some plan, Some digest) \<Rightarrow>
         let access = declared_access (ep_graph plan); ids = List.map req_id (ep_requirements plan);
             r = gate_result snapshot digest access ids policy in
         bind_r (check_policy snapshot digest access ids policy) (\<lambda>_.
         bind_r (map_sum DecisionDigestFailed id (content_digest (blk_sha (env_blocks env)) (gate_payload policy ids r))) (\<lambda>decision_digest.
         Inr (r\<lparr>az_decision_digest := decision_digest\<rparr>)))
     | _ \<Rightarrow> Inl (PlanAuthorizationError ''authorization requires a complete ready plan''))"

section \<open>The report\<close>

text \<open>The validator of \<open>PlanAuthorizationReport\<close> in \<open>execution/authorization_documents.py\<close>, which recomputes the decision
  digest from the collections of the report.  A report is a result and the flag \<open>authorized\<close>.\<close>

definition report_collections :: "plan_authorization \<Rightarrow> pystr list list" where
  "report_collections r = [az_required_capabilities r, az_required_permissions r, az_missing_capabilities r, az_missing_permissions r,
     az_approved r, az_pending r, az_denied r]"

definition disposition_of :: "plan_authorization \<Rightarrow> pystr \<Rightarrow> pystr" where
  "disposition_of r i = (if List.member (az_denied r) i then U ''denied'' else if List.member (az_pending r) i then U ''pending'' else U ''approved'')"

definition missing_or_granted :: "pystr list \<Rightarrow> pystr \<Rightarrow> pystr" where
  "missing_or_granted missing i = (if List.member missing i then U ''missing'' else U ''granted'')"

definition report_decision_payload :: "plan_authorization \<Rightarrow> pyval" where
  "report_decision_payload r = authorization_payload (az_status r) (az_spec_digest r) (az_registry_digest r) (az_plan_digest r)
     (dispositions (missing_or_granted (az_missing_capabilities r)) (az_required_capabilities r))
     (dispositions (missing_or_granted (az_missing_permissions r)) (az_required_permissions r))
     (dispositions (disposition_of r) (sorted_set (az_approved r @ az_pending r @ az_denied r)))"

definition report_self_consistent :: "(pystr \<Rightarrow> pystr) \<Rightarrow> plan_authorization \<Rightarrow> bool \<Rightarrow> bool" where
  "report_self_consistent sha r flag \<longleftrightarrow>
     list_all (\<lambda>c. sort c = c) (report_collections r) \<and> list_all distinct (report_collections r)
     \<and> list_all (List.member (az_required_capabilities r)) (az_missing_capabilities r)
     \<and> list_all (List.member (az_required_permissions r)) (az_missing_permissions r)
     \<and> \<not> list_ex (List.member (az_pending r)) (az_approved r) \<and> \<not> list_ex (List.member (az_denied r)) (az_approved r)
     \<and> \<not> list_ex (List.member (az_denied r)) (az_pending r)
     \<and> flag = (az_status r = PlanAuthorized)
     \<and> (let has_denial = az_missing_capabilities r \<noteq> [] \<or> az_missing_permissions r \<noteq> [] \<or> az_denied r \<noteq> [] in
        (case az_status r of
           PlanAuthorized \<Rightarrow> \<not> has_denial \<and> az_pending r = []
         | PlanPending \<Rightarrow> \<not> has_denial \<and> az_pending r \<noteq> []
         | PlanDenied \<Rightarrow> has_denial))
     \<and> content_digest sha (report_decision_payload r) = Inr (az_decision_digest r)"

section \<open>What a result says\<close>

lemma add_decisions:
  assumes "fold_r add_decision d xs = Inr e"
  shows "e = d @ xs \<and> (distinct (List.map fst d) \<longrightarrow> distinct (List.map fst (d @ xs))) \<and> list_all (\<lambda>x. fst x \<noteq> []) xs"
  using assms
proof (induction xs arbitrary: d)
  case (Cons x xs)
  then have x: "fst x \<noteq> []" "map_of d (fst x) = None" "fold_r add_decision (d @ [x]) xs = Inr e"
    by (auto simp: add_decision_def[of d x] bind_r_Inr_iff split: if_splits)
  have "fst x \<notin> set (List.map fst d)" using x(2) by (simp add: map_of_eq_None_iff)
  with Cons.IH[OF x(3)] x(1) show ?case by auto
qed simp

lemma validated_decisionsD:
  "validated_decisions xs = Inr e \<Longrightarrow> e = xs \<and> distinct (List.map fst xs)"
  using add_decisions[of "[]" xs e] by (simp add: validated_decisions_def)

lemma unique_identifiersD:
  "validated_unique_identifiers xs label = Inr ys \<Longrightarrow> ys = xs \<and> distinct xs"
  by (auto simp: validated_unique_identifiers_def bind_r_Inr_iff check_r_iff)

text \<open>The tasks of a plan, those of loop bodies included\<close>

fun node_tasks :: "planned_node \<Rightarrow> planned_task list"
and graph_tasks :: "planned_graph \<Rightarrow> planned_task list" where
  "node_tasks (PlannedTask t) = [t]"
| "node_tasks (PlannedApproval a) = []"
| "node_tasks (PlannedLoop l body) = graph_tasks body"
| "graph_tasks (PlannedGraph stages es) = concat (List.map (\<lambda>s. concat (List.map node_tasks (snd s))) stages)"

lemma graph_tasks_nodes: "set (graph_tasks g) = (\<Union>n\<in>set (graph_nodes g). set (node_tasks n))"
  by (cases g) auto

lemma nodes_tasks:
  "(\<Union>n\<in>set ns. set (node_tasks n)) = {t. PlannedTask t \<in> set ns} \<union> (\<Union>g\<in>set (loop_bodies ns). set (graph_tasks g))"
  by (induction ns rule: loop_bodies.induct) auto

lemma nodes_access:
  "set (concat (List.map node_capabilities ns)) = (\<Union>t\<in>{t. PlannedTask t \<in> set ns}. set (pt_declared_capabilities t))"
  "set (concat (List.map node_permissions ns)) = (\<Union>t\<in>{t. PlannedTask t \<in> set ns}. set (pt_declared_permissions t))"
proof -
  have "set (node_capabilities n) = (\<Union>t\<in>{t. PlannedTask t = n}. set (pt_declared_capabilities t))"
    "set (node_permissions n) = (\<Union>t\<in>{t. PlannedTask t = n}. set (pt_declared_permissions t))" for n
    by (cases n; simp)+
  then show "set (concat (List.map node_capabilities ns)) = (\<Union>t\<in>{t. PlannedTask t \<in> set ns}. set (pt_declared_capabilities t))"
    "set (concat (List.map node_permissions ns)) = (\<Union>t\<in>{t. PlannedTask t \<in> set ns}. set (pt_declared_permissions t))" by auto
qed

lemma declared_access_loop_tasks:
  "set (fst (declared_access_loop gs acc)) = set (fst acc) \<union> (\<Union>g\<in>set gs. \<Union>t\<in>set (graph_tasks g). set (pt_declared_capabilities t))"
  "set (snd (declared_access_loop gs acc)) = set (snd acc) \<union> (\<Union>g\<in>set gs. \<Union>t\<in>set (graph_tasks g). set (pt_declared_permissions t))"
proof (induction gs acc rule: declared_access_loop.induct)
  case (2 current pending acc)
  note tasks = graph_tasks_nodes[of current] nodes_tasks[of "graph_nodes current"]
  show "set (fst (declared_access_loop (current # pending) acc))
      = set (fst acc) \<union> (\<Union>g\<in>set (current # pending). \<Union>t\<in>set (graph_tasks g). set (pt_declared_capabilities t))"
    unfolding declared_access_loop.simps 2(1) fst_conv set_append nodes_access(1) using tasks by auto
  show "set (snd (declared_access_loop (current # pending) acc))
      = set (snd acc) \<union> (\<Union>g\<in>set (current # pending). \<Union>t\<in>set (graph_tasks g). set (pt_declared_permissions t))"
    unfolding declared_access_loop.simps 2(2) snd_conv set_append nodes_access(2) using tasks by auto
qed simp_all

lemma declared_access_tasks:
  assumes "declared_access g = (capabilities, permissions)"
  shows "set capabilities = (\<Union>t\<in>set (graph_tasks g). set (pt_declared_capabilities t))"
    "set permissions = (\<Union>t\<in>set (graph_tasks g). set (pt_declared_permissions t))"
  using declared_access_loop_tasks[of "[g]" "([], [])"] assms by (simp_all add: declared_access_def)

lemma check_policyD:
  assumes "check_policy report digest access ids policy = Inr ()"
  shows "distinct ids" "distinct (List.map fst (pol_decisions policy))" "pol_plan_digest policy = digest"
    "pol_spec_digest policy = dr_spec_digest report" "pol_registry_digest policy = dr_registry_digest report"
    "set (fst access) \<subseteq> set KNOWN_PLAN_CAPABILITIES" "set (pol_capabilities policy) \<subseteq> set (fst access)"
    "set (pol_permissions policy) \<subseteq> set (snd access)" "fst ` set (pol_decisions policy) \<subseteq> set ids"
  using assms by (auto simp: check_policy_def bind_r_Inr_iff check_r_iff list_all_iff List.member_iff dest!: unique_identifiersD validated_decisionsD)

lemma authorize_planE:
  assumes "authorize_plan env report policy = Inr r"
  obtains plan digest q where "status_and_plan_are_consistent env report" "dr_ready report" "dr_plan report = Some plan"
    "dr_plan_digest report = Some digest" "check_policy report digest (declared_access (ep_graph plan)) (List.map req_id (ep_requirements plan)) policy = Inr ()"
    "q = gate_result report digest (declared_access (ep_graph plan)) (List.map req_id (ep_requirements plan)) policy"
    "content_digest (blk_sha (env_blocks env)) (gate_payload policy (List.map req_id (ep_requirements plan)) q) = Inr (az_decision_digest r)"
    "r = q\<lparr>az_decision_digest := az_decision_digest r\<rparr>"
proof -
  have report: "validated_ready_report env report = Inr report" "status_and_plan_are_consistent env report" "dr_ready report"
    using assms by (auto simp: authorize_plan_def validated_ready_report_def split: if_splits)
  then obtain plan digest where plan: "dr_plan report = Some plan" "dr_plan_digest report = Some digest"
    by (auto simp: status_and_plan_are_consistent_def Let_def split: option.splits)
  show ?thesis
    by (rule that[OF report(2,3) plan _ refl])
      (use assms report(1) in \<open>auto simp: authorize_plan_def plan Let_def bind_r_Inr_iff map_sum_Inr_iff\<close>)
qed

lemma gate_result_simps [simp]:
  "az_required_capabilities (gate_result report digest access ids policy) = sorted_set (fst access)"
  "az_required_permissions (gate_result report digest access ids policy) = sorted_set (snd access)"
  "az_missing_capabilities (gate_result report digest access ids policy) = List.filter (\<lambda>i. \<not> List.member (pol_capabilities policy) i) (sorted_set (fst access))"
  "az_missing_permissions (gate_result report digest access ids policy) = List.filter (\<lambda>i. \<not> List.member (pol_permissions policy) i) (sorted_set (snd access))"
  "az_approved (gate_result report digest access ids policy) = List.filter (\<lambda>i. map_of (pol_decisions policy) i = Some DecisionApproved) (sort ids)"
  "az_denied (gate_result report digest access ids policy) = List.filter (\<lambda>i. map_of (pol_decisions policy) i = Some DecisionDenied) (sort ids)"
  "az_pending (gate_result report digest access ids policy) = List.filter (\<lambda>i. map_of (pol_decisions policy) i = None) (sort ids)"
  "az_spec_digest (gate_result report digest access ids policy) = dr_spec_digest report"
  "az_registry_digest (gate_result report digest access ids policy) = dr_registry_digest report"
  "az_plan_digest (gate_result report digest access ids policy) = digest"
  by (simp_all add: gate_result_def Let_def)

lemma gate_result_status:
  "az_status (gate_result report digest access ids policy) = gate_status (az_missing_capabilities (gate_result report digest access ids policy))
     (az_missing_permissions (gate_result report digest access ids policy)) (az_denied (gate_result report digest access ids policy))
     (az_pending (gate_result report digest access ids policy))"
  by (simp add: gate_result_def Let_def)

lemma sorted_set_props: "sort (sorted_set xs) = sorted_set xs" "distinct (sorted_set xs)" "set (sorted_set xs) = set xs"
  by (simp_all add: sorted_set_def sorted_sort_id)

lemma sort_remdups_set: "set xs = set ys \<Longrightarrow> sort (remdups xs) = sort (remdups ys)"
  by (metis sorted_list_of_set_sort_remdups)

lemma sort_filter_sorted: "sort (List.filter P (sort xs)) = List.filter P (sort xs)"
  by (simp add: sorted_sort_id sorted_wrt_filter)

lemma sort_filter_set: "sort (List.filter P (sorted_set xs)) = List.filter P (sorted_set xs)"
  by (simp add: sorted_set_def sort_filter_sorted)

text \<open>C7: The gate is exact.  A policy for a plan, when it is evaluated at all, is for this very plan, grants only what tasks of the plan
  declare and decides only what the plan requires.  The result is an authorization exactly if every capability and permission that a task of the
  plan declares, inside loops too, is granted and every requirement is approved; it is a denial exactly if something declared is not granted or a
  requirement is denied.\<close>

theorem authorization_exact:
  assumes "authorize_plan env report policy = Inr r"
  shows "\<exists>plan. dr_plan report = Some plan \<and> dr_plan_digest report = Some (az_plan_digest r)
    \<and> pol_plan_digest policy = az_plan_digest r \<and> pol_spec_digest policy = az_spec_digest r \<and> pol_registry_digest policy = az_registry_digest r
    \<and> set (pol_capabilities policy) \<subseteq> (\<Union>t\<in>set (graph_tasks (ep_graph plan)). set (pt_declared_capabilities t))
    \<and> set (pol_permissions policy) \<subseteq> (\<Union>t\<in>set (graph_tasks (ep_graph plan)). set (pt_declared_permissions t))
    \<and> fst ` set (pol_decisions policy) \<subseteq> req_id ` set (ep_requirements plan)
    \<and> (authorized r \<longleftrightarrow> (\<forall>t\<in>set (graph_tasks (ep_graph plan)). set (pt_declared_capabilities t) \<subseteq> set (pol_capabilities policy)
        \<and> set (pt_declared_permissions t) \<subseteq> set (pol_permissions policy))
      \<and> (\<forall>q\<in>set (ep_requirements plan). (req_id q, DecisionApproved) \<in> set (pol_decisions policy)))
    \<and> (az_status r = PlanDenied \<longleftrightarrow> (\<exists>t\<in>set (graph_tasks (ep_graph plan)). \<not> set (pt_declared_capabilities t) \<subseteq> set (pol_capabilities policy)
        \<or> \<not> set (pt_declared_permissions t) \<subseteq> set (pol_permissions policy))
      \<or> (\<exists>q\<in>set (ep_requirements plan). (req_id q, DecisionDenied) \<in> set (pol_decisions policy)))"
proof -
  obtain plan digest q where *: "dr_plan report = Some plan" "dr_plan_digest report = Some digest"
    "check_policy report digest (declared_access (ep_graph plan)) (List.map req_id (ep_requirements plan)) policy = Inr ()"
    "q = gate_result report digest (declared_access (ep_graph plan)) (List.map req_id (ep_requirements plan)) policy"
    and r: "r = q\<lparr>az_decision_digest := az_decision_digest r\<rparr>"
    by (rule authorize_planE[OF assms]) (rule that; assumption)
  note c = check_policyD[OF *(3)]
  obtain capabilities permissions where ac: "declared_access (ep_graph plan) = (capabilities, permissions)" by fastforce
  have f: "az_plan_digest r = digest" "az_spec_digest r = dr_spec_digest report" "az_registry_digest r = dr_registry_digest report"
    "az_missing_capabilities r = List.filter (\<lambda>i. \<not> List.member (pol_capabilities policy) i) (sorted_set capabilities)"
    "az_missing_permissions r = List.filter (\<lambda>i. \<not> List.member (pol_permissions policy) i) (sorted_set permissions)"
    "az_denied r = List.filter (\<lambda>i. map_of (pol_decisions policy) i = Some DecisionDenied) (sort (List.map req_id (ep_requirements plan)))"
    "az_pending r = List.filter (\<lambda>i. map_of (pol_decisions policy) i = None) (sort (List.map req_id (ep_requirements plan)))"
    "az_status r = gate_status (az_missing_capabilities r) (az_missing_permissions r) (az_denied r) (az_pending r)"
    by (subst r, simp add: *(4) ac gate_result_status)+
  note missing = f(4,5) and decided = f(6,7)
  note access = declared_access_tasks[OF ac]
  have d: "map_of (pol_decisions policy) i = Some x \<longleftrightarrow> (i, x) \<in> set (pol_decisions policy)" for i x
    using c(2) by (simp add: map_of_eq_Some_iff)
  have m: "az_missing_capabilities r = [] \<longleftrightarrow> (\<forall>t\<in>set (graph_tasks (ep_graph plan)). set (pt_declared_capabilities t) \<subseteq> set (pol_capabilities policy))"
    "az_missing_permissions r = [] \<longleftrightarrow> (\<forall>t\<in>set (graph_tasks (ep_graph plan)). set (pt_declared_permissions t) \<subseteq> set (pol_permissions policy))"
    unfolding missing by (auto simp: filter_empty_conv sorted_set_props access List.member_iff)
  have n: "az_denied r = [] \<longleftrightarrow> \<not> (\<exists>q\<in>set (ep_requirements plan). (req_id q, DecisionDenied) \<in> set (pol_decisions policy))"
    unfolding decided by (auto simp: filter_empty_conv d)
  have p: "az_denied r = [] \<and> az_pending r = [] \<longleftrightarrow> (\<forall>q\<in>set (ep_requirements plan). (req_id q, DecisionApproved) \<in> set (pol_decisions policy))"
  proof -
    have e: "map_of (pol_decisions policy) i = Some DecisionApproved
      \<longleftrightarrow> map_of (pol_decisions policy) i \<noteq> Some DecisionDenied \<and> map_of (pol_decisions policy) i \<noteq> None" for i
      by (metis option.distinct(1) option.exhaust requirement_decision.exhaust requirement_decision.distinct(1) option.inject)
    have "az_denied r = [] \<and> az_pending r = [] \<longleftrightarrow>
        (\<forall>q\<in>set (ep_requirements plan). map_of (pol_decisions policy) (req_id q) = Some DecisionApproved)"
      unfolding decided e by (auto simp: filter_empty_conv simp del: not_None_eq)
    then show ?thesis by (simp add: d)
  qed
  have s: "authorized r \<longleftrightarrow> az_missing_capabilities r = [] \<and> az_missing_permissions r = [] \<and> (az_denied r = [] \<and> az_pending r = [])"
    "az_status r = PlanDenied \<longleftrightarrow> az_missing_capabilities r \<noteq> [] \<or> az_missing_permissions r \<noteq> [] \<or> az_denied r \<noteq> []"
    unfolding authorized_def f(8) gate_status_def by auto
  show ?thesis
    by (rule exI[of _ plan]) (use *(1,2) c f(1-3) in \<open>simp add: ac access[symmetric] s m p; simp add: n; blast\<close>)
qed

text \<open>C34: The two computations of a decision digest agree: the report built from a result is always normalized, consistent
  with itself, and names the digest that its validator computes anew from its own collections.\<close>

theorem authorization_report_agrees:
  assumes "authorize_plan env report policy = Inr r"
  shows "report_self_consistent (blk_sha (env_blocks env)) r (authorized r)"
proof -
  obtain plan digest q where *: "dr_plan report = Some plan"
    "check_policy report digest (declared_access (ep_graph plan)) (List.map req_id (ep_requirements plan)) policy = Inr ()"
    "q = gate_result report digest (declared_access (ep_graph plan)) (List.map req_id (ep_requirements plan)) policy"
    and digest: "content_digest (blk_sha (env_blocks env)) (gate_payload policy (List.map req_id (ep_requirements plan)) q) = Inr (az_decision_digest r)"
    and r: "r = q\<lparr>az_decision_digest := az_decision_digest r\<rparr>"
    by (rule authorize_planE[OF assms]) (rule that; assumption)
  let ?ids = "sort (List.map req_id (ep_requirements plan))" and ?d = "map_of (pol_decisions policy)"
  have ids: "distinct ?ids" using check_policyD(1)[OF *(2)] by simp
  obtain capabilities permissions where ac: "declared_access (ep_graph plan) = (capabilities, permissions)" by fastforce
  have f: "az_plan_digest r = az_plan_digest q" "az_spec_digest r = az_spec_digest q" "az_registry_digest r = az_registry_digest q"
    "az_required_capabilities r = sorted_set capabilities" "az_required_permissions r = sorted_set permissions"
    "az_missing_capabilities r = List.filter (\<lambda>i. \<not> List.member (pol_capabilities policy) i) (sorted_set capabilities)"
    "az_missing_permissions r = List.filter (\<lambda>i. \<not> List.member (pol_permissions policy) i) (sorted_set permissions)"
    "az_approved r = List.filter (\<lambda>i. ?d i = Some DecisionApproved) ?ids"
    "az_denied r = List.filter (\<lambda>i. ?d i = Some DecisionDenied) ?ids" "az_pending r = List.filter (\<lambda>i. ?d i = None) ?ids"
    "az_status r = gate_status (az_missing_capabilities r) (az_missing_permissions r) (az_denied r) (az_pending r)"
    "az_status q = az_status r"
    by (subst r, simp add: *(3) ac gate_result_status)+
  have g: "az_required_capabilities q = sorted_set capabilities" "az_required_permissions q = sorted_set permissions"
    by (simp_all add: *(3) ac)
  note req = f(4,5) and missing = f(6,7) and decided = f(8-10)
  have caps: "dispositions (missing_or_granted (az_missing_capabilities r)) (az_required_capabilities r)
      = dispositions (granted_or_missing (pol_capabilities policy)) (sorted_set capabilities)"
    "dispositions (missing_or_granted (az_missing_permissions r)) (az_required_permissions r)
      = dispositions (granted_or_missing (pol_permissions policy)) (sorted_set permissions)"
    by (simp_all add: dispositions_def req missing missing_or_granted_def granted_or_missing_def List.member_iff)
  have all: "sorted_set (az_approved r @ az_pending r @ az_denied r) = ?ids"
  proof -
    have "?d i = Some DecisionApproved \<or> ?d i = None \<or> ?d i = Some DecisionDenied" for i
      by (metis option.exhaust requirement_decision.exhaust)
    then have "set (az_approved r @ az_pending r @ az_denied r) = set ?ids" unfolding decided by auto
    then have "sorted_set (az_approved r @ az_pending r @ az_denied r) = sort (remdups ?ids)"
      unfolding sorted_set_def by (rule sort_remdups_set)
    then show ?thesis using ids by (simp add: distinct_remdups_id sorted_sort_id del: remdups_map_remdups)
  qed
  have disp: "dispositions (disposition_of r) ?ids
      = dispositions (\<lambda>i. case ?d i of Some d \<Rightarrow> decision_text d | None \<Rightarrow> U ''pending'') ?ids"
  proof -
    have "disposition_of r i = (case ?d i of Some d \<Rightarrow> decision_text d | None \<Rightarrow> U ''pending'')" if "i \<in> set ?ids" for i
      using that by (cases "?d i"; cases "the (?d i)") (auto simp: disposition_of_def decided List.member_iff)
    then show ?thesis by (simp add: dispositions_def)
  qed
  have "content_digest (blk_sha (env_blocks env)) (report_decision_payload r) = Inr (az_decision_digest r)"
    using digest by (simp add: report_decision_payload_def gate_payload_def caps all disp f(1-3,12) g)
  moreover have "list_all (\<lambda>c. sort c = c) (report_collections r)" "list_all distinct (report_collections r)"
    using ids by (simp_all add: report_collections_def req missing decided sorted_set_props sort_filter_sorted sort_filter_set)
  moreover have "list_all (List.member (az_required_capabilities r)) (az_missing_capabilities r)"
    "list_all (List.member (az_required_permissions r)) (az_missing_permissions r)"
    by (simp_all add: req missing list_all_iff List.member_iff)
  moreover have "\<not> list_ex (List.member (az_pending r)) (az_approved r)" "\<not> list_ex (List.member (az_denied r)) (az_approved r)"
    "\<not> list_ex (List.member (az_denied r)) (az_pending r)"
    by (auto simp: decided list_ex_iff List.member_iff)
  ultimately show ?thesis by (simp add: report_self_consistent_def authorized_def Let_def f(11) gate_status_def)
qed

section \<open>A plan with one task\<close>

definition gate_env :: kernel_env where
  "gate_env = \<lparr>env_blocks = \<lparr>blk_sha = (\<lambda>_. replicate 64 48), blk_dump = (\<lambda>m. PyStr (bm_id m)), blk_reload = id, blk_violation = (\<lambda>_ _. None)\<rparr>,
     env_spec_dump = (\<lambda>s. PyNone), env_spec_reload = id, env_plan_dump = (\<lambda>p. [])\<rparr>"

definition gate_digest :: pystr where "gate_digest = JCS_SHA256_PREFIX @ replicate 64 48"

definition gate_task :: planned_task where
  "gate_task = \<lparr>pt_node_path = [U ''t''], pt_depends_on = [], pt_block = \<lparr>rv_id = U ''b'', rv_version = U ''1.0.0'', rv_manifest_digest = gate_digest,
     rv_runtime_type = U ''simulated''\<rparr>, pt_config_digest = gate_digest, pt_resource_refs = [],
     pt_declared_capabilities = [U ''simulate''], pt_declared_permissions = [U ''net'']\<rparr>"

definition gate_plan :: execution_plan where
  "gate_plan = \<lparr>ep_project_id = U ''p'', ep_project_revision = 1, ep_workflow_id = U ''w'', ep_spec_digest = gate_digest,
     ep_registry_digest = gate_digest, ep_resources = [], ep_requirements = [\<lparr>req_id = U ''approval:/a'', req_kind = ''human-approval'', req_subject = U ''/a''\<rparr>],
     ep_graph = PlannedGraph [(0, [PlannedTask gate_task])] []\<rparr>"

definition gate_report :: dry_run_report where
  "gate_report = \<lparr>dr_ready = True, dr_project = (U ''p'', 1), dr_workflow_id = U ''w'', dr_spec_digest = gate_digest, dr_registry_digest = gate_digest,
     dr_plan_digest = Some gate_digest, dr_summary = \<lparr>sm_planned = True, sm_truncated = False, sm_task_count = 1, sm_approval_count = 0,
     sm_loop_count = 0, sm_stage_count = 1\<rparr>, dr_plan = Some gate_plan, dr_diagnostics = []\<rparr>"

definition gate_policy :: "requirement_decision \<Rightarrow> authorization_policy" where
  "gate_policy d = \<lparr>pol_spec_digest = gate_digest, pol_registry_digest = gate_digest, pol_plan_digest = gate_digest,
     pol_capabilities = [U ''simulate''], pol_permissions = [U ''net''], pol_decisions = [(U ''approval:/a'', d)]\<rparr>"

lemma gate_sample: "\<exists>r. authorize_plan gate_env gate_report (gate_policy DecisionApproved) = Inr r \<and> authorized r"
  "\<exists>r. authorize_plan gate_env gate_report (gate_policy DecisionDenied) = Inr r \<and> az_status r = PlanDenied"
proof -
  have "case authorize_plan gate_env gate_report (gate_policy DecisionApproved) of Inr r \<Rightarrow> authorized r | Inl e \<Rightarrow> False"
    "case authorize_plan gate_env gate_report (gate_policy DecisionDenied) of Inr r \<Rightarrow> az_status r = PlanDenied | Inl e \<Rightarrow> False"
    by code_simp+
  then show "\<exists>r. authorize_plan gate_env gate_report (gate_policy DecisionApproved) = Inr r \<and> authorized r"
    "\<exists>r. authorize_plan gate_env gate_report (gate_policy DecisionDenied) = Inr r \<and> az_status r = PlanDenied"
    by (auto split: sum.splits)
qed

theorem authorization_exact_witness:
  "\<exists>r. authorize_plan gate_env gate_report (gate_policy DecisionApproved) = Inr r \<and> authorized r
    \<and> (U ''approval:/a'', DecisionApproved) \<in> set (pol_decisions (gate_policy DecisionApproved))"
proof -
  obtain r where r: "authorize_plan gate_env gate_report (gate_policy DecisionApproved) = Inr r" "authorized r" using gate_sample(1) by blast
  from authorization_exact[OF r(1)] r show ?thesis by (auto simp: gate_report_def gate_plan_def)
qed

theorem authorization_report_agrees_witness:
  "\<exists>r. authorize_plan gate_env gate_report (gate_policy DecisionDenied) = Inr r \<and> az_status r = PlanDenied
    \<and> report_self_consistent (\<lambda>_. replicate 64 48) r False"
proof -
  obtain r where r: "authorize_plan gate_env gate_report (gate_policy DecisionDenied) = Inr r" "az_status r = PlanDenied" using gate_sample(2) by blast
  from authorization_report_agrees[OF r(1)] r show ?thesis by (simp add: gate_env_def authorized_def)
qed

end
