(* ===== verification/Authorization_Events.thy ===== *)
theory Authorization_Events
  imports Authorization Requests Control_Calls
begin

text \<open>
  The fact \<open>plan.authorization.evaluated\<close>: its closed payload, the request to record it and the append boundary of
  \<open>execution/authorization_events.py\<close>, and \<open>consume_local_authorization\<close> of \<open>execution/consume.py\<close>, which reads the fact back
  and binds it to a report and a decision of the gate.
\<close>

section \<open>The payload\<close>

definition PLAN_AUTHORIZATION_EVALUATED_TYPE :: pystr where
  "PLAN_AUTHORIZATION_EVALUATED_TYPE = U ''plan.authorization.evaluated''"

definition MAX_AUTHORIZATION_ENTRIES :: nat where "MAX_AUTHORIZATION_ENTRIES = 10000"

text \<open>The binding, the status and the collections are those of a result.\<close>

record evaluated_payload =
  ev_workflow_id :: pystr
  ev_result :: plan_authorization
  ev_authorized :: bool

definition authorization_identifier :: "pystr \<Rightarrow> bool" where
  "authorization_identifier s \<longleftrightarrow> text_within 1 128 s \<and> fullmatch EVENT_IDENTIFIER_PATTERN s"

definition decode_authorization_identifier :: "pyval \<Rightarrow> pystr option" where
  "decode_authorization_identifier v = Option.bind (as_str v) (keep_o authorization_identifier)"

definition decode_status :: "pyval \<Rightarrow> authorization_status option" where
  "decode_status v = Option.bind (as_str v) (\<lambda>s. find_first (\<lambda>x. status_text x = s) [PlanAuthorized, PlanPending, PlanDenied])"

definition decode_binding :: "pyval \<Rightarrow> (pystr \<times> pystr \<times> pystr \<times> pystr) option" where
  "decode_binding v = do {
     d \<leftarrow> as_dict v;
     check_o (only_keys [U ''specDigest'', U ''registryDigest'', U ''planDigest'', U ''decisionDigest''] d);
     s \<leftarrow> req_field d (U ''specDigest'') (decode_matching SEMANTIC_DIGEST_PATTERN);
     r \<leftarrow> req_field d (U ''registryDigest'') (decode_matching SEMANTIC_DIGEST_PATTERN);
     p \<leftarrow> req_field d (U ''planDigest'') (decode_matching SEMANTIC_DIGEST_PATTERN);
     c \<leftarrow> req_field d (U ''decisionDigest'') (decode_matching SEMANTIC_DIGEST_PATTERN);
     Some (s, r, p, c) }"

abbreviation decode_identifiers :: "pyval \<Rightarrow> pystr list option" where
  "decode_identifiers \<equiv> decode_array 0 MAX_AUTHORIZATION_ENTRIES decode_authorization_identifier"

abbreviation decode_requirements :: "pyval \<Rightarrow> pystr list option" where
  "decode_requirements \<equiv> decode_array 0 MAX_AUTHORIZATION_ENTRIES (decode_within 1 4096)"

definition decode_evaluated :: "(pystr \<Rightarrow> pystr) \<Rightarrow> pyval \<Rightarrow> evaluated_payload option" where
  "decode_evaluated sha v = do {
     d \<leftarrow> as_dict v;
     check_o (only_keys [U ''workflowId'', U ''binding'', U ''status'', U ''authorized'', U ''requiredCapabilities'', U ''requiredPermissions'',
       U ''missingCapabilities'', U ''missingPermissions'', U ''approvedRequirements'', U ''pendingRequirements'', U ''deniedRequirements'',
       U ''approvalAuthentication'', U ''authority'', U ''execution''] d);
     w \<leftarrow> req_field d (U ''workflowId'') decode_identifier;
     b \<leftarrow> req_field d (U ''binding'') decode_binding;
     s \<leftarrow> req_field d (U ''status'') decode_status;
     a \<leftarrow> req_field d (U ''authorized'') as_bool;
     rc \<leftarrow> req_field d (U ''requiredCapabilities'') decode_identifiers;
     rp \<leftarrow> req_field d (U ''requiredPermissions'') decode_identifiers;
     mc \<leftarrow> req_field d (U ''missingCapabilities'') decode_identifiers;
     mp \<leftarrow> req_field d (U ''missingPermissions'') decode_identifiers;
     ap \<leftarrow> req_field d (U ''approvedRequirements'') decode_requirements;
     pe \<leftarrow> req_field d (U ''pendingRequirements'') decode_requirements;
     de \<leftarrow> req_field d (U ''deniedRequirements'') decode_requirements;
     req_field d (U ''approvalAuthentication'') (decode_literal [U ''not-authenticated'']);
     req_field d (U ''authority'') (decode_literal [U ''audit-only'']);
     req_field d (U ''execution'') (decode_literal [U ''not-executed'']);
     let r = \<lparr>az_status = s, az_spec_digest = fst b, az_registry_digest = fst (snd b), az_plan_digest = fst (snd (snd b)),
       az_decision_digest = snd (snd (snd b)), az_required_capabilities = rc, az_required_permissions = rp, az_missing_capabilities = mc,
       az_missing_permissions = mp, az_approved = ap, az_pending = pe, az_denied = de\<rparr> in do {
     check_o (report_self_consistent sha r a);
     Some \<lparr>ev_workflow_id = w, ev_result = r, ev_authorized = a\<rparr> } }"

text \<open>\<open>model_dump\<close>, in the order of the fields\<close>

definition evaluated_document :: "evaluated_payload \<Rightarrow> pydict" where
  "evaluated_document p = (let r = ev_result p in
     [text_field ''workflowId'' (ev_workflow_id p),
      (KStr (U ''binding''), PyDict [text_field ''specDigest'' (az_spec_digest r), text_field ''registryDigest'' (az_registry_digest r),
        text_field ''planDigest'' (az_plan_digest r), text_field ''decisionDigest'' (az_decision_digest r)]),
      text_field ''status'' (status_text (az_status r)), (KStr (U ''authorized''), PyBool (ev_authorized p)),
      (KStr (U ''requiredCapabilities''), text_list (az_required_capabilities r)), (KStr (U ''requiredPermissions''), text_list (az_required_permissions r)),
      (KStr (U ''missingCapabilities''), text_list (az_missing_capabilities r)), (KStr (U ''missingPermissions''), text_list (az_missing_permissions r)),
      (KStr (U ''approvedRequirements''), text_list (az_approved r)), (KStr (U ''pendingRequirements''), text_list (az_pending r)),
      (KStr (U ''deniedRequirements''), text_list (az_denied r)), text_field ''approvalAuthentication'' (U ''not-authenticated''),
      text_field ''authority'' (U ''audit-only''), text_field ''execution'' (U ''not-executed'')])"

text \<open>\<open>from_result\<close> builds the payload from its fields, and so runs all its validators.\<close>

definition entries_ok :: "(pystr \<Rightarrow> bool) \<Rightarrow> pystr list \<Rightarrow> bool" where
  "entries_ok P xs \<longleftrightarrow> length xs \<le> MAX_AUTHORIZATION_ENTRIES \<and> list_all P xs"

definition evaluated_ok :: "(pystr \<Rightarrow> pystr) \<Rightarrow> evaluated_payload \<Rightarrow> bool" where
  "evaluated_ok sha p \<longleftrightarrow> (let r = ev_result p in EventIdentifier (ev_workflow_id p)
     \<and> list_all (\<lambda>d. fullmatch SEMANTIC_DIGEST_PATTERN d \<and> utf8_ok d)
         [az_spec_digest r, az_registry_digest r, az_plan_digest r, az_decision_digest r]
     \<and> list_all (entries_ok authorization_identifier)
         [az_required_capabilities r, az_required_permissions r, az_missing_capabilities r, az_missing_permissions r]
     \<and> list_all (entries_ok (text_within 1 4096)) [az_approved r, az_pending r, az_denied r]
     \<and> report_self_consistent sha r (ev_authorized p))"

definition from_result :: "(pystr \<Rightarrow> pystr) \<Rightarrow> plan_authorization \<Rightarrow> pystr \<Rightarrow> evaluated_payload option" where
  "from_result sha r workflow_id = keep_o (evaluated_ok sha) \<lparr>ev_workflow_id = workflow_id, ev_result = r, ev_authorized = authorized r\<rparr>"

text \<open>The errors of recording: \<open>PlanAuthorizationRecordError\<close>, the gate's errors, the \<open>ValidationError\<close> of a payload that
  cannot be built, and the store's.\<close>

datatype record_error = AuthorizationRecordError string | AuthorizationGate authorization_error | EvaluatedInvalid | RecordStoreFailed store_error

definition validate_evaluated_event :: "(pystr \<Rightarrow> pystr) \<Rightarrow> research_event \<Rightarrow> record_error + evaluated_payload" where
  "validate_evaluated_event sha e =
     (if e_type e \<noteq> PLAN_AUTHORIZATION_EVALUATED_TYPE then Inl (AuthorizationRecordError ''authorization event type is invalid'')
      else if ed_run_id (e_data e) \<noteq> None \<or> ed_attempt_id (e_data e) \<noteq> None \<or> ed_block_id (e_data e) \<noteq> None
      then Inl (AuthorizationRecordError ''authorization event aggregate scope is invalid'')
      else lift_option (AuthorizationRecordError ''authorization event payload is invalid'') (decode_evaluated sha (ed_payload (e_data e))))"

section \<open>Reading back\<close>

lemma decode_evaluated_ok:
  assumes "decode_evaluated sha v = Some p"
  shows "evaluated_ok sha p"
proof -
  have l: "decode_array lo hi dec v = Some xs \<Longrightarrow> length xs \<le> hi \<and> (\<forall>x\<in>set xs. \<exists>v. dec v = Some x)" for lo hi dec v and xs :: "pystr list"
    using map_o_source[of dec] by (auto simp: decode_array_def decode_simps)
  have i: "decode_identifiers v = Some xs \<Longrightarrow> entries_ok authorization_identifier xs" for v xs
    using l[of 0 MAX_AUTHORIZATION_ENTRIES decode_authorization_identifier v xs]
    by (fastforce simp: entries_ok_def list_all_iff decode_authorization_identifier_def decode_simps)
  have q: "decode_requirements v = Some xs \<Longrightarrow> entries_ok (text_within 1 4096) xs" for v xs
    using l[of 0 MAX_AUTHORIZATION_ENTRIES "decode_within 1 4096" v xs]
    by (fastforce simp: entries_ok_def list_all_iff decode_within_def decode_simps)
  have d: "decode_matching p v = Some x \<Longrightarrow> fullmatch p x \<and> utf8_ok x" for p v x
    by (auto simp: decode_matching_def decode_simps as_str_utf8)
  show ?thesis using assms
    by (auto simp: decode_evaluated_def decode_binding_def decode_simps evaluated_ok_def Let_def decoded_checks i q d simp del: One_nat_def)
qed

lemma status_reads: "decode_status (PyStr (status_text s)) = Some s" "utf8_ok (status_text s)"
  by (cases s; simp add: decode_status_def)+

lemma entries_read:
  assumes "entries_ok authorization_identifier xs"
  shows "decode_identifiers (text_list xs) = Some xs" "plain_tree (text_list xs)"
proof -
  have u: "list_all utf8_ok xs" using assms by (auto simp: entries_ok_def list_all_iff authorization_identifier_def text_within_def)
  have "map_o decode_authorization_identifier (List.map PyStr xs) = Some xs"
    using assms u by (induction xs) (auto simp: entries_ok_def decode_authorization_identifier_def keep_o_def)
  then show "decode_identifiers (text_list xs) = Some xs" using assms by (simp add: decode_array_def text_list_def entries_ok_def keep_o_def)
  show "plain_tree (text_list xs)" using u by (simp add: text_list_def list.pred_map comp_def)
qed

lemma requirements_read:
  assumes "entries_ok (text_within 1 4096) xs"
  shows "decode_requirements (text_list xs) = Some xs" "plain_tree (text_list xs)"
proof -
  have u: "list_all utf8_ok xs" using assms by (auto simp: entries_ok_def list_all_iff text_within_def)
  have "map_o (decode_within 1 4096) (List.map PyStr xs) = Some xs"
    using assms u by (induction xs) (auto simp: entries_ok_def decode_within_def keep_o_def)
  then show "decode_requirements (text_list xs) = Some xs" using assms by (simp add: decode_array_def text_list_def entries_ok_def keep_o_def)
  show "plain_tree (text_list xs)" using u by (simp add: text_list_def list.pred_map comp_def)
qed

lemma evaluated_reads:
  assumes "evaluated_ok sha p"
  shows "decode_evaluated sha (PyDict (evaluated_document p)) = Some p" "plain_tree (PyDict (evaluated_document p))"
proof -
  note ok = assms[unfolded evaluated_ok_def Let_def]
  have u: "utf8_ok (ev_workflow_id p)" using ok by (simp add: utf8_oks)
  have b: "decode_binding (PyDict [text_field ''specDigest'' (az_spec_digest (ev_result p)), text_field ''registryDigest'' (az_registry_digest (ev_result p)),
        text_field ''planDigest'' (az_plan_digest (ev_result p)), text_field ''decisionDigest'' (az_decision_digest (ev_result p))])
      = Some (az_spec_digest (ev_result p), az_registry_digest (ev_result p), az_plan_digest (ev_result p), az_decision_digest (ev_result p))"
    using ok by (simp add: decode_binding_def text_field_def field_reading decode_matching_def keep_o_def)
  have l: "decode_literal [x] (PyStr x) = Some x" if "utf8_ok x" for x using that by (simp add: decode_literal_def keep_o_def)
  have s: "\<lparr>az_status = az_status r, az_spec_digest = az_spec_digest r, az_registry_digest = az_registry_digest r, az_plan_digest = az_plan_digest r,
      az_decision_digest = az_decision_digest r, az_required_capabilities = az_required_capabilities r, az_required_permissions = az_required_permissions r,
      az_missing_capabilities = az_missing_capabilities r, az_missing_permissions = az_missing_permissions r, az_approved = az_approved r,
      az_pending = az_pending r, az_denied = az_denied r\<rparr> = r" for r :: plan_authorization
    by (cases r) simp
  show "decode_evaluated sha (PyDict (evaluated_document p)) = Some p"
    using ok b by (simp add: decode_evaluated_def evaluated_document_def text_field_def field_reading Let_def status_reads entries_read requirements_read
      decode_identifier_def keep_o_def l u s del: One_nat_def)
  show "plain_tree (PyDict (evaluated_document p))"
    using ok u by (simp add: evaluated_document_def text_field_def Let_def status_reads entries_read requirements_read INLINE_BODY_KEYS_def del: One_nat_def)
qed

lemma blind_evaluated: "blind (decode_evaluated sha)"
proof -
  have a: "blind decode_authorization_identifier" "blind decode_status"
    unfolding decode_authorization_identifier_def[abs_def] decode_status_def[abs_def] by (rule blind_bind[OF blind_scalar(1)])+
  have b: "blind decode_binding" by (rule blind_as_dict; simp add: decode_binding_def shared_field_norm)
  show ?thesis by (rule blind_as_dict; simp add: decode_evaluated_def shared_field_norm a b)
qed

section \<open>Recording\<close>

text \<open>\<open>PlanAuthorizationEventRequestDocument\<close>; a request object that is passed in was validated when it was built, and validates again.\<close>

record evaluation_request =
  vq_project_id :: pystr
  vq_experiment_revision :: int
  vq_workflow_id :: pystr
  vq_binding :: "pystr \<times> pystr \<times> pystr \<times> pystr"
  vq_source :: pystr
  vq_subject :: pystr
  vq_stream_id :: pystr
  vq_actor_id :: pystr
  vq_event :: "pystr \<times> pystr"
  vq_evidence_refs :: "pystr list"

definition decode_actor_id :: "pyval \<Rightarrow> pystr option" where
  "decode_actor_id v = do { d \<leftarrow> as_dict v; check_o (only_keys [U ''id''] d); req_field d (U ''id'') decode_identifier }"

definition validate_evaluation_request :: "pyval \<Rightarrow> evaluation_request option" where
  "validate_evaluation_request v = do {
     d \<leftarrow> as_dict v;
     check_o (only_keys [U ''apiVersion'', U ''kind'', U ''projectId'', U ''experimentRevision'', U ''workflowId'', U ''binding'', U ''source'',
       U ''subject'', U ''streamid'', U ''actor'', U ''event'', U ''evidenceRefs''] d);
     req_field d (U ''apiVersion'') (decode_literal [U ''researchos.dev/v0alpha1'']);
     req_field d (U ''kind'') (decode_literal [U ''PlanAuthorizationEventRequest'']);
     p \<leftarrow> req_field d (U ''projectId'') decode_identifier;
     n \<leftarrow> req_field d (U ''experimentRevision'') (decode_range 1 CLOUD_EVENTS_INTEGER_MAX);
     w \<leftarrow> req_field d (U ''workflowId'') decode_identifier;
     b \<leftarrow> req_field d (U ''binding'') decode_binding;
     src \<leftarrow> req_field d (U ''source'') decode_uri_reference;
     sub \<leftarrow> req_field d (U ''subject'') decode_text;
     sid \<leftarrow> req_field d (U ''streamid'') decode_identifier;
     a \<leftarrow> req_field d (U ''actor'') decode_actor_id;
     ev \<leftarrow> req_field d (U ''event'') decode_event_identity;
     er \<leftarrow> req_field d (U ''evidenceRefs'') (decode_unique 0 MAX_AUTHORIZATION_ENTRIES decode_identifier);
     Some \<lparr>vq_project_id = p, vq_experiment_revision = n, vq_workflow_id = w, vq_binding = b, vq_source = src, vq_subject = sub,
       vq_stream_id = sid, vq_actor_id = a, vq_event = ev, vq_evidence_refs = er\<rparr> }"

definition evaluation_draft :: "evaluation_request \<Rightarrow> evaluated_payload \<Rightarrow> pydict" where
  "evaluation_draft q p =
     draft_document \<lparr>dh_id = fst (vq_event q), dh_type = PLAN_AUTHORIZATION_EVALUATED_TYPE, dh_time = snd (vq_event q), dh_source = vq_source q,
         dh_subject = vq_subject q, dh_stream = vq_stream_id q\<rparr>
       (draft_data (draft_actor (vq_actor_id q) (Some (kind_text HUMAN)) None) (vq_project_id q) (vq_experiment_revision q) None
         (evaluated_document p) (vq_evidence_refs q) None None)"

definition result_binding :: "plan_authorization \<Rightarrow> pystr \<times> pystr \<times> pystr \<times> pystr" where
  "result_binding r = (az_spec_digest r, az_registry_digest r, az_plan_digest r, az_decision_digest r)"

text \<open>What is decided before the store is asked: the result and the draft of its fact\<close>

definition evaluation_preflight :: "kernel_env \<Rightarrow> dry_run_report \<Rightarrow> authorization_policy \<Rightarrow> evaluation_request
    \<Rightarrow> record_error + plan_authorization \<times> pydict" where
  "evaluation_preflight env report policy q =
     (let sha = blk_sha (env_blocks env) in
      bind_r (map_sum AuthorizationGate id (authorize_plan env report policy)) (\<lambda>r.
      bind_r (check_r (vq_binding q = result_binding r)
        (AuthorizationRecordError ''authorization event request does not match the recomputed decision'')) (\<lambda>_.
      bind_r (check_r ((vq_project_id q, vq_experiment_revision q) = dr_project report \<and> vq_workflow_id q = dr_workflow_id report)
        (AuthorizationRecordError ''authorization event request does not match the planned revision'')) (\<lambda>_.
      bind_r (lift_option EvaluatedInvalid (from_result sha r (vq_workflow_id q))) (\<lambda>p.
      let draft = evaluation_draft q p in
      bind_r (lift_option (AuthorizationRecordError ''authorization event draft is invalid'')
        (validate_event_document (PyDict (allocate 1 0 draft)))) (\<lambda>pre.
      bind_r (validate_evaluated_event sha pre) (\<lambda>_. Inr (r, draft))))))))"

definition record_evaluation :: "env \<Rightarrow> kernel_env \<Rightarrow> turn \<Rightarrow> dry_run_report \<Rightarrow> authorization_policy \<Rightarrow> evaluation_request \<Rightarrow> store
    \<Rightarrow> store \<times> (record_error + plan_authorization \<times> stored_event)" where
  "record_evaluation senv env w report policy q s0 =
     (let s = tn_before w s0 in
      case evaluation_preflight env report policy q of
        Inl e \<Rightarrow> (s, Inl e)
      | Inr (r, draft) \<Rightarrow>
          (case freeze_high_water senv (tn_freeze w) s of
             Inl e \<Rightarrow> (s, Inl (RecordStoreFailed e))
           | Inr (s1, frozen_head) \<Rightarrow>
               (case append_store senv (tn_commit w) (PyDict draft) (Some frozen_head) (tn_others w s1) of
                  (s2, Inl e) \<Rightarrow> (s2, Inl (RecordStoreFailed e))
                | (s2, Inr stored) \<Rightarrow>
                    (s2, bind_r (validate_evaluated_event (blk_sha (env_blocks env)) (st_event stored)) (\<lambda>_. Inr (r, stored))))))"

section \<open>Consumption\<close>

datatype simulation_error = SimulationError pystr | SimulationStoreFailed store_error

abbreviation refuse_citation :: "string \<Rightarrow> simulation_error" where
  "refuse_citation code \<equiv> SimulationError (U code)"

definition require_binding :: "evaluated_payload \<Rightarrow> dry_run_report \<Rightarrow> plan_authorization \<Rightarrow> pystr \<Rightarrow> research_event \<Rightarrow> simulation_error + unit" where
  "require_binding p report authorization project_id e =
     (let b = ev_result p in
      bind_r (check_r (az_spec_digest b = dr_spec_digest report \<and> az_registry_digest b = dr_registry_digest report
          \<and> Some (az_plan_digest b) = dr_plan_digest report \<and> az_decision_digest b = az_decision_digest authorization
          \<and> az_spec_digest b = az_spec_digest authorization \<and> az_registry_digest b = az_registry_digest authorization
          \<and> az_plan_digest b = az_plan_digest authorization) (refuse_citation ''authorization-binding-mismatch'')) (\<lambda>_.
      check_r (ed_project_id (e_data e) = project_id \<and> (ed_project_id (e_data e), ed_experiment_revision (e_data e)) = dr_project report
          \<and> ev_workflow_id p = dr_workflow_id report) (refuse_citation ''authorization-project-mismatch'')))"

definition consume_local_authorization :: "env \<Rightarrow> (pystr \<Rightarrow> pystr) \<Rightarrow> pystr \<Rightarrow> pystr \<Rightarrow> dry_run_report \<Rightarrow> plan_authorization \<Rightarrow> pystr \<Rightarrow> store
    \<Rightarrow> simulation_error + stored_event" where
  "consume_local_authorization senv sha event_id seq report authorization project_id s =
     bind_r (map_sum SimulationStoreFailed id (get_event senv event_id s)) (\<lambda>found.
     bind_r (lift_option (refuse_citation ''authorization-event-not-found'') found) (\<lambda>stored.
     let e = st_event stored in
     bind_r (check_r (e_sequence e = seq) (refuse_citation ''authorization-sequence-mismatch'')) (\<lambda>_.
     bind_r (check_r (e_type e = PLAN_AUTHORIZATION_EVALUATED_TYPE) (refuse_citation ''authorization-type-mismatch'')) (\<lambda>_.
     bind_r (map_sum (\<lambda>_. refuse_citation ''authorization-event-invalid'') id (validate_evaluated_event sha e)) (\<lambda>p.
     bind_r (check_r (actor_kind_field (ed_actor (e_data e)) = Some HUMAN) (refuse_citation ''authorization-actor-not-human'')) (\<lambda>_.
     bind_r (check_r (ev_authorized p) (refuse_citation ''authorization-not-authorized'')) (\<lambda>_.
     bind_r (require_binding p report authorization project_id e) (\<lambda>_. Inr stored))))))))"

end
