(* ===== verification/Authorization_Theorems.thy ===== *)
theory Authorization_Theorems
  imports Authorization_Events Plane_Samples
begin

text \<open>
  A recorded decision and its citation: what recording writes, what a later run can read back, and what the
  reading refuses.
\<close>

section \<open>The draft of a decision\<close>

definition evaluation_head :: "evaluation_request \<Rightarrow> draft_head" where
  "evaluation_head q = \<lparr>dh_id = fst (vq_event q), dh_type = PLAN_AUTHORIZATION_EVALUATED_TYPE, dh_time = snd (vq_event q), dh_source = vq_source q,
     dh_subject = vq_subject q, dh_stream = vq_stream_id q\<rparr>"

definition evaluation_data :: "evaluation_request \<Rightarrow> evaluated_payload \<Rightarrow> research_event_data" where
  "evaluation_data q p = draft_data_of \<lparr>actor_id = vq_actor_id q, actor_kind_field = Some HUMAN, actor_model_id = None\<rparr> (vq_project_id q)
     (vq_experiment_revision q) (evaluated_document p) (vq_evidence_refs q) None None"

lemma evaluation_request_ok:
  assumes "validate_evaluation_request v = Some q"
  shows "draft_head_ok (evaluation_head q)" "EventIdentifier (vq_actor_id q)" "EventIdentifier (vq_project_id q)"
    "ExperimentRevision (vq_experiment_revision q)" "list_all EventIdentifier (vq_evidence_refs q)" "distinct (vq_evidence_refs q)"
proof -
  have t: "EventIdentifier PLAN_AUTHORIZATION_EVALUATED_TYPE" by code_simp
  have "draft_head_ok (evaluation_head q) \<and> EventIdentifier (vq_actor_id q) \<and> EventIdentifier (vq_project_id q)
    \<and> ExperimentRevision (vq_experiment_revision q) \<and> list_all EventIdentifier (vq_evidence_refs q) \<and> distinct (vq_evidence_refs q)"
    using assms t by (auto simp: validate_evaluation_request_def decode_simps decode_event_identity_def decode_actor_id_def draft_head_ok_def
      evaluation_head_def decoded_checks ExperimentRevision_def decode_range_def dest: decoded_identifiers)
  then show "draft_head_ok (evaluation_head q)" "EventIdentifier (vq_actor_id q)" "EventIdentifier (vq_project_id q)"
    "ExperimentRevision (vq_experiment_revision q)" "list_all EventIdentifier (vq_evidence_refs q)" "distinct (vq_evidence_refs q)" by simp_all
qed

lemma evaluation_draft_ok:
  assumes q: "validate_evaluation_request v = Some q" and p: "evaluated_ok sha p"
  shows "1 \<le> n \<Longrightarrow> n \<le> CLOUD_EVENTS_INTEGER_MAX \<Longrightarrow>
      validate_event_document (PyDict (allocate n 0 (evaluation_draft q p))) = Some (drafted (evaluation_head q) (evaluation_data q p) n 0)"
    "draft_ok env (PyDict (evaluation_draft q p))"
    "0 \<le> n \<Longrightarrow> n < CLOUD_EVENTS_INTEGER_MAX \<Longrightarrow> preflight err (\<lambda>e. True) n (PyDict (evaluation_draft q p))
      = Inr (evaluation_draft q p, drafted (evaluation_head q) (evaluation_data q p) (n + 1) 0)"
proof -
  note ok = evaluation_request_ok[OF q] and plain = evaluated_reads(2)[OF p]
  let ?a = "draft_actor (vq_actor_id q) (Some (kind_text HUMAN)) None"
  let ?data = "draft_data ?a (vq_project_id q) (vq_experiment_revision q) None (evaluated_document p) (vq_evidence_refs q) None None"
  have d: "evaluation_draft q p = draft_document (evaluation_head q) ?data" by (simp add: evaluation_draft_def evaluation_head_def)
  have a: "decode_actor (PyDict ?a) = Some \<lparr>actor_id = vq_actor_id q, actor_kind_field = Some HUMAN, actor_model_id = None\<rparr>"
    by (rule decode_draft_actor) (use ok(2) in simp_all)
  have da: "decode_event_data (PyDict ?data) = Some (evaluation_data q p)"
    unfolding evaluation_data_def by (rule decode_draft_data[OF a]) (use ok plain in \<open>simp_all add: draft_data_ok_def plain_payload del: plain_dict\<close>)
  have k: "keys_distinct (PyDict ?data) \<and> floats_ok fl (PyDict ?data)" for fl
    using draft_data_trees[of ?a "evaluated_document p" fl None None] plain
    by (simp add: draft_actor_trees plain_tree_def del: keys_distinct.simps floats_ok.simps plain_dict)
  show "1 \<le> n \<Longrightarrow> n \<le> CLOUD_EVENTS_INTEGER_MAX \<Longrightarrow>
      validate_event_document (PyDict (allocate n 0 (evaluation_draft q p))) = Some (drafted (evaluation_head q) (evaluation_data q p) n 0)"
    unfolding d by (rule validate_draft_document[OF ok(1) da]) (simp_all add: CLOUD_EVENTS_INTEGER_MAX_def)
  show "draft_ok env (PyDict (evaluation_draft q p))" unfolding d by (rule draft_document_ok(1)) (use k in simp_all)
  show "0 \<le> n \<Longrightarrow> n < CLOUD_EVENTS_INTEGER_MAX \<Longrightarrow> preflight err (\<lambda>e. True) n (PyDict (evaluation_draft q p))
      = Inr (evaluation_draft q p, drafted (evaluation_head q) (evaluation_data q p) (n + 1) 0)"
    unfolding d by (rule preflight_draft[OF ok(1) da]) (use k in simp_all)
qed

text \<open>A gate's result, put into a payload, is read as itself, whatever the order in which the log keeps its keys.\<close>

lemma evaluated_event_valid:
  assumes "evaluated_ok sha p" "e_type e = PLAN_AUTHORIZATION_EVALUATED_TYPE" "e_data e = evaluation_data q p"
  shows "validate_evaluated_event sha e = Inr p" "validate_evaluated_event sha (norm_event e) = Inr p"
proof -
  note reads = evaluated_reads[OF assms(1)]
  have "keys_distinct (PyDict (evaluated_document p))" using reads(2) by (simp add: plain_tree_def)
  then have "decode_evaluated sha (norm (PyDict (evaluated_document p))) = Some p"
    using reads(1) blind_evaluated[of sha] by (simp add: blind_def del: norm.simps)
  then show "validate_evaluated_event sha e = Inr p" "validate_evaluated_event sha (norm_event e) = Inr p"
    using reads(1) assms(2,3) by (simp_all add: validate_evaluated_event_def norm_event_def evaluation_data_def draft_data_of_def lift_option_def del: norm.simps)
qed

lemma evaluation_preflightE:
  assumes "evaluation_preflight env report policy q = Inr (r, draft)"
  obtains p where "authorize_plan env report policy = Inr r" "vq_binding q = result_binding r" "(vq_project_id q, vq_experiment_revision q) = dr_project report"
    "vq_workflow_id q = dr_workflow_id report" "evaluated_ok (blk_sha (env_blocks env)) p" "draft = evaluation_draft q p"
    "p = \<lparr>ev_workflow_id = vq_workflow_id q, ev_result = r, ev_authorized = authorized r\<rparr>"
  using assms by (auto simp: evaluation_preflight_def Let_def bind_r_Inr_iff check_r_iff lift_option_iff map_sum_Inr_iff from_result_def decode_simps)

section \<open>Recording\<close>

text \<open>What a committed append leaves: a number that was still free, and a fact that its id finds.\<close>

lemma committed_fact:
  assumes "store_inv env s" "draft_ok env (PyDict d)" "clock_ok now" "append_store env now (PyDict d) h s = (s', Inr st)"
  shows "last_sequence s < CLOUD_EVENTS_INTEGER_MAX"
    "get_event env (e_id (st_event st)) s' = Inr (Some (st\<lparr>st_event := norm_event (st_event st)\<rparr>))"
proof -
  have a: "append_checked env now (PyDict d) h s = Inr (s', st)" using assms(4) by (simp add: append_store_Inr)
  show "last_sequence s < CLOUD_EVENTS_INTEGER_MAX"
  proof (rule append_checked_committed[OF a])
    fix d' t stamp and e :: research_event
    assume *: "validate_event_document (PyDict (allocate (last_sequence s + 1) (last_stream_version (e_streamid e) s + 1) d')) = Some e"
      "e_sequence e = str_int (last_sequence s + 1)"
    have "sequence_of e = last_sequence s + 1" using *(2) last_sequence_nonneg[OF assms(1)] by (simp add: sequence_of_def str_int_nat)
    then show ?thesis using sequence_of_bounds(2)[of e] research_event_validD(1)[OF validate_event_document_valid[OF *(1)]] by simp
  qed
  obtain row where row: "db_events s' = db_events s @ [row]" "stored_event_from_row env row = Inr (st\<lparr>st_event := norm_event (st_event st)\<rparr>)"
    by (rule append_committed[OF a assms(1-3)])
  have inv: "store_inv env s'" using append_store_inv[OF assms(1-3), of h] assms(4) by simp
  have "row_event_id row = e_id (st_event st)" using stored_row_columns(3)[OF row(2)] by (simp add: norm_event_def)
  moreover have "find_first (\<lambda>q. row_event_id q = row_event_id row) (db_events s') = Some row"
    by (rule find_event_id) (use inv row(1) in \<open>simp_all add: store_inv_def\<close>)
  ultimately show "get_event env (e_id (st_event st)) s' = Inr (Some (st\<lparr>st_event := norm_event (st_event st)\<rparr>))"
    using row(2) by (simp add: get_event_def)
qed

lemma record_evaluationE:
  assumes env: "env_ok senv" "turn_ok senv w" "ready senv s0" and q: "validate_evaluation_request v = Some q"
    and rec: "record_evaluation senv env w report policy q s0 = (t, Inr (r, stored))"
  obtains s p n m where "evaluation_preflight env report policy q = Inr (r, evaluation_draft q p)" "evaluated_ok (blk_sha (env_blocks env)) p"
    "p = \<lparr>ev_workflow_id = vq_workflow_id q, ev_result = r, ev_authorized = authorized r\<rparr>"
    "later senv s0 s" "store_inv senv t" "facts senv t = facts senv s @ [fact_of stored]"
    "st_event stored = drafted (evaluation_head q) (evaluation_data q p) n m"
    "get_event senv (fst (vq_event q)) t = Inr (Some (stored\<lparr>st_event := norm_event (st_event stored)\<rparr>))"
proof -
  let ?sha = "blk_sha (env_blocks env)" and ?s = "tn_before w s0"
  from rec obtain draft s1 h where pre: "evaluation_preflight env report policy q = Inr (r, draft)"
    and f: "freeze_high_water senv (tn_freeze w) ?s = Inr (s1, h)"
    and app: "append_store senv (tn_commit w) (PyDict draft) (Some h) (tn_others w s1) = (t, Inr stored)"
    by (auto simp: record_evaluation_def Let_def bind_r_Inr_iff split: sum.splits prod.splits)
  obtain p where p: "evaluated_ok ?sha p" "draft = evaluation_draft q p"
    "p = \<lparr>ev_workflow_id = vq_workflow_id q, ev_result = r, ev_authorized = authorized r\<rparr>"
    by (rule evaluation_preflightE[OF pre])
  have w: "grows senv (tn_before w)" "grows senv (tn_others w)" "tn_freeze w \<noteq> Naive" "clock_ok (tn_commit w)"
    using env(2) by (simp_all add: turn_ok_def)
  have l0: "later senv s0 ?s" by (rule grows_later[OF w(1) env(3)])
  have i0: "store_inv senv ?s" using later_ready[OF l0] by (simp add: ready_def)
  note fe = freeze_effect[OF f env(1) w(3) i0]
  have l1: "later senv ?s s1" by (rule same_facts_later[OF later_ready[OF l0] fe(2,3)])
  let ?u = "tn_others w s1"
  have l: "later senv s0 ?u" by (rule log_later_trans[OF l0 log_later_trans[OF l1 grows_later[OF w(2) later_ready[OF l1]]]])
  have inv: "store_inv senv ?u" using later_ready[OF l] by (simp add: ready_def)
  have dr: "draft_ok senv (PyDict draft)" using evaluation_draft_ok(2)[OF q p(1)] p(2) by simp
  note fact = committed_fact[OF inv dr w(4) app]
  have "validate_event_document (PyDict (allocate (last_sequence ?u + 1) 0 draft))
      = Some (drafted (evaluation_head q) (evaluation_data q p) (last_sequence ?u + 1) 0)"
    unfolding p(2) by (rule evaluation_draft_ok(1)[OF q p(1)]) (use fact(1) last_sequence_nonneg[OF inv] in simp_all)
  then obtain m where m: "st_event stored = drafted (evaluation_head q) (evaluation_data q p) (last_sequence ?u + 1) m"
    by (rule committed_event[OF inv dr w(4) app]) (simp add: drafted_def)
  have good: "good_call senv (tn_commit w, PyDict draft)" using dr w(4) by (simp add: good_call_def)
  have call: "call_append senv ?u (tn_commit w, PyDict draft) (Some h) = (t, Inr stored)" using app by (simp add: call_append_def)
  show ?thesis
  proof (rule that[OF _ p(1) p(3) l _ _ m])
    show "evaluation_preflight env report policy q = Inr (r, evaluation_draft q p)" using pre p(2) by simp
    show "store_inv senv t" using store_log.add_ok[OF inv good, of "Some h"] call by simp
    show "facts senv t = facts senv ?u @ [fact_of stored]" by (rule store_log.add_committed[OF inv good call])
    show "get_event senv (fst (vq_event q)) t = Inr (Some (stored\<lparr>st_event := norm_event (st_event stored)\<rparr>))"
      using fact(2) m by (simp add: drafted_def evaluation_head_def)
  qed
qed

text \<open>The store finds a fact of its log by its id, and finds nothing else.\<close>

lemma get_event_fact:
  assumes "store_inv env s" "e \<in> set (facts env s)"
  shows "\<exists>st. get_event env (e_id e) s = Inr (Some st) \<and> st_event st = e"
proof -
  obtain row where row: "row \<in> set (db_events s)" "e = (case stored_event_from_row env row of Inr e \<Rightarrow> st_event e | Inl _ \<Rightarrow> undefined)"
    using assms(2) by (auto simp: facts_def)
  have "is_ok (stored_event_from_row env row)" using assms(1) row(1) by (auto simp: store_inv_def list_all_iff row_ok_def)
  then obtain st where st: "stored_event_from_row env row = Inr st" by (auto simp: is_ok_iff)
  have i: "row_event_id row = e_id e" using stored_row_columns(3)[OF st] row(2) st by simp
  have "find_first (\<lambda>q. row_event_id q = row_event_id row) (db_events s) = Some row"
    by (rule find_event_id) (use assms(1) row(1) in \<open>simp_all add: store_inv_def\<close>)
  then show ?thesis using st row(2) i by (simp add: get_event_def)
qed

lemma get_event_source:
  assumes "get_event env i s = Inr (Some st)"
  shows "st_event st \<in> set (facts env s)" "e_id (st_event st) = i"
proof -
  obtain row where row: "find_first (\<lambda>q. row_event_id q = i) (db_events s) = Some row" "stored_event_from_row env row = Inr st"
    using assms by (auto simp: get_event_def bind_r_Inr_iff split: option.splits)
  have m: "row \<in> set (db_events s)" "row_event_id row = i" using row(1) by (auto dest: find_first_SomeD)
  show "e_id (st_event st) = i" using stored_row_columns(3)[OF row(2)] m(2) by simp
  show "st_event st \<in> set (facts env s)" using m(1) row(2) by (force simp: facts_def)
qed

section \<open>Citing\<close>

lemma recorded_citation:
  assumes "env_ok senv" "turn_ok senv w" "ready senv s0" "validate_evaluation_request v = Some q"
    and "record_evaluation senv env w report policy q s0 = (t, Inr (r, stored))" and "later senv t u"
  obtains s cited where "prefix (facts senv s0) (facts senv s)" "facts senv t = facts senv s @ [fact_of stored]"
    "authorize_plan env report policy = Inr r" "st_event cited = fact_of stored"
    "consume_local_authorization senv (blk_sha (env_blocks env)) (fst (vq_event q)) (e_sequence (st_event stored)) report r (vq_project_id q) u
      = (if authorized r then Inr cited else Inl (SimulationError (U ''authorization-not-authorized'')))"
proof -
  obtain s p n m where pre: "evaluation_preflight env report policy q = Inr (r, evaluation_draft q p)"
    and p: "evaluated_ok (blk_sha (env_blocks env)) p" "p = \<lparr>ev_workflow_id = vq_workflow_id q, ev_result = r, ev_authorized = authorized r\<rparr>"
    and log: "later senv s0 s" "facts senv t = facts senv s @ [fact_of stored]"
    and e: "st_event stored = drafted (evaluation_head q) (evaluation_data q p) n m"
    by (rule record_evaluationE[OF assms(1-5)]) (rule that; assumption)
  obtain g: "authorize_plan env report policy = Inr r" "vq_binding q = result_binding r"
    "(vq_project_id q, vq_experiment_revision q) = dr_project report" "vq_workflow_id q = dr_workflow_id report"
    by (rule evaluation_preflightE[OF pre]) (rule that; assumption)
  obtain d: "az_spec_digest r = dr_spec_digest report" "az_registry_digest r = dr_registry_digest report"
    "dr_plan_digest report = Some (az_plan_digest r)"
  proof (rule authorize_planE[OF g(1)])
    fix plan digest x
    assume *: "dr_plan_digest report = Some digest"
      "x = gate_result report digest (declared_access (ep_graph plan)) (List.map req_id (ep_requirements plan)) policy"
      "r = x\<lparr>az_decision_digest := az_decision_digest r\<rparr>"
    show ?thesis by (rule that; subst *(3); simp add: *(1,2))
  qed
  have i: "e_id (fact_of stored) = fst (vq_event q)" "e_sequence (fact_of stored) = e_sequence (st_event stored)"
    "e_type (fact_of stored) = PLAN_AUTHORIZATION_EVALUATED_TYPE" "actor_kind_field (ed_actor (e_data (fact_of stored))) = Some HUMAN"
    "ed_project_id (e_data (fact_of stored)) = vq_project_id q" "ed_experiment_revision (e_data (fact_of stored)) = vq_experiment_revision q"
    by (simp_all add: fact_of_def norm_event_def e drafted_def evaluation_head_def evaluation_data_def draft_data_of_def)
  have v: "validate_evaluated_event (blk_sha (env_blocks env)) (fact_of stored) = Inr p"
    unfolding fact_of_def by (rule evaluated_event_valid(2)[OF p(1)]) (simp_all add: e drafted_def evaluation_head_def)
  have "store_inv senv u" "prefix (facts senv t) (facts senv u)" using assms(6) by (simp_all add: later_def ready_def)
  then obtain cited where c: "get_event senv (fst (vq_event q)) u = Inr (Some cited)" "st_event cited = fact_of stored"
    using get_event_fact[of senv u "fact_of stored"] log(2) i(1) by (auto simp: prefix_def)
  have b: "require_binding p report r (vq_project_id q) (fact_of stored) = Inr ()"
    by (simp add: require_binding_def Let_def p(2) i d g check_r_def)
  have a: "ev_authorized p = authorized r" by (simp add: p(2))
  have "consume_local_authorization senv (blk_sha (env_blocks env)) (fst (vq_event q)) (e_sequence (st_event stored)) report r (vq_project_id q) u
    = (if authorized r then Inr cited else Inl (SimulationError (U ''authorization-not-authorized'')))"
    using b by (simp add: consume_local_authorization_def Let_def c i v check_r_def lift_option_def a)
  then show ?thesis using log g(1) c(2) by (intro that[of s cited]) (simp_all add: later_def)
qed

text \<open>C9: What a recorded decision is worth.  After a decision of the gate has been recorded, the log has grown by exactly one fact after
  whatever other connections wrote; and a citation of that fact by its id and its sequence, in this store or any later state of it, for the same
  report and the same decision, finds it and is accepted exactly if the decision was an authorization, and refused as not authorized otherwise.\<close>

theorem recorded_decision_cited:
  assumes "env_ok senv" "turn_ok senv w" "ready senv s0" "validate_evaluation_request v = Some q"
    and "record_evaluation senv env w report policy q s0 = (t, Inr (r, stored))" and "later senv t u"
  shows "(\<exists>fs. prefix (facts senv s0) fs \<and> facts senv t = fs @ [fact_of stored])
    \<and> authorize_plan env report policy = Inr r
    \<and> (case consume_local_authorization senv (blk_sha (env_blocks env)) (fst (vq_event q)) (e_sequence (st_event stored)) report r (vq_project_id q) u of
         Inr cited \<Rightarrow> authorized r \<and> st_event cited = fact_of stored
       | Inl e \<Rightarrow> \<not> authorized r \<and> e = SimulationError (U ''authorization-not-authorized''))"
  by (rule recorded_citation[OF assms]) (auto simp: prefix_def)

text \<open>C8: What an accepted citation proves.  If a citation is accepted, the log holds a fact with the cited id and sequence, written by a human for
  this project, revision and workflow, whose payload says: authorized, nothing missing, pending or denied, for the digests of this very report;
  and the digest it carries for the decision is the one recomputed now, which is also the digest of the collections it lists.\<close>

theorem citation_binds:
  assumes "consume_local_authorization senv sha i seq report authorization project_id s = Inr cited"
  shows "st_event cited \<in> set (facts senv s) \<and> e_id (st_event cited) = i \<and> e_sequence (st_event cited) = seq
    \<and> actor_kind_field (ed_actor (e_data (st_event cited))) = Some HUMAN
    \<and> (project_id, ed_experiment_revision (e_data (st_event cited))) = dr_project report \<and> ed_project_id (e_data (st_event cited)) = project_id
    \<and> (\<exists>p. decode_evaluated sha (ed_payload (e_data (st_event cited))) = Some p \<and> ev_workflow_id p = dr_workflow_id report
        \<and> az_status (ev_result p) = PlanAuthorized \<and> az_missing_capabilities (ev_result p) = [] \<and> az_missing_permissions (ev_result p) = []
        \<and> az_pending (ev_result p) = [] \<and> az_denied (ev_result p) = []
        \<and> az_spec_digest (ev_result p) = dr_spec_digest report \<and> az_registry_digest (ev_result p) = dr_registry_digest report
        \<and> dr_plan_digest report = Some (az_plan_digest (ev_result p))
        \<and> content_digest sha (report_decision_payload (ev_result p)) = Inr (az_decision_digest authorization))"
proof -
  have find: "get_event senv i s = Inr (Some cited)" and v: "\<exists>p. validate_evaluated_event sha (st_event cited) = Inr p \<and> ev_authorized p
      \<and> require_binding p report authorization project_id (st_event cited) = Inr ()"
    and f: "e_sequence (st_event cited) = seq" "actor_kind_field (ed_actor (e_data (st_event cited))) = Some HUMAN"
    using assms by (auto simp: consume_local_authorization_def Let_def bind_r_Inr_iff check_r_iff lift_option_iff map_sum_Inr_iff)
  then obtain p where p: "decode_evaluated sha (ed_payload (e_data (st_event cited))) = Some p" "ev_authorized p"
      "require_binding p report authorization project_id (st_event cited) = Inr ()"
    by (auto simp: validate_evaluated_event_def lift_option_iff split: if_splits)
  have c: "report_self_consistent sha (ev_result p) True" using decode_evaluated_ok[OF p(1)] p(2) by (simp add: evaluated_ok_def Let_def)
  note b = p(3)[unfolded require_binding_def Let_def bind_r_Inr_iff check_r_iff]
  have g: "az_status (ev_result p) = PlanAuthorized" "az_missing_capabilities (ev_result p) = []" "az_missing_permissions (ev_result p) = []"
    "az_pending (ev_result p) = []" "az_denied (ev_result p) = []"
    "content_digest sha (report_decision_payload (ev_result p)) = Inr (az_decision_digest authorization)"
    using c b by (auto simp: report_self_consistent_def Let_def)
  show ?thesis using get_event_source[OF find] f g p(1) b by auto
qed

section \<open>A recorded decision\<close>

definition sample_decision :: plan_authorization where
  "sample_decision = \<lparr>az_status = PlanAuthorized, az_spec_digest = gate_digest, az_registry_digest = gate_digest, az_plan_digest = gate_digest,
     az_decision_digest = gate_digest, az_required_capabilities = [U ''simulate''], az_required_permissions = [U ''net''],
     az_missing_capabilities = [], az_missing_permissions = [], az_approved = [U ''approval:/a''], az_pending = [], az_denied = []\<rparr>"

definition sample_evaluated :: evaluated_payload where
  "sample_evaluated = \<lparr>ev_workflow_id = U ''w'', ev_result = sample_decision, ev_authorized = True\<rparr>"

definition sample_evaluation :: evaluation_request where
  "sample_evaluation = \<lparr>vq_project_id = U ''p'', vq_experiment_revision = 1, vq_workflow_id = U ''w'', vq_binding = result_binding sample_decision,
     vq_source = U ''/r'', vq_subject = U ''s'', vq_stream_id = U ''st'', vq_actor_id = U ''a'', vq_event = (U ''1'', sample_time), vq_evidence_refs = []\<rparr>"

definition sample_evaluation_document :: pyval where
  "sample_evaluation_document = PyDict
     [text_field ''apiVersion'' (U ''researchos.dev/v0alpha1''), text_field ''kind'' (U ''PlanAuthorizationEventRequest''),
      text_field ''projectId'' (U ''p''), (KStr (U ''experimentRevision''), PyInt 1), text_field ''workflowId'' (U ''w''),
      (KStr (U ''binding''), PyDict [text_field ''specDigest'' gate_digest, text_field ''registryDigest'' gate_digest,
        text_field ''planDigest'' gate_digest, text_field ''decisionDigest'' gate_digest]),
      text_field ''source'' (U ''/r''), text_field ''subject'' (U ''s''), text_field ''streamid'' (U ''st''),
      (KStr (U ''actor''), PyDict [text_field ''id'' (U ''a'')]), (KStr (U ''event''), sample_identity), (KStr (U ''evidenceRefs''), PyList [])]"

lemma sample_evaluation_valid: "validate_evaluation_request sample_evaluation_document = Some sample_evaluation"
proof -
  have "decode_identifier (PyStr (U ''p'')) = Some (U ''p'')" "decode_identifier (PyStr (U ''w'')) = Some (U ''w'')"
    "decode_identifier (PyStr (U ''st'')) = Some (U ''st'')" "decode_identifier (PyStr (U ''a'')) = Some (U ''a'')"
    "decode_text (PyStr (U ''s'')) = Some (U ''s'')" "decode_matching SEMANTIC_DIGEST_PATTERN (PyStr gate_digest) = Some gate_digest"
    "decode_event_identity sample_identity = Some (U ''1'', sample_time)"
    by code_simp+
  moreover have "decode_uri_reference (PyStr (U ''/r'')) = Some (U ''/r'')" by (simp add: decode_uri_reference_def sample_source keep_o_def)
  ultimately show ?thesis
    by (simp add: validate_evaluation_request_def sample_evaluation_document_def sample_evaluation_def text_field_def decode_binding_def
      decode_actor_id_def field_reading decode_literal_def decode_range_def keep_o_def CLOUD_EVENTS_INTEGER_MAX_def result_binding_def
      sample_decision_def decode_unique_def decode_array_def)
qed

lemma sample_evaluated_ok: "evaluated_ok (blk_sha (env_blocks gate_env)) sample_evaluated" by code_simp

lemma sample_evaluation_preflight:
  "evaluation_preflight gate_env gate_report (gate_policy DecisionApproved) sample_evaluation
    = Inr (sample_decision, evaluation_draft sample_evaluation sample_evaluated)"
proof -
  have a: "authorize_plan gate_env gate_report (gate_policy DecisionApproved) = Inr sample_decision" by code_simp
  have p: "from_result (blk_sha (env_blocks gate_env)) sample_decision (U ''w'') = Some sample_evaluated"
    using sample_evaluated_ok by (simp add: from_result_def keep_o_def sample_evaluated_def authorized_def sample_decision_def)
  have v: "validate_event_document (PyDict (allocate 1 0 (evaluation_draft sample_evaluation sample_evaluated)))
      = Some (drafted (evaluation_head sample_evaluation) (evaluation_data sample_evaluation sample_evaluated) 1 0)"
    by (rule evaluation_draft_ok(1)[OF sample_evaluation_valid sample_evaluated_ok]) (simp_all add: CLOUD_EVENTS_INTEGER_MAX_def)
  have e: "validate_evaluated_event (blk_sha (env_blocks gate_env))
      (drafted (evaluation_head sample_evaluation) (evaluation_data sample_evaluation sample_evaluated) 1 0) = Inr sample_evaluated"
    by (rule evaluated_event_valid(1)[OF sample_evaluated_ok]) (simp_all add: drafted_def evaluation_head_def)
  have q: "vq_workflow_id sample_evaluation = U ''w''" "vq_binding sample_evaluation = result_binding sample_decision"
    "(vq_project_id sample_evaluation, vq_experiment_revision sample_evaluation) = dr_project gate_report" "dr_workflow_id gate_report = U ''w''"
    by (simp_all add: sample_evaluation_def gate_report_def)
  show ?thesis unfolding evaluation_preflight_def Let_def a q p v by (simp add: check_r_def q p v e lift_option_def del: One_nat_def)
qed

lemma sample_recording:
  obtains t stored where "record_evaluation sample_env gate_env sample_turn gate_report (gate_policy DecisionApproved) sample_evaluation
      (empty_store sample_env) = (t, Inr (sample_decision, stored))" "ready sample_env t" "authorized sample_decision"
proof -
  let ?s = "empty_store sample_env" and ?d = "evaluation_draft sample_evaluation sample_evaluated"
  note q = sample_evaluation_valid sample_evaluated_ok
  have rdy: "ready sample_env ?s" using empty_store_ok by (simp add: ready_def)
  obtain s1 h where f: "freeze_high_water sample_env sample_clock ?s = Inr (s1, h)"
    using freeze_total[OF sample_env_ok(1) sample_clock_ok(2) empty_store_ok(1,2)] by (auto simp: is_ok_iff)
  note fe = freeze_effect[OF f sample_env_ok(1) sample_clock_ok(2) empty_store_ok(1)]
  have n: "length (facts sample_env s1) = 0" "h = 0" "db_events s1 = []" using fe(1,2) by (simp_all add: empty_store_def)
  have rdy1: "ready sample_env s1" by (rule later_ready[OF same_facts_later[OF rdy fe(2,3)]])
  have wr: "writable s1" using fe(4) empty_store_ok(3) by simp
  have pre: "preflight err (\<lambda>e. True) (int (length (facts sample_env s1))) (PyDict ?d)
      = Inr (?d, drafted (evaluation_head sample_evaluation) (evaluation_data sample_evaluation sample_evaluated) 1 0)" for err :: "store_error preflight_errors"
    using evaluation_draft_ok(3)[OF q, of 0 err] n(1) by (simp add: CLOUD_EVENTS_INTEGER_MAX_def)
  obtain u where u: "sample_clock = Aware u" by (rule sample_clock_aware)
  obtain t st where *: "append_store sample_env sample_clock (PyDict ?d) (Some (int (length (facts sample_env s1)))) s1 = (t, Inr st)"
      "ready sample_env t" "\<exists>m. st_event st = drafted (evaluation_head sample_evaluation) (evaluation_data sample_evaluation sample_evaluated) 1 0\<lparr>e_streamversion := m\<rparr>"
    by (rule draft_taken[OF sample_env_ok rdy1 wr evaluation_draft_ok(2)[OF q] sample_clock_ok(1) u pre]) (use n(3) in \<open>auto simp: id_fresh_def\<close>)
  have v: "validate_evaluated_event (blk_sha (env_blocks gate_env)) (st_event st) = Inr sample_evaluated"
    by (rule evaluated_event_valid(1)[OF q(2)]) (use *(3) in \<open>auto simp: drafted_def evaluation_head_def\<close>)
  show ?thesis
    by (rule that[of t st]) (use *(1,2) f n v in \<open>simp_all add: record_evaluation_def sample_turn_def sample_evaluation_preflight Let_def
      authorized_def sample_decision_def\<close>)
qed

theorem recorded_decision_cited_witness:
  "\<exists>t stored cited. record_evaluation sample_env gate_env sample_turn gate_report (gate_policy DecisionApproved) sample_evaluation
      (empty_store sample_env) = (t, Inr (sample_decision, stored))
    \<and> consume_local_authorization sample_env (\<lambda>_. replicate 64 48) (U ''1'') (e_sequence (st_event stored)) gate_report sample_decision (U ''p'') t = Inr cited
    \<and> st_event cited = fact_of stored"
proof (rule sample_recording)
  fix t stored
  assume t: "record_evaluation sample_env gate_env sample_turn gate_report (gate_policy DecisionApproved) sample_evaluation
      (empty_store sample_env) = (t, Inr (sample_decision, stored))" "ready sample_env t" "authorized sample_decision"
  have "ready sample_env (empty_store sample_env)" "turn_ok sample_env sample_turn"
    using empty_store_ok sample_plane_ok by (simp_all add: ready_def sample_plane_def)
  from recorded_decision_cited[OF sample_env_ok(1) this(2,1) sample_evaluation_valid t(1) log_later_refl[OF t(2)]] t
  show ?thesis by (auto simp: sample_evaluation_def gate_env_def split: sum.splits)
qed

theorem citation_binds_witness:
  "\<exists>t seq cited. consume_local_authorization sample_env (\<lambda>_. replicate 64 48) (U ''1'') seq gate_report sample_decision (U ''p'') t = Inr cited
    \<and> st_event cited \<in> set (facts sample_env t) \<and> actor_kind_field (ed_actor (e_data (st_event cited))) = Some HUMAN"
proof (rule sample_recording)
  fix t stored
  assume t: "record_evaluation sample_env gate_env sample_turn gate_report (gate_policy DecisionApproved) sample_evaluation
      (empty_store sample_env) = (t, Inr (sample_decision, stored))" "ready sample_env t" "authorized sample_decision"
  have h: "ready sample_env (empty_store sample_env)" "turn_ok sample_env sample_turn"
    using empty_store_ok sample_plane_ok by (simp_all add: ready_def sample_plane_def)
  obtain cited where "consume_local_authorization sample_env (\<lambda>_. replicate 64 48) (U ''1'') (e_sequence (st_event stored)) gate_report
      sample_decision (U ''p'') t = Inr cited"
    by (rule recorded_citation[OF sample_env_ok(1) h(2,1) sample_evaluation_valid t(1) log_later_refl[OF t(2)]])
      (use t(3) in \<open>simp add: sample_evaluation_def gate_env_def\<close>)
  from this citation_binds[OF this] show ?thesis by blast
qed

end
