(* ===== verification/Spec2Isabelle.thy ===== *)
theory Spec2Isabelle
  imports Control_Theorems Budget_Control Plane_Theorems Jcs Planner_Theorems Research_Requests Authorization_Theorems
begin

text \<open>
  Verification of the research control plane in \<open>src/llm_research_os\<close>.

  The program.  Everything the system knows is a sequence of facts, the research events
  (\<open>events/models.py\<close>), in one append-only SQLite table (\<open>storage/\<close>).  State is never stored: a
  control (\<open>runs/\<close>, \<open>budget/\<close>, \<open>workers/\<close>, \<open>research/\<close>) reads the log in pages up to a frozen head
  (\<open>projections/replay.py\<close>), folds it into its state, checks the next fact against that state and
  appends it with the head it has read as the precondition, so that a writer that came in between
  makes the append fail.  What is to be run is a research spec (\<open>spec/models.py\<close>) that a compiler
  (\<open>execution/planner.py\<close>) turns into an inert plan over registered blocks (\<open>blocks/\<close>), and that
  the kernel (\<open>execution/kernel.py\<close>) simulates without running anything.

  Paths below are relative to \<open>src/llm_research_os\<close>.  Each definition keeps the name of the function,
  method or class it translates where HOL allows it; a suffix or prefix tells apart names that several
  modules use.  The vocabulary:
  \<^item> Python text is a list of code points (\<open>Prelude\<close>), so lone surrogates exist; documents are the trees of
    \<open>Py_Value\<close>, dicts being association lists in insertion order; ints are unbounded.
  \<^item> A raise is \<open>Inl\<close> of an error value, a return \<open>Inr\<close>.  Each package has the datatype of its error
    classes; messages are kept only where they carry values that callers read.
  \<^item> pydantic classes are records with a \<open>..._ok\<close> predicate for the field constraints and validators,
    and a \<open>decode_...\<close> function from documents where the program reads them.  The strict, closed mode of
    the models (no coercion, no extra keys) is written out.
  \<^item> Stateful code takes the store and returns the store.  Where another process can act between two
    statements, the model takes a function \<open>others\<close> on stores; the theorems hold for every function
    that keeps the store's invariant and only adds to the log (\<open>grows\<close>).
  \<^item> The clock, SHA-256, id generation and SQLite's own checks are fields of the parameter \<open>env\<close>
    (\<open>Event_Store\<close>); \<open>env_ok\<close> and \<open>report_ok\<close> name what is relied on.

  The theories, from the bottom.

  Shared pieces.  \<open>Prelude\<close> (text, results, folds), \<open>Growth\<close> (lists whose entries only move on),
  \<open>Regex\<close> (\<open>re.fullmatch\<close> by derivatives), \<open>Py_Value\<close> (documents, strict scalars, closed key sets),
  \<open>Payload_Fields\<close> (field types the payload classes share), \<open>Samples\<close> and \<open>Store_Samples\<close> (concrete
  events and stores for the instances of theorems).

  Events.  \<open>Events\<close> models \<open>events/models.py\<close>: text constraints, the explicit-stack payload walk, the
  document classes and \<open>validate_event_document\<close>.  \<open>Canonical\<close> and \<open>Jcs\<close> model \<open>canonical.py\<close>: the
  legacy canonical form used for stored rows with \<open>json.loads\<close> to read it back, and the RFC 8785 form
  used for content digests, with UTF-16 key order and a digest over it.  \<open>Event_Json\<close> connects them: an event
  survives being written and read.  The walk's loop is a \<open>function\<close> with a termination measure
  (what is left on the stack); the JSON reader needs fuel, and the length of the text is shown enough.

  Store.  \<open>Store_Schema\<close> models \<open>storage/schema.py\<close> (statements, constraints, migration),
  \<open>Event_Store\<close> \<open>storage/store.py\<close>, \<open>storage/models.py\<close> and \<open>storage/errors.py\<close>: \<open>append_store\<close> with its
  transaction, reads, pages, the high-water mark, the checkpoint row, the integrity scan and the query
  tables.  \<open>Store_Facts\<close> has the invariant \<open>store_inv\<close> (rows numbered from 1 without gaps, each reading back as
  its event, ids unique) and its preservation; \<open>Event_Log\<close> is the contract, as locales, between the store
  and its clients (a log that only grows, exclusion by the expected head), interpreted in \<open>Store_Theorems\<close>
  on the model's store.

  Replay and folds.  \<open>Replay\<close> models \<open>projections/replay.py\<close> as the pair of what the generator yields
  and how it ends; its page loop runs on fuel given by the distance between start and end, which
  \<open>Replay\<close> shows to be enough.  \<open>Projections\<close> is the contract of \<open>projections/fold.py\<close>, \<open>Log_Control\<close>
  the copy of drafts (\<open>internal/jsonclone.py\<close>) and the fold during a replay, \<open>Fold_Control\<close> the shape shared by
  the rebuild and append of \<open>BudgetControl\<close> and \<open>WorkerControl\<close>.

  Runs.  \<open>Run_Models\<close> models \<open>runs/models.py\<close> (statuses, payloads, snapshots and their validators, the cached
  document), \<open>Run_Reducer\<close> \<open>runs/reducer.py\<close> handler by handler, with the reference machine the
  reducer refines, \<open>Run_Theorems\<close> its laws over whole histories.  \<open>Run_Control\<close> models \<open>runs/control.py\<close>
  with the cache row, \<open>Control_Theorems\<close> its theorems.

  Budgets.  \<open>Budget\<close> models \<open>budget/models.py\<close>, \<open>budget/money.py\<close> and the fold of \<open>budget/control.py\<close>,
  \<open>Budget_Control\<close> the control, including \<open>reserve_or_exceed\<close>.

  Workers.  \<open>Timestamps\<close> models \<open>parse_rfc3339\<close> of \<open>workers/tokens.py\<close>, \<open>Worker_Models\<close> \<open>workers/models.py\<close>,
  \<open>Worker_Fold\<close> and \<open>Worker_Facts\<close> the fold of \<open>workers/control.py\<close> and its invariant, \<open>Worker_Control\<close> the
  control, \<open>Worker_Drafts\<close> the drafts and requests of \<open>workers/drafts.py\<close> and \<open>workers/requests.py\<close>.
  \<open>Worker_Tokens\<close> models the signed tokens of \<open>workers/tokens.py\<close>, \<open>Control_Calls\<close> what one call of a
  control does between the calls of others, and \<open>Worker_Plane\<close> the class \<open>WorkerPlane\<close> of
  \<open>workers/plane.py\<close> operation by operation, each call with a turn of its own; \<open>Plane_Theorems\<close> has what
  polling and settling promise.

  Research ledger.  \<open>Research_Models\<close> models \<open>research/models.py\<close>, \<open>Research_Ledger\<close> and \<open>Research_Facts\<close> the
  fold of \<open>research/ledger.py\<close> into proposals, dissents, decisions and questions, \<open>Research_Control\<close> the control of
  \<open>research/control.py\<close>.  \<open>Drafts\<close> and \<open>Requests\<close> have what event drafts and closed request documents share,
  \<open>Research_Requests\<close> the five requests of \<open>research/requests.py\<close>.

  Plans.  \<open>Spec_Models\<close> and \<open>Spec_Research\<close> model \<open>spec/models.py\<close>; \<open>Graph_Order\<close> is the theory of
  Kahn's algorithm in the form the code uses, with its own locale; \<open>Blocks\<close> models \<open>blocks/models.py\<close> and
  \<open>blocks/registry.py\<close>, \<open>Planner\<close> and \<open>Kernel\<close> \<open>execution/models.py\<close>, \<open>execution/planner.py\<close> and
  \<open>execution/kernel.py\<close>; \<open>Planner_Facts\<close> and \<open>Planner_Theorems\<close> have the theorems.  The queue loop of the
  graph validator and of the planner recurses on the nodes not yet emitted, and loop bodies recurse on
  the nesting depth, with the depth of the document as the fuel.

  Authorization.  \<open>Authorization\<close> models the gate \<open>authorize_plan\<close> of \<open>execution/authorization.py\<close> and the validator of
  its report, \<open>Authorization_Events\<close> the fact \<open>plan.authorization.evaluated\<close>, its request and its recording
  (\<open>execution/authorization_events.py\<close>) and the consumption of a citation (\<open>execution/consume.py\<close>);
  \<open>Authorization_Theorems\<close> joins recording and consumption, \<open>Plane_Samples\<close> has a concrete log with claimed work.

  What the theorems show.  The store: appends are accepted exactly under the stated conditions, change nothing
  else, and no history of calls rewrites the log; the scan accepts exactly the intact databases;
  two writers with the same head exclude each other.  Replays: what is yielded is gapless, and over an
  intact store is the log.  Reducer: every reachable snapshot satisfies the whole snapshot
  validation, terminal runs are final, a run is cancelled only on request, and the reducer refines a reference
  machine.  Controls: rebuild is the fold of the frozen log, an append that returns
  adds exactly the checked fact to the folded log, one that raises adds nothing.  Budgets, workers and the
  ledger: what accepted logs guarantee (spending within the limit, one open lease for each
  task attempt, decisions taken by people and policies only, history kept).  Plans: the
  graph validator decides acyclicity, compilation succeeds under exactly the stated conditions, its stages are the
  layers of the graph, and a dry run never ends in an inconsistent report.  Authorization: the gate grants exactly
  what the plan declares and people approved, a recorded decision can be cited exactly if it is an authorization, and an
  accepted citation names a human's decision about this very report.

  Abstractions.  Documents are trees, so the identity of Python containers, and with it the code's checks
  for cyclic containers, is not represented.  Floats are their \<open>repr\<close>.  The busy time-outs, pragmas and files of SQLite
  are left out: a transaction runs alone or fails.  Python's recursion limit and memory are unbounded.

  Not modelled.  Code whose work is input and output or a foreign library: the command line
  (\<open>cli/\<close>), the web application and dashboard (\<open>web/\<close>, \<open>dashboard/\<close>), training, evaluation and
  reports, the GPU, MPS, OCI and SSH executors, HTTP clients and TLS, and JSON Schema generation
  (\<open>*schema.py\<close>).  Signatures and lineage of authorizations and the native-run documents of \<open>execution/\<close>, and four operations of the worker
  plane (\<open>record_grant\<close> and the three of native material and output), are outside the development, and so is
  the application facade.  The keyed hash of tokens and the decoding of their bytes are parameters.
\<close>

end
